(* ===== verification/Prelude.thy ===== *)
theory Prelude
  imports
    Main
    "HOL-Library.Word"
    "HOL-Library.AList"
    "HOL-Library.Char_ord"
    "HOL-Library.List_Lexorder"
begin

unbundle bit_operations_syntax

text \<open>
  Shared vocabulary of the development.

  \<^item> Strings. A Rust \<open>String\<close> is its UTF-8 byte sequence and \<open>Vec<u8>\<close> is a byte sequence;
    both are \<open>string\<close> here, since a HOL \<open>char\<close> is exactly one byte. \<open>as_bytes\<close>,
    \<open>into_bytes\<close> and \<open>to_vec\<close> are therefore identities, \<open>len\<close> is \<open>length\<close>, and
    \<open>chars().count()\<close> is \<open>chars_count\<close>, the number of bytes that are no UTF-8 continuation.
  \<^item> Results. \<open>Result<T, E>\<close> is \<open>'e + 't\<close> with \<open>Inl\<close> for the error.
  \<^item> Hash maps. \<open>HashMap<K, V>\<close> is an association list with distinct keys; the interface
    the components rely on is the locale \<open>table\<close>, interpreted on these lists.
  \<^item> Time. \<open>Duration\<close> and \<open>Instant\<close> are natural numbers of nanoseconds, so subtraction on
    \<open>nat\<close> is \<open>saturating_sub\<close> and \<open>saturating_duration_since\<close>.
\<close>

named_theorems table_simps \<open>rewrite rules for hash maps\<close>
named_theorems defs \<open>definitions the component proofs unfold\<close>

section \<open>Types\<close>

type_synonym u8 = "8 word"
type_synonym u32 = "32 word"
type_synonym u64 = "64 word"
type_synonym bytes = string
type_synonym duration = nat
type_synonym instant = nat
type_synonym ('k, 'v) hash_map = "('k \<times> 'v) list"

definition from_secs :: "nat \<Rightarrow> duration" where
  "from_secs n = n * 1000000000"

definition from_millis :: "nat \<Rightarrow> duration" where
  "from_millis n = n * 1000000"

definition as_millis :: "duration \<Rightarrow> nat" where
  "as_millis d = d div 1000000"

lemma from_secs_pos [simp]: "0 < from_secs n \<longleftrightarrow> 0 < n"
  by (simp add: from_secs_def)

lemma from_millis_mono [simp]: "from_millis a \<le> from_millis b \<longleftrightarrow> a \<le> b"
  by (simp add: from_millis_def)

lemma as_millis_from_millis [simp]: "as_millis (from_millis n) = n"
  by (simp add: as_millis_def from_millis_def)

section \<open>Results\<close>

definition ok_or :: "'a option \<Rightarrow> 'e \<Rightarrow> 'e + 'a" where
  "ok_or x e = (case x of None \<Rightarrow> Inl e | Some v \<Rightarrow> Inr v)"

definition and_then :: "'e + 'a \<Rightarrow> ('a \<Rightarrow> 'e + 'b) \<Rightarrow> 'e + 'b" where
  "and_then r f = (case r of Inl e \<Rightarrow> Inl e | Inr v \<Rightarrow> f v)"

definition is_ok :: "'e + 'a \<Rightarrow> bool" where
  "is_ok r = (case r of Inl _ \<Rightarrow> False | Inr _ \<Rightarrow> True)"

lemma ok_or_simps [simp]:
  "ok_or None e = Inl e" "ok_or (Some v) e = Inr v"
  by (simp_all add: ok_or_def)

lemma and_then_simps [simp]:
  "and_then (Inl e) f = Inl e" "and_then (Inr v) f = f v"
  by (simp_all add: and_then_def)

lemma is_ok_simps [simp]: "\<not> is_ok (Inl e)" "is_ok (Inr v)"
  by (simp_all add: is_ok_def)

lemma and_then_Inr_iff: "and_then r f = Inr y \<longleftrightarrow> (\<exists>x. r = Inr x \<and> f x = Inr y)"
  by (cases r) auto

section \<open>Hash maps\<close>

text \<open>
  The contract of a keyed table: \<open>get\<close>, \<open>insert\<close>, \<open>remove\<close> and \<open>retain\<close>, with \<open>wf\<close> the
  representation invariant every operation keeps.
\<close>

locale table =
  fixes get :: "'t \<Rightarrow> 'k \<Rightarrow> 'v option"
    and put :: "'k \<Rightarrow> 'v \<Rightarrow> 't \<Rightarrow> 't"
    and del :: "'k \<Rightarrow> 't \<Rightarrow> 't"
    and retain :: "('k \<Rightarrow> 'v \<Rightarrow> bool) \<Rightarrow> 't \<Rightarrow> 't"
    and wf :: "'t \<Rightarrow> bool"
  assumes get_put: "get (put k v t) = (get t)(k \<mapsto> v)"
    and get_del: "wf t \<Longrightarrow> get (del k t) = (get t)(k := None)"
    and get_retain: "wf t \<Longrightarrow> get (retain P t) k =
          (case get t k of None \<Rightarrow> None | Some v \<Rightarrow> if P k v then Some v else None)"
    and wf_put: "wf t \<Longrightarrow> wf (put k v t)"
    and wf_del: "wf t \<Longrightarrow> wf (del k t)"
    and wf_retain: "wf t \<Longrightarrow> wf (retain P t)"
begin

lemma retain_Some_iff: "wf t \<Longrightarrow> get (retain P t) k = Some v \<longleftrightarrow> get t k = Some v \<and> P k v"
  by (auto simp: get_retain split: option.splits)

lemma dom_retain_subset: "wf t \<Longrightarrow> dom (get (retain P t)) \<subseteq> dom (get t)"
  by (auto simp: retain_Some_iff)

lemma put_then_del: "wf t \<Longrightarrow> get (del k (put k v t)) = (get t)(k := None)"
  by (simp add: get_put get_del wf_put)

lemma retain_all: "wf t \<Longrightarrow> (\<And>k v. get t k = Some v \<Longrightarrow> P k v) \<Longrightarrow> get (retain P t) = get t"
  by (rule ext) (auto simp: get_retain split: option.splits)

end

definition hm_wf :: "('k, 'v) hash_map \<Rightarrow> bool" where
  "hm_wf m \<longleftrightarrow> distinct (map fst m)"

definition hm_retain :: "('k \<Rightarrow> 'v \<Rightarrow> bool) \<Rightarrow> ('k, 'v) hash_map \<Rightarrow> ('k, 'v) hash_map" where
  "hm_retain P m = filter (\<lambda>(k, v). P k v) m"

abbreviation hm_get :: "('k, 'v) hash_map \<Rightarrow> 'k \<Rightarrow> 'v option" where
  "hm_get \<equiv> map_of"

abbreviation hm_insert :: "'k \<Rightarrow> 'v \<Rightarrow> ('k, 'v) hash_map \<Rightarrow> ('k, 'v) hash_map" where
  "hm_insert \<equiv> AList.update"

abbreviation hm_remove :: "'k \<Rightarrow> ('k, 'v) hash_map \<Rightarrow> ('k, 'v) hash_map" where
  "hm_remove \<equiv> AList.delete"

lemma map_of_hm_retain:
  "hm_wf m \<Longrightarrow> map_of (hm_retain P m) k =
     (case map_of m k of None \<Rightarrow> None | Some v \<Rightarrow> if P k v then Some v else None)"
proof (induction m)
  case Nil
  then show ?case by (simp add: hm_retain_def)
next
  case (Cons e m)
  obtain a b where e: "e = (a, b)" by (cases e)
  from Cons.prems have "hm_wf m" and fresh: "map_of m a = None"
    by (auto simp: hm_wf_def e map_of_eq_None_iff)
  with Cons.IH have IH: "map_of (hm_retain P m) k =
     (case map_of m k of None \<Rightarrow> None | Some v \<Rightarrow> if P k v then Some v else None)" by simp
  show ?case
    using IH fresh by (cases "k = a") (auto simp: hm_retain_def e)
qed

lemma hm_wf_retain: "hm_wf m \<Longrightarrow> hm_wf (hm_retain P m)"
  by (induction m) (auto simp: hm_wf_def hm_retain_def)

lemma hm_wf_update: "hm_wf m \<Longrightarrow> hm_wf (AList.update k v m)"
  by (simp add: hm_wf_def distinct_update)

lemma hm_wf_delete: "hm_wf m \<Longrightarrow> hm_wf (AList.delete k m)"
  by (simp add: hm_wf_def distinct_delete)

interpretation hm: table map_of AList.update AList.delete hm_retain hm_wf
  by unfold_locales
    (simp_all add: update_conv' delete_conv' map_of_hm_retain hm_wf_retain hm_wf_update
      hm_wf_delete)

declare hm.get_put [table_simps] delete_conv' [table_simps] hm.retain_Some_iff [table_simps]
declare hm.wf_put [intro] hm.wf_del [intro] hm.wf_retain [intro]

lemma hm_wf_Nil [simp, intro]: "hm_wf []"
  by (simp add: hm_wf_def)

lemma hm_remove_subset: "set (AList.delete k m) \<subseteq> set m"
  by (auto simp: AList.delete_eq)

lemma hm_in_set_iff: "hm_wf m \<Longrightarrow> (k, v) \<in> set m \<longleftrightarrow> map_of m k = Some v"
  by (auto simp: hm_wf_def)

lemma hm_retain_empty_iff: "hm_retain P m = [] \<longleftrightarrow> (\<forall>(k, v) \<in> set m. \<not> P k v)"
  by (auto simp: hm_retain_def filter_empty_conv)

section \<open>UTF-8 strings\<close>

definition byte_val :: "char \<Rightarrow> nat" where
  "byte_val c = of_char c"

definition is_continuation :: "char \<Rightarrow> bool" where
  "is_continuation c \<longleftrightarrow> 128 \<le> byte_val c \<and> byte_val c < 192"

definition chars_count :: "string \<Rightarrow> nat" where
  "chars_count s = length (filter (\<lambda>c. \<not> is_continuation c) s)"

lemma chars_count_le_length: "chars_count s \<le> length s"
  by (simp add: chars_count_def)

lemma byte_val_less [simp]: "byte_val c < 256"
  by (simp add: byte_val_def)

definition is_ascii_hexdigit :: "char \<Rightarrow> bool" where
  "is_ascii_hexdigit c \<longleftrightarrow>
     (48 \<le> byte_val c \<and> byte_val c \<le> 57) \<or> (65 \<le> byte_val c \<and> byte_val c \<le> 70)
     \<or> (97 \<le> byte_val c \<and> byte_val c \<le> 102)"

definition to_ascii_uppercase :: "char \<Rightarrow> char" where
  "to_ascii_uppercase c = (if 97 \<le> byte_val c \<and> byte_val c \<le> 122
     then char_of (byte_val c - 32) else c)"

definition to_ascii_lowercase :: "char \<Rightarrow> char" where
  "to_ascii_lowercase c = (if 65 \<le> byte_val c \<and> byte_val c \<le> 90
     then char_of (byte_val c + 32) else c)"

definition eq_ignore_ascii_case :: "string \<Rightarrow> string \<Rightarrow> bool" where
  "eq_ignore_ascii_case a b \<longleftrightarrow> map to_ascii_lowercase a = map to_ascii_lowercase b"

definition starts_with :: "string \<Rightarrow> string \<Rightarrow> bool" where
  "starts_with p s \<longleftrightarrow> take (length p) s = p"

definition strip_prefix :: "string \<Rightarrow> string \<Rightarrow> string option" where
  "strip_prefix p s = (if take (length p) s = p then Some (drop (length p) s) else None)"

lemma strip_prefix_append [simp]: "strip_prefix p (p @ s) = Some s"
  by (simp add: strip_prefix_def)

lemma strip_prefix_Some_iff: "strip_prefix p s = Some r \<longleftrightarrow> s = p @ r"
  by (auto simp: strip_prefix_def) (metis append_take_drop_id)

text \<open>\<open>str::split(c)\<close>: the pieces between the separators, one more than there are separators.\<close>

fun split_on :: "(char \<Rightarrow> bool) \<Rightarrow> string \<Rightarrow> string list" where
  "split_on P [] = [[]]"
| "split_on P (c # cs) =
     (if P c then [] # split_on P cs
      else (case split_on P cs of [] \<Rightarrow> [[c]] | p # ps \<Rightarrow> (c # p) # ps))"

lemma split_on_not_Nil [simp]: "split_on P s \<noteq> []"
  by (induction s) (auto split: list.splits)

lemma length_split_on: "length (split_on P s) = Suc (length (filter P s))"
  by (induction s) (auto split: list.splits)

lemma split_on_no_sep: "\<forall>c \<in> set s. \<not> P c \<Longrightarrow> split_on P s = [s]"
  by (induction s) auto

lemma hd_split_on_append:
  "\<forall>c \<in> set s. \<not> P c \<Longrightarrow> P d \<Longrightarrow> split_on P (s @ d # t) = s # split_on P t"
  by (induction s) auto

end
