(* ===== verification/Gate.thy ===== *)
theory Gate
  imports Prelude
begin

text \<open>
  The contract of an exclusive gate: a component that admits at most one holder per identity and
  frees the identity when that holder leaves. Connection admission
  (\<open>src/daemon_runtime/admission.rs\<close>) is one over network identities, the scan scheduler
  (\<open>src/nm/scan_schedule.rs\<close>) one over device paths. A ticket is what an admitted caller keeps
  (a guard, a generation); \<open>holders_match\<close> relates the live tickets to the gate's state.
\<close>

definition holders_match :: "('t \<Rightarrow> 'id) \<Rightarrow> 'id set \<Rightarrow> 't list \<Rightarrow> bool" where
  "holders_match ident held ts \<longleftrightarrow> distinct (map ident ts) \<and> held = ident ` set ts"

lemma holders_match_Nil [simp]: "holders_match ident {} []"
  by (simp add: holders_match_def)

lemma holders_match_unique:
  "holders_match ident held ts \<Longrightarrow> t \<in> set ts \<Longrightarrow> u \<in> set ts \<Longrightarrow> ident t = ident u \<Longrightarrow> t = u"
  by (auto simp: holders_match_def distinct_map inj_on_def)

lemma holders_match_remove:
  assumes "holders_match ident held ts" and "t \<in> set ts"
  shows "holders_match ident (held - {ident t}) (remove1 t ts)"
proof -
  from assms have d: "distinct ts" and inj: "inj_on ident (set ts)"
    by (auto simp: holders_match_def distinct_map)
  then have "ident ` set (remove1 t ts) = ident ` set ts - {ident t}"
    using assms(2) by (auto simp: set_remove1_eq dest: inj_onD)
  with assms d inj show ?thesis
    by (auto simp: holders_match_def distinct_map intro: inj_on_subset)
qed

locale exclusive_gate =
  fixes enter :: "'req \<Rightarrow> 's \<Rightarrow> 't option \<times> 's"
    and leave :: "'fin \<Rightarrow> 't \<Rightarrow> 's \<Rightarrow> 's"
    and held :: "'s \<Rightarrow> 'id set"
    and req_id :: "'req \<Rightarrow> 'id"
    and ident :: "'t \<Rightarrow> 'id"
    and live :: "'t \<Rightarrow> 's \<Rightarrow> bool"
  assumes admitted: "enter r s = (Some t, s') \<Longrightarrow>
            req_id r \<notin> held s \<and> ident t = req_id r \<and> held s' = insert (req_id r) (held s) \<and> live t s'"
    and refused: "enter r s = (None, s') \<Longrightarrow> held s' = held s"
    and keeps_live: "enter r s = (x, s') \<Longrightarrow> live t s \<Longrightarrow> ident t \<in> held s \<Longrightarrow> live t s'"
    and left: "live t s \<Longrightarrow> held (leave f t s) = held s - {ident t}"
    and leave_other: "live u s \<Longrightarrow> ident u \<noteq> ident t \<Longrightarrow> live u (leave f t s)"
begin

text \<open>Every live ticket still owns its identity: the invariant of all runs through the gate.\<close>

definition consistent :: "'s \<Rightarrow> 't list \<Rightarrow> bool" where
  "consistent s ts \<longleftrightarrow> holders_match ident (held s) ts \<and> (\<forall>t \<in> set ts. live t s)"

lemma enter_admitted:
  assumes c: "consistent s ts" and e: "enter r s = (Some t, s')"
  shows "consistent s' (t # ts)"
proof -
  note a = admitted [OF e]
  have "live u s'" if "u \<in> set ts" for u
    using that c keeps_live [OF e, of u] by (auto simp: consistent_def holders_match_def)
  with a c show ?thesis
    by (auto simp: consistent_def holders_match_def)
qed

lemma enter_refused:
  assumes c: "consistent s ts" and e: "enter r s = (None, s')"
  shows "consistent s' ts"
proof -
  have "live u s'" if "u \<in> set ts" for u
    using that c keeps_live [OF e, of u] by (auto simp: consistent_def holders_match_def)
  with refused [OF e] c show ?thesis by (simp add: consistent_def)
qed

lemma leave_consistent:
  assumes c: "consistent s ts" and t: "t \<in> set ts"
  shows "consistent (leave f t s) (remove1 t ts)"
proof -
  from c t have m: "holders_match ident (held s) ts" and l: "live t s"
    by (auto simp: consistent_def)
  have "live u (leave f t s)" if u: "u \<in> set (remove1 t ts)" for u
  proof (rule leave_other)
    from u have "u \<in> set ts" using set_remove1_subset [of t ts] by auto
    then show "live u s" using c by (simp add: consistent_def)
    have "u \<noteq> t" using u m by (auto simp: holders_match_def distinct_map)
    then show "ident u \<noteq> ident t"
      using holders_match_unique [OF m _ t] \<open>u \<in> set ts\<close> by blast
  qed
  with holders_match_remove [OF m t] l show ?thesis
    by (simp add: consistent_def left)
qed

lemma free_after_all_left: "consistent s [] \<Longrightarrow> held s = {}"
  by (simp add: consistent_def holders_match_def)

end

end
