(* ===== verification/Json.thy ===== *)
theory Json
  imports Prelude
begin

text \<open>
  The JSON values the daemon builds and compares (\<open>serde_json::Value\<close>). A \<open>serde_json::Map\<close>
  without the \<open>preserve_order\<close> feature is a \<open>BTreeMap\<close>: an association list with strictly
  increasing keys, so two maps are equal exactly when their entries are. A finite double is
  kept as a mantissa/exponent pair, apart from the integers as in serde's \<open>Number\<close>.
\<close>

datatype json =
    JNull
  | JBool bool
  | JInt int
  | JFloat "int \<times> int"
  | JStr string
  | JArr "json list"
  | JObj "(string \<times> json) list"

type_synonym jmap = "(string \<times> json) list"

fun jmap_insert :: "string \<Rightarrow> json \<Rightarrow> jmap \<Rightarrow> jmap" where
  "jmap_insert k v [] = [(k, v)]"
| "jmap_insert k v ((k', v') # m) =
     (if k < k' then (k, v) # (k', v') # m
      else if k = k' then (k, v) # m
      else (k', v') # jmap_insert k v m)"

fun jmap_remove :: "string \<Rightarrow> jmap \<Rightarrow> jmap" where
  "jmap_remove k [] = []"
| "jmap_remove k ((k', v') # m) = (if k = k' then m else (k', v') # jmap_remove k m)"

definition jmap_get :: "jmap \<Rightarrow> string \<Rightarrow> json option" where
  "jmap_get m k = map_of m k"

definition jmap_wf :: "jmap \<Rightarrow> bool" where
  "jmap_wf m \<longleftrightarrow> sorted_wrt (<) (map fst m)"

definition jmap_of :: "(string \<times> json) list \<Rightarrow> jmap" where
  "jmap_of kvs = foldl (\<lambda>m (k, v). jmap_insert k v m) [] kvs"

text \<open>\<open>Value::get\<close>, indexing \<open>value[key]\<close> (null when absent) and \<open>as_str\<close>.\<close>

fun jget :: "json \<Rightarrow> string \<Rightarrow> json option" where
  "jget (JObj m) k = jmap_get m k"
| "jget _ k = None"

definition jindex :: "json \<Rightarrow> string \<Rightarrow> json" where
  "jindex v k = (case jget v k of None \<Rightarrow> JNull | Some x \<Rightarrow> x)"

fun as_str :: "json \<Rightarrow> string option" where
  "as_str (JStr s) = Some s"
| "as_str _ = None"

fun as_array :: "json \<Rightarrow> json list option" where
  "as_array (JArr xs) = Some xs"
| "as_array _ = None"

text \<open>
  \<open>value[key] = x\<close>: on null it makes an object, on an object it inserts; on every other value
  it panics, which no caller below reaches (\<open>None\<close>).
\<close>

fun jset :: "json \<Rightarrow> string \<Rightarrow> json \<Rightarrow> json option" where
  "jset (JObj m) k x = Some (JObj (jmap_insert k x m))"
| "jset JNull k x = Some (JObj [(k, x)])"
| "jset _ k x = None"

section \<open>The ordered map\<close>

lemma jmap_insert_keys: "fst ` set (jmap_insert k v m) = insert k (fst ` set m)"
  by (induction k v m rule: jmap_insert.induct) auto

lemma jmap_get_insert: "jmap_get (jmap_insert k v m) = (jmap_get m)(k \<mapsto> v)"
  unfolding jmap_get_def by (induction k v m rule: jmap_insert.induct) (auto simp: fun_eq_iff)

lemma jmap_wf_insert: "jmap_wf m \<Longrightarrow> jmap_wf (jmap_insert k v m)"
proof (induction k v m rule: jmap_insert.induct)
  case (1 k v)
  then show ?case by (simp add: jmap_wf_def)
next
  case (2 k v k' v' m)
  show ?case
  proof (cases "k' < k")
    case True
    with 2 have "jmap_wf (jmap_insert k v m)" by (auto simp: jmap_wf_def)
    moreover have "\<forall>x \<in> fst ` set (jmap_insert k v m). k' < x"
      using 2 True unfolding jmap_insert_keys by (auto simp: jmap_wf_def)
    ultimately show ?thesis using True by (auto simp: jmap_wf_def)
  next
    case False
    with 2 show ?thesis by (auto simp: jmap_wf_def)
  qed
qed

lemma jmap_wf_hm_wf: "jmap_wf m \<Longrightarrow> hm_wf m"
  by (simp add: jmap_wf_def hm_wf_def strict_sorted_iff)

lemma jmap_remove_filter: "jmap_wf m \<Longrightarrow> jmap_remove k m = hm_retain (\<lambda>k' v. k' \<noteq> k) m"
proof (induction k m rule: jmap_remove.induct)
  case (1 k)
  then show ?case by (simp add: hm_retain_def)
next
  case (2 k k' v' m)
  then have "jmap_wf m" and "\<forall>x \<in> set m. k' < fst x" by (auto simp: jmap_wf_def)
  with 2 show ?case by (auto simp: hm_retain_def intro!: filter_True [symmetric])
qed

lemma jmap_wf_retain: "jmap_wf m \<Longrightarrow> jmap_wf (hm_retain P m)"
  by (induction m) (auto simp: jmap_wf_def hm_retain_def)

interpretation jm: table jmap_get jmap_insert jmap_remove hm_retain jmap_wf
proof unfold_locales
  fix m :: jmap and k P
  assume wf: "jmap_wf m"
  note w = wf [THEN jmap_wf_hm_wf]
  show "jmap_get (hm_retain P m) k =
     (case jmap_get m k of None \<Rightarrow> None | Some v \<Rightarrow> if P k v then Some v else None)"
    using w by (simp add: jmap_get_def map_of_hm_retain)
  show "jmap_get (jmap_remove k m) = (jmap_get m)(k := None)"
    using w by (auto simp: jmap_get_def jmap_remove_filter [OF wf] map_of_hm_retain fun_eq_iff
        split: option.splits)
  show "jmap_wf (jmap_remove k m)"
    by (simp add: jmap_remove_filter wf jmap_wf_retain)
qed (simp_all add: jmap_get_insert jmap_wf_insert jmap_wf_retain)

declare jm.get_put [table_simps]

lemma jmap_wf_Nil [simp, intro]: "jmap_wf []"
  by (simp add: jmap_wf_def)

lemma jmap_ext:
  assumes m: "jmap_wf m" and n: "jmap_wf n" and eq: "jmap_get m = jmap_get n"
  shows "m = n"
proof -
  from m n have d: "distinct (map fst m)" "distinct (map fst n)"
    by (auto dest: jmap_wf_hm_wf simp: hm_wf_def)
  with eq have s: "set m = set n"
    using map_of_inject_set [OF d] by (simp add: jmap_get_def fun_eq_iff)
  have inj: "inj_on fst (set m \<union> set n)"
    using d s by (auto simp: inj_on_def dest: eq_key_imp_eq_value)
  show ?thesis
    by (rule map_sorted_distinct_set_unique [OF inj])
      (use m n d s in \<open>auto simp: jmap_wf_def strict_sorted_iff\<close>)
qed

end
