(* ===== verification/Errors.thy ===== *)
theory Errors
  imports Json
begin

text \<open>
  \<open>src/error.rs\<close> and \<open>src/connect_error.rs\<close>: the typed failures every other component returns.
  An \<open>anyhow::Error\<close> is the list of its layers as \<open>Error::chain\<close> visits them, outermost first;
  a \<open>DomainError\<close> layer carries its own cause, whose layers follow it in the chain.
  The Debug renderings of foreign error types (\<open>zbus\<close>, \<open>io\<close>, \<open>serde_json\<close>) are fields of
  their layers, since their text comes from code outside the repository.
\<close>

datatype connect_failure_reason =
    CfrSecretRequired | CfrWrongPassword | CfrPasswordUnavailable | CfrAuthorizationRequired
  | CfrUnsupportedAuth | CfrValidationError | CfrNotFound | CfrTimeout | CfrDhcpFailed
  | CfrActivationFailed | CfrUnknown

datatype error_code =
    ValidationError | NetworkmanagerUnavailable | Conflict | AuthorizationRequired | NotFound
  | Timeout | OutcomeUnknown | Cancelled | SecretRequired | WrongPassword | PasswordUnavailable
  | UnsupportedAuth | DhcpFailed | ActivationFailed | SubprocessFailed | InternalError
  | UnknownCode

datatype error_operation =
    OpInitialize | OpParseRequest | OpConnectSystemBus | OpCreateDbusProxy | OpStatus
  | OpConnectivity | OpDiscovery | OpInventory | OpStatistics | OpHotspotOperation
  | OpVpnOperation | OpQrOperation | OpNetworks | OpBandOperation | OpScan | OpConnect
  | OpDisconnect | OpProfileOperation | OpSubscribe | OpSecretOperation | OpSerializeResponse
  | OpEmitEvent | OpUnknown

datatype error_source =
    SrcValidation | SrcDbus | SrcIo | SrcSubprocess | SrcSerialization | SrcNetworkManager
  | SrcCancellation | SrcInternal

fun error_code_of_reason :: "connect_failure_reason \<Rightarrow> error_code" where
  "error_code_of_reason CfrSecretRequired = SecretRequired"
| "error_code_of_reason CfrWrongPassword = WrongPassword"
| "error_code_of_reason CfrPasswordUnavailable = PasswordUnavailable"
| "error_code_of_reason CfrAuthorizationRequired = AuthorizationRequired"
| "error_code_of_reason CfrUnsupportedAuth = UnsupportedAuth"
| "error_code_of_reason CfrValidationError = ValidationError"
| "error_code_of_reason CfrNotFound = NotFound"
| "error_code_of_reason CfrTimeout = Timeout"
| "error_code_of_reason CfrDhcpFailed = DhcpFailed"
| "error_code_of_reason CfrActivationFailed = ActivationFailed"
| "error_code_of_reason CfrUnknown = UnknownCode"

fun connect_reason :: "error_code \<Rightarrow> connect_failure_reason option" where
  "connect_reason ValidationError = Some CfrValidationError"
| "connect_reason AuthorizationRequired = Some CfrAuthorizationRequired"
| "connect_reason NotFound = Some CfrNotFound"
| "connect_reason Timeout = Some CfrTimeout"
| "connect_reason Cancelled = Some CfrActivationFailed"
| "connect_reason ActivationFailed = Some CfrActivationFailed"
| "connect_reason SubprocessFailed = Some CfrActivationFailed"
| "connect_reason SecretRequired = Some CfrSecretRequired"
| "connect_reason WrongPassword = Some CfrWrongPassword"
| "connect_reason PasswordUnavailable = Some CfrPasswordUnavailable"
| "connect_reason UnsupportedAuth = Some CfrUnsupportedAuth"
| "connect_reason DhcpFailed = Some CfrDhcpFailed"
| "connect_reason Conflict = None"
| "connect_reason OutcomeUnknown = None"
| "connect_reason NetworkmanagerUnavailable = None"
| "connect_reason InternalError = None"
| "connect_reason UnknownCode = None"

section \<open>Error chains\<close>

record io_error =
  io_timed_out :: bool
  io_kind_debug :: string
  io_raw_os_error :: "int option"
  io_display :: string

record json_error =
  je_line :: int
  je_column :: int
  je_category :: string
  je_display :: string

datatype zbus_error =
    ZMethodError (zname: string) (zdisplay: string)
  | ZInputOutput io_error (zdisplay: string)
  | ZUnsupported (zdebug: string) (zdisplay: string)
  | ZOther (zdebug: string) (zdisplay: string)

datatype layer =
    LDomain (dom_source: error_source) (dom_code: error_code) (dom_operation: error_operation)
      (dom_message: string) (dom_details: jmap)
  | LZbus zbus_error
  | LIo io_error
  | LJson json_error
  | LContext string

type_synonym anyhow_error = "layer list"

text \<open>A \<open>DomainError\<close>: its source kind (the enum's constructor), its context and its cause.\<close>

record domain_error =
  de_source :: error_source
  de_code :: error_code
  de_operation :: error_operation
  de_message :: string
  de_details :: jmap
  de_cause :: "anyhow_error option"

definition domain_error_new ::
    "error_code \<Rightarrow> error_operation \<Rightarrow> error_source \<Rightarrow> string \<Rightarrow> domain_error" where
  "domain_error_new code operation source_kind message =
     \<lparr>de_source = source_kind, de_code = code, de_operation = operation, de_message = message,
      de_details = [], de_cause = None\<rparr>"

definition with_detail :: "domain_error \<Rightarrow> string \<Rightarrow> json \<Rightarrow> domain_error" where
  "with_detail e k v = e\<lparr>de_details := jmap_insert k v (de_details e)\<rparr>"

definition with_cause :: "domain_error \<Rightarrow> anyhow_error \<Rightarrow> domain_error" where
  "with_cause e c = e\<lparr>de_cause := Some c\<rparr>"

text \<open>\<open>DomainError::into\<close>: the error's own layer, then the layers of its cause.\<close>

definition into_anyhow :: "domain_error \<Rightarrow> anyhow_error" where
  "into_anyhow e =
     LDomain (de_source e) (de_code e) (de_operation e) (de_message e) (de_details e)
     # (case de_cause e of None \<Rightarrow> [] | Some c \<Rightarrow> c)"

definition validation_error :: "error_operation \<Rightarrow> string \<Rightarrow> domain_error" where
  "validation_error operation message =
     domain_error_new ValidationError operation SrcValidation message"

definition connect_error :: "connect_failure_reason \<Rightarrow> string \<Rightarrow> domain_error" where
  "connect_error reason message =
     domain_error_new (error_code_of_reason reason) OpConnect SrcNetworkManager message"

definition internal_error :: "error_operation \<Rightarrow> string \<Rightarrow> domain_error" where
  "internal_error operation message = domain_error_new InternalError operation SrcInternal message"

definition cancelled_operation :: "error_operation \<Rightarrow> string \<Rightarrow> domain_error" where
  "cancelled_operation operation message =
     domain_error_new Cancelled operation SrcCancellation message"

definition cancelled_error :: "string \<Rightarrow> domain_error" where
  "cancelled_error message = cancelled_operation OpConnect message"

definition timeout_error :: "error_operation \<Rightarrow> string \<Rightarrow> domain_error" where
  "timeout_error operation message = domain_error_new Timeout operation SrcNetworkManager message"

definition conflict_error :: "error_operation \<Rightarrow> string \<Rightarrow> domain_error" where
  "conflict_error operation message = domain_error_new Conflict operation SrcValidation message"

definition not_found_error :: "error_operation \<Rightarrow> string \<Rightarrow> domain_error" where
  "not_found_error operation message = domain_error_new NotFound operation SrcNetworkManager message"

section \<open>Rendering and classification\<close>

fun layer_display :: "layer \<Rightarrow> string" where
  "layer_display (LDomain _ _ _ m _) = m"
| "layer_display (LZbus z) = zdisplay z"
| "layer_display (LIo e) = io_display e"
| "layer_display (LJson e) = je_display e"
| "layer_display (LContext m) = m"

text \<open>The alternate Display of an \<open>anyhow::Error\<close>: every layer, joined by a colon and a space.\<close>

fun render_alternate :: "anyhow_error \<Rightarrow> string" where
  "render_alternate [] = ''''"
| "render_alternate [l] = layer_display l"
| "render_alternate (l # ls) = layer_display l @ '': '' @ render_alternate ls"

record error_report =
  er_code :: error_code
  er_operation :: error_operation
  er_source :: error_source
  er_message :: string
  er_details :: jmap

fun find_domain_error :: "anyhow_error \<Rightarrow> layer option" where
  "find_domain_error [] = None"
| "find_domain_error (LDomain s c op m d # ls) = Some (LDomain s c op m d)"
| "find_domain_error (l # ls) = find_domain_error ls"

fun find_zbus :: "anyhow_error \<Rightarrow> zbus_error option" where
  "find_zbus [] = None"
| "find_zbus (LZbus z # ls) = Some z"
| "find_zbus (l # ls) = find_zbus ls"

fun find_io :: "anyhow_error \<Rightarrow> io_error option" where
  "find_io [] = None"
| "find_io (LIo e # ls) = Some e"
| "find_io (l # ls) = find_io ls"

fun find_json :: "anyhow_error \<Rightarrow> json_error option" where
  "find_json [] = None"
| "find_json (LJson e # ls) = Some e"
| "find_json (l # ls) = find_json ls"

definition dbus_name_is_authorization :: "string \<Rightarrow> bool" where
  "dbus_name_is_authorization name \<longleftrightarrow> name \<in>
     {''org.freedesktop.NetworkManager.Settings.PermissionDenied'',
      ''org.freedesktop.NetworkManager.PermissionDenied'',
      ''org.freedesktop.DBus.Error.AccessDenied'',
      ''org.freedesktop.PolicyKit1.Error.Failed''}"

definition dbus_name_is_not_found :: "string \<Rightarrow> bool" where
  "dbus_name_is_not_found name \<longleftrightarrow> name \<in>
     {''org.freedesktop.DBus.Error.NameHasNoOwner'',
      ''org.freedesktop.DBus.Error.ServiceUnknown'',
      ''org.freedesktop.DBus.Error.UnknownObject'',
      ''org.freedesktop.NetworkManager.UnknownConnection'',
      ''org.freedesktop.NetworkManager.UnknownDevice''}"

definition networkmanager_operation :: "error_operation \<Rightarrow> bool" where
  "networkmanager_operation operation \<longleftrightarrow> operation \<in>
     {OpConnectSystemBus, OpCreateDbusProxy, OpStatus, OpConnectivity, OpInventory, OpStatistics,
      OpHotspotOperation, OpVpnOperation, OpNetworks, OpScan, OpConnect, OpDisconnect,
      OpProfileOperation}"

definition zbus_fallback_code :: "error_operation \<Rightarrow> error_code" where
  "zbus_fallback_code operation =
     (if networkmanager_operation operation then NetworkmanagerUnavailable else InternalError)"

fun zbus_error_code :: "zbus_error \<Rightarrow> error_operation \<Rightarrow> error_code" where
  "zbus_error_code (ZMethodError name _) operation =
     (if dbus_name_is_authorization name then AuthorizationRequired
      else if dbus_name_is_not_found name then NotFound
      else zbus_fallback_code operation)"
| "zbus_error_code (ZInputOutput e _) operation =
     (if io_timed_out e then Timeout else zbus_fallback_code operation)"
| "zbus_error_code (ZUnsupported _ _) operation =
     (if operation = OpConnect then UnsupportedAuth else zbus_fallback_code operation)"
| "zbus_error_code (ZOther _ _) operation = zbus_fallback_code operation"

definition json_source_classification :: "error_operation \<Rightarrow> error_code \<times> error_source" where
  "json_source_classification operation =
     (if operation = OpParseRequest then (ValidationError, SrcValidation)
      else (InternalError, SrcSerialization))"

definition classify_concrete_source ::
    "anyhow_error \<Rightarrow> error_operation \<Rightarrow> error_code \<times> error_source" where
  "classify_concrete_source e operation =
     (case find_zbus e of
        Some z \<Rightarrow> (zbus_error_code z operation, SrcDbus)
      | None \<Rightarrow>
          (case find_io e of
             Some io \<Rightarrow> (if io_timed_out io then Timeout else InternalError, SrcIo)
           | None \<Rightarrow>
               (case find_json e of
                  Some _ \<Rightarrow> json_source_classification operation
                | None \<Rightarrow> (InternalError, SrcInternal))))"

definition io_source_details :: "io_error \<Rightarrow> jmap" where
  "io_source_details e =
     (let details = [(''io_kind'', JStr (io_kind_debug e))]
      in case io_raw_os_error e of
           None \<Rightarrow> details
         | Some code \<Rightarrow> jmap_insert ''os_error'' (JInt code) details)"

fun zbus_source_details :: "zbus_error \<Rightarrow> jmap" where
  "zbus_source_details (ZMethodError name _) = [(''dbus_error_name'', JStr name)]"
| "zbus_source_details (ZInputOutput e _) = io_source_details e"
| "zbus_source_details (ZUnsupported dbg _) = [(''dbus_error_kind'', JStr dbg)]"
| "zbus_source_details (ZOther dbg _) = [(''dbus_error_kind'', JStr dbg)]"

definition json_source_details :: "json_error \<Rightarrow> jmap" where
  "json_source_details e = jmap_of
     [(''line'', JInt (je_line e)), (''column'', JInt (je_column e)),
      (''json_error_category'', JStr (map to_ascii_lowercase (je_category e)))]"

definition concrete_source_details :: "anyhow_error \<Rightarrow> jmap" where
  "concrete_source_details e =
     (case find_zbus e of
        Some z \<Rightarrow> zbus_source_details z
      | None \<Rightarrow>
          (case find_io e of
             Some io \<Rightarrow> io_source_details io
           | None \<Rightarrow> (case find_json e of Some j \<Rightarrow> json_source_details j | None \<Rightarrow> [])))"

definition from_error :: "anyhow_error \<Rightarrow> error_operation \<Rightarrow> error_report" where
  "from_error e fallback_operation =
     (case find_domain_error e of
        Some d \<Rightarrow>
          \<lparr>er_code = dom_code d, er_operation = dom_operation d, er_source = dom_source d,
           er_message = dom_message d, er_details = dom_details d\<rparr>
      | None \<Rightarrow>
          (let (code, source) = classify_concrete_source e fallback_operation
           in \<lparr>er_code = code, er_operation = fallback_operation, er_source = source,
               er_message = render_alternate e, er_details = concrete_source_details e\<rparr>))"

definition ensure_domain :: "error_operation \<Rightarrow> anyhow_error \<Rightarrow> anyhow_error" where
  "ensure_domain operation e =
     (if find_domain_error e \<noteq> None then e
      else
        (let message = render_alternate e;
             (code, source_kind) = classify_concrete_source e operation;
             domain = domain_error_new code operation source_kind message
         in into_anyhow (with_cause (domain\<lparr>de_details := concrete_source_details e\<rparr>) e)))"

definition operation_result :: "error_operation \<Rightarrow> anyhow_error + 'a \<Rightarrow> anyhow_error + 'a" where
  "operation_result operation r =
     (case r of Inl e \<Rightarrow> Inl (ensure_domain operation e) | Inr v \<Rightarrow> Inr v)"

definition connect_from_error ::
    "connect_failure_reason \<Rightarrow> string \<Rightarrow> anyhow_error \<Rightarrow> domain_error" where
  "connect_from_error reason message cause =
     (let report = from_error cause OpConnect
      in (domain_error_new (error_code_of_reason reason) OpConnect (er_source report) message)
           \<lparr>de_details := er_details report, de_cause := Some cause\<rparr>)"

definition connect_failure_reason_of :: "anyhow_error \<Rightarrow> connect_failure_reason" where
  "connect_failure_reason_of e =
     (case connect_reason (er_code (from_error e OpConnect)) of
        None \<Rightarrow> CfrUnknown | Some r \<Rightarrow> r)"

definition connect_failure :: "connect_failure_reason \<Rightarrow> string \<Rightarrow> anyhow_error" where
  "connect_failure reason message = into_anyhow (connect_error reason message)"

definition connect_failure_from_error ::
    "connect_failure_reason \<Rightarrow> anyhow_error \<Rightarrow> anyhow_error" where
  "connect_failure_from_error reason e =
     into_anyhow (connect_from_error reason (render_alternate e) e)"

definition cancellation_requested :: "bool option \<Rightarrow> bool" where
  "cancellation_requested cancellation = (cancellation = Some True)"

definition check_cancellation ::
    "bool option \<Rightarrow> error_operation \<Rightarrow> string \<Rightarrow> anyhow_error + unit" where
  "check_cancellation cancellation operation message =
     (if cancellation_requested cancellation
      then Inl (into_anyhow (cancelled_operation operation message))
      else Inr ())"

definition check_cancelled :: "bool option \<Rightarrow> anyhow_error + unit" where
  "check_cancelled cancellation =
     (if cancellation_requested cancellation
      then Inl (into_anyhow (cancelled_error ''connection attempt cancelled''))
      else Inr ())"

section \<open>Facts\<close>

lemmas domain_error_defs =
  domain_error_new_def validation_error_def connect_error_def internal_error_def
  cancelled_operation_def cancelled_error_def timeout_error_def conflict_error_def
  not_found_error_def

lemma find_domain_into_anyhow [simp]:
  "find_domain_error (into_anyhow e) =
     Some (LDomain (de_source e) (de_code e) (de_operation e) (de_message e) (de_details e))"
  by (simp add: into_anyhow_def)

lemma from_error_into_anyhow [simp]:
  "from_error (into_anyhow e) operation =
     \<lparr>er_code = de_code e, er_operation = de_operation e, er_source = de_source e,
      er_message = de_message e, er_details = de_details e\<rparr>"
  by (simp add: from_error_def)

lemma connect_reason_of_code: "connect_reason (error_code_of_reason r) =
    (if r = CfrUnknown then None else Some r)"
  by (cases r) simp_all

lemma find_domain_ensure [simp]: "find_domain_error (ensure_domain operation e) \<noteq> None"
  by (auto simp: ensure_domain_def Let_def split: prod.splits)

text \<open>
  C30. Normalising an error at a component boundary never loses its classification: whatever
  operation it is reported under later, the report of the normalised error is the report of the
  original one under the boundary's operation, and normalising twice changes nothing.
\<close>

theorem ensure_domain_report:
  "from_error (ensure_domain operation e) later = from_error e operation \<and>
   ensure_domain later (ensure_domain operation e) = ensure_domain operation e"
proof -
  have "from_error (ensure_domain operation e) later = from_error e operation"
    by (auto simp: ensure_domain_def from_error_def Let_def with_cause_def domain_error_new_def
        into_anyhow_def split: prod.splits)
  moreover have "ensure_domain later x = x" if "find_domain_error x \<noteq> None" for x
    using that by (simp add: ensure_domain_def)
  ultimately show ?thesis using find_domain_ensure by blast
qed

text \<open>
  A connect failure reason survives the trip through the error type: building a connect
  failure and classifying it again returns the reason, with or without an underlying cause.
\<close>

theorem connect_reason_roundtrip:
  "connect_failure_reason_of (connect_failure r m) = r \<and>
   connect_failure_reason_of (connect_failure_from_error r e) = r"
  by (simp add: connect_failure_reason_of_def connect_failure_def connect_failure_from_error_def
      connect_from_error_def connect_error_def domain_error_new_def connect_reason_of_code Let_def)

end
