(* ===== verification/Admission.thy ===== *)
theory Admission
  imports Gate Errors
begin

text \<open>
  \<open>src/daemon_runtime/admission.rs\<close>: which Wi-Fi connection attempts may start. An identity with
  a running attempt is refused, a network whose saved credentials failed needs new ones, and a
  credential that was just rejected is blocked for ten seconds. The hash of the credential bytes
  (\<open>DefaultHasher\<close>) is a parameter.
\<close>

definition WRONG_PASSWORD_RETRY_DELAY :: duration where
  "WRONG_PASSWORD_RETRY_DELAY = from_secs 10"

record connect_attempt_key =
  identity :: string
  credential_fingerprint :: u64
  supplied_credentials :: bool

definition connect_attempt_key_new ::
    "(bytes \<Rightarrow> u64) \<Rightarrow> string \<Rightarrow> bytes \<Rightarrow> bool \<Rightarrow> connect_attempt_key" where
  "connect_attempt_key_new hasher ident credential_material supplied =
     \<lparr>identity = ident, credential_fingerprint = hasher credential_material,
      supplied_credentials = supplied\<rparr>"

record connect_attempt_policy =
  active_identities :: "string set"
  blocked_until :: "(string, (u64, instant) hash_map) hash_map"
  stale_credentials :: "string set"

definition policy_default :: connect_attempt_policy where
  "policy_default = \<lparr>active_identities = {}, blocked_until = [], stale_credentials = {}\<rparr>"

datatype connect_admission = Active | RetryAfter duration | CredentialsRequired

fun admission_error :: "connect_admission \<Rightarrow> domain_error" where
  "admission_error Active = connect_error CfrActivationFailed
     ''A connection attempt for this network is already running''"
| "admission_error CredentialsRequired = connect_error CfrSecretRequired
     ''The saved Wi-Fi credentials failed; provide replacement credentials''"
| "admission_error (RetryAfter delay) = with_detail (connect_error CfrWrongPassword
     ''NetworkManager is temporarily ignoring this access point after a failed password'')
     ''retry_after_ms'' (JInt (uint (of_nat (as_millis delay) :: u64)))"

text \<open>The two nested \<open>retain\<close> calls at the start of \<open>admit\<close>.\<close>

definition drop_expired ::
    "instant \<Rightarrow> (string, (u64, instant) hash_map) hash_map
     \<Rightarrow> (string, (u64, instant) hash_map) hash_map" where
  "drop_expired now m =
     filter (\<lambda>(_, fps). fps \<noteq> [])
       (map (\<lambda>(i, fps). (i, hm_retain (\<lambda>_ deadline. deadline > now) fps)) m)"

definition admit :: "connect_attempt_policy \<Rightarrow> connect_attempt_key \<Rightarrow> instant
    \<Rightarrow> connect_attempt_policy \<times> (connect_admission + unit)" where
  "admit p0 attempt now =
     (let p = p0\<lparr>blocked_until := drop_expired now (blocked_until p0)\<rparr>
      in if identity attempt \<in> active_identities p then (p, Inl Active)
         else if identity attempt \<in> stale_credentials p \<and> \<not> supplied_credentials attempt
              then (p, Inl CredentialsRequired)
         else case Option.bind (hm_get (blocked_until p) (identity attempt))
                     (\<lambda>fps. hm_get fps (credential_fingerprint attempt)) of
                Some deadline \<Rightarrow> (p, Inl (RetryAfter (deadline - now)))
              | None \<Rightarrow>
                  (p\<lparr>active_identities := insert (identity attempt) (active_identities p)\<rparr>, Inr ()))"

definition abandon :: "connect_attempt_policy \<Rightarrow> connect_attempt_key \<Rightarrow> connect_attempt_policy" where
  "abandon p attempt = p\<lparr>active_identities := active_identities p - {identity attempt}\<rparr>"

definition block_fingerprint ::
    "connect_attempt_policy \<Rightarrow> connect_attempt_key \<Rightarrow> instant \<Rightarrow> connect_attempt_policy" where
  "block_fingerprint p attempt deadline =
     (let fps = (case hm_get (blocked_until p) (identity attempt) of None \<Rightarrow> [] | Some m \<Rightarrow> m)
      in p\<lparr>blocked_until :=
             hm_insert (identity attempt)
               (hm_insert (credential_fingerprint attempt) deadline fps) (blocked_until p)\<rparr>)"

definition complete :: "connect_attempt_policy \<Rightarrow> connect_attempt_key
    \<Rightarrow> connect_failure_reason option \<Rightarrow> bool \<Rightarrow> instant \<Rightarrow> connect_attempt_policy" where
  "complete p0 attempt reason succeeded now =
     (let p = abandon p0 attempt
      in if succeeded
         then p\<lparr>stale_credentials := stale_credentials p - {identity attempt},
                blocked_until := hm_remove (identity attempt) (blocked_until p)\<rparr>
         else
           (let q = (if reason \<in> {Some CfrWrongPassword, Some CfrPasswordUnavailable,
                                  Some CfrSecretRequired}
                     then p\<lparr>stale_credentials := insert (identity attempt) (stale_credentials p)\<rparr>
                     else p)
            in if reason = Some CfrWrongPassword
               then block_fingerprint q attempt (now + WRONG_PASSWORD_RETRY_DELAY)
               else q))"

text \<open>\<open>ConnectAttempts::begin\<close>, and a guard's \<open>finish\<close> and \<open>Drop\<close>.\<close>

definition begin_attempt :: "connect_attempt_policy \<Rightarrow> connect_attempt_key \<Rightarrow> instant
    \<Rightarrow> connect_attempt_policy \<times> (domain_error + connect_attempt_key)" where
  "begin_attempt p attempt now =
     (case admit p attempt now of
        (p', Inl refusal) \<Rightarrow> (p', Inl (admission_error refusal))
      | (p', Inr _) \<Rightarrow> (p', Inr attempt))"

definition finish_guard :: "connect_attempt_policy \<Rightarrow> connect_attempt_key
    \<Rightarrow> connect_failure_reason option \<Rightarrow> bool \<Rightarrow> instant \<Rightarrow> connect_attempt_policy" where
  "finish_guard p attempt reason succeeded now = complete p attempt reason succeeded now"

definition drop_guard :: "connect_attempt_policy \<Rightarrow> connect_attempt_key \<Rightarrow> connect_attempt_policy" where
  "drop_guard p attempt = abandon p attempt"

text \<open>
  Every interleaving of callers: an attempt begins or is refused, and a live guard is finished or
  dropped (also by an unwinding worker). The second component is the list of live guards.
\<close>

inductive attempts_step ::
    "connect_attempt_policy \<times> connect_attempt_key list
     \<Rightarrow> connect_attempt_policy \<times> connect_attempt_key list \<Rightarrow> bool" where
  begun: "begin_attempt p a now = (p', Inr g) \<Longrightarrow> attempts_step (p, gs) (p', g # gs)"
| refused: "begin_attempt p a now = (p', Inl e) \<Longrightarrow> attempts_step (p, gs) (p', gs)"
| finished: "g \<in> set gs \<Longrightarrow>
     attempts_step (p, gs) (finish_guard p g reason succeeded now, remove1 g gs)"
| dropped: "g \<in> set gs \<Longrightarrow> attempts_step (p, gs) (drop_guard p g, remove1 g gs)"

inductive attempts_reachable ::
    "connect_attempt_policy \<times> connect_attempt_key list \<Rightarrow> bool" where
  start: "attempts_reachable (policy_default, [])"
| step: "attempts_reachable s \<Longrightarrow> attempts_step s t \<Longrightarrow> attempts_reachable t"

inductive_cases attempts_stepE [elim!]: "attempts_step (p, gs) t"

section \<open>The admission policy is an exclusive gate\<close>

text \<open>A guard leaves either by \<open>finish\<close> (with its outcome) or by being dropped.\<close>

datatype guard_exit = Finished "connect_failure_reason option" bool instant | Dropped

definition gate_enter :: "connect_attempt_key \<times> instant \<Rightarrow> connect_attempt_policy
    \<Rightarrow> connect_attempt_key option \<times> connect_attempt_policy" where
  "gate_enter r p = (case begin_attempt p (fst r) (snd r) of
     (p', Inr g) \<Rightarrow> (Some g, p') | (p', Inl _) \<Rightarrow> (None, p'))"

definition gate_leave :: "guard_exit \<Rightarrow> connect_attempt_key \<Rightarrow> connect_attempt_policy
    \<Rightarrow> connect_attempt_policy" where
  "gate_leave x g p = (case x of
     Finished reason succeeded now \<Rightarrow> finish_guard p g reason succeeded now
   | Dropped \<Rightarrow> drop_guard p g)"

lemmas admission_defs = admit_def abandon_def complete_def block_fingerprint_def
  begin_attempt_def finish_guard_def drop_guard_def Let_def

lemma active_complete [simp]:
  "active_identities (complete p a reason succeeded now) = active_identities p - {identity a}"
  by (simp add: complete_def block_fingerprint_def abandon_def Let_def)

lemma active_abandon [simp]:
  "active_identities (abandon p a) = active_identities p - {identity a}"
  by (simp add: abandon_def)

lemma admit_active:
  "admit p a now = (p', r) \<Longrightarrow>
     active_identities p' =
       (if is_ok r then insert (identity a) (active_identities p) else active_identities p)
     \<and> (is_ok r \<longrightarrow> identity a \<notin> active_identities p)"
  by (auto simp: admit_def Let_def split: if_splits option.splits)

lemma begin_attempt_ok:
  "begin_attempt p a now = (p', Inr g) \<Longrightarrow> g = a \<and> admit p a now = (p', Inr ())"
  by (auto simp: begin_attempt_def split: prod.splits sum.splits)

lemma begin_attempt_refused:
  "begin_attempt p a now = (p', Inl e) \<Longrightarrow>
     \<exists>r. admit p a now = (p', Inl r) \<and> e = admission_error r"
  by (auto simp: begin_attempt_def split: prod.splits sum.splits)

interpretation admission: exclusive_gate gate_enter gate_leave active_identities
  "\<lambda>r. identity (fst r)" identity "\<lambda>_ _. True"
proof unfold_locales
  fix r p t p'
  assume "gate_enter r p = (Some t, p')"
  then have "begin_attempt p (fst r) (snd r) = (p', Inr t)"
    by (auto simp: gate_enter_def split: prod.splits sum.splits)
  from begin_attempt_ok [OF this]
  show "identity (fst r) \<notin> active_identities p \<and> identity t = identity (fst r)
    \<and> active_identities p' = insert (identity (fst r)) (active_identities p) \<and> True"
    by (auto dest: admit_active)
next
  fix r p p'
  assume "gate_enter r p = (None, p')"
  then obtain e where "begin_attempt p (fst r) (snd r) = (p', Inl e)"
    by (auto simp: gate_enter_def split: prod.splits sum.splits)
  from begin_attempt_refused [OF this] show "active_identities p' = active_identities p"
    by (auto dest: admit_active)
next
  fix t p f
  show "active_identities (gate_leave f t p) = active_identities p - {identity t}"
    by (simp add: gate_leave_def finish_guard_def drop_guard_def split: guard_exit.splits)
qed auto

lemma attempts_step_consistent:
  "attempts_step s t \<Longrightarrow> admission.consistent (fst s) (snd s)
     \<Longrightarrow> admission.consistent (fst t) (snd t)"
proof (induction rule: attempts_step.induct)
  case (begun p a now p' g gs)
  then have "gate_enter (a, now) p = (Some g, p')" by (simp add: gate_enter_def)
  with begun show ?case using admission.enter_admitted by auto
next
  case (refused p a now p' e gs)
  then have "gate_enter (a, now) p = (None, p')" by (simp add: gate_enter_def)
  with refused show ?case using admission.enter_refused by auto
next
  case (finished g gs p reason succeeded now)
  then show ?case
    using admission.leave_consistent [of p gs g "Finished reason succeeded now"]
    by (simp add: gate_leave_def)
next
  case (dropped g gs p)
  then show ?case
    using admission.leave_consistent [of p gs g Dropped] by (simp add: gate_leave_def)
qed

lemma attempts_reachable_consistent:
  "attempts_reachable s \<Longrightarrow> admission.consistent (fst s) (snd s)"
proof (induction rule: attempts_reachable.induct)
  case start
  then show ?case by (simp add: admission.consistent_def policy_default_def)
next
  case (step s t)
  then show ?case by (blast intro: attempts_step_consistent)
qed

text \<open>
  C5. However callers interleave, two live guards never share a network identity, and the
  policy's set of active identities is exactly the identities of the live guards: no second
  attempt for a network starts while one runs, and none stays blocked after its guard is gone.
\<close>

theorem attempts_exclusive:
  assumes "attempts_reachable (p, gs)"
  shows "distinct (map identity gs) \<and> active_identities p = identity ` set gs"
  using attempts_reachable_consistent [OF assms]
  by (simp add: admission.consistent_def holders_match_def)

theorem attempts_exclusive_witness:
  "attempts_reachable (policy_default\<lparr>active_identities := {''net''}\<rparr>, [\<lparr>identity = ''net'',
     credential_fingerprint = 7, supplied_credentials = True\<rparr>]) \<and>
   distinct [''net''] \<and>
   active_identities (policy_default\<lparr>active_identities := {''net''}\<rparr>) = {''net''}"
proof -
  let ?k = "\<lparr>identity = ''net'', credential_fingerprint = 7, supplied_credentials = True\<rparr>"
  have "begin_attempt policy_default ?k 0
      = (policy_default\<lparr>active_identities := {''net''}\<rparr>, Inr ?k)"
    by (simp add: admission_defs policy_default_def drop_expired_def)
  then have r: "attempts_reachable (policy_default\<lparr>active_identities := {''net''}\<rparr>, [?k])"
    using attempts_reachable.step [OF attempts_reachable.start] attempts_step.begun by blast
  show ?thesis using r attempts_exclusive [OF r] by simp
qed

section \<open>The decision\<close>

definition policy_wf :: "connect_attempt_policy \<Rightarrow> bool" where
  "policy_wf p \<longleftrightarrow> hm_wf (blocked_until p) \<and> (\<forall>(i, fps) \<in> set (blocked_until p). hm_wf fps)"

text \<open>The deadline a credential of a network is blocked until, if there is one.\<close>

definition block_deadline :: "connect_attempt_policy \<Rightarrow> connect_attempt_key \<Rightarrow> instant option" where
  "block_deadline p a = Option.bind (hm_get (blocked_until p) (identity a))
     (\<lambda>fps. hm_get fps (credential_fingerprint a))"

lemma drop_expired_Cons:
  "drop_expired now ((i, fps) # m) =
     (let fps' = hm_retain (\<lambda>_ d. d > now) fps
      in if fps' = [] then drop_expired now m else (i, fps') # drop_expired now m)"
  by (simp add: drop_expired_def Let_def)

lemma keys_drop_expired: "fst ` set (drop_expired now m) \<subseteq> fst ` set m"
  by (induction m) (auto simp: drop_expired_def)

lemma hm_wf_drop_expired: "hm_wf m \<Longrightarrow> hm_wf (drop_expired now m)"
proof (induction m)
  case Nil
  then show ?case by (simp add: drop_expired_def)
next
  case (Cons e m)
  obtain i fps where e: "e = (i, fps)" by (cases e)
  from Cons have IH: "hm_wf (drop_expired now m)" by (simp add: hm_wf_def)
  have "i \<notin> fst ` set (drop_expired now m)"
    using Cons.prems keys_drop_expired [of now m] by (auto simp: hm_wf_def e)
  with IH show ?case by (simp add: e drop_expired_Cons Let_def hm_wf_def)
qed

lemma map_of_drop_expired:
  "hm_wf m \<Longrightarrow> map_of (drop_expired now m) i =
     (case map_of m i of
        None \<Rightarrow> None
      | Some fps \<Rightarrow> (let fps' = hm_retain (\<lambda>_ d. d > now) fps in if fps' = [] then None else Some fps'))"
proof (induction m)
  case Nil
  then show ?case by (simp add: drop_expired_def)
next
  case (Cons e m)
  obtain j fps where e: "e = (j, fps)" by (cases e)
  from Cons have IH: "map_of (drop_expired now m) i = (case map_of m i of None \<Rightarrow> None
      | Some fps \<Rightarrow> (let fps' = hm_retain (\<lambda>_ d. d > now) fps in if fps' = [] then None else Some fps'))"
    by (simp add: hm_wf_def)
  from Cons.prems have "map_of m j = None" by (simp add: hm_wf_def e map_of_eq_None_iff)
  then show ?case using IH by (auto simp: e drop_expired_Cons Let_def)
qed

lemma policy_wf_fps:
  "policy_wf p \<Longrightarrow> hm_get (blocked_until p) i = Some fps \<Longrightarrow> hm_wf fps"
  by (auto simp: policy_wf_def dest: map_of_SomeD)

lemma block_deadline_drop_expired:
  assumes "policy_wf p"
  shows "block_deadline (p\<lparr>blocked_until := drop_expired now (blocked_until p)\<rparr>) a =
    (case block_deadline p a of None \<Rightarrow> None | Some d \<Rightarrow> if now < d then Some d else None)"
proof (cases "hm_get (blocked_until p) (identity a)")
  case None
  then show ?thesis using assms by (simp add: block_deadline_def map_of_drop_expired policy_wf_def)
next
  case (Some fps)
  let ?r = "hm_retain (\<lambda>_ d. d > now) fps"
  have w: "hm_wf fps" using policy_wf_fps [OF assms Some] .
  have l: "map_of ?r (credential_fingerprint a) = (case map_of fps (credential_fingerprint a) of
      None \<Rightarrow> None | Some d \<Rightarrow> if now < d then Some d else None)"
    using w by (simp add: map_of_hm_retain)
  show ?thesis
    using assms Some l by (cases "?r = []")
      (auto simp: block_deadline_def map_of_drop_expired policy_wf_def Let_def)
qed

lemma admit_decision:
  assumes "policy_wf p"
  shows "snd (admit p a now) =
    (if identity a \<in> active_identities p then Inl Active
     else if identity a \<in> stale_credentials p \<and> \<not> supplied_credentials a
          then Inl CredentialsRequired
     else case block_deadline p a of
            None \<Rightarrow> Inr ()
          | Some d \<Rightarrow> if now < d then Inl (RetryAfter (d - now)) else Inr ())"
  using block_deadline_drop_expired [OF assms, of now a]
  by (auto simp: admit_def Let_def block_deadline_def split: option.splits if_splits)

lemma policy_wf_admit: "policy_wf p \<Longrightarrow> policy_wf (fst (admit p a now))"
proof -
  assume w: "policy_wf p"
  have "hm_wf fps" if "(i, fps) \<in> set (drop_expired now (blocked_until p))" for i fps
    using w that by (auto simp: drop_expired_def policy_wf_def hm_wf_retain)
  with w have "policy_wf (p\<lparr>blocked_until := drop_expired now (blocked_until p)\<rparr>)"
    by (auto simp: policy_wf_def hm_wf_drop_expired)
  then show ?thesis
    by (auto simp: admit_def Let_def policy_wf_def split: option.splits)
qed

lemma policy_wf_block:
  assumes "policy_wf p"
  shows "policy_wf (block_fingerprint p a d)"
proof -
  let ?fps = "case hm_get (blocked_until p) (identity a) of None \<Rightarrow> [] | Some m \<Rightarrow> m"
  have f: "hm_wf ?fps" using assms by (auto split: option.splits dest: policy_wf_fps)
  have "hm_wf fps" if "(i, fps) \<in> set (AList.update (identity a) v (blocked_until p))"
      and "hm_wf v" for i fps v
  proof -
    have "(i, fps) = (identity a, v) \<or> (i, fps) \<in> set (blocked_until p)"
      using that(1) assms
      by (auto simp: policy_wf_def hm_in_set_iff hm_wf_update update_conv' split: if_splits)
    then show ?thesis using assms that(2) by (auto simp: policy_wf_def)
  qed
  then show ?thesis using assms f
    by (auto simp: block_fingerprint_def Let_def policy_wf_def hm_wf_update)
qed

lemma policy_wf_complete: "policy_wf p \<Longrightarrow> policy_wf (complete p a reason succeeded now)"
  by (auto simp: complete_def Let_def abandon_def intro!: policy_wf_block)
    (auto simp: policy_wf_def hm_wf_delete dest!: hm_remove_subset [THEN subsetD])

lemma policy_wf_abandon: "policy_wf p \<Longrightarrow> policy_wf (abandon p a)"
  by (simp add: policy_wf_def abandon_def)

lemma attempts_reachable_wf: "attempts_reachable s \<Longrightarrow> policy_wf (fst s)"
proof (induction rule: attempts_reachable.induct)
  case start
  then show ?case by (simp add: policy_wf_def policy_default_def)
next
  case (step s t)
  have "policy_wf (fst (begin_attempt p a now))" if "policy_wf p" for p a now
    using policy_wf_admit [OF that, of a now]
    by (auto simp: begin_attempt_def split: prod.splits sum.splits)
  then have b: "begin_attempt p a now = (p', r) \<Longrightarrow> policy_wf p \<Longrightarrow> policy_wf p'" for p a now p' r
    by (metis fst_conv)
  from step.hyps(2) step.IH show ?case
    by (cases rule: attempts_step.cases)
      (auto simp: finish_guard_def drop_guard_def policy_wf_complete policy_wf_abandon dest: b)
qed

text \<open>
  After an attempt fails with a wrong password, further attempts are decided exactly so, in every state
  the daemon can reach. With the same supplied credentials for the same network an attempt is refused with the exact
  remaining delay during the following ten seconds and admitted from that moment on. With other supplied
  credentials for that network it is decided by their own delay alone. With saved credentials for
  that network it is refused until credentials are supplied. Attempts on other networks are decided as
  before.
\<close>

theorem wrong_password_window:
  assumes "attempts_reachable (p, gs)"
  shows "snd (admit (complete p a (Some CfrWrongPassword) False failed_at) b now) =
      (if identity b \<noteq> identity a then snd (admit p b now)
       else if \<not> supplied_credentials b then Inl CredentialsRequired
       else if credential_fingerprint b = credential_fingerprint a
       then (if now < failed_at + WRONG_PASSWORD_RETRY_DELAY
             then Inl (RetryAfter (failed_at + WRONG_PASSWORD_RETRY_DELAY - now)) else Inr ())
       else (case block_deadline p b of
               None \<Rightarrow> Inr ()
             | Some d \<Rightarrow> if now < d then Inl (RetryAfter (d - now)) else Inr ()))"
proof -
  let ?q = "complete p a (Some CfrWrongPassword) False failed_at"
  from attempts_reachable_wf [OF assms(1)] have w: "policy_wf p" by simp
  then have wq: "policy_wf ?q" by (rule policy_wf_complete)
  have d: "block_deadline ?q b =
      (if identity b = identity a \<and> credential_fingerprint b = credential_fingerprint a
       then Some (failed_at + WRONG_PASSWORD_RETRY_DELAY) else block_deadline p b)"
    by (simp add: block_deadline_def complete_def block_fingerprint_def abandon_def Let_def
        update_conv' split: option.splits)
  have s: "identity b \<in> stale_credentials ?q \<longleftrightarrow> identity b = identity a \<or> identity b \<in> stale_credentials p"
    "identity b \<in> active_identities ?q \<longleftrightarrow> identity b \<noteq> identity a \<and> identity b \<in> active_identities p"
    by (auto simp: complete_def block_fingerprint_def abandon_def Let_def)
  show ?thesis
    using d s by (auto simp: admit_decision [OF wq] admit_decision [OF w])
qed

theorem wrong_password_window_witness:
  "snd (admit (complete policy_default \<lparr>identity = ''net'', credential_fingerprint = 7,
      supplied_credentials = True\<rparr> (Some CfrWrongPassword) False 5)
      \<lparr>identity = ''net'', credential_fingerprint = 7, supplied_credentials = True\<rparr> 6) =
   Inl (RetryAfter 9999999999)"
  using wrong_password_window [of policy_default "[]" "\<lparr>identity = ''net'',
      credential_fingerprint = 7, supplied_credentials = True\<rparr>" 5
      "\<lparr>identity = ''net'', credential_fingerprint = 7, supplied_credentials = True\<rparr>" 6]
    attempts_reachable.start
  by (simp add: WRONG_PASSWORD_RETRY_DELAY_def from_secs_def)

end
