(* ===== verification/Scan_Schedule.thy ===== *)
theory Scan_Schedule
  imports Gate Errors
begin

text \<open>
  \<open>src/nm/scan_schedule.rs\<close> and \<open>src/deadline.rs\<close>: per-device scan scheduling. One caller owns
  the scan of a device, callers whose SSIDs it covers join it, others wait for it to finish.
  Every operation below is one critical section of the scheduler's mutex; a waiting caller polls
  (\<open>wait_poll\<close>) each time its condition variable wakes it or its slice of the deadline ends.
  The counters of waiting callers are natural numbers (a \<open>usize\<close> counts live threads).
\<close>

definition SCAN_REQUEST_INTERVAL :: duration where
  "SCAN_REQUEST_INTERVAL = from_millis 10000"

definition SCAN_SCHEDULE_POLL_INTERVAL :: duration where
  "SCAN_SCHEDULE_POLL_INTERVAL = from_millis 100"

section \<open>Deadlines\<close>

definition deadline_expired :: "instant \<Rightarrow> instant \<Rightarrow> bool" where
  "deadline_expired deadline now \<longleftrightarrow> now \<ge> deadline"

definition wait_at :: "instant \<Rightarrow> instant \<Rightarrow> duration \<Rightarrow> duration" where
  "wait_at deadline now longest = min longest (deadline - now)"

lemma wait_at_zero_iff: "0 < longest \<Longrightarrow> wait_at deadline now longest = 0 \<longleftrightarrow> deadline_expired deadline now"
  by (auto simp: wait_at_def deadline_expired_def min_def)

section \<open>Scheduler state\<close>

datatype scan_turn = Request u64 | Join u64 | WaitFor u64

datatype shared_scan_outcome = Succeeded | Failed error_report

datatype scan_wait = Completed shared_scan_outcome | WaitCancelled | DeadlineExpired

definition scan_deadline_expired :: "string \<Rightarrow> anyhow_error" where
  "scan_deadline_expired message = into_anyhow (timeout_error OpScan message)"

fun into_result :: "scan_wait \<Rightarrow> string \<Rightarrow> anyhow_error + shared_scan_outcome" where
  "into_result (Completed outcome) timeout_message = Inr outcome"
| "into_result WaitCancelled timeout_message =
     Inl (into_anyhow (cancelled_operation OpScan ''Wi-Fi scan cancelled''))"
| "into_result DeadlineExpired timeout_message = Inl (scan_deadline_expired timeout_message)"

record device_scan_state =
  in_flight :: "bytes list option"
  generation :: u64
  waiters :: "(u64, nat) hash_map"
  completions :: "(u64, shared_scan_outcome) hash_map"
  last_request :: "instant option"
  previous_request :: "instant option"

definition device_default :: device_scan_state where
  "device_default = \<lparr>in_flight = None, generation = 0, waiters = [], completions = [],
     last_request = None, previous_request = None\<rparr>"

type_synonym scheduler = "(string, device_scan_state) hash_map"

definition device_entry :: "scheduler \<Rightarrow> string \<Rightarrow> device_scan_state" where
  "device_entry s dev = (case hm_get s dev of None \<Rightarrow> device_default | Some st \<Rightarrow> st)"

definition normalized_ssids :: "bytes list \<Rightarrow> bytes list" where
  "normalized_ssids ssids = remdups_adj (sort ssids)"

text \<open>\<open>slice::binary_search(x).is_ok()\<close>.\<close>

function binary_search :: "'a::linorder list \<Rightarrow> 'a \<Rightarrow> bool" where
  "binary_search xs x =
     (if xs = [] then False
      else let m = length xs div 2 in
        if xs ! m = x then True
        else if x < xs ! m then binary_search (take m xs) x
        else binary_search (drop (Suc m) xs) x)"
  by pat_completeness auto
termination
  by (relation "measure (\<lambda>(xs, x). length xs)") auto

declare binary_search.simps [simp del]

definition scan_scope_covers :: "bytes list \<Rightarrow> bytes list \<Rightarrow> bool" where
  "scan_scope_covers in_flight_scope requested =
     (if in_flight_scope = [] \<or> requested = []
      then in_flight_scope = [] \<and> requested = []
      else list_all (\<lambda>ssid. binary_search in_flight_scope ssid) requested)"

definition add_waiter :: "device_scan_state \<Rightarrow> device_scan_state" where
  "add_waiter st =
     (let n = (case hm_get (waiters st) (generation st) of None \<Rightarrow> 0 | Some k \<Rightarrow> k)
      in st\<lparr>waiters := hm_insert (generation st) (n + 1) (waiters st)\<rparr>)"

definition claim ::
    "scheduler \<Rightarrow> string \<Rightarrow> bytes list \<Rightarrow> instant \<Rightarrow> scan_turn \<times> scheduler" where
  "claim s dev ssids now =
     (let st = device_entry s dev
      in case in_flight st of
           Some scope \<Rightarrow>
             (if scan_scope_covers scope ssids then Join (generation st)
              else WaitFor (generation st),
              hm_insert dev (add_waiter st) s)
         | None \<Rightarrow>
             (let st' = st\<lparr>in_flight := Some (normalized_ssids ssids),
                           generation := generation st + 1,
                           previous_request := last_request st,
                           last_request := Some now\<rparr>
              in (Request (generation st'), hm_insert dev st' s)))"

definition complete_scan ::
    "scheduler \<Rightarrow> string \<Rightarrow> u64 \<Rightarrow> shared_scan_outcome \<Rightarrow> scheduler" where
  "complete_scan s dev gen outcome =
     (case hm_get s dev of
        None \<Rightarrow> s
      | Some st \<Rightarrow>
          if generation st = gen \<and> in_flight st \<noteq> None
          then (let st' = st\<lparr>in_flight := None\<rparr>
                in if hm_get (waiters st') gen \<noteq> None
                   then hm_insert dev (st'\<lparr>completions := hm_insert gen outcome (completions st')\<rparr>) s
                   else hm_insert dev st' s)
          else s)"

definition consume_waiter :: "scheduler \<Rightarrow> string \<Rightarrow> u64 \<Rightarrow> scheduler" where
  "consume_waiter s dev gen =
     (case hm_get s dev of
        None \<Rightarrow> s
      | Some st \<Rightarrow>
          (case hm_get (waiters st) gen of
             None \<Rightarrow> s
           | Some n \<Rightarrow>
               (if n - 1 = 0
                then hm_insert dev (st\<lparr>waiters := hm_remove gen (waiters st),
                                       completions := hm_remove gen (completions st)\<rparr>) s
                else hm_insert dev (st\<lparr>waiters := hm_insert gen (n - 1) (waiters st)\<rparr>) s)))"

text \<open>
  One pass through the loop of \<open>wait_for_completion\<close>: \<open>None\<close> goes back to waiting on the
  condition variable, \<open>Some\<close> leaves the loop and consumes the caller's waiter slot.
\<close>

definition wait_poll :: "scheduler \<Rightarrow> string \<Rightarrow> u64 \<Rightarrow> instant \<Rightarrow> instant \<Rightarrow> bool option
    \<Rightarrow> (scan_wait \<times> scheduler) option" where
  "wait_poll s dev gen deadline now cancellation =
     (if cancellation_requested cancellation then Some (WaitCancelled, consume_waiter s dev gen)
      else case Option.bind (hm_get s dev) (\<lambda>st. hm_get (completions st) gen) of
             Some outcome \<Rightarrow> Some (Completed outcome, consume_waiter s dev gen)
           | None \<Rightarrow>
               if wait_at deadline now SCAN_SCHEDULE_POLL_INTERVAL = 0
               then Some (DeadlineExpired, consume_waiter s dev gen)
               else None)"

definition note_request :: "scheduler \<Rightarrow> string \<Rightarrow> instant \<Rightarrow> scheduler" where
  "note_request s dev now = hm_insert dev ((device_entry s dev)\<lparr>last_request := Some now\<rparr>) s"

definition last_request_before_claim :: "scheduler \<Rightarrow> string \<Rightarrow> instant option" where
  "last_request_before_claim s dev = Option.bind (hm_get s dev) previous_request"

section \<open>Rate limiting\<close>

definition saturating_sub_i64 :: "int \<Rightarrow> int \<Rightarrow> int" where
  "saturating_sub_i64 a b = max (- (2 ^ 63)) (min (2 ^ 63 - 1) (a - b))"

definition rate_limit_wait :: "int \<Rightarrow> int \<Rightarrow> instant option \<Rightarrow> instant \<Rightarrow> duration" where
  "rate_limit_wait last_scan_ms boottime_ms last_req now =
     (let since_scan =
            (if last_scan_ms \<ge> 0 \<and> saturating_sub_i64 boottime_ms last_scan_ms \<ge> 0
             then [from_millis (nat (saturating_sub_i64 boottime_ms last_scan_ms))] else []);
          since_request = (case last_req of None \<Rightarrow> [] | Some at \<Rightarrow> [now - at])
      in foldr max (map (\<lambda>elapsed. SCAN_REQUEST_INTERVAL - elapsed) (since_scan @ since_request)) 0)"

definition contains :: "string \<Rightarrow> string \<Rightarrow> bool" where
  "contains hay needle \<longleftrightarrow> list_ex (\<lambda>i. take (length needle) (drop i hay) = needle) [0..<Suc (length hay)]"

definition is_transient_scan_rejection :: "anyhow_error \<Rightarrow> bool" where
  "is_transient_scan_rejection e =
     (let rendered = map to_ascii_lowercase (render_alternate e)
      in contains rendered ''scanning not allowed''
       \<or> contains rendered ''device.notallowed''
       \<or> contains rendered ''not allowed while unavailable''
       \<or> contains rendered ''too soon'')"

section \<open>Interleavings\<close>

text \<open>
  The callers of the scheduler: \<open>owners\<close> are the scans granted and not yet completed, \<open>waiting\<close>
  the callers inside \<open>wait_for_completion\<close> (one entry per caller).
\<close>

record scan_system =
  sched :: scheduler
  owners :: "(string \<times> u64) list"
  waiting :: "(string \<times> u64) list"

inductive scan_step :: "scan_system \<Rightarrow> scan_system \<Rightarrow> bool" where
  granted: "claim (sched s) dev ssids now = (Request g, s') \<Longrightarrow>
     scan_step s (s\<lparr>sched := s', owners := (dev, g) # owners s\<rparr>)"
| joined: "claim (sched s) dev ssids now = (Join g, s') \<Longrightarrow>
     scan_step s (s\<lparr>sched := s', waiting := (dev, g) # waiting s\<rparr>)"
| queued: "claim (sched s) dev ssids now = (WaitFor g, s') \<Longrightarrow>
     scan_step s (s\<lparr>sched := s', waiting := (dev, g) # waiting s\<rparr>)"
| completed: "(dev, g) \<in> set (owners s) \<Longrightarrow>
     scan_step s (s\<lparr>sched := complete_scan (sched s) dev g outcome,
                    owners := remove1 (dev, g) (owners s)\<rparr>)"
| late: "(dev, g) \<notin> set (owners s) \<Longrightarrow>
     scan_step s (s\<lparr>sched := complete_scan (sched s) dev g outcome\<rparr>)"
| polled: "(dev, g) \<in> set (waiting s) \<Longrightarrow>
     wait_poll (sched s) dev g deadline now cancellation = Some (result, s') \<Longrightarrow>
     scan_step s (s\<lparr>sched := s', waiting := remove1 (dev, g) (waiting s)\<rparr>)"
| requested: "scan_step s (s\<lparr>sched := note_request (sched s) dev now\<rparr>)"

inductive scan_reachable :: "scan_system \<Rightarrow> bool" where
  start: "scan_reachable \<lparr>sched = [], owners = [], waiting = []\<rparr>"
| step: "scan_reachable s \<Longrightarrow> scan_step s t \<Longrightarrow> scan_reachable t"

section \<open>Searching the scope\<close>

lemma sorted_mid_less:
  assumes "sorted xs" "m < length xs" "x < xs ! m"
  shows "x \<in> set xs \<longleftrightarrow> x \<in> set (take m xs)"
proof -
  have "xs ! m \<le> y" if "y \<in> set (drop m xs)" for y
    using that assms(1,2) by (auto simp: in_set_conv_nth sorted_iff_nth_mono)
  with assms(3) have "x \<notin> set (drop m xs)" by fastforce
  then show ?thesis by (metis append_take_drop_id Un_iff set_append)
qed

lemma sorted_mid_greater:
  assumes "sorted xs" "m < length xs" "xs ! m < x"
  shows "x \<in> set xs \<longleftrightarrow> x \<in> set (drop (Suc m) xs)"
proof -
  have "y \<le> xs ! m" if "y \<in> set (take (Suc m) xs)" for y
    using that assms(1,2) by (auto simp: in_set_conv_nth sorted_iff_nth_mono)
  with assms(3) have "x \<notin> set (take (Suc m) xs)" by fastforce
  then show ?thesis by (metis append_take_drop_id Un_iff set_append)
qed

lemma binary_search_iff: "sorted xs \<Longrightarrow> binary_search xs x \<longleftrightarrow> x \<in> set xs"
proof (induction xs x rule: binary_search.induct)
  case (1 xs x)
  show ?case
  proof (cases "xs = []")
    case True
    then show ?thesis by (simp add: binary_search.simps)
  next
    case False
    define m where "m = length xs div 2"
    from False have m: "m < length xs" by (cases xs) (auto simp: m_def)
    have unfold: "binary_search xs x = (if xs ! m = x then True
        else if x < xs ! m then binary_search (take m xs) x
        else binary_search (drop (Suc m) xs) x)"
      using False by (subst binary_search.simps) (simp only: m_def Let_def if_False)
    consider (eq) "xs ! m = x" | (lt) "x < xs ! m" | (gt) "xs ! m < x" by (rule linorder_cases) auto
    then show ?thesis
    proof cases
      case eq
      with nth_mem [OF m] have "x \<in> set xs" by simp
      with eq show ?thesis by (simp add: unfold)
    next
      case lt
      then have "binary_search (take m xs) x \<longleftrightarrow> x \<in> set (take m xs)"
        using "1.IH"(1) [OF False m_def] "1.prems" by (auto simp: sorted_wrt_take)
      moreover have "xs ! m \<noteq> x" using lt by auto
      ultimately show ?thesis
        unfolding unfold using lt sorted_mid_less [OF "1.prems" m lt] by presburger
    next
      case gt
      then have "binary_search (drop (Suc m) xs) x \<longleftrightarrow> x \<in> set (drop (Suc m) xs)"
        using "1.IH"(2) [OF False m_def] "1.prems" by (auto simp: sorted_wrt_drop)
      moreover have "xs ! m \<noteq> x" "\<not> x < xs ! m" using gt by auto
      ultimately show ?thesis
        unfolding unfold using sorted_mid_greater [OF "1.prems" m gt] by presburger
    qed
  qed
qed

lemma set_normalized [simp]: "set (normalized_ssids xs) = set xs"
  by (simp add: normalized_ssids_def)

lemma sorted_normalized: "sorted (normalized_ssids xs)"
  by (simp add: normalized_ssids_def sorted_remdups_adj)

lemma distinct_remdups_adj_sorted: "sorted xs \<Longrightarrow> distinct (remdups_adj xs)"
  by (induction xs rule: remdups_adj.induct) auto

lemma distinct_normalized: "distinct (normalized_ssids xs)"
  by (simp add: normalized_ssids_def distinct_remdups_adj_sorted)

lemma normalized_Nil_iff [simp]: "normalized_ssids xs = [] \<longleftrightarrow> xs = []"
  by (metis set_normalized set_empty)

lemma scan_scope_covers_iff:
  "sorted scope \<Longrightarrow> scan_scope_covers scope requested \<longleftrightarrow>
     (scope = [] \<longleftrightarrow> requested = []) \<and> set requested \<subseteq> set scope"
  by (auto simp: scan_scope_covers_def binary_search_iff list_all_iff)

section \<open>What the operations do to a device\<close>

lemma device_entry_insert [simp]:
  "device_entry (AList.update dev st s) d = (if d = dev then st else device_entry s d)"
  by (simp add: device_entry_def update_conv')

lemma device_entry_Nil [simp]: "device_entry [] d = device_default"
  by (simp add: device_entry_def)

definition waiter_count :: "device_scan_state \<Rightarrow> u64 \<Rightarrow> nat" where
  "waiter_count st g = (case hm_get (waiters st) g of None \<Rightarrow> 0 | Some n \<Rightarrow> n)"

lemma add_waiter_frame [simp]:
  "in_flight (add_waiter st) = in_flight st" "generation (add_waiter st) = generation st"
  "completions (add_waiter st) = completions st"
  by (simp_all add: add_waiter_def Let_def)

lemma waiters_add_waiter:
  "hm_get (waiters (add_waiter st)) =
     (hm_get (waiters st))(generation st \<mapsto> Suc (waiter_count st (generation st)))"
  by (simp add: add_waiter_def waiter_count_def Let_def update_conv')

lemma claim_Request:
  "claim s dev ssids now = (Request g, s') \<longleftrightarrow>
     in_flight (device_entry s dev) = None \<and> g = generation (device_entry s dev) + 1 \<and>
     s' = hm_insert dev ((device_entry s dev)\<lparr>in_flight := Some (normalized_ssids ssids),
            generation := g, previous_request := last_request (device_entry s dev),
            last_request := Some now\<rparr>) s"
  by (auto simp: claim_def Let_def split: option.splits if_splits)

lemma claim_Join:
  "claim s dev ssids now = (Join g, s') \<longleftrightarrow>
     (\<exists>scope. in_flight (device_entry s dev) = Some scope \<and> scan_scope_covers scope ssids) \<and>
     g = generation (device_entry s dev) \<and> s' = hm_insert dev (add_waiter (device_entry s dev)) s"
  by (auto simp: claim_def Let_def split: option.splits if_splits)

lemma claim_WaitFor:
  "claim s dev ssids now = (WaitFor g, s') \<longleftrightarrow>
     (\<exists>scope. in_flight (device_entry s dev) = Some scope \<and> \<not> scan_scope_covers scope ssids) \<and>
     g = generation (device_entry s dev) \<and> s' = hm_insert dev (add_waiter (device_entry s dev)) s"
  by (auto simp: claim_def Let_def split: option.splits if_splits)

lemmas claim_simps = claim_Request claim_Join claim_WaitFor

definition retired :: "device_scan_state \<Rightarrow> u64 \<Rightarrow> shared_scan_outcome \<Rightarrow> device_scan_state" where
  "retired st g outcome = st\<lparr>in_flight := None, completions :=
     (if hm_get (waiters st) g \<noteq> None then hm_insert g outcome (completions st)
      else completions st)\<rparr>"

lemma device_entry_complete:
  "device_entry (complete_scan s dev g outcome) d =
     (if d = dev \<and> generation (device_entry s dev) = g \<and> in_flight (device_entry s dev) \<noteq> None
      then retired (device_entry s dev) g outcome else device_entry s d)"
  by (auto simp: complete_scan_def retired_def Let_def device_entry_def device_default_def
      update_conv' split: option.splits)

lemma device_entry_consume:
  "device_entry (consume_waiter s dev g) d =
     (if d = dev \<and> hm_get (waiters (device_entry s dev)) g \<noteq> None
      then (if waiter_count (device_entry s dev) g \<le> 1
            then (device_entry s dev)\<lparr>waiters := hm_remove g (waiters (device_entry s dev)),
                    completions := hm_remove g (completions (device_entry s dev))\<rparr>
            else (device_entry s dev)\<lparr>waiters :=
                    hm_insert g (waiter_count (device_entry s dev) g - 1)
                      (waiters (device_entry s dev))\<rparr>)
      else device_entry s d)"
  by (auto simp: consume_waiter_def Let_def device_entry_def device_default_def waiter_count_def
      update_conv' split: option.splits)

lemma wait_poll_sched:
  "wait_poll s dev g deadline now cancellation = Some (r, s') \<Longrightarrow> s' = consume_waiter s dev g"
  by (auto simp: wait_poll_def split: if_splits option.splits)

lemma wait_poll_completed:
  "\<not> cancellation_requested cancellation \<Longrightarrow>
   hm_get (completions (device_entry s dev)) g = Some outcome \<Longrightarrow>
   wait_poll s dev g deadline now cancellation = Some (Completed outcome, consume_waiter s dev g)"
  by (auto simp: wait_poll_def device_entry_def device_default_def split: option.splits)

section \<open>The scheduler is an exclusive gate\<close>

definition busy :: "scheduler \<Rightarrow> string set" where
  "busy s = {dev. in_flight (device_entry s dev) \<noteq> None}"

definition scan_enter :: "string \<times> bytes list \<times> instant \<Rightarrow> scheduler
    \<Rightarrow> (string \<times> u64) option \<times> scheduler" where
  "scan_enter r s = (case claim s (fst r) (fst (snd r)) (snd (snd r)) of
     (Request g, s') \<Rightarrow> (Some (fst r, g), s') | (_, s') \<Rightarrow> (None, s'))"

definition scan_live :: "string \<times> u64 \<Rightarrow> scheduler \<Rightarrow> bool" where
  "scan_live t s \<longleftrightarrow> in_flight (device_entry s (fst t)) \<noteq> None
     \<and> generation (device_entry s (fst t)) = snd t"

lemma scan_enter_cases:
  assumes "scan_enter r s = (x, s')"
  obtains g where "x = Some (fst r, g)" "claim s (fst r) (fst (snd r)) (snd (snd r)) = (Request g, s')"
  | t where "x = None" "claim s (fst r) (fst (snd r)) (snd (snd r)) = (t, s')" "\<nexists>g. t = Request g"
  using assms by (cases "claim s (fst r) (fst (snd r)) (snd (snd r))")
    (auto simp: scan_enter_def split: scan_turn.splits)

lemma claim_not_Request:
  assumes "claim s dev ssids now = (t, s')" and "\<nexists>g. t = Request g"
  shows "in_flight (device_entry s dev) \<noteq> None \<and>
    s' = hm_insert dev (add_waiter (device_entry s dev)) s"
  using assms by (cases t) (auto simp: claim_simps)

interpretation scan: exclusive_gate scan_enter
  "\<lambda>outcome t s. complete_scan s (fst t) (snd t) outcome" busy fst fst scan_live
proof unfold_locales
  fix r s t s'
  assume "scan_enter r s = (Some t, s')"
  then show "fst r \<notin> busy s \<and> fst t = fst r \<and> busy s' = insert (fst r) (busy s) \<and> scan_live t s'"
    by (elim scan_enter_cases) (auto simp: claim_simps busy_def scan_live_def)
next
  fix r s s'
  assume "scan_enter r s = (None, s')"
  then show "busy s' = busy s"
    by (elim scan_enter_cases) (auto simp: busy_def split: if_splits dest!: claim_not_Request)
next
  fix r s x s' t
  assume "scan_enter r s = (x, s')" "scan_live t s" "fst t \<in> busy s"
  then show "scan_live t s'"
    by (elim scan_enter_cases) (auto simp: scan_live_def busy_def claim_simps dest!: claim_not_Request)
next
  fix t :: "string \<times> u64" and s f
  assume "scan_live t s"
  then show "busy (complete_scan s (fst t) (snd t) f) = busy s - {fst t}"
    by (auto simp: busy_def scan_live_def device_entry_complete retired_def)
next
  fix u t :: "string \<times> u64" and s f
  assume "scan_live u s" "fst u \<noteq> fst t"
  then show "scan_live u (complete_scan s (fst t) (snd t) f)"
    by (auto simp: scan_live_def device_entry_complete)
qed

section \<open>No lost results\<close>

text \<open>
  The bookkeeping of one device: the waiter counts are the callers that wait, an outcome is kept
  only while somebody waits for it, a caller waits only for the running scan or for one whose
  outcome is kept, and the scope of a running scan is sorted.
\<close>

definition device_ok :: "device_scan_state \<Rightarrow> (u64 \<Rightarrow> nat) \<Rightarrow> bool" where
  "device_ok st callers \<longleftrightarrow>
     (\<forall>g. waiter_count st g = callers g) \<and>
     (\<forall>g. hm_get (waiters st) g \<noteq> Some 0) \<and>
     (\<forall>g. hm_get (completions st) g \<noteq> None \<longrightarrow> 0 < callers g) \<and>
     (\<forall>g. 0 < callers g \<longrightarrow>
        hm_get (completions st) g \<noteq> None \<or> (in_flight st \<noteq> None \<and> generation st = g)) \<and>
     (\<forall>scope. in_flight st = Some scope \<longrightarrow> sorted scope)"

definition callers_of :: "scan_system \<Rightarrow> string \<Rightarrow> u64 \<Rightarrow> nat" where
  "callers_of s dev g = count_list (waiting s) (dev, g)"

definition scan_inv :: "scan_system \<Rightarrow> bool" where
  "scan_inv s \<longleftrightarrow> scan.consistent (sched s) (owners s)
     \<and> (\<forall>dev. device_ok (device_entry (sched s) dev) (callers_of s dev))"

lemma device_ok_default: "device_ok device_default (\<lambda>_. 0)"
  by (simp add: device_ok_def device_default_def waiter_count_def)

lemma device_ok_add_waiter:
  "device_ok st c \<Longrightarrow> in_flight st \<noteq> None \<Longrightarrow>
   device_ok (add_waiter st) (c(generation st := Suc (c (generation st))))"
  unfolding device_ok_def waiters_add_waiter waiter_count_def
  by (simp add: waiters_add_waiter waiter_count_def) blast

lemma device_ok_request:
  "device_ok st c \<Longrightarrow> in_flight st = None \<Longrightarrow> sorted scope \<Longrightarrow>
   device_ok (st\<lparr>in_flight := Some scope, generation := g, previous_request := p,
      last_request := l\<rparr>) c"
  by (auto simp: device_ok_def waiter_count_def)

lemma device_ok_retired:
  assumes ok: "device_ok st c" and g: "generation st = g"
  shows "device_ok (retired st g outcome) c"
proof -
  have "hm_get (waiters st) g \<noteq> None \<longleftrightarrow> 0 < c g"
    using ok by (auto simp: device_ok_def waiter_count_def split: option.splits) (metis gr0I)
  with ok g show ?thesis
    unfolding device_ok_def retired_def waiter_count_def
    by (simp add: update_conv') (metis less_numeral_extra(3))
qed

lemma waiter_count_pos:
  assumes "device_ok st c" and "0 < c g"
  shows "hm_get (waiters st) g = Some (c g)"
proof -
  from assms(1) have "waiter_count st g = c g" by (simp add: device_ok_def)
  with assms(2) show ?thesis by (auto simp: waiter_count_def split: option.splits)
qed

lemma device_ok_consume_last:
  assumes ok: "device_ok st c" and c: "c g = 1"
  shows "device_ok (st\<lparr>waiters := hm_remove g (waiters st), completions := hm_remove g (completions st)\<rparr>)
    (c(g := 0))"
  using ok c by (auto simp: device_ok_def waiter_count_def delete_conv')

lemma device_ok_consume_more:
  assumes ok: "device_ok st c" and c: "1 < c g"
  shows "device_ok (st\<lparr>waiters := hm_insert g (c g - 1) (waiters st)\<rparr>) (c(g := c g - 1))"
  using ok c by (auto simp: device_ok_def waiter_count_def update_conv')

lemma count_list_remove1:
  "count_list (remove1 x w) y = (if x = y \<and> x \<in> set w then count_list w y - 1 else count_list w y)"
  by (induction w) (auto simp: count_list_0_iff)

lemma late_is_noop:
  assumes "scan.consistent (sched s) (owners s)" and "(dev, g) \<notin> set (owners s)"
  shows "device_entry (complete_scan (sched s) dev g outcome) = device_entry (sched s)"
proof -
  have "\<not> (generation (device_entry (sched s) dev) = g \<and> in_flight (device_entry (sched s) dev) \<noteq> None)"
  proof
    assume a: "generation (device_entry (sched s) dev) = g \<and> in_flight (device_entry (sched s) dev) \<noteq> None"
    then have "dev \<in> fst ` set (owners s)"
      using assms(1) by (auto simp: scan.consistent_def holders_match_def busy_def)
    then obtain h where h: "(dev, h) \<in> set (owners s)" by auto
    with assms(1) have "scan_live (dev, h) (sched s)" by (simp add: scan.consistent_def)
    with a h assms(2) show False by (simp add: scan_live_def)
  qed
  then show ?thesis by (auto simp: fun_eq_iff device_entry_complete)
qed

lemma scan_step_consistent:
  assumes "scan_step s t" and c: "scan.consistent (sched s) (owners s)"
  shows "scan.consistent (sched t) (owners t)"
  using assms(1)
proof cases
  case (granted dev ssids now g s')
  then have "scan_enter (dev, ssids, now) (sched s) = (Some (dev, g), s')"
    by (simp add: scan_enter_def)
  from scan.enter_admitted [OF c this] granted show ?thesis by simp
next
  case (joined dev ssids now g s')
  then have "scan_enter (dev, ssids, now) (sched s) = (None, s')" by (simp add: scan_enter_def)
  from scan.enter_refused [OF c this] joined show ?thesis by simp
next
  case (queued dev ssids now g s')
  then have "scan_enter (dev, ssids, now) (sched s) = (None, s')" by (simp add: scan_enter_def)
  from scan.enter_refused [OF c this] queued show ?thesis by simp
next
  case (completed dev g outcome)
  with scan.leave_consistent [OF c, of "(dev, g)" outcome] show ?thesis by simp
next
  case (late dev g outcome)
  have "device_entry (complete_scan (sched s) dev g outcome) = device_entry (sched s)"
    by (rule late_is_noop [OF c late(2)])
  with late c show ?thesis
    by (simp add: scan.consistent_def busy_def scan_live_def)
next
  case (polled dev g deadline now cancellation result s')
  have "in_flight (device_entry s' d) = in_flight (device_entry (sched s) d)
      \<and> generation (device_entry s' d) = generation (device_entry (sched s) d)" for d
    using wait_poll_sched [OF polled(3)] by (simp add: device_entry_consume)
  with polled c show ?thesis by (simp add: scan.consistent_def busy_def scan_live_def)
next
  case (requested dev now)
  with c show ?thesis
    by (auto simp: scan.consistent_def busy_def scan_live_def note_request_def holders_match_def)
qed

lemma device_ok_consume:
  assumes ok: "device_ok (device_entry s dev) c" and c: "0 < c g"
  shows "device_ok (device_entry (consume_waiter s dev g) dev) (c(g := c g - 1))"
proof -
  have w: "hm_get (waiters (device_entry s dev)) g = Some (c g)" by (rule waiter_count_pos [OF ok c])
  then have n: "waiter_count (device_entry s dev) g = c g" by (simp add: waiter_count_def)
  show ?thesis
  proof (cases "c g = 1")
    case True
    with device_ok_consume_last [OF ok True] w n show ?thesis by (simp add: device_entry_consume)
  next
    case False
    with c have "1 < c g" by simp
    with device_ok_consume_more [OF ok this] w n show ?thesis by (simp add: device_entry_consume)
  qed
qed

lemma scan_step_devices:
  assumes st: "scan_step s t" and inv: "scan_inv s"
  shows "device_ok (device_entry (sched t) d) (callers_of t d)"
proof -
  from inv have ok: "\<And>d. device_ok (device_entry (sched s) d) (callers_of s d)"
    and con: "scan.consistent (sched s) (owners s)" by (simp_all add: scan_inv_def)
  have add: "callers_of (s\<lparr>sched := x, waiting := (dev, g) # waiting s\<rparr>) d =
      (if d = dev then (callers_of s d)(g := Suc (callers_of s d g)) else callers_of s d)" for x dev g
    by (auto simp: callers_of_def fun_eq_iff)
  from st show ?thesis
  proof cases
    case (granted dev ssids now g s')
    with device_ok_request [OF ok [of dev]] ok [of d] show ?thesis
      by (auto simp: claim_simps callers_of_def [abs_def] sorted_normalized)
  next
    case (joined dev ssids now g s')
    with device_ok_add_waiter [OF ok [of dev]] ok [of d] show ?thesis by (auto simp: claim_simps add)
  next
    case (queued dev ssids now g s')
    with device_ok_add_waiter [OF ok [of dev]] ok [of d] show ?thesis by (auto simp: claim_simps add)
  next
    case (completed dev g outcome)
    with device_ok_retired [OF ok [of dev]] ok [of d] show ?thesis
      by (auto simp: device_entry_complete callers_of_def [abs_def])
  next
    case (late dev g outcome)
    with late_is_noop [OF con] ok [of d] show ?thesis by (simp add: callers_of_def [abs_def])
  next
    case (polled dev g deadline now cancellation result s')
    then have s': "s' = consume_waiter (sched s) dev g" by (simp add: wait_poll_sched)
    have "0 < callers_of s dev g"
      using polled(2) by (simp add: callers_of_def count_list_0_iff neq0_conv [symmetric] del: neq0_conv)
    note consumed = device_ok_consume [OF ok this]
    have "callers_of t d = (if d = dev then (callers_of s dev)(g := callers_of s dev g - 1)
        else callers_of s d)"
      using polled by (auto simp: callers_of_def fun_eq_iff count_list_remove1)
    moreover have "device_entry (sched t) d =
        (if d = dev then device_entry (consume_waiter (sched s) dev g) dev else device_entry (sched s) d)"
      using polled s' by (simp add: device_entry_consume)
    ultimately show ?thesis using consumed ok [of d] by simp
  next
    case (requested dev now)
    with ok [of d] ok [of dev] show ?thesis
      by (auto simp: note_request_def callers_of_def [abs_def] device_ok_def waiter_count_def)
  qed
qed

lemma scan_reachable_inv: "scan_reachable s \<Longrightarrow> scan_inv s"
proof (induction rule: scan_reachable.induct)
  case start
  then show ?case
    by (simp add: scan_inv_def scan.consistent_def busy_def device_default_def callers_of_def
        device_ok_def waiter_count_def)
next
  case (step s t)
  then show ?case
    using scan_step_consistent scan_step_devices unfolding scan_inv_def by blast
qed

text \<open>
  C6. However the callers interleave, each device has at most one scan in flight, owned by
  exactly one caller holding the current generation; a device is idle exactly when no caller
  owns a scan on it. Late and duplicate completions are included.
\<close>

theorem scan_single_flight:
  assumes "scan_reachable s"
  shows "distinct (map fst (owners s)) \<and>
    (in_flight (device_entry (sched s) dev) \<noteq> None
       \<longleftrightarrow> (dev, generation (device_entry (sched s) dev)) \<in> set (owners s))"
proof -
  from scan_reachable_inv [OF assms] have c: "scan.consistent (sched s) (owners s)"
    by (simp add: scan_inv_def)
  then have b: "in_flight (device_entry (sched s) dev) \<noteq> None \<longleftrightarrow> dev \<in> fst ` set (owners s)"
    by (auto simp: scan.consistent_def holders_match_def busy_def)
  have l: "(dev, h) \<in> set (owners s) \<Longrightarrow> h = generation (device_entry (sched s) dev)" for h
    using c by (auto simp: scan.consistent_def scan_live_def)
  have "distinct (map fst (owners s))" using c by (simp add: scan.consistent_def holders_match_def)
  moreover have "dev \<in> fst ` set (owners s)
      \<longleftrightarrow> (dev, generation (device_entry (sched s) dev)) \<in> set (owners s)"
  proof
    assume "dev \<in> fst ` set (owners s)"
    then obtain h where "(dev, h) \<in> set (owners s)" by auto
    with l [OF this] show "(dev, generation (device_entry (sched s) dev)) \<in> set (owners s)" by simp
  qed force
  ultimately show ?thesis using b by blast
qed

theorem scan_single_flight_witness:
  "distinct (map fst [(''/dev/1'', 1 :: u64)]) \<and>
   in_flight (device_entry (snd (claim [] ''/dev/1'' [] 0)) ''/dev/1'') = Some []"
proof -
  let ?s = "\<lparr>sched = snd (claim [] ''/dev/1'' [] 0), owners = [(''/dev/1'', 1)], waiting = []\<rparr>"
  have c: "claim [] ''/dev/1'' [] 0 = (Request 1, snd (claim [] ''/dev/1'' [] 0))"
    by (simp add: claim_def device_default_def Let_def)
  have r: "scan_reachable ?s"
    using scan_reachable.step [OF scan_reachable.start]
      scan_step.granted [of "\<lparr>sched = [], owners = [], waiting = []\<rparr>", simplified, OF c] by blast
  from scan_single_flight [OF r, of "''/dev/1''"] show ?thesis
    by (simp add: claim_def device_default_def Let_def normalized_ssids_def device_entry_def)
qed

text \<open>
  C7. A caller that joined or queued behind a scan never waits for nothing: as long as it waits,
  the scan it waits for is still running or its outcome is retained, and once the outcome is
  there, its next uncancelled poll returns exactly that outcome, whatever other callers did.
\<close>

theorem scan_result_delivered:
  assumes "scan_reachable s" and "(dev, g) \<in> set (waiting s)"
  shows "(in_flight (device_entry (sched s) dev) \<noteq> None
            \<and> generation (device_entry (sched s) dev) = g)
    \<or> (\<exists>outcome. \<forall>deadline now.
         wait_poll (sched s) dev g deadline now (Some False) =
           Some (Completed outcome, consume_waiter (sched s) dev g))"
proof -
  from scan_reachable_inv [OF assms(1)]
  have ok: "device_ok (device_entry (sched s) dev) (callers_of s dev)" by (simp add: scan_inv_def)
  from assms(2) have "0 < callers_of s dev g"
    by (simp add: callers_of_def count_list_0_iff neq0_conv [symmetric] del: neq0_conv)
  with ok have "hm_get (completions (device_entry (sched s) dev)) g \<noteq> None
      \<or> (in_flight (device_entry (sched s) dev) \<noteq> None \<and> generation (device_entry (sched s) dev) = g)"
    unfolding device_ok_def by blast
  then consider "in_flight (device_entry (sched s) dev) \<noteq> None \<and> generation (device_entry (sched s) dev) = g"
    | outcome where "hm_get (completions (device_entry (sched s) dev)) g = Some outcome"
    by blast
  then show ?thesis
    by cases (auto simp: wait_poll_completed cancellation_requested_def)
qed


theorem scan_result_delivered_witness:
  "wait_poll (complete_scan (snd (claim (snd (claim [] ''/dev/1'' [] 0)) ''/dev/1'' [] 1))
       ''/dev/1'' 1 Succeeded) ''/dev/1'' 1 0 5 (Some False) =
     Some (Completed Succeeded, [(''/dev/1'', device_default\<lparr>generation := 1,
       last_request := Some 0\<rparr>)])"
proof -
  let ?s1 = "snd (claim [] ''/dev/1'' [] 0)"
  let ?s2 = "snd (claim ?s1 ''/dev/1'' [] 1)"
  let ?s3 = "complete_scan ?s2 ''/dev/1'' 1 Succeeded"
  let ?t = "\<lparr>sched = ?s3, owners = [], waiting = [(''/dev/1'', 1)]\<rparr>"
  have c1: "claim [] ''/dev/1'' [] 0 = (Request 1, ?s1)"
    by (simp add: claim_def device_default_def Let_def)
  have c2: "claim ?s1 ''/dev/1'' [] 1 = (Join 1, ?s2)"
    by (simp add: claim_def device_default_def Let_def normalized_ssids_def device_entry_def
        scan_scope_covers_def)
  have "scan_reachable \<lparr>sched = ?s1, owners = [(''/dev/1'', 1)], waiting = []\<rparr>"
    using scan_reachable.step [OF scan_reachable.start]
      scan_step.granted [of "\<lparr>sched = [], owners = [], waiting = []\<rparr>", simplified, OF c1] by blast
  from scan_reachable.step [OF this scan_step.joined [of "\<lparr>sched = ?s1, owners = [(''/dev/1'', 1)],
      waiting = []\<rparr>", unfolded scan_system.simps, OF c2]]
  have "scan_reachable \<lparr>sched = ?s2, owners = [(''/dev/1'', 1)], waiting = [(''/dev/1'', 1)]\<rparr>"
    by simp
  from scan_reachable.step [OF this scan_step.completed [of "''/dev/1''" 1 _ Succeeded]]
  have r: "scan_reachable ?t" by simp
  have idle: "in_flight (device_entry ?s3 ''/dev/1'') = None"
    by (simp add: claim_def complete_scan_def device_default_def Let_def normalized_ssids_def
        device_entry_def scan_scope_covers_def add_waiter_def)
  from scan_result_delivered [OF r, of "''/dev/1''" 1] idle obtain outcome where
    "wait_poll ?s3 ''/dev/1'' 1 0 5 (Some False) = Some (Completed outcome, consume_waiter ?s3 ''/dev/1'' 1)"
    by auto
  then show ?thesis
    by (simp add: wait_poll_def cancellation_requested_def claim_def complete_scan_def
        device_default_def Let_def normalized_ssids_def device_entry_def scan_scope_covers_def
        add_waiter_def consume_waiter_def)
qed

text \<open>
  A caller shares a running scan only when that scan probes every SSID it asked for (and a
  wildcard request shares only a wildcard scan); it is told to wait otherwise; and a caller that
  is granted the scan probes exactly the SSIDs it asked for, each once.
\<close>

theorem scan_turn_scope:
  assumes "scan_reachable s" and "claim (sched s) dev ssids now = (turn, s')"
  shows "case turn of
      Request g \<Rightarrow> in_flight (device_entry (sched s) dev) = None \<and>
        (\<exists>scope. in_flight (device_entry s' dev) = Some scope \<and> set scope = set ssids \<and> distinct scope)
    | Join g \<Rightarrow> (\<exists>scope. in_flight (device_entry (sched s) dev) = Some scope \<and>
        set ssids \<subseteq> set scope \<and> (scope = [] \<longleftrightarrow> ssids = []))
    | WaitFor g \<Rightarrow> (\<exists>scope. in_flight (device_entry (sched s) dev) = Some scope \<and>
        \<not> (set ssids \<subseteq> set scope \<and> (scope = [] \<longleftrightarrow> ssids = [])))"
proof -
  have sorted_scope: "sorted scope" if "in_flight (device_entry (sched s) dev) = Some scope" for scope
    using scan_reachable_inv [OF assms(1)] that by (simp add: scan_inv_def device_ok_def)
  show ?thesis
    using assms(2)
    by (cases turn) (auto simp: claim_simps dest: sorted_scope
        simp: scan_scope_covers_iff [OF sorted_scope] distinct_normalized)
qed

theorem scan_turn_scope_witness:
  "\<exists>scope. in_flight (device_entry (snd (claim [] ''/dev/1'' [''b'', ''a'', ''b''] 0)) ''/dev/1'') = Some scope
     \<and> set scope = {''a'', ''b''} \<and> distinct scope"
  using scan_turn_scope [OF scan_reachable.start, of "''/dev/1''" "[''b'', ''a'', ''b'']" 0 "Request 1"
      "snd (claim [] ''/dev/1'' [''b'', ''a'', ''b''] 0)"]
  by (simp add: claim_def device_default_def Let_def insert_commute)

text \<open>
  C31. The delay before the next scan request is exactly right: it is the least delay after which
  both NetworkManager's last scan (when its clock reading is usable) and this process's last
  request are a full request interval old, and it never exceeds one interval.
\<close>

theorem rate_limit_wait_exact:
  assumes "boottime < 2 ^ 63"
  shows "(rate_limit_wait last_scan boottime last_req now \<le> w \<longleftrightarrow>
      (0 \<le> last_scan \<and> last_scan \<le> boottime \<longrightarrow>
         SCAN_REQUEST_INTERVAL \<le> from_millis (nat (boottime - last_scan)) + w) \<and>
      (\<forall>at. last_req = Some at \<longrightarrow> SCAN_REQUEST_INTERVAL \<le> (now - at) + w)) \<and>
    rate_limit_wait last_scan boottime last_req now \<le> SCAN_REQUEST_INTERVAL"
proof -
  have sat: "saturating_sub_i64 boottime last_scan =
      (if - (2 ^ 63) \<le> boottime - last_scan then boottime - last_scan else - (2 ^ 63))"
    if "0 \<le> last_scan"
    using assms that by (simp add: saturating_sub_i64_def)
  have ge: "0 \<le> saturating_sub_i64 boottime last_scan \<longleftrightarrow> last_scan \<le> boottime" if "0 \<le> last_scan"
    using sat [OF that] by simp
  have eq: "saturating_sub_i64 boottime last_scan = boottime - last_scan"
    if "0 \<le> last_scan" "last_scan \<le> boottime"
    using sat [OF that(1)] that(2) by simp
  show ?thesis
    using ge eq by (cases last_req) (auto simp: rate_limit_wait_def Let_def)
qed

theorem rate_limit_wait_exact_witness:
  "rate_limit_wait 1000 4000 (Some 5) 6 \<le> SCAN_REQUEST_INTERVAL \<and> (1000 :: int) \<le> 4000 \<and>
   SCAN_REQUEST_INTERVAL \<le> from_millis 3000 + rate_limit_wait 1000 4000 (Some 5) 6"
  using rate_limit_wait_exact [of 4000 1000 "Some 5" 6 "rate_limit_wait 1000 4000 (Some 5) 6"]
  by simp

end
