(* ===== verification/Codec.thy ===== *)
theory Codec
  imports Prelude
begin

text \<open>
  The contract of a textual encoding: decoding what was encoded gives it back. An exact codec
  accepts nothing else, so a decoded text is the canonical encoding of its value. The protocol's
  method and stream names, the wire forms of security classes and the network keys are codecs.
\<close>

locale codec =
  fixes enc :: "'a \<Rightarrow> 'b"
    and dec :: "'b \<Rightarrow> 'a option"
  assumes dec_enc: "dec (enc x) = Some x"
begin

lemma enc_inject: "enc x = enc y \<longleftrightarrow> x = y"
  by (metis dec_enc option.inject)

lemma inj_enc: "inj enc"
  by (rule injI) (simp add: enc_inject)

lemma dec_onto: "\<exists>b. dec b = Some x"
  using dec_enc by blast

end

locale exact_codec = codec +
  assumes enc_dec: "dec b = Some x \<Longrightarrow> enc x = b"
begin

lemma dec_iff: "dec b = Some x \<longleftrightarrow> b = enc x"
  using dec_enc enc_dec by auto

lemma dec_None_iff: "dec b = None \<longleftrightarrow> b \<notin> range enc"
proof
  assume "dec b = None"
  then show "b \<notin> range enc" by (auto simp: dec_enc)
next
  assume "b \<notin> range enc"
  then show "dec b = None" by (cases "dec b") (auto simp: dec_iff)
qed

lemma dec_unique: "dec b = Some x \<Longrightarrow> dec c = Some x \<Longrightarrow> b = c"
  by (simp add: dec_iff)

end

text \<open>A registry: a table with one row per key, in which a row is found by its name.\<close>

lemma find_unique_name:
  assumes "distinct (map name xs)" and "x \<in> set xs"
  shows "List.find (\<lambda>y. name y = name x) xs = Some x"
proof (rule Option.option.exhaust [of "List.find (\<lambda>y. name y = name x) xs"])
  assume "List.find (\<lambda>y. name y = name x) xs = None"
  with assms(2) show ?thesis by (auto simp: find_None_iff)
next
  fix y
  assume y: "List.find (\<lambda>y. name y = name x) xs = Some y"
  then have "y \<in> set xs" "name y = name x" by (auto simp: find_Some_iff)
  with assms have "y = x" by (auto simp: distinct_map inj_on_def)
  with y show ?thesis by simp
qed

lemma find_in_set: "List.find P xs = Some x \<Longrightarrow> x \<in> set xs \<and> P x"
  by (auto simp: find_Some_iff)

end
