(* ===== verification/Protocol.thy ===== *)
theory Protocol
  imports Codec Errors
begin

text \<open>
  \<open>src/protocol.rs\<close> and \<open>src/daemon_event.rs\<close>: the method and stream registries of the daemon's
  API, the lookups by name and by discriminant, and the emission of events, which the stream
  registry guards. The example parameters and descriptions of a registry row appear only in the
  generated reference and are left out of the rows. The envelope an event is wrapped in and the
  transport it is handed to are built by the shared daemon crates; both are parameters.
\<close>

section \<open>Registries\<close>

datatype api_method =
    M_WifiStatus | M_WifiSetEnabled | M_RadioSetWwanEnabled | M_RadioSetAirplaneMode
  | M_NetworkConnectivity | M_NetworkPortalPrepare | M_NetworkPortalClaim | M_NetworkPortalComplete
  | M_NetworkInventory | M_NetworkDevices | M_NetworkConnections | M_NetworkState
  | M_NetworkActivateProfile | M_NetworkDeactivate | M_NetworkStatisticsWatch | M_HotspotCapabilities
  | M_HotspotStatus | M_HotspotStart | M_HotspotStop | M_VpnList
  | M_VpnStatus | M_VpnConnect | M_VpnDisconnect | M_WifiQrParse
  | M_WifiQrRender | M_WifiQrConnect | M_WifiNetworks | M_WifiBandStatus
  | M_WifiBandSet | M_WifiSaved | M_WifiScan | M_WifiConnectTarget
  | M_WifiDisconnect | M_WifiProfileOperation | M_WifiSecretCapabilities | M_WifiSecretProvide
  | M_DiscoveryServices | M_OperationStatus

datatype parameter_kind =
    PK_Empty | PK_PortalPrepare | PK_PortalClaim | PK_PortalComplete | PK_Enabled
  | PK_ActivateProfile | PK_Deactivate | PK_StatisticsWatch | PK_HotspotStart | PK_VpnSelect
  | PK_VpnConnect | PK_QrPayload | PK_QrConnect | PK_Networks | PK_BandStatus
  | PK_BandSet | PK_Scan | PK_ConnectTarget | PK_ProfileOperation | PK_SecretCapabilities
  | PK_SecretProvide | PK_DiscoveryServices | PK_RequestStatus

datatype stream =
    S_WifiStatus | S_NetworkConnectivity | S_NetworkInventory | S_NetworkStatistics
  | S_Hotspot | S_Vpn | S_NetworkHealth | S_WifiNetworks
  | S_WifiScan | S_WifiConnect | S_WifiBand | S_WifiSecret
  | S_DaemonRequest | S_DaemonSubscription

datatype stream_delivery = D_Continuous | D_Operation | D_External | D_Internal

record method_spec =
  ms_method :: api_method
  ms_name :: string
  ms_parameters :: parameter_kind
  ms_response_key :: string
  ms_stream :: "stream option"
  ms_operation :: error_operation

record stream_spec =
  ss_stream :: stream
  ss_name :: string
  ss_subscribable :: bool
  ss_default :: bool
  ss_delivery :: stream_delivery
  ss_events :: "string list"

definition method_row :: "api_method \<Rightarrow> string \<Rightarrow> parameter_kind \<Rightarrow> string \<Rightarrow> stream option
    \<Rightarrow> error_operation \<Rightarrow> method_spec" where
  "method_row m n p k s oper = \<lparr>ms_method = m, ms_name = n, ms_parameters = p,
     ms_response_key = k, ms_stream = s, ms_operation = oper\<rparr>"

definition stream_row :: "stream \<Rightarrow> string \<Rightarrow> bool \<Rightarrow> bool \<Rightarrow> stream_delivery \<Rightarrow> string list
    \<Rightarrow> stream_spec" where
  "stream_row s n sub d del evs = \<lparr>ss_stream = s, ss_name = n, ss_subscribable = sub,
     ss_default = d, ss_delivery = del, ss_events = evs\<rparr>"

definition method_registry_1 :: "method_spec list" where
  "method_registry_1 = [
    method_row M_WifiStatus ''wifi.status'' PK_Empty ''status'' (Some S_WifiStatus) OpStatus,
    method_row M_WifiSetEnabled ''wifi.setEnabled'' PK_Enabled ''result'' None OpStatus,
    method_row M_RadioSetWwanEnabled ''radio.setWwanEnabled'' PK_Enabled ''result'' None OpStatus,
    method_row M_RadioSetAirplaneMode ''radio.setAirplaneMode'' PK_Enabled ''result'' None OpStatus,
    method_row M_NetworkConnectivity ''network.connectivity'' PK_Empty ''connectivity'' (Some S_NetworkConnectivity) OpConnectivity,
    method_row M_NetworkPortalPrepare ''network.portalPrepare'' PK_PortalPrepare ''portal'' None OpConnectivity,
    method_row M_NetworkPortalClaim ''network.portalClaim'' PK_PortalClaim ''portal'' None OpConnectivity,
    method_row M_NetworkPortalComplete ''network.portalComplete'' PK_PortalComplete ''portal'' None OpConnectivity,
    method_row M_NetworkInventory ''network.inventory'' PK_Empty ''inventory'' (Some S_NetworkInventory) OpInventory,
    method_row M_NetworkDevices ''network.devices'' PK_Empty ''devices'' (Some S_NetworkInventory) OpInventory,
    method_row M_NetworkConnections ''network.connections'' PK_Empty ''connections'' (Some S_NetworkInventory) OpInventory,
    method_row M_NetworkState ''network.status'' PK_Empty ''network'' (Some S_NetworkInventory) OpInventory,
    method_row M_NetworkActivateProfile ''network.activateProfile'' PK_ActivateProfile ''result'' (Some S_NetworkInventory) OpConnect]"

definition method_registry_2 :: "method_spec list" where
  "method_registry_2 = [
    method_row M_NetworkDeactivate ''network.deactivate'' PK_Deactivate ''result'' (Some S_NetworkInventory) OpDisconnect,
    method_row M_NetworkStatisticsWatch ''network.statistics.watch'' PK_StatisticsWatch ''result'' (Some S_NetworkStatistics) OpStatistics,
    method_row M_HotspotCapabilities ''hotspot.capabilities'' PK_Empty ''hotspot'' None OpHotspotOperation,
    method_row M_HotspotStatus ''hotspot.status'' PK_Empty ''hotspot'' None OpHotspotOperation,
    method_row M_HotspotStart ''hotspot.start'' PK_HotspotStart ''result'' (Some S_Hotspot) OpHotspotOperation,
    method_row M_HotspotStop ''hotspot.stop'' PK_Empty ''result'' None OpHotspotOperation,
    method_row M_VpnList ''vpn.list'' PK_Empty ''vpns'' None OpVpnOperation,
    method_row M_VpnStatus ''vpn.status'' PK_Empty ''vpn'' None OpVpnOperation,
    method_row M_VpnConnect ''vpn.connect'' PK_VpnConnect ''result'' (Some S_Vpn) OpVpnOperation,
    method_row M_VpnDisconnect ''vpn.disconnect'' PK_VpnSelect ''result'' None OpVpnOperation,
    method_row M_WifiQrParse ''wifi.qr.parse'' PK_QrPayload ''qr'' None OpQrOperation,
    method_row M_WifiQrRender ''wifi.qr.render'' PK_QrPayload ''result'' None OpQrOperation,
    method_row M_WifiQrConnect ''wifi.qr.connect'' PK_QrConnect ''result'' (Some S_WifiConnect) OpQrOperation]"

definition method_registry_3 :: "method_spec list" where
  "method_registry_3 = [
    method_row M_WifiNetworks ''wifi.networks'' PK_Networks ''networks'' (Some S_WifiNetworks) OpNetworks,
    method_row M_WifiBandStatus ''wifi.band.status'' PK_BandStatus ''band'' None OpBandOperation,
    method_row M_WifiBandSet ''wifi.band.set'' PK_BandSet ''result'' (Some S_WifiBand) OpBandOperation,
    method_row M_WifiSaved ''wifi.saved'' PK_Empty ''profiles'' None OpProfileOperation,
    method_row M_WifiScan ''wifi.scan'' PK_Scan ''result'' (Some S_WifiScan) OpScan,
    method_row M_WifiConnectTarget ''wifi.connectTarget'' PK_ConnectTarget ''result'' (Some S_WifiConnect) OpConnect,
    method_row M_WifiDisconnect ''wifi.disconnect'' PK_Empty ''result'' None OpDisconnect,
    method_row M_WifiProfileOperation ''wifi.profile.operation'' PK_ProfileOperation ''result'' None OpProfileOperation,
    method_row M_WifiSecretCapabilities ''wifi.secret.capabilities'' PK_SecretCapabilities ''secret_agent'' (Some S_WifiSecret) OpSecretOperation,
    method_row M_WifiSecretProvide ''wifi.secret.provide'' PK_SecretProvide ''result'' (Some S_WifiSecret) OpSecretOperation,
    method_row M_DiscoveryServices ''discovery.services'' PK_DiscoveryServices ''discovery'' None OpDiscovery,
    method_row M_OperationStatus ''operation.status'' PK_RequestStatus ''result'' None OpStatus]"

definition METHOD_REGISTRY :: "method_spec list" where
  "METHOD_REGISTRY = method_registry_1 @ method_registry_2 @ method_registry_3"

definition stream_registry_1 :: "stream_spec list" where
  "stream_registry_1 = [
    stream_row S_WifiStatus ''wifi.status'' True True D_Continuous
      [''subscribed'', ''changed''],
    stream_row S_NetworkConnectivity ''network.connectivity'' True True D_Continuous
      [''subscribed'', ''changed''],
    stream_row S_NetworkInventory ''network.inventory'' True False D_Continuous
      [''subscribed'', ''changed''],
    stream_row S_NetworkStatistics ''network.statistics'' True False D_Operation
      [''subscribed'', ''started'', ''sample'', ''failed'', ''cancelled''],
    stream_row S_Hotspot ''hotspot'' True False D_Operation
      [''subscribed'', ''started'', ''progress'', ''succeeded'', ''failed'', ''cancelled''],
    stream_row S_Vpn ''vpn'' True False D_Operation
      [''subscribed'', ''started'', ''progress'', ''succeeded'', ''failed'', ''cancelled''],
    stream_row S_NetworkHealth ''network.health'' True False D_External
      [''subscribed'', ''device'', ''connection'', ''vpn''],
    stream_row S_WifiNetworks ''wifi.networks'' True False D_Continuous
      [''subscribed'', ''changed'']]"

definition stream_registry_2 :: "stream_spec list" where
  "stream_registry_2 = [
    stream_row S_WifiScan ''wifi.scan'' True True D_Operation
      [''subscribed'', ''status'', ''warning'', ''snapshot'', ''complete'', ''cancelled'', ''failed''],
    stream_row S_WifiConnect ''wifi.connect'' True False D_Operation
      [''subscribed'', ''started'', ''progress'', ''succeeded'', ''failed'', ''cancelled''],
    stream_row S_WifiBand ''wifi.band'' True False D_Operation
      [''subscribed'', ''started'', ''progress'', ''succeeded'', ''failed'', ''cancelled''],
    stream_row S_WifiSecret ''wifi.secret'' True False D_External
      [''subscribed'', ''requested'', ''cancelled'', ''delivered'', ''persistence''],
    stream_row S_DaemonRequest ''daemon.request'' False False D_Internal
      [''cancelled''],
    stream_row S_DaemonSubscription ''daemon.subscription'' False False D_Internal
      [''cancelled'']]"

definition STREAM_REGISTRY :: "stream_spec list" where
  "STREAM_REGISTRY = stream_registry_1 @ stream_registry_2"

text \<open>The discriminants \<open>self as usize\<close> that index the registries.\<close>

fun method_index :: "api_method \<Rightarrow> nat" where
  "method_index M_WifiStatus = 0"
| "method_index M_WifiSetEnabled = 1"
| "method_index M_RadioSetWwanEnabled = 2"
| "method_index M_RadioSetAirplaneMode = 3"
| "method_index M_NetworkConnectivity = 4"
| "method_index M_NetworkPortalPrepare = 5"
| "method_index M_NetworkPortalClaim = 6"
| "method_index M_NetworkPortalComplete = 7"
| "method_index M_NetworkInventory = 8"
| "method_index M_NetworkDevices = 9"
| "method_index M_NetworkConnections = 10"
| "method_index M_NetworkState = 11"
| "method_index M_NetworkActivateProfile = 12"
| "method_index M_NetworkDeactivate = 13"
| "method_index M_NetworkStatisticsWatch = 14"
| "method_index M_HotspotCapabilities = 15"
| "method_index M_HotspotStatus = 16"
| "method_index M_HotspotStart = 17"
| "method_index M_HotspotStop = 18"
| "method_index M_VpnList = 19"
| "method_index M_VpnStatus = 20"
| "method_index M_VpnConnect = 21"
| "method_index M_VpnDisconnect = 22"
| "method_index M_WifiQrParse = 23"
| "method_index M_WifiQrRender = 24"
| "method_index M_WifiQrConnect = 25"
| "method_index M_WifiNetworks = 26"
| "method_index M_WifiBandStatus = 27"
| "method_index M_WifiBandSet = 28"
| "method_index M_WifiSaved = 29"
| "method_index M_WifiScan = 30"
| "method_index M_WifiConnectTarget = 31"
| "method_index M_WifiDisconnect = 32"
| "method_index M_WifiProfileOperation = 33"
| "method_index M_WifiSecretCapabilities = 34"
| "method_index M_WifiSecretProvide = 35"
| "method_index M_DiscoveryServices = 36"
| "method_index M_OperationStatus = 37"

fun stream_index :: "stream \<Rightarrow> nat" where
  "stream_index S_WifiStatus = 0"
| "stream_index S_NetworkConnectivity = 1"
| "stream_index S_NetworkInventory = 2"
| "stream_index S_NetworkStatistics = 3"
| "stream_index S_Hotspot = 4"
| "stream_index S_Vpn = 5"
| "stream_index S_NetworkHealth = 6"
| "stream_index S_WifiNetworks = 7"
| "stream_index S_WifiScan = 8"
| "stream_index S_WifiConnect = 9"
| "stream_index S_WifiBand = 10"
| "stream_index S_WifiSecret = 11"
| "stream_index S_DaemonRequest = 12"
| "stream_index S_DaemonSubscription = 13"

section \<open>Lookups\<close>

definition method_parse :: "string \<Rightarrow> api_method option" where
  "method_parse value = map_option ms_method (List.find (\<lambda>spec. ms_name spec = value) METHOD_REGISTRY)"

definition method_spec_of :: "api_method \<Rightarrow> method_spec" where
  "method_spec_of m = METHOD_REGISTRY ! method_index m"

definition method_as_str :: "api_method \<Rightarrow> string" where
  "method_as_str m = ms_name (method_spec_of m)"

definition stream_parse :: "string \<Rightarrow> stream option" where
  "stream_parse value = map_option ss_stream (List.find (\<lambda>spec. ss_name spec = value) STREAM_REGISTRY)"

definition stream_spec_of :: "stream \<Rightarrow> stream_spec" where
  "stream_spec_of s = STREAM_REGISTRY ! stream_index s"

definition stream_as_str :: "stream \<Rightarrow> string" where
  "stream_as_str s = ss_name (stream_spec_of s)"

definition parse_subscription :: "string \<Rightarrow> stream option" where
  "parse_subscription value =
     (case stream_parse value of
        None \<Rightarrow> None
      | Some s \<Rightarrow> if ss_subscribable (stream_spec_of s) then Some s else None)"

definition default_streams :: "stream list" where
  "default_streams = map ss_stream (filter ss_default STREAM_REGISTRY)"

section \<open>The registries are consistent\<close>

lemmas registry_defs = METHOD_REGISTRY_def method_registry_1_def method_registry_2_def
  method_registry_3_def STREAM_REGISTRY_def stream_registry_1_def stream_registry_2_def
  method_row_def stream_row_def

lemma method_names_distinct: "distinct (map ms_name METHOD_REGISTRY)"
  by (simp add: registry_defs)

lemma stream_names_distinct: "distinct (map ss_name STREAM_REGISTRY)"
  by (simp add: registry_defs)

lemma method_index_less: "method_index m < length METHOD_REGISTRY"
  by (cases m) (simp_all add: registry_defs)

lemma stream_index_less: "stream_index s < length STREAM_REGISTRY"
  by (cases s) (simp_all add: registry_defs)

lemma method_spec_self: "ms_method (method_spec_of m) = m"
  by (cases m) (simp_all add: registry_defs method_spec_of_def)

lemma stream_spec_self: "ss_stream (stream_spec_of s) = s"
  by (cases s) (simp_all add: registry_defs stream_spec_of_def)

lemma method_rows_indexed: "\<forall>spec \<in> set METHOD_REGISTRY. method_spec_of (ms_method spec) = spec"
  by (simp add: registry_defs method_spec_of_def)

lemma stream_rows_indexed: "\<forall>spec \<in> set STREAM_REGISTRY. stream_spec_of (ss_stream spec) = spec"
  by (simp add: registry_defs stream_spec_of_def)

interpretation methods: exact_codec method_as_str method_parse
proof unfold_locales
  fix m
  have "method_spec_of m \<in> set METHOD_REGISTRY"
    using nth_mem [OF method_index_less] by (simp add: method_spec_of_def)
  from find_unique_name [OF method_names_distinct this]
  show "method_parse (method_as_str m) = Some m"
    by (simp add: method_parse_def method_as_str_def method_spec_self)
next
  fix b m
  assume "method_parse b = Some m"
  then obtain spec where "spec \<in> set METHOD_REGISTRY" "ms_name spec = b" "ms_method spec = m"
    by (auto simp: method_parse_def dest: find_in_set)
  with method_rows_indexed show "method_as_str m = b" by (auto simp: method_as_str_def)
qed

interpretation streams: exact_codec stream_as_str stream_parse
proof unfold_locales
  fix s
  have "stream_spec_of s \<in> set STREAM_REGISTRY"
    using nth_mem [OF stream_index_less] by (simp add: stream_spec_of_def)
  from find_unique_name [OF stream_names_distinct this]
  show "stream_parse (stream_as_str s) = Some s"
    by (simp add: stream_parse_def stream_as_str_def stream_spec_self)
next
  fix b s
  assume "stream_parse b = Some s"
  then obtain spec where "spec \<in> set STREAM_REGISTRY" "ss_name spec = b" "ss_stream spec = s"
    by (auto simp: stream_parse_def dest: find_in_set)
  with stream_rows_indexed show "stream_as_str s = b" by (auto simp: stream_as_str_def)
qed

text \<open>
  The API registries are sound: indexing a registry by a method's or stream's discriminant
  gives the row of that very method or stream, the names are unique, a name parses to the method
  or stream that prints it and to nothing else, and exactly the subscribable streams can be
  subscribed to by name.
\<close>

theorem registry_sound:
  "ms_method (method_spec_of m) = m \<and> ss_stream (stream_spec_of s) = s \<and>
   (method_parse b = Some m \<longleftrightarrow> b = method_as_str m) \<and>
   (stream_parse b = Some s \<longleftrightarrow> b = stream_as_str s) \<and>
   (parse_subscription b = Some s \<longleftrightarrow> b = stream_as_str s \<and> ss_subscribable (stream_spec_of s)) \<and>
   (s \<in> set default_streams \<longrightarrow> parse_subscription (stream_as_str s) = Some s)"
proof -
  have "ss_subscribable (stream_spec_of s)" if "s \<in> set default_streams"
    using that by (auto simp: default_streams_def registry_defs stream_spec_of_def)
  then show ?thesis
    by (auto simp: method_spec_self stream_spec_self methods.dec_iff streams.dec_iff
        parse_subscription_def streams.dec_enc streams.enc_inject split: option.splits if_splits)
qed

theorem registry_sound_witness:
  "S_WifiScan \<in> set default_streams \<and> parse_subscription (stream_as_str S_WifiScan) = Some S_WifiScan"
proof -
  have "S_WifiScan \<in> set default_streams" by (simp add: default_streams_def registry_defs)
  with registry_sound [where s = S_WifiScan] show ?thesis by blast
qed

end
