(* ===== verification/Events.thy ===== *)
theory Events
  imports Protocol
begin

text \<open>
  \<open>src/daemon_event.rs\<close>: how the daemon emits events. An event is wrapped into an envelope, its
  name is checked against the stream's registered events, and the envelope is handed to the
  transport. The envelope builder (\<open>shelllist_daemon_core::wire::Event\<close>) and the transport
  (\<open>EventEmitter::emit_sync\<close>) are code of other crates and are parameters.
\<close>

datatype correlation = CorrNone | CorrRequest string | CorrSubscription string

record api_error =
  ae_code :: string
  ae_message :: string
  ae_details :: json

type_synonym envelope = "string \<Rightarrow> string \<Rightarrow> correlation \<Rightarrow> json \<Rightarrow> api_error option \<Rightarrow> json"
type_synonym transport = "string \<Rightarrow> json \<Rightarrow> anyhow_error + unit"

section \<open>Wire names of error values\<close>

fun error_code_str :: "error_code \<Rightarrow> string" where
  "error_code_str ValidationError = ''validation-error''"
| "error_code_str NetworkmanagerUnavailable = ''networkmanager-unavailable''"
| "error_code_str Conflict = ''conflict''"
| "error_code_str AuthorizationRequired = ''authorization-required''"
| "error_code_str NotFound = ''not-found''"
| "error_code_str Timeout = ''timeout''"
| "error_code_str OutcomeUnknown = ''outcome-unknown''"
| "error_code_str Cancelled = ''cancelled''"
| "error_code_str SecretRequired = ''secret-required''"
| "error_code_str WrongPassword = ''wrong-password''"
| "error_code_str PasswordUnavailable = ''password-unavailable''"
| "error_code_str UnsupportedAuth = ''unsupported-auth''"
| "error_code_str DhcpFailed = ''dhcp-failed''"
| "error_code_str ActivationFailed = ''activation-failed''"
| "error_code_str SubprocessFailed = ''subprocess-failed''"
| "error_code_str InternalError = ''internal-error''"
| "error_code_str UnknownCode = ''unknown''"

fun error_operation_str :: "error_operation \<Rightarrow> string" where
  "error_operation_str OpInitialize = ''initialize''"
| "error_operation_str OpParseRequest = ''parse-request''"
| "error_operation_str OpConnectSystemBus = ''connect-system-bus''"
| "error_operation_str OpCreateDbusProxy = ''create-dbus-proxy''"
| "error_operation_str OpStatus = ''status''"
| "error_operation_str OpConnectivity = ''connectivity''"
| "error_operation_str OpDiscovery = ''discovery''"
| "error_operation_str OpInventory = ''inventory''"
| "error_operation_str OpStatistics = ''statistics''"
| "error_operation_str OpHotspotOperation = ''hotspot-operation''"
| "error_operation_str OpVpnOperation = ''vpn-operation''"
| "error_operation_str OpQrOperation = ''qr-operation''"
| "error_operation_str OpNetworks = ''networks''"
| "error_operation_str OpBandOperation = ''band-operation''"
| "error_operation_str OpScan = ''scan''"
| "error_operation_str OpConnect = ''connect''"
| "error_operation_str OpDisconnect = ''disconnect''"
| "error_operation_str OpProfileOperation = ''profile-operation''"
| "error_operation_str OpSubscribe = ''subscribe''"
| "error_operation_str OpSecretOperation = ''secret-operation''"
| "error_operation_str OpSerializeResponse = ''serialize-response''"
| "error_operation_str OpEmitEvent = ''emit-event''"
| "error_operation_str OpUnknown = ''unknown''"

fun error_source_str :: "error_source \<Rightarrow> string" where
  "error_source_str SrcValidation = ''validation''"
| "error_source_str SrcDbus = ''dbus''"
| "error_source_str SrcIo = ''io''"
| "error_source_str SrcSubprocess = ''subprocess''"
| "error_source_str SrcSerialization = ''serialization''"
| "error_source_str SrcNetworkManager = ''network-manager''"
| "error_source_str SrcCancellation = ''cancellation''"
| "error_source_str SrcInternal = ''internal''"

definition api_details :: "error_report \<Rightarrow> json" where
  "api_details r = JObj (jmap_insert ''source'' (JStr (error_source_str (er_source r)))
     (jmap_insert ''operation'' (JStr (error_operation_str (er_operation r))) (er_details r)))"

section \<open>Emission\<close>

text \<open>\<open>best_effort\<close>: the value of a successful operation; a failure is logged and dropped.\<close>

definition best_effort :: "anyhow_error + 'a \<Rightarrow> 'a option" where
  "best_effort r = (case r of Inl _ \<Rightarrow> None | Inr v \<Rightarrow> Some v)"

definition event_value ::
    "envelope \<Rightarrow> stream \<Rightarrow> string option \<Rightarrow> string \<Rightarrow> json \<Rightarrow> json" where
  "event_value env s request_id event data =
     (let err = (case Option.bind (jget data ''code'') as_str of
                   None \<Rightarrow> None
                 | Some code \<Rightarrow> Some \<lparr>ae_code = code,
                     ae_message = (case as_str (jindex data ''message'') of
                                     None \<Rightarrow> ''Operation failed'' | Some m \<Rightarrow> m),
                     ae_details = jindex data ''details''\<rparr>);
          data' = (case data of JObj m \<Rightarrow> JObj (jmap_remove ''request_id'' m) | _ \<Rightarrow> data)
      in env (stream_as_str s) event
           (case request_id of None \<Rightarrow> CorrNone | Some r \<Rightarrow> CorrRequest r) data' err)"

definition subscription_event_value ::
    "envelope \<Rightarrow> stream \<Rightarrow> string \<Rightarrow> string \<Rightarrow> json \<Rightarrow> json" where
  "subscription_event_value env s subscription_id event data =
     env (stream_as_str s) event (CorrSubscription subscription_id) data None"

definition emit_event_signal :: "transport \<Rightarrow> stream \<Rightarrow> json \<Rightarrow> anyhow_error + unit" where
  "emit_event_signal send s event =
     (case send (stream_as_str s) event of
        Inl e \<Rightarrow> Inl (ensure_domain OpEmitEvent e) | Inr u \<Rightarrow> Inr u)"

definition emit_prepared_event :: "transport \<Rightarrow> stream \<Rightarrow> json \<Rightarrow> anyhow_error + unit" where
  "emit_prepared_event send s value =
     (let event = (case as_str (jindex value ''event'') of None \<Rightarrow> '''' | Some e \<Rightarrow> e)
      in if event \<notin> set (ss_events (stream_spec_of s))
         then Inl (into_anyhow (with_detail (with_detail
                (internal_error OpEmitEvent
                  (''event '' @ [CHR 39] @ event @ [CHR 39] @ '' is not registered for stream ''
                    @ [CHR 39] @ stream_as_str s @ [CHR 39]))
                ''stream'' (JStr (stream_as_str s))) ''event'' (JStr event)))
         else emit_event_signal send s value)"

definition emit_subscription_event_nonfatal ::
    "envelope \<Rightarrow> transport \<Rightarrow> stream \<Rightarrow> string \<Rightarrow> string \<Rightarrow> json \<Rightarrow> unit option" where
  "emit_subscription_event_nonfatal env send s subscription_id event data =
     best_effort (emit_prepared_event send s
       (subscription_event_value env s subscription_id event data))"

definition emit_json_event ::
    "envelope \<Rightarrow> transport \<Rightarrow> stream \<Rightarrow> string option \<Rightarrow> string \<Rightarrow> json \<Rightarrow> anyhow_error + unit" where
  "emit_json_event env send s request_id event data =
     emit_prepared_event send s (event_value env s request_id event data)"

definition emit_json_event_nonfatal ::
    "envelope \<Rightarrow> transport \<Rightarrow> stream \<Rightarrow> string option \<Rightarrow> string \<Rightarrow> json \<Rightarrow> unit option" where
  "emit_json_event_nonfatal env send s request_id event data =
     best_effort (emit_json_event env send s request_id event data)"

section \<open>Operation events\<close>

record operation_events =
  oe_env :: envelope
  oe_send :: transport
  oe_stream :: stream
  oe_request_id :: string

definition oe_event :: "operation_events \<Rightarrow> string \<Rightarrow> json \<Rightarrow> unit option" where
  "oe_event ev e data =
     emit_json_event_nonfatal (oe_env ev) (oe_send ev) (oe_stream ev) (Some (oe_request_id ev)) e data"

definition oe_phase :: "operation_events \<Rightarrow> string \<Rightarrow> string \<Rightarrow> unit option" where
  "oe_phase ev e phase =
     oe_event ev e (JObj (jmap_of [(''request_id'', JStr (oe_request_id ev)), (''phase'', JStr phase)]))"

definition oe_succeeded :: "operation_events \<Rightarrow> json \<Rightarrow> unit option" where
  "oe_succeeded ev result =
     oe_event ev ''succeeded'' (JObj (jmap_of [(''request_id'', JStr (oe_request_id ev)),
       (''phase'', JStr ''complete''), (''result'', result)]))"

definition cancelled_data :: "string \<Rightarrow> string \<Rightarrow> json" where
  "cancelled_data request_id message = JObj (jmap_of [(''request_id'', JStr request_id),
     (''phase'', JStr ''cancelled''), (''message'', JStr message)])"

definition oe_cancelled :: "operation_events \<Rightarrow> string \<Rightarrow> unit option" where
  "oe_cancelled ev message = oe_event ev ''cancelled'' (cancelled_data (oe_request_id ev) message)"

definition failed_data :: "string \<Rightarrow> error_report \<Rightarrow> json" where
  "failed_data request_id report = JObj (jmap_of [(''request_id'', JStr request_id),
     (''phase'', JStr ''failed''), (''code'', JStr (error_code_str (er_code report))),
     (''message'', JStr (er_message report)), (''details'', api_details report)])"

definition oe_error ::
    "operation_events \<Rightarrow> anyhow_error \<Rightarrow> error_operation \<Rightarrow> string \<Rightarrow> unit option" where
  "oe_error ev e operation cancellation_message =
     (let report = from_error e operation
      in if er_code report = Cancelled then oe_cancelled ev cancellation_message
         else oe_event ev ''failed'' (failed_data (oe_request_id ev) report))"

section \<open>Failures of operations always reach the transport\<close>

lemma operation_terminal_events:
  "ss_delivery (stream_spec_of s) = D_Operation \<Longrightarrow>
   ''cancelled'' \<in> set (ss_events (stream_spec_of s)) \<and> ''failed'' \<in> set (ss_events (stream_spec_of s))"
  by (cases s) (simp_all add: stream_spec_of_def registry_defs)

lemma emit_registered:
  "as_str (jindex value ''event'') = Some e \<Longrightarrow> e \<in> set (ss_events (stream_spec_of s)) \<Longrightarrow>
   emit_prepared_event send s value = emit_event_signal send s value"
  by (simp add: emit_prepared_event_def)

lemma failed_data_gets:
  "jget (failed_data r rep) ''code'' = Some (JStr (error_code_str (er_code rep)))"
  "jindex (failed_data r rep) ''message'' = JStr (er_message rep)"
  "jindex (failed_data r rep) ''details'' = api_details rep"
  by (simp_all add: failed_data_def jmap_of_def jindex_def jmap_get_insert) (simp_all add: jmap_get_def)

lemma cancelled_data_code: "jget (cancelled_data r m) ''code'' = None"
  by (simp add: cancelled_data_def jmap_of_def jmap_get_def)

text \<open>
  C32. On every stream that reports operations, reporting an operation's failure is never
  swallowed by the event registry: the transport receives exactly one envelope, correlated with
  the request; it is a \<open>cancelled\<close> event without an error when the failure is a cancellation, and
  otherwise a \<open>failed\<close> event whose error carries the code, message and details of the report. The
  request id is removed from the data, where it could contradict the envelope.
\<close>

theorem operation_error_reported:
  assumes "ss_delivery (stream_spec_of (oe_stream ev)) = D_Operation"
    and "\<And>n e c d x. jindex (oe_env ev n e c d x) ''event'' = JStr e"
  shows "oe_error ev err oper message = best_effort (emit_event_signal (oe_send ev) (oe_stream ev)
    (if er_code (from_error err oper) = Cancelled
     then oe_env ev (stream_as_str (oe_stream ev)) ''cancelled'' (CorrRequest (oe_request_id ev))
       (JObj (jmap_of [(''phase'', JStr ''cancelled''), (''message'', JStr message)])) None
     else oe_env ev (stream_as_str (oe_stream ev)) ''failed'' (CorrRequest (oe_request_id ev))
       (JObj (jmap_of [(''phase'', JStr ''failed''),
          (''code'', JStr (error_code_str (er_code (from_error err oper)))),
          (''message'', JStr (er_message (from_error err oper))),
          (''details'', api_details (from_error err oper))]))
       (Some \<lparr>ae_code = error_code_str (er_code (from_error err oper)),
              ae_message = er_message (from_error err oper),
              ae_details = api_details (from_error err oper)\<rparr>)))"
proof -
  note t = operation_terminal_events [OF assms(1)]
  have c: "event_value (oe_env ev) (oe_stream ev) (Some (oe_request_id ev)) ''cancelled''
      (cancelled_data (oe_request_id ev) message) =
    oe_env ev (stream_as_str (oe_stream ev)) ''cancelled'' (CorrRequest (oe_request_id ev))
       (JObj (jmap_of [(''phase'', JStr ''cancelled''), (''message'', JStr message)])) None"
    unfolding event_value_def cancelled_data_code
    by (simp add: cancelled_data_def jmap_of_def)
  have f: "event_value (oe_env ev) (oe_stream ev) (Some (oe_request_id ev)) ''failed''
      (failed_data (oe_request_id ev) r) =
    oe_env ev (stream_as_str (oe_stream ev)) ''failed'' (CorrRequest (oe_request_id ev))
       (JObj (jmap_of [(''phase'', JStr ''failed''), (''code'', JStr (error_code_str (er_code r))),
          (''message'', JStr (er_message r)), (''details'', api_details r)]))
       (Some \<lparr>ae_code = error_code_str (er_code r), ae_message = er_message r,
              ae_details = api_details r\<rparr>)" for r
    unfolding event_value_def failed_data_gets
    by (simp add: failed_data_def jmap_of_def)
  show ?thesis
    using t by (simp add: oe_error_def oe_cancelled_def oe_event_def emit_json_event_nonfatal_def
        emit_json_event_def c f emit_registered assms(2) Let_def)
qed

theorem operation_error_reported_witness:
  "oe_error \<lparr>oe_env = \<lambda>n e c d x. JObj [(''event'', JStr e)], oe_send = \<lambda>n v. Inr (),
       oe_stream = S_WifiConnect, oe_request_id = ''connect-1''\<rparr>
     (into_anyhow (timeout_error OpConnect ''late'')) OpConnect ''stop'' = Some ()"
  using operation_error_reported [of "\<lparr>oe_env = \<lambda>n e c d x. JObj [(''event'', JStr e)],
      oe_send = \<lambda>n v. Inr (), oe_stream = S_WifiConnect, oe_request_id = ''connect-1''\<rparr>"
      "into_anyhow (timeout_error OpConnect ''late'')" OpConnect "''stop''"]
  by (simp add: stream_spec_of_def registry_defs jindex_def jmap_get_def best_effort_def
      emit_event_signal_def)

end
