(* ===== verification/Revisions.thy ===== *)
theory Revisions
  imports Prelude
begin

text \<open>
  The contract of a revisioned publication: a state carries a cursor (an epoch and a revision)
  and the content published under it, and each step keeps both, advances the revision by one, or,
  when the revision cannot advance any further, starts over in a fresh epoch. Both revisioned
  publishers of the daemon follow it: the per-subscriber network deltas
  (\<open>src/daemon_status/network_updates.rs\<close>) and the shared status observation
  (\<open>src/daemon_status/observation.rs\<close>).
\<close>

text \<open>The largest integer a JavaScript number holds exactly.\<close>

definition MAX_REVISION :: u64 where
  "MAX_REVISION = 2 ^ 53 - 1"

lemma revision_no_wrap: "r < MAX_REVISION \<Longrightarrow> r < r + 1 \<and> r + 1 \<le> MAX_REVISION"
  for r :: u64
  by (simp add: MAX_REVISION_def word_less_nat_alt word_le_nat_alt unat_word_ariths)

text \<open>A history that never publishes two contents under one identity.\<close>

definition functional :: "('k \<times> 'v) list \<Rightarrow> bool" where
  "functional h \<longleftrightarrow> (\<forall>k x y. (k, x) \<in> set h \<longrightarrow> (k, y) \<in> set h \<longrightarrow> x = y)"

lemma functional_Cons:
  "functional h \<Longrightarrow> (\<And>x. (k, x) \<in> set h \<Longrightarrow> x = v) \<Longrightarrow> functional ((k, v) # h)"
  unfolding functional_def by (metis Pair_inject set_ConsD)

lemma functional_single: "functional [(k, v)]"
  by (simp add: functional_def)

locale revision_chain =
  fixes cursor :: "'s \<Rightarrow> string \<times> u64"
    and content :: "'s \<Rightarrow> 'c"
    and advance :: "string \<Rightarrow> 'p \<Rightarrow> 's \<Rightarrow> 's"
  assumes advances: "snd (cursor s) \<le> MAX_REVISION \<Longrightarrow>
     (cursor (advance f p s) = cursor s \<and> content (advance f p s) = content s) \<or>
     (snd (cursor s) < MAX_REVISION \<and> cursor (advance f p s) = (fst (cursor s), snd (cursor s) + 1)) \<or>
     (fst (cursor (advance f p s)) = f \<and> snd (cursor s) = MAX_REVISION
        \<and> snd (cursor (advance f p s)) \<le> 1)"
begin

text \<open>
  A run from a first state: the current state and everything it has published so far, with
  epochs that are never drawn twice.
\<close>

inductive published :: "'s \<Rightarrow> ((string \<times> u64) \<times> 'c) list \<Rightarrow> bool" where
  first: "snd (cursor s) \<le> 1 \<Longrightarrow> published s [(cursor s, content s)]"
| next_step: "published s h \<Longrightarrow> f \<notin> (\<lambda>x. fst (fst x)) ` set h \<Longrightarrow>
     published (advance f p s) ((cursor (advance f p s), content (advance f p s)) # h)"

lemma published_inv:
  "published s h \<Longrightarrow> snd (cursor s) \<le> MAX_REVISION \<and> (cursor s, content s) \<in> set h \<and>
     (\<forall>x \<in> set h. fst (fst x) = fst (cursor s) \<longrightarrow> snd (fst x) \<le> snd (cursor s)) \<and> functional h"
proof (induction rule: published.induct)
  case (first s)
  moreover have "(1 :: u64) \<le> MAX_REVISION" by (simp add: MAX_REVISION_def)
  ultimately show ?case by (simp add: functional_single)
next
  case (next_step s h f p)
  let ?t = "advance f p s"
  from next_step.IH have le: "snd (cursor s) \<le> MAX_REVISION" and mem: "(cursor s, content s) \<in> set h"
    and old: "\<forall>x \<in> set h. fst (fst x) = fst (cursor s) \<longrightarrow> snd (fst x) \<le> snd (cursor s)"
    and det: "functional h" by blast+
  from next_step.hyps(2) have fresh: "\<forall>x \<in> set h. fst (fst x) \<noteq> f" by blast
  from advances [OF le, of f p] consider
      (same) "cursor ?t = cursor s" "content ?t = content s"
    | (bump) "snd (cursor s) < MAX_REVISION" "cursor ?t = (fst (cursor s), snd (cursor s) + 1)"
    | (reset) "fst (cursor ?t) = f" "snd (cursor ?t) \<le> 1" by blast
  then show ?case
  proof cases
    case same
    have "functional ((cursor s, content s) # h)"
      using det mem by (intro functional_Cons [OF det]) (unfold functional_def, blast)
    with le old same show ?thesis by simp
  next
    case bump
    note w = revision_no_wrap [OF bump(1)]
    have lt: "\<forall>x \<in> set h. fst (fst x) = fst (cursor s) \<longrightarrow> snd (fst x) < snd (cursor s) + 1"
      using old w le_less_trans by blast
    then have "(cursor ?t, x) \<notin> set h" for x using bump(2) by fastforce
    then have "functional ((cursor ?t, content ?t) # h)" using det by (blast intro: functional_Cons)
    with w lt bump(2) show ?thesis by (simp add: less_imp_le)
  next
    case reset
    have "(1 :: u64) \<le> MAX_REVISION" by (simp add: MAX_REVISION_def)
    with reset(2) have "snd (cursor ?t) \<le> MAX_REVISION" by simp
    moreover have "(cursor ?t, x) \<notin> set h" for x using fresh reset(1) by auto
    then have "functional ((cursor ?t, content ?t) # h)" using det by (blast intro: functional_Cons)
    ultimately show ?thesis using reset fresh by simp
  qed
qed

lemma identity_determines_content:
  "published s h \<Longrightarrow> (c, x) \<in> set h \<Longrightarrow> (c, y) \<in> set h \<Longrightarrow> x = y"
  using published_inv [of s h] unfolding functional_def by blast

lemma revision_bounded: "published s h \<Longrightarrow> snd (cursor s) \<le> MAX_REVISION"
  using published_inv by blast

lemma current_is_newest:
  "published s h \<Longrightarrow> ((fst (cursor s), r), x) \<in> set h \<Longrightarrow> r \<le> snd (cursor s)"
  using published_inv [of s h] by fastforce

end

end
