(* ===== verification/Network_Updates.thy ===== *)
theory Network_Updates
  imports Revisions Json Codec
begin

text \<open>
  \<open>src/daemon_status/network_updates.rs\<close>: the chain of deltas one subscriber receives. The random
  epoch identifiers (\<open>uuid::Uuid::new_v4\<close>) are an argument of the operations that draw one.
\<close>

record network_updates =
  nu_epoch :: string
  nu_revision :: u64
  nu_last :: "json option"

definition network_updates_default :: "string \<Rightarrow> network_updates" where
  "network_updates_default fresh = \<lparr>nu_epoch = fresh, nu_revision = 0, nu_last = None\<rparr>"

definition network_key :: "json \<Rightarrow> string option" where
  "network_key network = Option.bind (jget network ''key'') as_str"

definition networks_by_key :: "json list \<Rightarrow> (string, json) hash_map" where
  "networks_by_key networks = foldl (\<lambda>m network. case network_key network of
     None \<Rightarrow> m | Some key \<Rightarrow> hm_insert key network m) [] networks"

definition stable_fields :: "jmap \<Rightarrow> jmap" where
  "stable_fields object = filter (\<lambda>(key, _). key \<noteq> ''last_seen_age_ms'') object"

definition equal_network_fields ::
    "json \<Rightarrow> json \<Rightarrow> (string \<Rightarrow> json \<Rightarrow> json \<Rightarrow> bool) \<Rightarrow> bool" where
  "equal_network_fields previous current equal =
     (case (previous, current) of
        (JObj p, JObj c) \<Rightarrow>
          length (stable_fields p) = length (stable_fields c) \<and>
          list_all (\<lambda>(key, value). case jmap_get c key of
             None \<Rightarrow> False | Some v \<Rightarrow> equal key value v) (stable_fields p)
      | _ \<Rightarrow> previous = current)"

definition network_field_equal :: "string \<Rightarrow> json \<Rightarrow> json \<Rightarrow> bool" where
  "network_field_equal key previous current =
     (case (previous, current) of
        (JArr p, JArr c) \<Rightarrow>
          if key = ''access_points''
          then length p = length c \<and>
            list_all (\<lambda>(a, b). equal_network_fields a b (\<lambda>_ x y. x = y)) (zip p c)
          else previous = current
      | _ \<Rightarrow> previous = current)"

definition network_entry_changed :: "json \<Rightarrow> json \<Rightarrow> bool" where
  "network_entry_changed previous current \<longleftrightarrow>
     \<not> equal_network_fields previous current network_field_equal"

definition previous_networks :: "json option \<Rightarrow> json list" where
  "previous_networks previous =
     (case Option.bind (Option.bind previous (\<lambda>payload. jget payload ''networks'')) as_array of
        None \<Rightarrow> [] | Some networks \<Rightarrow> networks)"

definition added_networks :: "json list \<Rightarrow> json list \<Rightarrow> json list" where
  "added_networks previous current = filter (\<lambda>network. case network_key network of
     None \<Rightarrow> False | Some key \<Rightarrow> hm_get (networks_by_key previous) key = None) current"

definition changed_networks :: "json list \<Rightarrow> json list \<Rightarrow> json list" where
  "changed_networks previous current = filter (\<lambda>network.
     case Option.bind (network_key network) (hm_get (networks_by_key previous)) of
       None \<Rightarrow> False | Some p \<Rightarrow> network_entry_changed p network) current"

definition network_delta :: "json option \<Rightarrow> json \<Rightarrow> jmap option" where
  "network_delta previous current =
     (case Option.bind (jget current ''networks'') as_array of
        None \<Rightarrow> None
      | Some current_networks \<Rightarrow>
          (let added = added_networks (previous_networks previous) current_networks;
               changed = changed_networks (previous_networks previous) current_networks;
               removed = added_networks current_networks (previous_networks previous)
           in if previous \<noteq> None \<and> added = [] \<and> removed = [] \<and> changed = [] then None
              else
                (let d0 = jmap_insert ''changed'' (JArr changed)
                            (jmap_insert ''removed'' (JArr removed)
                              (jmap_insert ''added'' (JArr added) []));
                     d1 = (case jget current ''snapshot'' of
                             None \<Rightarrow> d0 | Some s \<Rightarrow> jmap_insert ''snapshot'' s d0)
                 in Some (case jget current ''warning'' of
                            None \<Rightarrow> d1
                          | Some w \<Rightarrow> if w = JNull then d1 else jmap_insert ''warning'' w d1))))"

definition project :: "string \<Rightarrow> json \<Rightarrow> network_updates \<Rightarrow> json option \<times> network_updates" where
  "project fresh current u =
     (let u = (if nu_revision u = MAX_REVISION then network_updates_default fresh else u)
      in case network_delta (nu_last u) current of
           None \<Rightarrow> (None, u)
         | Some delta \<Rightarrow>
             (let d1 = jmap_insert ''initial'' (JBool (nu_last u = None)) delta;
                  d2 = jmap_insert ''epoch'' (JStr (nu_epoch u)) d1;
                  d3 = jmap_insert ''base_revision'' (JInt (uint (nu_revision u))) d2;
                  r = nu_revision u + 1;
                  d4 = jmap_insert ''revision'' (JInt (uint r)) d3
              in (Some (JObj d4), u\<lparr>nu_revision := r, nu_last := Some current\<rparr>)))"

section \<open>Comparison up to ages\<close>

text \<open>
  The reference definition of a network's identity: the entry without its age and without the ages
  of its access points.
\<close>

definition strip_age :: "json \<Rightarrow> json" where
  "strip_age v = (case v of JObj m \<Rightarrow> JObj (stable_fields m) | _ \<Rightarrow> v)"

definition strip_field :: "string \<Rightarrow> json \<Rightarrow> json" where
  "strip_field key v = (case v of
     JArr aps \<Rightarrow> if key = ''access_points'' then JArr (map strip_age aps) else v | _ \<Rightarrow> v)"

definition strip_network :: "json \<Rightarrow> json" where
  "strip_network v = (case v of
     JObj m \<Rightarrow> JObj (map (\<lambda>(k, x). (k, strip_field k x)) (stable_fields m)) | _ \<Rightarrow> v)"

definition object_wf :: "json \<Rightarrow> bool" where
  "object_wf v = (case v of JObj m \<Rightarrow> jmap_wf m | _ \<Rightarrow> True)"

definition network_wf :: "json \<Rightarrow> bool" where
  "network_wf v \<longleftrightarrow> object_wf v \<and>
     (case jget v ''access_points'' of Some (JArr aps) \<Rightarrow> list_all object_wf aps | _ \<Rightarrow> True)"

lemma jmap_wf_stable: "jmap_wf m \<Longrightarrow> jmap_wf (stable_fields m)"
  using jmap_wf_retain [of m "\<lambda>k _. k \<noteq> ''last_seen_age_ms''"]
  by (simp add: stable_fields_def hm_retain_def)

lemma jmap_wf_map_snd: "jmap_wf (map (\<lambda>(k, x). (k, f k x)) m) = jmap_wf m"
  by (simp add: jmap_wf_def comp_def case_prod_unfold)

lemma jmap_get_map_snd:
  "jmap_get (map (\<lambda>(k, x). (k, f k x)) m) k = map_option (f k) (jmap_get m k)"
  by (induction m) (auto simp: jmap_get_def)

lemma jmap_get_stable:
  "jmap_wf m \<Longrightarrow> jmap_get (stable_fields m) k = (if k = ''last_seen_age_ms'' then None else jmap_get m k)"
  using jm.get_retain [of m "\<lambda>k _. k \<noteq> ''last_seen_age_ms''" k]
  by (auto simp: stable_fields_def hm_retain_def split: option.splits)

text \<open>
  Comparing the sizes and then looking every field up is comparing the maps, for any comparison of
  fields that is equality of a normal form.
\<close>

lemma fields_equal_iff:
  fixes f :: "string \<Rightarrow> json \<Rightarrow> json"
  assumes p: "jmap_wf p" and c: "jmap_wf c"
    and eq: "\<And>k x y. jmap_get p k = Some x \<Longrightarrow> jmap_get c k = Some y \<Longrightarrow> equal k x y \<longleftrightarrow> f k x = f k y"
  shows "length p = length c \<and> list_all (\<lambda>(k, v). case jmap_get c k of None \<Rightarrow> False | Some w \<Rightarrow> equal k v w) p
    \<longleftrightarrow> map (\<lambda>(k, x). (k, f k x)) p = map (\<lambda>(k, x). (k, f k x)) c" (is "?l \<longleftrightarrow> ?r")
proof
  assume l: ?l
  have get: "jmap_get p k = Some v \<longleftrightarrow> (k, v) \<in> set p" for k v
    using jmap_wf_hm_wf [OF p] by (simp add: jmap_get_def hm_in_set_iff)
  have sub: "\<exists>w. jmap_get c k = Some w \<and> f k v = f k w" if "jmap_get p k = Some v" for k v
    using l that eq [OF that] unfolding get by (auto simp: list_all_iff split: option.splits)
  have card: "card (dom (jmap_get m)) = length m" if "jmap_wf m" for m
  proof -
    from jmap_wf_hm_wf [OF that] have "distinct (map fst m)" by (simp add: hm_wf_def)
    then show ?thesis using distinct_card [of "map fst m"] by (simp add: jmap_get_def [abs_def] dom_map_of_conv_image_fst)
  qed
  have "dom (jmap_get p) \<subseteq> dom (jmap_get c)" using sub by blast
  moreover have "finite (dom (jmap_get c))" by (simp add: jmap_get_def [abs_def] finite_dom_map_of)
  ultimately have dom: "dom (jmap_get p) = dom (jmap_get c)"
    using l card [OF p] card [OF c] by (metis card_subset_eq)
  show ?r
  proof (rule jmap_ext)
    have "map_option (f k) (jmap_get p k) = map_option (f k) (jmap_get c k)" for k
    proof (cases "jmap_get p k")
      case None
      with dom have "jmap_get c k = None" by blast
      with None show ?thesis by simp
    next
      case (Some v)
      with sub [OF Some] show ?thesis by auto
    qed
    then show "jmap_get (map (\<lambda>(k, x). (k, f k x)) p) = jmap_get (map (\<lambda>(k, x). (k, f k x)) c)"
      by (simp add: fun_eq_iff jmap_get_map_snd)
  qed (simp_all add: jmap_wf_map_snd p c)
next
  assume r: ?r
  then have "length p = length c" by (metis length_map)
  moreover have "case jmap_get c k of None \<Rightarrow> False | Some w \<Rightarrow> equal k v w" if "(k, v) \<in> set p" for k v
  proof -
    from that have pk: "jmap_get p k = Some v"
      using jmap_wf_hm_wf [OF p] by (simp add: jmap_get_def hm_in_set_iff)
    have "map_option (f k) (jmap_get p k) = map_option (f k) (jmap_get c k)"
      using arg_cong [OF r, of "\<lambda>m. jmap_get m k"] by (simp add: jmap_get_map_snd)
    with pk obtain w where "jmap_get c k = Some w" "f k v = f k w"
      by (cases "jmap_get c k") auto
    with eq [OF pk] show ?thesis by simp
  qed
  ultimately show ?l by (auto simp: list_all_iff)
qed

lemma stable_field_key: "(k, v) \<in> set (stable_fields p) \<Longrightarrow> k \<noteq> ''last_seen_age_ms''"
  by (auto simp: stable_fields_def)

lemma list_all_lookup_stable:
  "jmap_wf c \<Longrightarrow> list_all (\<lambda>(k, v). case jmap_get c k of None \<Rightarrow> False | Some w \<Rightarrow> equal k v w) (stable_fields p)
   \<longleftrightarrow> list_all (\<lambda>(k, v). case jmap_get (stable_fields c) k of None \<Rightarrow> False | Some w \<Rightarrow> equal k v w)
         (stable_fields p)"
  by (rule list.pred_cong) (auto simp: jmap_get_stable dest: stable_field_key)

lemma equal_objects_iff:
  fixes f :: "string \<Rightarrow> json \<Rightarrow> json"
  assumes "jmap_wf p" and "jmap_wf c"
    and "\<And>k x y. jmap_get p k = Some x \<Longrightarrow> jmap_get c k = Some y \<Longrightarrow> equal k x y \<longleftrightarrow> f k x = f k y"
  shows "equal_network_fields (JObj p) (JObj c) equal \<longleftrightarrow>
    map (\<lambda>(k, x). (k, f k x)) (stable_fields p) = map (\<lambda>(k, x). (k, f k x)) (stable_fields c)"
proof -
  have "equal k x y \<longleftrightarrow> f k x = f k y"
    if "jmap_get (stable_fields p) k = Some x" "jmap_get (stable_fields c) k = Some y" for k x y
    using that assms by (auto simp: jmap_get_stable split: if_splits)
  from fields_equal_iff [OF jmap_wf_stable [OF assms(1)] jmap_wf_stable [OF assms(2)] this]
  show ?thesis by (simp add: equal_network_fields_def list_all_lookup_stable [OF assms(2)])
qed

lemma equal_ap_iff:
  assumes "object_wf a" "object_wf b"
  shows "equal_network_fields a b (\<lambda>_ x y. x = y) \<longleftrightarrow> strip_age a = strip_age b"
proof (cases "\<exists>p c. a = JObj p \<and> b = JObj c")
  case True
  then obtain p c where "a = JObj p" "b = JObj c" by blast
  with assms equal_objects_iff [of p c "\<lambda>_ x y. x = y" "\<lambda>_ x. x"] show ?thesis
    by (simp add: strip_age_def object_wf_def)
next
  case False
  then show ?thesis by (auto simp: equal_network_fields_def strip_age_def split: json.splits)
qed

lemma network_field_equal_iff:
  assumes "k = ''access_points'' \<Longrightarrow> (case x of JArr aps \<Rightarrow> list_all object_wf aps | _ \<Rightarrow> True)"
    and "k = ''access_points'' \<Longrightarrow> (case y of JArr aps \<Rightarrow> list_all object_wf aps | _ \<Rightarrow> True)"
  shows "network_field_equal k x y \<longleftrightarrow> strip_field k x = strip_field k y"
proof (cases "k = ''access_points'' \<and> (\<exists>p c. x = JArr p \<and> y = JArr c)")
  case True
  then obtain p c where k: "k = ''access_points''" and xy: "x = JArr p" "y = JArr c" by blast
  with assms have wf: "list_all object_wf p" "list_all object_wf c" by auto
  have "list_all (\<lambda>(a, b). equal_network_fields a b (\<lambda>_ x y. x = y)) (zip p c)
      \<longleftrightarrow> list_all (\<lambda>(a, b). strip_age a = strip_age b) (zip p c)"
  proof (rule list.pred_cong [OF refl], clarify)
    fix a b
    assume "(a, b) \<in> set (zip p c)"
    with wf have "object_wf a" "object_wf b"
      by (auto simp: list_all_iff dest: set_zip_leftD set_zip_rightD)
    then show "equal_network_fields a b (\<lambda>_ x y. x = y) = (strip_age a = strip_age b)"
      by (rule equal_ap_iff)
  qed
  moreover have "length p = length c \<Longrightarrow>
      list_all (\<lambda>(a, b). strip_age a = strip_age b) (zip p c) \<longleftrightarrow> map strip_age p = map strip_age c"
    by (auto simp: list_all_length list_eq_iff_nth_eq)
  ultimately show ?thesis
    using k xy by (auto simp: network_field_equal_def strip_field_def dest: map_eq_imp_length_eq)
next
  case False
  then show ?thesis by (auto simp: network_field_equal_def strip_field_def split: json.splits)
qed

lemma network_entry_changed_iff:
  assumes "network_wf a" and "network_wf b"
  shows "network_entry_changed a b \<longleftrightarrow> strip_network a \<noteq> strip_network b"
proof (cases "\<exists>p c. a = JObj p \<and> b = JObj c")
  case True
  then obtain p c where ab: "a = JObj p" "b = JObj c" by blast
  have "network_field_equal k x y \<longleftrightarrow> strip_field k x = strip_field k y"
    if "jmap_get p k = Some x" "jmap_get c k = Some y" for k x y
    using that assms ab by (intro network_field_equal_iff) (auto simp: network_wf_def)
  with assms ab equal_objects_iff [of p c network_field_equal strip_field] show ?thesis
    by (simp add: network_entry_changed_def strip_network_def network_wf_def object_wf_def)
next
  case False
  then show ?thesis
    by (auto simp: network_entry_changed_def equal_network_fields_def strip_network_def split: json.splits)
qed

section \<open>A subscriber that follows the chain\<close>

text \<open>
  What a frontend does with the deltas it receives: an initial delta starts its collection, a
  delta whose epoch and base revision match its cursor is applied, anything else is a gap, which
  it notices (\<open>None\<close>).
\<close>

record follower =
  fo_epoch :: string
  fo_revision :: int
  fo_networks :: "string \<rightharpoonup> json"

definition upsert_all :: "json list \<Rightarrow> (string \<rightharpoonup> json) \<Rightarrow> (string \<rightharpoonup> json)" where
  "upsert_all ns m = foldl (\<lambda>m n. case network_key n of None \<Rightarrow> m | Some k \<Rightarrow> m(k \<mapsto> n)) m ns"

definition remove_all :: "json list \<Rightarrow> (string \<rightharpoonup> json) \<Rightarrow> (string \<rightharpoonup> json)" where
  "remove_all ns m = foldl (\<lambda>m n. case network_key n of None \<Rightarrow> m | Some k \<Rightarrow> m(k := None)) m ns"

definition delta_array :: "json \<Rightarrow> string \<Rightarrow> json list" where
  "delta_array d field = (case Option.bind (jget d field) as_array of None \<Rightarrow> [] | Some xs \<Rightarrow> xs)"

definition apply_delta :: "json \<Rightarrow> (string \<rightharpoonup> json) \<Rightarrow> (string \<rightharpoonup> json)" where
  "apply_delta d m = upsert_all (delta_array d ''changed'')
     (upsert_all (delta_array d ''added'') (remove_all (delta_array d ''removed'') m))"

definition receive :: "json \<Rightarrow> follower option \<Rightarrow> follower option" where
  "receive d c =
     (case (jget d ''epoch'', jget d ''base_revision'', jget d ''revision'') of
        (Some (JStr e), Some (JInt b), Some (JInt r)) \<Rightarrow>
          if jget d ''initial'' = Some (JBool True)
          then Some \<lparr>fo_epoch = e, fo_revision = r, fo_networks = apply_delta d Map.empty\<rparr>
          else (case c of
                  None \<Rightarrow> None
                | Some f \<Rightarrow>
                    if fo_epoch f = e \<and> fo_revision f = b
                    then Some \<lparr>fo_epoch = e, fo_revision = r, fo_networks = apply_delta d (fo_networks f)\<rparr>
                    else None)
      | _ \<Rightarrow> None)"

definition networks_of :: "json \<Rightarrow> json list" where
  "networks_of payload = previous_networks (Some payload)"

definition payload_wf :: "json \<Rightarrow> bool" where
  "payload_wf p \<longleftrightarrow> Option.bind (jget p ''networks'') as_array \<noteq> None \<and>
     distinct (List.map_filter network_key (networks_of p)) \<and> list_all network_wf (networks_of p)"

definition keyed :: "json list \<Rightarrow> string \<rightharpoonup> json" where
  "keyed ns k = List.find (\<lambda>n. network_key n = Some k) ns"

text \<open>Two collections show the same networks: equal under every key, ages aside.\<close>

definition same_networks :: "(string \<rightharpoonup> json) \<Rightarrow> (string \<rightharpoonup> json) \<Rightarrow> bool" where
  "same_networks m n \<longleftrightarrow> (\<forall>k. map_option strip_network (m k) = map_option strip_network (n k))"

record delta_system =
  updates :: network_updates
  follower_of :: "follower option"
  offered :: "json option"
  epochs :: "string set"

text \<open>
  A step offers a payload to the publisher. The delta it emits, if any, reaches the subscriber or
  is lost. Epochs are never drawn twice.
\<close>

inductive delta_step :: "delta_system \<Rightarrow> delta_system \<Rightarrow> bool" where
  delivered: "payload_wf p \<Longrightarrow> fresh \<notin> epochs s \<Longrightarrow> project fresh p (updates s) = (d, u) \<Longrightarrow>
     delta_step s \<lparr>updates = u,
       follower_of = (case d of None \<Rightarrow> follower_of s | Some v \<Rightarrow> receive v (follower_of s)),
       offered = Some p, epochs = insert fresh (epochs s)\<rparr>"
| lost: "payload_wf p \<Longrightarrow> fresh \<notin> epochs s \<Longrightarrow> project fresh p (updates s) = (d, u) \<Longrightarrow>
     delta_step s \<lparr>updates = u, follower_of = follower_of s, offered = Some p,
       epochs = insert fresh (epochs s)\<rparr>"

inductive delta_reachable :: "delta_system \<Rightarrow> bool" where
  start: "delta_reachable \<lparr>updates = network_updates_default e, follower_of = None,
     offered = None, epochs = {e}\<rparr>"
| step: "delta_reachable s \<Longrightarrow> delta_step s t \<Longrightarrow> delta_reachable t"

lemma keyed_key: "keyed ns k = Some n \<Longrightarrow> network_key n = Some k"
  by (auto simp: keyed_def dest: find_in_set)

lemma keyed_mem: "keyed ns k = Some n \<Longrightarrow> n \<in> set ns"
  by (auto simp: keyed_def dest: find_in_set)

lemma map_filter_Cons:
  "List.map_filter f (x # xs) = (case f x of None \<Rightarrow> List.map_filter f xs | Some y \<Rightarrow> y # List.map_filter f xs)"
  by (simp add: List.map_filter_def split: option.splits)

lemma in_map_filter: "y \<in> set (List.map_filter f xs) \<longleftrightarrow> (\<exists>x \<in> set xs. f x = Some y)"
  by (induction xs) (auto simp: map_filter_Cons List.map_filter_def split: option.splits)

lemma keyed_None_iff: "keyed ns k = None \<longleftrightarrow> k \<notin> set (List.map_filter network_key ns)"
  by (auto simp: keyed_def find_None_iff in_map_filter)

lemma keyed_Cons: "keyed (n # ns) k = (if network_key n = Some k then Some n else keyed ns k)"
  by (simp add: keyed_def)

abbreviation distinct_keys :: "json list \<Rightarrow> bool" where
  "distinct_keys ns \<equiv> distinct (List.map_filter network_key ns)"

lemma upsert_all_keyed:
  "distinct_keys ns \<Longrightarrow> upsert_all ns m k = (case keyed ns k of None \<Rightarrow> m k | Some n \<Rightarrow> Some n)"
proof (induction ns arbitrary: m)
  case Nil
  then show ?case by (simp add: upsert_all_def keyed_def)
next
  case (Cons n ns)
  have step: "upsert_all (n # ns) m =
      upsert_all ns (case network_key n of None \<Rightarrow> m | Some k \<Rightarrow> m(k \<mapsto> n))"
    by (simp add: upsert_all_def)
  from Cons.prems have d: "distinct_keys ns"
    by (auto simp: map_filter_Cons split: option.splits)
  have "keyed ns k = None" if "network_key n = Some k"
    using Cons.prems that by (simp add: keyed_None_iff map_filter_Cons)
  with Cons.IH [OF d] show ?case
    by (auto simp: step keyed_Cons split: option.splits)
qed

lemma remove_all_keyed: "remove_all ns m k = (case keyed ns k of None \<Rightarrow> m k | Some n \<Rightarrow> None)"
proof (induction ns arbitrary: m)
  case Nil
  then show ?case by (simp add: remove_all_def keyed_def)
next
  case (Cons n ns)
  have step: "remove_all (n # ns) m =
      remove_all ns (case network_key n of None \<Rightarrow> m | Some k \<Rightarrow> m(k := None))"
    by (simp add: remove_all_def)
  show ?case by (auto simp: step keyed_Cons Cons.IH split: option.splits)
qed

lemma networks_by_key_upsert: "map_of (networks_by_key ns) = upsert_all ns Map.empty"
proof -
  have "map_of (foldl (\<lambda>m n. case network_key n of None \<Rightarrow> m | Some key \<Rightarrow> hm_insert key n m) a ns)
      = upsert_all ns (map_of a)" for a
    by (induction ns arbitrary: a) (auto simp: upsert_all_def update_conv' split: option.splits)
  from this [of "[]"] show ?thesis by (simp add: networks_by_key_def)
qed

lemma networks_by_key_keyed: "distinct_keys ns \<Longrightarrow> map_of (networks_by_key ns) k = keyed ns k"
  by (simp add: networks_by_key_upsert upsert_all_keyed split: option.splits)

lemma keyed_filter:
  "distinct_keys ns \<Longrightarrow> keyed (filter P ns) k =
     (case keyed ns k of None \<Rightarrow> None | Some n \<Rightarrow> if P n then Some n else None)"
proof (induction ns)
  case Nil
  then show ?case by (simp add: keyed_def)
next
  case (Cons n ns)
  from Cons.prems have d: "distinct_keys ns" by (auto simp: map_filter_Cons split: option.splits)
  have "keyed ns k = None" if "network_key n = Some k"
    using Cons.prems that by (simp add: keyed_None_iff map_filter_Cons)
  with Cons.IH [OF d] show ?case by (auto simp: keyed_Cons split: option.splits)
qed

lemma distinct_keys_filter: "distinct_keys ns \<Longrightarrow> distinct_keys (filter P ns)"
proof (induction ns)
  case (Cons n ns)
  then show ?case
    by (auto simp: map_filter_Cons in_map_filter split: option.splits)
qed simp

section \<open>The deltas reproduce the collection\<close>

lemma payload_networks:
  "payload_wf p \<Longrightarrow> Option.bind (jget p ''networks'') as_array = Some (networks_of p)"
  by (auto simp: payload_wf_def networks_of_def previous_networks_def)

lemma networks_of_wf:
  "payload_wf p \<Longrightarrow> distinct_keys (networks_of p) \<and> (\<forall>n \<in> set (networks_of p). network_wf n)"
  by (auto simp: payload_wf_def list_all_iff)

lemma keyed_added:
  "distinct_keys prev \<Longrightarrow> distinct_keys cur \<Longrightarrow>
   keyed (added_networks prev cur) k = (if keyed prev k = None then keyed cur k else None)"
  unfolding added_networks_def
  by (auto simp: keyed_filter networks_by_key_keyed split: option.splits dest: keyed_key)

lemma keyed_changed:
  "distinct_keys prev \<Longrightarrow> distinct_keys cur \<Longrightarrow>
   keyed (changed_networks prev cur) k =
     (case (keyed prev k, keyed cur k) of
        (Some p, Some n) \<Rightarrow> if network_entry_changed p n then Some n else None | _ \<Rightarrow> None)"
  unfolding changed_networks_def
  by (auto simp: keyed_filter networks_by_key_keyed split: option.splits dest: keyed_key)

lemma distinct_keys_delta:
  "distinct_keys cur \<Longrightarrow> distinct_keys (added_networks prev cur) \<and> distinct_keys (changed_networks prev cur)"
  by (simp add: added_networks_def changed_networks_def distinct_keys_filter)

lemma apply_networks:
  assumes prev: "distinct_keys prev" "\<forall>n \<in> set prev. network_wf n"
    and cur: "distinct_keys cur" "\<forall>n \<in> set cur. network_wf n"
    and same: "same_networks m (keyed prev)"
  shows "same_networks (upsert_all (changed_networks prev cur) (upsert_all (added_networks prev cur)
    (remove_all (added_networks cur prev) m))) (keyed cur)"
  unfolding same_networks_def
proof
  fix k
  have m: "map_option strip_network (m k) = map_option strip_network (keyed prev k)"
    using same by (simp add: same_networks_def)
  have ch: "network_entry_changed p n \<longleftrightarrow> strip_network p \<noteq> strip_network n"
    if "keyed prev k = Some p" "keyed cur k = Some n" for p n
    using that prev(2) cur(2) by (auto intro!: network_entry_changed_iff dest: keyed_mem)
  show "map_option strip_network (upsert_all (changed_networks prev cur)
      (upsert_all (added_networks prev cur) (remove_all (added_networks cur prev) m)) k) =
    map_option strip_network (keyed cur k)"
    using m ch distinct_keys_delta [OF cur(1), of prev]
    by (cases "keyed prev k"; cases "keyed cur k")
      (auto simp: upsert_all_keyed remove_all_keyed keyed_added keyed_changed prev(1) cur(1)
        split: option.splits)
qed

lemma no_change_same:
  assumes prev: "distinct_keys prev" "\<forall>n \<in> set prev. network_wf n"
    and cur: "distinct_keys cur" "\<forall>n \<in> set cur. network_wf n"
    and none: "added_networks prev cur = []" "added_networks cur prev = []" "changed_networks prev cur = []"
  shows "same_networks (keyed prev) (keyed cur)"
  using apply_networks [OF prev cur, of "keyed prev"]
  by (simp add: none upsert_all_def remove_all_def) (simp add: same_networks_def)

lemma same_networks_trans: "same_networks a b \<Longrightarrow> same_networks b c \<Longrightarrow> same_networks a c"
  by (simp add: same_networks_def)

text \<open>What \<open>project\<close> does on a well-formed payload, as the three outcomes of a publication.\<close>

definition renewed :: "string \<Rightarrow> network_updates \<Rightarrow> network_updates" where
  "renewed fresh u = (if nu_revision u = MAX_REVISION then network_updates_default fresh else u)"

definition delta_of :: "network_updates \<Rightarrow> json list \<Rightarrow> json \<Rightarrow> bool" where
  "delta_of u cur d \<longleftrightarrow>
     delta_array d ''added'' = added_networks (previous_networks (nu_last u)) cur \<and>
     delta_array d ''removed'' = added_networks cur (previous_networks (nu_last u)) \<and>
     delta_array d ''changed'' = changed_networks (previous_networks (nu_last u)) cur \<and>
     jget d ''initial'' = Some (JBool (nu_last u = None)) \<and>
     jget d ''epoch'' = Some (JStr (nu_epoch u)) \<and>
     jget d ''base_revision'' = Some (JInt (uint (nu_revision u))) \<and>
     jget d ''revision'' = Some (JInt (uint (nu_revision u + 1)))"

lemma network_delta_None:
  "payload_wf p \<Longrightarrow> network_delta prev p = None \<longleftrightarrow> prev \<noteq> None \<and>
     added_networks (previous_networks prev) (networks_of p) = [] \<and>
     added_networks (networks_of p) (previous_networks prev) = [] \<and>
     changed_networks (previous_networks prev) (networks_of p) = []"
  by (auto simp: network_delta_def payload_networks Let_def)

lemma network_delta_arrays:
  "payload_wf p \<Longrightarrow> network_delta prev p = Some d \<Longrightarrow>
     jmap_get d ''added'' = Some (JArr (added_networks (previous_networks prev) (networks_of p))) \<and>
     jmap_get d ''removed'' = Some (JArr (added_networks (networks_of p) (previous_networks prev))) \<and>
     jmap_get d ''changed'' = Some (JArr (changed_networks (previous_networks prev) (networks_of p)))"
  by (auto simp: network_delta_def payload_networks Let_def jmap_get_def split: if_splits option.splits)

lemma project_cases:
  assumes "payload_wf p" and "project fresh p u = (r, u')"
  obtains (quiet) "r = None" "u' = renewed fresh u" "network_delta (nu_last (renewed fresh u)) p = None"
  | (delta) d where "r = Some d" "delta_of (renewed fresh u) (networks_of p) d"
      "u' = (renewed fresh u)\<lparr>nu_revision := nu_revision (renewed fresh u) + 1, nu_last := Some p\<rparr>"
proof (cases "network_delta (nu_last (renewed fresh u)) p")
  case None
  with assms(2) quiet show ?thesis by (simp add: project_def renewed_def Let_def)
next
  case (Some d)
  note a = network_delta_arrays [OF assms(1) Some]
  from assms(2) Some obtain v where "r = Some v" "delta_of (renewed fresh u) (networks_of p) v"
      "u' = (renewed fresh u)\<lparr>nu_revision := nu_revision (renewed fresh u) + 1, nu_last := Some p\<rparr>"
    unfolding project_def renewed_def [symmetric]
    by (auto simp: Let_def delta_of_def delta_array_def jmap_get_insert a)
  with delta show ?thesis by blast
qed

interpretation deltas: revision_chain "\<lambda>u. (nu_epoch u, nu_revision u)" nu_last
  "\<lambda>fresh p u. snd (project fresh p u)"
proof unfold_locales
  fix s :: network_updates and f p
  assume "snd (nu_epoch s, nu_revision s) \<le> MAX_REVISION"
  then have "nu_revision s < MAX_REVISION \<or> nu_revision s = MAX_REVISION" by auto
  then show "(nu_epoch (snd (project f p s)), nu_revision (snd (project f p s))) = (nu_epoch s, nu_revision s) \<and>
      nu_last (snd (project f p s)) = nu_last s \<or>
    snd (nu_epoch s, nu_revision s) < MAX_REVISION \<and>
      (nu_epoch (snd (project f p s)), nu_revision (snd (project f p s))) =
        (fst (nu_epoch s, nu_revision s), snd (nu_epoch s, nu_revision s) + 1) \<or>
    fst (nu_epoch (snd (project f p s)), nu_revision (snd (project f p s))) = f \<and>
      snd (nu_epoch s, nu_revision s) = MAX_REVISION \<and>
      snd (nu_epoch (snd (project f p s)), nu_revision (snd (project f p s))) \<le> 1"
    by (auto simp: project_def network_updates_default_def Let_def split: option.splits)
qed

definition follower_ok :: "network_updates \<Rightarrow> follower \<Rightarrow> bool" where
  "follower_ok u f \<longleftrightarrow> fo_epoch f = nu_epoch u \<longrightarrow> fo_revision f \<le> uint (nu_revision u) \<and>
     (fo_revision f = uint (nu_revision u) \<longrightarrow>
        (\<exists>p. nu_last u = Some p \<and> same_networks (fo_networks f) (keyed (networks_of p))))"

definition delta_inv :: "delta_system \<Rightarrow> bool" where
  "delta_inv s \<longleftrightarrow> nu_revision (updates s) \<le> MAX_REVISION \<and> nu_epoch (updates s) \<in> epochs s \<and>
     (\<forall>f. follower_of s = Some f \<longrightarrow> fo_epoch f \<in> epochs s \<and> follower_ok (updates s) f) \<and>
     (\<forall>p. nu_last (updates s) = Some p \<longrightarrow> payload_wf p) \<and>
     (\<forall>p. offered s = Some p \<longrightarrow> (\<exists>q. nu_last (updates s) = Some q \<and>
        same_networks (keyed (networks_of q)) (keyed (networks_of p))))"

lemma uint_revision_step: "r < MAX_REVISION \<Longrightarrow> uint (r + 1) = uint r + 1" for r :: u64
  using revision_no_wrap [of r] by (metis uint_plus_simple add.commute less_imp_le uint_1 word_le_less_eq
      no_plus_overflow_uint_size)

lemma renewed_below: "nu_revision u \<le> MAX_REVISION \<Longrightarrow> nu_revision (renewed fresh u) < MAX_REVISION"
  by (auto simp: renewed_def network_updates_default_def MAX_REVISION_def)

lemma receive_delta:
  assumes d: "delta_of u (networks_of p) d" and p: "payload_wf p" and f: "receive d c = Some f"
    and last: "\<And>q. nu_last u = Some q \<Longrightarrow> payload_wf q"
    and ok: "\<And>f. c = Some f \<Longrightarrow> follower_ok u f"
  shows "fo_epoch f = nu_epoch u \<and> fo_revision f = uint (nu_revision u + 1) \<and>
    same_networks (fo_networks f) (keyed (networks_of p))"
proof -
  have prev: "distinct_keys (previous_networks (nu_last u))"
      "\<forall>n \<in> set (previous_networks (nu_last u)). network_wf n"
    using last networks_of_wf by (cases "nu_last u"; fastforce simp: previous_networks_def networks_of_def List.map_filter_def)+
  note cur = networks_of_wf [OF p, THEN conjunct1] networks_of_wf [OF p, THEN conjunct2]
  have app: "same_networks (apply_delta d m) (keyed (networks_of p))"
    if "same_networks m (keyed (previous_networks (nu_last u)))" for m
    using apply_networks [OF prev cur that] d by (simp add: apply_delta_def delta_of_def)
  show ?thesis
  proof (cases "nu_last u")
    case None
    have "same_networks Map.empty (keyed (previous_networks (nu_last u)))"
      by (simp add: None same_networks_def previous_networks_def keyed_def)
    from app [OF this] f d None show ?thesis by (auto simp: receive_def delta_of_def)
  next
    case (Some q)
    with f d obtain g where c: "c = Some g" and m: "fo_epoch g = nu_epoch u" "fo_revision g = uint (nu_revision u)"
      and r: "f = \<lparr>fo_epoch = nu_epoch u, fo_revision = uint (nu_revision u + 1),
        fo_networks = apply_delta d (fo_networks g)\<rparr>"
      by (auto simp: receive_def delta_of_def split: option.splits if_splits)
    from ok [OF c] m Some have "same_networks (fo_networks g) (keyed (previous_networks (nu_last u)))"
      by (auto simp: follower_ok_def networks_of_def)
    from app [OF this] r show ?thesis by simp
  qed
qed

text \<open>The publisher's part of a step: what becomes of its state, and of a subscriber it misses.\<close>

lemma project_publisher:
  assumes le: "nu_revision u \<le> MAX_REVISION" and p: "payload_wf p"
    and pr: "project fresh p u = (r, u')" and f: "fo_epoch f \<noteq> fresh" "follower_ok u f"
    and lw: "\<And>q. nu_last u = Some q \<Longrightarrow> payload_wf q"
  shows "follower_ok u' f \<and>
    (\<exists>q. nu_last u' = Some q \<and> same_networks (keyed (networks_of q)) (keyed (networks_of p)))"
  using p pr
proof (cases rule: project_cases)
  case quiet
  from quiet(3) obtain q where q: "nu_last (renewed fresh u) = Some q"
    and none: "added_networks (networks_of q) (networks_of p) = []"
      "added_networks (networks_of p) (networks_of q) = []"
      "changed_networks (networks_of q) (networks_of p) = []"
    by (auto simp: network_delta_None [OF p] networks_of_def)
  then have u: "renewed fresh u = u" by (auto simp: renewed_def network_updates_default_def)
  with q lw have "payload_wf q" by simp
  from no_change_same [OF networks_of_wf [OF this, THEN conjunct1] networks_of_wf [OF this, THEN conjunct2]
      networks_of_wf [OF p, THEN conjunct1] networks_of_wf [OF p, THEN conjunct2] none]
  show ?thesis using quiet u q f by auto
next
  case (delta d)
  have "follower_ok u' f"
  proof (cases "nu_revision u = MAX_REVISION")
    case True
    with delta f show ?thesis by (simp add: follower_ok_def renewed_def network_updates_default_def)
  next
    case False
    with le have "nu_revision u < MAX_REVISION" by simp
    from uint_revision_step [OF this] False delta f show ?thesis
      by (auto simp: follower_ok_def renewed_def)
  qed
  with delta show ?thesis by (simp add: same_networks_def)
qed

lemma project_offered:
  assumes "nu_revision u \<le> MAX_REVISION" and "payload_wf p" and "project fresh p u = (r, u')"
    and "\<And>q. nu_last u = Some q \<Longrightarrow> payload_wf q"
  shows "\<exists>q. nu_last u' = Some q \<and> same_networks (keyed (networks_of q)) (keyed (networks_of p))"
  using project_publisher [OF assms(1-3), of "\<lparr>fo_epoch = fresh @ ''x'' @ nu_epoch u, fo_revision = 0,
      fo_networks = Map.empty\<rparr>"] assms(4) by (simp add: follower_ok_def)

lemma project_frame:
  assumes le: "nu_revision u \<le> MAX_REVISION" and p: "payload_wf p" and pr: "project fresh p u = (r, u')"
    and lw: "\<And>q. nu_last u = Some q \<Longrightarrow> payload_wf q"
  shows "nu_revision u' \<le> MAX_REVISION \<and> (nu_epoch u' = fresh \<or> nu_epoch u' = nu_epoch u) \<and>
    (\<forall>q. nu_last u' = Some q \<longrightarrow> payload_wf q)"
  using p pr
proof (cases rule: project_cases)
  case quiet
  then show ?thesis
    using le lw renewed_below [OF le, of fresh]
    by (auto simp: renewed_def network_updates_default_def MAX_REVISION_def)
next
  case (delta d)
  from revision_no_wrap [OF renewed_below [OF le, of fresh]] have "nu_revision u' \<le> MAX_REVISION"
    using delta(3) by simp
  moreover have "nu_epoch u' = fresh \<or> nu_epoch u' = nu_epoch u"
    using delta(3) by (simp add: renewed_def network_updates_default_def)
  ultimately show ?thesis using delta(3) p by simp
qed

lemma follower_received:
  assumes le: "nu_revision u \<le> MAX_REVISION" and p: "payload_wf p" and pr: "project fresh p u = (Some d, u')"
    and lw: "\<And>q. nu_last u = Some q \<Longrightarrow> payload_wf q"
    and c: "\<And>f. c = Some f \<Longrightarrow> fo_epoch f \<noteq> fresh \<and> follower_ok u f"
    and f: "receive d c = Some f"
  shows "fo_epoch f = nu_epoch u' \<and> follower_ok u' f"
  using p pr
proof (cases rule: project_cases)
  case (delta d')
  then have d: "delta_of (renewed fresh u) (networks_of p) d" by simp
  have ok: "follower_ok (renewed fresh u) g" if "c = Some g" for g
    using c [OF that] by (auto simp: follower_ok_def renewed_def network_updates_default_def)
  have lw': "payload_wf q" if "nu_last (renewed fresh u) = Some q" for q
    using that lw by (simp add: renewed_def network_updates_default_def split: if_splits)
  from receive_delta [OF d p f lw' ok] delta(3) show ?thesis
    by (auto simp: follower_ok_def)
qed simp

lemma delta_step_inv:
  assumes st: "delta_step s t" and inv: "delta_inv s"
  shows "delta_inv t"
proof -
  from inv have le: "nu_revision (updates s) \<le> MAX_REVISION" and ep: "nu_epoch (updates s) \<in> epochs s"
    and fo: "\<And>f. follower_of s = Some f \<Longrightarrow> fo_epoch f \<in> epochs s \<and> follower_ok (updates s) f"
    and lw: "\<And>q. nu_last (updates s) = Some q \<Longrightarrow> payload_wf q" by (auto simp: delta_inv_def)
  from st show ?thesis
  proof cases
    case (delivered p fresh d u)
    have c: "fo_epoch f \<noteq> fresh \<and> follower_ok (updates s) f" if "follower_of s = Some f" for f
      using fo [OF that] delivered(3) by auto
    have kept: "follower_ok u f" if "follower_of s = Some f" for f
      using project_publisher [OF le delivered(2,4) _ _ lw] c [OF that] by blast
    note frame = project_frame [OF le delivered(2,4) lw] and off = project_offered [OF le delivered(2,4) lw]
    have "fo_epoch f \<in> insert fresh (epochs s) \<and> follower_ok u f"
      if "(case d of None \<Rightarrow> follower_of s | Some v \<Rightarrow> receive v (follower_of s)) = Some f" for f
    proof (cases d)
      case None
      with that kept fo show ?thesis by auto
    next
      case (Some v)
      with that have "receive v (follower_of s) = Some f" by simp
      from follower_received [OF le delivered(2) delivered(4) [unfolded Some] lw c this] frame ep
      show ?thesis by auto
    qed
    with frame off ep show ?thesis unfolding delivered(1) delta_inv_def by auto
  next
    case (lost p fresh d u)
    have kept: "fo_epoch f \<in> insert fresh (epochs s) \<and> follower_ok u f" if "follower_of s = Some f" for f
      using project_publisher [OF le lost(2,4) _ _ lw, of f] fo [OF that] lost(3) by auto
    with project_frame [OF le lost(2,4) lw] project_offered [OF le lost(2,4) lw] ep show ?thesis
      unfolding lost(1) delta_inv_def by auto
  qed
qed

lemma delta_reachable_inv: "delta_reachable s \<Longrightarrow> delta_inv s"
proof (induction rule: delta_reachable.induct)
  case (start e)
  then show ?case by (simp add: delta_inv_def network_updates_default_def)
next
  case (step s t)
  then show ?case using delta_step_inv by blast
qed

text \<open>
  C8. A subscriber that follows the delta chain and still stands at the publisher's cursor shows
  exactly the networks of the payload offered last, up to their ages, whatever was added, removed
  or changed, however often the epoch was renewed, and although deltas may have been lost: a lost
  delta leaves the subscriber behind the cursor, so it cannot mistake a stale collection for the
  current one. The revision never exceeds what a JavaScript number holds exactly.
\<close>

theorem delta_chain_sync:
  assumes "delta_reachable s" and "follower_of s = Some f" and "offered s = Some p"
    and "fo_epoch f = nu_epoch (updates s)" and "fo_revision f = uint (nu_revision (updates s))"
  shows "same_networks (fo_networks f) (keyed (networks_of p)) \<and> fo_revision f < 2 ^ 53"
proof -
  from delta_reachable_inv [OF assms(1)] assms have ok: "follower_ok (updates s) f"
    and le: "nu_revision (updates s) \<le> MAX_REVISION"
    and off: "\<exists>q. nu_last (updates s) = Some q \<and> same_networks (keyed (networks_of q)) (keyed (networks_of p))"
    by (auto simp: delta_inv_def)
  from ok assms(4,5) obtain q where "nu_last (updates s) = Some q"
    "same_networks (fo_networks f) (keyed (networks_of q))" by (auto simp: follower_ok_def)
  with off have "same_networks (fo_networks f) (keyed (networks_of p))"
    by (auto intro: same_networks_trans)
  moreover have "uint (nu_revision (updates s)) < 2 ^ 53"
    using le by (simp add: MAX_REVISION_def word_le_def)
  ultimately show ?thesis using assms(5) by simp
qed

theorem delta_chain_sync_witness:
  "\<exists>s f p. delta_reachable s \<and> follower_of s = Some f \<and> offered s = Some p \<and>
     networks_of p = [JObj [(''key'', JStr ''a'')]] \<and> same_networks (fo_networks f) (keyed (networks_of p))"
proof -
  let ?n = "JObj [(''key'', JStr ''a'')]"
  let ?p = "JObj [(''networks'', JArr [?n])]"
  let ?u = "network_updates_default ''e''"
  let ?r = "project ''f'' ?p ?u"
  have net: "networks_of ?p = [?n]" by (simp add: networks_of_def previous_networks_def jmap_get_def)
  have wf: "payload_wf ?p"
    by (simp add: payload_wf_def net network_key_def List.map_filter_def network_wf_def object_wf_def jmap_wf_def
        jmap_get_def)
  obtain d where d: "?r = (Some d, ?u\<lparr>nu_revision := 1, nu_last := Some ?p\<rparr>)"
    by (simp add: project_def network_updates_default_def MAX_REVISION_def network_delta_def jmap_get_def
        Let_def)
  define t where "t = \<lparr>updates = ?u\<lparr>nu_revision := 1, nu_last := Some ?p\<rparr>, follower_of = receive d None,
     offered = Some ?p, epochs = insert ''f'' {''e''}\<rparr>"
  have r: "delta_reachable t"
    using delta_reachable.step [OF delta_reachable.start [of "''e''"]
        delta_step.delivered [OF wf, of "''f''"]] d by (simp add: t_def)
  have "receive d None \<noteq> None \<and> (\<forall>f. receive d None = Some f \<longrightarrow> fo_epoch f = ''e'' \<and> fo_revision f = 1)"
    using d by (auto simp: project_def network_updates_default_def MAX_REVISION_def network_delta_def jmap_get_def
        Let_def receive_def)
  then obtain f where f: "receive d None = Some f" "fo_epoch f = ''e''" "fo_revision f = 1" by blast
  from delta_chain_sync [OF r, of f ?p] f r net show ?thesis
    by (auto simp: t_def network_updates_default_def)
qed

end
