(* ===== verification/Owners.thy ===== *)
theory Owners
  imports Prelude
begin

text \<open>
  The contract of a store whose entries belong to clients: dropping an owner removes what it owns
  and touches nothing else, and a client can remove an entry by id only when it owns it.
  Subscriptions, health feedback and running tasks are such stores; \<open>owned s i\<close> is the owner and
  value of entry \<open>i\<close>.
\<close>

locale owner_scoped =
  fixes owned :: "'s \<Rightarrow> 'i \<Rightarrow> ('o option \<times> 'v) option"
    and drop_owner :: "'o \<Rightarrow> 's \<Rightarrow> 's"
    and wf :: "'s \<Rightarrow> bool"
  assumes drop_exact: "wf s \<Longrightarrow> owned (drop_owner o1 s) i =
      (case owned s i of None \<Rightarrow> None | Some (ow, v) \<Rightarrow> if ow = Some o1 then None else Some (ow, v))"
    and drop_wf: "wf s \<Longrightarrow> wf (drop_owner o1 s)"
begin

lemma drop_others: "wf s \<Longrightarrow> owned s i = Some (ow, v) \<Longrightarrow> ow \<noteq> Some o1 \<Longrightarrow>
    owned (drop_owner o1 s) i = Some (ow, v)"
  by (simp add: drop_exact)

lemma drop_complete: "wf s \<Longrightarrow> owned (drop_owner o1 s) i \<noteq> Some (Some o1, v)"
  by (auto simp: drop_exact split: option.splits)

lemma drop_idem: "wf s \<Longrightarrow> owned (drop_owner o1 (drop_owner o1 s)) i = owned (drop_owner o1 s) i"
  by (auto simp: drop_exact drop_wf split: option.splits)

lemma drop_commute: "wf s \<Longrightarrow>
    owned (drop_owner o1 (drop_owner o2 s)) i = owned (drop_owner o2 (drop_owner o1 s)) i"
  by (auto simp: drop_exact drop_wf split: option.splits)

end

end
