(* ===== verification/Health_Feedback.thy ===== *)
theory Health_Feedback
  imports Owners Errors
begin

text \<open>
  \<open>src/daemon_runtime/health_feedback.rs\<close>: which health events a consumer should be notified of.
  The policy keeps, per consumer, the last notification it recommended.
\<close>

type_synonym health_feedback = "(string, string \<times> instant) hash_map"

definition feedback_drop_owner :: "string \<Rightarrow> health_feedback \<Rightarrow> health_feedback" where
  "feedback_drop_owner owner shown = hm_remove owner shown"

text \<open>
  \<open>&mut data["health"]\<close>: the entry to work on, created as null when it is absent; indexing a
  value that is neither an object nor null panics (\<open>None\<close>).
\<close>

definition index_mut :: "json \<Rightarrow> string \<Rightarrow> (json \<times> json) option" where
  "index_mut data key =
     (case data of
        JObj m \<Rightarrow> (case jmap_get m key of
            Some v \<Rightarrow> Some (data, v) | None \<Rightarrow> Some (JObj (jmap_insert key JNull m), JNull))
      | JNull \<Rightarrow> Some (JObj [(key, JNull)], JNull)
      | _ \<Rightarrow> None)"

definition identity_keys :: "string list" where
  "identity_keys = [''device_path'', ''active_connection_path'', ''profile_path'', ''uuid'', ''id'',
     ''device_iface'', ''connection_type'']"

fun find_identity :: "json \<Rightarrow> string list \<Rightarrow> string option" where
  "find_identity health [] = None"
| "find_identity health (key # keys) =
     (case as_str (jindex health key) of
        Some v \<Rightarrow> if v \<noteq> [] then Some v else find_identity health keys
      | None \<Rightarrow> find_identity health keys)"

definition str_or :: "json \<Rightarrow> string \<Rightarrow> string" where
  "str_or v d = (case as_str v of None \<Rightarrow> d | Some s \<Rightarrow> s)"

definition notification_key :: "json \<Rightarrow> string" where
  "notification_key health =
     (case find_identity health identity_keys of None \<Rightarrow> ''network'' | Some i \<Rightarrow> i)
     @ ''|'' @ str_or (jindex health ''state_name'') ''unknown''
     @ ''|'' @ str_or (jindex (jindex health ''reason'') ''name'') ''unknown''"

definition is_duplicate :: "health_feedback \<Rightarrow> string \<Rightarrow> string \<Rightarrow> instant \<Rightarrow> bool" where
  "is_duplicate shown owner key now =
     (case hm_get shown owner of
        None \<Rightarrow> False
      | Some (old, at) \<Rightarrow> old = key \<and> now - at < from_secs 3)"

definition project_health :: "string \<Rightarrow> json \<Rightarrow> bool \<Rightarrow> instant \<Rightarrow> health_feedback
    \<Rightarrow> json option \<times> health_feedback" where
  "project_health owner data connecting now shown =
     (case index_mut data ''health'' of
        None \<Rightarrow> (None, shown)
      | Some (data', health) \<Rightarrow>
          if jindex health ''notification_recommended'' \<noteq> JBool True then (Some data', shown)
          else (let key = notification_key health
                in if connecting \<or> is_duplicate shown owner key now
                   then (Option.bind (jset health ''notification_recommended'' (JBool False))
                           (\<lambda>h. jset data' ''health'' h), shown)
                   else (Some data', hm_insert owner (key, now) shown)))"

interpretation feedback: owner_scoped
  "\<lambda>shown owner. map_option (\<lambda>v. (Some owner, v)) (map_of shown owner)" feedback_drop_owner hm_wf
  by unfold_locales (auto simp: feedback_drop_owner_def delete_conv' hm_wf_delete split: option.splits)

section \<open>Runs\<close>

text \<open>One call of the policy: a health event for a consumer, or the consumer's disconnection.\<close>

datatype feedback_call = Project string json bool instant | DropOwner string

fun feedback_call_step :: "feedback_call \<Rightarrow> health_feedback \<Rightarrow> health_feedback" where
  "feedback_call_step (Project owner data connecting now) shown =
     snd (project_health owner data connecting now shown)"
| "feedback_call_step (DropOwner owner) shown = feedback_drop_owner owner shown"

fun feedback_run :: "feedback_call list \<Rightarrow> health_feedback" where
  "feedback_run [] = []"
| "feedback_run (c # cs) = feedback_call_step c (feedback_run cs)"

text \<open>
  The specification over the calls so far (newest first): the last event of a consumer that was
  recommended to it, forgotten when it disconnects.
\<close>

definition health_of :: "json \<Rightarrow> json" where
  "health_of data = jindex data ''health''"

definition recommendable :: "json \<Rightarrow> bool" where
  "recommendable data \<longleftrightarrow> jindex (health_of data) ''notification_recommended'' = JBool True"

fun last_shown :: "string \<Rightarrow> feedback_call list \<Rightarrow> (string \<times> instant) option" where
  "last_shown owner [] = None"
| "last_shown owner (DropOwner ow # cs) = (if ow = owner then None else last_shown owner cs)"
| "last_shown owner (Project ow data connecting now # cs) =
     (if ow = owner \<and> recommendable data \<and> \<not> connecting \<and>
         (\<forall>at. last_shown owner cs = Some (notification_key (health_of data), at) \<longrightarrow> from_secs 3 \<le> now - at)
      then Some (notification_key (health_of data), now) else last_shown owner cs)"

lemma index_mut_health:
  "index_mut data k = Some (d, h) \<Longrightarrow> h = jindex data k \<and> jindex d k = h"
  by (auto simp: index_mut_def jindex_def jmap_get_insert split: json.splits option.splits)
    (simp_all add: jmap_get_def)

lemma jindex_object: "jindex v k \<noteq> JNull \<Longrightarrow> \<exists>m. v = JObj m \<and> jmap_get m k = Some (jindex v k)"
  by (cases v) (auto simp: jindex_def split: option.splits)

lemma recommendable_object:
  assumes "recommendable data"
  shows "\<exists>m h. data = JObj m \<and> jmap_get m ''health'' = Some (JObj h)"
proof -
  from assms have r: "jindex (health_of data) ''notification_recommended'' \<noteq> JNull"
    by (simp add: recommendable_def)
  from jindex_object [OF this] obtain h where h: "health_of data = JObj h" by blast
  then have "jindex data ''health'' \<noteq> JNull" by (simp add: health_of_def)
  from jindex_object [OF this] h show ?thesis by (auto simp: health_of_def)
qed

lemma project_health_quiet:
  "\<not> recommendable data \<Longrightarrow> snd (project_health owner data connecting now shown) = shown"
  by (auto simp: project_health_def recommendable_def health_of_def dest: index_mut_health split: option.splits)

lemma project_health_recommendable:
  assumes "recommendable data"
  obtains m h where "data = JObj m" "jmap_get m ''health'' = Some (JObj h)"
    "project_health owner data connecting now shown =
      (if connecting \<or> is_duplicate shown owner (notification_key (health_of data)) now
       then (Some (JObj (jmap_insert ''health'' (JObj (jmap_insert ''notification_recommended'' (JBool False) h)) m)), shown)
       else (Some data, hm_insert owner (notification_key (health_of data), now) shown))"
proof -
  from recommendable_object [OF assms] obtain m h where m: "data = JObj m" "jmap_get m ''health'' = Some (JObj h)"
    by blast
  with assms show ?thesis
    by (intro that [of m h]) (auto simp: project_health_def index_mut_def recommendable_def health_of_def
        jindex_def Let_def)
qed

lemma feedback_run_last: "map_of (feedback_run cs) owner = last_shown owner cs"
proof (induction cs)
  case Nil
  then show ?case by simp
next
  case (Cons c cs)
  show ?case
  proof (cases c)
    case (DropOwner ow)
    with Cons.IH show ?thesis by (simp add: feedback_drop_owner_def delete_conv')
  next
    case (Project ow data connecting now)
    show ?thesis
    proof (cases "recommendable data")
      case False
      with Project Cons.IH show ?thesis by (simp add: project_health_quiet)
    next
      case True
      obtain m h where "project_health ow data connecting now (feedback_run cs) =
        (if connecting \<or> is_duplicate (feedback_run cs) ow (notification_key (health_of data)) now
         then (Some (JObj (jmap_insert ''health'' (JObj (jmap_insert ''notification_recommended'' (JBool False) h)) m)),
               feedback_run cs)
         else (Some data, hm_insert ow (notification_key (health_of data), now) (feedback_run cs)))"
        using project_health_recommendable [OF True] by metis
      moreover have "is_duplicate (feedback_run cs) owner k now \<longleftrightarrow>
          (\<exists>at. last_shown owner cs = Some (k, at) \<and> now - at < from_secs 3)" for k
        by (auto simp: is_duplicate_def Cons.IH split: option.splits)
      ultimately show ?thesis
        using Project True Cons.IH by (auto simp: update_conv' not_less)
    qed
  qed
qed

text \<open>
  After any sequence of health events and disconnections, a notification that is recommended
  for a consumer stays recommended, and is delivered unchanged, unless the consumer is itself
  connecting or its last recommended notification was the same one less than three seconds ago;
  then only the recommendation is withdrawn, every other field is delivered as it was. Events
  that are not recommended pass through unchanged.
\<close>

theorem health_notification_policy:
  assumes "data = JObj m" and "jmap_get m ''health'' = Some (JObj h)"
  shows "fst (project_health owner data connecting now (feedback_run calls)) = Some
    (if recommendable data \<and> (connecting \<or>
        (\<exists>at. last_shown owner calls = Some (notification_key (JObj h), at) \<and> now - at < from_secs 3))
     then JObj (jmap_insert ''health'' (JObj (jmap_insert ''notification_recommended'' (JBool False) h)) m)
     else data)"
proof (cases "recommendable data")
  case False
  with assms show ?thesis
    by (auto simp: project_health_def index_mut_def recommendable_def health_of_def jindex_def)
next
  case True
  have h: "health_of data = JObj h" using assms by (simp add: health_of_def jindex_def)
  have dup: "is_duplicate (feedback_run calls) owner (notification_key (JObj h)) now \<longleftrightarrow>
      (\<exists>at. last_shown owner calls = Some (notification_key (JObj h), at) \<and> now - at < from_secs 3)"
    by (auto simp: is_duplicate_def feedback_run_last split: option.splits)
  obtain m' h' where d: "data = JObj m'" "jmap_get m' ''health'' = Some (JObj h')"
    and p: "project_health owner data connecting now (feedback_run calls) =
      (if connecting \<or> is_duplicate (feedback_run calls) owner (notification_key (health_of data)) now
       then (Some (JObj (jmap_insert ''health'' (JObj (jmap_insert ''notification_recommended'' (JBool False) h')) m')),
             feedback_run calls)
       else (Some data, hm_insert owner (notification_key (health_of data), now) (feedback_run calls)))"
    by (rule project_health_recommendable [OF True])
  from d assms have "m' = m" "h' = h" by auto
  with p True show ?thesis unfolding h dup by (auto split: if_splits)
qed

theorem health_notification_policy_witness:
  "fst (project_health ''a'' (JObj [(''health'', JObj [(''notification_recommended'', JBool True)])]) False 5
      (feedback_run [Project ''a'' (JObj [(''health'', JObj [(''notification_recommended'', JBool True)])]) False 1]))
   = Some (JObj [(''health'', JObj [(''notification_recommended'', JBool False)])])"
  by (subst health_notification_policy [OF refl, of _ "[(''notification_recommended'', JBool True)]"])
    (simp_all add: jmap_get_def recommendable_def health_of_def jindex_def from_secs_def)

end
