(* ===== verification/Subscriptions.thy ===== *)
theory Subscriptions
  imports Events Network_Updates Health_Feedback
begin

text \<open>
  \<open>src/daemon_runtime/subscriptions.rs\<close> and \<open>src/daemon_status.rs\<close>: the actor that owns every
  subscription, schedules the shared refresh of their payloads and fans events out. The actor's
  mailbox delivers one \<open>control\<close> at a time; what it emits, replies and queues is its output. The
  arguments of a step stand for what it asks outside: whether the work queue accepts a job, the
  clock, the epochs drawn, which emitters have closed, which owners are connecting.
\<close>

record shared_payloads =
  sp_status :: "json option"
  sp_connectivity :: "json option"
  sp_inventory :: "json option"
  sp_networks :: "json option"

definition payloads_default :: shared_payloads where
  "payloads_default = \<lparr>sp_status = None, sp_connectivity = None, sp_inventory = None, sp_networks = None\<rparr>"

record subscription_state =
  sub_id :: string
  sub_owner :: "string option"
  sub_streams :: "stream list"
  sub_closed :: bool
  sub_last :: shared_payloads
  sub_networks :: network_updates

definition subscription_new :: "string \<Rightarrow> string \<Rightarrow> string option \<Rightarrow> stream list \<Rightarrow> subscription_state" where
  "subscription_new fresh sid owner strms =
     \<lparr>sub_id = sid, sub_owner = owner, sub_streams = strms, sub_closed = False,
      sub_last = payloads_default, sub_networks = network_updates_default fresh\<rparr>"

definition watches :: "stream \<Rightarrow> subscription_state \<Rightarrow> bool" where
  "watches s sub \<longleftrightarrow> \<not> sub_closed sub \<and> s \<in> set (sub_streams sub)"

text \<open>An event handed to an emitter: stream, correlation, event name and data.\<close>

datatype emitted = Emitted stream correlation string json

text \<open>\<open>emit_on_change\<close>: the events it emits and the value it remembers.\<close>

definition emit_on_change ::
    "stream \<Rightarrow> string \<Rightarrow> api_method \<Rightarrow> json option \<Rightarrow> json \<Rightarrow> emitted list \<times> json option" where
  "emit_on_change s sid m previous value =
     (if previous = Some value then ([], previous)
      else ([Emitted s (CorrSubscription sid) ''changed''
               (JObj [(ms_response_key (method_spec_of m), value)])], Some value))"

definition emit_stream ::
    "subscription_state \<Rightarrow> stream \<Rightarrow> api_method \<Rightarrow> json option \<Rightarrow> json option \<Rightarrow> emitted list \<times> json option" where
  "emit_stream sub s m previous value =
     (case value of
        Some v \<Rightarrow> if s \<in> set (sub_streams sub) then emit_on_change s (sub_id sub) m previous v
                  else ([], previous)
      | None \<Rightarrow> ([], previous))"

definition emit_network_changes ::
    "string \<Rightarrow> string \<Rightarrow> network_updates \<Rightarrow> json \<Rightarrow> emitted list \<times> network_updates" where
  "emit_network_changes fresh sid u value =
     (case project fresh value u of
        (None, u') \<Rightarrow> ([], u')
      | (Some payload, u') \<Rightarrow>
          ([Emitted S_WifiNetworks (CorrSubscription sid) ''changed'' payload], u'))"

text \<open>\<open>closing\<close>: the emitter closes between the first and the second look at it.\<close>

definition emit_changes ::
    "bool \<Rightarrow> string \<Rightarrow> shared_payloads \<Rightarrow> subscription_state \<Rightarrow> emitted list \<times> subscription_state" where
  "emit_changes closing fresh p sub =
     (if sub_closed sub then ([], sub)
      else
        (let (e1, status) = emit_stream sub S_WifiStatus M_WifiStatus (sp_status (sub_last sub)) (sp_status p);
             (e2, connectivity) = emit_stream sub S_NetworkConnectivity M_NetworkConnectivity
               (sp_connectivity (sub_last sub)) (sp_connectivity p);
             (e3, inventory) = emit_stream sub S_NetworkInventory M_NetworkInventory
               (sp_inventory (sub_last sub)) (sp_inventory p);
             sub1 = sub\<lparr>sub_last := (sub_last sub)\<lparr>sp_status := status, sp_connectivity := connectivity,
                          sp_inventory := inventory\<rparr>, sub_closed := closing\<rparr>
         in case sp_networks p of
              Some value \<Rightarrow>
                if watches S_WifiNetworks sub1
                then (let (e4, u) = emit_network_changes fresh (sub_id sub) (sub_networks sub1) value
                      in (e1 @ e2 @ e3 @ e4, sub1\<lparr>sub_networks := u\<rparr>))
                else (e1 @ e2 @ e3, sub1)
            | None \<Rightarrow> (e1 @ e2 @ e3, sub1)))"

section \<open>The refresh gate\<close>

record refresh_gate =
  rg_in_flight :: bool
  rg_dirty :: bool

definition gate_default :: refresh_gate where
  "gate_default = \<lparr>rg_in_flight = False, rg_dirty = False\<rparr>"

definition gate_invalidate :: "refresh_gate \<Rightarrow> bool \<times> refresh_gate" where
  "gate_invalidate g = (if rg_in_flight g then (False, g\<lparr>rg_dirty := True\<rparr>) else (True, g))"

definition gate_started :: "refresh_gate \<Rightarrow> refresh_gate" where
  "gate_started g = g\<lparr>rg_in_flight := True\<rparr>"

definition gate_complete :: "refresh_gate \<Rightarrow> bool \<times> refresh_gate" where
  "gate_complete g = (rg_dirty g, g\<lparr>rg_in_flight := False, rg_dirty := False\<rparr>)"

record payload_demand =
  pd_status :: bool
  pd_connectivity :: bool
  pd_inventory :: bool
  pd_networks :: bool

definition demand_any :: "payload_demand \<Rightarrow> bool" where
  "demand_any d \<longleftrightarrow> pd_status d \<or> pd_connectivity d \<or> pd_inventory d \<or> pd_networks d"

type_synonym subscriptions = "(string, subscription_state) hash_map"

definition any_watches :: "subscriptions \<Rightarrow> stream \<Rightarrow> bool" where
  "any_watches subs s = list_ex (\<lambda>(_, sub). watches s sub) subs"

definition required_shared_payloads :: "subscriptions \<Rightarrow> payload_demand" where
  "required_shared_payloads subs =
     \<lparr>pd_status = any_watches subs S_WifiStatus, pd_connectivity = any_watches subs S_NetworkConnectivity,
      pd_inventory = any_watches subs S_NetworkInventory, pd_networks = any_watches subs S_WifiNetworks\<rparr>"

section \<open>The control actor\<close>

record cancel_outcome =
  co_task :: bool
  co_subscription :: bool

datatype 'signal control =
    Subscribe subscription_state
  | CancelSubscription string "string option" bool
  | SubscriberOwners stream
  | OwnersOf
  | ExternalEvent stream string string json
  | DropOwnerOf string
  | HealthSignal 'signal
  | NetworkChanged
  | Refreshed shared_payloads
  | Shutdown

datatype 'signal control_output =
    Emit emitted
  | ReplyCancel cancel_outcome
  | ReplyOwners "string list"
  | ReplyDone
  | SubmitRefresh payload_demand
  | RefreshRefused
  | SubmitHealth 'signal
  | Panicked

record control_state =
  subscriptions_of :: subscriptions
  refresh :: refresh_gate
  feedback_of :: health_feedback
  network_change_deadline :: "instant option"
  running :: bool

definition control_default :: control_state where
  "control_default = \<lparr>subscriptions_of = [], refresh = gate_default, feedback_of = [],
     network_change_deadline = None, running = True\<rparr>"

definition NETWORK_CHANGE_DEBOUNCE :: duration where
  "NETWORK_CHANGE_DEBOUNCE = from_millis 75"

text \<open>A full queue refuses the job: the refusal is logged, and the gate stays as it is.\<close>

definition submit_shared_refresh ::
    "bool \<Rightarrow> refresh_gate \<Rightarrow> payload_demand \<Rightarrow> 'g control_output list \<times> refresh_gate" where
  "submit_shared_refresh accepted gate needs =
     (if accepted then ([SubmitRefresh needs], gate_started gate) else ([RefreshRefused], gate))"

definition request_shared_refresh ::
    "bool \<Rightarrow> subscriptions \<Rightarrow> refresh_gate \<Rightarrow> 'g control_output list \<times> refresh_gate" where
  "request_shared_refresh accepted subs gate =
     (let (go, gate1) = gate_invalidate gate
      in if \<not> go \<or> subs = [] then ([], gate1)
         else (let needs = required_shared_payloads subs
               in if \<not> demand_any needs then ([], gate1)
                  else submit_shared_refresh accepted gate1 needs))"

definition add_subscription ::
    "bool \<Rightarrow> subscription_state \<Rightarrow> control_state \<Rightarrow> 'g control_output list \<times> control_state" where
  "add_subscription accepted sub st =
     (let subs = hm_insert (sub_id sub) sub (subscriptions_of st);
          (out, gate) = request_shared_refresh accepted subs (refresh st)
      in (ReplyDone # out, st\<lparr>subscriptions_of := subs, refresh := gate\<rparr>))"

definition remove_subscription ::
    "string \<Rightarrow> string option \<Rightarrow> bool \<Rightarrow> control_state \<Rightarrow> 'g control_output list \<times> control_state" where
  "remove_subscription sid owner task_found st =
     (let found = (case hm_get (subscriptions_of st) sid of
                     None \<Rightarrow> False | Some sub \<Rightarrow> sub_owner sub = owner)
      in ([ReplyCancel \<lparr>co_task = task_found, co_subscription = found\<rparr>],
          if found then st\<lparr>subscriptions_of := hm_remove sid (subscriptions_of st)\<rparr> else st))"

definition drop_subscriptions_for_owner :: "string \<Rightarrow> subscriptions \<Rightarrow> subscriptions" where
  "drop_subscriptions_for_owner owner subs = hm_retain (\<lambda>_ sub. sub_owner sub \<noteq> Some owner) subs"

definition subscriber_owners :: "stream \<Rightarrow> subscriptions \<Rightarrow> string list" where
  "subscriber_owners s subs =
     remdups (List.map_filter (\<lambda>(_, sub). if watches s sub then sub_owner sub else None) subs)"

definition publish_health_signal ::
    "bool \<Rightarrow> 'g \<Rightarrow> control_state \<Rightarrow> 'g control_output list" where
  "publish_health_signal accepted signal st =
     (if any_watches (subscriptions_of st) S_NetworkHealth \<and> accepted then [SubmitHealth signal] else [])"

text \<open>What a subscriber's owner gets of an external event.\<close>

definition projected_for :: "stream \<Rightarrow> string \<Rightarrow> json \<Rightarrow> (string \<Rightarrow> bool) \<Rightarrow> instant \<Rightarrow> health_feedback
    \<Rightarrow> json option \<times> health_feedback" where
  "projected_for s owner data connecting now fb =
     (if s = S_NetworkHealth then project_health owner data (connecting owner) now fb else (Some data, fb))"

fun emit_external_to_subscribers ::
    "subscriptions \<Rightarrow> stream \<Rightarrow> string \<Rightarrow> string \<Rightarrow> json \<Rightarrow> (string \<Rightarrow> bool) \<Rightarrow> instant
      \<Rightarrow> string list \<Rightarrow> health_feedback \<Rightarrow> 'g control_output list \<times> health_feedback" where
  "emit_external_to_subscribers [] s rid event data connecting now emitted_owners fb = ([], fb)"
| "emit_external_to_subscribers ((sid, sub) # subs) s rid event data connecting now emitted_owners fb =
     (case sub_owner sub of
        Some owner \<Rightarrow>
          if watches s sub \<and> owner \<notin> set emitted_owners
          then (let (projected, fb1) = projected_for s owner data connecting now fb
                in case projected of
                     None \<Rightarrow> ([Panicked], fb1)
                   | Some d \<Rightarrow>
                       (let (out, fb2) = emit_external_to_subscribers subs s rid event data connecting now
                              (owner # emitted_owners) fb1
                        in (Emit (Emitted s (CorrRequest rid) event d) # out, fb2)))
          else emit_external_to_subscribers subs s rid event data connecting now emitted_owners fb
      | None \<Rightarrow> emit_external_to_subscribers subs s rid event data connecting now emitted_owners fb)"

fun emit_changes_all ::
    "(string \<Rightarrow> bool) \<Rightarrow> (string \<Rightarrow> string) \<Rightarrow> shared_payloads \<Rightarrow> subscriptions
      \<Rightarrow> emitted list \<times> subscriptions" where
  "emit_changes_all closing fresh p [] = ([], [])"
| "emit_changes_all closing fresh p ((sid, sub) # subs) =
     (let (e, sub') = emit_changes (closing sid) (fresh sid) p sub;
          (es, subs') = emit_changes_all closing fresh p subs
      in (e @ es, (sid, sub') # subs'))"

definition complete_shared_refresh ::
    "bool \<Rightarrow> (string \<Rightarrow> bool) \<Rightarrow> (string \<Rightarrow> string) \<Rightarrow> shared_payloads \<Rightarrow> control_state
      \<Rightarrow> 'g control_output list \<times> control_state" where
  "complete_shared_refresh accepted closing fresh p st =
     (let (again, gate) = gate_complete (refresh st);
          (es, subs) = emit_changes_all closing fresh p (subscriptions_of st);
          (out, gate') = (if again then request_shared_refresh accepted subs gate else ([], gate))
      in (map Emit es @ out, st\<lparr>subscriptions_of := subs, refresh := gate'\<rparr>))"

text \<open>What a step of the actor learns from outside.\<close>

record actor_env =
  accepts :: bool
  closing_of :: "string \<Rightarrow> bool"
  fresh_of :: "string \<Rightarrow> string"
  connecting_of :: "string \<Rightarrow> bool"
  now_of :: instant

fun handle_control ::
    "actor_env \<Rightarrow> 'g control \<Rightarrow> control_state \<Rightarrow> 'g control_output list \<times> control_state" where
  "handle_control env (Subscribe sub) st = add_subscription (accepts env) sub st"
| "handle_control env (CancelSubscription sid owner task_found) st =
     remove_subscription sid owner task_found st"
| "handle_control env (SubscriberOwners s) st =
     ([ReplyOwners (subscriber_owners s (subscriptions_of st))], st)"
| "handle_control env OwnersOf st =
     ([ReplyOwners (List.map_filter (\<lambda>(_, sub). sub_owner sub) (subscriptions_of st))], st)"
| "handle_control env (ExternalEvent s rid event data) st =
     (let (out, fb) = emit_external_to_subscribers (subscriptions_of st) s rid event data
            (connecting_of env) (now_of env) [] (feedback_of st)
      in (out, st\<lparr>feedback_of := fb\<rparr>))"
| "handle_control env (DropOwnerOf owner) st =
     ([], st\<lparr>feedback_of := feedback_drop_owner owner (feedback_of st),
             subscriptions_of := drop_subscriptions_for_owner owner (subscriptions_of st)\<rparr>)"
| "handle_control env (HealthSignal signal) st = (publish_health_signal (accepts env) signal st, st)"
| "handle_control env (Refreshed p) st =
     complete_shared_refresh (accepts env) (closing_of env) (fresh_of env) p st"
| "handle_control env NetworkChanged st = ([Panicked], st)"
| "handle_control env Shutdown st = ([Panicked], st)"

text \<open>One turn of \<open>run_event_loop\<close>: a control from the mailbox, or the debounce deadline.\<close>

definition receive_control ::
    "actor_env \<Rightarrow> 'g control \<Rightarrow> control_state \<Rightarrow> 'g control_output list \<times> control_state" where
  "receive_control env c st =
     (case c of
        Shutdown \<Rightarrow> ([ReplyDone], st\<lparr>subscriptions_of := [], running := False\<rparr>)
      | NetworkChanged \<Rightarrow> ([], st\<lparr>network_change_deadline :=
          (case network_change_deadline st of
             Some d \<Rightarrow> Some d | None \<Rightarrow> Some (now_of env + NETWORK_CHANGE_DEBOUNCE))\<rparr>)
      | _ \<Rightarrow> handle_control env c st)"

definition deadline_fires ::
    "actor_env \<Rightarrow> control_state \<Rightarrow> 'g control_output list \<times> control_state" where
  "deadline_fires env st =
     (let (out, gate) = request_shared_refresh (accepts env) (subscriptions_of st) (refresh st)
      in (out, st\<lparr>network_change_deadline := None, refresh := gate\<rparr>))"

section \<open>Refreshes are coalesced and never forgotten\<close>

text \<open>
  The actor together with the refresh jobs it has queued and that have not reported back, whether the
  state of the network changed (or a subscriber arrived) after the last job was queued, and whether
  the queue has refused a job since the last such change or arrival and since the last queued job.
\<close>

record refresh_system =
  actor :: control_state
  jobs :: nat
  owed :: bool
  refused :: bool

definition submits :: "'g control_output list \<Rightarrow> nat" where
  "submits out = length (filter (\<lambda>x. case x of SubmitRefresh _ \<Rightarrow> True | _ \<Rightarrow> False) out)"

definition refusals :: "'g control_output list \<Rightarrow> nat" where
  "refusals out = length (filter (\<lambda>x. case x of RefreshRefused \<Rightarrow> True | _ \<Rightarrow> False) out)"

definition wanted :: "control_state \<Rightarrow> bool" where
  "wanted st \<longleftrightarrow> demand_any (required_shared_payloads (subscriptions_of st))"

definition raises_debt :: "'g control \<Rightarrow> bool" where
  "raises_debt c = (case c of NetworkChanged \<Rightarrow> True | Subscribe _ \<Rightarrow> True | _ \<Rightarrow> False)"

text \<open>A job reports back once: \<open>Refreshed\<close> arrives only while a job is outstanding.\<close>

inductive refresh_step :: "'g itself \<Rightarrow> refresh_system \<Rightarrow> refresh_system \<Rightarrow> bool" for ty where
  mail: "(\<And>p. c \<noteq> Refreshed p) \<Longrightarrow>
     receive_control env (c :: 'g control) (actor s) = (out, st) \<Longrightarrow> running (actor s) \<Longrightarrow>
     refresh_step ty s \<lparr>actor = st, jobs = jobs s + submits out,
       owed = (submits out = 0 \<and> (owed s \<or> raises_debt c)),
       refused = (submits out = 0 \<and> (refusals out \<noteq> 0 \<or> (refused s \<and> \<not> raises_debt c)))\<rparr>"
| report: "0 < jobs s \<Longrightarrow>
     receive_control env (Refreshed p :: 'g control) (actor s) = (out, st) \<Longrightarrow> running (actor s) \<Longrightarrow>
     refresh_step ty s \<lparr>actor = st, jobs = jobs s - 1 + submits out, owed = (submits out = 0 \<and> owed s),
       refused = (submits out = 0 \<and> (refusals out \<noteq> 0 \<or> refused s))\<rparr>"
| deadline: "network_change_deadline (actor s) \<noteq> None \<Longrightarrow>
     deadline_fires env (actor s) = (out :: 'g control_output list, st) \<Longrightarrow> running (actor s) \<Longrightarrow>
     refresh_step ty s \<lparr>actor = st, jobs = jobs s + submits out, owed = (submits out = 0 \<and> owed s),
       refused = (submits out = 0 \<and> (refusals out \<noteq> 0 \<or> refused s))\<rparr>"

inductive refresh_reachable :: "'g itself \<Rightarrow> refresh_system \<Rightarrow> bool" for ty where
  start: "refresh_reachable ty \<lparr>actor = control_default, jobs = 0, owed = False, refused = False\<rparr>"
| step: "refresh_reachable ty s \<Longrightarrow> refresh_step ty s t \<Longrightarrow> refresh_reachable ty t"

definition refresh_inv :: "refresh_system \<Rightarrow> bool" where
  "refresh_inv s \<longleftrightarrow> jobs s = (if rg_in_flight (refresh (actor s)) then 1 else 0) \<and>
     (rg_dirty (refresh (actor s)) \<longrightarrow> rg_in_flight (refresh (actor s))) \<and>
     (owed s \<and> \<not> refused s \<and> wanted (actor s) \<longrightarrow>
        network_change_deadline (actor s) \<noteq> None \<or> rg_dirty (refresh (actor s)))"

lemma submits_simps [simp]:
  "submits [] = 0" "submits (ReplyDone # out) = submits out" "submits (map Emit es @ out) = submits out"
  "submits [SubmitRefresh d] = 1" "submits [ReplyCancel x] = 0" "submits [ReplyOwners y] = 0"
  "submits [Panicked] = 0" "submits [SubmitHealth g] = 0" "submits [RefreshRefused] = 0"
  by (induction es) (simp_all add: submits_def)

lemma refusals_simps [simp]:
  "refusals [] = 0" "refusals (ReplyDone # out) = refusals out" "refusals (map Emit es @ out) = refusals out"
  "refusals [RefreshRefused] = 1"
  by (induction es) (simp_all add: refusals_def)

lemma request_shared_refresh_cases:
  assumes "request_shared_refresh accepted subs gate = (out :: 'g control_output list, gate')"
  obtains (busy) "rg_in_flight gate" "submits out = 0" "gate' = gate\<lparr>rg_dirty := True\<rparr>"
  | (unwanted) "\<not> rg_in_flight gate" "submits out = 0" "gate' = gate"
      "\<not> demand_any (required_shared_payloads subs)"
  | (queued) "accepted" "\<not> rg_in_flight gate" "submits out = 1" "gate' = gate\<lparr>rg_in_flight := True\<rparr>"
  | (refused) "\<not> accepted" "\<not> rg_in_flight gate" "submits out = 0" "refusals out = 1" "gate' = gate"
proof -
  have "\<not> demand_any (required_shared_payloads [])"
    by (simp add: demand_any_def required_shared_payloads_def any_watches_def)
  with assms that show ?thesis
    by (auto simp: request_shared_refresh_def gate_invalidate_def submit_shared_refresh_def
        gate_started_def Let_def split: if_splits)
qed

lemma submits_Emit [simp]: "submits (Emit e # out) = submits out"
  by (simp add: submits_def)

lemma submits_external [simp]:
  "submits (fst (emit_external_to_subscribers subs s rid e d c n eo fb :: 'g control_output list \<times> _)) = 0"
proof (induction subs arbitrary: eo fb)
  case (Cons x subs)
  obtain sid sub where "x = (sid, sub)" by (cases x)
  with Cons.IH show ?case by (simp add: case_prod_unfold Let_def split: option.splits)
qed simp

lemma any_watches_retain: "any_watches (hm_retain P subs) s \<Longrightarrow> any_watches subs s"
  by (auto simp: any_watches_def hm_retain_def list_ex_iff)

lemma any_watches_remove: "any_watches (hm_remove k subs) s \<Longrightarrow> any_watches subs s"
  using hm_remove_subset [of k subs] by (auto simp: any_watches_def list_ex_iff)

lemma emit_changes_frame:
  "emit_changes closing fresh p sub = (es, sub') \<Longrightarrow>
     sub_id sub' = sub_id sub \<and> sub_owner sub' = sub_owner sub \<and> sub_streams sub' = sub_streams sub
     \<and> (sub_closed sub \<longrightarrow> sub_closed sub')"
  by (auto simp: emit_changes_def Let_def split: prod.splits if_splits option.splits)

lemma any_watches_emit:
  "emit_changes_all closing fresh p subs = (es, subs') \<Longrightarrow> any_watches subs' s \<Longrightarrow> any_watches subs s"
proof (induction subs arbitrary: es subs')
  case Nil
  then show ?case by (simp add: any_watches_def)
next
  case (Cons x subs)
  obtain sid sub where x: "x = (sid, sub)" by (cases x)
  obtain e sub' where e: "emit_changes (closing sid) (fresh sid) p sub = (e, sub')" by fastforce
  obtain es0 subs0 where r: "emit_changes_all closing fresh p subs = (es0, subs0)" by fastforce
  from Cons.prems x e r have subs': "subs' = (sid, sub') # subs0" by simp
  have "watches s sub' \<Longrightarrow> watches s sub" using emit_changes_frame [OF e] by (auto simp: watches_def)
  with Cons.IH [OF r] Cons.prems(2) show ?case unfolding subs' x by (auto simp: any_watches_def)
qed

lemma demand_mono:
  "(\<And>s. any_watches subs s \<Longrightarrow> any_watches subs' s) \<Longrightarrow>
   demand_any (required_shared_payloads subs) \<Longrightarrow> demand_any (required_shared_payloads subs')"
  by (auto simp: demand_any_def required_shared_payloads_def)

lemma wanted_mono:
  "(\<And>s. any_watches (subscriptions_of st) s \<Longrightarrow> any_watches (subscriptions_of st') s) \<Longrightarrow>
   wanted st \<Longrightarrow> wanted st'"
  unfolding wanted_def by (rule demand_mono)

lemma handle_quiet:
  assumes "receive_control env (c :: 'g control) st = (out, st')"
    and "\<And>sub. c \<noteq> Subscribe sub" "\<And>p. c \<noteq> Refreshed p"
  shows "submits out = 0 \<and> refresh st' = refresh st \<and> (wanted st' \<longrightarrow> wanted st) \<and>
    (c = NetworkChanged \<longrightarrow> network_change_deadline st' \<noteq> None) \<and>
    (network_change_deadline st \<noteq> None \<longrightarrow> network_change_deadline st' \<noteq> None)"
proof (cases c)
  case (CancelSubscription sid owner task_found)
  with assms(1) show ?thesis
    by (auto simp: receive_control_def remove_subscription_def Let_def
        dest!: any_watches_remove elim!: wanted_mono [rotated] split: if_splits)
next
  case (DropOwnerOf owner)
  with assms(1) show ?thesis
    by (auto simp: receive_control_def drop_subscriptions_for_owner_def
        dest!: any_watches_retain elim!: wanted_mono [rotated])
next
  case (ExternalEvent s rid event data)
  obtain out0 fb where e: "emit_external_to_subscribers (subscriptions_of st) s rid event data
      (connecting_of env) (now_of env) [] (feedback_of st) = (out0 :: 'g control_output list, fb)"
    by fastforce
  then have "submits out0 = 0" by (metis fst_conv submits_external)
  with ExternalEvent assms(1) e show ?thesis by (auto simp: receive_control_def wanted_def)
next
  case Shutdown
  with assms(1) show ?thesis
    by (auto simp: receive_control_def wanted_def demand_any_def required_shared_payloads_def any_watches_def)
qed (use assms in \<open>auto simp: receive_control_def publish_health_signal_def wanted_def split: option.splits if_splits\<close>)

lemma refresh_step_inv:
  assumes st: "refresh_step ty s t" and inv: "refresh_inv s"
  shows "refresh_inv t"
  using st
proof cases
  case (mail c env out st)
  show ?thesis
  proof (cases "\<exists>sub. c = Subscribe sub")
    case True
    then obtain sub where c: "c = Subscribe sub" by blast
    let ?subs = "hm_insert (sub_id sub) sub (subscriptions_of (actor s))"
    obtain o2 gate where r: "request_shared_refresh (accepts env) ?subs (refresh (actor s)) = (o2 :: 'a control_output list, gate)"
      by fastforce
    with mail c have out: "out = ReplyDone # o2"
      and st: "st = (actor s)\<lparr>subscriptions_of := ?subs, refresh := gate\<rparr>"
      by (auto simp: receive_control_def add_subscription_def Let_def)
    from r show ?thesis
      by (cases rule: request_shared_refresh_cases)
        (use inv in \<open>auto simp: mail(1) out st refresh_inv_def wanted_def\<close>)
  next
    case False
    with mail handle_quiet [OF mail(3)] inv show ?thesis
      unfolding refresh_inv_def mail(1) by (auto simp: raises_debt_def split: control.splits)
  qed
next
  case (report env p out st)
  obtain es subs where e: "emit_changes_all (closing_of env) (fresh_of env) p (subscriptions_of (actor s)) = (es, subs)"
    by fastforce
  have mono: "demand_any (required_shared_payloads subs) \<Longrightarrow> wanted (actor s)"
    unfolding wanted_def using demand_mono any_watches_emit [OF e] by blast
  let ?gate = "(refresh (actor s))\<lparr>rg_in_flight := False, rg_dirty := False\<rparr>"
  show ?thesis
  proof (cases "rg_dirty (refresh (actor s))")
    case True
    obtain o2 gate where r: "request_shared_refresh (accepts env) subs ?gate = (o2 :: 'a control_output list, gate)"
      by fastforce
    with report e True have out: "out = map Emit es @ o2"
      and st: "st = (actor s)\<lparr>subscriptions_of := subs, refresh := gate\<rparr>"
      by (auto simp: receive_control_def complete_shared_refresh_def gate_complete_def Let_def)
    from r show ?thesis
      by (cases rule: request_shared_refresh_cases)
        (use inv True in \<open>auto simp: report(1) out st refresh_inv_def wanted_def\<close>)
  next
    case False
    with report e have out: "out = map Emit es @ []"
      and st: "st = (actor s)\<lparr>subscriptions_of := subs, refresh := ?gate\<rparr>"
      by (auto simp: receive_control_def complete_shared_refresh_def gate_complete_def Let_def)
    have "submits out = 0" unfolding out submits_simps ..
    with inv False mono report(2) show ?thesis
      by (auto simp: report(1) st refresh_inv_def wanted_def split: if_splits)
  qed
next
  case (deadline env out st)
  obtain o2 gate where r: "request_shared_refresh (accepts env) (subscriptions_of (actor s)) (refresh (actor s)) =
      (o2 :: 'a control_output list, gate)" by fastforce
  with deadline have out: "out = o2" and st: "st = (actor s)\<lparr>network_change_deadline := None, refresh := gate\<rparr>"
    by (auto simp: deadline_fires_def Let_def)
  from r show ?thesis
    by (cases rule: request_shared_refresh_cases)
      (use inv in \<open>auto simp: deadline(1) out st refresh_inv_def wanted_def\<close>)
qed

lemma marked_refresh_repeats:
  assumes "rg_dirty (refresh st)" "accepts env"
    and "wanted (snd (receive_control env (Refreshed p :: 'g control) st))"
  shows "submits (fst (receive_control env (Refreshed p :: 'g control) st)) = 1"
proof -
  obtain es subs where e: "emit_changes_all (closing_of env) (fresh_of env) p (subscriptions_of st) = (es, subs)"
    by fastforce
  obtain o2 gate where r: "request_shared_refresh (accepts env) subs
      ((refresh st)\<lparr>rg_in_flight := False, rg_dirty := False\<rparr>) = (o2 :: 'g control_output list, gate)" by fastforce
  have out: "receive_control env (Refreshed p :: 'g control) st =
      (map Emit es @ o2, st\<lparr>subscriptions_of := subs, refresh := gate\<rparr>)"
    using e r assms(1) by (simp add: receive_control_def complete_shared_refresh_def gate_complete_def)
  with assms(3) have "demand_any (required_shared_payloads subs)" by (simp add: wanted_def)
  with r assms(2) have "submits o2 = 1" by (cases rule: request_shared_refresh_cases) auto
  with out show ?thesis by simp
qed

lemma refresh_reachable_inv: "refresh_reachable ty s \<Longrightarrow> refresh_inv s"
proof (induction rule: refresh_reachable.induct)
  case start
  then show ?case by (simp add: refresh_inv_def control_default_def gate_default_def)
next
  case (step s t)
  then show ?case using refresh_step_inv by blast
qed


text \<open>
  C9. The actor keeps at most one refresh in flight, and a refresh that is owed is not forgotten. Let the
  network have changed, or a subscriber have arrived, after the last refresh was queued, and let somebody
  still watch a shared payload. Then the debounce deadline is set, or the refresh in flight is marked
  to be repeated, unless the full work queue has refused a refresh since; such a refusal is only
  logged. Every further change of the network sets the deadline again, whatever was refused before, and when
  the deadline fires with no refresh in flight, or the marked refresh reports, a new one is queued
  if the queue accepts it and somebody still watches.
\<close>

theorem refresh_never_forgotten:
  assumes "refresh_reachable TYPE('g) s"
  shows "jobs s \<le> 1 \<and> (jobs s = 1 \<longleftrightarrow> rg_in_flight (refresh (actor s))) \<and>
    (owed s \<and> wanted (actor s) \<longrightarrow> refused s \<or> network_change_deadline (actor s) \<noteq> None \<or>
       (jobs s = 1 \<and> rg_dirty (refresh (actor s)))) \<and>
    network_change_deadline (snd (receive_control env (NetworkChanged :: 'g control) (actor s))) \<noteq> None \<and>
    (wanted (actor s) \<and> accepts env \<and> jobs s = 0 \<longrightarrow>
       submits (fst (deadline_fires env (actor s) :: 'g control_output list \<times> _)) = 1) \<and>
    (rg_dirty (refresh (actor s)) \<and> accepts env \<and>
       wanted (snd (receive_control env (Refreshed p :: 'g control) (actor s))) \<longrightarrow>
       submits (fst (receive_control env (Refreshed p :: 'g control) (actor s))) = 1)"
proof -
  note inv = refresh_reachable_inv [OF assms, unfolded refresh_inv_def]
  have "submits (fst (deadline_fires env (actor s) :: 'g control_output list \<times> _)) = 1"
    if w: "wanted (actor s)" "accepts env" "jobs s = 0"
  proof -
    obtain o2 gate where r: "request_shared_refresh (accepts env) (subscriptions_of (actor s)) (refresh (actor s)) =
        (o2 :: 'g control_output list, gate)" by fastforce
    have d: "fst (deadline_fires env (actor s)) = o2" using r by (simp add: deadline_fires_def)
    from r have "submits o2 = 1"
      by (cases rule: request_shared_refresh_cases)
        (use inv w in \<open>auto simp: wanted_def split: if_splits\<close>)
    with d show ?thesis by simp
  qed
  moreover have "submits (fst (receive_control env (Refreshed p :: 'g control) (actor s))) = 1"
    if w: "rg_dirty (refresh (actor s))" "accepts env"
      "wanted (snd (receive_control env (Refreshed p :: 'g control) (actor s)))"
    by (rule marked_refresh_repeats [OF w])
  moreover have "network_change_deadline (snd (receive_control env (NetworkChanged :: 'g control) (actor s))) \<noteq> None"
    by (auto simp: receive_control_def split: option.splits)
  ultimately show ?thesis using inv by (auto split: if_splits)
qed

definition quiet_env :: actor_env where
  "quiet_env = \<lparr>accepts = True, closing_of = \<lambda>_. False, fresh_of = \<lambda>_. ''e'',
     connecting_of = \<lambda>_. False, now_of = 0\<rparr>"

theorem refresh_never_forgotten_witness:
  "\<exists>s. refresh_reachable TYPE(nat) s \<and> owed s \<and> wanted (actor s) \<and> jobs s = 1 \<and>
     (network_change_deadline (actor s) \<noteq> None \<or> rg_dirty (refresh (actor s)))"
proof -
  let ?sub = "subscription_new ''e'' ''sub-1'' (Some ''owner'') [S_WifiStatus]"
  let ?s0 = "\<lparr>actor = control_default, jobs = 0, owed = False, refused = False\<rparr>"
  let ?a1 = "snd (receive_control quiet_env (Subscribe ?sub :: nat control) control_default)"
  let ?a2 = "snd (receive_control quiet_env (NetworkChanged :: nat control) ?a1)"
  let ?s1 = "\<lparr>actor = ?a1, jobs = 1, owed = False, refused = False\<rparr>"
  let ?s2 = "\<lparr>actor = ?a2, jobs = 1, owed = True, refused = False\<rparr>"
  note ev = receive_control_def add_subscription_def request_shared_refresh_def gate_invalidate_def
    submit_shared_refresh_def control_default_def gate_default_def quiet_env_def subscription_new_def
    required_shared_payloads_def demand_any_def any_watches_def watches_def gate_started_def Let_def
  have "refresh_step TYPE(nat) ?s0 ?s1"
    using refresh_step.mail [of "Subscribe ?sub" quiet_env ?s0 "fst (receive_control quiet_env (Subscribe ?sub :: nat control) control_default)" ?a1]
    by (simp add: ev submits_def raises_debt_def)
  moreover have "refresh_step TYPE(nat) ?s1 ?s2"
    using refresh_step.mail [of "NetworkChanged" quiet_env ?s1 "[] :: nat control_output list" ?a2]
    by (simp add: ev raises_debt_def)
  ultimately have r: "refresh_reachable TYPE(nat) ?s2"
    by (meson refresh_reachable.start refresh_reachable.step)
  have "wanted ?a2" by (simp add: ev wanted_def)
  with refresh_never_forgotten [OF r] have
    "network_change_deadline ?a2 \<noteq> None \<or> rg_dirty (refresh ?a2)" by auto
  with r \<open>wanted ?a2\<close> show ?thesis by (intro exI [of _ ?s2]) simp
qed

section \<open>Fan-out\<close>

definition emitted_data :: "'g control_output \<Rightarrow> json option" where
  "emitted_data x = (case x of Emit (Emitted s c e d) \<Rightarrow> Some d | _ \<Rightarrow> None)"

lemma subscriber_owners_iff:
  "owner \<in> set (subscriber_owners s subs) \<longleftrightarrow> (\<exists>(sid, sub) \<in> set subs. watches s sub \<and> sub_owner sub = Some owner)"
proof -
  have "owner \<in> set (subscriber_owners s subs) \<longleftrightarrow>
      (\<exists>x \<in> set subs. (case x of (_, sub) \<Rightarrow> if watches s sub then sub_owner sub else None) = Some owner)"
    by (simp add: subscriber_owners_def in_map_filter)
  also have "\<dots> \<longleftrightarrow> (\<exists>(sid, sub) \<in> set subs. watches s sub \<and> sub_owner sub = Some owner)"
    by (rule bex_cong) (auto split: if_splits)
  finally show ?thesis .
qed

lemma emit_external_plain:
  assumes "s \<noteq> S_NetworkHealth"
  shows "emit_external_to_subscribers subs s rid e d connecting now eo fb =
    (replicate (card (set (subscriber_owners s subs) - set eo)) (Emit (Emitted s (CorrRequest rid) e d)), fb)"
proof (induction subs arbitrary: eo)
  case Nil
  then show ?case by (simp add: subscriber_owners_def List.map_filter_def)
next
  case (Cons x subs)
  obtain sid sub where x: "x = (sid, sub)" by (cases x)
  have owners: "set (subscriber_owners s (x # subs)) =
      (case sub_owner sub of Some w \<Rightarrow> if watches s sub then insert w (set (subscriber_owners s subs))
         else set (subscriber_owners s subs) | None \<Rightarrow> set (subscriber_owners s subs))"
    by (auto simp: x subscriber_owners_def map_filter_Cons split: option.splits if_splits)
  show ?case
  proof (cases "\<exists>w. sub_owner sub = Some w \<and> watches s sub \<and> w \<notin> set eo")
    case True
    then obtain w where w: "sub_owner sub = Some w" "watches s sub" "w \<notin> set eo" by blast
    have "insert w (set (subscriber_owners s subs)) - set eo =
        insert w (set (subscriber_owners s subs) - set (w # eo))" using w by auto
    then have "card (set (subscriber_owners s (x # subs)) - set eo) =
        Suc (card (set (subscriber_owners s subs) - set (w # eo)))"
      using w owners by simp
    with Cons.IH [of "w # eo"] w show ?thesis
      by (simp add: x projected_for_def assms)
  next
    case False
    then have "set (subscriber_owners s (x # subs)) - set eo = set (subscriber_owners s subs) - set eo"
      using owners by (auto split: option.splits if_splits)
    with Cons.IH [of eo] False show ?thesis by (auto simp: x split: option.splits)
  qed
qed


lemma project_health_object: "\<exists>d. fst (project_health owner (JObj m) connecting now fb) = Some d"
proof (cases "recommendable (JObj m)")
  case True
  show ?thesis
    by (rule project_health_recommendable [OF True, of owner connecting now fb]) (auto split: if_splits)
next
  case False
  then show ?thesis
    by (auto simp: project_health_def index_mut_def recommendable_def health_of_def jindex_def
        split: option.splits)
qed

lemma projected_object:
  obtains d fb' where "projected_for s owner (JObj m) connecting now fb = (Some d, fb')"
proof (cases "s = S_NetworkHealth")
  case True
  with project_health_object [of owner m "connecting owner" now fb] that show ?thesis
    by (cases "project_health owner (JObj m) (connecting owner) now fb") (auto simp: projected_for_def)
next
  case False
  with that show ?thesis by (simp add: projected_for_def)
qed

lemma emit_external_count:
  "length (fst (emit_external_to_subscribers subs s rid e (JObj m) connecting now eo fb :: 'g control_output list \<times> _))
     = card (set (subscriber_owners s subs) - set eo) \<and>
   (\<forall>x \<in> set (fst (emit_external_to_subscribers subs s rid e (JObj m) connecting now eo fb :: 'g control_output list \<times> _)).
      \<exists>d. x = Emit (Emitted s (CorrRequest rid) e d))"
proof (induction subs arbitrary: eo fb)
  case Nil
  then show ?case by (simp add: subscriber_owners_def List.map_filter_def)
next
  case (Cons x subs)
  obtain sid sub where x: "x = (sid, sub)" by (cases x)
  have owners: "set (subscriber_owners s (x # subs)) =
      (case sub_owner sub of Some w \<Rightarrow> if watches s sub then insert w (set (subscriber_owners s subs))
         else set (subscriber_owners s subs) | None \<Rightarrow> set (subscriber_owners s subs))"
    by (auto simp: x subscriber_owners_def map_filter_Cons split: option.splits if_splits)
  show ?case
  proof (cases "\<exists>w. sub_owner sub = Some w \<and> watches s sub \<and> w \<notin> set eo")
    case True
    then obtain w where w: "sub_owner sub = Some w" "watches s sub" "w \<notin> set eo" by blast
    obtain d fb' where d: "projected_for s w (JObj m) connecting now fb = (Some d, fb')"
      by (rule projected_object)
    have "insert w (set (subscriber_owners s subs)) - set eo =
        insert w (set (subscriber_owners s subs) - set (w # eo))" using w by auto
    then have "card (set (subscriber_owners s (x # subs)) - set eo) =
        Suc (card (set (subscriber_owners s subs) - set (w # eo)))"
      using w owners by simp
    with Cons.IH [of "w # eo" fb'] w d show ?thesis
      by (simp add: x case_prod_unfold Let_def)
  next
    case False
    then have "set (subscriber_owners s (x # subs)) - set eo = set (subscriber_owners s subs) - set eo"
      using owners by (auto split: option.splits if_splits)
    with Cons.IH [of eo fb] False show ?thesis by (auto simp: x split: option.splits)
  qed
qed

text \<open>
  An external event reaches every client exactly once: as many events are emitted as there are
  distinct owners with an open subscription to the stream, whatever number of subscriptions each
  has, all on that stream and correlated with the request; outside the health stream each carries
  the event's data unchanged.
\<close>

theorem external_event_fan_out:
  assumes "handle_control env (ExternalEvent s rid event (JObj m)) st = (out :: 'g control_output list, st')"
  shows "length out = card {owner. \<exists>(sid, sub) \<in> set (subscriptions_of st).
      watches s sub \<and> sub_owner sub = Some owner} \<and>
    (\<forall>x \<in> set out. \<exists>d. x = Emit (Emitted s (CorrRequest rid) event d) \<and> (s \<noteq> S_NetworkHealth \<longrightarrow> d = JObj m))"
proof -
  have owners: "set (subscriber_owners s (subscriptions_of st)) =
      {owner. \<exists>(sid, sub) \<in> set (subscriptions_of st). watches s sub \<and> sub_owner sub = Some owner}"
    using subscriber_owners_iff by blast
  let ?e = "emit_external_to_subscribers (subscriptions_of st) s rid event (JObj m) (connecting_of env)
    (now_of env) [] (feedback_of st) :: 'g control_output list \<times> _"
  from assms have out: "out = fst ?e" by (auto split: prod.splits)
  note c = emit_external_count [where 'g = 'g, of "subscriptions_of st" s rid event m "connecting_of env"
      "now_of env" "[]" "feedback_of st", folded out]
  have "s \<noteq> S_NetworkHealth \<Longrightarrow> \<forall>x \<in> set out. x = Emit (Emitted s (CorrRequest rid) event (JObj m))"
    unfolding out by (simp add: emit_external_plain)
  with c have "\<forall>x \<in> set out. \<exists>d. x = Emit (Emitted s (CorrRequest rid) event d) \<and>
      (s \<noteq> S_NetworkHealth \<longrightarrow> d = JObj m)" by blast
  with c owners show ?thesis by simp
qed

theorem external_event_fan_out_witness:
  "length (fst (handle_control quiet_env (ExternalEvent S_WifiSecret ''r'' ''requested'' (JObj []))
      (control_default\<lparr>subscriptions_of :=
         [(''a'', subscription_new ''e'' ''a'' (Some ''o'') [S_WifiSecret]),
          (''b'', subscription_new ''e'' ''b'' (Some ''o'') [S_WifiSecret])]\<rparr>)
      :: nat control_output list \<times> _)) = 1"
proof -
  let ?st = "control_default\<lparr>subscriptions_of :=
         [(''a'', subscription_new ''e'' ''a'' (Some ''o'') [S_WifiSecret]),
          (''b'', subscription_new ''e'' ''b'' (Some ''o'') [S_WifiSecret])]\<rparr>"
  let ?r = "handle_control quiet_env (ExternalEvent S_WifiSecret ''r'' ''requested'' (JObj [])) ?st
    :: nat control_output list \<times> control_state"
  have "{owner. \<exists>(sid, sub) \<in> set (subscriptions_of ?st). watches S_WifiSecret sub \<and> sub_owner sub = Some owner} = {''o''}"
    by (auto simp: subscription_new_def watches_def)
  with external_event_fan_out [of quiet_env S_WifiSecret "''r''" "''requested''" "[]" ?st "fst ?r" "snd ?r"]
  show ?thesis by simp
qed

section \<open>Ownership\<close>

abbreviation sub_owned :: "subscriptions \<Rightarrow> string \<Rightarrow> (string option \<times> subscription_state) option" where
  "sub_owned subs sid \<equiv> map_option (\<lambda>sub. (sub_owner sub, sub)) (map_of subs sid)"

interpretation subs: owner_scoped sub_owned drop_subscriptions_for_owner hm_wf
  by unfold_locales
    (auto simp: drop_subscriptions_for_owner_def map_of_hm_retain hm_wf_retain split: option.splits)

lemma emit_changes_all_keys:
  "map fst (snd (emit_changes_all closing fresh p subs)) = map fst subs"
  by (induction subs) (auto simp: case_prod_unfold Let_def)

lemma receive_control_wf:
  assumes "hm_wf (subscriptions_of st)"
  shows "hm_wf (subscriptions_of (snd (receive_control env (c :: 'g control) st)))"
proof (cases c)
  case (Refreshed p)
  have "map fst (subscriptions_of (snd (receive_control env c st))) = map fst (subscriptions_of st)"
    by (simp add: Refreshed receive_control_def complete_shared_refresh_def case_prod_unfold Let_def
        emit_changes_all_keys)
  with assms show ?thesis by (simp add: hm_wf_def)
qed (use assms in \<open>auto simp: receive_control_def add_subscription_def remove_subscription_def Let_def
      drop_subscriptions_for_owner_def hm_wf_update hm_wf_delete hm_wf_retain case_prod_unfold
      split: prod.splits\<close>)

text \<open>
  Subscriptions are private to their owner: a client that disconnects loses all its
  subscriptions and its notification history and nobody else loses anything; cancelling a
  subscription succeeds exactly for its owner and otherwise changes nothing; and every control
  keeps the subscription table well-formed.
\<close>

theorem subscription_ownership:
  assumes "hm_wf (subscriptions_of st)"
  shows "map_of (subscriptions_of (snd (receive_control env (DropOwnerOf owner :: 'g control) st))) sid =
      (case map_of (subscriptions_of st) sid of
         None \<Rightarrow> None | Some sub \<Rightarrow> if sub_owner sub = Some owner then None else Some sub) \<and>
    map_of (feedback_of (snd (receive_control env (DropOwnerOf owner :: 'g control) st))) =
      (map_of (feedback_of st))(owner := None) \<and>
    receive_control env (CancelSubscription sid who task :: 'g control) st =
      (if \<exists>sub. map_of (subscriptions_of st) sid = Some sub \<and> sub_owner sub = who
       then ([ReplyCancel \<lparr>co_task = task, co_subscription = True\<rparr>],
             st\<lparr>subscriptions_of := hm_remove sid (subscriptions_of st)\<rparr>)
       else ([ReplyCancel \<lparr>co_task = task, co_subscription = False\<rparr>], st)) \<and>
    hm_wf (subscriptions_of (snd (receive_control env (c :: 'g control) st)))"
proof (intro conjI)
  show "map_of (subscriptions_of (snd (receive_control env (DropOwnerOf owner :: 'g control) st))) sid =
      (case map_of (subscriptions_of st) sid of
         None \<Rightarrow> None | Some sub \<Rightarrow> if sub_owner sub = Some owner then None else Some sub)"
    using subs.drop_exact [OF assms, of owner sid]
    by (auto simp: receive_control_def split: option.splits if_splits)
  show "hm_wf (subscriptions_of (snd (receive_control env c st)))" by (rule receive_control_wf [OF assms])
qed (auto simp: receive_control_def feedback_drop_owner_def delete_conv' remove_subscription_def Let_def
    split: option.splits)

theorem subscription_ownership_witness:
  "receive_control quiet_env (CancelSubscription ''a'' (Some ''intruder'') False :: nat control)
     (control_default\<lparr>subscriptions_of := [(''a'', subscription_new ''e'' ''a'' (Some ''o'') [S_Vpn])]\<rparr>) =
   ([ReplyCancel \<lparr>co_task = False, co_subscription = False\<rparr>],
    control_default\<lparr>subscriptions_of := [(''a'', subscription_new ''e'' ''a'' (Some ''o'') [S_Vpn])]\<rparr>)"
  using subscription_ownership [of "control_default\<lparr>subscriptions_of :=
      [(''a'', subscription_new ''e'' ''a'' (Some ''o'') [S_Vpn])]\<rparr>" quiet_env "''o''" "''a''"
      "Some ''intruder''" False "NetworkChanged :: nat control"]
  by (simp add: hm_wf_def subscription_new_def)

text \<open>The event a payload stream owes a subscription, and what the subscription remembers.\<close>

definition news :: "subscription_state \<Rightarrow> stream \<Rightarrow> string \<Rightarrow> json option \<Rightarrow> json option \<Rightarrow> emitted list" where
  "news sub s key delivered value =
     (case value of
        Some v \<Rightarrow> if s \<in> set (sub_streams sub) \<and> delivered \<noteq> Some v
          then [Emitted s (CorrSubscription (sub_id sub)) ''changed'' (JObj [(key, v)])] else []
      | None \<Rightarrow> [])"

definition remembered :: "subscription_state \<Rightarrow> stream \<Rightarrow> json option \<Rightarrow> json option \<Rightarrow> json option" where
  "remembered sub s delivered value = (if s \<in> set (sub_streams sub) \<and> value \<noteq> None then value else delivered)"

definition networks_differ :: "network_updates \<Rightarrow> json \<Rightarrow> bool" where
  "networks_differ u v \<longleftrightarrow> nu_last u = None \<or>
     added_networks (previous_networks (nu_last u)) (networks_of v) \<noteq> [] \<or>
     added_networks (networks_of v) (previous_networks (nu_last u)) \<noteq> [] \<or>
     changed_networks (previous_networks (nu_last u)) (networks_of v) \<noteq> []"

lemma emit_stream_news:
  "emit_stream sub s m delivered value =
     (news sub s (ms_response_key (method_spec_of m)) delivered value, remembered sub s delivered value)"
  by (auto simp: emit_stream_def emit_on_change_def news_def remembered_def split: option.splits)

lemma emit_network_news:
  assumes "payload_wf v" and "emit_network_changes fresh sid u v = (es, u')"
  shows "if networks_differ (renewed fresh u) v
    then nu_last u' = Some v \<and> (\<exists>d. es = [Emitted S_WifiNetworks (CorrSubscription sid) ''changed'' d] \<and>
       delta_of (renewed fresh u) (networks_of v) d)
    else es = [] \<and> u' = renewed fresh u"
proof -
  obtain r w where pr: "project fresh v u = (r, w)" by fastforce
  have differ: "networks_differ (renewed fresh u) v \<longleftrightarrow> network_delta (nu_last (renewed fresh u)) v \<noteq> None"
    using network_delta_None [OF assms(1)] by (auto simp: networks_differ_def)
  have r: "r \<noteq> None \<longleftrightarrow> network_delta (nu_last (renewed fresh u)) v \<noteq> None"
    using pr by (auto simp: project_def renewed_def Let_def split: option.splits)
  from assms(1) pr show ?thesis
    by (cases rule: project_cases) (use assms(2) pr differ r in \<open>auto simp: emit_network_changes_def\<close>)
qed

text \<open>
  C33. A refresh delivers to an open subscription exactly the news it asked for. For each of the status,
  connectivity and inventory streams that it subscribed to there is one event, under its own id,
  exactly when the refreshed payload differs from the one delivered last, carrying that payload,
  which is then remembered; a payload the refresh does not have leaves what is remembered. For the
  network list, provided the subscription did not close meanwhile, there is one event exactly when
  no list has been delivered in this epoch or a network was added, removed or changed since, and it
  carries exactly these networks with the cursor of the subscription. There are no other events, and
  every event's name is registered for its stream.
\<close>

theorem refresh_delivers_changes:
  assumes "emit_changes closing fresh p sub = (es, sub')" and "\<not> sub_closed sub"
    and "\<And>v. sp_networks p = Some v \<Longrightarrow> payload_wf v"
  shows "\<exists>nets.
    es = news sub S_WifiStatus ''status'' (sp_status (sub_last sub)) (sp_status p) @
      news sub S_NetworkConnectivity ''connectivity'' (sp_connectivity (sub_last sub)) (sp_connectivity p) @
      news sub S_NetworkInventory ''inventory'' (sp_inventory (sub_last sub)) (sp_inventory p) @ nets \<and>
    sp_status (sub_last sub') = remembered sub S_WifiStatus (sp_status (sub_last sub)) (sp_status p) \<and>
    sp_connectivity (sub_last sub') =
      remembered sub S_NetworkConnectivity (sp_connectivity (sub_last sub)) (sp_connectivity p) \<and>
    sp_inventory (sub_last sub') = remembered sub S_NetworkInventory (sp_inventory (sub_last sub)) (sp_inventory p) \<and>
    (case sp_networks p of
       Some v \<Rightarrow>
         if \<not> closing \<and> S_WifiNetworks \<in> set (sub_streams sub) \<and> networks_differ (renewed fresh (sub_networks sub)) v
         then nu_last (sub_networks sub') = Some v \<and>
           (\<exists>d. nets = [Emitted S_WifiNetworks (CorrSubscription (sub_id sub)) ''changed'' d] \<and>
              delta_of (renewed fresh (sub_networks sub)) (networks_of v) d)
         else nets = []
     | None \<Rightarrow> nets = []) \<and>
    (\<forall>s c e d. Emitted s c e d \<in> set es \<longrightarrow> e \<in> set (ss_events (stream_spec_of s)))"
proof -
  have reg: "''changed'' \<in> set (ss_events (stream_spec_of S_WifiStatus))"
    "''changed'' \<in> set (ss_events (stream_spec_of S_NetworkConnectivity))"
    "''changed'' \<in> set (ss_events (stream_spec_of S_NetworkInventory))"
    "''changed'' \<in> set (ss_events (stream_spec_of S_WifiNetworks))"
    by (simp_all add: stream_spec_of_def registry_defs)
  have keys: "ms_response_key (method_spec_of M_WifiStatus) = ''status''"
    "ms_response_key (method_spec_of M_NetworkConnectivity) = ''connectivity''"
    "ms_response_key (method_spec_of M_NetworkInventory) = ''inventory''"
    by (simp_all add: method_spec_of_def registry_defs)
  let ?e = "news sub S_WifiStatus ''status'' (sp_status (sub_last sub)) (sp_status p) @
      news sub S_NetworkConnectivity ''connectivity'' (sp_connectivity (sub_last sub)) (sp_connectivity p) @
      news sub S_NetworkInventory ''inventory'' (sp_inventory (sub_last sub)) (sp_inventory p)"
  define nets where "nets = (case sp_networks p of
      Some v \<Rightarrow> if \<not> closing \<and> S_WifiNetworks \<in> set (sub_streams sub)
        then fst (emit_network_changes fresh (sub_id sub) (sub_networks sub) v) else [] | None \<Rightarrow> [])"
  have es: "es = ?e @ nets"
    and l: "sp_status (sub_last sub') = remembered sub S_WifiStatus (sp_status (sub_last sub)) (sp_status p)"
      "sp_connectivity (sub_last sub') =
         remembered sub S_NetworkConnectivity (sp_connectivity (sub_last sub)) (sp_connectivity p)"
      "sp_inventory (sub_last sub') = remembered sub S_NetworkInventory (sp_inventory (sub_last sub)) (sp_inventory p)"
    and u: "\<And>v. sp_networks p = Some v \<Longrightarrow> \<not> closing \<Longrightarrow> S_WifiNetworks \<in> set (sub_streams sub) \<Longrightarrow>
        sub_networks sub' = snd (emit_network_changes fresh (sub_id sub) (sub_networks sub) v)"
    using assms(1,2)
    by (auto simp: emit_changes_def Let_def emit_stream_news keys watches_def nets_def
        split: option.splits if_splits prod.splits)
  have n: "case sp_networks p of
       Some v \<Rightarrow>
         if \<not> closing \<and> S_WifiNetworks \<in> set (sub_streams sub) \<and> networks_differ (renewed fresh (sub_networks sub)) v
         then nu_last (sub_networks sub') = Some v \<and>
           (\<exists>d. nets = [Emitted S_WifiNetworks (CorrSubscription (sub_id sub)) ''changed'' d] \<and>
              delta_of (renewed fresh (sub_networks sub)) (networks_of v) d)
         else nets = []
     | None \<Rightarrow> nets = []"
  proof (cases "sp_networks p")
    case (Some v)
    from emit_network_news [OF assms(3) [OF Some] surjective_pairing, of fresh "sub_networks sub" "sub_id sub"]
      u [OF Some] Some
    show ?thesis by (auto simp: nets_def split: if_splits)
  qed (simp add: nets_def)
  have "\<forall>s c e d. Emitted s c e d \<in> set es \<longrightarrow> e \<in> set (ss_events (stream_spec_of s))"
    unfolding es using reg n
    by (auto simp: news_def split: option.splits if_splits)
  with es l n show ?thesis by (intro exI [of _ nets]) simp
qed

theorem refresh_delivers_changes_witness:
  "fst (emit_changes False ''f'' (payloads_default\<lparr>sp_status := Some JNull\<rparr>)
      (subscription_new ''e'' ''sub'' None [S_WifiStatus])) =
    [Emitted S_WifiStatus (CorrSubscription ''sub'') ''changed'' (JObj [(''status'', JNull)])]"
proof -
  let ?p = "payloads_default\<lparr>sp_status := Some JNull\<rparr>"
  let ?sub = "subscription_new ''e'' ''sub'' None [S_WifiStatus]"
  have "\<exists>es sub'. emit_changes False ''f'' ?p ?sub = (es, sub')" by fastforce
  then obtain es sub' where e: "emit_changes False ''f'' ?p ?sub = (es, sub')" by blast
  from refresh_delivers_changes [OF e] show ?thesis
    unfolding e by (auto simp: subscription_new_def payloads_default_def news_def)
qed

end
