(* ===== verification/Tasks.thy ===== *)
theory Tasks
  imports Subscriptions
begin

text \<open>
  The request registry of \<open>src/daemon_runtime.rs\<close>: running tasks, their cancellation, progress and
  terminal results. Every operation below runs under the lock of the task map (and of the results,
  taken after it), so it is one atomic step. A task's cancellation flag is an
  \<open>Arc<AtomicBool>\<close> shared with its registration; \<open>th_token\<close> is the identity of that allocation, on
  which \<open>Arc::ptr_eq\<close> compares. The store of terminal results (\<open>shelllist_daemon_core::RecentResults\<close>)
  is a parameter: its lookup, which may drop expired entries, and its insertion.
\<close>

datatype task_kind = KConnect | KScan | KBand | KStatistics | KHotspot | KVpn

fun kind_stream :: "task_kind \<Rightarrow> stream" where
  "kind_stream KConnect = S_WifiConnect"
| "kind_stream KScan = S_WifiScan"
| "kind_stream KBand = S_WifiBand"
| "kind_stream KStatistics = S_NetworkStatistics"
| "kind_stream KHotspot = S_Hotspot"
| "kind_stream KVpn = S_Vpn"

fun kind_operation :: "task_kind \<Rightarrow> error_operation" where
  "kind_operation KConnect = OpConnect"
| "kind_operation KScan = OpScan"
| "kind_operation KBand = OpBandOperation"
| "kind_operation KStatistics = OpStatistics"
| "kind_operation KHotspot = OpHotspotOperation"
| "kind_operation KVpn = OpVpnOperation"

definition cancel_found :: "cancel_outcome \<Rightarrow> bool" where
  "cancel_found c \<longleftrightarrow> co_task c \<or> co_subscription c"

record task_handle =
  th_destination :: string
  th_started :: instant
  th_progress :: "json option"
  th_revision :: u64
  th_terminal :: bool
  th_timed_out :: bool
  th_kind :: task_kind
  th_owner :: "string option"
  th_target_ssid :: "bytes option"
  th_token :: nat
  th_cancelled :: bool

record cancelled_task =
  ct_destination :: string
  ct_kind :: task_kind
  ct_target_ssid :: "bytes option"

record terminal_result =
  tr_stream :: stream
  tr_event :: json
  tr_revision :: u64

record 'r recent_results =
  rr_get :: "'r \<Rightarrow> string \<Rightarrow> string option \<Rightarrow> terminal_result option \<times> 'r"
  rr_record :: "string \<Rightarrow> string option \<Rightarrow> terminal_result \<Rightarrow> 'r \<Rightarrow> 'r"

type_synonym task_map = "(string, task_handle) hash_map"

record 'r registry =
  tasks :: task_map
  results :: 'r

definition request_cancel :: "task_handle \<Rightarrow> cancelled_task \<times> task_handle" where
  "request_cancel t =
     (\<lparr>ct_destination = th_destination t, ct_kind = th_kind t, ct_target_ssid = th_target_ssid t\<rparr>,
      t\<lparr>th_cancelled := True\<rparr>)"

definition saturating_succ :: "u64 \<Rightarrow> u64" where
  "saturating_succ r = (if r = - 1 then r else r + 1)"

definition register_task ::
    "nat \<Rightarrow> instant \<Rightarrow> string \<Rightarrow> task_kind \<Rightarrow> string option \<Rightarrow> bytes option \<Rightarrow> string \<Rightarrow> 'r registry \<Rightarrow> 'r registry" where
  "register_task token now request_id kind owner target_ssid destination s =
     s\<lparr>tasks := hm_insert request_id
        \<lparr>th_destination = destination, th_started = now, th_progress = None, th_revision = 1,
         th_terminal = False, th_timed_out = False, th_kind = kind, th_owner = owner,
         th_target_ssid = target_ssid, th_token = token, th_cancelled = False\<rparr> (tasks s)\<rparr>"

definition drop_registration :: "string \<Rightarrow> nat \<Rightarrow> 'r registry \<Rightarrow> 'r registry" where
  "drop_registration request_id token s =
     (case hm_get (tasks s) request_id of
        None \<Rightarrow> s
      | Some t \<Rightarrow> if th_token t = token then s\<lparr>tasks := hm_remove request_id (tasks s)\<rparr> else s)"

text \<open>
  \<open>store_terminal_result\<close>, first part: a success of a request whose NetworkManager owner changed
  (\<open>owner_lost\<close>: the owner lookup of the request's connection fails).
\<close>

definition owner_changed :: "(string \<Rightarrow> bool) \<Rightarrow> string \<Rightarrow> json \<Rightarrow> 'r registry \<Rightarrow> bool" where
  "owner_changed owner_lost request_id event s \<longleftrightarrow>
     jindex event ''event'' = JStr ''succeeded'' \<and>
     (case hm_get (tasks s) request_id of None \<Rightarrow> False | Some t \<Rightarrow> owner_lost (th_destination t))"

text \<open>\<open>event[k][j] = v\<close>; \<open>None\<close> when an index panics.\<close>

definition jset2 :: "json \<Rightarrow> string \<Rightarrow> string \<Rightarrow> json \<Rightarrow> json option" where
  "jset2 e k j v = Option.bind (index_mut e k) (\<lambda>(e', x). Option.bind (jset x j v) (jset e' k))"

definition cancelled_event :: "bool \<Rightarrow> json \<Rightarrow> json option" where
  "cancelled_event timed_out event =
     Option.bind (jset event ''event'' (JStr ''cancelled'')) (\<lambda>e1.
     Option.bind (jset2 e1 ''data'' ''phase'' (JStr ''cancelled'')) (\<lambda>e2.
     Option.bind (jset2 e2 ''data'' ''message'' (JStr
        (if timed_out then ''Connection attempt timed out and was cancelled''
         else ''Connection cancelled''))) (\<lambda>e3.
     case jindex e3 ''data'' of
       JObj d \<Rightarrow> jset e3 ''data'' (JObj (jmap_remove ''result'' d))
     | _ \<Rightarrow> Some e3)))"

definition settled_event :: "bool \<Rightarrow> task_handle option \<Rightarrow> json \<Rightarrow> json option" where
  "settled_event changed task event =
     (case task of
        None \<Rightarrow> Some event
      | Some t \<Rightarrow>
          if th_kind t = KConnect \<and> (changed \<or> th_cancelled t)
             \<and> jindex event ''event'' = JStr ''succeeded''
          then cancelled_event (th_timed_out t) event
          else Some event)"

text \<open>The atomic part; the outer \<open>None\<close> is a panic.\<close>

definition store_terminal_result ::
    "'r recent_results \<Rightarrow> string \<Rightarrow> string option \<Rightarrow> stream \<Rightarrow> bool \<Rightarrow> json \<Rightarrow> 'r registry
      \<Rightarrow> json option option \<times> 'r registry" where
  "store_terminal_result R request_id owner s changed event st =
     (let (found, res) = rr_get R (results st) request_id owner;
          st = st\<lparr>results := res\<rparr>
      in case found of
           Some r \<Rightarrow> (Some (Some (tr_event r)), st)
         | None \<Rightarrow>
             (let task = (case hm_get (tasks st) request_id of
                            None \<Rightarrow> None | Some t \<Rightarrow> if th_owner t = owner then Some t else None)
              in if (case task of None \<Rightarrow> False | Some t \<Rightarrow> th_terminal t) then (Some None, st)
                 else case settled_event changed task event of
                        None \<Rightarrow> (None, st)
                      | Some event1 \<Rightarrow>
                          (let (revision, st1) =
                                 (case task of
                                    Some t \<Rightarrow>
                                      if kind_stream (th_kind t) = s
                                      then (let t' = t\<lparr>th_terminal := True,
                                                       th_revision := saturating_succ (th_revision t)\<rparr>
                                            in (th_revision t', st\<lparr>tasks := hm_insert request_id t' (tasks st)\<rparr>))
                                      else (1, st)
                                  | None \<Rightarrow> (1, st))
                           in case jset event1 ''operation_revision'' (JInt (uint revision)) of
                                None \<Rightarrow> (None, st1)
                              | Some event2 \<Rightarrow>
                                  (Some (Some event2),
                                   st1\<lparr>results := rr_record R request_id owner
                                     \<lparr>tr_stream = s, tr_event = event2, tr_revision = revision\<rparr>
                                     (results st1)\<rparr>))))"

definition terminal_request_status ::
    "'r recent_results \<Rightarrow> string \<Rightarrow> string option \<Rightarrow> 'r registry \<Rightarrow> json option \<times> 'r registry" where
  "terminal_request_status R request_id owner st =
     (let (found, res) = rr_get R (results st) request_id owner
      in (map_option (\<lambda>r. JObj (jmap_of
            [(''request_id'', JStr request_id), (''status'', JStr ''finished''),
             (''stream'', JStr (stream_as_str (tr_stream r))), (''event'', tr_event r),
             (''operation_revision'', JInt (uint (tr_revision r)))])) found,
          st\<lparr>results := res\<rparr>))"

definition request_status ::
    "'r recent_results \<Rightarrow> string \<Rightarrow> string option \<Rightarrow> instant \<Rightarrow> 'r registry \<Rightarrow> json \<times> 'r registry" where
  "request_status R request_id owner now st =
     (let (finished, st) = terminal_request_status R request_id owner st
      in (case finished of
            Some status \<Rightarrow> status
          | None \<Rightarrow>
              (let unknown = JObj (jmap_of [(''request_id'', JStr request_id), (''status'', JStr ''unknown'')])
               in case hm_get (tasks st) request_id of
                    None \<Rightarrow> unknown
                  | Some t \<Rightarrow>
                      if th_owner t = owner \<and> \<not> th_terminal t
                      then JObj (jmap_of
                        [(''request_id'', JStr request_id), (''status'', JStr ''running''),
                         (''stream'', JStr (stream_as_str (kind_stream (th_kind t)))),
                         (''elapsed_ms'', JInt (int (as_millis (now - th_started t) mod 2 ^ 64))),
                         (''event'', case th_progress t of None \<Rightarrow> JNull | Some p \<Rightarrow> p),
                         (''operation_revision'', JInt (uint (th_revision t))),
                         (''cancellation_requested'', JBool (th_cancelled t)),
                         (''timed_out'', JBool (th_timed_out t))])
                      else unknown), st))"

definition owner_is_connecting :: "string \<Rightarrow> 'r registry \<Rightarrow> bool" where
  "owner_is_connecting owner st =
     list_ex (\<lambda>(_, t). th_kind t = KConnect \<and> th_owner t = Some owner) (tasks st)"

definition store_connect_progress ::
    "'r recent_results \<Rightarrow> string \<Rightarrow> string option \<Rightarrow> json \<Rightarrow> 'r registry
      \<Rightarrow> json option option \<times> 'r registry" where
  "store_connect_progress R request_id owner event st =
     (case hm_get (tasks st) request_id of
        None \<Rightarrow> (Some None, st)
      | Some t \<Rightarrow>
          if th_owner t = owner \<and> th_kind t = KConnect
          then (let (found, res) = rr_get R (results st) request_id owner;
                    st = st\<lparr>results := res\<rparr>
                in case found of
                     Some r \<Rightarrow> (Some (Some (tr_event r)), st)
                   | None \<Rightarrow>
                       if th_terminal t then (Some None, st)
                       else (let t1 = t\<lparr>th_revision := saturating_succ (th_revision t)\<rparr>
                             in case jset event ''operation_revision'' (JInt (uint (th_revision t1))) of
                                  None \<Rightarrow> (None, st\<lparr>tasks := hm_insert request_id t1 (tasks st)\<rparr>)
                                | Some e \<Rightarrow> (Some (Some e), st\<lparr>tasks := hm_insert request_id
                                    (t1\<lparr>th_progress := Some e\<rparr>) (tasks st)\<rparr>)))
          else (Some None, st))"

text \<open>
  \<open>expire_connect\<close> and \<open>cancel_task\<close> request a cancellation; what they return is the activation
  to abort, the rest of the work is queued.
\<close>

definition expire_connect ::
    "'r recent_results \<Rightarrow> string \<Rightarrow> 'r registry \<Rightarrow> cancelled_task option \<times> 'r registry" where
  "expire_connect R request_id st =
     (case hm_get (tasks st) request_id of
        None \<Rightarrow> (None, st)
      | Some t \<Rightarrow>
          if th_kind t = KConnect \<and> \<not> th_terminal t
          then (let (found, res) = rr_get R (results st) request_id (th_owner t);
                    st = st\<lparr>results := res\<rparr>
                in if found \<noteq> None then (None, st)
                   else (let (ct, t') = request_cancel (t\<lparr>th_timed_out := True\<rparr>)
                         in (Some ct, st\<lparr>tasks := hm_insert request_id t' (tasks st)\<rparr>)))
          else (None, st))"

definition cancel_task ::
    "'r recent_results \<Rightarrow> string \<Rightarrow> string option \<Rightarrow> 'r registry \<Rightarrow> cancelled_task option \<times> 'r registry" where
  "cancel_task R request_id owner st =
     (case hm_get (tasks st) request_id of
        None \<Rightarrow> (None, st)
      | Some t \<Rightarrow>
          if th_owner t = owner \<and> \<not> th_terminal t
          then (let (found, res) = rr_get R (results st) request_id (th_owner t);
                    st = st\<lparr>results := res\<rparr>
                in if found \<noteq> None then (None, st)
                   else (let (ct, t') = request_cancel t
                         in (Some ct, st\<lparr>tasks := hm_insert request_id t' (tasks st)\<rparr>)))
          else (None, st))"

definition abort_target :: "cancelled_task option \<Rightarrow> bytes option" where
  "abort_target task = Option.bind task (\<lambda>t. if ct_kind t = KConnect then ct_target_ssid t else None)"

definition map_tasks :: "(string \<Rightarrow> task_handle \<Rightarrow> task_handle) \<Rightarrow> task_map \<Rightarrow> task_map" where
  "map_tasks f ts = map (\<lambda>(k, t). (k, f k t)) ts"

definition network_manager_owner_changed :: "string option \<Rightarrow> 'r registry \<Rightarrow> 'r registry" where
  "network_manager_owner_changed owner st =
     st\<lparr>tasks := map_tasks (\<lambda>_ t. if Some (th_destination t) \<noteq> owner then t\<lparr>th_cancelled := True\<rparr> else t)
       (tasks st)\<rparr>"

definition shutdown_tasks :: "'r registry \<Rightarrow> 'r registry" where
  "shutdown_tasks st = st\<lparr>tasks := map_tasks (\<lambda>_ t. t\<lparr>th_cancelled := True\<rparr>) (tasks st)\<rparr>"

definition targets_ssid :: "bytes \<Rightarrow> task_handle \<Rightarrow> bool" where
  "targets_ssid ssid t \<longleftrightarrow> th_kind t = KConnect \<and> th_target_ssid t = Some ssid"

definition cancel_connects_for_ssid :: "bytes \<Rightarrow> 'r registry \<Rightarrow> string list \<times> 'r registry" where
  "cancel_connects_for_ssid ssid st =
     (sort (map fst (filter (\<lambda>(_, t). targets_ssid ssid t) (tasks st))),
      st\<lparr>tasks := map_tasks (\<lambda>_ t. if targets_ssid ssid t then t\<lparr>th_cancelled := True\<rparr> else t) (tasks st)\<rparr>)"

definition pending_task_ids :: "task_map \<Rightarrow> string list \<Rightarrow> string list" where
  "pending_task_ids ts request_ids = sort (filter (\<lambda>i. hm_get ts i \<noteq> None) request_ids)"

text \<open>\<open>cancel_tasks_for_owner\<close> visits the tasks in turn, looking every candidate's result up.\<close>

fun cancel_owned ::
    "'r recent_results \<Rightarrow> string \<Rightarrow> task_map \<Rightarrow> 'r \<Rightarrow> (string \<times> cancelled_task) list \<times> task_map \<times> 'r" where
  "cancel_owned R owner [] res = ([], [], res)"
| "cancel_owned R owner ((rid, t) # ts) res =
     (if th_owner t = Some owner \<and> \<not> th_terminal t
      then (let (found, res1) = rr_get R res rid (Some owner)
            in if found = None
               then (let (ct, t') = request_cancel t; (cs, ts', res2) = cancel_owned R owner ts res1
                     in ((rid, ct) # cs, (rid, t') # ts', res2))
               else (let (cs, ts', res2) = cancel_owned R owner ts res1 in (cs, (rid, t) # ts', res2)))
      else (let (cs, ts', res2) = cancel_owned R owner ts res in (cs, (rid, t) # ts', res2)))"

definition cancel_tasks_for_owner ::
    "'r recent_results \<Rightarrow> string \<Rightarrow> 'r registry \<Rightarrow> (string \<times> cancelled_task) list \<times> 'r registry" where
  "cancel_tasks_for_owner R owner st =
     (let (cs, ts, res) = cancel_owned R owner (tasks st) (results st)
      in (cs, st\<lparr>tasks := ts, results := res\<rparr>))"

section \<open>Runs of the registry\<close>

text \<open>
  What the registry relies on of the result store: a lookup returns an entry that is present and
  reports its absence faithfully; lookups and insertions may drop entries but never alter one.
\<close>

definition shrinks :: "('r \<Rightarrow> 'k \<Rightarrow> 'v option) \<Rightarrow> 'r \<Rightarrow> 'r \<Rightarrow> bool" where
  "shrinks entries r r' \<longleftrightarrow> (\<forall>k. entries r' k = entries r k \<or> entries r' k = None)"

definition recent_ok ::
    "'r recent_results \<Rightarrow> ('r \<Rightarrow> string \<times> string option \<Rightarrow> terminal_result option) \<Rightarrow> bool" where
  "recent_ok R entries \<longleftrightarrow>
     (\<forall>r rid ow x r'. rr_get R r rid ow = (x, r') \<longrightarrow> shrinks entries r r' \<and> entries r' (rid, ow) = x) \<and>
     (\<forall>r rid ow v k. entries (rr_record R rid ow v r) k =
        (if k = (rid, ow) then Some v else entries r k) \<or> (k \<noteq> (rid, ow) \<and> entries (rr_record R rid ow v r) k = None))"

text \<open>
  The registry with its past: who registered which request, the terminal events published, and the
  connection requests whose cancellation was acknowledged. Request ids are never reused.
\<close>

record 'r task_system =
  reg :: "'r registry"
  registered :: "(string \<times> string option) list"
  terminals :: "(string \<times> json) list"
  acknowledged :: "string list"

definition ack :: "string \<Rightarrow> cancelled_task option \<Rightarrow> string list \<Rightarrow> string list" where
  "ack rid ct acks = (case ct of
     Some c \<Rightarrow> if ct_kind c = KConnect then rid # acks else acks | None \<Rightarrow> acks)"

inductive task_step ::
    "'r recent_results \<Rightarrow> ('r \<Rightarrow> string \<times> string option \<Rightarrow> terminal_result option)
      \<Rightarrow> 'r task_system \<Rightarrow> 'r task_system \<Rightarrow> bool" for R entries where
  registers: "rid \<notin> fst ` set (registered s) \<Longrightarrow>
     task_step R entries s (s\<lparr>reg := register_task token now rid kind owner ssid dest (reg s),
       registered := (rid, owner) # registered s\<rparr>)"
| finishes: "hm_get (tasks (reg s)) rid = Some t \<Longrightarrow>
     store_terminal_result R rid (th_owner t) (kind_stream (th_kind t)) changed event (reg s) = (x, r) \<Longrightarrow>
     task_step R entries s (s\<lparr>reg := r,
       terminals := (case x of Some (Some e) \<Rightarrow> (rid, e) # terminals s | _ \<Rightarrow> terminals s)\<rparr>)"
| progresses: "store_connect_progress R rid ow event (reg s) = (y, r) \<Longrightarrow>
     task_step R entries s (s\<lparr>reg := r\<rparr>)"
| queries: "request_status R rid ow now (reg s) = (z, r) \<Longrightarrow> task_step R entries s (s\<lparr>reg := r\<rparr>)"
| cancels: "cancel_task R rid ow (reg s) = (ct, r) \<Longrightarrow>
     task_step R entries s (s\<lparr>reg := r, acknowledged := ack rid ct (acknowledged s)\<rparr>)"
| expires: "expire_connect R rid (reg s) = (ct, r) \<Longrightarrow>
     task_step R entries s (s\<lparr>reg := r, acknowledged := ack rid ct (acknowledged s)\<rparr>)"
| disconnects: "cancel_tasks_for_owner R o1 (reg s) = (cs, r) \<Longrightarrow>
     task_step R entries s (s\<lparr>reg := r, acknowledged :=
       map fst (filter (\<lambda>(_, c). ct_kind c = KConnect) cs) @ acknowledged s\<rparr>)"
| forgets: "cancel_connects_for_ssid ssid (reg s) = (ids, r) \<Longrightarrow> task_step R entries s (s\<lparr>reg := r\<rparr>)"
| owner_moves: "task_step R entries s (s\<lparr>reg := network_manager_owner_changed ow (reg s)\<rparr>)"
| shuts_down: "task_step R entries s (s\<lparr>reg := shutdown_tasks (reg s)\<rparr>)"
| unregisters: "task_step R entries s (s\<lparr>reg := drop_registration rid token (reg s)\<rparr>)"
| elapses: "shrinks entries (results (reg s)) r \<Longrightarrow>
     task_step R entries s (s\<lparr>reg := (reg s)\<lparr>results := r\<rparr>\<rparr>)"

inductive task_reachable ::
    "'r recent_results \<Rightarrow> ('r \<Rightarrow> string \<times> string option \<Rightarrow> terminal_result option)
      \<Rightarrow> 'r task_system \<Rightarrow> bool" for R entries where
  start: "(\<And>k. entries r k = None) \<Longrightarrow>
     task_reachable R entries \<lparr>reg = \<lparr>tasks = [], results = r\<rparr>, registered = [], terminals = [], acknowledged = []\<rparr>"
| step: "task_reachable R entries s \<Longrightarrow> task_step R entries s t \<Longrightarrow> task_reachable R entries t"

text \<open>
  The invariant in terms of the lookups only. \<open>frame\<close> is what every operation but registration and
  completion does to a task: it stays the same request, its cancellation and termination are
  never taken back.
\<close>

definition later :: "task_handle \<Rightarrow> task_handle \<Rightarrow> bool" where
  "later t t' \<longleftrightarrow> th_owner t' = th_owner t \<and> th_kind t' = th_kind t \<and> (th_terminal t \<longrightarrow> th_terminal t') \<and>
     (th_cancelled t \<longrightarrow> th_cancelled t')"

definition tasks_later :: "task_map \<Rightarrow> task_map \<Rightarrow> bool" where
  "tasks_later ts ts' \<longleftrightarrow> (hm_wf ts \<longrightarrow> hm_wf ts') \<and> (\<forall>rid t'. map_of ts' rid = Some t' \<longrightarrow> (\<exists>t. map_of ts rid = Some t \<and> later t t'))"

text \<open>What holds of a registered task, of a retained result, and of the past.\<close>

definition task_ok :: "'r task_system \<Rightarrow> string \<Rightarrow> task_handle \<Rightarrow> bool" where
  "task_ok s rid t \<longleftrightarrow> (rid, th_owner t) \<in> set (registered s) \<and>
     (rid \<in> fst ` set (terminals s) \<longrightarrow> th_terminal t) \<and>
     (rid \<in> set (acknowledged s) \<longrightarrow> th_cancelled t \<and> th_kind t = KConnect)"

definition entry_ok :: "'r task_system \<Rightarrow> string \<times> string option \<Rightarrow> terminal_result \<Rightarrow> bool" where
  "entry_ok s k v \<longleftrightarrow> k \<in> set (registered s) \<and> (fst k, tr_event v) \<in> set (terminals s)"

definition past_ok :: "'r task_system \<Rightarrow> bool" where
  "past_ok s \<longleftrightarrow> distinct (map fst (registered s)) \<and> functional (terminals s) \<and>
     fst ` set (terminals s) \<subseteq> fst ` set (registered s) \<and> set (acknowledged s) \<subseteq> fst ` set (registered s) \<and>
     (\<forall>(rid, e) \<in> set (terminals s). rid \<in> set (acknowledged s) \<longrightarrow> jindex e ''event'' \<noteq> JStr ''succeeded'')"

definition task_inv :: "('r \<Rightarrow> string \<times> string option \<Rightarrow> terminal_result option) \<Rightarrow> 'r task_system \<Rightarrow> bool" where
  "task_inv entries s \<longleftrightarrow> past_ok s \<and> hm_wf (tasks (reg s)) \<and>
     (\<forall>rid t. map_of (tasks (reg s)) rid = Some t \<longrightarrow> task_ok s rid t) \<and>
     (\<forall>k v. entries (results (reg s)) k = Some v \<longrightarrow> entry_ok s k v)"

lemma task_ok_later: "task_ok s rid t \<Longrightarrow> later t t' \<Longrightarrow> task_ok s rid t'"
  by (auto simp: task_ok_def later_def)

lemma later_refl [simp]: "later t t"
  by (simp add: later_def)

lemma tasks_later_refl [simp]: "tasks_later ts ts"
  by (simp add: tasks_later_def)

lemma tasks_later_update:
  "map_of ts rid = Some t \<Longrightarrow> later t t' \<Longrightarrow> tasks_later ts (AList.update rid t' ts)"
  by (auto simp: tasks_later_def update_conv' hm_wf_update)

lemma tasks_later_delete: "tasks_later ts (AList.delete rid ts)"
  by (auto simp: tasks_later_def delete_conv' hm_wf_delete split: if_splits)

lemma map_of_map_tasks: "map_of (map_tasks f ts) rid = map_option (f rid) (map_of ts rid)"
  by (induction ts) (auto simp: map_tasks_def)

lemma hm_wf_map_tasks: "hm_wf (map_tasks f ts) = hm_wf ts"
  by (simp add: hm_wf_def map_tasks_def comp_def case_prod_unfold)

lemma tasks_later_map: "(\<And>rid t. later t (f rid t)) \<Longrightarrow> tasks_later ts (map_tasks f ts)"
  by (auto simp: tasks_later_def map_of_map_tasks hm_wf_map_tasks)

lemma shrinks_refl [simp]: "shrinks entries r r"
  by (simp add: shrinks_def)

lemma rr_get_facts:
  "recent_ok R entries \<Longrightarrow> rr_get R r rid ow = (x, r') \<Longrightarrow>
     shrinks entries r r' \<and> entries r' (rid, ow) = x \<and> (\<forall>v. x = Some v \<longrightarrow> entries r (rid, ow) = Some v)"
  unfolding recent_ok_def shrinks_def by (metis option.distinct(1))

text \<open>Every step that neither registers, publishes nor acknowledges keeps the invariant.\<close>

lemma ok_reg [simp]:
  "task_ok (s\<lparr>reg := r\<rparr>) = task_ok s" "entry_ok (s\<lparr>reg := r\<rparr>) = entry_ok s" "past_ok (s\<lparr>reg := r\<rparr>) = past_ok s"
  by (simp_all add: fun_eq_iff task_ok_def entry_ok_def past_ok_def)

lemma task_inv_quiet:
  assumes inv: "task_inv entries s" and t: "tasks_later (tasks (reg s)) (tasks r)"
    and e: "shrinks entries (results (reg s)) (results r)"
  shows "task_inv entries (s\<lparr>reg := r\<rparr>)"
proof -
  have "entry_ok s k v" if "entries (results r) k = Some v" for k v
  proof -
    from e that have "entries (results (reg s)) k = Some v"
      unfolding shrinks_def by (metis option.distinct(1))
    with inv show ?thesis unfolding task_inv_def by blast
  qed
  moreover have "task_ok s rid t'" if "map_of (tasks r) rid = Some t'" for rid t'
  proof -
    from t that obtain u where "map_of (tasks (reg s)) rid = Some u" "later u t'"
      by (auto simp: tasks_later_def)
    with inv show ?thesis by (auto simp: task_inv_def intro: task_ok_later)
  qed
  moreover have "hm_wf (tasks r)" using inv t by (simp add: task_inv_def tasks_later_def)
  ultimately show ?thesis using inv by (simp add: task_inv_def)
qed

text \<open>What each operation does to the tasks and the results.\<close>

lemma later_simps [simp]:
  "later t (t\<lparr>th_revision := x\<rparr>)" "later t (t\<lparr>th_revision := x, th_progress := y\<rparr>)"
  "later t (t\<lparr>th_cancelled := True\<rparr>)" "later t (t\<lparr>th_timed_out := True, th_cancelled := True\<rparr>)"
  by (simp_all add: later_def)

lemma store_connect_progress_quiet:
  assumes ok: "recent_ok R entries" and "store_connect_progress R rid ow event st = (y, r)"
  shows "tasks_later (tasks st) (tasks r) \<and> shrinks entries (results st) (results r)"
  using assms(2) rr_get_facts [OF ok]
  by (auto simp: store_connect_progress_def Let_def intro!: tasks_later_update
      split: option.splits if_splits prod.splits)

lemma request_status_quiet:
  assumes ok: "recent_ok R entries" and "request_status R rid ow now st = (z, r)"
  shows "tasks r = tasks st \<and> shrinks entries (results st) (results r)"
  using assms(2) rr_get_facts [OF ok]
  by (auto simp: request_status_def terminal_request_status_def Let_def split: prod.splits)

lemma cancel_task_cases:
  assumes ok: "recent_ok R entries" and "cancel_task R rid ow st = (ct, r)"
  obtains (refused) "ct = None" "tasks r = tasks st" "shrinks entries (results st) (results r)"
  | (accepted) t where "map_of (tasks st) rid = Some t" "th_owner t = ow" "\<not> th_terminal t"
      "ct = Some (fst (request_cancel t))" "tasks r = hm_insert rid (t\<lparr>th_cancelled := True\<rparr>) (tasks st)"
      "shrinks entries (results st) (results r)"
proof -
  from assms(2) rr_get_facts [OF ok, of "results st" rid ow] refused accepted show ?thesis
    by (auto simp: cancel_task_def request_cancel_def Let_def split: option.splits if_splits prod.splits)
qed

lemma expire_connect_cases:
  assumes ok: "recent_ok R entries" and "expire_connect R rid st = (ct, r)"
  obtains (refused) "ct = None" "tasks r = tasks st" "shrinks entries (results st) (results r)"
  | (accepted) t where "map_of (tasks st) rid = Some t" "th_kind t = KConnect" "\<not> th_terminal t"
      "ct = Some (fst (request_cancel t))"
      "tasks r = hm_insert rid (t\<lparr>th_timed_out := True, th_cancelled := True\<rparr>) (tasks st)"
      "shrinks entries (results st) (results r)"
proof -
  from assms(2) rr_get_facts [OF ok, of "results st" rid] refused accepted show ?thesis
    by (auto simp: expire_connect_def request_cancel_def Let_def split: option.splits if_splits prod.splits)
qed

lemma drop_registration_quiet:
  "tasks_later (tasks st) (tasks (drop_registration rid token st)) \<and>
   results (drop_registration rid token st) = results st"
  by (auto simp: drop_registration_def tasks_later_delete split: option.splits)

lemma quiet_maps:
  "tasks_later (tasks st) (tasks (network_manager_owner_changed ow st))"
  "results (network_manager_owner_changed ow st) = results st"
  "tasks_later (tasks st) (tasks (shutdown_tasks st))" "results (shutdown_tasks st) = results st"
  "tasks_later (tasks st) (tasks (snd (cancel_connects_for_ssid ssid st)))"
  "results (snd (cancel_connects_for_ssid ssid st)) = results st"
  by (auto simp: network_manager_owner_changed_def shutdown_tasks_def cancel_connects_for_ssid_def
      intro!: tasks_later_map)


lemma jset_other: "jset e k v = Some e' \<Longrightarrow> j \<noteq> k \<Longrightarrow> jindex e' j = jindex e j"
  by (cases e) (auto simp: jindex_def jmap_get_insert, simp_all add: jmap_get_def)

lemma index_mut_other: "index_mut e k = Some (e', x) \<Longrightarrow> j \<noteq> k \<Longrightarrow> jindex e' j = jindex e j"
  by (cases e) (auto simp: index_mut_def jindex_def jmap_get_insert split: option.splits,
      simp_all add: jmap_get_def)

lemma jset2_other: "jset2 e k i v = Some e' \<Longrightarrow> j \<noteq> k \<Longrightarrow> jindex e' j = jindex e j"
  by (auto simp: jset2_def bind_eq_Some_conv dest!: jset_other [of _ k _ _ j] index_mut_other [of _ k _ _ j])

lemma jset_here: "jset e k v = Some e' \<Longrightarrow> jindex e' k = v"
  by (cases e) (auto simp: jindex_def jmap_get_insert, simp_all add: jmap_get_def)

lemma cancelled_event_name:
  assumes "cancelled_event timed_out event = Some e"
  shows "jindex e ''event'' = JStr ''cancelled''"
proof -
  from assms obtain e1 e2 e3 where 1: "jset event ''event'' (JStr ''cancelled'') = Some e1"
    and 2: "jset2 e1 ''data'' ''phase'' (JStr ''cancelled'') = Some e2"
    and 3: "\<exists>m. jset2 e2 ''data'' ''message'' (JStr m) = Some e3"
    and 4: "(case jindex e3 ''data'' of JObj d \<Rightarrow> jset e3 ''data'' (JObj (jmap_remove ''result'' d))
       | _ \<Rightarrow> Some e3) = Some e"
    unfolding cancelled_event_def bind_eq_Some_conv by blast
  have "jindex e ''event'' = jindex e3 ''event''"
    using 4 by (auto split: json.splits dest!: jset_other [where j = "''event''"])
  also have "\<dots> = jindex e2 ''event''" using 3 by (auto dest!: jset2_other [where j = "''event''"])
  also have "\<dots> = jindex e1 ''event''" using 2 by (auto dest!: jset2_other [where j = "''event''"])
  finally show ?thesis using jset_here [OF 1] by simp
qed

lemma settled_event_not_success:
  "settled_event changed (Some t) event = Some e \<Longrightarrow> th_kind t = KConnect \<Longrightarrow> th_cancelled t \<Longrightarrow>
   jindex e ''event'' \<noteq> JStr ''succeeded''"
  by (auto simp: settled_event_def split: if_splits dest: cancelled_event_name)

lemma store_terminal_cases:
  assumes ok: "recent_ok R entries" and t: "map_of (tasks st) rid = Some t"
    and s: "store_terminal_result R rid (th_owner t) (kind_stream (th_kind t)) changed event st = (x, r)"
  obtains (retained) v where "entries (results st) (rid, th_owner t) = Some v" "x = Some (Some (tr_event v))"
      "tasks r = tasks st" "shrinks entries (results st) (results r)"
  | (quiet) "\<nexists>e. x = Some (Some e)" "tasks_later (tasks st) (tasks r)" "shrinks entries (results st) (results r)"
  | (stored) e rev where "x = Some (Some e)" "\<not> th_terminal t"
      "tasks r = hm_insert rid (t\<lparr>th_terminal := True, th_revision := rev\<rparr>) (tasks st)"
      "\<And>k v. entries (results r) k = Some v \<Longrightarrow>
        (k = (rid, th_owner t) \<and> tr_event v = e) \<or> entries (results st) k = Some v"
      "th_kind t = KConnect \<Longrightarrow> th_cancelled t \<Longrightarrow> jindex e ''event'' \<noteq> JStr ''succeeded''"
proof -
  obtain found res where g: "rr_get R (results st) rid (th_owner t) = (found, res)" by fastforce
  note gf = rr_get_facts [OF ok g]
  let ?t' = "t\<lparr>th_terminal := True, th_revision := saturating_succ (th_revision t)\<rparr>"
  let ?st = "st\<lparr>results := res\<rparr>"
  have later: "later t ?t'" by (simp add: later_def)
  show ?thesis
  proof (cases found)
    case (Some v)
    with s g have "x = Some (Some (tr_event v))" "r = ?st" by (simp_all add: store_terminal_result_def)
    with gf Some retained show ?thesis by simp
  next
    case None
    show ?thesis
    proof (cases "th_terminal t")
      case True
      with s g None t have "x = Some None" "r = ?st" by (simp_all add: store_terminal_result_def)
      with gf quiet show ?thesis by simp
    next
      case False
      show ?thesis
      proof (cases "settled_event changed (Some t) event")
        case None
        with \<open>found = None\<close> False s g t have "x = None" "r = ?st"
          by (simp_all add: store_terminal_result_def)
        with gf quiet show ?thesis by simp
      next
        case (Some e1)
        note se = this
        show ?thesis
        proof (cases "jset e1 ''operation_revision'' (JInt (uint (th_revision ?t')))")
          case None
          with \<open>found = None\<close> False s g t se
          have "x = None" "r = ?st\<lparr>tasks := hm_insert rid ?t' (tasks st)\<rparr>"
            by (simp_all add: store_terminal_result_def Let_def)
          with gf quiet tasks_later_update [OF t later] show ?thesis by simp
        next
          case (Some e2)
          let ?v = "\<lparr>tr_stream = kind_stream (th_kind t), tr_event = e2, tr_revision = th_revision ?t'\<rparr>"
          have x: "x = Some (Some e2)" "r = ?st\<lparr>tasks := hm_insert rid ?t' (tasks st),
              results := rr_record R rid (th_owner t) ?v res\<rparr>"
            using \<open>found = None\<close> False s g t se Some by (simp_all add: store_terminal_result_def Let_def)
          have "(k = (rid, th_owner t) \<and> tr_event v = e2) \<or> entries (results st) k = Some v"
            if "entries (results r) k = Some v" for k v
          proof -
            from ok have "entries (rr_record R rid (th_owner t) ?v res) k =
                (if k = (rid, th_owner t) then Some ?v else entries res k) \<or>
                (k \<noteq> (rid, th_owner t) \<and> entries (rr_record R rid (th_owner t) ?v res) k = None)"
              unfolding recent_ok_def by blast
            with that x(2) have "(k = (rid, th_owner t) \<and> v = ?v) \<or> entries res k = Some v"
              by (auto split: if_splits)
            with gf show ?thesis unfolding shrinks_def by (metis option.distinct(1) terminal_result.select_convs(2))
          qed
          moreover have "jindex e2 ''event'' \<noteq> JStr ''succeeded''" if "th_kind t = KConnect" "th_cancelled t"
            using settled_event_not_success [OF se that] jset_other [OF Some, of "''event''"] by simp
          ultimately show ?thesis using stored [of e2 "saturating_succ (th_revision t)"] x False by auto
        qed
      qed
    qed
  qed
qed


text \<open>Disconnecting an owner: its live tasks are cancelled, all others stay as they are.\<close>

lemma cancel_owned_spec:
  assumes ok: "recent_ok R entries" and "distinct (map fst ts)"
    and "\<And>rid t v. (rid, t) \<in> set ts \<Longrightarrow> entries res (rid, Some o1) = Some v \<Longrightarrow> th_terminal t"
    and "cancel_owned R o1 ts res = (cs, ts', res')"
  shows "ts' = map_tasks (\<lambda>_ t. if th_owner t = Some o1 \<and> \<not> th_terminal t then t\<lparr>th_cancelled := True\<rparr> else t) ts \<and>
    cs = map (\<lambda>(rid, t). (rid, fst (request_cancel t)))
      (filter (\<lambda>(_, t). th_owner t = Some o1 \<and> \<not> th_terminal t) ts) \<and> shrinks entries res res'"
  using assms(2-)
proof (induction ts arbitrary: res cs ts' res')
  case Nil
  then show ?case by (simp add: map_tasks_def)
next
  case (Cons x ts)
  obtain rid t where x: "x = (rid, t)" by (cases x)
  have trans: "shrinks entries a b \<Longrightarrow> shrinks entries b c \<Longrightarrow> shrinks entries a c" for a b c
    unfolding shrinks_def by metis
  have mono: "shrinks entries res res1 \<Longrightarrow> (rid', t') \<in> set ts \<Longrightarrow> entries res1 (rid', Some o1) = Some v \<Longrightarrow> th_terminal t'"
    for res1 rid' t' v
    using Cons.prems(2) unfolding shrinks_def by (metis list.set_intros(2) option.distinct(1))
  show ?case
  proof (cases "th_owner t = Some o1 \<and> \<not> th_terminal t")
    case True
    obtain found res1 where g: "rr_get R res rid (Some o1) = (found, res1)" by fastforce
    note gf = rr_get_facts [OF ok g]
    have none: "found = None"
      using gf Cons.prems(2) [of rid t] True x by (cases found) auto
    obtain cs1 ts1 res2 where r: "cancel_owned R o1 ts res1 = (cs1, ts1, res2)" by (metis prod_cases3)
    have IH: "ts1 = map_tasks (\<lambda>_ t. if th_owner t = Some o1 \<and> \<not> th_terminal t then t\<lparr>th_cancelled := True\<rparr> else t) ts \<and>
      cs1 = map (\<lambda>(rid, t). (rid, fst (request_cancel t)))
        (filter (\<lambda>(_, t). th_owner t = Some o1 \<and> \<not> th_terminal t) ts) \<and> shrinks entries res1 res2"
      by (rule Cons.IH [OF _ _ r]) (use Cons.prems(1) mono gf in auto)
    with Cons.prems(3) True g none r x gf trans show ?thesis
      by (auto simp: request_cancel_def map_tasks_def)
  next
    case False
    obtain cs1 ts1 res2 where r: "cancel_owned R o1 ts res = (cs1, ts1, res2)" by (metis prod_cases3)
    have IH: "ts1 = map_tasks (\<lambda>_ t. if th_owner t = Some o1 \<and> \<not> th_terminal t then t\<lparr>th_cancelled := True\<rparr> else t) ts \<and>
      cs1 = map (\<lambda>(rid, t). (rid, fst (request_cancel t)))
        (filter (\<lambda>(_, t). th_owner t = Some o1 \<and> \<not> th_terminal t) ts) \<and> shrinks entries res res2"
      by (rule Cons.IH [OF _ _ r]) (use Cons.prems(1) mono [OF shrinks_refl] in auto)
    with Cons.prems(3) False r x show ?thesis by (auto simp: map_tasks_def)
  qed
qed


text \<open>Acknowledging cancellations of live tasks keeps the invariant.\<close>

lemma task_inv_ack:
  assumes inv: "task_inv entries s" and t: "tasks_later (tasks (reg s)) (tasks r)"
    and e: "shrinks entries (results (reg s)) (results r)"
    and acks: "\<And>rid. rid \<in> set acks \<Longrightarrow> \<exists>u u'. map_of (tasks (reg s)) rid = Some u \<and> \<not> th_terminal u \<and>
       map_of (tasks r) rid = Some u' \<and> th_cancelled u' \<and> th_kind u' = KConnect"
  shows "task_inv entries (s\<lparr>reg := r, acknowledged := acks @ acknowledged s\<rparr>)"
proof -
  let ?s = "s\<lparr>reg := r, acknowledged := acks @ acknowledged s\<rparr>"
  note q = task_inv_quiet [OF inv t e]
  have live: "rid \<in> fst ` set (registered s) \<and> rid \<notin> fst ` set (terminals s)" if r: "rid \<in> set acks" for rid
  proof -
    from acks [OF r] obtain u where u: "map_of (tasks (reg s)) rid = Some u" "\<not> th_terminal u" by blast
    with inv have "task_ok s rid u" by (simp add: task_inv_def)
    with u(2) show ?thesis by (force simp: task_ok_def)
  qed
  from inv have p: "past_ok s" by (simp add: task_inv_def)
  have "jindex e ''event'' \<noteq> JStr ''succeeded''"
    if "(rid, e) \<in> set (terminals s)" "rid \<in> set (acks @ acknowledged s)" for rid e
  proof -
    from that(1) have "rid \<in> fst ` set (terminals s)" by force
    with live that(2) have "rid \<in> set (acknowledged s)" by auto
    with p that(1) show ?thesis unfolding past_ok_def by blast
  qed
  moreover have "set (acks @ acknowledged s) \<subseteq> fst ` set (registered s)"
    using p live by (auto simp: past_ok_def)
  ultimately have "past_ok ?s" using p by (auto simp: past_ok_def)
  moreover have "task_ok ?s rid u" if m: "map_of (tasks r) rid = Some u" for rid u
  proof -
    from q m have ok: "task_ok s rid u" by (simp add: task_inv_def)
    show ?thesis
    proof (cases "rid \<in> set acks")
      case True
      from acks [OF True] m have "th_cancelled u \<and> th_kind u = KConnect" by auto
      with ok show ?thesis by (simp add: task_ok_def)
    next
      case False
      with ok show ?thesis by (simp add: task_ok_def)
    qed
  qed
  moreover have "entry_ok ?s = entry_ok s" by (simp add: fun_eq_iff entry_ok_def)
  ultimately show ?thesis using q by (simp add: task_inv_def)
qed

lemma ack_list: "ack rid ct acks = (case ct of Some c \<Rightarrow> if ct_kind c = KConnect then [rid] else [] | None \<Rightarrow> []) @ acks"
  by (simp add: ack_def split: option.splits)

lemma task_inv_terminals:
  assumes "set ts = set (terminals s)"
  shows "task_inv entries (s\<lparr>terminals := ts\<rparr>) = task_inv entries s"
proof -
  have "task_ok (s\<lparr>terminals := ts\<rparr>) = task_ok s" "entry_ok (s\<lparr>terminals := ts\<rparr>) = entry_ok s"
    "past_ok (s\<lparr>terminals := ts\<rparr>) = past_ok s"
    by (simp_all add: fun_eq_iff task_ok_def entry_ok_def past_ok_def functional_def assms)
  then show ?thesis by (simp add: task_inv_def)
qed

lemma task_step_finishes:
  assumes ok: "recent_ok R entries" and inv: "task_inv entries s"
    and t: "map_of (tasks (reg s)) rid = Some t"
    and st: "store_terminal_result R rid (th_owner t) (kind_stream (th_kind t)) changed event (reg s) = (x, r)"
  shows "task_inv entries (s\<lparr>reg := r, terminals := (case x of Some (Some e) \<Rightarrow> (rid, e) # terminals s | _ \<Rightarrow> terminals s)\<rparr>)"
  using ok t st
proof (cases rule: store_terminal_cases)
  case (retained v)
  from inv retained(1) have "entry_ok s (rid, th_owner t) v" unfolding task_inv_def by blast
  then have m: "(rid, tr_event v) \<in> set (terminals s)" by (simp add: entry_ok_def)
  then have sets: "set ((rid, tr_event v) # terminals s) = set (terminals s)" by auto
  have "task_inv entries (s\<lparr>reg := r\<rparr>)"
    using task_inv_quiet [OF inv] retained by simp
  with task_inv_terminals [of "(rid, tr_event v) # terminals s" "s\<lparr>reg := r\<rparr>" entries] sets retained(2) show ?thesis by simp
next
  case quiet
  from quiet(1) have "(case x of Some (Some e) \<Rightarrow> (rid, e) # terminals s | _ \<Rightarrow> terminals s) = terminals s"
    by (auto split: option.splits)
  with task_inv_quiet [OF inv quiet(2,3)] show ?thesis by simp
next
  case (stored e rev)
  let ?t' = "t\<lparr>th_terminal := True, th_revision := rev\<rparr>"
  let ?s = "s\<lparr>reg := r, terminals := (rid, e) # terminals s\<rparr>"
  from inv t have tok: "task_ok s rid t" by (simp add: task_inv_def)
  with stored(2) have fresh: "rid \<notin> fst ` set (terminals s)" by (auto simp: task_ok_def)
  from inv have p: "past_ok s" by (simp add: task_inv_def)
  have not_old: "(rid, x) \<notin> set (terminals s)" for x using fresh by force
  have "functional ((rid, e) # terminals s)"
    using p not_old by (intro functional_Cons) (simp_all add: past_ok_def)
  moreover have "jindex e' ''event'' \<noteq> JStr ''succeeded''"
    if m: "(rid', e') \<in> set ((rid, e) # terminals s)" "rid' \<in> set (acknowledged s)" for rid' e'
  proof (cases "rid' = rid")
    case True
    with m not_old have "e' = e" by auto
    with tok m True stored(5) show ?thesis by (simp add: task_ok_def)
  next
    case False
    with m have "(rid', e') \<in> set (terminals s)" by simp
    with p m(2) show ?thesis unfolding past_ok_def by blast
  qed
  moreover have "rid \<in> fst ` set (registered s)" using tok by (force simp: task_ok_def)
  ultimately have past: "past_ok ?s" using p by (auto simp: past_ok_def)
  have "task_ok ?s rid' u" if "map_of (tasks r) rid' = Some u" for rid' u
  proof (cases "rid' = rid")
    case True
    with that stored(3) have "u = ?t'" by (simp add: update_conv')
    with tok True show ?thesis by (simp add: task_ok_def)
  next
    case False
    with that stored(3) inv have "task_ok s rid' u" by (simp add: update_conv' task_inv_def)
    with False show ?thesis by (auto simp: task_ok_def)
  qed
  moreover have "entry_ok ?s k v" if "entries (results r) k = Some v" for k v
    using stored(4) [OF that]
  proof
    assume "k = (rid, th_owner t) \<and> tr_event v = e"
    with tok show ?thesis by (simp add: entry_ok_def task_ok_def)
  next
    assume "entries (results (reg s)) k = Some v"
    with inv have "entry_ok s k v" unfolding task_inv_def by blast
    then show ?thesis by (simp add: entry_ok_def)
  qed
  moreover have "hm_wf (tasks r)" using inv stored(3) by (simp add: task_inv_def hm_wf_update)
  ultimately show ?thesis using past stored(1) by (simp add: task_inv_def)
qed


lemma cancel_tasks_for_owner_spec:
  assumes ok: "recent_ok R entries" and inv: "task_inv entries s"
    and c: "cancel_tasks_for_owner R o1 (reg s) = (cs, r)"
  shows "tasks r = map_tasks (\<lambda>_ t. if th_owner t = Some o1 \<and> \<not> th_terminal t then t\<lparr>th_cancelled := True\<rparr> else t)
      (tasks (reg s)) \<and>
    cs = map (\<lambda>(rid, t). (rid, fst (request_cancel t)))
      (filter (\<lambda>(_, t). th_owner t = Some o1 \<and> \<not> th_terminal t) (tasks (reg s))) \<and>
    shrinks entries (results (reg s)) (results r)"
proof -
  from inv have wf: "hm_wf (tasks (reg s))" by (simp add: task_inv_def)
  have "th_terminal t" if "(rid, t) \<in> set (tasks (reg s))" "entries (results (reg s)) (rid, Some o1) = Some v" for rid t v
  proof -
    from that(2) inv have "entry_ok s (rid, Some o1) v" unfolding task_inv_def by blast
    then have "rid \<in> fst ` set (terminals s)" by (force simp: entry_ok_def)
    moreover have "task_ok s rid t" using that(1) inv wf by (simp add: task_inv_def hm_in_set_iff)
    ultimately show ?thesis by (simp add: task_ok_def)
  qed
  moreover obtain ts res where "cancel_owned R o1 (tasks (reg s)) (results (reg s)) = (cs, ts, res)"
    and "r = (reg s)\<lparr>tasks := ts, results := res\<rparr>"
    using c by (auto simp: cancel_tasks_for_owner_def split: prod.splits)
  ultimately show ?thesis
    using cancel_owned_spec [OF ok, of "tasks (reg s)" "results (reg s)" o1 cs ts res] wf
    by (auto simp: hm_wf_def)
qed

lemma task_step_inv:
  assumes ok: "recent_ok R entries" and st: "task_step R entries s t" and inv: "task_inv entries s"
  shows "task_inv entries t"
  using st
proof cases
  case (registers rid owner token now kind ssid dest)
  let ?r = "register_task token now rid kind owner ssid dest (reg s)"
  from inv have p: "past_ok s" by (simp add: task_inv_def)
  have new: "rid \<notin> fst ` set (terminals s)" "rid \<notin> set (acknowledged s)"
    using p registers(2) by (auto simp: past_ok_def)
  have "past_ok t" using p registers by (auto simp: past_ok_def)
  moreover have "task_ok t rid' u" if "map_of (tasks ?r) rid' = Some u" for rid' u
  proof (cases "rid' = rid")
    case True
    with that new show ?thesis by (auto simp: registers(1) task_ok_def register_task_def update_conv')
  next
    case False
    with that inv have "task_ok s rid' u" by (simp add: task_inv_def register_task_def update_conv')
    then show ?thesis by (auto simp: registers(1) task_ok_def)
  qed
  moreover have "entry_ok t k v" if "entries (results ?r) k = Some v" for k v
  proof -
    from that have "entries (results (reg s)) k = Some v" by (simp add: register_task_def)
    with inv have "entry_ok s k v" unfolding task_inv_def by blast
    then show ?thesis by (simp add: registers(1) entry_ok_def)
  qed
  moreover have "hm_wf (tasks ?r)" using inv by (simp add: task_inv_def register_task_def hm_wf_update)
  ultimately show ?thesis by (simp add: registers(1) task_inv_def)
next
  case (finishes rid u changed event x r)
  with task_step_finishes [OF ok inv] show ?thesis by simp
next
  case (progresses rid ow event y r)
  with store_connect_progress_quiet [OF ok] task_inv_quiet [OF inv] show ?thesis by blast
next
  case (queries rid ow now z r)
  with request_status_quiet [OF ok] task_inv_quiet [OF inv, of r] show ?thesis by force
next
  case (cancels rid ow ct r)
  from ok cancels(2) show ?thesis
  proof (cases rule: cancel_task_cases)
    case refused
    with cancels task_inv_ack [OF inv, of r "[]"] show ?thesis by (simp add: ack_list)
  next
    case (accepted u)
    show ?thesis unfolding cancels(1) ack_list
      by (rule task_inv_ack [OF inv]) (use accepted in \<open>auto simp: request_cancel_def update_conv'
          intro!: tasks_later_update split: if_splits\<close>)
  qed
next
  case (expires rid ct r)
  from ok expires(2) show ?thesis
  proof (cases rule: expire_connect_cases)
    case refused
    with expires task_inv_ack [OF inv, of r "[]"] show ?thesis by (simp add: ack_list)
  next
    case (accepted u)
    show ?thesis unfolding expires(1) ack_list
      by (rule task_inv_ack [OF inv]) (use accepted in \<open>auto simp: request_cancel_def update_conv'
          intro!: tasks_later_update split: if_splits\<close>)
  qed
next
  case (disconnects o1 cs r)
  note spec = cancel_tasks_for_owner_spec [OF ok inv disconnects(2)]
  have wf: "hm_wf (tasks (reg s))" using inv by (simp add: task_inv_def)
  show ?thesis unfolding disconnects(1)
  proof (rule task_inv_ack [OF inv])
    show "tasks_later (tasks (reg s)) (tasks r)" using spec by (auto intro!: tasks_later_map)
    show "shrinks entries (results (reg s)) (results r)" using spec by simp
    fix rid
    assume "rid \<in> set (map fst (filter (\<lambda>(_, c). ct_kind c = KConnect) cs))"
    then obtain u where "(rid, u) \<in> set (tasks (reg s))" "th_owner u = Some o1" "\<not> th_terminal u" "th_kind u = KConnect"
      using spec by (auto simp: request_cancel_def)
    then show "\<exists>u u'. map_of (tasks (reg s)) rid = Some u \<and> \<not> th_terminal u \<and>
       map_of (tasks r) rid = Some u' \<and> th_cancelled u' \<and> th_kind u' = KConnect"
      using spec wf by (auto simp: hm_in_set_iff map_of_map_tasks)
  qed
next
  case (forgets ssid ids r)
  with quiet_maps(5,6) [where st = "reg s"] task_inv_quiet [OF inv] show ?thesis by (metis shrinks_refl snd_conv)
next
  case (owner_moves ow)
  with quiet_maps(1,2) [where st = "reg s"] task_inv_quiet [OF inv] show ?thesis by (metis shrinks_refl)
next
  case shuts_down
  with quiet_maps(3,4) [where st = "reg s"] task_inv_quiet [OF inv] show ?thesis by (metis shrinks_refl)
next
  case (unregisters rid token)
  with drop_registration_quiet [where st = "reg s"] task_inv_quiet [OF inv] show ?thesis by (metis shrinks_refl)
next
  case (elapses r)
  with task_inv_quiet [OF inv] show ?thesis by simp
qed


lemma task_reachable_inv:
  assumes ok: "recent_ok R entries" and "task_reachable R entries s"
  shows "task_inv entries s"
  using assms(2)
proof (induction rule: task_reachable.induct)
  case (start r)
  then show ?case by (simp add: task_inv_def past_ok_def functional_def)
next
  case (step s t)
  then show ?case using task_step_inv [OF ok] by blast
qed

text \<open>A store that keeps everything, to run the registry on.\<close>

definition keep_all :: "((string \<times> string option) \<times> terminal_result) list recent_results" where
  "keep_all = \<lparr>rr_get = \<lambda>r rid ow. (map_of r (rid, ow), r), rr_record = \<lambda>rid ow v r. AList.update (rid, ow) v r\<rparr>"

lemma keep_all_ok: "recent_ok keep_all map_of"
  by (simp add: recent_ok_def keep_all_def update_conv')

definition one_task :: "((string \<times> string option) \<times> terminal_result) list registry" where
  "one_task = register_task 1 0 ''c'' KConnect (Some ''o'') None '':1.5'' \<lparr>tasks = [], results = []\<rparr>"

lemma one_task_reachable:
  "task_reachable keep_all map_of
     \<lparr>reg = one_task, registered = [(''c'', Some ''o'')], terminals = [], acknowledged = []\<rparr>"
  using task_reachable.step [OF task_reachable.start [of map_of "[]" keep_all]
      task_step.registers [of "''c''"]]
  by (simp add: one_task_def)

text \<open>
  C4. A request has one outcome: over every interleaving of workers, cancellations, timeouts,
  disconnections and evictions, all terminal events published for a request are the same event,
  and once a connection request's cancellation was acknowledged, the event it publishes is never a
  success.
\<close>

theorem terminal_outcome_unique:
  assumes "recent_ok R entries" and "task_reachable R entries s"
    and "(rid, e) \<in> set (terminals s)"
  shows "((rid, e') \<in> set (terminals s) \<longrightarrow> e' = e) \<and>
    (rid \<in> set (acknowledged s) \<longrightarrow> jindex e ''event'' \<noteq> JStr ''succeeded'')"
proof -
  from task_reachable_inv [OF assms(1,2)] have "past_ok s" by (simp add: task_inv_def)
  with assms(3) show ?thesis unfolding past_ok_def functional_def by blast
qed

theorem terminal_outcome_unique_witness:
  "\<exists>s e. task_reachable keep_all map_of s \<and> (''c'', e) \<in> set (terminals s) \<and>
     ''c'' \<in> set (acknowledged s) \<and> jindex e ''event'' \<noteq> JStr ''succeeded''"
proof -
  let ?ev = "JObj [(''data'', JObj []), (''event'', JStr ''succeeded'')]"
  let ?s1 = "\<lparr>reg = one_task, registered = [(''c'', Some ''o'')], terminals = [], acknowledged = []\<rparr>"
  let ?c = "cancel_task keep_all ''c'' (Some ''o'') one_task"
  let ?s2 = "\<lparr>reg = snd ?c, registered = [(''c'', Some ''o'')], terminals = [], acknowledged = [''c'']\<rparr>"
  let ?t = "the (map_of (tasks (snd ?c)) ''c'')"
  let ?f = "store_terminal_result keep_all ''c'' (th_owner ?t) (kind_stream (th_kind ?t)) False ?ev (snd ?c)"
  note d = one_task_def register_task_def cancel_task_def keep_all_def request_cancel_def Let_def
  have "task_step keep_all map_of ?s1 ?s2"
    using task_step.cancels [of keep_all "''c''" "Some ''o''" ?s1 "fst ?c" "snd ?c" map_of]
    by (simp add: d ack_def)
  then have r2: "task_reachable keep_all map_of ?s2"
    using task_reachable.step [OF one_task_reachable] by blast
  have t: "map_of (tasks (snd ?c)) ''c'' = Some ?t" by (simp add: d)
  obtain e where "fst ?f = Some (Some e)"
    by (simp add: d store_terminal_result_def settled_event_def cancelled_event_def jset2_def index_mut_def
        jindex_def jmap_get_def)
  then have e: "?f = (Some (Some e), snd ?f)" by (metis prod.collapse)
  let ?s3 = "\<lparr>reg = snd ?f, registered = [(''c'', Some ''o'')], terminals = [(''c'', e)], acknowledged = [''c'']\<rparr>"
  have "task_step keep_all map_of ?s2 ?s3"
    using task_step.finishes [where s = ?s2 and rid = "''c''" and t = ?t and R = keep_all and changed = False
      and event = ?ev and x = "Some (Some e)" and r = "snd ?f" and entries = map_of] t e by simp
  then have r3: "task_reachable keep_all map_of ?s3" using task_reachable.step [OF r2] by blast
  from terminal_outcome_unique [OF keep_all_ok r3, of "''c''" e] r3 show ?thesis by (intro exI [of _ ?s3] exI [of _ e]) simp
qed

text \<open>
  A client that disconnects has exactly its live tasks cancelled: every unfinished task it
  owns is flagged and reported, no other task changes, and afterwards each of its tasks is
  cancelled or finished.
\<close>

theorem disconnect_cancels_owner:
  assumes "recent_ok R entries" and "task_reachable R entries s"
    and "cancel_tasks_for_owner R owner (reg s) = (cs, r)"
  shows "map_of (tasks r) rid = (case map_of (tasks (reg s)) rid of
      None \<Rightarrow> None
    | Some t \<Rightarrow> if th_owner t = Some owner \<and> \<not> th_terminal t then Some (t\<lparr>th_cancelled := True\<rparr>) else Some t) \<and>
    (rid \<in> fst ` set cs \<longleftrightarrow> (\<exists>t. map_of (tasks (reg s)) rid = Some t \<and> th_owner t = Some owner \<and> \<not> th_terminal t))"
proof -
  from task_reachable_inv [OF assms(1,2)] have inv: "task_inv entries s" .
  then have wf: "hm_wf (tasks (reg s))" by (simp add: task_inv_def)
  note spec = cancel_tasks_for_owner_spec [OF assms(1) inv assms(3)]
  have "rid \<in> fst ` set cs \<longleftrightarrow> (\<exists>t. (rid, t) \<in> set (tasks (reg s)) \<and> th_owner t = Some owner \<and> \<not> th_terminal t)"
    using spec by (force simp: image_iff)
  then show ?thesis
    using spec wf by (auto simp: map_of_map_tasks hm_in_set_iff split: option.splits)
qed

theorem disconnect_cancels_owner_witness:
  "''c'' \<in> fst ` set (fst (cancel_tasks_for_owner keep_all ''o'' one_task))"
  using disconnect_cancels_owner [OF keep_all_ok one_task_reachable, of "''o''"
      "fst (cancel_tasks_for_owner keep_all ''o'' one_task)" "snd (cancel_tasks_for_owner keep_all ''o'' one_task)" "''c''"]
  by (simp add: one_task_def register_task_def)

text \<open>
  C34. Requests are private: whoever did not register a request sees it as unknown, whether it is
  running or finished; its owner sees a running request as running until a terminal event was
  published, and never as running after that.
\<close>

theorem request_status_private:
  assumes "recent_ok R entries" and "task_reachable R entries s"
    and "request_status R rid ow now (reg s) = (z, r)"
  shows "((rid, ow) \<notin> set (registered s) \<longrightarrow> jindex z ''status'' = JStr ''unknown'') \<and>
    (rid \<in> fst ` set (terminals s) \<longrightarrow> jindex z ''status'' \<noteq> JStr ''running'') \<and>
    (\<forall>t. map_of (tasks (reg s)) rid = Some t \<and> th_owner t = ow \<and> \<not> th_terminal t \<longrightarrow>
       jindex z ''status'' = JStr ''running'')"
proof -
  from task_reachable_inv [OF assms(1,2)] have inv: "task_inv entries s" .
  obtain found res where g: "rr_get R (results (reg s)) rid ow = (found, res)" by fastforce
  note gf = rr_get_facts [OF assms(1) g]
  have ent: "(rid, ow) \<in> set (registered s) \<and> rid \<in> fst ` set (terminals s)" if "found = Some v" for v
  proof -
    from gf that inv have "entry_ok s (rid, ow) v" unfolding task_inv_def by blast
    then show ?thesis by (force simp: entry_ok_def)
  qed
  have tok: "task_ok s rid t" if "map_of (tasks (reg s)) rid = Some t" for t
    using inv that by (simp add: task_inv_def)
  have z: "z = fst (request_status R rid ow now (reg s))" using assms(3) by simp
  show ?thesis
  proof (cases found)
    case (Some v)
    have "jindex z ''status'' = JStr ''finished''"
      unfolding z by (simp add: request_status_def terminal_request_status_def g Some jindex_def jmap_of_def jmap_get_def)
    moreover have "th_terminal t" if "map_of (tasks (reg s)) rid = Some t" for t
      using tok [OF that] ent [OF Some] by (simp add: task_ok_def)
    ultimately show ?thesis using ent [OF Some] by auto
  next
    case None
    have "jindex z ''status'' = (if \<exists>t. map_of (tasks (reg s)) rid = Some t \<and> th_owner t = ow \<and> \<not> th_terminal t
        then JStr ''running'' else JStr ''unknown'')"
      unfolding z by (auto simp: request_status_def terminal_request_status_def g None Let_def jindex_def
          jmap_of_def jmap_get_def split: option.splits)
    then show ?thesis using tok by (auto simp: task_ok_def)
  qed
qed

theorem request_status_private_witness:
  "jindex (fst (request_status keep_all ''c'' (Some ''o'') 5 one_task)) ''status'' = JStr ''running'' \<and>
   jindex (fst (request_status keep_all ''c'' (Some ''p'') 5 one_task)) ''status'' = JStr ''unknown''"
  using request_status_private [OF keep_all_ok one_task_reachable, of "''c''" "Some ''o''" 5
      "fst (request_status keep_all ''c'' (Some ''o'') 5 one_task)" "snd (request_status keep_all ''c'' (Some ''o'') 5 one_task)"]
    request_status_private [OF keep_all_ok one_task_reachable, of "''c''" "Some ''p''" 5
      "fst (request_status keep_all ''c'' (Some ''p'') 5 one_task)" "snd (request_status keep_all ''c'' (Some ''p'') 5 one_task)"]
  by (simp add: one_task_def register_task_def)

end
