(* ===== verification/Status_Observation.thy ===== *)
theory Status_Observation
  imports Revisions Errors
begin

text \<open>
  \<open>src/daemon_status/observation.rs\<close>: the one authoritative Wi-Fi status observation. An
  observation reads the generation, reads NetworkManager without holding the state, and then
  publishes under the state's lock; captures are serialized by their own lock, invalidations are
  not. The blocking read and the random epoch identifiers are arguments.
\<close>

record status_state =
  so_generation :: u64
  so_epoch :: string
  so_previous_epoch :: "string option"
  so_revision :: u64
  so_value :: "json option"

definition status_default :: "string \<Rightarrow> status_state" where
  "status_default fresh = \<lparr>so_generation = 0, so_epoch = fresh, so_previous_epoch = None,
     so_revision = 0, so_value = None\<rparr>"

text \<open>\<open>None\<close>: the panic of \<open>expect("status generation exhausted")\<close>.\<close>

definition invalidate :: "status_state \<Rightarrow> status_state option" where
  "invalidate s = (if so_generation s = - 1 then None
     else Some (s\<lparr>so_generation := so_generation s + 1\<rparr>))"

text \<open>The value to publish, from what the read returned (\<open>None\<close> when indexing it panics).\<close>

definition observed_value :: "anyhow_error + json \<Rightarrow> json option" where
  "observed_value read =
     (let value = (case read of Inr v \<Rightarrow> v | Inl _ \<Rightarrow> JObj [(''available'', JBool False)])
      in if jget value ''available'' = None then jset value ''available'' (JBool True) else Some value)"

definition publish_value :: "string \<Rightarrow> json \<Rightarrow> status_state \<Rightarrow> status_state" where
  "publish_value fresh value s =
     (if so_value s \<noteq> Some value
      then (let s0 = (if so_revision s = MAX_REVISION
                      then s\<lparr>so_previous_epoch := Some (so_epoch s), so_epoch := fresh, so_revision := 0\<rparr>
                      else s)
            in s0\<lparr>so_revision := so_revision s0 + 1, so_value := Some value\<rparr>)
      else s)"

definition publication :: "status_state \<Rightarrow> json" where
  "publication s =
     (let identity = jmap_of [(''epoch'', JStr (so_epoch s)), (''revision'', JInt (uint (so_revision s)))]
      in JObj (case so_previous_epoch s of
                 None \<Rightarrow> identity | Some e \<Rightarrow> jmap_insert ''previous_epoch'' (JStr e) identity))"

text \<open>
  The critical section that ends an observation begun at \<open>generation\<close>; the outer \<open>None\<close> is a panic.
\<close>

definition observe_finish :: "string \<Rightarrow> u64 \<Rightarrow> anyhow_error + json \<Rightarrow> status_state
    \<Rightarrow> (anyhow_error + json) option \<times> status_state" where
  "observe_finish fresh generation read s =
     (case observed_value read of
        None \<Rightarrow> (None, s)
      | Some value \<Rightarrow>
          if generation \<noteq> so_generation s
          then (Some (Inl (into_anyhow (conflict_error OpStatus
                  ''Wi-Fi status changed during observation; read current state again''))), s)
          else (let s' = publish_value fresh value s
                in (map_option Inr (jset value ''_publication'' (publication s')), s')))"

section \<open>Publication is a revision chain\<close>

datatype status_event = Invalidate | Finish u64 "anyhow_error + json"

fun status_advance :: "string \<Rightarrow> status_event \<Rightarrow> status_state \<Rightarrow> status_state" where
  "status_advance fresh Invalidate s = (case invalidate s of None \<Rightarrow> s | Some t \<Rightarrow> t)"
| "status_advance fresh (Finish g read) s = snd (observe_finish fresh g read s)"

abbreviation status_cursor :: "status_state \<Rightarrow> string \<times> u64" where
  "status_cursor s \<equiv> (so_epoch s, so_revision s)"

abbreviation status_content :: "status_state \<Rightarrow> json option \<times> string option" where
  "status_content s \<equiv> (so_value s, so_previous_epoch s)"

lemma publish_value_advances:
  assumes "so_revision s \<le> MAX_REVISION"
  shows "(status_cursor (publish_value f v s) = status_cursor s \<and>
      status_content (publish_value f v s) = status_content s) \<or>
    (so_revision s < MAX_REVISION \<and> status_cursor (publish_value f v s) = (so_epoch s, so_revision s + 1)) \<or>
    (so_epoch (publish_value f v s) = f \<and> so_revision s = MAX_REVISION \<and> so_revision (publish_value f v s) \<le> 1)"
  using assms by (auto simp: publish_value_def Let_def)

interpretation status: revision_chain status_cursor status_content status_advance
proof unfold_locales
  fix s :: status_state and f p
  assume le: "snd (status_cursor s) \<le> MAX_REVISION"
  show "status_cursor (status_advance f p s) = status_cursor s \<and>
      status_content (status_advance f p s) = status_content s \<or>
    snd (status_cursor s) < MAX_REVISION \<and>
      status_cursor (status_advance f p s) = (fst (status_cursor s), snd (status_cursor s) + 1) \<or>
    fst (status_cursor (status_advance f p s)) = f \<and> snd (status_cursor s) = MAX_REVISION \<and>
      snd (status_cursor (status_advance f p s)) \<le> 1"
  proof (cases p)
    case Invalidate
    then show ?thesis by (auto simp: invalidate_def split: option.splits)
  next
    case (Finish g read)
    show ?thesis
    proof (cases "observed_value read")
      case None
      with Finish show ?thesis by (simp add: observe_finish_def)
    next
      case (Some v)
      with Finish publish_value_advances [of s f v] le show ?thesis
        by (simp add: observe_finish_def Let_def)
    qed
  qed
qed

section \<open>Interleaved reads and invalidations\<close>

text \<open>
  \<open>capture\<close> is the observation in progress (the capture lock admits one): its generation, and
  whether an invalidation arrived since; \<open>answers\<close> are the values observers got; \<open>history\<close> records
  what was published under which identity.
\<close>

record observe_system =
  obs :: status_state
  capture :: "(u64 \<times> bool) option"
  answers :: "json list"
  history :: "((string \<times> u64) \<times> (json option \<times> string option)) list"

abbreviation status_record :: "status_state \<Rightarrow> (string \<times> u64) \<times> (json option \<times> string option)" where
  "status_record s \<equiv> (status_cursor s, status_content s)"

inductive observe_step :: "observe_system \<Rightarrow> observe_system \<Rightarrow> bool" where
  begins: "capture s = None \<Longrightarrow>
     observe_step s (s\<lparr>capture := Some (so_generation (obs s), False)\<rparr>)"
| invalidated: "invalidate (obs s) = Some t \<Longrightarrow>
     observe_step s (s\<lparr>obs := t, capture := map_option (\<lambda>(g, _). (g, True)) (capture s),
       history := status_record t # history s\<rparr>)"
| finishes: "capture s = Some (g, dirty) \<Longrightarrow> fresh \<notin> (\<lambda>x. fst (fst x)) ` set (history s) \<Longrightarrow>
     observe_finish fresh g read (obs s) = (result, t) \<Longrightarrow>
     observe_step s \<lparr>obs = t, capture = None,
       answers = (case result of Some (Inr v) \<Rightarrow> v # answers s | _ \<Rightarrow> answers s),
       history = status_record t # history s\<rparr>"

inductive observe_reachable :: "observe_system \<Rightarrow> bool" where
  start: "observe_reachable \<lparr>obs = status_default e, capture = None, answers = [],
     history = [status_record (status_default e)]\<rparr>"
| step: "observe_reachable s \<Longrightarrow> observe_step s t \<Longrightarrow> observe_reachable t"

text \<open>The identity a published value carries.\<close>

definition publication_of :: "json \<Rightarrow> json \<times> json" where
  "publication_of v = (jindex (jindex v ''_publication'') ''epoch'', jindex (jindex v ''_publication'') ''revision'')"

definition rendered :: "(string \<times> u64) \<times> (json option \<times> string option) \<Rightarrow> json option" where
  "rendered x = Option.bind (fst (snd x)) (\<lambda>v. jset v ''_publication'' (publication
     \<lparr>so_generation = 0, so_epoch = fst (fst x), so_previous_epoch = snd (snd x),
      so_revision = snd (fst x), so_value = None\<rparr>))"

lemma publication_gets:
  "jindex (publication s) ''epoch'' = JStr (so_epoch s)"
  "jindex (publication s) ''revision'' = JInt (uint (so_revision s))"
  by (auto simp: publication_def jmap_of_def jindex_def jmap_get_insert Let_def split: option.splits)
    (auto simp: jmap_get_def)

lemma jset_get: "jset v k x = Some r \<Longrightarrow> jindex r k = x"
  by (cases "(v, k, x)" rule: jset.cases) (auto simp: jindex_def jmap_get_insert, simp_all add: jmap_get_def)

lemma rendered_identity:
  "rendered x = Some r \<Longrightarrow> publication_of r = (JStr (fst (fst x)), JInt (uint (snd (fst x))))"
  by (auto simp: rendered_def publication_of_def bind_eq_Some_conv publication_gets dest!: jset_get)

lemma publish_value_value [simp]: "so_value (publish_value f v s) = Some v"
  by (auto simp: publish_value_def Let_def)

lemma observe_finish_answer:
  "observe_finish fresh g read s = (Some (Inr r), t) \<Longrightarrow> rendered (status_record t) = Some r"
  by (auto simp: observe_finish_def rendered_def publication_def Let_def split: option.splits if_splits)

definition observe_inv :: "observe_system \<Rightarrow> bool" where
  "observe_inv s \<longleftrightarrow> status.published (obs s) (history s) \<and>
     (\<forall>r \<in> set (answers s). \<exists>x \<in> set (history s). rendered x = Some r) \<and>
     (\<forall>g dirty. capture s = Some (g, dirty) \<longrightarrow>
        g \<le> so_generation (obs s) \<and> (dirty \<longleftrightarrow> g \<noteq> so_generation (obs s)))"

lemma fresh_epoch: "\<exists>f. f \<notin> (\<lambda>x. fst (fst x)) ` set h" for h :: "((string \<times> 'a) \<times> 'b) list"
proof -
  have "infinite (UNIV :: string set)" by (rule infinite_UNIV_listI)
  from ex_new_if_finite [OF this] show ?thesis by blast
qed

lemma word_succ_gt:
  fixes g :: u64
  assumes "g \<noteq> - 1"
  shows "g < g + 1"
proof -
  from assms have "unat g \<noteq> unat (- 1 :: u64)" using word_unat_eq_iff by blast
  moreover have "unat g < 2 ^ 64" using unsigned_less [of g] by simp
  ultimately have "unat g < 18446744073709551615" by (simp add: unsigned_minus_1_eq_mask mask_eq_exp_minus_1)
  then show ?thesis by (simp add: word_less_nat_alt unat_word_ariths)
qed

lemma observe_step_inv:
  assumes st: "observe_step s t" and inv: "observe_inv s"
  shows "observe_inv t"
proof -
  from inv have pub: "status.published (obs s) (history s)"
    and ans: "\<forall>r \<in> set (answers s). \<exists>x \<in> set (history s). rendered x = Some r"
    and cap: "\<And>g dirty. capture s = Some (g, dirty) \<Longrightarrow>
        g \<le> so_generation (obs s) \<and> (dirty \<longleftrightarrow> g \<noteq> so_generation (obs s))"
    by (auto simp: observe_inv_def)
  from st show ?thesis
  proof cases
    case begins
    with pub ans show ?thesis by (simp add: observe_inv_def)
  next
    case (invalidated u)
    then have ne: "so_generation (obs s) \<noteq> - 1" and u: "u = (obs s)\<lparr>so_generation := so_generation (obs s) + 1\<rparr>"
      by (auto simp: invalidate_def split: if_splits)
    from fresh_epoch obtain f where "f \<notin> (\<lambda>x. fst (fst x)) ` set (history s)" by blast
    from status.next_step [OF pub this, of Invalidate] invalidated
    have "status.published u (status_record u # history s)" by simp
    moreover have "g \<le> so_generation u \<and> g \<noteq> so_generation u" if "capture s = Some (g, d)" for g d
      using cap [OF that] word_succ_gt [OF ne] u by auto
    ultimately show ?thesis using invalidated(1) ans by (auto simp: observe_inv_def)
  next
    case (finishes g dirty fresh read result u)
    from status.next_step [OF pub finishes(3), of "Finish g read"] finishes(4)
    have p: "status.published u (status_record u # history s)" by simp
    have "\<exists>x \<in> set (status_record u # history s). rendered x = Some r"
      if "r \<in> set (case result of Some (Inr v) \<Rightarrow> v # answers s | _ \<Rightarrow> answers s)" for r
    proof (cases "result = Some (Inr r)")
      case True
      with finishes(4) observe_finish_answer [of fresh g read "obs s" r u] show ?thesis by auto
    next
      case False
      with that ans show ?thesis by (auto split: option.splits sum.splits)
    qed
    with p show ?thesis unfolding finishes(1) observe_inv_def by simp
  qed
qed

lemma observe_reachable_inv: "observe_reachable s \<Longrightarrow> observe_inv s"
proof (induction rule: observe_reachable.induct)
  case (start e)
  have "status.published (status_default e) [status_record (status_default e)]"
    by (rule status.first) (simp add: status_default_def)
  then show ?case by (simp add: observe_inv_def)
next
  case (step s t)
  then show ?case using observe_step_inv by blast
qed

text \<open>
  C10. The identity of a status publication is authoritative: however reads and invalidations
  interleave and however often the epoch is renewed, two observers that received the same epoch
  and revision received the same value; and the current revision never exceeds the largest
  integer a frontend represents exactly.
\<close>

theorem status_identity:
  assumes "observe_reachable s" and "a \<in> set (answers s)" and "b \<in> set (answers s)"
    and "publication_of a = publication_of b"
  shows "a = b \<and> uint (so_revision (obs s)) < 2 ^ 53"
proof -
  from observe_reachable_inv [OF assms(1)] have pub: "status.published (obs s) (history s)"
    and ans: "\<forall>r \<in> set (answers s). \<exists>x \<in> set (history s). rendered x = Some r"
    by (auto simp: observe_inv_def)
  from ans assms(2,3) obtain x y where x: "x \<in> set (history s)" "rendered x = Some a"
    and y: "y \<in> set (history s)" "rendered y = Some b" by blast
  from rendered_identity [OF x(2)] rendered_identity [OF y(2)] assms(4) have "fst x = fst y"
    by (auto simp: prod_eq_iff word_uint_eq_iff)
  with status.identity_determines_content [OF pub] x(1) y(1) have "x = y"
    by (metis prod.collapse)
  moreover have "uint (so_revision (obs s)) < 2 ^ 53"
    using status.revision_bounded [OF pub] by (simp add: MAX_REVISION_def word_le_def)
  ultimately show ?thesis using x(2) y(2) by simp
qed

definition first_read :: "anyhow_error + json" where
  "first_read = Inr (JObj [(''available'', JBool True)])"

lemma capture_started:
  "observe_reachable \<lparr>obs = status_default ''e'', capture = Some (0, False), answers = [],
     history = [status_record (status_default ''e'')]\<rparr>"
  using observe_reachable.step [OF observe_reachable.start [of "''e''"] observe_step.begins]
  by (simp add: status_default_def)

theorem status_identity_witness:
  "\<exists>s a b. observe_reachable s \<and> answers s = [a, b] \<and> a = b \<and> uint (so_revision (obs s)) < 2 ^ 53"
proof -
  let ?d = "status_default ''e''"
  let ?t = "?d\<lparr>so_revision := 1, so_value := Some (JObj [(''available'', JBool True)])\<rparr>"
  let ?r = "JObj [(''_publication'', publication ?t), (''available'', JBool True)]"
  have f1: "observe_finish ''f'' 0 first_read ?d = (Some (Inr ?r), ?t)"
    by (simp add: first_read_def observe_finish_def observed_value_def publish_value_def
        status_default_def jmap_get_def MAX_REVISION_def Let_def)
  have f2: "observe_finish ''g'' 0 first_read ?t = (Some (Inr ?r), ?t)"
    by (simp add: first_read_def observe_finish_def observed_value_def publish_value_def
        status_default_def jmap_get_def Let_def)
  let ?h = "[status_record ?t, status_record ?d]"
  let ?s0 = "\<lparr>obs = ?d, capture = Some (0, False), answers = [], history = [status_record ?d]\<rparr>"
  let ?s1 = "\<lparr>obs = ?t, capture = None, answers = [?r], history = ?h\<rparr>"
  let ?s2 = "\<lparr>obs = ?t, capture = Some (0, False), answers = [?r], history = ?h\<rparr>"
  let ?s3 = "\<lparr>obs = ?t, capture = None, answers = [?r, ?r], history = status_record ?t # ?h\<rparr>"
  have "observe_step ?s0 ?s1"
    using observe_step.finishes [of ?s0 0 False "''f''" first_read "Some (Inr ?r)" ?t] f1
    by (simp add: status_default_def)
  moreover have "observe_step ?s1 ?s2"
    using observe_step.begins [of ?s1] by (simp add: status_default_def)
  moreover have "observe_step ?s2 ?s3"
    using observe_step.finishes [of ?s2 0 False "''g''" first_read "Some (Inr ?r)" ?t] f2
    by (simp add: status_default_def)
  ultimately have r: "observe_reachable ?s3"
    using capture_started observe_reachable.step by meson
  from status_identity [OF r, of ?r ?r] r show ?thesis by fastforce
qed

text \<open>What a client is shown for a read: the status marked available, or only that there is none.\<close>

definition shown_status :: "anyhow_error + json \<Rightarrow> jmap" where
  "shown_status read =
     (case read of
        Inr (JObj m) \<Rightarrow> jmap_insert ''available'' (JBool True) m
      | _ \<Rightarrow> [(''available'', JBool False)])"

text \<open>What reading the status can return: an error, or the object of a status, which has no such field.\<close>

definition status_read :: "anyhow_error + json \<Rightarrow> bool" where
  "status_read read \<longleftrightarrow> isl read \<or> (\<exists>m. read = Inr (JObj m) \<and> jmap_get m ''available'' = None)"

text \<open>
  An observation overtaken by an invalidation never publishes: it is answered with a conflict and
  leaves the state untouched, whatever it read. One that was not overtaken publishes what it read, the status marked
  available, or, when the read failed, an object that only says that no status is available; it
  answers with that object and the identity it was published under, and the identity changes exactly
  when the object differs from the last published one.
\<close>

theorem observation_freshness:
  assumes "observe_reachable s" and "capture s = Some (g, dirty)" and "status_read read"
  shows "if dirty
    then observe_finish fresh g read (obs s) =
      (Some (Inl (into_anyhow (conflict_error OpStatus
         ''Wi-Fi status changed during observation; read current state again''))), obs s)
    else \<exists>t. observe_finish fresh g read (obs s) =
        (Some (Inr (JObj (jmap_insert ''_publication'' (publication t) (shown_status read)))), t) \<and>
      so_value t = Some (JObj (shown_status read)) \<and>
      (status_cursor t = status_cursor (obs s) \<longleftrightarrow> so_value (obs s) = Some (JObj (shown_status read)))"
proof -
  from observe_reachable_inv [OF assms(1)] assms(2)
  have gen: "dirty \<longleftrightarrow> g \<noteq> so_generation (obs s)" and pub: "status.published (obs s) (history s)"
    by (auto simp: observe_inv_def)
  have v: "observed_value read = Some (JObj (shown_status read))"
    using assms(3) by (cases read) (auto simp: observed_value_def shown_status_def status_read_def jmap_get_def)
  have le: "so_revision (obs s) \<le> MAX_REVISION" using status.revision_bounded [OF pub] by simp
  have "(1 :: u64) \<noteq> MAX_REVISION" by (simp add: MAX_REVISION_def)
  then have "status_cursor (publish_value fresh (JObj m) (obs s)) = status_cursor (obs s)
      \<longleftrightarrow> so_value (obs s) = Some (JObj m)" for m
    by (auto simp: publish_value_def Let_def)
  with gen v show ?thesis by (auto simp: observe_finish_def publish_value_def Let_def)
qed

theorem observation_freshness_witness:
  "\<exists>t. observe_finish ''f'' 0 (Inr (JObj [(''enabled'', JBool True)])) (status_default ''e'') =
      (Some (Inr (JObj (jmap_insert ''_publication'' (publication t)
         (jmap_insert ''available'' (JBool True) [(''enabled'', JBool True)])))), t)"
proof -
  have "status_read (Inr (JObj [(''enabled'', JBool True)]))" by (simp add: status_read_def jmap_get_def)
  from observation_freshness [OF capture_started _ this, of 0 False "''f''"] show ?thesis
    by (auto simp: shown_status_def)
qed

end
