(* ===== verification/Utf8.thy ===== *)
theory Utf8
  imports Prelude
begin

text \<open>
  \<open>String::from_utf8_lossy\<close>, which the daemon uses to display SSIDs: valid UTF-8 sequences are kept,
  each maximal ill-formed subsequence becomes one replacement character.
\<close>

definition in_range :: "nat \<Rightarrow> nat \<Rightarrow> char \<Rightarrow> bool" where
  "in_range lo hi c \<longleftrightarrow> lo \<le> byte_val c \<and> byte_val c \<le> hi"

text \<open>The bytes a lead byte allows to follow it; \<open>None\<close> for a byte that starts no sequence.\<close>

definition utf8_tail :: "char \<Rightarrow> (nat \<times> nat) list option" where
  "utf8_tail c =
     (if in_range 0 127 c then Some []
      else if in_range 194 223 c then Some [(128, 191)]
      else if in_range 224 224 c then Some [(160, 191), (128, 191)]
      else if in_range 225 236 c \<or> in_range 238 239 c then Some [(128, 191), (128, 191)]
      else if in_range 237 237 c then Some [(128, 159), (128, 191)]
      else if in_range 240 240 c then Some [(144, 191), (128, 191), (128, 191)]
      else if in_range 241 243 c then Some [(128, 191), (128, 191), (128, 191)]
      else if in_range 244 244 c then Some [(128, 143), (128, 191), (128, 191)]
      else None)"

text \<open>How many of the following bytes fit, and whether all did.\<close>

fun utf8_fit :: "(nat \<times> nat) list \<Rightarrow> bytes \<Rightarrow> nat \<times> bool" where
  "utf8_fit [] bs = (0, True)"
| "utf8_fit (r # rs) [] = (0, False)"
| "utf8_fit ((lo, hi) # rs) (b # bs) =
     (if in_range lo hi b then (let (n, ok) = utf8_fit rs bs in (Suc n, ok)) else (0, False))"

definition utf8_next :: "bytes \<Rightarrow> nat \<times> bool" where
  "utf8_next bs =
     (case bs of
        [] \<Rightarrow> (0, True)
      | b # rest \<Rightarrow>
          (case utf8_tail b of
             None \<Rightarrow> (1, False)
           | Some rs \<Rightarrow> (let (n, ok) = utf8_fit rs rest in (Suc n, ok))))"

definition replacement_character :: bytes where
  "replacement_character = [char_of (239 :: nat), char_of (191 :: nat), char_of (189 :: nat)]"

lemma utf8_next_pos: "bs \<noteq> [] \<Longrightarrow> 0 < fst (utf8_next bs)"
  by (cases bs) (auto simp: utf8_next_def split: option.splits prod.splits)

function from_utf8_lossy :: "bytes \<Rightarrow> bytes" where
  "from_utf8_lossy bs =
     (if bs = [] then []
      else (let (n, ok) = utf8_next bs
            in (if ok then take n bs else replacement_character) @ from_utf8_lossy (drop n bs)))"
  by pat_completeness auto
termination
proof (relation "measure length")
  fix bs :: bytes and x n ok
  assume "bs \<noteq> []" "x = utf8_next bs" "(n, ok) = x"
  then have "0 < n" using utf8_next_pos [of bs] by (metis fst_conv)
  with \<open>bs \<noteq> []\<close> show "(drop n bs, bs) \<in> measure length" by simp
qed simp

declare from_utf8_lossy.simps [simp del]

text \<open>Well-formed UTF-8.\<close>

function utf8_valid :: "bytes \<Rightarrow> bool" where
  "utf8_valid bs =
     (if bs = [] then True else (let (n, ok) = utf8_next bs in ok \<and> utf8_valid (drop n bs)))"
  by pat_completeness auto
termination
proof (relation "measure length")
  fix bs :: bytes and x n ok
  assume "bs \<noteq> []" "x = utf8_next bs" "(n, ok) = x"
  then have "0 < n" using utf8_next_pos [of bs] by (metis fst_conv)
  with \<open>bs \<noteq> []\<close> show "(drop n bs, bs) \<in> measure length" by simp
qed simp

declare utf8_valid.simps [simp del]

lemma utf8_induct [case_names Nil step]:
  assumes "P []" and "\<And>bs. bs \<noteq> [] \<Longrightarrow> P (drop (fst (utf8_next bs)) bs) \<Longrightarrow> P bs"
  shows "P bs"
proof (induction bs rule: from_utf8_lossy.induct)
  case (1 bs)
  show ?case
  proof (cases "bs = []")
    case True
    with assms(1) show ?thesis by simp
  next
    case False
    from "1.IH" [OF False refl prod.collapse] assms(2) [OF False] show ?thesis by simp
  qed
qed

lemma lossy_step:
  "bs \<noteq> [] \<Longrightarrow> from_utf8_lossy bs =
     (if snd (utf8_next bs) then take (fst (utf8_next bs)) bs else replacement_character)
     @ from_utf8_lossy (drop (fst (utf8_next bs)) bs)"
  by (subst from_utf8_lossy.simps) (simp add: case_prod_unfold Let_def)

lemma valid_step:
  "bs \<noteq> [] \<Longrightarrow> utf8_valid bs \<longleftrightarrow> snd (utf8_next bs) \<and> utf8_valid (drop (fst (utf8_next bs)) bs)"
  by (subst utf8_valid.simps) (simp add: case_prod_unfold Let_def)

lemma lossy_Nil [simp]: "from_utf8_lossy [] = []"
  by (simp add: from_utf8_lossy.simps)

lemma valid_Nil [simp]: "utf8_valid []"
  by (simp add: utf8_valid.simps)

text \<open>A well-formed text is displayed as it is.\<close>

lemma lossy_valid: "utf8_valid bs \<Longrightarrow> from_utf8_lossy bs = bs"
  by (induction bs rule: utf8_induct) (simp_all add: lossy_step valid_step)

text \<open>A sequence that fits is recognised whatever follows it.\<close>

lemma utf8_fit_append:
  "utf8_fit rs bs = (n, True) \<Longrightarrow> utf8_fit rs (take n bs @ cs) = (n, True)"
  by (induction rs bs arbitrary: n rule: utf8_fit.induct) (auto split: if_splits prod.splits)

lemma utf8_next_append:
  assumes "bs \<noteq> []" and "utf8_next bs = (n, True)"
  shows "utf8_next (take n bs @ cs) = (n, True)"
proof -
  obtain b rest where b: "bs = b # rest" using assms(1) by (cases bs) auto
  from assms(2) obtain rs k where "utf8_tail b = Some rs" "utf8_fit rs rest = (k, True)" "n = Suc k"
    by (auto simp: b utf8_next_def split: option.splits prod.splits)
  with utf8_fit_append [of rs rest k cs] show ?thesis by (simp add: b utf8_next_def)
qed

lemma replacement_next: "utf8_next (replacement_character @ cs) = (3, True)"
  by (simp add: replacement_character_def utf8_next_def utf8_tail_def in_range_def byte_val_def)

lemma utf8_next_le: "fst (utf8_next bs) \<le> length bs"
proof -
  have "fst (utf8_fit rs cs) \<le> length cs" for rs cs
    by (induction rs cs rule: utf8_fit.induct) (auto split: prod.splits)
  then show ?thesis by (auto simp: utf8_next_def split: list.splits option.splits prod.splits) (metis fst_conv)
qed

text \<open>What is displayed is well-formed UTF-8, as a Rust \<open>String\<close> must be.\<close>

lemma lossy_is_valid: "utf8_valid (from_utf8_lossy bs)"
proof (induction bs rule: utf8_induct)
  case Nil
  then show ?case by simp
next
  case (step bs)
  let ?n = "fst (utf8_next bs)" let ?r = "from_utf8_lossy (drop ?n bs)"
  show ?case
  proof (cases "snd (utf8_next bs)")
    case True
    then have nx: "utf8_next bs = (?n, True)" by (metis prod.collapse)
    have l: "from_utf8_lossy bs = take ?n bs @ ?r" using lossy_step [OF step(1)] True by simp
    have "length (take ?n bs) = ?n" using utf8_next_le by simp
    with utf8_next_append [OF step(1) nx, of ?r] utf8_next_pos [OF step(1)] step(2) show ?thesis
      unfolding l by (subst valid_step) (auto simp: step(1))
  next
    case False
    then have l: "from_utf8_lossy bs = replacement_character @ ?r" using lossy_step [OF step(1)] by simp
    have "length replacement_character = 3" by (simp add: replacement_character_def)
    with replacement_next step(2) show ?thesis
      unfolding l by (subst valid_step) (auto simp: replacement_character_def)
  qed
qed

lemma lossy_exact_iff: "from_utf8_lossy bs = bs \<longleftrightarrow> utf8_valid bs"
  using lossy_valid lossy_is_valid by metis

end
