(* ===== verification/Security.thy ===== *)
theory Security
  imports Errors Codec
begin

text \<open>
  The access-point security flags of \<open>src/model.rs\<close> and their classification (\<open>src/auth.rs\<close>).
  NetworkManager reports three 32-bit flag words per access point.
\<close>

definition NM_AP_FLAGS_PRIVACY :: u32 where "NM_AP_FLAGS_PRIVACY = 0x1"
definition NM_AP_SEC_KEY_MGMT_PSK :: u32 where "NM_AP_SEC_KEY_MGMT_PSK = 0x100"
definition NM_AP_SEC_KEY_MGMT_802_1X :: u32 where "NM_AP_SEC_KEY_MGMT_802_1X = 0x200"
definition NM_AP_SEC_KEY_MGMT_SAE :: u32 where "NM_AP_SEC_KEY_MGMT_SAE = 0x400"
definition NM_AP_SEC_KEY_MGMT_OWE :: u32 where "NM_AP_SEC_KEY_MGMT_OWE = 0x800"
definition NM_AP_SEC_KEY_MGMT_OWE_TM :: u32 where "NM_AP_SEC_KEY_MGMT_OWE_TM = 0x1000"
definition NM_AP_SEC_KEY_MGMT_EAP_SUITE_B_192 :: u32 where "NM_AP_SEC_KEY_MGMT_EAP_SUITE_B_192 = 0x2000"

lemmas flag_defs = NM_AP_FLAGS_PRIVACY_def NM_AP_SEC_KEY_MGMT_PSK_def NM_AP_SEC_KEY_MGMT_802_1X_def
  NM_AP_SEC_KEY_MGMT_SAE_def NM_AP_SEC_KEY_MGMT_OWE_def NM_AP_SEC_KEY_MGMT_OWE_TM_def
  NM_AP_SEC_KEY_MGMT_EAP_SUITE_B_192_def

datatype security =
    SecOpen | SecOwe | SecOweTransition | SecWpa | SecWpa2Or3 | SecWep | SecEnterprise
  | SecOther string

datatype security_class =
    ScOpen | ScEnhancedOpen | ScLegacy | ScPersonal | ScEnterprise | ScUnknown

datatype wep_key_type = WepKey | WepPhrase

fun security_as_str :: "security \<Rightarrow> string" where
  "security_as_str SecOpen = ''--''"
| "security_as_str SecOwe = ''OWE''"
| "security_as_str SecOweTransition = ''OWE-TM''"
| "security_as_str SecWpa = ''WPA''"
| "security_as_str SecWpa2Or3 = ''WPA2/3''"
| "security_as_str SecWep = ''WEP''"
| "security_as_str SecEnterprise = ''Enterprise''"
| "security_as_str (SecOther value) = value"

definition security_deserialize :: "string \<Rightarrow> security" where
  "security_deserialize value =
     (if value \<in> {''--'', ''open'', ''none''} then SecOpen
      else if value \<in> {''OWE'', ''owe''} then SecOwe
      else if value \<in> {''OWE-TM'', ''owe-tm''} then SecOweTransition
      else if value = ''WPA'' then SecWpa
      else if value = ''WPA2/3'' then SecWpa2Or3
      else if value \<in> {''WEP'', ''wep''} then SecWep
      else if value = ''Enterprise'' then SecEnterprise
      else SecOther value)"

section \<open>Classification\<close>

definition has_owe :: "u32 \<Rightarrow> bool" where
  "has_owe flags \<longleftrightarrow> flags AND (NM_AP_SEC_KEY_MGMT_OWE OR NM_AP_SEC_KEY_MGMT_OWE_TM) \<noteq> 0"

definition flags_are_passwordless :: "u32 \<Rightarrow> bool" where
  "flags_are_passwordless flags \<longleftrightarrow>
     flags AND (NM_AP_SEC_KEY_MGMT_PSK OR NM_AP_SEC_KEY_MGMT_802_1X OR NM_AP_SEC_KEY_MGMT_SAE
       OR NM_AP_SEC_KEY_MGMT_EAP_SUITE_B_192) = 0 \<and> (flags = 0 \<or> has_owe flags)"

definition ap_uses_owe :: "u32 \<Rightarrow> u32 \<Rightarrow> bool" where
  "ap_uses_owe wpa_flags rsn_flags \<longleftrightarrow> (wpa_flags OR rsn_flags) AND NM_AP_SEC_KEY_MGMT_OWE \<noteq> 0"

definition ap_is_passwordless :: "u32 \<Rightarrow> u32 \<Rightarrow> u32 \<Rightarrow> bool" where
  "ap_is_passwordless flags wpa_flags rsn_flags \<longleftrightarrow>
     ap_uses_owe wpa_flags rsn_flags \<or>
     (\<not> flags AND NM_AP_FLAGS_PRIVACY \<noteq> 0 \<and> flags_are_passwordless wpa_flags
        \<and> flags_are_passwordless rsn_flags)"

definition ap_supports_psk :: "u32 \<Rightarrow> u32 \<Rightarrow> bool" where
  "ap_supports_psk wpa_flags rsn_flags \<longleftrightarrow>
     (wpa_flags OR rsn_flags) AND (NM_AP_SEC_KEY_MGMT_PSK OR NM_AP_SEC_KEY_MGMT_SAE) \<noteq> 0"

definition ap_supports_enterprise :: "u32 \<Rightarrow> u32 \<Rightarrow> bool" where
  "ap_supports_enterprise wpa_flags rsn_flags \<longleftrightarrow>
     (wpa_flags OR rsn_flags) AND (NM_AP_SEC_KEY_MGMT_802_1X OR NM_AP_SEC_KEY_MGMT_EAP_SUITE_B_192) \<noteq> 0"

definition ap_uses_wep :: "u32 \<Rightarrow> u32 \<Rightarrow> u32 \<Rightarrow> bool" where
  "ap_uses_wep flags wpa_flags rsn_flags \<longleftrightarrow>
     flags AND NM_AP_FLAGS_PRIVACY \<noteq> 0 \<and> wpa_flags = 0 \<and> rsn_flags = 0"

definition enterprise_key_mgmt :: "u32 \<Rightarrow> u32 \<Rightarrow> string" where
  "enterprise_key_mgmt wpa_flags rsn_flags =
     (if (wpa_flags OR rsn_flags) AND NM_AP_SEC_KEY_MGMT_EAP_SUITE_B_192 \<noteq> 0
      then ''wpa-eap-suite-b-192'' else ''wpa-eap'')"

definition passwordless_security :: "u32 \<Rightarrow> u32 \<Rightarrow> security" where
  "passwordless_security wpa_flags rsn_flags =
     (if (wpa_flags OR rsn_flags) AND NM_AP_SEC_KEY_MGMT_OWE \<noteq> 0 then SecOwe
      else if (wpa_flags OR rsn_flags) AND NM_AP_SEC_KEY_MGMT_OWE_TM \<noteq> 0 then SecOweTransition
      else SecOpen)"

definition secured_network_label :: "u32 \<Rightarrow> u32 \<Rightarrow> security" where
  "secured_network_label wpa_flags rsn_flags =
     (if rsn_flags \<noteq> 0 then SecWpa2Or3 else if wpa_flags \<noteq> 0 then SecWpa else SecWep)"

definition security_label :: "u32 \<Rightarrow> u32 \<Rightarrow> u32 \<Rightarrow> security" where
  "security_label flags wpa_flags rsn_flags =
     (if ap_is_passwordless flags wpa_flags rsn_flags then passwordless_security wpa_flags rsn_flags
      else secured_network_label wpa_flags rsn_flags)"

definition security_class :: "u32 \<Rightarrow> u32 \<Rightarrow> u32 \<Rightarrow> security_class" where
  "security_class flags wpa_flags rsn_flags =
     (case security_label flags wpa_flags rsn_flags of
        SecOpen \<Rightarrow> ScOpen
      | SecOweTransition \<Rightarrow> ScOpen
      | SecOwe \<Rightarrow> ScEnhancedOpen
      | SecWep \<Rightarrow> ScLegacy
      | SecEnterprise \<Rightarrow> ScEnterprise
      | SecOther _ \<Rightarrow> ScUnknown
      | _ \<Rightarrow> (if ap_supports_enterprise wpa_flags rsn_flags then ScEnterprise
              else if ap_supports_psk wpa_flags rsn_flags then ScPersonal
              else ScUnknown))"

datatype wifi_authentication =
    AuthOpen | AuthOwe | AuthPersonal | AuthWep | AuthEnterprise | AuthUnsupported

definition classify :: "u32 \<Rightarrow> u32 \<Rightarrow> u32 \<Rightarrow> wifi_authentication" where
  "classify flags wpa_flags rsn_flags =
     (case security_class flags wpa_flags rsn_flags of
        ScOpen \<Rightarrow> AuthOpen | ScEnhancedOpen \<Rightarrow> AuthOwe | ScPersonal \<Rightarrow> AuthPersonal
      | ScLegacy \<Rightarrow> AuthWep | ScEnterprise \<Rightarrow> AuthEnterprise | ScUnknown \<Rightarrow> AuthUnsupported)"

definition personal_key_management :: "u32 \<Rightarrow> u32 \<Rightarrow> string" where
  "personal_key_management wpa_flags rsn_flags =
     (let flags = wpa_flags OR rsn_flags
      in if flags AND NM_AP_SEC_KEY_MGMT_SAE \<noteq> 0 \<and> flags AND NM_AP_SEC_KEY_MGMT_PSK = 0
         then ''sae'' else ''wpa-psk'')"

section \<open>Password formats\<close>

datatype wifi_password_format = WpaPsk | WepFormat wep_key_type

definition is_ascii :: "string \<Rightarrow> bool" where
  "is_ascii s = list_all (\<lambda>c. byte_val c < 128) s"

definition format_message :: "wifi_password_format \<Rightarrow> string \<Rightarrow> string option" where
  "format_message f value =
     (case f of
        WpaPsk \<Rightarrow>
          if (8 \<le> length value \<and> length value \<le> 63) \<or> (length value = 64 \<and> list_all is_ascii_hexdigit value)
          then None
          else Some ''WPA-PSK password must be 8-63 characters, or 64 hexadecimal characters''
      | WepFormat WepKey \<Rightarrow>
          if (length value \<in> {5, 13} \<and> is_ascii value)
             \<or> (length value \<in> {10, 26} \<and> list_all is_ascii_hexdigit value)
          then None
          else Some ''WEP key must be 5 or 13 ASCII characters, or 10 or 26 hexadecimal characters''
      | WepFormat WepPhrase \<Rightarrow>
          if 8 \<le> length value \<and> length value \<le> 64 then None
          else Some ''WEP passphrase must be 8-64 characters'')"

definition validate_format ::
    "wifi_password_format \<Rightarrow> string \<Rightarrow> error_operation \<Rightarrow> string \<Rightarrow> anyhow_error + unit" where
  "validate_format f value operation field =
     (case format_message f value of
        None \<Rightarrow> Inr ()
      | Some message \<Rightarrow> Inl (into_anyhow (with_detail (validation_error operation message)
          ''field'' (JStr field))))"

section \<open>What the classes mean\<close>

lemma and_or_zero: "f AND (a OR b) = 0 \<longleftrightarrow> f AND a = 0 \<and> f AND b = 0" for f a b :: u32
  by (simp add: bit.conj_disj_distrib or_eq_0_iff)

lemma or_and_zero: "(a OR b) AND f = 0 \<longleftrightarrow> a AND f = 0 \<and> b AND f = 0" for f a b :: u32
  by (simp add: bit.conj_disj_distrib2 or_eq_0_iff)

lemmas flag_zero = and_or_zero or_and_zero

lemma passwordless_label:
  "security_label f w r \<in> {SecOpen, SecOwe, SecOweTransition} \<longleftrightarrow> ap_is_passwordless f w r"
  by (simp add: security_label_def passwordless_security_def secured_network_label_def)

text \<open>
  The security class of an access point is what its flags say: it is open or enhanced open
  exactly when no password is needed, enhanced open exactly when it offers OWE, legacy exactly
  when it has privacy but neither WPA nor RSN flags; an access point that asks for a pre-shared
  key, SAE or enterprise credentials and does not offer OWE is personal or enterprise and is never
  treated as open, and enterprise wins when both are offered.
\<close>

theorem security_class_meaning:
  "(security_class f w r \<in> {ScOpen, ScEnhancedOpen} \<longleftrightarrow> ap_is_passwordless f w r) \<and>
   (security_class f w r = ScEnhancedOpen \<longleftrightarrow> ap_uses_owe w r) \<and>
   (security_class f w r = ScLegacy \<longleftrightarrow> ap_uses_wep f w r) \<and>
   (\<not> ap_uses_owe w r \<and> ap_supports_enterprise w r \<longrightarrow> security_class f w r = ScEnterprise) \<and>
   (\<not> ap_uses_owe w r \<and> ap_supports_psk w r \<and> \<not> ap_supports_enterprise w r \<longrightarrow>
      security_class f w r = ScPersonal)"
proof -
  have legacy: "ap_uses_wep f w r \<longleftrightarrow> \<not> ap_is_passwordless f w r \<and> w = 0 \<and> r = 0"
    by (auto simp: ap_uses_wep_def ap_is_passwordless_def ap_uses_owe_def flags_are_passwordless_def)
  have secret: "\<not> ap_is_passwordless f w r"
    if "\<not> ap_uses_owe w r" "ap_supports_enterprise w r \<or> ap_supports_psk w r"
    using that
    by (auto simp: ap_is_passwordless_def flags_are_passwordless_def ap_supports_enterprise_def
        ap_supports_psk_def flag_zero)
  have some: "w \<noteq> 0 \<or> r \<noteq> 0" if "ap_supports_enterprise w r \<or> ap_supports_psk w r"
    using that by (auto simp: ap_supports_enterprise_def ap_supports_psk_def)
  have owe: "ap_uses_owe w r \<Longrightarrow> ap_is_passwordless f w r" by (simp add: ap_is_passwordless_def)
  show ?thesis
    using legacy secret some owe
    by (auto simp: security_class_def security_label_def passwordless_security_def
        secured_network_label_def ap_uses_owe_def split: if_splits)
qed

theorem security_class_meaning_witness:
  "\<not> ap_uses_owe 0x100 0 \<and> security_class 1 0x100 0 = ScPersonal"
proof -
  have "\<not> ap_uses_owe 0x100 0" "ap_supports_psk 0x100 0" "\<not> ap_supports_enterprise 0x100 0"
    by (simp_all add: ap_uses_owe_def ap_supports_psk_def ap_supports_enterprise_def flag_defs)
  with security_class_meaning [of 1 "0x100" 0] show ?thesis by blast
qed

text \<open>
  The textual form of a security value is canonical: reading back what was written gives the
  same value, for every value the classification produces and for every foreign text the daemon
  keeps, and reading any text and writing it again is stable.
\<close>

theorem security_text_roundtrip:
  "security_deserialize (security_as_str (security_label f w r)) = security_label f w r \<and>
   security_deserialize (security_as_str (security_deserialize t)) = security_deserialize t"
proof -
  have "security_deserialize (security_as_str s) = s" if "\<And>v. s \<noteq> SecOther v" for s
    using that by (cases s) (simp_all add: security_deserialize_def)
  moreover have "security_label f w r \<noteq> SecOther v" for v
    by (simp add: security_label_def passwordless_security_def secured_network_label_def)
  moreover have "security_deserialize (security_as_str (security_deserialize t)) = security_deserialize t"
  proof (cases "security_deserialize t")
    case (SecOther v)
    then have "v = t" by (auto simp: security_deserialize_def split: if_splits)
    with SecOther show ?thesis by simp
  qed (simp_all add: security_deserialize_def)
  ultimately show ?thesis by blast
qed

end
