(* ===== verification/Networks.thy ===== *)
theory Networks
  imports Utf8 Security "HOL-Library.Product_Lexorder" "HOL-Library.Multiset"
begin

text \<open>
  Network identity in \<open>src/model.rs\<close> and \<open>src/model/identity.rs\<close>: SSIDs, BSSIDs and interface
  names, the network keys frontends select by, and the grouping of access points into networks.
\<close>

section \<open>Identities\<close>

text \<open>A number as \<open>format!\<close> prints it.\<close>

fun decimal :: "nat \<Rightarrow> string" where
  "decimal n = (if n < 10 then [char_of (48 + n)] else decimal (n div 10) @ [char_of (48 + n mod 10)])"

declare decimal.simps [simp del]

definition validate_ssid_bytes :: "bytes \<Rightarrow> anyhow_error + unit" where
  "validate_ssid_bytes ssid =
     (if ssid = [] \<or> 32 < length ssid
      then Inl [LContext (''Wi-Fi SSID must be 1-32 bytes; got '' @ decimal (length ssid) @ '' bytes'')]
      else Inr ())"

definition display_ssid :: "bytes \<Rightarrow> string" where
  "display_ssid ssid = from_utf8_lossy ssid"

record ssid =
  ssid_exact :: bytes
  ssid_display :: string

definition ssid_from_bytes :: "bytes \<Rightarrow> anyhow_error + ssid" where
  "ssid_from_bytes bs =
     and_then (validate_ssid_bytes bs) (\<lambda>_. Inr \<lparr>ssid_exact = bs, ssid_display = display_ssid bs\<rparr>)"

definition ssid_from_display :: "string \<Rightarrow> anyhow_error + ssid" where
  "ssid_from_display display = ssid_from_bytes display"

definition looks_like_bssid :: "string \<Rightarrow> bool" where
  "looks_like_bssid value \<longleftrightarrow>
     length (filter (\<lambda>c. c = CHR '':'') value) + length (filter (\<lambda>c. c = CHR ''-'') value) = 5 \<and>
     list_all (\<lambda>part. length part = 2 \<and> list_all is_ascii_hexdigit part)
       (split_on (\<lambda>c. c = CHR '':'' \<or> c = CHR ''-'') value)"

definition validate_bssid :: "string \<Rightarrow> anyhow_error + unit" where
  "validate_bssid bssid =
     (if looks_like_bssid bssid then Inr ()
      else Inl [LContext (''invalid BSSID '' @ [CHR 0x27] @ bssid @ [CHR 0x27] @ ''; expected six hexadecimal octets'')])"

definition bssid_parse :: "string \<Rightarrow> anyhow_error + string" where
  "bssid_parse value =
     and_then (validate_bssid value) (\<lambda>_.
       Inr (map (\<lambda>c. to_ascii_uppercase (if c = CHR ''-'' then CHR '':'' else c)) value))"

section \<open>Hexadecimal text\<close>

definition hex_digit :: "nat \<Rightarrow> char" where
  "hex_digit n = char_of (if n < 10 then 48 + n else 87 + n)"

definition ssid_hex :: "bytes \<Rightarrow> string" where
  "ssid_hex bs = concat (map (\<lambda>c. [hex_digit (byte_val c div 16), hex_digit (byte_val c mod 16)]) bs)"

definition hex_value :: "char \<Rightarrow> nat option" where
  "hex_value c =
     (let n = byte_val c
      in if 48 \<le> n \<and> n \<le> 57 then Some (n - 48)
         else if 97 \<le> n \<and> n \<le> 102 then Some (n - 87)
         else if 65 \<le> n \<and> n \<le> 70 then Some (n - 55)
         else None)"

text \<open>\<open>u8::from_str_radix(octet, 16)\<close> on a two-byte octet; a leading plus sign is accepted.\<close>

definition octet_from_hex :: "char \<Rightarrow> char \<Rightarrow> char option" where
  "octet_from_hex a b =
     (if a = CHR ''+'' then map_option char_of (hex_value b)
      else (case (hex_value a, hex_value b) of
              (Some x, Some y) \<Rightarrow> Some (char_of (16 * x + y)) | _ \<Rightarrow> None))"

fun bytes_from_hex :: "string \<Rightarrow> bytes option" where
  "bytes_from_hex [] = Some []"
| "bytes_from_hex [a] = None"
| "bytes_from_hex (a # b # rest) =
     (case octet_from_hex a b of
        None \<Rightarrow> None | Some c \<Rightarrow> map_option (\<lambda>cs. c # cs) (bytes_from_hex rest))"

section \<open>Access points and network keys\<close>

record access_point =
  ap_ssid :: string
  ap_ssid_bytes :: bytes
  ap_active :: bool
  ap_security :: security
  ap_strength :: u8
  ap_frequency :: u32
  ap_channel :: u32
  ap_band :: string
  ap_mode :: string
  ap_max_bitrate_mbps :: u32
  ap_bandwidth_mhz :: u32
  ap_ssid_hex :: string
  ap_wpa_flags_label :: string
  ap_rsn_flags_label :: string
  ap_bssid :: string
  ap_last_seen :: int
  ap_last_seen_age_ms :: "u64 option"
  ap_path :: string
  ap_device_path :: string
  ap_device_iface :: string
  ap_flags :: u32
  ap_wpa_flags :: u32
  ap_rsn_flags :: u32

definition ssid_bytes_of :: "access_point \<Rightarrow> bytes" where
  "ssid_bytes_of ap = (if ap_ssid_bytes ap = [] then ap_ssid ap else ap_ssid_bytes ap)"

definition class_of :: "access_point \<Rightarrow> security_class" where
  "class_of ap = security_class (ap_flags ap) (ap_wpa_flags ap) (ap_rsn_flags ap)"

fun security_class_key :: "security_class \<Rightarrow> string" where
  "security_class_key ScOpen = ''open''"
| "security_class_key ScEnhancedOpen = ''enhanced-open''"
| "security_class_key ScLegacy = ''legacy''"
| "security_class_key ScPersonal = ''personal''"
| "security_class_key ScEnterprise = ''enterprise''"
| "security_class_key ScUnknown = ''unknown''"

definition network_key_for :: "access_point \<Rightarrow> string" where
  "network_key_for ap =
     ''ssid-hex:'' @ ssid_hex (ssid_bytes_of ap)
     @ ''|security:'' @ security_class_key (class_of ap)
     @ ''|ifname:'' @ ssid_hex (ap_device_iface ap)"

definition ssid_for_network_key :: "string \<Rightarrow> anyhow_error + ssid" where
  "ssid_for_network_key key =
     (case strip_prefix ''ssid-hex:'' key of
        None \<Rightarrow> Inl [LContext ''invalid Wi-Fi network key'']
      | Some value \<Rightarrow>
          (let encoded = hd (split_on (\<lambda>c. c = CHR ''|'') value)
           in if length encoded mod 2 \<noteq> 0 then Inl [LContext ''invalid Wi-Fi network key'']
              else (case bytes_from_hex encoded of
                      None \<Rightarrow> Inl [LContext ''invalid Wi-Fi network key'']
                    | Some bs \<Rightarrow> ssid_from_bytes bs)))"

section \<open>Grouping\<close>

fun class_rank :: "security_class \<Rightarrow> nat" where
  "class_rank ScOpen = 0"
| "class_rank ScEnhancedOpen = 1"
| "class_rank ScLegacy = 2"
| "class_rank ScPersonal = 3"
| "class_rank ScEnterprise = 4"
| "class_rank ScUnknown = 5"

lemma class_rank_inject [simp]: "class_rank a = class_rank b \<longleftrightarrow> a = b"
  by (cases a; cases b) simp_all

text \<open>The derived order of \<open>SecurityClass\<close>, the order its variants are declared in.\<close>

instantiation security_class :: linorder
begin

definition less_eq_security_class :: "security_class \<Rightarrow> security_class \<Rightarrow> bool" where
  "a \<le> b \<longleftrightarrow> class_rank a \<le> class_rank b"

definition less_security_class :: "security_class \<Rightarrow> security_class \<Rightarrow> bool" where
  "a < b \<longleftrightarrow> class_rank a < class_rank b"

instance
  by standard (auto simp: less_eq_security_class_def less_security_class_def)

end

type_synonym group_key = "bytes \<times> security_class \<times> string"

definition group_key :: "access_point \<Rightarrow> group_key" where
  "group_key ap = (ssid_bytes_of ap, class_of ap, ap_device_iface ap)"

text \<open>\<open>groups.entry(key).or_default().push(x)\<close> on an ordered map.\<close>

fun entry_push :: "'k::linorder \<Rightarrow> 'v \<Rightarrow> ('k \<times> 'v list) list \<Rightarrow> ('k \<times> 'v list) list" where
  "entry_push k v [] = [(k, [v])]"
| "entry_push k v ((k', vs) # m) =
     (if k < k' then (k, [v]) # (k', vs) # m
      else if k = k' then (k', vs @ [v]) # m
      else (k', vs) # entry_push k v m)"

definition group_map :: "access_point list \<Rightarrow> (group_key \<times> access_point list) list" where
  "group_map aps = foldl (\<lambda>m ap. entry_push (group_key ap) ap m) [] aps"

definition grouped_access_points :: "access_point list \<Rightarrow> access_point list list" where
  "grouped_access_points aps = map snd (group_map aps)"

text \<open>\<open>Iterator::max_by\<close>: the last of the greatest elements.\<close>

definition ap_le :: "access_point \<Rightarrow> access_point \<Rightarrow> bool" where
  "ap_le a b \<longleftrightarrow> (\<not> ap_active a \<and> ap_active b) \<or> (ap_active a = ap_active b \<and> ap_strength a \<le> ap_strength b)"

fun preferred_access_point :: "access_point list \<Rightarrow> access_point option" where
  "preferred_access_point [] = None"
| "preferred_access_point (ap # aps) =
     Some (foldl (\<lambda>best x. if ap_le best x then x else best) ap aps)"

section \<open>Hexadecimal text is a codec\<close>

lemma byte_val_hex_digit: "n < 16 \<Longrightarrow> byte_val (hex_digit n) = (if n < 10 then 48 + n else 87 + n)"
  by (simp add: byte_val_def hex_digit_def)

lemma hex_value_hex_digit [simp]: "n < 16 \<Longrightarrow> hex_value (hex_digit n) = Some n"
  by (auto simp: hex_value_def byte_val_hex_digit Let_def)

lemma hex_digit_plain:
  assumes "n < 16"
  shows "hex_digit n \<noteq> CHR ''+''" "hex_digit n \<noteq> CHR ''|''"
  using byte_val_hex_digit [OF assms] assms by (auto simp: byte_val_def split: if_splits)

lemma nibbles [simp]: "byte_val c div 16 < 16" "byte_val c mod 16 < 16"
  using byte_val_less [of c] by (simp_all add: div_less_iff_less_mult)

lemma octet_hex_digits: "octet_from_hex (hex_digit (byte_val c div 16)) (hex_digit (byte_val c mod 16)) = Some c"
proof -
  have "16 * (byte_val c div 16) + byte_val c mod 16 = byte_val c" by (rule mult_div_mod_eq)
  moreover have "char_of (byte_val c) = c" by (simp add: byte_val_def)
  ultimately show ?thesis by (simp add: octet_from_hex_def hex_digit_plain)
qed

interpretation hex: codec ssid_hex bytes_from_hex
proof unfold_locales
  show "bytes_from_hex (ssid_hex bs) = Some bs" for bs
    by (induction bs) (simp_all add: ssid_hex_def octet_hex_digits)
qed

lemma length_ssid_hex: "length (ssid_hex bs) = 2 * length bs"
  by (induction bs) (simp_all add: ssid_hex_def)

lemma ssid_hex_plain: "\<forall>c \<in> set (ssid_hex bs). c \<noteq> CHR ''|''"
  by (induction bs) (simp_all add: ssid_hex_def hex_digit_plain)

section \<open>Network keys identify networks\<close>

definition bar :: "char \<Rightarrow> bool" where
  "bar c \<longleftrightarrow> c = CHR ''|''"

lemma split_bar:
  "\<forall>c \<in> set s. \<not> bar c \<Longrightarrow> split_on bar (s @ CHR ''|'' # t) = s # split_on bar t"
  by (rule hd_split_on_append) (simp_all add: bar_def)

lemma bar_fun: "(\<lambda>c. c = CHR ''|'') = bar"
  by (simp add: fun_eq_iff bar_def)

lemma class_key_inject [simp]: "security_class_key a = security_class_key b \<longleftrightarrow> a = b"
  by (cases a; cases b) simp_all

lemma class_key_plain: "\<forall>c \<in> set (security_class_key k). \<not> bar c"
  by (cases k) (simp_all add: bar_def)

lemma ssid_hex_no_bar: "\<forall>c \<in> set (ssid_hex bs). \<not> bar c"
  using ssid_hex_plain by (simp add: bar_def)

lemma network_key_pieces:
  "split_on bar (network_key_for ap) =
     [''ssid-hex:'' @ ssid_hex (ssid_bytes_of ap), ''security:'' @ security_class_key (class_of ap),
      ''ifname:'' @ ssid_hex (ap_device_iface ap)]"
proof -
  let ?a = "''ssid-hex:'' @ ssid_hex (ssid_bytes_of ap)"
  let ?b = "''security:'' @ security_class_key (class_of ap)"
  let ?c = "''ifname:'' @ ssid_hex (ap_device_iface ap)"
  have key: "network_key_for ap = ?a @ CHR ''|'' # ?b @ CHR ''|'' # ?c"
    by (simp add: network_key_for_def)
  have a: "\<forall>c \<in> set ?a. \<not> bar c" using ssid_hex_no_bar by (simp add: bar_def)
  have b: "\<forall>c \<in> set ?b. \<not> bar c" using class_key_plain by (simp add: bar_def)
  have c: "\<forall>c \<in> set ?c. \<not> bar c" using ssid_hex_no_bar by (simp add: bar_def)
  show ?thesis
    unfolding key split_bar [OF a] split_bar [OF b] split_on_no_sep [OF c] ..
qed

lemma network_key_eq_iff: "network_key_for a = network_key_for b \<longleftrightarrow> group_key a = group_key b"
proof
  assume "network_key_for a = network_key_for b"
  from arg_cong [OF this, of "split_on bar"] show "group_key a = group_key b"
    by (simp add: network_key_pieces group_key_def hex.enc_inject)
next
  assume "group_key a = group_key b"
  then show "network_key_for a = network_key_for b" by (simp add: group_key_def network_key_for_def)
qed

lemma ssid_from_bytes_ok:
  "bs \<noteq> [] \<Longrightarrow> length bs \<le> 32 \<Longrightarrow>
     ssid_from_bytes bs = Inr \<lparr>ssid_exact = bs, ssid_display = from_utf8_lossy bs\<rparr>"
  by (simp add: ssid_from_bytes_def validate_ssid_bytes_def display_ssid_def)

lemma ssid_for_hex:
  "\<forall>c \<in> set h. c \<noteq> CHR ''|'' \<Longrightarrow> bytes_from_hex h = Some bs \<Longrightarrow> length h = 2 * length bs \<Longrightarrow>
   ssid_for_network_key (''ssid-hex:'' @ h) = ssid_from_bytes bs \<and>
   ssid_for_network_key (''ssid-hex:'' @ h @ CHR ''|'' # t) = ssid_from_bytes bs"
  using strip_prefix_append [of "''ssid-hex:''" h] strip_prefix_append [of "''ssid-hex:''" "h @ CHR ''|'' # t"]
  by (simp add: ssid_for_network_key_def Let_def bar_fun split_bar split_on_no_sep bar_def)

text \<open>
  C28. A network key is an identity and a carrier: two access points have the same key exactly when
  they agree on the exact SSID bytes, on the security class and on the interface, so an open
  network never shares the key of a secured one of the same name; and the SSID read back from the
  key of an access point with a legal SSID is that SSID, byte for byte, as it is from the older
  keys that carry the SSID alone.
\<close>

theorem network_key_identity:
  "(network_key_for a = network_key_for b \<longleftrightarrow>
      ssid_bytes_of a = ssid_bytes_of b \<and> class_of a = class_of b \<and> ap_device_iface a = ap_device_iface b) \<and>
   (ssid_bytes_of a \<noteq> [] \<and> length (ssid_bytes_of a) \<le> 32 \<longrightarrow>
      ssid_for_network_key (network_key_for a) =
        Inr \<lparr>ssid_exact = ssid_bytes_of a, ssid_display = from_utf8_lossy (ssid_bytes_of a)\<rparr> \<and>
      ssid_for_network_key (''ssid-hex:'' @ ssid_hex (ssid_bytes_of a)) =
        ssid_for_network_key (network_key_for a))"
proof -
  have "network_key_for a = ''ssid-hex:'' @ ssid_hex (ssid_bytes_of a) @ CHR ''|''
      # ''security:'' @ security_class_key (class_of a) @ ''|ifname:'' @ ssid_hex (ap_device_iface a)"
    by (simp add: network_key_for_def)
  then have "ssid_for_network_key (network_key_for a) = ssid_from_bytes (ssid_bytes_of a)"
    "ssid_for_network_key (''ssid-hex:'' @ ssid_hex (ssid_bytes_of a)) = ssid_from_bytes (ssid_bytes_of a)"
    using ssid_for_hex [OF ssid_hex_plain hex.dec_enc length_ssid_hex] by simp_all
  then show ?thesis
    using network_key_eq_iff [of a b] ssid_from_bytes_ok [of "ssid_bytes_of a"] by (simp add: group_key_def)
qed

text \<open>An access point of the tests: the name is not UTF-8, and the access point asks for a PSK.\<close>

definition ap_sample :: access_point where
  "ap_sample = \<lparr>ap_ssid = ''caf'', ap_ssid_bytes = [CHR 0xE9, CHR ''x''], ap_active = False,
     ap_security = SecWpa2Or3, ap_strength = 80, ap_frequency = 2412, ap_channel = 1,
     ap_band = ''2.4 GHz'', ap_mode = ''Infra'', ap_max_bitrate_mbps = 0, ap_bandwidth_mhz = 0,
     ap_ssid_hex = ''e978'', ap_wpa_flags_label = ''(none)'', ap_rsn_flags_label = ''(none)'',
     ap_bssid = ''00:11:22:33:44:55'', ap_last_seen = 0, ap_last_seen_age_ms = None,
     ap_path = ''/ap/1'', ap_device_path = ''/device/1'', ap_device_iface = ''wlan0'',
     ap_flags = 1, ap_wpa_flags = 0, ap_rsn_flags = 0x100\<rparr>"

theorem network_key_identity_witness:
  "ssid_for_network_key (network_key_for ap_sample) =
     Inr \<lparr>ssid_exact = [CHR 0xE9, CHR ''x''], ssid_display = from_utf8_lossy [CHR 0xE9, CHR ''x'']\<rparr>"
proof -
  have "ssid_bytes_of ap_sample = [CHR 0xE9, CHR ''x'']" by (simp add: ssid_bytes_of_def ap_sample_def)
  with network_key_identity [of ap_sample ap_sample] show ?thesis by simp
qed

text \<open>
  The network keys are not canonical: the number parser behind \<open>ssid_for_network_key\<close> takes a
  leading plus sign for part of a number, so the key text with the octet \<open>+f\<close>, which no access
  point has, is accepted and names the SSID of the single byte 0x0f.
\<close>

theorem network_key_accepts_sign:
  "ssid_for_network_key ''ssid-hex:+f'' =
     Inr \<lparr>ssid_exact = [CHR 0x0F], ssid_display = from_utf8_lossy [CHR 0x0F]\<rparr> \<and>
   (\<forall>ap. network_key_for ap \<noteq> ''ssid-hex:+f'')"
proof -
  have parsed: "bytes_from_hex ''+f'' = Some [CHR 0x0F]"
    by code_simp
  have "ssid_for_network_key ''ssid-hex:+f'' = ssid_from_bytes [CHR 0x0F]"
    using ssid_for_hex [of "''+f''", OF _ parsed] by simp
  moreover have "network_key_for ap \<noteq> ''ssid-hex:+f''" for ap
  proof
    assume "network_key_for ap = ''ssid-hex:+f''"
    from arg_cong [OF this, of "split_on bar"] show False
      unfolding network_key_pieces by (simp add: bar_def)
  qed
  ultimately show ?thesis using ssid_from_bytes_ok [of "[CHR 0x0F]"] by simp
qed

section \<open>Grouping is by identity\<close>

lemma entry_push_keys: "fst ` set (entry_push k v m) = insert k (fst ` set m)"
  by (induction k v m rule: entry_push.induct) auto

lemma entry_push_sorted:
  "sorted_wrt (<) (map fst m) \<Longrightarrow> sorted_wrt (<) (map fst (entry_push k v m))"
proof (induction k v m rule: entry_push.induct)
  case (2 k v k' vs m)
  then show ?case
    using entry_push_keys [of k v m] by (force simp: not_less)
qed simp

lemma entry_push_lookup:
  "sorted_wrt (<) (map fst m) \<Longrightarrow> map_of (entry_push k v m) =
     (map_of m)(k \<mapsto> (case map_of m k of None \<Rightarrow> [v] | Some vs \<Rightarrow> vs @ [v]))"
proof (induction k v m rule: entry_push.induct)
  case (2 k v k' vs m)
  have "map_of ((k', vs) # m) k = None" if "k < k'"
    using that "2.prems" by (force simp: map_of_eq_None_iff)
  with 2 show ?case by (auto simp: fun_eq_iff)
qed simp

definition group_of :: "access_point list \<Rightarrow> group_key \<Rightarrow> access_point list" where
  "group_of aps k = filter (\<lambda>ap. group_key ap = k) aps"

lemma group_of_snoc: "group_of (aps @ [ap]) k = group_of aps k @ (if group_key ap = k then [ap] else [])"
  by (simp add: group_of_def)

lemma group_of_Nil_iff: "group_of aps k = [] \<longleftrightarrow> k \<notin> group_key ` set aps"
  by (auto simp: group_of_def filter_empty_conv)

lemma group_map_snoc: "group_map (aps @ [ap]) = entry_push (group_key ap) ap (group_map aps)"
  by (simp add: group_map_def)

lemma group_map_sorted: "sorted_wrt (<) (map fst (group_map aps))"
  by (induction aps rule: rev_induct) (simp_all add: group_map_snoc entry_push_sorted, simp add: group_map_def)

lemma group_map_keys: "fst ` set (group_map aps) = group_key ` set aps"
  by (induction aps rule: rev_induct) (simp_all add: group_map_snoc entry_push_keys, simp add: group_map_def)

lemma group_map_lookup:
  "map_of (group_map aps) k = (if k \<in> group_key ` set aps then Some (group_of aps k) else None)"
proof (induction aps arbitrary: k rule: rev_induct)
  case Nil
  show ?case by (simp add: group_map_def)
next
  case (snoc ap aps)
  have empty: "group_key ap \<notin> group_key ` set aps \<Longrightarrow> group_of aps (group_key ap) = []"
    by (simp add: group_of_Nil_iff)
  show ?case
    using empty
    by (auto simp: group_map_snoc entry_push_lookup [OF group_map_sorted] snoc group_of_snoc)
qed

lemma group_map_eq:
  "group_map aps = map (\<lambda>k. (k, group_of aps k)) (sorted_list_of_set (group_key ` set aps))"
proof -
  have keys: "map fst (group_map aps) = sorted_list_of_set (group_key ` set aps)"
    using group_map_sorted [of aps] group_map_keys [of aps]
    by (metis finite_imageI finite_set list.set_map strict_sorted_iff sorted_list_of_set.idem_if_sorted_distinct)
  have "x = (fst x, group_of aps (fst x))" if "x \<in> set (group_map aps)" for x
  proof -
    have "map_of (group_map aps) (fst x) = Some (snd x)"
      using that group_map_sorted [of aps] by (simp add: strict_sorted_iff)
    then show ?thesis by (auto simp: group_map_lookup prod_eq_iff split: if_splits)
  qed
  then have "group_map aps = map (\<lambda>x. (fst x, group_of aps (fst x))) (group_map aps)"
    by (metis (no_types, lifting) map_idI)
  also have "\<dots> = map (\<lambda>k. (k, group_of aps k)) (map fst (group_map aps))" by simp
  finally show ?thesis unfolding keys .
qed

lemma grouped_eq: "grouped_access_points aps = map (group_of aps) (sorted_list_of_set (group_key ` set aps))"
  by (simp add: grouped_access_points_def group_map_eq)

lemma mset_entry_push: "mset (concat (map snd (entry_push k v m))) = add_mset v (mset (concat (map snd m)))"
  by (induction k v m rule: entry_push.induct) simp_all

lemma mset_grouped: "mset (concat (grouped_access_points aps)) = mset aps"
  by (induction aps rule: rev_induct)
    (simp_all add: grouped_access_points_def group_map_snoc mset_entry_push, simp add: group_map_def)

text \<open>
  Scanned access points are grouped into networks by identity: there is one group for each
  combination of exact SSID, security class and interface that occurs, in ascending order of these,
  and it holds exactly the access points with that identity, in scan order; no access point is lost
  or listed twice.
\<close>

theorem network_grouping:
  "grouped_access_points aps =
     map (\<lambda>k. filter (\<lambda>ap. group_key ap = k) aps) (sorted_list_of_set (group_key ` set aps)) \<and>
   mset (concat (grouped_access_points aps)) = mset aps"
  using grouped_eq [of aps] mset_grouped [of aps] by (simp add: group_of_def)

section \<open>The preferred access point\<close>

lemma ap_le_refl: "ap_le a a"
  by (simp add: ap_le_def)

lemma ap_le_trans: "ap_le a b \<Longrightarrow> ap_le b c \<Longrightarrow> ap_le a c"
  by (auto simp: ap_le_def)

lemma ap_le_total: "\<not> ap_le a b \<Longrightarrow> ap_le b a"
  by (auto simp: ap_le_def)

lemma best_fold:
  "let best = foldl (\<lambda>best x. if ap_le best x then x else best) a aps
   in best \<in> set (a # aps) \<and> (\<forall>x \<in> set (a # aps). ap_le x best)"
proof (induction aps arbitrary: a)
  case Nil
  show ?case by (simp add: ap_le_refl)
next
  case (Cons b aps)
  let ?c = "if ap_le a b then b else a"
  have "ap_le a ?c" "ap_le b ?c" by (auto simp: ap_le_refl ap_le_total)
  with Cons [of ?c] show ?case by (auto simp: Let_def split: if_splits intro: ap_le_trans)
qed

lemma preferred_greatest:
  assumes "preferred_access_point aps = Some best"
  shows "best \<in> set aps" "\<And>x. x \<in> set aps \<Longrightarrow> ap_le x best"
proof -
  obtain a rest where aps: "aps = a # rest" using assms by (cases aps) auto
  with assms have "best = foldl (\<lambda>best x. if ap_le best x then x else best) a rest" by simp
  with best_fold [of a rest] aps show "best \<in> set aps" "\<And>x. x \<in> set aps \<Longrightarrow> ap_le x best"
    by (auto simp: Let_def)
qed

lemma preferred_None_iff [simp]: "preferred_access_point aps = None \<longleftrightarrow> aps = []"
  by (cases aps) auto

end
