(* ===== verification/Qr.thy ===== *)
theory Qr
  imports Networks
begin

text \<open>
  Wi-Fi QR payloads (\<open>src/qr.rs\<close>): the text a share exports and the intake of scanned codes.
  Every character the format treats specially is ASCII, so the byte sequence of a payload is
  scanned in the same way as its characters. The image of a payload is drawn by a third-party
  crate and is not modelled.
\<close>

section \<open>Payloads\<close>

definition special :: "char \<Rightarrow> bool" where
  "special c \<longleftrightarrow> c \<in> {CHR 0x5C, CHR '';'', CHR '','', CHR '':'', CHR 0x22}"

definition wifi_qr_value :: "string \<Rightarrow> string" where
  "wifi_qr_value value = concat (map (\<lambda>c. if special c then [CHR 0x5C, c] else [c]) value)"

definition wifi_qr_payload :: "string \<Rightarrow> string \<Rightarrow> string option \<Rightarrow> bool \<Rightarrow> string" where
  "wifi_qr_payload auth_type ssid password hidden =
     ''WIFI:T:'' @ auth_type @ '';S:'' @ wifi_qr_value ssid
     @ (case password of None \<Rightarrow> [] | Some p \<Rightarrow> '';P:'' @ wifi_qr_value p)
     @ (if hidden then '';H:true'' else []) @ '';;''"

section \<open>Intake\<close>

datatype wifi_qr_auth = QrOpen | QrWpa | QrSae | QrWep

fun key_management_hint :: "wifi_qr_auth \<Rightarrow> string option" where
  "key_management_hint QrOpen = None"
| "key_management_hint QrWpa = Some ''wpa-psk''"
| "key_management_hint QrSae = Some ''sae''"
| "key_management_hint QrWep = Some ''wep''"

record parsed_wifi_qr =
  qr_ssid :: string
  qr_ssid_bytes :: bytes
  qr_ssid_hex :: string
  qr_auth :: wifi_qr_auth
  qr_auth_token :: string
  qr_hidden :: bool
  qr_has_password :: bool
  qr_password :: "string option"
  qr_wep_key_type :: "wep_key_type option"

definition qr_error :: "string \<Rightarrow> string \<Rightarrow> anyhow_error" where
  "qr_error message field =
     into_anyhow (with_detail (validation_error OpQrOperation message) ''field'' (JStr field))"

definition unescape_step :: "bool \<times> string \<Rightarrow> char \<Rightarrow> bool \<times> string" where
  "unescape_step st c =
     (case st of (escaped, decoded) \<Rightarrow>
        if c = CHR 0x5C \<and> \<not> escaped then (True, decoded) else (False, decoded @ [c]))"

definition unescape :: "string \<Rightarrow> string" where
  "unescape value = snd (foldl unescape_step (False, []) value)"

definition unquote :: "string \<Rightarrow> string" where
  "unquote value =
     (case value of
        [] \<Rightarrow> value
      | c # rest \<Rightarrow>
          if c = CHR 0x22 \<and> rest \<noteq> [] \<and> last rest = CHR 0x22
             \<and> even (length (takeWhile (\<lambda>ch. ch = CHR 0x5C) (rev (butlast rest))))
          then butlast rest else value)"

text \<open>\<open>split_once(':')\<close>.\<close>

fun split_once_colon :: "string \<Rightarrow> (string \<times> string) option" where
  "split_once_colon [] = None"
| "split_once_colon (c # cs) =
     (if c = CHR '':'' then Some ([], cs)
      else map_option (\<lambda>(a, b). (c # a, b)) (split_once_colon cs))"

definition insert_field :: "(string, string) hash_map \<Rightarrow> string \<Rightarrow> anyhow_error + (string, string) hash_map" where
  "insert_field flds field =
     (if field = [] then Inr flds
      else (case split_once_colon field of
              None \<Rightarrow> Inl (qr_error ''payload contains a field without a key'' ''payload'')
            | Some (key, v) \<Rightarrow> Inr (hm_insert (unescape key) (unescape (unquote v)) flds)))"

text \<open>The loop of \<open>split_fields\<close>; the slice from \<open>start\<close> to the index is the field read so far.\<close>

fun split_loop ::
    "(string, string) hash_map \<Rightarrow> string \<Rightarrow> bool \<Rightarrow> string \<Rightarrow> anyhow_error + (string, string) hash_map" where
  "split_loop flds field escaped [] =
     (if escaped then Inl (qr_error ''payload ends with a dangling escape'' ''payload'')
      else insert_field flds field)"
| "split_loop flds field escaped (c # cs) =
     (if escaped then split_loop flds (field @ [c]) False cs
      else if c = CHR 0x5C then split_loop flds (field @ [c]) True cs
      else if c = CHR '';'' then
        and_then (insert_field flds field) (\<lambda>flds. split_loop flds [] False cs)
      else split_loop flds (field @ [c]) False cs)"

definition split_fields :: "string \<Rightarrow> anyhow_error + (string, string) hash_map" where
  "split_fields body = split_loop [] [] False body"

definition parse_auth :: "string \<Rightarrow> anyhow_error + wifi_qr_auth" where
  "parse_auth token =
     (let t = map to_ascii_uppercase token
      in if t = '''' \<or> t = ''NOPASS'' then Inr QrOpen
         else if t = ''WPA2-EAP'' then Inl (qr_error ''enterprise Wi-Fi cannot be joined from a QR code'' ''T'')
         else if t = ''WPA'' \<or> t = ''WPA2'' then Inr QrWpa
         else if t = ''SAE'' \<or> t = ''WPA3'' then Inr QrSae
         else if t = ''WEP'' then Inr QrWep
         else Inl (qr_error ''unsupported QR authentication type'' ''T''))"

definition MAX_PASSPHRASE_CHARS :: nat where "MAX_PASSPHRASE_CHARS = 63"
definition RAW_PSK_CHARS :: nat where "RAW_PSK_CHARS = 64"
definition MAX_WEP_KEY_CHARS :: nat where "MAX_WEP_KEY_CHARS = 58"

definition validate_password :: "wifi_qr_auth \<Rightarrow> string option \<Rightarrow> anyhow_error + unit" where
  "validate_password auth password =
     (case (auth, password) of
        (QrOpen, None) \<Rightarrow> Inr ()
      | (QrOpen, Some _) \<Rightarrow> Inl (qr_error ''an open network payload must not carry a password'' ''P'')
      | (_, None) \<Rightarrow> Inl (qr_error ''payload has no password'' ''P'')
      | (QrWep, Some p) \<Rightarrow>
          if 1 \<le> chars_count p \<and> chars_count p \<le> MAX_WEP_KEY_CHARS then Inr ()
          else Inl (qr_error ''WEP key length is not valid'' ''P'')
      | (_, Some p) \<Rightarrow>
          if (8 \<le> chars_count p \<and> chars_count p \<le> MAX_PASSPHRASE_CHARS)
             \<or> (chars_count p = RAW_PSK_CHARS \<and> list_all is_ascii_hexdigit p)
          then Inr ()
          else Inl (qr_error ''WPA passphrase must be 8-63 characters or a 64-character key'' ''P''))"

definition wep_key_type_for :: "string \<Rightarrow> wep_key_type" where
  "wep_key_type_for password =
     (if (list_all is_ascii_hexdigit password \<and> chars_count password \<in> {10, 26, 32, 58})
         \<or> chars_count password \<in> {5, 13, 16} then WepKey else WepPhrase)"

text \<open>\<open>Option::filter(|v| !v.is_empty())\<close>.\<close>

definition non_empty :: "string option \<Rightarrow> string option" where
  "non_empty v = (if v = Some [] then None else v)"

text \<open>The message \<open>format!("{error}")\<close> prints.\<close>

definition anyhow_display :: "anyhow_error \<Rightarrow> string" where
  "anyhow_display e = layer_display (hd e)"

text \<open>The part of \<open>parse_wifi_qr\<close> after the fields are split.\<close>

definition parse_fields :: "(string, string) hash_map \<Rightarrow> anyhow_error + parsed_wifi_qr" where
  "parse_fields flds =
     and_then (ok_or (non_empty (hm_get flds ''S'')) (qr_error ''payload has no SSID'' ''S'')) (\<lambda>ssid.
     and_then (case validate_ssid_bytes ssid of
                 Inl e \<Rightarrow> Inl (qr_error (anyhow_display e) ''S'') | Inr u \<Rightarrow> Inr u) (\<lambda>_.
     let auth_token = (case hm_get flds ''T'' of None \<Rightarrow> [] | Some t \<Rightarrow> t)
     in and_then (parse_auth auth_token) (\<lambda>auth.
        let password = non_empty (hm_get flds ''P'')
        in and_then (validate_password auth password) (\<lambda>_.
           Inr \<lparr>qr_ssid = ssid, qr_ssid_bytes = ssid, qr_ssid_hex = ssid_hex ssid, qr_auth = auth,
                qr_auth_token = auth_token,
                qr_hidden = (hm_get flds ''H'' \<in> {Some ''true'', Some ''TRUE'', Some ''True'', Some ''1''}),
                qr_has_password = (password \<noteq> None), qr_password = password,
                qr_wep_key_type =
                  (if auth = QrWep
                   then Some (wep_key_type_for (case password of None \<Rightarrow> [] | Some p \<Rightarrow> p)) else None)\<rparr>))))"

definition parse_wifi_qr :: "string \<Rightarrow> anyhow_error + parsed_wifi_qr" where
  "parse_wifi_qr payload =
     and_then (ok_or (case strip_prefix ''WIFI:'' payload of
                        Some body \<Rightarrow> Some body | None \<Rightarrow> strip_prefix ''wifi:'' payload)
                (qr_error ''payload is not a WIFI: code'' ''payload'')) (\<lambda>body.
     and_then (split_fields body) parse_fields)"

section \<open>Escaping\<close>

lemma special_iff [simp]:
  "special (CHR 0x5C)" "special (CHR '';'')" "special (CHR '':'')" "special (CHR 0x22)"
  by (simp_all add: special_def)

lemma wifi_qr_value_simps [simp]:
  "wifi_qr_value [] = []"
  "wifi_qr_value (c # cs) = (if special c then [CHR 0x5C, c] else [c]) @ wifi_qr_value cs"
  by (simp_all add: wifi_qr_value_def)

lemma unescape_value_acc:
  "foldl unescape_step (False, d) (wifi_qr_value v) = (False, d @ v)"
  by (induction v arbitrary: d) (auto simp: unescape_step_def special_def)

lemma unescape_value [simp]: "unescape (wifi_qr_value v) = v"
  using unescape_value_acc [of "[]" v] by (simp add: unescape_def)

lemma unescape_plain: "\<forall>c \<in> set s. c \<noteq> CHR 0x5C \<Longrightarrow> unescape s = s"
proof -
  have "\<forall>c \<in> set s. c \<noteq> CHR 0x5C \<Longrightarrow> foldl unescape_step (False, d) s = (False, d @ s)" for d
    by (induction s arbitrary: d) (auto simp: unescape_step_def)
  then show "\<forall>c \<in> set s. c \<noteq> CHR 0x5C \<Longrightarrow> unescape s = s" by (simp add: unescape_def)
qed

lemma unquote_value [simp]: "unquote (wifi_qr_value v) = wifi_qr_value v"
  by (cases v) (auto simp: unquote_def)

lemma unquote_plain: "\<forall>c \<in> set s. \<not> special c \<Longrightarrow> unquote s = s"
  by (cases s) (auto simp: unquote_def)

text \<open>Neither an escaped value nor a plain text ends a field.\<close>

lemma split_loop_value:
  "split_loop flds f False (wifi_qr_value v @ rest) = split_loop flds (f @ wifi_qr_value v) False rest"
  by (induction v arbitrary: f) (auto simp: special_def)

lemma split_loop_plain:
  "\<forall>c \<in> set s. c \<noteq> CHR 0x5C \<and> c \<noteq> CHR '';'' \<Longrightarrow>
     split_loop flds f False (s @ rest) = split_loop flds (f @ s) False rest"
  by (induction s arbitrary: f) auto

lemma split_loop_end:
  "split_loop flds f False (CHR '';'' # rest) =
     and_then (insert_field flds f) (\<lambda>flds. split_loop flds [] False rest)"
  by simp

lemma insert_value_field:
  assumes "k \<noteq> CHR '':''" "k \<noteq> CHR 0x5C"
  shows "insert_field flds (k # CHR '':'' # wifi_qr_value v) = Inr (hm_insert [k] v flds)"
  using assms by (simp add: insert_field_def unescape_plain)

lemma insert_plain_field:
  assumes "k \<noteq> CHR '':''" "k \<noteq> CHR 0x5C" "\<forall>c \<in> set s. \<not> special c"
  shows "insert_field flds (k # CHR '':'' # s) = Inr (hm_insert [k] s flds)"
proof -
  have "\<forall>c \<in> set s. c \<noteq> CHR 0x5C" using assms(3) by (auto simp: special_def)
  then show ?thesis using assms by (simp add: insert_field_def unescape_plain unquote_plain)
qed

lemma field_value:
  assumes "k \<noteq> CHR '':''" "k \<noteq> CHR 0x5C" "k \<noteq> CHR '';''"
  shows "split_loop flds [] False (k # CHR '':'' # wifi_qr_value v @ CHR '';'' # rest) =
     split_loop (hm_insert [k] v flds) [] False rest"
  using assms split_loop_value [of flds "[k, CHR '':'']" v "CHR '';'' # rest"]
  by (simp add: insert_value_field split_loop_end)

lemma field_plain:
  assumes "k \<noteq> CHR '':''" "k \<noteq> CHR 0x5C" "k \<noteq> CHR '';''" "\<forall>c \<in> set s. \<not> special c"
  shows "split_loop flds [] False (k # CHR '':'' # s @ CHR '';'' # rest) =
     split_loop (hm_insert [k] s flds) [] False rest"
proof -
  have "\<forall>c \<in> set s. c \<noteq> CHR 0x5C \<and> c \<noteq> CHR '';''" using assms(4) by (auto simp: special_def)
  from split_loop_plain [OF this, of flds "[k, CHR '':'']" "CHR '';'' # rest"] assms show ?thesis
    by (simp add: insert_plain_field split_loop_end)
qed

definition payload_fields :: "string \<Rightarrow> string \<Rightarrow> string option \<Rightarrow> bool \<Rightarrow> (string, string) hash_map" where
  "payload_fields token ssid password hidden =
     (let m = hm_insert ''S'' ssid (hm_insert ''T'' token []);
          m = (case password of None \<Rightarrow> m | Some p \<Rightarrow> hm_insert ''P'' p m)
      in if hidden then hm_insert ''H'' ''true'' m else m)"

lemma split_tail: "split_loop flds [] False [CHR '';''] = Inr flds"
  by (simp add: insert_field_def)

lemma split_hidden:
  "split_loop flds [] False (''H:true;;'') = Inr (hm_insert ''H'' ''true'' flds)"
  using field_plain [of "CHR ''H''" "''true''" flds "[CHR '';'']"] split_tail [of "hm_insert ''H'' ''true'' flds"]
  by (simp add: special_def)

lemma split_payload:
  assumes "\<forall>c \<in> set token. \<not> special c"
  shows "split_fields (drop 5 (wifi_qr_payload token ssid password hidden)) =
     Inr (payload_fields token ssid password hidden)"
proof -
  have T: "split_loop [] [] False (CHR ''T'' # CHR '':'' # token @ CHR '';'' # r) =
      split_loop (hm_insert ''T'' token []) [] False r" for r
    using assms by (intro field_plain) simp_all
  have S: "split_loop m [] False (CHR ''S'' # CHR '':'' # wifi_qr_value v @ CHR '';'' # r) =
      split_loop (hm_insert ''S'' v m) [] False r" for m v r
    by (intro field_value) simp_all
  have P: "split_loop m [] False (CHR ''P'' # CHR '':'' # wifi_qr_value v @ CHR '';'' # r) =
      split_loop (hm_insert ''P'' v m) [] False r" for m v r
    by (intro field_value) simp_all
  show ?thesis
  proof (cases password)
    case None
    then show ?thesis using T S split_tail split_hidden
      by (simp add: split_fields_def wifi_qr_payload_def payload_fields_def Let_def del: split_loop.simps AList.update.simps)
  next
    case (Some p)
    then show ?thesis using T S P split_tail split_hidden
      by (simp add: split_fields_def wifi_qr_payload_def payload_fields_def Let_def del: split_loop.simps AList.update.simps)
  qed
qed

lemma payload_prefix: "strip_prefix ''WIFI:'' (wifi_qr_payload t s p h) = Some (drop 5 (wifi_qr_payload t s p h))"
  by (simp add: wifi_qr_payload_def strip_prefix_def)

section \<open>What is exported is read back\<close>

lemma payload_fields_get:
  "hm_get (payload_fields token ssid password hidden) ''S'' = Some ssid"
  "hm_get (payload_fields token ssid password hidden) ''T'' = Some token"
  "hm_get (payload_fields token ssid password hidden) ''P'' = password"
  "hm_get (payload_fields token ssid password hidden) ''H'' = (if hidden then Some ''true'' else None)"
  by (cases password; simp add: payload_fields_def Let_def update_conv')+

lemma parse_payload:
  assumes "\<forall>c \<in> set token. \<not> special c" and "parse_auth token = Inr auth"
    and "ssid \<noteq> []" "length ssid \<le> 32"
    and "password \<noteq> Some []" "validate_password auth password = Inr ()"
  shows "\<exists>w. parse_wifi_qr (wifi_qr_payload token ssid password hidden) =
    Inr \<lparr>qr_ssid = ssid, qr_ssid_bytes = ssid, qr_ssid_hex = ssid_hex ssid, qr_auth = auth,
      qr_auth_token = token, qr_hidden = hidden, qr_has_password = (password \<noteq> None),
      qr_password = password, qr_wep_key_type = w\<rparr>"
proof -
  have "validate_ssid_bytes ssid = Inr ()" using assms by (simp add: validate_ssid_bytes_def)
  then show ?thesis
    using assms
    by (simp add: parse_wifi_qr_def payload_prefix split_payload parse_fields_def payload_fields_get
        non_empty_def Let_def)
qed

text \<open>
  The payload of a shareable network is read back as it was written. For an SSID of 1 to 32
  bytes, a token without separators that names an authentication, and a password that is absent or
  non-empty and admitted by that authentication, whatever separators, quotes and backslashes SSID
  and password contain, parsing the payload succeeds and gives the same SSID, the same password, the
  hidden flag and the authentication of the token. The conditions are those of the parser: the
  functions that build a payload do not check them, and a payload outside them may be refused.
\<close>

theorem qr_roundtrip:
  assumes "\<forall>c \<in> set token. \<not> special c" and "parse_auth token = Inr auth"
    and "ssid \<noteq> []" "length ssid \<le> 32"
    and "password \<noteq> Some []" "validate_password auth password = Inr ()"
  shows "\<exists>qr. parse_wifi_qr (wifi_qr_payload token ssid password hidden) = Inr qr \<and>
    qr_ssid qr = ssid \<and> qr_ssid_bytes qr = ssid \<and> qr_ssid_hex qr = ssid_hex ssid \<and>
    qr_auth qr = auth \<and> qr_auth_token qr = token \<and> qr_hidden qr = hidden \<and>
    qr_password qr = password \<and> qr_has_password qr = (password \<noteq> None)"
  using parse_payload [OF assms, of hidden] by auto

theorem qr_roundtrip_witness:
  "\<exists>qr. parse_wifi_qr (wifi_qr_payload ''WPA'' ''a;b:'' (Some [CHR 0x22, CHR 0x5C, CHR '';'',
     CHR ''4'', CHR ''5'', CHR ''6'', CHR ''7'', CHR 0x22]) True) = Inr qr \<and>
   qr_ssid qr = ''a;b:'' \<and> qr_hidden qr \<and> qr_has_password qr"
proof -
  let ?p = "[CHR 0x22, CHR 0x5C, CHR '';'', CHR ''4'', CHR ''5'', CHR ''6'', CHR ''7'', CHR 0x22]"
  have a: "\<forall>c \<in> set ''WPA''. \<not> special c" by (simp add: special_def)
  have b: "parse_auth ''WPA'' = Inr QrWpa"
    by (simp add: parse_auth_def to_ascii_uppercase_def byte_val_def)
  have "chars_count ?p = 8" by (simp add: chars_count_def is_continuation_def byte_val_def)
  then have c: "validate_password QrWpa (Some ?p) = Inr ()"
    by (simp add: validate_password_def MAX_PASSPHRASE_CHARS_def)
  from qr_roundtrip [OF a b _ _ _ c, of "''a;b:''" True] show ?thesis by auto
qed

section \<open>Rejected codes reveal nothing\<close>

text \<open>The messages of the intake; only the length of an SSID is ever inserted.\<close>

definition qr_messages :: "string set" where
  "qr_messages =
     {''payload is not a WIFI: code'', ''payload contains a field without a key'',
      ''payload ends with a dangling escape'', ''payload has no SSID'',
      ''enterprise Wi-Fi cannot be joined from a QR code'', ''unsupported QR authentication type'',
      ''an open network payload must not carry a password'', ''payload has no password'',
      ''WEP key length is not valid'', ''WPA passphrase must be 8-63 characters or a 64-character key''}
     \<union> range (\<lambda>n. ''Wi-Fi SSID must be 1-32 bytes; got '' @ decimal n @ '' bytes'')"

definition qr_failure :: "anyhow_error \<Rightarrow> bool" where
  "qr_failure e \<longleftrightarrow>
     (\<exists>m f. e = qr_error m f \<and> m \<in> qr_messages \<and> f \<in> {''payload'', ''S'', ''T'', ''P''})"

lemma qr_failureI: "m \<in> qr_messages \<Longrightarrow> f \<in> {''payload'', ''S'', ''T'', ''P''} \<Longrightarrow> qr_failure (qr_error m f)"
  by (auto simp: qr_failure_def)

lemma insert_field_failure: "insert_field flds f = Inl e \<Longrightarrow> qr_failure e"
  by (auto simp: insert_field_def qr_messages_def split: if_splits option.splits prod.splits
      intro!: qr_failureI)

lemma split_loop_failure: "split_loop flds f b s = Inl e \<Longrightarrow> qr_failure e"
proof (induction flds f b s rule: split_loop.induct)
  case (1 flds f b)
  then show ?case
    by (auto simp: qr_messages_def intro: insert_field_failure intro!: qr_failureI split: if_splits)
next
  case (2 flds f b c cs)
  show ?case
  proof (cases "\<not> b \<and> c = CHR '';''")
    case True
    with 2 show ?thesis
      by (cases "insert_field flds f") (auto intro: insert_field_failure)
  next
    case False
    with 2 show ?thesis by (auto split: if_splits)
  qed
qed

lemma parse_auth_failure: "parse_auth t = Inl e \<Longrightarrow> qr_failure e"
  by (auto simp: parse_auth_def Let_def qr_messages_def split: if_splits intro!: qr_failureI)

lemma validate_password_failure: "validate_password a p = Inl e \<Longrightarrow> qr_failure e"
  by (auto simp: validate_password_def qr_messages_def split: if_splits option.splits wifi_qr_auth.splits
      intro!: qr_failureI)

lemma validate_ssid_failure: "validate_ssid_bytes s = Inl e \<Longrightarrow> qr_failure (qr_error (anyhow_display e) ''S'')"
  by (auto simp: validate_ssid_bytes_def anyhow_display_def qr_messages_def split: if_splits intro!: qr_failureI)

lemma parse_fields_failure: "parse_fields flds = Inl e \<Longrightarrow> qr_failure e"
  unfolding parse_fields_def Let_def
  by (auto simp: and_then_def ok_or_def qr_messages_def split: option.splits sum.splits
      intro: parse_auth_failure validate_password_failure validate_ssid_failure qr_failureI)

lemma parse_failure: "parse_wifi_qr p = Inl e \<Longrightarrow> qr_failure e"
  unfolding parse_wifi_qr_def split_fields_def
  by (auto simp: and_then_def ok_or_def qr_messages_def split: option.splits sum.splits
      intro: parse_fields_failure split_loop_failure qr_failureI)

lemma qr_error_report [simp]:
  "er_code (from_error (qr_error m f) op) = ValidationError"
  "er_operation (from_error (qr_error m f) op) = OpQrOperation"
  by (simp_all add: qr_error_def domain_error_defs with_detail_def)

section \<open>Accepted codes are complete\<close>

definition qr_password_ok :: "wifi_qr_auth \<Rightarrow> string option \<Rightarrow> bool" where
  "qr_password_ok auth password \<longleftrightarrow>
     (auth = QrOpen \<longleftrightarrow> password = None) \<and>
     (\<forall>p. auth \<in> {QrWpa, QrSae} \<and> password = Some p \<longrightarrow>
        8 \<le> chars_count p \<and> chars_count p \<le> 64 \<and> (chars_count p = 64 \<longrightarrow> list_all is_ascii_hexdigit p))"

lemma validate_password_ok: "validate_password auth password = Inr u \<Longrightarrow> qr_password_ok auth password"
  by (cases auth; cases password)
    (auto simp: validate_password_def qr_password_ok_def MAX_PASSPHRASE_CHARS_def RAW_PSK_CHARS_def
      split: if_splits)

lemma checked_ssid_ok:
  "(case validate_ssid_bytes s of Inl e \<Rightarrow> Inl (f e) | Inr u \<Rightarrow> Inr u) = Inr v \<longleftrightarrow>
     validate_ssid_bytes s = Inr ()"
  by (auto split: sum.splits)

lemma parse_fields_ok:
  assumes "parse_fields flds = Inr qr"
  shows "validate_ssid_bytes (qr_ssid_bytes qr) = Inr () \<and>
    validate_password (qr_auth qr) (qr_password qr) = Inr () \<and>
    (qr_has_password qr \<longleftrightarrow> qr_password qr \<noteq> None) \<and> (qr_wep_key_type qr \<noteq> None \<longleftrightarrow> qr_auth qr = QrWep)"
  using assms unfolding parse_fields_def Let_def and_then_Inr_iff checked_ssid_ok
  by (auto split: if_splits)

lemma parse_ok:
  "parse_wifi_qr p = Inr qr \<Longrightarrow> validate_ssid_bytes (qr_ssid_bytes qr) = Inr () \<and>
    validate_password (qr_auth qr) (qr_password qr) = Inr () \<and>
    (qr_has_password qr \<longleftrightarrow> qr_password qr \<noteq> None) \<and> (qr_wep_key_type qr \<noteq> None \<longleftrightarrow> qr_auth qr = QrWep)"
  unfolding parse_wifi_qr_def and_then_Inr_iff using parse_fields_ok by blast

text \<open>
  A scanned code is either accepted whole or rejected without an echo. An accepted code has an
  SSID of 1 to 32 bytes, carries a password exactly when its network is not open, a WPA or SAE
  password has 8 to 63 characters or is a 64-digit key, and a WEP key type is given exactly for WEP.
  A rejection is a typed validation error of the QR operation that names one of the fields and whose
  message comes from a fixed list, so that it contains nothing of the code but an SSID length.
\<close>

theorem qr_intake_sound:
  "case parse_wifi_qr payload of
     Inl e \<Rightarrow> \<exists>m f. e = qr_error m f \<and> m \<in> qr_messages \<and> f \<in> {''payload'', ''S'', ''T'', ''P''} \<and>
       er_code (from_error e OpUnknown) = ValidationError \<and> er_operation (from_error e OpUnknown) = OpQrOperation
   | Inr qr \<Rightarrow> qr_ssid_bytes qr \<noteq> [] \<and> length (qr_ssid_bytes qr) \<le> 32 \<and>
       (qr_auth qr = QrOpen \<longleftrightarrow> qr_password qr = None) \<and> (qr_has_password qr \<longleftrightarrow> qr_password qr \<noteq> None) \<and>
       (\<forall>p. qr_auth qr \<in> {QrWpa, QrSae} \<and> qr_password qr = Some p \<longrightarrow>
          8 \<le> chars_count p \<and> chars_count p \<le> 64 \<and>
          (chars_count p = 64 \<longrightarrow> list_all is_ascii_hexdigit p)) \<and>
       (qr_wep_key_type qr \<noteq> None \<longleftrightarrow> qr_auth qr = QrWep)"
proof (cases "parse_wifi_qr payload")
  case (Inl e)
  obtain m f where "e = qr_error m f" "m \<in> qr_messages" "f \<in> {''payload'', ''S'', ''T'', ''P''}"
    using parse_failure [OF Inl] unfolding qr_failure_def by blast
  then show ?thesis unfolding Inl by (simp only: sum.case qr_error_report) blast
next
  case (Inr qr)
  from parse_ok [OF Inr] show ?thesis
    unfolding Inr using validate_password_ok [of "qr_auth qr" "qr_password qr"]
    by (auto simp: validate_ssid_bytes_def qr_password_ok_def split: if_splits)
qed

theorem qr_intake_sound_witness:
  "\<exists>qr. parse_wifi_qr ''WIFI:S:a;T:wep;P:12345;;'' = Inr qr \<and> qr_wep_key_type qr \<noteq> None"
proof -
  have ok: "parse_wifi_qr ''WIFI:S:a;T:wep;P:12345;;'' =
    Inr \<lparr>qr_ssid = ''a'', qr_ssid_bytes = ''a'', qr_ssid_hex = ''61'', qr_auth = QrWep,
      qr_auth_token = ''wep'', qr_hidden = False, qr_has_password = True, qr_password = Some ''12345'',
      qr_wep_key_type = Some WepKey\<rparr>"
    by code_simp
  from qr_intake_sound [of "''WIFI:S:a;T:wep;P:12345;;''"] show ?thesis unfolding ok by auto
qed

end
