(* ===== verification/Network_Entries.thy ===== *)
theory Network_Entries
  imports Qr
begin

text \<open>
  The network entries frontends see (\<open>src/model.rs\<close>) and their wire forms
  (\<open>src/model/wire_v1.rs\<close>): what a network needs to be joined, the prompt to show, whether it can
  be shared or may have a captive portal, and the connect target built from a selection. Object
  paths are checked by the D-Bus library: \<open>object_path_ok\<close> is a parameter.
\<close>

section \<open>Saved profiles and credentials\<close>

record profile_privacy =
  pp_mac_address_policy :: string
  pp_randomized_mac :: bool
  pp_send_hostname :: bool

record saved_wifi_connection =
  swc_path :: string
  swc_id :: string
  swc_ssid :: string
  swc_ssid_bytes :: bytes
  swc_remember :: "bool option"
  swc_autoconnect :: bool
  swc_casting_enabled :: bool
  swc_privacy :: profile_privacy

record enterprise_auth =
  ea_eap :: "string list"
  ea_identity :: "string option"
  ea_anonymous_identity :: "string option"
  ea_password :: "string option"
  ea_phase2_auth :: "string option"
  ea_ca_cert :: "string option"
  ea_ca_path :: "string option"
  ea_domain_suffix_match :: "string option"
  ea_subject_match :: "string option"
  ea_altsubject_matches :: "string list"
  ea_openssl_ciphers :: "string option"
  ea_phase1_peapver :: "string option"
  ea_phase1_peaplabel :: "string option"
  ea_phase1_fast_provisioning :: "string option"
  ea_client_cert :: "string option"
  ea_private_key :: "string option"
  ea_private_key_password :: "string option"
  ea_pin :: "string option"
  ea_pac_file :: "string option"
  ea_key_mgmt :: "string option"
  ea_system_ca_certs :: "bool option"
  ea_password_flags :: "u32 option"
  ea_private_key_password_flags :: "u32 option"
  ea_pin_flags :: "u32 option"

definition enterprise_auth_default :: enterprise_auth where
  "enterprise_auth_default = \<lparr>ea_eap = [], ea_identity = None, ea_anonymous_identity = None,
     ea_password = None, ea_phase2_auth = None, ea_ca_cert = None, ea_ca_path = None,
     ea_domain_suffix_match = None, ea_subject_match = None, ea_altsubject_matches = [],
     ea_openssl_ciphers = None, ea_phase1_peapver = None, ea_phase1_peaplabel = None,
     ea_phase1_fast_provisioning = None, ea_client_cert = None, ea_private_key = None,
     ea_private_key_password = None, ea_pin = None, ea_pac_file = None, ea_key_mgmt = None,
     ea_system_ca_certs = None, ea_password_flags = None, ea_private_key_password_flags = None,
     ea_pin_flags = None\<rparr>"

definition default_enterprise_auth :: "string \<Rightarrow> enterprise_auth" where
  "default_enterprise_auth identity = enterprise_auth_default\<lparr>ea_eap := [''peap''],
     ea_identity := Some identity, ea_phase2_auth := Some ''mschapv2''\<rparr>"

section \<open>Authentication capability\<close>

datatype auth_kind = AkSavedProfile | AkOpen | AkOwe | AkWpaPersonal | AkWep | AkWpaEnterprise | AkUnsupported

record network_auth =
  na_kind :: auth_kind
  na_key_management :: "string list"
  na_required_fields :: "string list"
  na_optional_fields :: "string list"
  na_note :: "string option"

definition network_auth_new ::
    "auth_kind \<Rightarrow> string list \<Rightarrow> string list \<Rightarrow> string list \<Rightarrow> string option \<Rightarrow> network_auth" where
  "network_auth_new kind key_management required_fields optional_fields note =
     \<lparr>na_kind = kind, na_key_management = key_management, na_required_fields = required_fields,
      na_optional_fields = optional_fields, na_note = note\<rparr>"

definition auth_supported :: "network_auth \<Rightarrow> bool" where
  "auth_supported a \<longleftrightarrow> na_kind a \<noteq> AkUnsupported"

definition saved_profile_auth :: network_auth where
  "saved_profile_auth = network_auth_new AkSavedProfile [] [] []
     (Some ''A compatible saved NetworkManager profile can be activated without collecting new credentials'')"

definition passwordless_auth :: "auth_kind \<Rightarrow> network_auth" where
  "passwordless_auth kind = network_auth_new kind [] [] [] None"

definition personal_auth :: "access_point \<Rightarrow> network_auth" where
  "personal_auth ap = network_auth_new AkWpaPersonal
     [personal_key_management (ap_wpa_flags ap) (ap_rsn_flags ap)] [''password''] [] None"

definition wep_auth :: network_auth where
  "wep_auth = network_auth_new AkWep [''none''] [''password''] [''wep_key_type''] None"

definition enterprise_required_fields :: "string list" where
  "enterprise_required_fields = [''enterprise.eap'', ''enterprise.identity'']"

definition enterprise_optional_fields :: "string list" where
  "enterprise_optional_fields =
     [''password'', ''enterprise.anonymous_identity'', ''enterprise.phase2_auth'',
      ''enterprise.ca_cert'', ''enterprise.domain_suffix_match'', ''enterprise.client_cert'',
      ''enterprise.private_key'', ''enterprise.private_key_password'']"

definition enterprise_auth_capability :: "access_point \<Rightarrow> network_auth" where
  "enterprise_auth_capability ap = network_auth_new AkWpaEnterprise
     [enterprise_key_mgmt (ap_wpa_flags ap) (ap_rsn_flags ap)]
     enterprise_required_fields enterprise_optional_fields
     (Some ''Provide an enterprise credential object to connect-target; password may be supplied with --password-stdin'')"

definition unsupported_auth :: network_auth where
  "unsupported_auth = network_auth_new AkUnsupported [] [] []
     (Some ''No nm-daemon creation path is known for this visible network yet'')"

definition classify_ap :: "access_point \<Rightarrow> wifi_authentication" where
  "classify_ap ap = classify (ap_flags ap) (ap_wpa_flags ap) (ap_rsn_flags ap)"

definition unsaved_auth_capability :: "access_point \<Rightarrow> network_auth" where
  "unsaved_auth_capability ap =
     (case classify_ap ap of
        AuthOpen \<Rightarrow> passwordless_auth AkOpen
      | AuthOwe \<Rightarrow> passwordless_auth AkOwe
      | AuthPersonal \<Rightarrow> personal_auth ap
      | AuthWep \<Rightarrow> wep_auth
      | AuthEnterprise \<Rightarrow> enterprise_auth_capability ap
      | AuthUnsupported \<Rightarrow> unsupported_auth)"

definition auth_capability_for :: "access_point \<Rightarrow> bool \<Rightarrow> network_auth" where
  "auth_capability_for ap has_profile =
     (if has_profile then saved_profile_auth else unsaved_auth_capability ap)"

section \<open>Prompts\<close>

datatype prompt_kind = PkNone | PkPassword | PkEnterprise | PkUnsupported

record network_connect_prompt =
  ncp_kind :: prompt_kind
  ncp_required_fields :: "string list"
  ncp_optional_fields :: "string list"
  ncp_message :: "string option"
  ncp_enterprise_defaults :: "enterprise_auth option"

definition prompt_from_auth ::
    "prompt_kind \<Rightarrow> network_auth \<Rightarrow> string option \<Rightarrow> enterprise_auth option \<Rightarrow> network_connect_prompt" where
  "prompt_from_auth kind auth message enterprise_defaults =
     \<lparr>ncp_kind = kind, ncp_required_fields = (if kind = PkNone then [] else na_required_fields auth),
      ncp_optional_fields = na_optional_fields auth, ncp_message = message,
      ncp_enterprise_defaults = enterprise_defaults\<rparr>"

definition no_credentials_prompt :: "network_auth \<Rightarrow> network_connect_prompt" where
  "no_credentials_prompt auth =
     prompt_from_auth (if auth_supported auth then PkNone else PkUnsupported) auth (na_note auth) None"

definition requires_enterprise_fields :: "network_auth \<Rightarrow> bool" where
  "requires_enterprise_fields auth = list_ex (starts_with ''enterprise.'') (na_required_fields auth)"

definition requires_password :: "network_auth \<Rightarrow> bool" where
  "requires_password auth = list_ex (\<lambda>field. field = ''password'') (na_required_fields auth)"

definition or_else :: "'a option \<Rightarrow> 'a \<Rightarrow> 'a option" where
  "or_else x d = (case x of None \<Rightarrow> Some d | Some v \<Rightarrow> Some v)"

definition enterprise_prompt :: "access_point \<Rightarrow> network_auth \<Rightarrow> network_connect_prompt" where
  "enterprise_prompt ap auth = prompt_from_auth PkEnterprise auth
     (or_else (na_note auth) ''Enter enterprise Wi-Fi credentials.'')
     (Some (enterprise_auth_default\<lparr>ea_eap := [''peap''], ea_phase2_auth := Some ''mschapv2'',
        ea_key_mgmt := Some (enterprise_key_mgmt (ap_wpa_flags ap) (ap_rsn_flags ap))\<rparr>))"

definition password_prompt :: "network_auth \<Rightarrow> network_connect_prompt" where
  "password_prompt auth = prompt_from_auth PkPassword auth
     (or_else (na_note auth) ''Enter the Wi-Fi password, then press Enter.'') None"

definition connect_prompt_for :: "access_point \<Rightarrow> network_auth \<Rightarrow> bool \<Rightarrow> network_connect_prompt" where
  "connect_prompt_for ap auth has_profile =
     (if has_profile \<or> na_required_fields auth = [] then no_credentials_prompt auth
      else if requires_enterprise_fields auth then enterprise_prompt ap auth
      else if requires_password auth then password_prompt auth
      else prompt_from_auth PkUnsupported auth (na_note auth) None)"

section \<open>Sharing and portals\<close>

record network_share_hint =
  nsh_shareable :: bool
  nsh_reason :: "string option"
  nsh_requires_profile_secret_check :: bool
  nsh_profile_path :: "string option"
  nsh_qr_payload :: "string option"

definition access_point_is_passwordless :: "access_point \<Rightarrow> bool" where
  "access_point_is_passwordless ap = ap_is_passwordless (ap_flags ap) (ap_wpa_flags ap) (ap_rsn_flags ap)"

definition is_shareable_passwordless_network :: "access_point \<Rightarrow> bool" where
  "is_shareable_passwordless_network ap \<longleftrightarrow> ssid_bytes_of ap \<noteq> [] \<and> access_point_is_passwordless ap"

definition passwordless_network_share_hint :: "access_point \<Rightarrow> network_share_hint" where
  "passwordless_network_share_hint ap =
     \<lparr>nsh_shareable = True, nsh_reason = None, nsh_requires_profile_secret_check = False,
      nsh_profile_path = None, nsh_qr_payload = Some (wifi_qr_payload ''nopass'' (ap_ssid ap) None False)\<rparr>"

definition unshareable_hint :: "string \<Rightarrow> network_share_hint" where
  "unshareable_hint reason =
     \<lparr>nsh_shareable = False, nsh_reason = Some reason, nsh_requires_profile_secret_check = False,
      nsh_profile_path = None, nsh_qr_payload = None\<rparr>"

definition profile_share_hint :: "saved_wifi_connection \<Rightarrow> network_share_hint" where
  "profile_share_hint profile =
     \<lparr>nsh_shareable = False,
      nsh_reason = Some ''Saved profile password availability must be checked before sharing'',
      nsh_requires_profile_secret_check = True, nsh_profile_path = Some (swc_path profile),
      nsh_qr_payload = None\<rparr>"

definition network_share_hint_for :: "access_point \<Rightarrow> saved_wifi_connection option \<Rightarrow> network_share_hint" where
  "network_share_hint_for ap primary_profile =
     (if is_shareable_passwordless_network ap then passwordless_network_share_hint ap
      else (case primary_profile of
              Some profile \<Rightarrow> profile_share_hint profile
            | None \<Rightarrow> unshareable_hint
                ''Wi-Fi QR sharing requires an open network or a saved profile with a readable password.''))"

record network_portal_hint =
  nph_auto_open_on_connect :: bool
  nph_reason :: "string option"

definition portal_hint_for :: "access_point \<Rightarrow> network_portal_hint" where
  "portal_hint_for ap =
     (let auto_open = access_point_is_passwordless ap \<and> \<not> ap_uses_owe (ap_wpa_flags ap) (ap_rsn_flags ap)
      in \<lparr>nph_auto_open_on_connect = auto_open,
          nph_reason = (if auto_open then Some ''open network may require captive-portal sign-in'' else None)\<rparr>)"

section \<open>Readiness\<close>

datatype connection_readiness =
    Ready | NeedsPassword | NeedsEnterpriseCredentials | Unsupported "string option"

record network_capabilities =
  nc_readiness :: connection_readiness
  nc_has_profile :: bool
  nc_can_share_qr :: bool

definition unsupported_auth_reason :: "access_point \<Rightarrow> string" where
  "unsupported_auth_reason ap =
     ''unsupported authentication flags for '' @ [CHR 0x27] @ ap_ssid ap @ [CHR 0x27] @ '': flags=''
     @ decimal (unat (ap_flags ap)) @ '', wpa='' @ [CHR 0x27] @ ap_wpa_flags_label ap @ [CHR 0x27]
     @ '', rsn='' @ [CHR 0x27] @ ap_rsn_flags_label ap @ [CHR 0x27]
     @ ''; supported profile creation covers open/OWE, WEP, WPA/SAE-Personal, WPA-Enterprise, and saved profiles''"

definition known_identity_readiness :: "access_point \<Rightarrow> bool \<Rightarrow> connection_readiness" where
  "known_identity_readiness ap has_profile =
     (if has_profile then Ready
      else (case classify_ap ap of
              AuthOpen \<Rightarrow> Ready | AuthOwe \<Rightarrow> Ready
            | AuthPersonal \<Rightarrow> NeedsPassword | AuthWep \<Rightarrow> NeedsPassword
            | AuthEnterprise \<Rightarrow> NeedsEnterpriseCredentials
            | AuthUnsupported \<Rightarrow> Unsupported (Some (unsupported_auth_reason ap))))"

definition connection_readiness_of :: "access_point \<Rightarrow> bool \<Rightarrow> connection_readiness" where
  "connection_readiness_of ap has_profile =
     (if ssid_bytes_of ap = [] then Unsupported (Some ''network has no usable SSID'')
      else known_identity_readiness ap has_profile)"

definition network_capabilities_of :: "access_point \<Rightarrow> bool \<Rightarrow> network_share_hint \<Rightarrow> network_capabilities" where
  "network_capabilities_of ap has_profile share =
     \<lparr>nc_readiness = connection_readiness_of ap has_profile, nc_has_profile = has_profile,
      nc_can_share_qr = (nsh_shareable share \<or> nsh_requires_profile_secret_check share)\<rparr>"

section \<open>Entries\<close>

record 'd network_entry =
  ne_access_point :: access_point
  ne_security_class :: security_class
  ne_key :: string
  ne_access_points :: "access_point list"
  ne_primary_profile :: "saved_wifi_connection option"
  ne_profiles :: "saved_wifi_connection list"
  ne_capabilities :: network_capabilities
  ne_auth :: network_auth
  ne_connect_prompt :: network_connect_prompt
  ne_share :: network_share_hint
  ne_portal_hint :: network_portal_hint
  ne_last_connection :: "'d option"

fun keep_new_paths :: "string list \<Rightarrow> saved_wifi_connection list \<Rightarrow> saved_wifi_connection list" where
  "keep_new_paths seen [] = []"
| "keep_new_paths seen (p # ps) =
     (if swc_path p \<in> set seen then keep_new_paths seen ps
      else p # keep_new_paths (swc_path p # seen) ps)"

type_synonym profile_matches = "(string, saved_wifi_connection list) hash_map"

definition matches_of :: "profile_matches \<Rightarrow> access_point \<Rightarrow> saved_wifi_connection list" where
  "matches_of m ap = (case hm_get m (ap_path ap) of None \<Rightarrow> [] | Some ps \<Rightarrow> ps)"

definition profiles_for_access_point_group ::
    "access_point list \<Rightarrow> profile_matches \<Rightarrow> saved_wifi_connection list" where
  "profiles_for_access_point_group aps m =
     keep_new_paths [] (concat (map (matches_of m)
       (filter ap_active aps @ filter (\<lambda>ap. \<not> ap_active ap) aps)))"

definition entry_for :: "access_point \<Rightarrow> access_point list \<Rightarrow> saved_wifi_connection list \<Rightarrow> 'd network_entry" where
  "entry_for ap aps profiles =
     (let primary_profile = (case profiles of [] \<Rightarrow> None | p # _ \<Rightarrow> Some p);
          has_profile = (primary_profile \<noteq> None);
          share = network_share_hint_for ap primary_profile;
          auth = auth_capability_for ap has_profile
      in \<lparr>ne_access_point = ap, ne_security_class = class_of ap, ne_key = network_key_for ap,
          ne_access_points = aps, ne_primary_profile = primary_profile, ne_profiles = profiles,
          ne_capabilities = network_capabilities_of ap has_profile share, ne_auth = auth,
          ne_connect_prompt = connect_prompt_for ap auth has_profile, ne_share = share,
          ne_portal_hint = portal_hint_for ap, ne_last_connection = None\<rparr>)"

definition network_entry_with_profiles ::
    "access_point list \<Rightarrow> saved_wifi_connection list \<Rightarrow> 'd network_entry option" where
  "network_entry_with_profiles aps profiles =
     map_option (\<lambda>ap. entry_for ap aps profiles) (preferred_access_point aps)"

definition network_entries_with_profile_matches ::
    "access_point list \<Rightarrow> profile_matches \<Rightarrow> 'd network_entry list" where
  "network_entries_with_profile_matches aps m =
     List.map_filter (\<lambda>group. network_entry_with_profiles group (profiles_for_access_point_group group m))
       (grouped_access_points aps)"

section \<open>Entries and groups\<close>

lemma entry_for_fields [simp]:
  "ne_access_point (entry_for ap aps ps) = ap" "ne_security_class (entry_for ap aps ps) = class_of ap"
  "ne_key (entry_for ap aps ps) = network_key_for ap" "ne_access_points (entry_for ap aps ps) = aps"
  "ne_profiles (entry_for ap aps ps) = ps" "ne_portal_hint (entry_for ap aps ps) = portal_hint_for ap"
  "ne_primary_profile (entry_for ap aps ps) = (case ps of [] \<Rightarrow> None | p # _ \<Rightarrow> Some p)"
  by (simp_all add: entry_for_def Let_def)

lemma entry_for_derived:
  "ne_auth (entry_for ap aps ps) = auth_capability_for ap (ps \<noteq> [])"
  "ne_connect_prompt (entry_for ap aps ps) = connect_prompt_for ap (auth_capability_for ap (ps \<noteq> [])) (ps \<noteq> [])"
  "nc_readiness (ne_capabilities (entry_for ap aps ps)) = connection_readiness_of ap (ps \<noteq> [])"
  "ne_share (entry_for ap aps ps) = network_share_hint_for ap (case ps of [] \<Rightarrow> None | p # _ \<Rightarrow> Some p)"
  by (cases ps; simp add: entry_for_def Let_def network_capabilities_of_def)+

lemma group_key_of_group: "x \<in> set (group_of aps k) \<Longrightarrow> group_key x = k"
  by (simp add: group_of_def)

text \<open>Every group has a preferred access point, so every group has its entry.\<close>

definition group_entry :: "access_point list \<Rightarrow> profile_matches \<Rightarrow> group_key \<Rightarrow> 'd network_entry" where
  "group_entry aps m k =
     entry_for (the (preferred_access_point (group_of aps k))) (group_of aps k)
       (profiles_for_access_point_group (group_of aps k) m)"

lemma preferred_of_group:
  assumes "k \<in> group_key ` set aps"
  shows "\<exists>ap. preferred_access_point (group_of aps k) = Some ap \<and> ap \<in> set (group_of aps k) \<and>
    group_key ap = k \<and> (\<forall>x \<in> set (group_of aps k). ap_le x ap)"
proof -
  have "group_of aps k \<noteq> []" using assms by (simp add: group_of_Nil_iff)
  then obtain ap where "preferred_access_point (group_of aps k) = Some ap"
    by (cases "preferred_access_point (group_of aps k)") auto
  then show ?thesis using preferred_greatest group_key_of_group by blast
qed

lemma entries_eq:
  "network_entries_with_profile_matches aps m =
     map (group_entry aps m :: _ \<Rightarrow> 'd network_entry) (sorted_list_of_set (group_key ` set aps))"
proof -
  have "List.map_filter (\<lambda>g. network_entry_with_profiles g (profiles_for_access_point_group g m)) (map (group_of aps) ks) =
      map (group_entry aps m :: _ \<Rightarrow> 'd network_entry) ks" if "set ks \<subseteq> group_key ` set aps" for ks
    using that
  proof (induction ks)
    case (Cons k ks)
    with preferred_of_group [of k aps] show ?case
      by (auto simp: map_filter_def network_entry_with_profiles_def group_entry_def)
  qed (simp add: map_filter_def)
  then show ?thesis by (simp add: network_entries_with_profile_matches_def grouped_eq)
qed

lemma key_of_group_entry:
  "k \<in> group_key ` set aps \<Longrightarrow> \<exists>ap. ne_key (group_entry aps m k :: 'd network_entry) = network_key_for ap \<and> group_key ap = k"
  using preferred_of_group [of k aps] by (auto simp: group_entry_def)

lemma keep_new_subset: "set (keep_new_paths seen ps) \<subseteq> set ps"
  by (induction seen ps rule: keep_new_paths.induct) auto

lemma keep_new_distinct:
  "distinct (map swc_path (keep_new_paths seen ps)) \<and> swc_path ` set (keep_new_paths seen ps) \<inter> set seen = {}"
  by (induction seen ps rule: keep_new_paths.induct) auto

lemma keep_new_complete: "swc_path ` set ps \<subseteq> swc_path ` set (keep_new_paths seen ps) \<union> set seen"
  by (induction seen ps rule: keep_new_paths.induct) auto

lemma profiles_of_group:
  "set (profiles_for_access_point_group g m) \<subseteq> (\<Union>ap \<in> set g. set (matches_of m ap)) \<and>
   swc_path ` set (profiles_for_access_point_group g m) = swc_path ` (\<Union>ap \<in> set g. set (matches_of m ap)) \<and>
   distinct (map swc_path (profiles_for_access_point_group g m))"
proof -
  let ?all = "concat (map (matches_of m) (filter ap_active g @ filter (\<lambda>ap. \<not> ap_active ap) g))"
  have all: "set ?all = (\<Union>ap \<in> set g. set (matches_of m ap))" by auto
  show ?thesis
    using keep_new_subset [of "[]" ?all] keep_new_complete [of ?all "[]"] keep_new_distinct [of "[]" ?all]
    unfolding profiles_for_access_point_group_def all [symmetric] by (auto simp del: set_concat)
qed

definition entry_represents :: "access_point list \<Rightarrow> profile_matches \<Rightarrow> 'd network_entry \<Rightarrow> bool" where
  "entry_represents aps m e \<longleftrightarrow>
     ne_key e = network_key_for (ne_access_point e) \<and>
     ne_security_class e = class_of (ne_access_point e) \<and>
     ne_access_points e = filter (\<lambda>ap. network_key_for ap = ne_key e) aps \<and>
     ne_access_point e \<in> set (ne_access_points e) \<and>
     (\<forall>ap \<in> set (ne_access_points e). ap_le ap (ne_access_point e)) \<and>
     set (ne_profiles e) \<subseteq> (\<Union>ap \<in> set (ne_access_points e). set (matches_of m ap)) \<and>
     swc_path ` set (ne_profiles e) = swc_path ` (\<Union>ap \<in> set (ne_access_points e). set (matches_of m ap)) \<and>
     distinct (map swc_path (ne_profiles e))"

lemma group_entry_represents:
  assumes "k \<in> group_key ` set aps"
  shows "entry_represents aps m (group_entry aps m k :: 'd network_entry)"
proof -
  obtain ap where ap: "preferred_access_point (group_of aps k) = Some ap" "ap \<in> set (group_of aps k)"
    "group_key ap = k" "\<forall>x \<in> set (group_of aps k). ap_le x ap"
    using preferred_of_group [OF assms] by blast
  have "group_of aps k = filter (\<lambda>x. network_key_for x = network_key_for ap) aps"
    by (simp add: group_of_def network_key_eq_iff ap(3))
  then show ?thesis
    using ap profiles_of_group [of "group_of aps k" m]
    by (simp add: entry_represents_def group_entry_def del: set_concat)
qed

text \<open>
  C27. The network list represents the scan. Its keys are distinct; every access point is listed in
  an entry; and an entry lists exactly the access points with its key, offers as its own access
  point a listed one that no other beats (an active one before an inactive one, then the stronger),
  and carries exactly the saved profiles matched to access points of this network, each path once,
  so an open network never inherits the profile of a secured one with the same name.
\<close>

theorem network_list_represents_scan:
  "distinct (map ne_key (network_entries_with_profile_matches aps m :: 'd network_entry list)) \<and>
   (\<forall>e \<in> set (network_entries_with_profile_matches aps m :: 'd network_entry list). entry_represents aps m e) \<and>
   (\<forall>ap \<in> set aps. \<exists>e \<in> set (network_entries_with_profile_matches aps m :: 'd network_entry list).
      ne_key e = network_key_for ap \<and> ap \<in> set (ne_access_points e))"
proof -
  let ?ks = "sorted_list_of_set (group_key ` set aps)"
  have ks: "set ?ks = group_key ` set aps" by simp
  have "inj_on (\<lambda>k. ne_key (group_entry aps m k :: 'd network_entry)) (set ?ks)"
  proof (rule inj_onI)
    fix k k'
    assume "k \<in> set ?ks" "k' \<in> set ?ks"
      and "ne_key (group_entry aps m k :: 'd network_entry) = ne_key (group_entry aps m k' :: 'd network_entry)"
    then show "k = k'"
      using key_of_group_entry [of k aps m, where 'd = 'd] key_of_group_entry [of k' aps m, where 'd = 'd]
      unfolding ks by (metis network_key_eq_iff)
  qed
  then have keys: "distinct (map ne_key (map (group_entry aps m :: _ \<Rightarrow> 'd network_entry) ?ks))"
    by (simp add: distinct_map comp_def)
  have listed: "\<exists>e \<in> set (map (group_entry aps m :: _ \<Rightarrow> 'd network_entry) ?ks).
      ne_key e = network_key_for ap \<and> ap \<in> set (ne_access_points e)" if ap: "ap \<in> set aps" for ap
  proof (rule bexI [where x = "group_entry aps m (group_key ap) :: 'd network_entry"])
    show "group_entry aps m (group_key ap) \<in> set (map (group_entry aps m :: _ \<Rightarrow> 'd network_entry) ?ks)" using ap by simp
    show "ne_key (group_entry aps m (group_key ap) :: 'd network_entry) = network_key_for ap \<and>
        ap \<in> set (ne_access_points (group_entry aps m (group_key ap) :: 'd network_entry))"
      using key_of_group_entry [of "group_key ap" aps m, where 'd = 'd] ap
      by (auto simp: network_key_eq_iff group_entry_def group_of_def)
  qed
  show ?thesis
    unfolding entries_eq using keys listed group_entry_represents [where 'd = 'd] by (auto simp del: map_map)
qed

theorem network_list_represents_scan_witness:
  "entry_represents [ap_sample] []
     (hd (network_entries_with_profile_matches [ap_sample] [] :: unit network_entry list)) \<and>
   (\<exists>e \<in> set (network_entries_with_profile_matches [ap_sample] [] :: unit network_entry list).
      ap_sample \<in> set (ne_access_points e))"
proof -
  have "\<exists>e \<in> set (network_entries_with_profile_matches [ap_sample] [] :: unit network_entry list).
      ne_key e = network_key_for ap_sample \<and> ap_sample \<in> set (ne_access_points e)"
    using network_list_represents_scan [of "[ap_sample]" "[]", where 'd = unit] by simp
  moreover from this
  have "hd (network_entries_with_profile_matches [ap_sample] []) \<in>
      set (network_entries_with_profile_matches [ap_sample] [] :: unit network_entry list)"
    by (auto intro!: hd_in_set)
  ultimately show ?thesis
    using network_list_represents_scan [of "[ap_sample]" "[]", where 'd = unit] by blast
qed

section \<open>What an entry asks for\<close>

lemma classify_ap_class:
  "classify_ap ap =
     (case class_of ap of ScOpen \<Rightarrow> AuthOpen | ScEnhancedOpen \<Rightarrow> AuthOwe | ScPersonal \<Rightarrow> AuthPersonal
      | ScLegacy \<Rightarrow> AuthWep | ScEnterprise \<Rightarrow> AuthEnterprise | ScUnknown \<Rightarrow> AuthUnsupported)"
  by (simp add: classify_ap_def classify_def class_of_def)

lemma passwordless_class:
  "access_point_is_passwordless ap \<longleftrightarrow> class_of ap \<in> {ScOpen, ScEnhancedOpen}"
proof -
  have "security_class f w r \<in> {ScOpen, ScEnhancedOpen} \<longleftrightarrow> ap_is_passwordless f w r" for f w r
    by (auto simp: security_class_def security_label_def passwordless_security_def secured_network_label_def)
  then show ?thesis by (simp add: access_point_is_passwordless_def class_of_def)
qed

lemma owe_class: "class_of ap = ScEnhancedOpen \<longleftrightarrow> ap_uses_owe (ap_wpa_flags ap) (ap_rsn_flags ap)"
  by (auto simp: class_of_def security_class_def security_label_def passwordless_security_def
      secured_network_label_def ap_uses_owe_def ap_is_passwordless_def)

definition expected_prompt :: "security_class \<Rightarrow> bool \<Rightarrow> prompt_kind" where
  "expected_prompt k saved =
     (if saved then PkNone
      else (case k of ScOpen \<Rightarrow> PkNone | ScEnhancedOpen \<Rightarrow> PkNone | ScPersonal \<Rightarrow> PkPassword
            | ScLegacy \<Rightarrow> PkPassword | ScEnterprise \<Rightarrow> PkEnterprise | ScUnknown \<Rightarrow> PkUnsupported))"

lemma prompt_kind_from_auth [simp]: "ncp_kind (prompt_from_auth k a m d) = k"
  by (simp add: prompt_from_auth_def)

lemmas auth_defs = saved_profile_auth_def passwordless_auth_def personal_auth_def wep_auth_def
  enterprise_auth_capability_def unsupported_auth_def network_auth_new_def enterprise_required_fields_def

lemmas prompt_defs = connect_prompt_for_def no_credentials_prompt_def auth_supported_def
  requires_enterprise_fields_def requires_password_def starts_with_def enterprise_prompt_def
  password_prompt_def

lemma prompt_kind:
  "ncp_kind (connect_prompt_for ap (auth_capability_for ap saved) saved) = expected_prompt (class_of ap) saved"
  by (cases "class_of ap")
    (simp_all add: expected_prompt_def auth_capability_for_def unsaved_auth_capability_def
      classify_ap_class prompt_defs auth_defs)

lemma prompt_required_fields:
  "ncp_required_fields (connect_prompt_for ap (auth_capability_for ap saved) saved) =
     na_required_fields (auth_capability_for ap saved)"
  by (cases "class_of ap")
    (simp_all add: auth_capability_for_def unsaved_auth_capability_def classify_ap_class prompt_defs
      auth_defs prompt_from_auth_def)

fun readiness_prompt :: "connection_readiness \<Rightarrow> prompt_kind" where
  "readiness_prompt Ready = PkNone"
| "readiness_prompt NeedsPassword = PkPassword"
| "readiness_prompt NeedsEnterpriseCredentials = PkEnterprise"
| "readiness_prompt (Unsupported _) = PkUnsupported"

lemma readiness_prompt_kind:
  "ssid_bytes_of ap \<noteq> [] \<Longrightarrow> readiness_prompt (connection_readiness_of ap saved) = expected_prompt (class_of ap) saved"
  by (cases "class_of ap")
    (simp_all add: connection_readiness_of_def known_identity_readiness_def expected_prompt_def classify_ap_class)

lemma share_hint_kind:
  "nsh_shareable (network_share_hint_for ap p) \<longleftrightarrow> ssid_bytes_of ap \<noteq> [] \<and> class_of ap \<in> {ScOpen, ScEnhancedOpen}"
  "nsh_qr_payload (network_share_hint_for ap p) =
     (if nsh_shareable (network_share_hint_for ap p) then Some (wifi_qr_payload ''nopass'' (ap_ssid ap) None False) else None)"
  by (simp_all add: network_share_hint_for_def is_shareable_passwordless_network_def passwordless_class
      passwordless_network_share_hint_def profile_share_hint_def unshareable_hint_def split: option.splits)

lemma portal_hint_kind: "nph_auto_open_on_connect (portal_hint_for ap) \<longleftrightarrow> class_of ap = ScOpen"
  using owe_class [of ap] by (auto simp: portal_hint_for_def Let_def passwordless_class)

text \<open>
  What an entry announces is coherent. For a network with an SSID the announced readiness and
  the prompt shown agree, and both follow from the security class: with a saved profile, or without
  one on an open or enhanced open network, nothing is asked; a personal or WEP network without a
  profile asks for a password, an enterprise one for enterprise credentials, an unknown one is
  reported as unsupported; the prompt asks for exactly the fields the authentication requires. A
  captive portal is expected exactly on open networks without OWE, and a QR code is offered exactly
  for passwordless networks and never contains a password.
\<close>

theorem entry_announcements_coherent:
  assumes "e \<in> set (network_entries_with_profile_matches aps m)" and "ssid_bytes_of (ne_access_point e) \<noteq> []"
  shows "readiness_prompt (nc_readiness (ne_capabilities e)) = ncp_kind (ne_connect_prompt e) \<and>
    ncp_kind (ne_connect_prompt e) = expected_prompt (ne_security_class e) (ne_profiles e \<noteq> []) \<and>
    ncp_required_fields (ne_connect_prompt e) = na_required_fields (ne_auth e) \<and>
    (nph_auto_open_on_connect (ne_portal_hint e) \<longleftrightarrow> ne_security_class e = ScOpen) \<and>
    (nsh_shareable (ne_share e) \<longleftrightarrow> ne_security_class e \<in> {ScOpen, ScEnhancedOpen}) \<and>
    nsh_qr_payload (ne_share e) =
      (if nsh_shareable (ne_share e)
       then Some (wifi_qr_payload ''nopass'' (ap_ssid (ne_access_point e)) None False) else None)"
proof -
  from assms(1) obtain k where "e = group_entry aps m k" by (auto simp: entries_eq)
  then obtain ap g ps where e: "e = entry_for ap g ps" by (simp add: group_entry_def)
  show ?thesis
    using assms(2) readiness_prompt_kind [of ap "ps \<noteq> []"] unfolding e entry_for_derived entry_for_fields
    by (simp add: prompt_kind prompt_required_fields share_hint_kind portal_hint_kind)
qed

lemma entries_single:
  "network_entries_with_profile_matches [ap] m = [group_entry [ap] m (group_key ap)]"
  by (simp add: entries_eq)

theorem entry_announcements_coherent_witness:
  "\<exists>e :: unit network_entry. e \<in> set (network_entries_with_profile_matches [ap_sample] []) \<and>
     ncp_kind (ne_connect_prompt e) = expected_prompt (ne_security_class e) (ne_profiles e \<noteq> [])"
proof -
  let ?e = "group_entry [ap_sample] [] (group_key ap_sample) :: unit network_entry"
  have e: "?e \<in> set (network_entries_with_profile_matches [ap_sample] [])" by (simp add: entries_single)
  moreover have "ssid_bytes_of (ne_access_point ?e) \<noteq> []"
    by (simp add: group_entry_def group_of_def ssid_bytes_of_def ap_sample_def)
  ultimately show ?thesis using entry_announcements_coherent [OF e] by blast
qed

text \<open>
  The code offered for a passwordless network names its display text, not its SSID. An open
  access point whose SSID is the single byte 0xE9 displays as a replacement character, and the
  payload it offers for sharing is accepted by the intake as the SSID of that character, three bytes
  that are not the SSID of the network.
\<close>

definition ap_latin :: access_point where
  "ap_latin = ap_sample\<lparr>ap_ssid := display_ssid [CHR 0xE9], ap_ssid_bytes := [CHR 0xE9],
     ap_flags := 0, ap_rsn_flags := 0\<rparr>"

theorem share_code_lossy_ssid:
  "\<exists>payload qr. nsh_qr_payload (network_share_hint_for ap_latin None) = Some payload \<and>
     parse_wifi_qr payload = Inr qr \<and> qr_ssid_bytes qr = replacement_character \<and>
     ssid_bytes_of ap_latin = [CHR 0xE9] \<and> qr_ssid_bytes qr \<noteq> ssid_bytes_of ap_latin"
proof -
  have bytes: "ssid_bytes_of ap_latin = [CHR 0xE9]"
    by (simp add: ap_latin_def ssid_bytes_of_def)
  have open_ap: "access_point_is_passwordless ap_latin"
    by (simp add: access_point_is_passwordless_def ap_is_passwordless_def flags_are_passwordless_def
        ap_latin_def ap_sample_def)
  have shown: "ap_ssid ap_latin = replacement_character"
    by (simp add: ap_latin_def display_ssid_def lossy_step utf8_next_def utf8_tail_def in_range_def byte_val_def)
  have payload: "nsh_qr_payload (network_share_hint_for ap_latin None) =
      Some (wifi_qr_payload ''nopass'' replacement_character None False)"
    using bytes open_ap shown
    by (simp add: network_share_hint_for_def is_shareable_passwordless_network_def passwordless_network_share_hint_def)
  have "map to_ascii_uppercase ''nopass'' = ''NOPASS''" by code_simp
  then have token: "\<forall>c \<in> set ''nopass''. \<not> special c" "parse_auth ''nopass'' = Inr QrOpen"
    unfolding parse_auth_def Let_def by (simp_all add: special_def)
  have name: "replacement_character \<noteq> []" "length replacement_character \<le> 32"
    by (simp_all add: replacement_character_def)
  from parse_payload [OF token name, of None False] payload bytes show ?thesis
    by (auto simp: validate_password_def replacement_character_def)
qed

end
