(* ===== verification/Connect_Target.thy ===== *)
theory Connect_Target
  imports Network_Entries
begin

text \<open>
  Connect targets (\<open>src/model.rs\<close>) and the version 1 wire forms (\<open>src/model/wire_v1.rs\<close>) of
  targets, capabilities and authentication. A wire form is the serde structure the JSON text is
  read into and written from. An object path is accepted by the D-Bus library, a parameter
  \<open>object_path_ok\<close>; the message of its error is not modelled.
\<close>

section \<open>Identities of a target\<close>

text \<open>\<open>char::is_whitespace\<close> on the UTF-8 form of the white-space characters.\<close>

fun starts_whitespace :: "nat list \<Rightarrow> bool" where
  "starts_whitespace [] = False"
| "starts_whitespace (a # rest) =
     ((9 \<le> a \<and> a \<le> 13) \<or> a = 32 \<or>
      (case rest of
         [] \<Rightarrow> False
       | b # rest' \<Rightarrow>
           (a = 194 \<and> (b = 133 \<or> b = 160)) \<or>
           (case rest' of
              [] \<Rightarrow> False
            | c # _ \<Rightarrow>
                (a = 225 \<and> b = 154 \<and> c = 128) \<or>
                (a = 226 \<and> b = 128 \<and> ((128 \<le> c \<and> c \<le> 138) \<or> c = 168 \<or> c = 169 \<or> c = 175)) \<or>
                (a = 226 \<and> b = 129 \<and> c = 159) \<or>
                (a = 227 \<and> b = 128 \<and> c = 128))))"

fun has_whitespace :: "string \<Rightarrow> bool" where
  "has_whitespace [] = False"
| "has_whitespace (c # cs) = (starts_whitespace (map byte_val (c # cs)) \<or> has_whitespace cs)"

text \<open>\<open>str::trim\<close> of a text of white space is empty.\<close>

function blank :: "string \<Rightarrow> bool" where
  "blank s =
     (if s = [] then True
      else if starts_whitespace (map byte_val s)
      then blank (drop (if byte_val (hd s) < 128 then 1 else if byte_val (hd s) = 194 then 2 else 3) s)
      else False)"
  by auto
termination
  by (relation "measure length") auto

declare blank.simps [simp del]

definition interface_name_parse :: "string \<Rightarrow> anyhow_error + string" where
  "interface_name_parse value =
     (if value = [] \<or> 15 < length value \<or> has_whitespace value
         \<or> list_ex (\<lambda>c. c = CHR ''/'' \<or> c = CHR 0x00) value
      then Inl [LContext (''invalid network interface name '' @ [CHR 0x27] @ value @ [CHR 0x27])]
      else Inr value)"

definition object_path_parse :: "(string \<Rightarrow> bool) \<Rightarrow> string \<Rightarrow> anyhow_error + string" where
  "object_path_parse object_path_ok value =
     (if object_path_ok value then Inr value else Inl [LContext ''invalid object path''])"

section \<open>Targets\<close>

record target_ip_address =
  tia_address :: string
  tia_prefix :: u32

record target_ip_route =
  tir_dest :: string
  tir_prefix :: u32
  tir_next_hop :: "string option"
  tir_metric :: "u32 option"
  tir_table :: "u32 option"

record target_ip_settings =
  tis_method :: "string option"
  tis_addresses :: "target_ip_address list"
  tis_gateway :: "string option"
  tis_dns :: "string list"
  tis_routes :: "target_ip_route list"
  tis_route_metric :: "int option"
  tis_ignore_auto_dns :: "bool option"
  tis_dns_search :: "string list"

record target_profile_settings =
  tps_remember :: "bool option"
  tps_autoconnect :: "bool option"
  tps_autoconnect_priority :: "int option"
  tps_metered :: "string option"
  tps_cloned_mac_address :: "string option"
  tps_send_hostname :: "bool option"
  tps_ipv4 :: "target_ip_settings option"
  tps_ipv6 :: "target_ip_settings option"

definition target_profile_default :: target_profile_settings where
  "target_profile_default = \<lparr>tps_remember = None, tps_autoconnect = None,
     tps_autoconnect_priority = None, tps_metered = None, tps_cloned_mac_address = None,
     tps_send_hostname = None, tps_ipv4 = None, tps_ipv6 = None\<rparr>"

record wifi_connect_target =
  wct_ssid :: ssid
  wct_ap_path :: "string option"
  wct_bssid :: "string option"
  wct_ifname :: "string option"
  wct_device_path :: "string option"
  wct_connection_name :: "string option"
  wct_private :: bool
  wct_hidden :: bool
  wct_security :: "security option"
  wct_key_mgmt :: "string option"
  wct_enterprise :: "enterprise_auth option"
  wct_profile :: target_profile_settings

definition has_specific_ap :: "wifi_connect_target \<Rightarrow> bool" where
  "has_specific_ap t \<longleftrightarrow> wct_ap_path t \<noteq> None \<or> wct_bssid t \<noteq> None"

definition target_validate :: "wifi_connect_target \<Rightarrow> anyhow_error + unit" where
  "target_validate t =
     (if wct_hidden t \<and> wct_bssid t = None \<and> looks_like_bssid (ssid_display (wct_ssid t))
      then Inl [LContext (''hidden Wi-Fi target must be an SSID, but '' @ [CHR 0x27]
             @ ssid_display (wct_ssid t) @ [CHR 0x27] @ '' looks like a BSSID'')]
      else Inr ())"

definition connect_target_for_ssid :: "ssid \<Rightarrow> wifi_connect_target" where
  "connect_target_for_ssid s =
     \<lparr>wct_ssid = s, wct_ap_path = None, wct_bssid = None, wct_ifname = None, wct_device_path = None,
      wct_connection_name = None, wct_private = False, wct_hidden = False, wct_security = None,
      wct_key_mgmt = None, wct_enterprise = None, wct_profile = target_profile_default\<rparr>"

definition enterprise_auth_for_network :: "'d network_entry \<Rightarrow> string option \<Rightarrow> enterprise_auth option" where
  "enterprise_auth_for_network network identity =
     map_option (\<lambda>i. (case ncp_enterprise_defaults (ne_connect_prompt network) of
                        Some d \<Rightarrow> d | None \<Rightarrow> default_enterprise_auth i)\<lparr>ea_identity := Some i\<rparr>) identity"

text \<open>\<open>(!text.is_empty()).then(|| parse(text)).transpose()\<close>.\<close>

definition parse_unless_empty :: "(string \<Rightarrow> anyhow_error + string) \<Rightarrow> string \<Rightarrow> anyhow_error + string option" where
  "parse_unless_empty parse text =
     (if text = [] then Inr None else and_then (parse text) (\<lambda>v. Inr (Some v)))"

definition connect_target_for_network_access_point ::
    "(string \<Rightarrow> bool) \<Rightarrow> 'd network_entry \<Rightarrow> access_point \<Rightarrow> string option \<Rightarrow>
     anyhow_error + wifi_connect_target" where
  "connect_target_for_network_access_point object_path_ok network ap enterprise_identity =
     and_then (ssid_from_bytes (ssid_bytes_of ap)) (\<lambda>s.
     and_then (parse_unless_empty (object_path_parse object_path_ok) (ap_path ap)) (\<lambda>path.
     and_then (parse_unless_empty bssid_parse (ap_bssid ap)) (\<lambda>bssid.
     and_then (parse_unless_empty interface_name_parse (ap_device_iface ap)) (\<lambda>ifname.
     and_then (parse_unless_empty (object_path_parse object_path_ok) (ap_device_path ap)) (\<lambda>device_path.
     Inr ((connect_target_for_ssid s)
       \<lparr>wct_ap_path := path, wct_bssid := bssid, wct_ifname := ifname, wct_device_path := device_path,
        wct_security := Some (ap_security ap),
        wct_key_mgmt := (case na_key_management (ne_auth network) of [] \<Rightarrow> None | k # _ \<Rightarrow> Some k),
        wct_enterprise := enterprise_auth_for_network network enterprise_identity\<rparr>))))))"

definition connect_target_for_network ::
    "(string \<Rightarrow> bool) \<Rightarrow> 'd network_entry \<Rightarrow> string option \<Rightarrow> anyhow_error + wifi_connect_target" where
  "connect_target_for_network object_path_ok network enterprise_identity =
     connect_target_for_network_access_point object_path_ok network (ne_access_point network) enterprise_identity"

definition connect_target_for_network_key :: "string \<Rightarrow> string option \<Rightarrow> anyhow_error + wifi_connect_target" where
  "connect_target_for_network_key key enterprise_identity =
     and_then (ssid_for_network_key key) (\<lambda>s.
     let target = connect_target_for_ssid s
     in Inr (case enterprise_identity of
               Some identity \<Rightarrow> target\<lparr>wct_enterprise := Some (default_enterprise_auth identity)\<rparr>
             | None \<Rightarrow> target))"

section \<open>Wire forms\<close>

record target_v1 =
  tv_ssid :: string
  tv_ssid_bytes :: bytes
  tv_ap_path :: "string option"
  tv_bssid :: "string option"
  tv_ifname :: "string option"
  tv_device_path :: "string option"
  tv_connection_name :: "string option"
  tv_private :: bool
  tv_hidden :: bool
  tv_security :: "security option"
  tv_key_mgmt :: "string option"
  tv_enterprise :: "enterprise_auth option"
  tv_profile :: target_profile_settings

definition target_to_wire :: "wifi_connect_target \<Rightarrow> target_v1" where
  "target_to_wire t =
     \<lparr>tv_ssid = ssid_display (wct_ssid t), tv_ssid_bytes = ssid_exact (wct_ssid t),
      tv_ap_path = wct_ap_path t, tv_bssid = wct_bssid t, tv_ifname = wct_ifname t,
      tv_device_path = wct_device_path t, tv_connection_name = wct_connection_name t,
      tv_private = wct_private t, tv_hidden = wct_hidden t, tv_security = wct_security t,
      tv_key_mgmt = wct_key_mgmt t, tv_enterprise = wct_enterprise t, tv_profile = wct_profile t\<rparr>"

definition target_from_wire :: "target_v1 \<Rightarrow> string + wifi_connect_target" where
  "target_from_wire w =
     (case ssid_from_bytes (if tv_ssid_bytes w = [] then tv_ssid w else tv_ssid_bytes w) of
        Inl e \<Rightarrow> Inl (anyhow_display e)
      | Inr s \<Rightarrow>
          if ssid_display s \<noteq> tv_ssid w
          then Inl ''ssid display does not match the exact ssid_bytes identity''
          else Inr \<lparr>wct_ssid = s, wct_ap_path = tv_ap_path w, wct_bssid = tv_bssid w,
            wct_ifname = tv_ifname w, wct_device_path = tv_device_path w,
            wct_connection_name = tv_connection_name w, wct_private = tv_private w,
            wct_hidden = tv_hidden w, wct_security = tv_security w, wct_key_mgmt = tv_key_mgmt w,
            wct_enterprise = tv_enterprise w, wct_profile = tv_profile w\<rparr>)"

record capabilities_v1 =
  cv_can_connect :: bool
  cv_can_connect_now :: bool
  cv_can_connect_with_password :: bool
  cv_needs_password :: bool
  cv_can_connect_with_credentials :: bool
  cv_needs_credentials :: bool
  cv_can_forget :: bool
  cv_can_toggle_autoconnect :: bool
  cv_can_set_mac_randomization :: bool
  cv_can_toggle_casting :: bool
  cv_can_set_send_hostname :: bool
  cv_can_share_qr :: bool
  cv_supported_auth :: bool
  cv_unsupported_reason :: "string option"

fun v1_readiness ::
    "connection_readiness \<Rightarrow> bool \<times> bool \<times> bool \<times> bool \<times> bool \<times> bool \<times> bool \<times> string option" where
  "v1_readiness Ready = (True, True, False, False, False, False, True, None)"
| "v1_readiness NeedsPassword = (True, False, True, True, False, False, True, None)"
| "v1_readiness NeedsEnterpriseCredentials = (True, False, False, False, True, True, True, None)"
| "v1_readiness (Unsupported reason) = (False, False, False, False, False, False, False, reason)"

definition capabilities_to_wire :: "network_capabilities \<Rightarrow> capabilities_v1" where
  "capabilities_to_wire c =
     (case v1_readiness (nc_readiness c) of (r0, r1, r2, r3, r4, r5, r6, r7) \<Rightarrow>
        \<lparr>cv_can_connect = r0, cv_can_connect_now = r1, cv_can_connect_with_password = r2,
         cv_needs_password = r3, cv_can_connect_with_credentials = r4, cv_needs_credentials = r5,
         cv_can_forget = nc_has_profile c, cv_can_toggle_autoconnect = nc_has_profile c,
         cv_can_set_mac_randomization = nc_has_profile c, cv_can_toggle_casting = nc_has_profile c,
         cv_can_set_send_hostname = nc_has_profile c, cv_can_share_qr = nc_can_share_qr c,
         cv_supported_auth = r6, cv_unsupported_reason = r7\<rparr>)"

definition readiness_from_flags ::
    "bool \<times> bool \<times> bool \<times> bool \<times> bool \<times> bool \<times> bool \<Rightarrow> string option \<Rightarrow> connection_readiness option" where
  "readiness_from_flags flags reason =
     (if flags = (True, True, False, False, False, False, True) then Some Ready
      else if flags = (True, False, True, True, False, False, True) then Some NeedsPassword
      else if flags = (True, False, False, False, True, True, True) then Some NeedsEnterpriseCredentials
      else if flags = (False, False, False, False, False, False, False) then Some (Unsupported reason)
      else None)"

definition capabilities_from_wire :: "capabilities_v1 \<Rightarrow> string + network_capabilities" where
  "capabilities_from_wire w =
     (let profile_flags = [cv_can_forget w, cv_can_toggle_autoconnect w,
            cv_can_set_mac_randomization w, cv_can_set_send_hostname w]
      in if list_ex (\<lambda>flag. flag \<noteq> profile_flags ! 0) profile_flags
         then Inl ''profile mutation capability flags must agree''
         else if cv_can_toggle_casting w \<and> \<not> profile_flags ! 0
         then Inl ''Cast discovery cannot be changed without a saved profile''
         else (case readiness_from_flags (cv_can_connect w, cv_can_connect_now w,
                  cv_can_connect_with_password w, cv_needs_password w,
                  cv_can_connect_with_credentials w, cv_needs_credentials w, cv_supported_auth w)
                  (cv_unsupported_reason w) of
                 None \<Rightarrow> Inl ''contradictory v1 network readiness capability flags''
               | Some readiness \<Rightarrow>
                   Inr \<lparr>nc_readiness = readiness, nc_has_profile = profile_flags ! 0,
                        nc_can_share_qr = cv_can_share_qr w\<rparr>))"

record auth_v1 =
  av_kind :: auth_kind
  av_key_management :: "string list"
  av_supported :: bool
  av_required_fields :: "string list"
  av_optional_fields :: "string list"
  av_note :: "string option"

definition auth_to_wire :: "network_auth \<Rightarrow> auth_v1" where
  "auth_to_wire a = \<lparr>av_kind = na_kind a, av_key_management = na_key_management a,
     av_supported = auth_supported a, av_required_fields = na_required_fields a,
     av_optional_fields = na_optional_fields a, av_note = na_note a\<rparr>"

definition auth_from_wire :: "auth_v1 \<Rightarrow> string + network_auth" where
  "auth_from_wire w =
     (if av_supported w \<noteq> (av_kind w \<noteq> AkUnsupported)
      then Inl ''authentication kind contradicts supported flag''
      else Inr (network_auth_new (av_kind w) (av_key_management w) (av_required_fields w)
             (av_optional_fields w) (av_note w)))"

definition ok :: "'e + 'a \<Rightarrow> 'a option" where
  "ok r = (case r of Inl e \<Rightarrow> None | Inr v \<Rightarrow> Some v)"

section \<open>Canonical BSSIDs\<close>

definition bssid_sep :: "char \<Rightarrow> bool" where
  "bssid_sep c \<longleftrightarrow> c = CHR '':'' \<or> c = CHR ''-''"

definition bssid_char :: "char \<Rightarrow> char" where
  "bssid_char c = to_ascii_uppercase (if c = CHR ''-'' then CHR '':'' else c)"

lemma byte_val_inject: "byte_val a = byte_val b \<longleftrightarrow> a = b"
  by (simp add: byte_val_def)

lemma byte_val_upper:
  "byte_val (to_ascii_uppercase c) = (if 97 \<le> byte_val c \<and> byte_val c \<le> 122 then byte_val c - 32 else byte_val c)"
proof -
  have "byte_val (char_of (byte_val c - 32)) = byte_val c - 32"
    using byte_val_less [of c] unfolding byte_val_def of_char_of by (intro mod_less) linarith
  then show ?thesis by (simp add: to_ascii_uppercase_def)
qed

lemma byte_val_bssid_char:
  "byte_val (bssid_char c) = (if byte_val c = 45 then 58
     else if 97 \<le> byte_val c \<and> byte_val c \<le> 122 then byte_val c - 32 else byte_val c)"
proof (cases "c = CHR ''-''")
  case True
  then show ?thesis by (simp add: bssid_char_def byte_val_upper) (simp add: byte_val_def)
next
  case False
  then have "byte_val c \<noteq> 45" using byte_val_inject [of c "CHR ''-''"] by (simp add: byte_val_def)
  with False show ?thesis by (simp add: bssid_char_def byte_val_upper)
qed

lemma bssid_sep_val: "bssid_sep c \<longleftrightarrow> byte_val c = 58 \<or> byte_val c = 45"
  using byte_val_inject [of c "CHR '':''"] byte_val_inject [of c "CHR ''-''"]
  by (simp add: bssid_sep_def byte_val_def)

lemma bssid_char_facts:
  "bssid_sep (bssid_char c) \<longleftrightarrow> bssid_sep c"
  "is_ascii_hexdigit c \<Longrightarrow> is_ascii_hexdigit (bssid_char c)"
  "bssid_char (bssid_char c) = bssid_char c"
  "bssid_char c \<noteq> CHR ''-''"
proof -
  show "bssid_sep (bssid_char c) \<longleftrightarrow> bssid_sep c"
    by (auto simp: bssid_sep_val byte_val_bssid_char)
  show "is_ascii_hexdigit (bssid_char c)" if "is_ascii_hexdigit c"
    using that by (auto simp: is_ascii_hexdigit_def byte_val_bssid_char)
  have "byte_val (bssid_char (bssid_char c)) = byte_val (bssid_char c)"
    by (auto simp: byte_val_bssid_char)
  then show "bssid_char (bssid_char c) = bssid_char c" by (simp only: byte_val_inject)
  show "bssid_char c \<noteq> CHR ''-''"
    using byte_val_bssid_char [of c] by (auto simp: byte_val_def split: if_splits)
qed

lemma split_on_map: "(\<And>c. P (f c) \<longleftrightarrow> P c) \<Longrightarrow> split_on P (map f s) = map (map f) (split_on P s)"
  by (induction s) (auto split: list.splits)

lemma looks_like_bssid_sep:
  "looks_like_bssid v \<longleftrightarrow> length (filter bssid_sep v) = 5 \<and>
     list_all (\<lambda>part. length part = 2 \<and> list_all is_ascii_hexdigit part) (split_on bssid_sep v)"
proof -
  have "length (filter (\<lambda>c. c = CHR '':'') v) + length (filter (\<lambda>c. c = CHR ''-'') v) = length (filter bssid_sep v)"
    by (induction v) (auto simp: bssid_sep_def)
  moreover have "(\<lambda>c. c = CHR '':'' \<or> c = CHR ''-'') = bssid_sep" by (simp add: fun_eq_iff bssid_sep_def)
  ultimately show ?thesis by (simp add: looks_like_bssid_def)
qed

lemma looks_like_bssid_map:
  assumes "looks_like_bssid v"
  shows "looks_like_bssid (map bssid_char v)"
  using assms unfolding looks_like_bssid_sep split_on_map [of bssid_sep bssid_char, OF bssid_char_facts(1)]
  by (auto simp: list_all_iff filter_map comp_def bssid_char_facts)

lemma length_split_parts: "length v = length (filter P v) + sum_list (map length (split_on P v))"
  by (induction v) (auto split: list.splits)

lemma bssid_length:
  assumes "looks_like_bssid v"
  shows "length v = 17"
proof -
  have parts: "map length (split_on bssid_sep v) = replicate 6 2"
    using assms length_split_on [of bssid_sep v]
    unfolding looks_like_bssid_sep by (intro replicate_eqI) (auto simp: list_all_iff)
  have "length v = length (filter bssid_sep v) + sum_list (map length (split_on bssid_sep v))"
    by (rule length_split_parts)
  with assms show ?thesis unfolding parts looks_like_bssid_sep by (simp add: sum_list_replicate)
qed

lemma bssid_parse_eq: "bssid_parse v = Inr b \<longleftrightarrow> looks_like_bssid v \<and> b = map bssid_char v"
proof -
  have "(\<lambda>c. to_ascii_uppercase (if c = CHR ''-'' then CHR '':'' else c)) = bssid_char"
    by (simp add: fun_eq_iff bssid_char_def)
  then show ?thesis by (auto simp: bssid_parse_def validate_bssid_def)
qed

text \<open>
  C35. An accepted BSSID is stored in one form: six pairs of hexadecimal digits, 17 bytes, with
  colons and in upper case. Parsing the stored form gives it back, so a BSSID that was accepted once
  is accepted again and compares equal to every spelling of it.
\<close>

theorem bssid_canonical:
  assumes "bssid_parse v = Inr b"
  shows "bssid_parse b = Inr b \<and> length b = 17 \<and> length v = 17 \<and>
    (\<forall>c \<in> set b. c \<noteq> CHR ''-'' \<and> to_ascii_uppercase c = c)"
proof -
  have v: "looks_like_bssid v" and b: "b = map bssid_char v" using assms by (simp_all add: bssid_parse_eq)
  have "map bssid_char b = b" by (simp add: b bssid_char_facts)
  moreover have "to_ascii_uppercase (bssid_char c) = bssid_char c" for c
    using byte_val_upper [of "bssid_char c"] byte_val_bssid_char [of c]
    by (subst byte_val_inject [symmetric]) auto
  ultimately show ?thesis
    using looks_like_bssid_map [OF v] bssid_length [OF v] by (auto simp: bssid_parse_eq b bssid_char_facts)
qed

theorem bssid_canonical_witness:
  "\<exists>b. bssid_parse ''aa-bb:cc-dd:ee-0f'' = Inr b \<and> bssid_parse b = Inr b \<and> length b = 17"
proof -
  have "looks_like_bssid ''aa-bb:cc-dd:ee-0f''" by code_simp
  then have b: "bssid_parse ''aa-bb:cc-dd:ee-0f'' = Inr (map bssid_char ''aa-bb:cc-dd:ee-0f'')"
    by (simp only: bssid_parse_eq)
  from bssid_canonical [OF b] b show ?thesis by blast
qed

section \<open>Wire forms are codecs\<close>

lemma ok_eq_Some [simp]: "ok r = Some v \<longleftrightarrow> r = Inr v"
  by (cases r) (simp_all add: ok_def)

interpretation caps: codec capabilities_to_wire "\<lambda>w. ok (capabilities_from_wire w)"
proof unfold_locales
  show "ok (capabilities_from_wire (capabilities_to_wire c)) = Some c" for c
    by (cases "nc_readiness c")
      (simp_all add: capabilities_to_wire_def capabilities_from_wire_def readiness_from_flags_def)
qed

interpretation auths: exact_codec auth_to_wire "\<lambda>w. ok (auth_from_wire w)"
  by unfold_locales
    (auto simp: auth_to_wire_def auth_from_wire_def auth_supported_def network_auth_new_def split: if_splits)

lemma readiness_from_flags_exact:
  "readiness_from_flags flags reason = Some r \<Longrightarrow>
     flags = (case v1_readiness r of (a, b, c, d, e, f, g, _) \<Rightarrow> (a, b, c, d, e, f, g)) \<and>
     (\<forall>s. r = Unsupported s \<longrightarrow> s = reason)"
  by (auto simp: readiness_from_flags_def split: if_splits)

definition ssid_wf :: "ssid \<Rightarrow> bool" where
  "ssid_wf s \<longleftrightarrow> ssid_from_bytes (ssid_exact s) = Inr s"

lemma ssid_from_bytes_wf: "ssid_from_bytes bs = Inr s \<Longrightarrow> ssid_wf s \<and> ssid_exact s = bs"
  by (auto simp: ssid_wf_def ssid_from_bytes_def validate_ssid_bytes_def split: if_splits)

lemma ssid_wf_nonempty: "ssid_wf s \<Longrightarrow> ssid_exact s \<noteq> []"
  by (auto simp: ssid_wf_def ssid_from_bytes_def validate_ssid_bytes_def split: if_splits)

text \<open>
  C29. The wire forms lose nothing. A connect target with a legal SSID, every capability set and
  every authentication description are read back as they were written; an accepted target has the
  SSID its bytes say and displays the text it was sent with; and the capability flags that are
  accepted are those the daemon itself would send, up to the casting flag that older caches lack and
  a reason nobody reads.
\<close>

theorem wire_roundtrip:
  "(ssid_wf (wct_ssid t) \<longrightarrow> target_from_wire (target_to_wire t) = Inr t) \<and>
   (target_from_wire w = Inr t \<longrightarrow> ssid_wf (wct_ssid t) \<and> ssid_display (wct_ssid t) = tv_ssid w \<and>
      (tv_ssid_bytes w \<noteq> [] \<longrightarrow> ssid_exact (wct_ssid t) = tv_ssid_bytes w)) \<and>
   capabilities_from_wire (capabilities_to_wire c) = Inr c \<and>
   (capabilities_from_wire cw = Inr c \<longrightarrow>
      capabilities_to_wire c = cw\<lparr>cv_can_toggle_casting := nc_has_profile c,
        cv_unsupported_reason := cv_unsupported_reason (capabilities_to_wire c)\<rparr>) \<and>
   (auth_from_wire aw = Inr a \<longleftrightarrow> aw = auth_to_wire a)"
proof -
  have "ssid_wf (wct_ssid t) \<Longrightarrow> target_from_wire (target_to_wire t) = Inr t"
    using ssid_wf_nonempty [of "wct_ssid t"]
    by (simp add: target_from_wire_def target_to_wire_def ssid_wf_def)
  moreover have "ssid_wf (wct_ssid t) \<and> ssid_display (wct_ssid t) = tv_ssid w \<and>
      (tv_ssid_bytes w \<noteq> [] \<longrightarrow> ssid_exact (wct_ssid t) = tv_ssid_bytes w)" if "target_from_wire w = Inr t"
    using that by (auto simp: target_from_wire_def dest!: ssid_from_bytes_wf split: sum.splits if_splits)
  moreover have "capabilities_to_wire c = cw\<lparr>cv_can_toggle_casting := nc_has_profile c,
        cv_unsupported_reason := cv_unsupported_reason (capabilities_to_wire c)\<rparr>"
    if "capabilities_from_wire cw = Inr c"
    using that
    by (auto simp: capabilities_from_wire_def capabilities_to_wire_def Let_def
        dest!: readiness_from_flags_exact split: if_splits option.splits prod.splits)
  ultimately show ?thesis using caps.dec_enc [of c] auths.dec_iff [of aw a] by simp
qed

theorem wire_roundtrip_witness:
  "\<exists>t. ssid_wf (wct_ssid t) \<and> target_from_wire (target_to_wire t) = Inr t \<and>
     ssid_exact (wct_ssid t) = [CHR 0xE9]"
proof -
  let ?s = "\<lparr>ssid_exact = [CHR 0xE9], ssid_display = from_utf8_lossy [CHR 0xE9]\<rparr>"
  let ?t = "connect_target_for_ssid ?s"
  have "ssid_wf (wct_ssid ?t)" by (simp add: ssid_wf_def ssid_from_bytes_ok connect_target_for_ssid_def)
  moreover have "ssid_exact (wct_ssid ?t) = [CHR 0xE9]" by (simp add: connect_target_for_ssid_def)
  ultimately show ?thesis using wire_roundtrip [of ?t] by blast
qed

section \<open>A selection becomes the right target\<close>

lemma parse_unless_empty_ok:
  "parse_unless_empty parse text = Inr v \<longleftrightarrow> (if text = [] then v = None else \<exists>x. parse text = Inr x \<and> v = Some x)"
  by (auto simp: parse_unless_empty_def and_then_Inr_iff)

lemma target_for_ap:
  assumes "connect_target_for_network_access_point okp e ap identity = Inr t"
  shows "ssid_from_bytes (ssid_bytes_of ap) = Inr (wct_ssid t) \<and>
    (ap_path ap \<noteq> [] \<longrightarrow> wct_ap_path t = Some (ap_path ap) \<and> okp (ap_path ap)) \<and>
    (ap_device_iface ap \<noteq> [] \<longrightarrow> wct_ifname t = Some (ap_device_iface ap)) \<and>
    wct_hidden t = False \<and> wct_private t = False \<and> wct_security t = Some (ap_security ap) \<and>
    wct_key_mgmt t = (case na_key_management (ne_auth e) of [] \<Rightarrow> None | k # _ \<Rightarrow> Some k) \<and>
    wct_enterprise t = enterprise_auth_for_network e identity"
  using assms
  by (auto simp: connect_target_for_network_access_point_def and_then_Inr_iff parse_unless_empty_ok
      object_path_parse_def interface_name_parse_def connect_target_for_ssid_def split: if_splits)

lemma key_target_ssid:
  assumes "ssid_from_bytes (ssid_bytes_of ap) = Inr s"
  shows "ssid_for_network_key (network_key_for ap) = Inr s"
proof -
  have "network_key_for ap = ''ssid-hex:'' @ ssid_hex (ssid_bytes_of ap) @ CHR ''|''
      # ''security:'' @ security_class_key (class_of ap) @ ''|ifname:'' @ ssid_hex (ap_device_iface ap)"
    by (simp add: network_key_for_def)
  with assms show ?thesis using ssid_for_hex [OF ssid_hex_plain hex.dec_enc length_ssid_hex] by simp
qed

lemma identity_of_target:
  "ea_identity (the (enterprise_auth_for_network e (Some i))) = Some i"
  by (simp add: enterprise_auth_for_network_def split: option.splits)

lemma key_mgmt_of_entry:
  "(case na_key_management (auth_capability_for ap saved) of [] \<Rightarrow> None | k # _ \<Rightarrow> Some k) =
     (if saved then None
      else (case class_of ap of
              ScPersonal \<Rightarrow> Some (personal_key_management (ap_wpa_flags ap) (ap_rsn_flags ap))
            | ScLegacy \<Rightarrow> Some ''none''
            | ScEnterprise \<Rightarrow> Some (enterprise_key_mgmt (ap_wpa_flags ap) (ap_rsn_flags ap))
            | _ \<Rightarrow> None))"
  by (cases "class_of ap")
    (simp_all add: auth_capability_for_def unsaved_auth_capability_def classify_ap_class auth_defs)

lemma entry_is_entry_for:
  "e \<in> set (network_entries_with_profile_matches aps m) \<Longrightarrow> \<exists>ap g ps. e = entry_for ap g ps"
  by (auto simp: entries_eq group_entry_def)

text \<open>
  Joining the selected network joins that network. The target built from an entry of the list
  has the exact SSID bytes of the entry's access point and that access point's path and interface;
  it is never hidden; its key management is the one the security class of the entry calls for, and
  none when a saved profile is used; given an identity, it carries it. Selecting the same entry by
  its key alone gives the same SSID.
\<close>

theorem connect_target_matches_selection:
  assumes "e \<in> set (network_entries_with_profile_matches aps m)"
    and "connect_target_for_network okp e (Some identity) = Inr t"
  shows "ssid_exact (wct_ssid t) = ssid_bytes_of (ne_access_point e) \<and> ssid_wf (wct_ssid t) \<and>
    (ap_path (ne_access_point e) \<noteq> [] \<longrightarrow> wct_ap_path t = Some (ap_path (ne_access_point e))) \<and>
    (ap_device_iface (ne_access_point e) \<noteq> [] \<longrightarrow> wct_ifname t = Some (ap_device_iface (ne_access_point e))) \<and>
    \<not> wct_hidden t \<and> target_validate t = Inr () \<and>
    wct_key_mgmt t =
      (if ne_profiles e \<noteq> [] then None
       else (case ne_security_class e of
               ScPersonal \<Rightarrow> Some (personal_key_management (ap_wpa_flags (ne_access_point e)) (ap_rsn_flags (ne_access_point e)))
             | ScLegacy \<Rightarrow> Some ''none''
             | ScEnterprise \<Rightarrow> Some (enterprise_key_mgmt (ap_wpa_flags (ne_access_point e)) (ap_rsn_flags (ne_access_point e)))
             | _ \<Rightarrow> None)) \<and>
    (\<exists>a. wct_enterprise t = Some a \<and> ea_identity a = Some identity) \<and>
    (\<exists>t'. connect_target_for_network_key (ne_key e) None = Inr t' \<and> wct_ssid t' = wct_ssid t)"
proof -
  obtain ap g ps where e: "e = entry_for ap g ps" using entry_is_entry_for [OF assms(1)] by blast
  have t: "ssid_from_bytes (ssid_bytes_of ap) = Inr (wct_ssid t)"
    "ap_path ap \<noteq> [] \<longrightarrow> wct_ap_path t = Some (ap_path ap)"
    "ap_device_iface ap \<noteq> [] \<longrightarrow> wct_ifname t = Some (ap_device_iface ap)" "\<not> wct_hidden t"
    "wct_key_mgmt t = (case na_key_management (auth_capability_for ap (ps \<noteq> [])) of [] \<Rightarrow> None | k # _ \<Rightarrow> Some k)"
    "wct_enterprise t = enterprise_auth_for_network e (Some identity)"
    using target_for_ap [OF assms(2) [unfolded connect_target_for_network_def]]
    by (simp_all add: e entry_for_derived)
  have "\<exists>a. wct_enterprise t = Some a \<and> ea_identity a = Some identity"
    using identity_of_target [of e identity] by (simp add: t(6) enterprise_auth_for_network_def)
  moreover have "\<exists>t'. connect_target_for_network_key (ne_key e) None = Inr t' \<and> wct_ssid t' = wct_ssid t"
    using key_target_ssid [OF t(1)]
    by (simp add: e connect_target_for_network_key_def Let_def connect_target_for_ssid_def)
  moreover have "target_validate t = Inr ()" using t(4) by (simp add: target_validate_def)
  ultimately show ?thesis
    using ssid_from_bytes_wf [OF t(1)] t(2-4) t(5) [unfolded key_mgmt_of_entry]
    unfolding e entry_for_fields by simp
qed

theorem connect_target_matches_selection_witness:
  "\<exists>(e :: unit network_entry) t.
     e \<in> set (network_entries_with_profile_matches [ap_sample] []) \<and>
     connect_target_for_network (\<lambda>_. True) e (Some ''me'') = Inr t \<and>
     ssid_exact (wct_ssid t) = ssid_bytes_of (ne_access_point e)"
proof -
  let ?e = "entry_for ap_sample [ap_sample] [] :: unit network_entry"
  have "profiles_for_access_point_group [ap_sample] [] = []"
    by (simp add: profiles_for_access_point_group_def matches_of_def)
  then have e: "?e \<in> set (network_entries_with_profile_matches [ap_sample] [])"
    by (simp add: entries_single group_entry_def group_of_def)
  have b: "bssid_parse (ap_bssid ap_sample) = Inr (map bssid_char (ap_bssid ap_sample))"
    unfolding bssid_parse_eq by code_simp
  have i: "interface_name_parse (ap_device_iface ap_sample) = Inr (ap_device_iface ap_sample)"
    by code_simp
  have s: "ssid_from_bytes (ssid_bytes_of ap_sample) =
      Inr \<lparr>ssid_exact = [CHR 0xE9, CHR ''x''], ssid_display = from_utf8_lossy [CHR 0xE9, CHR ''x'']\<rparr>"
    by (simp add: ssid_bytes_of_def ap_sample_def ssid_from_bytes_ok)
  have "\<exists>t. connect_target_for_network (\<lambda>_. True) ?e (Some ''me'') = Inr t"
    using b i s
    by (simp add: connect_target_for_network_def connect_target_for_network_access_point_def
        parse_unless_empty_def object_path_parse_def)
  with e connect_target_matches_selection [OF e] show ?thesis by blast
qed

end
