(* ===== verification/Reasons.thy ===== *)
theory Reasons
  imports Json
begin

text \<open>
  NetworkManager's numeric reason codes and their stable names and categories
  (\<open>src/model/reason.rs\<close>).
\<close>

datatype reason_category =
    RcNone | RcUserRequested | RcAuthentication | RcConfiguration | RcHardware | RcCarrier
  | RcAddressAssignment | RcService | RcDependency | RcLifecycle | RcUnknown

fun reason_category_str :: "reason_category \<Rightarrow> string" where
  "reason_category_str RcNone = ''none''"
| "reason_category_str RcUserRequested = ''user-requested''"
| "reason_category_str RcAuthentication = ''authentication''"
| "reason_category_str RcConfiguration = ''configuration''"
| "reason_category_str RcHardware = ''hardware''"
| "reason_category_str RcCarrier = ''carrier''"
| "reason_category_str RcAddressAssignment = ''address-assignment''"
| "reason_category_str RcService = ''service''"
| "reason_category_str RcDependency = ''dependency''"
| "reason_category_str RcLifecycle = ''lifecycle''"
| "reason_category_str RcUnknown = ''unknown''"

record typed_reason =
  tr_code :: u32
  tr_name :: string
  tr_category :: reason_category

type_synonym reason_spec = "string \<times> reason_category"

definition DEVICE_REASONS :: "reason_spec list" where
  "DEVICE_REASONS =
     [(''none'', RcNone), (''unknown'', RcUnknown), (''now-managed'', RcLifecycle),
      (''now-unmanaged'', RcLifecycle), (''config-failed'', RcConfiguration), (''ip-config-unavailable'', RcAddressAssignment),
      (''ip-config-expired'', RcAddressAssignment), (''no-secrets'', RcAuthentication), (''supplicant-disconnect'', RcAuthentication),
      (''supplicant-config-failed'', RcConfiguration), (''supplicant-failed'', RcAuthentication), (''supplicant-timeout'', RcAuthentication),
      (''ppp-start-failed'', RcService), (''ppp-disconnect'', RcService), (''ppp-failed'', RcService),
      (''dhcp-start-failed'', RcAddressAssignment), (''dhcp-error'', RcAddressAssignment), (''dhcp-failed'', RcAddressAssignment),
      (''shared-start-failed'', RcService), (''shared-failed'', RcService), (''autoip-start-failed'', RcAddressAssignment),
      (''autoip-error'', RcAddressAssignment), (''autoip-failed'', RcAddressAssignment), (''modem-busy'', RcService),
      (''modem-no-dial-tone'', RcService), (''modem-no-carrier'', RcCarrier), (''modem-dial-timeout'', RcService),
      (''modem-dial-failed'', RcService), (''modem-init-failed'', RcService), (''gsm-apn-failed'', RcConfiguration),
      (''gsm-registration-not-searching'', RcService), (''gsm-registration-denied'', RcAuthentication), (''gsm-registration-timeout'', RcService),
      (''gsm-registration-failed'', RcService), (''gsm-pin-check-failed'', RcAuthentication), (''firmware-missing'', RcHardware),
      (''removed'', RcLifecycle), (''sleeping'', RcLifecycle), (''connection-removed'', RcLifecycle),
      (''user-requested'', RcUserRequested), (''carrier'', RcCarrier), (''connection-assumed'', RcNone),
      (''supplicant-available'', RcNone), (''modem-not-found'', RcHardware), (''bluetooth-failed'', RcService),
      (''gsm-sim-not-inserted'', RcHardware), (''gsm-sim-pin-required'', RcAuthentication), (''gsm-sim-puk-required'', RcAuthentication),
      (''gsm-sim-wrong'', RcAuthentication), (''infiniband-mode'', RcConfiguration), (''dependency-failed'', RcDependency),
      (''br2684-failed'', RcService), (''modem-manager-unavailable'', RcService), (''ssid-not-found'', RcConfiguration),
      (''secondary-connection-failed'', RcDependency), (''dcb-fcoe-failed'', RcService), (''teamd-control-failed'', RcService),
      (''modem-failed'', RcHardware), (''modem-available'', RcNone), (''sim-pin-incorrect'', RcAuthentication),
      (''new-activation'', RcLifecycle), (''parent-changed'', RcDependency), (''parent-managed-changed'', RcDependency),
      (''ovsdb-failed'', RcService), (''ip-address-duplicate'', RcAddressAssignment), (''ip-method-unsupported'', RcConfiguration),
      (''sriov-configuration-failed'', RcConfiguration), (''peer-not-found'', RcDependency), (''device-handler-failed'', RcService),
      (''unmanaged-by-default'', RcLifecycle), (''unmanaged-external-down'', RcLifecycle), (''unmanaged-link-not-init'', RcLifecycle),
      (''unmanaged-quitting'', RcLifecycle), (''unmanaged-sleeping'', RcLifecycle), (''unmanaged-user-conf'', RcLifecycle),
      (''unmanaged-user-explicit'', RcLifecycle), (''unmanaged-user-settings'', RcLifecycle), (''unmanaged-user-udev'', RcLifecycle),
      (''networking-off'', RcLifecycle), (''modem-no-operator-code'', RcService)]"

definition ACTIVE_CONNECTION_REASONS :: "reason_spec list" where
  "ACTIVE_CONNECTION_REASONS =
     [(''unknown'', RcUnknown), (''none'', RcNone), (''user-disconnected'', RcUserRequested),
      (''device-disconnected'', RcDependency), (''service-stopped'', RcService), (''ip-config-invalid'', RcAddressAssignment),
      (''connect-timeout'', RcService), (''service-start-timeout'', RcService), (''service-start-failed'', RcService),
      (''no-secrets'', RcAuthentication), (''login-failed'', RcAuthentication), (''connection-removed'', RcLifecycle),
      (''dependency-failed'', RcDependency), (''device-realize-failed'', RcHardware), (''device-removed'', RcLifecycle)]"

definition VPN_REASON_COUNT :: nat where
  "VPN_REASON_COUNT = 12"

definition VPN_STATE_NAMES :: "string list" where
  "VPN_STATE_NAMES = [''unknown'', ''prepare'', ''need-auth'', ''connect'', ''ip-config-get'',
     ''activated'', ''failed'', ''disconnected'']"

text \<open>\<open>slice::get\<close>.\<close>

definition slice_get :: "'a list \<Rightarrow> nat \<Rightarrow> 'a option" where
  "slice_get xs i = (if i < length xs then Some (xs ! i) else None)"

definition typed_reason_of :: "u32 \<Rightarrow> reason_spec list \<Rightarrow> typed_reason" where
  "typed_reason_of code specs =
     (case slice_get specs (unat code) of
        Some (name, category) \<Rightarrow> \<lparr>tr_code = code, tr_name = name, tr_category = category\<rparr>
      | None \<Rightarrow> \<lparr>tr_code = code, tr_name = ''unknown'', tr_category = RcUnknown\<rparr>)"

definition device_state_reason :: "u32 \<Rightarrow> typed_reason" where
  "device_state_reason code = typed_reason_of code DEVICE_REASONS"

definition active_connection_state_reason :: "u32 \<Rightarrow> typed_reason" where
  "active_connection_state_reason code = typed_reason_of code ACTIVE_CONNECTION_REASONS"

definition vpn_state_reason :: "u32 \<Rightarrow> typed_reason" where
  "vpn_state_reason code = typed_reason_of code (take VPN_REASON_COUNT ACTIVE_CONNECTION_REASONS)"

definition vpn_state_name :: "u32 \<Rightarrow> string" where
  "vpn_state_name code = (case slice_get VPN_STATE_NAMES (unat code) of Some n \<Rightarrow> n | None \<Rightarrow> ''unknown'')"

definition reason_expected :: "typed_reason \<Rightarrow> bool" where
  "reason_expected r \<longleftrightarrow> tr_category r \<in> {RcNone, RcUserRequested}"

lemma reason_code [simp]: "tr_code (typed_reason_of code specs) = code"
  by (simp add: typed_reason_of_def split: option.splits prod.splits)

text \<open>
  The typed reasons are total and unambiguous. Every code keeps its number; a code outside the
  table is reported as unknown; within the table of device reasons different codes have different
  names; a VPN reason has the meaning it has for an active connection; and the reasons the wait for
  an activation treats specially are those the table names so.
\<close>

theorem typed_reasons_sound:
  "tr_code (device_state_reason c) = c \<and> tr_code (vpn_state_reason c) = c \<and>
   (length DEVICE_REASONS \<le> unat c \<longrightarrow> tr_name (device_state_reason c) = ''unknown'' \<and> \<not> reason_expected (device_state_reason c)) \<and>
   (unat c < VPN_REASON_COUNT \<longrightarrow> vpn_state_reason c = active_connection_state_reason c) \<and>
   distinct (map fst DEVICE_REASONS) \<and> distinct (map fst ACTIVE_CONNECTION_REASONS) \<and>
   map (\<lambda>c. tr_name (device_state_reason c)) [5, 6, 7, 8, 9, 10, 11, 15, 16, 17, 53] =
     [''ip-config-unavailable'', ''ip-config-expired'', ''no-secrets'', ''supplicant-disconnect'',
      ''supplicant-config-failed'', ''supplicant-failed'', ''supplicant-timeout'', ''dhcp-start-failed'',
      ''dhcp-error'', ''dhcp-failed'', ''ssid-not-found'']"
proof -
  have "distinct (map fst DEVICE_REASONS)" by code_simp
  moreover have "distinct (map fst ACTIVE_CONNECTION_REASONS)" by code_simp
  moreover have "map (\<lambda>c. tr_name (device_state_reason c)) [5, 6, 7, 8, 9, 10, 11, 15, 16, 17, 53] =
     [''ip-config-unavailable'', ''ip-config-expired'', ''no-secrets'', ''supplicant-disconnect'',
      ''supplicant-config-failed'', ''supplicant-failed'', ''supplicant-timeout'', ''dhcp-start-failed'',
      ''dhcp-error'', ''dhcp-failed'', ''ssid-not-found'']"
    by (simp add: device_state_reason_def typed_reason_of_def slice_get_def DEVICE_REASONS_def)
  moreover have "vpn_state_reason c = active_connection_state_reason c" if "unat c < VPN_REASON_COUNT"
  proof -
    have "VPN_REASON_COUNT \<le> length ACTIVE_CONNECTION_REASONS"
      by (simp add: VPN_REASON_COUNT_def ACTIVE_CONNECTION_REASONS_def)
    with that show ?thesis
      by (simp add: vpn_state_reason_def active_connection_state_reason_def typed_reason_of_def slice_get_def)
  qed
  moreover have "tr_code (device_state_reason c) = c" "tr_code (vpn_state_reason c) = c"
    by (simp_all add: device_state_reason_def vpn_state_reason_def)
  moreover have "tr_name (device_state_reason c) = ''unknown'' \<and> \<not> reason_expected (device_state_reason c)"
    if "length DEVICE_REASONS \<le> unat c"
    using that by (simp add: device_state_reason_def typed_reason_of_def slice_get_def reason_expected_def)
  ultimately show ?thesis by blast
qed

theorem typed_reasons_sound_witness:
  "tr_name (device_state_reason 1000) = ''unknown'' \<and> vpn_state_reason 9 = active_connection_state_reason 9"
proof -
  have "length DEVICE_REASONS \<le> unat (1000 :: u32)" by (simp add: DEVICE_REASONS_def)
  moreover have "unat (9 :: u32) < VPN_REASON_COUNT" by (simp add: VPN_REASON_COUNT_def)
  ultimately show ?thesis
    using typed_reasons_sound [of 1000] typed_reasons_sound [of 9] by blast
qed

end
