(* ===== verification/Activation_Wait.thy ===== *)
theory Activation_Wait
  imports Connect_Target Reasons
begin

text \<open>
  Waiting for an activation: the credential scope of an activation (\<open>src/activation.rs\<close>), the
  verdict over successive observations of the device, and the wait loop
  (\<open>src/connect_wait.rs\<close>, \<open>src/connect_error.rs\<close>, \<open>src/deadline.rs\<close>). Durations come from
  \<open>config/timeouts.conf\<close>. NetworkManager's answers, the clock, the cancellation flag and what other
  threads do to the scope are the environment of the loop, one value per iteration.
\<close>

section \<open>Credential scopes\<close>

definition AUTHENTICATION_RESERVE :: duration where
  "AUTHENTICATION_RESERVE = from_secs 15"

datatype credential_stop = StopCancelled | StopExpired | StopUnavailable

fun credential_stop_name :: "credential_stop \<Rightarrow> string" where
  "credential_stop_name StopCancelled = ''cancelled''"
| "credential_stop_name StopExpired = ''expired''"
| "credential_stop_name StopUnavailable = ''agent-unavailable''"

record scope_state =
  sc_deadline :: instant
  sc_finished :: bool
  sc_pending_credentials :: nat
  sc_missing_frontend :: bool
  sc_failure :: "credential_stop option"
  sc_wakes :: nat

definition scope_live :: "instant \<Rightarrow> scope_state \<Rightarrow> bool" where
  "scope_live now s \<longleftrightarrow> \<not> sc_finished s \<and> now < sc_deadline s \<and> sc_failure s = None"

definition credential_deadline :: "scope_state \<Rightarrow> instant" where
  "credential_deadline s =
     (if AUTHENTICATION_RESERVE \<le> sc_deadline s then sc_deadline s - AUTHENTICATION_RESERVE
      else sc_deadline s)"

definition note_frontend_availability :: "bool \<Rightarrow> scope_state \<Rightarrow> scope_state" where
  "note_frontend_availability available s = s\<lparr>sc_missing_frontend := \<not> available\<rparr>"

definition track_credentials :: "scope_state \<Rightarrow> scope_state" where
  "track_credentials s = s\<lparr>sc_pending_credentials := Suc (sc_pending_credentials s)\<rparr>"

definition release_credentials :: "scope_state \<Rightarrow> scope_state" where
  "release_credentials s = s\<lparr>sc_pending_credentials := sc_pending_credentials s - 1\<rparr>"

definition scope_stop :: "credential_stop \<Rightarrow> scope_state \<Rightarrow> scope_state" where
  "scope_stop reason s =
     (if sc_failure s = None then s\<lparr>sc_failure := Some reason, sc_wakes := Suc (sc_wakes s)\<rparr> else s)"

definition stop_error :: "credential_stop \<Rightarrow> anyhow_error" where
  "stop_error reason =
     into_anyhow (with_detail
       (case reason of
          StopCancelled \<Rightarrow> cancelled_error ''Wi-Fi credential entry cancelled''
        | StopExpired \<Rightarrow> connect_error CfrTimeout ''Wi-Fi credential entry expired; connect again to retry''
        | StopUnavailable \<Rightarrow> connect_error CfrPasswordUnavailable
            ''No credential frontend is available; open Shelllist and connect again'')
       ''credential_outcome'' (JStr (credential_stop_name reason)))"

definition scope_error :: "instant \<Rightarrow> scope_state \<Rightarrow> scope_state \<times> anyhow_error option" where
  "scope_error now s =
     (let s = (if \<not> sc_finished s \<and> 0 < sc_pending_credentials s \<and> credential_deadline s \<le> now
               then scope_stop StopExpired s else s)
      in (s, map_option stop_error (sc_failure s)))"

definition activation_error_in_scope :: "instant \<Rightarrow> anyhow_error \<Rightarrow> scope_state \<Rightarrow> scope_state \<times> anyhow_error" where
  "activation_error_in_scope now e s =
     (let s = (if sc_missing_frontend s \<and> connect_failure_reason_of e \<in> {CfrPasswordUnavailable, CfrSecretRequired}
               then scope_stop StopUnavailable s else s)
      in case scope_error now s of (s, err) \<Rightarrow> (s, case err of None \<Rightarrow> e | Some x \<Rightarrow> x))"

section \<open>Verdicts\<close>

definition ACTIVATION_TIMEOUT :: duration where "ACTIVATION_TIMEOUT = from_millis 90000"
definition ACTIVATION_FAILURE_GRACE :: duration where "ACTIVATION_FAILURE_GRACE = from_millis 3000"
definition WPA_WRONG_KEY_RETRY_DELAY :: duration where "WPA_WRONG_KEY_RETRY_DELAY = from_millis 10000"

record activation_status =
  as_iface :: string
  as_device_state :: u32
  as_device_state_reason :: "u32 \<times> u32"
  as_active_connection_path :: "string option"
  as_active_connection_state :: "u32 option"

definition status_activated :: "activation_status \<Rightarrow> bool" where
  "status_activated s \<longleftrightarrow> as_device_state s = 100 \<and> as_active_connection_state s = Some 2"

definition terminal_failure_after_progress :: "activation_status \<Rightarrow> bool" where
  "terminal_failure_after_progress s \<longleftrightarrow> as_device_state s \<le> 30"

definition target_appears_to_need_secret :: "wifi_connect_target \<Rightarrow> bool" where
  "target_appears_to_need_secret t \<longleftrightarrow>
     wct_security t \<in> {Some SecWpa, Some SecWpa2Or3, Some SecWep}
     \<or> (wct_hidden t \<and> wct_security t = None)"

definition activation_failure_reason :: "wifi_connect_target \<Rightarrow> activation_status \<Rightarrow> connect_failure_reason" where
  "activation_failure_reason t s =
     (let r = snd (as_device_state_reason s)
      in if r = 7 then CfrPasswordUnavailable
         else if r \<in> {5, 6, 15, 16, 17} then CfrDhcpFailed
         else if r = 53 then CfrNotFound
         else if r = 11 then CfrTimeout
         else if r \<in> {8, 9, 10} \<and> target_appears_to_need_secret t then CfrWrongPassword
         else CfrActivationFailed)"

definition timeout_failure_reason :: "wifi_connect_target \<Rightarrow> activation_status \<Rightarrow> connect_failure_reason" where
  "timeout_failure_reason t s =
     (case activation_failure_reason t s of CfrActivationFailed \<Rightarrow> CfrTimeout | r \<Rightarrow> r)"

definition target_radio_details :: "wifi_connect_target \<Rightarrow> string" where
  "target_radio_details t = (case wct_bssid t of None \<Rightarrow> [] | Some b \<Rightarrow> '' (BSSID '' @ b @ '')'')"

definition debug_u32_option :: "u32 option \<Rightarrow> string" where
  "debug_u32_option x = (case x of None \<Rightarrow> ''None'' | Some n \<Rightarrow> ''Some('' @ decimal (unat n) @ '')'')"

definition debug_u32_pair :: "u32 \<times> u32 \<Rightarrow> string" where
  "debug_u32_pair p = ''('' @ decimal (unat (fst p)) @ '', '' @ decimal (unat (snd p)) @ '')''"

definition status_suffix :: "activation_status \<Rightarrow> string" where
  "status_suffix s = '': device state '' @ decimal (unat (as_device_state s)) @ '', reason ''
     @ debug_u32_pair (as_device_state_reason s) @ '', active connection state ''
     @ debug_u32_option (as_active_connection_state s)"

abbreviation target_name :: "wifi_connect_target \<Rightarrow> string" where
  "target_name t \<equiv> ssid_display (wct_ssid t)"

definition activation_failure_message ::
    "wifi_connect_target \<Rightarrow> activation_status \<Rightarrow> connect_failure_reason \<Rightarrow> string" where
  "activation_failure_message t s reason =
     (case reason of
        CfrWrongPassword \<Rightarrow> ''wrong password for '' @ target_name t @ target_radio_details t
          @ ''; wpa_supplicant may ignore this AP for about '' @ decimal (WPA_WRONG_KEY_RETRY_DELAY div 1000000000)
          @ '' seconds before retrying is useful''
      | CfrPasswordUnavailable \<Rightarrow> ''saved password unavailable for '' @ target_name t @ target_radio_details t
          @ ''; NetworkManager requested secrets but no usable secret was provided''
      | CfrDhcpFailed \<Rightarrow> ''connected to Wi-Fi network '' @ target_name t @ target_radio_details t
          @ '' but DHCP/IP configuration failed on '' @ as_iface s
      | _ \<Rightarrow> ''connection activation failed for '' @ target_name t @ target_radio_details t @ '' on ''
          @ as_iface s @ status_suffix s)"

definition activation_timeout_message ::
    "wifi_connect_target \<Rightarrow> activation_status \<Rightarrow> connect_failure_reason \<Rightarrow> string" where
  "activation_timeout_message t s reason =
     (case reason of
        CfrDhcpFailed \<Rightarrow> ''connected to Wi-Fi network '' @ target_name t @ target_radio_details t
          @ '' but timed out waiting for DHCP/IP configuration on '' @ as_iface s
      | _ \<Rightarrow> ''timed out waiting for '' @ target_name t @ target_radio_details t @ '' to become active on ''
          @ as_iface s @ ''; the AP may be unreachable or signal may be weak'' @ status_suffix s)"

abbreviation ju32 :: "u32 \<Rightarrow> json" where
  "ju32 n \<equiv> JInt (uint n)"

definition activation_error ::
    "wifi_connect_target \<Rightarrow> activation_status \<Rightarrow> connect_failure_reason \<Rightarrow> string \<Rightarrow> anyhow_error" where
  "activation_error t s reason message =
     (let typed = device_state_reason (snd (as_device_state_reason s));
          e = with_detail (with_detail (with_detail (with_detail (with_detail (with_detail
                (connect_error reason message)
                ''ssid'' (JStr (target_name t)))
                ''device_iface'' (JStr (as_iface s)))
                ''device_state'' (ju32 (as_device_state s)))
                ''reason'' (JStr (tr_name typed)))
                ''reason_category'' (JStr (reason_category_str (tr_category typed))))
                ''reason_code'' (ju32 (tr_code typed));
          e = (case as_active_connection_state s of
                 Some st \<Rightarrow> with_detail e ''active_connection_state'' (ju32 st) | None \<Rightarrow> e);
          e = (case wct_bssid t of Some b \<Rightarrow> with_detail e ''bssid'' (JStr b) | None \<Rightarrow> e)
      in into_anyhow e)"

record pending_failure =
  pf_since :: instant
  pf_status :: activation_status

record activation_wait =
  aw_saw_progress :: bool
  aw_has_current_status :: bool
  aw_pending_failure :: "pending_failure option"
  aw_last_status :: "activation_status option"

definition activation_wait_default :: activation_wait where
  "activation_wait_default = \<lparr>aw_saw_progress = False, aw_has_current_status = False,
     aw_pending_failure = None, aw_last_status = None\<rparr>"

definition requested_activation_stopped :: "string option \<Rightarrow> u32 option \<Rightarrow> bool" where
  "requested_activation_stopped path state \<longleftrightarrow>
     path \<noteq> None \<and> (case state of None \<Rightarrow> True | Some s \<Rightarrow> 3 \<le> s)"

definition latch_pending_failure :: "pending_failure option \<Rightarrow> activation_status \<Rightarrow> instant \<Rightarrow> pending_failure" where
  "latch_pending_failure pending s now =
     (let p = (case pending of Some p \<Rightarrow> p | None \<Rightarrow> \<lparr>pf_since = now, pf_status = s\<rparr>)
      in if snd (as_device_state_reason (pf_status p)) = 0 \<and> snd (as_device_state_reason s) \<noteq> 0
         then p\<lparr>pf_status := s\<rparr> else p)"

definition check_terminal_failure ::
    "wifi_connect_target \<Rightarrow> activation_status \<Rightarrow> string option \<Rightarrow> u32 option \<Rightarrow> instant \<Rightarrow> activation_wait \<Rightarrow>
     activation_wait \<times> (anyhow_error + unit)" where
  "check_terminal_failure t s path state now w =
     (if \<not> (aw_saw_progress w \<and> (terminal_failure_after_progress s \<or> requested_activation_stopped path state))
      then (w\<lparr>aw_pending_failure := None\<rparr>, Inr ())
      else (let p = latch_pending_failure (aw_pending_failure w) s now;
                w = w\<lparr>aw_pending_failure := Some p\<rparr>
            in if now - pf_since p < ACTIVATION_FAILURE_GRACE then (w, Inr ())
               else (let reason = activation_failure_reason t (pf_status p)
                     in (w, Inl (activation_error t (pf_status p) reason
                          (activation_failure_message t (pf_status p) reason))))))"

definition observe ::
    "wifi_connect_target \<Rightarrow> activation_status option \<Rightarrow> bool \<Rightarrow> string option \<Rightarrow> u32 option \<Rightarrow> instant \<Rightarrow>
     activation_wait \<Rightarrow> activation_wait \<times> (anyhow_error + bool)" where
  "observe t status ssid_matches path state now w =
     (case status of
        None \<Rightarrow> (w\<lparr>aw_has_current_status := False\<rparr>, Inr ssid_matches)
      | Some s \<Rightarrow>
          (let w = w\<lparr>aw_has_current_status := True,
                aw_saw_progress := (aw_saw_progress w \<or> 30 < as_device_state s \<or> path \<noteq> None)\<rparr>
           in if ssid_matches \<and> status_activated s then (w, Inr True)
              else (case check_terminal_failure t s path state now w of
                      (w, Inl e) \<Rightarrow> (w, Inl e)
                    | (w, Inr _) \<Rightarrow> (w\<lparr>aw_last_status := Some s\<rparr>, Inr False))))"

definition deadline_wait_at :: "instant \<Rightarrow> instant \<Rightarrow> duration option \<Rightarrow> duration" where
  "deadline_wait_at deadline now max_wait =
     (case max_wait of None \<Rightarrow> deadline - now | Some m \<Rightarrow> min m (deadline - now))"

text \<open>\<open>Duration::MAX\<close> is longer than any remaining time: it is \<open>None\<close> here.\<close>

definition next_wake :: "activation_wait \<Rightarrow> instant \<Rightarrow> instant \<Rightarrow> duration" where
  "next_wake w deadline now =
     deadline_wait_at deadline now
       (case aw_pending_failure w of
          None \<Rightarrow> None
        | Some p \<Rightarrow>
            (let remaining = ACTIVATION_FAILURE_GRACE - (now - pf_since p)
             in if aw_has_current_status w \<or> remaining \<noteq> 0 then Some remaining else None))"

definition wait_timeout_error :: "wifi_connect_target \<Rightarrow> activation_wait \<Rightarrow> anyhow_error" where
  "wait_timeout_error t w =
     (case aw_last_status w of
        None \<Rightarrow> into_anyhow (connect_error CfrTimeout
                  (''timed out waiting for '' @ target_name t @ '' to become active''))
      | Some s \<Rightarrow> (let reason = timeout_failure_reason t s
                   in activation_error t s reason (activation_timeout_message t s reason)))"

section \<open>The loop\<close>

text \<open>
  What iteration \<open>k\<close> of the loop meets: the flag, the instants of its readings of the clock (for
  the scope, the deadline, the observation and twice for a failure), the scope, NetworkManager's
  state of the requested activation and its observation of the device.
\<close>

record wait_env =
  we_device :: "anyhow_error + unit"
  we_cancelled :: "nat \<Rightarrow> bool"
  we_now :: "nat \<Rightarrow> nat \<Rightarrow> instant"
  we_scope :: "(nat \<Rightarrow> scope_state) option"
  we_active_state :: "nat \<Rightarrow> u32 option"
  we_observation :: "nat \<Rightarrow> anyhow_error + (bool \<times> activation_status option)"

datatype wait_effect = AbortTarget | AbortRequested string

definition cancelled_connect_error :: anyhow_error where
  "cancelled_connect_error = into_anyhow (cancelled_error ''connection attempt cancelled'')"

definition abort_requested :: "string option \<Rightarrow> wait_effect list" where
  "abort_requested path = (case path of None \<Rightarrow> [] | Some p \<Rightarrow> [AbortRequested p])"

definition scope_error_at :: "wait_env \<Rightarrow> nat \<Rightarrow> anyhow_error option" where
  "scope_error_at env k =
     (case we_scope env of None \<Rightarrow> None | Some s \<Rightarrow> snd (scope_error (we_now env k 0) (s k)))"

definition activation_scope_error ::
    "wait_env \<Rightarrow> nat \<Rightarrow> string option \<Rightarrow> anyhow_error \<Rightarrow> anyhow_error \<times> wait_effect list" where
  "activation_scope_error env k path e =
     (case we_scope env of
        None \<Rightarrow> (e, [])
      | Some s \<Rightarrow>
          (case activation_error_in_scope (we_now env k 3) e (s k) of (s', e') \<Rightarrow>
             (e', if snd (scope_error (we_now env k 4) s') \<noteq> None then abort_requested path else [])))"

definition wait_deadline :: "wait_env \<Rightarrow> instant \<Rightarrow> instant" where
  "wait_deadline env start =
     (case we_scope env of Some s \<Rightarrow> sc_deadline (s 0) | None \<Rightarrow> start + ACTIVATION_TIMEOUT)"

text \<open>
  One iteration: \<open>Inl\<close> when the loop returns, with what it does on the way, \<open>Inr\<close> the state to
  wait in otherwise.
\<close>

definition wait_iteration ::
    "wait_env \<Rightarrow> wifi_connect_target \<Rightarrow> string option \<Rightarrow> instant \<Rightarrow> nat \<Rightarrow> activation_wait \<Rightarrow>
     ((anyhow_error + unit) \<times> wait_effect list) + activation_wait" where
  "wait_iteration env t path deadline k w =
     (if we_cancelled env k then Inl (Inl cancelled_connect_error, [AbortTarget])
      else (case scope_error_at env k of
              Some e \<Rightarrow> Inl (Inl e, abort_requested path)
            | None \<Rightarrow>
                if deadline \<le> we_now env k 1 then Inl (Inl (wait_timeout_error t w), abort_requested path)
                else (case we_observation env k of
                        Inl e \<Rightarrow> Inl (Inl e, [])
                      | Inr (ssid_matches, status) \<Rightarrow>
                          (let state = (case path of None \<Rightarrow> None | Some _ \<Rightarrow> we_active_state env k)
                           in case observe t status ssid_matches path state (we_now env k 2) w of
                                (w, Inl e) \<Rightarrow>
                                  (case activation_scope_error env k path e of (e', fx) \<Rightarrow> Inl (Inl e', fx))
                              | (w, Inr True) \<Rightarrow> Inl (Inr (), [])
                              | (w, Inr False) \<Rightarrow> Inr w))))"

text \<open>The loop with fuel; \<open>None\<close> when the fuel is spent before it returns.\<close>

fun wait_loop ::
    "wait_env \<Rightarrow> wifi_connect_target \<Rightarrow> string option \<Rightarrow> instant \<Rightarrow> nat \<Rightarrow> nat \<Rightarrow> activation_wait \<Rightarrow>
     ((anyhow_error + unit) \<times> wait_effect list) option" where
  "wait_loop env t path deadline 0 k w = None"
| "wait_loop env t path deadline (Suc fuel) k w =
     (case wait_iteration env t path deadline k w of
        Inl r \<Rightarrow> Some r
      | Inr w \<Rightarrow> wait_loop env t path deadline fuel (Suc k) w)"

definition wait_for_active_target_path ::
    "wait_env \<Rightarrow> wifi_connect_target \<Rightarrow> string option \<Rightarrow> nat \<Rightarrow> ((anyhow_error + unit) \<times> wait_effect list) option" where
  "wait_for_active_target_path env t path fuel =
     (case we_device env of
        Inl e \<Rightarrow> Some (Inl e, [])
      | Inr _ \<Rightarrow> wait_loop env t path (wait_deadline env (we_now env 0 0)) fuel 0 activation_wait_default)"

section \<open>A verdict needs an uninterrupted failure\<close>

type_synonym seen = "activation_status \<times> u32 option \<times> instant"

text \<open>
  The abstract state of a wait: whether progress was seen, and the window of failing observations
  since the last healthy one.
\<close>

definition window_step :: "string option \<Rightarrow> bool \<times> (activation_status \<times> instant) list \<Rightarrow> seen \<Rightarrow>
    bool \<times> (activation_status \<times> instant) list" where
  "window_step path pw x =
     (case (pw, x) of ((progress, win), (s, state, now)) \<Rightarrow>
        (let progress = (progress \<or> 30 < as_device_state s \<or> path \<noteq> None)
         in (progress,
             if progress \<and> (terminal_failure_after_progress s \<or> requested_activation_stopped path state)
             then win @ [(s, now)] else [])))"

definition failure_window :: "string option \<Rightarrow> seen list \<Rightarrow> (activation_status \<times> instant) list" where
  "failure_window path xs = snd (foldl (window_step path) (False, []) xs)"

definition progress_seen :: "string option \<Rightarrow> seen list \<Rightarrow> bool" where
  "progress_seen path xs = fst (foldl (window_step path) (False, []) xs)"

text \<open>The first status of the window that has a reason, or else its first status.\<close>

definition informative :: "(activation_status \<times> instant) list \<Rightarrow> activation_status" where
  "informative win =
     (case filter (\<lambda>(s, _). snd (as_device_state_reason s) \<noteq> 0) win of
        [] \<Rightarrow> fst (hd win) | (s, _) # _ \<Rightarrow> s)"

definition pending_of :: "(activation_status \<times> instant) list \<Rightarrow> pending_failure option" where
  "pending_of win =
     (if win = [] then None else Some \<lparr>pf_since = snd (hd win), pf_status = informative win\<rparr>)"

type_synonym observation = "activation_status option \<times> bool \<times> u32 option \<times> instant"

fun observe_all :: "wifi_connect_target \<Rightarrow> string option \<Rightarrow> observation list \<Rightarrow> activation_wait \<Rightarrow> activation_wait option" where
  "observe_all t path [] w = Some w"
| "observe_all t path ((status, ssid_matches, state, now) # xs) w =
     (case observe t status ssid_matches path state now w of
        (w, Inr False) \<Rightarrow> observe_all t path xs w
      | _ \<Rightarrow> None)"

definition statuses_seen :: "observation list \<Rightarrow> seen list" where
  "statuses_seen xs = concat (map (\<lambda>(status, _, state, now).
     case status of None \<Rightarrow> [] | Some s \<Rightarrow> [(s, state, now)]) xs)"

definition wait_abs :: "activation_wait \<Rightarrow> bool \<times> (activation_status \<times> instant) list \<Rightarrow> bool" where
  "wait_abs w pw \<longleftrightarrow> aw_saw_progress w = fst pw \<and> aw_pending_failure w = pending_of (snd pw)"

lemma informative_snoc:
  "win \<noteq> [] \<Longrightarrow> informative (win @ [(s, now)]) =
     (if snd (as_device_state_reason (informative win)) = 0 \<and> snd (as_device_state_reason s) \<noteq> 0 then s
      else informative win)"
proof (cases "filter (\<lambda>(s, _). snd (as_device_state_reason s) \<noteq> 0) win")
  case Nil
  assume "win \<noteq> []"
  then have "hd win \<in> set win" by simp
  moreover have "\<forall>x \<in> set win. snd (as_device_state_reason (fst x)) = 0"
    using Nil by (auto simp: filter_empty_conv)
  ultimately show ?thesis using Nil \<open>win \<noteq> []\<close> by (auto simp: informative_def)
next
  case (Cons x rest)
  then have "snd (as_device_state_reason (fst x)) \<noteq> 0" by (auto simp: filter_eq_Cons_iff)
  then show ?thesis using Cons by (auto simp: informative_def split: prod.splits)
qed

lemma latch_pending:
  "Some (latch_pending_failure (pending_of win) s now) = pending_of (win @ [(s, now)])"
proof (cases win)
  case Nil
  then show ?thesis by (auto simp: latch_pending_failure_def pending_of_def informative_def Let_def)
next
  case (Cons x rest)
  then show ?thesis
    using informative_snoc [of win s now]
    by (auto simp: latch_pending_failure_def pending_of_def Let_def)
qed

text \<open>The verdict over a window.\<close>

definition window_verdict ::
    "wifi_connect_target \<Rightarrow> (activation_status \<times> instant) list \<Rightarrow> instant \<Rightarrow> anyhow_error + bool" where
  "window_verdict t win now =
     (if win \<noteq> [] \<and> ACTIVATION_FAILURE_GRACE \<le> now - snd (hd win)
      then (let s = informative win; reason = activation_failure_reason t s
            in Inl (activation_error t s reason (activation_failure_message t s reason)))
      else Inr False)"

lemma observe_refines:
  assumes "wait_abs w pw"
  shows "let pw' = window_step path pw (s, state, now)
    in snd (observe t (Some s) matches path state now w) =
         (if matches \<and> status_activated s then Inr True else window_verdict t (snd pw') now) \<and>
       (snd (observe t (Some s) matches path state now w) = Inr False \<longrightarrow>
          wait_abs (fst (observe t (Some s) matches path state now w)) pw')"
proof -
  obtain progress win where pw: "pw = (progress, win)" by (cases pw)
  let ?prog = "progress \<or> 30 < as_device_state s \<or> path \<noteq> None"
  let ?fail = "?prog \<and> (terminal_failure_after_progress s \<or> requested_activation_stopped path state)"
  have w: "aw_saw_progress w = progress" "aw_pending_failure w = pending_of win"
    using assms by (simp_all add: wait_abs_def pw)
  have step: "window_step path pw (s, state, now) = (?prog, if ?fail then win @ [(s, now)] else [])"
    by (simp add: window_step_def pw Let_def)
  have pend: "latch_pending_failure (pending_of win) s now =
      \<lparr>pf_since = snd (hd (win @ [(s, now)])), pf_status = informative (win @ [(s, now)])\<rparr>"
    using latch_pending [of win s now] by (simp add: pending_of_def)
  show ?thesis
  proof (cases ?fail)
    case True
    then show ?thesis
      unfolding step Let_def
      using w pend
      by (auto simp: observe_def check_terminal_failure_def Let_def window_verdict_def wait_abs_def
          pending_of_def not_le)
  next
    case False
    then show ?thesis
      unfolding step Let_def
      using w by (auto simp: observe_def check_terminal_failure_def Let_def window_verdict_def wait_abs_def
          pending_of_def)
  qed
qed

lemma observe_missing [simp]:
  "observe t None matches path state now w = (w\<lparr>aw_has_current_status := False\<rparr>, Inr matches)"
  by (simp add: observe_def)

lemma observe_all_abs:
  assumes "wait_abs w pw" and "observe_all t path xs w = Some w'"
  shows "wait_abs w' (foldl (window_step path) pw (statuses_seen xs))"
  using assms
proof (induction xs arbitrary: w pw)
  case Nil
  then show ?case by (simp add: statuses_seen_def)
next
  case (Cons x xs)
  obtain status matches state now where x: "x = (status, matches, state, now)" by (cases x)
  let ?o = "observe t status matches path state now w"
  have next_w: "snd ?o = Inr False" "observe_all t path xs (fst ?o) = Some w'"
    using Cons.prems(2) by (auto simp: x split: prod.splits sum.splits bool.splits)
  show ?case
  proof (cases status)
    case None
    then have "wait_abs (fst ?o) pw" using Cons.prems(1) by (simp add: wait_abs_def)
    from Cons.IH [OF this next_w(2)] show ?thesis by (simp add: x None statuses_seen_def)
  next
    case (Some s)
    then have "wait_abs (fst ?o) (window_step path pw (s, state, now))"
      using observe_refines [OF Cons.prems(1), of path s state now t matches] next_w(1) by (simp add: Let_def)
    from Cons.IH [OF this next_w(2)] show ?thesis by (simp add: x Some statuses_seen_def)
  qed
qed

lemma wait_abs_default [simp]: "wait_abs activation_wait_default (False, [])"
  by (simp add: wait_abs_def activation_wait_default_def pending_of_def)

lemma observe_verdict:
  assumes "observe_all t path xs activation_wait_default = Some w"
  shows "snd (observe t (Some s) matches path state now w) =
    (if matches \<and> status_activated s then Inr True
     else window_verdict t (failure_window path (statuses_seen xs @ [(s, state, now)])) now)"
proof -
  from observe_all_abs [OF wait_abs_default assms]
  have "wait_abs w (foldl (window_step path) (False, []) (statuses_seen xs))" .
  from observe_refines [OF this, of path s state now t matches] show ?thesis
    by (simp add: failure_window_def Let_def)
qed

text \<open>
  C25. The verdict of a wait over any sequence of observations is exactly this: success when the
  target is active and fully activated; failure when the observations since the last healthy one
  have all been failures (after progress was seen) and the first of them is at least the grace
  period old; otherwise the wait goes on. Observations without a status neither end nor extend a
  failure. A failure is explained by the first status of that run that has a reason, so that a
  later generic status never hides the cause.
\<close>

theorem activation_verdict:
  assumes "observe_all t path xs activation_wait_default = Some w"
  shows "snd (observe t (Some s) matches path state now w) =
    (if matches \<and> status_activated s then Inr True
     else window_verdict t (failure_window path (statuses_seen xs @ [(s, state, now)])) now) \<and>
    snd (observe t None matches path state now w) = Inr matches"
  using observe_verdict [OF assms] by simp

definition status_sample :: activation_status where
  "status_sample = \<lparr>as_iface = ''wlan0'', as_device_state = 30, as_device_state_reason = (30, 8),
     as_active_connection_path = None, as_active_connection_state = None\<rparr>"

definition target_sample :: wifi_connect_target where
  "target_sample = (connect_target_for_ssid \<lparr>ssid_exact = ''x'', ssid_display = ''x''\<rparr>)
     \<lparr>wct_security := Some SecWpa\<rparr>"

theorem activation_verdict_witness:
  "\<exists>w. observe_all target_sample (Some ''/active'') [(Some status_sample, False, None, 0)]
      activation_wait_default = Some w \<and>
    snd (observe target_sample (Some status_sample) False (Some ''/active'') None ACTIVATION_FAILURE_GRACE w) =
      Inl (activation_error target_sample status_sample CfrWrongPassword
        (activation_failure_message target_sample status_sample CfrWrongPassword))"
proof -
  let ?path = "Some ''/active''"
  have fails: "terminal_failure_after_progress status_sample"
    by (simp add: terminal_failure_after_progress_def status_sample_def)
  have "\<exists>w. observe_all target_sample ?path [(Some status_sample, False, None, 0)] activation_wait_default = Some w"
    by (simp add: observe_def check_terminal_failure_def Let_def activation_wait_default_def
        latch_pending_failure_def ACTIVATION_FAILURE_GRACE_def from_millis_def)
  then obtain w where w: "observe_all target_sample ?path [(Some status_sample, False, None, 0)]
      activation_wait_default = Some w" by blast
  have win: "failure_window ?path [(status_sample, None, 0), (status_sample, None, ACTIVATION_FAILURE_GRACE)] =
      [(status_sample, 0), (status_sample, ACTIVATION_FAILURE_GRACE)]"
    by (simp add: failure_window_def window_step_def fails Let_def)
  have reason: "activation_failure_reason target_sample status_sample = CfrWrongPassword"
    by (simp add: activation_failure_reason_def status_sample_def target_sample_def
        target_appears_to_need_secret_def)
  have inf: "informative [(status_sample, 0), (status_sample, ACTIVATION_FAILURE_GRACE)] = status_sample"
    by (simp add: informative_def status_sample_def)
  from activation_verdict [OF w, of status_sample False None ACTIVATION_FAILURE_GRACE] w show ?thesis
    by (auto simp: statuses_seen_def win window_verdict_def inf reason Let_def)
qed

section \<open>The loop ends and says why\<close>

text \<open>What iteration \<open>k\<close> observes, when NetworkManager answers.\<close>

definition seen_at :: "wait_env \<Rightarrow> string option \<Rightarrow> nat \<Rightarrow> observation" where
  "seen_at env path k =
     (case we_observation env k of
        Inr (matches, status) \<Rightarrow>
          (status, matches, case path of None \<Rightarrow> None | Some _ \<Rightarrow> we_active_state env k, we_now env k 2)
      | Inl _ \<Rightarrow> (None, False, None, we_now env k 2))"

lemma iteration_continues:
  assumes "wait_iteration env t path deadline k w = Inr w'"
  shows "\<not> we_cancelled env k" "we_now env k 1 < deadline" "scope_error_at env k = None"
    "observe_all t path [seen_at env path k] w = Some w'"
proof -
  show c: "\<not> we_cancelled env k" "we_now env k 1 < deadline" "scope_error_at env k = None"
    using assms by (auto simp: wait_iteration_def split: if_splits option.splits)
  from assms c obtain m st where obs: "we_observation env k = Inr (m, st)"
    by (cases "we_observation env k") (auto simp: wait_iteration_def)
  with assms c show "observe_all t path [seen_at env path k] w = Some w'"
    by (simp add: wait_iteration_def seen_at_def Let_def split: sum.splits prod.splits bool.splits)
qed

lemma observe_all_append: "observe_all t path (xs @ ys) w = Option.bind (observe_all t path xs w) (observe_all t path ys)"
  by (induction t path xs w rule: observe_all.induct) (auto split: prod.splits sum.splits bool.splits)

lemma wait_loop_stops:
  "wait_loop env t path deadline fuel k w = Some r \<Longrightarrow>
     \<exists>j w'. k \<le> j \<and> wait_iteration env t path deadline j w' = Inl r \<and>
       observe_all t path (map (seen_at env path) [k..<j]) w = Some w' \<and>
       (\<forall>i. k \<le> i \<and> i < j \<longrightarrow> \<not> we_cancelled env i \<and> we_now env i 1 < deadline)"
proof (induction fuel arbitrary: k w)
  case (Suc fuel)
  show ?case
  proof (cases "wait_iteration env t path deadline k w")
    case (Inl r')
    with Suc.prems show ?thesis by (intro exI [of _ k] exI [of _ w]) auto
  next
    case (Inr w')
    note c = iteration_continues [OF Inr]
    from Inr Suc.prems have "wait_loop env t path deadline fuel (Suc k) w' = Some r" by simp
    from Suc.IH [OF this] obtain j w'' where j: "Suc k \<le> j" "wait_iteration env t path deadline j w'' = Inl r"
      "observe_all t path (map (seen_at env path) [Suc k..<j]) w' = Some w''"
      "\<forall>i. Suc k \<le> i \<and> i < j \<longrightarrow> \<not> we_cancelled env i \<and> we_now env i 1 < deadline" by blast
    have "map (seen_at env path) [k..<j] = [seen_at env path k] @ map (seen_at env path) [Suc k..<j]"
      using j(1) by (simp add: upt_conv_Cons)
    then have "observe_all t path (map (seen_at env path) [k..<j]) w = Some w''"
      unfolding observe_all_append using c(4) j(3) by (simp only: observe_all_append bind.bind_lunit)
    moreover have "\<not> we_cancelled env i \<and> we_now env i 1 < deadline" if "k \<le> i" "i < j" for i
      using that j(4) c(1,2) by (cases "i = k") auto
    ultimately show ?thesis using j(1,2) by (intro exI [of _ j] exI [of _ w'']) auto
  qed
qed simp

lemma wait_loop_returns:
  "k \<le> j \<Longrightarrow> j < k + fuel \<Longrightarrow> deadline \<le> we_now env j 1 \<Longrightarrow> \<exists>r. wait_loop env t path deadline fuel k w = Some r"
proof (induction fuel arbitrary: k w)
  case (Suc fuel)
  show ?case
  proof (cases "wait_iteration env t path deadline k w")
    case (Inr w')
    then have "k \<noteq> j" using iteration_continues [OF Inr] Suc.prems(3) by auto
    with Suc.prems Suc.IH [of "Suc k" w'] Inr show ?thesis by simp
  qed simp
qed simp

text \<open>
  The only reasons for the loop to return at iteration \<open>j\<close>, after observations that left the wait in
  state \<open>w\<close>, with the answer and the aborts each of them leads to.
\<close>

definition stop_explained ::
    "wait_env \<Rightarrow> wifi_connect_target \<Rightarrow> string option \<Rightarrow> instant \<Rightarrow> nat \<Rightarrow> activation_wait \<Rightarrow>
     (anyhow_error + unit) \<times> wait_effect list \<Rightarrow> bool" where
  "stop_explained env t path deadline j w r \<longleftrightarrow>
     (if we_cancelled env j then r = (Inl cancelled_connect_error, [AbortTarget])
      else case scope_error_at env j of
             Some e \<Rightarrow> r = (Inl e, abort_requested path)
           | None \<Rightarrow>
               if deadline \<le> we_now env j 1 then r = (Inl (wait_timeout_error t w), abort_requested path)
               else case we_observation env j of
                      Inl e \<Rightarrow> r = (Inl e, [])
                    | Inr (matches, None) \<Rightarrow> matches \<and> r = (Inr (), [])
                    | Inr (matches, Some s) \<Rightarrow>
                        if matches \<and> status_activated s then r = (Inr (), [])
                        else \<exists>e. window_verdict t (failure_window path (statuses_seen (map (seen_at env path) [0..<Suc j])))
                               (we_now env j 2) = Inl e \<and>
                             r = (Inl (fst (activation_scope_error env j path e)), snd (activation_scope_error env j path e)))"

lemma iteration_explained:
  assumes it: "wait_iteration env t path deadline j w = Inl r"
    and w: "observe_all t path (map (seen_at env path) [0..<j]) activation_wait_default = Some w"
  shows "stop_explained env t path deadline j w r"
proof (cases "we_cancelled env j \<or> scope_error_at env j \<noteq> None \<or> deadline \<le> we_now env j 1 \<or> isl (we_observation env j)")
  case True
  then show ?thesis
    using it by (auto simp: wait_iteration_def stop_explained_def split: if_splits option.splits sum.splits)
next
  case False
  then obtain m st where obs: "we_observation env j = Inr (m, st)" by (cases "we_observation env j") auto
  let ?state = "case path of None \<Rightarrow> None | Some _ \<Rightarrow> we_active_state env j"
  have run: "(case observe t st m path ?state (we_now env j 2) w of
      (w, Inl e) \<Rightarrow> (case activation_scope_error env j path e of (e', fx) \<Rightarrow> Inl (Inl e', fx))
    | (w, Inr True) \<Rightarrow> Inl (Inr (), []) | (w, Inr False) \<Rightarrow> Inr w) = Inl r"
    using it False obs by (simp add: wait_iteration_def Let_def)
  show ?thesis
  proof (cases st)
    case None
    with run False obs show ?thesis by (auto simp: stop_explained_def split: bool.splits)
  next
    case (Some s)
    have seen: "statuses_seen (map (seen_at env path) [0..<Suc j]) =
        statuses_seen (map (seen_at env path) [0..<j]) @ [(s, ?state, we_now env j 2)]"
      by (simp add: statuses_seen_def seen_at_def obs Some)
    obtain w' v where o: "observe t st m path ?state (we_now env j 2) w = (w', v)" by fastforce
    with observe_verdict [OF w, of s m ?state "we_now env j 2", folded seen] Some
    have v: "v = (if m \<and> status_activated s then Inr True
        else window_verdict t (failure_window path (statuses_seen (map (seen_at env path) [0..<Suc j]))) (we_now env j 2))"
      by simp
    from run o have "(\<exists>e. v = Inl e \<and> r = (Inl (fst (activation_scope_error env j path e)), snd (activation_scope_error env j path e)))
        \<or> (v = Inr True \<and> r = (Inr (), []))"
      by (auto simp: case_prod_unfold split: sum.splits bool.splits)
    with v False obs Some show ?thesis
      by (auto simp: stop_explained_def window_verdict_def Let_def split: if_splits)
  qed
qed



section \<open>The first reason to stop stays\<close>

datatype scope_op =
    NoteFrontend bool | Track | Release | Stop credential_stop | CheckError instant
  | NoteFailure instant anyhow_error

fun scope_apply :: "scope_op \<Rightarrow> scope_state \<Rightarrow> scope_state" where
  "scope_apply (NoteFrontend b) s = note_frontend_availability b s"
| "scope_apply Track s = track_credentials s"
| "scope_apply Release s = release_credentials s"
| "scope_apply (Stop r) s = scope_stop r s"
| "scope_apply (CheckError now) s = fst (scope_error now s)"
| "scope_apply (NoteFailure now e) s = fst (activation_error_in_scope now e s)"

definition scope_new :: "instant \<Rightarrow> scope_state" where
  "scope_new deadline = \<lparr>sc_deadline = deadline, sc_finished = False, sc_pending_credentials = 0,
     sc_missing_frontend = False, sc_failure = None, sc_wakes = 0\<rparr>"

lemmas scope_defs = note_frontend_availability_def track_credentials_def release_credentials_def
  scope_stop_def scope_error_def activation_error_in_scope_def Let_def

lemma scope_stopped_stays:
  "sc_failure s = Some r \<Longrightarrow> sc_failure (scope_apply op s) = Some r \<and> sc_wakes (scope_apply op s) = sc_wakes s"
  by (cases op) (auto simp: scope_defs)

lemma scope_stopped_run:
  "sc_failure s = Some r \<Longrightarrow>
     sc_failure (fold scope_apply ops s) = Some r \<and> sc_wakes (fold scope_apply ops s) = sc_wakes s"
  using scope_stopped_stays by (induction ops arbitrary: s) auto

definition woken_once :: "scope_state \<Rightarrow> bool" where
  "woken_once s \<longleftrightarrow> sc_wakes s = (if sc_failure s = None then 0 else 1)"

lemma woken_once_apply: "woken_once s \<Longrightarrow> woken_once (scope_apply op s)"
  by (cases op) (auto simp: woken_once_def scope_defs split: if_splits option.splits)

lemma woken_once_run: "woken_once s \<Longrightarrow> woken_once (fold scope_apply ops s)"
  using woken_once_apply by (induction ops arbitrary: s) auto

text \<open>
  The first reason to stop an activation is the one that is reported. Whatever other threads do
  to a scope afterwards (other prompts being tracked, cancelled, expiring or found unavailable), a
  recorded reason stays, every later query reports it as the same error, and the waiting thread is
  woken exactly once.
\<close>

theorem first_credential_stop_wins:
  assumes "sc_failure (fold scope_apply ops (scope_new deadline)) = Some r"
  shows "sc_failure (fold scope_apply (ops @ later) (scope_new deadline)) = Some r \<and>
    snd (scope_error now (fold scope_apply (ops @ later) (scope_new deadline))) = Some (stop_error r) \<and>
    snd (activation_error_in_scope now e (fold scope_apply (ops @ later) (scope_new deadline))) = stop_error r \<and>
    sc_wakes (fold scope_apply (ops @ later) (scope_new deadline)) = 1"
proof -
  let ?s = "fold scope_apply (ops @ later) (scope_new deadline)"
  have f: "sc_failure ?s = Some r" using scope_stopped_run [OF assms, of later] by simp
  have "woken_once ?s" by (rule woken_once_run) (simp add: woken_once_def scope_new_def)
  with f show ?thesis by (simp add: woken_once_def scope_error_def activation_error_in_scope_def scope_stop_def Let_def)
qed

theorem first_credential_stop_wins_witness:
  "snd (scope_error 0 (fold scope_apply [Stop StopCancelled, Track, CheckError (from_secs 100)] (scope_new (from_secs 90)))) =
     Some (stop_error StopCancelled)"
proof -
  have "sc_failure (fold scope_apply [Stop StopCancelled] (scope_new (from_secs 90))) = Some StopCancelled"
    by (simp add: scope_stop_def scope_new_def)
  from first_credential_stop_wins [OF this, of "[Track, CheckError (from_secs 100)]" 0] show ?thesis by simp
qed

end
