(* ===== verification/Connectivity.thy ===== *)
theory Connectivity
  imports Errors
begin

text \<open>
  NetworkManager's verdict on connectivity (\<open>src/model/network.rs\<close>) and the fenced snapshot of it that
  captive-portal launches rest on (\<open>src/nm/connectivity.rs\<close>). What the bus answers is a record of
  reads.
\<close>

record primary_connection_identity =
  pci_path :: string
  pci_id :: string
  pci_uuid :: string
  pci_connection_type :: string
  pci_type_name :: "string option"
  pci_device_iface :: "string option"

record connectivity_status =
  cs_code :: u32
  cs_state :: string
  cs_captive_portal :: bool
  cs_full :: bool
  cs_check_uri :: "string option"
  cs_check_enabled :: bool
  cs_check_available :: bool
  cs_primary_connection :: "primary_connection_identity option"

definition from_nm_code :: "u32 \<Rightarrow> connectivity_status" where
  "from_nm_code code =
     \<lparr>cs_code = code,
      cs_state = (if code = 1 then ''none'' else if code = 2 then ''portal'' else if code = 3 then ''limited''
                  else if code = 4 then ''full'' else ''unknown''),
      cs_captive_portal = (code = 2), cs_full = (code = 4), cs_check_uri = None,
      cs_check_enabled = False, cs_check_available = False, cs_primary_connection = None\<rparr>"

definition with_portal_context ::
    "string option \<Rightarrow> bool \<Rightarrow> bool \<Rightarrow> primary_connection_identity option \<Rightarrow> connectivity_status
      \<Rightarrow> connectivity_status" where
  "with_portal_context uri enabled available primary s =
     s\<lparr>cs_check_uri := (case uri of Some u \<Rightarrow> if u \<noteq> [] then Some u else None | None \<Rightarrow> None),
       cs_check_enabled := enabled, cs_check_available := available, cs_primary_connection := primary\<rparr>"

text \<open>
  What \<open>portal_snapshot\<close> reads from the bus, in order. A failed read of a required property ends the
  snapshot with its error; the primary connection read for the context is the identity
  \<open>primary_connection_identity\<close> finds, which has no path \<open>/\<close>.
\<close>

record snapshot_reads =
  sr_owner :: "anyhow_error + string"
  sr_before :: "anyhow_error + string"
  sr_code :: "anyhow_error + u32"
  sr_uri :: "string option"
  sr_enabled :: bool
  sr_available :: bool
  sr_primary :: "primary_connection_identity option"
  sr_after :: "anyhow_error + string"
  sr_final_code :: "anyhow_error + u32"
  sr_final_owner :: "anyhow_error + string"
  sr_guid :: string

definition snapshot_changed :: anyhow_error where
  "snapshot_changed = [LContext ''network changed while preparing portal launch'']"

definition portal_snapshot :: "snapshot_reads \<Rightarrow> anyhow_error + string \<times> connectivity_status" where
  "portal_snapshot r =
     and_then (sr_owner r) (\<lambda>owner.
     and_then (sr_before r) (\<lambda>before.
     and_then (sr_code r) (\<lambda>code.
       let status = with_portal_context (sr_uri r) (sr_enabled r) (sr_available r)
             (case sr_primary r of Some p \<Rightarrow> if pci_path p = ''/'' then None else Some p | None \<Rightarrow> None)
             (from_nm_code code)
       in and_then (sr_after r) (\<lambda>after.
     and_then (sr_final_code r) (\<lambda>final_code.
       if \<not> (before = after \<and> code = final_code
              \<and> (case cs_primary_connection status of None \<Rightarrow> False | Some p \<Rightarrow> pci_path p = before))
       then Inl snapshot_changed
       else and_then (sr_final_owner r) (\<lambda>owner2.
         if owner = owner2 then Inr (sr_guid r @ '':'' @ owner, status) else Inl snapshot_changed))))))"

end
