(* ===== verification/Connection.thy ===== *)
theory Connection
  imports Activation_Wait Connectivity
begin

text \<open>
  The connection engine of one candidate (\<open>src/connect.rs\<close>): the machine that looks for an active
  connection, activates a saved profile, creates one, rescans once and verifies, with the cleanup
  and the results of every outcome. NetworkManager, the cache and the progress callback are the
  environment: each call takes the next answer, numbered by the machine's clock, and what the engine
  does to the outside is recorded in order as effects. The answer of the verification is that of
  \<open>wait_for_active_target_path\<close>.
\<close>

section \<open>Data\<close>

datatype connect_engine_path = EpAlreadyActive | EpDbus

datatype connect_phase =
    PhStarting | PhTryingAccessPoint | PhCheckingActive | PhActivatingSavedProfile
  | PhCreatingProfile | PhRescanning | PhVerifying | PhRetryingAlternative | PhConnected
  | PhFailed | PhCancelled

record connect_attempt_summary =
  cas_attempt :: nat
  cas_status :: string
  cas_reason :: "connect_failure_reason option"
  cas_bssid :: "string option"
  cas_band :: "string option"
  cas_channel :: "u32 option"
  cas_duration_ms :: nat
  cas_message :: string

record connect_result =
  cr_recovery_prompt :: "network_connect_prompt option"
  cr_status :: string
  cr_reason :: "connect_failure_reason option"
  cr_path :: "connect_engine_path option"
  cr_ssid :: string
  cr_message :: string
  cr_connectivity :: "connectivity_status option"
  cr_suggest_open_portal :: bool
  cr_attempts :: "connect_attempt_summary list"
  cr_fallback_used :: bool

definition recovery_prompt :: "connect_failure_reason \<Rightarrow> network_connect_prompt option" where
  "recovery_prompt reason =
     (let prompt = (\<lambda>message. Some \<lparr>ncp_kind = PkPassword, ncp_required_fields = [''password''],
            ncp_optional_fields = [], ncp_message = Some message, ncp_enterprise_defaults = None\<rparr>)
      in case reason of
           CfrWrongPassword \<Rightarrow> prompt ''Wrong password. Enter a new Wi-Fi password.''
         | CfrPasswordUnavailable \<Rightarrow> prompt ''NetworkManager could not obtain credentials. Connect again or explicitly update the saved credentials.''
         | CfrSecretRequired \<Rightarrow> prompt ''NetworkManager could not obtain credentials. Connect again or explicitly update the saved credentials.''
         | _ \<Rightarrow> None)"

definition result_connected ::
    "string \<Rightarrow> string \<Rightarrow> connect_engine_path \<Rightarrow> connectivity_status option \<Rightarrow> connect_result" where
  "result_connected ssid message path connectivity =
     \<lparr>cr_recovery_prompt = None, cr_status = ''connected'', cr_reason = None, cr_path = Some path,
      cr_ssid = ssid, cr_message = message, cr_connectivity = connectivity,
      cr_suggest_open_portal = (case connectivity of None \<Rightarrow> False | Some c \<Rightarrow> cs_captive_portal c),
      cr_attempts = [], cr_fallback_used = False\<rparr>"

definition result_failed :: "string \<Rightarrow> connect_failure_reason \<Rightarrow> string \<Rightarrow> connect_result" where
  "result_failed ssid reason message =
     \<lparr>cr_recovery_prompt = recovery_prompt reason, cr_status = ''error'', cr_reason = Some reason,
      cr_path = None, cr_ssid = ssid, cr_message = message, cr_connectivity = None,
      cr_suggest_open_portal = False, cr_attempts = [], cr_fallback_used = False\<rparr>"

record activation_outcome =
  ao_message :: string
  ao_path :: connect_engine_path

datatype profile_kind = KindSaved | KindCreated

datatype connection_state = AlreadyActive | SavedProfile | CreateProfile | Rescan | Verify profile_kind

fun state_phase :: "connection_state \<Rightarrow> connect_phase" where
  "state_phase AlreadyActive = PhCheckingActive"
| "state_phase SavedProfile = PhActivatingSavedProfile"
| "state_phase CreateProfile = PhCreatingProfile"
| "state_phase Rescan = PhRescanning"
| "state_phase (Verify _) = PhVerifying"

datatype state_transition = Next connection_state | Connected activation_outcome

text \<open>A requested activation: its profile, its active path and the scope of its prompts.\<close>

record activation =
  act_profile_path :: string
  act_active_path :: string
  act_scope :: nat

section \<open>The environment and the machine\<close>

record conn_env =
  ce_cancelled :: "nat \<Rightarrow> bool"
  ce_progress :: "nat \<Rightarrow> connect_phase \<Rightarrow> anyhow_error + unit"
  ce_active_target_matches :: "nat \<Rightarrow> anyhow_error + bool"
  ce_activate_saved :: "nat \<Rightarrow> anyhow_error + activation option"
  ce_add_and_activate :: "nat \<Rightarrow> anyhow_error + activation option"
  ce_target_visible :: "nat \<Rightarrow> anyhow_error + bool"
  ce_scan :: "nat \<Rightarrow> anyhow_error + unit"
  ce_wait :: "nat \<Rightarrow> string option \<Rightarrow> anyhow_error + unit"
  ce_delete :: "nat \<Rightarrow> string \<Rightarrow> anyhow_error + unit"
  ce_status_connectivity :: "nat \<Rightarrow> connectivity_status option"
  ce_connectivity_snapshot :: "nat \<Rightarrow> anyhow_error + connectivity_status"

datatype conn_effect =
    FxProgress connect_phase
  | FxActivated activation
  | FxCreated string
  | FxScan
  | FxScopeClosed nat
  | FxDelete string "anyhow_error + unit"
  | FxWriteStatus string string
  | FxRefreshCache
  | FxHistory string "connect_failure_reason option" "connect_engine_path option" string

record machine =
  mc_rescanned :: bool
  mc_created_connection :: "string option"
  mc_activation_path :: "string option"
  mc_activation_scope :: "nat option"
  mc_clock :: nat
  mc_effects :: "conn_effect list"

definition machine_new :: machine where
  "machine_new = \<lparr>mc_rescanned = False, mc_created_connection = None, mc_activation_path = None,
     mc_activation_scope = None, mc_clock = 0, mc_effects = []\<rparr>"

definition emit :: "conn_effect list \<Rightarrow> machine \<Rightarrow> machine" where
  "emit fx m = m\<lparr>mc_effects := mc_effects m @ fx\<rparr>"

definition tick :: "machine \<Rightarrow> machine" where
  "tick m = m\<lparr>mc_clock := Suc (mc_clock m)\<rparr>"

definition close_scope :: "machine \<Rightarrow> machine" where
  "close_scope m =
     (case mc_activation_scope m of
        None \<Rightarrow> m | Some s \<Rightarrow> emit [FxScopeClosed s] (m\<lparr>mc_activation_scope := None\<rparr>))"

record attempt =
  at_target :: wifi_connect_target
  at_password :: "string option"
  at_wep_key_type :: "wep_key_type option"

section \<open>Steps\<close>

definition check_already_active ::
    "conn_env \<Rightarrow> attempt \<Rightarrow> machine \<Rightarrow> machine \<times> (anyhow_error + state_transition)" where
  "check_already_active env a m =
     (if ce_active_target_matches env (mc_clock m) = Inr True
         \<and> at_password a = None \<and> wct_enterprise (at_target a) = None
      then (tick m, Inr (Connected \<lparr>ao_message = ''Already connected to '' @ target_name (at_target a),
              ao_path = EpAlreadyActive\<rparr>))
      else (tick m, Inr (Next SavedProfile)))"

definition activate_saved_profile ::
    "conn_env \<Rightarrow> machine \<Rightarrow> machine \<times> (anyhow_error + state_transition)" where
  "activate_saved_profile env m =
     (case ce_activate_saved env (mc_clock m) of
        Inr (Some act) \<Rightarrow>
          (emit [FxActivated act] ((tick m)\<lparr>mc_activation_path := Some (act_active_path act),
             mc_activation_scope := Some (act_scope act)\<rparr>), Inr (Next (Verify KindSaved)))
      | Inr None \<Rightarrow> (tick m, Inr (Next CreateProfile))
      | Inl e \<Rightarrow> (tick m, Inl e))"

definition target_visibility :: "conn_env \<Rightarrow> attempt \<Rightarrow> machine \<Rightarrow> machine \<times> bool option" where
  "target_visibility env a m =
     (if wct_hidden (at_target a) then (m, Some False)
      else (tick m, case ce_target_visible env (mc_clock m) of Inr v \<Rightarrow> Some v | Inl e \<Rightarrow> None))"

definition should_rescan :: "attempt \<Rightarrow> machine \<Rightarrow> bool option \<Rightarrow> bool" where
  "should_rescan a m visible \<longleftrightarrow>
     \<not> mc_rescanned m \<and> \<not> wct_hidden (at_target a) \<and> visible \<noteq> Some True"

definition unavailable_activation_error :: "attempt \<Rightarrow> bool option \<Rightarrow> anyhow_error" where
  "unavailable_activation_error a visible =
     connect_failure
       (if \<not> wct_hidden (at_target a) \<and> visible = Some True then CfrUnsupportedAuth else CfrNotFound)
       (''no supported D-Bus activation path is available for '' @ target_name (at_target a))"

definition create_profile ::
    "conn_env \<Rightarrow> attempt \<Rightarrow> machine \<Rightarrow> machine \<times> (anyhow_error + state_transition)" where
  "create_profile env a m =
     (case ce_add_and_activate env (mc_clock m) of
        Inr (Some act) \<Rightarrow>
          (emit [FxCreated (act_profile_path act), FxActivated act]
             ((tick m)\<lparr>mc_created_connection := Some (act_profile_path act),
                mc_activation_path := Some (act_active_path act),
                mc_activation_scope := Some (act_scope act)\<rparr>),
           Inr (Next (Verify KindCreated)))
      | Inr None \<Rightarrow>
          (case target_visibility env a (tick m) of (m', visible) \<Rightarrow>
             if should_rescan a m' visible then (m', Inr (Next Rescan))
             else (m', Inl (unavailable_activation_error a visible)))
      | Inl e \<Rightarrow> (tick m, Inl e))"

definition rescan :: "conn_env \<Rightarrow> machine \<Rightarrow> machine \<times> (anyhow_error + state_transition)" where
  "rescan env m =
     (let m' = emit [FxScan] ((tick m)\<lparr>mc_rescanned := True\<rparr>)
      in case ce_scan env (mc_clock m) of
           Inl e \<Rightarrow> (m', Inl e) | Inr _ \<Rightarrow> (m', Inr (Next SavedProfile)))"

definition verify ::
    "conn_env \<Rightarrow> attempt \<Rightarrow> profile_kind \<Rightarrow> machine \<Rightarrow> machine \<times> (anyhow_error + state_transition)" where
  "verify env a kind m =
     (case ce_wait env (mc_clock m) (mc_activation_path m) of
        Inl e \<Rightarrow> (tick m, Inl e)
      | Inr _ \<Rightarrow>
          (let m' = close_scope (tick m);
               network = (case kind of KindSaved \<Rightarrow> ''saved network'' | KindCreated \<Rightarrow> ''Wi-Fi network'');
               m' = (case kind of KindSaved \<Rightarrow> m' | KindCreated \<Rightarrow> m'\<lparr>mc_created_connection := None\<rparr>)
           in (m', Inr (Connected \<lparr>ao_message = ''Connected to '' @ network @ '' ''
                 @ target_name (at_target a) @ '' via D-Bus'', ao_path = EpDbus\<rparr>))))"

definition conn_step ::
    "conn_env \<Rightarrow> attempt \<Rightarrow> connection_state \<Rightarrow> machine \<Rightarrow> machine \<times> (anyhow_error + state_transition)" where
  "conn_step env a state m =
     (case state of
        AlreadyActive \<Rightarrow> check_already_active env a m
      | SavedProfile \<Rightarrow> activate_saved_profile env m
      | CreateProfile \<Rightarrow> create_profile env a m
      | Rescan \<Rightarrow> rescan env m
      | Verify kind \<Rightarrow> verify env a kind m)"

text \<open>The head of an iteration: the cancellation check and the progress report.\<close>

definition announce :: "conn_env \<Rightarrow> connection_state \<Rightarrow> machine \<Rightarrow> machine \<times> (anyhow_error + unit)" where
  "announce env state m =
     (if ce_cancelled env (mc_clock m) then (tick m, Inl cancelled_connect_error)
      else (let m' = emit [FxProgress (state_phase state)] (tick (tick m))
            in (m', ce_progress env (Suc (mc_clock m)) (state_phase state))))"

section \<open>The machine stops\<close>

text \<open>A bound on the iterations that remain; the one rescan is what an iteration may spend.\<close>

fun state_rank :: "connection_state \<Rightarrow> bool \<Rightarrow> nat" where
  "state_rank AlreadyActive rescanned = 3 + (if rescanned then 0 else 3)"
| "state_rank SavedProfile rescanned = 2 + (if rescanned then 0 else 3)"
| "state_rank CreateProfile rescanned = 1 + (if rescanned then 0 else 3)"
| "state_rank Rescan rescanned = 3"
| "state_rank (Verify _) rescanned = 0"

lemma machine_frame [simp]:
  "mc_rescanned (tick m) = mc_rescanned m" "mc_rescanned (emit fx m) = mc_rescanned m"
  "mc_created_connection (tick m) = mc_created_connection m" "mc_created_connection (emit fx m) = mc_created_connection m"
  "mc_activation_scope (tick m) = mc_activation_scope m" "mc_activation_scope (emit fx m) = mc_activation_scope m"
  "mc_activation_path (tick m) = mc_activation_path m" "mc_activation_path (emit fx m) = mc_activation_path m"
  "mc_effects (tick m) = mc_effects m" "mc_effects (emit fx m) = mc_effects m @ fx"
  "mc_clock (emit fx m) = mc_clock m" "mc_clock (tick m) = Suc (mc_clock m)"
  by (simp_all add: tick_def emit_def)

lemmas step_defs = conn_step_def check_already_active_def activate_saved_profile_def create_profile_def
  target_visibility_def rescan_def verify_def

lemma announce_rescanned: "announce env state m = (m', r) \<Longrightarrow> mc_rescanned m' = mc_rescanned m"
  by (auto simp: announce_def Let_def split: if_splits)

lemma step_rank:
  assumes "conn_step env a state m = (m', Inr (Next state'))"
  shows "state_rank state' (mc_rescanned m') < state_rank state (mc_rescanned m)"
  using assms
  by (cases state)
    (auto simp: step_defs should_rescan_def Let_def split: if_splits sum.splits option.splits prod.splits)

function run_states ::
    "conn_env \<Rightarrow> attempt \<Rightarrow> connection_state \<Rightarrow> machine \<Rightarrow> machine \<times> (anyhow_error + activation_outcome)" where
  "run_states env a state m =
     (case announce env state m of
        (m, Inl e) \<Rightarrow> (m, Inl e)
      | (m, Inr _) \<Rightarrow>
          (case conn_step env a state m of
             (m, Inl e) \<Rightarrow> (m, Inl e)
           | (m, Inr (Connected outcome)) \<Rightarrow> (m, Inr outcome)
           | (m, Inr (Next state')) \<Rightarrow> run_states env a state' m))"
  by pat_completeness auto
termination
  by (relation "measure (\<lambda>(env, a, state, m). state_rank state (mc_rescanned m))")
    (auto dest!: step_rank [OF sym] announce_rescanned [OF sym])

declare run_states.simps [simp del]

section \<open>Outcomes\<close>

text \<open>
  The deletion of a profile is requested, not guaranteed: its answer is recorded with the request, and
  a refused one is only logged, so that the profile stays.
\<close>

definition cleanup_created_connection :: "conn_env \<Rightarrow> machine \<Rightarrow> machine" where
  "cleanup_created_connection env m =
     (case mc_created_connection m of
        None \<Rightarrow> m
      | Some c \<Rightarrow> emit [FxDelete c (ce_delete env (mc_clock m) c)] ((tick m)\<lparr>mc_created_connection := None\<rparr>))"

definition record_connect_attempt :: "connect_result \<Rightarrow> conn_effect list" where
  "record_connect_attempt r = [FxHistory (cr_status r) (cr_reason r) (cr_path r) (cr_message r)]"

definition publish_final_connect_failure :: "wifi_connect_target \<Rightarrow> anyhow_error \<Rightarrow> conn_effect list" where
  "publish_final_connect_failure t e =
     [FxWriteStatus ''error'' (''Connection failed for '' @ target_name t @ '': '' @ render_alternate e)]"

definition failed_result :: "wifi_connect_target \<Rightarrow> anyhow_error \<Rightarrow> connect_result" where
  "failed_result t e = result_failed (target_name t) (connect_failure_reason_of e) (render_alternate e)"

definition finish_success ::
    "conn_env \<Rightarrow> attempt \<Rightarrow> activation_outcome \<Rightarrow> machine \<Rightarrow> machine \<times> (anyhow_error + connect_result)" where
  "finish_success env a outcome m =
     (let m = emit [FxWriteStatus ''connected'' (ao_message outcome), FxRefreshCache] m
      in if ce_cancelled env (mc_clock m) then (tick m, Inl cancelled_connect_error)
         else (let m = tick m;
                   connectivity = (case ce_status_connectivity env (mc_clock m) of
                      Some c \<Rightarrow> Some c
                    | None \<Rightarrow> (case ce_connectivity_snapshot env (mc_clock m) of Inr c \<Rightarrow> Some c | Inl e \<Rightarrow> None));
                   result = result_connected (target_name (at_target a)) (ao_message outcome)
                      (ao_path outcome) connectivity
               in (emit (record_connect_attempt result) (tick m), Inr result)))"

definition finish_failure ::
    "attempt \<Rightarrow> anyhow_error \<Rightarrow> bool \<Rightarrow> machine \<Rightarrow> machine \<times> (anyhow_error + connect_result)" where
  "finish_failure a e publish_failure m =
     (let e = ensure_domain OpConnect e;
          fx = (if publish_failure then publish_final_connect_failure (at_target a) e else [])
      in (emit (fx @ record_connect_attempt (failed_result (at_target a) e)) m, Inl e))"

definition connect_target ::
    "conn_env \<Rightarrow> attempt \<Rightarrow> bool \<Rightarrow> machine \<times> (anyhow_error + connect_result)" where
  "connect_target env a publish_failure =
     (let m = machine_new
      in if ce_cancelled env (mc_clock m) then (tick m, Inl cancelled_connect_error)
         else (case target_validate (at_target a) of
                 Inl e \<Rightarrow> (tick m, Inl (connect_failure_from_error CfrValidationError e))
               | Inr _ \<Rightarrow>
                   (let m = emit [FxWriteStatus ''connecting''
                          (''Connecting to '' @ target_name (at_target a) @ [CHR 0xE2, CHR 0x80, CHR 0xA6])] (tick m)
                    in case run_states env a AlreadyActive m of
                         (m, Inr outcome) \<Rightarrow> finish_success env a outcome m
                       | (m, Inl e) \<Rightarrow>
                           finish_failure a e publish_failure (cleanup_created_connection env (close_scope m)))))"

section \<open>What an attempt leaves behind\<close>

fun created_by :: "conn_effect \<Rightarrow> string list" where
  "created_by (FxCreated p) = [p]" | "created_by _ = []"

fun delete_requested_by :: "conn_effect \<Rightarrow> string list" where
  "delete_requested_by (FxDelete p _) = [p]" | "delete_requested_by _ = []"

fun opened_by :: "conn_effect \<Rightarrow> nat list" where
  "opened_by (FxActivated act) = [act_scope act]" | "opened_by _ = []"

fun closed_by :: "conn_effect \<Rightarrow> nat list" where
  "closed_by (FxScopeClosed s) = [s]" | "closed_by _ = []"

fun scans_by :: "conn_effect \<Rightarrow> nat" where
  "scans_by FxScan = 1" | "scans_by _ = 0"

fun phases_by :: "conn_effect \<Rightarrow> nat" where
  "phases_by (FxProgress _) = 1" | "phases_by _ = 0"

definition created :: "conn_effect list \<Rightarrow> string list" where "created fx = concat (map created_by fx)"
definition delete_requested :: "conn_effect list \<Rightarrow> string list" where "delete_requested fx = concat (map delete_requested_by fx)"
definition opened :: "conn_effect list \<Rightarrow> nat list" where "opened fx = concat (map opened_by fx)"
definition closed :: "conn_effect list \<Rightarrow> nat list" where "closed fx = concat (map closed_by fx)"
definition scans :: "conn_effect list \<Rightarrow> nat" where "scans fx = sum_list (map scans_by fx)"
definition phases :: "conn_effect list \<Rightarrow> nat" where "phases fx = sum_list (map phases_by fx)"

lemmas account_defs = created_def delete_requested_def opened_def closed_def scans_def phases_def

lemma account_append [simp]:
  "created (xs @ ys) = created xs @ created ys" "delete_requested (xs @ ys) = delete_requested xs @ delete_requested ys"
  "opened (xs @ ys) = opened xs @ opened ys" "closed (xs @ ys) = closed xs @ closed ys"
  "scans (xs @ ys) = scans xs + scans ys" "phases (xs @ ys) = phases xs + phases ys"
  by (simp_all add: account_defs)

lemma account_Cons [simp]:
  "created (x # ys) = created_by x @ created ys" "delete_requested (x # ys) = delete_requested_by x @ delete_requested ys"
  "opened (x # ys) = opened_by x @ opened ys" "closed (x # ys) = closed_by x @ closed ys"
  "scans (x # ys) = scans_by x + scans ys" "phases (x # ys) = phases_by x + phases ys"
  "created [] = []" "delete_requested [] = []" "opened [] = []" "closed [] = []" "scans [] = 0" "phases [] = 0"
  by (simp_all add: account_defs)

text \<open>The books of a machine in a state, and when its run is over.\<close>

definition books :: "machine \<Rightarrow> bool" where
  "books m \<longleftrightarrow> delete_requested (mc_effects m) = [] \<and> closed (mc_effects m) = [] \<and>
     opened (mc_effects m) = (case mc_activation_scope m of None \<Rightarrow> [] | Some s \<Rightarrow> [s]) \<and>
     created (mc_effects m) = (case mc_created_connection m of None \<Rightarrow> [] | Some c \<Rightarrow> [c]) \<and>
     scans (mc_effects m) = (if mc_rescanned m then 1 else 0)"

definition idle :: "machine \<Rightarrow> bool" where
  "idle m \<longleftrightarrow> books m \<and> mc_activation_scope m = None \<and> mc_created_connection m = None"

definition state_ok :: "connection_state \<Rightarrow> machine \<Rightarrow> bool" where
  "state_ok state m \<longleftrightarrow>
     (case state of Verify KindSaved \<Rightarrow> books m \<and> mc_created_connection m = None
        | Verify KindCreated \<Rightarrow> books m | Rescan \<Rightarrow> idle m \<and> \<not> mc_rescanned m | _ \<Rightarrow> idle m)"

definition settled :: "machine \<Rightarrow> bool" where
  "settled m \<longleftrightarrow> delete_requested (mc_effects m) = [] \<and> opened (mc_effects m) = closed (mc_effects m) \<and>
     mc_activation_scope m = None \<and> mc_created_connection m = None \<and>
     length (created (mc_effects m)) \<le> 1 \<and> scans (mc_effects m) = (if mc_rescanned m then 1 else 0)"

lemma state_ok_books: "state_ok state m \<Longrightarrow> books m"
  by (auto simp: state_ok_def idle_def split: connection_state.splits profile_kind.splits)

lemma books_frame [simp]:
  "books (tick m) = books m" "idle (tick m) = idle m"
  "books (emit [FxProgress p] m) = books m" "idle (emit [FxProgress p] m) = idle m"
  by (simp_all add: books_def idle_def)

lemma announce_frame:
  assumes "announce env state m = (m', r)"
  shows "state_ok s m' = state_ok s m" "books m' = books m"
    "phases (mc_effects m') \<le> Suc (phases (mc_effects m))"
  using assms
  by (auto simp: announce_def Let_def state_ok_def split: if_splits connection_state.splits profile_kind.splits)

lemma step_phases: "conn_step env a state m = (m', r) \<Longrightarrow> phases (mc_effects m') = phases (mc_effects m)"
  by (cases state)
    (auto simp: step_defs Let_def close_scope_def split: if_splits sum.splits option.splits prod.splits profile_kind.splits)

lemma books_activated:
  assumes "idle m"
  shows "books (emit [FxActivated act] (m\<lparr>mc_activation_path := p, mc_activation_scope := Some (act_scope act)\<rparr>))"
    "books (emit [FxCreated c, FxActivated act]
       (m\<lparr>mc_created_connection := Some c, mc_activation_path := p, mc_activation_scope := Some (act_scope act)\<rparr>))"
  using assms by (simp_all add: idle_def books_def)

lemma idle_scanned:
  "idle m \<Longrightarrow> \<not> mc_rescanned m \<Longrightarrow> idle (emit [FxScan] (m\<lparr>mc_rescanned := True\<rparr>))"
  by (simp add: idle_def books_def)

lemma idle_tick: "idle m \<Longrightarrow> idle (tick m)" by simp

lemma step_next_ok:
  assumes "conn_step env a state m = (m', Inr (Next state'))" and "state_ok state m"
  shows "state_ok state' m'"
proof (cases state)
  case AlreadyActive
  with assms show ?thesis by (auto simp: conn_step_def check_already_active_def state_ok_def split: if_splits)
next
  case SavedProfile
  with assms show ?thesis
    using books_activated(1) [OF idle_tick, of m]
    by (auto simp: conn_step_def activate_saved_profile_def state_ok_def idle_def split: sum.splits option.splits)
next
  case CreateProfile
  with assms show ?thesis
    using books_activated(2) [OF idle_tick, of m]
    by (auto simp: conn_step_def create_profile_def target_visibility_def should_rescan_def state_ok_def
        split: sum.splits option.splits if_splits prod.splits)
next
  case Rescan
  with assms show ?thesis
    using idle_scanned [of "tick m"] by (auto simp: conn_step_def rescan_def state_ok_def Let_def split: sum.splits)
next
  case (Verify k)
  with assms show ?thesis by (auto simp: conn_step_def verify_def Let_def split: sum.splits)
qed

lemma step_error_ok:
  assumes "conn_step env a state m = (m', Inl e)" and "state_ok state m"
  shows "books m'"
proof (cases "state = Rescan")
  case True
  with assms show ?thesis
    using idle_scanned [of "tick m"] by (auto simp: conn_step_def rescan_def state_ok_def idle_def Let_def split: sum.splits)
next
  case False
  with assms(1) have "m' \<in> {tick m, tick (tick m)}"
    by (cases state) (auto simp: step_defs Let_def split: if_splits sum.splits option.splits prod.splits)
  with state_ok_books [OF assms(2)] show ?thesis by auto
qed

lemma settled_closed:
  assumes "books m"
  shows "settled ((close_scope m)\<lparr>mc_created_connection := None\<rparr>)"
  using assms by (cases "mc_activation_scope m"; cases "mc_created_connection m")
    (simp_all add: books_def settled_def close_scope_def)

lemma settled_saved:
  assumes "books m" "mc_created_connection m = None"
  shows "settled (close_scope m)"
  using assms by (cases "mc_activation_scope m") (simp_all add: books_def settled_def close_scope_def)

lemma step_connected_ok:
  assumes "conn_step env a state m = (m', Inr (Connected out))" and "state_ok state m"
  shows "settled m'"
proof (cases state)
  case AlreadyActive
  with assms show ?thesis
    by (auto simp: conn_step_def check_already_active_def state_ok_def idle_def books_def settled_def split: if_splits)
next
  case (Verify k)
  with assms show ?thesis
    using settled_closed [of "tick m"] settled_saved [of "tick m"]
    by (cases k) (auto simp: conn_step_def verify_def state_ok_def Let_def split: sum.splits)
qed (use assms in \<open>auto simp: step_defs Let_def split: sum.splits option.splits if_splits prod.splits\<close>)

text \<open>One iteration of the loop, unfolded.\<close>

lemma run_states_cases:
  assumes "run_states env a state m = (m', r)"
  obtains (stopped) e where "announce env state m = (m', Inl e)" "r = Inl e"
  | (failed) m1 e where "announce env state m = (m1, Inr ())" "conn_step env a state m1 = (m', Inl e)" "r = Inl e"
  | (connected) m1 out where "announce env state m = (m1, Inr ())"
      "conn_step env a state m1 = (m', Inr (Connected out))" "r = Inr out"
  | (moved) m1 m2 state' where "announce env state m = (m1, Inr ())"
      "conn_step env a state m1 = (m2, Inr (Next state'))" "run_states env a state' m2 = (m', r)"
  using assms
  by (subst (asm) run_states.simps) (auto split: prod.splits sum.splits state_transition.splits)

lemma run_states_ok:
  assumes "run_states env a state m = (m', r)" and "state_ok state m"
  shows "(case r of Inl e \<Rightarrow> books m' | Inr out \<Rightarrow> settled m') \<and>
    phases (mc_effects m') \<le> phases (mc_effects m) + Suc (state_rank state (mc_rescanned m))"
  using assms
proof (induction "state_rank state (mc_rescanned m)" arbitrary: state m rule: less_induct)
  case less
  from less.prems(1) show ?case
  proof (cases rule: run_states_cases)
    case (stopped e)
    then show ?thesis using announce_frame [OF stopped(1)] less.prems(2) state_ok_books by auto
  next
    case (failed m1 e)
    then show ?thesis
      using announce_frame [OF failed(1)] step_error_ok [OF failed(2)] step_phases [OF failed(2)] less.prems(2) by auto
  next
    case (connected m1 out)
    then show ?thesis
      using announce_frame [OF connected(1)] step_connected_ok [OF connected(2)] step_phases [OF connected(2)]
        less.prems(2) by auto
  next
    case (moved m1 m2 state')
    have rank: "state_rank state' (mc_rescanned m2) < state_rank state (mc_rescanned m)"
      using step_rank [OF moved(2)] announce_rescanned [OF moved(1)] by simp
    have "state_ok state' m2"
      using step_next_ok [OF moved(2)] announce_frame [OF moved(1)] less.prems(2) by simp
    from less.hyps [OF rank moved(3) this] rank show ?thesis
      using announce_frame(3) [OF moved(1)] step_phases [OF moved(2)] by auto
  qed
qed

lemma find_domain_of:
  "find_domain_error cancelled_connect_error \<noteq> None"
  "find_domain_error (connect_failure_from_error r e) \<noteq> None"
  by (simp_all add: cancelled_connect_error_def connect_failure_from_error_def connect_from_error_def Let_def)

definition reported_connected :: "conn_effect list \<Rightarrow> bool" where
  "reported_connected fx \<longleftrightarrow> (\<exists>message. FxWriteStatus ''connected'' message \<in> set fx)"

text \<open>The effects of an attempt, checked in order: a deletion is requested only once no prompt is open.\<close>

fun prompts_first :: "nat list \<Rightarrow> conn_effect list \<Rightarrow> bool" where
  "prompts_first open_scopes [] = True"
| "prompts_first open_scopes (FxActivated act # fx) = prompts_first (act_scope act # open_scopes) fx"
| "prompts_first open_scopes (FxScopeClosed s # fx) = prompts_first (remove1 s open_scopes) fx"
| "prompts_first open_scopes (FxDelete c answer # fx) = (open_scopes = [] \<and> prompts_first open_scopes fx)"
| "prompts_first open_scopes (_ # fx) = prompts_first open_scopes fx"

lemma prompts_first_prefix:
  "delete_requested fx = [] \<Longrightarrow> closed fx = [] \<Longrightarrow>
     prompts_first open_scopes (fx @ rest) = prompts_first (rev (opened fx) @ open_scopes) rest"
  by (induction open_scopes fx rule: prompts_first.induct) auto

lemma prompts_first_no_delete: "delete_requested fx = [] \<Longrightarrow> prompts_first open_scopes fx"
  by (induction open_scopes fx rule: prompts_first.induct) auto

text \<open>The failure path after the run.\<close>

definition after_failure :: "conn_env \<Rightarrow> machine \<Rightarrow> machine" where
  "after_failure env m = cleanup_created_connection env (close_scope m)"

lemma after_failure_books:
  assumes "books m"
  shows "opened (mc_effects (after_failure env m)) = closed (mc_effects (after_failure env m)) \<and>
    delete_requested (mc_effects (after_failure env m)) = created (mc_effects (after_failure env m)) \<and>
    length (created (mc_effects (after_failure env m))) \<le> 1 \<and> scans (mc_effects (after_failure env m)) \<le> 1 \<and>
    phases (mc_effects (after_failure env m)) = phases (mc_effects m) \<and>
    prompts_first [] (mc_effects (after_failure env m))"
  using assms prompts_first_prefix [of "mc_effects m" "[]"] prompts_first_no_delete [of "mc_effects m" "[]"]
  by (cases "mc_activation_scope m"; cases "mc_created_connection m")
    (simp_all add: after_failure_def cleanup_created_connection_def close_scope_def books_def)

definition attempt_accounted :: "machine \<times> (anyhow_error + connect_result) \<Rightarrow> bool" where
  "attempt_accounted mr \<longleftrightarrow>
     (case mr of (m, r) \<Rightarrow>
        let fx = mc_effects m
        in opened fx = closed fx \<and> length (created fx) \<le> 1 \<and> scans fx \<le> 1 \<and> phases fx \<le> 7 \<and>
           prompts_first [] fx \<and>
           (case r of
              Inr result \<Rightarrow> delete_requested fx = [] \<and> reported_connected fx
            | Inl e \<Rightarrow> find_domain_error e \<noteq> None \<and>
                (delete_requested fx = created fx \<or> (reported_connected fx \<and> delete_requested fx = [] \<and> e = cancelled_connect_error))))"

lemma attempt_accounted_failure:
  assumes "books m" and "phases (mc_effects m) \<le> 7"
  shows "attempt_accounted (finish_failure a e publish (after_failure env m))"
proof -
  let ?m = "after_failure env m"
  let ?fx = "(if publish then publish_final_connect_failure (at_target a) (ensure_domain OpConnect e) else [])
      @ record_connect_attempt (failed_result (at_target a) (ensure_domain OpConnect e))"
  have quiet: "created ?fx = []" "delete_requested ?fx = []" "opened ?fx = []" "closed ?fx = []" "scans ?fx = 0" "phases ?fx = 0"
    by (auto simp: publish_final_connect_failure_def record_connect_attempt_def)
  have "prompts_first open_scopes (fx @ ?fx) = prompts_first open_scopes fx" for fx open_scopes
    by (induction open_scopes fx rule: prompts_first.induct)
      (auto simp: publish_final_connect_failure_def record_connect_attempt_def)
  with after_failure_books [OF assms(1)] assms(2) quiet show ?thesis
    unfolding attempt_accounted_def finish_failure_def Let_def prod.case sum.case machine_frame account_append
    by simp
qed

lemma attempt_accounted_success:
  assumes "settled m" and "phases (mc_effects m) \<le> 7"
  shows "attempt_accounted (finish_success env a out m)"
  using assms
  by (auto simp: attempt_accounted_def finish_success_def Let_def settled_def reported_connected_def
      record_connect_attempt_def find_domain_of prompts_first_no_delete)

lemma connect_target_accounted: "attempt_accounted (connect_target env a publish_failure)"
proof (cases "ce_cancelled env 0 \<or> target_validate (at_target a) \<noteq> Inr ()")
  case True
  then show ?thesis
    by (auto simp: connect_target_def machine_new_def Let_def attempt_accounted_def find_domain_of split: sum.splits)
next
  case False
  let ?m0 = "emit [FxWriteStatus ''connecting''
      (''Connecting to '' @ target_name (at_target a) @ [CHR 0xE2, CHR 0x80, CHR 0xA6])] (tick machine_new)"
  obtain m r where run: "run_states env a AlreadyActive ?m0 = (m, r)" by fastforce
  have ok: "state_ok AlreadyActive ?m0" by (simp add: state_ok_def idle_def books_def machine_new_def)
  have bound: "phases (mc_effects m) \<le> 7"
    using run_states_ok [OF run ok] by (simp add: machine_new_def)
  have "connect_target env a publish_failure =
      (case r of Inr out \<Rightarrow> finish_success env a out m | Inl e \<Rightarrow> finish_failure a e publish_failure (after_failure env m))"
    using False run by (simp add: connect_target_def machine_new_def Let_def after_failure_def split: sum.splits)
  then show ?thesis
    using run_states_ok [OF run ok] bound attempt_accounted_failure attempt_accounted_success
    by (auto split: sum.splits)
qed

text \<open>
  C2. A connection attempt always ends and accounts for what it did. It reports at most seven phases
  and scans at most once. It creates at most one profile. If it fails, it has requested the deletion of
  exactly the profile it created, with one exception: a cancellation that arrives after the connection
  was verified and announced keeps the profile and requests nothing. If it succeeds, no deletion was
  requested. (A deletion that NetworkManager refuses is only logged; the attempt then fails all the
  same.) Every credential prompt that was opened has been retired by the end, and before any deletion
  is requested. Every failure is a typed error.
\<close>

theorem connection_attempt_accounted: "attempt_accounted (connect_target env a publish_failure)"
  by (rule connect_target_accounted)

section \<open>What a result means\<close>

definition shortcut :: "conn_env \<Rightarrow> attempt \<Rightarrow> machine \<Rightarrow> bool" where
  "shortcut env a m \<longleftrightarrow> at_password a = None \<and> wct_enterprise (at_target a) = None \<and>
     (\<exists>n < mc_clock m. ce_active_target_matches env n = Inr True)"

definition verified :: "conn_env \<Rightarrow> machine \<Rightarrow> bool" where
  "verified env m \<longleftrightarrow> (\<exists>act. \<exists>n < mc_clock m. FxActivated act \<in> set (mc_effects m) \<and>
     ce_wait env n (Some (act_active_path act)) = Inr ())"

definition path_known :: "connection_state \<Rightarrow> machine \<Rightarrow> bool" where
  "path_known state m \<longleftrightarrow>
     (case state of
        Verify _ \<Rightarrow> (\<exists>act. FxActivated act \<in> set (mc_effects m) \<and> mc_activation_path m = Some (act_active_path act))
      | _ \<Rightarrow> True) \<and> (mc_rescanned m \<longrightarrow> FxScan \<in> set (mc_effects m))"

lemma announce_path:
  "announce env state m = (m', r) \<Longrightarrow> path_known s m \<Longrightarrow> path_known s m'"
  by (auto simp: announce_def Let_def path_known_def split: if_splits connection_state.splits)

lemma step_path:
  "conn_step env a state m = (m', Inr (Next state')) \<Longrightarrow> path_known state m \<Longrightarrow> path_known state' m'"
  by (cases state)
    (auto simp: step_defs Let_def path_known_def split: if_splits sum.splits option.splits prod.splits)

lemma close_scope_effects: "set (mc_effects m) \<subseteq> set (mc_effects (close_scope m))"
  by (auto simp: close_scope_def split: option.splits)

lemma step_connected_path:
  assumes "conn_step env a state m = (m', Inr (Connected out))" and "path_known state m"
  shows "if ao_path out = EpAlreadyActive then shortcut env a m' else verified env m'"
proof (cases state)
  case AlreadyActive
  with assms(1) show ?thesis by (auto simp: conn_step_def check_already_active_def shortcut_def split: if_splits)
next
  case (Verify k)
  then obtain act where act: "FxActivated act \<in> set (mc_effects m)" "mc_activation_path m = Some (act_active_path act)"
    using assms(2) by (auto simp: path_known_def)
  have "ce_wait env (mc_clock m) (Some (act_active_path act)) = Inr ()" "ao_path out = EpDbus"
    "mc_effects m' = mc_effects (close_scope (tick m))" "mc_clock m < mc_clock m'"
    using assms(1) Verify act(2)
    by (cases k; auto simp: conn_step_def verify_def Let_def close_scope_def split: sum.splits option.splits)+
  then show ?thesis
    using act(1) close_scope_effects [of "tick m"] unfolding verified_def by auto
qed (use assms(1) in \<open>auto simp: step_defs Let_def split: sum.splits option.splits if_splits prod.splits\<close>)

text \<open>Later machines know everything that earlier ones know.\<close>

definition grows :: "machine \<Rightarrow> machine \<Rightarrow> bool" where
  "grows m m' \<longleftrightarrow> set (mc_effects m) \<subseteq> set (mc_effects m') \<and> mc_clock m \<le> mc_clock m'"

text \<open>
  An error that the attempt hands on: the callback's, that of a call to NetworkManager which the
  attempt made, the scan's, or the one with which the wait for an activation of this attempt ended.
\<close>

definition passed_on :: "conn_env \<Rightarrow> machine \<Rightarrow> anyhow_error \<Rightarrow> bool" where
  "passed_on env m e \<longleftrightarrow> (\<exists>n < mc_clock m.
     (ce_cancelled env n \<and> e = cancelled_connect_error) \<or>
     (\<exists>ph. FxProgress ph \<in> set (mc_effects m) \<and> ce_progress env n ph = Inl e) \<or>
     ce_activate_saved env n = Inl e \<or> ce_add_and_activate env n = Inl e \<or>
     (FxScan \<in> set (mc_effects m) \<and> ce_scan env n = Inl e) \<or>
     (\<exists>act. FxActivated act \<in> set (mc_effects m) \<and> ce_wait env n (Some (act_active_path act)) = Inl e))"

text \<open>The engine's own verdict, when there is no way to activate the target.\<close>

definition own_verdict :: "conn_env \<Rightarrow> attempt \<Rightarrow> machine \<Rightarrow> anyhow_error \<Rightarrow> bool" where
  "own_verdict env a m e \<longleftrightarrow>
     (\<exists>n < mc_clock m. ce_add_and_activate env n = Inr None) \<and>
     (if \<not> wct_hidden (at_target a) \<and> (\<exists>n < mc_clock m. ce_target_visible env n = Inr True)
         \<and> e = unavailable_activation_error a (Some True) then True
      else e = unavailable_activation_error a (Some False) \<and>
        (wct_hidden (at_target a) \<or> FxScan \<in> set (mc_effects m)))"

lemma grows_trans: "grows m1 m2 \<Longrightarrow> grows m2 m3 \<Longrightarrow> grows m1 m3"
  by (auto simp: grows_def)

lemma grows_mono:
  assumes "grows m m'"
  shows "passed_on env m e \<Longrightarrow> passed_on env m' e" "own_verdict env a m e \<Longrightarrow> own_verdict env a m' e"
    "verified env m \<Longrightarrow> verified env m'" "shortcut env a m \<Longrightarrow> shortcut env a m'"
proof -
  note g = assms [unfolded grows_def]
  show "passed_on env m' e" if "passed_on env m e"
    using that g unfolding passed_on_def by (meson order_less_le_trans subsetD)
  show "own_verdict env a m' e" if "own_verdict env a m e"
    using that g unfolding own_verdict_def by (auto dest: order_less_le_trans split: if_splits)
  show "verified env m'" if "verified env m"
    using that g unfolding verified_def by (meson order_less_le_trans subsetD)
  show "shortcut env a m'" if "shortcut env a m"
    using that g unfolding shortcut_def by (meson order_less_le_trans)
qed

lemma unavailable_error_value:
  "unavailable_activation_error a v =
     unavailable_activation_error a (Some (\<not> wct_hidden (at_target a) \<and> v = Some True))"
  by (simp add: unavailable_activation_error_def)

lemma step_error_path:
  assumes "conn_step env a state m = (m', Inl e)" and "path_known state m"
  shows "passed_on env m' e \<or> own_verdict env a m' e"
proof (cases "state = CreateProfile \<and> ce_add_and_activate env (mc_clock m) = Inr None")
  case True
  obtain m1 v where v: "target_visibility env a (tick m) = (m1, v)" by fastforce
  have frame: "mc_rescanned m1 = mc_rescanned m" "mc_effects m1 = mc_effects m" "mc_clock m < mc_clock m1"
    "v = Some True \<Longrightarrow> \<not> wct_hidden (at_target a) \<and> (\<exists>n < mc_clock m1. ce_target_visible env n = Inr True)"
    using v by (auto simp: target_visibility_def split: if_splits sum.splits)
  have e: "e = unavailable_activation_error a v" "m' = m1" "\<not> should_rescan a m1 v"
    using assms(1) True v by (auto simp: conn_step_def create_profile_def split: if_splits)
  have none: "\<exists>n < mc_clock m'. ce_add_and_activate env n = Inr None" using True frame(3) e(2) by blast
  show ?thesis
  proof (cases "v = Some True")
    case True
    with frame(4) none e(1,2) show ?thesis by (simp add: own_verdict_def)
  next
    case False
    then have "e = unavailable_activation_error a (Some False)" using e(1) unavailable_error_value [of a v] by simp
    moreover have "wct_hidden (at_target a) \<or> FxScan \<in> set (mc_effects m')"
      using False e(2,3) frame(1,2) assms(2) by (auto simp: should_rescan_def path_known_def)
    ultimately show ?thesis using none by (simp add: own_verdict_def)
  qed
next
  case False
  have "passed_on env m' e"
  proof (cases state)
    case (Verify k)
    then obtain act where "FxActivated act \<in> set (mc_effects m)" "mc_activation_path m = Some (act_active_path act)"
      using assms(2) by (auto simp: path_known_def)
    with assms(1) Verify show ?thesis
      by (auto simp: conn_step_def verify_def Let_def passed_on_def intro!: exI [of _ "mc_clock m"] split: sum.splits)
  qed (use assms(1) False in \<open>auto simp: step_defs Let_def passed_on_def intro!: exI [of _ "mc_clock m"]
      split: if_splits sum.splits option.splits prod.splits\<close>)
  then show ?thesis ..
qed

lemma announce_error: "announce env state m = (m', Inl e) \<Longrightarrow> passed_on env m' e"
  unfolding passed_on_def announce_def Let_def
  by (cases "ce_cancelled env (mc_clock m)")
    (rule exI [of _ "mc_clock m"], auto, rule exI [of _ "Suc (mc_clock m)"], auto)

lemma run_states_path:
  assumes "run_states env a state m = (m', r)" and "path_known state m"
  shows "case r of
      Inl e \<Rightarrow> passed_on env m' e \<or> own_verdict env a m' e
    | Inr out \<Rightarrow> if ao_path out = EpAlreadyActive then shortcut env a m' else verified env m'"
  using assms
proof (induction "state_rank state (mc_rescanned m)" arbitrary: state m rule: less_induct)
  case less
  from less.prems(1) show ?case
  proof (cases rule: run_states_cases)
    case (stopped e)
    then show ?thesis using announce_error [OF stopped(1)] by simp
  next
    case (failed m1 e)
    then show ?thesis using step_error_path [OF failed(2)] announce_path [OF failed(1) less.prems(2)] by simp
  next
    case (connected m1 out)
    then show ?thesis
      using step_connected_path [OF connected(2)] announce_path [OF connected(1) less.prems(2)] by simp
  next
    case (moved m1 m2 state')
    have rank: "state_rank state' (mc_rescanned m2) < state_rank state (mc_rescanned m)"
      using step_rank [OF moved(2)] announce_rescanned [OF moved(1)] by simp
    show ?thesis
      using less.hyps [OF rank moved(3)] step_path [OF moved(2)] announce_path [OF moved(1) less.prems(2)] by simp
  qed
qed

lemma after_failure_grows: "grows m (after_failure env m)"
  by (auto simp: grows_def after_failure_def close_scope_def cleanup_created_connection_def split: option.splits)

lemma finish_success_result:
  assumes "finish_success env a out m = (m', r)"
  shows "grows m m' \<and>
    ((r = Inl cancelled_connect_error \<and> (\<exists>n < mc_clock m'. ce_cancelled env n)) \<or>
     (\<exists>c. r = Inr (result_connected (target_name (at_target a)) (ao_message out) (ao_path out) c)))"
  using assms by (auto simp: finish_success_def Let_def grows_def split: if_splits)

lemma finish_failure_result:
  "grows m (fst (finish_failure a e p m))"
  "snd (finish_failure a e p m) = Inl (ensure_domain OpConnect e)"
  by (auto simp: finish_failure_def Let_def grows_def)

text \<open>
  C3. The answer of a connection attempt is justified by what it was told before it answered. Success
  through the shortcut is reported only when the target was found active and no new credentials were
  supplied; every other success names an activation that this attempt requested and whose
  verification succeeded. A failure is a cancellation that was requested, an invalid target, or the
  normalised form of an error: either one handed on from the progress callback, from a call to
  NetworkManager, from the scan or from the wait for an activation of this attempt (whatever its
  reason, also a network that the device did not find), or the engine's own verdict, which it gives only
  when no activation path was offered. That verdict is an unsupported network only when the access
  point of a visible target was seen, and otherwise a network not found, only for a hidden target or
  after the attempt has rescanned.
\<close>

theorem connection_result_justified:
  assumes "connect_target env a publish_failure = (m, r)"
  shows "case r of
      Inr result \<Rightarrow> cr_status result = ''connected'' \<and> cr_ssid result = target_name (at_target a) \<and>
        (if cr_path result = Some EpAlreadyActive then shortcut env a m
         else cr_path result = Some EpDbus \<and> verified env m)
    | Inl e \<Rightarrow> (e = cancelled_connect_error \<and> (\<exists>n < mc_clock m. ce_cancelled env n)) \<or>
        (\<exists>v. target_validate (at_target a) = Inl v \<and> e = connect_failure_from_error CfrValidationError v) \<or>
        (\<exists>e'. e = ensure_domain OpConnect e' \<and> (passed_on env m e' \<or> own_verdict env a m e'))"
proof (cases "ce_cancelled env 0 \<or> target_validate (at_target a) \<noteq> Inr ()")
  case True
  then show ?thesis
    using assms by (auto simp: connect_target_def machine_new_def Let_def split: sum.splits if_splits)
next
  case False
  let ?m0 = "emit [FxWriteStatus ''connecting''
      (''Connecting to '' @ target_name (at_target a) @ [CHR 0xE2, CHR 0x80, CHR 0xA6])] (tick machine_new)"
  obtain m1 r1 where run: "run_states env a AlreadyActive ?m0 = (m1, r1)" by fastforce
  have path: "path_known AlreadyActive ?m0" by (simp add: path_known_def machine_new_def)
  have result: "(m, r) =
      (case r1 of Inr out \<Rightarrow> finish_success env a out m1 | Inl e \<Rightarrow> finish_failure a e publish_failure (after_failure env m1))"
    using False run assms by (simp add: connect_target_def machine_new_def Let_def after_failure_def split: sum.splits)
  show ?thesis
  proof (cases r1)
    case (Inl e)
    then have just: "passed_on env m1 e \<or> own_verdict env a m1 e" using run_states_path [OF run path] by simp
    have m: "m = fst (finish_failure a e publish_failure (after_failure env m1))" "r = Inl (ensure_domain OpConnect e)"
      using result Inl finish_failure_result(2) [of a e publish_failure "after_failure env m1"] by (auto simp: prod_eq_iff)
    have "grows m1 m" unfolding m(1) by (rule grows_trans [OF after_failure_grows finish_failure_result(1)])
    with just m(2) show ?thesis using grows_mono(1,2) by fastforce
  next
    case (Inr out)
    have just: "if ao_path out = EpAlreadyActive then shortcut env a m1 else verified env m1"
      using run_states_path [OF run path] Inr by simp
    have "finish_success env a out m1 = (m, r)" using result Inr by simp
    from finish_success_result [OF this] just show ?thesis
      using grows_mono(3,4) [of m1 m]
      by (cases "ao_path out") (auto simp: result_connected_def)
  qed
qed

definition quiet_conn_env :: conn_env where
  "quiet_conn_env = \<lparr>ce_cancelled = (\<lambda>_. False), ce_progress = (\<lambda>_ _. Inr ()),
     ce_active_target_matches = (\<lambda>_. Inr False), ce_activate_saved = (\<lambda>_. Inr None),
     ce_add_and_activate = (\<lambda>n. Inr (Some \<lparr>act_profile_path = ''/p'', act_active_path = ''/a'', act_scope = 0\<rparr>)),
     ce_target_visible = (\<lambda>_. Inr True), ce_scan = (\<lambda>_. Inr ()), ce_wait = (\<lambda>_ _. Inr ()), ce_delete = (\<lambda>_ _. Inr ()),
     ce_status_connectivity = (\<lambda>_. None), ce_connectivity_snapshot = (\<lambda>_. Inl [])\<rparr>"

definition attempt_sample :: attempt where
  "attempt_sample = \<lparr>at_target = target_sample, at_password = Some ''password'', at_wep_key_type = None\<rparr>"

theorem connection_result_justified_witness:
  "\<exists>m result. connect_target quiet_conn_env attempt_sample True = (m, Inr result) \<and>
     cr_path result = Some EpDbus \<and> verified quiet_conn_env m"
proof -
  obtain m r where mr: "connect_target quiet_conn_env attempt_sample True = (m, r)" by fastforce
  have "case snd (connect_target quiet_conn_env attempt_sample True) of
      Inl _ \<Rightarrow> False | Inr result \<Rightarrow> cr_path result = Some EpDbus" by code_simp
  then obtain result where r: "r = Inr result" "cr_path result = Some EpDbus" by (auto simp: mr split: sum.splits)
  from connection_result_justified [OF mr] r mr show ?thesis by auto
qed

end
