(* ===== verification/Connect_Request.thy ===== *)
theory Connect_Request
  imports Connection
begin

text \<open>
  Connect requests of the application layer (\<open>src/application.rs\<close>): the candidates of a selected
  network, their order and the restrictions of a saved profile, and the execution of a request, which
  tries one candidate and at most one alternative and reports every phase as an event. What the
  engine does for a candidate is \<open>connect_target\<close>; the answers of NetworkManager, of the event
  sink and of the clock are the environment.
\<close>

section \<open>Requests\<close>

datatype wifi_band = BandAuto | Band2_4 | Band5 | Band6

definition from_frequency_label :: "string \<Rightarrow> wifi_band option" where
  "from_frequency_label value =
     (if value = ''2.4 GHz'' then Some Band2_4 else if value = ''5 GHz'' then Some Band5
      else if value = ''6 GHz'' then Some Band6 else None)"

record connect_candidate_info =
  cci_attempt :: nat
  cci_total :: nat
  cci_bssid :: "string option"
  cci_band :: "string option"
  cci_channel :: "u32 option"
  cci_strength :: "u8 option"

record connect_candidate =
  cc_target :: wifi_connect_target
  cc_band :: "string option"
  cc_channel :: "u32 option"
  cc_strength :: "u8 option"

definition candidate_from_access_point :: "wifi_connect_target \<Rightarrow> access_point \<Rightarrow> connect_candidate" where
  "candidate_from_access_point target ap =
     \<lparr>cc_target = target, cc_band = (if ap_band ap = [] then None else Some (ap_band ap)),
      cc_channel = (if ap_channel ap = 0 then None else Some (ap_channel ap)),
      cc_strength = Some (ap_strength ap)\<rparr>"

definition candidate_from_target :: "wifi_connect_target \<Rightarrow> connect_candidate" where
  "candidate_from_target target =
     \<lparr>cc_target = target, cc_band = None, cc_channel = None, cc_strength = None\<rparr>"

definition candidate_info :: "connect_candidate \<Rightarrow> nat \<Rightarrow> nat \<Rightarrow> connect_candidate_info" where
  "candidate_info c attempt_no total_n =
     \<lparr>cci_attempt = attempt_no, cci_total = total_n, cci_bssid = wct_bssid (cc_target c),
      cci_band = cc_band c, cci_channel = cc_channel c, cci_strength = cc_strength c\<rparr>"

record connect_target_identity =
  cti_network_key :: "string option"
  cti_ssid :: string
  cti_ssid_bytes :: bytes
  cti_ssid_hex :: string
  cti_device_iface :: "string option"
  cti_device_path :: "string option"
  cti_access_point_path :: "string option"
  cti_bssid :: "string option"

definition identity_from_target :: "wifi_connect_target \<Rightarrow> string option \<Rightarrow> connect_target_identity" where
  "identity_from_target t network_key =
     \<lparr>cti_network_key = network_key, cti_ssid = target_name t, cti_ssid_bytes = ssid_exact (wct_ssid t),
      cti_ssid_hex = ssid_hex (ssid_exact (wct_ssid t)), cti_device_iface = wct_ifname t,
      cti_device_path = wct_device_path t, cti_access_point_path = wct_ap_path t, cti_bssid = wct_bssid t\<rparr>"

record connect_request =
  cq_network_key :: "string option"
  cq_password :: "string option"
  cq_wep_key_type :: "wep_key_type option"
  cq_candidate :: connect_candidate
  cq_alternatives :: "connect_candidate list"

definition request_single ::
    "wifi_connect_target \<Rightarrow> string option \<Rightarrow> wep_key_type option \<Rightarrow> connect_request" where
  "request_single target password key_type =
     \<lparr>cq_network_key = None, cq_password = password, cq_wep_key_type = key_type,
      cq_candidate = candidate_from_target target, cq_alternatives = []\<rparr>"

definition request_identity :: "connect_request \<Rightarrow> connect_target_identity" where
  "request_identity r = identity_from_target (cc_target (cq_candidate r)) (cq_network_key r)"

definition request_validate :: "connect_request \<Rightarrow> anyhow_error + unit" where
  "request_validate r =
     (case target_validate (cc_target (cq_candidate r)) of
        Inr u \<Rightarrow> Inr u
      | Inl e \<Rightarrow> Inl (into_anyhow (with_cause (validation_error OpConnect (anyhow_display e)) e)))"

section \<open>Candidates\<close>

definition alternative_key :: "access_point \<Rightarrow> access_point \<Rightarrow> bool \<times> int \<times> string" where
  "alternative_key primary ap = (ap_band ap = ap_band primary, - uint (ap_strength ap), ap_bssid ap)"

definition is_alternative :: "access_point \<Rightarrow> access_point \<Rightarrow> bool" where
  "is_alternative primary ap \<longleftrightarrow>
     ap_path ap \<noteq> ap_path primary \<or> \<not> eq_ignore_ascii_case (ap_bssid ap) (ap_bssid primary)"

definition ranked_alternatives :: "access_point \<Rightarrow> access_point list \<Rightarrow> access_point list" where
  "ranked_alternatives primary aps = sort_key (alternative_key primary) (filter (is_alternative primary) aps)"

text \<open>\<open>map(f).collect::<Result<Vec<_>>>()\<close>.\<close>

fun collect_results :: "('a \<Rightarrow> 'e + 'b) \<Rightarrow> 'a list \<Rightarrow> 'e + 'b list" where
  "collect_results f [] = Inr []"
| "collect_results f (x # xs) =
     and_then (f x) (\<lambda>y. and_then (collect_results f xs) (\<lambda>ys. Inr (y # ys)))"

definition resolve_connect_candidates ::
    "(string \<Rightarrow> bool) \<Rightarrow> 'd network_entry option \<Rightarrow> string \<Rightarrow> string option \<Rightarrow>
     anyhow_error + (connect_candidate \<times> connect_candidate list)" where
  "resolve_connect_candidates object_path_ok network key enterprise_identity =
     (case network of
        None \<Rightarrow>
          if CHR ''|'' \<notin> set key
          then and_then (connect_target_for_network_key key enterprise_identity)
                 (\<lambda>t. Inr (candidate_from_target t, []))
          else Inl (into_anyhow (with_detail
                 (validation_error OpConnect
                   ''selected Wi-Fi network is no longer available; refresh the network list'')
                 ''network_key'' (JStr key)))
      | Some network \<Rightarrow>
          and_then (connect_target_for_network object_path_ok network enterprise_identity) (\<lambda>target.
          and_then (collect_results
              (\<lambda>ap. and_then (connect_target_for_network_access_point object_path_ok network ap enterprise_identity)
                      (\<lambda>t. Inr (candidate_from_access_point t ap)))
              (ranked_alternatives (ne_access_point network) (ne_access_points network)))
            (\<lambda>alternatives. Inr (candidate_from_access_point target (ne_access_point network), alternatives))))"

text \<open>The restrictions a saved profile may put on access points.\<close>

record profile_restrictions =
  pr_bssid :: "string option"
  pr_band :: wifi_band
  pr_channel :: "u32 option"

definition candidate_matches_profile_restrictions :: "connect_candidate \<Rightarrow> profile_restrictions \<Rightarrow> bool" where
  "candidate_matches_profile_restrictions c p \<longleftrightarrow>
     (case pr_bssid p of None \<Rightarrow> True
      | Some b \<Rightarrow> (case wct_bssid (cc_target c) of None \<Rightarrow> False | Some cb \<Rightarrow> eq_ignore_ascii_case cb b)) \<and>
     (pr_band p = BandAuto \<or> Option.bind (cc_band c) from_frequency_label = Some (pr_band p)) \<and>
     (case pr_channel p of None \<Rightarrow> True | Some ch \<Rightarrow> cc_channel c = Some ch)"

definition constrain_alternatives_to_saved_profile ::
    "(string \<Rightarrow> anyhow_error + profile_restrictions) \<Rightarrow> 'd network_entry \<Rightarrow> connect_candidate list \<Rightarrow>
     connect_candidate list" where
  "constrain_alternatives_to_saved_profile details network alternatives =
     (case ne_primary_profile network of
        None \<Rightarrow> alternatives
      | Some profile \<Rightarrow>
          (case details (swc_path profile) of
             Inl e \<Rightarrow> []
           | Inr p \<Rightarrow> filter (\<lambda>c. candidate_matches_profile_restrictions c p) alternatives))"

definition connect_request_for_key ::
    "(string \<Rightarrow> bool) \<Rightarrow> (string \<Rightarrow> anyhow_error + profile_restrictions) \<Rightarrow>
     (anyhow_error + 'd network_entry list) \<Rightarrow> string \<Rightarrow> string option \<Rightarrow> wep_key_type option \<Rightarrow>
     string option \<Rightarrow> anyhow_error + connect_request" where
  "connect_request_for_key object_path_ok details networks key password key_type enterprise_identity =
     operation_result OpConnect
       (and_then networks (\<lambda>ns.
        let network = List.find (\<lambda>n. ne_key n = key) ns
        in and_then (resolve_connect_candidates object_path_ok network key enterprise_identity)
             (\<lambda>(candidate, alternatives).
              let alternatives = (case network of None \<Rightarrow> alternatives
                    | Some n \<Rightarrow> constrain_alternatives_to_saved_profile details n alternatives);
                  request = \<lparr>cq_network_key = Some key, cq_password = password,
                    cq_wep_key_type = key_type, cq_candidate = candidate, cq_alternatives = alternatives\<rparr>
              in and_then (request_validate request) (\<lambda>_. Inr request))))"

section \<open>Execution\<close>

datatype connect_outcome =
    Succeeded connect_result
  | Failed connect_result error_report
  | OutcomeCancelled string

datatype connect_event =
    EvStarted string
  | EvProgress connect_phase string "connect_candidate_info option" "connect_failure_reason option"
  | EvFinished connect_phase connect_outcome
  | EvCancelled string

fun connect_phase_message :: "connect_phase \<Rightarrow> string" where
  "connect_phase_message PhStarting = ''starting Wi-Fi connection''"
| "connect_phase_message PhTryingAccessPoint = ''trying Wi-Fi access point''"
| "connect_phase_message PhCheckingActive = ''checking current Wi-Fi connection''"
| "connect_phase_message PhActivatingSavedProfile = ''activating saved NetworkManager profile''"
| "connect_phase_message PhCreatingProfile = ''creating NetworkManager Wi-Fi profile''"
| "connect_phase_message PhRescanning = ''rescanning for selected Wi-Fi network''"
| "connect_phase_message PhVerifying = ''verifying Wi-Fi activation''"
| "connect_phase_message PhRetryingAlternative = ''retrying an alternate Wi-Fi access point''"
| "connect_phase_message PhConnected = ''Wi-Fi connection succeeded''"
| "connect_phase_message PhFailed = ''Wi-Fi connection failed''"
| "connect_phase_message PhCancelled = ''Wi-Fi connection cancelled''"

definition attempt_suffix :: "connect_candidate_info \<Rightarrow> string" where
  "attempt_suffix c = '' (attempt '' @ decimal (cci_attempt c) @ ''/'' @ decimal (cci_total c) @ '')''"

definition candidate_message :: "string \<Rightarrow> connect_candidate_info \<Rightarrow> string" where
  "candidate_message action c =
     (case (cci_band c, cci_channel c) of
        (Some band, Some channel) \<Rightarrow> action @ '' '' @ band @ '' access point on channel ''
          @ decimal (unat channel) @ attempt_suffix c
      | (Some band, None) \<Rightarrow> action @ '' '' @ band @ '' access point'' @ attempt_suffix c
      | _ \<Rightarrow> action @ '' Wi-Fi access point'' @ attempt_suffix c)"

definition unwrap_or :: "'a option \<Rightarrow> 'a \<Rightarrow> 'a" where
  "unwrap_or x d = (case x of None \<Rightarrow> d | Some v \<Rightarrow> v)"

definition retry_message :: "connect_candidate_info \<Rightarrow> connect_candidate_info \<Rightarrow> connect_failure_reason \<Rightarrow> string" where
  "retry_message previous following reason =
     unwrap_or (cci_band previous) ''selected'' @ '' access point ''
     @ (case reason of
          CfrDhcpFailed \<Rightarrow> ''connected but did not receive an IP address''
        | CfrNotFound \<Rightarrow> ''became unavailable''
        | CfrTimeout \<Rightarrow> ''timed out''
        | _ \<Rightarrow> ''failed'')
     @ ''; trying '' @ unwrap_or (cci_band following) ''alternate''"

definition retryable_candidate_failure :: "connect_failure_reason \<Rightarrow> bool" where
  "retryable_candidate_failure reason \<longleftrightarrow>
     reason \<in> {CfrDhcpFailed, CfrNotFound, CfrTimeout, CfrActivationFailed}"

definition attempt_summary ::
    "connect_candidate_info \<Rightarrow> string \<Rightarrow> connect_failure_reason option \<Rightarrow> nat \<Rightarrow> string \<Rightarrow> connect_attempt_summary" where
  "attempt_summary c status reason duration_ms message =
     \<lparr>cas_attempt = cci_attempt c, cas_status = status, cas_reason = reason, cas_bssid = cci_bssid c,
      cas_band = cci_band c, cas_channel = cci_channel c, cas_duration_ms = duration_ms,
      cas_message = message\<rparr>"

definition report_reason :: "error_report \<Rightarrow> connect_failure_reason" where
  "report_reason report = unwrap_or (connect_reason (er_code report)) CfrUnknown"

definition recovery_message :: "string \<Rightarrow> connect_attempt_summary list \<Rightarrow> string" where
  "recovery_message ssid attempts =
     ''Connected to '' @ ssid @ '' on ''
     @ unwrap_or (if attempts = [] then None else cas_band (last attempts)) ''alternate access point''
     @ '' after ''
     @ unwrap_or (case List.find (\<lambda>a. cas_status a = ''failed'') attempts of
                    None \<Rightarrow> None | Some a \<Rightarrow> cas_band a) ''first access point''
     @ '' failed''"

text \<open>
  The environment of an execution, by attempt (0 before the first one): the flag after the attempt,
  the engine's environment, the attempt's duration and the access point that is active after it; and
  the sink's answer to the \<open>n\<close>-th event.
\<close>

record request_env =
  re_cancelled :: "nat \<Rightarrow> bool"
  re_engine :: "nat \<Rightarrow> conn_env"
  re_duration_ms :: "nat \<Rightarrow> nat"
  re_active_access_point :: "nat \<Rightarrow> access_point option"
  re_emit :: "nat \<Rightarrow> anyhow_error + unit"

text \<open>What an execution has done: the events it emitted and the effects of the engine and its own.\<close>

record exec_log =
  el_events :: "connect_event list"
  el_effects :: "conn_effect list"

definition send :: "request_env \<Rightarrow> connect_event \<Rightarrow> exec_log \<Rightarrow> exec_log \<times> (anyhow_error + unit)" where
  "send env ev evs = (evs\<lparr>el_events := el_events evs @ [ev]\<rparr>, re_emit env (length (el_events evs)))"

definition log_effects :: "conn_effect list \<Rightarrow> exec_log \<Rightarrow> exec_log" where
  "log_effects fx evs = evs\<lparr>el_effects := el_effects evs @ fx\<rparr>"

definition active_candidate_info :: "access_point option \<Rightarrow> nat \<Rightarrow> nat \<Rightarrow> connect_candidate_info option" where
  "active_candidate_info ap attempt_no total_n =
     map_option (\<lambda>ap. \<lparr>cci_attempt = attempt_no, cci_total = total_n,
       cci_bssid = (if ap_bssid ap = [] then None else Some (ap_bssid ap)),
       cci_band = (if ap_band ap = [] then None else Some (ap_band ap)),
       cci_channel = (if ap_channel ap = 0 then None else Some (ap_channel ap)),
       cci_strength = Some (ap_strength ap)\<rparr>) ap"

definition successful_connect_outcome ::
    "request_env \<Rightarrow> connect_result \<Rightarrow> connect_candidate_info \<Rightarrow> connect_attempt_summary list \<Rightarrow> connect_outcome" where
  "successful_connect_outcome env result candidate attempts =
     (let n = cci_attempt candidate;
          actual = unwrap_or (active_candidate_info (re_active_access_point env n) n (cci_total candidate)) candidate;
          attempts = attempts @ [attempt_summary actual ''connected'' None (re_duration_ms env n) (cr_message result)];
          result = result\<lparr>cr_fallback_used := (1 < cci_attempt actual), cr_attempts := attempts\<rparr>;
          result = (if cr_fallback_used result
                    then result\<lparr>cr_message := recovery_message (cr_ssid result) attempts\<rparr> else result)
      in Succeeded result)"

definition final_failed_connect_outcome ::
    "connect_request \<Rightarrow> anyhow_error \<Rightarrow> connect_attempt_summary list \<Rightarrow> connect_outcome" where
  "final_failed_connect_outcome r e attempts =
     (let report = from_error e OpConnect;
          result = result_failed (target_name (cc_target (cq_candidate r))) (report_reason report) (er_message report)
      in Failed (result\<lparr>cr_fallback_used := (1 < length attempts), cr_attempts := attempts\<rparr>) report)"

definition cancelled_connect ::
    "request_env \<Rightarrow> string \<Rightarrow> exec_log \<Rightarrow> exec_log \<times> (anyhow_error + connect_outcome)" where
  "cancelled_connect env message evs =
     (case send env (EvCancelled message) evs of (evs, r) \<Rightarrow>
        (evs, and_then r (\<lambda>_. Inr (OutcomeCancelled message))))"

fun finished_phase :: "connect_outcome \<Rightarrow> connect_phase" where
  "finished_phase (Succeeded _) = PhConnected"
| "finished_phase (Failed _ _) = PhFailed"
| "finished_phase (OutcomeCancelled _) = PhCancelled"

definition emit_finished_connect ::
    "request_env \<Rightarrow> connect_outcome \<Rightarrow> exec_log \<Rightarrow> exec_log \<times> (anyhow_error + connect_outcome)" where
  "emit_finished_connect env outcome evs =
     (case send env (EvFinished (finished_phase outcome) outcome) evs of (evs, r) \<Rightarrow>
        (evs, and_then r (\<lambda>_. Inr outcome)))"

text \<open>What the outcomes write to the cache.\<close>

fun outcome_effects :: "connect_outcome \<Rightarrow> conn_effect list" where
  "outcome_effects (Succeeded result) =
     (if cr_fallback_used result then [FxWriteStatus ''connected'' (cr_message result)] else [])"
| "outcome_effects _ = []"

text \<open>The events of the engine's progress callback, from its recorded phases.\<close>

fun progress_event :: "connect_candidate_info \<Rightarrow> conn_effect \<Rightarrow> connect_event list" where
  "progress_event c (FxProgress phase) = [EvProgress phase (connect_phase_message phase) (Some c) None]"
| "progress_event c _ = []"

definition run_connect_candidate ::
    "request_env \<Rightarrow> connect_request \<Rightarrow> connect_candidate \<Rightarrow> bool \<Rightarrow> connect_candidate_info \<Rightarrow>
     exec_log \<Rightarrow> exec_log \<times> (anyhow_error + connect_result)" where
  "run_connect_candidate env r c publish_failure info evs =
     (case connect_target (re_engine env (cci_attempt info))
             \<lparr>at_target = cc_target c, at_password = cq_password r, at_wep_key_type = cq_wep_key_type r\<rparr>
             publish_failure of
        (m, result) \<Rightarrow>
          (evs\<lparr>el_events := el_events evs @ concat (map (progress_event info) (mc_effects m)),
             el_effects := el_effects evs @ mc_effects m\<rparr>, result))"

definition fail_request ::
    "request_env \<Rightarrow> connect_request \<Rightarrow> anyhow_error \<Rightarrow> connect_attempt_summary list \<Rightarrow> bool \<Rightarrow> exec_log \<Rightarrow>
     exec_log \<times> (anyhow_error + connect_outcome)" where
  "fail_request env r e attempts publish_failure evs =
     emit_finished_connect env (final_failed_connect_outcome r e attempts)
       (log_effects (if publish_failure then publish_final_connect_failure (cc_target (cq_candidate r)) e else []) evs)"

function connect_loop ::
    "request_env \<Rightarrow> connect_request \<Rightarrow> nat \<Rightarrow> connect_candidate \<Rightarrow> connect_candidate option \<Rightarrow> nat \<Rightarrow>
     connect_attempt_summary list \<Rightarrow> exec_log \<Rightarrow> exec_log \<times> (anyhow_error + connect_outcome)" where
  "connect_loop env r total_n candidate alternative n attempts evs =
     (let info = candidate_info candidate n total_n
      in case send env (EvProgress PhTryingAccessPoint (candidate_message ''trying'' info) (Some info) None) evs of
           (evs, Inl e) \<Rightarrow> (evs, Inl e)
         | (evs, Inr _) \<Rightarrow>
             (case run_connect_candidate env r candidate (total_n = 1) info evs of (evs, result) \<Rightarrow>
                if re_cancelled env n then cancelled_connect env ''connection attempt was cancelled'' evs
                else (case result of
                        Inr res \<Rightarrow>
                          (let outcome = successful_connect_outcome env res info attempts
                           in emit_finished_connect env outcome (log_effects (outcome_effects outcome) evs))
                      | Inl e \<Rightarrow>
                          (let report = from_error e OpConnect
                           in if er_code report = Cancelled then cancelled_connect env (er_message report) evs
                              else (let reason = report_reason report;
                                        attempts = attempts @ [attempt_summary info ''failed'' (Some reason)
                                            (re_duration_ms env n) (er_message report)]
                                    in case alternative of
                                         Some following \<Rightarrow>
                                           if jmap_get (er_details report) ''credential_outcome'' = None
                                              \<and> retryable_candidate_failure reason
                                           then (let next_info = candidate_info following 2 total_n
                                                 in case send env (EvProgress PhRetryingAlternative
                                                       (retry_message info next_info reason) (Some next_info) (Some reason)) evs of
                                                      (evs, Inl e) \<Rightarrow> (evs, Inl e)
                                                    | (evs, Inr _) \<Rightarrow>
                                                        connect_loop env r total_n following None (Suc n) attempts evs)
                                           else fail_request env r e attempts (1 < total_n) evs
                                       | None \<Rightarrow> fail_request env r e attempts (1 < total_n) evs)))))"
  by pat_completeness auto
termination
  by (relation "measure (\<lambda>(env, r, total_n, candidate, alternative, n, attempts, evs). case alternative of None \<Rightarrow> 0 | Some _ \<Rightarrow> 1)")
    auto

declare connect_loop.simps [simp del]

definition connect_inner :: "request_env \<Rightarrow> connect_request \<Rightarrow> exec_log \<times> (anyhow_error + connect_outcome)" where
  "connect_inner env r =
     (case send env (EvStarted ''starting Wi-Fi connection'') \<lparr>el_events = [], el_effects = []\<rparr> of
        (evs, Inl e) \<Rightarrow> (evs, Inl e)
      | (evs, Inr _) \<Rightarrow>
          if re_cancelled env 0 then cancelled_connect env ''cancelled before connection attempt started'' evs
          else (let alternative = (case cq_alternatives r of [] \<Rightarrow> None | a # _ \<Rightarrow> Some a);
                    total_n = 1 + (if alternative = None then 0 else 1)
                in connect_loop env r total_n (cq_candidate r) alternative 1 [] evs))"

definition connect_execute :: "request_env \<Rightarrow> connect_request \<Rightarrow> exec_log \<times> (anyhow_error + connect_outcome)" where
  "connect_execute env r = (case connect_inner env r of (evs, res) \<Rightarrow> (evs, operation_result OpConnect res))"

section \<open>Every request ends with one terminal event\<close>

fun terminal :: "connect_event \<Rightarrow> bool" where
  "terminal (EvFinished _ _) = True"
| "terminal (EvCancelled _) = True"
| "terminal _ = False"

definition announces :: "connect_outcome \<Rightarrow> connect_event \<Rightarrow> bool" where
  "announces outcome ev \<longleftrightarrow> ev = EvFinished (finished_phase outcome) outcome \<or>
     (\<exists>message. outcome = OutcomeCancelled message \<and> ev = EvCancelled message)"

text \<open>From a log, an execution goes on to a log whose new events end in the announced outcome.\<close>

definition ends_from :: "request_env \<Rightarrow> exec_log \<Rightarrow> exec_log \<times> (anyhow_error + connect_outcome) \<Rightarrow> bool" where
  "ends_from env start out \<longleftrightarrow>
     (\<exists>mid. el_events (fst out) = el_events start @ mid \<and> mid \<noteq> [] \<and>
        (\<forall>ev \<in> set (butlast mid). \<not> terminal ev) \<and>
        (case snd out of
           Inl e \<Rightarrow> \<exists>n. re_emit env n = Inl e
         | Inr outcome \<Rightarrow> announces outcome (last mid)))"

lemma ends_from_extend:
  assumes "ends_from env log1 out" and "el_events log1 = el_events log0 @ xs" and "\<forall>ev \<in> set xs. \<not> terminal ev"
  shows "ends_from env log0 out"
proof -
  obtain mid where mid: "el_events (fst out) = el_events log1 @ mid" "mid \<noteq> []"
    "\<forall>ev \<in> set (butlast mid). \<not> terminal ev"
    "case snd out of Inl e \<Rightarrow> \<exists>n. re_emit env n = Inl e | Inr outcome \<Rightarrow> announces outcome (last mid)"
    using assms(1) by (auto simp: ends_from_def)
  have "el_events (fst out) = el_events log0 @ (xs @ mid)" "xs @ mid \<noteq> []" "last (xs @ mid) = last mid"
    "\<forall>ev \<in> set (butlast (xs @ mid)). \<not> terminal ev"
    using mid assms(2,3) by (auto simp: butlast_append)
  with mid(4) show ?thesis unfolding ends_from_def by metis
qed

lemma ends_from_sink:
  "send env ev log0 = (log1, Inl e) \<Longrightarrow> ends_from env log0 (log1, Inl e)"
  by (auto simp: send_def ends_from_def)

lemma send_log:
  "send env ev log0 = (log1, r) \<Longrightarrow>
     el_events log1 = el_events log0 @ [ev] \<and> el_effects log1 = el_effects log0"
  by (auto simp: send_def)

lemma ends_from_finish: "ends_from env log0 (emit_finished_connect env outcome log0)"
  by (cases "re_emit env (length (el_events log0))")
    (auto simp: ends_from_def emit_finished_connect_def send_def announces_def)

lemma ends_from_cancelled: "ends_from env log0 (cancelled_connect env message log0)"
  by (cases "re_emit env (length (el_events log0))")
    (auto simp: ends_from_def cancelled_connect_def send_def announces_def)

lemma log_effects_frame [simp]:
  "el_events (log_effects fx l) = el_events l" "el_effects (log_effects fx l) = el_effects l @ fx"
  by (simp_all add: log_effects_def)

lemma run_candidate_log:
  assumes "run_connect_candidate env r c p info log0 = (log1, result)"
  shows "(\<exists>xs. el_events log1 = el_events log0 @ xs \<and> (\<forall>ev \<in> set xs. \<not> terminal ev)) \<and>
    (\<exists>m. el_effects log1 = el_effects log0 @ mc_effects m \<and> attempt_accounted (m, result))"
proof -
  let ?a = "\<lparr>at_target = cc_target c, at_password = cq_password r, at_wep_key_type = cq_wep_key_type r\<rparr>"
  obtain m res where m: "connect_target (re_engine env (cci_attempt info)) ?a p = (m, res)" by fastforce
  have quiet: "\<not> terminal ev" if "ev \<in> set (progress_event info fx)" for ev fx
    using that by (cases fx) auto
  have "attempt_accounted (m, res)" using connect_target_accounted m by metis
  with assms m quiet show ?thesis by (auto simp: run_connect_candidate_def)
qed

text \<open>One iteration of the loop, unfolded.\<close>

lemma connect_loop_cases:
  assumes "connect_loop env r total_n c alternative n attempts log0 = out"
  obtains (sink) log1 e where "ends_from env log0 (log1, Inl e)" "el_effects log1 = el_effects log0" "out = (log1, Inl e)"
  | (cancelled) log1 log2 result message where
      "run_connect_candidate env r c (total_n = 1) (candidate_info c n total_n) log1 = (log2, result)"
      "el_events log1 = el_events log0 @ [EvProgress PhTryingAccessPoint
         (candidate_message ''trying'' (candidate_info c n total_n)) (Some (candidate_info c n total_n)) None]"
      "el_effects log1 = el_effects log0" "out = cancelled_connect env message log2"
  | (succeeded) log1 log2 res where
      "run_connect_candidate env r c (total_n = 1) (candidate_info c n total_n) log1 = (log2, Inr res)"
      "el_events log1 = el_events log0 @ [EvProgress PhTryingAccessPoint
         (candidate_message ''trying'' (candidate_info c n total_n)) (Some (candidate_info c n total_n)) None]"
      "el_effects log1 = el_effects log0"
      "out = emit_finished_connect env (successful_connect_outcome env res (candidate_info c n total_n) attempts)
         (log_effects (outcome_effects (successful_connect_outcome env res (candidate_info c n total_n) attempts)) log2)"
  | (failed) log1 log2 e where
      "run_connect_candidate env r c (total_n = 1) (candidate_info c n total_n) log1 = (log2, Inl e)"
      "el_events log1 = el_events log0 @ [EvProgress PhTryingAccessPoint
         (candidate_message ''trying'' (candidate_info c n total_n)) (Some (candidate_info c n total_n)) None]"
      "el_effects log1 = el_effects log0" "er_code (from_error e OpConnect) \<noteq> Cancelled"
      "out = fail_request env r e (attempts @ [attempt_summary (candidate_info c n total_n) ''failed''
         (Some (report_reason (from_error e OpConnect))) (re_duration_ms env n) (er_message (from_error e OpConnect))])
         (1 < total_n) log2"
  | (retried) log1 log2 e following sent where
      "run_connect_candidate env r c (total_n = 1) (candidate_info c n total_n) log1 = (log2, Inl e)"
      "el_events log1 = el_events log0 @ [EvProgress PhTryingAccessPoint
         (candidate_message ''trying'' (candidate_info c n total_n)) (Some (candidate_info c n total_n)) None]"
      "el_effects log1 = el_effects log0" "er_code (from_error e OpConnect) \<noteq> Cancelled"
      "alternative = Some following"
      "jmap_get (er_details (from_error e OpConnect)) ''credential_outcome'' = None"
      "retryable_candidate_failure (report_reason (from_error e OpConnect))"
      "sent = send env (EvProgress PhRetryingAlternative
         (retry_message (candidate_info c n total_n) (candidate_info following 2 total_n) (report_reason (from_error e OpConnect)))
         (Some (candidate_info following 2 total_n)) (Some (report_reason (from_error e OpConnect)))) log2"
      "out = (case sent of (evs, Inl e) \<Rightarrow> (evs, Inl e)
         | (evs, Inr _) \<Rightarrow> connect_loop env r total_n following None (Suc n)
             (attempts @ [attempt_summary (candidate_info c n total_n) ''failed''
               (Some (report_reason (from_error e OpConnect))) (re_duration_ms env n) (er_message (from_error e OpConnect))]) evs)"
proof -
  let ?info = "candidate_info c n total_n"
  obtain log1 s where s: "send env (EvProgress PhTryingAccessPoint (candidate_message ''trying'' ?info) (Some ?info) None) log0 = (log1, s)"
    by fastforce
  note l1 = send_log [OF s]
  show thesis
  proof (cases s)
    case (Inl e)
    with assms s l1 that(1) show thesis
      by (auto simp: connect_loop.simps [of env r total_n c alternative n attempts log0] Let_def intro: ends_from_sink)
  next
    case (Inr u)
    obtain log2 result where run: "run_connect_candidate env r c (total_n = 1) ?info log1 = (log2, result)" by fastforce
    note unf = connect_loop.simps [of env r total_n c alternative n attempts log0]
    show thesis
    proof (cases "re_cancelled env n")
      case True
      with assms s Inr run l1 show thesis by (intro that(2) [OF run]) (auto simp: unf Let_def)
    next
      case False
      show thesis
      proof (cases result)
        case (Inr res)
        with assms s \<open>s = Inr u\<close> run l1 False show thesis
          by (intro that(3) [of log1 log2 res]) (auto simp: unf Let_def)
      next
        case (Inl e)
        show thesis
        proof (cases "er_code (from_error e OpConnect) = Cancelled")
          case True
          with assms s \<open>s = Inr u\<close> run l1 False Inl show thesis by (intro that(2) [OF run]) (auto simp: unf Let_def)
        next
          case live: False
          show thesis
          proof (cases "\<exists>following. alternative = Some following \<and>
              jmap_get (er_details (from_error e OpConnect)) ''credential_outcome'' = None \<and>
              retryable_candidate_failure (report_reason (from_error e OpConnect))")
            case True
            then obtain following where f: "alternative = Some following" by blast
            with assms s \<open>s = Inr u\<close> run l1 False Inl live True show thesis
              by (intro that(5) [of log1 log2 e following, OF _ _ _ _ f _ _ refl])
                (auto simp: connect_loop.simps [of env r total_n c "Some following" n attempts log0] Let_def)
          next
            case no: False
            with assms s \<open>s = Inr u\<close> run l1 False Inl live show thesis
              by (intro that(4) [of log1 log2 e]) (auto simp: unf Let_def split: option.splits)
          qed
        qed
      qed
    qed
  qed
qed

section \<open>What a finished request has done\<close>

definition past_failures :: "connect_attempt_summary list \<Rightarrow> bool" where
  "past_failures attempts \<longleftrightarrow> (\<forall>a \<in> set attempts. cas_status a = ''failed'' \<and>
     (\<exists>reason. cas_reason a = Some reason \<and> retryable_candidate_failure reason))"

definition balanced :: "conn_effect list \<Rightarrow> bool" where
  "balanced fx \<longleftrightarrow> opened fx = closed fx \<and> delete_requested fx = created fx"

definition keeps_one :: "conn_effect list \<Rightarrow> bool" where
  "keeps_one fx \<longleftrightarrow> (\<exists>kept. created fx = delete_requested fx @ kept \<and> length kept \<le> 1)"

text \<open>
  The outcome against the effects: a failed request has requested the deletion of every profile it
  created, any other of all but at most the last; only retryable failures precede the last attempt.
\<close>

definition outcome_justified :: "conn_effect list \<Rightarrow> connect_outcome \<Rightarrow> bool" where
  "outcome_justified fx outcome \<longleftrightarrow>
     (case outcome of
        Succeeded res \<Rightarrow>
          keeps_one fx \<and>
          (\<exists>past x. cr_attempts res = past @ [x] \<and> past_failures past \<and> length past \<le> 1 \<and>
             cas_status x = ''connected'' \<and> (cr_fallback_used res \<longleftrightarrow> past \<noteq> []))
      | Failed res report \<Rightarrow>
          (\<exists>past x. cr_attempts res = past @ [x] \<and> past_failures past \<and> length past \<le> 1 \<and>
             cas_status x = ''failed'' \<and> cas_reason x = Some (report_reason report) \<and>
             (cr_fallback_used res \<longleftrightarrow> past \<noteq> []) \<and> cr_reason res = Some (report_reason report) \<and>
             delete_requested fx = created fx)
      | OutcomeCancelled _ \<Rightarrow> keeps_one fx)"

lemma finish_frame:
  "el_effects (fst (emit_finished_connect env outcome l)) = el_effects l"
  "snd (emit_finished_connect env outcome l) = Inr o' \<Longrightarrow> o' = outcome"
  "el_effects (fst (cancelled_connect env message l)) = el_effects l"
  "snd (cancelled_connect env message l) = Inr o' \<Longrightarrow> o' = OutcomeCancelled message"
  by (auto simp: emit_finished_connect_def cancelled_connect_def send_def and_then_def split: sum.splits)

lemma outcome_effects_quiet:
  "created (outcome_effects out) = []" "delete_requested (outcome_effects out) = []"
  "opened (outcome_effects out) = []" "closed (outcome_effects out) = []"
  by (cases out; simp)+

lemma publish_quiet:
  "created (publish_final_connect_failure t e) = []" "delete_requested (publish_final_connect_failure t e) = []"
  "opened (publish_final_connect_failure t e) = []" "closed (publish_final_connect_failure t e) = []"
  by (simp_all add: publish_final_connect_failure_def)

lemma successful_outcome:
  assumes "past_failures attempts" "length attempts \<le> 1" "n = Suc (length attempts)"
    and "keeps_one fx"
  shows "outcome_justified fx (successful_connect_outcome env res (candidate_info c n total_n) attempts)"
proof -
  have actual: "cci_attempt (unwrap_or (active_candidate_info ap k t) (candidate_info c k total_n)) = k" for ap k t
    by (cases ap) (simp_all add: active_candidate_info_def unwrap_or_def candidate_info_def)
  have info: "cci_attempt (candidate_info c k total_n) = k" for k by (simp add: candidate_info_def)
  show ?thesis
    using assms
    by (auto simp: outcome_justified_def successful_connect_outcome_def Let_def info actual attempt_summary_def)
qed

lemma failed_outcome:
  assumes "past_failures attempts" "length attempts \<le> 1" "delete_requested fx = created fx"
  shows "outcome_justified fx (final_failed_connect_outcome r e
     (attempts @ [attempt_summary info ''failed'' (Some (report_reason (from_error e OpConnect))) d m]))"
  using assms
  by (auto simp: outcome_justified_def final_failed_connect_outcome_def Let_def attempt_summary_def result_failed_def)

text \<open>The effects of one attempt, after balanced ones.\<close>

lemma attempt_effects:
  assumes "attempt_accounted (m, result)" and "balanced fx"
  shows "opened (fx @ mc_effects m) = closed (fx @ mc_effects m)"
    and "keeps_one (fx @ mc_effects m)"
    and "result = Inl e \<Longrightarrow> er_code (from_error e OpConnect) \<noteq> Cancelled \<Longrightarrow> balanced (fx @ mc_effects m)"
proof -
  have code: "er_code (from_error cancelled_connect_error OpConnect) = Cancelled"
    by (simp add: cancelled_connect_error_def domain_error_defs)
  show "opened (fx @ mc_effects m) = closed (fx @ mc_effects m)"
    "result = Inl e \<Longrightarrow> er_code (from_error e OpConnect) \<noteq> Cancelled \<Longrightarrow> balanced (fx @ mc_effects m)"
    using assms code by (auto simp: attempt_accounted_def balanced_def Let_def)
  have "delete_requested (mc_effects m) = created (mc_effects m) \<or> delete_requested (mc_effects m) = []"
    "length (created (mc_effects m)) \<le> 1"
    using assms(1) by (auto simp: attempt_accounted_def Let_def split: sum.splits)
  then show "keeps_one (fx @ mc_effects m)"
    using assms(2) by (auto simp: keeps_one_def balanced_def)
qed

definition request_ok :: "request_env \<Rightarrow> exec_log \<Rightarrow> exec_log \<times> (anyhow_error + connect_outcome) \<Rightarrow> bool" where
  "request_ok env start out \<longleftrightarrow>
     ends_from env start out \<and> opened (el_effects (fst out)) = closed (el_effects (fst out)) \<and>
     (\<forall>outcome. snd out = Inr outcome \<longrightarrow> outcome_justified (el_effects (fst out)) outcome)"

lemma request_ok_start:
  assumes "request_ok env log1 out" and "el_events log1 = el_events log0 @ xs" and "\<forall>ev \<in> set xs. \<not> terminal ev"
  shows "request_ok env log0 out"
  using assms ends_from_extend [of env log1 out log0 xs] by (simp add: request_ok_def)

lemma request_ok_log_effects: "request_ok env (log_effects fx l) out = request_ok env l out"
  by (simp add: request_ok_def ends_from_def)

lemma request_ok_cancelled:
  "opened (el_effects l) = closed (el_effects l) \<Longrightarrow> keeps_one (el_effects l) \<Longrightarrow>
     request_ok env l (cancelled_connect env message l)"
  using ends_from_cancelled [of env l message]
  by (auto simp: request_ok_def finish_frame(3) outcome_justified_def dest!: finish_frame(4))

lemma request_ok_finished:
  "opened (el_effects l) = closed (el_effects l) \<Longrightarrow> outcome_justified (el_effects l) outcome \<Longrightarrow>
     request_ok env l (emit_finished_connect env outcome l)"
  using ends_from_finish [of env l outcome]
  by (auto simp: request_ok_def finish_frame(1) dest!: finish_frame(2))

lemma trying_nonterminal: "\<forall>ev \<in> set [EvProgress ph m i r]. \<not> terminal ev"
  by simp

lemma connect_loop_ok:
  assumes "balanced (el_effects log0)" "past_failures attempts" "n = Suc (length attempts)"
    and "length attempts \<le> (if alternative = None then 1 else 0)"
  shows "request_ok env log0 (connect_loop env r total_n c alternative n attempts log0)"
  using assms
proof (induction "if alternative = None then 0 else (1 :: nat)" arbitrary: c alternative n attempts log0 rule: less_induct)
  case less
  have few: "length attempts \<le> 1" using less.prems(4) by (auto split: if_splits)
  have "\<exists>out. connect_loop env r total_n c alternative n attempts log0 = out" by simp
  then obtain out where out: "connect_loop env r total_n c alternative n attempts log0 = out" ..
  have "request_ok env log0 out" using out
  proof (cases rule: connect_loop_cases)
    case (sink log1 e)
    then show ?thesis using less.prems(1) by (simp add: request_ok_def balanced_def)
  next
    case (cancelled log1 log2 result message)
    from run_candidate_log [OF cancelled(1)] obtain xs m where
      l2: "el_events log2 = el_events log1 @ xs" "\<forall>ev \<in> set xs. \<not> terminal ev"
        "el_effects log2 = el_effects log1 @ mc_effects m" "attempt_accounted (m, result)" by blast
    have "request_ok env log2 out"
      using attempt_effects(1,2) [OF l2(4) less.prems(1)] cancelled(3,4) l2(3) by (simp add: request_ok_cancelled)
    from request_ok_start [OF request_ok_start [OF this l2(1,2)] cancelled(2) trying_nonterminal] show ?thesis .
  next
    case (succeeded log1 log2 res)
    from run_candidate_log [OF succeeded(1)] obtain xs m where
      l2: "el_events log2 = el_events log1 @ xs" "\<forall>ev \<in> set xs. \<not> terminal ev"
        "el_effects log2 = el_effects log1 @ mc_effects m" "attempt_accounted (m, Inr res)" by blast
    let ?o = "successful_connect_outcome env res (candidate_info c n total_n) attempts"
    let ?l = "log_effects (outcome_effects ?o) log2"
    have fx: "el_effects ?l = (el_effects log0 @ mc_effects m) @ outcome_effects ?o" using l2(3) succeeded(3) by simp
    have kept: "keeps_one (el_effects ?l)"
      using attempt_effects(2) [OF l2(4) less.prems(1)] unfolding fx by (simp add: keeps_one_def outcome_effects_quiet)
    have "outcome_justified (el_effects ?l) ?o"
      using successful_outcome [OF less.prems(2) few less.prems(3) kept] .
    moreover have "opened (el_effects ?l) = closed (el_effects ?l)"
      using attempt_effects(1) [OF l2(4) less.prems(1)] unfolding fx by (simp add: outcome_effects_quiet)
    ultimately have "request_ok env ?l out" unfolding succeeded(4) by (rule request_ok_finished [rotated])
    then have "request_ok env log2 out" by (simp only: request_ok_log_effects)
    from request_ok_start [OF request_ok_start [OF this l2(1,2)] succeeded(2) trying_nonterminal] show ?thesis .
  next
    case (failed log1 log2 e)
    from run_candidate_log [OF failed(1)] obtain xs m where
      l2: "el_events log2 = el_events log1 @ xs" "\<forall>ev \<in> set xs. \<not> terminal ev"
        "el_effects log2 = el_effects log1 @ mc_effects m" "attempt_accounted (m, Inl e)" by blast
    have bal: "balanced (el_effects log2)"
      using attempt_effects(3) [OF l2(4) less.prems(1) refl failed(4)] l2(3) failed(3) by simp
    let ?fx = "if 1 < total_n then publish_final_connect_failure (cc_target (cq_candidate r)) e else []"
    have bal': "balanced (el_effects (log_effects ?fx log2))" using bal by (simp add: balanced_def publish_quiet)
    have "request_ok env (log_effects ?fx log2) out"
      unfolding failed(5) fail_request_def
      using bal' by (intro request_ok_finished failed_outcome less.prems(2) few) (simp_all add: balanced_def)
    then have "request_ok env log2 out" by (simp only: request_ok_log_effects)
    from request_ok_start [OF request_ok_start [OF this l2(1,2)] failed(2) trying_nonterminal] show ?thesis .
  next
    case (retried log1 log2 e following sent)
    from run_candidate_log [OF retried(1)] obtain xs m where
      l2: "el_events log2 = el_events log1 @ xs" "\<forall>ev \<in> set xs. \<not> terminal ev"
        "el_effects log2 = el_effects log1 @ mc_effects m" "attempt_accounted (m, Inl e)" by blast
    have bal: "balanced (el_effects log2)"
      using attempt_effects(3) [OF l2(4) less.prems(1) refl retried(4)] l2(3) retried(3) by simp
    have none: "attempts = []" using less.prems(4) retried(5) by simp
    obtain log3 s where sent: "sent = (log3, s)" by (cases sent)
    note l3 = send_log [OF retried(8) [unfolded sent, symmetric]]
    have "request_ok env log2 out"
    proof (cases s)
      case (Inl e')
      have "out = (log3, Inl e')" unfolding retried(9) sent Inl by simp
      moreover have "ends_from env log2 (log3, Inl e')"
        using retried(8) [symmetric] unfolding sent Inl by (rule ends_from_sink)
      ultimately show ?thesis using bal l3 by (simp add: request_ok_def balanced_def)
    next
      case (Inr u)
      have "request_ok env log3 out"
        unfolding retried(9) sent Inr prod.case sum.case
        by (rule less.hyps) (use retried(5,7) bal l3 less.prems none in
          \<open>auto simp: past_failures_def attempt_summary_def\<close>)
      then show ?thesis using request_ok_start [of env log3 out log2] l3 trying_nonterminal by blast
    qed
    from request_ok_start [OF request_ok_start [OF this l2(1,2)] retried(2) trying_nonterminal] show ?thesis .
  qed
  with out show ?case by simp
qed

text \<open>
  C1. A connect request runs to one announced outcome. Whatever NetworkManager and the event sink
  answer, it emits the start event first and exactly one terminal event, the last one, which carries
  the outcome the request returns; it returns an error only if the sink refused an event. It tries
  at most two access points, the second only after the first failed for a reason another access
  point may cure, and the attempts it lists say so. All credential prompts are retired. A failed
  request has requested the deletion of every profile it created, in order; a successful or cancelled
  one has requested it of all but at most the profile its last attempt created. (Whether NetworkManager
  carries a deletion out is its own answer, recorded with the request.)
\<close>

theorem connect_request_runs:
  "\<exists>rest. el_events (fst (connect_inner env r)) = EvStarted ''starting Wi-Fi connection'' # rest \<and>
     (\<forall>ev \<in> set (butlast (EvStarted ''starting Wi-Fi connection'' # rest)). \<not> terminal ev) \<and>
     opened (el_effects (fst (connect_inner env r))) = closed (el_effects (fst (connect_inner env r))) \<and>
     (case snd (connect_inner env r) of
        Inl e \<Rightarrow> \<exists>n. re_emit env n = Inl e
      | Inr outcome \<Rightarrow> rest \<noteq> [] \<and> announces outcome (last rest) \<and>
          outcome_justified (el_effects (fst (connect_inner env r))) outcome)"
proof -
  let ?l0 = "\<lparr>el_events = [], el_effects = []\<rparr>"
  obtain l1 s where s: "send env (EvStarted ''starting Wi-Fi connection'') ?l0 = (l1, s)" by fastforce
  have l1: "el_events l1 = [EvStarted ''starting Wi-Fi connection'']" "el_effects l1 = []" using send_log [OF s] by simp_all
  show ?thesis
  proof (cases s)
    case (Inl e)
    with s l1 show ?thesis by (auto simp: connect_inner_def send_def)
  next
    case (Inr u)
    let ?out = "connect_inner env r"
    have "request_ok env l1 ?out"
      using s Inr l1 request_ok_cancelled [of l1 env] connect_loop_ok [of l1 "[]" 1]
      by (auto simp: connect_inner_def Let_def balanced_def keeps_one_def past_failures_def split: list.splits)
    then obtain mid where mid: "el_events (fst ?out) = el_events l1 @ mid" "mid \<noteq> []"
      "\<forall>ev \<in> set (butlast mid). \<not> terminal ev"
      "case snd ?out of Inl e \<Rightarrow> \<exists>n. re_emit env n = Inl e | Inr outcome \<Rightarrow> announces outcome (last mid)"
      "opened (el_effects (fst ?out)) = closed (el_effects (fst ?out))"
      "\<forall>outcome. snd ?out = Inr outcome \<longrightarrow> outcome_justified (el_effects (fst ?out)) outcome"
      unfolding request_ok_def ends_from_def by blast
    show ?thesis
      by (rule exI [of _ mid]) (use mid l1 in \<open>auto split: sum.splits\<close>)
  qed
qed

definition accepting_env :: request_env where
  "accepting_env = \<lparr>re_cancelled = (\<lambda>_. False), re_engine = (\<lambda>_. quiet_conn_env),
     re_duration_ms = (\<lambda>_. 0), re_active_access_point = (\<lambda>_. None), re_emit = (\<lambda>_. Inr ())\<rparr>"

theorem connect_request_runs_witness:
  "\<exists>outcome rest. snd (connect_inner accepting_env (request_single target_sample None None)) = Inr outcome \<and>
     el_events (fst (connect_inner accepting_env (request_single target_sample None None))) =
       EvStarted ''starting Wi-Fi connection'' # rest \<and> announces outcome (last rest)"
proof -
  let ?out = "connect_inner accepting_env (request_single target_sample None None)"
  have "re_emit accepting_env n \<noteq> Inl e" for n e by (simp add: accepting_env_def)
  with connect_request_runs [of accepting_env "request_single target_sample None None"]
  show ?thesis by (cases "snd ?out") (simp_all, blast)
qed

section \<open>Candidates stay on the selected network\<close>

lemma collect_results_members:
  "collect_results f xs = Inr ys \<Longrightarrow> y \<in> set ys \<Longrightarrow> \<exists>x \<in> set xs. f x = Inr y"
  by (induction xs arbitrary: ys) (auto simp: and_then_Inr_iff)

lemma ranked_alternatives_sorted:
  "sorted (map (alternative_key primary) (ranked_alternatives primary aps))"
  "set (ranked_alternatives primary aps) = {ap \<in> set aps. is_alternative primary ap}"
  by (simp_all add: ranked_alternatives_def)

lemma entry_of_list:
  assumes "e \<in> set (network_entries_with_profile_matches aps m :: 'd network_entry list)"
  shows "ne_access_point e \<in> set (ne_access_points e)"
    and "ap \<in> set (ne_access_points e) \<Longrightarrow> network_key_for ap = ne_key e"
proof -
  obtain k where k: "k \<in> group_key ` set aps" "e = group_entry aps m k"
    using assms by (auto simp: entries_eq)
  have rep: "entry_represents aps m e" using group_entry_represents [OF k(1), of m, where 'd = 'd] k(2) by simp
  then show "ne_access_point e \<in> set (ne_access_points e)" unfolding entry_represents_def by blast
  have "ne_access_points e = filter (\<lambda>ap. network_key_for ap = ne_key e) aps"
    using rep unfolding entry_represents_def by blast
  then have "set (ne_access_points e) = {ap \<in> set aps. network_key_for ap = ne_key e}" by (metis set_filter)
  then show "ap \<in> set (ne_access_points e) \<Longrightarrow> network_key_for ap = ne_key e" by blast
qed

definition candidate_of :: "'d network_entry \<Rightarrow> access_point \<Rightarrow> connect_candidate \<Rightarrow> bool" where
  "candidate_of e ap c \<longleftrightarrow> ap \<in> set (ne_access_points e) \<and>
     ssid_exact (wct_ssid (cc_target c)) = ssid_bytes_of ap \<and> cc_strength c = Some (ap_strength ap) \<and>
     (ap_path ap \<noteq> [] \<longrightarrow> wct_ap_path (cc_target c) = Some (ap_path ap)) \<and>
     (ap_device_iface ap \<noteq> [] \<longrightarrow> wct_ifname (cc_target c) = Some (ap_device_iface ap))"

lemma candidate_of_target:
  assumes "connect_target_for_network_access_point okp e ap identity = Inr t" "ap \<in> set (ne_access_points e)"
  shows "candidate_of e ap (candidate_from_access_point t ap)"
  using target_for_ap [OF assms(1)] assms(2) ssid_from_bytes_wf
  by (auto simp: candidate_of_def candidate_from_access_point_def)

lemma resolved_candidates:
  assumes "resolve_connect_candidates okp (Some e) key identity = Inr (c, alts)"
    and "ne_access_point e \<in> set (ne_access_points e)"
  shows "candidate_of e (ne_access_point e) c \<and>
    (\<forall>x \<in> set alts. \<exists>ap \<in> set (ranked_alternatives (ne_access_point e) (ne_access_points e)). candidate_of e ap x)"
proof -
  from assms(1) obtain t where t: "connect_target_for_network okp e identity = Inr t"
    and c: "c = candidate_from_access_point t (ne_access_point e)"
    and alts: "collect_results (\<lambda>ap. and_then (connect_target_for_network_access_point okp e ap identity)
        (\<lambda>t. Inr (candidate_from_access_point t ap)))
      (ranked_alternatives (ne_access_point e) (ne_access_points e)) = Inr alts"
    by (auto simp: resolve_connect_candidates_def and_then_Inr_iff)
  have "candidate_of e (ne_access_point e) c"
    using candidate_of_target t assms(2) unfolding c connect_target_for_network_def by blast
  moreover have "\<exists>ap \<in> set (ranked_alternatives (ne_access_point e) (ne_access_points e)). candidate_of e ap x"
    if "x \<in> set alts" for x
  proof -
    obtain ap where ap: "ap \<in> set (ranked_alternatives (ne_access_point e) (ne_access_points e))"
      "and_then (connect_target_for_network_access_point okp e ap identity) (\<lambda>t. Inr (candidate_from_access_point t ap)) = Inr x"
      using collect_results_members [OF alts \<open>x \<in> set alts\<close>] by blast
    then have "candidate_of e ap x"
      using candidate_of_target [of okp e ap identity] ranked_alternatives_sorted(2)
      by (auto simp: and_then_Inr_iff)
    with ap(1) show ?thesis by blast
  qed
  ultimately show ?thesis by blast
qed

text \<open>
  A request made with the key of a listed network (every such key contains a bar; a key without
  one names a hidden network and is treated as such) only ever tries that network. When the request
  is built, the entry with that key is in the current list, every access point of the entry has that
  key, the candidate is the entry's preferred access point and the alternatives are other access
  points of it; each has the exact SSID of its access point and, where they are known, its path and
  interface. The restrictions of the saved profile apply to the alternatives only: each satisfies the
  profile's BSSID, band and channel, and there are none when the profile cannot be read. The
  preferred access point is tried whatever the profile says.
\<close>

theorem candidates_stay_on_network:
  assumes "connect_request_for_key okp details
      (Inr (network_entries_with_profile_matches aps m :: 'd network_entry list)) key password key_type identity = Inr r"
    and "CHR ''|'' \<in> set key"
  shows "\<exists>e \<in> set (network_entries_with_profile_matches aps m :: 'd network_entry list). ne_key e = key \<and>
    candidate_of e (ne_access_point e) (cq_candidate r) \<and>
    (\<forall>c \<in> set (cq_alternatives r). \<exists>ap. candidate_of e ap c \<and> is_alternative (ne_access_point e) ap) \<and>
    (\<forall>ap \<in> set (ne_access_points e). network_key_for ap = key) \<and>
    (\<forall>profile. ne_primary_profile e = Some profile \<longrightarrow>
       (case details (swc_path profile) of
          Inl _ \<Rightarrow> cq_alternatives r = []
        | Inr p \<Rightarrow> \<forall>c \<in> set (cq_alternatives r). candidate_matches_profile_restrictions c p))"
proof -
  let ?ns = "network_entries_with_profile_matches aps m :: 'd network_entry list"
  let ?found = "List.find (\<lambda>n. ne_key n = key) ?ns"
  obtain c alts where res: "resolve_connect_candidates okp ?found key identity = Inr (c, alts)"
    and r: "cq_candidate r = c" "cq_alternatives r = (case ?found of None \<Rightarrow> alts
      | Some n \<Rightarrow> constrain_alternatives_to_saved_profile details n alts)"
    using assms(1)
    by (auto simp: connect_request_for_key_def operation_result_def and_then_Inr_iff Let_def split: sum.splits)
  obtain e where found: "?found = Some e"
    using res assms(2) by (cases ?found) (auto simp: resolve_connect_candidates_def)
  then have e: "e \<in> set ?ns" "ne_key e = key" using find_in_set [OF found] by auto
  note own = entry_of_list [OF e(1)]
  have cands: "candidate_of e (ne_access_point e) c"
    "\<forall>x \<in> set alts. \<exists>ap \<in> set (ranked_alternatives (ne_access_point e) (ne_access_points e)). candidate_of e ap x"
    using resolved_candidates [OF res [unfolded found] own(1)] by auto
  have alts: "cq_alternatives r = constrain_alternatives_to_saved_profile details e alts" using r(2) found by simp
  then have "set (cq_alternatives r) \<subseteq> set alts"
    by (auto simp: constrain_alternatives_to_saved_profile_def split: option.splits sum.splits)
  then have "\<forall>x \<in> set (cq_alternatives r). \<exists>ap. candidate_of e ap x \<and> is_alternative (ne_access_point e) ap"
    using cands(2) ranked_alternatives_sorted(2) by fastforce
  moreover have "case details (swc_path profile) of
      Inl _ \<Rightarrow> cq_alternatives r = []
    | Inr p \<Rightarrow> \<forall>c \<in> set (cq_alternatives r). candidate_matches_profile_restrictions c p"
    if "ne_primary_profile e = Some profile" for profile
    using that by (auto simp: alts constrain_alternatives_to_saved_profile_def split: sum.splits)
  ultimately show ?thesis using e own(2) cands(1) r(1) by blast
qed

theorem candidates_stay_on_network_witness:
  "\<exists>r (e :: unit network_entry).
     connect_request_for_key (\<lambda>_. True) (\<lambda>_. Inl []) (Inr (network_entries_with_profile_matches [ap_sample] [] :: unit network_entry list))
       (network_key_for ap_sample) None None None = Inr r \<and> candidate_of e (ne_access_point e) (cq_candidate r)"
proof -
  let ?e = "entry_for ap_sample [ap_sample] [] :: unit network_entry"
  let ?ns = "network_entries_with_profile_matches [ap_sample] [] :: unit network_entry list"
  have "profiles_for_access_point_group [ap_sample] [] = []"
    by (simp add: profiles_for_access_point_group_def matches_of_def)
  then have ns: "?ns = [?e]" by (simp add: entries_single group_entry_def group_of_def)
  have b: "bssid_parse (ap_bssid ap_sample) = Inr (map bssid_char (ap_bssid ap_sample))"
    unfolding bssid_parse_eq by code_simp
  have i: "interface_name_parse (ap_device_iface ap_sample) = Inr (ap_device_iface ap_sample)" by code_simp
  have s: "ssid_from_bytes (ssid_bytes_of ap_sample) =
      Inr \<lparr>ssid_exact = [CHR 0xE9, CHR ''x''], ssid_display = from_utf8_lossy [CHR 0xE9, CHR ''x'']\<rparr>"
    by (simp add: ssid_bytes_of_def ap_sample_def ssid_from_bytes_ok)
  have "\<exists>t. connect_target_for_network (\<lambda>_. True) ?e None = Inr t \<and> \<not> wct_hidden t"
    using b i s
    by (simp add: connect_target_for_network_def connect_target_for_network_access_point_def
        parse_unless_empty_def object_path_parse_def connect_target_for_ssid_def)
  moreover have "ranked_alternatives ap_sample [ap_sample] = []"
    by (simp add: ranked_alternatives_def is_alternative_def eq_ignore_ascii_case_def)
  ultimately have "\<exists>r. connect_request_for_key (\<lambda>_. True) (\<lambda>_. Inl []) (Inr ?ns) (network_key_for ap_sample) None None None = Inr r"
    by (auto simp: ns connect_request_for_key_def operation_result_def resolve_connect_candidates_def
        request_validate_def target_validate_def candidate_from_access_point_def Let_def)
  then obtain r where r: "connect_request_for_key (\<lambda>_. True) (\<lambda>_. Inl []) (Inr ?ns) (network_key_for ap_sample) None None None = Inr r" ..
  have "CHR ''|'' \<in> set (network_key_for ap_sample)" by (simp add: network_key_for_def)
  from candidates_stay_on_network [OF r this] r show ?thesis by blast
qed

end
