(* ===== verification/Portal.thy ===== *)
theory Portal
  imports Tasks Connectivity
begin

text \<open>
  Captive-portal launches (\<open>src/portal.rs\<close>, \<open>src/portal/ledger.rs\<close> over the snapshot of
  \<open>Connectivity\<close>). A launch is prepared for the current primary connection, then claimed
  and completed by the frontend that asked for it; the ledger that decides is persisted, so that its
  promises outlive the daemon. The answers of NetworkManager, the kernel's random numbers, the clock,
  the outcome of a file write and the \<open>url\<close> crate are parameters; the file itself is part of the
  state. A map with ordered keys is an association list sorted by key.
\<close>

section \<open>Launch intents\<close>

datatype portal_mode = Automatic | Manual

record prepare_params =
  pp_mode :: portal_mode
  pp_connect_request_id :: "string option"
  pp_fallback :: bool

record intent =
  in_launch_id :: string
  in_episode :: string
  in_url :: string
  in_reason :: portal_mode
  in_expires_at_ms :: u64

definition invalid :: "string \<Rightarrow> anyhow_error" where
  "invalid message = into_anyhow (validation_error OpConnectivity message)"

text \<open>
  \<open>char::is_control\<close>, \<open>char::is_whitespace\<close> and the backslash, on the UTF-8 bytes of a text: ASCII
  controls and blanks, U+0080 to U+00A0, U+1680, U+2000 to U+200A, U+2028, U+2029, U+202F, U+205F and
  U+3000. In valid UTF-8 these byte sequences only occur as whole characters.
\<close>

fun has_forbidden_char :: "nat list \<Rightarrow> bool" where
  "has_forbidden_char [] = False"
| "has_forbidden_char (b # bs) =
     (b \<le> 32 \<or> b = 127 \<or> b = 92
      \<or> (case bs of
           [] \<Rightarrow> False
         | c # cs \<Rightarrow>
             (b = 194 \<and> 128 \<le> c \<and> c \<le> 160)
             \<or> (case cs of
                  [] \<Rightarrow> False
                | d # _ \<Rightarrow>
                    (b = 225 \<and> c = 154 \<and> d = 128)
                    \<or> (b = 226 \<and> c = 128 \<and> (128 \<le> d \<and> d \<le> 138 \<or> d \<in> {168, 169, 175}))
                    \<or> (b = 226 \<and> c = 129 \<and> d = 159)
                    \<or> (b = 227 \<and> c = 128 \<and> d = 128)))
      \<or> has_forbidden_char bs)"

record parsed_url =
  pu_host :: "string option"
  pu_username :: string
  pu_password :: "string option"
  pu_text :: string

definition safe_url :: "(string \<Rightarrow> parsed_url option) \<Rightarrow> string \<Rightarrow> string option" where
  "safe_url parse value =
     (if 4096 < length value \<or> has_forbidden_char (map byte_val value) then None
      else if \<not> starts_with ''http://'' value then None
      else case parse value of
             None \<Rightarrow> None
           | Some p \<Rightarrow>
               if pu_host p = None \<or> pu_username p \<noteq> [] \<or> pu_password p \<noteq> None then None
               else Some (pu_text p))"

text \<open>\<open>serde_json\<close> text of a string and of the triple that names an episode.\<close>

definition json_char :: "char \<Rightarrow> string" where
  "json_char c =
     (let b = byte_val c; hex = (\<lambda>n. if n < 10 then char_of (48 + n) else char_of (87 + n))
      in if b = 34 \<or> b = 92 then [CHR 0x5C, c]
         else if b = 8 then [CHR 0x5C, CHR ''b''] else if b = 9 then [CHR 0x5C, CHR ''t'']
         else if b = 10 then [CHR 0x5C, CHR ''n''] else if b = 12 then [CHR 0x5C, CHR ''f'']
         else if b = 13 then [CHR 0x5C, CHR ''r'']
         else if b < 32 then [CHR 0x5C, CHR ''u'', CHR ''0'', CHR ''0'', hex (b div 16), hex (b mod 16)]
         else [c])"

definition json_text :: "string \<Rightarrow> string" where
  "json_text s = CHR 0x22 # concat (map json_char s) @ [CHR 0x22]"

definition episode_text :: "string \<Rightarrow> string \<Rightarrow> string \<Rightarrow> string" where
  "episode_text nm_owner path uuid =
     ''['' @ json_text nm_owner @ '','' @ json_text path @ '','' @ json_text uuid @ '']''"

definition episode_context ::
    "string \<Rightarrow> connectivity_status \<Rightarrow> anyhow_error + string \<times> primary_connection_identity" where
  "episode_context nm_owner status =
     (case cs_primary_connection status of
        None \<Rightarrow> Inl (invalid ''no primary connection'')
      | Some primary \<Rightarrow>
          if nm_owner = [] \<or> pci_path primary = ''/'' \<or> pci_uuid primary = []
          then Inl (invalid ''primary connection identity is unavailable'')
          else Inr (episode_text nm_owner (pci_path primary) (pci_uuid primary), primary))"

definition saturating_add :: "u64 \<Rightarrow> u64 \<Rightarrow> u64" where
  "saturating_add a b = (if a + b < a then - 1 else a + b)"

definition automatic_refused ::
    "prepare_params \<Rightarrow> connectivity_status \<Rightarrow> primary_connection_identity \<Rightarrow> json \<Rightarrow> bool" where
  "automatic_refused params status current evidence \<longleftrightarrow>
     (let result = jindex (jindex (jindex evidence ''event'') ''data'') ''result'';
          previous = jindex (jindex result ''connectivity'') ''primary_connection''
      in pp_fallback params \<or> \<not> cs_captive_portal status
         \<or> jindex evidence ''status'' \<noteq> JStr ''finished''
         \<or> jindex evidence ''stream'' \<noteq> JStr ''wifi.connect''
         \<or> jindex (jindex evidence ''event'') ''event'' \<noteq> JStr ''succeeded''
         \<or> jindex result ''suggest_open_portal'' \<noteq> JBool True
         \<or> jindex previous ''path'' \<noteq> JStr (pci_path current)
         \<or> jindex previous ''uuid'' \<noteq> JStr (pci_uuid current))"

definition portal_validate ::
    "(string \<Rightarrow> parsed_url option) \<Rightarrow> anyhow_error + string \<Rightarrow> prepare_params \<Rightarrow> string \<Rightarrow> connectivity_status
      \<Rightarrow> json \<Rightarrow> u64 \<Rightarrow> anyhow_error + intent" where
  "portal_validate parse uuid params nm_owner status evidence now =
     and_then (episode_context nm_owner status) (\<lambda>(episode, current).
       if pp_mode params = Automatic \<and> automatic_refused params status current evidence
       then Inl (invalid ''automatic portal launch requires this caller's successful connect on the current captive connection'')
       else if pp_mode params = Manual \<and> pp_connect_request_id params \<noteq> None
       then Inl (invalid ''manual portal launch does not take a connect request'')
       else and_then uuid (\<lambda>launch_id. Inr
         \<lparr>in_launch_id = launch_id, in_episode = episode,
          in_url = (case Option.bind (cs_check_uri status) (safe_url parse) of
                      Some u \<Rightarrow> u | None \<Rightarrow> ''http://neverssl.com/''),
          in_reason = pp_mode params, in_expires_at_ms = saturating_add now 10000\<rparr>))"

section \<open>The ledger\<close>

datatype portal_outcome = Opened | LaunchFailed | Uncertain

datatype launch_phase = Reserved | Claimed | PhaseComplete

record launch =
  la_intent :: intent
  la_owner :: string
  la_phase :: launch_phase
  la_outcome :: "portal_outcome option"

record episode_entry =
  ep_automatic_attempted :: bool
  ep_fallback_index :: nat
  ep_launch :: "launch option"

record ledger_state =
  ls_version :: u32
  ls_episodes :: "(string \<times> episode_entry) list"

record ledger =
  lg_state :: ledger_state
  lg_poisoned :: bool

definition ledger_state_default :: ledger_state where
  "ledger_state_default = \<lparr>ls_version = 1, ls_episodes = []\<rparr>"

definition episode_default :: episode_entry where
  "episode_default = \<lparr>ep_automatic_attempted = False, ep_fallback_index = 0, ep_launch = None\<rparr>"

definition FALLBACKS :: "string list" where
  "FALLBACKS = [''http://captive.apple.com/hotspot-detect.html'',
     ''http://www.msftconnecttest.com/connecttest.txt'',
     ''http://nmcheck.gnome.org/check_network_status.txt'']"

definition LEDGER_LIMIT :: nat where
  "LEDGER_LIMIT = 1024"

text \<open>The file: absent, not a ledger, or a ledger (\<open>serde\<close> reads back what it wrote).\<close>

datatype ledger_file = NoFile | BadFile anyhow_error | Stored ledger_state

definition ledger_open :: "anyhow_error + unit \<Rightarrow> ledger_file \<Rightarrow> anyhow_error + ledger" where
  "ledger_open private_dir_and_lock file =
     and_then private_dir_and_lock (\<lambda>_.
     and_then (case file of NoFile \<Rightarrow> Inr ledger_state_default | BadFile e \<Rightarrow> Inl e | Stored s \<Rightarrow> Inr s) (\<lambda>s.
       if ls_version s = 1 \<and> length (ls_episodes s) \<le> LEDGER_LIMIT
       then Inr \<lparr>lg_state = s, lg_poisoned = False\<rparr>
       else Inl [LContext ''unsupported or oversized portal ledger'']))"

text \<open>
  What a write does: it succeeds, or it fails with the new contents committed or not. \<open>oversized\<close> tells
  whether the rendered state exceeds the byte limit.
\<close>

datatype write_result = Written | WriteFailed bool anyhow_error

record disk_env =
  de_oversized :: "ledger_state \<Rightarrow> bool"
  de_write :: write_result

definition persist :: "disk_env \<Rightarrow> ledger \<Rightarrow> ledger_file \<Rightarrow> ledger \<times> ledger_file \<times> (anyhow_error + unit)" where
  "persist env l file =
     (if lg_poisoned l
      then (l, file, Inl [LContext ''portal ledger unavailable after a persistence failure''])
      else if de_oversized env (lg_state l)
      then (l\<lparr>lg_poisoned := True\<rparr>, file,
            Inl [LContext ''portal ledger byte limit reached for this login session''])
      else case de_write env of
             Written \<Rightarrow> (l, Stored (lg_state l), Inr ())
           | WriteFailed committed e \<Rightarrow>
               (l\<lparr>lg_poisoned := True\<rparr>, if committed then Stored (lg_state l) else file, Inl e))"

text \<open>\<open>BTreeMap::entry(k).or_default()\<close> updated by \<open>f\<close>.\<close>

fun upsert :: "('v \<Rightarrow> 'v) \<Rightarrow> 'v \<Rightarrow> string \<Rightarrow> (string \<times> 'v) list \<Rightarrow> (string \<times> 'v) list" where
  "upsert f d k [] = [(k, f d)]"
| "upsert f d k ((k', v) # m) =
     (if k < k' then (k, f d) # (k', v) # m
      else if k = k' then (k, f v) # m
      else (k', v) # upsert f d k m)"

definition launch_busy :: "u64 \<Rightarrow> episode_entry \<Rightarrow> bool" where
  "launch_busy now e =
     (case ep_launch e of
        None \<Rightarrow> False
      | Some l \<Rightarrow> la_phase l \<noteq> PhaseComplete \<and> now < in_expires_at_ms (la_intent l))"

definition fallback_url :: "nat \<Rightarrow> string" where
  "fallback_url index = FALLBACKS ! (index mod length FALLBACKS)"

definition reserve ::
    "disk_env \<Rightarrow> intent \<Rightarrow> string \<Rightarrow> bool \<Rightarrow> u64 \<Rightarrow> ledger \<Rightarrow> ledger_file
      \<Rightarrow> ledger \<times> ledger_file \<times> (anyhow_error + intent option)" where
  "reserve env intent0 owner fallback now l file =
     (let episodes = ls_episodes (lg_state l);
          entry = (case map_of episodes (in_episode intent0) of Some e \<Rightarrow> e | None \<Rightarrow> episode_default)
      in if lg_poisoned l then (l, file, Inl [LContext ''portal ledger unavailable''])
         else if in_reason intent0 = Automatic \<and> ep_automatic_attempted entry then (l, file, Inr None)
         else if \<exists>(k, e) \<in> set episodes. launch_busy now e
         then (l, file, Inl [LContext ''portal launch is busy''])
         else if map_of episodes (in_episode intent0) = None \<and> LEDGER_LIMIT \<le> length episodes
         then (l, file, Inl [LContext ''portal episode limit reached for this login session''])
         else
           (let offered = (if fallback then intent0\<lparr>in_url := fallback_url (ep_fallback_index entry)\<rparr> else intent0);
                fill = (\<lambda>e. e\<lparr>ep_fallback_index := (if fallback
                         then (ep_fallback_index e mod length FALLBACKS + 1) mod length FALLBACKS
                         else ep_fallback_index e),
                       ep_automatic_attempted := (ep_automatic_attempted e \<or> in_reason offered = Automatic),
                       ep_launch := Some \<lparr>la_intent = offered, la_owner = owner, la_phase = Reserved,
                                          la_outcome = None\<rparr>\<rparr>);
                l' = l\<lparr>lg_state := (lg_state l)\<lparr>ls_episodes := upsert fill episode_default (in_episode offered) episodes\<rparr>\<rparr>
            in case persist env l' file of
                 (l', file', Inl e) \<Rightarrow> (l', file', Inl e)
               | (l', file', Inr _) \<Rightarrow> (l', file', Inr (Some offered))))"

text \<open>The launch a caller may act on: the first one, in key order, with this id and owner.\<close>

definition owned_launch :: "string \<Rightarrow> string \<Rightarrow> string \<times> episode_entry \<Rightarrow> bool" where
  "owned_launch launch_id owner = (\<lambda>(k, e).
     case ep_launch e of None \<Rightarrow> False | Some l \<Rightarrow> in_launch_id (la_intent l) = launch_id \<and> la_owner l = owner)"

definition find_launch :: "string \<Rightarrow> string \<Rightarrow> ledger \<Rightarrow> anyhow_error + string \<times> launch" where
  "find_launch launch_id owner l =
     (if lg_poisoned l then Inl [LContext ''portal ledger unavailable'']
      else case find (owned_launch launch_id owner) (ls_episodes (lg_state l)) of
             Some (k, e) \<Rightarrow> (case ep_launch e of Some la \<Rightarrow> Inr (k, la)
                                            | None \<Rightarrow> Inl (invalid ''unknown portal launch for this caller''))
           | None \<Rightarrow> Inl (invalid ''unknown portal launch for this caller''))"

definition put_launch :: "string \<Rightarrow> launch \<Rightarrow> ledger \<Rightarrow> ledger" where
  "put_launch k la l = l\<lparr>lg_state := (lg_state l)\<lparr>ls_episodes :=
     upsert (\<lambda>e. e\<lparr>ep_launch := Some la\<rparr>) episode_default k (ls_episodes (lg_state l))\<rparr>\<rparr>"

definition ledger_claim ::
    "disk_env \<Rightarrow> string \<Rightarrow> string \<Rightarrow> string \<Rightarrow> bool \<Rightarrow> u64 \<Rightarrow> ledger \<Rightarrow> ledger_file
      \<Rightarrow> ledger \<times> ledger_file \<times> (anyhow_error + intent)" where
  "ledger_claim env launch_id owner episode captive now l file =
     (case find_launch launch_id owner l of
        Inl e \<Rightarrow> (l, file, Inl e)
      | Inr (k, la) \<Rightarrow>
          if \<not> (la_phase la = Reserved \<and> now < in_expires_at_ms (la_intent la))
          then (l, file, Inl [LContext ''portal launch already claimed or expired''])
          else if \<not> (in_episode (la_intent la) = episode \<and> (in_reason (la_intent la) = Manual \<or> captive))
          then (l, file, Inl [LContext ''portal connection changed or resolved''])
          else (case persist env (put_launch k (la\<lparr>la_phase := Claimed\<rparr>) l) file of
                  (l', file', Inl e) \<Rightarrow> (l', file', Inl e)
                | (l', file', Inr _) \<Rightarrow> (l', file', Inr (la_intent la))))"

definition ledger_complete ::
    "disk_env \<Rightarrow> string \<Rightarrow> string \<Rightarrow> portal_outcome \<Rightarrow> ledger \<Rightarrow> ledger_file
      \<Rightarrow> ledger \<times> ledger_file \<times> (anyhow_error + unit)" where
  "ledger_complete env launch_id owner outcome l file =
     (case find_launch launch_id owner l of
        Inl e \<Rightarrow> (l, file, Inl e)
      | Inr (k, la) \<Rightarrow>
          if \<not> (la_phase la = Claimed \<or> (la_phase la = PhaseComplete \<and> la_outcome la = Some outcome))
          then (l, file, Inl [LContext ''portal launch was not claimed or outcome conflicts''])
          else persist env (put_launch k (la\<lparr>la_phase := PhaseComplete, la_outcome := Some outcome\<rparr>) l) file)"

section \<open>The methods\<close>

text \<open>
  \<open>with_ledger\<close> opens the ledger at its first use and keeps the result, a failure included, for the
  life of the process.
\<close>

definition ledger_cell :: "anyhow_error + unit \<Rightarrow> ledger_file \<Rightarrow> (string + ledger) option \<Rightarrow> string + ledger" where
  "ledger_cell private_dir_and_lock file cell =
     (case cell of
        Some c \<Rightarrow> c
      | None \<Rightarrow> (case ledger_open private_dir_and_lock file of
                   Inl e \<Rightarrow> Inl (case e of [] \<Rightarrow> [] | layer # _ \<Rightarrow> layer_display layer) | Inr l \<Rightarrow> Inr l))"

definition with_ledger ::
    "anyhow_error + unit \<Rightarrow> (ledger \<Rightarrow> ledger_file \<Rightarrow> ledger \<times> ledger_file \<times> (anyhow_error + 'a))
      \<Rightarrow> (string + ledger) option \<Rightarrow> ledger_file \<Rightarrow> (string + ledger) \<times> ledger_file \<times> (anyhow_error + 'a)" where
  "with_ledger private_dir_and_lock action cell file =
     (case ledger_cell private_dir_and_lock file cell of
        Inl e \<Rightarrow> (Inl e, file, Inl (invalid e))
      | Inr l \<Rightarrow> (case action l file of (l', file', r) \<Rightarrow> (Inr l', file', r)))"

record portal_env =
  pe_reads :: snapshot_reads
  pe_url_parse :: "string \<Rightarrow> parsed_url option"
  pe_uuid :: "anyhow_error + string"
  pe_now_ms :: u64
  pe_lock :: "anyhow_error + unit"
  pe_disk :: disk_env

definition portal_evidence ::
    "(string \<Rightarrow> string option \<Rightarrow> json) \<Rightarrow> string \<Rightarrow> prepare_params \<Rightarrow> anyhow_error + json" where
  "portal_evidence status owner params =
     (case (pp_mode params, pp_connect_request_id params) of
        (Automatic, Some rid) \<Rightarrow>
          if rid \<noteq> [] \<and> length rid \<le> 256 then Inr (status rid (Some owner))
          else Inl (invalid ''automatic portal launch requires a connect request'')
      | (Automatic, None) \<Rightarrow> Inl (invalid ''automatic portal launch requires a connect request'')
      | (Manual, _) \<Rightarrow> Inr JNull)"

definition portal_intent ::
    "(string \<Rightarrow> string option \<Rightarrow> json) \<Rightarrow> portal_env \<Rightarrow> string option \<Rightarrow> prepare_params
      \<Rightarrow> anyhow_error + string \<times> intent" where
  "portal_intent status env owner params =
     and_then (ok_or owner (invalid ''portal launch requires a transport owner'')) (\<lambda>owner.
     and_then (portal_evidence status owner params) (\<lambda>evidence.
     and_then (portal_snapshot (pe_reads env)) (\<lambda>(nm_owner, st).
     and_then (portal_validate (pe_url_parse env) (pe_uuid env) params nm_owner st evidence (pe_now_ms env))
       (\<lambda>i. Inr (owner, i)))))"

definition portal_prepare ::
    "(string \<Rightarrow> string option \<Rightarrow> json) \<Rightarrow> portal_env \<Rightarrow> string option \<Rightarrow> prepare_params
      \<Rightarrow> (string + ledger) option \<Rightarrow> ledger_file
      \<Rightarrow> (string + ledger) option \<times> ledger_file \<times> (anyhow_error + intent option)" where
  "portal_prepare status env owner params cell file =
     (case portal_intent status env owner params of
        Inl e \<Rightarrow> (cell, file, Inl e)
      | Inr (owner, i) \<Rightarrow>
          (case with_ledger (pe_lock env) (reserve (pe_disk env) i owner (pp_fallback params) (pe_now_ms env)) cell file of
             (c, file', r) \<Rightarrow> (Some c, file', r)))"

definition portal_claim ::
    "portal_env \<Rightarrow> string option \<Rightarrow> string \<Rightarrow> (string + ledger) option \<Rightarrow> ledger_file
      \<Rightarrow> (string + ledger) option \<times> ledger_file \<times> (anyhow_error + intent)" where
  "portal_claim env owner launch_id cell file =
     (case and_then (ok_or owner (invalid ''portal claim requires a transport owner'')) (\<lambda>owner.
           and_then (portal_snapshot (pe_reads env)) (\<lambda>(nm_owner, st).
           and_then (episode_context nm_owner st) (\<lambda>(episode, _). Inr (owner, episode, cs_captive_portal st)))) of
        Inl e \<Rightarrow> (cell, file, Inl e)
      | Inr (owner, episode, captive) \<Rightarrow>
          (case with_ledger (pe_lock env) (ledger_claim (pe_disk env) launch_id owner episode captive (pe_now_ms env)) cell file of
             (c, file', r) \<Rightarrow> (Some c, file', r)))"

definition portal_complete ::
    "portal_env \<Rightarrow> string option \<Rightarrow> string \<Rightarrow> portal_outcome \<Rightarrow> (string + ledger) option \<Rightarrow> ledger_file
      \<Rightarrow> (string + ledger) option \<times> ledger_file \<times> (anyhow_error + unit)" where
  "portal_complete env owner launch_id outcome cell file =
     (case owner of
        None \<Rightarrow> (cell, file, Inl (invalid ''portal completion requires a transport owner''))
      | Some owner \<Rightarrow>
          (case with_ledger (pe_lock env) (ledger_complete (pe_disk env) launch_id owner outcome) cell file of
             (c, file', r) \<Rightarrow> (Some c, file', r)))"

section \<open>An episode names one activation of one NetworkManager\<close>

lemma byte_val_eq_iff: "byte_val c = byte_val d \<longleftrightarrow> c = d"
  by (simp add: byte_val_def)

lemma div_mod_16_eq: "a div 16 = b div 16 \<Longrightarrow> a mod 16 = b mod 16 \<Longrightarrow> a = (b::nat)"
  by (metis mult_div_mod_eq)

definition hex_char :: "nat \<Rightarrow> char" where
  "hex_char n = (if n < 10 then char_of (48 + n) else char_of (87 + n))"

lemma hex_char_inject: "m < 16 \<Longrightarrow> n < 16 \<Longrightarrow> hex_char m = hex_char n \<Longrightarrow> m = n"
proof -
  assume "m < 16" "n < 16" "hex_char m = hex_char n"
  then have "(of_char (hex_char m) :: nat) = of_char (hex_char n)" by simp
  with \<open>m < 16\<close> \<open>n < 16\<close> show "m = n" by (auto simp: hex_char_def split: if_splits)
qed

lemma byte_val_literals [simp]:
  "byte_val CHR ''b'' = 98" "byte_val CHR ''t'' = 116" "byte_val CHR ''n'' = 110" "byte_val CHR ''f'' = 102"
  "byte_val CHR ''r'' = 114" "byte_val CHR ''u'' = 117" "byte_val CHR 0x5C = 92" "byte_val CHR 0x22 = 34"
  by (simp_all add: byte_val_def)

text \<open>What follows the backslash of an escape, and which bytes are written plainly.\<close>

definition escaped :: "nat \<Rightarrow> bool" where
  "escaped b \<longleftrightarrow> b = 34 \<or> b = 92 \<or> b < 32"

definition escape_tail :: "nat \<Rightarrow> string" where
  "escape_tail b =
     (if b = 34 \<or> b = 92 then [char_of b]
      else if b = 8 then ''b'' else if b = 9 then ''t'' else if b = 10 then ''n''
      else if b = 12 then ''f'' else if b = 13 then ''r''
      else [CHR ''u'', CHR ''0'', CHR ''0'', hex_char (b div 16), hex_char (b mod 16)])"

lemma json_char_cases:
  "json_char c = (if escaped (byte_val c) then CHR 0x5C # escape_tail (byte_val c) else [c])"
proof -
  have "char_of (byte_val c) = c" by (simp add: byte_val_def)
  then show ?thesis by (auto simp: json_char_def escaped_def escape_tail_def hex_char_def Let_def)
qed

lemma escape_tail_prefix_free:
  assumes "escaped a" "escaped b" and eq: "escape_tail a @ u = escape_tail b @ v"
  shows "a = b \<and> u = v"
proof -
  have ch: "char_of (34::nat) = CHR 0x22" "char_of (92::nat) = CHR 0x5C" by code_simp+
  show ?thesis
  proof (cases "{a, b} \<subseteq> {34, 92, 8, 9, 10, 12, 13}")
    case True
    then show ?thesis using eq by (auto simp: escape_tail_def ch)
  next
    case False
    have lt: "a div 16 < 16" "a mod 16 < 16" "b div 16 < 16" "b mod 16 < 16"
      using assms(1,2) by (auto simp: escaped_def)
    have "a = b" if "hex_char (a div 16) = hex_char (b div 16)" "hex_char (a mod 16) = hex_char (b mod 16)"
      using hex_char_inject [OF lt(1) lt(3) that(1)] hex_char_inject [OF lt(2) lt(4) that(2)]
      by (rule div_mod_16_eq)
    then show ?thesis using eq False by (auto simp: escape_tail_def ch split: if_splits)
  qed
qed

lemma json_char_prefix_free:
  assumes "json_char c @ u = json_char d @ v"
  shows "c = d \<and> u = v"
proof -
  have "c = d" if "byte_val c = byte_val d" using that by (simp add: byte_val_eq_iff)
  moreover have "\<not> escaped (byte_val x) \<Longrightarrow> x \<noteq> CHR 0x5C" for x
    by (auto simp: escaped_def)
  ultimately show ?thesis
    using assms escape_tail_prefix_free [of "byte_val c" "byte_val d" u v]
    by (auto simp: json_char_cases split: if_splits)
qed

lemma json_char_start: "json_char c @ u \<noteq> CHR 0x22 # v"
  by (auto simp: json_char_cases escaped_def)

lemma json_body_inject:
  "concat (map json_char s) @ CHR 0x22 # u = concat (map json_char t) @ CHR 0x22 # v \<Longrightarrow> s = t \<and> u = v"
proof (induction s arbitrary: t)
  case Nil
  then show ?case using json_char_start by (cases t) (auto, metis)
next
  case (Cons c s)
  show ?case
  proof (cases t)
    case Nil
    with Cons.prems show ?thesis using json_char_start [of c] by auto
  next
    case (Cons d t')
    with Cons.prems have "json_char c @ (concat (map json_char s) @ CHR 0x22 # u)
        = json_char d @ (concat (map json_char t') @ CHR 0x22 # v)" by simp
    from json_char_prefix_free [OF this] Cons.IH [of t'] show ?thesis by (simp add: Cons)
  qed
qed

lemma json_text_inject: "json_text s @ u = json_text t @ v \<longleftrightarrow> s = t \<and> u = v"
  using json_body_inject [of s u t v] by (auto simp: json_text_def)

lemma episode_text_eq_iff:
  "episode_text o1 p1 u1 = episode_text o2 p2 u2 \<longleftrightarrow> o1 = o2 \<and> p1 = p2 \<and> u1 = u2"
  using json_text_inject [of u1 "[]" u2 "[]"] by (auto simp: episode_text_def json_text_inject)

section \<open>The ledger through failures and restarts\<close>

text \<open>
  The system: the file, the ledger of the running process, and what happened so far: the reservations
  tried, the intents handed out, the claims granted. A step is one method call, with whatever the
  outside answers, or a restart of the daemon, which loses the ledger in memory and keeps the file.
  A new launch id is one no reservation had before (\<open>random_uuid_v4\<close>).
\<close>

record portal_system =
  sy_file :: ledger_file
  sy_cell :: "(string + ledger) option"
  sy_reserved :: "(string \<times> intent) list"
  sy_offered :: "intent list"
  sy_claimed :: "(string \<times> intent) list"

definition launch_ids :: "(string \<times> intent) list \<Rightarrow> string list" where
  "launch_ids = map (in_launch_id \<circ> snd)"

definition fresh_launch_id :: "portal_env \<Rightarrow> portal_system \<Rightarrow> bool" where
  "fresh_launch_id env s = (case pe_uuid env of Inl _ \<Rightarrow> True | Inr u \<Rightarrow> u \<notin> set (launch_ids (sy_reserved s)))"

inductive portal_step :: "portal_system \<Rightarrow> portal_system \<Rightarrow> bool" where
  prepares: "fresh_launch_id env s \<Longrightarrow>
     portal_prepare status env owner params (sy_cell s) (sy_file s) = (c, f, r) \<Longrightarrow>
     portal_step s (s\<lparr>sy_cell := c, sy_file := f,
       sy_reserved := (case portal_intent status env owner params of
                         Inl _ \<Rightarrow> sy_reserved s | Inr oi \<Rightarrow> oi # sy_reserved s),
       sy_offered := (case r of Inr (Some i) \<Rightarrow> i # sy_offered s | _ \<Rightarrow> sy_offered s)\<rparr>)"
| claims: "portal_claim env owner launch_id (sy_cell s) (sy_file s) = (c, f, r) \<Longrightarrow>
     portal_step s (s\<lparr>sy_cell := c, sy_file := f,
       sy_claimed := (case (owner, r) of (Some o1, Inr i) \<Rightarrow> (o1, i) # sy_claimed s | _ \<Rightarrow> sy_claimed s)\<rparr>)"
| completes: "portal_complete env owner launch_id outcome (sy_cell s) (sy_file s) = (c, f, u) \<Longrightarrow>
     portal_step s (s\<lparr>sy_cell := c, sy_file := f\<rparr>)"
| restarts: "portal_step s (s\<lparr>sy_cell := None\<rparr>)"

inductive portal_reachable :: "portal_system \<Rightarrow> bool" where
  portal_start: "portal_reachable \<lparr>sy_file = NoFile, sy_cell = None, sy_reserved = [], sy_offered = [], sy_claimed = []\<rparr>"
| portal_next: "portal_reachable s \<Longrightarrow> portal_step s t \<Longrightarrow> portal_reachable t"

text \<open>The ledger a fresh process would read.\<close>

definition durable :: "ledger_file \<Rightarrow> ledger_state" where
  "durable file = (case file of Stored s \<Rightarrow> s | _ \<Rightarrow> ledger_state_default)"

definition episodes_sorted :: "ledger_state \<Rightarrow> bool" where
  "episodes_sorted s \<longleftrightarrow> sorted_wrt (<) (map fst (ls_episodes s))"

abbreviation episode_of :: "ledger_state \<Rightarrow> string \<Rightarrow> episode_entry option" where
  "episode_of s \<equiv> map_of (ls_episodes s)"

lemma upsert_keys: "fst ` set (upsert f d k m) = insert k (fst ` set m)"
  by (induction f d k m rule: upsert.induct) auto

lemma upsert_sorted: "sorted_wrt (<) (map fst m) \<Longrightarrow> sorted_wrt (<) (map fst (upsert f d k m))"
proof (induction f d k m rule: upsert.induct)
  case (2 f d k k' v m)
  show ?case
  proof (cases "k' < k")
    case True
    have "\<forall>x \<in> fst ` set (upsert f d k m). k' < x"
      using 2 True unfolding upsert_keys by auto
    then show ?thesis using 2 True by auto
  next
    case False
    with 2 show ?thesis by auto
  qed
qed simp

lemma upsert_lookup:
  "sorted_wrt (<) (map fst m) \<Longrightarrow>
   map_of (upsert f d k m) = (map_of m)(k \<mapsto> f (case map_of m k of None \<Rightarrow> d | Some v \<Rightarrow> v))"
proof (induction f d k m rule: upsert.induct)
  case (2 f d k k' v m)
  have "map_of m k = None" if "k \<le> k'"
    using 2(2) that by (force simp: map_of_eq_None_iff)
  with 2 show ?case by (auto simp: fun_eq_iff)
qed auto

text \<open>Two records of the same launch: a fallback may have replaced the URL.\<close>

definition same_launch :: "intent \<Rightarrow> intent \<Rightarrow> bool" where
  "same_launch i j \<longleftrightarrow> in_launch_id i = in_launch_id j \<and> in_episode i = in_episode j \<and> in_reason i = in_reason j"

definition reserved_by :: "(string \<times> intent) list \<Rightarrow> string \<Rightarrow> intent \<Rightarrow> bool" where
  "reserved_by R owner i \<longleftrightarrow> (\<exists>j. (owner, j) \<in> set R \<and> same_launch j i)"

definition launch_at :: "ledger_state \<Rightarrow> string \<Rightarrow> launch option" where
  "launch_at s k = Option.bind (episode_of s k) ep_launch"

definition attempted :: "ledger_state \<Rightarrow> string \<Rightarrow> bool" where
  "attempted s k = (case episode_of s k of None \<Rightarrow> False | Some e \<Rightarrow> ep_automatic_attempted e)"

definition launch_ok :: "(string \<times> intent) list \<Rightarrow> string \<Rightarrow> launch \<Rightarrow> bool" where
  "launch_ok R k la \<longleftrightarrow> in_episode (la_intent la) = k \<and> reserved_by R (la_owner la) (la_intent la)"

definition claim_ok :: "ledger_state \<Rightarrow> (string \<times> intent) list \<Rightarrow> string \<times> intent \<Rightarrow> bool" where
  "claim_ok s R = (\<lambda>(owner, i). reserved_by R owner i \<and>
     (\<forall>k la. launch_at s k = Some la \<and> in_launch_id (la_intent la) = in_launch_id i \<longrightarrow> la_phase la \<noteq> Reserved))"

definition automatic_episodes :: "intent list \<Rightarrow> string list" where
  "automatic_episodes os = map in_episode (filter (\<lambda>i. in_reason i = Automatic) os)"

definition books :: "ledger_state \<Rightarrow> (string \<times> intent) list \<Rightarrow> intent list \<Rightarrow> (string \<times> intent) list \<Rightarrow> bool" where
  "books s R os cs \<longleftrightarrow> episodes_sorted s \<and> distinct (launch_ids R) \<and>
     (\<forall>k la. launch_at s k = Some la \<longrightarrow> launch_ok R k la) \<and>
     (\<forall>i \<in> set os. \<exists>owner. reserved_by R owner i) \<and>
     (\<forall>k \<in> set (automatic_episodes os). attempted s k) \<and> distinct (automatic_episodes os) \<and>
     (\<forall>c \<in> set cs. claim_ok s R c) \<and> distinct (launch_ids cs)"

lemma same_launch_refl [simp]: "same_launch i i"
  by (simp add: same_launch_def)

lemma reserved_by_Cons: "reserved_by (x # R) owner i \<longleftrightarrow> (fst x = owner \<and> same_launch (snd x) i) \<or> reserved_by R owner i"
  by (cases x) (auto simp: reserved_by_def)

lemma reserved_by_id: "reserved_by R owner i \<Longrightarrow> in_launch_id i \<in> set (launch_ids R)"
  by (force simp: reserved_by_def launch_ids_def same_launch_def)

lemma reserved_unique:
  assumes "distinct (launch_ids R)" "reserved_by R o1 i" "reserved_by R o2 j" "in_launch_id i = in_launch_id j"
  shows "o1 = o2 \<and> same_launch i j"
proof -
  from assms obtain a b where "(o1, a) \<in> set R" "(o2, b) \<in> set R" and s: "same_launch a i" "same_launch b j"
    by (auto simp: reserved_by_def)
  moreover have "inj_on (in_launch_id \<circ> snd) (set R)" using assms(1) by (simp add: launch_ids_def distinct_map)
  moreover from s assms(4) have "(in_launch_id \<circ> snd) (o1, a) = (in_launch_id \<circ> snd) (o2, b)"
    by (simp add: same_launch_def)
  ultimately have "(o1, a) = (o2, b)" by (meson inj_onD)
  with s show ?thesis by (auto simp: same_launch_def)
qed

text \<open>A reservation that is tried and not recorded.\<close>

lemma books_reserving:
  assumes "books s R os cs" and "in_launch_id i \<notin> set (launch_ids R)"
  shows "books s ((owner, i) # R) os cs"
proof -
  have mono: "reserved_by R o1 j \<Longrightarrow> reserved_by ((owner, i) # R) o1 j" for o1 j
    by (simp add: reserved_by_Cons)
  then have "launch_ok R k la \<Longrightarrow> launch_ok ((owner, i) # R) k la" "claim_ok s R c \<Longrightarrow> claim_ok s ((owner, i) # R) c" for k la c
    by (auto simp: launch_ok_def claim_ok_def)
  moreover have "distinct (launch_ids ((owner, i) # R))"
    using assms by (simp add: books_def launch_ids_def)
  ultimately show ?thesis using assms(1) mono unfolding books_def by meson
qed

lemma launch_at_upd:
  "episode_of s' = (episode_of s)(k \<mapsto> e) \<Longrightarrow> launch_at s' k' = (if k' = k then ep_launch e else launch_at s k')"
  by (simp add: launch_at_def)

lemma attempted_upd:
  "episode_of s' = (episode_of s)(k \<mapsto> e) \<Longrightarrow> attempted s' k' = (if k' = k then ep_automatic_attempted e else attempted s k')"
  by (simp add: attempted_def)

text \<open>A reservation that is recorded, and then offered.\<close>

lemma books_reserved:
  assumes b: "books s R os cs" and new: "in_launch_id i \<notin> set (launch_ids R)" and same: "same_launch i j"
    and s': "episodes_sorted s'" "episode_of s' = (episode_of s)(in_episode i \<mapsto> e)"
    and e: "ep_launch e = Some \<lparr>la_intent = j, la_owner = owner, la_phase = Reserved, la_outcome = None\<rparr>"
    and kept: "attempted s (in_episode i) \<Longrightarrow> ep_automatic_attempted e"
  shows "books s' ((owner, i) # R) os cs"
proof -
  note b' = books_reserving [OF b new, of owner]
  have at: "launch_at s' k = (if k = in_episode i
      then Some \<lparr>la_intent = j, la_owner = owner, la_phase = Reserved, la_outcome = None\<rparr> else launch_at s k)" for k
    using launch_at_upd [OF s'(2)] e by simp
  have "claim_ok s' ((owner, i) # R) c" if "c \<in> set cs" for c
  proof -
    obtain o1 i1 where c: "c = (o1, i1)" by (cases c)
    from b that have "claim_ok s R c" by (simp add: books_def)
    then have "in_launch_id i1 \<noteq> in_launch_id j"
      using new same reserved_by_id [of R o1 i1] by (auto simp: claim_ok_def c same_launch_def)
    then show ?thesis
      using \<open>claim_ok s R c\<close> by (auto simp: claim_ok_def c at reserved_by_Cons split: if_splits)
  qed
  moreover have "launch_ok ((owner, i) # R) k la" if "launch_at s' k = Some la" for k la
  proof (cases "k = in_episode i")
    case True
    with that at same show ?thesis by (auto simp: launch_ok_def reserved_by_Cons same_launch_def)
  next
    case False
    with that at b' show ?thesis by (simp add: books_def)
  qed
  moreover have "attempted s' k" if "k \<in> set (automatic_episodes os)" for k
    using that b kept by (auto simp: attempted_upd [OF s'(2)] books_def)
  ultimately show ?thesis using b' s'(1) unfolding books_def by blast
qed

lemma books_offered:
  assumes "books s R os cs" and "reserved_by R owner i"
    and "in_reason i = Automatic \<Longrightarrow> attempted s (in_episode i) \<and> in_episode i \<notin> set (automatic_episodes os)"
  shows "books s R (i # os) cs"
  using assms by (auto simp: books_def automatic_episodes_def)

text \<open>A launch that moves on from its reservation, and then counts as claimed.\<close>

lemma books_advanced:
  assumes b: "books s R os cs" and la: "launch_at s k = Some la"
    and s': "episodes_sorted s'" "episode_of s k = Some e" "episode_of s' = (episode_of s)(k \<mapsto> e\<lparr>ep_launch := Some la'\<rparr>)"
    and la': "la_intent la' = la_intent la" "la_owner la' = la_owner la" "la_phase la' \<noteq> Reserved"
  shows "books s' R os cs"
proof -
  have at: "launch_at s' k' = (if k' = k then Some la' else launch_at s k')" for k'
    using launch_at_upd [OF s'(3)] by simp
  have "attempted s' k' = attempted s k'" for k'
    using attempted_upd [OF s'(3)] s'(2) by (simp add: attempted_def)
  moreover have "launch_ok R k' l" if "launch_at s' k' = Some l" for k' l
    using that b la la' by (auto simp: at books_def launch_ok_def split: if_splits)
  moreover have "claim_ok s' R c" if "c \<in> set cs" for c
    using that b la'(3) by (auto simp: at books_def claim_ok_def split: if_splits)
  ultimately show ?thesis using b s'(1) unfolding books_def by simp
qed

lemma books_claimed:
  assumes b: "books s R os cs" and la: "launch_at s k = Some la" "la_phase la \<noteq> Reserved"
    and new: "in_launch_id (la_intent la) \<notin> set (launch_ids cs)"
  shows "books s R os ((la_owner la, la_intent la) # cs)"
proof -
  from b la have ok: "launch_ok R k la" by (simp add: books_def)
  have "la_phase l \<noteq> Reserved" if "launch_at s k' = Some l" "in_launch_id (la_intent l) = in_launch_id (la_intent la)" for k' l
  proof -
    from b that have "launch_ok R k' l" by (simp add: books_def)
    with ok that b have "k' = k"
      using reserved_unique [of R "la_owner l" "la_intent l" "la_owner la" "la_intent la"]
      by (auto simp: launch_ok_def books_def same_launch_def)
    with that la show ?thesis by simp
  qed
  with ok b new show ?thesis by (auto simp: books_def claim_ok_def launch_ok_def launch_ids_def)
qed

text \<open>A usable ledger agrees with the file.\<close>

definition in_step :: "ledger \<Rightarrow> ledger_file \<Rightarrow> bool" where
  "in_step l file \<longleftrightarrow> lg_poisoned l \<or> lg_state l = durable file"

lemma persist_cases:
  assumes "\<not> lg_poisoned l" and "persist env l file = (l2, f2, r)"
  obtains "r = Inr ()" "in_step l2 f2" "durable f2 = lg_state l"
  | e where "r = Inl e" "in_step l2 f2" "durable f2 = lg_state l \<or> f2 = file"
  using assms by (auto simp: persist_def in_step_def durable_def split: if_splits write_result.splits)

lemma in_step_state: "in_step l file \<Longrightarrow> \<not> lg_poisoned l \<Longrightarrow> lg_state l = durable file"
  by (simp add: in_step_def)

lemma upsert_episodes:
  assumes "episodes_sorted s"
  shows "episodes_sorted (s\<lparr>ls_episodes := upsert f d k (ls_episodes s)\<rparr>)"
    and "episode_of (s\<lparr>ls_episodes := upsert f d k (ls_episodes s)\<rparr>) =
           (episode_of s)(k \<mapsto> f (case episode_of s k of None \<Rightarrow> d | Some v \<Rightarrow> v))"
  using assms upsert_sorted upsert_lookup by (auto simp: episodes_sorted_def)

lemma reserve_cases:
  assumes "reserve env i owner fallback now l file = (l2, f2, r)"
  obtains "l2 = l" "f2 = file" "\<nexists>j. r = Inr (Some j)"
  | j e l' where "\<not> lg_poisoned l" "in_reason i = Automatic \<Longrightarrow> \<not> attempted (lg_state l) (in_episode i)"
      "same_launch i j" "l' = l\<lparr>lg_state := (lg_state l)\<lparr>ls_episodes := upsert e episode_default (in_episode i) (ls_episodes (lg_state l))\<rparr>\<rparr>"
      "\<And>x. ep_launch (e x) = Some \<lparr>la_intent = j, la_owner = owner, la_phase = Reserved, la_outcome = None\<rparr>"
      "\<And>x. ep_automatic_attempted (e x) = (ep_automatic_attempted x \<or> in_reason j = Automatic)"
      "\<exists>q. persist env l' file = (l2, f2, q) \<and> r = and_then q (\<lambda>_. Inr (Some j))"
proof -
  define entry where "entry = (case map_of (ls_episodes (lg_state l)) (in_episode i) of Some e \<Rightarrow> e | None \<Rightarrow> episode_default)"
  define j where "j = (if fallback then i\<lparr>in_url := fallback_url (ep_fallback_index entry)\<rparr> else i)"
  define e where "e = (\<lambda>e :: episode_entry. e\<lparr>ep_fallback_index := (if fallback
                         then (ep_fallback_index e mod length FALLBACKS + 1) mod length FALLBACKS
                         else ep_fallback_index e),
                       ep_automatic_attempted := (ep_automatic_attempted e \<or> in_reason j = Automatic),
                       ep_launch := Some \<lparr>la_intent = j, la_owner = owner, la_phase = Reserved,
                                          la_outcome = None\<rparr>\<rparr>)"
  define l' where "l' = l\<lparr>lg_state := (lg_state l)\<lparr>ls_episodes := upsert e episode_default (in_episode i) (ls_episodes (lg_state l))\<rparr>\<rparr>"
  have ji: "in_episode j = in_episode i" "same_launch i j" by (simp_all add: j_def same_launch_def)
  have att: "ep_automatic_attempted entry = attempted (lg_state l) (in_episode i)"
    by (simp add: entry_def attempted_def episode_default_def split: option.splits)
  obtain q1 q2 q3 where q: "persist env l' file = (q1, q2, q3)" by (cases "persist env l' file") auto
  note unf = assms [unfolded reserve_def Let_def, folded entry_def, folded j_def, folded e_def, unfolded ji, folded l'_def]
  show ?thesis
  proof (cases "lg_poisoned l \<or> in_reason i = Automatic \<and> ep_automatic_attempted entry
      \<or> (\<exists>(k, e) \<in> set (ls_episodes (lg_state l)). launch_busy now e)
      \<or> map_of (ls_episodes (lg_state l)) (in_episode i) = None \<and> LEDGER_LIMIT \<le> length (ls_episodes (lg_state l))")
    case True
    with unf show ?thesis by (intro that(1)) (auto split: if_splits)
  next
    case False
    with unf q have "q1 = l2" "q2 = f2" "r = and_then q3 (\<lambda>_. Inr (Some j))"
      by (auto split: sum.splits)
    with False att ji q show ?thesis
      by (intro that(2) [of j l' e]) (auto simp: l'_def e_def)
  qed
qed

lemma reserve_books:
  assumes step: "in_step l file" and b: "books (durable file) R os cs" and new: "in_launch_id i \<notin> set (launch_ids R)"
    and r: "reserve env i owner fallback now l file = (l2, f2, r)"
  shows "in_step l2 f2 \<and> books (durable f2) ((owner, i) # R)
           (case r of Inr (Some j) \<Rightarrow> j # os | _ \<Rightarrow> os) cs"
  using r
proof (cases rule: reserve_cases)
  case 1
  then show ?thesis using step books_reserving [OF b new, of owner] by (auto split: sum.splits option.splits)
next
  case (2 j e l')
  from in_step_state [OF step 2(1)] have st: "lg_state l = durable file" .
  from b have "episodes_sorted (durable file)" by (simp add: books_def)
  note up = upsert_episodes [OF this, of e episode_default "in_episode i"]
  from 2(4) st have l': "lg_state l' = (durable file)\<lparr>ls_episodes := upsert e episode_default (in_episode i) (ls_episodes (durable file))\<rparr>"
    "\<not> lg_poisoned l'" using 2(1) by simp_all
  have books': "books (lg_state l') ((owner, i) # R) os cs"
    by (rule books_reserved [OF b new 2(3)]) (use up l' 2(5,6) in \<open>auto simp: attempted_def split: option.splits\<close>)
  have offered: "books (lg_state l') ((owner, i) # R) (j # os) cs"
  proof (rule books_offered [OF books'])
    show "reserved_by ((owner, i) # R) owner j" using 2(3) by (simp add: reserved_by_Cons)
    assume auto_j: "in_reason j = Automatic"
    with 2(2,3) st have "\<not> attempted (durable file) (in_episode j)" by (simp add: same_launch_def)
    with b have "in_episode j \<notin> set (automatic_episodes os)" by (auto simp: books_def)
    moreover have "attempted (lg_state l') (in_episode j)"
      using up(2) l' 2(3,6) auto_j by (simp add: attempted_def same_launch_def)
    ultimately show "attempted (lg_state l') (in_episode j) \<and> in_episode j \<notin> set (automatic_episodes os)" by simp
  qed
  from 2(7) obtain q where q: "persist env l' file = (l2, f2, q)" "r = and_then q (\<lambda>_. Inr (Some j))" by blast
  from l'(2) q(1) show ?thesis
  proof (cases rule: persist_cases)
    case 1
    then show ?thesis using offered q(2) by simp
  next
    case (2 x)
    then show ?thesis using books' books_reserving [OF b new, of owner] q(2) by auto
  qed
qed

lemma find_launch_at:
  assumes "episodes_sorted (lg_state l)" and "find_launch launch_id owner l = Inr (k, la)"
  obtains e where "episode_of (lg_state l) k = Some e" "ep_launch e = Some la"
    "in_launch_id (la_intent la) = launch_id" "la_owner la = owner" "\<not> lg_poisoned l"
proof -
  from assms(2) obtain e where f: "find (owned_launch launch_id owner) (ls_episodes (lg_state l)) = Some (k, e)"
      "ep_launch e = Some la" "\<not> lg_poisoned l"
    by (auto simp: find_launch_def split: if_splits option.splits)
  then have "(k, e) \<in> set (ls_episodes (lg_state l))" "owned_launch launch_id owner (k, e)"
    by (auto simp: find_Some_iff)
  moreover have "distinct (map fst (ls_episodes (lg_state l)))"
    using assms(1) by (simp add: episodes_sorted_def strict_sorted_iff)
  ultimately show ?thesis using f(2,3) that [of e] by (auto simp: owned_launch_def)
qed

lemma put_launch_state:
  assumes "episodes_sorted (lg_state l)" and "episode_of (lg_state l) k = Some e"
  shows "episodes_sorted (lg_state (put_launch k la' l))"
    and "episode_of (lg_state (put_launch k la' l)) = (episode_of (lg_state l))(k \<mapsto> e\<lparr>ep_launch := Some la'\<rparr>)"
    and "lg_poisoned (put_launch k la' l) = lg_poisoned l"
  using upsert_episodes [OF assms(1), of "\<lambda>e. e\<lparr>ep_launch := Some la'\<rparr>" episode_default k] assms(2)
  by (simp_all add: put_launch_def)

text \<open>Moving a found launch on and writing the result.\<close>

lemma advance_books:
  assumes step: "in_step l file" and b: "books (durable file) R os cs"
    and f: "find_launch launch_id owner l = Inr (k, la)"
    and la': "la_intent la' = la_intent la" "la_owner la' = la_owner la" "la_phase la' \<noteq> Reserved"
    and p: "persist env (put_launch k la' l) file = (l2, f2, q)"
  shows "in_step l2 f2 \<and> books (durable f2) R os cs \<and> (q = Inr () \<longrightarrow> launch_at (durable f2) k = Some la')
    \<and> launch_at (durable file) k = Some la \<and> in_launch_id (la_intent la) = launch_id \<and> la_owner la = owner"
proof -
  from f have np: "\<not> lg_poisoned l" by (auto simp: find_launch_def split: if_splits)
  note st = in_step_state [OF step np]
  from b st have srt: "episodes_sorted (lg_state l)" by (simp add: books_def)
  obtain e where e: "episode_of (lg_state l) k = Some e" "ep_launch e = Some la"
    "in_launch_id (la_intent la) = launch_id" "la_owner la = owner"
    using find_launch_at [OF srt f] by metis
  note pl = put_launch_state [OF srt e(1), of la']
  have at: "launch_at (durable file) k = Some la" using e(1,2) st by (simp add: launch_at_def)
  have bk: "books (lg_state (put_launch k la' l)) R os cs"
    by (rule books_advanced [OF b at, of _ e la']) (use pl e st la' in auto)
  have np': "\<not> lg_poisoned (put_launch k la' l)" using pl np by simp
  have at': "launch_at (lg_state (put_launch k la' l)) k = Some la'" using pl(2) by (simp add: launch_at_def)
  from np' p show ?thesis
    by (cases rule: persist_cases) (use bk b at at' e in auto)
qed

lemma claim_books:
  assumes step: "in_step l file" and b: "books (durable file) R os cs"
    and c: "ledger_claim env launch_id owner episode captive now l file = (l2, f2, r)"
  shows "in_step l2 f2 \<and> books (durable f2) R os (case r of Inr i \<Rightarrow> (owner, i) # cs | _ \<Rightarrow> cs)"
proof (cases "find_launch launch_id owner l")
  case (Inl e)
  with c step b show ?thesis by (auto simp: ledger_claim_def)
next
  case (Inr kl)
  obtain k la where kl: "kl = (k, la)" by (cases kl)
  note f = Inr [unfolded kl]
  define la' where "la' = la\<lparr>la_phase := Claimed\<rparr>"
  obtain q1 q2 q where q: "persist env (put_launch k la' l) file = (q1, q2, q)"
    by (cases "persist env (put_launch k la' l) file") auto
  note adv = advance_books [OF step b f _ _ _ q, unfolded la'_def, simplified, folded la'_def]
  show ?thesis
  proof (cases "la_phase la = Reserved \<and> now < in_expires_at_ms (la_intent la) \<and>
      in_episode (la_intent la) = episode \<and> (in_reason (la_intent la) = Manual \<or> captive)")
    case True
    with c f q have res: "l2 = q1" "f2 = q2" "r = and_then q (\<lambda>_. Inr (la_intent la))"
      by (auto simp: ledger_claim_def la'_def split: sum.splits)
    show ?thesis
    proof (cases q)
      case (Inr u)
      have "launch_ids cs = map (in_launch_id \<circ> snd) cs" by (simp add: launch_ids_def)
      have new: "in_launch_id (la_intent la') \<notin> set (launch_ids cs)"
      proof
        assume "in_launch_id (la_intent la') \<in> set (launch_ids cs)"
        then obtain o1 i1 where "(o1, i1) \<in> set cs" "in_launch_id i1 = in_launch_id (la_intent la)"
          by (auto simp: launch_ids_def la'_def)
        with b adv True show False by (fastforce simp: books_def claim_ok_def)
      qed
      have "books (durable q2) R os ((la_owner la', la_intent la') # cs)"
        by (rule books_claimed [OF _ _ _ new]) (use adv Inr in \<open>auto simp: la'_def\<close>)
      then show ?thesis using adv res Inr by (simp add: la'_def)
    qed (use adv res in simp)
  next
    case False
    with c f step b show ?thesis by (auto simp: ledger_claim_def split: if_splits)
  qed
qed

lemma complete_books:
  assumes step: "in_step l file" and b: "books (durable file) R os cs"
    and c: "ledger_complete env launch_id owner outcome l file = (l2, f2, r)"
  shows "in_step l2 f2 \<and> books (durable f2) R os cs"
proof (cases "find_launch launch_id owner l")
  case (Inl e)
  with c step b show ?thesis by (auto simp: ledger_complete_def)
next
  case (Inr kl)
  obtain k la where kl: "kl = (k, la)" by (cases kl)
  obtain q1 q2 q where q: "persist env (put_launch k (la\<lparr>la_phase := PhaseComplete, la_outcome := Some outcome\<rparr>) l) file = (q1, q2, q)"
    by (cases "persist env (put_launch k (la\<lparr>la_phase := PhaseComplete, la_outcome := Some outcome\<rparr>) l) file") auto
  from advance_books [OF step b Inr [unfolded kl] _ _ _ q] Inr kl c q step b show ?thesis
    by (auto simp: ledger_complete_def split: if_splits)
qed

definition portal_inv :: "portal_system \<Rightarrow> bool" where
  "portal_inv s \<longleftrightarrow> books (durable (sy_file s)) (sy_reserved s) (sy_offered s) (sy_claimed s) \<and>
     (\<forall>l. sy_cell s = Some (Inr l) \<longrightarrow> in_step l (sy_file s))"

lemma ledger_open_in_step: "ledger_open lock file = Inr l \<Longrightarrow> in_step l file"
  by (cases "file") (auto simp: ledger_open_def in_step_def durable_def and_then_Inr_iff split: if_splits)

text \<open>An action on the ledger that keeps the books, run through \<open>with_ledger\<close>.\<close>

lemma with_ledger_books:
  assumes inv: "portal_inv s" and w: "with_ledger lock action (sy_cell s) (sy_file s) = (c, f, r)"
    and act: "\<And>l l2 f2 r. in_step l (sy_file s) \<Longrightarrow> action l (sy_file s) = (l2, f2, r) \<Longrightarrow>
        in_step l2 f2 \<and> books (durable f2) R' (os' r) (cs' r)"
    and idle: "\<And>e. books (durable (sy_file s)) R' (os' (Inl e)) (cs' (Inl e))"
  shows "(\<forall>l. c = Inr l \<longrightarrow> in_step l f) \<and> books (durable f) R' (os' r) (cs' r)"
proof (cases "ledger_cell lock (sy_file s) (sy_cell s)")
  case (Inl e)
  with w idle show ?thesis by (auto simp: with_ledger_def)
next
  case (Inr l)
  then have "in_step l (sy_file s)"
    using inv ledger_open_in_step by (auto simp: ledger_cell_def portal_inv_def split: option.splits sum.splits)
  moreover obtain l2 f2 r2 where a: "action l (sy_file s) = (l2, f2, r2)" by (cases "action l (sy_file s)") auto
  ultimately show ?thesis using w Inr act [of l l2 f2 r2] by (auto simp: with_ledger_def)
qed

lemma portal_intent_id: "portal_intent status env owner params = Inr (o1, i) \<Longrightarrow> pe_uuid env = Inr (in_launch_id i)"
  by (auto simp: portal_intent_def portal_validate_def and_then_Inr_iff split: if_splits prod.splits)

lemma portal_step_inv: "portal_step s t \<Longrightarrow> portal_inv s \<Longrightarrow> portal_inv t"
proof (induction rule: portal_step.induct)
  case (prepares env s status owner params c f r)
  show ?case
  proof (cases "portal_intent status env owner params")
    case (Inl e)
    with prepares show ?thesis by (auto simp: portal_prepare_def portal_inv_def)
  next
    case (Inr oi)
    obtain o1 i where oi: "oi = (o1, i)" by (cases oi)
    have new: "in_launch_id i \<notin> set (launch_ids (sy_reserved s))"
      using prepares(1) portal_intent_id Inr oi by (auto simp: fresh_launch_id_def)
    let ?act = "reserve (pe_disk env) i o1 (pp_fallback params) (pe_now_ms env)"
    from prepares(2) Inr oi obtain c' where w: "with_ledger (pe_lock env) ?act (sy_cell s) (sy_file s) = (c', f, r)" and c: "c = Some c'"
      by (auto simp: portal_prepare_def split: prod.splits)
    have b: "books (durable (sy_file s)) (sy_reserved s) (sy_offered s) (sy_claimed s)"
      using prepares(3) by (simp add: portal_inv_def)
    have "(\<forall>l. c' = Inr l \<longrightarrow> in_step l f) \<and> books (durable f) ((o1, i) # sy_reserved s)
        (case r of Inr (Some j) \<Rightarrow> j # sy_offered s | _ \<Rightarrow> sy_offered s) (sy_claimed s)"
      by (rule with_ledger_books [OF prepares(3) w, of _ "\<lambda>r. case r of Inr (Some j) \<Rightarrow> j # sy_offered s | _ \<Rightarrow> sy_offered s" "\<lambda>_. sy_claimed s"])
        (use reserve_books [OF _ b new] books_reserving [OF b new] in auto)
    then show ?thesis using Inr oi c by (simp add: portal_inv_def)
  qed
next
  case (claims env owner launch_id s c f r)
  let ?pre = "and_then (ok_or owner (invalid ''portal claim requires a transport owner'')) (\<lambda>owner.
           and_then (portal_snapshot (pe_reads env)) (\<lambda>(nm_owner, st).
           and_then (episode_context nm_owner st) (\<lambda>(episode, _). Inr (owner, episode, cs_captive_portal st))))"
  show ?case
  proof (cases ?pre)
    case (Inl e)
    with claims show ?thesis by (auto simp: portal_claim_def portal_inv_def split: option.splits)
  next
    case (Inr x)
    obtain o1 ep captive where x: "x = (o1, ep, captive)" by (cases x)
    from Inr x have ow: "owner = Some o1" by (cases owner) (auto simp: and_then_Inr_iff split: prod.splits)
    let ?act = "ledger_claim (pe_disk env) launch_id o1 ep captive (pe_now_ms env)"
    from claims(1) Inr x obtain c' where w: "with_ledger (pe_lock env) ?act (sy_cell s) (sy_file s) = (c', f, r)" and c: "c = Some c'"
      by (auto simp: portal_claim_def split: prod.splits)
    have b: "books (durable (sy_file s)) (sy_reserved s) (sy_offered s) (sy_claimed s)"
      using claims(2) by (simp add: portal_inv_def)
    have "(\<forall>l. c' = Inr l \<longrightarrow> in_step l f) \<and> books (durable f) (sy_reserved s) (sy_offered s)
        (case r of Inr i \<Rightarrow> (o1, i) # sy_claimed s | _ \<Rightarrow> sy_claimed s)"
      by (rule with_ledger_books [OF claims(2) w, of _ "\<lambda>_. sy_offered s" "\<lambda>r. case r of Inr i \<Rightarrow> (o1, i) # sy_claimed s | _ \<Rightarrow> sy_claimed s"])
        (use claim_books [OF _ b] b in auto)
    then show ?thesis using ow c by (auto simp: portal_inv_def split: sum.splits)
  qed
next
  case (completes env owner launch_id outcome s c f u)
  have b: "books (durable (sy_file s)) (sy_reserved s) (sy_offered s) (sy_claimed s)"
    using completes(2) by (simp add: portal_inv_def)
  show ?case
  proof (cases owner)
    case None
    with completes show ?thesis by (auto simp: portal_complete_def portal_inv_def)
  next
    case (Some o1)
    with completes(1) obtain c' where w: "with_ledger (pe_lock env) (ledger_complete (pe_disk env) launch_id o1 outcome) (sy_cell s) (sy_file s) = (c', f, u)"
      and c: "c = Some c'" by (auto simp: portal_complete_def split: prod.splits)
    have "(\<forall>l. c' = Inr l \<longrightarrow> in_step l f) \<and> books (durable f) (sy_reserved s) (sy_offered s) (sy_claimed s)"
      by (rule with_ledger_books [OF completes(2) w, of _ "\<lambda>_. sy_offered s" "\<lambda>_. sy_claimed s"])
        (use complete_books [OF _ b] b in auto)
    then show ?thesis using c by (auto simp: portal_inv_def)
  qed
next
  case (restarts s)
  then show ?case by (simp add: portal_inv_def)
qed

lemma portal_reachable_inv: "portal_reachable s \<Longrightarrow> portal_inv s"
proof (induction rule: portal_reachable.induct)
  case portal_start
  show ?case
    by (simp add: portal_inv_def books_def durable_def episodes_sorted_def ledger_state_default_def launch_ids_def
        launch_at_def automatic_episodes_def)
next
  case (portal_next s t)
  then show ?case using portal_step_inv by blast
qed

lemma ledger_claim_granted:
  assumes "ledger_claim env launch_id owner episode captive now l file = (l2, f2, Inr i)"
  shows "in_launch_id i = launch_id \<and> in_episode i = episode \<and> now < in_expires_at_ms i \<and> (in_reason i = Manual \<or> captive)"
proof -
  from assms obtain k la where "find_launch launch_id owner l = Inr (k, la)"
    by (cases "find_launch launch_id owner l") (auto simp: ledger_claim_def)
  moreover then have "in_launch_id (la_intent la) = launch_id"
    by (auto simp: find_launch_def find_Some_iff owned_launch_def split: if_splits option.splits)
  ultimately show ?thesis
    using assms by (auto simp: ledger_claim_def split: if_splits prod.splits sum.splits)
qed

text \<open>
  C18. A captive portal is opened automatically at most once per episode (one activation under one
  NetworkManager), and a launch is claimed at most once, over every sequence of calls by any
  frontends, failed or half-done writes of the ledger and restarts of the daemon; a claim goes to
  the frontend that reserved the launch. A claim is granted only before the launch expires, on the
  connection it was prepared for, and for an automatic launch only while that connection is captive.
\<close>

theorem portal_launched_once:
  assumes "portal_reachable s"
  shows "distinct (automatic_episodes (sy_offered s)) \<and> distinct (launch_ids (sy_claimed s)) \<and>
    (\<forall>(owner, i) \<in> set (sy_claimed s). reserved_by (sy_reserved s) owner i) \<and>
    (\<forall>env owner launch_id c f i. portal_claim env owner launch_id (sy_cell s) (sy_file s) = (c, f, Inr i) \<longrightarrow>
      in_launch_id i = launch_id \<and> pe_now_ms env < in_expires_at_ms i \<and>
      (\<exists>o1 nm st p. owner = Some o1 \<and> portal_snapshot (pe_reads env) = Inr (nm, st) \<and>
         cs_primary_connection st = Some p \<and> in_episode i = episode_text nm (pci_path p) (pci_uuid p) \<and>
         (in_reason i = Manual \<or> cs_captive_portal st)))"
proof (intro conjI allI impI)
  have b: "books (durable (sy_file s)) (sy_reserved s) (sy_offered s) (sy_claimed s)"
    using portal_reachable_inv [OF assms] by (simp add: portal_inv_def)
  then show "distinct (automatic_episodes (sy_offered s))" "distinct (launch_ids (sy_claimed s))"
    "\<forall>(owner, i) \<in> set (sy_claimed s). reserved_by (sy_reserved s) owner i"
    by (auto simp: books_def claim_ok_def)
next
  fix env owner launch_id c f i
  assume "portal_claim env owner launch_id (sy_cell s) (sy_file s) = (c, f, Inr i)"
  then obtain o1 nm st ep p where pre: "owner = Some o1" "portal_snapshot (pe_reads env) = Inr (nm, st)"
      "episode_context nm st = Inr (ep, p)"
    and "\<exists>c'. with_ledger (pe_lock env) (ledger_claim (pe_disk env) launch_id o1 ep (cs_captive_portal st) (pe_now_ms env))
          (sy_cell s) (sy_file s) = (c', f, Inr i)"
    by (cases owner) (auto simp: portal_claim_def and_then_def split: sum.splits prod.splits)
  then obtain l l2 f2 where "ledger_claim (pe_disk env) launch_id o1 ep (cs_captive_portal st) (pe_now_ms env) l (sy_file s) = (l2, f2, Inr i)"
    by (auto simp: with_ledger_def split: sum.splits prod.splits)
  from ledger_claim_granted [OF this] pre
  show "in_launch_id i = launch_id" "pe_now_ms env < in_expires_at_ms i"
    "\<exists>o1 nm st p. owner = Some o1 \<and> portal_snapshot (pe_reads env) = Inr (nm, st) \<and>
         cs_primary_connection st = Some p \<and> in_episode i = episode_text nm (pci_path p) (pci_uuid p) \<and>
         (in_reason i = Manual \<or> cs_captive_portal st)"
    by (auto simp: episode_context_def split: option.splits if_splits)
qed

text \<open>A sample run: one frontend prepares a manual launch and claims it.\<close>

definition portal_env_sample :: "string \<Rightarrow> portal_env" where
  "portal_env_sample uuid =
     \<lparr>pe_reads = \<lparr>sr_owner = Inr '':1.4'', sr_before = Inr ''/a/1'', sr_code = Inr 2, sr_uri = None, sr_enabled = True,
        sr_available = True, sr_primary = Some \<lparr>pci_path = ''/a/1'', pci_id = ''Cafe'', pci_uuid = ''u'',
          pci_connection_type = ''802-11-wireless'', pci_type_name = None, pci_device_iface = None\<rparr>,
        sr_after = Inr ''/a/1'', sr_final_code = Inr 2, sr_final_owner = Inr '':1.4'', sr_guid = ''g''\<rparr>,
      pe_url_parse = (\<lambda>_. None), pe_uuid = Inr uuid, pe_now_ms = 100, pe_lock = Inr (),
      pe_disk = \<lparr>de_oversized = (\<lambda>_. False), de_write = Written\<rparr>\<rparr>"

definition portal_manual :: prepare_params where
  "portal_manual = \<lparr>pp_mode = Manual, pp_connect_request_id = None, pp_fallback = False\<rparr>"

definition portal_prepared :: "(string + ledger) option \<times> ledger_file \<times> (anyhow_error + intent option)" where
  "portal_prepared = portal_prepare (\<lambda>_ _. JNull) (portal_env_sample ''l1'') (Some ''ui'') portal_manual None NoFile"

definition portal_granted :: "(string + ledger) option \<times> ledger_file \<times> (anyhow_error + intent)" where
  "portal_granted = portal_claim (portal_env_sample '''') (Some ''ui'') ''l1'' (fst portal_prepared) (fst (snd portal_prepared))"

lemma portal_sample_intent:
  "\<exists>i. snd (snd portal_prepared) = Inr (Some i) \<and> snd (snd portal_granted) = Inr i"
  by (intro exI [where x = "the (projr (snd (snd portal_prepared)))"]) code_simp

lemma portal_sample_reachable:
  "\<exists>s i. portal_reachable s \<and> sy_claimed s = [(''ui'', i)] \<and> sy_offered s = [i]
     \<and> sy_cell s = fst portal_granted \<and> sy_file s = fst (snd portal_granted)"
proof -
  obtain i where i: "snd (snd portal_prepared) = Inr (Some i)" "snd (snd portal_granted) = Inr i"
    using portal_sample_intent by blast
  let ?s0 = "\<lparr>sy_file = NoFile, sy_cell = None, sy_reserved = [], sy_offered = [], sy_claimed = []\<rparr> :: portal_system"
  have "fresh_launch_id (portal_env_sample ''l1'') ?s0" by (simp add: fresh_launch_id_def launch_ids_def portal_env_sample_def)
  moreover have "portal_prepare (\<lambda>_ _. JNull) (portal_env_sample ''l1'') (Some ''ui'') portal_manual (sy_cell ?s0) (sy_file ?s0)
      = (fst portal_prepared, fst (snd portal_prepared), Inr (Some i))"
    using i(1) by (simp add: portal_prepared_def [symmetric] prod_eq_iff)
  ultimately obtain s1 where s1: "portal_step ?s0 s1" "sy_cell s1 = fst portal_prepared" "sy_file s1 = fst (snd portal_prepared)"
      "sy_offered s1 = [i]" "sy_claimed s1 = []"
    using portal_step.prepares by fastforce
  have "portal_claim (portal_env_sample '''') (Some ''ui'') ''l1'' (sy_cell s1) (sy_file s1)
      = (fst portal_granted, fst (snd portal_granted), Inr i)"
    using i(2) s1 by (simp add: portal_granted_def [symmetric] prod_eq_iff)
  from portal_step.claims [OF this] s1 obtain s2 where "portal_step s1 s2" "sy_claimed s2 = [(''ui'', i)]" "sy_offered s2 = [i]"
      "sy_cell s2 = fst portal_granted" "sy_file s2 = fst (snd portal_granted)"
    by fastforce
  with s1(1) portal_start portal_next show ?thesis by meson
qed

theorem portal_launched_once_witness:
  "\<exists>s i. portal_reachable s \<and> sy_claimed s = [(''ui'', i)] \<and> reserved_by (sy_reserved s) ''ui'' i \<and>
     snd (snd (portal_claim (portal_env_sample '''') (Some ''ui'') ''l1'' (sy_cell s) (sy_file s))) \<noteq> Inr i"
proof -
  obtain s i where s: "portal_reachable s" "sy_claimed s = [(''ui'', i)]" "sy_cell s = fst portal_granted"
      "sy_file s = fst (snd portal_granted)"
    using portal_sample_reachable by blast
  have "reserved_by (sy_reserved s) ''ui'' i"
    using portal_launched_once [OF s(1)] s(2) by simp
  moreover have "\<nexists>i. snd (snd (portal_claim (portal_env_sample '''') (Some ''ui'') ''l1'' (fst portal_granted) (fst (snd portal_granted)))) = Inr i"
  proof -
    have "\<not> is_ok (snd (snd (portal_claim (portal_env_sample '''') (Some ''ui'') ''l1'' (fst portal_granted) (fst (snd portal_granted)))))"
      by code_simp
    then show ?thesis by (metis is_ok_simps(2))
  qed
  ultimately show ?thesis using s by metis
qed

section \<open>Who may open a portal\<close>

definition portal_url_ok :: "(string \<Rightarrow> parsed_url option) \<Rightarrow> connectivity_status \<Rightarrow> string \<Rightarrow> bool" where
  "portal_url_ok parse st url \<longleftrightarrow> url = ''http://neverssl.com/'' \<or> url \<in> set FALLBACKS \<or>
     (\<exists>uri p. cs_check_uri st = Some uri \<and> starts_with ''http://'' uri \<and> \<not> has_forbidden_char (map byte_val uri) \<and>
        parse uri = Some p \<and> pu_host p \<noteq> None \<and> pu_username p = [] \<and> pu_password p = None \<and> url = pu_text p)"

lemma safe_url_Some:
  "safe_url parse uri = Some url \<Longrightarrow> starts_with ''http://'' uri \<and> \<not> has_forbidden_char (map byte_val uri) \<and>
     (\<exists>p. parse uri = Some p \<and> pu_host p \<noteq> None \<and> pu_username p = [] \<and> pu_password p = None \<and> url = pu_text p)"
  by (auto simp: safe_url_def split: if_splits option.splits)

lemma fallback_url_in: "fallback_url n \<in> set FALLBACKS"
  unfolding fallback_url_def by (rule nth_mem) (simp add: FALLBACKS_def)

lemma reserve_offers:
  assumes "reserve env i owner fallback now l file = (l2, f2, Inr (Some j))"
  shows "same_launch i j \<and> (in_url j = in_url i \<or> in_url j \<in> set FALLBACKS)"
  using assms fallback_url_in
  by (auto simp: reserve_def Let_def same_launch_def split: if_splits prod.splits sum.splits)

lemma prepare_offers:
  assumes "portal_prepare status env owner params cell file = (c, f, Inr (Some j))"
  obtains o1 i where "portal_intent status env owner params = Inr (o1, i)" "same_launch i j"
    "in_url j = in_url i \<or> in_url j \<in> set FALLBACKS"
proof (cases "portal_intent status env owner params")
  case (Inl e)
  with assms show ?thesis by (simp add: portal_prepare_def)
next
  case (Inr oi)
  obtain o1 i where oi: "oi = (o1, i)" by (cases oi)
  with assms Inr obtain l l2 f2 where
    "reserve (pe_disk env) i o1 (pp_fallback params) (pe_now_ms env) l file = (l2, f2, Inr (Some j))"
    by (auto simp: portal_prepare_def with_ledger_def split: sum.splits prod.splits)
  from reserve_offers [OF this] Inr oi show ?thesis using that by blast
qed

lemma status_finished:
  assumes "recent_ok R entries" and "task_reachable R entries ts"
    and "jindex (fst (request_status R rid ow now (reg ts))) ''status'' = JStr ''finished''"
  shows "(rid, ow) \<in> set (registered ts) \<and>
     (rid, jindex (fst (request_status R rid ow now (reg ts))) ''event'') \<in> set (terminals ts)"
proof -
  from task_reachable_inv [OF assms(1,2)] have inv: "task_inv entries ts" .
  obtain found res where g: "rr_get R (results (reg ts)) rid ow = (found, res)" by fastforce
  show ?thesis
  proof (cases found)
    case None
    with assms(3) g show ?thesis
      by (auto simp: request_status_def terminal_request_status_def Let_def jindex_def jmap_of_def jmap_get_def
          split: option.splits if_splits)
  next
    case (Some v)
    with rr_get_facts [OF assms(1) g] inv have "entry_ok ts (rid, ow) v" unfolding task_inv_def by blast
    moreover have "jindex (fst (request_status R rid ow now (reg ts))) ''event'' = tr_event v"
      by (simp add: request_status_def terminal_request_status_def g Some Let_def jindex_def jmap_of_def jmap_get_def)
    ultimately show ?thesis by (simp add: entry_ok_def)
  qed
qed

text \<open>
  C36. A launch is prepared for the connection NetworkManager reports at that moment, by a frontend with
  an identity, and opens a plain \<open>http\<close> URL without credentials: the one NetworkManager probes, a
  well-known probe page, or the default. It is automatic only when the caller's own connect request
  has published a success on that very connection, was not cancelled, suggested opening the portal, and the
  connection is still captive.
\<close>

theorem portal_launch_authorised:
  assumes "recent_ok R entries" and "task_reachable R entries ts"
    and "portal_prepare (\<lambda>rid ow. fst (request_status R rid ow now (reg ts))) env owner params cell file = (c, f, Inr (Some i))"
  shows "\<exists>o1 nm st p. owner = Some o1 \<and> portal_snapshot (pe_reads env) = Inr (nm, st) \<and>
    cs_primary_connection st = Some p \<and> in_episode i = episode_text nm (pci_path p) (pci_uuid p) \<and>
    in_reason i = pp_mode params \<and> portal_url_ok (pe_url_parse env) st (in_url i) \<and>
    (pp_mode params = Automatic \<longrightarrow> cs_captive_portal st \<and>
      (\<exists>rid e. pp_connect_request_id params = Some rid \<and> (rid, Some o1) \<in> set (registered ts) \<and>
         (rid, e) \<in> set (terminals ts) \<and> rid \<notin> set (acknowledged ts) \<and> jindex e ''event'' = JStr ''succeeded'' \<and>
         (let result = jindex (jindex e ''data'') ''result'';
              previous = jindex (jindex result ''connectivity'') ''primary_connection''
          in jindex result ''suggest_open_portal'' = JBool True \<and> jindex previous ''path'' = JStr (pci_path p) \<and>
             jindex previous ''uuid'' = JStr (pci_uuid p))))"
proof -
  let ?status = "\<lambda>rid ow. fst (request_status R rid ow now (reg ts))"
  obtain o1 i0 where i0: "portal_intent ?status env owner params = Inr (o1, i0)" "same_launch i0 i"
      "in_url i = in_url i0 \<or> in_url i \<in> set FALLBACKS"
    using prepare_offers [OF assms(3)] by metis
  then obtain evidence nm st where ev: "owner = Some o1" "portal_evidence ?status o1 params = Inr evidence"
      "portal_snapshot (pe_reads env) = Inr (nm, st)"
      "portal_validate (pe_url_parse env) (pe_uuid env) params nm st evidence (pe_now_ms env) = Inr i0"
    by (cases owner) (auto simp: portal_intent_def and_then_Inr_iff split: prod.splits)
  from ev(4) obtain ep p where p: "episode_context nm st = Inr (ep, p)" "in_episode i0 = ep" "in_reason i0 = pp_mode params"
      "in_url i0 = (case Option.bind (cs_check_uri st) (safe_url (pe_url_parse env)) of Some u \<Rightarrow> u | None \<Rightarrow> ''http://neverssl.com/'')"
      "pp_mode params = Automatic \<Longrightarrow> \<not> automatic_refused params st p evidence"
    by (auto simp: portal_validate_def and_then_Inr_iff split: if_splits prod.splits)
  have prim: "cs_primary_connection st = Some p" "ep = episode_text nm (pci_path p) (pci_uuid p)"
    using p(1) by (auto simp: episode_context_def split: option.splits if_splits)
  have url: "portal_url_ok (pe_url_parse env) st (in_url i)"
    using i0(3) p(4) safe_url_Some
    by (auto simp: portal_url_ok_def split: option.splits bind_splits)
  have auto_case: "cs_captive_portal st \<and>
      (\<exists>rid e. pp_connect_request_id params = Some rid \<and> (rid, Some o1) \<in> set (registered ts) \<and>
         (rid, e) \<in> set (terminals ts) \<and> rid \<notin> set (acknowledged ts) \<and> jindex e ''event'' = JStr ''succeeded'' \<and>
         (let result = jindex (jindex e ''data'') ''result'';
              previous = jindex (jindex result ''connectivity'') ''primary_connection''
          in jindex result ''suggest_open_portal'' = JBool True \<and> jindex previous ''path'' = JStr (pci_path p) \<and>
             jindex previous ''uuid'' = JStr (pci_uuid p)))"
    if m: "pp_mode params = Automatic"
  proof -
    from ev(2) m obtain rid where rid: "pp_connect_request_id params = Some rid" "evidence = ?status rid (Some o1)"
      by (auto simp: portal_evidence_def split: option.splits if_splits)
    note ok = p(5) [OF m, unfolded automatic_refused_def Let_def de_Morgan_disj not_not]
    have fin: "(rid, Some o1) \<in> set (registered ts)" "(rid, jindex evidence ''event'') \<in> set (terminals ts)"
      using status_finished [OF assms(1,2), of rid "Some o1" now] ok rid by auto
    have "past_ok ts" using task_reachable_inv [OF assms(1,2)] by (simp add: task_inv_def)
    then have "rid \<notin> set (acknowledged ts)" using fin(2) ok by (auto simp: past_ok_def)
    then show ?thesis using ok rid fin by (auto simp: Let_def)
  qed
  show ?thesis
    using ev(1,3) prim p(2,3) i0(2) url auto_case by (auto simp: same_launch_def)
qed

definition portal_success :: json where
  "portal_success = JObj (jmap_of [(''event'', JStr ''succeeded''), (''data'', JObj (jmap_of [(''result'', JObj (jmap_of
     [(''suggest_open_portal'', JBool True), (''connectivity'', JObj [(''primary_connection'', JObj (jmap_of
       [(''path'', JStr ''/a/1''), (''uuid'', JStr ''u'')]))])]))]))])"

definition portal_registry :: "((string \<times> string option) \<times> terminal_result) list registry" where
  "portal_registry = snd (store_terminal_result keep_all ''c'' (Some ''o'') S_WifiConnect False portal_success one_task)"

definition portal_stored :: json where
  "portal_stored = the (the (fst (store_terminal_result keep_all ''c'' (Some ''o'') S_WifiConnect False portal_success one_task)))"

definition portal_tasks :: "((string \<times> string option) \<times> terminal_result) list task_system" where
  "portal_tasks = \<lparr>reg = portal_registry, registered = [(''c'', Some ''o'')], terminals = [(''c'', portal_stored)],
     acknowledged = []\<rparr>"

lemma portal_tasks_reachable: "task_reachable keep_all map_of portal_tasks"
proof -
  let ?s1 = "\<lparr>reg = one_task, registered = [(''c'', Some ''o'')], terminals = [], acknowledged = []\<rparr>"
  let ?t = "the (map_of (tasks one_task) ''c'')"
  have t: "map_of (tasks one_task) ''c'' = Some ?t" "th_owner ?t = Some ''o''" "th_kind ?t = KConnect"
    by (simp_all add: one_task_def register_task_def)
  have "fst (store_terminal_result keep_all ''c'' (Some ''o'') S_WifiConnect False portal_success one_task)
      = Some (Some portal_stored)"
    by code_simp
  then have e: "store_terminal_result keep_all ''c'' (Some ''o'') S_WifiConnect False portal_success one_task
      = (Some (Some portal_stored), portal_registry)"
    by (simp add: portal_registry_def prod_eq_iff)
  have "task_step keep_all map_of ?s1 portal_tasks"
    using task_step.finishes [where s = ?s1 and rid = "''c''" and t = ?t and R = keep_all and changed = False
      and event = portal_success and x = "Some (Some portal_stored)" and r = portal_registry and entries = map_of] t e
    by (simp add: portal_tasks_def)
  then show ?thesis using task_reachable.step [OF one_task_reachable] by blast
qed

definition portal_automatic :: prepare_params where
  "portal_automatic = \<lparr>pp_mode = Automatic, pp_connect_request_id = Some ''c'', pp_fallback = False\<rparr>"

definition portal_auto_prepared :: "(string + ledger) option \<times> ledger_file \<times> (anyhow_error + intent option)" where
  "portal_auto_prepared = portal_prepare (\<lambda>rid ow. fst (request_status keep_all rid ow 5 (reg portal_tasks)))
     (portal_env_sample ''l1'') (Some ''o'') portal_automatic None NoFile"

lemma portal_auto_offered: "\<exists>i. snd (snd portal_auto_prepared) = Inr (Some i)"
  by (intro exI [where x = "the (projr (snd (snd portal_auto_prepared)))"]) code_simp

theorem portal_launch_authorised_witness:
  "\<exists>i rid. snd (snd portal_auto_prepared) = Inr (Some i) \<and> in_reason i = Automatic \<and>
     in_episode i = episode_text ''g::1.4'' ''/a/1'' ''u'' \<and> (rid, Some ''o'') \<in> set (registered portal_tasks)"
proof -
  obtain i where i: "snd (snd portal_auto_prepared) = Inr (Some i)" using portal_auto_offered by blast
  then have "portal_prepare (\<lambda>rid ow. fst (request_status keep_all rid ow 5 (reg portal_tasks)))
     (portal_env_sample ''l1'') (Some ''o'') portal_automatic None NoFile
     = (fst portal_auto_prepared, fst (snd portal_auto_prepared), Inr (Some i))"
    by (simp add: portal_auto_prepared_def [symmetric] prod_eq_iff)
  from portal_launch_authorised [OF keep_all_ok portal_tasks_reachable this]
  have "in_reason i = Automatic \<and> in_episode i = episode_text ''g::1.4'' ''/a/1'' ''u'' \<and>
      (\<exists>rid. (rid, Some ''o'') \<in> set (registered portal_tasks))"
    by (auto simp: portal_automatic_def portal_env_sample_def portal_snapshot_def with_portal_context_def from_nm_code_def Let_def)
  with i show ?thesis by blast
qed

end
