(* ===== verification/Credentials.thy ===== *)
theory Credentials
  imports Networks
begin

text \<open>
  The credential schema of NetworkManager profiles (\<open>src/network_credentials.rs\<close>) over D-Bus settings
  (\<open>src/variant.rs\<close>): which fields of a profile are secrets, how they are read, written, merged and
  stripped, and the retention policy of a request (\<open>src/daemon_secret/storage.rs\<close>).

  A profile is a map of sections, each a map from property names to D-Bus values. A value is a string,
  a byte, an unsigned 32-bit number, a boolean, a signed 32-bit or 64-bit number, an array, a dictionary
  with string keys or one of the other D-Bus types (\<open>DOther\<close>, including dictionaries with other keys); a value wrapped in a variant is the value itself,
  since every reader below looks through one. Conversions are strict: a value of another type is
  absent. Encoding a value (\<open>owned_value\<close>) cannot fail for these types.
\<close>

section \<open>D-Bus values\<close>

datatype dbus_value =
    DStr string
  | DU8 char
  | DU32 u32
  | DBool bool
  | DI32 int
  | DI64 int
  | DU64 u64
  | DArr "dbus_value list"
  | DDict "(string \<times> dbus_value) list"
  | DOther string

type_synonym section_data = "(string, dbus_value) hash_map"
type_synonym connection_settings = "(string, section_data) hash_map"

fun value_string :: "dbus_value \<Rightarrow> string option" where
  "value_string (DStr s) = Some s"
| "value_string _ = None"

fun value_u32 :: "dbus_value \<Rightarrow> u32 option" where
  "value_u32 (DU32 n) = Some n"
| "value_u32 _ = None"

fun value_u8 :: "dbus_value \<Rightarrow> char option" where
  "value_u8 (DU8 b) = Some b"
| "value_u8 _ = None"

fun value_dict :: "dbus_value \<Rightarrow> section_data option" where
  "value_dict (DDict d) = Some d"
| "value_dict _ = None"

fun value_list :: "(dbus_value \<Rightarrow> 'a option) \<Rightarrow> dbus_value \<Rightarrow> 'a list option" where
  "value_list conv (DArr vs) = those (map conv vs)"
| "value_list conv _ = None"

definition value_dicts :: "dbus_value \<Rightarrow> section_data list option" where
  "value_dicts v = value_list value_dict v"

definition value_string_map :: "dbus_value \<Rightarrow> (string, string) hash_map option" where
  "value_string_map v =
     Option.bind (value_dict v) (\<lambda>d. those (map (\<lambda>(k, x). map_option (Pair k) (value_string x)) d))"

definition value_text :: "dbus_value \<Rightarrow> string option" where
  "value_text v =
     (case value_string v of
        Some s \<Rightarrow> Some s
      | None \<Rightarrow> Option.bind (value_list value_u8 v) (\<lambda>bs. if utf8_valid bs then Some bs else None))"

definition setting_string :: "section_data \<Rightarrow> string \<Rightarrow> string option" where
  "setting_string data key = Option.bind (hm_get data key) value_string"

definition setting_u32 :: "section_data \<Rightarrow> string \<Rightarrow> u32 option" where
  "setting_u32 data key = Option.bind (hm_get data key) value_u32"

definition setting_text :: "section_data \<Rightarrow> string \<Rightarrow> string option" where
  "setting_text data key = Option.bind (hm_get data key) value_text"

section \<open>The schema\<close>

definition WIRELESS :: string where
  "WIRELESS = ''802-11-wireless-security''"

definition known_keys :: "string \<Rightarrow> string list" where
  "known_keys sec =
     (if sec = ''802-11-wireless-security''
      then [''psk'', ''wep-key0'', ''wep-key1'', ''wep-key2'', ''wep-key3'', ''leap-password'']
      else if sec = ''802-1x''
      then [''password'', ''password-raw'', ''private-key-password'', ''phase2-private-key-password'',
            ''ca-cert-password'', ''client-cert-password'', ''phase2-ca-cert-password'',
            ''phase2-client-cert-password'', ''pin'']
      else if sec = ''gsm'' then [''password'', ''pin'']
      else if sec \<in> {''cdma'', ''ppp'', ''adsl''} then [''password'']
      else if sec = ''macsec'' then [''mka-cak'']
      else if sec = ''wifi-p2p'' then [''wps-pin'']
      else if sec = ''wireguard'' then [''private-key'']
      else [])"

definition accepts_plugin_secret_names :: "string \<Rightarrow> bool" where
  "accepts_plugin_secret_names sec \<longleftrightarrow> sec \<in> {''vpn'', ''wireguard''}"

definition default_secret_key_for_setting :: "string \<Rightarrow> string" where
  "default_secret_key_for_setting sec =
     (if sec = ''802-11-wireless-security'' then ''psk''
      else if sec = ''wifi-p2p'' then ''wps-pin''
      else if sec = ''wireguard'' then ''private-key''
      else ''password'')"

definition plugin_hint :: "string \<Rightarrow> string \<Rightarrow> string option" where
  "plugin_hint sec hint0 =
     (if sec = ''vpn'' \<and> starts_with ''x-vpn-message:'' hint0 then None
      else (let hint = (case strip_prefix ''vpn.secrets.'' hint0 of Some r \<Rightarrow> r | None \<Rightarrow> hint0)
            in Some (case Option.bind (strip_prefix sec hint) (strip_prefix ''.'') of
                       Some r \<Rightarrow> r | None \<Rightarrow> hint)))"

text \<open>\<open>Vec::dedup\<close> removes consecutive repetitions.\<close>

definition secret_keys_for :: "string \<Rightarrow> string list \<Rightarrow> string list" where
  "secret_keys_for sec hints =
     (let plugin = accepts_plugin_secret_names sec;
          keys0 = List.map_filter (\<lambda>hint.
            case (if plugin then plugin_hint sec hint else Some hint) of
              None \<Rightarrow> None | Some h \<Rightarrow> if h \<noteq> [] then Some h else None) hints;
          keys = (if plugin then remdups_adj keys0 else keys0)
      in if hints = [] \<or> (\<not> plugin \<and> keys = []) then keys @ [default_secret_key_for_setting sec] else keys)"

definition wireless_secret_key :: "connection_settings \<Rightarrow> string \<Rightarrow> string list \<Rightarrow> string option" where
  "wireless_secret_key settings sec hints =
     (if sec \<noteq> ''802-11-wireless-security'' \<or> hints \<noteq> [] then None
      else case hm_get settings sec of
             None \<Rightarrow> None
           | Some security \<Rightarrow>
               if setting_string security ''key-mgmt'' = Some ''none''
               then Some (''wep-key'' @ decimal (unat (min (case setting_u32 security ''wep-tx-keyidx'' of
                                                          Some i \<Rightarrow> i | None \<Rightarrow> 0) 3)))
               else if setting_string security ''auth-alg'' = Some ''leap'' then Some ''leap-password''
               else None)"

definition requires_secrets :: "string \<Rightarrow> section_data \<Rightarrow> bool" where
  "requires_secrets sec data =
     (if sec = ''802-11-wireless-security''
      then setting_string data ''key-mgmt'' \<in> {Some ''wpa-psk'', Some ''sae'', Some ''none''}
           \<or> setting_string data ''auth-alg'' = Some ''leap''
      else known_keys sec \<noteq> [] \<or> sec = ''vpn'')"

definition flags_key :: "string \<Rightarrow> string" where
  "flags_key key =
     (if key \<in> {''wep-key0'', ''wep-key1'', ''wep-key2'', ''wep-key3''} then ''wep-key-flags''
      else key @ ''-flags'')"

definition strip_suffix :: "string \<Rightarrow> string \<Rightarrow> string option" where
  "strip_suffix p s = map_option rev (strip_prefix (rev p) (rev s))"

definition peer_key :: "string \<Rightarrow> string option" where
  "peer_key key = Option.bind (strip_prefix ''peers.'' key) (strip_suffix ''.preshared-key'')"

section \<open>WireGuard peers and VPN maps\<close>

definition incorrect_type :: anyhow_error where
  "incorrect_type = [LContext ''incorrect type'']"

definition peer_dicts :: "section_data \<Rightarrow> anyhow_error + section_data list" where
  "peer_dicts data =
     (case hm_get data ''peers'' of
        None \<Rightarrow> Inr []
      | Some v \<Rightarrow> ok_or (value_dicts v) (LContext ''invalid WireGuard peers'' # incorrect_type))"

definition wg_peers :: "section_data \<Rightarrow> anyhow_error + section_data list" where
  "wg_peers data =
     (case hm_get data ''peers'' of None \<Rightarrow> Inr [] | Some v \<Rightarrow> ok_or (value_dicts v) incorrect_type)"

definition ambiguous_peer :: anyhow_error where
  "ambiguous_peer = [LContext ''WireGuard peer missing or ambiguous'']"

text \<open>The position of the one peer with a public key.\<close>

definition unique_peer :: "section_data list \<Rightarrow> string \<Rightarrow> anyhow_error + nat" where
  "unique_peer ps public =
     (case filter (\<lambda>i. setting_string (ps ! i) ''public-key'' = Some public) [0..<length ps] of
        [i] \<Rightarrow> Inr i
      | _ \<Rightarrow> Inl ambiguous_peer)"

definition peer_insert :: "section_data list \<Rightarrow> nat \<Rightarrow> string \<Rightarrow> dbus_value \<Rightarrow> section_data list" where
  "peer_insert ps i key v = ps[i := hm_insert key v (ps ! i)]"

definition put_peers :: "section_data list \<Rightarrow> section_data \<Rightarrow> section_data" where
  "put_peers ps data = hm_insert ''peers'' (DArr (map DDict ps)) data"

definition set_peer_value ::
    "section_data \<Rightarrow> string \<Rightarrow> string \<Rightarrow> dbus_value \<Rightarrow> anyhow_error + section_data" where
  "set_peer_value data public key v =
     and_then (wg_peers data) (\<lambda>ps.
     and_then (unique_peer ps public) (\<lambda>i.
       Inr (put_peers (peer_insert ps i key v) data)))"

definition extend_vpn_map :: "section_data \<Rightarrow> string \<Rightarrow> (string \<times> string) list \<Rightarrow> section_data" where
  "extend_vpn_map data key entries =
     (let m0 = (case Option.bind (hm_get data key) value_string_map of Some m \<Rightarrow> m | None \<Rightarrow> []);
          m = foldl (\<lambda>m (k, v). hm_insert k v m) m0 entries
      in hm_insert key (DDict (map (\<lambda>(k, v). (k, DStr v)) m)) data)"

section \<open>Reading and writing\<close>

definition AGENT_OWNED :: u32 where
  "AGENT_OWNED = 1"

definition NOT_SAVED :: u32 where
  "NOT_SAVED = 2"

text \<open>\<open>str::parse::<u32>\<close>: an optional plus sign and decimal digits, in range.\<close>

definition digit_value :: "char \<Rightarrow> nat option" where
  "digit_value c = (if 48 \<le> byte_val c \<and> byte_val c \<le> 57 then Some (byte_val c - 48) else None)"

definition parse_u32 :: "string \<Rightarrow> anyhow_error + u32" where
  "parse_u32 s =
     (let digits = (case s of c # r \<Rightarrow> if c = CHR ''+'' then r else s | [] \<Rightarrow> [])
      in case those (map digit_value digits) of
           None \<Rightarrow> Inl [LContext ''invalid digit found in string'']
         | Some ds \<Rightarrow>
             if ds = []
             then Inl [LContext (if s = [] then ''cannot parse integer from empty string'' else ''invalid digit found in string'')]
             else (let n = foldl (\<lambda>n d. 10 * n + d) 0 ds
                   in if n < 2 ^ 32 then Inr (of_nat n)
                      else Inl [LContext ''number too large to fit in target type'']))"

definition flag_value :: "section_data \<Rightarrow> string \<Rightarrow> anyhow_error + u32" where
  "flag_value data key =
     (case hm_get data key of None \<Rightarrow> Inr 0 | Some v \<Rightarrow> ok_or (value_u32 v) incorrect_type)"

definition raw_flags :: "section_data \<Rightarrow> string \<Rightarrow> string \<Rightarrow> anyhow_error + u32" where
  "raw_flags data sec key =
     (if sec = ''vpn''
      then (case Option.bind (hm_get data ''data'') value_string_map of
              None \<Rightarrow> Inl [LContext ''VPN secret policy missing'']
            | Some m \<Rightarrow>
                (case hm_get m (flags_key key) of
                   None \<Rightarrow> Inl [LContext ''VPN secret policy unspecified; refusing automatic persistence'']
                 | Some v \<Rightarrow> parse_u32 v))
      else case (if sec = ''wireguard'' then peer_key key else None) of
             Some public \<Rightarrow>
               and_then (wg_peers data) (\<lambda>ps. and_then (unique_peer ps public) (\<lambda>i.
                 flag_value (ps ! i) ''preshared-key-flags''))
           | None \<Rightarrow>
               if key \<in> set (known_keys sec) then flag_value data (flags_key key)
               else Inl [LContext ''unsupported secret schema''])"

definition secret_flags :: "connection_settings \<Rightarrow> string \<Rightarrow> string \<Rightarrow> anyhow_error + u32" where
  "secret_flags settings sec key =
     (case hm_get settings sec of
        None \<Rightarrow> Inl [LContext ''secret setting missing'']
      | Some data \<Rightarrow> and_then (raw_flags data sec key) (\<lambda>v.
          if v AND NOT 7 = 0 then Inr v else Inl [LContext ''unknown secret flags'']))"

definition set_system_owned :: "connection_settings \<Rightarrow> string \<Rightarrow> string \<Rightarrow> anyhow_error + connection_settings" where
  "set_system_owned settings sec key =
     and_then (secret_flags settings sec key) (\<lambda>flags0.
       if flags0 AND NOT_SAVED \<noteq> 0 then Inl [LContext ''temporary credentials must not be persisted'']
       else if sec = ''wifi-p2p'' then Inl [LContext ''WPS credentials are temporary'']
       else (let flags = flags0 AND NOT AGENT_OWNED
             in case hm_get settings sec of
                  None \<Rightarrow> Inl [LContext ''secret setting missing'']
                | Some data \<Rightarrow>
                    and_then
                      (if sec = ''vpn''
                       then Inr (extend_vpn_map data ''data'' [(flags_key key, decimal (unat flags))])
                       else case (if sec = ''wireguard'' then peer_key key else None) of
                              Some public \<Rightarrow> set_peer_value data public ''preshared-key-flags'' (DU32 flags)
                            | None \<Rightarrow> Inr (hm_insert (flags_key key) (DU32 flags) data))
                      (\<lambda>data'. Inr (hm_insert sec data' settings))))"

definition section_or_default :: "connection_settings \<Rightarrow> string \<Rightarrow> section_data" where
  "section_or_default settings sec = (case hm_get settings sec of Some d \<Rightarrow> d | None \<Rightarrow> [])"

definition set_text :: "connection_settings \<Rightarrow> string \<Rightarrow> string \<Rightarrow> string \<Rightarrow> anyhow_error + connection_settings" where
  "set_text settings sec key value =
     (if sec = ''vpn''
      then Inr (hm_insert sec (extend_vpn_map (section_or_default settings sec) ''secrets'' [(key, value)]) settings)
      else case (if sec = ''wireguard'' then peer_key key else None) of
             Some public \<Rightarrow>
               (case hm_get settings sec of
                  None \<Rightarrow> Inl [LContext ''WireGuard setting missing'']
                | Some data \<Rightarrow> and_then (set_peer_value data public ''preshared-key'' (DStr value))
                    (\<lambda>data'. Inr (hm_insert sec data' settings)))
           | None \<Rightarrow>
               if key \<notin> set (known_keys sec) then Inl [LContext ''unsupported secret schema'']
               else Inr (hm_insert sec (hm_insert key
                      (if key = ''password-raw'' then DArr (map DU8 value) else DStr value)
                      (section_or_default settings sec)) settings))"

definition secret_text :: "connection_settings \<Rightarrow> string \<Rightarrow> string \<Rightarrow> string option" where
  "secret_text settings sec key =
     Option.bind (hm_get settings sec) (\<lambda>data.
       if sec = ''vpn''
       then Option.bind (Option.bind (hm_get data ''secrets'') value_string_map) (\<lambda>m. hm_get m key)
       else case (if sec = ''wireguard'' then peer_key key else None) of
              Some public \<Rightarrow>
                (case peer_dicts data of
                   Inl _ \<Rightarrow> None
                 | Inr ps \<Rightarrow> Option.bind (find (\<lambda>p. setting_string p ''public-key'' = Some public) ps)
                               (\<lambda>p. setting_string p ''preshared-key''))
            | None \<Rightarrow> setting_text data key)"

section \<open>Listing, stripping and merging\<close>

definition section_values :: "string \<Rightarrow> section_data \<Rightarrow> anyhow_error + (string \<times> string) list" where
  "section_values sec data =
     (let fixed = List.map_filter (\<lambda>key. map_option (Pair key) (setting_text data key)) (known_keys sec)
      in and_then
           (if sec = ''vpn''
            then Inr (fixed @ (case Option.bind (hm_get data ''secrets'') value_string_map of Some m \<Rightarrow> m | None \<Rightarrow> []))
            else if sec = ''wireguard''
            then and_then (peer_dicts data) (\<lambda>ps. Inr (fixed @ List.map_filter (\<lambda>p.
                   Option.bind (setting_string p ''public-key'') (\<lambda>public.
                   map_option (Pair (''peers.'' @ public @ ''.preshared-key'')) (setting_string p ''preshared-key''))) ps))
            else Inr fixed)
           (\<lambda>secrets. Inr (filter (\<lambda>(_, v). v \<noteq> []) secrets)))"

fun secret_values :: "connection_settings \<Rightarrow> anyhow_error + (string \<times> string \<times> string) list" where
  "secret_values [] = Inr []"
| "secret_values ((sec, data) # rest) =
     and_then (section_values sec data) (\<lambda>xs.
     and_then (secret_values rest) (\<lambda>ys. Inr (map (\<lambda>(k, v). (sec, k, v)) xs @ ys)))"

definition metadata_key :: "string \<Rightarrow> string option" where
  "metadata_key sec =
     (if sec = ''vpn'' then Some ''secrets''
      else if sec = ''connection'' then Some ''timestamp''
      else if sec = ''802-11-wireless'' then Some ''seen-bssids''
      else None)"

definition public_section :: "string \<Rightarrow> section_data \<Rightarrow> anyhow_error + section_data" where
  "public_section sec data0 =
     (let data = foldl (\<lambda>d k. hm_remove k d) data0
            (known_keys sec @ (case metadata_key sec of Some k \<Rightarrow> [k] | None \<Rightarrow> []))
      in case (if sec = ''wireguard'' then hm_get data ''peers'' else None) of
           None \<Rightarrow> Inr data
         | Some v \<Rightarrow> and_then (ok_or (value_dicts v) incorrect_type) (\<lambda>ps.
             Inr (put_peers (map (hm_remove ''preshared-key'') ps) (hm_remove ''peers'' data))))"

fun public_settings :: "connection_settings \<Rightarrow> anyhow_error + connection_settings" where
  "public_settings [] = Inr []"
| "public_settings ((sec, data) # rest) =
     and_then (public_section sec data) (\<lambda>d.
     and_then (public_settings rest) (\<lambda>r. Inr ((sec, d) # r)))"

definition has_secrets :: "connection_settings \<Rightarrow> bool" where
  "has_secrets settings \<longleftrightarrow> (\<exists>(sec, data) \<in> set settings.
     (\<exists>k \<in> set (known_keys sec). hm_get data k \<noteq> None)
     \<or> (sec = ''vpn'' \<and> Option.bind (hm_get data ''secrets'') value_string_map \<notin> {None, Some []})
     \<or> (sec = ''wireguard'' \<and> (case peer_dicts data of Inl _ \<Rightarrow> False
          | Inr ps \<Rightarrow> \<exists>p \<in> set ps. hm_get p ''preshared-key'' \<noteq> None)))"

fun merge_peers :: "section_data list \<Rightarrow> section_data list \<Rightarrow> anyhow_error + section_data list" where
  "merge_peers targets [] = Inr targets"
| "merge_peers targets (p # ps) =
     (case hm_get p ''preshared-key'' of
        None \<Rightarrow> merge_peers targets ps
      | Some secret \<Rightarrow>
          and_then (ok_or (setting_string p ''public-key'') [LContext ''peer identity missing'']) (\<lambda>public.
          and_then (unique_peer targets public) (\<lambda>i.
            merge_peers (peer_insert targets i ''preshared-key'' secret) ps)))"

definition merge_peer_secrets :: "section_data \<Rightarrow> dbus_value \<Rightarrow> anyhow_error + section_data" where
  "merge_peer_secrets dest incoming =
     and_then (wg_peers dest) (\<lambda>targets.
     and_then (ok_or (value_dicts incoming) incorrect_type) (\<lambda>ps.
     and_then (merge_peers targets ps) (\<lambda>targets'. Inr (put_peers targets' dest))))"

definition merge_value :: "string \<Rightarrow> string \<Rightarrow> dbus_value \<Rightarrow> section_data \<Rightarrow> anyhow_error + section_data" where
  "merge_value sec key v dest =
     (if sec = ''vpn'' \<and> key = ''secrets''
      then and_then (ok_or (value_string_map v) [LContext ''invalid VPN secrets''])
             (\<lambda>incoming. Inr (extend_vpn_map dest ''secrets'' incoming))
      else if sec = ''wireguard'' \<and> key = ''peers'' then merge_peer_secrets dest v
      else if key \<in> set (known_keys sec) then Inr (hm_insert key v dest)
      else Inr dest)"

text \<open>The destination is updated in place: on an error it keeps what was merged before.\<close>

fun merge_section :: "string \<Rightarrow> section_data \<Rightarrow> section_data \<Rightarrow> section_data \<times> (anyhow_error + unit)" where
  "merge_section sec [] dest = (dest, Inr ())"
| "merge_section sec ((k, v) # kvs) dest =
     (case merge_value sec k v dest of
        Inl e \<Rightarrow> (dest, Inl e)
      | Inr dest' \<Rightarrow> merge_section sec kvs dest')"

fun merge_secrets :: "connection_settings \<Rightarrow> connection_settings \<Rightarrow> connection_settings \<times> (anyhow_error + unit)" where
  "merge_secrets target [] = (target, Inr ())"
| "merge_secrets target ((sec, kvs) # source) =
     (case hm_get target sec of
        None \<Rightarrow> merge_secrets target source
      | Some dest \<Rightarrow>
          (case merge_section sec kvs dest of
             (dest', Inl e) \<Rightarrow> (hm_insert sec dest' target, Inl e)
           | (dest', Inr _) \<Rightarrow> merge_secrets (hm_insert sec dest' target) source))"

section \<open>Retention\<close>

record retention_policy =
  rp_persistent :: "string set"
  rp_migration_required :: bool

definition policy_step :: "connection_settings \<Rightarrow> string \<Rightarrow> string \<Rightarrow> retention_policy \<Rightarrow> anyhow_error + retention_policy" where
  "policy_step settings sec key p =
     and_then (secret_flags settings sec key) (\<lambda>flags.
       if sec = ''wifi-p2p'' \<and> flags AND NOT_SAVED = 0
       then Inl [LContext ''WPS enrollment requires explicit temporary policy'']
       else Inr (if flags AND (AGENT_OWNED OR NOT_SAVED) = 0
                 then p\<lparr>rp_persistent := insert key (rp_persistent p)\<rparr>
                 else if flags AND (AGENT_OWNED OR NOT_SAVED) = AGENT_OWNED
                 then p\<lparr>rp_migration_required := True\<rparr>
                 else p))"

fun policy_fold :: "connection_settings \<Rightarrow> string \<Rightarrow> string list \<Rightarrow> retention_policy \<Rightarrow> anyhow_error + retention_policy" where
  "policy_fold settings sec [] p = Inr p"
| "policy_fold settings sec (k # ks) p = and_then (policy_step settings sec k p) (policy_fold settings sec ks)"

definition retention_default :: retention_policy where
  "retention_default = \<lparr>rp_persistent = {}, rp_migration_required = False\<rparr>"

definition policy_from_request :: "connection_settings \<Rightarrow> string \<Rightarrow> string list \<Rightarrow> anyhow_error + retention_policy" where
  "policy_from_request settings sec keys =
     (if keys = [] then Inl [LContext ''request has no supported credential names'']
      else policy_fold settings sec keys retention_default)"

definition policy_rejection :: "retention_policy \<Rightarrow> bool \<Rightarrow> string option" where
  "policy_rejection p save =
     (if \<not> save \<and> rp_persistent p \<noteq> {} then Some ''temporary-activation-required''
      else if save \<and> rp_migration_required p then Some ''networkmanager-migration-required''
      else None)"

section \<open>Containers\<close>

lemma those_map_Some: "(\<And>x. x \<in> set xs \<Longrightarrow> f x = Some (g x)) \<Longrightarrow> those (map f xs) = Some (map g xs)"
  by (induction xs) auto

lemma value_dicts_DArr [simp]: "value_dicts (DArr (map DDict ps)) = Some ps"
  using those_map_Some [of ps "\<lambda>p. value_dict (DDict p)" id] by (simp add: value_dicts_def comp_def)

lemma value_string_map_DDict [simp]:
  "value_string_map (DDict (map (\<lambda>(k, v). (k, DStr v)) m)) = Some m"
  using those_map_Some [of m "\<lambda>(k, v). Some (k, v)" id]
  by (simp add: value_string_map_def comp_def case_prod_unfold)

lemma value_text_raw: "utf8_valid bs \<Longrightarrow> value_text (DArr (map DU8 bs)) = Some bs"
  using those_map_Some [of bs "\<lambda>b. value_u8 (DU8 b)" id] by (simp add: value_text_def comp_def)

lemma value_text_DStr [simp]: "value_text (DStr s) = Some s"
  by (simp add: value_text_def)

lemma dicts_no_text: "value_dicts x = Some ps \<Longrightarrow> ps \<noteq> [] \<Longrightarrow> value_text x = None"
proof (cases x)
  case (DArr vs)
  assume "value_dicts x = Some ps" "ps \<noteq> []"
  with DArr obtain y ys where "vs = y # ys" by (cases vs) (auto simp: value_dicts_def)
  moreover from this DArr \<open>value_dicts x = Some ps\<close> have "value_u8 y = None"
    by (cases y) (auto simp: value_dicts_def split: option.splits)
  ultimately show ?thesis using DArr by (simp add: value_text_def)
qed (auto simp: value_dicts_def)

lemma unique_peer_Inr:
  assumes "unique_peer ps public = Inr i"
  shows "i < length ps \<and> setting_string (ps ! i) ''public-key'' = Some public \<and>
    (\<forall>j < length ps. j \<noteq> i \<longrightarrow> setting_string (ps ! j) ''public-key'' \<noteq> Some public)"
proof -
  let ?Q = "\<lambda>i. setting_string (ps ! i) ''public-key'' = Some public"
  from assms have f: "filter ?Q [0..<length ps] = [i]"
    by (auto simp: unique_peer_def split: list.splits)
  then have "set (filter ?Q [0..<length ps]) = {i}" by simp
  then have "{j. j < length ps \<and> ?Q j} = {i}" by auto
  then show ?thesis by blast
qed

lemma unique_peer_Inl:
  "(\<exists>e. unique_peer ps public = Inl e) \<longleftrightarrow>
     length (filter (\<lambda>p. setting_string p ''public-key'' = Some public) ps) \<noteq> 1"
proof -
  let ?Q = "\<lambda>p. setting_string p ''public-key'' = Some public"
  have "filter ?Q ps = map (\<lambda>i. ps ! i) (filter (\<lambda>i. ?Q (ps ! i)) [0..<length ps])"
    by (metis (no_types, lifting) filter_map map_nth comp_def filter_cong)
  then have "length (filter ?Q ps) = length (filter (\<lambda>i. ?Q (ps ! i)) [0..<length ps])" by simp
  then show ?thesis
    by (auto simp: unique_peer_def length_Suc_conv split: list.splits)
qed

lemma find_update_other:
  "\<not> Q x \<Longrightarrow> \<not> Q (ps ! i) \<Longrightarrow> find Q (ps[i := x]) = find Q ps"
proof (induction ps arbitrary: i)
  case (Cons p ps)
  then show ?case by (cases i) auto
qed simp

lemma find_update_here:
  "i < length ps \<Longrightarrow> Q x \<Longrightarrow> (\<forall>j < i. \<not> Q (ps ! j)) \<Longrightarrow> find Q (ps[i := x]) = Some x"
proof (induction ps arbitrary: i)
  case (Cons p ps)
  show ?case
  proof (cases i)
    case 0
    with Cons show ?thesis by simp
  next
    case (Suc k)
    with Cons.prems have "\<not> Q p" "\<forall>j < k. \<not> Q (ps ! j)" by (force, auto)
    with Cons Suc show ?thesis by simp
  qed
qed simp

text \<open>Updating a field of a peer other than its identity.\<close>

lemma setting_string_insert:
  "setting_string (hm_insert k v d) k' = (if k' = k then value_string v else setting_string d k')"
  by (simp add: setting_string_def table_simps)

lemma peer_insert_nth:
  "i < length ps \<Longrightarrow> peer_insert ps i k v ! j = (if j = i then hm_insert k v (ps ! i) else ps ! j)"
  by (cases "j < length ps") (auto simp: peer_insert_def nth_list_update)

lemma length_peer_insert [simp]: "length (peer_insert ps i k v) = length ps"
  by (simp add: peer_insert_def)

lemma unique_peer_insert:
  assumes "k \<noteq> ''public-key''"
  shows "unique_peer (peer_insert ps i k v) public = unique_peer ps public"
proof (cases "i < length ps")
  case True
  have "setting_string (peer_insert ps i k v ! j) ''public-key'' = setting_string (ps ! j) ''public-key''" for j
    using assms True by (simp add: peer_insert_nth setting_string_insert)
  then show ?thesis by (simp add: unique_peer_def)
qed (simp add: peer_insert_def list_update_beyond)

lemma wg_peers_put [simp]: "wg_peers (put_peers ps d) = Inr ps"
  by (simp add: wg_peers_def put_peers_def table_simps)

lemma peer_dicts_put [simp]: "peer_dicts (put_peers ps d) = Inr ps"
  by (simp add: peer_dicts_def put_peers_def table_simps)

lemma peer_dicts_insert: "k \<noteq> ''peers'' \<Longrightarrow> peer_dicts (hm_insert k v d) = peer_dicts d"
  by (simp add: peer_dicts_def table_simps)

lemma peer_dicts_Nil [simp]: "peer_dicts [] = Inr []"
  by (simp add: peer_dicts_def)

lemma flags_key_not_peers: "flags_key key \<noteq> ''peers''"
proof
  assume "flags_key key = ''peers''"
  moreover have "take 6 (rev (flags_key key)) = rev ''-flags''" by (simp add: flags_key_def)
  ultimately show False by simp
qed

lemma wg_peers_dicts: "wg_peers d = Inr ps \<Longrightarrow> peer_dicts d = Inr ps"
  by (auto simp: wg_peers_def peer_dicts_def ok_or_def split: option.splits)

lemma put_peers_get: "hm_get (put_peers ps d) k = (if k = ''peers'' then Some (DArr (map DDict ps)) else hm_get d k)"
  by (simp add: put_peers_def table_simps)

lemma extend_vpn_map_get:
  "hm_get (extend_vpn_map d key entries) k = (if k = key then Some (DDict (map (\<lambda>(k, v). (k, DStr v))
     (foldl (\<lambda>m (k, v). hm_insert k v m) (case Option.bind (hm_get d key) value_string_map of Some m \<Rightarrow> m | None \<Rightarrow> []) entries)))
   else hm_get d k)"
  by (simp add: extend_vpn_map_def Let_def table_simps)

section \<open>What is public\<close>

text \<open>
  The reference notion of what is public about a section: every property but the credentials and what
  NetworkManager maintains itself; of a tunnel's peers, everything but the pre-shared keys. A tunnel
  without a list of peers and one with an empty list are different.
\<close>

datatype public_value = Plain dbus_value | Peers "(string \<Rightarrow> dbus_value option) list"

definition peer_view :: "section_data \<Rightarrow> string \<Rightarrow> dbus_value option" where
  "peer_view p = (map_of p)(''preshared-key'' := None)"

definition public_view :: "string \<Rightarrow> section_data \<Rightarrow> string \<Rightarrow> public_value option" where
  "public_view sec d k =
     (if k \<in> set (known_keys sec) \<or> metadata_key sec = Some k then None
      else if sec = ''wireguard'' \<and> k = ''peers''
      then map_option (\<lambda>v. case value_dicts v of None \<Rightarrow> Plain v | Some ps \<Rightarrow> Peers (map peer_view ps)) (hm_get d k)
      else map_option Plain (hm_get d k))"

definition same_public :: "connection_settings \<Rightarrow> connection_settings \<Rightarrow> bool" where
  "same_public s t \<longleftrightarrow> (\<forall>sec. map_option (public_view sec) (hm_get s sec) = map_option (public_view sec) (hm_get t sec))"

text \<open>
  The one public change that a merge may make: it writes the list of a tunnel's peers back, so that a
  tunnel without one gets an empty list.
\<close>

definition view_kept :: "string \<Rightarrow> section_data \<Rightarrow> section_data \<Rightarrow> bool" where
  "view_kept sec d' d \<longleftrightarrow> public_view sec d' = public_view sec d \<or>
     (sec = ''wireguard'' \<and> hm_get d ''peers'' = None \<and>
      public_view sec d' = (public_view sec d)(''peers'' \<mapsto> Peers []))"

definition public_kept :: "connection_settings \<Rightarrow> connection_settings \<Rightarrow> bool" where
  "public_kept t s \<longleftrightarrow> (\<forall>sec. rel_option (view_kept sec) (hm_get t sec) (hm_get s sec))"

lemma known_keys_simps [simp]:
  "known_keys ''vpn'' = []" "known_keys ''wireguard'' = [''private-key'']"
  by (simp_all add: known_keys_def)

lemma peer_view_remove [simp]: "peer_view (hm_remove ''preshared-key'' p) = peer_view p"
  by (simp add: peer_view_def delete_conv' fun_eq_iff)

lemma peer_view_insert [simp]: "peer_view (hm_insert ''preshared-key'' v p) = peer_view p"
  by (simp add: peer_view_def update_conv' fun_eq_iff)

lemma peer_insert_view:
  assumes "unique_peer ps public = Inr i"
  shows "map peer_view (peer_insert ps i ''preshared-key'' v) = map peer_view ps"
  using unique_peer_Inr [OF assms] by (simp add: peer_insert_def map_update) (metis list_update_id length_map nth_map)

lemma view_vpn: "public_view ''vpn'' (extend_vpn_map d ''secrets'' xs) = public_view ''vpn'' d"
  by (auto simp: public_view_def metadata_key_def extend_vpn_map_get fun_eq_iff)

lemma view_known: "k \<in> set (known_keys sec) \<Longrightarrow> public_view sec (hm_insert k v d) = public_view sec d"
  by (auto simp: public_view_def table_simps fun_eq_iff)

lemma view_peers:
  "public_view ''wireguard'' (put_peers ps d) = (public_view ''wireguard'' d)(''peers'' \<mapsto> Peers (map peer_view ps))"
  by (auto simp: public_view_def put_peers_get metadata_key_def fun_eq_iff)

lemma view_peers_present:
  assumes "wg_peers d = Inr ps" "hm_get d ''peers'' \<noteq> None"
  shows "public_view ''wireguard'' d ''peers'' = Some (Peers (map peer_view ps))"
  using assms by (auto simp: wg_peers_def ok_or_def public_view_def metadata_key_def split: option.splits)

section \<open>Writing a credential\<close>

lemma strip_suffix_Some_iff: "strip_suffix p s = Some r \<longleftrightarrow> s = r @ p"
proof -
  have "strip_suffix p s = Some r \<longleftrightarrow> rev s = rev p @ rev r"
    by (auto simp: strip_suffix_def strip_prefix_Some_iff)
  also have "\<dots> \<longleftrightarrow> s = r @ p" by (metis rev_append rev_rev_ident)
  finally show ?thesis .
qed

lemma peer_key_Some_iff: "peer_key key = Some public \<longleftrightarrow> key = ''peers.'' @ public @ ''.preshared-key''"
  by (auto simp: peer_key_def strip_prefix_Some_iff strip_suffix_Some_iff bind_eq_Some_conv)

lemma peer_key_not_peers [simp]: "peer_key ''peers'' = None"
  by (simp add: peer_key_def strip_prefix_def)

lemma known_keys_no_flags: "k \<in> set (known_keys sec) \<Longrightarrow> flags_key key' \<noteq> k"
proof
  assume k: "k \<in> set (known_keys sec)" and eq: "flags_key key' = k"
  have "take 6 (rev (flags_key key')) = rev ''-flags''" by (simp add: flags_key_def)
  moreover have "take 6 (rev k) \<noteq> rev ''-flags''" using k by (auto simp: known_keys_def split: if_splits)
  ultimately show False using eq by simp
qed

text \<open>The three ways to write: a VPN map, a peer of a tunnel, a plain field.\<close>

lemma set_text_cases:
  assumes "set_text s sec key v = Inr s'"
  obtains (Vpn) "sec = ''vpn''"
      "s' = hm_insert sec (extend_vpn_map (section_or_default s sec) ''secrets'' [(key, v)]) s"
  | (Peer) d ps public i where "sec = ''wireguard''" "peer_key key = Some public" "hm_get s sec = Some d"
      "wg_peers d = Inr ps" "unique_peer ps public = Inr i"
      "s' = hm_insert sec (put_peers (peer_insert ps i ''preshared-key'' (DStr v)) d) s"
  | (Field) "sec \<noteq> ''vpn''" "sec = ''wireguard'' \<longrightarrow> peer_key key = None" "key \<in> set (known_keys sec)"
      "s' = hm_insert sec (hm_insert key (if key = ''password-raw'' then DArr (map DU8 v) else DStr v)
         (section_or_default s sec)) s"
  using assms
  by (auto simp: set_text_def set_peer_value_def and_then_Inr_iff split: if_splits option.splits)

lemma written_elsewhere:
  "set_text s sec key v = Inr s' \<Longrightarrow> sec' \<noteq> sec \<Longrightarrow> hm_get s' sec' = hm_get s sec'"
  by (erule set_text_cases) (auto simp: table_simps)

lemma secret_text_peer:
  assumes "hm_get s ''wireguard'' = Some d" "peer_dicts d = Inr ps" "peer_key key = Some public"
  shows "secret_text s ''wireguard'' key =
     Option.bind (find (\<lambda>p. setting_string p ''public-key'' = Some public) ps) (\<lambda>p. setting_string p ''preshared-key'')"
  using assms by (simp add: secret_text_def)

lemma written_reads_back:
  assumes "set_text s sec key v = Inr s'" and "utf8_valid v"
  shows "secret_text s' sec key = Some v"
  using assms(1)
proof (cases rule: set_text_cases)
  case Vpn
  then show ?thesis by (simp add: secret_text_def table_simps extend_vpn_map_get)
next
  case (Peer d ps public i)
  note u = unique_peer_Inr [OF Peer(5)]
  let ?p = "hm_insert ''preshared-key'' (DStr v) (ps ! i)"
  have "find (\<lambda>p. setting_string p ''public-key'' = Some public) (ps[i := ?p]) = Some ?p"
    using u by (intro find_update_here) (auto simp: setting_string_insert)
  then show ?thesis
    using Peer secret_text_peer [of s' _ "peer_insert ps i ''preshared-key'' (DStr v)" key public]
    by (simp add: table_simps peer_insert_def setting_string_insert)
next
  case Field
  then show ?thesis
    using value_text_raw [OF assms(2)] by (auto simp: secret_text_def setting_text_def table_simps split: option.splits)
qed

lemma written_keeps_others:
  assumes w: "set_text s sec key v = Inr s'" and "key' \<noteq> key"
  shows "secret_text s' sec key' = secret_text s sec key'"
  using w
proof (cases rule: set_text_cases)
  case Vpn
  then show ?thesis using assms(2)
    by (auto simp: secret_text_def table_simps extend_vpn_map_get section_or_default_def split: option.splits bind_splits)
next
  case (Peer d ps public i)
  note u = unique_peer_Inr [OF Peer(5)]
  let ?ps = "peer_insert ps i ''preshared-key'' (DStr v)"
  show ?thesis
  proof (cases "peer_key key'")
    case None
    have ne: "ps \<noteq> []" "?ps \<noteq> []" using u by (auto simp: peer_insert_def)
    obtain x where x: "hm_get d ''peers'' = Some x" "value_dicts x = Some ps"
      using Peer(4) ne by (auto simp: wg_peers_def ok_or_def split: option.splits)
    have "value_text (DArr (map DDict ?ps)) = None" "value_text x = None"
      using dicts_no_text [OF _ ne(2)] dicts_no_text [OF x(2) ne(1)] by simp_all
    then show ?thesis
      using Peer None x(1) by (auto simp: secret_text_def setting_text_def table_simps put_peers_get)
  next
    case (Some public')
    with Peer(2) assms(2) have ne: "public' \<noteq> public" by (auto simp: peer_key_Some_iff)
    have "find (\<lambda>p. setting_string p ''public-key'' = Some public') ?ps
        = find (\<lambda>p. setting_string p ''public-key'' = Some public') ps"
      unfolding peer_insert_def using u ne by (intro find_update_other) (auto simp: setting_string_insert)
    then show ?thesis
      using Peer Some secret_text_peer [of s' _ ?ps key' public'] secret_text_peer [of s d ps key' public']
        wg_peers_dicts [OF Peer(4)]
      by (simp add: table_simps)
  qed
next
  case Field
  have key: "key \<noteq> ''peers''" using Field(3) by (auto simp: known_keys_def split: if_splits)
  obtain x where s': "s' = hm_insert sec (hm_insert key x (section_or_default s sec)) s" using Field(4) by blast
  show ?thesis
  proof (cases "hm_get s sec")
    case None
    have "peer_dicts [(key, x)] = Inr []" for x using key by (simp add: peer_dicts_def)
    then show ?thesis
      using Field(1,2) s' assms(2) None by (simp add: secret_text_def setting_text_def table_simps section_or_default_def
          split: option.split)
  next
    case (Some d)
    then show ?thesis
      using Field(1,2) s' assms(2) key by (simp add: secret_text_def setting_text_def table_simps section_or_default_def
          peer_dicts_insert split: option.split)
  qed
qed

text \<open>Writing a credential never touches the retention flags.\<close>

lemma raw_flags_vpn: "raw_flags (extend_vpn_map d ''secrets'' xs) ''vpn'' key = raw_flags d ''vpn'' key"
  by (simp add: raw_flags_def extend_vpn_map_get)

lemma flag_value_insert: "k \<noteq> k' \<Longrightarrow> flag_value (hm_insert k v d) k' = flag_value d k'"
  by (simp add: flag_value_def table_simps)

lemma wg_peers_insert: "k \<noteq> ''peers'' \<Longrightarrow> wg_peers (hm_insert k v d) = wg_peers d"
  by (simp add: wg_peers_def table_simps)

lemma written_keeps_flags:
  assumes w: "set_text s sec key v = Inr s'" and present: "hm_get s sec = Some d"
  shows "secret_flags s' sec key' = secret_flags s sec key'"
  using w
proof (cases rule: set_text_cases)
  case Vpn
  with present show ?thesis by (simp add: secret_flags_def table_simps section_or_default_def raw_flags_vpn)
next
  case (Peer d' ps public i)
  note u = unique_peer_Inr [OF Peer(5)]
  let ?ps = "peer_insert ps i ''preshared-key'' (DStr v)"
  have "unique_peer ?ps p = unique_peer ps p" for p by (rule unique_peer_insert) simp
  moreover have "flag_value (?ps ! j) ''preshared-key-flags'' = flag_value (ps ! j) ''preshared-key-flags''" for j
    using u by (simp add: peer_insert_nth flag_value_insert)
  moreover have "flag_value (put_peers ?ps d') (flags_key k) = flag_value d' (flags_key k)" for k
    unfolding put_peers_def using flags_key_not_peers by (intro flag_value_insert) metis
  ultimately show ?thesis
    using Peer present by (simp add: secret_flags_def table_simps raw_flags_def split: option.split)
next
  case Field
  have key: "key \<noteq> ''peers''" using Field(3) by (auto simp: known_keys_def split: if_splits)
  obtain x where s': "s' = hm_insert sec (hm_insert key x (section_or_default s sec)) s" using Field(4) by blast
  have "flag_value (hm_insert key x d) (flags_key key') = flag_value d (flags_key key')" for x
    using known_keys_no_flags [OF Field(3)] by (intro flag_value_insert) metis
  then show ?thesis
    using Field(1,2) s' key present by (simp add: secret_flags_def table_simps raw_flags_def section_or_default_def
        wg_peers_insert split: option.split)
qed

lemma set_peer_value_Inr:
  "(\<exists>d'. set_peer_value d public k x = Inr d') \<longleftrightarrow> (\<exists>ps. wg_peers d = Inr ps \<and>
     length (filter (\<lambda>p. setting_string p ''public-key'' = Some public) ps) = 1)"
proof -
  have "(\<exists>i. unique_peer ps public = Inr i) \<longleftrightarrow> length (filter (\<lambda>p. setting_string p ''public-key'' = Some public) ps) = 1" for ps
    using unique_peer_Inl [of ps public] by (cases "unique_peer ps public") auto
  then show ?thesis by (auto simp: set_peer_value_def and_then_Inr_iff)
qed

lemma set_text_refused:
  "(\<exists>e. set_text s sec key v = Inl e) \<longleftrightarrow> sec \<noteq> ''vpn'' \<and>
      (case if sec = ''wireguard'' then peer_key key else None of
         None \<Rightarrow> key \<notin> set (known_keys sec)
       | Some public \<Rightarrow> \<not> (\<exists>d ps. hm_get s sec = Some d \<and> wg_peers d = Inr ps \<and>
           length (filter (\<lambda>p. setting_string p ''public-key'' = Some public) ps) = 1))"
proof (cases "if sec = ''wireguard'' then peer_key key else None")
  case None
  then show ?thesis by (auto simp: set_text_def)
next
  case (Some public)
  then have sec: "sec = ''wireguard''" by (auto split: if_splits)
  show ?thesis
  proof (cases "hm_get s sec")
    case None
    with Some sec show ?thesis by (simp add: set_text_def)
  next
    case (Some d)
    have "(\<exists>e. set_text s sec key v = Inl e) \<longleftrightarrow> \<not> (\<exists>d'. set_peer_value d public ''preshared-key'' (DStr v) = Inr d')"
      using Some sec \<open>(if sec = ''wireguard'' then peer_key key else None) = Some public\<close>
      by (cases "set_peer_value d public ''preshared-key'' (DStr v)") (simp_all add: set_text_def)
    then show ?thesis using Some sec \<open>(if sec = ''wireguard'' then peer_key key else None) = Some public\<close>
      unfolding set_peer_value_Inr by simp
  qed
qed

lemma written_keeps_public:
  assumes w: "set_text s sec key v = Inr s'"
  shows "map_option (public_view sec) (hm_get s' sec) = Some (public_view sec (section_or_default s sec))"
  using w
proof (cases rule: set_text_cases)
  case Vpn
  then show ?thesis by (simp add: table_simps view_vpn)
next
  case (Peer d ps public i)
  have "ps \<noteq> []" using unique_peer_Inr [OF Peer(5)] by auto
  then have "hm_get d ''peers'' \<noteq> None" using Peer(4) by (auto simp: wg_peers_def split: option.splits)
  from view_peers_present [OF Peer(4) this] Peer show ?thesis
    by (simp add: table_simps view_peers peer_insert_view section_or_default_def fun_upd_idem)
next
  case Field
  then show ?thesis by (simp add: table_simps view_known)
qed

text \<open>
  C37. The text of a credential written into a profile reads back exactly, whether it is a plain field,
  an entry of a VPN plugin or the pre-shared key of a tunnel peer. The text of no other credential
  changes, nor does any other section, any public property of the section (of a tunnel's peers, all
  their public properties; of a VPN, all its public entries), or any retention flag. A credential the
  schema does not know, and a peer that is missing or ambiguous, is refused.
\<close>

theorem credential_written_exactly:
  assumes "utf8_valid v"
  shows "(\<forall>s'. set_text s sec key v = Inr s' \<longrightarrow>
      secret_text s' sec key = Some v \<and>
      (\<forall>key'. key' \<noteq> key \<longrightarrow> secret_text s' sec key' = secret_text s sec key') \<and>
      (\<forall>sec'. sec' \<noteq> sec \<longrightarrow> hm_get s' sec' = hm_get s sec') \<and>
      map_option (public_view sec) (hm_get s' sec) = Some (public_view sec (section_or_default s sec)) \<and>
      (hm_get s sec \<noteq> None \<longrightarrow> (\<forall>key'. secret_flags s' sec key' = secret_flags s sec key'))) \<and>
    ((\<exists>e. set_text s sec key v = Inl e) \<longleftrightarrow> sec \<noteq> ''vpn'' \<and>
      (case if sec = ''wireguard'' then peer_key key else None of
         None \<Rightarrow> key \<notin> set (known_keys sec)
       | Some public \<Rightarrow> \<not> (\<exists>d ps. hm_get s sec = Some d \<and> wg_peers d = Inr ps \<and>
           length (filter (\<lambda>p. setting_string p ''public-key'' = Some public) ps) = 1)))"
proof (intro conjI allI impI)
  fix s' assume w: "set_text s sec key v = Inr s'"
  show "secret_text s' sec key = Some v" by (rule written_reads_back [OF w assms])
  show "\<And>key'. key' \<noteq> key \<Longrightarrow> secret_text s' sec key' = secret_text s sec key'" by (rule written_keeps_others [OF w])
  show "\<And>sec'. sec' \<noteq> sec \<Longrightarrow> hm_get s' sec' = hm_get s sec'" by (rule written_elsewhere [OF w])
  show "map_option (public_view sec) (hm_get s' sec) = Some (public_view sec (section_or_default s sec))"
    by (rule written_keeps_public [OF w])
  show "\<And>key'. hm_get s sec \<noteq> None \<Longrightarrow> secret_flags s' sec key' = secret_flags s sec key'"
    using written_keeps_flags [OF w] by blast
next
  show "(\<exists>e. set_text s sec key v = Inl e) \<longleftrightarrow> sec \<noteq> ''vpn'' \<and>
      (case if sec = ''wireguard'' then peer_key key else None of
         None \<Rightarrow> key \<notin> set (known_keys sec)
       | Some public \<Rightarrow> \<not> (\<exists>d ps. hm_get s sec = Some d \<and> wg_peers d = Inr ps \<and>
           length (filter (\<lambda>p. setting_string p ''public-key'' = Some public) ps) = 1))"
    by (rule set_text_refused)
qed

theorem credential_written_exactly_witness:
  "\<exists>s'. set_text [(''wireguard'', [(''peers'', DArr [DDict [(''public-key'', DStr ''K'')]])])] ''wireguard'' ''peers.K.preshared-key'' ''p'' = Inr s'
     \<and> secret_text s' ''wireguard'' ''peers.K.preshared-key'' = Some ''p''"
proof -
  let ?s = "[(''wireguard'', [(''peers'', DArr [DDict [(''public-key'', DStr ''K'')]])])]"
  have v: "utf8_valid ''p''" by code_simp
  have "is_ok (set_text ?s ''wireguard'' ''peers.K.preshared-key'' ''p'')" by code_simp
  then obtain s' where "set_text ?s ''wireguard'' ''peers.K.preshared-key'' ''p'' = Inr s'"
    by (auto simp: is_ok_def split: sum.splits)
  then show ?thesis using credential_written_exactly [OF v, of ?s "''wireguard''" "''peers.K.preshared-key''"] by blast
qed

section \<open>Public settings\<close>

lemma map_of_delete: "map_of (AList.delete k m) k' = (if k' = k then None else map_of m k')"
  by (simp add: delete_conv')

lemma foldl_remove: "map_of (foldl (\<lambda>d k. hm_remove k d) d ks) k = (if k \<in> set ks then None else map_of d k)"
  by (induction ks arbitrary: d) (auto simp: map_of_delete)

text \<open>A section without its credentials.\<close>

definition credential_free :: "string \<Rightarrow> section_data \<Rightarrow> bool" where
  "credential_free sec d \<longleftrightarrow> (\<forall>k. k \<in> set (known_keys sec) \<or> metadata_key sec = Some k \<longrightarrow> hm_get d k = None) \<and>
     (sec = ''wireguard'' \<longrightarrow> (\<exists>ps. peer_dicts d = Inr ps \<and> (\<forall>p \<in> set ps. hm_get p ''preshared-key'' = None)))"

lemma public_section_ok:
  assumes "public_section sec d = Inr d'"
  shows "credential_free sec d' \<and> public_view sec d' = public_view sec d"
proof -
  define ks where "ks = known_keys sec @ (case metadata_key sec of Some k \<Rightarrow> [k] | None \<Rightarrow> [])"
  define d1 where "d1 = foldl (\<lambda>d k. hm_remove k d) d ks"
  have ks: "k \<in> set ks \<longleftrightarrow> k \<in> set (known_keys sec) \<or> metadata_key sec = Some k" for k
    by (auto simp: ks_def split: option.splits)
  have d1: "hm_get d1 k = (if k \<in> set ks then None else hm_get d k)" for k
    unfolding d1_def by (rule foldl_remove)
  have wg: "''peers'' \<notin> set ks" if "sec = ''wireguard''"
    using that by (simp add: ks_def metadata_key_def)
  note a = assms [unfolded public_section_def Let_def, folded ks_def, folded d1_def]
  show ?thesis
  proof (cases "if sec = ''wireguard'' then hm_get d1 ''peers'' else None")
    case None
    with a have "d' = d1" by simp
    moreover have "sec = ''wireguard'' \<Longrightarrow> hm_get d ''peers'' = None" using None d1 wg by (auto split: if_splits)
    ultimately show ?thesis
      using d1 wg by (auto simp: credential_free_def public_view_def ks peer_dicts_def fun_eq_iff)
  next
    case (Some v)
    then have sec: "sec = ''wireguard''" and v: "hm_get d ''peers'' = Some v" using d1 wg by (auto split: if_splits)
    from a Some obtain ps where ps: "value_dicts v = Some ps"
      and d': "d' = put_peers (map (hm_remove ''preshared-key'') ps) (hm_remove ''peers'' d1)"
      by (auto simp: and_then_Inr_iff ok_or_def split: option.splits)
    have get: "hm_get d' k = (if k = ''peers'' then Some (DArr (map DDict (map (hm_remove ''preshared-key'') ps))) else hm_get d1 k)" for k
      by (simp add: d' put_peers_get map_of_delete del: map_map)
    have "credential_free sec d'"
      unfolding credential_free_def
    proof (intro conjI allI impI)
      fix k assume "k \<in> set (known_keys sec) \<or> metadata_key sec = Some k"
      then show "hm_get d' k = None" using get d1 wg [OF sec] ks by auto
    next
      show "\<exists>ps. peer_dicts d' = Inr ps \<and> (\<forall>p \<in> set ps. hm_get p ''preshared-key'' = None)"
        by (intro exI [of _ "map (hm_remove ''preshared-key'') ps"]) (auto simp: d' map_of_delete)
    qed
    moreover have "public_view sec d' = public_view sec d"
    proof
      fix k
      have "map peer_view (map (hm_remove ''preshared-key'') ps) = map peer_view ps" by simp
      then show "public_view sec d' k = public_view sec d k"
        using v ps by (auto simp: public_view_def get d1 ks sec simp del: map_map)
    qed
    ultimately show ?thesis by simp
  qed
qed

lemma section_values_free: "credential_free sec d \<Longrightarrow> section_values sec d = Inr []"
proof -
  assume f: "credential_free sec d"
  then have "List.map_filter (\<lambda>key. map_option (Pair key) (setting_text d key)) (known_keys sec) = []"
    by (auto simp: map_filter_def credential_free_def setting_text_def filter_empty_conv)
  moreover have "sec = ''vpn'' \<Longrightarrow> hm_get d ''secrets'' = None" using f by (simp add: credential_free_def metadata_key_def)
  moreover have "List.map_filter (\<lambda>p. Option.bind (setting_string p ''public-key'') (\<lambda>public.
      map_option (Pair (''peers.'' @ public @ ''.preshared-key'')) (setting_string p ''preshared-key''))) ps = []"
    if "\<forall>p \<in> set ps. hm_get p ''preshared-key'' = None" for ps
    using that by (auto simp: map_filter_def setting_string_def filter_empty_conv split: bind_splits)
  ultimately show ?thesis using f by (auto simp: section_values_def credential_free_def)
qed

lemma public_settings_sections:
  "public_settings s = Inr p \<Longrightarrow> list_all2 (\<lambda>(sec, d) (sec', d'). sec' = sec \<and> public_section sec d = Inr d') s p"
  by (induction s arbitrary: p rule: public_settings.induct) (auto simp: and_then_Inr_iff)

lemma public_settings_free: "public_settings s = Inr p \<Longrightarrow> \<forall>(sec, d) \<in> set p. credential_free sec d"
proof (induction s arbitrary: p rule: public_settings.induct)
  case (2 sec data rest)
  then show ?case using public_section_ok by (fastforce simp: and_then_Inr_iff)
qed simp

lemma free_values: "\<forall>(sec, d) \<in> set p. credential_free sec d \<Longrightarrow> secret_values p = Inr []"
  by (induction p rule: secret_values.induct) (auto simp: section_values_free)

lemma free_no_secrets: "\<forall>(sec, d) \<in> set p. credential_free sec d \<Longrightarrow> \<not> has_secrets p"
  by (fastforce simp: has_secrets_def credential_free_def metadata_key_def)

lemma public_settings_view: "public_settings s = Inr p \<Longrightarrow> same_public p s"
proof (induction s arbitrary: p rule: public_settings.induct)
  case (2 sec data rest)
  then show ?case using public_section_ok by (fastforce simp: and_then_Inr_iff same_public_def)
qed (simp add: same_public_def)

section \<open>Merging\<close>

lemma merge_peers_view: "merge_peers ts ps = Inr ts' \<Longrightarrow> map peer_view ts' = map peer_view ts"
proof (induction ts ps rule: merge_peers.induct)
  case (2 targets p ps)
  show ?case
  proof (cases "hm_get p ''preshared-key''")
    case None
    with 2 show ?thesis by simp
  next
    case (Some secret)
    with 2(3) obtain public i where i: "setting_string p ''public-key'' = Some public" "unique_peer targets public = Inr i"
      "merge_peers (peer_insert targets i ''preshared-key'' secret) ps = Inr ts'"
      by (auto simp: and_then_Inr_iff ok_or_def split: option.splits)
    with 2(2) [OF Some i(3)] peer_insert_view [OF i(2)] show ?thesis by simp
  qed
qed simp

lemma view_kept_refl [simp]: "view_kept sec d d"
  by (simp add: view_kept_def)

lemma view_kept_trans: "view_kept sec d3 d2 \<Longrightarrow> view_kept sec d2 d1 \<Longrightarrow> view_kept sec d3 d1"
proof -
  assume h: "view_kept sec d3 d2" "view_kept sec d2 d1"
  have "hm_get d2 ''peers'' = None \<longleftrightarrow> public_view ''wireguard'' d2 ''peers'' = None"
    "hm_get d1 ''peers'' = None \<longleftrightarrow> public_view ''wireguard'' d1 ''peers'' = None"
    by (simp_all add: public_view_def metadata_key_def)
  with h show ?thesis unfolding view_kept_def by (auto simp: fun_upd_def)
qed

lemma public_kept_refl [simp]: "public_kept s s"
  by (simp add: public_kept_def option.rel_refl)

lemma public_kept_trans: "public_kept c b \<Longrightarrow> public_kept b a \<Longrightarrow> public_kept c a"
  unfolding public_kept_def
proof
  fix sec
  assume "\<forall>sec. rel_option (view_kept sec) (hm_get c sec) (hm_get b sec)"
    "\<forall>sec. rel_option (view_kept sec) (hm_get b sec) (hm_get a sec)"
  then have "rel_option (view_kept sec) (hm_get c sec) (hm_get b sec)"
    "rel_option (view_kept sec) (hm_get b sec) (hm_get a sec)" by blast+
  then show "rel_option (view_kept sec) (hm_get c sec) (hm_get a sec)"
    by (auto simp: option_rel_Some1 option_rel_Some2 elim!: option.rel_cases intro: view_kept_trans)
qed

lemma merge_value_view:
  assumes m: "merge_value sec k v d = Inr d'"
  shows "view_kept sec d' d" "k \<noteq> ''peers'' \<Longrightarrow> public_view sec d' = public_view sec d"
proof -
  consider (vpn) "sec = ''vpn''" "k = ''secrets''" | (wg) "sec = ''wireguard''" "k = ''peers''"
    | (known) "\<not> (sec = ''vpn'' \<and> k = ''secrets'')" "\<not> (sec = ''wireguard'' \<and> k = ''peers'')" by blast
  then have "view_kept sec d' d \<and> (k \<noteq> ''peers'' \<longrightarrow> public_view sec d' = public_view sec d)"
  proof cases
    case vpn
    with m obtain xs where "d' = extend_vpn_map d ''secrets'' xs"
      by (auto simp: merge_value_def and_then_Inr_iff)
    with vpn show ?thesis by (simp add: view_kept_def view_vpn)
  next
    case wg
    with m obtain ts ps ts' where ts: "wg_peers d = Inr ts" "merge_peers ts ps = Inr ts'" "d' = put_peers ts' d"
      by (auto simp: merge_value_def merge_peer_secrets_def and_then_Inr_iff)
    have view: "public_view ''wireguard'' d' = (public_view ''wireguard'' d)(''peers'' \<mapsto> Peers (map peer_view ts))"
      using ts(3) merge_peers_view [OF ts(2)] by (simp add: view_peers)
    show ?thesis
    proof (cases "hm_get d ''peers''")
      case None
      then have "ts = []" using ts(1) by (simp add: wg_peers_def)
      with None view wg show ?thesis by (simp add: view_kept_def)
    next
      case (Some x)
      with view_peers_present [OF ts(1)] view wg show ?thesis by (simp add: view_kept_def fun_upd_idem)
    qed
  next
    case known
    with m show ?thesis by (auto simp: merge_value_def view_kept_def view_known split: if_splits)
  qed
  then show "view_kept sec d' d" "k \<noteq> ''peers'' \<Longrightarrow> public_view sec d' = public_view sec d" by blast+
qed

lemma merge_section_view:
  "merge_section sec kvs d = (d', r) \<Longrightarrow> view_kept sec d' d \<and>
     (''peers'' \<notin> fst ` set kvs \<longrightarrow> public_view sec d' = public_view sec d)"
proof (induction sec kvs d rule: merge_section.induct)
  case (2 sec k v kvs dest)
  show ?case
  proof (cases "merge_value sec k v dest")
    case (Inl e)
    with 2 show ?thesis by simp
  next
    case (Inr d1)
    with 2 merge_value_view [OF Inr] show ?thesis by (auto intro: view_kept_trans)
  qed
qed simp

text \<open>The list of peers is written only when the source has one.\<close>

definition brings_peers :: "connection_settings \<Rightarrow> bool" where
  "brings_peers source \<longleftrightarrow> (\<exists>kvs. (''wireguard'', kvs) \<in> set source \<and> ''peers'' \<in> fst ` set kvs)"

lemma merge_section_brings:
  assumes "merge_section sec kvs d = (d', r)" "\<not> (sec = ''wireguard'' \<and> ''peers'' \<in> fst ` set kvs)"
  shows "public_view sec d' = public_view sec d"
  using merge_section_view [OF assms(1)] assms(2) by (auto simp: view_kept_def)

lemma merge_secrets_view:
  "merge_secrets t s = (t', r) \<Longrightarrow> public_kept t' t \<and> (\<not> brings_peers s \<longrightarrow> same_public t' t)"
proof (induction t s rule: merge_secrets.induct)
  case (2 target sec kvs source)
  show ?case
  proof (cases "hm_get target sec")
    case None
    with 2 show ?thesis by (auto simp: brings_peers_def)
  next
    case (Some dest)
    obtain dest' q where q: "merge_section sec kvs dest = (dest', q)" by fastforce
    have kept: "public_kept (hm_insert sec dest' target) target"
      using merge_section_view [OF q] Some by (auto simp: public_kept_def table_simps option.rel_refl)
    have same: "same_public (hm_insert sec dest' target) target" if "\<not> brings_peers ((sec, kvs) # source)"
    proof -
      have "public_view sec dest' = public_view sec dest"
        using that by (intro merge_section_brings [OF q]) (auto simp: brings_peers_def)
      with Some show ?thesis by (auto simp: same_public_def table_simps)
    qed
    show ?thesis
    proof (cases q)
      case (Inl e)
      with 2(3) Some q kept same show ?thesis by simp
    next
      case (Inr u)
      with 2 Some q have "public_kept t' (hm_insert sec dest' target)"
        "\<not> brings_peers source \<longrightarrow> same_public t' (hm_insert sec dest' target)" by simp_all
      with kept same show ?thesis
        using public_kept_trans by (auto simp: same_public_def brings_peers_def)
    qed
  qed
qed (simp add: same_public_def)

lemma known_keys_special: "k \<in> set (known_keys sec) \<Longrightarrow> k \<noteq> ''peers'' \<and> k \<noteq> ''secrets''"
  by (auto simp: known_keys_def split: if_splits)

lemma merge_value_get:
  assumes "merge_value sec k v d = Inr d'" and "k' \<in> set (known_keys sec)"
  shows "hm_get d' k' = (if k' = k then Some v else hm_get d k')"
  using assms known_keys_special [OF assms(2)]
  by (auto simp: merge_value_def merge_peer_secrets_def and_then_Inr_iff extend_vpn_map_get put_peers_get table_simps
      split: if_splits)

lemma merge_section_get:
  "merge_section sec kvs d = (d', Inr ()) \<Longrightarrow> hm_wf kvs \<Longrightarrow> k \<in> set (known_keys sec) \<Longrightarrow>
   hm_get d' k = (case hm_get kvs k of Some v \<Rightarrow> Some v | None \<Rightarrow> hm_get d k)"
proof (induction sec kvs d rule: merge_section.induct)
  case (2 sec k1 v1 kvs dest)
  then obtain dest1 where m: "merge_value sec k1 v1 dest = Inr dest1" "merge_section sec kvs dest1 = (d', Inr ())"
    by (auto split: sum.splits)
  from 2(3) have wf: "hm_wf kvs" "hm_get kvs k1 = None" by (auto simp: hm_wf_def map_of_eq_None_iff)
  from 2(1) [OF m wf(1) 2(4)] wf(2) merge_value_get [OF m(1) 2(4)] show ?case
    by (cases "k = k1") (auto split: option.splits)
qed simp

text \<open>The merge of one section reaches the result: later sections have other names.\<close>

lemma merge_secrets_other:
  "merge_secrets t s = (t', r) \<Longrightarrow> sec \<notin> fst ` set s \<Longrightarrow> hm_get t' sec = hm_get t sec"
proof (induction t s rule: merge_secrets.induct)
  case (2 target sec1 kvs source)
  then show ?case by (auto simp: table_simps split: option.splits prod.splits sum.splits)
qed simp

lemma merge_secrets_section:
  "merge_secrets t s = (t', Inr ()) \<Longrightarrow> hm_wf s \<Longrightarrow> hm_get s sec = Some kvs \<Longrightarrow> hm_get t sec = Some d \<Longrightarrow>
   \<exists>d'. merge_section sec kvs d = (d', Inr ()) \<and> hm_get t' sec = Some d'"
proof (induction t s rule: merge_secrets.induct)
  case (2 target sec1 kvs1 source)
  from 2(4) have wf: "hm_wf source" "sec1 \<notin> fst ` set source" by (auto simp: hm_wf_def)
  show ?case
  proof (cases "sec = sec1")
    case True
    with 2 obtain d' where m: "merge_section sec kvs d = (d', Inr ())"
        "merge_secrets (hm_insert sec1 d' target) source = (t', Inr ())"
      by (auto split: prod.splits sum.splits)
    with merge_secrets_other [OF m(2) wf(2)] True show ?thesis by (simp add: table_simps)
  next
    case False
    then have src: "hm_get source sec = Some kvs" using 2(5) by simp
    show ?thesis
    proof (cases "hm_get target sec1")
      case None
      with 2(1,3,6) wf src show ?thesis by simp
    next
      case (Some dest)
      with 2(3) obtain d1 where m: "merge_section sec1 kvs1 dest = (d1, Inr ())"
          "merge_secrets (hm_insert sec1 d1 target) source = (t', Inr ())"
        by (auto split: prod.splits sum.splits)
      show ?thesis
        by (rule 2(2) [OF Some _ _ m(2) wf(1) src]) (use m(1) False 2(6) in \<open>auto simp: table_simps\<close>)
    qed
  qed
qed simp

text \<open>
  C38. Credentials and public settings stay apart. The public snapshot of a profile holds no credential at
  all and every public property as it was. Merging the secrets NetworkManager returned changes no
  public property, even when it stops with an error, with one exception: when the secrets bring a
  list of tunnel peers, a tunnel that had none gets an empty list. A merge that succeeds brings every
  fixed credential of the source into the sections the profile has.
\<close>

theorem credentials_stay_apart:
  shows "(\<forall>p. public_settings s = Inr p \<longrightarrow>
      \<not> has_secrets p \<and> secret_values p = Inr [] \<and> same_public p s \<and> map fst p = map fst s) \<and>
    (\<forall>t r. merge_secrets s source = (t, r) \<longrightarrow>
      public_kept t s \<and> (\<not> brings_peers source \<longrightarrow> same_public t s) \<and>
      (r = Inr () \<and> hm_wf source \<longrightarrow> (\<forall>sec kvs d k v. hm_get source sec = Some kvs \<and> hm_wf kvs \<and>
         hm_get s sec = Some d \<and> k \<in> set (known_keys sec) \<and> hm_get kvs k = Some v \<longrightarrow>
         (\<exists>d'. hm_get t sec = Some d' \<and> hm_get d' k = Some v))))"
proof (intro conjI allI impI)
  fix p assume p: "public_settings s = Inr p"
  show "\<not> has_secrets p" "secret_values p = Inr []" "same_public p s"
    using public_settings_free [OF p] free_no_secrets free_values public_settings_view [OF p] by blast+
  show "map fst p = map fst s"
    using public_settings_sections [OF p] by (induction rule: list_all2_induct) auto
next
  fix t r assume m: "merge_secrets s source = (t, r)"
  show "public_kept t s" "\<not> brings_peers source \<Longrightarrow> same_public t s" using merge_secrets_view [OF m] by blast+
  fix sec kvs d k v
  assume "r = Inr () \<and> hm_wf source" and h: "hm_get source sec = Some kvs \<and> hm_wf kvs \<and>
         hm_get s sec = Some d \<and> k \<in> set (known_keys sec) \<and> hm_get kvs k = Some v"
  with merge_secrets_section [of s source t sec kvs d] m obtain d' where
    "merge_section sec kvs d = (d', Inr ())" "hm_get t sec = Some d'" by auto
  with h merge_section_get [of sec kvs d d' k] show "\<exists>d'. hm_get t sec = Some d' \<and> hm_get d' k = Some v" by auto
qed

theorem credentials_stay_apart_witness:
  "\<exists>p. public_settings [(''802-1x'', [(''password'', DStr ''x''), (''identity'', DStr ''me'')])] = Inr p \<and>
     \<not> has_secrets p \<and> same_public p [(''802-1x'', [(''password'', DStr ''x''), (''identity'', DStr ''me'')])]"
proof -
  let ?s = "[(''802-1x'', [(''password'', DStr ''x''), (''identity'', DStr ''me'')])]"
  have "is_ok (public_settings ?s)" by code_simp
  then obtain p where "public_settings ?s = Inr p" by (auto simp: is_ok_def split: sum.splits)
  then show ?thesis using credentials_stay_apart [of ?s] by blast
qed

section \<open>Retention follows the flags\<close>

lemma policy_fold_ok:
  "policy_fold s sec keys p = Inr q \<Longrightarrow>
     rp_persistent q = rp_persistent p \<union> {k \<in> set keys. \<exists>f. secret_flags s sec k = Inr f \<and> f AND 3 = 0} \<and>
     (rp_migration_required q \<longleftrightarrow> rp_migration_required p \<or> (\<exists>k \<in> set keys. \<exists>f. secret_flags s sec k = Inr f \<and> f AND 3 = 1)) \<and>
     (\<forall>k \<in> set keys. \<exists>f. secret_flags s sec k = Inr f)"
proof (induction s sec keys p rule: policy_fold.induct)
  case (2 s sec k ks p)
  then obtain p1 where p1: "policy_step s sec k p = Inr p1" "policy_fold s sec ks p1 = Inr q"
    by (auto simp: and_then_Inr_iff)
  from p1(1) obtain f where f: "secret_flags s sec k = Inr f"
      "p1 = (if f AND 3 = 0 then p\<lparr>rp_persistent := insert k (rp_persistent p)\<rparr>
             else if f AND 3 = 1 then p\<lparr>rp_migration_required := True\<rparr> else p)"
    by (auto simp: policy_step_def and_then_Inr_iff AGENT_OWNED_def NOT_SAVED_def split: if_splits)
  with 2(1) [OF p1(2)] show ?case by (auto split: if_splits)
qed simp

end
