(* ===== verification/Nm_Io.thy ===== *)
theory Nm_Io
  imports Credentials
begin

text \<open>
  Programs that talk to NetworkManager. A program asks one question after the other; the environment
  answers each with an error or a reply that may depend on every question before it, so that the
  environments are all possible behaviours of NetworkManager, of the other clients of the bus and of
  the other threads between two calls. The history of a run is the list of its questions, newest
  first. \<open>src/nm/mod.rs\<close> adds the fence every proxy has: a pinned owner of the name must be the
  current one.
\<close>

section \<open>Questions and answers\<close>

datatype nm_call =
    GetNameOwner
  | GetProperty string string
  | GetSettings string
  | GetSecrets string string
  | Update2 string connection_settings u32 u64
  | Delete string
  | ListConnections
  | GetPermissions
  | GetAppliedConnection string
  | Reapply string connection_settings u64 u32
  | ReconcileCast
  | GetDevices
  | GetAccessPoints string
  | SetProperty string string bool
  | DeactivateConnection string
  | ActivateConnection string string string
  | AddAndActivateConnection connection_settings string string
  | AddAndActivateConnection2 connection_settings string string section_data
  | RequestScan string section_data
  | RunNft string string
  | LocalRead string
  | Wait

datatype nm_reply =
    RUnit
  | RStr string
  | RBool bool
  | RBytes bytes
  | RU8 "8 word"
  | RI32 int
  | RU32 u32
  | RU64 u64
  | RTime nat
  | RPath string
  | RPaths "string list"
  | RSettings connection_settings
  | RDict section_data
  | RApplied connection_settings u64
  | RActivation string string
  | RI64 int
  | RPair u32 u32
  | RTexts "(string, string) hash_map"

type_synonym nm_history = "nm_call list"
type_synonym nm_env = "nm_history \<Rightarrow> nm_call \<Rightarrow> anyhow_error + nm_reply"
type_synonym 'a io = "nm_env \<Rightarrow> nm_history \<Rightarrow> nm_history \<times> (anyhow_error + 'a)"

definition io_lift :: "anyhow_error + 'a \<Rightarrow> 'a io" where
  "io_lift r = (\<lambda>E h. (h, r))"

definition io_return :: "'a \<Rightarrow> 'a io" where
  "io_return x = io_lift (Inr x)"

definition io_bind :: "'a io \<Rightarrow> ('a \<Rightarrow> 'b io) \<Rightarrow> 'b io" where
  "io_bind m f = (\<lambda>E h. case m E h of (h', Inl e) \<Rightarrow> (h', Inl e) | (h', Inr x) \<Rightarrow> f x E h')"

definition io_then :: "unit io \<Rightarrow> 'b io \<Rightarrow> 'b io" where
  "io_then m k = io_bind m (\<lambda>_. k)"

definition io_ask :: "nm_call \<Rightarrow> nm_reply io" where
  "io_ask c = (\<lambda>E h. (c # h, E h c))"

definition io_ensure :: "bool \<Rightarrow> string \<Rightarrow> unit io" where
  "io_ensure b message = io_lift (if b then Inr () else Inl [LContext message])"

text \<open>\<open>match result\<close>: the outcome as a value, \<open>map_err\<close>: another error.\<close>

definition io_try :: "'a io \<Rightarrow> (anyhow_error + 'a) io" where
  "io_try m = (\<lambda>E h. case m E h of (h', r) \<Rightarrow> (h', Inr r))"

definition io_map_err :: "(anyhow_error \<Rightarrow> anyhow_error) \<Rightarrow> 'a io \<Rightarrow> 'a io" where
  "io_map_err f m = (\<lambda>E h. case m E h of (h', r) \<Rightarrow> (h', map_sum f id r))"

fun io_each :: "('a \<Rightarrow> unit io) \<Rightarrow> 'a list \<Rightarrow> unit io" where
  "io_each f [] = io_return ()"
| "io_each f (x # xs) = io_then (f x) (io_each f xs)"

fun io_fold :: "('a \<Rightarrow> 's \<Rightarrow> 's io) \<Rightarrow> 'a list \<Rightarrow> 's \<Rightarrow> 's io" where
  "io_fold f [] s = io_return s"
| "io_fold f (x # xs) s = io_bind (f x s) (io_fold f xs)"

text \<open>The second operand of \<open>&&\<close> is asked only when the first holds.\<close>

definition io_and :: "bool io \<Rightarrow> bool io \<Rightarrow> bool io" where
  "io_and m k = io_bind m (\<lambda>b. if b then k else io_return False)"

definition io_map :: "('a \<Rightarrow> 'b) \<Rightarrow> 'a io \<Rightarrow> 'b io" where
  "io_map f m = io_bind m (\<lambda>x. io_return (f x))"

definition io_require :: "bool io \<Rightarrow> string \<Rightarrow> unit io" where
  "io_require m message = io_bind m (\<lambda>b. io_ensure b message)"

section \<open>Typed answers\<close>

text \<open>A reply of another type is a conversion error of the bus library.\<close>

definition expect :: "(nm_reply \<Rightarrow> 'a option) \<Rightarrow> nm_call \<Rightarrow> 'a io" where
  "expect conv c = io_bind (io_ask c) (\<lambda>r. io_lift (ok_or (conv r) incorrect_type))"

fun reply_str :: "nm_reply \<Rightarrow> string option" where
  "reply_str (RStr s) = Some s"
| "reply_str _ = None"

fun reply_bool :: "nm_reply \<Rightarrow> bool option" where
  "reply_bool (RBool b) = Some b"
| "reply_bool _ = None"

fun reply_bytes :: "nm_reply \<Rightarrow> bytes option" where
  "reply_bytes (RBytes b) = Some b"
| "reply_bytes _ = None"

fun reply_u8 :: "nm_reply \<Rightarrow> 8 word option" where
  "reply_u8 (RU8 n) = Some n"
| "reply_u8 _ = None"

fun reply_i32 :: "nm_reply \<Rightarrow> int option" where
  "reply_i32 (RI32 n) = Some n"
| "reply_i32 _ = None"

fun reply_u32 :: "nm_reply \<Rightarrow> u32 option" where
  "reply_u32 (RU32 n) = Some n"
| "reply_u32 _ = None"

fun reply_u64 :: "nm_reply \<Rightarrow> u64 option" where
  "reply_u64 (RU64 n) = Some n"
| "reply_u64 _ = None"

fun reply_time :: "nm_reply \<Rightarrow> nat option" where
  "reply_time (RTime n) = Some n"
| "reply_time _ = None"

fun reply_path :: "nm_reply \<Rightarrow> string option" where
  "reply_path (RPath p) = Some p"
| "reply_path _ = None"

fun reply_paths :: "nm_reply \<Rightarrow> string list option" where
  "reply_paths (RPaths ps) = Some ps"
| "reply_paths _ = None"

fun reply_settings :: "nm_reply \<Rightarrow> connection_settings option" where
  "reply_settings (RSettings s) = Some s"
| "reply_settings _ = None"

fun reply_dict :: "nm_reply \<Rightarrow> section_data option" where
  "reply_dict (RDict d) = Some d"
| "reply_dict _ = None"

fun reply_applied :: "nm_reply \<Rightarrow> (connection_settings \<times> u64) option" where
  "reply_applied (RApplied s v) = Some (s, v)"
| "reply_applied _ = None"

fun reply_activation :: "nm_reply \<Rightarrow> (string \<times> string) option" where
  "reply_activation (RActivation profile active) = Some (profile, active)"
| "reply_activation _ = None"

fun reply_i64 :: "nm_reply \<Rightarrow> int option" where
  "reply_i64 (RI64 n) = Some n"
| "reply_i64 _ = None"

fun reply_pair :: "nm_reply \<Rightarrow> (u32 \<times> u32) option" where
  "reply_pair (RPair a b) = Some (a, b)"
| "reply_pair _ = None"

fun reply_texts :: "nm_reply \<Rightarrow> (string, string) hash_map option" where
  "reply_texts (RTexts m) = Some m"
| "reply_texts _ = None"

abbreviation version_of :: "string \<Rightarrow> u64 io" where
  "version_of path \<equiv> expect reply_u64 (GetProperty path ''VersionId'')"

lemma reply_conv:
  "reply_u32 r = Some a \<longleftrightarrow> r = RU32 a" "reply_path r = Some p \<longleftrightarrow> r = RPath p" "reply_str r = Some s \<longleftrightarrow> r = RStr s"
  "reply_applied r = Some (c, v) \<longleftrightarrow> r = RApplied c v" "reply_settings r = Some c \<longleftrightarrow> r = RSettings c"
  "reply_bool r = Some b \<longleftrightarrow> r = RBool b" "reply_paths r = Some ps \<longleftrightarrow> r = RPaths ps"
  "reply_activation r = Some (p, p') \<longleftrightarrow> r = RActivation p p'" "reply_time r = Some t \<longleftrightarrow> r = RTime t"
  "reply_i64 r = Some i \<longleftrightarrow> r = RI64 i" "reply_pair r = Some (a, b') \<longleftrightarrow> r = RPair a b'"
  by (cases r; auto)+

section \<open>The pinned owner\<close>

record nm =
  nm_destination :: string
  nm_service_name :: string

definition current_owner :: "nm \<Rightarrow> string io" where
  "current_owner n =
     (if starts_with '':'' (nm_service_name n) then io_return (nm_service_name n)
      else expect reply_str GetNameOwner)"

definition ensure_current_owner :: "nm \<Rightarrow> unit io" where
  "ensure_current_owner n =
     (if starts_with '':'' (nm_destination n)
      then io_bind (current_owner n) (\<lambda>owner.
        if owner \<noteq> nm_destination n
        then io_lift (Inl (into_anyhow (cancelled_error ''NetworkManager changed during the operation'')))
        else io_return ())
      else io_return ())"

text \<open>A proxy is made after the fence; making it asks nothing further.\<close>

definition with_proxy :: "nm \<Rightarrow> 'a io \<Rightarrow> 'a io" where
  "with_proxy n m = io_then (ensure_current_owner n) m"

section \<open>Runs\<close>

lemma io_bind_run:
  "io_bind m f E h = (h', r) \<longleftrightarrow>
     (\<exists>h1 e. m E h = (h1, Inl e) \<and> h' = h1 \<and> r = Inl e) \<or> (\<exists>h1 x. m E h = (h1, Inr x) \<and> f x E h1 = (h', r))"
  by (cases "m E h"; cases "snd (m E h)") (auto simp: io_bind_def)

lemma io_then_run:
  "io_then m k E h = (h', r) \<longleftrightarrow>
     (\<exists>h1 e. m E h = (h1, Inl e) \<and> h' = h1 \<and> r = Inl e) \<or> (\<exists>h1. m E h = (h1, Inr ()) \<and> k E h1 = (h', r))"
  by (auto simp: io_then_def io_bind_run)

lemma io_lift_run [simp]: "io_lift r E h = (h, r)" and io_return_run [simp]: "io_return x E h = (h, Inr x)"
  by (simp_all add: io_lift_def io_return_def)

lemma io_ask_run [simp]: "io_ask c E h = (c # h, E h c)"
  by (simp add: io_ask_def)

lemma io_ensure_run: "io_ensure b msg E h = (h', r) \<longleftrightarrow> h' = h \<and> r = (if b then Inr () else Inl [LContext msg])"
  by (auto simp: io_ensure_def)

lemma expect_run: "expect conv c E h = (c # h, and_then (E h c) (\<lambda>r. ok_or (conv r) incorrect_type))"
  by (simp add: expect_def io_bind_def and_then_def split: sum.splits)

lemma io_try_run: "io_try m E h = (h', r) \<longleftrightarrow> (\<exists>r0. m E h = (h', r0) \<and> r = Inr r0)"
  by (auto simp: io_try_def split: prod.splits)

lemma io_map_err_run: "io_map_err f m E h = (h', r) \<longleftrightarrow> (\<exists>r0. m E h = (h', r0) \<and> r = map_sum f id r0)"
  by (auto simp: io_map_err_def split: prod.splits)

lemma io_map_run: "io_map f m E h = (h', r) \<longleftrightarrow> (\<exists>r0. m E h = (h', r0) \<and> r = map_sum id f r0)"
  by (cases "m E h"; cases "snd (m E h)") (auto simp: io_map_def io_bind_def)

lemma io_require_run:
  "io_require m msg E h = (h', r) \<longleftrightarrow>
     (\<exists>b. m E h = (h', b) \<and> r = (case b of Inl e \<Rightarrow> Inl e | Inr b \<Rightarrow> if b then Inr () else Inl [LContext msg]))"
  by (cases "m E h"; cases "snd (m E h)") (auto simp: io_require_def io_bind_def io_ensure_def)

lemma io_require_ok: "io_require m msg E h = (h', Inr ()) \<longleftrightarrow> m E h = (h', Inr True)"
  by (cases "m E h"; cases "snd (m E h)") (auto simp: io_require_def io_bind_def io_ensure_def)

lemma io_and_ok:
  "io_and m k E h = (h', Inr True) \<longleftrightarrow> (\<exists>h1. m E h = (h1, Inr True) \<and> k E h1 = (h', Inr True))"
  by (auto simp: io_and_def io_bind_run split: if_splits)

lemma io_map_ok: "io_map f m E h = (h', Inr y) \<longleftrightarrow> (\<exists>x. m E h = (h', Inr x) \<and> y = f x)"
  by (cases "m E h"; cases "snd (m E h)") (auto simp: io_map_def io_bind_def)

lemma io_bind_ok: "io_bind m f E h = (h', Inr y) \<longleftrightarrow> (\<exists>h1 x. m E h = (h1, Inr x) \<and> f x E h1 = (h', Inr y))"
  by (auto simp: io_bind_run)

lemma io_then_ok: "io_then m k E h = (h', Inr y) \<longleftrightarrow> (\<exists>h1. m E h = (h1, Inr ()) \<and> k E h1 = (h', Inr y))"
  by (auto simp: io_then_run)

lemma io_ensure_ok: "io_ensure b msg E h = (h', Inr ()) \<longleftrightarrow> b \<and> h' = h"
  by (auto simp: io_ensure_def)

lemma io_lift_ok: "io_lift r E h = (h', Inr x) \<longleftrightarrow> h' = h \<and> r = Inr x"
  by auto

lemma expect_ok:
  "expect conv c E h = (h', Inr x) \<longleftrightarrow> h' = c # h \<and> (\<exists>r. E h c = Inr r \<and> conv r = Some x)"
  by (auto simp: expect_run and_then_Inr_iff ok_or_def split: option.splits)

lemma io_map_err_ok: "io_map_err f m E h = (h', Inr x) \<longleftrightarrow> m E h = (h', Inr x)"
  by (cases "m E h"; cases "snd (m E h)") (auto simp: io_map_err_def)

lemma io_try_ok: "io_try m E h = (h', Inr r) \<longleftrightarrow> m E h = (h', r)"
  by (auto simp: io_try_def split: prod.splits)

lemma io_try_total: "io_try m E h \<noteq> (h', Inl e)"
  by (auto simp: io_try_def split: prod.splits)

lemmas io_ok = io_require_ok io_and_ok io_map_ok io_bind_ok io_then_ok io_ensure_ok io_lift_ok expect_ok io_map_err_ok

text \<open>
  What a run asks: \<open>asks P m\<close> says that every question of \<open>m\<close> satisfies \<open>P\<close> and that a run only adds to
  the history.
\<close>

definition asks :: "(nm_call \<Rightarrow> bool) \<Rightarrow> 'a io \<Rightarrow> bool" where
  "asks P m \<longleftrightarrow> (\<forall>E h. \<exists>cs. fst (m E h) = cs @ h \<and> list_all P cs)"

named_theorems asks_rules

lemma asks_run: "asks P m \<Longrightarrow> m E h = (h', r) \<Longrightarrow> \<exists>cs. h' = cs @ h \<and> list_all P cs"
  unfolding asks_def by (metis fst_conv)

lemma asks_mono: "asks P m \<Longrightarrow> (\<And>c. P c \<Longrightarrow> Q c) \<Longrightarrow> asks Q m"
  unfolding asks_def using list_all_cong [of _ _ P Q] by (metis list.pred_mono_strong)

lemma asks_lift [asks_rules]: "asks P (io_lift r)" "asks P (io_return x)" "asks P (io_ensure b msg)"
  by (simp_all add: asks_def io_ensure_def)

lemma asks_ask [asks_rules]: "P c \<Longrightarrow> asks P (io_ask c)"
  by (auto simp: asks_def)

lemma asks_bind [asks_rules]: "asks P m \<Longrightarrow> (\<And>x. asks P (f x)) \<Longrightarrow> asks P (io_bind m f)"
  unfolding asks_def
proof (intro allI)
  fix E h assume a: "\<forall>E h. \<exists>cs. fst (m E h) = cs @ h \<and> list_all P cs"
    and b: "\<And>x. \<forall>E h. \<exists>cs. fst (f x E h) = cs @ h \<and> list_all P cs"
  obtain h1 r where m: "m E h = (h1, r)" by fastforce
  with a obtain cs where cs: "h1 = cs @ h" "list_all P cs" by (metis fst_conv)
  show "\<exists>cs. fst (io_bind m f E h) = cs @ h \<and> list_all P cs"
  proof (cases r)
    case (Inl e)
    with m cs show ?thesis by (simp add: io_bind_def)
  next
    case (Inr x)
    from b [of x] obtain ds where "fst (f x E h1) = ds @ h1 \<and> list_all P ds" by blast
    with m cs Inr show ?thesis by (intro exI [of _ "ds @ cs"]) (simp add: io_bind_def)
  qed
qed

lemma asks_then [asks_rules]: "asks P m \<Longrightarrow> asks P k \<Longrightarrow> asks P (io_then m k)"
  unfolding io_then_def by (rule asks_bind)

lemma asks_expect [asks_rules]: "P c \<Longrightarrow> asks P (expect conv c)"
  unfolding expect_def by (intro asks_bind asks_ask asks_lift)

lemma asks_try [asks_rules]: "asks P m \<Longrightarrow> asks P (io_try m)"
  by (simp add: asks_def io_try_def split_beta)

lemma asks_and [asks_rules]: "asks P m \<Longrightarrow> asks P k \<Longrightarrow> asks P (io_and m k)"
  unfolding io_and_def by (intro asks_bind) (simp_all add: asks_lift)

lemma asks_map [asks_rules]: "asks P m \<Longrightarrow> asks P (io_map f m)"
  unfolding io_map_def by (intro asks_bind asks_lift)

lemma asks_require [asks_rules]: "asks P m \<Longrightarrow> asks P (io_require m msg)"
  unfolding io_require_def by (intro asks_bind asks_lift)

lemma asks_map_err [asks_rules]: "asks P m \<Longrightarrow> asks P (io_map_err f m)"
  by (simp add: asks_def io_map_err_def split_beta)

lemma asks_if [asks_rules]: "(b \<Longrightarrow> asks P m) \<Longrightarrow> (\<not> b \<Longrightarrow> asks P k) \<Longrightarrow> asks P (if b then m else k)"
  by simp

lemma asks_prod [asks_rules]: "(\<And>a b. asks P (f a b)) \<Longrightarrow> asks P (case x of (a, b) \<Rightarrow> f a b)"
  by (cases x) simp

lemma asks_each [asks_rules]: "(\<And>x. asks P (f x)) \<Longrightarrow> asks P (io_each f xs)"
  by (induction xs) (auto intro: asks_rules)

lemma asks_fold [asks_rules]: "(\<And>x s. asks P (f x s)) \<Longrightarrow> asks P (io_fold f xs s)"
  by (induction xs arbitrary: s) (auto intro: asks_rules)

lemma asks_owner [asks_rules]: "P GetNameOwner \<Longrightarrow> asks P (current_owner n)"
  unfolding current_owner_def by (intro asks_rules)

lemma asks_ensure_owner [asks_rules]: "P GetNameOwner \<Longrightarrow> asks P (ensure_current_owner n)"
  unfolding ensure_current_owner_def by (intro asks_rules)

lemma asks_proxy [asks_rules]: "P GetNameOwner \<Longrightarrow> asks P m \<Longrightarrow> asks P (with_proxy n m)"
  unfolding with_proxy_def by (intro asks_rules)

end
