(* ===== verification/Channels.thy ===== *)
theory Channels
  imports Connect_Request
begin

text \<open>
  Wi-Fi frequencies, channels and bands (\<open>src/model.rs\<close>). The table and the bounds of the bands are
  the ones \<open>build.rs\<close> generates from \<open>data/wifi-channels.csv\<close>.
\<close>

definition WIFI_CHANNELS :: "(u32 \<times> u32) list" where
  "WIFI_CHANNELS = [
    (2412, 1), (2417, 2), (2422, 3), (2427, 4), (2432, 5), (2437, 6), (2442, 7), (2447, 8),
    (2452, 9), (2457, 10), (2462, 11), (2467, 12), (2472, 13), (2484, 14), (5160, 32), (5180,
    36), (5200, 40), (5220, 44), (5240, 48), (5260, 52), (5280, 56), (5300, 60), (5320, 64),
    (5500, 100), (5520, 104), (5540, 108), (5560, 112), (5580, 116), (5600, 120), (5620, 124),
    (5640, 128), (5660, 132), (5680, 136), (5700, 140), (5720, 144), (5745, 149), (5765, 153),
    (5785, 157), (5805, 161), (5825, 165), (4915, 183), (4920, 184), (4925, 185), (4935, 187),
    (4940, 188), (4945, 189), (4960, 192), (4980, 196), (5955, 1), (5975, 5), (5995, 9), (6015,
    13), (6035, 17), (6055, 21), (6075, 25), (6095, 29), (6115, 33), (6135, 37), (6155, 41),
    (6175, 45), (6195, 49), (6215, 53), (6235, 57), (6255, 61), (6275, 65), (6295, 69), (6315,
    73), (6335, 77), (6355, 81), (6375, 85), (6395, 89), (6415, 93), (6435, 97), (6455, 101),
    (6475, 105), (6495, 109), (6515, 113), (6535, 117), (6555, 121), (6575, 125), (6595, 129),
    (6615, 133), (6635, 137), (6655, 141), (6675, 145), (6695, 149), (6715, 153), (6735, 157),
    (6755, 161), (6775, 169), (6815, 173), (6835, 177), (6855, 181), (6875, 185), (6895, 189),
    (6915, 193), (6935, 197), (6955, 201), (6975, 205), (6995, 209), (7015, 213), (7035, 217),
    (7055, 221), (7075, 225), (7095, 229), (7115, 233)]"

definition frequency_channel :: "u32 \<Rightarrow> u32" where
  "frequency_channel frequency =
     (case find (\<lambda>(candidate, _). candidate = frequency) WIFI_CHANNELS of
        Some (_, channel) \<Rightarrow> channel | None \<Rightarrow> 0)"

definition frequency_band :: "u32 \<Rightarrow> string" where
  "frequency_band frequency =
     (if 2412 \<le> frequency \<and> frequency \<le> 2484 then ''2.4 GHz''
      else if 4915 \<le> frequency \<and> frequency \<le> 5825 then ''5 GHz''
      else if 5955 \<le> frequency \<and> frequency \<le> 7115 then ''6 GHz''
      else [])"

definition channel_is_in_band :: "u32 \<Rightarrow> wifi_band \<Rightarrow> bool" where
  "channel_is_in_band channel band =
     (case band of
        BandAuto \<Rightarrow> True
      | _ \<Rightarrow>
          (let label = (case band of Band2_4 \<Rightarrow> ''2.4 GHz'' | Band5 \<Rightarrow> ''5 GHz'' | _ \<Rightarrow> ''6 GHz'')
           in list_ex (\<lambda>(frequency, candidate). candidate = channel \<and> frequency_band frequency = label) WIFI_CHANNELS))"

fun band_nm_value :: "wifi_band \<Rightarrow> string option" where
  "band_nm_value BandAuto = None"
| "band_nm_value Band2_4 = Some ''bg''"
| "band_nm_value Band5 = Some ''a''"
| "band_nm_value Band6 = Some ''6GHz''"

definition band_from_nm_value :: "string \<Rightarrow> wifi_band" where
  "band_from_nm_value value =
     (if value = ''bg'' then Band2_4 else if value = ''a'' then Band5 else if value = ''6GHz'' then Band6
      else BandAuto)"

lemma channel_rows_in_band: "list_all (\<lambda>(frequency, channel). channel \<noteq> 0 \<and> frequency_band frequency \<noteq> []) WIFI_CHANNELS"
  by (simp add: WIFI_CHANNELS_def frequency_band_def)

lemma band_nm_value_roundtrip: "band_nm_value b = Some v \<Longrightarrow> band_from_nm_value v = b"
  by (cases b) (auto simp: band_from_nm_value_def)

lemma frequency_channel_in_band:
  assumes "frequency_channel f \<noteq> 0" and "from_frequency_label (frequency_band f) = Some b"
  shows "channel_is_in_band (frequency_channel f) b"
proof -
  from assms(1) obtain c where c: "(f, c) \<in> set WIFI_CHANNELS" "frequency_channel f = c"
    by (auto simp: frequency_channel_def find_Some_iff split: option.splits) (metis nth_mem)
  with assms(2) show ?thesis
    by (cases b) (auto simp: channel_is_in_band_def list_ex_iff from_frequency_label_def Let_def split: if_splits)
qed

end
