(* ===== verification/Profile_Settings.thy ===== *)
theory Profile_Settings
  imports Credentials Channels Scan_Schedule Qr
begin

text \<open>
  What a saved Wi-Fi profile says (\<open>src/nm/settings.rs\<close>, \<open>src/nm/settings/casting.rs\<close>,
  \<open>src/nm/settings/profile_secrets.rs\<close>, \<open>src/nm/ip_settings.rs\<close>) over the settings of \<open>Credentials\<close>: its
  identity, which access points it is restricted to, its privacy and casting policy, its address
  configuration and how that configuration is written, and how its password is shared.
\<close>

section \<open>Typed properties\<close>

fun value_bool :: "dbus_value \<Rightarrow> bool option" where
  "value_bool (DBool b) = Some b"
| "value_bool _ = None"

fun value_i32 :: "dbus_value \<Rightarrow> int option" where
  "value_i32 (DI32 n) = Some n"
| "value_i32 _ = None"

fun value_i64 :: "dbus_value \<Rightarrow> int option" where
  "value_i64 (DI64 n) = Some n"
| "value_i64 _ = None"

fun value_u64 :: "dbus_value \<Rightarrow> u64 option" where
  "value_u64 (DU64 n) = Some n"
| "value_u64 _ = None"

definition setting_bool :: "section_data \<Rightarrow> string \<Rightarrow> bool option" where
  "setting_bool data key = Option.bind (hm_get data key) value_bool"

definition setting_strings :: "section_data \<Rightarrow> string \<Rightarrow> string list" where
  "setting_strings data key =
     (case Option.bind (hm_get data key) (value_list value_string) of Some l \<Rightarrow> l | None \<Rightarrow> [])"

definition setting_bytes :: "dbus_value \<Rightarrow> bytes option" where
  "setting_bytes v = value_list value_u8 v"

definition i32_range :: "int \<Rightarrow> bool" where
  "i32_range n \<longleftrightarrow> - (2 ^ 31) \<le> n \<and> n < 2 ^ 31"

definition setting_i32 :: "section_data \<Rightarrow> string \<Rightarrow> int option" where
  "setting_i32 data key =
     (case hm_get data key of
        None \<Rightarrow> None
      | Some v \<Rightarrow>
          (case value_i32 v of
             Some n \<Rightarrow> Some n
           | None \<Rightarrow> Option.bind (case value_i64 v of Some n \<Rightarrow> Some n | None \<Rightarrow> map_option uint (value_u32 v))
                       (\<lambda>wide. if i32_range wide then Some wide else None)))"

definition setting_i64 :: "dbus_value \<Rightarrow> int option" where
  "setting_i64 v = (case value_i64 v of Some n \<Rightarrow> Some n | None \<Rightarrow> map_option uint (value_u32 v))"

definition nonempty :: "string option \<Rightarrow> string option" where
  "nonempty x = Option.bind x (\<lambda>s. if s \<noteq> [] then Some s else None)"

definition section_of :: "connection_settings \<Rightarrow> string \<Rightarrow> section_data" where
  "section_of settings sec = (case hm_get settings sec of Some d \<Rightarrow> d | None \<Rightarrow> [])"

section \<open>Casting, privacy and identity\<close>

definition mdns_policy :: "connection_settings \<Rightarrow> int option" where
  "mdns_policy settings =
     Option.bind (hm_get settings ''connection'') (\<lambda>c. Option.bind (hm_get c ''mdns'') value_i32)"

definition casting_enabled_from_settings :: "connection_settings \<Rightarrow> bool" where
  "casting_enabled_from_settings settings \<longleftrightarrow> mdns_policy settings \<in> {Some 1, Some 2}"

definition set_casting_enabled :: "connection_settings \<Rightarrow> bool \<Rightarrow> connection_settings" where
  "set_casting_enabled settings enabled =
     hm_insert ''connection'' (hm_insert ''mdns'' (DI32 (if enabled then 1 else 0)) (section_of settings ''connection'')) settings"

definition send_hostname_of :: "connection_settings \<Rightarrow> string \<Rightarrow> bool" where
  "send_hostname_of settings family =
     (case Option.bind (hm_get settings family) (\<lambda>d. setting_bool d ''dhcp-send-hostname'') of
        Some b \<Rightarrow> b | None \<Rightarrow> True)"

definition privacy_from_settings :: "connection_settings \<Rightarrow> profile_privacy" where
  "privacy_from_settings settings =
     (let policy = (case Option.bind (hm_get settings ''802-11-wireless'') (\<lambda>w.
             case setting_text w ''assigned-mac-address'' of
               Some a \<Rightarrow> Some a | None \<Rightarrow> setting_text w ''cloned-mac-address'') of
           Some a \<Rightarrow> a | None \<Rightarrow> ''default'')
      in \<lparr>pp_mac_address_policy = policy, pp_randomized_mac = (policy \<in> {''random'', ''stable''}),
          pp_send_hostname = (send_hostname_of settings ''ipv4'' \<or> send_hostname_of settings ''ipv6'')\<rparr>)"

definition wifi_typed :: "section_data \<Rightarrow> bool" where
  "wifi_typed connection \<longleftrightarrow>
     (case setting_text connection ''type'' of None \<Rightarrow> True | Some t \<Rightarrow> t = ''802-11-wireless'')"

definition saved_wifi_connection_from_settings ::
    "string \<Rightarrow> connection_settings \<Rightarrow> saved_wifi_connection option" where
  "saved_wifi_connection_from_settings path settings =
     Option.bind (hm_get settings ''connection'') (\<lambda>connection.
     Option.bind (hm_get settings ''802-11-wireless'') (\<lambda>wireless.
       if \<not> wifi_typed connection then None
       else (let ssid_bytes = (case Option.bind (hm_get wireless ''ssid'') setting_bytes of Some b \<Rightarrow> b | None \<Rightarrow> [])
             in Some \<lparr>swc_path = path,
                  swc_id = (case setting_text connection ''id'' of Some i \<Rightarrow> i | None \<Rightarrow> path),
                  swc_ssid = display_ssid ssid_bytes, swc_ssid_bytes = ssid_bytes, swc_remember = None,
                  swc_autoconnect = (case setting_bool connection ''autoconnect'' of Some b \<Rightarrow> b | None \<Rightarrow> True),
                  swc_casting_enabled = casting_enabled_from_settings settings,
                  swc_privacy = privacy_from_settings settings\<rparr>)))"

definition wifi_settings_section :: "connection_settings \<Rightarrow> section_data option" where
  "wifi_settings_section settings =
     Option.bind (hm_get settings ''802-11-wireless'') (\<lambda>wireless.
       if (case hm_get settings ''connection'' of None \<Rightarrow> True | Some c \<Rightarrow> wifi_typed c) then Some wireless else None)"

section \<open>Which access points a profile is for\<close>

record wifi_profile_match =
  wm_ssid_bytes :: bytes
  wm_bssid_bytes :: "bytes option"
  wm_band :: "string option"
  wm_channel :: u32

definition match_from_settings :: "connection_settings \<Rightarrow> wifi_profile_match option" where
  "match_from_settings settings =
     Option.bind (wifi_settings_section settings) (\<lambda>wireless.
     Option.bind (Option.bind (hm_get wireless ''ssid'') setting_bytes) (\<lambda>ssid.
       Some \<lparr>wm_ssid_bytes = ssid, wm_bssid_bytes = Option.bind (hm_get wireless ''bssid'') setting_bytes,
             wm_band = nonempty (setting_text wireless ''band''),
             wm_channel = (case setting_u32 wireless ''channel'' of Some c \<Rightarrow> c | None \<Rightarrow> 0)\<rparr>))"

text \<open>\<open>u8::from_str_radix(part, 16)\<close>: an optional plus sign and at least one digit.\<close>

definition u8_from_hex :: "string \<Rightarrow> char option" where
  "u8_from_hex part =
     (let digits = (case part of c # r \<Rightarrow> if c = CHR ''+'' then r else part | [] \<Rightarrow> [])
      in if digits = [] then None
         else Option.bind (those (map hex_value digits)) (\<lambda>ds.
           let n = foldl (\<lambda>n d. 16 * n + d) 0 ds in if n < 256 then Some (char_of n) else None))"

definition parse_bssid :: "string \<Rightarrow> bytes option" where
  "parse_bssid v =
     Option.bind (those (map u8_from_hex (split_on (\<lambda>c. c = CHR '':'' \<or> c = CHR ''-'') v))) (\<lambda>bs.
       if length bs = 6 then Some bs else None)"

definition bssid_bytes_match :: "bytes \<Rightarrow> string \<Rightarrow> bool" where
  "bssid_bytes_match saved ap_bssid' \<longleftrightarrow> parse_bssid ap_bssid' = Some saved"

definition ap_matches_band_channel :: "access_point \<Rightarrow> string option \<Rightarrow> u32 \<Rightarrow> bool" where
  "ap_matches_band_channel ap band channel \<longleftrightarrow>
     (case band of None \<Rightarrow> True
      | Some b \<Rightarrow> Option.bind (from_frequency_label (frequency_band (ap_frequency ap))) band_nm_value = Some b)
     \<and> (channel = 0 \<or> frequency_channel (ap_frequency ap) = channel)"

definition matches_access_point :: "wifi_profile_match \<Rightarrow> access_point \<Rightarrow> bool" where
  "matches_access_point m ap \<longleftrightarrow>
     wm_ssid_bytes m = ssid_bytes_of ap
     \<and> (case wm_bssid_bytes m of None \<Rightarrow> True | Some b \<Rightarrow> bssid_bytes_match b (ap_bssid ap))
     \<and> ap_matches_band_channel ap (wm_band m) (wm_channel m)"

definition settings_match_access_point :: "connection_settings \<Rightarrow> access_point \<Rightarrow> bool" where
  "settings_match_access_point settings ap =
     (case match_from_settings settings of None \<Rightarrow> False | Some m \<Rightarrow> matches_access_point m ap)"

definition settings_match_wifi_ssid :: "connection_settings \<Rightarrow> bytes \<Rightarrow> bool" where
  "settings_match_wifi_ssid settings ssid =
     (case wifi_settings_section settings of None \<Rightarrow> False
      | Some w \<Rightarrow> (case Option.bind (hm_get w ''ssid'') setting_bytes of None \<Rightarrow> False | Some b \<Rightarrow> b = ssid))"

section \<open>Secrets a profile needs\<close>

datatype wifi_secret_kind = SkNone | SkPersonal | SkLeap | SkWep | SkEnterprise

definition access_point_secret_kind :: "access_point option \<Rightarrow> wifi_secret_kind" where
  "access_point_secret_kind ap =
     (case map_option (\<lambda>a. security_class (ap_flags a) (ap_wpa_flags a) (ap_rsn_flags a)) ap of
        Some ScPersonal \<Rightarrow> SkPersonal
      | Some ScLegacy \<Rightarrow> SkWep
      | Some ScEnterprise \<Rightarrow> SkEnterprise
      | _ \<Rightarrow> SkNone)"

definition text_or_empty :: "string option \<Rightarrow> string" where
  "text_or_empty x = (case x of Some s \<Rightarrow> s | None \<Rightarrow> [])"

definition wifi_secret_kind_of :: "section_data \<Rightarrow> access_point option \<Rightarrow> wifi_secret_kind" where
  "wifi_secret_kind_of security ap =
     (let key_mgmt = text_or_empty (setting_text security ''key-mgmt'')
      in if key_mgmt = ''owe'' then SkNone
         else if key_mgmt \<in> {''wpa-psk'', ''sae''} then SkPersonal
         else if key_mgmt = ''ieee8021x'' \<and> setting_text security ''auth-alg'' = Some ''leap'' then SkLeap
         else if contains key_mgmt ''eap'' then SkEnterprise
         else if key_mgmt \<in> {''none'', []} then SkWep
         else access_point_secret_kind ap)"

definition setting_secret_string ::
    "connection_settings \<Rightarrow> connection_settings option \<Rightarrow> string \<Rightarrow> string \<Rightarrow> string option" where
  "setting_secret_string settings secrets sec key =
     nonempty (case Option.bind (Option.bind secrets (\<lambda>s. hm_get s sec)) (\<lambda>d. setting_text d key) of
                 Some v \<Rightarrow> Some v
               | None \<Rightarrow> Option.bind (hm_get settings sec) (\<lambda>d. setting_text d key))"

definition plain_secret_flags :: "connection_settings \<Rightarrow> string \<Rightarrow> string \<Rightarrow> u32" where
  "plain_secret_flags settings sec flags_name =
     (case Option.bind (hm_get settings sec) (\<lambda>d. setting_u32 d flags_name) of Some f \<Rightarrow> f | None \<Rightarrow> 0)"

definition required_secret_needs_agent ::
    "connection_settings \<Rightarrow> connection_settings option \<Rightarrow> string \<Rightarrow> string \<Rightarrow> string \<Rightarrow> bool" where
  "required_secret_needs_agent settings secrets sec key flags_name =
     (let flags = plain_secret_flags settings sec flags_name
      in if flags AND 4 \<noteq> 0 then False
         else if flags AND 3 \<noteq> 0 then True
         else secrets \<noteq> None \<and> setting_secret_string settings secrets sec key = None)"

definition enterprise_secret_needs_agent :: "connection_settings \<Rightarrow> connection_settings option \<Rightarrow> bool" where
  "enterprise_secret_needs_agent settings secrets =
     (case hm_get settings ''802-1x'' of
        None \<Rightarrow> True
      | Some d \<Rightarrow>
          (let eap = (case Option.bind (hm_get d ''eap'') (value_list value_string) of Some l \<Rightarrow> l | None \<Rightarrow> []);
               password_method = (eap = [] \<or> list_ex (\<lambda>m. m \<in> {''fast'', ''leap'', ''peap'', ''pwd'', ''ttls''}) eap);
               present = (\<lambda>key. hm_get d key \<noteq> None \<or> hm_get d (key @ ''-flags'') \<noteq> None);
               needs = (\<lambda>key. required_secret_needs_agent settings secrets ''802-1x'' key (key @ ''-flags''))
           in (password_method \<and> needs ''password'')
              \<or> (present ''private-key-password'' \<and> needs ''private-key-password'')
              \<or> (present ''pin'' \<and> needs ''pin'')))"

definition WEP_KEYS :: "string list" where
  "WEP_KEYS = [''wep-key0'', ''wep-key1'', ''wep-key2'', ''wep-key3'']"

definition wep_secret_key :: "section_data option \<Rightarrow> string" where
  "wep_secret_key security =
     WEP_KEYS ! unat (min (case Option.bind security (\<lambda>d. setting_u32 d ''wep-tx-keyidx'') of Some i \<Rightarrow> i | None \<Rightarrow> 0) 3)"

definition wep_secret_needs_agent ::
    "connection_settings \<Rightarrow> connection_settings option \<Rightarrow> section_data \<Rightarrow> bool" where
  "wep_secret_needs_agent settings secrets security =
     (let key = wep_secret_key (Some security)
      in required_secret_needs_agent settings secrets ''802-11-wireless-security'' key (key @ ''-flags''))"

definition wifi_settings_need_secret_agent ::
    "connection_settings \<Rightarrow> connection_settings option \<Rightarrow> access_point option \<Rightarrow> bool" where
  "wifi_settings_need_secret_agent settings secrets ap =
     (case hm_get settings ''802-11-wireless-security'' of
        None \<Rightarrow> False
      | Some security \<Rightarrow>
          (case wifi_secret_kind_of security ap of
             SkNone \<Rightarrow> False
           | SkPersonal \<Rightarrow> required_secret_needs_agent settings secrets ''802-11-wireless-security'' ''psk'' ''psk-flags''
           | SkLeap \<Rightarrow> required_secret_needs_agent settings secrets ''802-11-wireless-security'' ''leap-password'' ''leap-password-flags''
           | SkWep \<Rightarrow> wep_secret_needs_agent settings secrets security
           | SkEnterprise \<Rightarrow> enterprise_secret_needs_agent settings secrets))"

definition section_has_key :: "connection_settings \<Rightarrow> string \<Rightarrow> string \<Rightarrow> bool" where
  "section_has_key settings sec key =
     (case hm_get settings sec of None \<Rightarrow> False | Some d \<Rightarrow> hm_get d key \<noteq> None)"

definition secret_string :: "connection_settings \<Rightarrow> connection_settings option \<Rightarrow> string \<Rightarrow> string option" where
  "secret_string settings secrets key = setting_secret_string settings secrets ''802-11-wireless-security'' key"

definition has_wep_settings :: "connection_settings \<Rightarrow> connection_settings option \<Rightarrow> bool" where
  "has_wep_settings settings secrets \<longleftrightarrow>
     list_ex (\<lambda>key. secret_string settings secrets key \<noteq> None
       \<or> section_has_key settings ''802-11-wireless-security'' (key @ ''-flags'')) WEP_KEYS
     \<or> list_ex (section_has_key settings ''802-11-wireless-security'')
         [''wep-key-flags'', ''wep-key-type'', ''wep-tx-keyidx'', ''auth-alg'']
     \<or> Option.bind (hm_get settings ''802-11-wireless-security'') (\<lambda>d. setting_string d ''key-mgmt'') = Some ''none''"

section \<open>Sharing\<close>

record wifi_share_payload =
  sp_status :: string
  sp_shareable :: bool
  sp_reason :: "string option"
  sp_path :: string
  sp_id :: string
  sp_ssid :: string
  sp_auth_type :: "string option"
  sp_qr_payload :: "string option"
  sp_qr_svg :: "string option"
  sp_password :: "string option"
  sp_version :: "string option"

text \<open>\<open>render\<close> is the QR renderer, which draws a payload or fails.\<close>

definition shareable_payload ::
    "(string \<Rightarrow> string option) \<Rightarrow> saved_wifi_connection \<Rightarrow> string \<Rightarrow> string option \<Rightarrow> bool \<Rightarrow> wifi_share_payload" where
  "shareable_payload render profile auth_type password hidden =
     (let payload = wifi_qr_payload auth_type (swc_ssid profile) password hidden;
          svg = render payload
      in \<lparr>sp_status = ''ok'', sp_shareable = (svg \<noteq> None),
          sp_reason = (if svg = None then Some ''QR image could not be generated'' else None),
          sp_path = swc_path profile, sp_id = swc_id profile, sp_ssid = swc_ssid profile,
          sp_auth_type = Some auth_type, sp_qr_payload = map_option (\<lambda>_. payload) svg, sp_qr_svg = svg,
          sp_password = (if svg = None then None else password), sp_version = None\<rparr>)"

definition unshareable_payload :: "saved_wifi_connection \<Rightarrow> string \<Rightarrow> wifi_share_payload" where
  "unshareable_payload profile reason =
     \<lparr>sp_status = ''unavailable'', sp_shareable = False, sp_reason = Some reason, sp_path = swc_path profile,
      sp_id = swc_id profile, sp_ssid = swc_ssid profile, sp_auth_type = None, sp_qr_payload = None,
      sp_qr_svg = None, sp_password = None, sp_version = None\<rparr>"

definition secret_payload ::
    "(string \<Rightarrow> string option) \<Rightarrow> saved_wifi_connection \<Rightarrow> string \<Rightarrow> string \<Rightarrow> connection_settings
      \<Rightarrow> connection_settings option \<Rightarrow> bool \<Rightarrow> wifi_share_payload" where
  "secret_payload render profile auth_type key settings secrets hidden =
     (case secret_string settings secrets key of
        None \<Rightarrow> unshareable_payload profile (''saved '' @ auth_type @ '' password is not readable from NetworkManager'')
      | Some password \<Rightarrow> shareable_payload render profile auth_type (Some password) hidden)"

definition share_payload_for_key_mgmt ::
    "(string \<Rightarrow> string option) \<Rightarrow> saved_wifi_connection \<Rightarrow> connection_settings \<Rightarrow> connection_settings option
      \<Rightarrow> bool \<Rightarrow> section_data option \<Rightarrow> string \<Rightarrow> wifi_share_payload" where
  "share_payload_for_key_mgmt render profile settings secrets hidden security key_mgmt =
     (if key_mgmt \<in> {''wpa-psk'', ''sae''} then secret_payload render profile ''WPA'' ''psk'' settings secrets hidden
      else if key_mgmt \<in> {''none'', []} \<and> has_wep_settings settings secrets
      then secret_payload render profile ''WEP'' (wep_secret_key security) settings secrets hidden
      else if key_mgmt \<in> {''none'', [], ''owe''} then shareable_payload render profile ''nopass'' None hidden
      else if contains key_mgmt ''eap''
      then unshareable_payload profile ''enterprise Wi-Fi QR sharing is not supported''
      else unshareable_payload profile (''unsupported Wi-Fi security type: '' @ key_mgmt))"

definition hidden_from_settings :: "connection_settings \<Rightarrow> bool" where
  "hidden_from_settings settings =
     (case Option.bind (hm_get settings ''802-11-wireless'') (\<lambda>w. setting_bool w ''hidden'') of
        Some b \<Rightarrow> b | None \<Rightarrow> False)"

definition wifi_share_payload_for_settings ::
    "(string \<Rightarrow> string option) \<Rightarrow> saved_wifi_connection \<Rightarrow> connection_settings \<Rightarrow> connection_settings option
      \<Rightarrow> wifi_share_payload" where
  "wifi_share_payload_for_settings render profile settings secrets =
     (let hidden = hidden_from_settings settings;
          security = hm_get settings ''802-11-wireless-security'';
          key_mgmt = text_or_empty (Option.bind security (\<lambda>d. setting_text d ''key-mgmt''))
      in if security = None \<or> (key_mgmt = [] \<and> \<not> has_wep_settings settings secrets)
         then shareable_payload render profile ''nopass'' None hidden
         else share_payload_for_key_mgmt render profile settings secrets hidden security key_mgmt)"

section \<open>Addresses in text\<close>

text \<open>
  \<open>IpAddr::from_str\<close>: dotted decimal octets without leading zeros, or colon-separated groups of at
  most four hexadecimal digits with at most one elision and an optional dotted tail. A reader returns the
  rest of the text.
\<close>

definition is_digit :: "char \<Rightarrow> bool" where
  "is_digit c \<longleftrightarrow> 48 \<le> byte_val c \<and> byte_val c \<le> 57"

definition read_octet :: "string \<Rightarrow> string option" where
  "read_octet s =
     (let ds = takeWhile is_digit s
      in if ds = [] \<or> 3 < length ds \<or> (1 < length ds \<and> hd ds = CHR ''0'')
            \<or> 255 < foldl (\<lambda>n c. 10 * n + (byte_val c - 48)) 0 ds
         then None else Some (dropWhile is_digit s))"

definition read_char :: "char \<Rightarrow> string \<Rightarrow> string option" where
  "read_char c s = (case s of x # r \<Rightarrow> if x = c then Some r else None | [] \<Rightarrow> None)"

fun read_octets :: "nat \<Rightarrow> string \<Rightarrow> string option" where
  "read_octets 0 s = Some s"
| "read_octets (Suc n) s = Option.bind (read_char (CHR ''.'') s) (\<lambda>s. Option.bind (read_octet s) (read_octets n))"

definition read_ipv4 :: "string \<Rightarrow> string option" where
  "read_ipv4 s = Option.bind (read_octet s) (read_octets 3)"

definition read_group :: "string \<Rightarrow> string option" where
  "read_group s =
     (let ds = takeWhile is_ascii_hexdigit s
      in if ds = [] \<or> 4 < length ds then None else Some (dropWhile is_ascii_hexdigit s))"

definition read_separated :: "nat \<Rightarrow> (string \<Rightarrow> string option) \<Rightarrow> string \<Rightarrow> string option" where
  "read_separated i f s = (if i = 0 then f s else Option.bind (read_char (CHR '':'') s) f)"

text \<open>The number of groups read, whether they end in a dotted address, and the rest.\<close>

function read_groups :: "nat \<Rightarrow> nat \<Rightarrow> string \<Rightarrow> nat \<times> bool \<times> string" where
  "read_groups limit i s =
     (if limit \<le> i then (limit, False, s)
      else case (if i < limit - 1 then read_separated i read_ipv4 s else None) of
             Some r \<Rightarrow> (i + 2, True, r)
           | None \<Rightarrow>
               (case read_separated i read_group s of
                  Some r \<Rightarrow> read_groups limit (Suc i) r
                | None \<Rightarrow> (i, False, s)))"
  by pat_completeness auto
termination by (relation "measure (\<lambda>(limit, i, _). limit - i)") auto

declare read_groups.simps [simp del]

definition read_ipv6 :: "string \<Rightarrow> string option" where
  "read_ipv6 s =
     (case read_groups 8 0 s of
        (n, dotted, r) \<Rightarrow>
          if n = 8 then Some r
          else if dotted then None
          else Option.bind (read_char (CHR '':'') r) (\<lambda>r. Option.bind (read_char (CHR '':'') r) (\<lambda>r.
            case read_groups (8 - (n + 1)) 0 r of (_, _, r') \<Rightarrow> Some r')))"

text \<open>Whether the address is an IPv6 one, if the text is an address.\<close>

definition parse_ip :: "string \<Rightarrow> bool option" where
  "parse_ip s =
     (case read_ipv4 s of
        Some r \<Rightarrow> if r = [] then Some False else None
      | None \<Rightarrow> (case read_ipv6 s of Some [] \<Rightarrow> Some True | _ \<Rightarrow> None))"

lemma parse_ip_samples:
  "parse_ip ''192.168.1.20'' = Some False" "parse_ip ''192.168.1.256'' = None" "parse_ip ''192.168.01.2'' = None"
  "parse_ip ''fe80::1'' = Some True" "parse_ip ''::'' = Some True" "parse_ip ''::ffff:10.0.0.1'' = Some True"
  "parse_ip ''1:2:3:4:5:6:7'' = None" "parse_ip ''1:2:3:4:5:6:7:8'' = Some True" "parse_ip ''fe80::1::2'' = None"
  by code_simp+

section \<open>Address configuration\<close>

record profile_ip_settings =
  pis_method :: string
  pis_addresses :: "target_ip_address list"
  pis_gateway :: "string option"
  pis_dns :: "string list"
  pis_routes :: "target_ip_route list"
  pis_ignore_auto_dns :: bool
  pis_ignore_auto_routes :: bool
  pis_never_default :: bool
  pis_may_fail :: bool
  pis_dns_search :: "string list"
  pis_route_metric :: "int option"
  pis_dhcp_hostname :: "string option"
  pis_dhcp_client_id :: "string option"
  pis_dad_timeout :: "int option"
  pis_ip6_privacy :: "int option"

definition address_of_dict :: "section_data \<Rightarrow> target_ip_address option" where
  "address_of_dict d =
     Option.bind (setting_text d ''address'') (\<lambda>a. Option.bind (setting_u32 d ''prefix'') (\<lambda>p.
       Some \<lparr>tia_address = a, tia_prefix = p\<rparr>))"

definition setting_address_data :: "dbus_value \<Rightarrow> target_ip_address list option" where
  "setting_address_data v = map_option (List.map_filter address_of_dict) (value_dicts v)"

definition route_of_dict :: "section_data \<Rightarrow> target_ip_route option" where
  "route_of_dict d =
     Option.bind (setting_text d ''dest'') (\<lambda>dest. Option.bind (setting_u32 d ''prefix'') (\<lambda>p.
       Some \<lparr>tir_dest = dest, tir_prefix = p, tir_next_hop = nonempty (setting_text d ''next-hop''),
             tir_metric = setting_u32 d ''metric'', tir_table = setting_u32 d ''table''\<rparr>))"

definition setting_route_data :: "dbus_value \<Rightarrow> target_ip_route list option" where
  "setting_route_data v = map_option (List.map_filter route_of_dict) (value_dicts v)"

definition profile_ip_settings_of :: "connection_settings \<Rightarrow> string \<Rightarrow> profile_ip_settings" where
  "profile_ip_settings_of settings sec =
     (let d = section_of settings sec;
          flag = (\<lambda>key dflt. case setting_bool d key of Some b \<Rightarrow> b | None \<Rightarrow> dflt)
      in \<lparr>pis_method = (case setting_text d ''method'' of Some m \<Rightarrow> m | None \<Rightarrow> ''auto''),
          pis_addresses = (case Option.bind (hm_get d ''address-data'') setting_address_data of Some a \<Rightarrow> a | None \<Rightarrow> []),
          pis_gateway = nonempty (setting_text d ''gateway''),
          pis_dns = setting_strings d ''dns-data'',
          pis_routes = (case Option.bind (hm_get d ''route-data'') setting_route_data of Some r \<Rightarrow> r | None \<Rightarrow> []),
          pis_ignore_auto_dns = flag ''ignore-auto-dns'' False,
          pis_ignore_auto_routes = flag ''ignore-auto-routes'' False,
          pis_never_default = flag ''never-default'' False,
          pis_may_fail = flag ''may-fail'' True,
          pis_dns_search = setting_strings d ''dns-search'',
          pis_route_metric = Option.bind (hm_get d ''route-metric'') setting_i64,
          pis_dhcp_hostname = nonempty (setting_text d ''dhcp-hostname''),
          pis_dhcp_client_id = (if sec = ''ipv4'' then nonempty (setting_text d ''dhcp-client-id'') else None),
          pis_dad_timeout = (if sec = ''ipv4'' then setting_i32 d ''dad-timeout'' else None),
          pis_ip6_privacy = (if sec = ''ipv6'' then setting_i32 d ''ip6-privacy'' else None)\<rparr>)"

text \<open>Writing.\<close>

definition insert_optional :: "string \<Rightarrow> dbus_value option \<Rightarrow> section_data \<Rightarrow> section_data" where
  "insert_optional key v d = (case v of Some x \<Rightarrow> hm_insert key x d | None \<Rightarrow> d)"

definition insert_optional_string :: "string \<Rightarrow> string option \<Rightarrow> section_data \<Rightarrow> section_data" where
  "insert_optional_string key v d = insert_optional key (map_option DStr (nonempty v)) d"

definition write_data :: "string \<Rightarrow> dbus_value list \<Rightarrow> section_data \<Rightarrow> section_data" where
  "write_data key entries d = (if entries \<noteq> [] then hm_insert key (DArr entries) d else d)"

definition address_data :: "target_ip_address \<Rightarrow> dbus_value" where
  "address_data a = DDict [(''address'', DStr (tia_address a)), (''prefix'', DU32 (tia_prefix a))]"

definition route_data :: "target_ip_route \<Rightarrow> dbus_value" where
  "route_data r = DDict
     (insert_optional ''table'' (map_option DU32 (tir_table r))
       (insert_optional ''metric'' (map_option DU32 (tir_metric r))
         (insert_optional_string ''next-hop'' (tir_next_hop r)
           [(''dest'', DStr (tir_dest r)), (''prefix'', DU32 (tir_prefix r))])))"

definition write_values :: "target_ip_settings \<Rightarrow> bool \<Rightarrow> section_data \<Rightarrow> section_data" where
  "write_values u replacing d =
     write_data ''dns-search'' (map DStr (tis_dns_search u))
       (insert_optional ''ignore-auto-dns''
          (if replacing then Some (DBool (case tis_ignore_auto_dns u of Some b \<Rightarrow> b | None \<Rightarrow> False))
           else map_option DBool (tis_ignore_auto_dns u))
         (insert_optional ''route-metric'' (map_option DI64 (tis_route_metric u))
           (write_data ''route-data'' (map route_data (tis_routes u))
             (write_data ''dns-data'' (map DStr (tis_dns u))
               (insert_optional_string ''gateway'' (tis_gateway u)
                 (write_data ''address-data'' (map address_data (tis_addresses u)) d))))))"

definition REPLACED_KEYS :: "string list" where
  "REPLACED_KEYS = [''address-data'', ''addresses'', ''gateway'', ''dns-data'', ''dns'', ''route-data'',
     ''route-metric'', ''ignore-auto-dns'', ''dns-search'']"

definition ip_overlay :: "connection_settings \<Rightarrow> string \<Rightarrow> target_ip_settings \<Rightarrow> connection_settings" where
  "ip_overlay settings sec u =
     (let method = (case nonempty (tis_method u) of
                      Some m \<Rightarrow> Some m
                    | None \<Rightarrow> if tis_addresses u \<noteq> [] then Some ''manual'' else None)
      in hm_insert sec (write_values u False (insert_optional ''method'' (map_option DStr method) (section_of settings sec)))
           settings)"

definition ip_replace :: "connection_settings \<Rightarrow> string \<Rightarrow> target_ip_settings \<Rightarrow> connection_settings" where
  "ip_replace settings sec u =
     (let d = foldl (\<lambda>d k. hm_remove k d) (section_of settings sec) REPLACED_KEYS
      in hm_insert sec (write_values u True
           (hm_insert ''method'' (DStr (case tis_method u of Some m \<Rightarrow> m | None \<Rightarrow> ''auto'')) d)) settings)"

definition set_send_hostname :: "connection_settings \<Rightarrow> string \<Rightarrow> bool \<Rightarrow> connection_settings" where
  "set_send_hostname settings sec enabled =
     (let d = section_of settings sec;
          d' = (if hm_get d ''method'' = None then hm_insert ''method'' (DStr ''auto'') d else d)
      in hm_insert sec (hm_insert ''dhcp-send-hostname'' (DBool enabled) d') settings)"

text \<open>Validation of an update.\<close>

definition invalid_field :: "error_operation \<Rightarrow> string \<Rightarrow> string \<Rightarrow> anyhow_error" where
  "invalid_field op field message = into_anyhow (with_detail (validation_error op message) ''field'' (JStr field))"

abbreviation profile_invalid :: "string \<Rightarrow> string \<Rightarrow> anyhow_error" where
  "profile_invalid \<equiv> invalid_field OpProfileOperation"

definition validate_ip_value :: "string \<Rightarrow> string \<Rightarrow> bool \<Rightarrow> string \<Rightarrow> anyhow_error + unit" where
  "validate_ip_value sec field ipv6 v =
     (case parse_ip v of
        None \<Rightarrow> Inl (profile_invalid (sec @ ''.'' @ field) (''invalid '' @ sec @ '' '' @ field @ '': '' @ v)
                   @ [LContext ''invalid IP address syntax''])
      | Some is6 \<Rightarrow>
          if is6 \<noteq> ipv6 then Inl (profile_invalid (sec @ ''.'' @ field) (sec @ '' '' @ field @ '' has the wrong address family''))
          else Inr ())"

definition validate_ip_address :: "string \<Rightarrow> bool \<Rightarrow> target_ip_address \<Rightarrow> anyhow_error + unit" where
  "validate_ip_address sec ipv6 a =
     and_then (validate_ip_value sec ''address'' ipv6 (tia_address a)) (\<lambda>_.
       let max_prefix = (if ipv6 then 128 else 32)
       in if max_prefix < tia_prefix a
          then Inl (profile_invalid (sec @ ''.prefix'')
                 (sec @ '' prefix must be between 0 and '' @ decimal (unat max_prefix)))
          else Inr ())"

definition validate_ip_method :: "string \<Rightarrow> target_ip_settings \<Rightarrow> anyhow_error + unit" where
  "validate_ip_method sec u =
     (let method = (case tis_method u of Some m \<Rightarrow> m | None \<Rightarrow> ''auto'')
      in if method \<notin> {''auto'', ''manual'', ''disabled''}
         then Inl (profile_invalid (sec @ ''.method'') (sec @ '' method must be auto, manual, or disabled''))
         else if method = ''manual'' \<and> tis_addresses u = []
         then Inl (profile_invalid (sec @ ''.addresses'') (sec @ '' manual configuration requires an address''))
         else Inr ())"

fun try_each :: "('a \<Rightarrow> 'e + unit) \<Rightarrow> 'a list \<Rightarrow> 'e + unit" where
  "try_each f [] = Inr ()"
| "try_each f (x # xs) = and_then (f x) (\<lambda>_. try_each f xs)"

lemma try_each_ok: "try_each f xs = Inr () \<longleftrightarrow> (\<forall>x \<in> set xs. f x = Inr ())"
  by (induction xs) (auto simp: and_then_Inr_iff)

definition validate_ip_settings :: "string \<Rightarrow> target_ip_settings \<Rightarrow> bool \<Rightarrow> anyhow_error + unit" where
  "validate_ip_settings sec u ipv6 =
     and_then (validate_ip_method sec u) (\<lambda>_.
     and_then (try_each (validate_ip_address sec ipv6) (tis_addresses u)) (\<lambda>_.
     and_then (case nonempty (tis_gateway u) of Some g \<Rightarrow> validate_ip_value sec ''gateway'' ipv6 g | None \<Rightarrow> Inr ()) (\<lambda>_.
       try_each (validate_ip_value sec ''dns'' ipv6) (tis_dns u))))"

text \<open>A value that is written reads back, and the address family keeps the rest of its section.\<close>

lemma insert_optional_get:
  "hm_get (insert_optional key v d) k = (if k = key then (case v of Some x \<Rightarrow> Some x | None \<Rightarrow> hm_get d k) else hm_get d k)"
  by (auto simp: insert_optional_def update_conv' split: option.splits)

lemma write_data_get:
  "hm_get (write_data key es d) k = (if k = key \<and> es \<noteq> [] then Some (DArr es) else hm_get d k)"
  by (auto simp: write_data_def update_conv')

lemmas ip_get = insert_optional_get write_data_get insert_optional_string_def update_conv' setting_text_def
  setting_u32_def setting_bool_def setting_strings_def value_text_def

lemma value_list_map: "(\<And>x. x \<in> set xs \<Longrightarrow> conv (f x) = Some (g x)) \<Longrightarrow> value_list conv (DArr (map f xs)) = Some (map g xs)"
  by (induction xs) auto

lemma address_roundtrip: "setting_address_data (DArr (map address_data as)) = Some as"
proof -
  have "value_dicts (DArr (map address_data as)) =
      Some (map (\<lambda>a. [(''address'', DStr (tia_address a)), (''prefix'', DU32 (tia_prefix a))]) as)"
    unfolding value_dicts_def by (rule value_list_map) (simp add: address_data_def)
  moreover have "List.map_filter address_of_dict
      (map (\<lambda>a. [(''address'', DStr (tia_address a)), (''prefix'', DU32 (tia_prefix a))]) as) = as"
    by (induction as) (simp_all add: address_of_dict_def ip_get)
  ultimately show ?thesis by (simp add: setting_address_data_def)
qed

definition route_canonical :: "target_ip_route \<Rightarrow> target_ip_route" where
  "route_canonical r = r\<lparr>tir_next_hop := nonempty (tir_next_hop r)\<rparr>"

lemma nonempty_idem [simp]: "nonempty (nonempty x) = nonempty x"
  by (cases x) (simp_all add: nonempty_def)

lemma value_string_DStr: "Option.bind (map_option DStr x) value_text = x"
  by (cases x) (simp_all add: value_text_def)

lemma route_roundtrip: "setting_route_data (DArr (map route_data rs)) = Some (map route_canonical rs)"
proof -
  define dict where "dict = (\<lambda>r. case route_data r of DDict d \<Rightarrow> d | _ \<Rightarrow> [])"
  have d: "route_data r = DDict (dict r)" for r by (simp add: dict_def route_data_def)
  have "route_of_dict (dict r) = Some (route_canonical r)" for r
    by (cases "nonempty (tir_next_hop r)"; cases "tir_metric r"; cases "tir_table r"; cases r)
      (simp_all add: dict_def route_data_def route_of_dict_def route_canonical_def ip_get nonempty_def split: bind_splits if_splits)
  then have "List.map_filter route_of_dict (map dict rs) = map route_canonical rs"
    by (induction rs) simp_all
  moreover have "value_dicts (DArr (map route_data rs)) = Some (map dict rs)"
    unfolding value_dicts_def by (rule value_list_map) (simp add: d)
  ultimately show ?thesis by (simp add: setting_route_data_def)
qed

lemma strings_roundtrip: "value_list value_string (DArr (map DStr xs)) = Some xs"
  by (induction xs) auto

end
