(* ===== verification/Profile_Update.thy ===== *)
theory Profile_Update
  imports Profile_Settings
begin

text \<open>
  An update of a saved profile (\<open>update_wifi_profile_by_path\<close> of \<open>src/nm/settings.rs\<close>, with
  \<open>src/nm/settings/profile_advanced.rs\<close> and \<open>src/nm/settings/profile_secrets.rs\<close>): its validation, what it
  writes into each section, the secrets it replaces, and the view of the profile the editor gets. An
  accepted update reads back, and its secrets are stored where the profile keeps them.
\<close>

section \<open>Other fields of an update\<close>

definition apply_mac_address_policy :: "connection_settings \<Rightarrow> string \<Rightarrow> connection_settings" where
  "apply_mac_address_policy settings policy =
     (let w = hm_remove ''mac-address-randomization'' (hm_remove ''cloned-mac-address''
            (hm_remove ''assigned-mac-address'' (section_of settings ''802-11-wireless'')))
      in hm_insert ''802-11-wireless''
           (if policy \<noteq> ''default'' then hm_insert ''assigned-mac-address'' (DStr policy) w else w) settings)"

definition metered_from_settings :: "section_data \<Rightarrow> string" where
  "metered_from_settings connection =
     (let code = (case setting_u32 connection ''metered'' of Some c \<Rightarrow> c | None \<Rightarrow> 0)
      in if code \<in> {1, 3} then ''yes'' else if code \<in> {2, 4} then ''no'' else ''auto'')"

definition metered_code :: "string \<Rightarrow> anyhow_error + u32" where
  "metered_code value =
     (if value \<in> {[], ''auto'', ''unknown''} then Inr 0
      else if value \<in> {''yes'', ''on'', ''true''} then Inr 1
      else if value \<in> {''no'', ''off'', ''false''} then Inr 2
      else Inl (into_anyhow (with_detail (with_detail
             (validation_error OpProfileOperation ''metered must be auto, yes, or no'')
             ''field'' (JStr ''metered'')) ''value'' (JStr value))))"

definition security_type_from_settings :: "connection_settings \<Rightarrow> string" where
  "security_type_from_settings settings =
     (case hm_get settings ''802-11-wireless-security'' of
        None \<Rightarrow> ''Open''
      | Some security \<Rightarrow>
          (let key_mgmt = text_or_empty (setting_text security ''key-mgmt'')
           in if key_mgmt = ''wpa-psk'' then ''WPA/WPA2 Personal''
              else if key_mgmt = ''sae'' then ''WPA3 Personal''
              else if key_mgmt = ''owe'' then ''Enhanced Open (OWE)''
              else if key_mgmt \<in> {''none'', []} \<and> has_wep_settings settings None then ''WEP''
              else if contains key_mgmt ''eap'' then ''WPA Enterprise''
              else if key_mgmt \<noteq> [] then key_mgmt
              else ''Open''))"

record profile_enterprise_update =
  eu_eap :: "string list option"
  eu_identity :: "string option"
  eu_anonymous_identity :: "string option"
  eu_domain_suffix_match :: "string option"
  eu_domain_match :: "string option"
  eu_subject_match :: "string option"
  eu_altsubject_matches :: "string list option"
  eu_ca_cert :: "string option"
  eu_ca_path :: "string option"
  eu_phase2_ca_path :: "string option"
  eu_system_ca_certs :: "bool option"
  eu_client_cert :: "string option"
  eu_private_key :: "string option"
  eu_phase1_peapver :: "string option"
  eu_phase1_peaplabel :: "string option"
  eu_phase1_fast_provisioning :: "string option"
  eu_phase1_auth_flags :: "u32 option"
  eu_phase2_auth :: "string option"
  eu_phase2_autheap :: "string option"
  eu_phase2_ca_cert :: "string option"
  eu_phase2_client_cert :: "string option"
  eu_phase2_private_key :: "string option"
  eu_phase2_domain_suffix_match :: "string option"
  eu_phase2_subject_match :: "string option"
  eu_phase2_altsubject_matches :: "string list option"
  eu_pac_file :: "string option"
  eu_password_flags :: "u32 option"
  eu_private_key_password_flags :: "u32 option"
  eu_phase2_private_key_password_flags :: "u32 option"
  eu_ca_cert_password_flags :: "u32 option"
  eu_client_cert_password_flags :: "u32 option"
  eu_pin_flags :: "u32 option"

record wifi_profile_advanced_update =
  au_autoconnect_priority :: "int option"
  au_bssid :: "string option"
  au_mac_address :: "string option"
  au_cloned_mac_address :: "string option"
  au_mtu :: "u32 option"
  au_mode :: "string option"
  au_band :: "wifi_band option"
  au_channel :: "u32 option"
  au_permissions :: "string list option"
  au_casting_enabled :: "bool option"
  au_firewall_zone :: "string option"
  au_secondaries :: "string list option"
  au_ipv4_dhcp_client_id :: "string option"
  au_ipv4_dhcp_hostname :: "string option"
  au_ipv4_dad_timeout :: "int option"
  au_ipv4_never_default :: "bool option"
  au_ipv6_never_default :: "bool option"
  au_ipv4_ignore_auto_routes :: "bool option"
  au_ipv6_ignore_auto_routes :: "bool option"
  au_ipv4_may_fail :: "bool option"
  au_ipv6_may_fail :: "bool option"
  au_ipv6_privacy :: "int option"
  au_enterprise :: "profile_enterprise_update option"

record wifi_profile_update =
  wu_autoconnect :: bool
  wu_metered :: string
  wu_hidden :: bool
  wu_mac_address_policy :: string
  wu_send_hostname :: bool
  wu_ipv4 :: target_ip_settings
  wu_ipv6 :: target_ip_settings
  wu_password :: "string option"
  wu_secrets :: "(string, string) hash_map"
  wu_expected_version :: "string option"
  wu_advanced :: wifi_profile_advanced_update

definition validate_profile_update :: "wifi_profile_update \<Rightarrow> anyhow_error + unit" where
  "validate_profile_update u =
     (if wu_mac_address_policy u \<notin> {''default'', ''stable'', ''random'', ''permanent''}
      then Inl (profile_invalid ''mac_address_policy'' ''MAC address policy must be default, stable, random, or permanent'')
      else and_then (metered_code (wu_metered u)) (\<lambda>_.
           and_then (validate_ip_settings ''ipv4'' (wu_ipv4 u) False) (\<lambda>_.
             validate_ip_settings ''ipv6'' (wu_ipv6 u) True)))"

text \<open>Absent preserves; the default of a clearable field (empty text or list, channel zero) removes it.\<close>

definition set_clearable :: "string \<Rightarrow> (bool \<times> dbus_value) option \<Rightarrow> section_data \<Rightarrow> section_data" where
  "set_clearable key v d =
     (case v of None \<Rightarrow> d | Some (clear, x) \<Rightarrow> if clear then hm_remove key d else hm_insert key x d)"

definition clearable_text :: "string option \<Rightarrow> (bool \<times> dbus_value) option" where
  "clearable_text = map_option (\<lambda>s. (s = [], DStr s))"

definition clearable_texts :: "string list option \<Rightarrow> (bool \<times> dbus_value) option" where
  "clearable_texts = map_option (\<lambda>l. (l = [], DArr (map DStr l)))"

definition clearable_u32 :: "u32 option \<Rightarrow> (bool \<times> dbus_value) option" where
  "clearable_u32 = map_option (\<lambda>n. (n = 0, DU32 n))"

definition on_section :: "string \<Rightarrow> (section_data \<Rightarrow> section_data) \<Rightarrow> connection_settings \<Rightarrow> connection_settings" where
  "on_section sec f settings = hm_insert sec (f (section_of settings sec)) settings"

definition apply_connection_fields :: "connection_settings \<Rightarrow> wifi_profile_advanced_update \<Rightarrow> connection_settings" where
  "apply_connection_fields settings u =
     (let s = on_section ''connection'' (\<lambda>d.
            set_clearable ''secondaries'' (clearable_texts (au_secondaries u))
              (set_clearable ''permissions'' (clearable_texts (au_permissions u))
                (set_clearable ''zone'' (clearable_text (au_firewall_zone u))
                  (insert_optional ''autoconnect-priority'' (map_option DI32 (au_autoconnect_priority u)) d)))) settings
      in case au_casting_enabled u of Some enabled \<Rightarrow> set_casting_enabled s enabled | None \<Rightarrow> s)"

definition validate_mode :: "string \<Rightarrow> anyhow_error + unit" where
  "validate_mode mode =
     (if mode \<in> {[], ''infrastructure'', ''ap'', ''mesh''} then Inr ()
      else Inl (into_anyhow (with_detail (with_detail
             (validation_error OpProfileOperation ''Wi-Fi mode must be infrastructure, ap, or mesh'')
             ''field'' (JStr ''advanced.mode'')) ''value'' (JStr mode))))"

definition validate_wireless_update :: "wifi_profile_advanced_update \<Rightarrow> anyhow_error + unit" where
  "validate_wireless_update u =
     and_then (case au_mode u of Some m \<Rightarrow> validate_mode m | None \<Rightarrow> Inr ()) (\<lambda>_.
       case (au_band u, au_channel u) of
         (Some band, Some channel) \<Rightarrow>
           if band = BandAuto \<or> channel = 0 \<or> channel_is_in_band channel band then Inr ()
           else Inl (profile_invalid ''advanced.channel'' ''channel does not belong to the selected band'')
       | _ \<Rightarrow> Inr ())"

definition apply_cloned_address :: "string option \<Rightarrow> section_data \<Rightarrow> section_data" where
  "apply_cloned_address cloned w =
     (case cloned of
        None \<Rightarrow> w
      | Some c \<Rightarrow> set_clearable ''assigned-mac-address'' (clearable_text (Some c))
                   (hm_remove ''mac-address-randomization'' (hm_remove ''cloned-mac-address'' w)))"

definition apply_band :: "wifi_band option \<Rightarrow> section_data \<Rightarrow> section_data" where
  "apply_band band w =
     (case band of
        None \<Rightarrow> w
      | Some b \<Rightarrow> (case band_nm_value b of
                     Some v \<Rightarrow> hm_insert ''band'' (DStr v) w
                   | None \<Rightarrow> hm_remove ''channel'' (hm_remove ''band'' w)))"

definition apply_wireless_fields ::
    "connection_settings \<Rightarrow> wifi_profile_advanced_update \<Rightarrow> anyhow_error + connection_settings" where
  "apply_wireless_fields settings u =
     and_then (validate_wireless_update u) (\<lambda>_.
       Inr (on_section ''802-11-wireless'' (\<lambda>w.
         set_clearable ''channel'' (clearable_u32 (au_channel u))
           (apply_band (au_band u)
             (insert_optional ''mtu'' (map_option DU32 (au_mtu u))
               (apply_cloned_address (au_cloned_mac_address u)
                 (set_clearable ''mode'' (clearable_text (au_mode u))
                   (set_clearable ''mac-address'' (clearable_text (au_mac_address u))
                     (set_clearable ''bssid'' (clearable_text (au_bssid u)) w))))))) settings))"

definition insert_flags :: "(string \<times> bool option) list \<Rightarrow> section_data \<Rightarrow> section_data" where
  "insert_flags kvs d = foldl (\<lambda>d (k, v). insert_optional k (map_option DBool v) d) d kvs"

definition apply_ip_fields ::
    "connection_settings \<Rightarrow> wifi_profile_advanced_update \<Rightarrow> anyhow_error + connection_settings" where
  "apply_ip_fields settings u =
     (let s4 = on_section ''ipv4'' (\<lambda>d.
            insert_optional ''dad-timeout'' (map_option DI32 (au_ipv4_dad_timeout u))
              (insert_flags [(''never-default'', au_ipv4_never_default u),
                             (''ignore-auto-routes'', au_ipv4_ignore_auto_routes u), (''may-fail'', au_ipv4_may_fail u)]
                (set_clearable ''dhcp-hostname'' (clearable_text (au_ipv4_dhcp_hostname u))
                  (set_clearable ''dhcp-client-id'' (clearable_text (au_ipv4_dhcp_client_id u)) d)))) settings;
          s6 = on_section ''ipv6'' (insert_flags [(''never-default'', au_ipv6_never_default u),
                 (''ignore-auto-routes'', au_ipv6_ignore_auto_routes u), (''may-fail'', au_ipv6_may_fail u)]) s4
      in case au_ipv6_privacy u of
           None \<Rightarrow> Inr s6
         | Some privacy \<Rightarrow>
             if privacy < - 1 \<or> 2 < privacy
             then Inl (profile_invalid ''advanced.ipv6_privacy'' ''ipv6_privacy must be -1, 0, 1, or 2'')
             else Inr (on_section ''ipv6'' (hm_insert ''ip6-privacy'' (DI32 privacy)) s6))"

text \<open>The texts, certificate references and flag words of an enterprise update, with the property each sets.\<close>

definition enterprise_texts :: "profile_enterprise_update \<Rightarrow> (string \<times> string option) list" where
  "enterprise_texts u =
     [(''identity'', eu_identity u), (''anonymous-identity'', eu_anonymous_identity u),
      (''domain-suffix-match'', eu_domain_suffix_match u), (''domain-match'', eu_domain_match u),
      (''subject-match'', eu_subject_match u), (''ca-path'', eu_ca_path u),
      (''phase2-ca-path'', eu_phase2_ca_path u), (''phase1-peapver'', eu_phase1_peapver u),
      (''phase1-peaplabel'', eu_phase1_peaplabel u),
      (''phase1-fast-provisioning'', eu_phase1_fast_provisioning u),
      (''phase2-auth'', eu_phase2_auth u), (''phase2-autheap'', eu_phase2_autheap u),
      (''phase2-domain-suffix-match'', eu_phase2_domain_suffix_match u),
      (''phase2-subject-match'', eu_phase2_subject_match u), (''pac-file'', eu_pac_file u)]"

definition enterprise_certificates :: "profile_enterprise_update \<Rightarrow> (string \<times> string option) list" where
  "enterprise_certificates u =
     [(''ca-cert'', eu_ca_cert u), (''client-cert'', eu_client_cert u),
      (''private-key'', eu_private_key u), (''phase2-ca-cert'', eu_phase2_ca_cert u),
      (''phase2-client-cert'', eu_phase2_client_cert u),
      (''phase2-private-key'', eu_phase2_private_key u)]"

definition enterprise_flags :: "profile_enterprise_update \<Rightarrow> (string \<times> u32 option) list" where
  "enterprise_flags u =
     [(''phase1-auth-flags'', eu_phase1_auth_flags u), (''password-flags'', eu_password_flags u),
      (''private-key-password-flags'', eu_private_key_password_flags u),
      (''phase2-private-key-password-flags'', eu_phase2_private_key_password_flags u),
      (''ca-cert-password-flags'', eu_ca_cert_password_flags u),
      (''client-cert-password-flags'', eu_client_cert_password_flags u),
      (''pin-flags'', eu_pin_flags u)]"

definition validate_eap_methods :: "string list option \<Rightarrow> anyhow_error + unit" where
  "validate_eap_methods eap =
     (case Option.bind eap (find (\<lambda>m. m \<notin> {''tls'', ''peap'', ''ttls'', ''pwd'', ''leap'', ''fast'', ''md5''})) of
        None \<Rightarrow> Inr ()
      | Some m \<Rightarrow> Inl (into_anyhow (with_detail (with_detail
             (validation_error OpProfileOperation ''unsupported 802.1X EAP method'')
             ''field'' (JStr ''advanced.enterprise.eap'')) ''value'' (JStr m))))"

definition validate_peaplabel :: "error_operation \<Rightarrow> string option \<Rightarrow> anyhow_error + unit" where
  "validate_peaplabel op v =
     (if v \<in> {None, Some [], Some ''0'', Some ''1''} then Inr ()
      else Inl (invalid_field op ''802-1x.phase1-peaplabel'' ''phase1_peaplabel must be empty, 0, or 1''))"

definition set_certificate_reference ::
    "error_operation \<Rightarrow> string \<Rightarrow> string option \<Rightarrow> section_data \<Rightarrow> anyhow_error + section_data" where
  "set_certificate_reference op key v d =
     (case v of
        None \<Rightarrow> Inr d
      | Some c \<Rightarrow>
          if c = [] then Inr (hm_remove key d)
          else if CHR 0x00 \<in> set c \<or> \<not> (starts_with ''file://'' c \<or> starts_with ''pkcs11:'' c)
          then Inl (invalid_field op (''802-1x.'' @ key)
                 ''certificate references must be a file:// or pkcs11: URI without embedded NULs'')
          else Inr (hm_insert key (DArr (map DU8 (c @ [CHR 0x00]))) d))"

fun set_certificates ::
    "error_operation \<Rightarrow> (string \<times> string option) list \<Rightarrow> section_data \<Rightarrow> anyhow_error + section_data" where
  "set_certificates op [] d = Inr d"
| "set_certificates op ((k, v) # kvs) d = and_then (set_certificate_reference op k v d) (set_certificates op kvs)"

definition apply_enterprise ::
    "connection_settings \<Rightarrow> profile_enterprise_update \<Rightarrow> anyhow_error + connection_settings" where
  "apply_enterprise settings u =
     and_then (validate_eap_methods (eu_eap u)) (\<lambda>_.
     and_then (validate_peaplabel OpProfileOperation (eu_phase1_peaplabel u)) (\<lambda>_.
       let d = set_clearable ''phase2-altsubject-matches'' (clearable_texts (eu_phase2_altsubject_matches u))
             (set_clearable ''altsubject-matches'' (clearable_texts (eu_altsubject_matches u))
               (set_clearable ''eap'' (clearable_texts (eu_eap u)) (section_of settings ''802-1x'')));
           d = foldl (\<lambda>d (k, v). set_clearable k (clearable_text v) d) d (enterprise_texts u)
       in and_then (set_certificates OpProfileOperation (enterprise_certificates u) d) (\<lambda>d.
            let d = insert_optional ''system-ca-certs'' (map_option DBool (eu_system_ca_certs u)) d
            in Inr (hm_insert ''802-1x'' (foldl (\<lambda>d (k, v). insert_optional k (map_option DU32 v) d) d (enterprise_flags u)) settings))))"

definition private_ca_path :: "connection_settings \<Rightarrow> string option" where
  "private_ca_path settings =
     (if Option.bind (hm_get settings ''connection'') (\<lambda>c. Option.bind (hm_get c ''permissions'') (value_list value_string)) \<in> {None, Some []}
      then None
      else Option.bind (hm_get settings ''802-1x'') (\<lambda>d.
        find (\<lambda>k. nonempty (setting_string d k) \<noteq> None) [''ca-path'', ''phase2-ca-path'']))"

definition validate_private_ca_paths :: "error_operation \<Rightarrow> connection_settings \<Rightarrow> anyhow_error + unit" where
  "validate_private_ca_paths op settings =
     (case private_ca_path settings of
        None \<Rightarrow> Inr ()
      | Some key \<Rightarrow> Inl (invalid_field op (''802-1x.'' @ key) (''802-1x.'' @ key
           @ '' is not supported for private connections; clear the CA directory and use ca-cert/phase2-ca-cert or system-ca-certs instead'')))"

definition apply_advanced ::
    "connection_settings \<Rightarrow> wifi_profile_advanced_update \<Rightarrow> anyhow_error + connection_settings" where
  "apply_advanced settings u =
     and_then (apply_wireless_fields (apply_connection_fields settings u) u) (\<lambda>s.
     and_then (apply_ip_fields s u) (\<lambda>s.
     and_then (case au_enterprise u of Some e \<Rightarrow> apply_enterprise s e | None \<Rightarrow> Inr s) (\<lambda>s.
     and_then (validate_private_ca_paths OpProfileOperation s) (\<lambda>_. Inr s))))"

section \<open>The editor's view of a profile\<close>

text \<open>
  \<open>profile_version\<close>: the token of a profile is the FNV-1a hash of its sections and properties in key
  order; \<open>debug\<close> renders a value. What changes by itself is left out.
\<close>

definition fnv1a :: "u64 \<Rightarrow> char \<Rightarrow> u64" where
  "fnv1a hash byte = (hash XOR of_nat (byte_val byte)) * 0x100000001b3"

definition stable_properties :: "string \<Rightarrow> section_data \<Rightarrow> section_data" where
  "stable_properties sec d = sort_key fst (filter (\<lambda>(k, _). sec \<noteq> ''connection'' \<or> k \<noteq> ''timestamp'') d)"

definition profile_text :: "(dbus_value \<Rightarrow> string) \<Rightarrow> connection_settings \<Rightarrow> string" where
  "profile_text debug settings =
     concat (map (\<lambda>(sec, d). sec @ concat (map (\<lambda>(k, v). k @ debug v) (stable_properties sec d))) (sort_key fst settings))"

fun hex_digits :: "nat \<Rightarrow> u64 \<Rightarrow> string" where
  "hex_digits 0 w = []"
| "hex_digits (Suc n) w = hex_digits n (drop_bit 4 w) @ [hex_digit (unat (w AND 15))]"

definition profile_version :: "(dbus_value \<Rightarrow> string) \<Rightarrow> connection_settings \<Rightarrow> string" where
  "profile_version debug settings = hex_digits 16 (foldl fnv1a 0xcbf29ce484222325 (profile_text debug settings))"

definition check_expected_version ::
    "(dbus_value \<Rightarrow> string) \<Rightarrow> connection_settings \<Rightarrow> string option \<Rightarrow> anyhow_error + unit" where
  "check_expected_version debug settings expected =
     (case expected of
        None \<Rightarrow> Inr ()
      | Some e \<Rightarrow>
          (let current = profile_version debug settings
           in if current = e then Inr ()
              else Inl (into_anyhow (with_detail (with_detail
                (conflict_error OpProfileOperation ''the saved profile changed since it was read; reload it and retry'')
                ''expected_version'' (JStr e)) ''current_version'' (JStr current)))))"

record secret_flag_word =
  sf_code :: u32
  sf_agent_owned :: bool
  sf_not_saved :: bool
  sf_not_required :: bool

definition secret_flags_from_code :: "u32 \<Rightarrow> secret_flag_word" where
  "secret_flags_from_code code = \<lparr>sf_code = code, sf_agent_owned = (code AND 1 \<noteq> 0), sf_not_saved = (code AND 2 \<noteq> 0),
     sf_not_required = (code AND 4 \<noteq> 0)\<rparr>"

definition text_of :: "section_data \<Rightarrow> string \<Rightarrow> string option" where
  "text_of d key = nonempty (setting_text d key)"

definition blob_of :: "section_data \<Rightarrow> string \<Rightarrow> string option" where
  "blob_of d key =
     Option.bind (Option.bind (hm_get d key) (value_list value_u8)) (\<lambda>bs0.
       let bs = (if bs0 \<noteq> [] \<and> last bs0 = CHR 0x00 then butlast bs0 else bs0)
       in if bs = [] then None
          else if utf8_valid bs then Some bs
          else Some (''blob:'' @ decimal (length bs) @ '' bytes''))"

definition flag_word_of :: "section_data \<Rightarrow> string \<Rightarrow> secret_flag_word" where
  "flag_word_of d key = secret_flags_from_code (case setting_u32 d key of Some c \<Rightarrow> c | None \<Rightarrow> 0)"

record profile_enterprise_settings =
  es_eap :: "string list"
  es_identity :: "string option"
  es_anonymous_identity :: "string option"
  es_domain_suffix_match :: "string option"
  es_domain_match :: "string option"
  es_subject_match :: "string option"
  es_altsubject_matches :: "string list"
  es_ca_cert :: "string option"
  es_ca_path :: "string option"
  es_phase2_ca_path :: "string option"
  es_system_ca_certs :: bool
  es_client_cert :: "string option"
  es_private_key :: "string option"
  es_phase1_peapver :: "string option"
  es_phase1_peaplabel :: "string option"
  es_phase1_fast_provisioning :: "string option"
  es_phase1_auth_flags :: "u32 option"
  es_phase2_auth :: "string option"
  es_phase2_autheap :: "string option"
  es_phase2_ca_cert :: "string option"
  es_phase2_client_cert :: "string option"
  es_phase2_private_key :: "string option"
  es_phase2_domain_suffix_match :: "string option"
  es_phase2_subject_match :: "string option"
  es_phase2_altsubject_matches :: "string list"
  es_pac_file :: "string option"
  es_password_flags :: secret_flag_word
  es_private_key_password_flags :: secret_flag_word
  es_phase2_private_key_password_flags :: secret_flag_word
  es_ca_cert_password_flags :: secret_flag_word
  es_client_cert_password_flags :: secret_flag_word
  es_pin_flags :: secret_flag_word

definition read_enterprise :: "connection_settings \<Rightarrow> profile_enterprise_settings option" where
  "read_enterprise settings =
       map_option (\<lambda>d. \<lparr>es_eap = setting_strings d ''eap'',
         es_identity = text_of d ''identity'',
         es_anonymous_identity = text_of d ''anonymous-identity'',
         es_domain_suffix_match = text_of d ''domain-suffix-match'',
         es_domain_match = text_of d ''domain-match'',
         es_subject_match = text_of d ''subject-match'',
         es_altsubject_matches = setting_strings d ''altsubject-matches'',
         es_ca_cert = blob_of d ''ca-cert'',
         es_ca_path = text_of d ''ca-path'',
         es_phase2_ca_path = text_of d ''phase2-ca-path'',
         es_system_ca_certs = (case setting_bool d ''system-ca-certs'' of Some b \<Rightarrow> b | None \<Rightarrow> False),
         es_client_cert = blob_of d ''client-cert'',
         es_private_key = blob_of d ''private-key'',
         es_phase1_peapver = text_of d ''phase1-peapver'',
         es_phase1_peaplabel = text_of d ''phase1-peaplabel'',
         es_phase1_fast_provisioning = text_of d ''phase1-fast-provisioning'',
         es_phase1_auth_flags = setting_u32 d ''phase1-auth-flags'',
         es_phase2_auth = text_of d ''phase2-auth'',
         es_phase2_autheap = text_of d ''phase2-autheap'',
         es_phase2_ca_cert = blob_of d ''phase2-ca-cert'',
         es_phase2_client_cert = blob_of d ''phase2-client-cert'',
         es_phase2_private_key = blob_of d ''phase2-private-key'',
         es_phase2_domain_suffix_match = text_of d ''phase2-domain-suffix-match'',
         es_phase2_subject_match = text_of d ''phase2-subject-match'',
         es_phase2_altsubject_matches = setting_strings d ''phase2-altsubject-matches'',
         es_pac_file = text_of d ''pac-file'',
         es_password_flags = flag_word_of d ''password-flags'',
         es_private_key_password_flags = flag_word_of d ''private-key-password-flags'',
         es_phase2_private_key_password_flags = flag_word_of d ''phase2-private-key-password-flags'',
         es_ca_cert_password_flags = flag_word_of d ''ca-cert-password-flags'',
         es_client_cert_password_flags = flag_word_of d ''client-cert-password-flags'',
         es_pin_flags = flag_word_of d ''pin-flags''\<rparr>) (hm_get settings ''802-1x'')"

record wifi_profile_details =
  wd_path :: string
  wd_id :: string
  wd_uuid :: string
  wd_ssid :: string
  wd_version :: string
  wd_autoconnect :: bool
  wd_autoconnect_priority :: int
  wd_metered :: string
  wd_hidden :: bool
  wd_mac_address_policy :: string
  wd_cloned_mac_address :: "string option"
  wd_mac_address :: "string option"
  wd_bssid :: "string option"
  wd_mtu :: "u32 option"
  wd_mode :: string
  wd_band :: wifi_band
  wd_channel :: "u32 option"
  wd_send_hostname :: bool
  wd_casting_enabled :: bool
  wd_permissions :: "string list"
  wd_firewall_zone :: "string option"
  wd_secondaries :: "string list"
  wd_security_type :: string
  wd_enterprise :: "profile_enterprise_settings option"
  wd_ipv4 :: profile_ip_settings
  wd_ipv6 :: profile_ip_settings

definition positive :: "u32 option \<Rightarrow> u32 option" where
  "positive x = Option.bind x (\<lambda>n. if 0 < n then Some n else None)"

definition not_saved_profile :: "string \<Rightarrow> anyhow_error" where
  "not_saved_profile path =
     into_anyhow (not_found_error OpProfileOperation (''connection is not a saved Wi-Fi profile: '' @ path))"

definition wifi_profile_details_of ::
    "(dbus_value \<Rightarrow> string) \<Rightarrow> string \<Rightarrow> connection_settings \<Rightarrow> anyhow_error + wifi_profile_details" where
  "wifi_profile_details_of debug path settings =
     (case saved_wifi_connection_from_settings path settings of
        None \<Rightarrow> Inl (not_saved_profile path)
      | Some profile \<Rightarrow>
          (let c = section_of settings ''connection''; w = section_of settings ''802-11-wireless''
           in Inr \<lparr>wd_path = swc_path profile, wd_id = swc_id profile,
                wd_uuid = text_or_empty (setting_text c ''uuid''), wd_ssid = swc_ssid profile,
                wd_version = profile_version debug settings, wd_autoconnect = swc_autoconnect profile,
                wd_autoconnect_priority = (case setting_i32 c ''autoconnect-priority'' of Some p \<Rightarrow> p | None \<Rightarrow> 0),
                wd_metered = metered_from_settings c,
                wd_hidden = (case setting_bool w ''hidden'' of Some b \<Rightarrow> b | None \<Rightarrow> False),
                wd_mac_address_policy = pp_mac_address_policy (swc_privacy profile),
                wd_cloned_mac_address = Option.bind (setting_text w ''assigned-mac-address'') (\<lambda>a.
                  if a \<in> {''default'', ''stable'', ''random'', ''permanent''} then None else Some a),
                wd_mac_address = text_of w ''mac-address'', wd_bssid = text_of w ''bssid'',
                wd_mtu = positive (setting_u32 w ''mtu''),
                wd_mode = (case text_of w ''mode'' of Some m \<Rightarrow> m | None \<Rightarrow> ''infrastructure''),
                wd_band = (case text_of w ''band'' of Some b \<Rightarrow> band_from_nm_value b | None \<Rightarrow> BandAuto),
                wd_channel = positive (setting_u32 w ''channel''),
                wd_send_hostname = pp_send_hostname (swc_privacy profile),
                wd_casting_enabled = swc_casting_enabled profile,
                wd_permissions = setting_strings c ''permissions'',
                wd_firewall_zone = text_of c ''zone'', wd_secondaries = setting_strings c ''secondaries'',
                wd_security_type = security_type_from_settings settings, wd_enterprise = read_enterprise settings,
                wd_ipv4 = profile_ip_settings_of settings ''ipv4'', wd_ipv6 = profile_ip_settings_of settings ''ipv6''\<rparr>))"

section \<open>Replacing secrets\<close>

record profile_secret_spec =
  ps_kind :: string
  ps_setting_name :: "string option"
  ps_secret_keys :: "string list"
  ps_primary :: "string option"

definition secret_spec_for :: "string \<Rightarrow> string \<Rightarrow> string list \<Rightarrow> string \<Rightarrow> profile_secret_spec" where
  "secret_spec_for kind sec keys primary =
     \<lparr>ps_kind = kind, ps_setting_name = Some sec, ps_secret_keys = keys, ps_primary = Some primary\<rparr>"

definition enterprise_secret_spec :: profile_secret_spec where
  "enterprise_secret_spec = secret_spec_for ''enterprise'' ''802-1x'' (known_keys ''802-1x'') ''password''"

definition profile_secret_spec_of :: "connection_settings \<Rightarrow> profile_secret_spec" where
  "profile_secret_spec_of settings =
     (let security = hm_get settings ''802-11-wireless-security'';
          kind = map_option (\<lambda>d. wifi_secret_kind_of d None) security
      in if kind = Some SkPersonal then secret_spec_for ''password'' ''802-11-wireless-security'' [''psk''] ''psk''
         else if kind = Some SkLeap
         then secret_spec_for ''enterprise'' ''802-11-wireless-security'' [''leap-password''] ''leap-password''
         else if kind = Some SkWep \<and> has_wep_settings settings None
         then secret_spec_for ''wep-key'' ''802-11-wireless-security'' WEP_KEYS (wep_secret_key security)
         else if kind = Some SkEnterprise \<or> hm_get settings ''802-1x'' \<noteq> None then enterprise_secret_spec
         else \<lparr>ps_kind = ''none'', ps_setting_name = None, ps_secret_keys = [], ps_primary = None\<rparr>)"

definition profile_secret_values ::
    "connection_settings \<Rightarrow> connection_settings option \<Rightarrow> profile_secret_spec \<Rightarrow> (string \<times> string) list" where
  "profile_secret_values settings secrets spec =
     (case ps_setting_name spec of
        None \<Rightarrow> []
      | Some sec \<Rightarrow> List.map_filter (\<lambda>k. map_option (Pair k) (setting_secret_string settings secrets sec k)) (ps_secret_keys spec))"

definition secret_replacements :: "profile_secret_spec \<Rightarrow> wifi_profile_update \<Rightarrow> (string \<times> string) list" where
  "secret_replacements spec u =
     (case (ps_primary spec, nonempty (wu_password u)) of
        (Some primary, Some password) \<Rightarrow>
          if hm_get (wu_secrets u) primary = None then wu_secrets u @ [(primary, password)] else wu_secrets u
      | _ \<Rightarrow> wu_secrets u)"

definition validate_profile_secret ::
    "connection_settings \<Rightarrow> profile_secret_spec \<Rightarrow> string \<Rightarrow> string \<Rightarrow> anyhow_error + unit" where
  "validate_profile_secret settings spec key v =
     (let field = (if ps_kind spec = ''password'' then ''secrets.psk'' else ''secrets'')
      in if ps_kind spec = ''password'' \<and> key = ''psk''
         then validate_format WpaPsk v OpProfileOperation field
         else if ps_kind spec = ''wep-key'' \<and> starts_with ''wep-key'' key
         then validate_format
                (WepFormat (if Option.bind (hm_get settings ''802-11-wireless-security'') (\<lambda>d. setting_u32 d ''wep-key-type'') = Some 2
                            then WepPhrase else WepKey)) v OpProfileOperation field
         else Inr ())"

definition validate_replacement ::
    "connection_settings \<Rightarrow> profile_secret_spec \<Rightarrow> string \<times> string \<Rightarrow> anyhow_error + unit" where
  "validate_replacement settings spec = (\<lambda>(key, v).
     if key \<notin> set (ps_secret_keys spec)
     then Inl (into_anyhow (with_detail (with_detail
            (validation_error OpProfileOperation (''secret '' @ [CHR 0x27] @ key @ [CHR 0x27] @ '' is not valid for this Wi-Fi profile''))
            ''field'' (JStr (''secrets.'' @ key))) ''allowed_secret_keys'' (JArr (map JStr (ps_secret_keys spec)))))
     else if v = []
     then Inl (profile_invalid (''secrets.'' @ key) (''secret '' @ [CHR 0x27] @ key @ [CHR 0x27] @ '' must not be empty''))
     else validate_profile_secret settings spec key v)"

fun write_secrets :: "string \<Rightarrow> (string \<times> string) list \<Rightarrow> connection_settings \<Rightarrow> anyhow_error + connection_settings" where
  "write_secrets sec [] settings = Inr settings"
| "write_secrets sec ((key, v) # rest) settings =
     and_then (set_system_owned settings sec key) (\<lambda>s. and_then (set_text s sec key v) (write_secrets sec rest))"

definition update_profile_secrets ::
    "connection_settings \<Rightarrow> wifi_profile_update \<Rightarrow> anyhow_error + connection_settings" where
  "update_profile_secrets settings u =
     (let spec = profile_secret_spec_of settings; replacements = secret_replacements spec u
      in if replacements = []
         then (if nonempty (wu_password u) = None then Inr settings
               else Inl [LContext ''this Wi-Fi profile has no editable primary secret''])
         else case ps_setting_name spec of
                None \<Rightarrow> Inl (profile_invalid ''secrets'' ''this Wi-Fi profile does not have editable secrets'')
              | Some sec \<Rightarrow>
                  and_then (try_each (validate_replacement settings spec) replacements) (\<lambda>_.
                    write_secrets sec replacements settings))"

section \<open>One update of a profile\<close>

definition mutate_profile ::
    "(dbus_value \<Rightarrow> string) \<Rightarrow> wifi_profile_update \<Rightarrow> connection_settings \<Rightarrow> anyhow_error + connection_settings" where
  "mutate_profile debug u settings =
     and_then (check_expected_version debug settings (wu_expected_version u)) (\<lambda>_.
     and_then (metered_code (wu_metered u)) (\<lambda>metered.
       let s = on_section ''connection'' (\<lambda>c. hm_insert ''metered'' (DU32 metered)
                 (hm_insert ''autoconnect'' (DBool (wu_autoconnect u)) c)) settings;
           s = on_section ''802-11-wireless'' (hm_insert ''hidden'' (DBool (wu_hidden u))) s;
           s = apply_mac_address_policy s (wu_mac_address_policy u);
           s = set_send_hostname (set_send_hostname s ''ipv4'' (wu_send_hostname u)) ''ipv6'' (wu_send_hostname u);
           s = ip_replace (ip_replace s ''ipv4'' (wu_ipv4 u)) ''ipv6'' (wu_ipv6 u)
       in and_then (apply_advanced s (wu_advanced u)) (\<lambda>s. update_profile_secrets s u)))"

section \<open>What an update leaves in a profile\<close>

lemma section_of_insert: "section_of (hm_insert k d s) sec = (if sec = k then d else section_of s sec)"
  by (simp add: section_of_def update_conv')

lemma on_section_of: "section_of (on_section k f s) sec = (if sec = k then f (section_of s k) else section_of s sec)"
  by (simp add: on_section_def section_of_insert)

lemma set_clearable_get:
  "hm_get (set_clearable key v d) k =
     (if k = key then (case v of None \<Rightarrow> hm_get d k | Some (c, x) \<Rightarrow> if c then None else Some x) else hm_get d k)"
  by (auto simp: set_clearable_def update_conv' map_of_delete split: option.splits)

text \<open>Replacing the addresses of a family.\<close>

lemma foldl_remove_get: "hm_get (foldl (\<lambda>d k. hm_remove k d) d ks) k = (if k \<in> set ks then None else hm_get d k)"
  by (rule foldl_remove)

definition replaced_ip :: "target_ip_settings \<Rightarrow> profile_ip_settings \<Rightarrow> profile_ip_settings" where
  "replaced_ip u p = p\<lparr>pis_method := (case tis_method u of Some m \<Rightarrow> m | None \<Rightarrow> ''auto''),
     pis_addresses := tis_addresses u, pis_gateway := nonempty (tis_gateway u), pis_dns := tis_dns u,
     pis_routes := map route_canonical (tis_routes u),
     pis_ignore_auto_dns := (case tis_ignore_auto_dns u of Some b \<Rightarrow> b | None \<Rightarrow> False), pis_dns_search := tis_dns_search u,
     pis_route_metric := tis_route_metric u\<rparr>"

definition replaced_section :: "target_ip_settings \<Rightarrow> section_data \<Rightarrow> section_data" where
  "replaced_section u d = write_values u True
     (hm_insert ''method'' (DStr (case tis_method u of Some m \<Rightarrow> m | None \<Rightarrow> ''auto''))
       (foldl (\<lambda>d k. hm_remove k d) d REPLACED_KEYS))"

lemma ip_replace_section: "ip_replace s sec u = on_section sec (replaced_section u) s"
  by (simp add: ip_replace_def on_section_def replaced_section_def)

definition replaced_base :: "target_ip_settings \<Rightarrow> section_data \<Rightarrow> section_data" where
  "replaced_base u d = hm_insert ''method'' (DStr (case tis_method u of Some m \<Rightarrow> m | None \<Rightarrow> ''auto''))
       (foldl (\<lambda>d k. hm_remove k d) d REPLACED_KEYS)"

lemma replaced_base_get:
  "hm_get (replaced_base u d) k =
     (if k = ''method'' then Some (DStr (case tis_method u of Some m \<Rightarrow> m | None \<Rightarrow> ''auto''))
      else if k \<in> set REPLACED_KEYS then None else hm_get d k)"
  unfolding replaced_base_def update_conv' by (simp only: foldl_remove_get fun_upd_apply)

lemma write_values_get:
  "hm_get (write_values u True d) k =
     (if k = ''dns-search'' \<and> map DStr (tis_dns_search u) \<noteq> [] then Some (DArr (map DStr (tis_dns_search u)))
      else if k = ''ignore-auto-dns'' then Some (DBool (case tis_ignore_auto_dns u of Some b \<Rightarrow> b | None \<Rightarrow> False))
      else if k = ''route-metric'' \<and> tis_route_metric u \<noteq> None then map_option DI64 (tis_route_metric u)
      else if k = ''route-data'' \<and> map route_data (tis_routes u) \<noteq> [] then Some (DArr (map route_data (tis_routes u)))
      else if k = ''dns-data'' \<and> map DStr (tis_dns u) \<noteq> [] then Some (DArr (map DStr (tis_dns u)))
      else if k = ''gateway'' \<and> nonempty (tis_gateway u) \<noteq> None then map_option DStr (nonempty (tis_gateway u))
      else if k = ''address-data'' \<and> map address_data (tis_addresses u) \<noteq> [] then Some (DArr (map address_data (tis_addresses u)))
      else hm_get d k)"
  unfolding write_values_def insert_optional_string_def write_data_get insert_optional_get
  by (cases "tis_route_metric u"; cases "nonempty (tis_gateway u)")
    (simp_all only: option.map if_True option.case simp_thms if_cancel if_False option.distinct HOL.if_cancel split: if_split)

lemma replaced_section_get:
  "hm_get (replaced_section u d) k = hm_get (write_values u True (replaced_base u d)) k"
  by (simp only: replaced_section_def replaced_base_def)

lemmas replaced_get = replaced_section_get write_values_get replaced_base_get REPLACED_KEYS_def

lemma replaced_section_lists:
  "hm_get (replaced_section u d) ''address-data'' =
     (if tis_addresses u = [] then None else Some (DArr (map address_data (tis_addresses u))))"
  "hm_get (replaced_section u d) ''dns-data'' = (if tis_dns u = [] then None else Some (DArr (map DStr (tis_dns u))))"
  "hm_get (replaced_section u d) ''route-data'' =
     (if tis_routes u = [] then None else Some (DArr (map route_data (tis_routes u))))"
  "hm_get (replaced_section u d) ''dns-search'' =
     (if tis_dns_search u = [] then None else Some (DArr (map DStr (tis_dns_search u))))"
  by (simp_all add: replaced_get)

lemma replaced_section_values:
  "hm_get (replaced_section u d) ''method'' = Some (DStr (case tis_method u of Some m \<Rightarrow> m | None \<Rightarrow> ''auto''))"
  "hm_get (replaced_section u d) ''gateway'' = map_option DStr (nonempty (tis_gateway u))"
  "hm_get (replaced_section u d) ''route-metric'' = map_option DI64 (tis_route_metric u)"
  "hm_get (replaced_section u d) ''ignore-auto-dns'' =
     Some (DBool (case tis_ignore_auto_dns u of Some b \<Rightarrow> b | None \<Rightarrow> False))"
  by (simp_all add: replaced_get)

lemma replaced_section_other:
  "k \<notin> set REPLACED_KEYS \<Longrightarrow> k \<noteq> ''method'' \<Longrightarrow> hm_get (replaced_section u d) k = hm_get d k"
  by (simp add: replaced_get)

definition ip_view :: "section_data \<Rightarrow> string \<Rightarrow> profile_ip_settings" where
  "ip_view d sec = profile_ip_settings_of [(sec, d)] sec"

lemma profile_ip_view: "profile_ip_settings_of s sec = ip_view (section_of s sec) sec"
  by (simp add: ip_view_def profile_ip_settings_of_def section_of_def)

lemmas ip_reads = ip_view_def profile_ip_settings_of_def section_of_def setting_text_def setting_strings_def
  setting_bool_def setting_i32_def

lemma ip_view_simps:
  "pis_method (ip_view d sec) = (case setting_text d ''method'' of Some m \<Rightarrow> m | None \<Rightarrow> ''auto'')"
  "pis_addresses (ip_view d sec) =
     (case Option.bind (hm_get d ''address-data'') setting_address_data of Some a \<Rightarrow> a | None \<Rightarrow> [])"
  "pis_gateway (ip_view d sec) = nonempty (setting_text d ''gateway'')"
  "pis_dns (ip_view d sec) = setting_strings d ''dns-data''"
  "pis_routes (ip_view d sec) =
     (case Option.bind (hm_get d ''route-data'') setting_route_data of Some r \<Rightarrow> r | None \<Rightarrow> [])"
  "pis_ignore_auto_dns (ip_view d sec) = (case setting_bool d ''ignore-auto-dns'' of Some b \<Rightarrow> b | None \<Rightarrow> False)"
  "pis_ignore_auto_routes (ip_view d sec) = (case setting_bool d ''ignore-auto-routes'' of Some b \<Rightarrow> b | None \<Rightarrow> False)"
  "pis_never_default (ip_view d sec) = (case setting_bool d ''never-default'' of Some b \<Rightarrow> b | None \<Rightarrow> False)"
  "pis_may_fail (ip_view d sec) = (case setting_bool d ''may-fail'' of Some b \<Rightarrow> b | None \<Rightarrow> True)"
  "pis_dns_search (ip_view d sec) = setting_strings d ''dns-search''"
  "pis_route_metric (ip_view d sec) = Option.bind (hm_get d ''route-metric'') setting_i64"
  "pis_dhcp_hostname (ip_view d sec) = nonempty (setting_text d ''dhcp-hostname'')"
  "pis_dhcp_client_id (ip_view d sec) = (if sec = ''ipv4'' then nonempty (setting_text d ''dhcp-client-id'') else None)"
  "pis_dad_timeout (ip_view d sec) = (if sec = ''ipv4'' then setting_i32 d ''dad-timeout'' else None)"
  "pis_ip6_privacy (ip_view d sec) = (if sec = ''ipv6'' then setting_i32 d ''ip6-privacy'' else None)"
  by (simp_all add: ip_view_def profile_ip_settings_of_def section_of_def Let_def)

lemma profile_ip_eqI:
  fixes p q :: profile_ip_settings
  assumes "pis_method p = pis_method q" "pis_addresses p = pis_addresses q" "pis_gateway p = pis_gateway q"
    "pis_dns p = pis_dns q" "pis_routes p = pis_routes q" "pis_ignore_auto_dns p = pis_ignore_auto_dns q"
    "pis_ignore_auto_routes p = pis_ignore_auto_routes q" "pis_never_default p = pis_never_default q"
    "pis_may_fail p = pis_may_fail q" "pis_dns_search p = pis_dns_search q" "pis_route_metric p = pis_route_metric q"
    "pis_dhcp_hostname p = pis_dhcp_hostname q" "pis_dhcp_client_id p = pis_dhcp_client_id q"
    "pis_dad_timeout p = pis_dad_timeout q" "pis_ip6_privacy p = pis_ip6_privacy q"
  shows "p = q"
  using assms by (cases p; cases q) simp

lemma replaced_other_reads:
  assumes "k \<notin> set REPLACED_KEYS" "k \<noteq> ''method''"
  shows "setting_bool (replaced_section u d) k = setting_bool d k" "setting_text (replaced_section u d) k = setting_text d k"
    "setting_i32 (replaced_section u d) k = setting_i32 d k"
  using assms by (simp_all add: setting_bool_def setting_text_def setting_i32_def replaced_section_other)

lemma bind_i64: "Option.bind (map_option DI64 x) setting_i64 = x"
  by (cases x) (simp_all add: setting_i64_def)

lemma replaced_reads:
  "setting_text (replaced_section u d) ''method'' = Some (case tis_method u of Some m \<Rightarrow> m | None \<Rightarrow> ''auto'')"
  "setting_text (replaced_section u d) ''gateway'' = nonempty (tis_gateway u)"
  "setting_bool (replaced_section u d) ''ignore-auto-dns'' = Some (case tis_ignore_auto_dns u of Some b \<Rightarrow> b | None \<Rightarrow> False)"
  "setting_strings (replaced_section u d) ''dns-data'' = tis_dns u"
  "setting_strings (replaced_section u d) ''dns-search'' = tis_dns_search u"
  "Option.bind (hm_get (replaced_section u d) ''route-metric'') setting_i64 = tis_route_metric u"
  "(case Option.bind (hm_get (replaced_section u d) ''address-data'') setting_address_data of Some a \<Rightarrow> a | None \<Rightarrow> []) =
     tis_addresses u"
  "(case Option.bind (hm_get (replaced_section u d) ''route-data'') setting_route_data of Some r \<Rightarrow> r | None \<Rightarrow> []) =
     map route_canonical (tis_routes u)"
  by (simp_all add: setting_text_def setting_bool_def setting_strings_def replaced_section_values replaced_section_lists
      address_roundtrip route_roundtrip strings_roundtrip value_string_DStr bind_i64 del: value_list.simps)

lemma replaced_view: "ip_view (replaced_section u d) sec = replaced_ip u (ip_view d sec)"
  by (rule profile_ip_eqI)
    (simp_all add: ip_view_simps replaced_ip_def replaced_reads replaced_other_reads REPLACED_KEYS_def)

text \<open>Everything outside the two sections that hold credentials is written before them.\<close>

definition credential_sections :: "string set" where
  "credential_sections = {''802-1x'', ''802-11-wireless-security''}"

lemma set_system_owned_elsewhere:
  "set_system_owned s sec key = Inr s' \<Longrightarrow> sec' \<noteq> sec \<Longrightarrow> hm_get s' sec' = hm_get s sec'"
  by (auto simp: set_system_owned_def and_then_Inr_iff Let_def update_conv' split: if_splits option.splits)

lemma write_secrets_elsewhere:
  "write_secrets sec kvs s = Inr s' \<Longrightarrow> sec' \<noteq> sec \<Longrightarrow> hm_get s' sec' = hm_get s sec'"
proof (induction sec kvs s rule: write_secrets.induct)
  case (2 sec key v rest s)
  then show ?case
    using set_system_owned_elsewhere [of s sec key] written_elsewhere [of _ sec key v]
    by (auto simp: and_then_Inr_iff)
qed simp

lemma profile_secret_section:
  "ps_setting_name (profile_secret_spec_of s) = Some sec \<Longrightarrow> sec \<in> credential_sections"
  by (auto simp: profile_secret_spec_of_def secret_spec_for_def enterprise_secret_spec_def credential_sections_def
      Let_def split: if_splits)

lemma update_profile_secrets_elsewhere:
  assumes "update_profile_secrets s u = Inr s'" and "sec \<notin> credential_sections"
  shows "hm_get s' sec = hm_get s sec"
  using assms profile_secret_section [of s] write_secrets_elsewhere [of _ _ s s' sec]
  by (auto simp: update_profile_secrets_def Let_def and_then_Inr_iff split: if_splits option.splits)

lemma apply_enterprise_elsewhere:
  "apply_enterprise s u = Inr s' \<Longrightarrow> sec \<noteq> ''802-1x'' \<Longrightarrow> hm_get s' sec = hm_get s sec"
  by (auto simp: apply_enterprise_def Let_def and_then_Inr_iff update_conv')

definition connection_fields :: "wifi_profile_update \<Rightarrow> u32 \<Rightarrow> section_data \<Rightarrow> section_data" where
  "connection_fields u metered d =
     (let a = wu_advanced u
      in (case au_casting_enabled a of
            Some b \<Rightarrow> hm_insert ''mdns'' (DI32 (if b then 1 else 0)) | None \<Rightarrow> id)
           (set_clearable ''secondaries'' (clearable_texts (au_secondaries a))
             (set_clearable ''permissions'' (clearable_texts (au_permissions a))
               (set_clearable ''zone'' (clearable_text (au_firewall_zone a))
                 (insert_optional ''autoconnect-priority'' (map_option DI32 (au_autoconnect_priority a))
                   (hm_insert ''metered'' (DU32 metered) (hm_insert ''autoconnect'' (DBool (wu_autoconnect u)) d)))))))"

definition mac_policy_fields :: "string \<Rightarrow> section_data \<Rightarrow> section_data" where
  "mac_policy_fields policy d =
     (let w = hm_remove ''mac-address-randomization'' (hm_remove ''cloned-mac-address'' (hm_remove ''assigned-mac-address'' d))
      in if policy \<noteq> ''default'' then hm_insert ''assigned-mac-address'' (DStr policy) w else w)"

definition advanced_wireless :: "wifi_profile_advanced_update \<Rightarrow> section_data \<Rightarrow> section_data" where
  "advanced_wireless a w =
     set_clearable ''channel'' (clearable_u32 (au_channel a))
       (apply_band (au_band a)
         (insert_optional ''mtu'' (map_option DU32 (au_mtu a))
           (apply_cloned_address (au_cloned_mac_address a)
             (set_clearable ''mode'' (clearable_text (au_mode a))
               (set_clearable ''mac-address'' (clearable_text (au_mac_address a))
                 (set_clearable ''bssid'' (clearable_text (au_bssid a)) w))))))"

definition wireless_fields :: "wifi_profile_update \<Rightarrow> section_data \<Rightarrow> section_data" where
  "wireless_fields u d = advanced_wireless (wu_advanced u)
     (mac_policy_fields (wu_mac_address_policy u) (hm_insert ''hidden'' (DBool (wu_hidden u)) d))"

definition hostname_fields :: "bool \<Rightarrow> section_data \<Rightarrow> section_data" where
  "hostname_fields enabled d = hm_insert ''dhcp-send-hostname'' (DBool enabled)
     (if hm_get d ''method'' = None then hm_insert ''method'' (DStr ''auto'') d else d)"

definition ipv4_fields :: "wifi_profile_update \<Rightarrow> section_data \<Rightarrow> section_data" where
  "ipv4_fields u d =
     (let a = wu_advanced u
      in insert_optional ''dad-timeout'' (map_option DI32 (au_ipv4_dad_timeout a))
           (insert_flags [(''never-default'', au_ipv4_never_default a),
                          (''ignore-auto-routes'', au_ipv4_ignore_auto_routes a), (''may-fail'', au_ipv4_may_fail a)]
             (set_clearable ''dhcp-hostname'' (clearable_text (au_ipv4_dhcp_hostname a))
               (set_clearable ''dhcp-client-id'' (clearable_text (au_ipv4_dhcp_client_id a))
                 (replaced_section (wu_ipv4 u) (hostname_fields (wu_send_hostname u) d))))))"

definition ipv6_fields :: "wifi_profile_update \<Rightarrow> section_data \<Rightarrow> section_data" where
  "ipv6_fields u d =
     (let a = wu_advanced u
      in (case au_ipv6_privacy a of Some p \<Rightarrow> hm_insert ''ip6-privacy'' (DI32 p) | None \<Rightarrow> id)
           (insert_flags [(''never-default'', au_ipv6_never_default a),
              (''ignore-auto-routes'', au_ipv6_ignore_auto_routes a), (''may-fail'', au_ipv6_may_fail a)]
             (replaced_section (wu_ipv6 u) (hostname_fields (wu_send_hostname u) d))))"

lemma mac_policy_section: "apply_mac_address_policy s p = on_section ''802-11-wireless'' (mac_policy_fields p) s"
  by (simp add: apply_mac_address_policy_def on_section_def mac_policy_fields_def Let_def)

lemma hostname_section: "set_send_hostname s sec b = on_section sec (hostname_fields b) s"
  by (simp add: set_send_hostname_def on_section_def hostname_fields_def Let_def)

lemma casting_section:
  "set_casting_enabled s b = on_section ''connection'' (hm_insert ''mdns'' (DI32 (if b then 1 else 0))) s"
  by (simp add: set_casting_enabled_def on_section_def)

definition before_advanced :: "wifi_profile_update \<Rightarrow> u32 \<Rightarrow> connection_settings \<Rightarrow> connection_settings" where
  "before_advanced u metered s =
     on_section ''ipv6'' (replaced_section (wu_ipv6 u)) (on_section ''ipv4'' (replaced_section (wu_ipv4 u))
       (on_section ''ipv6'' (hostname_fields (wu_send_hostname u)) (on_section ''ipv4'' (hostname_fields (wu_send_hostname u))
         (on_section ''802-11-wireless'' (mac_policy_fields (wu_mac_address_policy u))
           (on_section ''802-11-wireless'' (hm_insert ''hidden'' (DBool (wu_hidden u)))
             (on_section ''connection'' (\<lambda>c. hm_insert ''metered'' (DU32 metered)
                 (hm_insert ''autoconnect'' (DBool (wu_autoconnect u)) c)) s))))))"

lemma mutate_profile_steps:
  assumes "mutate_profile debug u s = Inr s'"
  obtains metered s1 s2 where "metered_code (wu_metered u) = Inr metered"
    "validate_wireless_update (wu_advanced u) = Inr ()"
    "apply_advanced (before_advanced u metered s) (wu_advanced u) = Inr s1"
    "update_profile_secrets s1 u = Inr s'"
  using assms
  by (auto simp: mutate_profile_def Let_def and_then_Inr_iff mac_policy_section hostname_section ip_replace_section
      before_advanced_def apply_advanced_def apply_wireless_fields_def)

lemma on_section_get: "hm_get (on_section k f s) sec = (if sec = k then Some (f (section_of s k)) else hm_get s sec)"
  by (simp add: on_section_def update_conv')

lemma section_of_get: "hm_get s sec = Some d \<Longrightarrow> section_of s sec = d"
  by (simp add: section_of_def)

text \<open>The four sections of an updated profile.\<close>

lemma apply_ip_fields_sections:
  assumes "apply_ip_fields s a = Inr s'"
  shows "hm_get s' ''ipv4'' = Some (insert_optional ''dad-timeout'' (map_option DI32 (au_ipv4_dad_timeout a))
      (insert_flags [(''never-default'', au_ipv4_never_default a),
                     (''ignore-auto-routes'', au_ipv4_ignore_auto_routes a), (''may-fail'', au_ipv4_may_fail a)]
        (set_clearable ''dhcp-hostname'' (clearable_text (au_ipv4_dhcp_hostname a))
          (set_clearable ''dhcp-client-id'' (clearable_text (au_ipv4_dhcp_client_id a)) (section_of s ''ipv4'')))))"
    "hm_get s' ''ipv6'' = Some ((case au_ipv6_privacy a of Some p \<Rightarrow> hm_insert ''ip6-privacy'' (DI32 p) | None \<Rightarrow> id)
      (insert_flags [(''never-default'', au_ipv6_never_default a),
         (''ignore-auto-routes'', au_ipv6_ignore_auto_routes a), (''may-fail'', au_ipv6_may_fail a)] (section_of s ''ipv6'')))"
    "sec \<noteq> ''ipv4'' \<Longrightarrow> sec \<noteq> ''ipv6'' \<Longrightarrow> hm_get s' sec = hm_get s sec"
  using assms
  by (auto simp: apply_ip_fields_def Let_def on_section_get on_section_of split: option.splits if_splits)

lemma apply_connection_fields_sections:
  "hm_get (apply_connection_fields s a) ''connection'' =
     Some ((case au_casting_enabled a of Some b \<Rightarrow> hm_insert ''mdns'' (DI32 (if b then 1 else 0)) | None \<Rightarrow> id)
           (set_clearable ''secondaries'' (clearable_texts (au_secondaries a))
             (set_clearable ''permissions'' (clearable_texts (au_permissions a))
               (set_clearable ''zone'' (clearable_text (au_firewall_zone a))
                 (insert_optional ''autoconnect-priority'' (map_option DI32 (au_autoconnect_priority a))
                   (section_of s ''connection''))))))"
  "sec \<noteq> ''connection'' \<Longrightarrow> hm_get (apply_connection_fields s a) sec = hm_get s sec"
  by (auto simp: apply_connection_fields_def Let_def casting_section on_section_get on_section_of split: option.splits)

lemma section_of_cong: "hm_get s sec = hm_get s' sec \<Longrightarrow> section_of s sec = section_of s' sec"
  by (simp add: section_of_def)

lemma apply_advanced_stages:
  assumes "apply_advanced s a = Inr s'"
  obtains s1 s2 where "s1 = on_section ''802-11-wireless'' (advanced_wireless a) (apply_connection_fields s a)"
    "apply_ip_fields s1 a = Inr s2" "\<And>sec. sec \<noteq> ''802-1x'' \<Longrightarrow> hm_get s' sec = hm_get s2 sec"
proof -
  from assms obtain s1 s2 s3 where a: "apply_wireless_fields (apply_connection_fields s a) a = Inr s1"
      "apply_ip_fields s1 a = Inr s2" "(case au_enterprise a of Some e \<Rightarrow> apply_enterprise s2 e | None \<Rightarrow> Inr s2) = Inr s3" "s' = s3"
    by (auto simp: apply_advanced_def and_then_Inr_iff)
  then have "hm_get s' sec = hm_get s2 sec" if "sec \<noteq> ''802-1x''" for sec
    using that by (cases "au_enterprise a") (auto dest: apply_enterprise_elsewhere)
  with a show ?thesis by (intro that [of s1 s2]) (auto simp: apply_wireless_fields_def and_then_Inr_iff advanced_wireless_def fun_eq_iff on_section_def)
qed

lemma mutate_profile_sections:
  assumes "mutate_profile debug u s = Inr s'"
  obtains metered where "metered_code (wu_metered u) = Inr metered"
    "hm_get s' ''connection'' = Some (connection_fields u metered (section_of s ''connection''))"
    "hm_get s' ''802-11-wireless'' = Some (wireless_fields u (section_of s ''802-11-wireless''))"
    "hm_get s' ''ipv4'' = Some (ipv4_fields u (section_of s ''ipv4''))"
    "hm_get s' ''ipv6'' = Some (ipv6_fields u (section_of s ''ipv6''))"
proof -
  obtain metered s1 where m: "metered_code (wu_metered u) = Inr metered"
    and a: "apply_advanced (before_advanced u metered s) (wu_advanced u) = Inr s1"
    and w: "update_profile_secrets s1 u = Inr s'"
    using mutate_profile_steps [OF assms] by metis
  have out: "hm_get s' sec = hm_get s1 sec" if "sec \<notin> credential_sections" for sec
    using update_profile_secrets_elsewhere [OF w that] .
  from a obtain s2 s3 where st: "s2 = on_section ''802-11-wireless'' (advanced_wireless (wu_advanced u))
        (apply_connection_fields (before_advanced u metered s) (wu_advanced u))"
      "apply_ip_fields s2 (wu_advanced u) = Inr s3" "\<And>sec. sec \<noteq> ''802-1x'' \<Longrightarrow> hm_get s1 sec = hm_get s3 sec"
    by (rule apply_advanced_stages) (rule that)
  note ip = apply_ip_fields_sections [OF st(2)]
  have base: "section_of (before_advanced u metered s) ''802-11-wireless'' =
      mac_policy_fields (wu_mac_address_policy u) (hm_insert ''hidden'' (DBool (wu_hidden u)) (section_of s ''802-11-wireless''))"
    "section_of (before_advanced u metered s) ''ipv4'' =
      replaced_section (wu_ipv4 u) (hostname_fields (wu_send_hostname u) (section_of s ''ipv4''))"
    "section_of (before_advanced u metered s) ''ipv6'' =
      replaced_section (wu_ipv6 u) (hostname_fields (wu_send_hostname u) (section_of s ''ipv6''))"
    "section_of (before_advanced u metered s) ''connection'' =
      hm_insert ''metered'' (DU32 metered) (hm_insert ''autoconnect'' (DBool (wu_autoconnect u)) (section_of s ''connection''))"
    by (simp_all add: before_advanced_def on_section_of)
  have mid: "section_of (apply_connection_fields t a) sec = section_of t sec" if "sec \<noteq> ''connection''" for t a sec
    using that by (intro section_of_cong) (rule apply_connection_fields_sections(2))
  have two: "section_of s2 ''ipv4'' = section_of (before_advanced u metered s) ''ipv4''"
    "section_of s2 ''ipv6'' = section_of (before_advanced u metered s) ''ipv6''"
    by (simp_all add: st(1) on_section_of mid)
  show ?thesis
  proof (rule that [OF m])
    show "hm_get s' ''connection'' = Some (connection_fields u metered (section_of s ''connection''))"
      by (simp add: out credential_sections_def st(3) ip(3))
        (simp add: st(1) on_section_get apply_connection_fields_sections(1) base connection_fields_def Let_def)
    show "hm_get s' ''802-11-wireless'' = Some (wireless_fields u (section_of s ''802-11-wireless''))"
      by (simp add: out credential_sections_def st(3) ip(3))
        (simp add: st(1) on_section_get mid base wireless_fields_def Let_def)
    show "hm_get s' ''ipv4'' = Some (ipv4_fields u (section_of s ''ipv4''))"
      by (simp add: out credential_sections_def st(3) ip(1) two base ipv4_fields_def Let_def)
    show "hm_get s' ''ipv6'' = Some (ipv6_fields u (section_of s ''ipv6''))"
      by (simp add: out credential_sections_def st(3) ip(2) two base ipv6_fields_def Let_def)
  qed
qed

definition kept :: "'a option \<Rightarrow> 'a \<Rightarrow> 'a" where
  "kept v old = (case v of Some x \<Rightarrow> x | None \<Rightarrow> old)"

definition kept_text :: "string option \<Rightarrow> string option \<Rightarrow> string option" where
  "kept_text v old = (case v of Some x \<Rightarrow> nonempty (Some x) | None \<Rightarrow> old)"

lemmas field_gets = set_clearable_get insert_optional_get update_conv' map_of_delete fun_upd_apply

lemma connection_fields_get:
  "hm_get (connection_fields u metered d) k =
     (let a = wu_advanced u
      in if k = ''mdns'' \<and> au_casting_enabled a \<noteq> None
         then Some (DI32 (if the (au_casting_enabled a) then 1 else 0))
         else hm_get (set_clearable ''secondaries'' (clearable_texts (au_secondaries a))
             (set_clearable ''permissions'' (clearable_texts (au_permissions a))
               (set_clearable ''zone'' (clearable_text (au_firewall_zone a))
                 (insert_optional ''autoconnect-priority'' (map_option DI32 (au_autoconnect_priority a))
                   (hm_insert ''metered'' (DU32 metered) (hm_insert ''autoconnect'' (DBool (wu_autoconnect u)) d)))))) k)"
  by (cases "au_casting_enabled (wu_advanced u)") (simp_all add: connection_fields_def Let_def update_conv')

lemma connection_fields_reads:
  "setting_text (connection_fields u m d) ''id'' = setting_text d ''id''"
  "setting_text (connection_fields u m d) ''uuid'' = setting_text d ''uuid''"
  "wifi_typed (connection_fields u m d) = wifi_typed d"
  "setting_bool (connection_fields u m d) ''autoconnect'' = Some (wu_autoconnect u)"
  "setting_u32 (connection_fields u m d) ''metered'' = Some m"
  by (simp_all add: setting_text_def setting_bool_def setting_u32_def wifi_typed_def connection_fields_get Let_def field_gets)

lemma clearable_text_read:
  "nonempty (setting_text (set_clearable k (clearable_text v) d) k) = kept_text v (nonempty (setting_text d k))"
  by (cases v) (auto simp: setting_text_def set_clearable_get clearable_text_def kept_text_def nonempty_def)

lemma clearable_texts_read:
  "setting_strings (set_clearable k (clearable_texts v) d) k = kept v (setting_strings d k)"
  by (cases v) (auto simp: setting_strings_def set_clearable_get clearable_texts_def kept_def strings_roundtrip
      simp del: value_list.simps)

lemma read_cong:
  assumes "hm_get d k = hm_get d' k"
  shows "setting_text d k = setting_text d' k" "setting_strings d k = setting_strings d' k"
    "setting_bool d k = setting_bool d' k" "setting_i32 d k = setting_i32 d' k" "setting_u32 d k = setting_u32 d' k"
  using assms by (simp_all add: setting_text_def setting_strings_def setting_bool_def setting_i32_def setting_u32_def)

lemma connection_fields_advanced:
  "nonempty (setting_text (connection_fields u m d) ''zone'') =
     kept_text (au_firewall_zone (wu_advanced u)) (nonempty (setting_text d ''zone''))"
  "setting_strings (connection_fields u m d) ''permissions'' = kept (au_permissions (wu_advanced u)) (setting_strings d ''permissions'')"
  "setting_strings (connection_fields u m d) ''secondaries'' = kept (au_secondaries (wu_advanced u)) (setting_strings d ''secondaries'')"
  "setting_i32 (connection_fields u m d) ''autoconnect-priority'' =
     (case au_autoconnect_priority (wu_advanced u) of Some p \<Rightarrow> Some p | None \<Rightarrow> setting_i32 d ''autoconnect-priority'')"
proof -
  let ?a = "wu_advanced u"
  let ?d = "insert_optional ''autoconnect-priority'' (map_option DI32 (au_autoconnect_priority ?a))
       (hm_insert ''metered'' (DU32 m) (hm_insert ''autoconnect'' (DBool (wu_autoconnect u)) d))"
  let ?z = "set_clearable ''zone'' (clearable_text (au_firewall_zone ?a)) ?d"
  let ?p = "set_clearable ''permissions'' (clearable_texts (au_permissions ?a)) ?z"
  let ?s = "set_clearable ''secondaries'' (clearable_texts (au_secondaries ?a)) ?p"
  have out: "hm_get (connection_fields u m d) k = hm_get ?s k" if "k \<noteq> ''mdns''" for k
    using that by (simp add: connection_fields_get Let_def)
  have zone: "hm_get (connection_fields u m d) ''zone'' = hm_get ?z ''zone''" "hm_get ?d ''zone'' = hm_get d ''zone''"
    by (simp_all add: out field_gets)
  then show "nonempty (setting_text (connection_fields u m d) ''zone'') =
     kept_text (au_firewall_zone (wu_advanced u)) (nonempty (setting_text d ''zone''))"
    using clearable_text_read [of "''zone''" "au_firewall_zone ?a" ?d] read_cong(1) [OF zone(1)] read_cong(1) [OF zone(2)]
    by simp
  have perm: "hm_get (connection_fields u m d) ''permissions'' = hm_get ?p ''permissions''"
    "hm_get ?z ''permissions'' = hm_get d ''permissions''"
    by (simp_all add: out field_gets)
  then show "setting_strings (connection_fields u m d) ''permissions'' =
      kept (au_permissions (wu_advanced u)) (setting_strings d ''permissions'')"
    using clearable_texts_read [of "''permissions''" "au_permissions ?a" ?z] read_cong(2) [OF perm(1)] read_cong(2) [OF perm(2)]
    by simp
  have sec: "hm_get (connection_fields u m d) ''secondaries'' = hm_get ?s ''secondaries''"
    "hm_get ?p ''secondaries'' = hm_get d ''secondaries''"
    by (simp_all add: out field_gets)
  then show "setting_strings (connection_fields u m d) ''secondaries'' =
      kept (au_secondaries (wu_advanced u)) (setting_strings d ''secondaries'')"
    using clearable_texts_read [of "''secondaries''" "au_secondaries ?a" ?p] read_cong(2) [OF sec(1)] read_cong(2) [OF sec(2)]
    by simp
  show "setting_i32 (connection_fields u m d) ''autoconnect-priority'' =
     (case au_autoconnect_priority (wu_advanced u) of Some p \<Rightarrow> Some p | None \<Rightarrow> setting_i32 d ''autoconnect-priority'')"
    by (cases "au_autoconnect_priority ?a") (simp_all add: setting_i32_def out field_gets)
qed

lemma band_value_text: "band_nm_value b = Some v \<Longrightarrow> v \<noteq> []"
  by (cases b) auto

lemma apply_band_get:
  "hm_get (apply_band b d) k =
     (case b of None \<Rightarrow> hm_get d k
      | Some x \<Rightarrow> (case band_nm_value x of
           Some v \<Rightarrow> if k = ''band'' then Some (DStr v) else hm_get d k
         | None \<Rightarrow> if k = ''band'' \<or> k = ''channel'' then None else hm_get d k))"
  by (auto simp: apply_band_def field_gets split: option.splits)

lemma apply_cloned_get:
  "hm_get (apply_cloned_address c d) k =
     (case c of None \<Rightarrow> hm_get d k
      | Some x \<Rightarrow> if k = ''assigned-mac-address'' then (if x = [] then None else Some (DStr x))
                  else if k = ''cloned-mac-address'' \<or> k = ''mac-address-randomization'' then None else hm_get d k)"
  by (auto simp: apply_cloned_address_def clearable_text_def field_gets split: option.splits)

lemma mac_policy_get:
  "hm_get (mac_policy_fields p d) k =
     (if k = ''assigned-mac-address'' then (if p = ''default'' then None else Some (DStr p))
      else if k = ''cloned-mac-address'' \<or> k = ''mac-address-randomization'' then None else hm_get d k)"
  by (auto simp: mac_policy_fields_def Let_def field_gets)

lemmas wireless_gets = wireless_fields_def advanced_wireless_def set_clearable_get apply_band_get insert_optional_get
  apply_cloned_get mac_policy_get

lemma wireless_keeps:
  assumes "k \<notin> {''channel'', ''band'', ''mtu'', ''assigned-mac-address'', ''cloned-mac-address'',
     ''mac-address-randomization'', ''mode'', ''mac-address'', ''bssid'', ''hidden''}"
  shows "hm_get (wireless_fields u d) k = hm_get d k"
  using assms by (simp add: wireless_gets update_conv' split: option.splits)

lemma wireless_texts:
  "hm_get (wireless_fields u d) ''bssid'' = hm_get (set_clearable ''bssid'' (clearable_text (au_bssid (wu_advanced u))) d) ''bssid''"
  "hm_get (wireless_fields u d) ''mac-address'' =
     hm_get (set_clearable ''mac-address'' (clearable_text (au_mac_address (wu_advanced u))) d) ''mac-address''"
  "hm_get (wireless_fields u d) ''mode'' = hm_get (set_clearable ''mode'' (clearable_text (au_mode (wu_advanced u))) d) ''mode''"
  "hm_get (wireless_fields u d) ''hidden'' = Some (DBool (wu_hidden u))"
  "hm_get (wireless_fields u d) ''mtu'' = (case au_mtu (wu_advanced u) of Some n \<Rightarrow> Some (DU32 n) | None \<Rightarrow> hm_get d ''mtu'')"
  by (simp_all add: wireless_gets update_conv' split: option.splits)

lemma wireless_mac:
  "hm_get (wireless_fields u d) ''assigned-mac-address'' =
     (case au_cloned_mac_address (wu_advanced u) of
        Some c \<Rightarrow> if c = [] then None else Some (DStr c)
      | None \<Rightarrow> if wu_mac_address_policy u = ''default'' then None else Some (DStr (wu_mac_address_policy u)))"
  "hm_get (wireless_fields u d) ''cloned-mac-address'' = None"
  by (simp_all add: wireless_gets update_conv' split: option.splits)

lemma wireless_band:
  "hm_get (wireless_fields u d) ''band'' =
     (case au_band (wu_advanced u) of None \<Rightarrow> hm_get d ''band'' | Some b \<Rightarrow> map_option DStr (band_nm_value b))"
  "hm_get (wireless_fields u d) ''channel'' =
     (case au_channel (wu_advanced u) of
        Some c \<Rightarrow> if c = 0 then None else Some (DU32 c)
      | None \<Rightarrow> if au_band (wu_advanced u) \<noteq> None \<and> Option.bind (au_band (wu_advanced u)) band_nm_value = None
                then None else hm_get d ''channel'')"
  by (simp_all add: wireless_gets update_conv' clearable_u32_def split: option.splits)

lemma hostname_fields_get:
  "k \<noteq> ''method'' \<Longrightarrow> hm_get (hostname_fields b d) k = (if k = ''dhcp-send-hostname'' then Some (DBool b) else hm_get d k)"
  by (auto simp: hostname_fields_def update_conv')

lemma hostname_view: "replaced_ip u (ip_view (hostname_fields b d) sec) = replaced_ip u (ip_view d sec)"
  by (rule profile_ip_eqI)
    (simp_all add: replaced_ip_def ip_view_simps setting_text_def setting_bool_def setting_i32_def hostname_fields_get)

lemma insert_flags_three:
  "insert_flags [(k1, v1), (k2, v2), (k3, v3)] d = insert_optional k3 (map_option DBool v3)
     (insert_optional k2 (map_option DBool v2) (insert_optional k1 (map_option DBool v1) d))"
  by (simp add: insert_flags_def)

lemma optional_bool: "setting_bool (insert_optional k (map_option DBool v) d) k = (case v of Some b \<Rightarrow> Some b | None \<Rightarrow> setting_bool d k)"
  by (cases v) (simp_all add: setting_bool_def insert_optional_get)

definition advanced_ipv4 :: "wifi_profile_advanced_update \<Rightarrow> profile_ip_settings \<Rightarrow> profile_ip_settings" where
  "advanced_ipv4 a p = p\<lparr>pis_never_default := kept (au_ipv4_never_default a) (pis_never_default p),
     pis_ignore_auto_routes := kept (au_ipv4_ignore_auto_routes a) (pis_ignore_auto_routes p),
     pis_may_fail := kept (au_ipv4_may_fail a) (pis_may_fail p),
     pis_dhcp_hostname := kept_text (au_ipv4_dhcp_hostname a) (pis_dhcp_hostname p),
     pis_dhcp_client_id := kept_text (au_ipv4_dhcp_client_id a) (pis_dhcp_client_id p),
     pis_dad_timeout := (case au_ipv4_dad_timeout a of Some t \<Rightarrow> Some t | None \<Rightarrow> pis_dad_timeout p)\<rparr>"

definition advanced_ipv6 :: "wifi_profile_advanced_update \<Rightarrow> profile_ip_settings \<Rightarrow> profile_ip_settings" where
  "advanced_ipv6 a p = p\<lparr>pis_never_default := kept (au_ipv6_never_default a) (pis_never_default p),
     pis_ignore_auto_routes := kept (au_ipv6_ignore_auto_routes a) (pis_ignore_auto_routes p),
     pis_may_fail := kept (au_ipv6_may_fail a) (pis_may_fail p),
     pis_ip6_privacy := (case au_ipv6_privacy a of Some n \<Rightarrow> Some n | None \<Rightarrow> pis_ip6_privacy p)\<rparr>"

lemmas ip_field_reads = ip_view_simps setting_text_def setting_strings_def setting_bool_def setting_i32_def
  insert_optional_get set_clearable_get clearable_text_def kept_def kept_text_def nonempty_def

lemma ipv4_advanced_view:
  "ip_view (insert_optional ''dad-timeout'' (map_option DI32 (au_ipv4_dad_timeout a))
     (insert_flags [(''never-default'', au_ipv4_never_default a),
                    (''ignore-auto-routes'', au_ipv4_ignore_auto_routes a), (''may-fail'', au_ipv4_may_fail a)]
       (set_clearable ''dhcp-hostname'' (clearable_text (au_ipv4_dhcp_hostname a))
         (set_clearable ''dhcp-client-id'' (clearable_text (au_ipv4_dhcp_client_id a)) d)))) ''ipv4'' =
   advanced_ipv4 a (ip_view d ''ipv4'')"
  unfolding insert_flags_three advanced_ipv4_def
  by (rule profile_ip_eqI) (simp_all add: ip_field_reads split: option.splits)

lemma ipv6_advanced_view:
  "ip_view ((case au_ipv6_privacy a of Some p \<Rightarrow> hm_insert ''ip6-privacy'' (DI32 p) | None \<Rightarrow> id)
     (insert_flags [(''never-default'', au_ipv6_never_default a),
         (''ignore-auto-routes'', au_ipv6_ignore_auto_routes a), (''may-fail'', au_ipv6_may_fail a)] d)) ''ipv6'' =
   advanced_ipv6 a (ip_view d ''ipv6'')"
  unfolding insert_flags_three advanced_ipv6_def
  by (rule profile_ip_eqI) (simp_all add: ip_field_reads update_conv' split: option.splits)

lemma ipv4_fields_view:
  "ip_view (ipv4_fields u d) ''ipv4'' = advanced_ipv4 (wu_advanced u) (replaced_ip (wu_ipv4 u) (ip_view d ''ipv4''))"
  by (simp add: ipv4_fields_def Let_def ipv4_advanced_view replaced_view hostname_view)

lemma ipv6_fields_view:
  "ip_view (ipv6_fields u d) ''ipv6'' = advanced_ipv6 (wu_advanced u) (replaced_ip (wu_ipv6 u) (ip_view d ''ipv6''))"
  by (simp add: ipv6_fields_def Let_def ipv6_advanced_view replaced_view hostname_view)

lemma ip_fields_hostname:
  "setting_bool (ipv4_fields u d) ''dhcp-send-hostname'' = Some (wu_send_hostname u)"
  "setting_bool (ipv6_fields u d) ''dhcp-send-hostname'' = Some (wu_send_hostname u)"
  by (simp_all add: ipv4_fields_def ipv6_fields_def Let_def insert_flags_three setting_bool_def insert_optional_get
      set_clearable_get replaced_section_other REPLACED_KEYS_def hostname_fields_get update_conv' split: option.splits)

text \<open>
  What the editor shows after an update of everything but the security of the profile: the fields it sets,
  the rest as it was. The policy for the MAC address and the cloned address are one property, so that
  the address counts, when both are given.
\<close>

definition MAC_POLICIES :: "string set" where
  "MAC_POLICIES = {''default'', ''stable'', ''random'', ''permanent''}"

definition assigned_mac :: "wifi_profile_update \<Rightarrow> string" where
  "assigned_mac u = (case au_cloned_mac_address (wu_advanced u) of
     Some c \<Rightarrow> if c = [] then ''default'' else c | None \<Rightarrow> wu_mac_address_policy u)"

definition updated_details :: "wifi_profile_update \<Rightarrow> wifi_profile_details \<Rightarrow> wifi_profile_details \<Rightarrow> bool" where
  "updated_details u d d' \<longleftrightarrow>
     (let a = wu_advanced u
      in (wd_path d', wd_id d', wd_uuid d', wd_ssid d') = (wd_path d, wd_id d, wd_uuid d, wd_ssid d)
         \<and> wd_autoconnect d' = wu_autoconnect u \<and> wd_hidden d' = wu_hidden u
         \<and> wd_send_hostname d' = wu_send_hostname u \<and> metered_code (wd_metered d') = metered_code (wu_metered u)
         \<and> wd_autoconnect_priority d' = kept (au_autoconnect_priority a) (wd_autoconnect_priority d)
         \<and> wd_casting_enabled d' = kept (au_casting_enabled a) (wd_casting_enabled d)
         \<and> wd_permissions d' = kept (au_permissions a) (wd_permissions d)
         \<and> wd_secondaries d' = kept (au_secondaries a) (wd_secondaries d)
         \<and> wd_firewall_zone d' = kept_text (au_firewall_zone a) (wd_firewall_zone d)
         \<and> wd_mac_address d' = kept_text (au_mac_address a) (wd_mac_address d)
         \<and> wd_bssid d' = kept_text (au_bssid a) (wd_bssid d)
         \<and> wd_mac_address_policy d' = assigned_mac u
         \<and> wd_cloned_mac_address d' = (if assigned_mac u \<in> MAC_POLICIES then None else Some (assigned_mac u))
         \<and> wd_mode d' = (case au_mode a of None \<Rightarrow> wd_mode d
                         | Some m \<Rightarrow> if m = [] then ''infrastructure'' else m)
         \<and> wd_mtu d' = (case au_mtu a of None \<Rightarrow> wd_mtu d | Some n \<Rightarrow> positive (Some n))
         \<and> wd_band d' = kept (au_band a) (wd_band d)
         \<and> wd_channel d' = (case au_channel a of
              Some c \<Rightarrow> positive (Some c)
            | None \<Rightarrow> if au_band a = Some BandAuto then None else wd_channel d)
         \<and> wd_ipv4 d' = advanced_ipv4 a (replaced_ip (wu_ipv4 u) (wd_ipv4 d))
         \<and> wd_ipv6 d' = advanced_ipv6 a (replaced_ip (wu_ipv6 u) (wd_ipv6 d)))"

lemma details_fields:
  assumes "wifi_profile_details_of debug path s = Inr d"
    and "hm_get s ''connection'' = Some c" "hm_get s ''802-11-wireless'' = Some w"
  shows
    "wd_path d = path"
    "wd_id d = (case setting_text c ''id'' of Some i \<Rightarrow> i | None \<Rightarrow> path)"
    "wd_uuid d = text_or_empty (setting_text c ''uuid'')"
    "wd_ssid d = display_ssid (case Option.bind (hm_get w ''ssid'') setting_bytes of Some b \<Rightarrow> b | None \<Rightarrow> [])"
    "wd_autoconnect d = (case setting_bool c ''autoconnect'' of Some b \<Rightarrow> b | None \<Rightarrow> True)"
    "wd_autoconnect_priority d = (case setting_i32 c ''autoconnect-priority'' of Some p \<Rightarrow> p | None \<Rightarrow> 0)"
    "wd_metered d = metered_from_settings c"
    "wd_hidden d = (case setting_bool w ''hidden'' of Some b \<Rightarrow> b | None \<Rightarrow> False)"
    "wd_mac_address d = text_of w ''mac-address''"
    "wd_bssid d = text_of w ''bssid''"
    "wd_mac_address_policy d = pp_mac_address_policy (privacy_from_settings s)"
    "wd_cloned_mac_address d = Option.bind (setting_text w ''assigned-mac-address'') (\<lambda>a.
       if a \<in> {''default'', ''stable'', ''random'', ''permanent''} then None else Some a)"
    "wd_mtu d = positive (setting_u32 w ''mtu'')"
    "wd_mode d = (case text_of w ''mode'' of Some m \<Rightarrow> m | None \<Rightarrow> ''infrastructure'')"
    "wd_band d = (case text_of w ''band'' of Some b \<Rightarrow> band_from_nm_value b | None \<Rightarrow> BandAuto)"
    "wd_channel d = positive (setting_u32 w ''channel'')"
    "wd_send_hostname d = pp_send_hostname (privacy_from_settings s)"
    "wd_casting_enabled d = casting_enabled_from_settings s"
    "wd_permissions d = setting_strings c ''permissions''"
    "wd_firewall_zone d = text_of c ''zone''"
    "wd_secondaries d = setting_strings c ''secondaries''"
    "wd_ipv4 d = ip_view (section_of s ''ipv4'') ''ipv4''"
    "wd_ipv6 d = ip_view (section_of s ''ipv6'') ''ipv6''"
proof -
  have typed: "wifi_typed c"
    using assms by (auto simp: wifi_profile_details_of_def saved_wifi_connection_from_settings_def split: if_splits)
  have d: "d = (case wifi_profile_details_of debug path s of Inr d \<Rightarrow> d | Inl _ \<Rightarrow> undefined)"
    using assms(1) by simp
  note run = wifi_profile_details_of_def saved_wifi_connection_from_settings_def assms(2,3) typed bind.bind_lunit
    Let_def simp_thms if_False if_True option.case sum.case saved_wifi_connection.simps wifi_profile_details.simps
    section_of_get [OF assms(2)] section_of_get [OF assms(3)] profile_ip_view
  show
    "wd_path d = path"
    "wd_id d = (case setting_text c ''id'' of Some i \<Rightarrow> i | None \<Rightarrow> path)"
    "wd_uuid d = text_or_empty (setting_text c ''uuid'')"
    "wd_ssid d = display_ssid (case Option.bind (hm_get w ''ssid'') setting_bytes of Some b \<Rightarrow> b | None \<Rightarrow> [])"
    "wd_autoconnect d = (case setting_bool c ''autoconnect'' of Some b \<Rightarrow> b | None \<Rightarrow> True)"
    "wd_autoconnect_priority d = (case setting_i32 c ''autoconnect-priority'' of Some p \<Rightarrow> p | None \<Rightarrow> 0)"
    "wd_metered d = metered_from_settings c"
    "wd_hidden d = (case setting_bool w ''hidden'' of Some b \<Rightarrow> b | None \<Rightarrow> False)"
    "wd_mac_address d = text_of w ''mac-address''"
    "wd_bssid d = text_of w ''bssid''"
    "wd_mac_address_policy d = pp_mac_address_policy (privacy_from_settings s)"
    "wd_cloned_mac_address d = Option.bind (setting_text w ''assigned-mac-address'') (\<lambda>a.
       if a \<in> {''default'', ''stable'', ''random'', ''permanent''} then None else Some a)"
    "wd_mtu d = positive (setting_u32 w ''mtu'')"
    "wd_mode d = (case text_of w ''mode'' of Some m \<Rightarrow> m | None \<Rightarrow> ''infrastructure'')"
    "wd_band d = (case text_of w ''band'' of Some b \<Rightarrow> band_from_nm_value b | None \<Rightarrow> BandAuto)"
    "wd_channel d = positive (setting_u32 w ''channel'')"
    "wd_send_hostname d = pp_send_hostname (privacy_from_settings s)"
    "wd_casting_enabled d = casting_enabled_from_settings s"
    "wd_permissions d = setting_strings c ''permissions''"
    "wd_firewall_zone d = text_of c ''zone''"
    "wd_secondaries d = setting_strings c ''secondaries''"
    "wd_ipv4 d = ip_view (section_of s ''ipv4'') ''ipv4''"
    "wd_ipv6 d = ip_view (section_of s ''ipv6'') ''ipv6''"
    unfolding d by (simp_all only: run)
qed

lemma details_exist:
  "(\<exists>d. wifi_profile_details_of debug path s = Inr d) \<longleftrightarrow>
     (\<exists>c w. hm_get s ''connection'' = Some c \<and> hm_get s ''802-11-wireless'' = Some w \<and> wifi_typed c)"
  by (auto simp: wifi_profile_details_of_def saved_wifi_connection_from_settings_def Let_def split: bind_splits if_splits option.splits)

lemma metered_reads:
  "metered_code m = Inr code \<Longrightarrow> setting_u32 c ''metered'' = Some code \<Longrightarrow> metered_code (metered_from_settings c) = Inr code"
  by (auto simp: metered_code_def metered_from_settings_def split: if_splits)

lemma casting_reads:
  assumes "hm_get s' ''connection'' = Some (connection_fields u m (section_of s ''connection''))"
  shows "casting_enabled_from_settings s' = kept (au_casting_enabled (wu_advanced u)) (casting_enabled_from_settings s)"
proof (cases "au_casting_enabled (wu_advanced u)")
  case None
  then have "hm_get (connection_fields u m (section_of s ''connection'')) ''mdns'' = hm_get (section_of s ''connection'') ''mdns''"
    by (simp add: connection_fields_get Let_def field_gets)
  with assms None show ?thesis
    by (simp add: casting_enabled_from_settings_def mdns_policy_def kept_def section_of_def split: option.splits)
next
  case (Some b)
  with assms show ?thesis
    by (simp add: casting_enabled_from_settings_def mdns_policy_def kept_def connection_fields_get Let_def)
qed

lemma wireless_reads:
  "text_of (wireless_fields u d) ''bssid'' = kept_text (au_bssid (wu_advanced u)) (text_of d ''bssid'')"
  "text_of (wireless_fields u d) ''mac-address'' = kept_text (au_mac_address (wu_advanced u)) (text_of d ''mac-address'')"
  "text_of (wireless_fields u d) ''mode'' = kept_text (au_mode (wu_advanced u)) (text_of d ''mode'')"
  "setting_bool (wireless_fields u d) ''hidden'' = Some (wu_hidden u)"
  "setting_u32 (wireless_fields u d) ''mtu'' = (case au_mtu (wu_advanced u) of Some n \<Rightarrow> Some n | None \<Rightarrow> setting_u32 d ''mtu'')"
  "hm_get (wireless_fields u d) ''ssid'' = hm_get d ''ssid''"
  unfolding text_of_def
  using read_cong(1) [OF wireless_texts(1)] read_cong(1) [OF wireless_texts(2)] read_cong(1) [OF wireless_texts(3)]
  by (simp_all add: clearable_text_read setting_bool_def setting_u32_def wireless_texts(4,5) wireless_keeps split: option.splits)

lemma band_reads:
  "(case text_of (wireless_fields u d) ''band'' of Some b \<Rightarrow> band_from_nm_value b | None \<Rightarrow> BandAuto) =
     kept (au_band (wu_advanced u)) (case text_of d ''band'' of Some b \<Rightarrow> band_from_nm_value b | None \<Rightarrow> BandAuto)"
proof (cases "au_band (wu_advanced u)")
  case None
  then show ?thesis by (simp add: text_of_def setting_text_def wireless_band kept_def)
next
  case (Some b)
  then show ?thesis
    by (cases b) (simp_all add: text_of_def setting_text_def wireless_band kept_def nonempty_def band_from_nm_value_def)
qed

lemma mac_reads:
  assumes "hm_get s' ''802-11-wireless'' = Some (wireless_fields u d)"
  shows "pp_mac_address_policy (privacy_from_settings s') = assigned_mac u"
    "Option.bind (setting_text (wireless_fields u d) ''assigned-mac-address'') (\<lambda>a.
       if a \<in> {''default'', ''stable'', ''random'', ''permanent''} then None else Some a) =
     (if assigned_mac u \<in> MAC_POLICIES then None else Some (assigned_mac u))"
  using assms
  by (simp_all add: privacy_from_settings_def Let_def setting_text_def wireless_mac assigned_mac_def MAC_POLICIES_def
      split: option.splits)

lemma channel_reads:
  "positive (setting_u32 (wireless_fields u d) ''channel'') =
     (case au_channel (wu_advanced u) of
        Some c \<Rightarrow> positive (Some c)
      | None \<Rightarrow> if au_band (wu_advanced u) = Some BandAuto then None else positive (setting_u32 d ''channel''))"
proof -
  have band: "(b \<noteq> None \<and> Option.bind b band_nm_value = None) = (b = Some BandAuto)" for b
  proof (cases b)
    case (Some x)
    then show ?thesis by (cases x) simp_all
  qed simp
  show ?thesis
    unfolding setting_u32_def wireless_band band
    by (cases "au_channel (wu_advanced u)") (simp_all add: positive_def)
qed


section \<open>Replaced secrets\<close>

definition secret_value :: "string \<Rightarrow> string \<Rightarrow> dbus_value" where
  "secret_value key v = (if key = ''password-raw'' then DArr (map DU8 v) else DStr v)"

lemma system_flags: "f AND NOT_SAVED = 0 \<Longrightarrow> (f AND NOT AGENT_OWNED) AND 3 = 0" for f :: u32
proof -
  have "NOT AGENT_OWNED AND 3 = (NOT_SAVED :: u32)" by (simp add: AGENT_OWNED_def NOT_SAVED_def)
  then show "f AND NOT_SAVED = 0 \<Longrightarrow> (f AND NOT AGENT_OWNED) AND 3 = 0" by (simp add: and.assoc)
qed

lemma write_one:
  assumes "set_system_owned s sec key = Inr s1" "set_text s1 sec key v = Inr s2" "sec \<in> credential_sections"
  obtains d f where "hm_get s sec = Some d" "f AND 3 = 0" "key \<in> set (known_keys sec)"
    "hm_get s2 sec = Some (hm_insert key (secret_value key v) (hm_insert (flags_key key) (DU32 f) d))"
proof -
  have sec: "sec \<noteq> ''vpn''" "sec \<noteq> ''wireguard''" using assms(3) by (auto simp: credential_sections_def)
  from assms(1) sec obtain d f0 where d: "hm_get s sec = Some d" "f0 AND NOT_SAVED = 0"
      "s1 = hm_insert sec (hm_insert (flags_key key) (DU32 (f0 AND NOT AGENT_OWNED)) d) s"
    by (auto simp: set_system_owned_def and_then_Inr_iff Let_def split: if_splits option.splits)
  with assms(2) sec have "key \<in> set (known_keys sec)"
    "hm_get s2 sec = Some (hm_insert key (secret_value key v) (hm_insert (flags_key key) (DU32 (f0 AND NOT AGENT_OWNED)) d))"
    by (auto simp: set_text_def section_or_default_def secret_value_def update_conv' split: if_splits)
  then show ?thesis using that [OF d(1) system_flags [OF d(2)]] by simp
qed

definition secrets_written :: "(string \<times> string) list \<Rightarrow> section_data \<Rightarrow> section_data \<Rightarrow> bool" where
  "secrets_written kvs d d' \<longleftrightarrow>
     (\<forall>(k, v) \<in> set kvs. hm_get d' k = Some (secret_value k v))
     \<and> (\<forall>k \<in> fst ` set kvs. \<exists>f. hm_get d' (flags_key k) = Some (DU32 f) \<and> f AND 3 = 0)
     \<and> (\<forall>k. k \<notin> fst ` set kvs \<union> flags_key ` fst ` set kvs \<longrightarrow> hm_get d' k = hm_get d k)"

lemma secrets_writtenD:
  assumes "secrets_written kvs d d'"
  shows "(k, v) \<in> set kvs \<Longrightarrow> hm_get d' k = Some (secret_value k v)"
    and "k \<in> fst ` set kvs \<Longrightarrow> \<exists>f. hm_get d' (flags_key k) = Some (DU32 f) \<and> f AND 3 = 0"
    and "k \<notin> fst ` set kvs \<Longrightarrow> k \<notin> flags_key ` fst ` set kvs \<Longrightarrow> hm_get d' k = hm_get d k"
  using assms unfolding secrets_written_def by blast+

lemma secrets_written_step:
  assumes rest: "secrets_written rest (hm_insert key (secret_value key v) (hm_insert (flags_key key) (DU32 f) d)) d'"
    and f: "f AND 3 = 0" and known: "key \<in> set (known_keys sec)" "key \<notin> fst ` set rest"
    and rest_known: "fst ` set rest \<subseteq> set (known_keys sec)"
  shows "secrets_written ((key, v) # rest) d d'"
proof -
  let ?d = "hm_insert key (secret_value key v) (hm_insert (flags_key key) (DU32 f) d)"
  note R = secrets_writtenD [OF rest]
  have nf: "flags_key k \<noteq> key" "flags_key k \<notin> fst ` set rest" for k
    using known_keys_no_flags known(1) rest_known by blast+
  have here: "hm_get d' key = Some (secret_value key v)"
    using R(3) [OF known(2)] nf(1) by (auto simp: update_conv')
  have flag: "\<exists>f. hm_get d' (flags_key key) = Some (DU32 f) \<and> f AND 3 = 0"
  proof (cases "flags_key key \<in> flags_key ` fst ` set rest")
    case True
    then obtain k where "k \<in> fst ` set rest" "flags_key key = flags_key k" by blast
    with R(2) [of k] show ?thesis by simp
  next
    case False
    from R(3) [OF nf(2) this] f nf(1) [of key] show ?thesis by (auto simp: update_conv')
  qed
  have others: "hm_get d' k = hm_get d k"
    if k: "k \<notin> fst ` set ((key, v) # rest)" "k \<notin> flags_key ` fst ` set ((key, v) # rest)" for k
    using R(3) [of k] k by (simp add: update_conv')
  show ?thesis
    unfolding secrets_written_def
  proof (intro conjI ballI allI impI)
    fix kv assume "kv \<in> set ((key, v) # rest)"
    then show "case kv of (k, v) \<Rightarrow> hm_get d' k = Some (secret_value k v)"
      using here R(1) by (cases kv) auto
  next
    fix k assume "k \<in> fst ` set ((key, v) # rest)"
    then consider "k = key" | "k \<in> fst ` set rest" by auto
    then show "\<exists>f. hm_get d' (flags_key k) = Some (DU32 f) \<and> f AND 3 = 0"
      using flag R(2) by cases simp_all
  next
    fix k assume "k \<notin> fst ` set ((key, v) # rest) \<union> flags_key ` fst ` set ((key, v) # rest)"
    then show "hm_get d' k = hm_get d k" by (intro others) blast+
  qed
qed

lemma write_secrets_known:
  "write_secrets sec kvs s = Inr s' \<Longrightarrow> sec \<in> credential_sections \<Longrightarrow> fst ` set kvs \<subseteq> set (known_keys sec)"
proof (induction sec kvs s rule: write_secrets.induct)
  case (2 sec key v rest s)
  then obtain s1 s2 where st: "set_system_owned s sec key = Inr s1" "set_text s1 sec key v = Inr s2"
      "write_secrets sec rest s2 = Inr s'"
    by (auto simp: and_then_Inr_iff)
  then show ?case using "2.IH" [OF st(3) "2.prems"(2)] write_one [OF st(1,2) "2.prems"(2)] by auto
qed simp

lemma write_secrets_written:
  "write_secrets sec kvs s = Inr s' \<Longrightarrow> sec \<in> credential_sections \<Longrightarrow> distinct (map fst kvs) \<Longrightarrow> hm_get s sec = Some d \<Longrightarrow>
     \<exists>d'. hm_get s' sec = Some d' \<and> secrets_written kvs d d'"
proof (induction sec kvs s arbitrary: d rule: write_secrets.induct)
  case (1 sec s)
  then show ?case by (simp add: secrets_written_def)
next
  case (2 sec key v rest s)
  then obtain s1 s2 where st: "set_system_owned s sec key = Inr s1" "set_text s1 sec key v = Inr s2"
      "write_secrets sec rest s2 = Inr s'"
    by (auto simp: and_then_Inr_iff)
  obtain f where f: "f AND 3 = 0" "key \<in> set (known_keys sec)"
    "hm_get s2 sec = Some (hm_insert key (secret_value key v) (hm_insert (flags_key key) (DU32 f) d))"
    using write_one [OF st(1,2) "2.prems"(2)] "2.prems"(4) by auto
  from "2.IH" [OF st(3) "2.prems"(2) _ f(3)] "2.prems"(3) obtain d' where d': "hm_get s' sec = Some d'"
    "secrets_written rest (hm_insert key (secret_value key v) (hm_insert (flags_key key) (DU32 f) d)) d'" by auto
  with secrets_written_step [OF d'(2) f(1,2)] write_secrets_known [OF st(3) "2.prems"(2)] "2.prems"(3) show ?case
    by auto
qed

lemma replacements_distinct: "distinct (map fst (wu_secrets u)) \<Longrightarrow> distinct (map fst (secret_replacements spec u))"
  by (auto simp: secret_replacements_def map_of_eq_None_iff split: option.splits)

text \<open>Replacing the secrets of a profile writes exactly the replacements the update names, into the one
  section that holds the profile's credentials: each is a secret the profile has, non-empty, stored as given
  and owned by the system and saved from then on, and every other property of the profile is as it was. With
  nothing to replace the profile is unchanged.\<close>

theorem profile_secrets_replaced:
  assumes "update_profile_secrets s u = Inr s'" and "distinct (map fst (wu_secrets u))"
  defines "spec \<equiv> profile_secret_spec_of s" and "kvs \<equiv> secret_replacements (profile_secret_spec_of s) u"
  shows "(kvs = [] \<longrightarrow> s' = s)
    \<and> (kvs \<noteq> [] \<longrightarrow> (\<exists>sec d d'. ps_setting_name spec = Some sec \<and> hm_get s sec = Some d \<and> hm_get s' sec = Some d'
         \<and> secrets_written kvs d d' \<and> (\<forall>other. other \<noteq> sec \<longrightarrow> hm_get s' other = hm_get s other)
         \<and> (\<forall>(k, v) \<in> set kvs. k \<in> set (ps_secret_keys spec) \<and> v \<noteq> [])))"
proof (cases "kvs = []")
  case True
  then show ?thesis using assms(1) unfolding kvs_def by (auto simp: update_profile_secrets_def Let_def split: if_splits)
next
  case False
  with assms(1) obtain sec where sec: "ps_setting_name spec = Some sec"
      "try_each (validate_replacement s spec) kvs = Inr ()" "write_secrets sec kvs s = Inr s'"
    unfolding kvs_def spec_def
    by (auto simp: update_profile_secrets_def Let_def and_then_Inr_iff split: option.splits)
  have cs: "sec \<in> credential_sections" using sec(1) profile_secret_section unfolding spec_def by blast
  have "hm_get s sec \<noteq> None"
    using sec(3) False
    by (cases kvs) (auto simp: and_then_Inr_iff set_system_owned_def secret_flags_def split: option.splits)
  then obtain d where d: "hm_get s sec = Some d" by blast
  from write_secrets_written [OF sec(3) cs _ d] replacements_distinct [OF assms(2)]
  obtain d' where d': "hm_get s' sec = Some d'" "secrets_written kvs d d'" unfolding kvs_def by blast
  have "\<forall>(k, v) \<in> set kvs. k \<in> set (ps_secret_keys spec) \<and> v \<noteq> []"
    using sec(2) by (auto simp: try_each_ok validate_replacement_def split: if_splits)
  moreover have "\<forall>other. other \<noteq> sec \<longrightarrow> hm_get s' other = hm_get s other"
    using write_secrets_elsewhere [OF sec(3)] by blast
  ultimately show ?thesis using False sec(1) d d' by blast
qed

section \<open>Examples\<close>

definition no_advanced :: wifi_profile_advanced_update where
  "no_advanced = \<lparr>au_autoconnect_priority = None, au_bssid = None, au_mac_address = None, au_cloned_mac_address = None,
     au_mtu = None, au_mode = None, au_band = None, au_channel = None, au_permissions = None, au_casting_enabled = None,
     au_firewall_zone = None, au_secondaries = None, au_ipv4_dhcp_client_id = None, au_ipv4_dhcp_hostname = None,
     au_ipv4_dad_timeout = None, au_ipv4_never_default = None, au_ipv6_never_default = None,
     au_ipv4_ignore_auto_routes = None, au_ipv6_ignore_auto_routes = None, au_ipv4_may_fail = None,
     au_ipv6_may_fail = None, au_ipv6_privacy = None, au_enterprise = None\<rparr>"

definition automatic_ip :: target_ip_settings where
  "automatic_ip = \<lparr>tis_method = None, tis_addresses = [], tis_gateway = None, tis_dns = [], tis_routes = [],
     tis_route_metric = None, tis_ignore_auto_dns = None, tis_dns_search = []\<rparr>"

definition manual_ip :: target_ip_settings where
  "manual_ip = automatic_ip\<lparr>tis_method := Some ''manual'',
     tis_addresses := [\<lparr>tia_address = ''192.168.1.20'', tia_prefix = 24\<rparr>], tis_gateway := Some ''192.168.1.1''\<rparr>"

definition home_profile :: connection_settings where
  "home_profile = [(''connection'', [(''id'', DStr ''Home''), (''type'', DStr ''802-11-wireless'')]),
     (''802-11-wireless'', [(''ssid'', DArr (map DU8 ''Home'')), (''mtu'', DU32 1400)]),
     (''802-11-wireless-security'', [(''key-mgmt'', DStr ''wpa-psk''), (''psk-flags'', DU32 1)])]"

definition home_update :: wifi_profile_update where
  "home_update = \<lparr>wu_autoconnect = False, wu_metered = ''on'', wu_hidden = True, wu_mac_address_policy = ''random'',
     wu_send_hostname = False, wu_ipv4 = manual_ip, wu_ipv6 = automatic_ip, wu_password = Some ''correct horse'',
     wu_secrets = [], wu_expected_version = None, wu_advanced = no_advanced\<lparr>au_band := Some Band5, au_channel := Some 36\<rparr>\<rparr>"

lemma home_updates: "\<not> isl (mutate_profile (\<lambda>_. []) home_update home_profile)"
  by code_simp

lemma home_shown: "\<exists>d. wifi_profile_details_of (\<lambda>_. []) path home_profile = Inr d \<and> wd_mtu d = Some 1400"
proof -
  have g: "hm_get home_profile ''connection'' = Some [(''id'', DStr ''Home''), (''type'', DStr ''802-11-wireless'')]"
    "hm_get home_profile ''802-11-wireless'' = Some [(''ssid'', DArr (map DU8 ''Home'')), (''mtu'', DU32 1400)]"
    by (simp_all add: home_profile_def)
  have "\<exists>d. wifi_profile_details_of (\<lambda>_. []) path home_profile = Inr d"
    unfolding details_exist using g by (simp add: wifi_typed_def setting_text_def)
  then show ?thesis using details_fields [OF _ g] by (auto simp: positive_def setting_u32_def)
qed


text \<open>The secrets of the example.\<close>

lemma home_secrets: "\<not> isl (update_profile_secrets home_profile home_update)"
  by code_simp

theorem profile_secrets_replaced_witness:
  "\<exists>s' d'. update_profile_secrets home_profile home_update = Inr s' \<and> hm_get s' ''802-11-wireless-security'' = Some d'
     \<and> hm_get d' ''psk'' = Some (DStr ''correct horse'') \<and> hm_get d' ''key-mgmt'' = Some (DStr ''wpa-psk'')"
proof -
  obtain s' where s': "update_profile_secrets home_profile home_update = Inr s'"
    using home_secrets by (cases "update_profile_secrets home_profile home_update") auto
  have spec: "profile_secret_spec_of home_profile =
      \<lparr>ps_kind = ''password'', ps_setting_name = Some ''802-11-wireless-security'', ps_secret_keys = [''psk''], ps_primary = Some ''psk''\<rparr>"
    by code_simp
  have kvs: "secret_replacements (profile_secret_spec_of home_profile) home_update = [(''psk'', ''correct horse'')]"
    by (simp add: spec secret_replacements_def home_update_def nonempty_def)
  have none: "distinct (map fst (wu_secrets home_update))" by (simp add: home_update_def)
  from profile_secrets_replaced [OF s' none, unfolded kvs]
  obtain d d' where d: "hm_get home_profile ''802-11-wireless-security'' = Some d"
      "hm_get s' ''802-11-wireless-security'' = Some d'" "secrets_written [(''psk'', ''correct horse'')] d d'"
    by (auto simp: spec)
  have "hm_get d' ''psk'' = Some (DStr ''correct horse'')" "hm_get d' ''key-mgmt'' = hm_get d ''key-mgmt''"
    using secrets_writtenD [OF d(3)] by (auto simp: secret_value_def flags_key_def)
  with s' d(1,2) show ?thesis by (auto simp: home_profile_def)
qed

section \<open>Where the code falls short\<close>

text \<open>
  An update that chooses a MAC address policy and clears the cloned address loses the policy: both are the
  property \<open>assigned-mac-address\<close>, and clearing removes what the policy has just written.
\<close>

theorem clearing_cloned_address_drops_policy:
  assumes "mutate_profile debug u s = Inr s'" and "au_cloned_mac_address (wu_advanced u) = Some []"
  shows "pp_mac_address_policy (privacy_from_settings s') = ''default''"
proof -
  obtain m where "hm_get s' ''802-11-wireless'' = Some (wireless_fields u (section_of s ''802-11-wireless''))"
    using mutate_profile_sections [OF assms(1)] by metis
  with assms(2) show ?thesis
    by (simp add: privacy_from_settings_def Let_def setting_text_def wireless_mac)
qed

text \<open>
  The editor writes a BSSID restriction as text and shows it as text; the matcher of saved profiles reads a
  byte array, so a restriction in the written form does not restrict.
\<close>

theorem written_bssid_not_matched:
  assumes "mutate_profile debug u s = Inr s'" and "au_bssid (wu_advanced u) = Some b" "b \<noteq> []"
    and "match_from_settings s' = Some m"
  shows "wm_bssid_bytes m = None"
proof -
  have w: "hm_get s' ''802-11-wireless'' = Some (wireless_fields u (section_of s ''802-11-wireless''))"
    using mutate_profile_sections [OF assms(1)] by metis
  have "hm_get (wireless_fields u (section_of s ''802-11-wireless'')) ''bssid'' = Some (DStr b)"
    using assms(2,3) by (simp add: wireless_texts set_clearable_get clearable_text_def)
  then show ?thesis
    using assms(4) w
    by (auto simp: match_from_settings_def wifi_settings_section_def setting_bytes_def split: bind_splits if_splits)
qed

end
