(* ===== verification/Profile_Writes.thy ===== *)
theory Profile_Writes
  imports Nm_Io Profile_Update
begin

text \<open>
  Optimistic writes of a saved profile (\<open>src/nm/credential_writer.rs\<close>, the mutation of
  \<open>src/nm/settings.rs\<close>, \<open>src/nm/settings/retention.rs\<close> and \<open>src/nm/settings/casting.rs\<close>) as programs of
  \<open>Nm_Io\<close>: a snapshot at a version, a change, and one \<open>Update2\<close> for exactly the version the snapshot
  leads to. The transaction lock serialises the edits of this process; what other clients do between
  two questions is the environment's.
\<close>

section \<open>Snapshots\<close>

record profile_edit =
  pe_settings :: connection_settings
  pe_original :: connection_settings
  pe_version :: u64
  pe_uuid :: string
  pe_owner :: string
  pe_path :: string
  pe_explicit_remember :: bool

definition owner_is :: "nm \<Rightarrow> string \<Rightarrow> bool io" where
  "owner_is n owner = io_map (\<lambda>o'. o' = owner) (current_owner n)"

definition version_is :: "string \<Rightarrow> u64 \<Rightarrow> bool io" where
  "version_is path v = io_map (\<lambda>v'. v' = v) (version_of path)"

definition profile_uuid :: "connection_settings \<Rightarrow> string option" where
  "profile_uuid settings = Option.bind (hm_get settings ''connection'') (\<lambda>c. setting_string c ''uuid'')"

definition durable_file :: "string \<Rightarrow> bool" where
  "durable_file f \<longleftrightarrow> starts_with ''/etc/NetworkManager/system-connections/'' f"

definition runtime_file :: "string \<Rightarrow> bool" where
  "runtime_file f \<longleftrightarrow> f = [] \<or> starts_with ''/run/NetworkManager/system-connections/'' f"

definition location_supported :: "string \<Rightarrow> bool \<Rightarrow> bool \<Rightarrow> string \<Rightarrow> bool io" where
  "location_supported path explicit_remember unsaved filename =
     (if \<not> unsaved \<and> durable_file filename then io_return True
      else if \<not> explicit_remember then io_return False
      else io_bind (expect reply_u32 (GetProperty path ''Flags'')) (\<lambda>flags.
        io_return (flags AND 4 \<noteq> 0 \<and> runtime_file filename)))"

definition begin_profile_edit :: "nm \<Rightarrow> string \<Rightarrow> bool \<Rightarrow> profile_edit io" where
  "begin_profile_edit n path explicit_remember =
     io_bind (current_owner n) (\<lambda>owner.
     io_then (io_ensure (nm_destination n = owner) ''profile writes require a pinned NM owner'')
     (with_proxy n
     (io_bind (version_of path) (\<lambda>version.
     io_then (io_ensure (version \<noteq> 0) ''NetworkManager profile version is unavailable'')
     (io_bind (expect reply_settings (GetSettings path)) (\<lambda>settings.
     io_bind (io_lift (ok_or (nonempty (profile_uuid settings)) [LContext ''profile UUID missing''])) (\<lambda>uuid.
     io_bind (expect reply_bool (GetProperty path ''Unsaved'')) (\<lambda>unsaved.
     io_bind (expect reply_str (GetProperty path ''Filename'')) (\<lambda>filename.
     io_then (io_require (location_supported path explicit_remember unsaved filename)
        ''refusing implicit persistence of temporary, staged or unsupported-location profiles'')
     (io_then (io_require (io_and (version_is path version) (owner_is n owner))
        ''profile changed during snapshot; retry the explicit edit'')
     (io_return \<lparr>pe_settings = settings, pe_original = settings, pe_version = version, pe_uuid = uuid,
        pe_owner = owner, pe_path = path, pe_explicit_remember = explicit_remember\<rparr>)))))))))))"

section \<open>Committing\<close>

definition validated_storage_version :: "string \<Rightarrow> bool" where
  "validated_storage_version v \<longleftrightarrow> v \<in> {''1.56.0'', ''1.58.1'', ''1.59.2-dev''}"

definition secret_reply_key :: "string \<Rightarrow> string \<Rightarrow> bool" where
  "secret_reply_key sec key \<longleftrightarrow> key \<in> set (known_keys sec)
     \<or> (sec = ''vpn'' \<and> key = ''secrets'') \<or> (sec = ''wireguard'' \<and> key = ''peers'')"

definition validate_secret_reply :: "connection_settings \<Rightarrow> anyhow_error + unit" where
  "validate_secret_reply reply =
     (if list_all (\<lambda>(sec, d). list_all (\<lambda>(k, _). secret_reply_key sec k) d) reply then Inr ()
      else Inl [LContext ''unknown secret schema; no update attempted''])"

definition policy_change :: "connection_settings \<Rightarrow> connection_settings \<Rightarrow> string \<Rightarrow> string \<Rightarrow> anyhow_error + unit" where
  "policy_change original edited sec key =
     and_then (secret_flags original sec key) (\<lambda>before.
     and_then (secret_flags edited sec key) (\<lambda>after.
       if \<not> (before AND NOT_SAVED = 0 \<or> after AND NOT_SAVED \<noteq> 0)
       then Inl [LContext ''refusing to make an existing temporary credential persistent'']
       else if \<not> (after AND AGENT_OWNED = 0 \<or> before AND AGENT_OWNED \<noteq> 0)
       then Inl [LContext ''new agent-owned storage is unsupported'']
       else if \<not> (before AND 4 = 0 \<or> after AND 4 \<noteq> 0)
       then Inl [LContext ''NOT_REQUIRED policy must be preserved during credential replacement'']
       else if before AND AGENT_OWNED \<noteq> 0 \<and> after AND AGENT_OWNED = 0
       then (if starts_with ''wep-key'' key
             then Inl [LContext ''shared WEP agent ownership requires explicit migration'']
             else if secret_text edited sec key = None
             then Inl [LContext ''ownership conversion requires a supplied credential; use explicit migration'']
             else Inr ())
       else Inr ()))"

definition validate_policy_changes :: "connection_settings \<Rightarrow> connection_settings \<Rightarrow> anyhow_error + unit" where
  "validate_policy_changes original edited =
     try_each (\<lambda>sec. try_each (policy_change original edited sec) (known_keys sec))
       (filter (\<lambda>sec. hm_get edited sec \<noteq> None) (map fst original))"

definition merged :: "connection_settings \<Rightarrow> connection_settings \<Rightarrow> anyhow_error + connection_settings" where
  "merged target source = (case merge_secrets target source of (t, r) \<Rightarrow> and_then r (\<lambda>_. Inr t))"

definition checked_inc :: "u64 \<Rightarrow> u64 option" where
  "checked_inc v = (if v = - 1 then None else Some (v + 1))"

definition preserve_step :: "string \<Rightarrow> string \<Rightarrow> connection_settings \<times> u64 \<Rightarrow> (connection_settings \<times> u64) io" where
  "preserve_step path sec st =
     io_bind (io_map_err (\<lambda>_. [LContext ''cannot preserve existing credentials; no update attempted''])
        (expect reply_settings (GetSecrets path sec))) (\<lambda>secrets.
     io_bind (io_lift (ok_or (checked_inc (snd st)) [LContext ''profile version exhausted''])) (\<lambda>expected.
     io_then (io_require (version_is path expected) ''profile changed during secret retrieval; no update attempted'')
     (io_then (io_lift (validate_secret_reply secrets))
     (io_bind (io_lift (merged (fst st) secrets)) (\<lambda>settings. io_return (settings, expected))))))"

definition secret_sections :: "connection_settings \<Rightarrow> string list" where
  "secret_sections patch = map fst (filter (\<lambda>(sec, d). requires_secrets sec d) patch)"

definition preserve_secrets :: "string \<Rightarrow> connection_settings \<Rightarrow> u64 \<Rightarrow> (connection_settings \<times> u64) io" where
  "preserve_secrets path patch version =
     io_bind (io_fold (preserve_step path) (secret_sections patch) (patch, version)) (\<lambda>(settings, version).
     io_bind (io_lift (merged settings patch)) (\<lambda>settings. io_return (settings, version)))"

text \<open>Remembering saves the credentials that are there; ownership and optional ones stay as they are.\<close>

fun remember_values :: "(string \<times> string \<times> string) list \<Rightarrow> connection_settings \<Rightarrow> anyhow_error + connection_settings" where
  "remember_values [] settings = Inr settings"
| "remember_values ((sec, key, _) # vs) settings =
     and_then (secret_flags settings sec key) (\<lambda>old.
       if old AND AGENT_OWNED \<noteq> 0 then Inl [LContext ''agent-owned credentials require explicit migration'']
       else case hm_get settings sec of
              None \<Rightarrow> Inl [LContext ''secret setting missing'']
            | Some d \<Rightarrow> remember_values vs (hm_insert sec (hm_insert (flags_key key) (DU32 (old AND NOT NOT_SAVED)) d) settings))"

definition remember_credentials :: "connection_settings \<Rightarrow> anyhow_error + connection_settings" where
  "remember_credentials settings = and_then (secret_values settings) (\<lambda>vs. remember_values vs settings)"

definition NM_PATH :: string where
  "NM_PATH = ''/org/freedesktop/NetworkManager''"

definition with_existing_secrets :: "profile_edit \<Rightarrow> (connection_settings \<times> u64) io" where
  "with_existing_secrets edit =
     (if has_secrets (pe_settings edit) \<or> pe_explicit_remember edit
      then io_bind (expect reply_str (GetProperty NM_PATH ''Version'')) (\<lambda>running.
        io_then (io_ensure (validated_storage_version running) ''credential writes require a validated NetworkManager version'')
          (preserve_secrets (pe_path edit) (pe_settings edit) (pe_version edit)))
      else io_return (pe_settings edit, pe_version edit))"

definition update_flags :: "bool \<Rightarrow> u32" where
  "update_flags block_autoconnect = 1 OR (if block_autoconnect then 0x20 else 0)"

definition commit_credential_edit :: "nm \<Rightarrow> profile_edit \<Rightarrow> bool \<Rightarrow> unit io" where
  "commit_credential_edit n edit block_autoconnect =
     (let path = pe_path edit
      in with_proxy n
     (io_then (io_require (io_map (\<lambda>b. b \<and> nm_destination n = pe_owner edit) (owner_is n (pe_owner edit)))
        ''NetworkManager changed; edit cancelled'')
     (io_then (io_require (version_is path (pe_version edit)) ''profile changed; edit cancelled'')
     (io_then (io_ensure (profile_uuid (pe_settings edit) = Some (pe_uuid edit)) ''profile identity changed; edit cancelled'')
     (io_then (io_lift (validate_policy_changes (pe_original edit) (pe_settings edit)))
     (io_bind (with_existing_secrets edit) (\<lambda>(settings, version).
     io_bind (io_lift (if pe_explicit_remember edit then remember_credentials settings else Inr settings)) (\<lambda>settings.
     io_then (io_require (io_and (owner_is n (pe_owner edit)) (version_is path version))
        ''profile changed while preserving credentials; no update attempted'')
     (io_then (if pe_explicit_remember edit then io_return ()
               else io_require (io_map Not (expect reply_bool (GetProperty path ''Unsaved'')))
                 ''profile has staged edits; no update attempted'')
     (io_bind (io_map_err (\<lambda>_. [LContext ''NetworkManager did not acknowledge a durable profile update; re-inventory before retrying''])
        (expect reply_dict (Update2 path settings (update_flags block_autoconnect) version))) (\<lambda>_.
     io_require (owner_is n (pe_owner edit)) ''NetworkManager changed after write; verification required'')))))))))))"

section \<open>What a commit asks and writes\<close>

text \<open>The questions that change a saved profile.\<close>

fun is_write :: "nm_call \<Rightarrow> bool" where
  "is_write (Update2 path settings flags version) = True"
| "is_write (Delete path) = True"
| "is_write _ = False"

fun is_delete :: "nm_call \<Rightarrow> bool" where
  "is_delete (Delete path) = True"
| "is_delete _ = False"

lemma delete_is_write: "is_delete c \<Longrightarrow> is_write c"
  by (cases c) simp_all

abbreviation harmless :: "nm_call \<Rightarrow> bool" where
  "harmless c \<equiv> \<not> is_write c"

lemma reads_are_harmless [asks_rules]:
  "asks harmless (owner_is n w)" "asks harmless (version_is path v)" "asks harmless (location_supported path e u f)"
  unfolding owner_is_def version_is_def location_supported_def by (intro asks_rules; simp)+

lemma begin_harmless: "asks harmless (begin_profile_edit n path e)"
  unfolding begin_profile_edit_def by (intro asks_rules) simp_all

lemma preserve_harmless: "asks harmless (preserve_secrets path patch v)"
  unfolding preserve_secrets_def preserve_step_def
  by (intro asks_rules) simp_all

lemma existing_harmless: "asks harmless (with_existing_secrets edit)"
  unfolding with_existing_secrets_def using preserve_harmless by (intro asks_rules) simp_all

text \<open>The questions of a run, without the history it began with.\<close>

definition written :: "nm_history \<Rightarrow> nm_call list" where
  "written h = filter is_write h"

lemma written_simps [simp]: "written (cs @ h) = written cs @ written h" "written [] = []"
  "written (c # h) = (if is_write c then c # written h else written h)"
  by (simp_all add: written_def)

lemma harmless_written: "asks harmless m \<Longrightarrow> m E h = (h', r) \<Longrightarrow> written h' = written h"
proof -
  assume "asks harmless m" "m E h = (h', r)"
  then obtain cs where "h' = cs @ h" "list_all harmless cs" using asks_run by blast
  then show "written h' = written h" by (simp add: written_def filter_empty_conv list_all_iff)
qed

text \<open>Reading the credentials in place: one version step per read, and the public settings are kept.\<close>

definition secret_reads :: "string \<Rightarrow> nm_history \<Rightarrow> nat" where
  "secret_reads path h = length (filter (\<lambda>c. case c of GetSecrets p _ \<Rightarrow> p = path | _ \<Rightarrow> False) h)"

lemma secret_reads_simps [simp]:
  "secret_reads path [] = 0"
  "secret_reads path (c # h) = (case c of GetSecrets p _ \<Rightarrow> if p = path then 1 else 0 | _ \<Rightarrow> 0) + secret_reads path h"
  by (auto simp: secret_reads_def split: nm_call.split)

lemma merged_ok: "merged t s = Inr t' \<longleftrightarrow> merge_secrets t s = (t', Inr ())"
  by (cases "merge_secrets t s") (auto simp: merged_def and_then_Inr_iff)

lemma checked_inc_ok: "checked_inc v = Some w \<Longrightarrow> w = v + 1 \<and> unat w = unat v + 1"
  using unatSuc [of v] by (auto simp: checked_inc_def add.commute eq_neg_iff_add_eq_0 split: if_splits)

lemma preserve_step_ok:
  assumes "preserve_step path sec (s, v) E h = (h', Inr (s', v'))"
  obtains secrets where "E h (GetSecrets path sec) = Inr (RSettings secrets)" "validate_secret_reply secrets = Inr ()"
    "merge_secrets s secrets = (s', Inr ())" "unat v' = unat v + 1" "secret_reads path h' = secret_reads path h + 1"
    "h' = GetProperty path ''VersionId'' # GetSecrets path sec # h"
    "E (GetSecrets path sec # h) (GetProperty path ''VersionId'') = Inr (RU64 v')"
proof -
  have set: "reply_settings r = Some x \<Longrightarrow> r = RSettings x" and num: "reply_u64 r = Some y \<Longrightarrow> r = RU64 y" for r x y
    by (cases r; simp)+
  have ok: "ok_or x e = Inr y \<longleftrightarrow> x = Some y" for x :: "'z option" and e :: anyhow_error and y
    by (auto simp: ok_or_def split: option.splits)
  from assms show ?thesis
    unfolding preserve_step_def version_is_def
    by (auto simp: io_ok merged_ok ok dest!: set num checked_inc_ok intro!: that)
qed


lemma preserve_fold_ok:
  "io_fold (preserve_step path) secs (s, v) E h = (h', Inr (s', v')) \<Longrightarrow>
     public_kept s' s \<and> unat v' = unat v + length secs \<and> secret_reads path h' = secret_reads path h + length secs"
proof (induction secs arbitrary: s v h)
  case (Cons sec secs)
  from Cons.prems obtain h1 s1 v1 where st: "preserve_step path sec (s, v) E h = (h1, Inr (s1, v1))"
      "io_fold (preserve_step path) secs (s1, v1) E h1 = (h', Inr (s', v'))"
    by (auto simp: io_ok)
  from st(1) obtain secrets where "merge_secrets s secrets = (s1, Inr ())" "unat v1 = unat v + 1"
      "secret_reads path h1 = secret_reads path h + 1"
    by (rule preserve_step_ok)
  with Cons.IH [OF st(2)] merge_secrets_view [of s secrets s1] show ?case by (auto intro: public_kept_trans)
qed (simp add: public_kept_refl)

lemma preserve_secrets_ok:
  assumes "preserve_secrets path patch v E h = (h', Inr (s', v'))"
  shows "public_kept s' patch" "unat v' = unat v + length (secret_sections patch)"
    "secret_reads path h' = secret_reads path h + length (secret_sections patch)"
proof -
  from assms obtain h1 s1 v1 where st: "io_fold (preserve_step path) (secret_sections patch) (patch, v) E h = (h1, Inr (s1, v1))"
      "merge_secrets s1 patch = (s', Inr ())" "v' = v1" "h' = h1"
    unfolding preserve_secrets_def by (auto simp: io_ok merged_ok)
  from preserve_fold_ok [OF st(1)] merge_secrets_view [OF st(2)] st(3,4)
  show "public_kept s' patch" "unat v' = unat v + length (secret_sections patch)"
    "secret_reads path h' = secret_reads path h + length (secret_sections patch)"
    by (auto intro: public_kept_trans)
qed

lemma existing_ok:
  assumes "with_existing_secrets edit E h = (h', Inr (s', v'))"
  shows "public_kept s' (pe_settings edit)" "unat v' - unat (pe_version edit) = secret_reads (pe_path edit) h' - secret_reads (pe_path edit) h"
    "unat (pe_version edit) \<le> unat v'" "secret_reads (pe_path edit) h \<le> secret_reads (pe_path edit) h'"
proof -
  consider "h' = h" "s' = pe_settings edit" "v' = pe_version edit"
    | h1 where "preserve_secrets (pe_path edit) (pe_settings edit) (pe_version edit) E h1 = (h', Inr (s', v'))"
        "h1 = GetProperty NM_PATH ''Version'' # h"
    using assms unfolding with_existing_secrets_def by (auto simp: io_ok split: if_splits)
  then have "public_kept s' (pe_settings edit) \<and> unat v' - unat (pe_version edit) = secret_reads (pe_path edit) h' - secret_reads (pe_path edit) h
      \<and> unat (pe_version edit) \<le> unat v' \<and> secret_reads (pe_path edit) h \<le> secret_reads (pe_path edit) h'"
  proof cases
    case 1
    then show ?thesis by (simp add: public_kept_refl)
  next
    case 2
    with preserve_secrets_ok [OF 2(1)] show ?thesis by simp
  qed
  then show "public_kept s' (pe_settings edit)" "unat v' - unat (pe_version edit) = secret_reads (pe_path edit) h' - secret_reads (pe_path edit) h"
    "unat (pe_version edit) \<le> unat v'" "secret_reads (pe_path edit) h \<le> secret_reads (pe_path edit) h'" by blast+
qed

text \<open>A commit up to its write.\<close>

definition before_update :: "nm \<Rightarrow> profile_edit \<Rightarrow> (connection_settings \<times> u64) io" where
  "before_update n edit =
     (let path = pe_path edit
      in with_proxy n
     (io_then (io_require (io_map (\<lambda>b. b \<and> nm_destination n = pe_owner edit) (owner_is n (pe_owner edit)))
        ''NetworkManager changed; edit cancelled'')
     (io_then (io_require (version_is path (pe_version edit)) ''profile changed; edit cancelled'')
     (io_then (io_ensure (profile_uuid (pe_settings edit) = Some (pe_uuid edit)) ''profile identity changed; edit cancelled'')
     (io_then (io_lift (validate_policy_changes (pe_original edit) (pe_settings edit)))
     (io_bind (with_existing_secrets edit) (\<lambda>(settings, version).
     io_bind (io_lift (if pe_explicit_remember edit then remember_credentials settings else Inr settings)) (\<lambda>settings.
     io_then (io_require (io_and (owner_is n (pe_owner edit)) (version_is path version))
        ''profile changed while preserving credentials; no update attempted'')
     (io_then (if pe_explicit_remember edit then io_return ()
               else io_require (io_map Not (expect reply_bool (GetProperty path ''Unsaved'')))
                 ''profile has staged edits; no update attempted'')
     (io_return (settings, version)))))))))))"

definition at_update :: "nm \<Rightarrow> profile_edit \<Rightarrow> bool \<Rightarrow> connection_settings \<times> u64 \<Rightarrow> unit io" where
  "at_update n edit block_autoconnect = (\<lambda>(settings, version).
     io_bind (io_map_err (\<lambda>_. [LContext ''NetworkManager did not acknowledge a durable profile update; re-inventory before retrying''])
        (expect reply_dict (Update2 (pe_path edit) settings (update_flags block_autoconnect) version))) (\<lambda>_.
     io_require (owner_is n (pe_owner edit)) ''NetworkManager changed after write; verification required''))"

lemma io_bind_assoc: "io_bind (io_bind m f) g = io_bind m (\<lambda>x. io_bind (f x) g)"
  by (auto simp: io_bind_def fun_eq_iff split: prod.splits sum.splits)

lemma io_bind_then: "io_bind (io_then m k) g = io_then m (io_bind k g)"
  by (simp add: io_then_def io_bind_assoc)

lemma io_bind_return: "io_bind (io_return x) f = f x"
  by (simp add: io_bind_def fun_eq_iff)

lemma commit_split: "commit_credential_edit n edit b = io_bind (before_update n edit) (at_update n edit b)"
  unfolding commit_credential_edit_def before_update_def at_update_def Let_def with_proxy_def
  by (simp only: io_bind_then io_bind_assoc io_bind_return split_def fst_conv snd_conv)

lemma before_harmless: "asks harmless (before_update n edit)"
  unfolding before_update_def Let_def using existing_harmless
  by (intro asks_rules) simp_all

section \<open>Edits of a profile by path\<close>

definition io_context :: "string \<Rightarrow> 'a io \<Rightarrow> 'a io" where
  "io_context message m = io_map_err (\<lambda>e. LContext message # e) m"

definition parse_path :: "(string \<Rightarrow> bool) \<Rightarrow> string \<Rightarrow> string io" where
  "parse_path object_path_ok path = io_context ''parse connection path'' (io_lift (object_path_parse object_path_ok path))"

definition reconcile_cast_firewall :: "unit io" where
  "reconcile_cast_firewall =
     io_context ''apply Cast firewall policy (nm-cast-policy system service required)''
       (io_map (\<lambda>_. ()) (io_ask ReconcileCast))"

definition reapply_device_casting :: "nm \<Rightarrow> string \<Rightarrow> bool \<Rightarrow> string \<Rightarrow> unit io" where
  "reapply_device_casting n active_path enabled device_path =
     with_proxy n
     (io_bind (io_context (''read applied settings for '' @ device_path)
        (expect reply_applied (GetAppliedConnection device_path))) (\<lambda>(applied, version).
     io_bind (expect reply_path (GetProperty device_path ''ActiveConnection'')) (\<lambda>current_active.
       if current_active \<noteq> active_path \<or> version = 0
       then io_lift (Inl (into_anyhow (conflict_error OpProfileOperation
              ''Active connection changed while applying Cast discovery; retry'')))
       else if mdns_policy applied = Some (if enabled then 1 else 0) then io_return ()
       else io_context (''reapply Cast discovery on '' @ device_path)
              (io_map (\<lambda>_. ()) (io_ask (Reapply device_path (set_casting_enabled applied enabled) version 1))))))"

definition reapply_active_casting :: "nm \<Rightarrow> string \<Rightarrow> bool \<Rightarrow> string \<Rightarrow> unit io" where
  "reapply_active_casting n profile enabled active_path =
     with_proxy n
     (io_bind (expect reply_path (GetProperty active_path ''Connection'')) (\<lambda>active_profile.
       if active_profile \<noteq> profile then io_return ()
       else io_bind (expect reply_paths (GetProperty active_path ''Devices''))
              (io_each (reapply_device_casting n active_path enabled))))"

definition reapply_casting_resolver :: "nm \<Rightarrow> string \<Rightarrow> bool \<Rightarrow> unit io" where
  "reapply_casting_resolver n profile enabled =
     io_bind (io_context ''read active connections for Cast discovery''
        (expect reply_paths (GetProperty NM_PATH ''ActiveConnections'')))
       (io_each (reapply_active_casting n profile enabled))"

fun join_failures :: "string list \<Rightarrow> string" where
  "join_failures [] = []"
| "join_failures [f] = f"
| "join_failures (f # fs) = f @ ''; '' @ join_failures fs"

definition failure_of :: "anyhow_error + unit \<Rightarrow> string option" where
  "failure_of r = (case r of Inl e \<Rightarrow> Some (render_alternate e) | Inr _ \<Rightarrow> None)"

definition reapply_casting :: "nm \<Rightarrow> string \<Rightarrow> bool \<Rightarrow> unit io" where
  "reapply_casting n profile enabled =
     io_bind (io_try reconcile_cast_firewall) (\<lambda>before.
     io_bind (io_try (reapply_casting_resolver n profile enabled)) (\<lambda>resolver.
     io_bind (io_try reconcile_cast_firewall) (\<lambda>after.
       let failures = List.map_filter failure_of [before, resolver, after]
       in io_ensure (failures = []) (join_failures failures))))"

definition live_update_failed :: "anyhow_error \<Rightarrow> anyhow_error" where
  "live_update_failed e =
     into_anyhow (with_cause (with_detail (with_detail
       (domain_error_new ActivationFailed OpProfileOperation SrcNetworkManager
         (''Profile saved, but live Cast discovery update failed; retry the toggle or reconnect to apply: '' @ render_alternate e))
       ''profile_saved'' (JBool True)) ''live_applied'' (JBool False)) e)"

definition mutate_connection_settings_with_casting ::
    "(string \<Rightarrow> bool) \<Rightarrow> nm \<Rightarrow> string \<Rightarrow> bool option \<Rightarrow> (connection_settings \<Rightarrow> anyhow_error + connection_settings) \<Rightarrow> unit io" where
  "mutate_connection_settings_with_casting object_path_ok n path casting mutate =
     io_bind (parse_path object_path_ok path) (\<lambda>path.
     io_bind (begin_profile_edit n path False) (\<lambda>edit.
       if casting \<noteq> None \<and> saved_wifi_connection_from_settings path (pe_settings edit) = None
       then io_lift (Inl (into_anyhow (validation_error OpProfileOperation ''Cast discovery requires a saved Wi-Fi profile'')))
       else io_bind (io_lift (mutate (pe_settings edit))) (\<lambda>settings.
            io_then (commit_credential_edit n (edit\<lparr>pe_settings := settings\<rparr>) False)
              (case casting of
                 None \<Rightarrow> io_return ()
               | Some enabled \<Rightarrow> io_map_err live_update_failed (reapply_casting n path enabled)))))"

definition set_connection_autoconnect_by_path :: "(string \<Rightarrow> bool) \<Rightarrow> nm \<Rightarrow> string \<Rightarrow> bool \<Rightarrow> unit io" where
  "set_connection_autoconnect_by_path object_path_ok n path autoconnect =
     mutate_connection_settings_with_casting object_path_ok n path None
       (\<lambda>s. Inr (on_section ''connection'' (hm_insert ''autoconnect'' (DBool autoconnect)) s))"

definition set_connection_casting_by_path :: "(string \<Rightarrow> bool) \<Rightarrow> nm \<Rightarrow> string \<Rightarrow> bool \<Rightarrow> unit io" where
  "set_connection_casting_by_path object_path_ok n path enabled =
     mutate_connection_settings_with_casting object_path_ok n path (Some enabled) (\<lambda>s. Inr (set_casting_enabled s enabled))"

definition set_connection_mac_randomization_by_path :: "(string \<Rightarrow> bool) \<Rightarrow> nm \<Rightarrow> string \<Rightarrow> bool \<Rightarrow> unit io" where
  "set_connection_mac_randomization_by_path object_path_ok n path randomized =
     mutate_connection_settings_with_casting object_path_ok n path None
       (\<lambda>s. Inr (apply_mac_address_policy s (if randomized then ''stable'' else ''permanent'')))"

definition set_connection_send_hostname_by_path :: "(string \<Rightarrow> bool) \<Rightarrow> nm \<Rightarrow> string \<Rightarrow> bool \<Rightarrow> unit io" where
  "set_connection_send_hostname_by_path object_path_ok n path enabled =
     mutate_connection_settings_with_casting object_path_ok n path None
       (\<lambda>s. Inr (set_send_hostname (set_send_hostname s ''ipv4'' enabled) ''ipv6'' enabled))"

definition update_wifi_profile_by_path ::
    "(dbus_value \<Rightarrow> string) \<Rightarrow> (string \<Rightarrow> bool) \<Rightarrow> nm \<Rightarrow> string \<Rightarrow> wifi_profile_update \<Rightarrow> unit io" where
  "update_wifi_profile_by_path debug object_path_ok n path u =
     io_then (io_lift (validate_profile_update u))
       (mutate_connection_settings_with_casting object_path_ok n path (au_casting_enabled (wu_advanced u)) (mutate_profile debug u))"

definition connection_settings_of :: "nm \<Rightarrow> string \<Rightarrow> connection_settings io" where
  "connection_settings_of n path =
     with_proxy n (io_context (''GetSettings for '' @ path) (expect reply_settings (GetSettings path)))"

definition saved_connections :: "string list io" where
  "saved_connections = io_context ''ListConnections'' (expect reply_paths ListConnections)"

definition saved_wifi_connection_by_path :: "nm \<Rightarrow> string \<Rightarrow> saved_wifi_connection io" where
  "saved_wifi_connection_by_path n path =
     io_bind (connection_settings_of n path) (\<lambda>settings.
       io_lift (ok_or (saved_wifi_connection_from_settings path settings) (not_saved_profile path)))"

definition wifi_profile_details_by_path ::
    "(dbus_value \<Rightarrow> string) \<Rightarrow> (string \<Rightarrow> bool) \<Rightarrow> nm \<Rightarrow> string \<Rightarrow> wifi_profile_details io" where
  "wifi_profile_details_by_path debug object_path_ok n path =
     io_bind (parse_path object_path_ok path) (\<lambda>path.
     io_bind (connection_settings_of n path) (\<lambda>settings.
       io_lift (wifi_profile_details_of debug path settings)))"

section \<open>Retention\<close>

definition connection_remembered :: "nm \<Rightarrow> string \<Rightarrow> bool io" where
  "connection_remembered n path =
     with_proxy n
     (io_bind (expect reply_bool (GetProperty path ''Unsaved'')) (\<lambda>unsaved.
     io_bind (expect reply_u32 (GetProperty path ''Flags'')) (\<lambda>flags.
       io_return (\<not> unsaved \<and> flags AND 4 = 0))))"

definition agent_owned_free :: "connection_settings \<Rightarrow> anyhow_error + unit" where
  "agent_owned_free settings =
     try_each (\<lambda>sec. try_each (\<lambda>key. and_then (secret_flags settings sec key) (\<lambda>f.
        if f AND AGENT_OWNED = 0 then Inr ()
        else Inl [LContext ''agent-owned credentials require explicit migration before remembering'']))
       (known_keys sec)) (map fst settings)"

definition forget_flags :: u32 where
  "forget_flags = 0x2 OR 0x10 OR 0x20 OR 0x40"

definition set_connection_remember_by_path :: "(string \<Rightarrow> bool) \<Rightarrow> nm \<Rightarrow> string \<Rightarrow> bool \<Rightarrow> string io" where
  "set_connection_remember_by_path object_path_ok n path remember =
     io_bind (io_lift (object_path_parse object_path_ok path)) (\<lambda>path.
     io_bind (current_owner n) (\<lambda>owner.
     io_then (io_ensure (nm_destination n = owner) ''retention writes require a pinned NM owner'')
     (with_proxy n
     (io_bind (version_of path) (\<lambda>version.
     io_then (io_ensure (version \<noteq> 0) ''NetworkManager profile version is unavailable'')
     (io_bind (saved_wifi_connection_by_path n path) (\<lambda>_.
     io_bind (expect reply_str (GetProperty path ''Filename'')) (\<lambda>filename.
     io_then (io_ensure (durable_file filename \<or> runtime_file filename)
        ''retention is unavailable for externally managed profiles'')
     (io_then (io_require (io_and (owner_is n owner) (version_is path version))
        ''profile changed; retry the explicit retention change'')
     (if remember
      then io_bind (begin_profile_edit n path True) (\<lambda>edit.
           io_then (io_lift (agent_owned_free (pe_settings edit)))
           (io_then (commit_credential_edit n edit False)
           (io_then (io_require (connection_remembered n path) ''NetworkManager did not confirm saved network details'')
             (io_return ''Network details saved for future connections.''))))
      else io_bind (expect reply_dict (Update2 path [] forget_flags version)) (\<lambda>_.
           io_then (io_require (owner_is n owner) ''NetworkManager changed; refresh to verify retention'')
           (io_bind saved_connections (\<lambda>paths.
             if path \<notin> set paths
             then io_return (''Saved network details deleted. Future connections won'' @ [CHR 0x27] @ ''t be remembered.'')
             else io_then (io_require (io_map (\<lambda>f. f AND 4 \<noteq> 0) (expect reply_u32 (GetProperty path ''Flags'')))
                    ''NetworkManager did not confirm deletion on disconnect'')
                    (io_return ''Network details will be deleted when you disconnect.''))))))))))))))"

section \<open>Edits are fenced\<close>

definition no_secret_read :: "nm_call \<Rightarrow> bool" where
  "no_secret_read c \<longleftrightarrow> (case c of GetSecrets _ _ \<Rightarrow> False | _ \<Rightarrow> True)"

lemma no_secret_calls [simp]:
  "no_secret_read GetNameOwner" "no_secret_read (GetProperty p q)" "no_secret_read (GetSettings p)"
  "no_secret_read (Update2 p s f v)"
  by (simp_all add: no_secret_read_def)

lemma reads_no_secret [asks_rules]:
  "asks no_secret_read (owner_is n w)" "asks no_secret_read (version_is path v)"
  "asks no_secret_read (location_supported path e u f)"
  unfolding owner_is_def version_is_def location_supported_def by (intro asks_rules; simp)+

lemma owner_no_secret: "asks no_secret_read (current_owner n)" "asks no_secret_read (ensure_current_owner n)"
  by (intro asks_rules; simp)+

lemma secret_reads_append: "secret_reads path (cs @ h) = secret_reads path cs + secret_reads path h"
  by (simp add: secret_reads_def)

lemma secret_reads_none: "list_all no_secret_read cs \<Longrightarrow> secret_reads path cs = 0"
  by (induction cs) (auto simp: no_secret_read_def split: nm_call.splits)

lemma no_secret_run: "asks no_secret_read m \<Longrightarrow> m E h = (h', r) \<Longrightarrow> secret_reads path h' = secret_reads path h"
  using asks_run [of no_secret_read m E h h' r] by (auto simp: secret_reads_append secret_reads_none)

lemma extends: "asks P m \<Longrightarrow> m E h = (h', r) \<Longrightarrow> \<exists>cs. h' = cs @ h"
  using asks_run by blast

lemma reply_u64_ok: "reply_u64 r = Some v \<longleftrightarrow> r = RU64 v"
  and reply_bool_ok: "reply_bool r = Some b \<longleftrightarrow> r = RBool b"
  and reply_settings_ok: "reply_settings r = Some s \<longleftrightarrow> r = RSettings s"
  and reply_dict_ok: "reply_dict r = Some d \<longleftrightarrow> r = RDict d"
  and reply_str_ok: "reply_str r = Some t \<longleftrightarrow> r = RStr t"
  by (cases r; auto)+

lemmas reply_ok = reply_u64_ok reply_bool_ok reply_settings_ok reply_dict_ok reply_str_ok

lemma version_is_ok: "version_is path v E h = (h', Inr True) \<longleftrightarrow>
    h' = GetProperty path ''VersionId'' # h \<and> E h (GetProperty path ''VersionId'') = Inr (RU64 v)"
  by (auto simp: version_is_def io_ok reply_ok)

lemma owner_is_ok: "owner_is n w E h = (h', Inr True) \<longleftrightarrow> current_owner n E h = (h', Inr w)"
  by (auto simp: owner_is_def io_ok)

lemma location_ok: "location_supported path False unsaved f E h = (h', Inr True) \<longleftrightarrow> h' = h \<and> \<not> unsaved \<and> durable_file f"
  by (auto simp: location_supported_def io_ok)

text \<open>The state of the profile when its write is sent.\<close>

definition stored_durably :: "nm_env \<Rightarrow> string \<Rightarrow> nm_history \<Rightarrow> bool" where
  "stored_durably E path h \<longleftrightarrow>
     (\<exists>f. E h (GetProperty path ''Unsaved'') = Inr (RBool False) \<and>
        E (GetProperty path ''Unsaved'' # h) (GetProperty path ''Filename'') = Inr (RStr f) \<and> durable_file f)"

definition write_ready :: "nm \<Rightarrow> nm_env \<Rightarrow> profile_edit \<Rightarrow> nm_history \<Rightarrow> nm_history \<Rightarrow> u64 \<Rightarrow> bool" where
  "write_ready n E edit h0 h version \<longleftrightarrow>
     (\<exists>h2 h3 cs ds. h3 = ds @ h0 \<and> h2 = cs @ h3 \<and> current_owner n E h3 = (h2, Inr (pe_owner edit)) \<and> h = (if pe_explicit_remember edit then [] else [GetProperty (pe_path edit) ''Unsaved''])
               @ GetProperty (pe_path edit) ''VersionId'' # h2
        \<and> E h2 (GetProperty (pe_path edit) ''VersionId'') = Inr (RU64 version)
        \<and> (\<not> pe_explicit_remember edit \<longrightarrow>
             E (GetProperty (pe_path edit) ''VersionId'' # h2) (GetProperty (pe_path edit) ''Unsaved'') = Inr (RBool False)))"

lemma before_update_ok:
  assumes "before_update n edit E h = (h', Inr (S, V))"
  shows "nm_destination n = pe_owner edit" "profile_uuid (pe_settings edit) = Some (pe_uuid edit)"
    "validate_policy_changes (pe_original edit) (pe_settings edit) = Inr ()"
    "\<not> pe_explicit_remember edit \<Longrightarrow> public_kept S (pe_settings edit)"
    "unat V + secret_reads (pe_path edit) h = unat (pe_version edit) + secret_reads (pe_path edit) h'"
    "write_ready n E edit h h' V"
    "\<exists>h3 h4 S0. with_existing_secrets edit E h3 = (h4, Inr (S0, V)) \<and>
       (if pe_explicit_remember edit then remember_credentials S0 else Inr S0) = Inr S"
proof -
  obtain h1 h2 h3 h4 h5 h6 h7 S0 where run:
      "ensure_current_owner n E h = (h1, Inr ())"
      "owner_is n (pe_owner edit) E h1 = (h2, Inr True)" "nm_destination n = pe_owner edit"
      "version_is (pe_path edit) (pe_version edit) E h2 = (h3, Inr True)"
      "profile_uuid (pe_settings edit) = Some (pe_uuid edit)"
      "validate_policy_changes (pe_original edit) (pe_settings edit) = Inr ()"
      "with_existing_secrets edit E h3 = (h4, Inr (S0, V))"
      "(if pe_explicit_remember edit then remember_credentials S0 else Inr S0) = Inr S"
      "owner_is n (pe_owner edit) E h4 = (h5, Inr True)" "version_is (pe_path edit) V E h5 = (h6, Inr True)"
      "(if pe_explicit_remember edit then io_return ()
               else io_require (io_map Not (expect reply_bool (GetProperty (pe_path edit) ''Unsaved'')))
                 ''profile has staged edits; no update attempted'') E h6 = (h', Inr ())"
    using assms unfolding before_update_def Let_def with_proxy_def
    by (auto simp: io_then_ok io_bind_ok io_require_ok io_map_ok io_ensure_ok io_lift_ok io_and_ok)
  show "nm_destination n = pe_owner edit" "profile_uuid (pe_settings edit) = Some (pe_uuid edit)"
    "validate_policy_changes (pe_original edit) (pe_settings edit) = Inr ()" using run by simp_all
  show "\<exists>h3 h4 S0. with_existing_secrets edit E h3 = (h4, Inr (S0, V)) \<and>
      (if pe_explicit_remember edit then remember_credentials S0 else Inr S0) = Inr S" using run(7,8) by blast
  show "public_kept S (pe_settings edit)" if "\<not> pe_explicit_remember edit"
    using existing_ok(1) [OF run(7)] run(8) that by simp
  have last: "h' = (if pe_explicit_remember edit then [] else [GetProperty (pe_path edit) ''Unsaved'']) @ h6
      \<and> (\<not> pe_explicit_remember edit \<longrightarrow> E h6 (GetProperty (pe_path edit) ''Unsaved'') = Inr (RBool False))"
    using run(11) by (auto simp: io_ok reply_ok split: if_splits)
  have "\<exists>cs. h4 = cs @ h" "\<exists>cs. h5 = cs @ h4"
    using extends [OF owner_no_secret(2) run(1)] extends [OF reads_no_secret(1) run(2)] extends [OF reads_no_secret(2) run(4)]
      extends [OF existing_harmless run(7)] extends [OF reads_no_secret(1) run(9)] by auto
  with run(9,10) last show "write_ready n E edit h h' V"
    by (auto simp: write_ready_def version_is_ok owner_is_ok)
  have same: "secret_reads p h3 = secret_reads p h" "secret_reads p h' = secret_reads p h4" for p
  proof -
    have "secret_reads p h1 = secret_reads p h"
      by (rule no_secret_run [OF owner_no_secret(2) run(1)])
    moreover have "secret_reads p h2 = secret_reads p h1" by (rule no_secret_run [OF reads_no_secret(1) run(2)])
    moreover have "secret_reads p h3 = secret_reads p h2" by (rule no_secret_run [OF reads_no_secret(2) run(4)])
    ultimately show "secret_reads p h3 = secret_reads p h" by simp
    have "secret_reads p h5 = secret_reads p h4" by (rule no_secret_run [OF reads_no_secret(1) run(9)])
    moreover have "secret_reads p h6 = secret_reads p h5" by (rule no_secret_run [OF reads_no_secret(2) run(10)])
    moreover have "secret_reads p h' = secret_reads p h6" using last by (auto split: if_splits)
    ultimately show "secret_reads p h' = secret_reads p h4" by simp
  qed
  show "unat V + secret_reads (pe_path edit) h = unat (pe_version edit) + secret_reads (pe_path edit) h'"
    using existing_ok [OF run(7)] same by simp
qed

lemma begin_ok:
  assumes "begin_profile_edit n path e E h = (h', Inr edit)"
  obtains h0 cs hs where "E h0 (GetProperty path ''VersionId'') = Inr (RU64 (pe_version edit))" "pe_version edit \<noteq> 0"
    "E (GetProperty path ''VersionId'' # h0) (GetSettings path) = Inr (RSettings (pe_settings edit))"
    "h' = cs @ GetSettings path # GetProperty path ''VersionId'' # h0" "\<exists>ds. h0 = ds @ hs"
    "pe_path edit = path" "pe_explicit_remember edit = e" "pe_original edit = pe_settings edit"
    "profile_uuid (pe_settings edit) = Some (pe_uuid edit)" "secret_reads path cs = 0" "secret_reads path h0 = secret_reads path h"
    "current_owner n E h = (hs, Inr (pe_owner edit))" "nm_destination n = pe_owner edit"
    "\<not> e \<longrightarrow> stored_durably E path (GetSettings path # GetProperty path ''VersionId'' # h0)"
proof -
  obtain owner h1 h2 v s unsaved filename h5 h6 h7 where run:
      "current_owner n E h = (h1, Inr owner)" "ensure_current_owner n E h1 = (h2, Inr ())"
      "E h2 (GetProperty path ''VersionId'') = Inr (RU64 v)" "v \<noteq> 0"
      "E (GetProperty path ''VersionId'' # h2) (GetSettings path) = Inr (RSettings s)"
      "nonempty (profile_uuid s) = Some (pe_uuid edit)"
      "h5 = GetProperty path ''Filename'' # GetProperty path ''Unsaved'' # GetSettings path # GetProperty path ''VersionId'' # h2"
      "location_supported path e unsaved filename E h5 = (h6, Inr True)"
      "version_is path v E h6 = (h7, Inr True)" "owner_is n owner E h7 = (h', Inr True)"
      "edit = \<lparr>pe_settings = s, pe_original = s, pe_version = v, pe_uuid = pe_uuid edit, pe_owner = owner, pe_path = path,
         pe_explicit_remember = e\<rparr>" "nm_destination n = owner"
      "E (GetSettings path # GetProperty path ''VersionId'' # h2) (GetProperty path ''Unsaved'') = Inr (RBool unsaved)"
      "E (GetProperty path ''Unsaved'' # GetSettings path # GetProperty path ''VersionId'' # h2) (GetProperty path ''Filename'')
         = Inr (RStr filename)"
    using assms unfolding begin_profile_edit_def with_proxy_def
    by (auto simp: io_ok reply_ok ok_or_def split: option.splits)
  have ext: "\<exists>cs. h6 = cs @ h5 \<and> list_all no_secret_read cs" "\<exists>cs. h7 = cs @ h6 \<and> list_all no_secret_read cs"
      "\<exists>cs. h' = cs @ h7 \<and> list_all no_secret_read cs"
    using asks_run [OF reads_no_secret(3) run(8)] asks_run [OF reads_no_secret(2) run(9)] asks_run [OF reads_no_secret(1) run(10)] .
  then obtain c6 c7 c8 where c: "h' = c8 @ c7 @ c6 @ h5" "list_all no_secret_read (c8 @ c7 @ c6)" by auto
  have pre: "\<exists>cs. h1 = cs @ h \<and> list_all no_secret_read cs" "\<exists>cs. h2 = cs @ h1 \<and> list_all no_secret_read cs"
    using asks_run [OF owner_no_secret(1) run(1)] asks_run [OF owner_no_secret(2) run(2)] .
  then obtain bs ds where d: "h1 = bs @ h" "h2 = ds @ h1" "list_all no_secret_read (ds @ bs)" by auto
  have place: "stored_durably E path (GetSettings path # GetProperty path ''VersionId'' # h2)" if "\<not> e"
    using run(8,13,14) that location_ok by (auto simp: stored_durably_def)
  show ?thesis
  proof (rule that [of h2 "c8 @ c7 @ c6 @ [GetProperty path ''Filename'', GetProperty path ''Unsaved'']" h1])
    have "\<And>y. nonempty x = Some y \<Longrightarrow> x = Some y" for x by (cases x) (auto simp: nonempty_def split: if_splits)
    with run show "profile_uuid (pe_settings edit) = Some (pe_uuid edit)" by (metis profile_edit.select_convs(1))
    show "secret_reads path (c8 @ c7 @ c6 @ [GetProperty path ''Filename'', GetProperty path ''Unsaved'']) = 0"
      using secret_reads_none [OF c(2)] by (simp add: secret_reads_append)
    show "secret_reads path h2 = secret_reads path h"
      using d(1,2) secret_reads_none [OF d(3)] by (simp add: secret_reads_append)
  qed (use run c d place in \<open>simp_all, (metis profile_edit.select_convs)+\<close>)
qed

lemma context_run: "io_context msg m E h = (h', Inr x) \<longleftrightarrow> m E h = (h', Inr x)"
  by (simp add: io_context_def io_map_err_ok)

lemma asks_context [asks_rules]: "asks P m \<Longrightarrow> asks P (io_context msg m)"
  unfolding io_context_def by (rule asks_map_err)

lemma casting_harmless: "asks harmless (reapply_casting n profile enabled)"
proof -
  have "asks harmless reconcile_cast_firewall" unfolding reconcile_cast_firewall_def by (intro asks_rules) simp
  moreover have "asks harmless (reapply_device_casting n a enabled d)" for a d
    unfolding reapply_device_casting_def by (intro asks_rules) simp_all
  then have "asks harmless (reapply_active_casting n profile enabled a)" for a
    unfolding reapply_active_casting_def by (intro asks_rules) simp_all
  then have "asks harmless (reapply_casting_resolver n profile enabled)"
    unfolding reapply_casting_resolver_def by (intro asks_rules) simp_all
  ultimately show ?thesis unfolding reapply_casting_def Let_def by (intro asks_rules)
qed

text \<open>An update that was acknowledged, by the owner of the name, who still owns it afterwards.\<close>

definition update_acknowledged :: "nm \<Rightarrow> nm_env \<Rightarrow> nm_history \<Rightarrow> nm_call \<Rightarrow> string \<Rightarrow> bool" where
  "update_acknowledged n E h w owner \<longleftrightarrow>
     (\<exists>d. E h w = Inr (RDict d)) \<and> (\<exists>h'. current_owner n E (w # h) = (h', Inr owner))"

lemma at_update_run:
  assumes "at_update n edit b (S, V) E h = (h', r)"
  defines "w \<equiv> Update2 (pe_path edit) S (update_flags b) V"
  shows "\<exists>cs. h' = cs @ w # h \<and> list_all harmless cs" "r = Inr () \<Longrightarrow> update_acknowledged n E h w (pe_owner edit)"
proof -
  have own: "asks harmless (io_require (owner_is n (pe_owner edit)) msg)" for msg by (intro asks_rules)
  from assms(1) consider (failed) "h' = w # h" "\<exists>e. r = Inl e"
    | (acked) d where "E h w = Inr (RDict d)"
        "io_require (owner_is n (pe_owner edit)) ''NetworkManager changed after write; verification required'' E (w # h) = (h', r)"
    unfolding at_update_def w_def
    by (auto simp: io_bind_run io_map_err_run expect_run ok_or_def and_then_def reply_ok map_sum_def split: sum.splits option.splits)
  then have "(\<exists>cs. h' = cs @ w # h \<and> list_all harmless cs) \<and> (r = Inr () \<longrightarrow> update_acknowledged n E h w (pe_owner edit))"
  proof cases
    case failed
    then show ?thesis by auto
  next
    case acked
    have "r = Inr () \<Longrightarrow> \<exists>h'. current_owner n E (w # h) = (h', Inr (pe_owner edit))"
      using acked(2) by (auto simp: io_require_ok owner_is_ok)
    with acked(1) show ?thesis using asks_run [OF own acked(2)] by (auto simp: update_acknowledged_def)
  qed
  then show "\<exists>cs. h' = cs @ w # h \<and> list_all harmless cs" "r = Inr () \<Longrightarrow> update_acknowledged n E h w (pe_owner edit)" by blast+
qed

lemma commit_fenced:
  assumes "commit_credential_edit n edit b E h = (h', r)"
  shows "(written h' = written h \<and> isl r) \<or>
    (\<exists>h1 cs ds S V. before_update n edit E h = (h1, Inr (S, V)) \<and> h1 = ds @ h \<and> list_all harmless ds \<and>
       h' = cs @ Update2 (pe_path edit) S (update_flags b) V # h1 \<and> list_all harmless cs \<and>
       (r = Inr () \<longrightarrow> update_acknowledged n E h1 (Update2 (pe_path edit) S (update_flags b) V) (pe_owner edit)))"
proof -
  from assms consider (early) e where "before_update n edit E h = (h', Inl e)" "r = Inl e"
    | (late) h1 S V where "before_update n edit E h = (h1, Inr (S, V))" "at_update n edit b (S, V) E h1 = (h', r)"
    unfolding commit_split io_bind_run by auto
  then show ?thesis
  proof cases
    case early
    then show ?thesis using harmless_written [OF before_harmless] by auto
  next
    case late
    then show ?thesis using asks_run [OF before_harmless late(1)] at_update_run [OF late(2)] by blast
  qed
qed

text \<open>
  A write that nobody overtook. The owner of the bus name was the pinned one at the start of the snapshot
  and is again right before the write. The settings were read at version \<open>v\<close>, when the profile was saved in
  NetworkManager's own directory; the change was applied to them. The version the write names was read
  right before it and is \<open>v\<close> plus one for each of our own reads of the stored credentials in between, the
  profile is still saved, and the public settings sent are those of the change.
\<close>

definition fenced_write ::
    "nm \<Rightarrow> nm_env \<Rightarrow> string \<Rightarrow> (connection_settings \<Rightarrow> anyhow_error + connection_settings) \<Rightarrow> nm_history \<Rightarrow> nm_history
      \<Rightarrow> connection_settings \<Rightarrow> u64 \<Rightarrow> bool" where
  "fenced_write n E path mutate h h1 S V \<longleftrightarrow>
     (\<exists>hs h0 h2 h3 bs cs ds s0 s1 v.
        current_owner n E h = (hs, Inr (nm_destination n)) \<and> h0 = ds @ hs
        \<and> E h0 (GetProperty path ''VersionId'') = Inr (RU64 v) \<and> v \<noteq> 0
        \<and> E (GetProperty path ''VersionId'' # h0) (GetSettings path) = Inr (RSettings s0)
        \<and> stored_durably E path (GetSettings path # GetProperty path ''VersionId'' # h0)
        \<and> mutate s0 = Inr s1 \<and> profile_uuid s1 = profile_uuid s0 \<and> validate_policy_changes s0 s1 = Inr ()
        \<and> public_kept S s1
        \<and> h1 = GetProperty path ''Unsaved'' # GetProperty path ''VersionId'' # h2
        \<and> current_owner n E h3 = (h2, Inr (nm_destination n)) \<and> h2 = cs @ h0 \<and> h3 = bs @ h0
        \<and> E h2 (GetProperty path ''VersionId'') = Inr (RU64 V)
        \<and> E (GetProperty path ''VersionId'' # h2) (GetProperty path ''Unsaved'') = Inr (RBool False)
        \<and> unat V = unat v + secret_reads path cs)"

lemma commit_is_fenced:
  assumes b: "begin_profile_edit n path False E h = (h', Inr edit)" and f: "mutate (pe_settings edit) = Inr s1"
    and u: "before_update n (edit\<lparr>pe_settings := s1\<rparr>) E h' = (h1, Inr (S, V))"
  shows "fenced_write n E path mutate h h1 S V"
proof -
  obtain h0 cs ds hs where B: "E h0 (GetProperty path ''VersionId'') = Inr (RU64 (pe_version edit))" "pe_version edit \<noteq> 0"
    "E (GetProperty path ''VersionId'' # h0) (GetSettings path) = Inr (RSettings (pe_settings edit))"
    "h' = cs @ GetSettings path # GetProperty path ''VersionId'' # h0" "h0 = ds @ hs"
    "pe_path edit = path" "\<not> pe_explicit_remember edit" "pe_original edit = pe_settings edit"
    "profile_uuid (pe_settings edit) = Some (pe_uuid edit)" "secret_reads path cs = 0" "secret_reads path h0 = secret_reads path h"
    "current_owner n E h = (hs, Inr (pe_owner edit))" "nm_destination n = pe_owner edit"
    "stored_durably E path (GetSettings path # GetProperty path ''VersionId'' # h0)"
    by (rule begin_ok [OF b]) blast
  note U = before_update_ok [OF u]
  from U(6) B obtain h2 h3 es fs where W: "h1 = GetProperty path ''Unsaved'' # GetProperty path ''VersionId'' # h2"
      "E h2 (GetProperty path ''VersionId'') = Inr (RU64 V)"
      "E (GetProperty path ''VersionId'' # h2) (GetProperty path ''Unsaved'') = Inr (RBool False)"
      "h3 = es @ h'" "h2 = fs @ h3" "current_owner n E h3 = (h2, Inr (nm_destination n))"
    by (auto simp: write_ready_def)
  let ?q = "[GetSettings path, GetProperty path ''VersionId'']"
  have owner: "current_owner n E h = (hs, Inr (nm_destination n))" using B(12,13) by simp
  have past: "h2 = (fs @ es @ cs @ ?q) @ h0" "h3 = (es @ cs @ ?q) @ h0" using W(4,5) B(4) by simp_all
  have version: "unat V = unat (pe_version edit) + secret_reads path (fs @ es @ cs @ ?q)"
    using U(5) W(1,4,5) B(4,6,10,11) by (simp add: secret_reads_append)
  have change: "profile_uuid s1 = profile_uuid (pe_settings edit)" "validate_policy_changes (pe_settings edit) s1 = Inr ()"
    "public_kept S s1"
    using U(2,3,4) B(7,8,9) by simp_all
  show ?thesis
    unfolding fenced_write_def
    by (intro exI conjI)
      (fact owner B(5) B(1) B(2) B(3) B(14) f change(1) change(2) change(3) W(1) W(6) past(1) past(2) W(2) W(3) version)+
qed

lemma parse_path_run:
  "parse_path valid path E h = (h', r) \<longleftrightarrow> h' = h \<and> r = (if valid path then Inr path
     else Inl [LContext ''parse connection path'', LContext ''invalid object path''])"
  by (auto simp: parse_path_def io_context_def io_map_err_def object_path_parse_def)

lemma mutation_run:
  assumes "mutate_connection_settings_with_casting valid n path casting mutate E h = (h', r)"
  obtains (unparsed) e where "h' = h" "r = Inl e"
    | (unread) e where "begin_profile_edit n path False E h = (h', Inl e)" "r = Inl e"
    | (refused) edit where "begin_profile_edit n path False E h = (h', Inr edit)" "isl r"
    | (run) h1 edit s1 where "begin_profile_edit n path False E h = (h1, Inr edit)" "mutate (pe_settings edit) = Inr s1"
       "io_then (commit_credential_edit n (edit\<lparr>pe_settings := s1\<rparr>) False)
              (case casting of
                 None \<Rightarrow> io_return ()
               | Some enabled \<Rightarrow> io_map_err live_update_failed (reapply_casting n path enabled)) E h1 = (h', r)"
proof (cases "valid path")
  case False
  then show ?thesis using assms unfolding mutate_connection_settings_with_casting_def io_bind_run parse_path_run
    by (intro unparsed) auto
next
  case True
  define k where "k edit = (if casting \<noteq> None \<and> saved_wifi_connection_from_settings path (pe_settings edit) = None
       then io_lift (Inl (into_anyhow (validation_error OpProfileOperation ''Cast discovery requires a saved Wi-Fi profile'')))
       else io_bind (io_lift (mutate (pe_settings edit))) (\<lambda>settings.
            io_then (commit_credential_edit n (edit\<lparr>pe_settings := settings\<rparr>) False)
              (case casting of
                 None \<Rightarrow> io_return ()
               | Some enabled \<Rightarrow> io_map_err live_update_failed (reapply_casting n path enabled))))" for edit
  have "io_bind (begin_profile_edit n path False) k E h = (h', r)"
    using assms True unfolding mutate_connection_settings_with_casting_def io_bind_run [of "parse_path _ _"] parse_path_run k_def by simp
  then consider e where "begin_profile_edit n path False E h = (h', Inl e)" "r = Inl e"
    | h1 edit where "begin_profile_edit n path False E h = (h1, Inr edit)" "k edit E h1 = (h', r)"
    unfolding io_bind_run by blast
  then show ?thesis
  proof cases
    case 1
    then show ?thesis by (rule unread)
  next
    case 2
    show ?thesis
    proof (cases "mutate (pe_settings edit)")
      case (Inl e)
      with 2 have "h' = h1" "isl r" by (auto simp: k_def io_bind_def split: if_splits)
      with 2(1) show ?thesis using refused by blast
    next
      case (Inr s1)
      with 2(2) have "(h' = h1 \<and> isl r) \<or> io_then (commit_credential_edit n (edit\<lparr>pe_settings := s1\<rparr>) False)
              (case casting of
                 None \<Rightarrow> io_return ()
               | Some enabled \<Rightarrow> io_map_err live_update_failed (reapply_casting n path enabled)) E h1 = (h', r)"
        by (auto simp: k_def io_bind_def split: if_splits)
      with 2(1) Inr show ?thesis using refused run by blast
    qed
  qed
qed

lemma mutation_stages:
  assumes "mutate_connection_settings_with_casting valid n path casting mutate E h = (h', r)"
  obtains (early) "written h' = written h" "isl r"
  | (edited) h1 h2 edit s1 q where "begin_profile_edit n path False E h = (h1, Inr edit)" "mutate (pe_settings edit) = Inr s1"
      "commit_credential_edit n (edit\<lparr>pe_settings := s1\<rparr>) False E h1 = (h2, q)" "\<exists>cs. h' = cs @ h2 \<and> list_all harmless cs"
      "r = Inr () \<longrightarrow> q = Inr ()" "isl q \<longrightarrow> h' = h2 \<and> isl r"
proof -
  note begin_w = harmless_written [OF begin_harmless]
  have cast: "asks harmless (case casting of None \<Rightarrow> io_return ()
      | Some enabled \<Rightarrow> io_map_err live_update_failed (reapply_casting n path enabled))"
    using casting_harmless by (cases casting) (auto intro: asks_rules)
  from assms consider (unparsed) e where "h' = h" "r = Inl e"
    | (unread) e where "begin_profile_edit n path False E h = (h', Inl e)" "r = Inl e"
    | (refused) edit where "begin_profile_edit n path False E h = (h', Inr edit)" "isl r"
    | (run) h1 edit s1 where "begin_profile_edit n path False E h = (h1, Inr edit)" "mutate (pe_settings edit) = Inr s1"
       "io_then (commit_credential_edit n (edit\<lparr>pe_settings := s1\<rparr>) False)
              (case casting of
                 None \<Rightarrow> io_return ()
               | Some enabled \<Rightarrow> io_map_err live_update_failed (reapply_casting n path enabled)) E h1 = (h', r)"
    by (rule mutation_run) blast+
  then show ?thesis
  proof cases
    case unparsed
    then show ?thesis by (intro early) simp_all
  next
    case unread
    then show ?thesis using begin_w by (intro early) auto
  next
    case refused
    then show ?thesis using begin_w by (intro early) auto
  next
    case run
    from run(3) consider (failed) e where "commit_credential_edit n (edit\<lparr>pe_settings := s1\<rparr>) False E h1 = (h', Inl e)" "r = Inl e"
      | (more) h2 where "commit_credential_edit n (edit\<lparr>pe_settings := s1\<rparr>) False E h1 = (h2, Inr ())"
          "(case casting of None \<Rightarrow> io_return ()
               | Some enabled \<Rightarrow> io_map_err live_update_failed (reapply_casting n path enabled)) E h2 = (h', r)"
      unfolding io_then_run by blast
    then show ?thesis
    proof cases
      case failed
      then show ?thesis using run by (intro edited [OF run(1,2) failed(1)]) (auto intro!: exI [of _ "[]"])
    next
      case more
      then show ?thesis using run asks_run [OF cast more(2)] by (intro edited [OF run(1,2) more(1)]) auto
    qed
  qed
qed

text \<open>C12. Edits of a profile lose no update. Whatever NetworkManager and the other clients of the bus do between
  two questions, an edit either ends with an error and has written nothing, or sends exactly one durable
  update, to the profile it was asked about. The owner of NetworkManager's name was the pinned one when
  the snapshot began and again right before the update. The settings the update was computed from were read at a version, with the
  profile saved in a file of NetworkManager's own directory; the version the update names was read right before and is that version plus one
  step for each of our own reads of the stored credentials; the profile had no staged edits then, its identity and
  retention policy are kept, and the public settings sent are those of the change (an empty list of tunnel
  peers may be added). It reports success only when the update was acknowledged and the owner was
  still the pinned one afterwards.\<close>

theorem profile_edit_fenced:
  assumes "mutate_connection_settings_with_casting valid n path casting mutate E h = (h', r)"
  shows "(written h' = written h \<and> isl r) \<or>
    (\<exists>h1 cs S V. fenced_write n E path mutate h h1 S V \<and> h' = cs @ Update2 path S 1 V # h1
       \<and> written h' = Update2 path S 1 V # written h
       \<and> (r = Inr () \<longrightarrow> update_acknowledged n E h1 (Update2 path S 1 V) (nm_destination n)))"
  using assms
proof (cases rule: mutation_stages)
  case early
  then show ?thesis by simp
next
  case (edited h1 h2 edit s1 q)
  let ?e = "edit\<lparr>pe_settings := s1\<rparr>"
  have path: "pe_path ?e = path" "pe_owner ?e = nm_destination n" by (rule begin_ok [OF edited(1)]; simp)+
  have flags: "update_flags False = 1" by (simp add: update_flags_def)
  have w1: "written h1 = written h" using harmless_written [OF begin_harmless edited(1)] .
  have wr: "written h' = written h2" using edited(4) by (auto simp: written_def list_all_iff filter_empty_conv)
  from commit_fenced [OF edited(3), unfolded path flags]
  consider "written h2 = written h1" "isl q"
    | h3 cs ds S V where "before_update n ?e E h1 = (h3, Inr (S, V))" "h3 = ds @ h1" "list_all harmless ds"
        "h2 = cs @ Update2 path S 1 V # h3" "list_all harmless cs"
        "q = Inr () \<longrightarrow> update_acknowledged n E h3 (Update2 path S 1 V) (nm_destination n)"
    by blast
  then show ?thesis
  proof cases
    case 1
    with edited(6) w1 show ?thesis by auto
  next
    case 2
    have "fenced_write n E path mutate h h3 S V" using commit_is_fenced edited(1,2) 2(1) by blast
    moreover from edited(4) 2(4) obtain es where "h' = (es @ cs) @ Update2 path S 1 V # h3" by auto
    moreover have "written h' = Update2 path S 1 V # written h"
      using wr w1 2(2-5) by (auto simp: written_def list_all_iff filter_empty_conv)
    moreover have "r = Inr () \<longrightarrow> update_acknowledged n E h3 (Update2 path S 1 V) (nm_destination n)" using edited(5) 2(6) by blast
    ultimately show ?thesis by blast
  qed
qed

section \<open>Stored credentials survive an edit\<close>

text \<open>What the code relies on of \<open>GetSecrets\<close>: a reply has the section asked for and nothing else, each name once.\<close>

definition secret_replies_wf :: "nm_env \<Rightarrow> string \<Rightarrow> bool" where
  "secret_replies_wf E path \<longleftrightarrow>
     (\<forall>h sec R. E h (GetSecrets path sec) = Inr (RSettings R) \<longrightarrow> hm_wf R \<and> (\<forall>(s, d) \<in> set R. s = sec \<and> hm_wf d))"

definition stored :: "connection_settings \<Rightarrow> string \<Rightarrow> string \<Rightarrow> dbus_value option" where
  "stored R sec k = Option.bind (hm_get R sec) (\<lambda>d. hm_get d k)"

lemma merge_one_section:
  assumes "merge_secrets s R = (s', Inr ())" "hm_wf R" "\<forall>(s, d) \<in> set R. s = sec \<and> hm_wf d" "hm_get s sec = Some d"
  shows "\<exists>d'. hm_get s' sec = Some d' \<and>
      (\<forall>k \<in> set (known_keys sec). hm_get d' k = (case stored R sec k of Some x \<Rightarrow> Some x | None \<Rightarrow> hm_get d k))"
proof (cases "hm_get R sec")
  case None
  then have "sec \<notin> fst ` set R" by (simp add: map_of_eq_None_iff)
  then have "hm_get s' sec = hm_get s sec" by (rule merge_secrets_other [OF assms(1)])
  with None assms(4) show ?thesis by (simp add: stored_def)
next
  case (Some kvs)
  from merge_secrets_section [OF assms(1,2) Some assms(4)] obtain d' where
    m: "merge_section sec kvs d = (d', Inr ())" "hm_get s' sec = Some d'" by blast
  have "hm_wf kvs" using assms(3) map_of_SomeD [OF Some] by auto
  with m merge_section_get [OF m(1)] Some show ?thesis by (simp add: stored_def)
qed

lemma preserve_fold_stored:
  assumes "secret_replies_wf E path"
  shows "io_fold (preserve_step path) secs (s, v) E h = (h', Inr (s', v')) \<Longrightarrow> distinct secs \<Longrightarrow>
    (\<forall>sec. sec \<notin> set secs \<longrightarrow> hm_get s' sec = hm_get s sec) \<and>
    (\<forall>sec \<in> set secs. \<forall>d. hm_get s sec = Some d \<longrightarrow> (\<exists>h0 R d'. E h0 (GetSecrets path sec) = Inr (RSettings R)
       \<and> hm_get s' sec = Some d' \<and>
       (\<forall>k \<in> set (known_keys sec). hm_get d' k = (case stored R sec k of Some x \<Rightarrow> Some x | None \<Rightarrow> hm_get d k))))"
proof (induction secs arbitrary: s v h)
  case (Cons sec secs)
  from Cons.prems obtain h1 s1 v1 where st: "preserve_step path sec (s, v) E h = (h1, Inr (s1, v1))"
      "io_fold (preserve_step path) secs (s1, v1) E h1 = (h', Inr (s', v'))"
    by (auto simp: io_ok)
  from st(1) obtain R where R: "E h (GetSecrets path sec) = Inr (RSettings R)" "merge_secrets s R = (s1, Inr ())"
    by (rule preserve_step_ok)
  have wf: "hm_wf R" "\<forall>(s, d) \<in> set R. s = sec \<and> hm_wf d"
    using assms R(1) unfolding secret_replies_wf_def by blast+
  have other: "hm_get s1 x = hm_get s x" if "x \<noteq> sec" for x
    using that wf(2) by (intro merge_secrets_other [OF R(2)]) auto
  from Cons.prems(2) have dist: "distinct secs" "sec \<notin> set secs" by auto
  note IH = Cons.IH [OF st(2) dist(1)]
  have here: "\<exists>h0 R d'. E h0 (GetSecrets path sec) = Inr (RSettings R) \<and> hm_get s' sec = Some d' \<and>
       (\<forall>k \<in> set (known_keys sec). hm_get d' k = (case stored R sec k of Some x \<Rightarrow> Some x | None \<Rightarrow> hm_get d k))"
    if "hm_get s sec = Some d" for d
    using merge_one_section [OF R(2) wf that] R(1) IH dist(2) by metis
  show ?case
  proof (intro conjI ballI allI impI)
    fix x assume "x \<notin> set (sec # secs)"
    then show "hm_get s' x = hm_get s x" using IH other by simp
  next
    fix x d assume x: "x \<in> set (sec # secs)" "hm_get s x = Some d"
    show "\<exists>h0 R d'. E h0 (GetSecrets path x) = Inr (RSettings R) \<and> hm_get s' x = Some d' \<and>
       (\<forall>k \<in> set (known_keys x). hm_get d' k = (case stored R x k of Some x \<Rightarrow> Some x | None \<Rightarrow> hm_get d k))"
    proof (cases "x = sec")
      case True
      with here x show ?thesis by blast
    next
      case False
      with IH x other show ?thesis by simp
    qed
  qed
qed simp

lemma preserved_credentials:
  assumes "preserve_secrets path patch v E h = (h', Inr (S, V))" and "secret_replies_wf E path"
    and "hm_wf patch" "\<forall>(sec, d) \<in> set patch. hm_wf d"
    and "hm_get patch sec = Some d" "requires_secrets sec d"
  shows "\<exists>h0 R d'. E h0 (GetSecrets path sec) = Inr (RSettings R) \<and> hm_get S sec = Some d' \<and>
    (\<forall>k \<in> set (known_keys sec). hm_get d' k = (case hm_get d k of Some x \<Rightarrow> Some x | None \<Rightarrow> stored R sec k))"
proof -
  from assms(1) obtain h1 s1 where st: "io_fold (preserve_step path) (secret_sections patch) (patch, v) E h = (h1, Inr (s1, V))"
      "merge_secrets s1 patch = (S, Inr ())"
    unfolding preserve_secrets_def by (auto simp: io_ok merged_ok)
  have dist: "distinct (secret_sections patch)"
    using assms(3) unfolding secret_sections_def hm_wf_def by (rule distinct_map_filter)
  have "(sec, d) \<in> set patch" by (rule map_of_SomeD [OF assms(5)])
  then have "sec \<in> set (secret_sections patch)" using assms(6) by (force simp: secret_sections_def)
  with preserve_fold_stored [OF assms(2) st(1) dist] assms(5)
  obtain h0 R d1 where R: "E h0 (GetSecrets path sec) = Inr (RSettings R)" "hm_get s1 sec = Some d1"
      "\<forall>k \<in> set (known_keys sec). hm_get d1 k = (case stored R sec k of Some x \<Rightarrow> Some x | None \<Rightarrow> hm_get d k)" by blast
  from merge_secrets_section [OF st(2) assms(3,5) R(2)] obtain d' where
    m: "merge_section sec d d1 = (d', Inr ())" "hm_get S sec = Some d'" by blast
  have "hm_wf d" using assms(4) \<open>(sec, d) \<in> set patch\<close> by auto
  with merge_section_get [OF m(1)] R(3)
  have "\<forall>k \<in> set (known_keys sec). hm_get d' k = (case hm_get d k of Some x \<Rightarrow> Some x | None \<Rightarrow> stored R sec k)"
    by (auto split: option.splits)
  with R(1) m(2) show ?thesis by blast
qed

text \<open>Remembering changes retention flags only.\<close>

lemma remember_values_get:
  "remember_values vs s = Inr s' \<Longrightarrow> hm_get s sec = Some d \<Longrightarrow>
     \<exists>d'. hm_get s' sec = Some d' \<and> (\<forall>k \<in> set (known_keys sec). hm_get d' k = hm_get d k)"
proof (induction vs s arbitrary: d rule: remember_values.induct)
  case (2 sec1 key x vs s)
  then obtain old d1 where d1: "secret_flags s sec1 key = Inr old" "\<not> old AND AGENT_OWNED \<noteq> 0" "hm_get s sec1 = Some d1"
      "remember_values vs (hm_insert sec1 (hm_insert (flags_key key) (DU32 (old AND NOT NOT_SAVED)) d1) s) = Inr s'"
    by (auto simp: and_then_Inr_iff split: if_splits option.splits)
  let ?d = "if sec = sec1 then hm_insert (flags_key key) (DU32 (old AND NOT NOT_SAVED)) d else d"
  have "hm_get (hm_insert sec1 (hm_insert (flags_key key) (DU32 (old AND NOT NOT_SAVED)) d1) s) sec = Some ?d"
    using d1(3) 2(3) by (auto simp: table_simps)
  from 2(1) [OF d1(2-4) this] obtain d' where "hm_get s' sec = Some d'"
    "\<forall>k \<in> set (known_keys sec). hm_get d' k = hm_get ?d k" by blast
  moreover have "hm_get ?d k = hm_get d k" if "k \<in> set (known_keys sec)" for k
    using known_keys_no_flags [OF that, of key] by (simp add: table_simps)
  ultimately show ?case by auto
qed simp

text \<open>C15. An edit that sends credentials, or that asks NetworkManager to remember the profile, drops no fixed
  credential NetworkManager already stores: whenever its update is sent, the update has, in every section of the profile that can
  hold credentials, each fixed credential the edit supplies and, where it supplies none, the one
  NetworkManager returned for that section. (The fixed credentials are the fields with a known name; entries of a
  VPN plugin and the keys of tunnel peers are not among them.) Any other edit sends the settings exactly as the
  edit has them, and these have no credential.\<close>

theorem stored_credentials_survive:
  assumes "commit_credential_edit n edit block E h = (h', r)" and "h' = cs @ Update2 path S f V # ds @ h"
    and "secret_replies_wf E (pe_path edit)" "hm_wf (pe_settings edit)" "\<forall>(sec, d) \<in> set (pe_settings edit). hm_wf d"
  shows "if has_secrets (pe_settings edit) \<or> pe_explicit_remember edit
    then \<forall>sec d. hm_get (pe_settings edit) sec = Some d \<and> requires_secrets sec d \<longrightarrow>
      (\<exists>h0 R d'. E h0 (GetSecrets (pe_path edit) sec) = Inr (RSettings R) \<and> hm_get S sec = Some d' \<and>
        (\<forall>k \<in> set (known_keys sec). hm_get d' k = (case hm_get d k of Some x \<Rightarrow> Some x | None \<Rightarrow> stored R sec k)))
    else S = pe_settings edit"
proof -
  have "written h' \<noteq> written h" unfolding assms(2) by simp
  with commit_fenced [OF assms(1)] obtain h1 cs' ds' S' V' where
    sent: "before_update n edit E h = (h1, Inr (S', V'))" "h1 = ds' @ h" "list_all harmless ds'" "list_all harmless cs'"
      "h' = cs' @ Update2 (pe_path edit) S' (update_flags block) V' # h1" by blast
  have "written h' = Update2 (pe_path edit) S' (update_flags block) V' # written h"
    unfolding sent(5,2) using sent(3,4) by (simp add: written_def list_all_iff filter_empty_conv)
  moreover have "written h' = (written cs @ Update2 path S f V # written ds) @ written h" unfolding assms(2) by simp
  ultimately have "written cs @ Update2 path S f V # written ds = [Update2 (pe_path edit) S' (update_flags block) V']"
    by (metis append_Cons append_Nil append_same_eq)
  then have same: "S' = S" "V' = V" by (cases "written cs"; simp)+
  from before_update_ok(7) [OF sent(1)] obtain h3 h4 S0 where S0: "with_existing_secrets edit E h3 = (h4, Inr (S0, V))"
      "(if pe_explicit_remember edit then remember_credentials S0 else Inr S0) = Inr S"
    unfolding same by blast
  show ?thesis
  proof (cases "has_secrets (pe_settings edit) \<or> pe_explicit_remember edit")
    case False
    with S0 show ?thesis by (auto simp: with_existing_secrets_def io_ok)
  next
    case True
    with S0(1) obtain h5 where p: "preserve_secrets (pe_path edit) (pe_settings edit) (pe_version edit) E h5 = (h4, Inr (S0, V))"
      unfolding with_existing_secrets_def by (auto simp: io_ok)
    have kept: "\<exists>d'. hm_get S sec = Some d' \<and> (\<forall>k \<in> set (known_keys sec). hm_get d' k = hm_get d k)"
      if "hm_get S0 sec = Some d" for sec d
      using S0(2) that remember_values_get
      by (cases "pe_explicit_remember edit") (auto simp: remember_credentials_def and_then_Inr_iff)
    show ?thesis
      unfolding if_P [OF True]
    proof (intro allI impI, elim conjE)
      fix sec d assume "hm_get (pe_settings edit) sec = Some d" "requires_secrets sec d"
      from preserved_credentials [OF p assms(3-5) this] obtain h0 R d0 where
        R: "E h0 (GetSecrets (pe_path edit) sec) = Inr (RSettings R)" "hm_get S0 sec = Some d0"
          "\<forall>k \<in> set (known_keys sec). hm_get d0 k = (case hm_get d k of Some x \<Rightarrow> Some x | None \<Rightarrow> stored R sec k)" by blast
      from kept [OF R(2)] R(1,3) show "\<exists>h0 R d'. E h0 (GetSecrets (pe_path edit) sec) = Inr (RSettings R) \<and> hm_get S sec = Some d' \<and>
        (\<forall>k \<in> set (known_keys sec). hm_get d' k = (case hm_get d k of Some x \<Rightarrow> Some x | None \<Rightarrow> stored R sec k))" by metis
    qed
  qed
qed

section \<open>An edit of a stored profile\<close>

text \<open>NetworkManager with one profile whose version grows with each read of its credentials.\<close>

definition demo_settings :: connection_settings where
  "demo_settings = [(''connection'', [(''uuid'', DStr ''u'')]),
     (''802-11-wireless-security'', [(''key-mgmt'', DStr ''wpa-psk'')])]"

fun demo_env :: nm_env where
  "demo_env h (GetProperty p q) =
     (if q = ''VersionId'' then Inr (RU64 (7 + of_nat (secret_reads ''/1'' h)))
      else if q = ''Unsaved'' then Inr (RBool False)
      else if q = ''Filename'' then Inr (RStr ''/etc/NetworkManager/system-connections/a'')
      else Inr (RStr ''1.56.0''))"
| "demo_env h (GetSettings p) = Inr (RSettings demo_settings)"
| "demo_env h (GetSecrets p sec) = Inr (RSettings [(sec, [(''psk'', DStr ''stored'')])])"
| "demo_env h (Update2 p s f v) = Inr (RDict [])"
| "demo_env h c = Inl []"

definition demo_nm :: nm where
  "demo_nm = \<lparr>nm_destination = '':1.5'', nm_service_name = '':1.5''\<rparr>"

lemma demo_edit: "snd (set_connection_autoconnect_by_path (\<lambda>_. True) demo_nm ''/1'' False demo_env []) = Inr ()"
  by code_simp

definition demo_remember :: profile_edit where
  "demo_remember = \<lparr>pe_settings = demo_settings, pe_original = demo_settings, pe_version = 7, pe_uuid = ''u'',
     pe_owner = '':1.5'', pe_path = ''/1'', pe_explicit_remember = True\<rparr>"

lemma demo_commit: "snd (commit_credential_edit demo_nm demo_remember False demo_env []) = Inr ()"
  by code_simp

theorem profile_edit_fenced_witness:
  "\<exists>h' h1 cs S V. set_connection_autoconnect_by_path (\<lambda>_. True) demo_nm ''/1'' False demo_env [] = (h', Inr ())
     \<and> h' = cs @ Update2 ''/1'' S 1 V # h1 \<and> written h' = [Update2 ''/1'' S 1 V]
     \<and> update_acknowledged demo_nm demo_env h1 (Update2 ''/1'' S 1 V) '':1.5''"
proof -
  obtain h' where run: "set_connection_autoconnect_by_path (\<lambda>_. True) demo_nm ''/1'' False demo_env [] = (h', Inr ())"
    using demo_edit by (metis prod.collapse)
  from profile_edit_fenced [OF run [unfolded set_connection_autoconnect_by_path_def]] obtain h1 cs S V where
    "h' = cs @ Update2 ''/1'' S 1 V # h1" "written h' = Update2 ''/1'' S 1 V # written []"
    "update_acknowledged demo_nm demo_env h1 (Update2 ''/1'' S 1 V) '':1.5''" by (auto simp: demo_nm_def)
  with run show ?thesis by auto
qed

theorem stored_credentials_survive_witness:
  "\<exists>h' cs S V ds d'. commit_credential_edit demo_nm demo_remember False demo_env [] = (h', Inr ())
     \<and> h' = cs @ Update2 ''/1'' S 1 V # ds
     \<and> hm_get S ''802-11-wireless-security'' = Some d' \<and> hm_get d' ''psk'' = Some (DStr ''stored'')"
proof -
  obtain h' where run: "commit_credential_edit demo_nm demo_remember False demo_env [] = (h', Inr ())"
    using demo_commit by (metis prod.collapse)
  from commit_fenced [OF run] obtain cs ds S V where sent: "h' = cs @ Update2 ''/1'' S 1 V # ds @ []"
    by (auto simp: demo_remember_def update_flags_def)
  have wf: "secret_replies_wf demo_env (pe_path demo_remember)" by (simp add: secret_replies_wf_def hm_wf_def)
  have set: "hm_wf (pe_settings demo_remember)" "\<forall>(sec, d) \<in> set (pe_settings demo_remember). hm_wf d"
    by (simp_all add: demo_remember_def demo_settings_def hm_wf_def)
  have sec: "hm_get (pe_settings demo_remember) ''802-11-wireless-security'' = Some [(''key-mgmt'', DStr ''wpa-psk'')]"
    "requires_secrets ''802-11-wireless-security'' [(''key-mgmt'', DStr ''wpa-psk'')]" "pe_explicit_remember demo_remember"
    by (simp add: demo_remember_def demo_settings_def, code_simp, simp add: demo_remember_def)
  have "\<exists>h0 R d'. demo_env h0 (GetSecrets (pe_path demo_remember) ''802-11-wireless-security'') = Inr (RSettings R) \<and>
      hm_get S ''802-11-wireless-security'' = Some d' \<and>
      (\<forall>k \<in> set (known_keys ''802-11-wireless-security''). hm_get d' k =
       (case hm_get [(''key-mgmt'', DStr ''wpa-psk'')] k of Some x \<Rightarrow> Some x | None \<Rightarrow> stored R ''802-11-wireless-security'' k))"
    using stored_credentials_survive [OF run sent wf set] sec by presburger
  then obtain h0 R d' where
    R: "demo_env h0 (GetSecrets ''/1'' ''802-11-wireless-security'') = Inr (RSettings R)"
    "hm_get S ''802-11-wireless-security'' = Some d'"
    "\<forall>k \<in> set (known_keys ''802-11-wireless-security''). hm_get d' k =
       (case hm_get [(''key-mgmt'', DStr ''wpa-psk'')] k of Some x \<Rightarrow> Some x | None \<Rightarrow> stored R ''802-11-wireless-security'' k)"
    by (auto simp: demo_remember_def simp del: demo_env.simps)
  moreover have "''psk'' \<in> set (known_keys ''802-11-wireless-security'')" by code_simp
  ultimately have "hm_get d' ''psk'' = Some (DStr ''stored'')" by (auto simp: stored_def)
  with run R(2) sent show ?thesis by (simp del: append_Nil2) (metis append_Nil2)
qed

end
