(* ===== verification/Devices.thy ===== *)
theory Devices
  imports Profile_Writes "HOL-Library.Product_Lexorder"
begin

text \<open>
  Wi-Fi devices, their access points and the radio switches (\<open>src/nm/devices.rs\<close>, the radio and disconnect
  parts of \<open>src/nm/status.rs\<close>, the profile inventory of \<open>src/nm/settings.rs\<close> and its profiles offered for an
  access point) as programs of \<open>Nm_Io\<close>.
\<close>

section \<open>Devices and access points\<close>

definition io_or :: "'a \<Rightarrow> 'a io \<Rightarrow> 'a io" where
  "io_or dflt m = io_map (\<lambda>r. case r of Inr x \<Rightarrow> x | Inl _ \<Rightarrow> dflt) (io_try m)"

definition io_option :: "'a io \<Rightarrow> 'a option io" where
  "io_option m = io_map (\<lambda>r. case r of Inr x \<Rightarrow> Some x | Inl _ \<Rightarrow> None) (io_try m)"

record wifi_device =
  dev_path :: string
  dev_iface :: string

definition NM_DEVICE_TYPE_WIFI :: u32 where "NM_DEVICE_TYPE_WIFI = 2"
definition NM_DEVICE_TYPE_MODEM :: u32 where "NM_DEVICE_TYPE_MODEM = 8"

definition wifi_device_at :: "nm \<Rightarrow> string \<Rightarrow> wifi_device option io" where
  "wifi_device_at n path =
     with_proxy n
     (io_bind (io_context (''read DeviceType for '' @ path) (expect reply_u32 (GetProperty path ''DeviceType''))) (\<lambda>t.
       if t \<noteq> NM_DEVICE_TYPE_WIFI then io_return None
       else io_bind (io_or path (expect reply_str (GetProperty path ''Interface''))) (\<lambda>iface.
              io_return (Some \<lparr>dev_path = path, dev_iface = iface\<rparr>))))"

definition wifi_devices :: "nm \<Rightarrow> wifi_device list io" where
  "wifi_devices n =
     io_bind (io_context ''GetDevices'' (expect reply_paths GetDevices)) (\<lambda>paths.
       io_fold (\<lambda>path found. io_bind (wifi_device_at n path) (\<lambda>d.
         io_return (case d of Some d \<Rightarrow> found @ [d] | None \<Rightarrow> found))) paths [])"

definition active_path :: "string \<Rightarrow> string option" where
  "active_path path = (if path \<noteq> ''/'' then Some path else None)"

definition active_access_point :: "nm \<Rightarrow> wifi_device \<Rightarrow> string option io" where
  "active_access_point n device =
     with_proxy n (io_map active_path (io_context (''read ActiveAccessPoint for '' @ dev_iface device)
       (expect reply_path (GetProperty (dev_path device) ''ActiveAccessPoint''))))"

definition device_access_points :: "nm \<Rightarrow> wifi_device \<Rightarrow> string list io" where
  "device_access_points n device =
     with_proxy n (io_context (''GetAccessPoints for '' @ dev_iface device)
       (expect reply_paths (GetAccessPoints (dev_path device))))"

definition wifi_mode_label :: "u32 \<Rightarrow> string" where
  "wifi_mode_label mode = (if mode = 1 then ''Ad-Hoc'' else if mode = 2 then ''Infra'' else if mode = 4 then ''Mesh'' else ''N/A'')"

definition SECURITY_FLAG_LABELS :: "(u32 \<times> string) list" where
  "SECURITY_FLAG_LABELS =
     [(0x1, ''pair_wep40''), (0x2, ''pair_wep104''), (0x4, ''pair_tkip''), (0x8, ''pair_ccmp''),
      (0x10, ''group_wep40''), (0x20, ''group_wep104''), (0x40, ''group_tkip''), (0x80, ''group_ccmp''),
      (NM_AP_SEC_KEY_MGMT_PSK, ''psk''), (NM_AP_SEC_KEY_MGMT_802_1X, ''802.1X''), (NM_AP_SEC_KEY_MGMT_SAE, ''sae''),
      (NM_AP_SEC_KEY_MGMT_OWE, ''owe''), (NM_AP_SEC_KEY_MGMT_OWE_TM, ''owe-tm''),
      (NM_AP_SEC_KEY_MGMT_EAP_SUITE_B_192, ''wpa-eap-suite-b-192'')]"

fun join_words :: "string list \<Rightarrow> string" where
  "join_words [] = []"
| "join_words [w] = w"
| "join_words (w # ws) = w @ '' '' @ join_words ws"

definition security_flags_label :: "u32 \<Rightarrow> string" where
  "security_flags_label flags =
     (let labels = map snd (filter (\<lambda>(bit, _). flags AND bit \<noteq> 0) SECURITY_FLAG_LABELS)
      in if join_words labels = [] then ''(none)'' else join_words labels)"

text \<open>\<open>age\<close> computes the age of a sighting from the system's uptime, a floating-point number.\<close>

definition access_point_at :: "(int \<Rightarrow> u64 option) \<Rightarrow> nm \<Rightarrow> wifi_device \<Rightarrow> string \<Rightarrow> bool \<Rightarrow> access_point io" where
  "access_point_at age n device path active =
     (let prop = (\<lambda>conv dflt name. io_or dflt (expect conv (GetProperty path name)))
      in with_proxy n
     (io_bind (io_context (''read Ssid for '' @ path) (expect reply_bytes (GetProperty path ''Ssid''))) (\<lambda>ssid_bytes.
     io_bind (prop reply_u32 0 ''Flags'') (\<lambda>flags.
     io_bind (prop reply_u32 0 ''WpaFlags'') (\<lambda>wpa_flags.
     io_bind (prop reply_u32 0 ''RsnFlags'') (\<lambda>rsn_flags.
     io_bind (prop reply_u32 0 ''Frequency'') (\<lambda>frequency.
     io_bind (prop reply_u32 0 ''Mode'') (\<lambda>mode.
     io_bind (io_or (- 1) (expect reply_i32 (GetProperty path ''LastSeen''))) (\<lambda>last_seen.
     io_bind (io_or 0 (expect reply_u8 (GetProperty path ''Strength''))) (\<lambda>strength.
     io_bind (prop reply_u32 0 ''MaxBitrate'') (\<lambda>max_bitrate.
     io_bind (prop reply_u32 0 ''Bandwidth'') (\<lambda>bandwidth.
     io_bind (io_or [] (expect reply_str (GetProperty path ''HwAddress''))) (\<lambda>bssid.
       io_return \<lparr>ap_ssid = display_ssid ssid_bytes, ap_ssid_bytes = ssid_bytes, ap_active = active,
         ap_security = security_label flags wpa_flags rsn_flags, ap_strength = strength, ap_frequency = frequency,
         ap_channel = frequency_channel frequency, ap_band = frequency_band frequency, ap_mode = wifi_mode_label mode,
         ap_max_bitrate_mbps = max_bitrate div 1000, ap_bandwidth_mhz = bandwidth, ap_ssid_hex = ssid_hex ssid_bytes,
         ap_wpa_flags_label = security_flags_label wpa_flags, ap_rsn_flags_label = security_flags_label rsn_flags,
         ap_bssid = bssid, ap_last_seen = last_seen,
         ap_last_seen_age_ms = (if last_seen < 0 then None else age last_seen), ap_path = path,
         ap_device_path = dev_path device, ap_device_iface = dev_iface device, ap_flags = flags,
         ap_wpa_flags = wpa_flags, ap_rsn_flags = rsn_flags\<rparr>)))))))))))))"

text \<open>An access point that cannot be read, or has no name, is skipped.\<close>

definition read_visible_access_point ::
    "(int \<Rightarrow> u64 option) \<Rightarrow> nm \<Rightarrow> wifi_device \<Rightarrow> string \<Rightarrow> bool \<Rightarrow> access_point option io" where
  "read_visible_access_point age n device path active =
     io_map (\<lambda>r. case r of Inr ap \<Rightarrow> if ap_ssid ap \<noteq> [] then Some ap else None | Inl _ \<Rightarrow> None)
       (io_try (access_point_at age n device path active))"

definition visible_access_points ::
    "(int \<Rightarrow> u64 option) \<Rightarrow> nm \<Rightarrow> wifi_device \<Rightarrow> string option \<Rightarrow> access_point list io" where
  "visible_access_points age n device active =
     io_bind (device_access_points n device) (\<lambda>paths.
       io_fold (\<lambda>path found. io_bind (read_visible_access_point age n device path (active = Some path)) (\<lambda>ap.
         io_return (case ap of Some ap \<Rightarrow> found @ [ap] | None \<Rightarrow> found))) paths [])"

section \<open>One entry per network\<close>

type_synonym ap_key = "bytes \<times> security_class \<times> string"

definition ap_merge_key :: "access_point \<Rightarrow> ap_key" where
  "ap_merge_key ap = (ssid_bytes_of ap, class_of ap, ap_device_iface ap)"

definition replaces :: "access_point \<Rightarrow> access_point \<Rightarrow> bool" where
  "replaces ap old \<longleftrightarrow> ap_active ap \<or> (\<not> ap_active old \<and> ap_strength old < ap_strength ap)"

text \<open>A tree map as the list of its entries in key order; \<open>entry\<close> gives the new value from the old one.\<close>

fun bt_upsert :: "'k::linorder \<Rightarrow> ('v option \<Rightarrow> 'v) \<Rightarrow> ('k \<times> 'v) list \<Rightarrow> ('k \<times> 'v) list" where
  "bt_upsert k entry [] = [(k, entry None)]"
| "bt_upsert k entry ((k1, v1) # rest) =
     (if k < k1 then (k, entry None) # (k1, v1) # rest
      else if k = k1 then (k1, entry (Some v1)) # rest
      else (k1, v1) # bt_upsert k entry rest)"

definition merge_access_point :: "(ap_key \<times> access_point) list \<Rightarrow> access_point \<Rightarrow> (ap_key \<times> access_point) list" where
  "merge_access_point m ap =
     bt_upsert (ap_merge_key ap) (\<lambda>old. case old of None \<Rightarrow> ap | Some o' \<Rightarrow> if replaces ap o' then ap else o') m"

text \<open>\<open>sort_by\<close>: stable, by activity, then strength, then the lower-cased name.\<close>

definition listing_rank :: "(string \<Rightarrow> string) \<Rightarrow> access_point \<Rightarrow> bool \<times> int \<times> string" where
  "listing_rank lower ap = (\<not> ap_active ap, - uint (ap_strength ap), lower (ap_ssid ap))"

definition sorted_access_points :: "(string \<Rightarrow> string) \<Rightarrow> (ap_key \<times> access_point) list \<Rightarrow> access_point list" where
  "sorted_access_points lower m = sort_key (listing_rank lower) (map snd m)"

definition exact_rank :: "access_point \<Rightarrow> bool \<times> int \<times> u32 \<times> int \<times> string" where
  "exact_rank ap = (ap_uses_wep (ap_flags ap) (ap_wpa_flags ap) (ap_rsn_flags ap), - uint (ap_strength ap), ap_frequency ap,
     - uint (ap_max_bitrate_mbps ap), ap_path ap)"

definition sort_access_points_nmcli_like :: "access_point list \<Rightarrow> access_point list" where
  "sort_access_points_nmcli_like aps = sort_key exact_rank aps"

definition on_devices :: "(int \<Rightarrow> u64 option) \<Rightarrow> nm \<Rightarrow> access_point list io" where
  "on_devices age n =
     io_bind (wifi_devices n) (\<lambda>devices.
       io_fold (\<lambda>device found.
         io_bind (active_access_point n device) (\<lambda>active.
         io_bind (visible_access_points age n device active) (\<lambda>aps. io_return (found @ aps)))) devices [])"

definition list_access_points :: "(int \<Rightarrow> u64 option) \<Rightarrow> (string \<Rightarrow> string) \<Rightarrow> nm \<Rightarrow> access_point list io" where
  "list_access_points age lower n =
     io_map (\<lambda>aps. sorted_access_points lower (foldl merge_access_point [] aps)) (on_devices age n)"

definition list_all_access_points :: "(int \<Rightarrow> u64 option) \<Rightarrow> nm \<Rightarrow> access_point list io" where
  "list_all_access_points age n = io_map sort_access_points_nmcli_like (on_devices age n)"

section \<open>Finding a target\<close>

definition target_matches_device :: "wifi_connect_target \<Rightarrow> wifi_device \<Rightarrow> bool" where
  "target_matches_device t device \<longleftrightarrow>
     (case wct_device_path t of None \<Rightarrow> True | Some p \<Rightarrow> dev_path device = p)
     \<and> (case wct_ifname t of None \<Rightarrow> True | Some i \<Rightarrow> dev_iface device = i)"

definition access_point_matches :: "access_point \<Rightarrow> bytes \<Rightarrow> string option \<Rightarrow> string option \<Rightarrow> bool" where
  "access_point_matches ap ssid path bssid \<longleftrightarrow>
     ssid_bytes_of ap = ssid
     \<and> (case nonempty path of None \<Rightarrow> True | Some p \<Rightarrow> ap_path ap = p)
     \<and> (case nonempty bssid of None \<Rightarrow> True | Some b \<Rightarrow> eq_ignore_ascii_case (ap_bssid ap) b)"

definition wifi_devices_for_target :: "nm \<Rightarrow> wifi_connect_target \<Rightarrow> wifi_device list io" where
  "wifi_devices_for_target n t = io_map (filter (target_matches_device t)) (wifi_devices n)"

text \<open>The access points of a device are read one after the other until one matches.\<close>

fun first_matching ::
    "(int \<Rightarrow> u64 option) \<Rightarrow> nm \<Rightarrow> wifi_device \<Rightarrow> (access_point \<Rightarrow> bool) \<Rightarrow> string list \<Rightarrow> (string \<times> access_point) option io" where
  "first_matching age n device P [] = io_return None"
| "first_matching age n device P (path # paths) =
     io_bind (read_visible_access_point age n device path False) (\<lambda>ap.
       case ap of
         Some ap \<Rightarrow> if P ap then io_return (Some (path, ap)) else first_matching age n device P paths
       | None \<Rightarrow> first_matching age n device P paths)"

fun visible_access_point_matching ::
    "(int \<Rightarrow> u64 option) \<Rightarrow> nm \<Rightarrow> wifi_connect_target \<Rightarrow> bytes \<Rightarrow> bool \<Rightarrow> wifi_device list
      \<Rightarrow> (wifi_device \<times> string \<times> access_point) option io" where
  "visible_access_point_matching age n t ssid ignore_ap_path [] = io_return None"
| "visible_access_point_matching age n t ssid ignore_ap_path (device # devices) =
     io_bind (device_access_points n device) (\<lambda>paths.
     io_bind (first_matching age n device
        (\<lambda>ap. access_point_matches ap ssid (if ignore_ap_path then None else wct_ap_path t) (wct_bssid t)) paths) (\<lambda>found.
       case found of
         Some (path, ap) \<Rightarrow> io_return (Some (device, path, ap))
       | None \<Rightarrow> visible_access_point_matching age n t ssid ignore_ap_path devices))"

definition visible_access_point_for ::
    "(int \<Rightarrow> u64 option) \<Rightarrow> nm \<Rightarrow> wifi_connect_target \<Rightarrow> (wifi_device \<times> string \<times> access_point) option io" where
  "visible_access_point_for age n t =
     io_bind (wifi_devices_for_target n t) (\<lambda>devices.
     io_bind (visible_access_point_matching age n t (ssid_exact (wct_ssid t)) False devices) (\<lambda>found.
       if found \<noteq> None then io_return found
       else if wct_ap_path t \<noteq> None then visible_access_point_matching age n t (ssid_exact (wct_ssid t)) True devices
       else io_return None))"

definition active_ssid_matches_on_device ::
    "(int \<Rightarrow> u64 option) \<Rightarrow> nm \<Rightarrow> bytes \<Rightarrow> wifi_device \<Rightarrow> bool io" where
  "active_ssid_matches_on_device age n ssid device =
     io_bind (active_access_point n device) (\<lambda>active.
       case active of
         None \<Rightarrow> io_return False
       | Some path \<Rightarrow> io_map (\<lambda>ap. ap_ssid_bytes ap = ssid) (access_point_at age n device path True))"

definition active_target_matches_on_device ::
    "(int \<Rightarrow> u64 option) \<Rightarrow> nm \<Rightarrow> wifi_connect_target \<Rightarrow> wifi_device \<Rightarrow> bool io" where
  "active_target_matches_on_device age n t device =
     io_bind (active_access_point n device) (\<lambda>active.
       case active of
         None \<Rightarrow> io_return False
       | Some path \<Rightarrow> io_map (\<lambda>ap. access_point_matches ap (ssid_exact (wct_ssid t)) (wct_ap_path t) (wct_bssid t)) (access_point_at age n device path True))"

fun io_any :: "('a \<Rightarrow> bool io) \<Rightarrow> 'a list \<Rightarrow> bool io" where
  "io_any f [] = io_return False"
| "io_any f (x # xs) = io_bind (f x) (\<lambda>b. if b then io_return True else io_any f xs)"

definition active_ssid_matches :: "(int \<Rightarrow> u64 option) \<Rightarrow> nm \<Rightarrow> wifi_connect_target \<Rightarrow> bool io" where
  "active_ssid_matches age n t =
     io_bind (wifi_devices_for_target n t) (io_any (active_ssid_matches_on_device age n (ssid_exact (wct_ssid t))))"

definition active_target_matches :: "(int \<Rightarrow> u64 option) \<Rightarrow> nm \<Rightarrow> wifi_connect_target \<Rightarrow> bool io" where
  "active_target_matches age n t =
     io_bind (wifi_devices_for_target n t) (io_any (active_target_matches_on_device age n t))"

definition target_access_point_visible :: "(int \<Rightarrow> u64 option) \<Rightarrow> nm \<Rightarrow> wifi_connect_target \<Rightarrow> bool io" where
  "target_access_point_visible age n t = io_map (\<lambda>found. found \<noteq> None) (visible_access_point_for age n t)"

section \<open>Radio switches\<close>

datatype radio = Wireless | Wwan

record radio_switches =
  rs_wireless :: bool
  rs_wwan :: bool

record radio_restore_state =
  rr_airplane_mode :: bool
  rr_wireless_enabled :: bool
  rr_wwan_enabled :: bool

definition record_direct_change :: "radio \<Rightarrow> bool \<Rightarrow> radio_restore_state \<Rightarrow> radio_restore_state" where
  "record_direct_change radio enabled s =
     (let s1 = (if \<not> rr_airplane_mode s \<or> enabled
                then (case radio of Wireless \<Rightarrow> s\<lparr>rr_wireless_enabled := enabled\<rparr> | Wwan \<Rightarrow> s\<lparr>rr_wwan_enabled := enabled\<rparr>)
                else s)
      in s1\<lparr>rr_airplane_mode := (rr_airplane_mode s \<and> \<not> enabled)\<rparr>)"

definition target_switches :: "bool \<Rightarrow> radio_restore_state \<Rightarrow> radio_switches option" where
  "target_switches enabled s =
     (if \<not> enabled \<and> \<not> rr_airplane_mode s then None
      else Some (if enabled then \<lparr>rs_wireless = False, rs_wwan = False\<rparr>
                 else \<lparr>rs_wireless = rr_wireless_enabled s, rs_wwan = rr_wwan_enabled s\<rparr>))"

definition commit_airplane :: "bool \<Rightarrow> radio_switches \<Rightarrow> radio_switches \<Rightarrow> radio_restore_state \<Rightarrow> radio_restore_state" where
  "commit_airplane enabled current tgt s =
     (let s1 = (if enabled \<and> \<not> rr_airplane_mode s
                then s\<lparr>rr_wireless_enabled := rs_wireless current, rr_wwan_enabled := rs_wwan current\<rparr>
                else if \<not> enabled
                then s\<lparr>rr_wireless_enabled := rs_wireless tgt, rr_wwan_enabled := rs_wwan tgt\<rparr>
                else s)
      in s1\<lparr>rr_airplane_mode := enabled\<rparr>)"

definition set_property :: "string \<Rightarrow> bool \<Rightarrow> unit io" where
  "set_property name v = io_map (\<lambda>_. ()) (io_ask (SetProperty NM_PATH name v))"

text \<open>The restore state is locked while the switch is set and while airplane mode changes.\<close>

definition set_radio_enabled :: "radio \<Rightarrow> string \<Rightarrow> bool \<Rightarrow> radio_restore_state \<Rightarrow> radio_restore_state io" where
  "set_radio_enabled radio property enabled s =
     io_then (io_context (''set NetworkManager '' @ property) (set_property property enabled))
       (io_return (record_direct_change radio enabled s))"

definition read_radio_switches :: "radio_switches io" where
  "read_radio_switches =
     io_bind (io_context ''read Wi-Fi before airplane-mode change'' (expect reply_bool (GetProperty NM_PATH ''WirelessEnabled''))) (\<lambda>w.
     io_bind (io_context ''read WWAN before airplane-mode change'' (expect reply_bool (GetProperty NM_PATH ''WwanEnabled''))) (\<lambda>m.
       io_return \<lparr>rs_wireless = w, rs_wwan = m\<rparr>))"

definition io_on_error :: "unit io \<Rightarrow> unit io \<Rightarrow> unit io" where
  "io_on_error cleanup m =
     io_bind (io_try m) (\<lambda>r. case r of
       Inr _ \<Rightarrow> io_return ()
     | Inl e \<Rightarrow> io_bind (io_try cleanup) (\<lambda>_. io_lift (Inl e)))"

definition apply_radio_switches :: "radio_switches \<Rightarrow> radio_switches \<Rightarrow> unit io" where
  "apply_radio_switches current tgt =
     io_then (io_context ''set Wi-Fi for airplane mode'' (set_property ''WirelessEnabled'' (rs_wireless tgt)))
       (io_context ''set WWAN for airplane mode''
         (io_on_error (set_property ''WirelessEnabled'' (rs_wireless current)) (set_property ''WwanEnabled'' (rs_wwan tgt))))"

definition change_airplane_mode :: "bool \<Rightarrow> radio_restore_state \<Rightarrow> radio_restore_state io" where
  "change_airplane_mode enabled s =
     (case target_switches enabled s of
        None \<Rightarrow> io_return s
      | Some tgt \<Rightarrow>
          io_bind read_radio_switches (\<lambda>current.
            io_then (apply_radio_switches current tgt) (io_return (commit_airplane enabled current tgt s))))"

definition radio_device_availability :: "nm \<Rightarrow> (bool \<times> bool) io" where
  "radio_device_availability n =
     io_bind (io_context ''GetDevices for radio status'' (expect reply_paths GetDevices)) (\<lambda>paths.
       io_fold (\<lambda>path (w, m). with_proxy n (io_bind (io_or 0 (expect reply_u32 (GetProperty path ''DeviceType''))) (\<lambda>t.
         io_return (w \<or> t = NM_DEVICE_TYPE_WIFI, m \<or> t = NM_DEVICE_TYPE_MODEM)))) paths (False, False))"

record radio_report =
  rt_wireless_enabled :: bool
  rt_wireless_hardware_enabled :: bool
  rt_wireless_available :: bool
  rt_wwan_enabled :: bool
  rt_wwan_hardware_enabled :: bool
  rt_wwan_available :: bool
  rt_airplane_mode :: bool

definition radio_status :: "nm \<Rightarrow> radio_restore_state \<Rightarrow> (radio_report \<times> radio_restore_state) io" where
  "radio_status n s =
     (let prop = (\<lambda>name dflt. io_or dflt (expect reply_bool (GetProperty NM_PATH name)))
      in io_bind (io_context ''read NetworkManager WirelessEnabled'' (expect reply_bool (GetProperty NM_PATH ''WirelessEnabled''))) (\<lambda>we.
     io_bind (prop ''WirelessHardwareEnabled'' True) (\<lambda>wh.
     io_bind (prop ''WwanEnabled'' False) (\<lambda>me.
     io_bind (prop ''WwanHardwareEnabled'' True) (\<lambda>mh.
     io_bind (radio_device_availability n) (\<lambda>(wa, ma).
       let s1 = (if rr_airplane_mode s \<and> (we \<or> me) then s\<lparr>rr_airplane_mode := False\<rparr> else s)
       in io_return (\<lparr>rt_wireless_enabled = we, rt_wireless_hardware_enabled = wh, rt_wireless_available = wa,
            rt_wwan_enabled = me, rt_wwan_hardware_enabled = mh, rt_wwan_available = ma,
            rt_airplane_mode = rr_airplane_mode s1\<rparr>, s1)))))))"

definition set_airplane_mode :: "nm \<Rightarrow> bool \<Rightarrow> radio_restore_state \<Rightarrow> (radio_report \<times> string \<times> radio_restore_state) io" where
  "set_airplane_mode n enabled s =
     io_bind (change_airplane_mode enabled s) (\<lambda>s1.
     io_bind (radio_status n s1) (\<lambda>(status, s2).
       io_return (status, ''Airplane mode '' @ (if enabled then ''enabled'' else ''disabled''), s2)))"

definition set_wireless_enabled :: "bool \<Rightarrow> radio_restore_state \<Rightarrow> (string \<times> radio_restore_state) io" where
  "set_wireless_enabled enabled s =
     io_map (\<lambda>s1. (''Wi-Fi turned '' @ (if enabled then ''on'' else ''off''), s1))
       (set_radio_enabled Wireless ''WirelessEnabled'' enabled s)"

definition set_wwan_enabled :: "nm \<Rightarrow> bool \<Rightarrow> radio_restore_state \<Rightarrow> (radio_report \<times> string \<times> radio_restore_state) io" where
  "set_wwan_enabled n enabled s =
     io_bind (set_radio_enabled Wwan ''WwanEnabled'' enabled s) (\<lambda>s1.
     io_bind (radio_status n s1) (\<lambda>(status, s2).
       io_return (status, ''Mobile data turned '' @ (if enabled then ''on'' else ''off''), s2)))"

section \<open>Active connections\<close>

definition device_active_connection_path :: "nm \<Rightarrow> string \<Rightarrow> string option io" where
  "device_active_connection_path n device_path =
     with_proxy n (io_map active_path (io_context (''read ActiveConnection for '' @ device_path)
       (expect reply_path (GetProperty device_path ''ActiveConnection''))))"

definition active_connection_profile_path :: "nm \<Rightarrow> string \<Rightarrow> string option io" where
  "active_connection_profile_path n active =
     io_option (with_proxy n (expect reply_path (GetProperty active ''Connection'')))"

definition connection_matches_ssid :: "nm \<Rightarrow> bytes \<Rightarrow> string \<Rightarrow> bool io" where
  "connection_matches_ssid n ssid path = io_map (\<lambda>s. settings_match_wifi_ssid s ssid) (connection_settings_of n path)"

definition active_connection_matches_ssid :: "nm \<Rightarrow> bytes \<Rightarrow> string \<Rightarrow> bool io" where
  "active_connection_matches_ssid n ssid active =
     io_bind (active_connection_profile_path n active) (\<lambda>profile.
       case profile of
         None \<Rightarrow> io_return False
       | Some path \<Rightarrow> connection_matches_ssid n ssid path)"

definition device_active_for_ssid :: "nm \<Rightarrow> bytes \<Rightarrow> wifi_device \<Rightarrow> bool io" where
  "device_active_for_ssid n ssid device =
     io_bind (device_active_connection_path n (dev_path device)) (\<lambda>active.
       case active of
         None \<Rightarrow> io_return False
       | Some path \<Rightarrow> active_connection_matches_ssid n ssid path)"

definition wifi_connection_active_for_ssid :: "nm \<Rightarrow> bytes \<Rightarrow> bool io" where
  "wifi_connection_active_for_ssid n ssid = io_bind (wifi_devices n) (io_any (device_active_for_ssid n ssid))"

record disconnect_result =
  dr_status :: string
  dr_message :: string

definition deactivate_wifi_connection :: "string \<Rightarrow> string \<Rightarrow> disconnect_result io" where
  "deactivate_wifi_connection active message =
     io_then (io_context ''DeactivateConnection for active Wi-Fi connection'' (io_map (\<lambda>_. ()) (io_ask (DeactivateConnection active))))
       (io_return \<lparr>dr_status = ''disconnected'', dr_message = message\<rparr>)"

definition disconnect_device_for_ssid ::
    "nm \<Rightarrow> bytes \<Rightarrow> wifi_device \<Rightarrow> disconnect_result option \<Rightarrow> disconnect_result option io" where
  "disconnect_device_for_ssid n ssid device found =
     io_bind (device_active_connection_path n (dev_path device)) (\<lambda>active.
       case active of
         None \<Rightarrow> io_return found
       | Some path \<Rightarrow>
           io_bind (active_connection_matches_ssid n ssid path) (\<lambda>b.
             if \<not> b then io_return found
             else io_map Some (deactivate_wifi_connection path (''Cancelled connection to '' @ display_ssid ssid))))"

definition disconnect_wifi_for_ssid :: "nm \<Rightarrow> bytes \<Rightarrow> disconnect_result io" where
  "disconnect_wifi_for_ssid n ssid =
     io_bind (wifi_devices n) (\<lambda>devices.
     io_map (\<lambda>found. case found of
         Some r \<Rightarrow> r
       | None \<Rightarrow> \<lparr>dr_status = ''noop'', dr_message = ''Cancelled target '' @ display_ssid ssid @ '' is no longer active or activating''\<rparr>)
       (io_fold (disconnect_device_for_ssid n ssid) devices None))"

fun first_active :: "nm \<Rightarrow> wifi_device list \<Rightarrow> string option io" where
  "first_active n [] = io_return None"
| "first_active n (device # devices) =
     io_bind (device_active_connection_path n (dev_path device)) (\<lambda>active.
       if active \<noteq> None then io_return active else first_active n devices)"

definition disconnect_wifi :: "nm \<Rightarrow> disconnect_result io" where
  "disconnect_wifi n =
     io_bind (io_bind (wifi_devices n) (first_active n)) (\<lambda>active.
       case active of
         None \<Rightarrow> io_return \<lparr>dr_status = ''noop'', dr_message = ''No active Wi-Fi connection''\<rparr>
       | Some path \<Rightarrow> deactivate_wifi_connection path ''Disconnected Wi-Fi'')"

section \<open>Saved profiles\<close>

text \<open>A profile that disappeared between the listing and the read is skipped; the listing is asked again to tell.\<close>

definition connection_settings_if_present :: "nm \<Rightarrow> string \<Rightarrow> connection_settings option io" where
  "connection_settings_if_present n path =
     io_bind (io_try (connection_settings_of n path)) (\<lambda>r. case r of
       Inr settings \<Rightarrow> io_return (Some settings)
     | Inl e \<Rightarrow> io_bind saved_connections (\<lambda>paths.
         if path \<in> set paths then io_lift (Inl e) else io_return None))"

definition saved_wifi_at :: "nm \<Rightarrow> string \<Rightarrow> saved_wifi_connection list \<Rightarrow> saved_wifi_connection list io" where
  "saved_wifi_at n path found =
     io_bind (connection_settings_if_present n path) (\<lambda>settings.
       case Option.bind settings (saved_wifi_connection_from_settings path) of
         None \<Rightarrow> io_return found
       | Some c \<Rightarrow> io_bind (io_option (connection_remembered n path)) (\<lambda>remember.
           io_return (found @ [c\<lparr>swc_remember := remember\<rparr>])))"

definition saved_wifi_connections :: "(string \<Rightarrow> string) \<Rightarrow> nm \<Rightarrow> saved_wifi_connection list io" where
  "saved_wifi_connections lower n =
     io_bind saved_connections (\<lambda>paths.
     io_map (sort_key (\<lambda>c. lower (swc_id c))) (io_fold (saved_wifi_at n) paths []))"

definition delete_connection :: "nm \<Rightarrow> string \<Rightarrow> unit io" where
  "delete_connection n path =
     with_proxy n (io_context (''Delete connection '' @ path) (io_map (\<lambda>_. ()) (io_ask (Delete path))))"

definition delete_connection_by_path :: "(string \<Rightarrow> bool) \<Rightarrow> nm \<Rightarrow> string \<Rightarrow> unit io" where
  "delete_connection_by_path object_path_ok n path = io_bind (parse_path object_path_ok path) (delete_connection n)"

section \<open>Each network is listed once\<close>

lemma bt_upsert_keys: "fst ` set (bt_upsert k f m) = insert k (fst ` set m)"
  by (induction k f m rule: bt_upsert.induct) auto

lemma bt_upsert_sorted: "sorted_wrt (<) (map fst m) \<Longrightarrow> sorted_wrt (<) (map fst (bt_upsert k f m))"
proof (induction k f m rule: bt_upsert.induct)
  case (2 k f k1 v1 rest)
  show ?case
  proof (cases "k1 < k")
    case True
    have "\<forall>x \<in> fst ` set (bt_upsert k f rest). k1 < x" using 2(2) True by (auto simp: bt_upsert_keys)
    with 2 True show ?thesis by auto
  next
    case False
    then consider "k < k1" | "k = k1" by (metis linorder_cases)
    then show ?thesis using 2(2) by cases (auto dest: less_trans)
  qed
qed simp

lemma bt_upsert_get:
  "sorted_wrt (<) (map fst m) \<Longrightarrow> map_of (bt_upsert k f m) k' = (if k' = k then Some (f (map_of m k)) else map_of m k')"
proof (induction k f m rule: bt_upsert.induct)
  case (2 k f k1 v1 rest)
  have "map_of rest k = None" if "k < k1" using 2(2) that by (force simp: map_of_eq_None_iff)
  with 2 show ?case by auto
qed simp

definition merged_ok :: "access_point list \<Rightarrow> (ap_key \<times> access_point) list \<Rightarrow> bool" where
  "merged_ok aps m \<longleftrightarrow> sorted_wrt (<) (map fst m) \<and>
     (\<forall>b \<in> set aps. map_of m (ap_merge_key b) \<noteq> None) \<and>
     (\<forall>k x. map_of m k = Some x \<longrightarrow> x \<in> set aps \<and> ap_merge_key x = k \<and>
        (\<forall>b \<in> set aps. ap_merge_key b = k \<longrightarrow> (ap_active b \<longrightarrow> ap_active x) \<and> (\<not> ap_active x \<longrightarrow> ap_strength b \<le> ap_strength x)))"

lemma merged_okD:
  assumes "merged_ok aps m"
  shows "sorted_wrt (<) (map fst m)" "b \<in> set aps \<Longrightarrow> \<exists>x. map_of m (ap_merge_key b) = Some x"
    "map_of m k = Some x \<Longrightarrow> x \<in> set aps" "map_of m k = Some x \<Longrightarrow> ap_merge_key x = k"
    "map_of m k = Some x \<Longrightarrow> b \<in> set aps \<Longrightarrow> ap_merge_key b = k \<Longrightarrow> ap_active b \<Longrightarrow> ap_active x"
    "map_of m k = Some x \<Longrightarrow> b \<in> set aps \<Longrightarrow> ap_merge_key b = k \<Longrightarrow> \<not> ap_active x \<Longrightarrow> ap_strength b \<le> ap_strength x"
  using assms unfolding merged_ok_def by blast+

lemma merged_step:
  assumes "merged_ok aps m"
  shows "merged_ok (aps @ [ap]) (merge_access_point m ap)"
proof -
  note M = merged_okD [OF assms]
  have get: "map_of (merge_access_point m ap) k = (if k = ap_merge_key ap
      then Some (case map_of m k of None \<Rightarrow> ap | Some o' \<Rightarrow> if replaces ap o' then ap else o') else map_of m k)" for k
    unfolding merge_access_point_def by (simp add: bt_upsert_get [OF M(1)])
  show ?thesis
    unfolding merged_ok_def
  proof (intro conjI ballI allI impI)
    show "sorted_wrt (<) (map fst (merge_access_point m ap))"
      unfolding merge_access_point_def by (rule bt_upsert_sorted [OF M(1)])
  next
    fix b assume "b \<in> set (aps @ [ap])"
    then show "map_of (merge_access_point m ap) (ap_merge_key b) \<noteq> None" using M(2) [of b] by (auto simp: get)
  next
    fix k x assume x: "map_of (merge_access_point m ap) k = Some x"
    show "x \<in> set (aps @ [ap])" using x M(3) by (auto simp: get split: if_splits option.splits)
    show "ap_merge_key x = k" using x M(4) by (auto simp: get split: if_splits option.splits)
    fix b assume b: "b \<in> set (aps @ [ap])" "ap_merge_key b = k"
    show "ap_active x" if "ap_active b"
    proof (cases "b \<in> set aps")
      case True
      with M(2) [OF True] b(2) obtain y where y: "map_of m k = Some y" by auto
      from M(5) [OF y True b(2) that] y x show ?thesis by (auto simp: get replaces_def split: if_splits)
    next
      case False
      with b that x show ?thesis by (auto simp: get replaces_def split: if_splits option.splits)
    qed
    show "ap_strength b \<le> ap_strength x" if na: "\<not> ap_active x"
    proof (cases "b \<in> set aps")
      case True
      with M(2) [OF True] b(2) obtain y where y: "map_of m k = Some y" by auto
      show ?thesis
      proof (cases "x = y")
        case True
        with M(6) [OF y \<open>b \<in> set aps\<close> b(2)] na show ?thesis by simp
      next
        case False
        with x y have new: "x = ap" "replaces ap y" by (auto simp: get split: if_splits)
        with na have "\<not> ap_active y" "ap_strength y < ap_strength x" by (auto simp: replaces_def)
        with M(6) [OF y \<open>b \<in> set aps\<close> b(2)] show ?thesis by auto
      qed
    next
      case False
      with b na x show ?thesis by (auto simp: get replaces_def split: if_splits option.splits)
    qed
  qed
qed

lemma merge_all: "merged_ok aps (foldl merge_access_point [] aps)"
proof (induction aps rule: rev_induct)
  case Nil
  then show ?case by (simp add: merged_ok_def)
next
  case (snoc ap aps)
  then show ?case using merged_step by simp
qed

text \<open>The list of networks has one entry for each name, security class and interface that has a visible
  access point: an active one if any is active, otherwise one of greatest strength. Active entries come
  first, then the stronger ones.\<close>

theorem listed_networks_represent:
  assumes "list_access_points age lower n E h = (h', Inr listed)"
  shows "\<exists>aps. on_devices age n E h = (h', Inr aps) \<and> set listed \<subseteq> set aps \<and> distinct (map ap_merge_key listed)
    \<and> (\<forall>ap \<in> set aps. \<exists>r \<in> set listed. ap_merge_key r = ap_merge_key ap \<and> (ap_active ap \<longrightarrow> ap_active r)
         \<and> (\<not> ap_active r \<longrightarrow> ap_strength ap \<le> ap_strength r))
    \<and> sorted_wrt (\<lambda>a b. (ap_active b \<longrightarrow> ap_active a) \<and> (ap_active a = ap_active b \<longrightarrow> ap_strength b \<le> ap_strength a)) listed"
proof -
  obtain aps where aps: "on_devices age n E h = (h', Inr aps)" "listed = sorted_access_points lower (foldl merge_access_point [] aps)"
    using assms by (auto simp: list_access_points_def io_map_ok)
  let ?m = "foldl merge_access_point [] aps"
  note M = merged_okD [OF merge_all [of aps]]
  have dk: "distinct (map fst ?m)" using M(1) by (simp add: strict_sorted_iff)
  have in_m: "map_of ?m k = Some x" if "(k, x) \<in> set ?m" for k x using dk that by simp
  have set: "set listed = snd ` set ?m" by (simp add: aps(2) sorted_access_points_def)
  have keys: "map (ap_merge_key \<circ> snd) ?m = map fst ?m" using M(4) in_m by (auto intro!: map_cong)
  have "mset (map ap_merge_key listed) = mset (map fst ?m)"
    unfolding keys [symmetric] by (simp add: aps(2) sorted_access_points_def multiset.map_comp)
  then have dist: "distinct (map ap_merge_key listed)" using dk mset_eq_imp_distinct_iff by metis
  have rep: "\<exists>r \<in> set listed. ap_merge_key r = ap_merge_key ap \<and> (ap_active ap \<longrightarrow> ap_active r)
         \<and> (\<not> ap_active r \<longrightarrow> ap_strength ap \<le> ap_strength r)" if ap: "ap \<in> set aps" for ap
  proof -
    from M(2) [OF ap] obtain r where r: "map_of ?m (ap_merge_key ap) = Some r" by blast
    then have "r \<in> set listed" unfolding set by (metis image_eqI map_of_SomeD snd_conv)
    with M(4-6) [OF r] ap show ?thesis by blast
  qed
  have sub: "set listed \<subseteq> set aps" unfolding set using M(3) in_m by (metis (no_types, lifting) image_subsetI prod.collapse)
  have "sorted (map (listing_rank lower) listed)" by (simp add: aps(2) sorted_access_points_def)
  then have "sorted_wrt (\<lambda>a b. listing_rank lower a \<le> listing_rank lower b) listed" by (simp add: sorted_map)
  then have "sorted_wrt (\<lambda>a b. (ap_active b \<longrightarrow> ap_active a) \<and> (ap_active a = ap_active b \<longrightarrow> ap_strength b \<le> ap_strength a)) listed"
    by (rule sorted_wrt_mono_rel [rotated]) (auto simp: listing_rank_def less_eq_prod_def word_le_def)
  with aps(1) sub dist rep show ?thesis by blast
qed

section \<open>Airplane mode\<close>

abbreviation switch :: "string \<Rightarrow> bool \<Rightarrow> nm_call" where
  "switch name v \<equiv> SetProperty NM_PATH name v"

definition switched :: "nm_history \<Rightarrow> nm_call list" where
  "switched h = filter (\<lambda>c. case c of SetProperty _ _ _ \<Rightarrow> True | _ \<Rightarrow> False) h"

lemma switched_simps [simp]:
  "switched (c # h) = (case c of SetProperty _ _ _ \<Rightarrow> c # switched h | _ \<Rightarrow> switched h)"
  by (cases c) (simp_all add: switched_def)

lemma set_property_run: "set_property name v E h = (switch name v # h, map_sum id (\<lambda>_. ()) (E h (switch name v)))"
  by (cases "E h (switch name v)") (simp_all add: set_property_def io_map_def io_bind_def)

lemma read_switches_run:
  "read_radio_switches E h = (h1, Inr c) \<Longrightarrow>
     h1 = GetProperty NM_PATH ''WwanEnabled'' # GetProperty NM_PATH ''WirelessEnabled'' # h
     \<and> E h (GetProperty NM_PATH ''WirelessEnabled'') = Inr (RBool (rs_wireless c))
     \<and> E (GetProperty NM_PATH ''WirelessEnabled'' # h) (GetProperty NM_PATH ''WwanEnabled'') = Inr (RBool (rs_wwan c))"
  unfolding read_radio_switches_def by (auto simp: io_ok context_run reply_ok)

lemma read_switches_only: "read_radio_switches E h = (h1, r) \<Longrightarrow> switched h1 = switched h"
proof -
  assume r: "read_radio_switches E h = (h1, r)"
  have "asks (\<lambda>c. case c of SetProperty _ _ _ \<Rightarrow> False | _ \<Rightarrow> True) read_radio_switches"
    unfolding read_radio_switches_def by (intro asks_rules) simp_all
  from asks_run [OF this r] obtain cs where "h1 = cs @ h" "list_all (\<lambda>c. case c of SetProperty _ _ _ \<Rightarrow> False | _ \<Rightarrow> True) cs"
    by blast
  then show ?thesis by (auto simp: switched_def filter_empty_conv list_all_iff split: nm_call.splits)
qed

lemma apply_switches_run:
  assumes "apply_radio_switches current tgt E h = (h', r)"
  shows "(r = Inr () \<and> switched h' = switch ''WwanEnabled'' (rs_wwan tgt) # switch ''WirelessEnabled'' (rs_wireless tgt) # switched h)
    \<or> (isl r \<and> switched h' = switch ''WirelessEnabled'' (rs_wireless tgt) # switched h)
    \<or> (isl r \<and> switched h' = switch ''WirelessEnabled'' (rs_wireless current) # switch ''WwanEnabled'' (rs_wwan tgt)
          # switch ''WirelessEnabled'' (rs_wireless tgt) # switched h)"
proof -
  let ?w = "switch ''WirelessEnabled'' (rs_wireless tgt)" and ?m = "switch ''WwanEnabled'' (rs_wwan tgt)"
  show ?thesis
    using assms unfolding apply_radio_switches_def io_on_error_def
    by (cases "E h ?w"; cases "E (?w # h) ?m")
      (auto simp: io_then_def io_bind_def io_context_def io_map_err_def io_try_def set_property_run)
qed

text \<open>
  The operations on the radios, in any order: a switch is set directly, airplane mode is changed, the
  switches are read for a status report. An operation that fails leaves the remembered state as it was.
\<close>

datatype radio_op = SetRadio radio bool | SetAirplane bool | ReadRadios nm

fun radio_property :: "radio \<Rightarrow> string" where
  "radio_property Wireless = ''WirelessEnabled''"
| "radio_property Wwan = ''WwanEnabled''"

definition settle :: "radio_restore_state \<Rightarrow> nm_history \<times> (anyhow_error + radio_restore_state) \<Rightarrow> nm_history \<times> radio_restore_state" where
  "settle s out = (fst out, case snd out of Inr s' \<Rightarrow> s' | Inl _ \<Rightarrow> s)"

fun radio_step :: "radio_op \<Rightarrow> nm_env \<Rightarrow> nm_history \<times> radio_restore_state \<Rightarrow> nm_history \<times> radio_restore_state" where
  "radio_step (SetRadio r v) E (h, s) = settle s (set_radio_enabled r (radio_property r) v s E h)"
| "radio_step (SetAirplane v) E (h, s) = settle s (change_airplane_mode v s E h)"
| "radio_step (ReadRadios n) E (h, s) = settle s (io_map snd (radio_status n s) E h)"

text \<open>A sequence of operations throughout which airplane mode stays on.\<close>

fun stays_on :: "radio_op list \<Rightarrow> nm_env \<Rightarrow> nm_history \<times> radio_restore_state \<Rightarrow> bool" where
  "stays_on [] E hs = True"
| "stays_on (op # ops) E hs = (rr_airplane_mode (snd (radio_step op E hs)) \<and> stays_on ops E (radio_step op E hs))"

definition radio_steps :: "radio_op list \<Rightarrow> nm_env \<Rightarrow> nm_history \<times> radio_restore_state \<Rightarrow> nm_history \<times> radio_restore_state" where
  "radio_steps ops E hs = foldl (\<lambda>hs op. radio_step op E hs) hs ops"

text \<open>What can end airplane mode: leaving it, switching a radio on, or finding one on.\<close>

definition ends_airplane :: "radio_op \<Rightarrow> nm_env \<Rightarrow> nm_history \<Rightarrow> bool" where
  "ends_airplane op E h =
     (case op of
        SetRadio r v \<Rightarrow> v
      | SetAirplane v \<Rightarrow> \<not> v
      | ReadRadios n \<Rightarrow> \<exists>ds r. E (ds @ h) (GetProperty NM_PATH (radio_property r)) = Inr (RBool True))"

lemma status_ends:
  assumes "radio_status n s E h = (h', Inr (rep, s'))" "s' \<noteq> s"
  shows "\<not> rr_airplane_mode s' \<and> ends_airplane (ReadRadios n) E h"
proof -
  have io_or_true: "io_or d m E h0 = (h1, Inr True) \<Longrightarrow> d \<or> m E h0 = (h1, Inr True)" for d m h0 h1
    by (auto simp: io_or_def io_map_def io_bind_def io_try_def split: sum.splits prod.splits)
  from assms obtain we me h1 h2 where we: "E h (GetProperty NM_PATH ''WirelessEnabled'') = Inr (RBool we)"
      and me: "io_or False (expect reply_bool (GetProperty NM_PATH ''WwanEnabled'')) E h1 = (h2, Inr me)"
      and h1: "\<exists>wh. io_or True (expect reply_bool (GetProperty NM_PATH ''WirelessHardwareEnabled'')) E
          (GetProperty NM_PATH ''WirelessEnabled'' # h) = (h1, Inr wh)"
      and s': "s' = (if rr_airplane_mode s \<and> (we \<or> me) then s\<lparr>rr_airplane_mode := False\<rparr> else s)"
    unfolding radio_status_def Let_def by (auto simp: io_ok context_run reply_ok)
  have on: "we \<or> me" "\<not> rr_airplane_mode s'" using s' assms(2) by (auto split: if_splits)
  have "asks (\<lambda>_. True) (io_or True (expect reply_bool (GetProperty NM_PATH ''WirelessHardwareEnabled'')))"
    unfolding io_or_def by (intro asks_rules) simp
  with h1 obtain ds where ds: "h1 = ds @ h" using extends by fastforce
  have "E h1 (GetProperty NM_PATH ''WwanEnabled'') = Inr (RBool True)" if "me"
  proof -
    from me that have "expect reply_bool (GetProperty NM_PATH ''WwanEnabled'') E h1 = (h2, Inr True)"
      using io_or_true [of False] by simp
    then show ?thesis by (simp add: io_ok reply_ok)
  qed
  with on we ds have "\<exists>ds r. E (ds @ h) (GetProperty NM_PATH (radio_property r)) = Inr (RBool True)"
    by (metis append_Nil radio_property.simps)
  with on(2) show ?thesis by (simp add: ends_airplane_def)
qed

lemma radio_step_on:
  assumes "rr_airplane_mode s" "radio_step op E (h, s) = (h', s')" "s' \<noteq> s"
  shows "\<not> rr_airplane_mode s' \<and> ends_airplane op E h"
proof (cases op)
  case (SetRadio r v)
  with assms show ?thesis
    by (cases r) (auto simp: settle_def set_radio_enabled_def ends_airplane_def record_direct_change_def Let_def io_then_def
        io_bind_def io_context_def io_map_err_def set_property_run split: sum.splits prod.splits if_splits)
next
  case (SetAirplane v)
  have "s' = s \<or> (\<exists>h0. change_airplane_mode v s E h = (h0, Inr s'))"
    using assms(2) SetAirplane by (cases "change_airplane_mode v s E h") (auto simp: settle_def split: sum.splits)
  with assms(3) obtain h0 where "change_airplane_mode v s E h = (h0, Inr s')" by blast
  then have "\<exists>c t. s' = commit_airplane v c t s" using assms(1,3)
    unfolding change_airplane_mode_def target_switches_def by (auto simp: io_ok split: if_splits)
  with assms(1,3) SetAirplane show ?thesis
    by (cases v) (auto simp: commit_airplane_def Let_def ends_airplane_def)
next
  case (ReadRadios n)
  have "s' = s \<or> (\<exists>h0 rep. radio_status n s E h = (h0, Inr (rep, s')))"
    using assms(2) ReadRadios
    by (auto simp: settle_def io_map_def io_bind_def split: sum.splits prod.splits)
  with assms(3) status_ends ReadRadios show ?thesis by blast
qed

lemma stays_on_keeps: "rr_airplane_mode (snd hs) \<Longrightarrow> stays_on ops E hs \<Longrightarrow> snd (radio_steps ops E hs) = snd hs"
proof (induction ops arbitrary: hs)
  case (Cons op ops)
  obtain h s h' s' where hs: "hs = (h, s)" "radio_step op E hs = (h', s')" by (cases hs; cases "radio_step op E hs") auto
  with Cons.prems have "s' = s" using radio_step_on [of s op E h h' s'] by auto
  with Cons hs show ?case by (auto simp: radio_steps_def)
qed (simp add: radio_steps_def)

lemma leaving_writes:
  assumes "change_airplane_mode False \<lparr>rr_airplane_mode = True, rr_wireless_enabled = w, rr_wwan_enabled = m\<rparr> E h = (h', Inr s')"
  shows "switched h' = switch ''WwanEnabled'' m # switch ''WirelessEnabled'' w # switched h \<and> \<not> rr_airplane_mode s'"
proof -
  from assms obtain c h0 where off: "read_radio_switches E h = (h0, Inr c)"
      "apply_radio_switches c \<lparr>rs_wireless = w, rs_wwan = m\<rparr> E h0 = (h', Inr ())"
      "s' = commit_airplane False c \<lparr>rs_wireless = w, rs_wwan = m\<rparr> \<lparr>rr_airplane_mode = True, rr_wireless_enabled = w, rr_wwan_enabled = m\<rparr>"
    unfolding change_airplane_mode_def target_switches_def by (auto simp: io_ok)
  with apply_switches_run [OF off(2)] read_switches_only [OF off(1)] show ?thesis
    by (auto simp: commit_airplane_def Let_def)
qed

text \<open>
  C24. Airplane mode remembers the switches it turned off. Entering it reads both switches and turns both
  off. Whatever operations on the radios follow while it stays on (switches turned off directly, airplane
  mode requested again, status reports, failed operations), the remembered values stay those read at the entry, and
  leaving it then writes exactly these, Wi-Fi first. Only three things end it: leaving it, switching a radio
  on directly, and a status report that finds a radio switched on; after it has ended, leaving
  it is a no-op that writes nothing.
\<close>

theorem airplane_mode_restores:
  assumes "change_airplane_mode True s E h = (h1, Inr s1)" and "\<not> rr_airplane_mode s"
  shows "\<exists>w m. E h (GetProperty NM_PATH ''WirelessEnabled'') = Inr (RBool w)
      \<and> E (GetProperty NM_PATH ''WirelessEnabled'' # h) (GetProperty NM_PATH ''WwanEnabled'') = Inr (RBool m)
      \<and> switched h1 = switch ''WwanEnabled'' False # switch ''WirelessEnabled'' False # switched h \<and> rr_airplane_mode s1
      \<and> (\<forall>ops h2 s2. radio_steps ops E (h1, s1) = (h2, s2) \<and> stays_on ops E (h1, s1) \<longrightarrow>
           (\<forall>h3 s3. change_airplane_mode False s2 E h2 = (h3, Inr s3) \<longrightarrow>
              switched h3 = switch ''WwanEnabled'' m # switch ''WirelessEnabled'' w # switched h2 \<and> \<not> rr_airplane_mode s3)
           \<and> (\<forall>op h3 s3. radio_step op E (h2, s2) = (h3, s3) \<and> \<not> rr_airplane_mode s3 \<longrightarrow>
              ends_airplane op E h2 \<and> change_airplane_mode False s3 E h3 = (h3, Inr s3)))"
proof -
  obtain c h0 where r: "read_radio_switches E h = (h0, Inr c)"
      "apply_radio_switches c \<lparr>rs_wireless = False, rs_wwan = False\<rparr> E h0 = (h1, Inr ())"
      "s1 = commit_airplane True c \<lparr>rs_wireless = False, rs_wwan = False\<rparr> s"
    using assms(1) unfolding change_airplane_mode_def target_switches_def by (auto simp: io_ok)
  have s1: "s1 = \<lparr>rr_airplane_mode = True, rr_wireless_enabled = rs_wireless c, rr_wwan_enabled = rs_wwan c\<rparr>"
    using assms(2) by (simp add: r(3) commit_airplane_def Let_def)
  have "s2 = s1" if "radio_steps ops E (h1, s1) = (h2, s2)" "stays_on ops E (h1, s1)" for ops h2 s2
    using stays_on_keeps [of "(h1, s1)" ops E] that s1 by simp
  moreover have "ends_airplane op E h2 \<and> change_airplane_mode False s3 E h3 = (h3, Inr s3)"
    if "radio_step op E (h2, s1) = (h3, s3)" "\<not> rr_airplane_mode s3" for op h2 h3 s3
  proof -
    have "s3 \<noteq> s1" using that(2) s1 by auto
    with radio_step_on [OF _ that(1)] s1 that(2) show ?thesis
      by (simp add: change_airplane_mode_def target_switches_def)
  qed
  moreover have "switched h1 = switch ''WwanEnabled'' False # switch ''WirelessEnabled'' False # switched h"
    using apply_switches_run [OF r(2)] read_switches_only [OF r(1)] by auto
  ultimately show ?thesis
    using read_switches_run [OF r(1)] leaving_writes [of "rs_wireless c" "rs_wwan c" E, folded s1] s1
    by - (rule exI [of _ "rs_wireless c"], rule exI [of _ "rs_wwan c"], simp, blast)
qed

text \<open>A failed change of airplane mode puts the first switch back.\<close>

theorem airplane_mode_rolls_back:
  assumes "change_airplane_mode enabled s E h = (h', Inl e)"
  shows "switched h' = switched h
    \<or> (\<exists>w. switched h' = switch ''WirelessEnabled'' w # switched h)
    \<or> (\<exists>v w m. E h (GetProperty NM_PATH ''WirelessEnabled'') = Inr (RBool v)
          \<and> switched h' = switch ''WirelessEnabled'' v # switch ''WwanEnabled'' m # switch ''WirelessEnabled'' w # switched h)"
proof -
  from assms obtain tgt where run: "io_bind read_radio_switches (\<lambda>current.
            io_then (apply_radio_switches current tgt) (io_return (commit_airplane enabled current tgt s))) E h = (h', Inl e)"
    unfolding change_airplane_mode_def by (auto split: option.splits)
  then consider "read_radio_switches E h = (h', Inl e)"
    | h1 c where "read_radio_switches E h = (h1, Inr c)" "apply_radio_switches c tgt E h1 = (h', Inl e)"
    by (auto simp: io_bind_run io_then_run)
  then show ?thesis
  proof cases
    case 1
    then show ?thesis using read_switches_only by blast
  next
    case 2
    from apply_switches_run [OF 2(2)] read_switches_only [OF 2(1)] read_switches_run [OF 2(1)] show ?thesis by auto
  qed
qed

fun radio_env :: nm_env where
  "radio_env h (GetProperty p q) = Inr (RBool (q = ''WirelessEnabled''))"
| "radio_env h (SetProperty p q v) = Inr RUnit"
| "radio_env h c = Inl []"

definition radios_on :: radio_restore_state where
  "radios_on = \<lparr>rr_airplane_mode = False, rr_wireless_enabled = False, rr_wwan_enabled = False\<rparr>"

theorem airplane_mode_restores_witness:
  "\<exists>h1 s1 h3 s3. change_airplane_mode True radios_on radio_env [] = (h1, Inr s1)
     \<and> change_airplane_mode False s1 radio_env h1 = (h3, Inr s3)
     \<and> switched h3 = switch ''WwanEnabled'' False # switch ''WirelessEnabled'' True # switched h1"
proof -
  have "\<not> isl (snd (change_airplane_mode True radios_on radio_env []))"
    "case change_airplane_mode True radios_on radio_env [] of (h1, Inr s1) \<Rightarrow> \<not> isl (snd (change_airplane_mode False s1 radio_env h1)) | _ \<Rightarrow> False"
    by code_simp+
  then obtain h1 s1 h3 s3 where run: "change_airplane_mode True radios_on radio_env [] = (h1, Inr s1)"
      "change_airplane_mode False s1 radio_env h1 = (h3, Inr s3)"
    by (cases "change_airplane_mode True radios_on radio_env []"; cases "snd (change_airplane_mode True radios_on radio_env [])")
      (auto split: sum.splits, metis prod.collapse sum.collapse(2))
  have "\<not> rr_airplane_mode radios_on" by (simp add: radios_on_def)
  from airplane_mode_restores [OF run(1) this] obtain w m where
    w: "radio_env [] (GetProperty NM_PATH ''WirelessEnabled'') = Inr (RBool w)"
      "radio_env [GetProperty NM_PATH ''WirelessEnabled''] (GetProperty NM_PATH ''WwanEnabled'') = Inr (RBool m)"
      "\<And>ops h2 s2 h3 s3. radio_steps ops radio_env (h1, s1) = (h2, s2) \<Longrightarrow> stays_on ops radio_env (h1, s1) \<Longrightarrow>
         change_airplane_mode False s2 radio_env h2 = (h3, Inr s3) \<Longrightarrow>
         switched h3 = switch ''WwanEnabled'' m # switch ''WirelessEnabled'' w # switched h2" by blast
  from w(3) [of "[]" h1 s1 h3 s3] run(2) w(1,2) have "switched h3 = switch ''WwanEnabled'' False # switch ''WirelessEnabled'' True # switched h1"
    by (simp add: radio_steps_def)
  with run show ?thesis by blast
qed

section \<open>Profiles offered for an access point\<close>

type_synonym profile_candidate = "saved_wifi_connection \<times> wifi_profile_match"

definition profile_candidate_from_settings :: "string \<Rightarrow> connection_settings \<Rightarrow> profile_candidate option" where
  "profile_candidate_from_settings path settings =
     Option.bind (saved_wifi_connection_from_settings path settings) (\<lambda>p.
       map_option (Pair p) (match_from_settings settings))"

definition candidate_at ::
    "nm \<Rightarrow> string \<Rightarrow> (string, profile_candidate) hash_map \<Rightarrow> (string, profile_candidate) hash_map io" where
  "candidate_at n path found =
     io_bind (connection_settings_if_present n path) (\<lambda>settings.
       case Option.bind settings (profile_candidate_from_settings path) of
         None \<Rightarrow> io_return found
       | Some (p, m) \<Rightarrow> io_bind (io_option (connection_remembered n path)) (\<lambda>remember.
           io_return (hm_insert (swc_path p) (p\<lparr>swc_remember := remember\<rparr>, m) found)))"

definition saved_wifi_profile_candidates_by_path :: "nm \<Rightarrow> (string, profile_candidate) hash_map io" where
  "saved_wifi_profile_candidates_by_path n =
     io_bind saved_connections (\<lambda>paths. io_fold (candidate_at n) paths [])"

definition available_connections :: "nm \<Rightarrow> string \<Rightarrow> string \<Rightarrow> string list io" where
  "available_connections n device_path iface =
     with_proxy n (io_context (''read AvailableConnections for '' @ iface)
       (expect reply_paths (GetProperty device_path ''AvailableConnections'')))"

text \<open>A failed read is not cached.\<close>

definition available_connections_cached ::
    "nm \<Rightarrow> access_point \<Rightarrow> (string, string list) hash_map \<Rightarrow> (string list option \<times> (string, string list) hash_map) io" where
  "available_connections_cached n ap cache =
     (case hm_get cache (ap_device_path ap) of
        Some paths \<Rightarrow> io_return (Some paths, cache)
      | None \<Rightarrow> io_map (\<lambda>r. case r of
            None \<Rightarrow> (None, cache)
          | Some paths \<Rightarrow> (Some paths, hm_insert (ap_device_path ap) paths cache))
          (io_option (available_connections n (ap_device_path ap) (ap_device_iface ap))))"

definition compatible_profiles :: "(string, profile_candidate) hash_map \<Rightarrow> access_point \<Rightarrow> string list \<Rightarrow> saved_wifi_connection list" where
  "compatible_profiles candidates ap available =
     List.map_filter (\<lambda>path. case hm_get candidates path of
       Some (p, m) \<Rightarrow> if matches_access_point m ap then Some p else None | None \<Rightarrow> None) available"

definition active_profile_of :: "nm \<Rightarrow> string \<Rightarrow> string option io" where
  "active_profile_of n device_path =
     io_option (with_proxy n (io_bind (expect reply_path (GetProperty device_path ''ActiveConnection'')) (\<lambda>active.
       with_proxy n (expect reply_path (GetProperty active ''Connection'')))))"

text \<open>The profile in use goes first; when it is not known, none may be offered for deletion.\<close>

definition with_active_profile ::
    "(string, profile_candidate) hash_map \<Rightarrow> access_point \<Rightarrow> string option \<Rightarrow> saved_wifi_connection list \<Rightarrow> saved_wifi_connection list" where
  "with_active_profile candidates ap active profiles =
     (case Option.bind active (\<lambda>path. Option.bind (hm_get candidates path) (\<lambda>(p, m).
          if matches_access_point m ap then Some (path, p) else None)) of
        Some (path, p) \<Rightarrow> p # filter (\<lambda>q. swc_path q \<noteq> path) profiles
      | None \<Rightarrow> map (\<lambda>q. q\<lparr>swc_remember := None\<rparr>) profiles)"

type_synonym matches_by_ap = "(string \<times> saved_wifi_connection list) list"

definition add_compatible_profile_matches ::
    "(string \<Rightarrow> bool) \<Rightarrow> nm \<Rightarrow> (string, profile_candidate) hash_map \<Rightarrow> access_point
      \<Rightarrow> (string, string list) hash_map \<times> matches_by_ap \<Rightarrow> ((string, string list) hash_map \<times> matches_by_ap) io" where
  "add_compatible_profile_matches object_path_ok n candidates ap st =
     (if \<not> object_path_ok (ap_device_path ap) then io_return st
      else io_bind (available_connections_cached n ap (fst st)) (\<lambda>(available, cache).
        case available of
          None \<Rightarrow> io_return (cache, snd st)
        | Some paths \<Rightarrow>
            let extend = (\<lambda>old. (case old of Some ps \<Rightarrow> ps | None \<Rightarrow> []) @ compatible_profiles candidates ap paths)
            in if \<not> ap_active ap then io_return (cache, bt_upsert (ap_path ap) extend (snd st))
               else io_bind (active_profile_of n (ap_device_path ap)) (\<lambda>active.
                      io_return (cache, bt_upsert (ap_path ap) (\<lambda>old. with_active_profile candidates ap active (extend old)) (snd st)))))"

definition compatible_profile_matches_by_ap_path ::
    "(string \<Rightarrow> bool) \<Rightarrow> nm \<Rightarrow> access_point list \<Rightarrow> matches_by_ap io" where
  "compatible_profile_matches_by_ap_path object_path_ok n aps =
     io_bind (saved_wifi_profile_candidates_by_path n) (\<lambda>candidates.
     io_map snd (io_fold (add_compatible_profile_matches object_path_ok n candidates) aps ([], [])))"

text \<open>What holds of the profiles offered for an access point.\<close>

definition offer_ok :: "nm_env \<Rightarrow> (string, profile_candidate) hash_map \<Rightarrow> access_point \<Rightarrow> saved_wifi_connection list \<Rightarrow> bool" where
  "offer_ok E candidates ap ps \<longleftrightarrow>
     (\<forall>p \<in> set ps. \<exists>path c m. hm_get candidates path = Some (c, m) \<and> matches_access_point m ap
        \<and> (p = c \<or> p = c\<lparr>swc_remember := None\<rparr>))
     \<and> (ap_active ap \<longrightarrow> (\<forall>p \<in> set ps. swc_remember p = None)
        \<or> (\<exists>h1 h2 active path m. E h1 (GetProperty (ap_device_path ap) ''ActiveConnection'') = Inr (RPath active)
             \<and> E h2 (GetProperty active ''Connection'') = Inr (RPath path) \<and> hm_get candidates path = Some (hd ps, m) \<and> ps \<noteq> []))"

lemma compatible_offer: "p \<in> set (compatible_profiles candidates ap paths) \<Longrightarrow>
    \<exists>path m. hm_get candidates path = Some (p, m) \<and> matches_access_point m ap"
  unfolding compatible_profiles_def
  by (induction paths) (fastforce split: option.splits if_splits prod.splits)+

lemma io_option_ok: "io_option m E h = (h', Inr (Some y)) \<longleftrightarrow> m E h = (h', Inr y)"
  by (cases "m E h"; cases "snd (m E h)") (auto simp: io_option_def io_map_def io_bind_def io_try_def)

lemma active_profile_read:
  assumes "active_profile_of n d E h = (h', Inr (Some path))"
  shows "\<exists>h1 h2 active. E h1 (GetProperty d ''ActiveConnection'') = Inr (RPath active) \<and> E h2 (GetProperty active ''Connection'') = Inr (RPath path)"
proof -
  have path: "reply_path r = Some p \<longleftrightarrow> r = RPath p" for r p by (cases r) auto
  have "\<exists>h''. with_proxy n (io_bind (expect reply_path (GetProperty d ''ActiveConnection'')) (\<lambda>active.
       with_proxy n (expect reply_path (GetProperty active ''Connection'')))) E h = (h'', Inr path)"
    using assms by (auto simp: active_profile_of_def io_option_ok)
  then show ?thesis by (auto simp: with_proxy_def io_ok path)
qed

lemma active_offer:
  assumes "active_profile_of n (ap_device_path ap) E h = (h', Inr active)"
    and "\<And>p. p \<in> set ps \<Longrightarrow> \<exists>path m. hm_get candidates path = Some (p, m) \<and> matches_access_point m ap"
  shows "offer_ok E candidates ap (with_active_profile candidates ap active ps)"
proof (cases "Option.bind active (\<lambda>path. Option.bind (hm_get candidates path) (\<lambda>(p, m).
          if matches_access_point m ap then Some (path, p) else None))")
  case None
  then show ?thesis using assms(2) unfolding offer_ok_def with_active_profile_def by force
next
  case (Some pp)
  then obtain path p m where a: "active = Some path" "hm_get candidates path = Some (p, m)" "matches_access_point m ap" "pp = (path, p)"
    by (auto split: bind_splits if_splits)
  have "with_active_profile candidates ap active ps = p # filter (\<lambda>q. swc_path q \<noteq> path) ps"
    using Some a by (simp add: with_active_profile_def)
  moreover obtain h1 h2 conn where "E h1 (GetProperty (ap_device_path ap) ''ActiveConnection'') = Inr (RPath conn)"
      "E h2 (GetProperty conn ''Connection'') = Inr (RPath path)"
    using active_profile_read [OF assms(1) [unfolded a(1)]] by blast
  ultimately show ?thesis using a(2,3) assms(2) unfolding offer_ok_def
    by (intro conjI ballI impI disjI2) (fastforce, metis list.sel(1) list.simps(3))
qed


lemma add_matches_ok:
  assumes "add_compatible_profile_matches valid n candidates ap (cache, m) E h = (h', Inr (cache', m'))"
    and "sorted_wrt (<) (map fst m)" "hm_get m (ap_path ap) = None"
  shows "sorted_wrt (<) (map fst m')" "path \<noteq> ap_path ap \<Longrightarrow> hm_get m' path = hm_get m path"
    "hm_get m' (ap_path ap) = Some ps \<Longrightarrow> offer_ok E candidates ap ps"
proof -
  consider "m' = m"
    | paths where "\<not> ap_active ap" "m' = bt_upsert (ap_path ap) (\<lambda>old. (case old of Some ps \<Rightarrow> ps | None \<Rightarrow> []) @ compatible_profiles candidates ap paths) m"
    | paths active h1 where "active_profile_of n (ap_device_path ap) E h1 = (h', Inr active)"
        "m' = bt_upsert (ap_path ap) (\<lambda>old. with_active_profile candidates ap active
           ((case old of Some ps \<Rightarrow> ps | None \<Rightarrow> []) @ compatible_profiles candidates ap paths)) m"
  proof (cases "valid (ap_device_path ap)")
    case True
    with assms(1) obtain available cache1 h1 where av: "available_connections_cached n ap cache E h = (h1, Inr (available, cache1))"
      unfolding add_compatible_profile_matches_def by (auto simp: io_ok)
    with True assms(1) that show ?thesis unfolding add_compatible_profile_matches_def
      by (cases available; cases "ap_active ap") (auto simp: Let_def io_ok)
  qed (use assms(1) that in \<open>auto simp: add_compatible_profile_matches_def io_ok\<close>)
  then have "sorted_wrt (<) (map fst m') \<and> (\<forall>path. path \<noteq> ap_path ap \<longrightarrow> hm_get m' path = hm_get m path)
      \<and> (\<forall>ps. hm_get m' (ap_path ap) = Some ps \<longrightarrow> offer_ok E candidates ap ps)"
  proof cases
    case 1
    then show ?thesis using assms(2,3) by simp
  next
    case 2
    have "offer_ok E candidates ap (compatible_profiles candidates ap paths)"
      unfolding offer_ok_def using compatible_offer [of _ candidates ap paths] 2(1) by blast
    then show ?thesis using 2(2) assms(2,3) by (simp add: bt_upsert_sorted bt_upsert_get)
  next
    case 3
    then show ?thesis using assms(2,3) active_offer [OF 3(1) compatible_offer [of _ candidates ap paths]]
      by (auto simp: bt_upsert_sorted bt_upsert_get)
  qed
  then show "sorted_wrt (<) (map fst m')" "path \<noteq> ap_path ap \<Longrightarrow> hm_get m' path = hm_get m path"
    "hm_get m' (ap_path ap) = Some ps \<Longrightarrow> offer_ok E candidates ap ps" by blast+
qed

lemma fold_matches_ok:
  "io_fold (add_compatible_profile_matches valid n candidates) aps (cache, m) E h = (h', Inr (cache', m')) \<Longrightarrow>
   distinct (map ap_path aps) \<Longrightarrow> sorted_wrt (<) (map fst m) \<Longrightarrow> (\<forall>ap \<in> set aps. hm_get m (ap_path ap) = None) \<Longrightarrow>
   (\<forall>path. path \<notin> ap_path ` set aps \<longrightarrow> hm_get m' path = hm_get m path) \<and>
   (\<forall>ap \<in> set aps. \<forall>ps. hm_get m' (ap_path ap) = Some ps \<longrightarrow> offer_ok E candidates ap ps)"
proof (induction aps arbitrary: cache m h)
  case (Cons ap aps)
  from Cons.prems(1) obtain h1 cache1 m1 where st:
      "add_compatible_profile_matches valid n candidates ap (cache, m) E h = (h1, Inr (cache1, m1))"
      "io_fold (add_compatible_profile_matches valid n candidates) aps (cache1, m1) E h1 = (h', Inr (cache', m'))"
    by (auto simp: io_ok)
  have none: "hm_get m (ap_path ap) = None" using Cons.prems(4) by simp
  note A = add_matches_ok [OF st(1) Cons.prems(3) none]
  have fresh: "ap_path ap \<notin> ap_path ` set aps" using Cons.prems(2) by auto
  have other: "hm_get m1 (ap_path b) = None" if "b \<in> set aps" for b
    using A(2) [of "ap_path b"] fresh that Cons.prems(4) by (auto simp: image_iff)
  from Cons.IH [OF st(2) _ A(1)] Cons.prems(2) other
  have IH: "\<forall>path. path \<notin> ap_path ` set aps \<longrightarrow> hm_get m' path = hm_get m1 path"
      "\<forall>ap \<in> set aps. \<forall>ps. hm_get m' (ap_path ap) = Some ps \<longrightarrow> offer_ok E candidates ap ps" by auto
  show ?case
  proof (intro conjI allI impI ballI)
    fix path assume "path \<notin> ap_path ` set (ap # aps)"
    then show "hm_get m' path = hm_get m path" using IH(1) A(2) [of path] by auto
  next
    fix b ps assume b: "b \<in> set (ap # aps)" "hm_get m' (ap_path b) = Some ps"
    show "offer_ok E candidates b ps"
    proof (cases "b = ap")
      case True
      with b(2) IH(1) fresh A(3) [of ps] show ?thesis by auto
    next
      case False
      with b IH(2) show ?thesis by auto
    qed
  qed
qed simp

text \<open>Every profile offered for an access point is a saved Wi-Fi profile that the matcher accepts for it: the
  name, the band, the channel and a BSSID restriction stored as bytes. (A restriction stored as text does not
  count.) For the access point in use, either the first profile is the one NetworkManager reports as
  active, or no profile carries the retention state that would allow deleting it.\<close>

theorem offered_profiles_match:
  assumes "compatible_profile_matches_by_ap_path valid n aps E h = (h', Inr m)" and "distinct (map ap_path aps)"
  shows "\<exists>h1 candidates. saved_wifi_profile_candidates_by_path n E h = (h1, Inr candidates)
    \<and> (\<forall>ap \<in> set aps. \<forall>ps. hm_get m (ap_path ap) = Some ps \<longrightarrow> offer_ok E candidates ap ps)"
proof -
  from assms(1) obtain h1 candidates cache where "saved_wifi_profile_candidates_by_path n E h = (h1, Inr candidates)"
      "io_fold (add_compatible_profile_matches valid n candidates) aps ([], []) E h1 = (h', Inr (cache, m))"
    unfolding compatible_profile_matches_by_ap_path_def by (auto simp: io_ok)
  with fold_matches_ok [OF this(2) assms(2)] show ?thesis by auto
qed

section \<open>One device, two access points and one saved profile\<close>

definition saved_home :: connection_settings where
  "saved_home = [(''connection'', [(''id'', DStr ''Home''), (''uuid'', DStr ''u''), (''type'', DStr ''802-11-wireless'')]),
     (''802-11-wireless'', [(''ssid'', DArr (map DU8 ''hi''))])]"

fun home_env :: nm_env where
  "home_env h GetDevices = Inr (RPaths [''/d''])"
| "home_env h (GetAccessPoints p) = Inr (RPaths [''/a'', ''/b''])"
| "home_env h ListConnections = Inr (RPaths [''/1''])"
| "home_env h (GetSettings p) = Inr (RSettings saved_home)"
| "home_env h (GetProperty p q) =
     (if q = ''DeviceType'' then Inr (RU32 2)
      else if q = ''ActiveAccessPoint'' then Inr (RPath ''/b'')
      else if q = ''ActiveConnection'' then Inr (RPath ''/act'')
      else if q = ''Connection'' then Inr (RPath ''/1'')
      else if q = ''AvailableConnections'' then Inr (RPaths [''/1''])
      else if q = ''Ssid'' then Inr (RBytes ''hi'')
      else Inl [])"
| "home_env h c = Inl []"

lemma home_listing: "\<exists>h' listed. list_access_points (\<lambda>_. None) id demo_nm home_env [] = (h', Inr listed)"
proof -
  have name: "display_ssid ''hi'' = ''hi''" by code_simp
  show ?thesis
    by (simp add: list_access_points_def on_devices_def wifi_devices_def wifi_device_at_def active_access_point_def
      visible_access_points_def device_access_points_def read_visible_access_point_def access_point_at_def
      io_map_def io_bind_def io_then_def io_try_def io_or_def io_context_def io_map_err_def expect_def with_proxy_def ensure_current_owner_def
      io_ensure_def current_owner_def demo_nm_def ok_or_def Let_def active_path_def name NM_DEVICE_TYPE_WIFI_def)
qed

definition home_ap :: access_point where
  "home_ap = ap_sample\<lparr>ap_ssid := ''hi'', ap_ssid_bytes := ''hi'', ap_active := True, ap_path := ''/b'', ap_device_path := ''/d''\<rparr>"

lemma home_offer: "map_sum id (map (\<lambda>(p, ps). (p, map swc_path ps))) (snd (compatible_profile_matches_by_ap_path (\<lambda>_. True) demo_nm [home_ap] home_env []))
    = Inr [(''/b'', [''/1''])]"
  by code_simp

theorem listed_networks_represent_witness:
  "\<exists>h' listed aps. list_access_points (\<lambda>_. None) id demo_nm home_env [] = (h', Inr listed)
     \<and> on_devices (\<lambda>_. None) demo_nm home_env [] = (h', Inr aps) \<and> set listed \<subseteq> set aps \<and> distinct (map ap_merge_key listed)"
proof -
  obtain h' listed where run: "list_access_points (\<lambda>_. None) id demo_nm home_env [] = (h', Inr listed)"
    using home_listing by blast
  from listed_networks_represent [OF run] run show ?thesis by blast
qed

theorem offered_profiles_match_witness:
  "\<exists>h' m h1 candidates ps. compatible_profile_matches_by_ap_path (\<lambda>_. True) demo_nm [home_ap] home_env [] = (h', Inr m)
     \<and> saved_wifi_profile_candidates_by_path demo_nm home_env [] = (h1, Inr candidates)
     \<and> map swc_path ps = [''/1''] \<and> offer_ok home_env candidates home_ap ps"
proof -
  obtain h' m where run: "compatible_profile_matches_by_ap_path (\<lambda>_. True) demo_nm [home_ap] home_env [] = (h', Inr m)"
      "map (\<lambda>(p, ps). (p, map swc_path ps)) m = [(''/b'', [''/1''])]"
    using home_offer by (cases "compatible_profile_matches_by_ap_path (\<lambda>_. True) demo_nm [home_ap] home_env []";
      cases "snd (compatible_profile_matches_by_ap_path (\<lambda>_. True) demo_nm [home_ap] home_env [])") auto
  then obtain ps where m: "m = [(''/b'', ps)]" "map swc_path ps = [''/1'']" by auto
  have path: "ap_path home_ap = ''/b''" by code_simp
  from offered_profiles_match [OF run(1)] obtain h1 candidates where
      "saved_wifi_profile_candidates_by_path demo_nm home_env [] = (h1, Inr candidates)"
      "\<forall>ap \<in> set [home_ap]. \<forall>ps. hm_get m (ap_path ap) = Some ps \<longrightarrow> offer_ok home_env candidates ap ps" by auto
  moreover have "hm_get m (ap_path home_ap) = Some ps" using m(1) path by simp
  ultimately have "offer_ok home_env candidates home_ap ps" by simp
  with run(1) m(2) \<open>saved_wifi_profile_candidates_by_path demo_nm home_env [] = (h1, Inr candidates)\<close> show ?thesis
    by (intro exI conjI) assumption+
qed

end
