(* ===== verification/Nm_Reads.thy ===== *)
theory Nm_Reads
  imports Devices
begin

text \<open>
  What the programs that only look at NetworkManager ask. A contract on questions that admits the reads of
  properties, settings, profiles, devices and access points is kept by every one of them, so that a component
  states its own contract once and has the reading programs for free.
\<close>

section \<open>Contracts and control structure\<close>

lemma asks_option [asks_rules]: "asks P m \<Longrightarrow> (\<And>x. asks P (f x)) \<Longrightarrow> asks P (case v of None \<Rightarrow> m | Some x \<Rightarrow> f x)"
  by (cases v) simp_all

lemma asks_sum [asks_rules]: "(\<And>e. asks P (g e)) \<Longrightarrow> (\<And>x. asks P (f x)) \<Longrightarrow> asks P (case v of Inl e \<Rightarrow> g e | Inr x \<Rightarrow> f x)"
  by (cases v) simp_all

lemma asks_list [asks_rules]: "asks P m \<Longrightarrow> (\<And>x xs. asks P (f x xs)) \<Longrightarrow> asks P (case v of [] \<Rightarrow> m | x # xs \<Rightarrow> f x xs)"
  by (cases v) simp_all

lemma asks_io_or [asks_rules]: "asks P m \<Longrightarrow> asks P (io_or d m)" and asks_io_option [asks_rules]: "asks P m \<Longrightarrow> asks P (io_option m)"
  unfolding io_or_def io_option_def by (intro asks_rules; simp)+

lemma asks_any [asks_rules]: "(\<And>x. asks P (f x)) \<Longrightarrow> asks P (io_any f xs)"
  by (induction xs) (auto intro!: asks_rules)

section \<open>Readers\<close>

locale nm_reader =
  fixes P :: "nm_call \<Rightarrow> bool"
  assumes owner: "P GetNameOwner" and property: "P (GetProperty p q)" and settings: "P (GetSettings p)"
    and listing: "P ListConnections" and devices: "P GetDevices" and points: "P (GetAccessPoints p)"
begin

lemma asks_settings: "asks P (connection_settings_of n path)" "asks P saved_connections" "asks P (connection_remembered n path)"
    "asks P (parse_path f path)" "asks P (connection_settings_if_present n path)"
  unfolding connection_settings_if_present_def connection_settings_of_def saved_connections_def connection_remembered_def parse_path_def
  by (intro asks_rules owner property settings listing)+

lemma asks_inventory: "asks P (saved_wifi_connections lower n)"
  unfolding saved_wifi_connections_def saved_wifi_at_def by (intro asks_rules asks_settings)

lemma asks_devices: "asks P (wifi_devices n)" "asks P (device_active_connection_path n p)" "asks P (wifi_devices_for_target n t)"
    "asks P (available_connections n p i)"
  unfolding wifi_devices_for_target_def wifi_devices_def wifi_device_at_def device_active_connection_path_def available_connections_def
  by (intro asks_rules owner property devices)+

lemma asks_matching: "asks P (active_connection_matches_ssid n ssid a)" "asks P (connection_matches_ssid n ssid a)"
  unfolding active_connection_matches_ssid_def active_connection_profile_path_def connection_matches_ssid_def
  by (intro asks_rules asks_settings owner property)+

lemma asks_active: "asks P (wifi_connection_active_for_ssid n ssid)"
  unfolding wifi_connection_active_for_ssid_def device_active_for_ssid_def by (intro asks_rules asks_devices asks_matching)

lemma asks_access_point: "asks P (access_point_at age n d p b)" "asks P (read_visible_access_point age n d p b)"
    "asks P (device_access_points n d)" "asks P (active_access_point n d)"
  unfolding read_visible_access_point_def access_point_at_def Let_def device_access_points_def active_access_point_def
  by (intro asks_rules owner property points)+

lemma asks_listing: "asks P (on_devices age n)" "asks P (list_all_access_points age n)"
  unfolding list_all_access_points_def on_devices_def visible_access_points_def
  by (intro asks_rules asks_devices asks_access_point)+

lemma asks_first_matching: "asks P (first_matching age n d Q paths)"
  by (induction paths; unfold first_matching.simps; intro asks_rules asks_access_point; assumption)

lemma asks_point_matching: "asks P (visible_access_point_matching age n t ssid b ds)"
proof (induction ds)
  case Nil
  show ?case unfolding visible_access_point_matching.simps by (intro asks_rules)
next
  case (Cons d ds)
  then show ?case unfolding visible_access_point_matching.simps
    by (intro asks_rules asks_access_point asks_first_matching) (auto split: option.splits intro!: asks_rules)
qed

lemma asks_visible: "asks P (visible_access_point_for age n t)"
  unfolding visible_access_point_for_def by (intro asks_rules asks_devices asks_point_matching)

lemmas reads = asks_settings asks_inventory asks_devices asks_matching asks_active asks_access_point asks_listing asks_visible

end

end
