(* ===== verification/Secret_Agent.thy ===== *)
theory Secret_Agent
  imports Credentials Activation_Wait
begin

text \<open>
  The secret agent NetworkManager calls for credentials (\<open>src/daemon_secret.rs\<close> with
  \<open>src/daemon_secret/session.rs\<close>): the registry of requests, the prompts to frontends, their answers
  and the reply. The registry is one mutex; each definition that takes the registry is one critical
  section. A cancellation flag (\<open>Arc<AtomicBool>\<close>) is named by a number, an activation scope
  (\<open>Arc<State>\<close>) and a channel too. Third-party parts (D-Bus dispatch, the thread pool) only order these
  steps. \<open>SECRET_TIMEOUT\<close> is generated from \<open>config/timeouts.conf\<close>.
\<close>

section \<open>Requests\<close>

definition SECRET_TIMEOUT :: duration where
  "SECRET_TIMEOUT = from_millis 90000"

definition ALLOW_INTERACTION :: u32 where
  "ALLOW_INTERACTION = 1"

definition REQUEST_NEW :: u32 where
  "REQUEST_NEW = 2"

datatype secret_agent_error =
    UserCanceled string
  | NoSecrets string
  | AccessDenied string
  | AgentFailed string

record secret_request =
  sq_deadline :: instant
  sq_activation :: "nat option"
  sq_save_supported :: bool
  sq_policy :: retention_policy
  sq_cancelled :: nat
  sq_nm_owner :: "string option"
  sq_id :: string
  sq_key :: string
  sq_connection_path :: string
  sq_setting_name :: string
  sq_hints :: "string list"
  sq_secret_keys :: "string list"
  sq_flags :: u32

definition key_for :: "string \<Rightarrow> string \<Rightarrow> string" where
  "key_for connection_path setting_name = connection_path @ [CHR 0x0A] @ setting_name"

definition request_new :: "instant \<Rightarrow> string \<Rightarrow> nat \<Rightarrow> string \<Rightarrow> string \<Rightarrow> string list \<Rightarrow> u32 \<Rightarrow> secret_request" where
  "request_new now rid flag connection_path setting_name hints flags =
     \<lparr>sq_deadline = now + SECRET_TIMEOUT, sq_activation = None, sq_save_supported = True,
      sq_policy = retention_default, sq_cancelled = flag, sq_nm_owner = None, sq_id = rid,
      sq_key = key_for connection_path setting_name, sq_connection_path = connection_path,
      sq_setting_name = setting_name, sq_hints = hints, sq_secret_keys = secret_keys_for setting_name hints,
      sq_flags = flags\<rparr>"

text \<open>
  \<open>activation::find\<close> looks up the scope of the exact profile under this NetworkManager; \<open>active\<close> is
  the map of live scopes.
\<close>

definition activation_identity :: "connection_settings \<Rightarrow> string \<Rightarrow> string" where
  "activation_identity settings path =
     (case Option.bind (hm_get settings ''connection'') (\<lambda>s. setting_string s ''uuid'') of
        Some uuid \<Rightarrow> if uuid \<noteq> [] then ''uuid:'' @ uuid else ''path:'' @ path
      | None \<Rightarrow> ''path:'' @ path)"

definition activation_find ::
    "(string \<times> string, nat) hash_map \<Rightarrow> string \<Rightarrow> connection_settings \<Rightarrow> string \<Rightarrow> nat option" where
  "activation_find active owner settings path = hm_get active (owner, activation_identity settings path)"

definition request_prepare ::
    "(string \<times> string, nat) hash_map \<Rightarrow> (nat \<Rightarrow> scope_state) \<Rightarrow> connection_settings \<Rightarrow> string
      \<Rightarrow> secret_request \<Rightarrow> secret_agent_error + secret_request" where
  "request_prepare active scopes settings owner r0 =
     (let r = (case wireless_secret_key settings (sq_setting_name r0) (sq_hints r0) of
                 Some key \<Rightarrow> r0\<lparr>sq_secret_keys := [key]\<rparr> | None \<Rightarrow> r0)
      in case policy_from_request settings (sq_setting_name r) (sq_secret_keys r) of
           Inl _ \<Rightarrow> Inl (NoSecrets ''Unsupported or ambiguous credential retention policy'')
         | Inr policy \<Rightarrow>
             (let scope = activation_find active owner settings (sq_connection_path r)
              in Inr (r\<lparr>sq_policy := policy,
                        sq_save_supported := (rp_persistent policy \<noteq> {} \<and> \<not> rp_migration_required policy),
                        sq_activation := scope, sq_nm_owner := Some owner,
                        sq_deadline := (case scope of None \<Rightarrow> sq_deadline r
                          | Some i \<Rightarrow> min (sq_deadline r) (credential_deadline (scopes i)))\<rparr>)))"

definition primary_secret_key :: "secret_request \<Rightarrow> string" where
  "primary_secret_key r =
     (case sq_secret_keys r of k # _ \<Rightarrow> k | [] \<Rightarrow> default_secret_key_for_setting (sq_setting_name r))"

record secret_response =
  sr_password :: "string option"
  sr_values :: "(string, string) hash_map"
  sr_save :: bool
  sr_cancelled :: bool

definition response_cancelled :: secret_response where
  "response_cancelled = \<lparr>sr_password = None, sr_values = [], sr_save = False, sr_cancelled = True\<rparr>"

section \<open>The registry\<close>

record pending_entry =
  pn_request :: secret_request
  pn_owners :: "string set"
  pn_sender :: nat

record pending_registry =
  pg_inflight :: "(string, nat) hash_map"
  pg_nm_owner :: "string option"
  pg_requests :: "(string, pending_entry) hash_map"

definition is_current_owner :: "pending_registry \<Rightarrow> string option \<Rightarrow> bool" where
  "is_current_owner g owner \<longleftrightarrow> pg_nm_owner g = owner"

definition pg_remove :: "string \<Rightarrow> pending_registry \<Rightarrow> nat option \<times> pending_registry" where
  "pg_remove rid g =
     (map_option pn_sender (hm_get (pg_requests g) rid), g\<lparr>pg_requests := hm_remove rid (pg_requests g)\<rparr>)"

definition remove_by_key :: "string \<Rightarrow> pending_registry \<Rightarrow> (string \<times> nat) option \<times> pending_registry" where
  "remove_by_key key g =
     (case find (\<lambda>(rid, e). sq_key (pn_request e) = key) (pg_requests g) of
        None \<Rightarrow> (None, g)
      | Some (rid, _) \<Rightarrow> (case pg_remove rid g of (sender, g') \<Rightarrow> (map_option (Pair rid) sender, g')))"

text \<open>Setting a flag: the flags that are set are a set of their names.\<close>

definition cancel_by_key ::
    "string \<Rightarrow> pending_registry \<Rightarrow> nat set \<Rightarrow> (string \<times> nat) option \<times> pending_registry \<times> nat set" where
  "cancel_by_key key g flags =
     (let flags' = (case hm_get (pg_inflight g) key of Some f \<Rightarrow> insert f flags | None \<Rightarrow> flags)
      in case remove_by_key key g of (displaced, g') \<Rightarrow> (displaced, g', flags'))"

fun cancel_keys ::
    "string list \<Rightarrow> pending_registry \<Rightarrow> nat set \<Rightarrow> (string \<times> nat) list \<times> pending_registry \<times> nat set" where
  "cancel_keys [] g flags = ([], g, flags)"
| "cancel_keys (k # ks) g flags =
     (case cancel_by_key k g flags of (d, g', flags') \<Rightarrow>
        (case cancel_keys ks g' flags' of (ds, g'', flags'') \<Rightarrow>
           (case d of Some x \<Rightarrow> x # ds | None \<Rightarrow> ds, g'', flags'')))"

definition connection_of_key :: "string \<Rightarrow> string option" where
  "connection_of_key key = (if CHR 0x0A \<in> set key then Some (takeWhile (\<lambda>c. c \<noteq> CHR 0x0A) key) else None)"

definition cancel_connection ::
    "string \<Rightarrow> pending_registry \<Rightarrow> nat set \<Rightarrow> (string \<times> nat) list \<times> pending_registry \<times> nat set" where
  "cancel_connection path g flags =
     (let flags' = flags \<union> snd ` {kf \<in> set (pg_inflight g). connection_of_key (fst kf) = Some path};
          keys = map (\<lambda>(_, e). sq_key (pn_request e))
                   (filter (\<lambda>(_, e). sq_connection_path (pn_request e) = path) (pg_requests g))
      in cancel_keys keys g flags')"

definition request_live :: "instant \<Rightarrow> nat set \<Rightarrow> (nat \<Rightarrow> scope_state) \<Rightarrow> secret_request \<Rightarrow> bool" where
  "request_live now flags scopes r \<longleftrightarrow>
     sq_cancelled r \<notin> flags \<and> now < sq_deadline r
     \<and> (case sq_activation r of None \<Rightarrow> True | Some i \<Rightarrow> scope_live now (scopes i))"

definition remove_for_owner ::
    "instant \<Rightarrow> nat set \<Rightarrow> (nat \<Rightarrow> scope_state) \<Rightarrow> string \<Rightarrow> string option \<Rightarrow> pending_registry
      \<Rightarrow> nat option \<times> pending_registry" where
  "remove_for_owner now flags scopes rid owner g =
     (case hm_get (pg_requests g) rid of
        None \<Rightarrow> (None, g)
      | Some e \<Rightarrow>
          if (case owner of None \<Rightarrow> False | Some o1 \<Rightarrow> o1 \<in> pn_owners e)
          then (if request_live now flags scopes (pn_request e) then Some (pn_sender e) else None,
                g\<lparr>pg_requests := hm_remove rid (pg_requests g)\<rparr>)
          else (None, g))"

text \<open>
  \<open>insert\<close>: a pending request for the same key is displaced; a request with the same id is replaced and
  answered with a cancellation.
\<close>

definition pg_insert ::
    "secret_request \<Rightarrow> string list \<Rightarrow> nat \<Rightarrow> pending_registry
      \<Rightarrow> (string \<times> nat) option \<times> nat option \<times> pending_registry" where
  "pg_insert r owners sender g =
     (case remove_by_key (sq_key r) g of (displaced, g') \<Rightarrow>
        (displaced, map_option pn_sender (hm_get (pg_requests g') (sq_id r)),
         g'\<lparr>pg_requests := hm_insert (sq_id r) \<lparr>pn_request = r, pn_owners = set owners, pn_sender = sender\<rparr>
              (pg_requests g')\<rparr>))"

section \<open>Liveness of a delivery\<close>

text \<open>
  An error of the bus library becomes \<open>Failed\<close> with the library's rendering of it; the model keeps the
  message the source gives it.
\<close>

definition ensure_secret_owner :: "string option \<Rightarrow> pending_registry \<Rightarrow> secret_agent_error + unit" where
  "ensure_secret_owner owner g =
     (if is_current_owner g owner then Inr ()
      else Inl (AgentFailed ''NetworkManager changed during the secret request''))"

definition ensure_request_owner ::
    "nat set \<Rightarrow> pending_registry \<Rightarrow> secret_request \<Rightarrow> secret_agent_error + unit" where
  "ensure_request_owner flags g r =
     (if sq_cancelled r \<in> flags then Inl (UserCanceled ''NetworkManager cancelled the secret request'')
      else ensure_secret_owner (sq_nm_owner r) g)"

definition request_stop :: "credential_stop \<Rightarrow> secret_request \<Rightarrow> (nat \<Rightarrow> scope_state) \<Rightarrow> nat \<Rightarrow> scope_state" where
  "request_stop reason r scopes =
     (case sq_activation r of None \<Rightarrow> scopes | Some i \<Rightarrow> scopes(i := scope_stop reason (scopes i)))"

definition ensure_delivery_live ::
    "instant \<Rightarrow> nat set \<Rightarrow> pending_registry \<Rightarrow> secret_request \<Rightarrow> (nat \<Rightarrow> scope_state)
      \<Rightarrow> (nat \<Rightarrow> scope_state) \<times> (secret_agent_error + unit)" where
  "ensure_delivery_live now flags g r scopes =
     (case ensure_request_owner flags g r of
        Inl e \<Rightarrow> (scopes, Inl e)
      | Inr _ \<Rightarrow>
          if sq_deadline r \<le> now
          then (request_stop StopExpired r scopes, Inl (NoSecrets ''Credential entry deadline expired''))
          else if (case sq_activation r of None \<Rightarrow> False | Some i \<Rightarrow> \<not> scope_live now (scopes i))
          then (scopes, Inl (UserCanceled ''The owning activation ended''))
          else (scopes, Inr ()))"

section \<open>Answers\<close>

definition secret_value_present :: "secret_request \<Rightarrow> connection_settings \<Rightarrow> string \<Rightarrow> bool" where
  "secret_value_present r connection key =
     (case secret_text connection (sq_setting_name r) key of None \<Rightarrow> False | Some v \<Rightarrow> v \<noteq> [])"

definition request_values_complete :: "secret_request \<Rightarrow> connection_settings \<Rightarrow> bool" where
  "request_values_complete r connection \<longleftrightarrow> list_all (secret_value_present r connection) (sq_secret_keys r)"

definition apply_password ::
    "string \<Rightarrow> string \<times> string \<Rightarrow> connection_settings \<Rightarrow> secret_agent_error + connection_settings" where
  "apply_password setting_name = (\<lambda>(key, password) connection.
     case set_text connection setting_name key password of
       Inl _ \<Rightarrow> Inl (AgentFailed ''Unsupported secret field or peer identity'')
     | Inr c \<Rightarrow> Inr c)"

fun apply_stored_values ::
    "secret_request \<Rightarrow> (string \<times> string) list \<Rightarrow> connection_settings
      \<Rightarrow> secret_agent_error + bool \<times> connection_settings" where
  "apply_stored_values r [] connection = Inr (request_values_complete r connection, connection)"
| "apply_stored_values r ((key, password) # rest) connection =
     and_then (if secret_value_present r connection key then Inr connection
               else apply_password (sq_setting_name r) (key, password) connection)
       (apply_stored_values r rest)"

definition response_values :: "secret_request \<Rightarrow> string option \<Rightarrow> (string, string) hash_map \<Rightarrow> (string, string) hash_map" where
  "response_values r password vals =
     (case password of
        Some p \<Rightarrow>
          if p \<noteq> [] \<and> hm_get vals (primary_secret_key r) = None then hm_insert (primary_secret_key r) p vals else vals
      | None \<Rightarrow> vals)"

fun apply_response_values ::
    "secret_request \<Rightarrow> (string \<times> string) list \<Rightarrow> connection_settings \<Rightarrow> secret_agent_error + connection_settings" where
  "apply_response_values r [] connection = Inr connection"
| "apply_response_values r (kv # rest) connection =
     and_then (apply_password (sq_setting_name r) kv connection) (apply_response_values r rest)"

text \<open>The second result tells which values are handed to the deferred save, if one was asked for.\<close>

definition apply_secret_response ::
    "secret_request \<Rightarrow> secret_response \<Rightarrow> connection_settings
      \<Rightarrow> secret_agent_error + connection_settings \<times> (string, string) hash_map option" where
  "apply_secret_response r response connection =
     (if sr_cancelled response then Inl (UserCanceled ''secret request cancelled by frontend'')
      else case policy_rejection (sq_policy r) (sr_save response) of
             Some reason \<Rightarrow> Inl (NoSecrets reason)
           | None \<Rightarrow>
               (let vals = hm_retain (\<lambda>key v. key \<in> set (sq_secret_keys r) \<and> v \<noteq> [])
                      (response_values r (sr_password response) (sr_values response))
                in if vals = [] then Inl (NoSecrets ''secret request contained no requested values'')
                   else and_then (apply_response_values r vals connection) (\<lambda>connection'.
                     if \<not> request_values_complete r connection'
                     then Inl (NoSecrets ''not all requested secrets were supplied'')
                     else Inr (connection', if sr_save response
                       then Some (hm_retain (\<lambda>key _. key \<in> rp_persistent (sq_policy r)) vals) else None))))"

section \<open>The hand-off from a save to the next request\<close>

record handoff_entry =
  he_deadline :: instant
  he_values :: "(string, (string \<times> string) list) hash_map"

type_synonym handoff = "(string \<times> string \<times> string, handoff_entry) hash_map"

definition handoff_access :: "instant \<Rightarrow> handoff \<Rightarrow> handoff" where
  "handoff_access now h = hm_retain (\<lambda>_ e. now < he_deadline e) h"

definition settings_uuid :: "connection_settings \<Rightarrow> string option" where
  "settings_uuid connection =
     Option.bind (hm_get connection ''connection'') (\<lambda>s. Option.bind (setting_string s ''uuid'')
       (\<lambda>u. if u \<noteq> [] then Some u else None))"

text \<open>The values NetworkManager is allowed to keep: an unreadable section yields none.\<close>

definition connection_secret_values :: "connection_settings \<Rightarrow> (string \<times> string \<times> string) list" where
  "connection_secret_values connection =
     filter (\<lambda>(sec, key, _). case secret_flags connection sec key of Inl _ \<Rightarrow> False | Inr f \<Rightarrow> f AND NOT_SAVED = 0)
       (case secret_values connection of Inl _ \<Rightarrow> [] | Inr vs \<Rightarrow> vs)"

definition group_by_setting :: "(string \<times> string \<times> string) list \<Rightarrow> (string, (string \<times> string) list) hash_map" where
  "group_by_setting vs = foldl (\<lambda>m (sec, key, password).
     hm_insert sec ((case hm_get m sec of Some l \<Rightarrow> l | None \<Rightarrow> []) @ [(key, password)]) m) [] vs"

definition HANDOFF_LIMIT :: nat where
  "HANDOFF_LIMIT = 32"

definition earliest :: "handoff \<Rightarrow> (string \<times> string \<times> string) option" where
  "earliest h = (case h of [] \<Rightarrow> None
     | x # xs \<Rightarrow> Some (fst (foldl (\<lambda>a b. if he_deadline (snd b) < he_deadline (snd a) then b else a) x xs)))"

definition handoff_stage :: "instant \<Rightarrow> string \<Rightarrow> string \<Rightarrow> connection_settings \<Rightarrow> handoff \<Rightarrow> handoff" where
  "handoff_stage now owner path connection h0 =
     (case settings_uuid connection of
        None \<Rightarrow> h0
      | Some uuid \<Rightarrow>
          (let vals = group_by_setting (connection_secret_values connection);
               h = hm_retain (\<lambda>(_, p, _) _. p \<noteq> path) (handoff_access now h0)
           in if vals = [] then h
              else (let h' = (if HANDOFF_LIMIT \<le> length h
                              then (case earliest h of Some k \<Rightarrow> hm_remove k h | None \<Rightarrow> h) else h)
                    in hm_insert (owner, path, uuid)
                         \<lparr>he_deadline = now + SECRET_TIMEOUT, he_values = vals\<rparr> h')))"

definition handoff_take ::
    "instant \<Rightarrow> secret_request \<Rightarrow> connection_settings \<Rightarrow> handoff \<Rightarrow> (string \<times> string) list \<times> handoff" where
  "handoff_take now r connection h0 =
     (case settings_uuid connection of
        None \<Rightarrow> ([], h0)
      | Some uuid \<Rightarrow>
          (let h = handoff_access now h0;
               key = (case sq_nm_owner r of Some o1 \<Rightarrow> o1 | None \<Rightarrow> [], sq_connection_path r, uuid)
           in case hm_get h key of
                None \<Rightarrow> ([], h)
              | Some e \<Rightarrow>
                  (let found = (case hm_get (he_values e) (sq_setting_name r) of Some l \<Rightarrow> l | None \<Rightarrow> []);
                       rest = hm_remove (sq_setting_name r) (he_values e)
                   in (filter (\<lambda>(k, _). k \<in> set (sq_secret_keys r)) found,
                       if rest = [] then hm_remove key h else hm_insert key (e\<lparr>he_values := rest\<rparr>) h))))"

definition handoff_clear :: "instant \<Rightarrow> string option \<Rightarrow> handoff \<Rightarrow> handoff" where
  "handoff_clear now path h = hm_retain (\<lambda>(_, p, _) _. case path of None \<Rightarrow> False | Some q \<Rightarrow> q \<noteq> p) (handoff_access now h)"

section \<open>One request, from lookup to reply\<close>

text \<open>
  \<open>resolve_secret_request\<close> with the outcomes of its two liveness checks; \<open>interact\<close> prompts a frontend.
\<close>

definition resolve_secret_request ::
    "secret_agent_error + unit \<Rightarrow> secret_agent_error + unit \<Rightarrow> instant \<Rightarrow> secret_request \<Rightarrow> connection_settings
      \<Rightarrow> (connection_settings \<Rightarrow> secret_agent_error + connection_settings) \<Rightarrow> handoff
      \<Rightarrow> handoff \<times> (secret_agent_error + connection_settings)" where
  "resolve_secret_request live1 live2 now r connection interact h =
     (case live1 of
        Inl e \<Rightarrow> (h, Inl e)
      | Inr _ \<Rightarrow>
          (let fresh = (sq_flags r AND REQUEST_NEW \<noteq> 0);
               (h', stored) =
                 (if fresh then (handoff_clear now (Some (sq_connection_path r)) h, Inr (False, connection))
                  else (case handoff_take now r connection h of
                          (vs, h') \<Rightarrow> (h', apply_stored_values r vs connection)))
           in (h', and_then stored (\<lambda>(complete, c).
                 and_then live2 (\<lambda>_.
                   if complete then Inr c
                   else if sq_flags r AND ALLOW_INTERACTION = 0
                   then Inl (NoSecrets ''no usable stored secret and interaction is prohibited'')
                   else interact c)))))"

section \<open>The running agent\<close>

text \<open>
  A worker runs one request through these phases; between two of them any other thread may run. The
  system keeps, beside the agent's own state, the channels (what was sent on each), the events of the
  \<open>wifi.secret\<close> stream (newest first), the identifiers whose cancellation event a thread still has to
  emit, who was asked for each request and which answers were handed over.
\<close>

datatype worker_phase =
    Started connection_settings
  | Looking connection_settings
  | Looked bool connection_settings
  | Asking connection_settings
  | Subscribed "string list" connection_settings
  | Registered nat connection_settings
  | Waiting nat connection_settings
  | Answered secret_response connection_settings
  | Replying connection_settings
  | Delivered connection_settings
  | Ended secret_agent_error

record worker =
  wk_request :: secret_request
  wk_phase :: worker_phase

record agent_system =
  ag_registry :: pending_registry
  ag_flags :: "nat set"
  ag_scopes :: "nat \<Rightarrow> scope_state"
  ag_handoff :: handoff
  ag_mail :: "nat \<Rightarrow> secret_response list"
  ag_workers :: "(string, worker) hash_map"
  ag_outbox :: "string list"
  ag_events :: "(string \<times> string) list"
  ag_asked :: "(string \<times> string set) list"
  ag_given :: "(string \<times> string \<times> secret_response) list"

definition send_response :: "nat \<Rightarrow> secret_response \<Rightarrow> agent_system \<Rightarrow> agent_system" where
  "send_response ch resp s = s\<lparr>ag_mail := (ag_mail s)(ch := ag_mail s ch @ [resp])\<rparr>"

text \<open>Every retired request is answered with a cancellation; its event is still to be emitted.\<close>

definition retire :: "(string \<times> nat) list \<Rightarrow> agent_system \<Rightarrow> agent_system" where
  "retire ds s = s\<lparr>ag_mail := (\<lambda>ch. ag_mail s ch @ (if ch \<in> snd ` set ds then [response_cancelled] else [])),
     ag_outbox := map fst ds @ ag_outbox s\<rparr>"

definition set_phase :: "string \<Rightarrow> worker_phase \<Rightarrow> agent_system \<Rightarrow> agent_system" where
  "set_phase rid ph s = s\<lparr>ag_workers := (case hm_get (ag_workers s) rid of
      None \<Rightarrow> ag_workers s | Some w \<Rightarrow> hm_insert rid (w\<lparr>wk_phase := ph\<rparr>) (ag_workers s))\<rparr>"

definition emit_event :: "string \<Rightarrow> string \<Rightarrow> agent_system \<Rightarrow> agent_system" where
  "emit_event rid ev s = s\<lparr>ag_events := (rid, ev) # ag_events s\<rparr>"

definition remove_pending :: "string \<Rightarrow> agent_system \<Rightarrow> agent_system" where
  "remove_pending rid s = s\<lparr>ag_registry := snd (pg_remove rid (ag_registry s))\<rparr>"

definition check_live :: "instant \<Rightarrow> secret_request \<Rightarrow> agent_system \<Rightarrow> agent_system \<times> (secret_agent_error + unit)" where
  "check_live now r s =
     (case ensure_delivery_live now (ag_flags s) (ag_registry s) r (ag_scopes s) of
        (scopes, res) \<Rightarrow> (s\<lparr>ag_scopes := scopes\<rparr>, res))"

definition inflight_new :: "secret_request \<Rightarrow> connection_settings \<Rightarrow> agent_system \<Rightarrow> agent_system" where
  "inflight_new r c s =
     (if \<not> is_current_owner (ag_registry s) (sq_nm_owner r)
      then set_phase (sq_id r) (Ended (AgentFailed ''NetworkManager changed before lookup'')) s
      else (case cancel_by_key (sq_key r) (ag_registry s) (ag_flags s) of
              (displaced, g, flags) \<Rightarrow>
                set_phase (sq_id r) (Looking c)
                  (retire (case displaced of Some d \<Rightarrow> [d] | None \<Rightarrow> [])
                    (s\<lparr>ag_registry := g\<lparr>pg_inflight := hm_insert (sq_key r) (sq_cancelled r) (pg_inflight g)\<rparr>,
                       ag_flags := flags\<rparr>))))"

definition inflight_drop :: "secret_request \<Rightarrow> agent_system \<Rightarrow> agent_system" where
  "inflight_drop r s =
     (let g = ag_registry s
      in if hm_get (pg_inflight g) (sq_key r) = Some (sq_cancelled r)
         then s\<lparr>ag_registry := g\<lparr>pg_inflight := hm_remove (sq_key r) (pg_inflight g)\<rparr>\<rparr> else s)"

text \<open>The lookup: the first liveness check and the hand-off, then the second check and the decision.\<close>

definition look_up :: "instant \<Rightarrow> secret_request \<Rightarrow> connection_settings \<Rightarrow> agent_system \<Rightarrow> agent_system" where
  "look_up now r c s =
     (case check_live now r s of
        (s, Inl e) \<Rightarrow> set_phase (sq_id r) (Ended e) s
      | (s, Inr _) \<Rightarrow>
          if sq_flags r AND REQUEST_NEW \<noteq> 0
          then set_phase (sq_id r) (Looked False c)
                 (s\<lparr>ag_handoff := handoff_clear now (Some (sq_connection_path r)) (ag_handoff s)\<rparr>)
          else (case handoff_take now r c (ag_handoff s) of (vs, h) \<Rightarrow>
                  set_phase (sq_id r) (case apply_stored_values r vs c of
                      Inl e \<Rightarrow> Ended e | Inr (complete, c') \<Rightarrow> Looked complete c')
                    (s\<lparr>ag_handoff := h\<rparr>)))"

definition decide :: "instant \<Rightarrow> secret_request \<Rightarrow> bool \<Rightarrow> connection_settings \<Rightarrow> agent_system \<Rightarrow> agent_system" where
  "decide now r complete c s =
     (case check_live now r s of
        (s, Inl e) \<Rightarrow> set_phase (sq_id r) (Ended e) s
      | (s, Inr _) \<Rightarrow>
          set_phase (sq_id r)
            (if complete then Replying c
             else if sq_flags r AND ALLOW_INTERACTION = 0
             then Ended (NoSecrets ''no usable stored secret and interaction is prohibited'')
             else Asking c) s)"

text \<open>\<open>wait_for_secret_response\<close> up to the registration: who watches the stream.\<close>

definition find_frontends :: "instant \<Rightarrow> secret_request \<Rightarrow> string list \<Rightarrow> connection_settings \<Rightarrow> agent_system \<Rightarrow> agent_system" where
  "find_frontends now r owners c s =
     (case check_live now r s of
        (s, Inl e) \<Rightarrow> set_phase (sq_id r) (Ended e) s
      | (s, Inr _) \<Rightarrow>
          (let s = s\<lparr>ag_scopes := (case sq_activation r of None \<Rightarrow> ag_scopes s
                 | Some i \<Rightarrow> (ag_scopes s)(i := note_frontend_availability (owners \<noteq> []) (ag_scopes s i)))\<rparr>
           in set_phase (sq_id r)
                (if owners = [] then Ended (NoSecrets ''no frontend is subscribed to secret requests'')
                 else Subscribed owners c) s))"

text \<open>
  A refused registration or publication is reported as what ended the request, when the request has
  ended by itself.
\<close>

definition refuse :: "instant \<Rightarrow> secret_request \<Rightarrow> secret_agent_error \<Rightarrow> agent_system \<Rightarrow> agent_system" where
  "refuse now r e s =
     (case check_live now r s of (s', res) \<Rightarrow>
        set_phase (sq_id r) (Ended (case res of Inl e' \<Rightarrow> e' | Inr _ \<Rightarrow> e)) s')"

definition register_pending ::
    "instant \<Rightarrow> secret_request \<Rightarrow> string list \<Rightarrow> nat \<Rightarrow> connection_settings \<Rightarrow> agent_system \<Rightarrow> agent_system" where
  "register_pending now r owners ch c s =
     (if \<not> is_current_owner (ag_registry s) (sq_nm_owner r)
      then refuse now r (AgentFailed ''NetworkManager changed before secret registration'') s
      else if sq_cancelled r \<in> ag_flags s
      then refuse now r (UserCanceled ''secret request cancelled during lookup'') s
      else if \<not> request_live now (ag_flags s) (ag_scopes s) r
      then refuse now r (NoSecrets ''Credential request no longer belongs to a live activation'') s
      else (case pg_insert r owners ch (ag_registry s) of
              (displaced, replaced, g) \<Rightarrow>
                set_phase (sq_id r) (Registered ch c)
                  (retire (case displaced of Some d \<Rightarrow> [d] | None \<Rightarrow> [])
                    ((case replaced of Some ch' \<Rightarrow> send_response ch' response_cancelled | None \<Rightarrow> id)
                      (s\<lparr>ag_registry := g, ag_asked := (sq_id r, set owners) # ag_asked s\<rparr>)))))"

definition publish_prompt :: "instant \<Rightarrow> secret_request \<Rightarrow> nat \<Rightarrow> connection_settings \<Rightarrow> agent_system \<Rightarrow> agent_system" where
  "publish_prompt now r ch c s =
     (if hm_get (pg_requests (ag_registry s)) (sq_id r) = None \<or> \<not> request_live now (ag_flags s) (ag_scopes s) r
      then remove_pending (sq_id r)
             (refuse now r (UserCanceled ''secret request cancelled before prompting'') s)
      else set_phase (sq_id r) (Waiting ch c) (emit_event (sq_id r) ''requested'' s))"

text \<open>
  One round of \<open>receive_live_response\<close>: an ended request retires itself, a message is taken, a channel
  without sender ends the wait; otherwise the worker keeps waiting. Leaving drops the registration. The
  check before a wait and the one after it are the same check, as nothing happens in this thread
  between the end of one wait and the start of the next.
\<close>

definition give_up :: "secret_request \<Rightarrow> secret_agent_error \<Rightarrow> agent_system \<Rightarrow> agent_system" where
  "give_up r e s = set_phase (sq_id r) (Ended e) (emit_event (sq_id r) ''cancelled'' (remove_pending (sq_id r) s))"

definition receive_round :: "instant \<Rightarrow> secret_request \<Rightarrow> nat \<Rightarrow> connection_settings \<Rightarrow> agent_system \<Rightarrow> agent_system" where
  "receive_round now r ch c s =
     (case check_live now r s of
        (s, Inl e) \<Rightarrow> give_up r e s
      | (s, Inr _) \<Rightarrow>
          (case ag_mail s ch of
             resp # _ \<Rightarrow> remove_pending (sq_id r) (set_phase (sq_id r) (Answered resp c) s)
           | [] \<Rightarrow>
               if hm_get (pg_requests (ag_registry s)) (sq_id r) = None
               then give_up r (UserCanceled ''Credential request retired'') s else s))"

definition use_answer :: "secret_request \<Rightarrow> secret_response \<Rightarrow> connection_settings \<Rightarrow> agent_system \<Rightarrow> agent_system" where
  "use_answer r resp c s =
     set_phase (sq_id r)
       (case apply_secret_response r resp c of Inl e \<Rightarrow> Ended e | Inr (c', _) \<Rightarrow> Replying c')
       (s\<lparr>ag_scopes := (if sr_cancelled resp then request_stop StopCancelled r (ag_scopes s) else ag_scopes s)\<rparr>)"

definition deliver :: "instant \<Rightarrow> secret_request \<Rightarrow> connection_settings \<Rightarrow> agent_system \<Rightarrow> agent_system" where
  "deliver now r c s =
     (case check_live now r s of
        (s, Inl e) \<Rightarrow> set_phase (sq_id r) (Ended e) (emit_event (sq_id r) ''cancelled'' s)
      | (s, Inr _) \<Rightarrow> set_phase (sq_id r) (Delivered c) s)"

text \<open>\<open>CancelGetSecrets\<close>, \<open>DeleteSecrets\<close>, \<open>SaveSecrets\<close> and a new owner of the NetworkManager name.\<close>

definition cancel_get_secrets :: "instant \<Rightarrow> string \<Rightarrow> string \<Rightarrow> agent_system \<Rightarrow> agent_system" where
  "cancel_get_secrets now path setting_name s =
     (case cancel_by_key (key_for path setting_name) (ag_registry s) (ag_flags s) of
        (d, g, flags) \<Rightarrow> retire (case d of Some x \<Rightarrow> [x] | None \<Rightarrow> [])
          (s\<lparr>ag_registry := g, ag_flags := flags, ag_handoff := handoff_clear now (Some path) (ag_handoff s)\<rparr>))"

definition delete_secrets :: "instant \<Rightarrow> string \<Rightarrow> string \<Rightarrow> agent_system \<Rightarrow> agent_system" where
  "delete_secrets now owner path s0 =
     (let s = s0\<lparr>ag_handoff := handoff_clear now (Some path) (ag_handoff s0)\<rparr>
      in if ensure_secret_owner (Some owner) (ag_registry s) \<noteq> Inr () then s
         else (case cancel_connection path (ag_registry s) (ag_flags s) of
                 (ds, g, flags) \<Rightarrow> retire ds (s\<lparr>ag_registry := g, ag_flags := flags\<rparr>)))"

definition save_secrets :: "instant \<Rightarrow> string \<Rightarrow> string \<Rightarrow> connection_settings \<Rightarrow> agent_system \<Rightarrow> agent_system" where
  "save_secrets now owner path connection s =
     (if ensure_secret_owner (Some owner) (ag_registry s) \<noteq> Inr () then s
      else s\<lparr>ag_handoff := handoff_stage now owner path connection (ag_handoff s)\<rparr>)"

definition change_network_manager_owner :: "instant \<Rightarrow> string option \<Rightarrow> agent_system \<Rightarrow> agent_system" where
  "change_network_manager_owner now owner s =
     (let g = ag_registry s
      in retire (map (\<lambda>(rid, e). (rid, pn_sender e)) (pg_requests g))
           (s\<lparr>ag_registry := \<lparr>pg_inflight = [], pg_nm_owner = owner, pg_requests = []\<rparr>,
              ag_flags := ag_flags s \<union> snd ` set (pg_inflight g),
              ag_handoff := handoff_clear now None (ag_handoff s)\<rparr>))"

text \<open>
  \<open>provide\<close>: a frontend's answer. A retention choice the profile cannot honour is refused and the prompt
  stays; otherwise the answer is accepted when the caller was asked and the request still lives. The
  refusal and the removal of the request are two critical sections. \<open>alive\<close> is whether the worker still
  holds its end of the channel when the answer is sent.
\<close>

record provide_params =
  vp_request_id :: string
  vp_save :: bool
  vp_password :: "string option"
  vp_values :: "(string, string) hash_map"
  vp_cancel :: bool

definition provide_rejection :: "instant \<Rightarrow> string option \<Rightarrow> provide_params \<Rightarrow> agent_system \<Rightarrow> string option" where
  "provide_rejection now owner p s =
     (if vp_cancel p then None
      else case hm_get (pg_requests (ag_registry s)) (vp_request_id p) of
             None \<Rightarrow> None
           | Some e \<Rightarrow>
               if (case owner of None \<Rightarrow> False | Some o1 \<Rightarrow> o1 \<in> pn_owners e)
                  \<and> request_live now (ag_flags s) (ag_scopes s) (pn_request e)
               then policy_rejection (sq_policy (pn_request e)) (vp_save p) else None)"

definition provide_answer ::
    "instant \<Rightarrow> string option \<Rightarrow> provide_params \<Rightarrow> bool \<Rightarrow> agent_system \<Rightarrow> agent_system \<times> bool" where
  "provide_answer now owner p alive s =
     (case remove_for_owner now (ag_flags s) (ag_scopes s) (vp_request_id p) owner (ag_registry s) of
        (sender, g) \<Rightarrow>
          (let s = s\<lparr>ag_registry := g\<rparr>;
               resp = \<lparr>sr_password = vp_password p, sr_values = vp_values p, sr_save = vp_save p,
                       sr_cancelled = vp_cancel p\<rparr>
           in case (sender, owner) of
                (Some ch, Some o1) \<Rightarrow>
                  if alive
                  then ((send_response ch resp s)\<lparr>ag_given := (vp_request_id p, o1, resp) # ag_given s\<rparr>, True)
                  else (s, False)
              | _ \<Rightarrow> (s, False)))"

definition secret_provide ::
    "instant \<Rightarrow> string option \<Rightarrow> provide_params \<Rightarrow> bool \<Rightarrow> agent_system \<Rightarrow> agent_system \<times> (string + bool)" where
  "secret_provide now owner p alive s =
     (case provide_rejection now owner p s of
        Some reason \<Rightarrow> (s, Inl reason)
      | None \<Rightarrow> (case provide_answer now owner p alive s of (s', accepted) \<Rightarrow> (s', Inr accepted)))"

definition worker_at :: "agent_system \<Rightarrow> string \<Rightarrow> secret_request \<Rightarrow> worker_phase \<Rightarrow> bool" where
  "worker_at s rid r ph \<longleftrightarrow> hm_get (ag_workers s) rid = Some \<lparr>wk_request = r, wk_phase = ph\<rparr>"

fun chan_of :: "worker_phase \<Rightarrow> nat option" where
  "chan_of (Registered ch _) = Some ch"
| "chan_of (Waiting ch _) = Some ch"
| "chan_of _ = None"

fun unasked :: "worker_phase \<Rightarrow> bool" where
  "unasked (Started _) = True"
| "unasked (Looking _) = True"
| "unasked (Looked _ _) = True"
| "unasked (Asking _) = True"
| "unasked (Subscribed _ _) = True"
| "unasked _ = False"

text \<open>
  One step of the system, at any time \<open>now\<close>. Request ids and cancellation flags are new for every request,
  channels for every registration; activation scopes change as the activations they belong to do.
\<close>

inductive agent_step :: "agent_system \<Rightarrow> agent_system \<Rightarrow> bool" where
  arrives: "hm_get (ag_workers s) rid = None \<Longrightarrow>
     request_prepare active (ag_scopes s) settings owner (request_new now rid flag path setting_name hints flags) = Inr r \<Longrightarrow>
     is_current_owner (ag_registry s) (Some owner) \<Longrightarrow>
     agent_step s (s\<lparr>ag_workers := hm_insert rid \<lparr>wk_request = r, wk_phase = Started settings\<rparr> (ag_workers s)\<rparr>)"
| tracked: "worker_at s rid r (Started c) \<Longrightarrow> agent_step s (inflight_new r c s)"
| looks: "worker_at s rid r (Looking c) \<Longrightarrow> agent_step s (look_up now r c s)"
| decides: "worker_at s rid r (Looked complete c) \<Longrightarrow> agent_step s (decide now r complete c s)"
| subscribes: "worker_at s rid r (Asking c) \<Longrightarrow> agent_step s (find_frontends now r owners c s)"
| registers: "worker_at s rid r (Subscribed owners c) \<Longrightarrow> ag_mail s ch = [] \<Longrightarrow>
     \<forall>(rid', w) \<in> set (ag_workers s). chan_of (wk_phase w) \<noteq> Some ch \<Longrightarrow>
     agent_step s (register_pending now r owners ch c s)"
| publishes: "worker_at s rid r (Registered ch c) \<Longrightarrow> agent_step s (publish_prompt now r ch c s)"
| receives: "worker_at s rid r (Waiting ch c) \<Longrightarrow> agent_step s (receive_round now r ch c s)"
| answers: "worker_at s rid r (Answered resp c) \<Longrightarrow> agent_step s (use_answer r resp c s)"
| delivers: "worker_at s rid r (Replying c) \<Longrightarrow> agent_step s (deliver now r c s)"
| leaves: "hm_get (ag_workers s) rid = Some w \<Longrightarrow> agent_step s (inflight_drop (wk_request w) s)"
| nm_cancels: "agent_step s (cancel_get_secrets now path setting_name s)"
| nm_deletes: "agent_step s (delete_secrets now owner path s)"
| nm_saves: "agent_step s (save_secrets now owner path connection s)"
| owner_moves: "agent_step s (change_network_manager_owner now new_owner s)"
| provides: "agent_step s (fst (provide_answer now caller p alive s))"
| flushes: "rid \<in> set (ag_outbox s) \<Longrightarrow>
     agent_step s ((emit_event rid ''cancelled'' s)\<lparr>ag_outbox := remove1 rid (ag_outbox s)\<rparr>)"
| scopes_change: "agent_step s (s\<lparr>ag_scopes := scopes\<rparr>)"

inductive agent_reachable :: "agent_system \<Rightarrow> bool" where
  agent_start: "agent_reachable
     \<lparr>ag_registry = \<lparr>pg_inflight = [], pg_nm_owner = None, pg_requests = []\<rparr>, ag_flags = {}, ag_scopes = scopes,
      ag_handoff = [], ag_mail = (\<lambda>_. []), ag_workers = [], ag_outbox = [], ag_events = [], ag_asked = [], ag_given = []\<rparr>"
| agent_next: "agent_reachable s \<Longrightarrow> agent_step s t \<Longrightarrow> agent_reachable t"

section \<open>The invariant\<close>

abbreviation pending :: "agent_system \<Rightarrow> string \<Rightarrow> pending_entry option" where
  "pending s \<equiv> map_of (pg_requests (ag_registry s))"

abbreviation worker_of :: "agent_system \<Rightarrow> string \<Rightarrow> worker option" where
  "worker_of s \<equiv> map_of (ag_workers s)"

definition entry_ok :: "agent_system \<Rightarrow> string \<Rightarrow> pending_entry \<Rightarrow> bool" where
  "entry_ok s rid e \<longleftrightarrow> sq_nm_owner (pn_request e) = pg_nm_owner (ag_registry s) \<and> ag_mail s (pn_sender e) = [] \<and>
     (rid, pn_owners e) \<in> set (ag_asked s) \<and>
     (\<exists>w. worker_of s rid = Some w \<and> wk_request w = pn_request e \<and> chan_of (wk_phase w) = Some (pn_sender e))"

text \<open>A request that can no longer be prompted for or answered.\<close>

definition retired :: "agent_system \<Rightarrow> string \<Rightarrow> bool" where
  "retired s rid \<longleftrightarrow> pending s rid = None \<and> (\<exists>w. worker_of s rid = Some w \<and> \<not> unasked (wk_phase w))"

definition prompted :: "agent_system \<Rightarrow> string \<Rightarrow> bool" where
  "prompted s rid \<longleftrightarrow> (\<exists>w. worker_of s rid = Some w \<and> \<not> unasked (wk_phase w) \<and> (\<forall>ch c. wk_phase w \<noteq> Registered ch c))"

definition given_for :: "agent_system \<Rightarrow> string \<Rightarrow> secret_response \<Rightarrow> bool" where
  "given_for s rid resp \<longleftrightarrow> sr_cancelled resp \<or> (\<exists>o1. (rid, o1, resp) \<in> set (ag_given s))"

definition worker_ok :: "agent_system \<Rightarrow> string \<Rightarrow> worker \<Rightarrow> bool" where
  "worker_ok s rid w \<longleftrightarrow> sq_id (wk_request w) = rid \<and>
     (\<forall>ch. chan_of (wk_phase w) = Some ch \<longrightarrow> (\<forall>resp \<in> set (ag_mail s ch). given_for s rid resp)) \<and>
     (\<forall>resp c. wk_phase w = Answered resp c \<longrightarrow> given_for s rid resp)"

definition registry_ok :: "agent_system \<Rightarrow> bool" where
  "registry_ok s \<longleftrightarrow> hm_wf (pg_requests (ag_registry s)) \<and> hm_wf (ag_workers s) \<and>
     (\<forall>rid e. pending s rid = Some e \<longrightarrow> entry_ok s rid e) \<and>
     (\<forall>rid rid' e e'. pending s rid = Some e \<and> pending s rid' = Some e' \<and>
        sq_key (pn_request e) = sq_key (pn_request e') \<longrightarrow> rid = rid')"

definition workers_ok :: "agent_system \<Rightarrow> bool" where
  "workers_ok s \<longleftrightarrow> (\<forall>rid w. worker_of s rid = Some w \<longrightarrow> worker_ok s rid w) \<and>
     (\<forall>rid rid' w w' ch. worker_of s rid = Some w \<and> worker_of s rid' = Some w' \<and>
        chan_of (wk_phase w) = Some ch \<and> chan_of (wk_phase w') = Some ch \<longrightarrow> rid = rid')"

fun well_ordered :: "(string \<times> string) list \<Rightarrow> bool" where
  "well_ordered [] = True"
| "well_ordered ((rid, ev) # evs) =
     ((ev = ''requested'' \<longrightarrow> (rid, ''requested'') \<notin> set evs \<and> (rid, ''cancelled'') \<notin> set evs) \<and> well_ordered evs)"

definition history_ok :: "agent_system \<Rightarrow> bool" where
  "history_ok s \<longleftrightarrow> well_ordered (ag_events s) \<and>
     (\<forall>rid. (rid, ''cancelled'') \<in> set (ag_events s) \<or> rid \<in> set (ag_outbox s) \<longrightarrow> retired s rid) \<and>
     (\<forall>rid. (rid, ''requested'') \<in> set (ag_events s) \<longrightarrow> prompted s rid) \<and>
     (\<forall>(rid, o1, resp) \<in> set (ag_given s). retired s rid \<and> (\<exists>owners. (rid, owners) \<in> set (ag_asked s) \<and> o1 \<in> owners)) \<and>
     distinct (map fst (ag_given s))"

definition agent_inv :: "agent_system \<Rightarrow> bool" where
  "agent_inv s \<longleftrightarrow> registry_ok s \<and> workers_ok s \<and> history_ok s"

text \<open>
  Most steps do one of three things: they leave the registry, the channels and the history alone
  (\<open>quiet\<close>), they take requests out of the registry, or they move one worker on.
\<close>

definition quiet :: "agent_system \<Rightarrow> agent_system \<Rightarrow> bool" where
  "quiet s t \<longleftrightarrow> pg_requests (ag_registry t) = pg_requests (ag_registry s) \<and>
     pg_nm_owner (ag_registry t) = pg_nm_owner (ag_registry s) \<and> ag_mail t = ag_mail s \<and> ag_workers t = ag_workers s \<and>
     ag_outbox t = ag_outbox s \<and> ag_events t = ag_events s \<and> ag_asked t = ag_asked s \<and> ag_given t = ag_given s"

lemma quiet_inv: "quiet s t \<Longrightarrow> agent_inv s \<Longrightarrow> agent_inv t"
  unfolding quiet_def agent_inv_def registry_ok_def workers_ok_def history_ok_def entry_ok_def worker_ok_def
    retired_def prompted_def given_for_def by simp

lemma quiet_worker: "quiet s t \<Longrightarrow> worker_at t rid r ph = worker_at s rid r ph"
  by (simp add: quiet_def worker_at_def)

lemma quiet_refl [simp]: "quiet s s"
  by (simp add: quiet_def)

lemma check_live_quiet: "check_live now r s = (s', res) \<Longrightarrow> quiet s s'"
  by (auto simp: check_live_def quiet_def split: prod.splits)

text \<open>Taking requests out: the retired ones get a cancellation, or nothing.\<close>

lemma registry_ok_shrink:
  assumes ok: "registry_ok s" and g: "pg_requests g = filter P (pg_requests (ag_registry s))"
      "pg_nm_owner g = pg_nm_owner (ag_registry s)"
  shows "registry_ok (s\<lparr>ag_registry := g\<rparr>)"
    and "map_of (pg_requests g) rid = Some e \<Longrightarrow> pending s rid = Some e"
    and "pending s rid = Some e \<Longrightarrow> map_of (pg_requests g) rid = (if P (rid, e) then Some e else None)"
proof -
  have wf: "hm_wf (pg_requests (ag_registry s))" using ok by (simp add: registry_ok_def)
  then have ret: "map_of (pg_requests g) k = (case pending s k of None \<Rightarrow> None | Some v \<Rightarrow> if P (k, v) then Some v else None)" for k
    using map_of_hm_retain [OF wf, of "\<lambda>k v. P (k, v)" k] g(1) by (simp add: hm_retain_def)
  then show sub: "\<And>rid e. map_of (pg_requests g) rid = Some e \<Longrightarrow> pending s rid = Some e"
    and "pending s rid = Some e \<Longrightarrow> map_of (pg_requests g) rid = (if P (rid, e) then Some e else None)"
    by (auto split: option.splits if_splits)
  have "hm_wf (pg_requests g)" using hm_wf_retain [OF wf, of "\<lambda>k v. P (k, v)"] g(1) by (simp add: hm_retain_def)
  with ok sub show "registry_ok (s\<lparr>ag_registry := g\<rparr>)"
    unfolding registry_ok_def entry_ok_def using g(2) by simp (metis (no_types, lifting))
qed

lemma shrink_inv:
  assumes inv: "agent_inv s" and g: "pg_requests g = filter P (pg_requests (ag_registry s))"
      "pg_nm_owner g = pg_nm_owner (ag_registry s)"
  shows "agent_inv (s\<lparr>ag_registry := g\<rparr>)"
proof -
  from inv have ok: "registry_ok s" by (simp add: agent_inv_def)
  note shrink = registry_ok_shrink [OF ok g]
  have "map_of (pg_requests g) rid = None" if "pending s rid = None" for rid
    using shrink(2) that by (metis option.exhaust)
  then have "retired s rid \<Longrightarrow> retired (s\<lparr>ag_registry := g\<rparr>) rid" for rid by (simp add: retired_def)
  moreover have "prompted (s\<lparr>ag_registry := g\<rparr>) rid = prompted s rid" for rid by (simp add: prompted_def)
  moreover have "workers_ok (s\<lparr>ag_registry := g\<rparr>) = workers_ok s" by (simp add: workers_ok_def worker_ok_def given_for_def)
  ultimately show ?thesis
    using inv shrink(1) unfolding agent_inv_def history_ok_def by fastforce
qed

definition takes_out :: "pending_registry \<Rightarrow> (string \<times> nat) list \<Rightarrow> pending_registry \<Rightarrow> bool" where
  "takes_out g ds g' \<longleftrightarrow> (\<exists>P. pg_requests g' = filter P (pg_requests g)) \<and>
     (pg_nm_owner g' = pg_nm_owner g \<or> pg_requests g' = []) \<and>
     (\<forall>(rid, ch) \<in> set ds. map_of (pg_requests g') rid = None \<and>
        (\<exists>e. map_of (pg_requests g) rid = Some e \<and> pn_sender e = ch))"

lemma filter_sub:
  "hm_wf m \<Longrightarrow> map_of (filter P m) k = Some v \<Longrightarrow> map_of m k = Some v"
  using map_of_hm_retain [of m "\<lambda>k v. P (k, v)" k] by (auto simp: hm_retain_def split: option.splits if_splits)

lemma takes_out_refl [simp]: "takes_out g [] g"
  unfolding takes_out_def by (auto intro: exI [of _ "\<lambda>_. True"])

lemma takes_out_trans:
  assumes "hm_wf (pg_requests g)" "takes_out g ds g'" "takes_out g' ds' g''"
  shows "takes_out g (ds @ ds') g''"
proof -
  from assms(2) obtain P where P: "pg_requests g' = filter P (pg_requests g)" by (auto simp: takes_out_def)
  from assms(3) obtain Q where Q: "pg_requests g'' = filter Q (pg_requests g')" by (auto simp: takes_out_def)
  have wf': "hm_wf (pg_requests g')"
    using hm_wf_retain [OF assms(1), of "\<lambda>k v. P (k, v)"] P by (simp add: hm_retain_def)
  have sub: "map_of (pg_requests g') k = Some v \<Longrightarrow> map_of (pg_requests g) k = Some v"
    "map_of (pg_requests g'') k = Some v \<Longrightarrow> map_of (pg_requests g') k = Some v" for k v
    using filter_sub [OF assms(1)] filter_sub [OF wf'] P Q by auto
  have "pg_requests g'' = filter (\<lambda>x. P x \<and> Q x) (pg_requests g)" using P Q by (simp add: conj_commute)
  moreover have "pg_nm_owner g'' = pg_nm_owner g \<or> pg_requests g'' = []"
    using assms(2,3) Q by (auto simp: takes_out_def)
  moreover have "map_of (pg_requests g'') rid = None \<and> (\<exists>e. map_of (pg_requests g) rid = Some e \<and> pn_sender e = ch)"
    if "(rid, ch) \<in> set (ds @ ds')" for rid ch
  proof (cases "(rid, ch) \<in> set ds")
    case True
    with assms(2) have "map_of (pg_requests g') rid = None" "\<exists>e. map_of (pg_requests g) rid = Some e \<and> pn_sender e = ch"
      by (auto simp: takes_out_def)
    then show ?thesis using sub(2) by (metis option.exhaust)
  next
    case False
    with that assms(3) have "map_of (pg_requests g'') rid = None" "\<exists>e. map_of (pg_requests g') rid = Some e \<and> pn_sender e = ch"
      by (auto simp: takes_out_def)
    then show ?thesis using sub(1) by blast
  qed
  ultimately show ?thesis unfolding takes_out_def by blast
qed

lemma pg_remove_takes: "pg_remove rid g = (x, g') \<Longrightarrow>
   takes_out g (case x of Some ch \<Rightarrow> [(rid, ch)] | None \<Rightarrow> []) g' \<and> pg_inflight g' = pg_inflight g \<and> map_of (pg_requests g') rid = None"
proof -
  assume r: "pg_remove rid g = (x, g')"
  then have g': "g' = g\<lparr>pg_requests := hm_remove rid (pg_requests g)\<rparr>" and x: "x = map_option pn_sender (hm_get (pg_requests g) rid)"
    by (auto simp: pg_remove_def)
  have "\<exists>P. hm_remove rid (pg_requests g) = filter P (pg_requests g)" unfolding AList.delete_eq by blast
  then show ?thesis by (cases "hm_get (pg_requests g) rid") (simp_all add: g' x takes_out_def map_of_delete)
qed

lemma remove_by_key_takes:
  assumes "remove_by_key key g = (d, g')"
  shows "takes_out g (case d of Some x \<Rightarrow> [x] | None \<Rightarrow> []) g'"
proof (cases "find (\<lambda>(rid, e). sq_key (pn_request e) = key) (pg_requests g)")
  case None
  with assms show ?thesis by (simp add: remove_by_key_def)
next
  case (Some x)
  obtain rid e where x: "x = (rid, e)" by (cases x)
  obtain ch g1 where r: "pg_remove rid g = (ch, g1)" by fastforce
  with assms Some x have "g' = g1" "d = map_option (Pair rid) ch" by (auto simp: remove_by_key_def)
  with pg_remove_takes [OF r] show ?thesis by (auto split: option.splits)
qed

lemma remove_by_key_gone:
  assumes ok: "registry_ok s" and r: "remove_by_key key (ag_registry s) = (d, g')"
  shows "\<forall>rid e. map_of (pg_requests g') rid = Some e \<longrightarrow> sq_key (pn_request e) \<noteq> key"
proof (cases "find (\<lambda>(rid, e). sq_key (pn_request e) = key) (pg_requests (ag_registry s))")
  case None
  with r have "g' = ag_registry s" by (simp add: remove_by_key_def)
  then show ?thesis using None by (auto simp: find_None_iff dest: map_of_SomeD)
next
  case (Some x)
  obtain rid e where x: "x = (rid, e)" by (cases x)
  have wf: "hm_wf (pg_requests (ag_registry s))" using ok by (simp add: registry_ok_def)
  from Some x have "(rid, e) \<in> set (pg_requests (ag_registry s))" and k: "sq_key (pn_request e) = key"
    by (auto simp: find_Some_iff) (metis nth_mem)
  then have e: "pending s rid = Some e" using wf by (simp add: hm_in_set_iff)
  from r Some x have "pg_requests g' = hm_remove rid (pg_requests (ag_registry s))"
    by (auto simp: remove_by_key_def pg_remove_def)
  then have "map_of (pg_requests g') k = (if k = rid then None else pending s k)" for k by (simp add: map_of_delete)
  then show ?thesis using ok e k unfolding registry_ok_def by (metis option.distinct(1))
qed

lemma cancel_by_key_takes:
  "cancel_by_key key g flags = (d, g', flags') \<Longrightarrow> takes_out g (case d of Some x \<Rightarrow> [x] | None \<Rightarrow> []) g'"
  by (auto simp: cancel_by_key_def Let_def remove_by_key_takes split: prod.splits)

lemma takes_out_wf: "takes_out g ds g' \<Longrightarrow> hm_wf (pg_requests g) \<Longrightarrow> hm_wf (pg_requests g')"
  using hm_wf_retain [of "pg_requests g" "\<lambda>k v. P (k, v)" for P]
  by (auto simp: takes_out_def hm_retain_def)

lemma cancel_keys_takes:
  "cancel_keys ks g flags = (ds, g', flags') \<Longrightarrow> hm_wf (pg_requests g) \<Longrightarrow> takes_out g ds g'"
proof (induction ks g flags arbitrary: ds g' flags' rule: cancel_keys.induct)
  case (2 k ks g flags)
  obtain d g1 f1 where c: "cancel_by_key k g flags = (d, g1, f1)" by (cases "cancel_by_key k g flags") auto
  obtain ds2 g2 f2 where r: "cancel_keys ks g1 f1 = (ds2, g2, f2)" by (cases "cancel_keys ks g1 f1") auto
  note t1 = cancel_by_key_takes [OF c]
  from 2(1) [OF c [symmetric] refl r takes_out_wf [OF t1 2(3)]] have "takes_out g1 ds2 g2" .
  from takes_out_trans [OF 2(3) t1 this] 2(2) c r show ?case by (auto split: option.splits)
qed simp

text \<open>Requests taken out are retired and answered.\<close>

lemma taken_retired:
  assumes inv: "agent_inv s" and t: "takes_out (ag_registry s) ds g'" and d: "(rid, ch) \<in> set ds"
  shows "retired (s\<lparr>ag_registry := g'\<rparr>) rid \<and> (\<exists>w. worker_of s rid = Some w \<and> chan_of (wk_phase w) = Some ch)"
proof -
  from t d obtain e where e: "pending s rid = Some e" "pn_sender e = ch" "map_of (pg_requests g') rid = None"
    by (auto simp: takes_out_def)
  from inv e have "entry_ok s rid e" by (simp add: agent_inv_def registry_ok_def)
  then obtain w where w: "worker_of s rid = Some w" "chan_of (wk_phase w) = Some ch"
    using e(2) by (auto simp: entry_ok_def)
  then have "\<not> unasked (wk_phase w)" by (cases "wk_phase w") auto
  with w e(3) show ?thesis by (auto simp: retired_def)
qed

lemma take_out_keeps_inv:
  assumes inv: "agent_inv s" and t: "takes_out (ag_registry s) ds g'"
  shows "agent_inv (s\<lparr>ag_registry := g'\<rparr>)"
proof -
  from t obtain P where P: "pg_requests g' = filter P (pg_requests (ag_registry s))" by (auto simp: takes_out_def)
  show ?thesis
  proof (cases "pg_nm_owner g' = pg_nm_owner (ag_registry s)")
    case True
    then show ?thesis by (rule shrink_inv [OF inv P])
  next
    case False
    with t have empty: "pg_requests g' = []" by (auto simp: takes_out_def)
    have "retired s rid \<Longrightarrow> retired (s\<lparr>ag_registry := g'\<rparr>) rid" for rid by (simp add: retired_def empty)
    moreover have "prompted (s\<lparr>ag_registry := g'\<rparr>) rid = prompted s rid" for rid by (simp add: prompted_def)
    moreover have "workers_ok (s\<lparr>ag_registry := g'\<rparr>) = workers_ok s" by (simp add: workers_ok_def worker_ok_def given_for_def)
    moreover have "registry_ok (s\<lparr>ag_registry := g'\<rparr>)" using inv by (simp add: agent_inv_def registry_ok_def empty)
    ultimately show ?thesis using inv unfolding agent_inv_def history_ok_def by fastforce
  qed
qed

lemma retire_inv:
  assumes inv: "agent_inv s"
    and ds: "\<And>rid ch. (rid, ch) \<in> set ds \<Longrightarrow>
       retired s rid \<and> (\<exists>w. worker_of s rid = Some w \<and> chan_of (wk_phase w) = Some ch)"
  shows "agent_inv (retire ds s)"
proof -
  have ch: "pn_sender e \<notin> snd ` set ds" if e: "pending s rid = Some e" for rid e
  proof
    assume "pn_sender e \<in> snd ` set ds"
    then obtain rid' where "(rid', pn_sender e) \<in> set ds" by auto
    from ds [OF this] obtain w' where w': "retired s rid'" "worker_of s rid' = Some w'" "chan_of (wk_phase w') = Some (pn_sender e)"
      by blast
    from inv e have "entry_ok s rid e" by (simp add: agent_inv_def registry_ok_def)
    then obtain w where "worker_of s rid = Some w" "chan_of (wk_phase w) = Some (pn_sender e)"
      by (auto simp: entry_ok_def)
    with w' inv have "rid = rid'" unfolding agent_inv_def workers_ok_def by blast
    with w'(1) e show False by (simp add: retired_def)
  qed
  have "entry_ok (retire ds s) rid e" if "pending s rid = Some e" "entry_ok s rid e" for rid e
    using that(2) ch [OF that(1)] by (simp add: entry_ok_def retire_def)
  then have "registry_ok (retire ds s)"
    using inv unfolding agent_inv_def registry_ok_def by (simp add: retire_def [of ds s])
  moreover have "worker_ok (retire ds s) rid w" if "worker_ok s rid w" for rid w
    using that by (auto simp: worker_ok_def given_for_def retire_def response_cancelled_def)
  then have "workers_ok (retire ds s)"
    using inv unfolding agent_inv_def workers_ok_def by (simp add: retire_def [of ds s])
  moreover have "retired (retire ds s) rid = retired s rid" "prompted (retire ds s) rid = prompted s rid" for rid
    by (simp_all add: retired_def prompted_def retire_def)
  then have "history_ok (retire ds s)"
    using inv ds unfolding agent_inv_def history_ok_def by (auto simp: retire_def [of ds s])
  ultimately show ?thesis by (simp add: agent_inv_def)
qed

lemma taken_inv:
  assumes inv: "agent_inv s" and t: "takes_out (ag_registry s) ds g'" and q: "quiet (s\<lparr>ag_registry := g'\<rparr>) s'"
  shows "agent_inv (retire ds s')"
proof (rule retire_inv)
  show "agent_inv s'" using quiet_inv [OF q take_out_keeps_inv [OF inv t]] .
  fix rid ch assume "(rid, ch) \<in> set ds"
  from taken_retired [OF inv t this] q
  show "retired s' rid \<and> (\<exists>w. worker_of s' rid = Some w \<and> chan_of (wk_phase w) = Some ch)"
    by (simp add: quiet_def retired_def)
qed

text \<open>Moving a worker on.\<close>

lemma set_phase_frame [simp]:
  "ag_registry (set_phase rid ph s) = ag_registry s" "ag_mail (set_phase rid ph s) = ag_mail s"
  "ag_outbox (set_phase rid ph s) = ag_outbox s" "ag_events (set_phase rid ph s) = ag_events s"
  "ag_asked (set_phase rid ph s) = ag_asked s" "ag_given (set_phase rid ph s) = ag_given s"
  "ag_flags (set_phase rid ph s) = ag_flags s" "ag_scopes (set_phase rid ph s) = ag_scopes s"
  by (simp_all add: set_phase_def)

lemma set_phase_workers:
  "worker_at s rid r ph0 \<Longrightarrow> worker_of (set_phase rid ph s) = (worker_of s)(rid \<mapsto> \<lparr>wk_request = r, wk_phase = ph\<rparr>)"
  by (simp add: set_phase_def worker_at_def update_conv')

lemma unasked_not_pending:
  assumes "registry_ok s" and "worker_at s rid r ph" and "chan_of ph = None"
  shows "pending s rid = None"
proof (rule ccontr)
  assume "pending s rid \<noteq> None"
  then obtain e where "pending s rid = Some e" by blast
  with assms(1) have "entry_ok s rid e" by (simp add: registry_ok_def)
  with assms(2,3) show False by (auto simp: entry_ok_def worker_at_def)
qed

lemma set_phase_inv:
  assumes inv: "agent_inv s" and w: "worker_at s rid r ph0"
    and move: "unasked ph \<Longrightarrow> unasked ph0" "\<not> unasked ph0 \<Longrightarrow> (\<exists>ch c. ph = Registered ch c) \<Longrightarrow> (\<exists>ch c. ph0 = Registered ch c)"
    and chan: "chan_of ph = chan_of ph0 \<or> (chan_of ph = None \<and> pending s rid = None)"
    and given: "\<And>resp c. ph = Answered resp c \<Longrightarrow> given_for s rid resp"
  shows "agent_inv (set_phase rid ph s)"
proof -
  let ?t = "set_phase rid ph s"
  note ws = set_phase_workers [OF w, of ph]
  from w have ow: "worker_of s rid = Some \<lparr>wk_request = r, wk_phase = ph0\<rparr>" by (simp add: worker_at_def)
  have reg: "registry_ok s" and wok: "workers_ok s" and hist: "history_ok s" using inv by (simp_all add: agent_inv_def)
  have ret: "retired ?t k" if "retired s k" for k
    using that move(1) ow by (auto simp: retired_def ws)
  have pro: "prompted ?t k" if "prompted s k" for k
    using that move ow by (auto simp: prompted_def ws)
  have "entry_ok ?t k e" if e: "pending s k = Some e" "entry_ok s k e" for k e
    using e(2) chan ow e(1) by (auto simp: entry_ok_def ws)
  moreover have "hm_wf (ag_workers ?t)" using reg by (auto simp: registry_ok_def set_phase_def split: option.splits)
  ultimately have "registry_ok ?t" using reg unfolding registry_ok_def by simp
  moreover have "workers_ok ?t"
  proof -
    have "worker_ok ?t k v" if v: "worker_of ?t k = Some v" for k v
    proof (cases "k = rid")
      case True
      with v have "v = \<lparr>wk_request = r, wk_phase = ph\<rparr>" by (simp add: ws)
      moreover have "worker_ok s rid \<lparr>wk_request = r, wk_phase = ph0\<rparr>" using wok ow by (simp add: workers_ok_def)
      ultimately show ?thesis using True chan given by (auto simp: worker_ok_def given_for_def)
    next
      case False
      with v have "worker_of s k = Some v" by (simp add: ws)
      with wok have "worker_ok s k v" by (simp add: workers_ok_def)
      then show ?thesis by (simp add: worker_ok_def given_for_def)
    qed
    moreover have "k = k'" if "worker_of ?t k = Some v" "worker_of ?t k' = Some v'"
      "chan_of (wk_phase v) = Some ch" "chan_of (wk_phase v') = Some ch" for k k' v v' ch
    proof -
      have "\<exists>u. worker_of s j = Some u \<and> chan_of (wk_phase u) = Some ch"
        if "worker_of ?t j = Some u'" "chan_of (wk_phase u') = Some ch" for j u'
        using that chan ow by (cases "j = rid") (auto simp: ws)
      from this [OF that(1,3)] this [OF that(2,4)] wok show ?thesis unfolding workers_ok_def by blast
    qed
    ultimately show ?thesis unfolding workers_ok_def by blast
  qed
  moreover have "history_ok ?t" using hist ret pro unfolding history_ok_def by fastforce
  ultimately show ?thesis by (simp add: agent_inv_def)
qed

text \<open>Steps of a worker nobody was asked for yet, or that is past its prompt.\<close>

lemma step_on:
  assumes inv: "agent_inv s" and w: "worker_at s rid r ph0" and ph0: "chan_of ph0 = None"
    and ph: "chan_of ph = None" "unasked ph \<Longrightarrow> unasked ph0" "\<forall>resp c. ph \<noteq> Answered resp c"
  shows "agent_inv (set_phase rid ph s)"
proof (rule set_phase_inv [OF inv w])
  show "chan_of ph = chan_of ph0 \<or> (chan_of ph = None \<and> pending s rid = None)" using ph0 ph(1) by simp
  assume "\<exists>ch c. ph = Registered ch c"
  with ph(1) show "\<exists>ch c. ph0 = Registered ch c" by auto
qed (use ph in auto)

lemma remove_pending_inv: "agent_inv s \<Longrightarrow> agent_inv (remove_pending rid s)"
proof -
  assume inv: "agent_inv s"
  obtain x g' where r: "pg_remove rid (ag_registry s) = (x, g')" by fastforce
  with take_out_keeps_inv [OF inv] pg_remove_takes [OF r] show ?thesis by (auto simp: remove_pending_def)
qed

lemma remove_pending_frame [simp]:
  "ag_workers (remove_pending rid s) = ag_workers s" "ag_mail (remove_pending rid s) = ag_mail s"
  "ag_events (remove_pending rid s) = ag_events s" "ag_given (remove_pending rid s) = ag_given s"
  "pending (remove_pending rid s) k = (if k = rid then None else pending s k)"
  by (simp_all add: remove_pending_def pg_remove_def map_of_delete)

lemma emit_cancelled_inv: "agent_inv s \<Longrightarrow> retired s rid \<Longrightarrow> agent_inv (emit_event rid ''cancelled'' s)"
  unfolding agent_inv_def registry_ok_def workers_ok_def history_ok_def entry_ok_def worker_ok_def given_for_def
    retired_def prompted_def emit_event_def by auto

lemma emit_requested_inv:
  assumes inv: "agent_inv s" and "prompted s rid" "pending s rid \<noteq> None" "(rid, ''requested'') \<notin> set (ag_events s)"
  shows "agent_inv (emit_event rid ''requested'' s)"
proof -
  have "(rid, ''cancelled'') \<notin> set (ag_events s)"
    using inv assms(3) by (auto simp: agent_inv_def history_ok_def retired_def)
  with assms show ?thesis
    unfolding agent_inv_def registry_ok_def workers_ok_def history_ok_def entry_ok_def worker_ok_def given_for_def
      retired_def prompted_def emit_event_def by simp
qed

lemma worker_id: "agent_inv s \<Longrightarrow> worker_at s rid r ph \<Longrightarrow> sq_id r = rid"
  by (force simp: agent_inv_def workers_ok_def worker_ok_def worker_at_def)

text \<open>A waiting worker that gives up.\<close>

lemma give_up_inv:
  assumes inv: "agent_inv s" and w: "worker_at s rid r ph0" and ph0: "\<not> unasked ph0"
  shows "agent_inv (give_up r e s)"
proof -
  note rid = worker_id [OF inv w]
  have "retired (remove_pending rid s) rid" using w ph0 by (auto simp: retired_def worker_at_def)
  then have "agent_inv (emit_event rid ''cancelled'' (remove_pending rid s))"
    by (intro emit_cancelled_inv remove_pending_inv inv)
  moreover have "worker_at (emit_event rid ''cancelled'' (remove_pending rid s)) rid r ph0"
    using w by (simp add: worker_at_def emit_event_def)
  ultimately show ?thesis unfolding give_up_def rid
    by (rule set_phase_inv) (auto simp: emit_event_def)
qed

lemma request_prepare_id: "request_prepare active scopes settings owner r0 = Inr r \<Longrightarrow> sq_id r = sq_id r0"
  by (auto simp: request_prepare_def Let_def split: option.splits sum.splits)

lemma arrive_inv:
  assumes inv: "agent_inv s" and new: "worker_of s rid = None" and r: "sq_id r = rid"
  shows "agent_inv (s\<lparr>ag_workers := hm_insert rid \<lparr>wk_request = r, wk_phase = Started c\<rparr> (ag_workers s)\<rparr>)"
    (is "agent_inv ?t")
proof -
  have reg: "registry_ok s" and wok: "workers_ok s" and hist: "history_ok s" using inv by (simp_all add: agent_inv_def)
  have keep: "retired s k \<Longrightarrow> retired ?t k" "prompted s k \<Longrightarrow> prompted ?t k" for k
    using new by (auto simp: retired_def prompted_def update_conv')
  have "entry_ok ?t k e" if "entry_ok s k e" for k e
    using that new by (auto simp: entry_ok_def update_conv')
  then have "registry_ok ?t" using reg unfolding registry_ok_def by auto
  moreover have "worker_ok ?t k v" if "worker_of ?t k = Some v" for k v
    using that wok r by (cases "k = rid") (auto simp: update_conv' workers_ok_def worker_ok_def given_for_def)
  then have "workers_ok ?t"
    using wok unfolding workers_ok_def by (auto simp: update_conv' split: if_splits)
  moreover have "history_ok ?t" using hist keep unfolding history_ok_def by fastforce
  ultimately show ?thesis by (simp add: agent_inv_def)
qed

lemma retire_worker [simp]: "worker_at (retire ds s) rid r ph = worker_at s rid r ph"
  by (simp add: worker_at_def retire_def)

lemma inflight_new_inv:
  assumes inv: "agent_inv s" and w: "worker_at s rid r (Started c)"
  shows "agent_inv (inflight_new r c s)"
proof (cases "is_current_owner (ag_registry s) (sq_nm_owner r)")
  case False
  then show ?thesis
    using step_on [OF inv w, of "Ended (AgentFailed ''NetworkManager changed before lookup'')"] worker_id [OF inv w]
    by (simp add: inflight_new_def)
next
  case True
  obtain d g flags where d: "cancel_by_key (sq_key r) (ag_registry s) (ag_flags s) = (d, g, flags)"
    by (cases "cancel_by_key (sq_key r) (ag_registry s) (ag_flags s)") auto
  let ?s = "s\<lparr>ag_registry := g\<lparr>pg_inflight := hm_insert (sq_key r) (sq_cancelled r) (pg_inflight g)\<rparr>, ag_flags := flags\<rparr>"
  have "agent_inv (retire (case d of Some x \<Rightarrow> [x] | None \<Rightarrow> []) ?s)"
    by (rule taken_inv [OF inv cancel_by_key_takes [OF d]]) (simp add: quiet_def)
  then show ?thesis
    using step_on [of _ rid r "Started c" "Looking c"] w True d worker_id [OF inv w]
    by (simp add: inflight_new_def worker_at_def [of ?s] worker_at_def [of s])
qed

text \<open>The steps that check liveness first.\<close>

lemma checked_step:
  assumes inv: "agent_inv s" and w: "worker_at s rid r ph0" and ph0: "chan_of ph0 = None"
    and live: "check_live now r s = (s', res)" and q: "quiet s' t"
    and ph: "chan_of ph = None" "unasked ph \<Longrightarrow> unasked ph0" "\<forall>resp c. ph \<noteq> Answered resp c"
  shows "agent_inv (set_phase (sq_id r) ph t)"
proof -
  have "quiet s t" using check_live_quiet [OF live] q by (simp add: quiet_def)
  then have "agent_inv t" "worker_at t rid r ph0"
    using quiet_inv [OF _ inv] quiet_worker w by auto
  from step_on [OF this ph0 ph] show ?thesis using worker_id [OF inv w] by simp
qed

lemma look_up_inv:
  assumes inv: "agent_inv s" and w: "worker_at s rid r (Looking c)"
  shows "agent_inv (look_up now r c s)"
proof -
  obtain s' res where live: "check_live now r s = (s', res)" by fastforce
  note step = checked_step [OF inv w _ live, simplified]
  show ?thesis
  proof (cases res)
    case (Inl e)
    then show ?thesis using step [of s' "Ended e"] live by (simp add: look_up_def)
  next
    case (Inr u)
    obtain vs h where h: "handoff_take now r c (ag_handoff s') = (vs, h)" by fastforce
    show ?thesis
      using step [of "s'\<lparr>ag_handoff := handoff_clear now (Some (sq_connection_path r)) (ag_handoff s')\<rparr>" "Looked False c"]
        step [of "s'\<lparr>ag_handoff := h\<rparr>" "case apply_stored_values r vs c of Inl e \<Rightarrow> Ended e | Inr (complete, c') \<Rightarrow> Looked complete c'"]
        live Inr h
      by (simp add: look_up_def quiet_def split: sum.splits prod.splits)
  qed
qed

lemma decide_inv:
  assumes inv: "agent_inv s" and w: "worker_at s rid r (Looked complete c)"
  shows "agent_inv (decide now r complete c s)"
proof -
  obtain s' res where live: "check_live now r s = (s', res)" by fastforce
  note step = checked_step [OF inv w _ live quiet_refl, simplified]
  show ?thesis using step live by (cases res) (simp_all add: decide_def)
qed

lemma find_frontends_inv:
  assumes inv: "agent_inv s" and w: "worker_at s rid r (Asking c)"
  shows "agent_inv (find_frontends now r owners c s)"
proof -
  obtain s' res where live: "check_live now r s = (s', res)" by fastforce
  note step = checked_step [OF inv w _ live, simplified]
  show ?thesis using step [of _ "_"] live
    by (cases res) (auto simp: find_frontends_def Let_def quiet_def)
qed

lemma use_answer_inv:
  assumes inv: "agent_inv s" and w: "worker_at s rid r (Answered resp c)"
  shows "agent_inv (use_answer r resp c s)"
proof -
  let ?s = "s\<lparr>ag_scopes := (if sr_cancelled resp then request_stop StopCancelled r (ag_scopes s) else ag_scopes s)\<rparr>"
  let ?ph = "case apply_secret_response r resp c of Inl e \<Rightarrow> Ended e | Inr (c', _) \<Rightarrow> Replying c'"
  have q: "quiet s ?s" by (simp add: quiet_def)
  have "chan_of ?ph = None \<and> \<not> unasked ?ph \<and> (\<forall>resp c. ?ph \<noteq> Answered resp c)"
    by (simp split: sum.splits prod.splits)
  then show ?thesis
    using step_on [OF quiet_inv [OF q inv], of rid r "Answered resp c" ?ph] w worker_id [OF inv w]
    by (simp add: use_answer_def quiet_worker [OF q])
qed

lemma deliver_inv:
  assumes inv: "agent_inv s" and w: "worker_at s rid r (Replying c)"
  shows "agent_inv (deliver now r c s)"
proof -
  obtain s' res where live: "check_live now r s = (s', res)" by fastforce
  note q = check_live_quiet [OF live]
  have s': "agent_inv s'" "worker_at s' rid r (Replying c)" using quiet_inv [OF q inv] quiet_worker [OF q] w by auto
  note rid = worker_id [OF inv w]
  show ?thesis
  proof (cases res)
    case (Inr u)
    then show ?thesis using step_on [OF s'(1,2), of "Delivered c"] live rid by (simp add: deliver_def)
  next
    case (Inl e)
    have "pending s' rid = None" using s' by (intro unasked_not_pending) (auto simp: agent_inv_def)
    then have "agent_inv (emit_event rid ''cancelled'' s')"
      using s' by (intro emit_cancelled_inv) (auto simp: retired_def worker_at_def)
    moreover have "worker_at (emit_event rid ''cancelled'' s') rid r (Replying c)"
      using s'(2) by (simp add: worker_at_def emit_event_def)
    ultimately show ?thesis using step_on [of _ rid r "Replying c" "Ended e"] Inl live rid by (simp add: deliver_def)
  qed
qed

text \<open>Registering, publishing and receiving.\<close>

lemma insert_inv:
  assumes inv: "agent_inv s" and w: "worker_at s rid r (Subscribed owners c)"
    and ch: "ag_mail s ch = []" "\<And>k v. worker_of s k = Some v \<Longrightarrow> chan_of (wk_phase v) \<noteq> Some ch"
    and key: "\<And>k e. pending s k = Some e \<Longrightarrow> sq_key (pn_request e) \<noteq> sq_key r"
    and own: "sq_nm_owner r = pg_nm_owner (ag_registry s)"
    and t: "t = set_phase rid (Registered ch c) (s\<lparr>ag_registry := (ag_registry s)\<lparr>pg_requests :=
          hm_insert rid \<lparr>pn_request = r, pn_owners = set owners, pn_sender = ch\<rparr> (pg_requests (ag_registry s))\<rparr>,
        ag_asked := (rid, set owners) # ag_asked s\<rparr>)"
  shows "agent_inv t"
proof -
  let ?e = "\<lparr>pn_request = r, pn_owners = set owners, pn_sender = ch\<rparr>"
  let ?w = "\<lparr>wk_request = r, wk_phase = Registered ch c\<rparr>"
  from w have ow: "worker_of s rid = Some \<lparr>wk_request = r, wk_phase = Subscribed owners c\<rparr>" by (simp add: worker_at_def)
  have reg: "registry_ok s" and wok: "workers_ok s" and hist: "history_ok s" using inv by (simp_all add: agent_inv_def)
  have none: "pending s rid = None" by (rule unasked_not_pending [OF reg w]) simp
  have ws: "worker_of t = (worker_of s)(rid \<mapsto> ?w)"
    by (simp add: t set_phase_def ow update_conv')
  have ps: "pending t = (pending s)(rid \<mapsto> ?e)" by (simp add: t set_phase_def update_conv')
  have fr: "ag_mail t = ag_mail s" "ag_given t = ag_given s" "ag_events t = ag_events s" "ag_outbox t = ag_outbox s"
    "ag_asked t = (rid, set owners) # ag_asked s" "pg_nm_owner (ag_registry t) = pg_nm_owner (ag_registry s)"
    by (simp_all add: t)
  have not_ret: "\<not> retired s rid" "\<not> prompted s rid" using ow by (auto simp: retired_def prompted_def)
  have keep: "retired t k" if "retired s k" for k using that not_ret by (cases "k = rid") (auto simp: retired_def ws ps)
  have keep': "prompted t k" if "prompted s k" for k using that not_ret by (cases "k = rid") (auto simp: prompted_def ws)
  have ent: "entry_ok t k e" if e: "pending t k = Some e" for k e
  proof (cases "k = rid")
    case True
    with e ps have "e = ?e" by simp
    with True show ?thesis using ch(1) own by (simp add: entry_ok_def fr ws)
  next
    case False
    with e ps have e': "pending s k = Some e" by simp
    with reg have "entry_ok s k e" by (simp add: registry_ok_def)
    with False show ?thesis by (auto simp: entry_ok_def fr ws)
  qed
  have uniq: "k = k'" if "pending t k = Some e" "pending t k' = Some e'" "sq_key (pn_request e) = sq_key (pn_request e')" for k k' e e'
  proof (cases "k = rid \<or> k' = rid")
    case True
    then show ?thesis using that ps key by (auto split: if_splits) (metis)+
  next
    case False
    with that ps reg show ?thesis unfolding registry_ok_def by simp
  qed
  have "hm_wf (pg_requests (ag_registry t))" "hm_wf (ag_workers t)"
    using reg by (auto simp: registry_ok_def t set_phase_def split: option.splits)
  with ent uniq have "registry_ok t" unfolding registry_ok_def by blast
  moreover have "worker_ok t k v" if v: "worker_of t k = Some v" for k v
  proof (cases "k = rid")
    case True
    with v ws have "v = ?w" by simp
    with True worker_id [OF inv w] show ?thesis using ch(1) by (simp add: worker_ok_def fr)
  next
    case False
    with v ws have "worker_of s k = Some v" by simp
    with wok have "worker_ok s k v" by (simp add: workers_ok_def)
    then show ?thesis by (simp add: worker_ok_def given_for_def fr)
  qed
  moreover have "k = k'" if "worker_of t k = Some v" "worker_of t k' = Some v'" "chan_of (wk_phase v) = Some c'"
      "chan_of (wk_phase v') = Some c'" for k k' v v' c'
  proof (cases "k = rid \<or> k' = rid")
    case True
    then show ?thesis using that ws ch(2) by (auto split: if_splits)
  next
    case False
    with that ws wok show ?thesis unfolding workers_ok_def by simp
  qed
  ultimately have "registry_ok t \<and> workers_ok t" unfolding workers_ok_def by blast
  moreover have "history_ok t" using hist keep keep' unfolding history_ok_def fr by fastforce
  ultimately show ?thesis by (simp add: agent_inv_def)
qed

lemma set_phase_retire: "set_phase rid ph (retire ds s) = retire ds (set_phase rid ph s)"
  by (cases "worker_of s rid") (simp_all add: set_phase_def retire_def)

lemma set_phase_remove: "set_phase rid ph (remove_pending k s) = remove_pending k (set_phase rid ph s)"
  by (cases "worker_of s rid") (simp_all add: set_phase_def remove_pending_def)

lemma set_phase_emit: "set_phase rid ph (emit_event k ev s) = emit_event k ev (set_phase rid ph s)"
  by (cases "worker_of s rid") (simp_all add: set_phase_def emit_event_def)

lemma refuse_inv:
  assumes inv: "agent_inv s" and w: "worker_at s rid r (Subscribed owners c)"
  shows "agent_inv (refuse now r e s)"
proof -
  obtain s' res where live: "check_live now r s = (s', res)" by fastforce
  note q = check_live_quiet [OF live]
  have "worker_at s' rid r (Subscribed owners c)" using quiet_worker [OF q] w by auto
  from step_on [OF quiet_inv [OF q inv] this, of "Ended _"] worker_id [OF inv w] live show ?thesis
    by (simp add: refuse_def)
qed

lemma register_pending_inv:
  assumes inv: "agent_inv s" and w: "worker_at s rid r (Subscribed owners c)"
    and ch: "ag_mail s ch = []" "\<forall>(rid', w) \<in> set (ag_workers s). chan_of (wk_phase w) \<noteq> Some ch"
  shows "agent_inv (register_pending now r owners ch c s)"
proof (cases "is_current_owner (ag_registry s) (sq_nm_owner r) \<and> sq_cancelled r \<notin> ag_flags s
    \<and> request_live now (ag_flags s) (ag_scopes s) r")
  case False
  then show ?thesis using refuse_inv [OF inv w] by (auto simp: register_pending_def)
next
  case True
  note rid = worker_id [OF inv w]
  obtain d g1 where d: "remove_by_key (sq_key r) (ag_registry s) = (d, g1)" by fastforce
  let ?ds = "case d of Some x \<Rightarrow> [x] | None \<Rightarrow> []"
  let ?s1 = "s\<lparr>ag_registry := g1\<rparr>"
  note t = remove_by_key_takes [OF d]
  have inv1: "agent_inv ?s1" by (rule take_out_keeps_inv [OF inv t])
  have w1: "worker_at ?s1 rid r (Subscribed owners c)" using w by (simp add: worker_at_def)
  have none1: "map_of (pg_requests g1) rid = None"
    using unasked_not_pending [of ?s1 rid r "Subscribed owners c"] inv1 w1 by (simp add: agent_inv_def)
  have nm: "pg_nm_owner g1 = pg_nm_owner (ag_registry s)"
    using d by (auto simp: remove_by_key_def pg_remove_def split: option.splits)
  let ?u = "set_phase rid (Registered ch c) (s\<lparr>ag_registry := g1\<lparr>pg_requests :=
          hm_insert rid \<lparr>pn_request = r, pn_owners = set owners, pn_sender = ch\<rparr> (pg_requests g1)\<rparr>,
        ag_asked := (rid, set owners) # ag_asked s\<rparr>)"
  have u: "agent_inv ?u"
  proof (rule insert_inv [where ch = ch, OF inv1 w1])
    show "ag_mail ?s1 ch = []" using ch(1) by simp
    show "chan_of (wk_phase v) \<noteq> Some ch" if "worker_of ?s1 k = Some v" for k v
      using ch(2) that by (auto dest: map_of_SomeD)
    show "sq_key (pn_request e) \<noteq> sq_key r" if "pending ?s1 k = Some e" for k e
      using remove_by_key_gone [OF _ d] inv that by (simp add: agent_inv_def)
    show "sq_nm_owner r = pg_nm_owner (ag_registry ?s1)" using True nm by (simp add: is_current_owner_def)
  qed simp
  have "agent_inv (retire ?ds ?u)"
  proof (rule retire_inv [OF u])
    fix k x assume kx: "(k, x) \<in> set ?ds"
    from taken_retired [OF inv t kx] have k: "retired ?s1 k" and v: "\<exists>v. worker_of s k = Some v \<and> chan_of (wk_phase v) = Some x" by auto
    have "k \<noteq> rid" using v w by (auto simp: worker_at_def)
    with k v w show "retired ?u k \<and> (\<exists>v. worker_of ?u k = Some v \<and> chan_of (wk_phase v) = Some x)"
      by (auto simp: retired_def set_phase_def worker_at_def update_conv')
  qed
  moreover have "register_pending now r owners ch c s = retire ?ds ?u"
    using True d none1 rid by (auto simp: register_pending_def pg_insert_def set_phase_retire split: option.splits)
  ultimately show ?thesis by simp
qed

lemma publish_inv:
  assumes inv: "agent_inv s" and w: "worker_at s rid r (Registered ch c)"
  shows "agent_inv (publish_prompt now r ch c s)"
proof (cases "pending s rid = None \<or> \<not> request_live now (ag_flags s) (ag_scopes s) r")
  case True
  note rid = worker_id [OF inv w]
  obtain s' res where live: "check_live now r s = (s', res)" by fastforce
  note q = check_live_quiet [OF live]
  have inv': "agent_inv s'" and w': "worker_at s' rid r (Registered ch c)" using quiet_inv [OF q inv] quiet_worker [OF q] w by auto
  have "worker_at (remove_pending rid s') rid r (Registered ch c)" using w' by (simp add: worker_at_def)
  then have "agent_inv (set_phase rid (Ended e) (remove_pending rid s'))" for e
    by (rule set_phase_inv [OF remove_pending_inv [OF inv']]) simp_all
  then show ?thesis using True rid live by (simp add: publish_prompt_def refuse_def set_phase_remove)
next
  case False
  note rid = worker_id [OF inv w]
  have t: "agent_inv (set_phase rid (Waiting ch c) s)" by (rule set_phase_inv [OF inv w]) simp_all
  have "\<not> prompted s rid" using w by (auto simp: prompted_def worker_at_def)
  with inv have "(rid, ''requested'') \<notin> set (ag_events s)" by (auto simp: agent_inv_def history_ok_def)
  then have "agent_inv (emit_event rid ''requested'' (set_phase rid (Waiting ch c) s))"
    using False set_phase_workers [OF w, of "Waiting ch c"] by (intro emit_requested_inv [OF t]) (auto simp: prompted_def)
  then show ?thesis using False rid by (auto simp: publish_prompt_def set_phase_emit)
qed

lemma receive_inv:
  assumes inv: "agent_inv s" and w: "worker_at s rid r (Waiting ch c)"
  shows "agent_inv (receive_round now r ch c s)"
proof -
  obtain s' res where live: "check_live now r s = (s', res)" by fastforce
  note q = check_live_quiet [OF live]
  have s': "agent_inv s'" "worker_at s' rid r (Waiting ch c)" using quiet_inv [OF q inv] quiet_worker [OF q] w by auto
  note rid = worker_id [OF inv w]
  show ?thesis
  proof (cases res)
    case (Inl e)
    then show ?thesis using give_up_inv [OF s', of e] live by (simp add: receive_round_def)
  next
    case (Inr u)
    show ?thesis
    proof (cases "ag_mail s' ch")
      case Nil
      then show ?thesis using give_up_inv [OF s', of "UserCanceled ''Credential request retired''"] s'(1) live Inr
        by (simp add: receive_round_def)
    next
      case (Cons resp rest)
      have "worker_ok s' rid \<lparr>wk_request = r, wk_phase = Waiting ch c\<rparr>"
        using s' by (auto simp: agent_inv_def workers_ok_def worker_at_def)
      then have given: "given_for s' rid resp" using Cons by (simp add: worker_ok_def)
      let ?t = "remove_pending rid s'"
      have t: "agent_inv ?t" "worker_at ?t rid r (Waiting ch c)"
        using remove_pending_inv [OF s'(1)] s'(2) by (auto simp: worker_at_def)
      have "agent_inv (set_phase rid (Answered resp c) ?t)"
        by (rule set_phase_inv [OF t]) (use given in \<open>auto simp: given_for_def\<close>)
      then show ?thesis using live Inr Cons rid by (simp add: receive_round_def set_phase_remove)
    qed
  qed
qed

lemma cancel_get_secrets_inv: "agent_inv s \<Longrightarrow> agent_inv (cancel_get_secrets now path setting_name s)"
proof -
  assume inv: "agent_inv s"
  obtain d g flags where d: "cancel_by_key (key_for path setting_name) (ag_registry s) (ag_flags s) = (d, g, flags)"
    by (cases "cancel_by_key (key_for path setting_name) (ag_registry s) (ag_flags s)") auto
  have "quiet (s\<lparr>ag_registry := g\<rparr>) (s\<lparr>ag_registry := g, ag_flags := flags, ag_handoff := handoff_clear now (Some path) (ag_handoff s)\<rparr>)"
    by (simp add: quiet_def)
  from taken_inv [OF inv cancel_by_key_takes [OF d] this] show ?thesis by (simp add: cancel_get_secrets_def d)
qed

lemma delete_secrets_inv: "agent_inv s \<Longrightarrow> agent_inv (delete_secrets now owner path s)"
proof -
  assume inv: "agent_inv s"
  let ?s = "s\<lparr>ag_handoff := handoff_clear now (Some path) (ag_handoff s)\<rparr>"
  have inv': "agent_inv ?s" by (rule quiet_inv [OF _ inv]) (simp add: quiet_def)
  obtain ds g flags where d: "cancel_connection path (ag_registry ?s) (ag_flags ?s) = (ds, g, flags)"
    by (cases "cancel_connection path (ag_registry ?s) (ag_flags ?s)") auto
  have "hm_wf (pg_requests (ag_registry ?s))" using inv' by (simp add: agent_inv_def registry_ok_def)
  with d have "takes_out (ag_registry ?s) ds g" using cancel_keys_takes by (simp add: cancel_connection_def Let_def)
  moreover have "quiet (?s\<lparr>ag_registry := g\<rparr>) (?s\<lparr>ag_registry := g, ag_flags := flags\<rparr>)" by (simp add: quiet_def)
  ultimately have "agent_inv (retire ds (?s\<lparr>ag_registry := g, ag_flags := flags\<rparr>))" by (rule taken_inv [OF inv'])
  with d inv' show ?thesis by (simp add: delete_secrets_def Let_def)
qed

lemma owner_change_inv: "agent_inv s \<Longrightarrow> agent_inv (change_network_manager_owner now owner s)"
proof -
  assume inv: "agent_inv s"
  let ?g = "ag_registry s" and ?g' = "\<lparr>pg_inflight = [], pg_nm_owner = owner, pg_requests = []\<rparr> :: pending_registry"
  let ?ds = "map (\<lambda>(rid, e). (rid, pn_sender e)) (pg_requests ?g)"
  have wf: "hm_wf (pg_requests ?g)" using inv by (simp add: agent_inv_def registry_ok_def)
  have "\<exists>P. [] = filter P (pg_requests ?g)" by (rule exI [of _ "\<lambda>_. False"]) simp
  moreover have "\<forall>(rid, ch) \<in> set ?ds. \<exists>e. map_of (pg_requests ?g) rid = Some e \<and> pn_sender e = ch"
    using wf by (auto simp: hm_in_set_iff)
  ultimately have t: "takes_out ?g ?ds ?g'" by (auto simp: takes_out_def)
  show ?thesis unfolding change_network_manager_owner_def Let_def
    by (rule taken_inv [OF inv t]) (simp add: quiet_def)
qed

lemma give_inv:
  assumes inv: "agent_inv s" and ret: "retired s rid" and w: "worker_of s rid = Some w" "chan_of (wk_phase w) = Some ch"
    and asked: "(rid, owners) \<in> set (ag_asked s)" "o1 \<in> owners" and new: "rid \<notin> fst ` set (ag_given s)"
  shows "agent_inv ((send_response ch resp s)\<lparr>ag_given := (rid, o1, resp) # ag_given s\<rparr>)" (is "agent_inv ?t")
proof -
  have reg: "registry_ok s" and wok: "workers_ok s" and hist: "history_ok s" using inv by (simp_all add: agent_inv_def)
  have only: "k = rid" if "worker_of s k = Some v" "chan_of (wk_phase v) = Some ch" for k v
    using wok w that unfolding workers_ok_def by blast
  have ret': "retired ?t k = retired s k" "prompted ?t k = prompted s k" for k
    by (simp_all add: retired_def prompted_def send_response_def)
  have "entry_ok ?t k e" if e: "pending s k = Some e" "entry_ok s k e" for k e
  proof -
    have "pn_sender e \<noteq> ch" using e ret only by (auto simp: entry_ok_def retired_def)
    with e(2) show ?thesis by (simp add: entry_ok_def send_response_def)
  qed
  with reg have "registry_ok ?t" unfolding registry_ok_def by (simp add: send_response_def)
  moreover have gf: "given_for s k x \<Longrightarrow> given_for ?t k x" "given_for ?t rid resp" for k x
    by (auto simp: given_for_def send_response_def)
  have "worker_ok ?t k v" if v: "worker_of s k = Some v" "worker_ok s k v" for k v
    unfolding worker_ok_def
  proof (intro conjI allI impI ballI)
    show "sq_id (wk_request v) = k" using v(2) by (simp add: worker_ok_def)
    fix c' x assume "chan_of (wk_phase v) = Some c'" "x \<in> set (ag_mail ?t c')"
    then show "given_for ?t k x"
      using v only [of k v] gf by (cases "c' = ch") (auto simp: worker_ok_def send_response_def)
  next
    fix x c' assume "wk_phase v = Answered x c'"
    then show "given_for ?t k x" using v(2) gf by (simp add: worker_ok_def)
  qed
  with wok have "workers_ok ?t" unfolding workers_ok_def by (simp add: send_response_def [of ch resp s])
  moreover have "history_ok ?t"
    using hist ret asked new unfolding history_ok_def ret' by (auto simp: send_response_def)
  ultimately show ?thesis by (simp add: agent_inv_def)
qed

lemma provide_inv:
  assumes inv: "agent_inv s"
  shows "agent_inv (fst (provide_answer now caller p alive s))"
proof -
  let ?rid = "vp_request_id p"
  consider (out) "remove_for_owner now (ag_flags s) (ag_scopes s) ?rid caller (ag_registry s) = (None, ag_registry s)"
    | (known) e o1 where "pending s ?rid = Some e" "caller = Some o1" "o1 \<in> pn_owners e"
    by (cases "pending s ?rid"; cases caller) (force simp: remove_for_owner_def)+
  then show ?thesis
  proof cases
    case out
    with inv show ?thesis by (simp add: provide_answer_def)
  next
    case known
    let ?g = "(ag_registry s)\<lparr>pg_requests := hm_remove ?rid (pg_requests (ag_registry s))\<rparr>"
    let ?s = "s\<lparr>ag_registry := ?g\<rparr>"
    have s1: "?s = remove_pending ?rid s" by (simp add: remove_pending_def pg_remove_def)
    from inv known(1) have "entry_ok s ?rid e" by (simp add: agent_inv_def registry_ok_def)
    then obtain w where w: "worker_of s ?rid = Some w" "chan_of (wk_phase w) = Some (pn_sender e)"
      "(?rid, pn_owners e) \<in> set (ag_asked s)" by (auto simp: entry_ok_def)
    then have "\<not> unasked (wk_phase w)" by (cases "wk_phase w") auto
    then have ret: "retired ?s ?rid" using w by (simp add: retired_def map_of_delete)
    have new: "?rid \<notin> fst ` set (ag_given s)"
    proof
      assume "?rid \<in> fst ` set (ag_given s)"
      with inv have "retired s ?rid" by (auto simp: agent_inv_def history_ok_def)
      with known(1) show False by (simp add: retired_def)
    qed
    have inv1: "agent_inv ?s" unfolding s1 by (rule remove_pending_inv [OF inv])
    have "agent_inv ((send_response (pn_sender e) resp ?s)\<lparr>ag_given := (?rid, o1, resp) # ag_given ?s\<rparr>)" for resp
      by (rule give_inv [OF inv1 ret, of w _ "pn_owners e"]) (use w known new in auto)
    then show ?thesis using known inv1 by (simp add: provide_answer_def remove_for_owner_def Let_def)
  qed
qed

lemma flush_inv:
  assumes inv: "agent_inv s" and "rid \<in> set (ag_outbox s)"
  shows "agent_inv ((emit_event rid ''cancelled'' s)\<lparr>ag_outbox := remove1 rid (ag_outbox s)\<rparr>)"
proof -
  have "retired s rid" using assms by (auto simp: agent_inv_def history_ok_def)
  from emit_cancelled_inv [OF inv this] have i: "agent_inv (emit_event rid ''cancelled'' s)" .
  let ?s = "emit_event rid ''cancelled'' s"
  let ?t = "?s\<lparr>ag_outbox := remove1 rid (ag_outbox s)\<rparr>"
  have "registry_ok ?t = registry_ok ?s" "workers_ok ?t = workers_ok ?s" "retired ?t k = retired ?s k" "prompted ?t k = prompted ?s k" for k
    by (simp_all add: registry_ok_def entry_ok_def workers_ok_def worker_ok_def given_for_def retired_def prompted_def)
  moreover have "set (remove1 rid (ag_outbox s)) \<subseteq> set (ag_outbox ?s)" by (simp add: emit_event_def set_remove1_subset)
  ultimately show ?thesis using i unfolding agent_inv_def history_ok_def by (simp, blast)
qed

lemma agent_step_inv: "agent_step s t \<Longrightarrow> agent_inv s \<Longrightarrow> agent_inv t"
proof (induction rule: agent_step.induct)
  case (arrives s rid active settings owner now flag path setting_name hints flags r)
  then show ?case using arrive_inv request_prepare_id by (fastforce simp: request_new_def)
next
  case (leaves s rid w)
  then show ?case using quiet_inv [of s "inflight_drop (wk_request w) s"] by (simp add: inflight_drop_def Let_def quiet_def)
next
  case (nm_saves s now owner path connection)
  then show ?case using quiet_inv [of s "save_secrets now owner path connection s"] by (simp add: save_secrets_def quiet_def)
next
  case (scopes_change s scopes)
  then show ?case using quiet_inv [of s] by (simp add: quiet_def)
qed (simp_all add: inflight_new_inv look_up_inv decide_inv find_frontends_inv register_pending_inv publish_inv receive_inv
    use_answer_inv deliver_inv cancel_get_secrets_inv delete_secrets_inv owner_change_inv provide_inv flush_inv)

lemma agent_reachable_inv: "agent_reachable s \<Longrightarrow> agent_inv s"
proof (induction rule: agent_reachable.induct)
  case (agent_start scopes)
  show ?case by (simp add: agent_inv_def registry_ok_def workers_ok_def history_ok_def)
next
  case (agent_next s t)
  then show ?case using agent_step_inv by blast
qed

section \<open>What is replied is complete\<close>

fun phase_complete :: "secret_request \<Rightarrow> worker_phase \<Rightarrow> bool" where
  "phase_complete r (Looked complete c) = (complete \<longrightarrow> request_values_complete r c)"
| "phase_complete r (Replying c) = request_values_complete r c"
| "phase_complete r (Delivered c) = request_values_complete r c"
| "phase_complete r _ = True"

definition replies_complete :: "agent_system \<Rightarrow> bool" where
  "replies_complete s \<longleftrightarrow> (\<forall>rid w. worker_of s rid = Some w \<longrightarrow> phase_complete (wk_request w) (wk_phase w))"

lemma replies_set_phase:
  "replies_complete s \<Longrightarrow> worker_of s rid = Some w \<Longrightarrow> phase_complete (wk_request w) ph \<Longrightarrow>
   replies_complete (set_phase rid ph s)"
  by (auto simp: replies_complete_def set_phase_def update_conv')

lemma replies_same_workers: "ag_workers t = ag_workers s \<Longrightarrow> replies_complete s \<Longrightarrow> replies_complete t"
  by (simp add: replies_complete_def)

lemma apply_stored_complete: "apply_stored_values r vs c = Inr (b, c') \<Longrightarrow> b = request_values_complete r c'"
  by (induction r vs c rule: apply_stored_values.induct) (auto simp: and_then_Inr_iff)

lemma apply_response_complete: "apply_secret_response r resp c = Inr (c', save) \<Longrightarrow> request_values_complete r c'"
  by (auto simp: apply_secret_response_def Let_def and_then_Inr_iff split: if_splits option.splits)

lemma frame_workers [simp]:
  "ag_workers (retire ds s) = ag_workers s" "ag_workers (emit_event rid ev s) = ag_workers s"
  "ag_workers (send_response ch resp s) = ag_workers s" "ag_workers (inflight_drop r s) = ag_workers s"
  "ag_workers (cancel_get_secrets now path setting_name s) = ag_workers s"
  "ag_workers (delete_secrets now owner path s) = ag_workers s"
  "ag_workers (save_secrets now owner path connection s) = ag_workers s"
  "ag_workers (change_network_manager_owner now new_owner s) = ag_workers s"
  "ag_workers (fst (provide_answer now caller p alive s)) = ag_workers s"
  by (simp_all add: retire_def emit_event_def send_response_def inflight_drop_def cancel_get_secrets_def
      delete_secrets_def save_secrets_def change_network_manager_owner_def provide_answer_def Let_def
      split: prod.splits option.splits)

lemma check_live_workers: "check_live now r s = (s', res) \<Longrightarrow> ag_workers s' = ag_workers s"
  by (auto simp: check_live_def split: prod.splits)

text \<open>A step of a worker is a change of its phase over the same workers.\<close>

lemma replies_phase_step:
  assumes "replies_complete s" and "agent_inv s" and w: "worker_at s rid r ph0"
    and "ag_workers u = ag_workers s" and "phase_complete r ph"
  shows "replies_complete (set_phase (sq_id r) ph u)"
proof -
  have "worker_of u (sq_id r) = Some \<lparr>wk_request = r, wk_phase = ph0\<rparr>"
    using assms worker_id [OF assms(2) w] by (simp add: worker_at_def)
  from replies_set_phase [OF replies_same_workers [OF assms(4,1)] this] assms(5) show ?thesis by simp
qed

lemma agent_step_replies: "agent_step s t \<Longrightarrow> agent_inv s \<Longrightarrow> replies_complete s \<Longrightarrow> replies_complete t"
proof (induction rule: agent_step.induct)
  case (arrives s rid active settings owner now flag path setting_name hints flags r)
  then show ?case by (auto simp: replies_complete_def update_conv')
next
  case (tracked s rid r c)
  then show ?case
    using replies_phase_step [OF tracked(3,2,1)] by (auto simp: inflight_new_def split: prod.splits)
next
  case (looks s rid r c now)
  note step = replies_phase_step [OF looks(3,2,1)]
  obtain s' res where live: "check_live now r s = (s', res)" by fastforce
  obtain vs h where h: "handoff_take now r c (ag_handoff s') = (vs, h)" by fastforce
  show ?case
    using step check_live_workers [OF live] live h apply_stored_complete [of r vs c]
    by (cases res) (auto simp: look_up_def split: sum.split prod.split)
next
  case (decides s rid r complete c now)
  note step = replies_phase_step [OF decides(3,2,1)]
  have c: "complete \<Longrightarrow> request_values_complete r c"
    using decides(1,3) by (force simp: replies_complete_def worker_at_def)
  obtain s' res where live: "check_live now r s = (s', res)" by fastforce
  show ?case using step check_live_workers [OF live] live c by (cases res) (auto simp: decide_def)
next
  case (subscribes s rid r c now owners)
  note step = replies_phase_step [OF subscribes(3,2,1)]
  obtain s' res where live: "check_live now r s = (s', res)" by fastforce
  show ?case using step check_live_workers [OF live] live by (cases res) (auto simp: find_frontends_def Let_def)
next
  case (registers s rid r owners c ch now)
  note step = replies_phase_step [OF registers(5,4,1)]
  have "replies_complete (refuse now r e s)" for e
    unfolding refuse_def by (auto intro: step simp: check_live_workers split: prod.split)
  then show ?case using step by (auto simp: register_pending_def split: prod.splits option.splits)
next
  case (publishes s rid r ch c now)
  note step = replies_phase_step [OF publishes(3,2,1)]
  have "replies_complete (refuse now r e s)" for e
    unfolding refuse_def by (auto intro: step simp: check_live_workers split: prod.split)
  then have "replies_complete (remove_pending (sq_id r) (refuse now r e s))" for e
    by (rule replies_same_workers [rotated]) simp
  then show ?case using step [of "emit_event (sq_id r) ''requested'' s" "Waiting ch c"] by (auto simp: publish_prompt_def)
next
  case (receives s rid r ch c now)
  note step = replies_phase_step [OF receives(3,2,1)]
  obtain s' res where live: "check_live now r s = (s', res)" by fastforce
  have gu: "replies_complete (give_up r e s')" for e
    unfolding give_up_def by (rule step) (simp_all add: check_live_workers [OF live])
  have an: "replies_complete (remove_pending (sq_id r) (set_phase (sq_id r) (Answered resp c) s'))" for resp
    using step [of s' "Answered resp c"] check_live_workers [OF live]
      replies_same_workers [of "remove_pending (sq_id r) (set_phase (sq_id r) (Answered resp c) s')" "set_phase (sq_id r) (Answered resp c) s'"]
    by simp
  show ?case using gu an live replies_same_workers [OF check_live_workers [OF live] receives(3)]
    by (cases res) (auto simp: receive_round_def split: list.split)
next
  case (answers s rid r resp c)
  note step = replies_phase_step [OF answers(3,2,1)]
  show ?case unfolding use_answer_def
    by (rule step) (auto simp: apply_response_complete split: sum.split prod.split)
next
  case (delivers s rid r c now)
  note step = replies_phase_step [OF delivers(3,2,1)]
  have c: "request_values_complete r c"
    using delivers(1,3) by (force simp: replies_complete_def worker_at_def)
  obtain s' res where live: "check_live now r s = (s', res)" by fastforce
  show ?case using step check_live_workers [OF live] live c by (cases res) (auto simp: deliver_def)
qed (auto intro: replies_same_workers)

lemma agent_reachable_replies: "agent_reachable s \<Longrightarrow> replies_complete s"
proof (induction rule: agent_reachable.induct)
  case (agent_start scopes)
  show ?case by (simp add: replies_complete_def)
next
  case (agent_next s t)
  then show ?case using agent_step_replies agent_reachable_inv by blast
qed

lemma well_ordered_split:
  "well_ordered (a @ (rid, ''requested'') # b) \<Longrightarrow> (rid, ''requested'') \<notin> set b \<and> (rid, ''cancelled'') \<notin> set b"
  by (induction a) auto

lemma deliver_live:
  assumes "worker_at s rid r (Replying c)" and "sq_id r = rid" and "worker_at (deliver now r c s) rid r (Delivered c)"
  shows "sq_cancelled r \<notin> ag_flags s \<and> pg_nm_owner (ag_registry s) = sq_nm_owner r \<and>
    request_live now (ag_flags s) (ag_scopes s) r"
proof -
  obtain s' res where live: "check_live now r s = (s', res)" by fastforce
  show ?thesis
  proof (cases res)
    case (Inl e)
    have "worker_of (deliver now r c s) rid = Some \<lparr>wk_request = r, wk_phase = Ended e\<rparr>"
      using live Inl assms(1,2) check_live_workers [OF live]
      by (simp add: deliver_def set_phase_def worker_at_def update_conv')
    with assms(3) show ?thesis by (simp add: worker_at_def)
  next
    case (Inr u)
    with live show ?thesis
      by (auto simp: check_live_def ensure_delivery_live_def ensure_request_owner_def ensure_secret_owner_def
          is_current_owner_def request_live_def split: prod.splits sum.splits if_splits option.splits)
  qed
qed

text \<open>
  C11. Credential prompts are safe in every interleaving of NetworkManager's calls, the workers and the
  frontends. At most one prompt is open per profile and setting, and only for the NetworkManager that
  is running now; a prompt is announced at most once and never after it was withdrawn. An answer
  reaches a request at most once and comes from a frontend that was asked for it. What is
  delivered to NetworkManager has a value for every requested credential, and it is delivered only
  while the request is neither cancelled nor expired and its activation lives.
\<close>

theorem secret_prompts_safe:
  assumes "agent_reachable s"
  shows "(\<forall>rid e. pending s rid = Some e \<longrightarrow> sq_nm_owner (pn_request e) = pg_nm_owner (ag_registry s) \<and>
      (\<forall>rid' e'. pending s rid' = Some e' \<and> sq_key (pn_request e') = sq_key (pn_request e) \<longrightarrow> rid' = rid)) \<and>
    (\<forall>a b rid. ag_events s = a @ (rid, ''requested'') # b \<longrightarrow>
      (rid, ''requested'') \<notin> set b \<and> (rid, ''cancelled'') \<notin> set b) \<and>
    distinct (map fst (ag_given s)) \<and>
    (\<forall>rid r resp c. worker_at s rid r (Answered resp c) \<and> \<not> sr_cancelled resp \<longrightarrow>
      (\<exists>o1 owners. (rid, o1, resp) \<in> set (ag_given s) \<and> (rid, owners) \<in> set (ag_asked s) \<and> o1 \<in> owners)) \<and>
    (\<forall>rid r c. worker_at s rid r (Delivered c) \<longrightarrow> (\<forall>k \<in> set (sq_secret_keys r).
      \<exists>v. secret_text c (sq_setting_name r) k = Some v \<and> v \<noteq> [])) \<and>
    (\<forall>rid r c now. worker_at s rid r (Replying c) \<and> worker_at (deliver now r c s) rid r (Delivered c) \<longrightarrow>
      pg_nm_owner (ag_registry s) = sq_nm_owner r \<and> request_live now (ag_flags s) (ag_scopes s) r)"
proof (intro conjI)
  have inv: "registry_ok s" "workers_ok s" "history_ok s"
    using agent_reachable_inv [OF assms] by (simp_all add: agent_inv_def)
  show "\<forall>rid e. pending s rid = Some e \<longrightarrow> sq_nm_owner (pn_request e) = pg_nm_owner (ag_registry s) \<and>
      (\<forall>rid' e'. pending s rid' = Some e' \<and> sq_key (pn_request e') = sq_key (pn_request e) \<longrightarrow> rid' = rid)"
    using inv(1) unfolding registry_ok_def entry_ok_def by blast
  show "\<forall>a b rid. ag_events s = a @ (rid, ''requested'') # b \<longrightarrow>
      (rid, ''requested'') \<notin> set b \<and> (rid, ''cancelled'') \<notin> set b"
  proof (intro allI impI)
    fix a b rid assume e: "ag_events s = a @ (rid, ''requested'') # b"
    from inv(3) have "well_ordered (ag_events s)" by (simp add: history_ok_def)
    from well_ordered_split [OF this [unfolded e]]
    show "(rid, ''requested'') \<notin> set b \<and> (rid, ''cancelled'') \<notin> set b" .
  qed
  show "distinct (map fst (ag_given s))" using inv(3) by (simp add: history_ok_def)
  show "\<forall>rid r resp c. worker_at s rid r (Answered resp c) \<and> \<not> sr_cancelled resp \<longrightarrow>
      (\<exists>o1 owners. (rid, o1, resp) \<in> set (ag_given s) \<and> (rid, owners) \<in> set (ag_asked s) \<and> o1 \<in> owners)"
  proof (intro allI impI)
    fix rid r resp c assume a: "worker_at s rid r (Answered resp c) \<and> \<not> sr_cancelled resp"
    then have "worker_ok s rid \<lparr>wk_request = r, wk_phase = Answered resp c\<rparr>"
      using inv(2) by (auto simp: workers_ok_def worker_at_def)
    with a obtain o1 where "(rid, o1, resp) \<in> set (ag_given s)" by (auto simp: worker_ok_def given_for_def)
    with inv(3) show "\<exists>o1 owners. (rid, o1, resp) \<in> set (ag_given s) \<and> (rid, owners) \<in> set (ag_asked s) \<and> o1 \<in> owners"
      by (fastforce simp: history_ok_def)
  qed
  show "\<forall>rid r c. worker_at s rid r (Delivered c) \<longrightarrow> (\<forall>k \<in> set (sq_secret_keys r).
      \<exists>v. secret_text c (sq_setting_name r) k = Some v \<and> v \<noteq> [])"
  proof (intro allI impI ballI)
    fix rid r c k assume w: "worker_at s rid r (Delivered c)" and k: "k \<in> set (sq_secret_keys r)"
    from w agent_reachable_replies [OF assms] have "request_values_complete r c"
      unfolding replies_complete_def worker_at_def by force
    with k have "secret_value_present r c k" by (simp add: request_values_complete_def list_all_iff)
    then show "\<exists>v. secret_text c (sq_setting_name r) k = Some v \<and> v \<noteq> []"
      by (simp add: secret_value_present_def split: option.splits)
  qed
  show "\<forall>rid r c now. worker_at s rid r (Replying c) \<and> worker_at (deliver now r c s) rid r (Delivered c) \<longrightarrow>
      pg_nm_owner (ag_registry s) = sq_nm_owner r \<and> request_live now (ag_flags s) (ag_scopes s) r"
    using deliver_live worker_id [OF agent_reachable_inv [OF assms]] by blast
qed

text \<open>A sample run: a passphrase is asked for, supplied by the frontend that was asked, and delivered.\<close>

definition psk_settings :: connection_settings where
  "psk_settings = [(''802-11-wireless-security'', [(''key-mgmt'', DStr ''wpa-psk'')])]"

definition idle_scopes :: "nat \<Rightarrow> scope_state" where
  "idle_scopes _ = \<lparr>sc_deadline = 0, sc_finished = False, sc_pending_credentials = 0, sc_missing_frontend = False,
     sc_failure = None, sc_wakes = 0\<rparr>"

definition psk_request :: secret_request where
  "psk_request = \<lparr>sq_deadline = SECRET_TIMEOUT, sq_activation = None, sq_save_supported = True,
      sq_policy = \<lparr>rp_persistent = {''psk''}, rp_migration_required = False\<rparr>, sq_cancelled = 7, sq_nm_owner = Some '':1.1'',
      sq_id = ''q'', sq_key = key_for ''/c'' ''802-11-wireless-security'', sq_connection_path = ''/c'',
      sq_setting_name = ''802-11-wireless-security'', sq_hints = [], sq_secret_keys = [''psk''], sq_flags = 3\<rparr>"

definition psk_answer :: provide_params where
  "psk_answer = \<lparr>vp_request_id = ''q'', vp_save = True, vp_password = Some ''secret12'', vp_values = [], vp_cancel = False\<rparr>"

definition psk_response :: secret_response where
  "psk_response = \<lparr>sr_password = Some ''secret12'', sr_values = [], sr_save = True, sr_cancelled = False\<rparr>"

definition idle_agent :: agent_system where
  "idle_agent = \<lparr>ag_registry = \<lparr>pg_inflight = [], pg_nm_owner = None, pg_requests = []\<rparr>, ag_flags = {}, ag_scopes = idle_scopes,
      ag_handoff = [], ag_mail = (\<lambda>_. []), ag_workers = [], ag_outbox = [], ag_events = [], ag_asked = [], ag_given = []\<rparr>"

definition psk_agent :: "worker_phase \<Rightarrow> agent_system" where
  "psk_agent ph = idle_agent\<lparr>
     ag_registry := \<lparr>pg_inflight = (case ph of Started _ \<Rightarrow> [] | _ \<Rightarrow> [(sq_key psk_request, 7)]), pg_nm_owner = Some '':1.1'',
       pg_requests = (case chan_of ph of Some ch \<Rightarrow> [(''q'', \<lparr>pn_request = psk_request, pn_owners = {''ui''}, pn_sender = ch\<rparr>)]
                      | None \<Rightarrow> [])\<rparr>,
     ag_workers := [(''q'', \<lparr>wk_request = psk_request, wk_phase = ph\<rparr>)],
     ag_events := (case ph of Waiting _ _ \<Rightarrow> [(''q'', ''requested'')] | Answered _ _ \<Rightarrow> [(''q'', ''requested'')] | _ \<Rightarrow> []),
     ag_asked := (if unasked ph then [] else [(''q'', {''ui''})])\<rparr>"

lemma psk_simps [simp]:
  "sq_id psk_request = ''q''" "sq_flags psk_request = 3" "sq_nm_owner psk_request = Some '':1.1''" "sq_activation psk_request = None"
  "sq_cancelled psk_request = 7" "sq_secret_keys psk_request = [''psk'']" "sq_setting_name psk_request = ''802-11-wireless-security''"
  "sq_policy psk_request = \<lparr>rp_persistent = {''psk''}, rp_migration_required = False\<rparr>"
  "sq_deadline psk_request = SECRET_TIMEOUT"
  by (simp_all add: psk_request_def)

lemma psk_flags: "(3 :: u32) AND REQUEST_NEW \<noteq> 0" "(3 :: u32) AND ALLOW_INTERACTION \<noteq> 0"
  by (simp_all add: REQUEST_NEW_def ALLOW_INTERACTION_def)

lemma psk_in_time: "\<not> SECRET_TIMEOUT \<le> Suc 0" "\<not> SECRET_TIMEOUT \<le> 2" "Suc 0 < SECRET_TIMEOUT" "2 < SECRET_TIMEOUT"
  by (simp_all add: SECRET_TIMEOUT_def from_millis_def)

lemmas psk_run = psk_agent_def idle_agent_def set_phase_def worker_at_def Let_def check_live_def ensure_delivery_live_def
  ensure_request_owner_def ensure_secret_owner_def is_current_owner_def request_live_def retire_def handoff_clear_def
  handoff_access_def hm_retain_def psk_flags psk_in_time

lemma psk_prepared:
  "request_prepare [] idle_scopes psk_settings '':1.1'' (request_new 0 ''q'' 7 ''/c'' ''802-11-wireless-security'' [] 3) = Inr psk_request"
proof -
  have k: "secret_keys_for ''802-11-wireless-security'' [] = [''psk'']"
    by (simp add: secret_keys_for_def accepts_plugin_secret_names_def default_secret_key_for_setting_def)
  have w: "wireless_secret_key psk_settings ''802-11-wireless-security'' [] = None"
    by (simp add: wireless_secret_key_def psk_settings_def setting_string_def)
  have f: "secret_flags psk_settings ''802-11-wireless-security'' ''psk'' = Inr 0"
    by (simp add: secret_flags_def raw_flags_def psk_settings_def known_keys_def flag_value_def flags_key_def)
  then have "policy_from_request psk_settings ''802-11-wireless-security'' [''psk''] =
      Inr \<lparr>rp_persistent = {''psk''}, rp_migration_required = False\<rparr>"
    by (simp add: policy_from_request_def policy_step_def retention_default_def)
  with w k show ?thesis
    by (simp add: request_prepare_def request_new_def activation_find_def psk_request_def Let_def)
qed

lemma psk_started: "agent_reachable (psk_agent (Started psk_settings))"
proof -
  let ?s = "change_network_manager_owner 0 (Some '':1.1'') idle_agent"
  have "agent_reachable idle_agent" unfolding idle_agent_def by (rule agent_start)
  then have r: "agent_reachable ?s" using agent_next agent_step.owner_moves by blast
  have s: "?s = idle_agent\<lparr>ag_registry := \<lparr>pg_inflight = [], pg_nm_owner = Some '':1.1'', pg_requests = []\<rparr>\<rparr>"
    by (simp add: change_network_manager_owner_def psk_run)
  have "ag_scopes ?s = idle_scopes" "worker_of ?s ''q'' = None" "is_current_owner (ag_registry ?s) (Some '':1.1'')"
    unfolding s by (simp_all add: psk_run)
  from agent_next [OF r agent_step.arrives [OF this(2) psk_prepared [folded this(1)] this(3)]] show ?thesis
    unfolding s by (simp add: psk_run)
qed

lemma psk_looking: "inflight_new psk_request psk_settings (psk_agent (Started psk_settings)) = psk_agent (Looking psk_settings)"
  by (simp add: inflight_new_def cancel_by_key_def remove_by_key_def psk_run)

lemma psk_looked: "look_up 1 psk_request psk_settings (psk_agent (Looking psk_settings)) = psk_agent (Looked False psk_settings)"
  by (simp add: look_up_def psk_run)

lemma psk_asking: "decide 1 psk_request False psk_settings (psk_agent (Looked False psk_settings)) = psk_agent (Asking psk_settings)"
  by (simp add: decide_def psk_run)

lemma psk_subscribed:
  "find_frontends 1 psk_request [''ui''] psk_settings (psk_agent (Asking psk_settings)) = psk_agent (Subscribed [''ui''] psk_settings)"
  by (simp add: find_frontends_def psk_run)

lemma psk_registered:
  "register_pending 1 psk_request [''ui''] 3 psk_settings (psk_agent (Subscribed [''ui''] psk_settings)) = psk_agent (Registered 3 psk_settings)"
  by (simp add: register_pending_def pg_insert_def remove_by_key_def psk_run)

lemma psk_waiting: "publish_prompt 1 psk_request 3 psk_settings (psk_agent (Registered 3 psk_settings)) = psk_agent (Waiting 3 psk_settings)"
  by (simp add: publish_prompt_def emit_event_def psk_run)

lemma psk_answered:
  "receive_round 2 psk_request 3 psk_settings (fst (provide_answer 2 (Some ''ui'') psk_answer True (psk_agent (Waiting 3 psk_settings)))) =
   (psk_agent (Answered psk_response psk_settings))\<lparr>ag_mail := (\<lambda>_. [])(3 := [psk_response]), ag_given := [(''q'', ''ui'', psk_response)]\<rparr>"
  by (simp add: receive_round_def provide_answer_def psk_answer_def psk_response_def
      remove_for_owner_def send_response_def remove_pending_def pg_remove_def psk_run)

lemma psk_at: "worker_at (psk_agent ph) ''q'' psk_request ph"
  by (simp add: psk_run)

lemma psk_waiting_reachable: "agent_reachable (psk_agent (Waiting 3 psk_settings))"
proof -
  note r = agent_next [OF psk_started agent_step.tracked [OF psk_at], unfolded psk_looking]
  note r = agent_next [OF r agent_step.looks [OF psk_at, where now = 1], unfolded psk_looked]
  note r = agent_next [OF r agent_step.decides [OF psk_at, where now = 1], unfolded psk_asking]
  note r = agent_next [OF r agent_step.subscribes [OF psk_at, where now = 1 and owners = "[''ui'']"], unfolded psk_subscribed]
  have "ag_mail (psk_agent (Subscribed [''ui''] psk_settings)) 3 = []"
    "\<forall>(rid', w) \<in> set (ag_workers (psk_agent (Subscribed [''ui''] psk_settings))). chan_of (wk_phase w) \<noteq> Some 3"
    by (simp_all add: psk_run)
  note r = agent_next [OF r agent_step.registers [OF psk_at this, where now = 1], unfolded psk_registered]
  show ?thesis using agent_next [OF r agent_step.publishes [OF psk_at, where now = 1], unfolded psk_waiting] .
qed

definition answered_agent :: agent_system where
  "answered_agent = receive_round 2 psk_request 3 psk_settings
     (fst (provide_answer 2 (Some ''ui'') psk_answer True (psk_agent (Waiting 3 psk_settings))))"

lemma answered_agent_reachable: "agent_reachable answered_agent"
proof -
  let ?s = "fst (provide_answer 2 (Some ''ui'') psk_answer True (psk_agent (Waiting 3 psk_settings)))"
  have r: "agent_reachable ?s" using agent_next [OF psk_waiting_reachable agent_step.provides] .
  have "worker_at ?s ''q'' psk_request (Waiting 3 psk_settings)"
    by (simp add: provide_answer_def psk_answer_def
      remove_for_owner_def send_response_def psk_run)
  from agent_next [OF r agent_step.receives [OF this]] show ?thesis by (simp add: answered_agent_def)
qed

theorem secret_prompts_safe_witness:
  "\<exists>o1 owners. worker_at answered_agent ''q'' psk_request (Answered psk_response psk_settings) \<and>
     (''q'', o1, psk_response) \<in> set (ag_given answered_agent) \<and> (''q'', owners) \<in> set (ag_asked answered_agent) \<and> o1 \<in> owners"
proof -
  have w: "worker_at answered_agent ''q'' psk_request (Answered psk_response psk_settings)"
    unfolding answered_agent_def psk_answered by (simp add: psk_run)
  have "\<not> sr_cancelled psk_response" by (simp add: psk_response_def)
  with w have "worker_at answered_agent ''q'' psk_request (Answered psk_response psk_settings) \<and> \<not> sr_cancelled psk_response"
    by (rule conjI)
  with secret_prompts_safe [OF answered_agent_reachable, THEN conjunct2, THEN conjunct2, THEN conjunct2, THEN conjunct1]
  have "\<exists>o1 owners. (''q'', o1, psk_response) \<in> set (ag_given answered_agent) \<and> (''q'', owners) \<in> set (ag_asked answered_agent) \<and> o1 \<in> owners"
    by blast
  with w show ?thesis by simp
qed

section \<open>Applying an answer\<close>

lemma apply_password_text:
  assumes "apply_password sec (k, v) c = Inr c'" and "utf8_valid v"
  shows "secret_text c' sec k = Some v \<and> (\<forall>k'. k' \<noteq> k \<longrightarrow> secret_text c' sec k' = secret_text c sec k') \<and>
    (\<forall>sec'. sec' \<noteq> sec \<longrightarrow> hm_get c' sec' = hm_get c sec')"
proof -
  from assms have s: "set_text c sec k v = Inr c'" by (auto simp: apply_password_def split: sum.splits)
  show ?thesis using written_reads_back [OF s assms(2)] written_keeps_others [OF s] written_elsewhere [OF s] by blast
qed

lemma apply_response_values_text:
  "apply_response_values r kvs c = Inr c' \<Longrightarrow> hm_wf kvs \<Longrightarrow> (\<forall>(k, v) \<in> set kvs. utf8_valid v) \<Longrightarrow>
   (\<forall>k. secret_text c' (sq_setting_name r) k =
      (case map_of kvs k of Some v \<Rightarrow> Some v | None \<Rightarrow> secret_text c (sq_setting_name r) k)) \<and>
   (\<forall>sec. sec \<noteq> sq_setting_name r \<longrightarrow> hm_get c' sec = hm_get c sec)"
proof (induction r kvs c rule: apply_response_values.induct)
  case (2 r kv rest c)
  obtain k v where kv: "kv = (k, v)" by (cases kv)
  from 2(2) kv obtain c1 where c1: "apply_password (sq_setting_name r) (k, v) c = Inr c1" "apply_response_values r rest c1 = Inr c'"
    by (auto simp: and_then_Inr_iff)
  from 2(3) kv have wf: "hm_wf rest" "map_of rest k = None" by (auto simp: hm_wf_def map_of_eq_None_iff)
  from 2(4) kv have u: "utf8_valid v" "\<forall>(k, v) \<in> set rest. utf8_valid v" by auto
  note a = apply_password_text [OF c1(1) u(1)]
  from 2(1) [OF c1(2) wf(1) u(2)] a wf(2) kv show ?case by (auto split: option.splits)
qed simp

text \<open>
  What an answer supplies for a key: only requested keys count, and an empty value is none. A value
  named by its key comes first; the unnamed password stands for the first requested key when no
  value is named for that key.
\<close>

definition answer_for :: "secret_request \<Rightarrow> secret_response \<Rightarrow> string \<Rightarrow> string option" where
  "answer_for r resp k =
     (if k \<notin> set (sq_secret_keys r) then None
      else case hm_get (sr_values resp) k of
             Some v \<Rightarrow> if v = [] then None else Some v
           | None \<Rightarrow> if k = hd (sq_secret_keys r) \<and> sr_password resp \<noteq> Some [] then sr_password resp else None)"

abbreviation requested_values :: "secret_request \<Rightarrow> secret_response \<Rightarrow> (string, string) hash_map" where
  "requested_values r resp \<equiv> hm_retain (\<lambda>key v. key \<in> set (sq_secret_keys r) \<and> v \<noteq> [])
     (response_values r (sr_password resp) (sr_values resp))"

lemma response_values_wf: "hm_wf vs \<Longrightarrow> hm_wf (response_values r p vs)"
  by (auto simp: response_values_def split: option.splits)

lemma requested_values_wf: "hm_wf (sr_values resp) \<Longrightarrow> hm_wf (requested_values r resp)"
  by (rule hm_wf_retain [OF response_values_wf])

lemma requested_values_get:
  assumes "hm_wf (sr_values resp)"
  shows "hm_get (requested_values r resp) k = answer_for r resp k"
proof -
  have "hm_get (requested_values r resp) k = Some v \<longleftrightarrow> answer_for r resp k = Some v" for v
  proof (cases "k \<in> set (sq_secret_keys r)")
    case True
    then have "primary_secret_key r = hd (sq_secret_keys r)"
      by (cases "sq_secret_keys r") (auto simp: primary_secret_key_def)
    with True show ?thesis
      unfolding hm.retain_Some_iff [OF response_values_wf [OF assms]]
      by (auto simp: answer_for_def response_values_def update_conv' split: option.splits if_splits)
  next
    case False
    then show ?thesis
      unfolding hm.retain_Some_iff [OF response_values_wf [OF assms]] by (simp add: answer_for_def)
  qed
  then show ?thesis by (metis option.exhaust)
qed

lemma answer_for_valid:
  assumes "\<forall>(k, v) \<in> set (sr_values resp). utf8_valid v" and "\<forall>p. sr_password resp = Some p \<longrightarrow> utf8_valid p"
    and "answer_for r resp k = Some v"
  shows "utf8_valid v"
  using assms by (auto simp: answer_for_def dest: map_of_SomeD split: if_splits option.splits)

lemma apply_secret_response_accepted:
  assumes "apply_secret_response r resp c = Inr (c', save)"
  shows "\<not> sr_cancelled resp" "policy_rejection (sq_policy r) (sr_save resp) = None"
    "apply_response_values r (requested_values r resp) c = Inr c'" "request_values_complete r c'"
    "save = (if sr_save resp
       then Some (hm_retain (\<lambda>key _. key \<in> rp_persistent (sq_policy r)) (requested_values r resp)) else None)"
  using assms by (auto simp: apply_secret_response_def Let_def and_then_Inr_iff split: if_splits option.splits)

text \<open>
  C39. An accepted answer of a frontend is applied exactly to the requested credentials. It was no
  cancellation and its retention choice can be honoured. In the replied profile the setting of the
  request has, for every key, what the answer supplies for it (named values for requested keys; the
  unnamed password for the first requested key, when no value is named for it) and otherwise the
  value it had; no requested credential is missing or empty, and the other settings are as they
  were. What is handed to be saved is, exactly, what the answer supplies for the requested keys whose
  flags let NetworkManager keep them, and nothing when no save was asked for.
\<close>

theorem secret_answer_applied:
  assumes "apply_secret_response r resp c = Inr (c', save)" and "hm_wf (sr_values resp)"
    and "\<forall>(k, v) \<in> set (sr_values resp). utf8_valid v" and "\<forall>p. sr_password resp = Some p \<longrightarrow> utf8_valid p"
  shows "\<not> sr_cancelled resp \<and> policy_rejection (sq_policy r) (sr_save resp) = None \<and>
    (\<forall>k. secret_text c' (sq_setting_name r) k =
       (case answer_for r resp k of Some v \<Rightarrow> Some v | None \<Rightarrow> secret_text c (sq_setting_name r) k)) \<and>
    (\<forall>k \<in> set (sq_secret_keys r). \<exists>v. secret_text c' (sq_setting_name r) k = Some v \<and> v \<noteq> []) \<and>
    (\<forall>sec. sec \<noteq> sq_setting_name r \<longrightarrow> hm_get c' sec = hm_get c sec) \<and>
    (case save of None \<Rightarrow> \<not> sr_save resp
     | Some vs \<Rightarrow> sr_save resp \<and> hm_wf vs \<and>
         (\<forall>k. hm_get vs k = (if k \<in> rp_persistent (sq_policy r) then answer_for r resp k else None)))"
proof -
  note a = apply_secret_response_accepted [OF assms(1)]
  note wf = requested_values_wf [OF assms(2), of r]
  note get = requested_values_get [OF assms(2), of r]
  have "\<forall>(k, v) \<in> set (requested_values r resp). utf8_valid v"
    using answer_for_valid [OF assms(3,4)] get wf by (fastforce simp: hm_in_set_iff)
  note t = apply_response_values_text [OF a(3) wf this, unfolded get]
  have "\<exists>v. secret_text c' (sq_setting_name r) k = Some v \<and> v \<noteq> []" if "k \<in> set (sq_secret_keys r)" for k
    using that a(4) by (auto simp: request_values_complete_def list_all_iff secret_value_present_def split: option.splits)
  moreover have "hm_get (hm_retain (\<lambda>key _. key \<in> rp_persistent (sq_policy r)) (requested_values r resp)) k =
      (if k \<in> rp_persistent (sq_policy r) then answer_for r resp k else None)" for k
    using hm.retain_Some_iff [OF wf, of "\<lambda>key _. key \<in> rp_persistent (sq_policy r)" k] get [of k]
    by (metis option.exhaust)
  moreover note hm_wf_retain [OF wf, of "\<lambda>key _. key \<in> rp_persistent (sq_policy r)"]
  ultimately show ?thesis using a(1,2) t unfolding a(5) by (cases "sr_save resp") simp_all
qed

theorem secret_answer_applied_witness:
  "\<exists>c' save. apply_secret_response psk_request psk_response psk_settings = Inr (c', save) \<and>
     (\<exists>v. secret_text c' ''802-11-wireless-security'' ''psk'' = Some v \<and> v \<noteq> [])"
proof -
  let ?c = "[(''802-11-wireless-security'', [(''key-mgmt'', DStr ''wpa-psk''), (''psk'', DStr ''secret12'')])]"
  have a: "apply_secret_response psk_request psk_response psk_settings = Inr (?c, Some [(''psk'', ''secret12'')])"
    by (simp add: apply_secret_response_def psk_response_def policy_rejection_def response_values_def primary_secret_key_def
        hm_retain_def apply_password_def set_text_def known_keys_def section_or_default_def psk_settings_def
        request_values_complete_def secret_value_present_def secret_text_def setting_text_def Let_def)
  have u: "utf8_valid ''secret12''" by code_simp
  have r: "sr_values psk_response = []" "sr_password psk_response = Some ''secret12''" by (simp_all add: psk_response_def)
  have "\<forall>k \<in> set (sq_secret_keys psk_request). \<exists>v. secret_text ?c (sq_setting_name psk_request) k = Some v \<and> v \<noteq> []"
    by (rule secret_answer_applied [OF a, THEN conjunct2, THEN conjunct2, THEN conjunct2, THEN conjunct1])
      (simp_all add: r u hm_wf_def)
  then show ?thesis unfolding a by simp
qed

text \<open>
  The two steps of a lookup are \<open>resolve_secret_request\<close>: running them one after the other gives its
  result, and leaves the question to the frontends exactly where it would interact.
\<close>

definition phase_of :: "agent_system \<Rightarrow> string \<Rightarrow> worker_phase option" where
  "phase_of s rid = map_option wk_phase (worker_of s rid)"

definition look_up_and_decide :: "instant \<Rightarrow> instant \<Rightarrow> secret_request \<Rightarrow> connection_settings \<Rightarrow> agent_system \<Rightarrow> agent_system" where
  "look_up_and_decide now1 now2 r c s =
     (let u = look_up now1 r c s
      in case phase_of u (sq_id r) of Some (Looked complete c') \<Rightarrow> decide now2 r complete c' u | _ \<Rightarrow> u)"

lemma phase_of_set_phase [simp]: "worker_of s rid = Some w \<Longrightarrow> phase_of (set_phase rid ph s) rid = Some ph"
  by (simp add: phase_of_def set_phase_def update_conv')

lemma set_phase_handoff [simp]: "ag_handoff (set_phase rid ph s) = ag_handoff s"
  by (simp add: set_phase_def)

lemma check_live_handoff: "check_live now r s = (s', res) \<Longrightarrow> ag_handoff s' = ag_handoff s"
  by (auto simp: check_live_def split: prod.splits)

lemma lookup_is_resolve:
  fixes now1 now2 :: instant
  assumes w: "worker_at s (sq_id r) r (Looking c)"
  defines "u \<equiv> look_up now1 r c s" and "t \<equiv> look_up_and_decide now1 now2 r c s"
  shows "resolve_secret_request (snd (check_live now1 r s)) (snd (check_live now2 r u)) now1 r c interact (ag_handoff s) =
    (ag_handoff t, case phase_of t (sq_id r) of
       Some (Replying c') \<Rightarrow> Inr c' | Some (Ended e) \<Rightarrow> Inl e | Some (Asking c') \<Rightarrow> interact c')"
proof -
  obtain s1 res1 where l1: "check_live now1 r s = (s1, res1)" by fastforce
  obtain u2 res2 where l2: "check_live now2 r u = (u2, res2)" by fastforce
  obtain vs h where h: "handoff_take now1 r c (ag_handoff s) = (vs, h)" by fastforce
  have ws1: "worker_of s1 (sq_id r) = Some \<lparr>wk_request = r, wk_phase = Looking c\<rparr>"
    using w check_live_workers [OF l1] by (simp add: worker_at_def)
  have hs: "ag_handoff s1 = ag_handoff s" by (rule check_live_handoff [OF l1])
  have u: "u = (case res1 of Inl e \<Rightarrow> set_phase (sq_id r) (Ended e) s1
      | Inr _ \<Rightarrow> if sq_flags r AND REQUEST_NEW \<noteq> 0
          then set_phase (sq_id r) (Looked False c) (s1\<lparr>ag_handoff := handoff_clear now1 (Some (sq_connection_path r)) (ag_handoff s)\<rparr>)
          else set_phase (sq_id r) (case apply_stored_values r vs c of Inl e \<Rightarrow> Ended e | Inr (complete, c') \<Rightarrow> Looked complete c')
                 (s1\<lparr>ag_handoff := h\<rparr>))"
    using l1 h hs by (simp add: u_def look_up_def split: sum.splits)
  have wu: "\<exists>w. worker_of u (sq_id r) = Some w"
    using ws1 by (auto simp: u set_phase_def update_conv' split: sum.splits)
  then obtain wu where wu2: "worker_of u2 (sq_id r) = Some wu" using check_live_workers [OF l2] by auto
  have hu: "ag_handoff u2 = ag_handoff u" by (rule check_live_handoff [OF l2])
  have t: "t = (case phase_of u (sq_id r) of Some (Looked complete c') \<Rightarrow> decide now2 r complete c' u | _ \<Rightarrow> u)"
    by (simp only: t_def look_up_and_decide_def u_def Let_def)
  have dec: "decide now2 r complete c' u = (case res2 of Inl e \<Rightarrow> set_phase (sq_id r) (Ended e) u2
      | Inr _ \<Rightarrow> set_phase (sq_id r) (if complete then Replying c'
           else if sq_flags r AND ALLOW_INTERACTION = 0 then Ended (NoSecrets ''no usable stored secret and interaction is prohibited'')
           else Asking c') u2)" for complete c'
    using l2 by (simp add: decide_def split: sum.splits)
  show ?thesis
  proof (cases res1)
    case (Inl e)
    then show ?thesis using l1 ws1 hs by (simp add: resolve_secret_request_def t u)
  next
    case (Inr v)
    show ?thesis
    proof (cases "sq_flags r AND REQUEST_NEW \<noteq> 0")
      case True
      with Inr have pu: "phase_of u (sq_id r) = Some (Looked False c)" "ag_handoff u = handoff_clear now1 (Some (sq_connection_path r)) (ag_handoff s)"
        using ws1 by (simp_all add: u)
      show ?thesis using Inr True l1 l2 pu hu wu2
        by (cases res2) (simp_all add: resolve_secret_request_def t dec Let_def)
    next
      case False
      show ?thesis
      proof (cases "apply_stored_values r vs c")
        case l: (Inl e)
        with Inr False have pu: "phase_of u (sq_id r) = Some (Ended e)" "ag_handoff u = h"
          using ws1 by (simp_all add: u)
        with l Inr False l1 h show ?thesis by (simp add: resolve_secret_request_def t Let_def)
      next
        case r: (Inr bc)
        obtain b c' where "bc = (b, c')" by fastforce
        with r Inr False have pu: "phase_of u (sq_id r) = Some (Looked b c')" "ag_handoff u = h"
          using ws1 by (simp_all add: u)
        show ?thesis using r \<open>bc = (b, c')\<close> Inr False l1 l2 h pu hu wu2
          by (cases res2) (simp_all add: resolve_secret_request_def t dec Let_def)
      qed
    qed
  qed
qed

end
