(* ===== verification/Durable_Save.thy ===== *)
theory Durable_Save
  imports Profile_Writes Secret_Agent
begin

text \<open>
  Durable saves of credentials (\<open>src/daemon_secret/storage.rs\<close>, \<open>src/daemon_secret/persistence.rs\<close>). The
  answer to NetworkManager carries the credential; only after the activation it belongs to has succeeded is
  the profile asked whether it kept the credential, and committed to disk by an empty update at the version
  that was verified. The queue of saves is a transition system: a ticket per save, eight places, one
  writer, and invalidation of every save of a profile.
\<close>

section \<open>Confirmation\<close>

text \<open>
  The cancellation flag of the save, the registry's view of the request's owner and the clock (in
  milliseconds) are read while other threads change them, so they are questions to the environment. A
  call without an answer in three seconds is the empty error.
\<close>

definition bounded :: "'a io \<Rightarrow> 'a io" where
  "bounded m = io_map_err (\<lambda>e. if e = [] then [LContext ''NetworkManager confirmation timed out'']
     else [LContext ''NetworkManager confirmation call failed'']) m"

definition cancelled_flag :: "bool io" where
  "cancelled_flag = expect reply_bool (LocalRead ''save cancelled'')"

definition request_current :: "bool io" where
  "request_current = expect reply_bool (LocalRead ''request owner current'')"

definition clock :: "nat io" where
  "clock = expect reply_time (LocalRead ''clock'')"

definition io_sleep :: "unit io" where
  "io_sleep = io_map (\<lambda>_. ()) (io_ask Wait)"

definition request_proxy :: "bool \<Rightarrow> secret_request \<Rightarrow> 'a io \<Rightarrow> 'a io" where
  "request_proxy transport r m =
     io_then (io_ensure transport ''request transport unavailable'')
       (io_then (io_ensure (sq_nm_owner r \<noteq> None) ''request owner unavailable'') m)"

definition save_current :: "bool \<Rightarrow> secret_request \<Rightarrow> unit io" where
  "save_current transport r =
     io_then (io_require (io_map Not cancelled_flag) ''credential confirmation superseded or cancelled'')
     (io_then (io_require request_current ''credential request retired'')
     (io_then (io_ensure transport ''request transport unavailable'')
     (io_require (io_map (\<lambda>owner. sq_nm_owner r = Some owner) (bounded (expect reply_str GetNameOwner)))
        ''NetworkManager owner changed'')))"

text \<open>Equality of hash maps.\<close>

definition hm_same :: "('k, 'v) hash_map \<Rightarrow> ('k, 'v) hash_map \<Rightarrow> bool" where
  "hm_same a b \<longleftrightarrow> list_all (\<lambda>k. hm_get a k = hm_get b k) (map fst a @ map fst b)"

definition settings_same :: "connection_settings \<Rightarrow> connection_settings \<Rightarrow> bool" where
  "settings_same a b \<longleftrightarrow> list_all (\<lambda>sec. case (hm_get a sec, hm_get b sec) of
     (Some x, Some y) \<Rightarrow> hm_same x y | _ \<Rightarrow> False) (map fst a @ map fst b)"

record save_context =
  sc_public :: connection_settings
  sc_filename :: string
  sc_active :: string

definition pending_on :: "bool \<Rightarrow> secret_request \<Rightarrow> string \<Rightarrow> string list \<Rightarrow> string list io" where
  "pending_on transport r path found =
     request_proxy transport r
     (io_bind (bounded (expect reply_path (GetProperty path ''Connection''))) (\<lambda>connection.
       if connection \<noteq> sq_connection_path r then io_return found
       else io_bind (bounded (expect reply_u32 (GetProperty path ''State''))) (\<lambda>state.
              io_return (if state = 1 then found @ [path] else found))))"

definition capture :: "bool \<Rightarrow> secret_request \<Rightarrow> connection_settings \<Rightarrow> save_context io" where
  "capture transport r supplied =
     (let path = sq_connection_path r
      in request_proxy transport r
     (io_bind (bounded (version_of path)) (\<lambda>version.
     io_then (io_ensure (version \<noteq> 0) ''profile version unavailable'')
     (io_bind (bounded (expect reply_settings (GetSettings path))) (\<lambda>settings.
     io_bind (io_lift (public_settings settings)) (\<lambda>public.
     io_bind (io_lift (public_settings supplied)) (\<lambda>supplied_public.
     io_then (io_ensure (settings_same public supplied_public) ''profile changed during credential prompting'')
     (io_then (io_require (io_map Not (bounded (expect reply_bool (GetProperty path ''Unsaved'')))) ''profile has staged changes'')
     (io_bind (bounded (expect reply_str (GetProperty path ''Filename''))) (\<lambda>filename.
     io_then (io_ensure (durable_file filename) ''profile is not durably file-backed'')
     (io_then (io_require (io_map (\<lambda>v. v = version) (bounded (version_of path))) ''profile changed during confirmation setup'')
     (io_bind (bounded (expect reply_str (GetProperty NM_PATH ''Version''))) (\<lambda>running.
     io_then (io_ensure (validated_storage_version running) ''unvalidated NetworkManager storage semantics'')
     (io_bind (bounded (expect reply_paths (GetProperty NM_PATH ''ActiveConnections''))) (\<lambda>paths.
     io_bind (io_fold (pending_on transport r) paths []) (\<lambda>matching.
     io_then (io_ensure (length matching = 1) ''no unambiguous pending activation boundary; storage is unconfirmed'')
     (io_return \<lparr>sc_public = public, sc_filename = filename, sc_active = hd matching\<rparr>)))))))))))))))))"

text \<open>The wait for the activation; \<open>None\<close> is more iterations than the fuel allows.\<close>

fun await_loop :: "nat \<Rightarrow> bool \<Rightarrow> secret_request \<Rightarrow> save_context \<Rightarrow> nat \<Rightarrow> unit option io" where
  "await_loop 0 transport r ctx deadline = io_return None"
| "await_loop (Suc fuel) transport r ctx deadline =
     io_then (save_current transport r)
     (io_bind (bounded (expect reply_u32 (GetProperty (sc_active ctx) ''State''))) (\<lambda>state.
       if state = 2 then io_return (Some ())
       else if state \<noteq> 1
       then io_lift (Inl [LContext ''activation ended before durable storage could be confirmed''])
       else io_then (io_require (io_map (\<lambda>now. now < deadline) clock) ''activation boundary timed out; storage is unconfirmed'')
              (io_then io_sleep (await_loop fuel transport r ctx deadline))))"

definition await_activation :: "nat \<Rightarrow> bool \<Rightarrow> secret_request \<Rightarrow> save_context \<Rightarrow> unit option io" where
  "await_activation fuel transport r ctx =
     request_proxy transport r
     (io_bind clock (\<lambda>now. await_loop fuel transport r ctx (now + 30000)))"

definition authorize_confirmation :: "bool \<Rightarrow> secret_request \<Rightarrow> connection_settings \<Rightarrow> unit io" where
  "authorize_confirmation transport r public =
     request_proxy transport r
     (io_bind (bounded (expect reply_texts GetPermissions)) (\<lambda>permissions.
       let acl = (case hm_get public ''connection'' of Some c \<Rightarrow> setting_strings c ''permissions'' | None \<Rightarrow> []);
           permission = (if length acl = 1 then ''org.freedesktop.NetworkManager.settings.modify.own''
                         else ''org.freedesktop.NetworkManager.settings.modify.system'')
       in io_ensure (hm_get permissions permission = Some ''yes'') ''authorization needed for durable confirmation''))"

definition retention_kept :: "connection_settings \<Rightarrow> string \<Rightarrow> string list \<Rightarrow> anyhow_error + unit" where
  "retention_kept public sec keys =
     try_each (\<lambda>key. and_then (secret_flags public sec key) (\<lambda>f.
       if f AND (AGENT_OWNED OR NOT_SAVED) = 0 then Inr () else Inl [LContext ''credential retention changed''])) keys"

definition values_retained :: "connection_settings \<Rightarrow> string \<Rightarrow> (string, string) hash_map \<Rightarrow> bool" where
  "values_retained reply sec vs \<longleftrightarrow> list_all (\<lambda>(key, v). secret_text reply sec key = Some v) vs"

definition saved_is :: "string \<Rightarrow> string \<Rightarrow> unit io" where
  "saved_is path message = io_require (io_map Not (bounded (expect reply_bool (GetProperty path ''Unsaved'')))) message"

definition filename_is :: "string \<Rightarrow> string \<Rightarrow> string \<Rightarrow> unit io" where
  "filename_is path filename message =
     io_require (io_map (\<lambda>f. f = filename) (bounded (expect reply_str (GetProperty path ''Filename'')))) message"

definition version_still :: "string \<Rightarrow> u64 \<Rightarrow> string \<Rightarrow> unit io" where
  "version_still path version message = io_require (io_map (\<lambda>v. v = version) (bounded (version_of path))) message"

definition next_version :: "u64 \<Rightarrow> u64 io" where
  "next_version v = io_lift (ok_or (checked_inc v) [LContext ''profile version exhausted''])"

text \<open>The checks up to the commit; they yield the version to commit.\<close>

definition verify_retained :: "bool \<Rightarrow> secret_request \<Rightarrow> save_context \<Rightarrow> (string, string) hash_map \<Rightarrow> u64 io" where
  "verify_retained transport r ctx vs =
     (let path = sq_connection_path r; sec = sq_setting_name r
      in request_proxy transport r
     (io_bind (bounded (version_of path)) (\<lambda>version.
     io_bind (bounded (expect reply_settings (GetSettings path))) (\<lambda>public.
     io_bind (io_lift (public_settings public)) (\<lambda>now_public.
     io_then (io_ensure (settings_same now_public (sc_public ctx)) ''profile changed before confirmation'')
     (io_then (saved_is path ''staged changes must not be flushed by credential confirmation'')
     (io_then (filename_is path (sc_filename ctx) ''profile storage changed'')
     (io_then (io_lift (retention_kept public sec (map fst vs)))
     (io_then (authorize_confirmation transport r public)
     (io_then (save_current transport r)
     (io_then (version_still path version ''profile changed before secret verification'')
     (io_bind (bounded (expect reply_settings (GetSecrets path sec))) (\<lambda>reply.
     io_bind (next_version version) (\<lambda>expected.
     io_then (version_still path expected ''concurrent edit during secret verification'')
     (io_then (io_ensure (values_retained reply sec vs) ''credential changed or was not retained by NetworkManager'')
     (io_then (save_current transport r)
     (io_then (saved_is path ''profile has staged changes'')
     (io_return expected))))))))))))))))))"

definition commit_retained :: "bool \<Rightarrow> secret_request \<Rightarrow> save_context \<Rightarrow> u64 \<Rightarrow> unit io" where
  "commit_retained transport r ctx expected =
     (let path = sq_connection_path r
      in io_bind (bounded (expect reply_dict (Update2 path [] 1 expected))) (\<lambda>_.
     io_then (save_current transport r)
     (io_bind (bounded (version_of path)) (\<lambda>version.
     io_bind (next_version expected) (\<lambda>committed.
     io_then (io_ensure (version = committed) ''profile changed after commit; storage outcome needs verification'')
     (io_then (saved_is path ''profile remains unsaved'')
       (filename_is path (sc_filename ctx) ''profile storage changed after commit'')))))))"

definition confirm :: "nat \<Rightarrow> bool \<Rightarrow> secret_request \<Rightarrow> save_context \<Rightarrow> (string, string) hash_map \<Rightarrow> unit option io" where
  "confirm fuel transport r ctx vs =
     io_bind (await_activation fuel transport r ctx) (\<lambda>activated.
       case activated of
         None \<Rightarrow> io_return None
       | Some _ \<Rightarrow> io_bind (verify_retained transport r ctx vs) (\<lambda>expected.
           io_map Some (commit_retained transport r ctx expected)))"

datatype persistence_outcome = Stored | SaveFailed string

text \<open>\<open>prepare\<close>: the capture is tried while NetworkManager waits for the reply; the rest runs later.\<close>

definition prepare_context ::
    "bool \<Rightarrow> secret_request \<Rightarrow> connection_settings \<Rightarrow> (string, string) hash_map \<Rightarrow> save_context io" where
  "prepare_context transport r settings vs =
     (if hm_retain (\<lambda>key _. key \<in> rp_persistent (sq_policy r)) vs = []
      then io_lift (Inl [LContext ''request contains no saveable credentials''])
      else capture transport r settings)"

definition outermost :: "anyhow_error \<Rightarrow> string" where
  "outermost e = (case e of [] \<Rightarrow> [] | l # _ \<Rightarrow> layer_display l)"

definition run_save ::
    "nat \<Rightarrow> bool \<Rightarrow> secret_request \<Rightarrow> anyhow_error + save_context \<Rightarrow> (string, string) hash_map \<Rightarrow> persistence_outcome option io" where
  "run_save fuel transport r prepared vs =
     io_bind (io_try (case prepared of
         Inl e \<Rightarrow> io_lift (Inl e)
       | Inr ctx \<Rightarrow> confirm fuel transport r ctx (hm_retain (\<lambda>key _. key \<in> rp_persistent (sq_policy r)) vs)))
       (\<lambda>result. io_return (case result of
          Inr None \<Rightarrow> None
        | Inr (Some _) \<Rightarrow> Some Stored
        | Inl e \<Rightarrow> Some (SaveFailed (outermost e))))"

section \<open>A save commits what it verified\<close>

lemma bounded_ok: "bounded m E h = (h', Inr x) \<longleftrightarrow> m E h = (h', Inr x)"
  by (simp add: bounded_def io_map_err_ok)

lemma asks_bounded [asks_rules]: "asks P m \<Longrightarrow> asks P (bounded m)"
  unfolding bounded_def by (rule asks_map_err)

lemma request_proxy_ok: "request_proxy t r m E h = (h', Inr x) \<longleftrightarrow> t \<and> sq_nm_owner r \<noteq> None \<and> m E h = (h', Inr x)"
  by (auto simp: request_proxy_def io_then_ok io_ensure_ok)

lemma asks_request_proxy [asks_rules]: "asks P m \<Longrightarrow> asks P (request_proxy t r m)"
  unfolding request_proxy_def by (intro asks_rules)

lemma save_reads_harmless [asks_rules]:
  "asks harmless cancelled_flag" "asks harmless request_current" "asks harmless clock" "asks harmless io_sleep"
  "asks harmless (saved_is path msg)" "asks harmless (filename_is path f msg)" "asks harmless (version_still path v msg)"
  "asks harmless (next_version v)"
  unfolding cancelled_flag_def request_current_def clock_def io_sleep_def saved_is_def filename_is_def version_still_def
    next_version_def
  by (intro asks_rules; simp)+

lemma save_current_harmless [asks_rules]: "asks harmless (save_current t r)"
  unfolding save_current_def by (intro asks_rules) simp_all

lemma authorize_harmless [asks_rules]: "asks harmless (authorize_confirmation t r public)"
  unfolding authorize_confirmation_def Let_def by (intro asks_rules) simp_all

lemma await_harmless: "asks harmless (await_loop fuel t r ctx deadline)"
proof (induction fuel)
  case 0
  show ?case unfolding await_loop.simps by (rule asks_lift)
next
  case (Suc fuel)
  then show ?case unfolding await_loop.simps by (intro asks_rules) simp_all
qed

lemma activation_harmless: "asks harmless (await_activation fuel t r ctx)"
  unfolding await_activation_def using await_harmless by (intro asks_rules)

lemma verify_harmless: "asks harmless (verify_retained t r ctx vs)"
  unfolding verify_retained_def Let_def by (intro asks_rules) simp_all

lemma capture_harmless: "asks harmless (capture t r supplied)"
  unfolding capture_def pending_on_def Let_def by (intro asks_rules) simp_all

lemma reply_str_ok: "reply_str r = Some s \<longleftrightarrow> r = RStr s" and reply_u32_ok: "reply_u32 r = Some n \<longleftrightarrow> r = RU32 n"
  and reply_time_ok: "reply_time r = Some t \<longleftrightarrow> r = RTime t"
  by (cases r; auto)+

lemmas save_ok = io_ok bounded_ok request_proxy_ok reply_ok reply_str_ok reply_u32_ok reply_time_ok

lemma ok_or_ok: "ok_or x e = Inr y \<longleftrightarrow> x = Some y"
  by (auto simp: ok_or_def split: option.splits)

lemma save_current_ok:
  "save_current t r E h = (h', Inr ()) \<longleftrightarrow>
     h' = [GetNameOwner, LocalRead ''request owner current'', LocalRead ''save cancelled''] @ h \<and> t
     \<and> E h (LocalRead ''save cancelled'') = Inr (RBool False)
     \<and> E (LocalRead ''save cancelled'' # h) (LocalRead ''request owner current'') = Inr (RBool True)
     \<and> (\<exists>owner. E (LocalRead ''request owner current'' # LocalRead ''save cancelled'' # h) GetNameOwner = Inr (RStr owner)
          \<and> sq_nm_owner r = Some owner)"
  unfolding save_current_def cancelled_flag_def request_current_def
  by (auto simp: save_ok)

text \<open>
  What was known when the commit was sent: the activation had succeeded; at one version, with the public
  settings as captured and no staged changes, the profile held every credential to be kept; reading them
  was the only change since; and the save was neither cancelled nor its request retired.
\<close>

definition verified_save ::
    "nm_env \<Rightarrow> secret_request \<Rightarrow> save_context \<Rightarrow> (string, string) hash_map \<Rightarrow> nm_history \<Rightarrow> nm_history \<Rightarrow> u64 \<Rightarrow> bool" where
  "verified_save E r ctx vs h0 h1 V \<longleftrightarrow>
     (let path = sq_connection_path r; sec = sq_setting_name r
      in \<exists>h2 h3 cs ds reply s p v.
        h1 = [GetProperty path ''Unsaved'', GetNameOwner, LocalRead ''request owner current'', LocalRead ''save cancelled'',
               GetProperty path ''VersionId'', GetSecrets path sec] @ h2
        \<and> h2 = cs @ GetSettings path # GetProperty path ''VersionId'' # h3 \<and> h3 = ds @ h0
        \<and> E h3 (GetProperty path ''VersionId'') = Inr (RU64 v)
        \<and> E (GetProperty path ''VersionId'' # h3) (GetSettings path) = Inr (RSettings s)
        \<and> public_settings s = Inr p \<and> settings_same p (sc_public ctx) \<and> retention_kept s sec (map fst vs) = Inr ()
        \<and> E h2 (GetSecrets path sec) = Inr (RSettings reply) \<and> values_retained reply sec vs
        \<and> E (GetSecrets path sec # h2) (GetProperty path ''VersionId'') = Inr (RU64 V) \<and> unat V = unat v + 1
        \<and> E (GetProperty path ''VersionId'' # GetSecrets path sec # h2) (LocalRead ''save cancelled'') = Inr (RBool False)
        \<and> E (tl h1) (GetProperty path ''Unsaved'') = Inr (RBool False))"

lemma verify_ok:
  assumes "verify_retained t r ctx vs E h = (h1, Inr V)"
  shows "verified_save E r ctx vs h h1 V"
proof -
  let ?path = "sq_connection_path r" and ?sec = "sq_setting_name r"
  obtain v s p h4 h5 h6 h7 h8 h9 h10' reply where run:
    "E h (GetProperty ?path ''VersionId'') = Inr (RU64 v)"
    "E (GetProperty ?path ''VersionId'' # h) (GetSettings ?path) = Inr (RSettings s)"
    "public_settings s = Inr p" "settings_same p (sc_public ctx)"
    "saved_is ?path ''staged changes must not be flushed by credential confirmation'' E
       (GetSettings ?path # GetProperty ?path ''VersionId'' # h) = (h4, Inr ())"
    "filename_is ?path (sc_filename ctx) ''profile storage changed'' E h4 = (h5, Inr ())"
    "retention_kept s ?sec (map fst vs) = Inr ()"
    "authorize_confirmation t r s E h5 = (h6, Inr ())" "save_current t r E h6 = (h7, Inr ())"
    "version_still ?path v ''profile changed before secret verification'' E h7 = (h8, Inr ())"
    "E h8 (GetSecrets ?path ?sec) = Inr (RSettings reply)" "checked_inc v = Some V"
    "version_still ?path V ''concurrent edit during secret verification'' E (GetSecrets ?path ?sec # h8) = (h9, Inr ())"
    "values_retained reply ?sec vs" "save_current t r E h9 = (h10', Inr ())"
    "saved_is ?path ''profile has staged changes'' E h10' = (h1, Inr ())"
    using assms unfolding verify_retained_def Let_def next_version_def request_proxy_ok io_bind_ok io_then_ok io_ensure_ok
      io_lift_ok bounded_ok expect_ok reply_ok ok_or_ok io_return_run prod.inject sum.inject
    by clarify (rule that; (assumption | rule refl))
  have h9: "h9 = GetProperty ?path ''VersionId'' # GetSecrets ?path ?sec # h8"
      "E (GetSecrets ?path ?sec # h8) (GetProperty ?path ''VersionId'') = Inr (RU64 V)"
    using run(13) by (auto simp: version_still_def save_ok)
  from run(15,16) obtain h10 where h10: "save_current t r E h9 = (h10, Inr ())"
      "h1 = GetProperty ?path ''Unsaved'' # h10" "E h10 (GetProperty ?path ''Unsaved'') = Inr (RBool False)"
    by (auto simp: saved_is_def save_ok)
  have "\<exists>cs. h8 = cs @ GetSettings ?path # GetProperty ?path ''VersionId'' # h"
    using extends [OF save_reads_harmless(5) run(5)] extends [OF save_reads_harmless(6) run(6)]
      extends [OF authorize_harmless run(8)] extends [OF save_current_harmless run(9)]
      extends [OF save_reads_harmless(7) run(10)] by auto
  then obtain cs where cs: "h8 = cs @ GetSettings ?path # GetProperty ?path ''VersionId'' # h" ..
  from h10(1) [unfolded save_current_ok]
  have c10: "h10 = [GetNameOwner, LocalRead ''request owner current'', LocalRead ''save cancelled''] @ h9"
    "E h9 (LocalRead ''save cancelled'') = Inr (RBool False)" by blast+
  have "h1 = [GetProperty ?path ''Unsaved'', GetNameOwner, LocalRead ''request owner current'', LocalRead ''save cancelled'',
               GetProperty ?path ''VersionId'', GetSecrets ?path ?sec] @ h8"
    using h10(2) c10(1) h9(1) by simp
  moreover have "tl h1 = h10" using h10(2) by simp
  ultimately show ?thesis
    unfolding verified_save_def Let_def
    using run(1-4,7,11,14) h9 h10(3) c10(2) cs checked_inc_ok [OF run(12)] append_Nil [of h, symmetric] by metis
qed

lemma await_ok:
  "await_loop fuel t r ctx deadline E h = (h', Inr (Some ())) \<Longrightarrow>
     \<exists>h1. h' = GetProperty (sc_active ctx) ''State'' # h1 \<and> E h1 (GetProperty (sc_active ctx) ''State'') = Inr (RU32 2)"
  by (induction fuel arbitrary: h) (auto simp: save_ok split: if_splits)

lemma io_bind_ask_run:
  "io_bind (bounded (expect conv c)) f E h = (h', r) \<Longrightarrow>
     (h' = c # h \<and> isl r) \<or> (\<exists>a x. E h c = Inr a \<and> conv a = Some x \<and> f x E (c # h) = (h', r))"
  by (auto simp: io_bind_run bounded_def io_map_err_run expect_run and_then_def ok_or_def split: sum.splits option.splits)

lemma commit_retained_run:
  assumes "commit_retained t r ctx V E h = (h', q)"
  defines "w \<equiv> Update2 (sq_connection_path r) [] 1 V"
  shows "\<exists>cs. h' = cs @ w # h \<and> list_all harmless cs"
    "q = Inr () \<Longrightarrow> (\<exists>d. E h w = Inr (RDict d)) \<and> (\<exists>h2 cs W. h' = cs @ GetProperty (sq_connection_path r) ''VersionId'' # h2
       \<and> E h2 (GetProperty (sq_connection_path r) ''VersionId'') = Inr (RU64 W) \<and> unat W = unat V + 1
       \<and> (\<exists>ds. h2 = ds @ w # h))"
proof -
  let ?path = "sq_connection_path r"
  define rest where "rest = io_then (save_current t r)
     (io_bind (bounded (version_of ?path)) (\<lambda>version.
     io_bind (next_version V) (\<lambda>committed.
     io_then (io_ensure (version = committed) ''profile changed after commit; storage outcome needs verification'')
     (io_then (saved_is ?path ''profile remains unsaved'')
       (filename_is ?path (sc_filename ctx) ''profile storage changed after commit'')))))"
  have rest_harmless: "asks harmless rest" unfolding rest_def by (intro asks_rules) simp_all
  have "io_bind (bounded (expect reply_dict w)) (\<lambda>_. rest) E h = (h', q)"
    using assms(1) unfolding commit_retained_def Let_def rest_def w_def .
  from io_bind_ask_run [OF this] consider "h' = w # h" "isl q"
    | d where "E h w = Inr (RDict d)" "rest E (w # h) = (h', q)" by (auto simp: reply_ok)
  then have "(\<exists>cs. h' = cs @ w # h \<and> list_all harmless cs) \<and> (q = Inr () \<longrightarrow> (\<exists>d. E h w = Inr (RDict d)) \<and>
      (\<exists>h2 cs W. h' = cs @ GetProperty ?path ''VersionId'' # h2
       \<and> E h2 (GetProperty ?path ''VersionId'') = Inr (RU64 W) \<and> unat W = unat V + 1 \<and> (\<exists>ds. h2 = ds @ w # h)))"
  proof cases
    case 1
    then show ?thesis by auto
  next
    case 2
    have "\<exists>h2 cs W. h' = cs @ GetProperty ?path ''VersionId'' # h2
       \<and> E h2 (GetProperty ?path ''VersionId'') = Inr (RU64 W) \<and> unat W = unat V + 1 \<and> (\<exists>ds. h2 = ds @ w # h)" if done_ok: "q = Inr ()"
    proof -
      obtain h3 W h4 where run: "save_current t r E (w # h) = (h3, Inr ())"
          "E h3 (GetProperty ?path ''VersionId'') = Inr (RU64 W)" "checked_inc V = Some W"
          "saved_is ?path ''profile remains unsaved'' E (GetProperty ?path ''VersionId'' # h3) = (h4, Inr ())"
          "filename_is ?path (sc_filename ctx) ''profile storage changed after commit'' E h4 = (h', Inr ())"
        using 2(2) [unfolded done_ok] unfolding rest_def next_version_def io_bind_ok io_then_ok io_ensure_ok io_lift_ok bounded_ok expect_ok
          reply_ok ok_or_ok by blast
      have "\<exists>cs. h' = cs @ GetProperty ?path ''VersionId'' # h3"
        using extends [OF save_reads_harmless(5) run(4)] extends [OF save_reads_harmless(6) run(5)] by auto
      with run(2) checked_inc_ok [OF run(3)] extends [OF save_current_harmless run(1)] show ?thesis by blast
    qed
    with 2 asks_run [OF rest_harmless 2(2)] show ?thesis by blast
  qed
  then show "\<exists>cs. h' = cs @ w # h \<and> list_all harmless cs"
    "q = Inr () \<Longrightarrow> (\<exists>d. E h w = Inr (RDict d)) \<and> (\<exists>h2 cs W. h' = cs @ GetProperty ?path ''VersionId'' # h2
       \<and> E h2 (GetProperty ?path ''VersionId'') = Inr (RU64 W) \<and> unat W = unat V + 1 \<and> (\<exists>ds. h2 = ds @ w # h))"
    by blast+
qed

definition save_acknowledged :: "nm_env \<Rightarrow> secret_request \<Rightarrow> nm_history \<Rightarrow> nm_history \<Rightarrow> u64 \<Rightarrow> bool" where
  "save_acknowledged E r h1 h' V \<longleftrightarrow>
     (let path = sq_connection_path r; w = Update2 path [] 1 V
      in (\<exists>d. E h1 w = Inr (RDict d)) \<and> (\<exists>h2 cs ds W. h' = cs @ GetProperty path ''VersionId'' # h2 \<and> h2 = ds @ w # h1
           \<and> E h2 (GetProperty path ''VersionId'') = Inr (RU64 W) \<and> unat W = unat V + 1))"

text \<open>C13. A durable save commits what it verified and nothing else. Whatever NetworkManager and the other
  clients do in between, a confirmation writes at most once: an empty update, which commits
  NetworkManager's own settings, to the request's profile, at the version at which every credential to be
  kept was read back from the profile, with the public settings as they were when the credential was
  prompted for, no staged changes, the activation seen successful and the save not cancelled. It is
  reported stored only if that update was acknowledged and the version then was exactly the next one.\<close>

theorem durable_save_verified:
  assumes "confirm fuel t r ctx vs E h = (h', q)"
  shows "(written h' = written h \<and> q \<noteq> Inr (Some ())) \<or>
    (\<exists>h0 h1 cs ds V. h0 = GetProperty (sc_active ctx) ''State'' # ds @ h
       \<and> E (tl h0) (GetProperty (sc_active ctx) ''State'') = Inr (RU32 2)
       \<and> verified_save E r ctx vs h0 h1 V
       \<and> h' = cs @ Update2 (sq_connection_path r) [] 1 V # h1
       \<and> written h' = Update2 (sq_connection_path r) [] 1 V # written h
       \<and> (q = Inr (Some ()) \<longrightarrow> save_acknowledged E r h1 h' V))"
proof -
  define after where "after activated = (case activated of
         None \<Rightarrow> io_return None
       | Some _ \<Rightarrow> io_bind (verify_retained t r ctx vs) (\<lambda>expected.
           io_map Some (commit_retained t r ctx expected)))" for activated :: "unit option"
  have run: "io_bind (await_activation fuel t r ctx) after E h = (h', q)"
    using assms unfolding confirm_def after_def .
  from run consider (waiting) e where "await_activation fuel t r ctx E h = (h', e)" "q \<noteq> Inr (Some ())"
    | (ready) h0 where "await_activation fuel t r ctx E h = (h0, Inr (Some ()))" "after (Some ()) E h0 = (h', q)"
  proof (cases "await_activation fuel t r ctx E h")
    case (Pair h0 a)
    consider e where "a = Inl e" | "a = Inr None" | "a = Inr (Some ())" by (cases a) (metis option.exhaust old.unit.exhaust)+
    then show thesis
    proof cases
      case 1
      with run Pair show thesis by (intro waiting [of a]) (auto simp: io_bind_def)
    next
      case 2
      with run Pair show thesis by (intro waiting [of a]) (auto simp: io_bind_def after_def)
    next
      case 3
      with run Pair show thesis by (intro ready [of h0]) (simp_all add: io_bind_def)
    qed
  qed
  then show ?thesis
  proof cases
    case waiting
    then show ?thesis using harmless_written [OF activation_harmless waiting(1)] by simp
  next
    case ready
    have w0: "written h0 = written h" by (rule harmless_written [OF activation_harmless ready(1)])
    have "\<exists>h1 d. h0 = GetProperty (sc_active ctx) ''State'' # h1 \<and> E h1 (GetProperty (sc_active ctx) ''State'') = Inr (RU32 2)
        \<and> h1 = d @ h"
    proof -
      obtain d h2 where a: "h2 = LocalRead ''clock'' # h" "await_loop fuel t r ctx d E h2 = (h0, Inr (Some ()))"
        using ready(1) unfolding await_activation_def request_proxy_ok clock_def io_bind_ok expect_ok by blast
      from await_ok [OF a(2)] obtain h1 where "h0 = GetProperty (sc_active ctx) ''State'' # h1"
          "E h1 (GetProperty (sc_active ctx) ''State'') = Inr (RU32 2)" by blast
      moreover have "\<exists>d. h1 = d @ h"
        using extends [OF await_harmless a(2)] calculation(1) a(1) by (auto simp: Cons_eq_append_conv)
      ultimately show ?thesis by blast
    qed
    then obtain d where h0: "h0 = GetProperty (sc_active ctx) ''State'' # d @ h"
        "E (tl h0) (GetProperty (sc_active ctx) ''State'') = Inr (RU32 2)" by auto
    from ready(2) consider (unverified) e where "verify_retained t r ctx vs E h0 = (h', Inl e)" "q = Inl e"
      | (verified) h1 V q' where "verify_retained t r ctx vs E h0 = (h1, Inr V)"
          "commit_retained t r ctx V E h1 = (h', q')" "q = map_sum id Some q'"
      unfolding after_def by (auto simp: io_bind_run io_map_run)
    then show ?thesis
    proof cases
      case unverified
      then show ?thesis using harmless_written [OF verify_harmless unverified(1)] w0 by simp
    next
      case verified
      note c = commit_retained_run [OF verified(2)]
      have w1: "written h1 = written h" using harmless_written [OF verify_harmless verified(1)] w0 by simp
      from c(1) obtain cs where cs: "h' = cs @ Update2 (sq_connection_path r) [] 1 V # h1" "list_all harmless cs" by blast
      have "written h' = Update2 (sq_connection_path r) [] 1 V # written h"
        using cs w1 by (auto simp: written_def list_all_iff filter_empty_conv)
      moreover have "save_acknowledged E r h1 h' V" if "q = Inr (Some ())"
      proof -
        have "q' = Inr ()" using that verified(3) by (cases q') auto
        with c(2) show ?thesis unfolding save_acknowledged_def Let_def by blast
      qed
      ultimately show ?thesis using h0 verify_ok [OF verified(1)] cs(1) by blast
    qed
  qed
qed

text \<open>The clock shows a time, and a wait between two readings takes at least its hundred milliseconds.\<close>

definition waits :: "nm_history \<Rightarrow> nat" where
  "waits h = length (filter (\<lambda>c. c = Wait) h)"

definition clock_law :: "nm_env \<Rightarrow> bool" where
  "clock_law E \<longleftrightarrow> (\<forall>h cs t t'. E h (LocalRead ''clock'') = Inr (RTime t) \<longrightarrow> E (cs @ h) (LocalRead ''clock'') = Inr (RTime t') \<longrightarrow>
     t + 100 * waits cs \<le> t')"

lemma waits_simps [simp]: "waits [] = 0" "waits (c # h) = (if c = Wait then 1 else 0) + waits h" "waits (g @ h) = waits g + waits h"
  by (simp_all add: waits_def)

lemma await_loop_ends:
  assumes law: "clock_law E" and t0: "E h0 (LocalRead ''clock'') = Inr (RTime t0)"
  shows "h = cs @ h0 \<Longrightarrow> 300 < fuel + waits cs \<Longrightarrow> 0 < fuel \<Longrightarrow>
    snd (await_loop fuel tr r ctx (t0 + 30000) E h) \<noteq> Inr None"
proof (induction fuel arbitrary: h cs)
  case 0
  then show ?case by simp
next
  case (Suc fuel)
  show ?case
  proof
    assume none: "snd (await_loop (Suc fuel) tr r ctx (t0 + 30000) E h) = Inr None"
    obtain h' where run: "await_loop (Suc fuel) tr r ctx (t0 + 30000) E h = (h', Inr None)"
      using none by (metis prod.collapse)
    then obtain h1 now where st: "save_current tr r E h = (h1, Inr ())"
        "E (GetProperty (sc_active ctx) ''State'' # h1) (LocalRead ''clock'') = Inr (RTime now)" "now < t0 + 30000"
        "await_loop fuel tr r ctx (t0 + 30000) E
           (Wait # LocalRead ''clock'' # GetProperty (sc_active ctx) ''State'' # h1) = (h', Inr None)"
      by (auto simp: save_ok clock_def io_sleep_def split: if_splits)
    from st(1) have h1: "h1 = [GetNameOwner, LocalRead ''request owner current'', LocalRead ''save cancelled''] @ cs @ h0"
      unfolding save_current_ok using Suc.prems(1) by simp
    let ?ds = "[GetProperty (sc_active ctx) ''State'', GetNameOwner, LocalRead ''request owner current'', LocalRead ''save cancelled''] @ cs"
    have "t0 + 100 * waits ?ds \<le> now"
      using law [unfolded clock_law_def, rule_format, of h0 t0 ?ds now] t0 st(2) h1 by simp
    with st(3) have few: "waits cs < 300" by simp
    have "snd (await_loop fuel tr r ctx (t0 + 30000) E
        (Wait # LocalRead ''clock'' # GetProperty (sc_active ctx) ''State'' # h1)) \<noteq> Inr None"
      by (rule Suc.IH [of _ "[Wait, LocalRead ''clock''] @ ?ds"]) (use h1 Suc.prems(2) few in simp_all)
    with st(4) show False by simp
  qed
qed

text \<open>C40. The wait for the activation ends: its loop runs at most 301 times before the activation has succeeded or
  ended, an error was reported or the deadline has passed, if each pause of a hundred milliseconds takes at least
  that long on the clock.\<close>

theorem save_wait_ends:
  assumes "clock_law E" and "301 \<le> fuel"
  shows "snd (confirm fuel tr r ctx vs E h) \<noteq> Inr None"
proof
  assume "snd (confirm fuel tr r ctx vs E h) = Inr None"
  then obtain h' where "confirm fuel tr r ctx vs E h = (h', Inr None)" by (metis prod.collapse)
  then obtain h1 a where a: "await_activation fuel tr r ctx E h = (h1, Inr a)"
      "(case a of None \<Rightarrow> io_return None | Some _ \<Rightarrow> io_bind (verify_retained tr r ctx vs) (\<lambda>expected.
           io_map Some (commit_retained tr r ctx expected))) E h1 = (h', Inr None)"
    unfolding confirm_def io_bind_ok by blast
  have "a = None" using a(2) by (cases a) (auto simp: io_bind_ok io_map_ok)
  with a(1) obtain t0 where "E h (LocalRead ''clock'') = Inr (RTime t0)"
      "await_loop fuel tr r ctx (t0 + 30000) E (LocalRead ''clock'' # h) = (h1, Inr None)"
    unfolding await_activation_def clock_def by (auto simp: save_ok)
  with await_loop_ends [OF assms(1), of h t0 "LocalRead ''clock'' # h" "[LocalRead ''clock'']" fuel tr r ctx] assms(2)
  show False by simp
qed

text \<open>An environment in which a save is confirmed.\<close>

definition save_request :: secret_request where
  "save_request = \<lparr>sq_deadline = 0, sq_activation = None, sq_save_supported = True,
      sq_policy = \<lparr>rp_persistent = {''psk''}, rp_migration_required = False\<rparr>, sq_cancelled = 0, sq_nm_owner = Some '':1.5'',
      sq_id = ''q'', sq_key = ''k'', sq_connection_path = ''/1'', sq_setting_name = ''802-11-wireless-security'',
      sq_hints = [], sq_secret_keys = [''psk''], sq_flags = 1\<rparr>"

definition save_ctx :: save_context where
  "save_ctx = \<lparr>sc_public = demo_settings, sc_filename = ''/etc/NetworkManager/system-connections/a'', sc_active = ''/a''\<rparr>"

fun save_env :: nm_env where
  "save_env h (LocalRead x) =
     (if x = ''clock'' then Inr (RTime (100 * waits h)) else Inr (RBool (x = ''request owner current'')))"
| "save_env h GetNameOwner = Inr (RStr '':1.5'')"
| "save_env h (GetProperty p q) =
     (if q = ''VersionId'' then Inr (RU64 (7 + of_nat (secret_reads ''/1'' h + length (written h))))
      else if q = ''State'' then Inr (RU32 2)
      else demo_env h (GetProperty p q))"
| "save_env h GetPermissions = Inr (RTexts [(''org.freedesktop.NetworkManager.settings.modify.system'', ''yes'')])"
| "save_env h Wait = Inr RUnit"
| "save_env h c = demo_env h c"

lemma save_demo_facts:
  "public_settings demo_settings = Inr demo_settings" "settings_same demo_settings demo_settings"
  "retention_kept demo_settings ''802-11-wireless-security'' [''psk''] = Inr ()"
  "values_retained [(''802-11-wireless-security'', [(''psk'', DStr ''stored'')])] ''802-11-wireless-security'' [(''psk'', ''stored'')]"
  "checked_inc 7 = Some 8" "checked_inc 8 = Some 9"
  by code_simp+

lemma save_demo_acl: "hm_get demo_settings ''connection'' = Some [(''uuid'', DStr ''u'')]"
  "setting_strings [(''uuid'', DStr ''u'')] ''permissions'' = []"
  by (simp_all add: demo_settings_def setting_strings_def)

lemma save_demo: "\<exists>h'. confirm 301 True save_request save_ctx [(''psk'', ''stored'')] save_env [] = (h', Inr (Some ()))"
proof -
  have one: "await_loop 301 True save_request save_ctx d = await_loop (Suc 300) True save_request save_ctx d" for d by simp
  show ?thesis
    unfolding confirm_def await_activation_def one await_loop.simps verify_retained_def commit_retained_def Let_def
    by (simp add: save_ok ok_or_ok save_current_ok save_request_def save_ctx_def clock_def saved_is_def filename_is_def version_still_def next_version_def
      authorize_confirmation_def save_demo_facts save_demo_acl)
      (rule exI [of _ False], simp)
qed

theorem durable_save_verified_witness:
  "\<exists>h' h1 cs V. confirm 301 True save_request save_ctx [(''psk'', ''stored'')] save_env [] = (h', Inr (Some ()))
     \<and> h' = cs @ Update2 ''/1'' [] 1 V # h1 \<and> written h' = [Update2 ''/1'' [] 1 V] \<and> save_acknowledged save_env save_request h1 h' V"
proof -
  obtain h' where run: "confirm 301 True save_request save_ctx [(''psk'', ''stored'')] save_env [] = (h', Inr (Some ()))"
    using save_demo by blast
  have p: "sq_connection_path save_request = ''/1''" by (simp add: save_request_def)
  from durable_save_verified [OF run] run show ?thesis unfolding p by auto
qed

theorem save_wait_ends_witness:
  "clock_law save_env \<and> snd (confirm 301 True save_request save_ctx [(''psk'', ''other'')] save_env []) \<noteq> Inr None"
proof -
  have "clock_law save_env" by (auto simp: clock_law_def)
  with save_wait_ends [of save_env 301] show ?thesis by simp
qed

section \<open>The queue of saves\<close>

datatype save_phase = SaveRegistered | SaveQueued | SaveWriting | SaveEnded

text \<open>A save's cancellation flag lives as long as its task; its identifier names the flag.\<close>

record save_job =
  sj_id :: nat
  sj_path :: string
  sj_owner :: "string option"
  sj_phase :: save_phase
  sj_outcome :: "persistence_outcome option"

record save_queue =
  dq_next :: nat
  dq_jobs :: "save_job list"
  dq_tickets :: "(string, nat list) hash_map"
  dq_cancelled :: "nat list"
  dq_started :: "nat list"
  dq_owner :: "string option"

definition queue_new :: save_queue where
  "queue_new = \<lparr>dq_next = 0, dq_jobs = [], dq_tickets = [], dq_cancelled = [], dq_started = [], dq_owner = None\<rparr>"

definition job_live :: "save_queue \<Rightarrow> nat \<Rightarrow> bool" where
  "job_live q i \<longleftrightarrow> list_ex (\<lambda>j. sj_id j = i \<and> sj_phase j \<noteq> SaveEnded) (dq_jobs q)"

definition tickets_of :: "save_queue \<Rightarrow> string \<Rightarrow> nat list" where
  "tickets_of q path = (case hm_get (dq_tickets q) path of Some is \<Rightarrow> is | None \<Rightarrow> [])"

text \<open>Registering drops the flags whose tasks are gone.\<close>

definition prune_tickets :: "save_queue \<Rightarrow> (string, nat list) hash_map" where
  "prune_tickets q = filter (\<lambda>(_, is). is \<noteq> []) (map (\<lambda>(p, is). (p, filter (job_live q) is)) (dq_tickets q))"

definition ticket :: "string \<Rightarrow> save_queue \<Rightarrow> save_queue" where
  "ticket path q =
     (let ts = prune_tickets q
      in q\<lparr>dq_next := Suc (dq_next q),
           dq_tickets := hm_insert path ((case hm_get ts path of Some is \<Rightarrow> is | None \<Rightarrow> []) @ [dq_next q]) ts\<rparr>)"

definition invalidate_saves :: "string \<Rightarrow> save_queue \<Rightarrow> save_queue" where
  "invalidate_saves path q = q\<lparr>dq_cancelled := filter (job_live q) (tickets_of q path) @ dq_cancelled q,
     dq_tickets := hm_remove path (dq_tickets q)\<rparr>"

text \<open>\<open>after_reply\<close> with a save: the ticket is taken before the reply is dispatched.\<close>

definition after_reply :: "string \<Rightarrow> string option \<Rightarrow> save_queue \<Rightarrow> save_queue" where
  "after_reply path owner q =
     (ticket path q)\<lparr>dq_jobs := dq_jobs q @ [\<lparr>sj_id = dq_next q, sj_path = path, sj_owner = owner,
        sj_phase = SaveRegistered, sj_outcome = None\<rparr>]\<rparr>"

definition holding :: "save_queue \<Rightarrow> save_job list" where
  "holding q = filter (\<lambda>j. sj_phase j \<in> {SaveQueued, SaveWriting}) (dq_jobs q)"

definition on_job :: "nat \<Rightarrow> (save_job \<Rightarrow> save_job) \<Rightarrow> save_queue \<Rightarrow> save_queue" where
  "on_job i f q = q\<lparr>dq_jobs := map (\<lambda>j. if sj_id j = i then f j else j) (dq_jobs q)\<rparr>"

definition end_job :: "persistence_outcome option \<Rightarrow> save_job \<Rightarrow> save_job" where
  "end_job out j = j\<lparr>sj_phase := SaveEnded, sj_outcome := out\<rparr>"

definition SAVE_CAPACITY :: nat where
  "SAVE_CAPACITY = 8"

text \<open>The reply was dispatched: a retired owner ends the task, a full queue fails the save.\<close>

definition dispatched :: "save_job \<Rightarrow> save_queue \<Rightarrow> save_queue" where
  "dispatched j q =
     (if dq_owner q \<noteq> sj_owner j then on_job (sj_id j) (end_job None) q
      else if SAVE_CAPACITY \<le> length (holding q)
      then on_job (sj_id j) (end_job (Some (SaveFailed ''Credential confirmation queue is full; retry saving''))) q
      else on_job (sj_id j) (\<lambda>j. j\<lparr>sj_phase := SaveQueued\<rparr>) q)"

definition expired :: "save_job \<Rightarrow> save_queue \<Rightarrow> save_queue" where
  "expired j q = on_job (sj_id j) (end_job (Some (SaveFailed ''Credential confirmation expired in queue; retry saving''))) q"

text \<open>The writer lock was obtained.\<close>

definition start_save :: "save_job \<Rightarrow> save_queue \<Rightarrow> save_queue" where
  "start_save j q =
     (if sj_id j \<in> set (dq_cancelled q)
      then on_job (sj_id j) (end_job (Some (SaveFailed ''Credential saving cancelled before storage''))) q
      else if dq_owner q \<noteq> sj_owner j
      then on_job (sj_id j) (end_job (Some (SaveFailed ''NetworkManager changed before saving''))) q
      else (on_job (sj_id j) (\<lambda>j. j\<lparr>sj_phase := SaveWriting\<rparr>) q)\<lparr>dq_started := sj_id j # dq_started q\<rparr>)"

definition finish_save :: "persistence_outcome \<Rightarrow> save_job \<Rightarrow> save_queue \<Rightarrow> save_queue" where
  "finish_save out j q = on_job (sj_id j) (end_job (Some out)) q"

definition writer_free :: "save_queue \<Rightarrow> bool" where
  "writer_free q \<longleftrightarrow> list_all (\<lambda>j. sj_phase j \<noteq> SaveWriting) (dq_jobs q)"

inductive save_step :: "save_queue \<Rightarrow> save_queue \<Rightarrow> bool" where
  reply: "save_step q (after_reply path owner q)"
| dispatch: "j \<in> set (dq_jobs q) \<Longrightarrow> sj_phase j = SaveRegistered \<Longrightarrow> save_step q (dispatched j q)"
| expire: "j \<in> set (dq_jobs q) \<Longrightarrow> sj_phase j = SaveQueued \<Longrightarrow> save_step q (expired j q)"
| start: "j \<in> set (dq_jobs q) \<Longrightarrow> sj_phase j = SaveQueued \<Longrightarrow> writer_free q \<Longrightarrow> save_step q (start_save j q)"
| finish: "j \<in> set (dq_jobs q) \<Longrightarrow> sj_phase j = SaveWriting \<Longrightarrow> save_step q (finish_save out j q)"
| discard: "save_step q (invalidate_saves path q)"
| owner_change: "save_step q (q\<lparr>dq_owner := owner\<rparr>)"

section \<open>Bounds and invalidation\<close>

definition queue_wf :: "save_queue \<Rightarrow> bool" where
  "queue_wf q \<longleftrightarrow> distinct (map sj_id (dq_jobs q)) \<and> (\<forall>j \<in> set (dq_jobs q). sj_id j < dq_next q)
     \<and> hm_wf (dq_tickets q) \<and> length (holding q) \<le> SAVE_CAPACITY
     \<and> length (filter (\<lambda>j. sj_phase j = SaveWriting) (dq_jobs q)) \<le> 1
     \<and> (\<forall>j \<in> set (dq_jobs q). sj_phase j \<noteq> SaveEnded \<longrightarrow>
          sj_id j \<in> set (dq_cancelled q) \<or> sj_id j \<in> set (tickets_of q (sj_path j)))
     \<and> (\<forall>j \<in> set (dq_jobs q). sj_phase j \<in> {SaveRegistered, SaveQueued} \<longrightarrow> sj_id j \<notin> set (dq_started q))
     \<and> (\<forall>i \<in> set (dq_started q). i < dq_next q)"

lemma on_job_simps [simp]:
  "dq_next (on_job i f q) = dq_next q" "dq_tickets (on_job i f q) = dq_tickets q" "dq_cancelled (on_job i f q) = dq_cancelled q"
  "dq_started (on_job i f q) = dq_started q" "dq_owner (on_job i f q) = dq_owner q" "tickets_of (on_job i f q) p = tickets_of q p"
  "dq_jobs (on_job i f q) = map (\<lambda>j. if sj_id j = i then f j else j) (dq_jobs q)"
  by (simp_all add: on_job_def tickets_of_def)

definition keeps_identity :: "(save_job \<Rightarrow> save_job) \<Rightarrow> bool" where
  "keeps_identity f \<longleftrightarrow> (\<forall>j. sj_id (f j) = sj_id j \<and> sj_path (f j) = sj_path j \<and> sj_owner (f j) = sj_owner j)"

lemma keeps_identity_ops [simp]: "keeps_identity (end_job out)" "keeps_identity (\<lambda>j. j\<lparr>sj_phase := p\<rparr>)"
  by (simp_all add: keeps_identity_def end_job_def)

lemma filter_change_le:
  "(\<And>j. j \<in> set js \<Longrightarrow> P (g j) \<Longrightarrow> P j) \<Longrightarrow> length (filter P (map g js)) \<le> length (filter P js)"
  by (induction js) auto

lemma filter_change_one:
  assumes "distinct (map sj_id js)"
  shows "length (filter P (map (\<lambda>j. if sj_id j = i then f j else j) js)) \<le> Suc (length (filter P js))"
  using assms
proof (induction js)
  case (Cons j js)
  show ?case
  proof (cases "sj_id j = i")
    case True
    with Cons.prems have "map (\<lambda>j. if sj_id j = i then f j else j) js = js" by (intro map_idI) (auto simp: image_iff)
    with True show ?thesis by simp
  qed (use Cons in auto)
qed simp


lemma queue_wfD:
  assumes "queue_wf q"
  shows "distinct (map sj_id (dq_jobs q))" "\<And>j. j \<in> set (dq_jobs q) \<Longrightarrow> sj_id j < dq_next q" "hm_wf (dq_tickets q)"
    "length (holding q) \<le> SAVE_CAPACITY" "length (filter (\<lambda>j. sj_phase j = SaveWriting) (dq_jobs q)) \<le> 1"
    "\<And>j. j \<in> set (dq_jobs q) \<Longrightarrow> sj_phase j \<noteq> SaveEnded \<Longrightarrow> sj_id j \<in> set (dq_cancelled q) \<or> sj_id j \<in> set (tickets_of q (sj_path j))"
    "\<And>j. j \<in> set (dq_jobs q) \<Longrightarrow> sj_phase j = SaveRegistered \<or> sj_phase j = SaveQueued \<Longrightarrow> sj_id j \<notin> set (dq_started q)"
    "\<And>i. i \<in> set (dq_started q) \<Longrightarrow> i < dq_next q"
  using assms unfolding queue_wf_def by auto

lemma map_if_id: "keeps_identity f \<Longrightarrow> map sj_id (map (\<lambda>j. if sj_id j = i then f j else j) js) = map sj_id js"
  by (induction js) (auto simp: keeps_identity_def)

lemma on_job_wf:
  assumes wf: "queue_wf q" and f: "keeps_identity f"
    and hold: "length (holding (on_job i f q)) \<le> SAVE_CAPACITY"
    and one: "length (filter (\<lambda>j. sj_phase j = SaveWriting) (dq_jobs (on_job i f q))) \<le> 1"
    and live: "\<And>j. j \<in> set (dq_jobs q) \<Longrightarrow> sj_id j = i \<Longrightarrow> sj_phase (f j) \<noteq> SaveEnded \<Longrightarrow> sj_phase j \<noteq> SaveEnded"
    and waiting: "\<And>j. j \<in> set (dq_jobs q) \<Longrightarrow> sj_id j = i \<Longrightarrow> sj_phase (f j) = SaveRegistered \<or> sj_phase (f j) = SaveQueued \<Longrightarrow>
      sj_phase j = SaveRegistered \<or> sj_phase j = SaveQueued"
  shows "queue_wf (on_job i f q)"
proof -
  note W = queue_wfD [OF wf]
  have id: "sj_id (f j) = sj_id j" "sj_path (f j) = sj_path j" for j using f by (simp_all add: keeps_identity_def)
  show ?thesis
    unfolding queue_wf_def
  proof (intro conjI)
    show "distinct (map sj_id (dq_jobs (on_job i f q)))" using W(1) unfolding on_job_simps map_if_id [OF f] .
    show "\<forall>j \<in> set (dq_jobs (on_job i f q)). sj_id j < dq_next (on_job i f q)" using W(2) id by auto
    show "hm_wf (dq_tickets (on_job i f q))" using W(3) by simp
    show "\<forall>j \<in> set (dq_jobs (on_job i f q)). sj_phase j \<noteq> SaveEnded \<longrightarrow>
          sj_id j \<in> set (dq_cancelled (on_job i f q)) \<or> sj_id j \<in> set (tickets_of (on_job i f q) (sj_path j))"
    proof (intro ballI impI)
      fix j assume "j \<in> set (dq_jobs (on_job i f q))" "sj_phase j \<noteq> SaveEnded"
      then obtain x where x: "x \<in> set (dq_jobs q)" "sj_phase x \<noteq> SaveEnded" "sj_id j = sj_id x" "sj_path j = sj_path x"
        using live id by (auto split: if_splits)
      with W(6) [OF x(1,2)] show "sj_id j \<in> set (dq_cancelled (on_job i f q)) \<or> sj_id j \<in> set (tickets_of (on_job i f q) (sj_path j))"
        by simp
    qed
    show "\<forall>j \<in> set (dq_jobs (on_job i f q)). sj_phase j \<in> {SaveRegistered, SaveQueued} \<longrightarrow> sj_id j \<notin> set (dq_started (on_job i f q))"
      using W(7) id waiting by auto
    show "\<forall>i' \<in> set (dq_started (on_job i f q)). i' < dq_next (on_job i f q)" using W(8) by simp
  qed (rule hold, rule one)
qed

lemma end_job_wf: "queue_wf q \<Longrightarrow> queue_wf (on_job i (end_job out) q)"
proof (rule on_job_wf)
  assume wf: "queue_wf q"
  have le: "length (filter P (dq_jobs (on_job i (end_job out) q))) \<le> length (filter P (dq_jobs q))"
    if "\<And>j. \<not> P (end_job out j)" for P
    unfolding on_job_simps by (rule filter_change_le) (use that in \<open>auto split: if_splits\<close>)
  show "length (holding (on_job i (end_job out) q)) \<le> SAVE_CAPACITY"
    using le [of "\<lambda>j. sj_phase j \<in> {SaveQueued, SaveWriting}"] queue_wfD(4) [OF wf] by (simp add: holding_def end_job_def)
  show "length (filter (\<lambda>j. sj_phase j = SaveWriting) (dq_jobs (on_job i (end_job out) q))) \<le> 1"
    using le [of "\<lambda>j. sj_phase j = SaveWriting"] queue_wfD(5) [OF wf] by (simp add: end_job_def)
qed (simp_all add: end_job_def)

lemma same_job: "queue_wf q \<Longrightarrow> j \<in> set (dq_jobs q) \<Longrightarrow> j' \<in> set (dq_jobs q) \<Longrightarrow> sj_id j' = sj_id j \<Longrightarrow> j' = j"
  using queue_wfD(1) by (metis distinct_map inj_onD)

lemma dispatched_wf:
  assumes wf: "queue_wf q" and j: "j \<in> set (dq_jobs q)" "sj_phase j = SaveRegistered"
  shows "queue_wf (dispatched j q)"
proof -
  let ?q = "on_job (sj_id j) (\<lambda>j. j\<lparr>sj_phase := SaveQueued\<rparr>) q"
  have phase: "sj_phase j' = SaveRegistered" if "j' \<in> set (dq_jobs q)" "sj_id j' = sj_id j" for j'
    using same_job [OF wf j(1) that] j(2) by simp
  have "queue_wf ?q" if room: "length (holding q) < SAVE_CAPACITY"
  proof (rule on_job_wf [OF wf])
    show "length (holding ?q) \<le> SAVE_CAPACITY"
      unfolding holding_def on_job_simps
      by (rule order_trans [OF filter_change_one [OF queue_wfD(1) [OF wf]]]) (use room in \<open>simp add: holding_def\<close>)
    show "length (filter (\<lambda>j. sj_phase j = SaveWriting) (dq_jobs ?q)) \<le> 1"
      unfolding on_job_simps
      by (rule order_trans [OF filter_change_le]) (use queue_wfD(5) [OF wf] in \<open>auto split: if_splits\<close>)
  qed (use phase in auto)
  with end_job_wf [OF wf] show ?thesis by (simp add: dispatched_def)
qed

lemma start_wf:
  assumes wf: "queue_wf q" and j: "j \<in> set (dq_jobs q)" "sj_phase j = SaveQueued" and free: "writer_free q"
  shows "queue_wf (start_save j q)"
proof -
  let ?q = "on_job (sj_id j) (\<lambda>j. j\<lparr>sj_phase := SaveWriting\<rparr>) q"
  have same: "j' = j" if "j' \<in> set (dq_jobs q)" "sj_id j' = sj_id j" for j' using same_job [OF wf j(1) that] .
  have "filter (\<lambda>j. sj_phase j = SaveWriting) (dq_jobs q) = []" using free by (simp add: writer_free_def list_all_iff filter_empty_conv)
  then have one: "length (filter (\<lambda>j. sj_phase j = SaveWriting) (dq_jobs ?q)) \<le> 1"
    using filter_change_one [OF queue_wfD(1) [OF wf], of "\<lambda>j. sj_phase j = SaveWriting" "sj_id j" "\<lambda>j. j\<lparr>sj_phase := SaveWriting\<rparr>"] by simp
  have hold: "length (holding ?q) \<le> SAVE_CAPACITY"
    unfolding holding_def on_job_simps
    by (rule order_trans [OF filter_change_le]) (use same j(2) queue_wfD(4) [OF wf] in \<open>auto simp: holding_def split: if_splits\<close>)
  have phase: "sj_phase j' = SaveQueued" if "j' \<in> set (dq_jobs q)" "sj_id j' = sj_id j" for j'
    using same [OF that] j(2) by simp
  have q: "queue_wf ?q" by (rule on_job_wf [OF wf _ hold one]) (use phase in auto)
  have "queue_wf (?q\<lparr>dq_started := sj_id j # dq_started q\<rparr>)"
    using q queue_wfD(2) [OF wf j(1)] unfolding queue_wf_def by (auto simp: holding_def tickets_of_def split: if_splits)
  with end_job_wf [OF wf] show ?thesis by (simp add: start_save_def)
qed


text \<open>A new save and an invalidation.\<close>

lemma hm_get_prune:
  "hm_wf m \<Longrightarrow> hm_get (filter (\<lambda>(_, is). is \<noteq> []) (map (\<lambda>(p, is). (p, filter P is)) m)) path =
     (case hm_get m path of Some is \<Rightarrow> if filter P is = [] then None else Some (filter P is) | None \<Rightarrow> None)"
proof (induction m)
  case (Cons x m)
  then have wf: "hm_wf m" and x: "fst x \<notin> fst ` set m" by (auto simp: hm_wf_def)
  have none: "hm_get m (fst x) = None" using x by (simp add: map_of_eq_None_iff)
  show ?case using Cons.IH [OF wf] none by (cases x) auto
qed simp

lemma prune_wf: "hm_wf m \<Longrightarrow> hm_wf (filter (\<lambda>(_, is). is \<noteq> []) (map (\<lambda>(p, is). (p, filter P is)) m))"
proof -
  assume "hm_wf m"
  moreover have "map fst (map (\<lambda>(p, is). (p, filter P is)) m) = map fst m" by (induction m) auto
  ultimately show ?thesis unfolding hm_wf_def by (intro distinct_map_filter) (simp only:)
qed

lemma tickets_prune:
  "queue_wf q \<Longrightarrow> (case hm_get (prune_tickets q) path of Some is \<Rightarrow> is | None \<Rightarrow> []) = filter (job_live q) (tickets_of q path)"
  unfolding prune_tickets_def tickets_of_def by (simp add: hm_get_prune queue_wfD(3) split: option.splits)

lemma hm_insert_wf: "hm_wf m \<Longrightarrow> hm_wf (hm_insert k v m)"
  by (simp add: hm_wf_def distinct_update)

lemma tickets_after_reply:
  "queue_wf q \<Longrightarrow> tickets_of (after_reply path owner q) p =
     filter (job_live q) (tickets_of q p) @ (if p = path then [dq_next q] else [])"
  using tickets_prune [of q p] unfolding after_reply_def ticket_def tickets_of_def [of "_\<lparr>dq_jobs := _\<rparr>"]
  by (auto simp: Let_def update_conv')

lemma after_reply_wf:
  assumes wf: "queue_wf q"
  shows "queue_wf (after_reply path owner q)"
proof -
  note W = queue_wfD [OF wf]
  have live: "job_live q (sj_id j)" if "j \<in> set (dq_jobs q)" "sj_phase j \<noteq> SaveEnded" for j
    using that by (auto simp: job_live_def list_ex_iff)
  have fresh: "dq_next q \<notin> sj_id ` set (dq_jobs q)" using W(2) by (metis image_iff less_irrefl)
  show ?thesis
    unfolding queue_wf_def
  proof (intro conjI)
    show "\<forall>j \<in> set (dq_jobs (after_reply path owner q)). sj_phase j \<noteq> SaveEnded \<longrightarrow>
          sj_id j \<in> set (dq_cancelled (after_reply path owner q)) \<or>
          sj_id j \<in> set (tickets_of (after_reply path owner q) (sj_path j))"
      unfolding tickets_after_reply [OF wf] using W(6) live by (auto simp: after_reply_def ticket_def Let_def)
    show "hm_wf (dq_tickets (after_reply path owner q))"
      using prune_wf [OF W(3)] by (simp add: after_reply_def ticket_def Let_def prune_tickets_def hm_insert_wf)
    show "\<forall>j \<in> set (dq_jobs (after_reply path owner q)). sj_phase j \<in> {SaveRegistered, SaveQueued} \<longrightarrow>
        sj_id j \<notin> set (dq_started (after_reply path owner q))"
      using W(7,8) by (auto simp: after_reply_def ticket_def Let_def)
  qed (use W fresh in \<open>auto simp: after_reply_def ticket_def Let_def holding_def intro: less_SucI\<close>)
qed

lemma tickets_invalidate:
  "tickets_of (invalidate_saves path q) p = (if p = path then [] else tickets_of q p)"
  by (simp add: invalidate_saves_def tickets_of_def map_of_delete)

lemma invalidate_wf:
  assumes wf: "queue_wf q"
  shows "queue_wf (invalidate_saves path q)"
proof -
  note W = queue_wfD [OF wf]
  have live: "job_live q (sj_id j)" if "j \<in> set (dq_jobs q)" "sj_phase j \<noteq> SaveEnded" for j
    using that by (auto simp: job_live_def list_ex_iff)
  show ?thesis
    unfolding queue_wf_def
  proof (intro conjI)
    show "hm_wf (dq_tickets (invalidate_saves path q))"
      using W(3) by (simp add: invalidate_saves_def hm_wf_def distinct_delete)
    show "\<forall>j \<in> set (dq_jobs (invalidate_saves path q)). sj_phase j \<noteq> SaveEnded \<longrightarrow>
          sj_id j \<in> set (dq_cancelled (invalidate_saves path q)) \<or>
          sj_id j \<in> set (tickets_of (invalidate_saves path q) (sj_path j))"
      unfolding tickets_invalidate using W(6) live by (auto simp: invalidate_saves_def)
    show "length (holding (invalidate_saves path q)) \<le> SAVE_CAPACITY" using W(4) by (simp add: invalidate_saves_def holding_def)
  qed (use wf in \<open>auto simp: queue_wf_def invalidate_saves_def\<close>)
qed

inductive_cases save_stepE: "save_step q q'"

lemma save_step_wf: "save_step q q' \<Longrightarrow> queue_wf q \<Longrightarrow> queue_wf q'"
proof (induction rule: save_step.induct)
  case (owner_change q owner)
  then show ?case by (simp add: queue_wf_def holding_def tickets_of_def)
qed (simp_all add: after_reply_wf dispatched_wf start_wf invalidate_wf end_job_wf expired_def finish_save_def)

lemma queue_new_wf: "queue_wf queue_new"
  by (simp add: queue_wf_def queue_new_def hm_wf_def holding_def)

text \<open>A cancelled save that has not started stays so.\<close>

definition discarded :: "nat \<Rightarrow> save_queue \<Rightarrow> bool" where
  "discarded i q \<longleftrightarrow> i \<in> set (dq_cancelled q) \<and> i \<notin> set (dq_started q) \<and> i < dq_next q"

lemma discarded_step: "save_step q q' \<Longrightarrow> discarded i q \<Longrightarrow> discarded i q'"
  by (erule save_stepE)
    (auto simp: discarded_def after_reply_def ticket_def Let_def dispatched_def expired_def start_save_def finish_save_def
      invalidate_saves_def split: if_splits)

text \<open>C17. The queue of durable saves stays bounded, writes one save at a time, and an invalidated save never starts.
  In every reachable state at most eight saves hold a place and at most one writes; and once the saves of a
  profile are invalidated, no save of that profile that was registered and had not started by then ever
  starts, whatever happens afterwards.\<close>

theorem invalidated_save_never_starts:
  assumes "save_step\<^sup>*\<^sup>* queue_new q"
  shows "length (holding q) \<le> 8 \<and> length (filter (\<lambda>j. sj_phase j = SaveWriting) (dq_jobs q)) \<le> 1
    \<and> (\<forall>j q'. j \<in> set (dq_jobs q) \<longrightarrow> sj_phase j \<in> {SaveRegistered, SaveQueued} \<longrightarrow>
         save_step\<^sup>*\<^sup>* (invalidate_saves (sj_path j) q) q' \<longrightarrow> sj_id j \<notin> set (dq_started q'))"
proof -
  have wf: "queue_wf q"
    using assms by (induction rule: rtranclp_induct) (auto intro: queue_new_wf save_step_wf)
  have "sj_id j \<notin> set (dq_started q')"
    if j: "j \<in> set (dq_jobs q)" "sj_phase j \<in> {SaveRegistered, SaveQueued}" and run: "save_step\<^sup>*\<^sup>* (invalidate_saves (sj_path j) q) q'" for j q'
  proof -
    have "job_live q (sj_id j)" using j by (auto simp: job_live_def list_ex_iff)
    moreover have "sj_id j \<in> set (dq_cancelled q) \<or> sj_id j \<in> set (tickets_of q (sj_path j))"
      using queue_wfD(6) [OF wf j(1)] j(2) by auto
    ultimately have "discarded (sj_id j) (invalidate_saves (sj_path j) q)"
      using queue_wfD(2,7) [OF wf j(1)] j(2) by (auto simp: discarded_def invalidate_saves_def)
    with run have "discarded (sj_id j) q'" by (induction rule: rtranclp_induct) (auto intro: discarded_step)
    then show ?thesis by (simp add: discarded_def)
  qed
  with queue_wfD(4,5) [OF wf] show ?thesis by (simp add: SAVE_CAPACITY_def)
qed

theorem invalidated_save_never_starts_witness:
  "\<exists>q j q'. save_step\<^sup>*\<^sup>* queue_new q \<and> j \<in> set (dq_jobs q) \<and> sj_phase j = SaveQueued
     \<and> save_step\<^sup>*\<^sup>* (invalidate_saves (sj_path j) q) q' \<and> sj_id j \<notin> set (dq_started q')
     \<and> map sj_outcome (dq_jobs q') = [Some (SaveFailed ''Credential saving cancelled before storage'')]"
proof -
  let ?r = "\<lparr>sj_id = 0, sj_path = ''/1'', sj_owner = None, sj_phase = SaveRegistered, sj_outcome = None\<rparr>"
  let ?j = "\<lparr>sj_id = 0, sj_path = ''/1'', sj_owner = None, sj_phase = SaveQueued, sj_outcome = None\<rparr>"
  let ?q1 = "after_reply ''/1'' None queue_new" and ?q2 = "dispatched ?r (after_reply ''/1'' None queue_new)"
  have q1: "dq_jobs ?q1 = [?r]" by (simp add: after_reply_def queue_new_def ticket_def Let_def)
  have q2: "dq_jobs ?q2 = [?j]"
    by (simp add: dispatched_def q1 holding_def SAVE_CAPACITY_def) (simp add: after_reply_def queue_new_def ticket_def Let_def)
  have "save_step queue_new ?q1" by (rule save_step.reply)
  moreover have "save_step ?q1 ?q2" by (rule save_step.dispatch) (simp_all add: q1)
  ultimately have reach: "save_step\<^sup>*\<^sup>* queue_new ?q2" by auto
  let ?i = "invalidate_saves ''/1'' ?q2"
  have i: "dq_jobs ?i = [?j]" using q2 by (simp add: invalidate_saves_def)
  have "save_step ?i (start_save ?j ?i)" by (rule save_step.start) (simp_all add: i writer_free_def)
  then have run: "save_step\<^sup>*\<^sup>* ?i (start_save ?j ?i)" by simp
  have "tickets_of ?q2 ''/1'' = [0]"
    by (simp add: dispatched_def q1 holding_def SAVE_CAPACITY_def)
      (simp add: tickets_of_def after_reply_def queue_new_def ticket_def Let_def prune_tickets_def)
  then have "0 \<in> set (dq_cancelled ?i)" using q2 by (simp add: invalidate_saves_def job_live_def)
  then have out: "map sj_outcome (dq_jobs (start_save ?j ?i)) = [Some (SaveFailed ''Credential saving cancelled before storage'')]"
    by (simp add: start_save_def i end_job_def)
  have "sj_id ?j \<notin> set (dq_started (start_save ?j ?i))"
    using invalidated_save_never_starts [OF reach] q2 run by simp
  with reach q2 run out show ?thesis by (intro exI [of _ ?q2] exI [of _ ?j] exI [of _ "start_save ?j ?i"]) simp
qed

end
