(* ===== verification/Forget.thy ===== *)
theory Forget
  imports Nm_Reads Durable_Save Connect_Request Tasks
begin

text \<open>
  Forgetting a network (\<open>src/forget.rs\<close>): connection attempts to it are cancelled and awaited, its profiles
  stop connecting automatically, it is disconnected, and only then its profiles are deleted. The whole
  workflow is a program of \<open>Nm_Io\<close>; the registry of requests is the one of \<open>Tasks\<close>.
\<close>

section \<open>Results\<close>

datatype forget_status = Forgotten | Partial | ForgetFailed | NotSaved | DisconnectPending | CancellationPending

record forget_profile =
  fp_id :: string
  fp_path :: string

record forget_profile_failure =
  ff_id :: string
  ff_path :: string
  ff_message :: string

record forget_result =
  fr_status :: forget_status
  fr_request_id :: string
  fr_ssid :: string
  fr_message :: string
  fr_was_active :: bool
  fr_disconnected :: bool
  fr_profiles_found :: nat
  fr_deleted_profiles :: "forget_profile list"
  fr_failed_profiles :: "forget_profile_failure list"
  fr_cancelled_connect_requests :: "string list"
  fr_pending_connect_requests :: "string list"
  fr_warnings :: "string list"
  fr_portal_session_reset :: bool
  fr_portal_note :: string

definition PORTAL_NOTE :: string where
  "PORTAL_NOTE = ''The hotspot may continue to recognize this device until its captive-portal session expires.''"

definition forget_base :: "forget_status \<Rightarrow> string \<Rightarrow> string \<Rightarrow> string \<Rightarrow> forget_result" where
  "forget_base status request_id ssid message =
     \<lparr>fr_status = status, fr_request_id = request_id, fr_ssid = ssid, fr_message = message, fr_was_active = False,
      fr_disconnected = False, fr_profiles_found = 0, fr_deleted_profiles = [], fr_failed_profiles = [],
      fr_cancelled_connect_requests = [], fr_pending_connect_requests = [], fr_warnings = [],
      fr_portal_session_reset = False, fr_portal_note = PORTAL_NOTE\<rparr>"

definition cancellation_pending :: "string \<Rightarrow> string \<Rightarrow> string list \<Rightarrow> string list \<Rightarrow> forget_result" where
  "cancellation_pending request_id ssid cancelled unfinished =
     (forget_base CancellationPending request_id ssid
        ''Connection cancellation is still pending; try Forget again when the connection action finishes'')
     \<lparr>fr_cancelled_connect_requests := cancelled, fr_pending_connect_requests := unfinished\<rparr>"

definition disconnect_pending :: "string \<Rightarrow> string \<Rightarrow> nat \<Rightarrow> string list \<Rightarrow> string list \<Rightarrow> forget_result" where
  "disconnect_pending request_id ssid profiles_found cancelled warnings =
     (forget_base DisconnectPending request_id ssid
        (''Could not confirm disconnection from '' @ ssid @ ''; no saved profiles were deleted''))
     \<lparr>fr_was_active := True, fr_profiles_found := profiles_found, fr_cancelled_connect_requests := cancelled,
      fr_warnings := warnings\<rparr>"

record forget_completion =
  fc_request_id :: string
  fc_ssid :: string
  fc_was_active :: bool
  fc_disconnected :: bool
  fc_cancelled :: "string list"
  fc_deleted :: "forget_profile list"
  fc_failed :: "forget_profile_failure list"
  fc_warnings :: "string list"

definition no_profiles_message :: "forget_completion \<Rightarrow> string" where
  "no_profiles_message c =
     (if fc_disconnected c then ''Disconnected from '' @ fc_ssid c @ ''; no saved profile remained''
      else fc_ssid c @ '' has no saved profiles to forget'')"

definition successful_forget_message :: "forget_completion \<Rightarrow> nat \<Rightarrow> string" where
  "successful_forget_message c gone =
     (let action = (if fc_was_active c \<and> fc_disconnected c then ''Disconnected and forgot'' else ''Forgot'')
      in if gone = 1 then action @ '' '' @ fc_ssid c
         else action @ '' '' @ decimal gone @ '' saved profiles for '' @ fc_ssid c)"

definition completion_message :: "forget_completion \<Rightarrow> string" where
  "completion_message c =
     (let deleted = length (fc_deleted c); failed = length (fc_failed c)
      in if deleted = 0 \<and> failed = 0 then no_profiles_message c
         else if failed = 0 then successful_forget_message c deleted
         else ''Forgot '' @ decimal deleted @ '' of '' @ decimal (deleted + failed) @ '' saved profiles for '' @ fc_ssid c
           @ ''; '' @ decimal failed @ '' failed'')"

definition completed_status :: "nat \<Rightarrow> nat \<Rightarrow> forget_status" where
  "completed_status found failed =
     (if found = 0 then NotSaved else if failed = 0 then Forgotten else if found = failed then ForgetFailed else Partial)"

definition forget_completed :: "forget_completion \<Rightarrow> forget_result" where
  "forget_completed c =
     (let found = length (fc_deleted c) + length (fc_failed c)
      in (forget_base (completed_status found (length (fc_failed c))) (fc_request_id c) (fc_ssid c) (completion_message c))
         \<lparr>fr_was_active := fc_was_active c, fr_disconnected := fc_disconnected c, fr_profiles_found := found,
          fr_deleted_profiles := fc_deleted c, fr_failed_profiles := fc_failed c,
          fr_cancelled_connect_requests := fc_cancelled c, fr_warnings := fc_warnings c\<rparr>)"

section \<open>The workflow\<close>

definition forget_profiles_for :: "(string \<Rightarrow> string) \<Rightarrow> nm \<Rightarrow> wifi_connect_target \<Rightarrow> saved_wifi_connection list io" where
  "forget_profiles_for lower n t =
     io_map (filter (\<lambda>p. swc_ssid_bytes p = ssid_exact (wct_ssid t))) (saved_wifi_connections lower n)"

definition disable_one ::
    "(string \<Rightarrow> bool) \<Rightarrow> nm \<Rightarrow> saved_wifi_connection \<Rightarrow> string list \<Rightarrow> string list io" where
  "disable_one object_path_ok n p warnings =
     io_map (\<lambda>r. case r of
         Inr _ \<Rightarrow> warnings
       | Inl e \<Rightarrow> warnings @ [''Could not disable autoconnect for '' @ [CHR 0x27] @ swc_id p @ [CHR 0x27] @ '': '' @ render_alternate e])
       (io_try (set_connection_autoconnect_by_path object_path_ok n (swc_path p) False))"

definition disable_autoconnect ::
    "(string \<Rightarrow> bool) \<Rightarrow> nm \<Rightarrow> saved_wifi_connection list \<Rightarrow> string list \<Rightarrow> string list io" where
  "disable_autoconnect object_path_ok n profiles warnings =
     io_fold (disable_one object_path_ok n) (filter swc_autoconnect profiles) warnings"

definition FORGET_DEACTIVATION_TIMEOUT :: nat where "FORGET_DEACTIVATION_TIMEOUT = 10000"

text \<open>\<open>None\<close>: the fuel ran out. \<open>wait_for_event\<close> returns at an event or after the poll interval.\<close>

fun confirm_disconnected :: "nat \<Rightarrow> nm \<Rightarrow> bytes \<Rightarrow> nat \<Rightarrow> bool option io" where
  "confirm_disconnected 0 n ssid deadline = io_return None"
| "confirm_disconnected (Suc fuel) n ssid deadline =
     io_bind clock (\<lambda>now.
       if deadline \<le> now then io_return (Some False)
       else io_bind (wifi_connection_active_for_ssid n ssid) (\<lambda>active.
              if \<not> active then io_return (Some True)
              else io_then io_sleep (confirm_disconnected fuel n ssid deadline)))"

definition not_confirmed_warning :: string where
  "not_confirmed_warning = ''NetworkManager did not confirm disconnection within 10 seconds; no profiles were deleted.''"

definition disconnect_and_confirm :: "nat \<Rightarrow> nm \<Rightarrow> bytes \<Rightarrow> string list \<Rightarrow> (bool \<times> string list) option io" where
  "disconnect_and_confirm fuel n ssid warnings =
     io_bind (disconnect_wifi_for_ssid n ssid) (\<lambda>_.
     io_bind clock (\<lambda>now.
     io_map (map_option (\<lambda>b. (b, if b then warnings else warnings @ [not_confirmed_warning])))
       (confirm_disconnected fuel n ssid (now + FORGET_DEACTIVATION_TIMEOUT))))"

definition forget_profile_of :: "saved_wifi_connection \<Rightarrow> forget_profile" where
  "forget_profile_of p = \<lparr>fp_id = swc_id p, fp_path = swc_path p\<rparr>"

definition forget_failure_of :: "saved_wifi_connection \<Rightarrow> anyhow_error \<Rightarrow> forget_profile_failure" where
  "forget_failure_of p e = \<lparr>ff_id = swc_id p, ff_path = swc_path p, ff_message = render_alternate e\<rparr>"

definition delete_one ::
    "(string \<Rightarrow> bool) \<Rightarrow> nm \<Rightarrow> saved_wifi_connection \<Rightarrow> forget_profile list \<times> forget_profile_failure list
      \<Rightarrow> (forget_profile list \<times> forget_profile_failure list) io" where
  "delete_one object_path_ok n p acc =
     io_map (\<lambda>r. case r of
         Inr _ \<Rightarrow> (fst acc @ [forget_profile_of p], snd acc)
       | Inl e \<Rightarrow> (fst acc, snd acc @ [forget_failure_of p e]))
       (io_try (delete_connection_by_path object_path_ok n (swc_path p)))"

definition delete_profiles ::
    "(string \<Rightarrow> bool) \<Rightarrow> nm \<Rightarrow> saved_wifi_connection list \<Rightarrow> (forget_profile list \<times> forget_profile_failure list) io" where
  "delete_profiles object_path_ok n profiles = io_fold (delete_one object_path_ok n) profiles ([], [])"

text \<open>The caches are refreshed on a best-effort basis: the outcome is only logged.\<close>

definition try_locally :: "string \<Rightarrow> unit io" where
  "try_locally what = io_map (\<lambda>_. ()) (io_try (io_ask (LocalRead what)))"

definition refresh_caches :: "bool \<Rightarrow> unit io" where
  "refresh_caches disconnected =
     io_then (if disconnected then try_locally ''clear_active_connection_cache'' else io_return ())
       (try_locally ''cache_connected_network_status'')"

definition forget_run ::
    "nat \<Rightarrow> (string \<Rightarrow> bool) \<Rightarrow> (string \<Rightarrow> string) \<Rightarrow> nm \<Rightarrow> string \<Rightarrow> wifi_connect_target \<Rightarrow> string list \<Rightarrow> forget_result option io" where
  "forget_run fuel object_path_ok lower n request_id t cancelled =
     io_bind (forget_profiles_for lower n t) (\<lambda>profiles.
     io_bind (wifi_connection_active_for_ssid n (ssid_exact (wct_ssid t))) (\<lambda>was_active.
     io_bind (disable_autoconnect object_path_ok n profiles []) (\<lambda>warnings.
     io_bind (if was_active then disconnect_and_confirm fuel n (ssid_exact (wct_ssid t)) warnings
              else io_return (Some (False, warnings))) (\<lambda>ended.
       case ended of
         None \<Rightarrow> io_return None
       | Some (disconnected, warnings) \<Rightarrow>
           if was_active \<and> \<not> disconnected
           then io_return (Some (disconnect_pending request_id (ssid_display (wct_ssid t)) (length profiles) cancelled warnings))
           else io_bind (delete_profiles object_path_ok n profiles) (\<lambda>(deleted, failed).
                io_then (refresh_caches disconnected)
                (io_return (Some (forget_completed \<lparr>fc_request_id = request_id, fc_ssid = ssid_display (wct_ssid t),
                   fc_was_active = was_active, fc_disconnected = disconnected, fc_cancelled = cancelled,
                   fc_deleted = deleted, fc_failed = failed, fc_warnings = warnings\<rparr>))))))))"

section \<open>The request\<close>

text \<open>
  \<open>wait_for_tasks\<close> sees the clock and the registry of requests again after each notification or time-out:
  \<open>seen i\<close> is what it sees the \<open>i\<close>-th time.
\<close>

fun wait_for_tasks :: "nat \<Rightarrow> (nat \<Rightarrow> nat \<times> task_map) \<Rightarrow> nat \<Rightarrow> string list \<Rightarrow> nat \<Rightarrow> string list option" where
  "wait_for_tasks 0 seen deadline request_ids i = None"
| "wait_for_tasks (Suc fuel) seen deadline request_ids i =
     (if list_ex (\<lambda>r. hm_get (snd (seen i)) r \<noteq> None) request_ids \<and> fst (seen i) < deadline
      then wait_for_tasks fuel seen deadline request_ids (Suc i)
      else Some (pending_task_ids (snd (seen i)) request_ids))"

definition FORGET_CANCELLATION_TIMEOUT :: nat where "FORGET_CANCELLATION_TIMEOUT = 10000"

definition await_cancelled :: "nat \<Rightarrow> (nat \<Rightarrow> nat \<times> task_map) \<Rightarrow> nat \<Rightarrow> string list \<Rightarrow> string list option" where
  "await_cancelled fuel seen started request_ids =
     (if request_ids = [] then Some [] else wait_for_tasks fuel seen (started + FORGET_CANCELLATION_TIMEOUT) request_ids 0)"

definition normalized_request_id :: "string \<Rightarrow> string \<Rightarrow> string" where
  "normalized_request_id fresh request_id = (if blank request_id then fresh else request_id)"

text \<open>Work runs on a lane that may refuse it; its result is dropped when NetworkManager changed meanwhile.\<close>

definition call_work :: "nm \<Rightarrow> 'a io \<Rightarrow> 'a io" where
  "call_work n task =
     io_bind (io_ask (LocalRead ''work lane'')) (\<lambda>_.
     io_bind task (\<lambda>result. io_then (ensure_current_owner n) (io_return result)))"

definition forget_validate :: "wifi_connect_target \<Rightarrow> anyhow_error + unit" where
  "forget_validate t =
     (case target_validate t of
        Inr u \<Rightarrow> Inr u
      | Inl e \<Rightarrow> Inl (into_anyhow (with_cause (validation_error OpProfileOperation (anyhow_display e)) e)))"

definition audit :: "forget_result option \<Rightarrow> forget_result option io" where
  "audit r = (case r of
       None \<Rightarrow> io_return None
     | Some r \<Rightarrow> io_then (try_locally ''append_profile_operation_audit'') (io_return (Some r)))"

definition forget_execute ::
    "nat \<Rightarrow> nat \<Rightarrow> (nat \<Rightarrow> nat \<times> task_map) \<Rightarrow> string \<Rightarrow> (string \<Rightarrow> bool) \<Rightarrow> (string \<Rightarrow> string) \<Rightarrow> nm \<Rightarrow> 'r registry
      \<Rightarrow> string \<Rightarrow> wifi_connect_target \<Rightarrow> forget_result option io" where
  "forget_execute fuel started seen fresh object_path_ok lower n st request_id t =
     io_then (io_lift (forget_validate t))
     (let id = normalized_request_id fresh request_id;
          cancelled = fst (cancel_connects_for_ssid (ssid_exact (wct_ssid t)) st)
      in case await_cancelled fuel seen started cancelled of
           None \<Rightarrow> io_return None
         | Some unfinished \<Rightarrow>
             if unfinished \<noteq> [] then audit (Some (cancellation_pending id (ssid_display (wct_ssid t)) cancelled unfinished))
             else io_bind (call_work n (forget_run fuel object_path_ok lower n id t cancelled)) audit)"

section \<open>What is asked before the deletions\<close>

abbreviation keeps :: "'a io \<Rightarrow> bool" where
  "keeps m \<equiv> asks (\<lambda>c. \<not> is_delete c) m"

definition deletions :: "nm_history \<Rightarrow> nm_call list" where
  "deletions h = filter is_delete h"

lemma deletions_simps [simp]: "deletions (cs @ h) = deletions cs @ deletions h" "deletions [] = []"
  "deletions (c # h) = (if is_delete c then c # deletions h else deletions h)"
  by (simp_all add: deletions_def)

lemma keeps_run: "keeps m \<Longrightarrow> m E h = (h', r) \<Longrightarrow> deletions h' = deletions h \<and> (\<exists>cs. h' = cs @ h)"
  by (drule asks_run, assumption) (auto simp: deletions_def list_all_iff filter_empty_conv)

interpretation keep: nm_reader "\<lambda>c. \<not> is_delete c"
  by unfold_locales simp_all

lemmas keeps_reads [asks_rules] = keep.reads

lemma keeps_disconnect [asks_rules]: "keeps (disconnect_wifi_for_ssid n ssid)"
  unfolding disconnect_wifi_for_ssid_def disconnect_device_for_ssid_def deactivate_wifi_connection_def
  by (intro asks_rules) simp_all

lemma harmless_keeps: "asks harmless m \<Longrightarrow> keeps m"
  by (erule asks_mono) (auto dest: delete_is_write)

lemma keeps_commit [asks_rules]: "keeps (commit_credential_edit n edit b)"
  unfolding commit_credential_edit_def Let_def
  using harmless_keeps [OF reads_are_harmless(1)] harmless_keeps [OF reads_are_harmless(2)] harmless_keeps [OF existing_harmless]
  by (intro asks_rules) simp_all

lemma keeps_autoconnect [asks_rules]: "keeps (set_connection_autoconnect_by_path f n path b)"
  unfolding set_connection_autoconnect_by_path_def mutate_connection_settings_with_casting_def
  using harmless_keeps [OF begin_harmless] harmless_keeps [OF casting_harmless]
  by (intro asks_rules) simp_all

lemma keeps_steps [asks_rules]: "keeps clock" "keeps io_sleep" "keeps (try_locally what)" "keeps (disable_autoconnect f n ps ws)"
  "keeps (forget_profiles_for lower n t)"
  unfolding clock_def io_sleep_def try_locally_def disable_autoconnect_def disable_one_def forget_profiles_for_def
  by (intro asks_rules; simp)+

lemma keeps_confirm [asks_rules]: "keeps (confirm_disconnected fuel n ssid d)"
proof (induction fuel)
  case 0
  show ?case unfolding confirm_disconnected.simps by (rule asks_lift)
next
  case (Suc fuel)
  then show ?case unfolding confirm_disconnected.simps by (intro asks_rules)
qed

lemma keeps_disconnected [asks_rules]: "keeps (disconnect_and_confirm fuel n ssid ws)"
  unfolding disconnect_and_confirm_def by (intro asks_rules)

lemma keeps_refresh [asks_rules]: "keeps (refresh_caches b)"
  unfolding refresh_caches_def by (intro asks_rules)

text \<open>A confirmation is a reading that found the network inactive.\<close>

lemma confirmed_reading:
  assumes "confirm_disconnected fuel n ssid d E h = (h', Inr (Some True))"
  shows "\<exists>h0 h1 cs. wifi_connection_active_for_ssid n ssid E h0 = (h1, Inr False) \<and> h0 = cs @ h \<and> h' = h1"
  using assms
proof (induction fuel arbitrary: h)
  case (Suc fuel)
  from Suc.prems obtain h1 now where c: "clock E h = (h1, Inr now)" and nd: "\<not> d \<le> now"
    by (auto simp: io_ok split: if_splits)
  with Suc.prems obtain h2 act where a: "wifi_connection_active_for_ssid n ssid E h1 = (h2, Inr act)"
    by (auto simp: io_ok)
  from c obtain cs where cs: "h1 = cs @ h" using asks_run [OF keeps_steps(1) c] by blast
  show ?case
  proof (cases act)
    case False
    with Suc.prems c nd a cs show ?thesis by (auto simp: io_ok)
  next
    case True
    then have "\<exists>h3. io_sleep E h2 = (h3, Inr ()) \<and> confirm_disconnected fuel n ssid d E h3 = (h', Inr (Some True))"
      using Suc.prems c nd a by (auto simp: io_ok)
    then obtain h3 where s: "io_sleep E h2 = (h3, Inr ())" "confirm_disconnected fuel n ssid d E h3 = (h', Inr (Some True))" by blast
    from asks_run [OF keeps_steps(2) s(1)] asks_run [OF keep.asks_active a] cs obtain ds where "h3 = ds @ h" by auto
    with Suc.IH [OF s(2)] show ?thesis by (metis append.assoc)
  qed
qed simp

text \<open>Deleting a list of profiles: the outcomes in order.\<close>

text \<open>The deletions of a history that NetworkManager acknowledged, oldest first.\<close>

fun acked_deletions :: "nm_env \<Rightarrow> nm_history \<Rightarrow> string list" where
  "acked_deletions E [] = []"
| "acked_deletions E (Delete path # h) = acked_deletions E h @ (case E h (Delete path) of Inr _ \<Rightarrow> [path] | Inl _ \<Rightarrow> [])"
| "acked_deletions E (c # h) = acked_deletions E h"

lemma acked_other: "\<not> is_delete c \<Longrightarrow> acked_deletions E (c # h) = acked_deletions E h"
  by (cases c) simp_all

lemma acked_kept: "deletions cs = [] \<Longrightarrow> acked_deletions E (cs @ h) = acked_deletions E h"
  by (induction cs) (auto simp: acked_other split: if_splits)

definition deleted_of :: "(saved_wifi_connection \<times> (anyhow_error + unit)) list \<Rightarrow> forget_profile list" where
  "deleted_of outs = List.map_filter (\<lambda>(p, r). case r of Inr _ \<Rightarrow> Some (forget_profile_of p) | Inl _ \<Rightarrow> None) outs"

definition failed_of :: "(saved_wifi_connection \<times> (anyhow_error + unit)) list \<Rightarrow> forget_profile_failure list" where
  "failed_of outs = List.map_filter (\<lambda>(p, r). case r of Inr _ \<Rightarrow> None | Inl e \<Rightarrow> Some (forget_failure_of p e)) outs"

lemma outcome_simps [simp]: "deleted_of [] = []" "failed_of [] = []"
  "deleted_of ((p, Inr u) # outs) = forget_profile_of p # deleted_of outs" "deleted_of ((p, Inl e) # outs) = deleted_of outs"
  "failed_of ((p, Inr u) # outs) = failed_of outs" "failed_of ((p, Inl e) # outs) = forget_failure_of p e # failed_of outs"
  by (simp_all add: deleted_of_def failed_of_def)

lemma outcome_lengths: "length (deleted_of outs) + length (failed_of outs) = length outs"
  by (induction outs) (auto split: sum.splits simp: deleted_of_def failed_of_def)

lemma delete_run:
  assumes "delete_connection_by_path f n path E h = (h', r)"
  shows "\<exists>ds. h' = ds @ h \<and> set (deletions ds) \<subseteq> {Delete path}"
    "acked_deletions E h' = acked_deletions E h @ (case r of Inr _ \<Rightarrow> [path] | Inl _ \<Rightarrow> [])"
proof -
  consider e where "h' = h" "r = Inl e" | "delete_connection n path E h = (h', r)"
    using assms unfolding delete_connection_by_path_def parse_path_def object_path_parse_def io_context_def
    by (auto simp: io_bind_run io_map_err_run split: if_splits)
  note two = this
  have "asks (\<lambda>c. is_delete c \<longrightarrow> c = Delete path) (delete_connection n path)"
    unfolding delete_connection_def by (intro asks_rules) simp_all
  from two asks_run [OF this] show "\<exists>ds. h' = ds @ h \<and> set (deletions ds) \<subseteq> {Delete path}"
    by cases (simp, unfold deletions_def list_all_iff set_filter, blast)
  have "acked_deletions E h' = acked_deletions E h @ (case r of Inr _ \<Rightarrow> [path] | Inl _ \<Rightarrow> [])" if d: "delete_connection n path E h = (h', r)"
  proof -
    obtain h1 q where o: "ensure_current_owner n E h = (h1, q)" by fastforce
    have "keeps (ensure_current_owner n)" by (intro asks_rules) simp
    from keeps_run [OF this o] have same: "acked_deletions E h1 = acked_deletions E h" using acked_kept by (auto simp: deletions_def)
    show ?thesis
    proof (cases q)
      case (Inl e)
      with d o same show ?thesis
        by (auto simp: delete_connection_def io_context_def with_proxy_def io_then_def io_bind_def io_map_err_def)
    next
      case (Inr u)
      with d o same show ?thesis
        by (auto simp: delete_connection_def io_context_def with_proxy_def io_then_def io_bind_def io_map_err_def io_ask_def
            io_map_def split: sum.splits)
    qed
  qed
  with two show "acked_deletions E h' = acked_deletions E h @ (case r of Inr _ \<Rightarrow> [path] | Inl _ \<Rightarrow> [])" by cases auto
qed

lemma delete_all_run:
  assumes "io_fold (delete_one f n) ps (del, fail) E h = (h', Inr (del', fail'))"
  shows "\<exists>outs ds. map fst outs = ps \<and> del' = del @ deleted_of outs \<and> fail' = fail @ failed_of outs
    \<and> acked_deletions E h' = acked_deletions E h @ map fp_path (deleted_of outs)
    \<and> h' = ds @ h \<and> set (deletions ds) \<subseteq> (Delete \<circ> swc_path) ` set ps"
  using assms
proof (induction ps arbitrary: del fail h)
  case Nil
  then show ?case by (intro exI [of _ "[]"]) simp
next
  case (Cons p ps)
  obtain h1 r where d: "delete_connection_by_path f n (swc_path p) E h = (h1, r)" by fastforce
  define acc where "acc = (case r of Inr _ \<Rightarrow> (del @ [forget_profile_of p], fail) | Inl e \<Rightarrow> (del, fail @ [forget_failure_of p e]))"
  have "io_fold (delete_one f n) ps acc E h1 = (h', Inr (del', fail'))"
    using Cons.prems d unfolding acc_def delete_one_def by (auto simp: io_ok io_try_run)
  then have "io_fold (delete_one f n) ps (fst acc, snd acc) E h1 = (h', Inr (del', fail'))" by simp
  from Cons.IH [OF this] obtain outs ds where I: "map fst outs = ps" "del' = fst acc @ deleted_of outs" "fail' = snd acc @ failed_of outs"
      "acked_deletions E h' = acked_deletions E h1 @ map fp_path (deleted_of outs)" "h' = ds @ h1" "set (deletions ds) \<subseteq> (Delete \<circ> swc_path) ` set ps" by blast
  from delete_run(1) [OF d] obtain es where es: "h1 = es @ h" "set (deletions es) \<subseteq> {Delete (swc_path p)}" by blast
  show ?case
  proof (intro exI [of _ "(p, r) # outs"] exI [of _ "ds @ es"] conjI)
    show "del' = del @ deleted_of ((p, r) # outs)" "fail' = fail @ failed_of ((p, r) # outs)"
      using I(2,3) unfolding acc_def by (cases r; simp)+
    show "acked_deletions E h' = acked_deletions E h @ map fp_path (deleted_of ((p, r) # outs))"
      using I(4) delete_run(2) [OF d] by (cases r) (simp_all add: forget_profile_of_def)
    show "set (deletions (ds @ es)) \<subseteq> (Delete \<circ> swc_path) ` set (p # ps)" using I(6) es(2) by auto
  qed (use I(1,5) es(1) in simp_all)
qed

text \<open>The disconnection was confirmed by a reading after the history \<open>h\<close>, with no deletion in between.\<close>

definition confirmed_inactive :: "nm_env \<Rightarrow> nm \<Rightarrow> bytes \<Rightarrow> nm_history \<Rightarrow> nm_history \<Rightarrow> bool" where
  "confirmed_inactive E n ssid h h' \<longleftrightarrow>
     (\<exists>h0 h1 cs. wifi_connection_active_for_ssid n ssid E h0 = (h1, Inr False) \<and> h' = cs @ h1 \<and> deletions h1 = deletions h)"

lemma disconnected_confirmed:
  assumes "disconnect_and_confirm fuel n ssid ws E h = (h', Inr (Some (True, ws')))"
  shows "confirmed_inactive E n ssid h h'"
proof -
  obtain h2 dl where n: "confirm_disconnected fuel n ssid dl E h2 = (h', Inr (Some True))"
    using assms unfolding disconnect_and_confirm_def by (auto simp: io_ok eq_commute [of "Some (True, _)"] split: if_splits)
  from confirmed_reading [OF n] obtain h0 where "wifi_connection_active_for_ssid n ssid E h0 = (h', Inr False)" by blast
  moreover have "deletions h' = deletions h"
    using keeps_run [OF keeps_disconnected assms] by blast
  ultimately show ?thesis unfolding confirmed_inactive_def by (metis append_Nil)
qed

lemma confirmed_earlier:
  assumes "confirmed_inactive E n ssid h1 h2" "deletions h1 = deletions h"
  shows "confirmed_inactive E n ssid h (cs @ h2)"
  using assms unfolding confirmed_inactive_def by (metis append.assoc)


text \<open>
  What a completed run reports, in terms of the profiles it found and the outcome of each deletion, and
  of what it read of the network right after it had listed the profiles.
\<close>

definition forget_accounted ::
    "nm_env \<Rightarrow> nm \<Rightarrow> wifi_connect_target \<Rightarrow> nm_history \<Rightarrow> saved_wifi_connection list \<Rightarrow> forget_result \<Rightarrow> nm_history \<Rightarrow> nm_history
      \<Rightarrow> bool" where
  "forget_accounted E n t h1 all r h h' \<longleftrightarrow>
     (\<exists>outs ds. map fst outs = filter (\<lambda>p. swc_ssid_bytes p = ssid_exact (wct_ssid t)) all
        \<and> fr_deleted_profiles r = deleted_of outs \<and> fr_failed_profiles r = failed_of outs
        \<and> fr_profiles_found r = length outs \<and> fr_status r = completed_status (length outs) (length (failed_of outs))
        \<and> acked_deletions E h' = acked_deletions E h @ map fp_path (fr_deleted_profiles r)
        \<and> deletions h' = ds @ deletions h \<and> set ds \<subseteq> (Delete \<circ> swc_path \<circ> fst) ` set outs
        \<and> (\<exists>h2. wifi_connection_active_for_ssid n (ssid_exact (wct_ssid t)) E h1 = (h2, Inr (fr_was_active r)))
        \<and> (fr_was_active r \<longrightarrow> fr_disconnected r \<and> confirmed_inactive E n (ssid_exact (wct_ssid t)) h h'))"

lemma forget_completed_simps [simp]:
  "fr_deleted_profiles (forget_completed c) = fc_deleted c" "fr_failed_profiles (forget_completed c) = fc_failed c"
  "fr_profiles_found (forget_completed c) = length (fc_deleted c) + length (fc_failed c)"
  "fr_status (forget_completed c) = completed_status (length (fc_deleted c) + length (fc_failed c)) (length (fc_failed c))"
  "fr_was_active (forget_completed c) = fc_was_active c" "fr_disconnected (forget_completed c) = fc_disconnected c"
  "fr_pending_connect_requests (forget_completed c) = []" "fr_cancelled_connect_requests (forget_completed c) = fc_cancelled c"
  by (simp_all add: forget_completed_def Let_def forget_base_def)

lemma deletion_phase:
  assumes "delete_profiles f n ps E h1 = (h2, Inr (del, fail))" "refresh_caches b E h2 = (h', Inr ())"
  shows "\<exists>outs ds cs. map fst outs = ps \<and> del = deleted_of outs \<and> fail = failed_of outs
    \<and> acked_deletions E h' = acked_deletions E h1 @ map fp_path del \<and> deletions h' = ds @ deletions h1
    \<and> set ds \<subseteq> (Delete \<circ> swc_path \<circ> fst) ` set outs \<and> h' = cs @ h1"
proof -
  from delete_all_run [OF assms(1) [unfolded delete_profiles_def]] obtain outs es where
    D: "map fst outs = ps" "del = deleted_of outs" "fail = failed_of outs" "acked_deletions E h2 = acked_deletions E h1 @ map fp_path (deleted_of outs)"
      "h2 = es @ h1" "set (deletions es) \<subseteq> (Delete \<circ> swc_path) ` set ps" by auto
  from keeps_run [OF keeps_refresh assms(2)] obtain cs where cs: "deletions h' = deletions h2" "h' = cs @ h2" by blast
  then have "acked_deletions E h' = acked_deletions E h2" using acked_kept [of cs E h2] by simp
  have "(Delete \<circ> swc_path) ` set ps = (Delete \<circ> swc_path \<circ> fst) ` set outs" using D(1) by (force simp: image_comp)
  with D cs \<open>acked_deletions E h' = acked_deletions E h2\<close> show ?thesis
    by (intro exI [of _ outs] exI [of _ "deletions es"] exI [of _ "cs @ es"]) auto
qed

lemma forget_run_cases:
  assumes "forget_run fuel f lower n i t cancelled E h = (h', Inr (Some r))"
  obtains (pends) "fr_status r = DisconnectPending" "fr_deleted_profiles r = []" "fr_failed_profiles r = []" "deletions h' = deletions h"
  | (finished) h1 all where "saved_wifi_connections lower n E h = (h1, Inr all)" "forget_accounted E n t h1 all r h h'"
proof -
  let ?ssid = "ssid_exact (wct_ssid t)"
  from assms obtain h1 ps where s1: "forget_profiles_for lower n t E h = (h1, Inr ps)"
    unfolding forget_run_def by (auto simp: io_ok)
  with assms obtain h2 act where s2: "wifi_connection_active_for_ssid n ?ssid E h1 = (h2, Inr act)"
    unfolding forget_run_def by (auto simp: io_ok)
  with assms s1 obtain h3 ws where s3: "disable_autoconnect f n ps [] E h2 = (h3, Inr ws)"
    unfolding forget_run_def by (auto simp: io_ok)
  with assms s1 s2 obtain h4 b ws' where s4: "(if act then disconnect_and_confirm fuel n ?ssid ws else io_return (Some (False, ws))) E h3 = (h4, Inr (Some (b, ws')))"
      and rest: "(if act \<and> \<not> b then io_return (Some (disconnect_pending i (ssid_display (wct_ssid t)) (length ps) cancelled ws'))
           else io_bind (delete_profiles f n ps) (\<lambda>(deleted, failed).
                io_then (refresh_caches b)
                (io_return (Some (forget_completed \<lparr>fc_request_id = i, fc_ssid = ssid_display (wct_ssid t),
                   fc_was_active = act, fc_disconnected = b, fc_cancelled = cancelled,
                   fc_deleted = deleted, fc_failed = failed, fc_warnings = ws'\<rparr>))))) E h4 = (h', Inr (Some r))"
    unfolding forget_run_def by (auto simp: io_bind_ok split: option.splits)
  have "keeps (if act then disconnect_and_confirm fuel n ?ssid ws else io_return (Some (False, ws)))" by (intro asks_rules)
  note k4 = keeps_run [OF this s4] and k1 = keeps_run [OF keeps_steps(5) s1]
    and k2 = keeps_run [OF keep.asks_active s2] and k3 = keeps_run [OF keeps_steps(4) s3]
  have del4: "deletions h4 = deletions h" using k1 k2 k3 k4 by simp
  have ack4: "acked_deletions E h4 = acked_deletions E h"
  proof -
    from k1 k2 k3 k4 obtain cs where "h4 = cs @ h" by (metis append.assoc)
    with del4 acked_kept [of cs E h] show ?thesis by simp
  qed
  show ?thesis
  proof (cases "act \<and> \<not> b")
    case True
    with rest del4 show ?thesis by (intro pends) (auto simp: disconnect_pending_def forget_base_def)
  next
    case False
    then obtain h5 del fail where d: "delete_profiles f n ps E h4 = (h5, Inr (del, fail))" "refresh_caches b E h5 = (h', Inr ())"
        "r = forget_completed \<lparr>fc_request_id = i, fc_ssid = ssid_display (wct_ssid t), fc_was_active = act, fc_disconnected = b,
           fc_cancelled = cancelled, fc_deleted = del, fc_failed = fail, fc_warnings = ws'\<rparr>"
      using rest by (auto simp: io_ok)
    obtain all where all: "saved_wifi_connections lower n E h = (h1, Inr all)" "ps = filter (\<lambda>p. swc_ssid_bytes p = ?ssid) all"
      using s1 unfolding forget_profiles_for_def by (auto simp: io_ok)
    from deletion_phase [OF d(1,2)] obtain outs ds cs where D: "map fst outs = ps" "del = deleted_of outs" "fail = failed_of outs"
      "acked_deletions E h' = acked_deletions E h4 @ map fp_path del" "deletions h' = ds @ deletions h4"
      "set ds \<subseteq> (Delete \<circ> swc_path \<circ> fst) ` set outs" "h' = cs @ h4" by blast
    have "confirmed_inactive E n ?ssid h h'" if act
    proof -
      have "disconnect_and_confirm fuel n ?ssid ws E h3 = (h4, Inr (Some (True, ws')))" using s4 that False by simp
      from confirmed_earlier [OF disconnected_confirmed [OF this], of h cs] k1 k2 k3 D(7) show ?thesis by simp
    qed
    with all D d(3) False del4 ack4 s2 outcome_lengths [of outs] have "forget_accounted E n t h1 all r h h'"
      unfolding forget_accounted_def by (intro exI [of _ outs] exI [of _ ds]) auto
    with all(1) show ?thesis by (rule finished)
  qed
qed

lemma accounted_around:
  assumes "forget_accounted E n t h0 all r h1 h2" "deletions h1 = deletions h" "acked_deletions E h1 = acked_deletions E h"
    "h' = cs @ h2" "deletions cs = []"
  shows "forget_accounted E n t h0 all r h h'"
proof -
  have "acked_deletions E h' = acked_deletions E h2" unfolding assms(4) by (rule acked_kept [OF assms(5)])
  with assms confirmed_earlier [of E n _ h1 h2 h cs] show ?thesis
    unfolding forget_accounted_def by (elim exE conjE) (intro exI conjI; (assumption | simp))
qed

lemma audit_run: "audit r E h = (h', Inr r') \<Longrightarrow> r' = r \<and> (\<exists>cs. h' = cs @ h \<and> deletions cs = [])"
  unfolding audit_def try_locally_def by (cases r) (auto simp: io_ok io_try_run)

lemma call_work_ok:
  assumes "call_work n task E h = (h', Inr x)"
  shows "\<exists>h1 cs. task E (LocalRead ''work lane'' # h) = (h1, Inr x) \<and> h' = cs @ h1 \<and> deletions cs = []"
proof -
  from assms obtain h1 where r: "task E (LocalRead ''work lane'' # h) = (h1, Inr x)" "ensure_current_owner n E h1 = (h', Inr ())"
    unfolding call_work_def by (auto simp: io_ok)
  have "keeps (ensure_current_owner n)" by (intro asks_rules) simp
  from keeps_run [OF this r(2)] r(1) show ?thesis by auto
qed

lemma awaited:
  assumes "await_cancelled fuel seen started ids = Some []" "rid \<in> set ids"
  shows "\<exists>i. hm_get (snd (seen i)) rid = None"
proof -
  have none: "hm_get ts rid = None" if "pending_task_ids ts ids = []" for ts
    using arg_cong [OF that, of set] assms(2) by (auto simp: pending_task_ids_def)
  have "wait_for_tasks fuel seen d ids i = Some [] \<Longrightarrow> \<exists>i. hm_get (snd (seen i)) rid = None" for d i
    by (induction fuel arbitrary: i) (auto split: if_splits dest: none)
  with assms show ?thesis by (auto simp: await_cancelled_def split: if_splits)
qed

text \<open>C16. Forgetting a network deletes its profiles, and only when that is safe. Whatever NetworkManager and
  the other requests do, a reported result is of one of two kinds. Either a connection attempt to the network or
  the disconnection is still pending, and nothing was deleted. Or every cancelled attempt to the network had
  left the registry. Then the network is reported as having been in use exactly when the reading after the
  profiles were listed found it so, and if it was, a later reading, before the first deletion, found it
  inactive. Only saved profiles of the network were asked to be deleted; the profiles reported as deleted are,
  in order, exactly the deletions NetworkManager acknowledged, all other saved profiles of the network are
  reported as failed, and the status says whether none was found and whether all, some or none were deleted.\<close>

theorem forget_deletes_safely:
  assumes run: "forget_execute fuel started seen fresh f lower n st request_id t E h = (h', Inr (Some r))"
  shows "fr_status r \<in> {CancellationPending, DisconnectPending} \<and> deletions h' = deletions h
      \<and> fr_deleted_profiles r = [] \<and> fr_failed_profiles r = []
    \<or> (\<forall>rid \<in> set (fst (cancel_connects_for_ssid (ssid_exact (wct_ssid t)) st)). \<exists>i. hm_get (snd (seen i)) rid = None)
      \<and> (\<exists>h1 all. saved_wifi_connections lower n E (LocalRead ''work lane'' # h) = (h1, Inr all) \<and> forget_accounted E n t h1 all r h h')"
proof -
  let ?c = "fst (cancel_connects_for_ssid (ssid_exact (wct_ssid t)) st)" and ?i = "normalized_request_id fresh request_id"
  from run obtain unfinished where u: "await_cancelled fuel seen started ?c = Some unfinished"
    unfolding forget_execute_def by (auto simp: io_ok Let_def split: option.splits)
  show ?thesis
  proof (cases unfinished)
    case (Cons a as)
    then have "audit (Some (cancellation_pending ?i (ssid_display (wct_ssid t)) ?c unfinished)) E h = (h', Inr (Some r))"
      using run u unfolding forget_execute_def by (auto simp: io_ok Let_def)
    from audit_run [OF this] show ?thesis by (auto simp: cancellation_pending_def forget_base_def)
  next
    case Nil
    then obtain h2 q where w: "call_work n (forget_run fuel f lower n ?i t ?c) E h = (h2, Inr q)" and a: "audit q E h2 = (h', Inr (Some r))"
      using run u unfolding forget_execute_def by (auto simp: io_ok Let_def)
    from audit_run [OF a] obtain cs where cs: "q = Some r" "h' = cs @ h2" "deletions cs = []" by auto
    from call_work_ok [OF w] cs(1) obtain h3 ds where w3: "forget_run fuel f lower n ?i t ?c E (LocalRead ''work lane'' # h) = (h3, Inr (Some r))"
        "h2 = ds @ h3" "deletions ds = []" by auto
    from w3(1) show ?thesis
    proof (cases rule: forget_run_cases)
      case pends
      with cs w3 show ?thesis by simp
    next
      case (finished h1 all)
      have "forget_accounted E n t h1 all r h h'"
        by (rule accounted_around [OF finished(2), where cs = "cs @ ds"]) (use cs w3 in simp_all)
      with finished(1) awaited [OF u [unfolded Nil]] show ?thesis by blast
    qed
  qed
qed

text \<open>Both waits end: the one for the attempts once the clock has passed its time limit, the one for the
  disconnection when the clock passes its time limit after finitely many waits.\<close>

lemma wait_for_tasks_ends: "i \<le> k \<Longrightarrow> k < i + fuel \<Longrightarrow> deadline \<le> fst (seen k) \<Longrightarrow> wait_for_tasks fuel seen deadline ids i \<noteq> None"
proof (induction fuel arbitrary: i)
  case (Suc fuel)
  then show ?case by (cases "i = k") auto
qed simp

lemma confirm_ends:
  assumes late: "\<And>h t. E h (LocalRead ''clock'') = Inr (RTime t) \<Longrightarrow> N \<le> waits h \<Longrightarrow> deadline \<le> t"
  shows "N < fuel + waits h \<Longrightarrow> 0 < fuel \<Longrightarrow> snd (confirm_disconnected fuel n ssid deadline E h) \<noteq> Inr None"
proof (induction fuel arbitrary: h)
  case (Suc fuel)
  show ?case
  proof
    assume "snd (confirm_disconnected (Suc fuel) n ssid deadline E h) = Inr None"
    then obtain h' where "confirm_disconnected (Suc fuel) n ssid deadline E h = (h', Inr None)" by (metis prod.collapse)
    then obtain now h2 where c: "E h (LocalRead ''clock'') = Inr (RTime now)" "\<not> deadline \<le> now"
        "wifi_connection_active_for_ssid n ssid E (LocalRead ''clock'' # h) = (h2, Inr True)"
        "confirm_disconnected fuel n ssid deadline E (Wait # h2) = (h', Inr None)"
      by (auto simp: io_ok clock_def io_sleep_def reply_time_ok split: if_splits)
    have few: "waits h < N" using late [OF c(1)] c(2) by (meson leI)
    from asks_run [OF keep.asks_active c(3)] have "waits h \<le> waits h2" by (auto simp: waits_def)
    with Suc.IH [of "Wait # h2"] Suc.prems few c(4) show False by simp
  qed
qed simp

text \<open>NetworkManager with one saved profile of the network, which is not in use.\<close>

definition hidden_home :: connection_settings where
  "hidden_home = [(''connection'', [(''id'', DStr ''Home''), (''autoconnect'', DBool False)]), (''802-11-wireless'', [(''ssid'', DArr [DU8 (CHR ''x'')])])]"

fun forget_env :: nm_env where
  "forget_env h GetDevices = Inr (RPaths [])"
| "forget_env h ListConnections = Inr (RPaths [''/1''])"
| "forget_env h (GetSettings p) = Inr (RSettings hidden_home)"
| "forget_env h (Delete p) = Inr RUnit"
| "forget_env h (LocalRead w) = Inr RUnit"
| "forget_env h c = Inl []"

definition no_tasks :: "unit registry" where
  "no_tasks = \<lparr>tasks = [], results = ()\<rparr>"

definition forget_x :: "forget_result option io" where
  "forget_x = forget_execute 5 0 (\<lambda>_. (0, [])) ''forget-1'' (\<lambda>_. True) id demo_nm no_tasks [] (connect_target_for_ssid \<lparr>ssid_exact = ''x'', ssid_display = ''x''\<rparr>)"

lemma forget_x_run: "map_sum id (map_option (\<lambda>r. (fr_status r, map fp_path (fr_deleted_profiles r)))) (snd (forget_x forget_env []))
    = Inr (Some (Forgotten, [''/1'']))"
  by code_simp

theorem forget_deletes_safely_witness:
  "\<exists>h' r h1 all. forget_x forget_env [] = (h', Inr (Some r)) \<and> fr_status r = Forgotten
     \<and> saved_wifi_connections id demo_nm forget_env [LocalRead ''work lane''] = (h1, Inr all)
     \<and> forget_accounted forget_env demo_nm (connect_target_for_ssid \<lparr>ssid_exact = ''x'', ssid_display = ''x''\<rparr>) h1 all r [] h'"
proof -
  obtain h' r where run: "forget_x forget_env [] = (h', Inr (Some r))" "fr_status r = Forgotten"
    using forget_x_run by (cases "forget_x forget_env []"; cases "snd (forget_x forget_env [])") auto
  with forget_deletes_safely [OF run(1) [unfolded forget_x_def]] show ?thesis by auto
qed

end
