(* ===== verification/New_Profile.thy ===== *)
theory New_Profile
  imports Profile_Update
begin

text \<open>
  The settings of a connection that is about to be activated (\<open>src/nm/wifi_settings.rs\<close>,
  \<open>src/nm/wifi_settings/profile.rs\<close>): a new profile for a visible or hidden network, a clone of a saved one,
  or the changes of a saved one.
\<close>

section \<open>Security sections\<close>

abbreviation connect_invalid :: "string \<Rightarrow> string \<Rightarrow> anyhow_error" where
  "connect_invalid \<equiv> invalid_field OpConnect"

definition security_connection_settings :: "section_data \<Rightarrow> connection_settings" where
  "security_connection_settings d = [(''802-11-wireless-security'', d)]"

definition key_management_section :: "string \<Rightarrow> section_data" where
  "key_management_section key_mgmt = [(''key-mgmt'', DStr key_mgmt)]"

definition wireless_security_section :: "string \<Rightarrow> string \<Rightarrow> section_data" where
  "wireless_security_section key_mgmt password = [(''key-mgmt'', DStr key_mgmt), (''psk'', DStr password), (''psk-flags'', DU32 0)]"

fun wep_nm_value :: "wep_key_type \<Rightarrow> u32" where
  "wep_nm_value WepKey = 1"
| "wep_nm_value WepPhrase = 2"

definition wep_security_section :: "string \<Rightarrow> wep_key_type \<Rightarrow> anyhow_error + section_data" where
  "wep_security_section password kt =
     and_then (validate_format (WepFormat kt) password OpConnect ''password'') (\<lambda>_.
       Inr [(''key-mgmt'', DStr ''none''), (''wep-key0'', DStr password), (''wep-key-flags'', DU32 0), (''wep-key-type'', DU32 (wep_nm_value kt))])"

definition wep_wifi_connection_settings :: "string \<Rightarrow> wep_key_type \<Rightarrow> anyhow_error + connection_settings" where
  "wep_wifi_connection_settings password kt = map_sum id security_connection_settings (wep_security_section password kt)"

definition psk_settings_for :: "string \<Rightarrow> string \<Rightarrow> anyhow_error + connection_settings" where
  "psk_settings_for key_mgmt password =
     and_then (validate_format WpaPsk password OpConnect ''password'') (\<lambda>_.
       Inr (security_connection_settings (wireless_security_section key_mgmt password)))"

text \<open>A pure SAE network takes a password of any length.\<close>

definition psk_wifi_connection_settings :: "access_point \<Rightarrow> string \<Rightarrow> anyhow_error + connection_settings" where
  "psk_wifi_connection_settings ap password =
     (let key_mgmt = personal_key_management (ap_wpa_flags ap) (ap_rsn_flags ap)
      in if key_mgmt = ''wpa-psk'' then psk_settings_for key_mgmt password
         else Inr (security_connection_settings (wireless_security_section key_mgmt password)))"

definition owe_wifi_connection_settings :: connection_settings where
  "owe_wifi_connection_settings = security_connection_settings (key_management_section ''owe'')"

section \<open>Enterprise networks\<close>

definition insert_required_string :: "string \<Rightarrow> string option \<Rightarrow> section_data \<Rightarrow> anyhow_error + section_data" where
  "insert_required_string key v d =
     (case nonempty v of
        Some s \<Rightarrow> Inr (hm_insert key (DStr s) d)
      | None \<Rightarrow> Inl (connect_invalid key (''enterprise Wi-Fi field '' @ [CHR 0x27] @ key @ [CHR 0x27] @ '' is required'')))"

definition insert_optional_strings :: "(string \<times> string option) list \<Rightarrow> section_data \<Rightarrow> section_data" where
  "insert_optional_strings kvs d = foldl (\<lambda>d (k, v). insert_optional_string k v d) d kvs"

definition enterprise_eap_methods :: "enterprise_auth \<Rightarrow> string list" where
  "enterprise_eap_methods e = (if ea_eap e = [] then [''peap''] else ea_eap e)"

text \<open>\<open>Option::or\<close>.\<close>

definition first_some :: "'a option \<Rightarrow> 'a option \<Rightarrow> 'a option" where
  "first_some a b = (case a of Some _ \<Rightarrow> a | None \<Rightarrow> b)"

definition enterprise_dot1x_section :: "enterprise_auth \<Rightarrow> string option \<Rightarrow> anyhow_error + section_data" where
  "enterprise_dot1x_section e password =
     and_then (validate_peaplabel OpConnect (ea_phase1_peaplabel e)) (\<lambda>_.
     and_then (insert_required_string ''identity'' (ea_identity e)
        [(''eap'', DArr (map DStr (enterprise_eap_methods e)))]) (\<lambda>d.
       Inr (insert_optional_strings
         [(''anonymous-identity'', ea_anonymous_identity e), (''password'', first_some (ea_password e) password),
          (''phase2-auth'', ea_phase2_auth e), (''ca-path'', ea_ca_path e), (''domain-suffix-match'', ea_domain_suffix_match e),
          (''subject-match'', ea_subject_match e), (''openssl-ciphers'', ea_openssl_ciphers e),
          (''phase1-peapver'', ea_phase1_peapver e), (''phase1-peaplabel'', ea_phase1_peaplabel e),
          (''phase1-fast-provisioning'', ea_phase1_fast_provisioning e)] d)))"

definition insert_enterprise_certificate_settings :: "enterprise_auth \<Rightarrow> section_data \<Rightarrow> anyhow_error + section_data" where
  "insert_enterprise_certificate_settings e d =
     and_then (set_certificates OpConnect
        [(''ca-cert'', ea_ca_cert e), (''client-cert'', ea_client_cert e), (''private-key'', ea_private_key e)]
        (if ea_altsubject_matches e \<noteq> [] then hm_insert ''altsubject-matches'' (DArr (map DStr (ea_altsubject_matches e))) d else d)) (\<lambda>d.
       Inr (insert_optional ''system-ca-certs'' (map_option DBool (ea_system_ca_certs e))
         (insert_optional_strings
           [(''private-key-password'', ea_private_key_password e), (''pin'', ea_pin e), (''pac-file'', ea_pac_file e)] d)))"

text \<open>New credentials are never left to an agent; without a request they are saved.\<close>

definition insert_enterprise_flag :: "string \<Rightarrow> u32 option \<Rightarrow> section_data \<Rightarrow> anyhow_error + section_data" where
  "insert_enterprise_flag key requested d =
     (case requested of
        Some flags \<Rightarrow>
          if flags AND 1 \<noteq> 0 then Inl [LContext ''agent-owned storage is unsupported for new credentials'']
          else Inr (hm_insert (key @ ''-flags'') (DU32 flags) d)
      | None \<Rightarrow> Inr (if hm_get d key \<noteq> None then hm_insert (key @ ''-flags'') (DU32 0) d else d))"

definition insert_enterprise_flag_settings :: "enterprise_auth \<Rightarrow> section_data \<Rightarrow> anyhow_error + section_data" where
  "insert_enterprise_flag_settings e d =
     and_then (insert_enterprise_flag ''password'' (ea_password_flags e) d) (\<lambda>d.
     and_then (insert_enterprise_flag ''private-key-password'' (ea_private_key_password_flags e) d) (\<lambda>d.
     insert_enterprise_flag ''pin'' (ea_pin_flags e) d))"

definition enterprise_settings_with_key_mgmt :: "enterprise_auth \<Rightarrow> string option \<Rightarrow> string \<Rightarrow> anyhow_error + connection_settings" where
  "enterprise_settings_with_key_mgmt e password key_mgmt =
     and_then (enterprise_dot1x_section e password) (\<lambda>d.
     and_then (insert_enterprise_certificate_settings e d) (\<lambda>d.
     and_then (insert_enterprise_flag_settings e d) (\<lambda>d.
       Inr [(''802-11-wireless-security'', key_management_section key_mgmt), (''802-1x'', d)])))"

definition enterprise_wifi_connection_settings ::
    "access_point \<Rightarrow> enterprise_auth \<Rightarrow> string option \<Rightarrow> anyhow_error + connection_settings" where
  "enterprise_wifi_connection_settings ap e password =
     enterprise_settings_with_key_mgmt e password (enterprise_key_mgmt (ap_wpa_flags ap) (ap_rsn_flags ap))"

section \<open>Visible and hidden networks\<close>

definition key_type :: "wep_key_type option \<Rightarrow> wep_key_type" where
  "key_type kt = (case kt of Some k \<Rightarrow> k | None \<Rightarrow> WepKey)"

definition visible_connection_settings ::
    "wifi_connect_target \<Rightarrow> access_point \<Rightarrow> string option \<Rightarrow> wep_key_type option \<Rightarrow> anyhow_error + connection_settings option" where
  "visible_connection_settings t ap password kt =
     (case classify (ap_flags ap) (ap_wpa_flags ap) (ap_rsn_flags ap) of
        AuthOpen \<Rightarrow> Inr (Some [])
      | AuthOwe \<Rightarrow> Inr (Some owe_wifi_connection_settings)
      | AuthPersonal \<Rightarrow>
          (case password of
             Some p \<Rightarrow> map_sum id Some (psk_wifi_connection_settings ap p)
           | None \<Rightarrow> Inr (Some (security_connection_settings (key_management_section
               (personal_key_management (ap_wpa_flags ap) (ap_rsn_flags ap))))))
      | AuthWep \<Rightarrow>
          (case password of
             Some p \<Rightarrow> map_sum id Some (wep_wifi_connection_settings p (key_type kt))
           | None \<Rightarrow> Inr (Some (security_connection_settings
               (hm_insert ''wep-key-type'' (DU32 (wep_nm_value (key_type kt))) (key_management_section ''none'')))))
      | AuthEnterprise \<Rightarrow>
          (case wct_enterprise t of
             None \<Rightarrow> Inr None
           | Some e \<Rightarrow> map_sum id Some (enterprise_wifi_connection_settings ap e password))
      | AuthUnsupported \<Rightarrow> Inr None)"

definition normalized_key_mgmt :: "string \<Rightarrow> string" where
  "normalized_key_mgmt v =
     (let l = map to_ascii_lowercase v
      in if l \<in> {[], ''--'', ''open''} then ''open''
         else if l \<in> {''none'', ''wep''} then ''wep''
         else if l \<in> {''psk'', ''wpa-personal'', ''wpa_psk'', ''wpa-psk''} then ''wpa-psk''
         else if l = ''sae'' then ''sae''
         else if l = ''owe'' then ''owe''
         else if l \<in> {''802.1x'', ''802-1x'', ''enterprise'', ''wpa-eap''} then ''wpa-eap''
         else if l \<in> {''suite-b'', ''wpa-eap-suite-b-192''} then ''wpa-eap-suite-b-192''
         else l)"

definition target_key_mgmt :: "wifi_connect_target \<Rightarrow> string option" where
  "target_key_mgmt t = map_option normalized_key_mgmt
     (first_some (wct_key_mgmt t) (Option.bind (wct_enterprise t) ea_key_mgmt))"

definition security_settings_without_hint ::
    "string option \<Rightarrow> wep_key_type option \<Rightarrow> anyhow_error + connection_settings option" where
  "security_settings_without_hint password kt =
     (case password of
        None \<Rightarrow> Inr None
      | Some p \<Rightarrow>
          (case kt of
             Some k \<Rightarrow> map_sum id Some (wep_wifi_connection_settings p k)
           | None \<Rightarrow> map_sum id Some (psk_settings_for ''wpa-psk'' p)))"

definition required_hidden_password :: "string option \<Rightarrow> string \<Rightarrow> anyhow_error + string" where
  "required_hidden_password password message =
     (case password of Some p \<Rightarrow> Inr p | None \<Rightarrow> Inl (connect_failure CfrSecretRequired message))"

definition hidden_wep_settings :: "string option \<Rightarrow> wep_key_type option \<Rightarrow> anyhow_error + connection_settings option" where
  "hidden_wep_settings password kt =
     and_then (required_hidden_password password ''hidden WEP network requires a password/key'') (\<lambda>p.
       map_sum id Some (wep_wifi_connection_settings p (key_type kt)))"

definition hidden_personal_settings :: "string \<Rightarrow> string option \<Rightarrow> anyhow_error + connection_settings option" where
  "hidden_personal_settings key_mgmt password =
     and_then (required_hidden_password password ''hidden WPA/SAE network requires a password'') (\<lambda>p.
       map_sum id Some (psk_settings_for key_mgmt p))"

definition unsupported_hidden :: "string \<Rightarrow> anyhow_error" where
  "unsupported_hidden other = into_anyhow (with_detail (connect_error CfrUnsupportedAuth
     (''unsupported hidden key management '' @ [CHR 0x27] @ other @ [CHR 0x27])) ''key_management'' (JStr other))"

definition security_settings_for_target_hint ::
    "wifi_connect_target \<Rightarrow> string option \<Rightarrow> wep_key_type option \<Rightarrow> anyhow_error + connection_settings option" where
  "security_settings_for_target_hint t password kt =
     (case wct_enterprise t of
        Some e \<Rightarrow> map_sum id Some (enterprise_settings_with_key_mgmt e password
          (case target_key_mgmt t of Some k \<Rightarrow> k | None \<Rightarrow> ''wpa-eap''))
      | None \<Rightarrow>
          (case target_key_mgmt t of
             None \<Rightarrow> security_settings_without_hint password kt
           | Some k \<Rightarrow>
               if k \<in> {''open'', ''none'', ''--''} then Inr None
               else if k = ''owe'' then Inr (Some owe_wifi_connection_settings)
               else if k = ''wep'' then hidden_wep_settings password kt
               else if k \<in> {''sae'', ''wpa-psk''} then hidden_personal_settings k password
               else if k \<in> {''wpa-eap'', ''wpa-eap-suite-b-192''}
               then Inl (connect_failure CfrSecretRequired ''hidden enterprise network requires an enterprise credential object'')
               else Inl (unsupported_hidden k)))"

section \<open>Settings of the profile itself\<close>

definition connect_metered_code :: "string \<Rightarrow> anyhow_error + u32" where
  "connect_metered_code v =
     (if v \<in> {''auto'', ''unknown''} then Inr 0
      else if v \<in> {''yes'', ''on'', ''true''} then Inr 1
      else if v \<in> {''no'', ''off'', ''false''} then Inr 2
      else Inl (into_anyhow (with_detail (with_detail (validation_error OpConnect ''profile.metered must be auto, yes, or no'')
             ''field'' (JStr ''profile.metered'')) ''value'' (JStr v))))"

text \<open>Cast discovery is opt-in: without an explicit choice it is switched off.\<close>

definition pinned_mdns :: "section_data \<Rightarrow> section_data" where
  "pinned_mdns c = (if Option.bind (hm_get c ''mdns'') value_i32 \<in> {None, Some (- 1)} then hm_insert ''mdns'' (DI32 0) c else c)"

definition apply_connection_settings :: "connection_settings \<Rightarrow> target_profile_settings \<Rightarrow> anyhow_error + connection_settings" where
  "apply_connection_settings settings p =
     (let c = insert_optional ''autoconnect-priority'' (map_option DI32 (tps_autoconnect_priority p))
            (insert_optional ''autoconnect'' (map_option DBool (tps_autoconnect p))
              (pinned_mdns (section_of settings ''connection'')))
      in case nonempty (tps_metered p) of
           None \<Rightarrow> Inr (hm_insert ''connection'' c settings)
         | Some m \<Rightarrow> and_then (connect_metered_code m) (\<lambda>code. Inr (hm_insert ''connection'' (hm_insert ''metered'' (DU32 code) c) settings)))"

definition apply_mac_policy :: "connection_settings \<Rightarrow> target_profile_settings \<Rightarrow> connection_settings" where
  "apply_mac_policy settings p =
     (case nonempty (tps_cloned_mac_address p) of
        None \<Rightarrow> settings
      | Some v \<Rightarrow> on_section ''802-11-wireless'' (hm_insert ''assigned-mac-address'' (DStr v)) settings)"

definition apply_hostname_policy :: "connection_settings \<Rightarrow> target_profile_settings \<Rightarrow> connection_settings" where
  "apply_hostname_policy settings p =
     (case tps_send_hostname p of
        None \<Rightarrow> settings
      | Some enabled \<Rightarrow> set_send_hostname (set_send_hostname settings ''ipv4'' enabled) ''ipv6'' enabled)"

definition overlay_family :: "string \<Rightarrow> target_ip_settings option \<Rightarrow> connection_settings \<Rightarrow> connection_settings" where
  "overlay_family sec u settings = (case u of Some u \<Rightarrow> ip_overlay settings sec u | None \<Rightarrow> settings)"

definition apply_target_profile_settings :: "connection_settings \<Rightarrow> wifi_connect_target \<Rightarrow> anyhow_error + connection_settings" where
  "apply_target_profile_settings settings t =
     (let p = wct_profile t
      in and_then (apply_connection_settings settings p) (\<lambda>s.
           Inr (overlay_family ''ipv6'' (tps_ipv6 p) (overlay_family ''ipv4'' (tps_ipv4 p)
             (apply_hostname_policy (apply_mac_policy s p) p)))))"

definition private_permissions :: "bool \<Rightarrow> string option \<Rightarrow> anyhow_error + string list option" where
  "private_permissions private user =
     (if \<not> private then Inr None
      else case user of
             Some u \<Rightarrow>
               if \<not> blank u \<and> set u \<inter> {CHR '':'', CHR 0x0A, CHR 0x0D, CHR 0x00} = {}
               then Inr (Some [''user:'' @ u @ '':''])
               else Inl (connect_invalid ''private'' ''cannot create a private connection without a valid current user name'')
           | None \<Rightarrow> Inl (connect_invalid ''private'' ''cannot create a private connection without a valid current user name''))"

definition current_user_name :: "(string \<Rightarrow> string option) \<Rightarrow> string option" where
  "current_user_name env = first_some (nonempty (env ''USER'')) (nonempty (env ''LOGNAME''))"

definition apply_private_connection :: "string option \<Rightarrow> bool \<Rightarrow> connection_settings \<Rightarrow> anyhow_error + connection_settings" where
  "apply_private_connection user private settings =
     and_then (private_permissions private user) (\<lambda>permissions.
       case permissions of
         None \<Rightarrow> Inr settings
       | Some ps \<Rightarrow> Inr (on_section ''connection'' (hm_insert ''permissions'' (DArr (map DStr ps))) settings))"

definition insert_missing :: "string \<Rightarrow> dbus_value \<Rightarrow> section_data \<Rightarrow> section_data" where
  "insert_missing key v d = (if hm_get d key = None then hm_insert key v d else d)"

definition apply_connection_name :: "string option \<Rightarrow> connection_settings \<Rightarrow> connection_settings" where
  "apply_connection_name name settings =
     (case nonempty name of
        None \<Rightarrow> settings
      | Some n \<Rightarrow> on_section ''connection'' (\<lambda>c. insert_missing ''type'' (DStr ''802-11-wireless'') (hm_insert ''id'' (DStr n) c)) settings)"

definition apply_target_connection_metadata ::
    "string option \<Rightarrow> wifi_connect_target \<Rightarrow> connection_settings \<Rightarrow> anyhow_error + connection_settings" where
  "apply_target_connection_metadata user t settings =
     and_then (apply_private_connection user (wct_private t) (apply_connection_name (wct_connection_name t) settings)) (\<lambda>s.
     and_then (validate_private_ca_paths OpConnect s) (\<lambda>_. Inr s))"

section \<open>Profiles to activate\<close>

definition automatic_ip_section :: section_data where
  "automatic_ip_section = [(''method'', DStr ''auto'')]"

definition base_connection_section :: "string \<Rightarrow> section_data" where
  "base_connection_section ssid = [(''id'', DStr ssid), (''type'', DStr ''802-11-wireless'')]"

definition base_wireless_section :: "bytes \<Rightarrow> bool \<Rightarrow> section_data" where
  "base_wireless_section ssid hidden =
     [(''ssid'', DArr (map DU8 ssid)), (''mode'', DStr ''infrastructure''), (''hidden'', DBool hidden)]"

definition base_wifi_connection_settings :: "ssid \<Rightarrow> bool \<Rightarrow> connection_settings" where
  "base_wifi_connection_settings s hidden =
     [(''connection'', base_connection_section (ssid_display s)),
      (''802-11-wireless'', base_wireless_section (ssid_exact s) hidden),
      (''ipv4'', automatic_ip_section), (''ipv6'', automatic_ip_section)]"

text \<open>\<open>HashMap::extend\<close>: later values replace earlier ones.\<close>

definition extend_settings :: "('k, 'v) hash_map \<Rightarrow> ('k, 'v) hash_map \<Rightarrow> ('k, 'v) hash_map" where
  "extend_settings m updates = foldl (\<lambda>m (k, v). hm_insert k v m) m updates"

definition merge_connection_settings :: "connection_settings \<Rightarrow> connection_settings \<Rightarrow> connection_settings" where
  "merge_connection_settings settings updates =
     foldl (\<lambda>s (sec, d). on_section sec (\<lambda>old. extend_settings old d) s) settings updates"

definition hidden_wifi_connection_settings ::
    "wifi_connect_target \<Rightarrow> string option \<Rightarrow> wep_key_type option \<Rightarrow> anyhow_error + connection_settings" where
  "hidden_wifi_connection_settings t password kt =
     and_then (security_settings_for_target_hint t password kt) (\<lambda>security.
       apply_target_profile_settings
         (extend_settings (base_wifi_connection_settings (wct_ssid t) True) (case security of Some s \<Rightarrow> s | None \<Rightarrow> [])) t)"

definition security_settings_for_visible_ap ::
    "access_point \<Rightarrow> wifi_connect_target \<Rightarrow> string option \<Rightarrow> wep_key_type option \<Rightarrow> anyhow_error + connection_settings option" where
  "security_settings_for_visible_ap ap t password kt =
     (case wct_enterprise t of
        Some e \<Rightarrow> map_sum id Some (enterprise_wifi_connection_settings ap e password)
      | None \<Rightarrow>
          (case classify (ap_flags ap) (ap_wpa_flags ap) (ap_rsn_flags ap) of
             AuthOwe \<Rightarrow> Inr (Some owe_wifi_connection_settings)
           | AuthWep \<Rightarrow>
               (case password of Some p \<Rightarrow> map_sum id Some (wep_wifi_connection_settings p (key_type kt)) | None \<Rightarrow> Inr None)
           | AuthPersonal \<Rightarrow>
               (case password of Some p \<Rightarrow> map_sum id Some (psk_wifi_connection_settings ap p) | None \<Rightarrow> Inr None)
           | _ \<Rightarrow> Inr None))"

definition security_settings_for_saved_profile ::
    "connection_settings \<Rightarrow> wifi_connect_target \<Rightarrow> string option \<Rightarrow> wep_key_type option \<Rightarrow> anyhow_error + connection_settings option" where
  "security_settings_for_saved_profile settings t password kt =
     (if wct_enterprise t \<noteq> None \<or> wct_key_mgmt t \<noteq> None then security_settings_for_target_hint t password kt
      else let key_mgmt = (case Option.bind (hm_get settings ''802-11-wireless-security'') (\<lambda>d. setting_string d ''key-mgmt'') of
                             Some k \<Rightarrow> k | None \<Rightarrow> [])
           in case password of
                None \<Rightarrow> Inr None
              | Some p \<Rightarrow>
                  if key_mgmt \<in> {''wpa-psk'', ''sae''} then map_sum id Some (psk_settings_for key_mgmt p)
                  else if key_mgmt \<in> {''none'', []} then map_sum id Some (wep_wifi_connection_settings p (key_type kt))
                  else security_settings_for_target_hint t password kt)"

definition apply_saved_activation_settings ::
    "connection_settings \<Rightarrow> wifi_connect_target \<Rightarrow> access_point option \<Rightarrow> string option \<Rightarrow> wep_key_type option \<Rightarrow> anyhow_error + connection_settings" where
  "apply_saved_activation_settings settings t ap password kt =
     and_then (case ap of
         Some ap \<Rightarrow> security_settings_for_visible_ap ap t password kt
       | None \<Rightarrow> security_settings_for_saved_profile settings t password kt) (\<lambda>credentials.
       apply_target_profile_settings
         (case credentials of Some c \<Rightarrow> merge_connection_settings settings c | None \<Rightarrow> settings) t)"

definition sanitize_cloned_settings :: "connection_settings \<Rightarrow> connection_settings" where
  "sanitize_cloned_settings = on_section ''connection'' (\<lambda>c.
     hm_insert ''type'' (DStr ''802-11-wireless'') (hm_remove ''timestamp'' (hm_remove ''uuid'' c)))"

definition ensure_wireless_settings :: "wifi_connect_target \<Rightarrow> bool \<Rightarrow> connection_settings \<Rightarrow> connection_settings" where
  "ensure_wireless_settings t hidden settings =
     on_section ''802-11-wireless'' (\<lambda>w. hm_insert ''hidden'' (DBool hidden) (hm_insert ''mode'' (DStr ''infrastructure'')
         (hm_insert ''ssid'' (DArr (map DU8 (ssid_exact (wct_ssid t)))) w)))
       (on_section ''connection'' (\<lambda>c. insert_missing ''type'' (DStr ''802-11-wireless'')
         (insert_missing ''id'' (DStr (ssid_display (wct_ssid t))) c)) settings)"

definition cloned_wifi_connection_settings ::
    "connection_settings \<Rightarrow> wifi_connect_target \<Rightarrow> access_point \<Rightarrow> string option \<Rightarrow> wep_key_type option \<Rightarrow> anyhow_error + connection_settings" where
  "cloned_wifi_connection_settings settings t ap password kt =
     apply_saved_activation_settings (ensure_wireless_settings t False (sanitize_cloned_settings settings)) t (Some ap) password kt"

section \<open>Temporary profiles\<close>

definition temporary_section :: "string \<Rightarrow> section_data \<Rightarrow> section_data" where
  "temporary_section sec d =
     foldl (\<lambda>d key. hm_insert (flags_key key)
       (DU32 (((case setting_u32 d (flags_key key) of Some f \<Rightarrow> f | None \<Rightarrow> 0) AND NOT 1) OR 2)) d) d (known_keys sec)"

definition make_temporary :: "connection_settings \<Rightarrow> connection_settings" where
  "make_temporary settings =
     map (\<lambda>(sec, d). (sec, if sec \<in> {''802-11-wireless-security'', ''802-1x''} then temporary_section sec d else d))
       (on_section ''connection'' (\<lambda>c. hm_insert ''autoconnect'' (DBool False) (hm_remove ''uuid'' c)) settings)"

definition ensure_uuid :: "string \<Rightarrow> connection_settings \<Rightarrow> connection_settings" where
  "ensure_uuid fresh = on_section ''connection'' (insert_missing ''uuid'' (DStr fresh))"

end
