(* ===== verification/Wifi_Activation.thy ===== *)
theory Wifi_Activation
  imports New_Profile Nm_Reads Durable_Save
begin

text \<open>
  Activating a Wi-Fi connection (\<open>src/nm/activate.rs\<close> and the search for a saved profile in
  \<open>src/nm/settings.rs\<close>): a saved profile is updated and activated, a new one is submitted, and what is
  submitted carries the policy of the request.
\<close>

section \<open>Finding the saved profile of a target\<close>

text \<open>The first element for which a question is answered with yes.\<close>

fun io_find :: "('a \<Rightarrow> bool io) \<Rightarrow> 'a list \<Rightarrow> 'a option io" where
  "io_find f [] = io_return None"
| "io_find f (x # xs) = io_bind (f x) (\<lambda>b. if b then io_return (Some x) else io_find f xs)"

definition connection_matches_access_point :: "nm \<Rightarrow> access_point \<Rightarrow> string \<Rightarrow> bool io" where
  "connection_matches_access_point n ap path =
     io_map (\<lambda>s. settings_match_access_point s ap) (connection_settings_of n path)"

definition saved_wifi_connection_for_ap_on_device :: "nm \<Rightarrow> access_point \<Rightarrow> wifi_device \<Rightarrow> string option io" where
  "saved_wifi_connection_for_ap_on_device n ap device =
     io_bind (available_connections n (dev_path device) (dev_iface device)) (io_find (connection_matches_access_point n ap))"

definition saved_wifi_connection_settings_for_ap_on_device ::
    "nm \<Rightarrow> access_point \<Rightarrow> wifi_device \<Rightarrow> connection_settings option io" where
  "saved_wifi_connection_settings_for_ap_on_device n ap device =
     io_bind (saved_wifi_connection_for_ap_on_device n ap device) (\<lambda>path.
       case path of None \<Rightarrow> io_return None | Some p \<Rightarrow> io_map Some (connection_settings_of n p))"

definition saved_wifi_connection_for_ssid :: "nm \<Rightarrow> bytes \<Rightarrow> string option io" where
  "saved_wifi_connection_for_ssid n ssid = io_bind saved_connections (io_find (connection_matches_ssid n ssid))"

type_synonym activation_target = "string \<times> string \<times> string"

definition visible_saved_activation_target ::
    "(int \<Rightarrow> u64 option) \<Rightarrow> nm \<Rightarrow> wifi_connect_target \<Rightarrow> activation_target option io" where
  "visible_saved_activation_target age n t =
     (if wct_hidden t then io_return None
      else io_bind (visible_access_point_for age n t) (\<lambda>found.
        case found of
          None \<Rightarrow> io_return None
        | Some (device, path, ap) \<Rightarrow>
            io_map (map_option (\<lambda>connection. (connection, dev_path device, path)))
              (saved_wifi_connection_for_ap_on_device n ap device)))"

definition generic_saved_activation_target :: "nm \<Rightarrow> wifi_connect_target \<Rightarrow> activation_target option io" where
  "generic_saved_activation_target n t =
     io_bind (saved_wifi_connection_for_ssid n (ssid_exact (wct_ssid t))) (\<lambda>connection.
       case connection of
         None \<Rightarrow> io_return None
       | Some c \<Rightarrow> io_bind (wifi_devices_for_target n t) (\<lambda>devices.
           case devices of
             [] \<Rightarrow> io_lift (Inl (into_anyhow (not_found_error OpConnect ''no matching Wi-Fi device found'')))
           | device # _ \<Rightarrow> io_return (Some (c, dev_path device, ''/''))))"

definition saved_wifi_activation_target_for ::
    "(int \<Rightarrow> u64 option) \<Rightarrow> nm \<Rightarrow> wifi_connect_target \<Rightarrow> activation_target option io" where
  "saved_wifi_activation_target_for age n t =
     io_bind (visible_saved_activation_target age n t) (\<lambda>visible.
       if visible \<noteq> None then io_return visible
       else if has_specific_ap t then io_return None
       else generic_saved_activation_target n t)"

section \<open>Activating\<close>

text \<open>
  What an activation needs beyond NetworkManager: the name of the user, the time since an access point was
  seen, and the state of the activation's scope when NetworkManager refuses (\<open>State::activation_error\<close>).
\<close>

record activation_env =
  ae_user :: "string option"
  ae_age :: "int \<Rightarrow> u64 option"
  ae_scope :: "instant \<times> scope_state"

record wifi_activation =
  wa_profile_path :: string
  wa_active_path :: string
  wa_scope :: "(string \<times> string) \<times> nat"

definition scope_error_of :: "activation_env \<Rightarrow> anyhow_error \<Rightarrow> anyhow_error" where
  "scope_error_of a e = (case ae_scope a of (now, s) \<Rightarrow> snd (activation_error_in_scope now e s))"

definition activation_scope :: "nm \<Rightarrow> connection_settings \<Rightarrow> string \<Rightarrow> ((string \<times> string) \<times> nat) io" where
  "activation_scope n settings path =
     io_bind (current_owner n) (\<lambda>owner.
     io_map (\<lambda>now. ((owner, activation_identity settings path), now + ACTIVATION_TIMEOUT)) (expect reply_time (LocalRead ''instant'')))"

definition prepare_saved_activation ::
    "activation_env \<Rightarrow> nm \<Rightarrow> string \<Rightarrow> wifi_connect_target \<Rightarrow> string option \<Rightarrow> wep_key_type option \<Rightarrow> unit io" where
  "prepare_saved_activation a n path t password kt =
     (if password \<noteq> None \<or> wct_enterprise t \<noteq> None
      then io_bind (visible_access_point_for (ae_age a) n t) (\<lambda>visible.
        io_bind (begin_profile_edit n path False) (\<lambda>edit.
        io_bind (io_lift (and_then (apply_saved_activation_settings (pe_settings edit) t
             (map_option (\<lambda>(_, _, ap). ap) visible) password kt) (apply_target_connection_metadata (ae_user a) t))) (\<lambda>settings.
          commit_credential_edit n (edit\<lparr>pe_settings := settings\<rparr>) True)))
      else io_bind (connection_settings_of n path) (\<lambda>settings. io_lift (validate_private_ca_paths OpConnect settings)))"

definition activate_saved_wifi_connection_for ::
    "activation_env \<Rightarrow> nm \<Rightarrow> wifi_connect_target \<Rightarrow> string option \<Rightarrow> wep_key_type option \<Rightarrow> wifi_activation option io" where
  "activate_saved_wifi_connection_for a n t password kt =
     (if tps_remember (wct_profile t) = Some False then io_return None
      else io_bind (saved_wifi_activation_target_for (ae_age a) n t) (\<lambda>target.
        case target of
          None \<Rightarrow> io_return None
        | Some (connection, device, specific) \<Rightarrow>
            io_then (prepare_saved_activation a n connection t password kt)
              (io_bind (connection_settings_of n connection) (\<lambda>settings.
               io_bind (activation_scope n settings connection) (\<lambda>scope.
               io_map (\<lambda>active. Some \<lparr>wa_profile_path = connection, wa_active_path = active, wa_scope = scope\<rparr>)
                 (io_map_err (scope_error_of a)
                   (io_context (''ActivateConnection for saved Wi-Fi profile '' @ ssid_display (wct_ssid t))
                     (expect reply_path (ActivateConnection connection device specific)))))))))"

definition request_scan_for_ssids :: "nm \<Rightarrow> wifi_device \<Rightarrow> bytes list \<Rightarrow> unit io" where
  "request_scan_for_ssids n device ssids =
     with_proxy n (io_context ''RequestScan'' (io_map (\<lambda>_. ()) (io_ask (RequestScan (dev_path device)
       (if ssids = [] then [] else [(''ssids'', DArr (map (\<lambda>s. DArr (map DU8 s)) ssids))])))))"

definition request_hidden_scan :: "nm \<Rightarrow> wifi_device \<Rightarrow> bytes \<Rightarrow> unit io" where
  "request_hidden_scan n device ssid =
     io_context (''RequestScan hidden SSID on '' @ dev_iface device) (request_scan_for_ssids n device [ssid])"

definition visible_activation_settings ::
    "nm \<Rightarrow> wifi_device \<Rightarrow> wifi_connect_target \<Rightarrow> access_point \<Rightarrow> string option \<Rightarrow> wep_key_type option
      \<Rightarrow> connection_settings option io" where
  "visible_activation_settings n device t ap password kt =
     io_bind (if tps_remember (wct_profile t) = Some False \<or> password \<noteq> None \<or> wct_enterprise t \<noteq> None
              then saved_wifi_connection_settings_for_ap_on_device n ap device else io_return None) (\<lambda>saved.
       case saved of
         Some s \<Rightarrow> io_lift (map_sum id Some (cloned_wifi_connection_settings s t ap password kt))
       | None \<Rightarrow> io_lift (and_then (visible_connection_settings t ap password kt) (\<lambda>settings.
           case settings of
             None \<Rightarrow> Inr None
           | Some s \<Rightarrow> map_sum id Some (apply_target_profile_settings s t))))"

definition fresh_uuid :: "string io" where
  "fresh_uuid = expect reply_str (LocalRead ''fresh uuid'')"

definition volatile_options :: section_data where
  "volatile_options = [(''persist'', DStr ''volatile'')]"

definition add_and_activate ::
    "activation_env \<Rightarrow> nm \<Rightarrow> wifi_connect_target \<Rightarrow> connection_settings \<Rightarrow> string \<Rightarrow> string \<Rightarrow> wifi_activation io" where
  "add_and_activate a n t settings device specific =
     (let temporary = (tps_remember (wct_profile t) = Some False);
          settings = (if temporary then make_temporary settings else settings)
      in io_bind fresh_uuid (\<lambda>fresh.
         let settings = ensure_uuid fresh settings
         in io_bind (activation_scope n settings ''/'') (\<lambda>scope.
            io_map (\<lambda>(profile, active). \<lparr>wa_profile_path = profile, wa_active_path = active, wa_scope = scope\<rparr>)
              (io_map_err (scope_error_of a)
                (if temporary
                 then io_context (''temporary activation for Wi-Fi network '' @ ssid_display (wct_ssid t))
                   (expect reply_activation (AddAndActivateConnection2 settings device specific volatile_options))
                 else io_context (''AddAndActivateConnection for Wi-Fi network '' @ ssid_display (wct_ssid t))
                   (expect reply_activation (AddAndActivateConnection settings device specific)))))))"

definition add_and_activate_hidden_wifi_connection ::
    "activation_env \<Rightarrow> nm \<Rightarrow> wifi_connect_target \<Rightarrow> string option \<Rightarrow> wep_key_type option \<Rightarrow> wifi_activation option io" where
  "add_and_activate_hidden_wifi_connection a n t password kt =
     io_bind (wifi_devices_for_target n t) (\<lambda>devices.
       case devices of
         [] \<Rightarrow> io_return None
       | device # _ \<Rightarrow>
           io_then (request_hidden_scan n device (ssid_exact (wct_ssid t)))
             (io_bind (io_lift (and_then (hidden_wifi_connection_settings t password kt)
                (apply_target_connection_metadata (ae_user a) t))) (\<lambda>settings.
              io_map Some (add_and_activate a n t settings (dev_path device) ''/''))))"

definition add_and_activate_wifi_connection_for ::
    "activation_env \<Rightarrow> nm \<Rightarrow> wifi_connect_target \<Rightarrow> string option \<Rightarrow> wep_key_type option \<Rightarrow> wifi_activation option io" where
  "add_and_activate_wifi_connection_for a n t password kt =
     (if wct_hidden t then add_and_activate_hidden_wifi_connection a n t password kt
      else io_bind (visible_access_point_for (ae_age a) n t) (\<lambda>found.
        case found of
          None \<Rightarrow> io_return None
        | Some (device, path, ap) \<Rightarrow>
            io_bind (visible_activation_settings n device t ap password kt) (\<lambda>settings.
              case settings of
                None \<Rightarrow> io_return None
              | Some s \<Rightarrow> io_bind (io_lift (apply_target_connection_metadata (ae_user a) t s)) (\<lambda>s.
                  io_map Some (add_and_activate a n t s (dev_path device) path)))))"

definition abort_requested_activation :: "nm \<Rightarrow> string \<Rightarrow> unit io" where
  "abort_requested_activation n path =
     io_then (ensure_current_owner n)
       (io_context ''abort owned Wi-Fi activation'' (io_map (\<lambda>_. ()) (io_ask (DeactivateConnection path))))"

section \<open>The state of an activation\<close>

record activation_report =
  ar_iface :: string
  ar_device_state :: u32
  ar_device_state_reason :: "u32 \<times> u32"
  ar_active_connection_path :: "string option"
  ar_active_connection_state :: "u32 option"

definition active_connection_state :: "nm \<Rightarrow> string \<Rightarrow> u32 option io" where
  "active_connection_state n path =
     (if path = ''/'' then io_return None
      else io_option (with_proxy n (expect reply_u32 (GetProperty path ''State''))))"

definition wifi_activation_status_for_device :: "nm \<Rightarrow> wifi_device \<Rightarrow> activation_report io" where
  "wifi_activation_status_for_device n device =
     with_proxy n
     (io_bind (io_context (''read State for '' @ dev_iface device) (expect reply_u32 (GetProperty (dev_path device) ''State''))) (\<lambda>state.
      io_bind (io_context (''read StateReason for '' @ dev_iface device)
        (expect reply_pair (GetProperty (dev_path device) ''StateReason''))) (\<lambda>reason.
      io_bind (io_context (''read ActiveConnection for '' @ dev_iface device)
        (expect reply_path (GetProperty (dev_path device) ''ActiveConnection''))) (\<lambda>active.
      io_map (\<lambda>active_state. \<lparr>ar_iface = dev_iface device, ar_device_state = state, ar_device_state_reason = reason,
          ar_active_connection_path = active_path active, ar_active_connection_state = active_state\<rparr>)
        (active_connection_state n active)))))"

definition wifi_activation_device_for_target ::
    "(int \<Rightarrow> u64 option) \<Rightarrow> nm \<Rightarrow> wifi_connect_target \<Rightarrow> wifi_device option io" where
  "wifi_activation_device_for_target age n t =
     io_bind (visible_access_point_for age n t) (\<lambda>found.
       case found of
         Some (device, _, _) \<Rightarrow> io_return (Some device)
       | None \<Rightarrow> io_map (\<lambda>devices. case devices of [] \<Rightarrow> None | d # _ \<Rightarrow> Some d) (wifi_devices_for_target n t))"

definition wifi_activation_status_for ::
    "(int \<Rightarrow> u64 option) \<Rightarrow> nm \<Rightarrow> wifi_connect_target \<Rightarrow> activation_report option io" where
  "wifi_activation_status_for age n t =
     io_bind (wifi_activation_device_for_target age n t) (\<lambda>device.
       case device of None \<Rightarrow> io_return None | Some d \<Rightarrow> io_map Some (wifi_activation_status_for_device n d))"

section \<open>Temporary profiles\<close>

text \<open>Nothing of the profile is kept: no automatic connection, and every secret is left unsaved by everyone.\<close>

definition unsaved_flags :: "u32 option \<Rightarrow> bool" where
  "unsaved_flags f \<longleftrightarrow> (case f of Some f \<Rightarrow> f AND AGENT_OWNED = 0 \<and> f AND NOT_SAVED = NOT_SAVED | None \<Rightarrow> False)"

definition temporary_profile :: "connection_settings \<Rightarrow> bool" where
  "temporary_profile settings \<longleftrightarrow>
     hm_get (section_of settings ''connection'') ''autoconnect'' = Some (DBool False)
     \<and> (\<forall>sec \<in> {''802-11-wireless-security'', ''802-1x''}. \<forall>d. hm_get settings sec = Some d \<longrightarrow>
          (\<forall>key \<in> set (known_keys sec). unsaved_flags (setting_u32 d (flags_key key))))"

lemma unsaved_word: "(((f :: u32) AND NOT 1) OR 2) AND 1 = 0" "(((f :: u32) AND NOT 1) OR 2) AND 2 = 2"
proof -
  have one: "bit (1 :: u32) k \<longleftrightarrow> k = 0" for k by (simp add: bit_1_iff)
  have two: "bit (2 :: u32) k \<longleftrightarrow> k = 1" for k
    using bit_exp_iff [of 1 k, where ?'a = "32 word"] by (cases "k = 1") simp_all
  have zero: "\<not> bit (0 :: u32) k" for k by simp
  show "(((f :: u32) AND NOT 1) OR 2) AND 1 = 0"
    by (rule bit_word_eqI) (auto simp only: bit_and_iff bit_or_iff bit_not_iff one two zero)
  show "(((f :: u32) AND NOT 1) OR 2) AND 2 = 2"
    by (rule bit_word_eqI) (auto simp only: bit_and_iff bit_or_iff bit_not_iff one two zero)
qed

lemma unsaved_inserted:
  "unsaved_flags (setting_u32 (hm_insert k (DU32 ((f AND NOT 1) OR 2)) d) k)"
  using unsaved_word [of f, simplified] by (simp add: unsaved_flags_def setting_u32_def update_conv' AGENT_OWNED_def NOT_SAVED_def)

lemma temporary_fold:
  "(\<forall>key \<in> K. unsaved_flags (setting_u32 d (flags_key key))) \<Longrightarrow>
   \<forall>key \<in> K \<union> set keys. unsaved_flags (setting_u32 (foldl (\<lambda>d key. hm_insert (flags_key key)
       (DU32 (((case setting_u32 d (flags_key key) of Some f \<Rightarrow> f | None \<Rightarrow> 0) AND NOT 1) OR 2)) d) d keys) (flags_key key))"
proof (induction keys arbitrary: d K)
  case (Cons k ks)
  let ?d = "hm_insert (flags_key k) (DU32 (((case setting_u32 d (flags_key k) of Some f \<Rightarrow> f | None \<Rightarrow> 0) AND NOT 1) OR 2)) d"
  have "\<forall>key \<in> insert k K. unsaved_flags (setting_u32 ?d (flags_key key))"
  proof
    fix key assume "key \<in> insert k K"
    show "unsaved_flags (setting_u32 ?d (flags_key key))"
    proof (cases "flags_key key = flags_key k")
      case True
      then show ?thesis by (simp only: unsaved_inserted)
    next
      case False
      with \<open>key \<in> insert k K\<close> Cons.prems have "unsaved_flags (setting_u32 d (flags_key key))" by auto
      with False show ?thesis by (simp add: setting_u32_def update_conv')
    qed
  qed
  from Cons.IH [OF this] show ?case by simp
qed simp

lemma temporary_section_flags: "key \<in> set (known_keys sec) \<Longrightarrow> unsaved_flags (setting_u32 (temporary_section sec d) (flags_key key))"
  using temporary_fold [of "{}" d "known_keys sec"] by (simp add: temporary_section_def)

lemma map_sections: "hm_get (map (\<lambda>(k, v). (k, f k v)) m) k = map_option (f k) (hm_get m k)"
  by (induction m) auto

lemma make_temporary_get:
  "hm_get (make_temporary s) sec = map_option (\<lambda>d. if sec \<in> {''802-11-wireless-security'', ''802-1x''} then temporary_section sec d else d)
     (hm_get (on_section ''connection'' (\<lambda>c. hm_insert ''autoconnect'' (DBool False) (hm_remove ''uuid'' c)) s) sec)"
  unfolding make_temporary_def by (rule map_sections)

lemma temporary_ensured: "temporary_profile (ensure_uuid fresh (make_temporary s))"
  "hm_get (section_of (ensure_uuid fresh (make_temporary s)) ''connection'') ''uuid'' = Some (DStr fresh)"
proof -
  have c: "section_of (make_temporary s) ''connection'' = hm_insert ''autoconnect'' (DBool False) (hm_remove ''uuid'' (section_of s ''connection''))"
    by (simp add: section_of_def make_temporary_get on_section_get)
  show "hm_get (section_of (ensure_uuid fresh (make_temporary s)) ''connection'') ''uuid'' = Some (DStr fresh)"
    by (simp add: ensure_uuid_def on_section_of c insert_missing_def update_conv' delete_conv')
  have "hm_get (section_of (ensure_uuid fresh (make_temporary s)) ''connection'') ''autoconnect'' = Some (DBool False)"
    by (simp add: ensure_uuid_def on_section_of c insert_missing_def update_conv' delete_conv')
  moreover have "unsaved_flags (setting_u32 d (flags_key key))"
    if "sec \<in> {''802-11-wireless-security'', ''802-1x''}" "hm_get (ensure_uuid fresh (make_temporary s)) sec = Some d"
      "key \<in> set (known_keys sec)" for sec d key
    using that temporary_section_flags [of key sec]
    by (auto simp: ensure_uuid_def on_section_get make_temporary_get split: if_splits)
  ultimately show "temporary_profile (ensure_uuid fresh (make_temporary s))" unfolding temporary_profile_def by blast
qed

section \<open>What a submitted profile says\<close>

definition explicit_mdns :: "section_data \<Rightarrow> bool" where
  "explicit_mdns c \<longleftrightarrow> (\<exists>m. hm_get c ''mdns'' = Some (DI32 m) \<and> m \<noteq> - 1)"

lemma value_i32_iff: "value_i32 v = Some m \<longleftrightarrow> v = DI32 m"
  by (cases v) auto

lemma pinned_explicit: "explicit_mdns (pinned_mdns c)"
proof (cases "Option.bind (hm_get c ''mdns'') value_i32 \<in> {None, Some (- 1)}")
  case True
  then show ?thesis by (auto simp: explicit_mdns_def pinned_mdns_def update_conv')
next
  case False
  then show ?thesis by (auto simp: explicit_mdns_def pinned_mdns_def bind_eq_Some_conv value_i32_iff split: option.splits bind_splits)
qed

lemma pinned_get: "key \<noteq> ''mdns'' \<Longrightarrow> hm_get (pinned_mdns c) key = hm_get c key"
  by (simp add: pinned_mdns_def update_conv')

lemma insert_optional_at: "hm_get (insert_optional k v d) key = (if key = k then first_some v (hm_get d key) else hm_get d key)"
  by (auto simp: insert_optional_def first_some_def update_conv' split: option.splits)

text \<open>The sections of addresses and the wireless section leave the connection section alone.\<close>

lemma overlay_connection: "sec \<noteq> ''connection'' \<Longrightarrow> section_of (overlay_family sec u s) ''connection'' = section_of s ''connection''"
  by (auto simp: overlay_family_def ip_overlay_def section_of_insert Let_def split: option.splits)

lemma policies_connection: "section_of (apply_hostname_policy (apply_mac_policy s p) p) ''connection'' = section_of s ''connection''"
  by (auto simp: apply_hostname_policy_def apply_mac_policy_def hostname_section on_section_of split: option.splits)

lemma connection_settings_applied:
  assumes "apply_connection_settings s p = Inr s'"
  shows "explicit_mdns (section_of s' ''connection'')"
    and "hm_get (section_of s' ''connection'') ''uuid'' = hm_get (section_of s ''connection'') ''uuid''"
  using assms pinned_explicit [of "section_of s ''connection''"]
  by (auto simp: apply_connection_settings_def Let_def and_then_Inr_iff section_of_insert insert_optional_at explicit_mdns_def
      update_conv' pinned_get split: option.splits)

lemma target_settings_applied:
  assumes "apply_target_profile_settings s t = Inr s'"
  shows "explicit_mdns (section_of s' ''connection'')"
    and "hm_get (section_of s' ''connection'') ''uuid'' = hm_get (section_of s ''connection'') ''uuid''"
proof -
  from assms obtain s1 where s1: "apply_connection_settings s (wct_profile t) = Inr s1"
    and s': "section_of s' ''connection'' = section_of s1 ''connection''"
    by (auto simp: apply_target_profile_settings_def Let_def and_then_Inr_iff overlay_connection policies_connection)
  from connection_settings_applied [OF s1] s'
  show "explicit_mdns (section_of s' ''connection'')"
    "hm_get (section_of s' ''connection'') ''uuid'' = hm_get (section_of s ''connection'') ''uuid''" by simp_all
qed

text \<open>Credential settings touch the credential sections only.\<close>

definition credential_only :: "connection_settings \<Rightarrow> bool" where
  "credential_only s \<longleftrightarrow> fst ` set s \<subseteq> {''802-11-wireless-security'', ''802-1x''}"

lemma merge_connection: "credential_only c \<Longrightarrow> section_of (merge_connection_settings s c) ''connection'' = section_of s ''connection''"
proof (induction c arbitrary: s)
  case (Cons kv c)
  then show ?case by (cases kv) (auto simp: merge_connection_settings_def credential_only_def on_section_of)
qed (simp add: merge_connection_settings_def)

lemma security_only: "credential_only (security_connection_settings d)" "credential_only owe_wifi_connection_settings"
  by (simp_all add: credential_only_def security_connection_settings_def owe_wifi_connection_settings_def)

lemma map_sum_ok: "map_sum id f r = Inr y \<longleftrightarrow> (\<exists>x. r = Inr x \<and> y = f x)"
  by (cases r) auto

lemma personal_only: "psk_wifi_connection_settings ap p = Inr s \<Longrightarrow> credential_only s" "psk_settings_for k p = Inr s \<Longrightarrow> credential_only s"
    "wep_wifi_connection_settings p kt = Inr s \<Longrightarrow> credential_only s"
  by (auto simp: psk_wifi_connection_settings_def psk_settings_for_def wep_wifi_connection_settings_def and_then_Inr_iff security_only Let_def
      map_sum_ok split: if_splits)

lemma enterprise_only: "enterprise_settings_with_key_mgmt e p k = Inr s \<Longrightarrow> credential_only s"
    "enterprise_wifi_connection_settings ap e p = Inr s \<Longrightarrow> credential_only s"
  by (auto simp: enterprise_wifi_connection_settings_def enterprise_settings_with_key_mgmt_def and_then_Inr_iff credential_only_def)

lemma visible_only: "visible_connection_settings t ap p kt = Inr (Some s) \<Longrightarrow> credential_only s"
  by (auto simp: visible_connection_settings_def map_sum_ok security_only personal_only enterprise_only credential_only_def [of "[]"]
      split: wifi_authentication.splits option.splits)

lemma visible_ap_only: "security_settings_for_visible_ap ap t p kt = Inr (Some s) \<Longrightarrow> credential_only s"
  by (auto simp: security_settings_for_visible_ap_def map_sum_ok security_only dest: personal_only enterprise_only
      split: wifi_authentication.splits option.splits)

lemma hidden_only: "security_settings_without_hint p kt = Inr (Some s) \<Longrightarrow> credential_only s"
    "hidden_wep_settings p kt = Inr (Some s) \<Longrightarrow> credential_only s" "hidden_personal_settings k p = Inr (Some s) \<Longrightarrow> credential_only s"
  by (auto simp: security_settings_without_hint_def hidden_wep_settings_def hidden_personal_settings_def and_then_Inr_iff map_sum_ok
      dest: personal_only split: option.splits)

lemma hint_only:
  assumes "security_settings_for_target_hint t p kt = Inr (Some s)"
  shows "credential_only s"
proof (cases "wct_enterprise t")
  case (Some e)
  with assms show ?thesis by (auto simp: security_settings_for_target_hint_def map_sum_ok dest: enterprise_only)
next
  case None
  show ?thesis
  proof (cases "target_key_mgmt t")
    case None
    with assms \<open>wct_enterprise t = None\<close> show ?thesis by (simp add: security_settings_for_target_hint_def hidden_only)
  next
    case (Some k)
    with assms \<open>wct_enterprise t = None\<close> have
      "s = owe_wifi_connection_settings \<or> hidden_wep_settings p kt = Inr (Some s) \<or> hidden_personal_settings k p = Inr (Some s)"
      unfolding security_settings_for_target_hint_def by (simp del: insert_iff split: if_split_asm)
    with hidden_only security_only show ?thesis by blast
  qed
qed

lemma extend_connection: "credential_only c \<Longrightarrow> section_of (extend_settings s c) ''connection'' = section_of s ''connection''"
proof (induction c arbitrary: s)
  case (Cons kv c)
  then show ?case by (cases kv) (auto simp: extend_settings_def credential_only_def section_of_insert)
qed (simp add: extend_settings_def)

lemma cloned_policy:
  assumes "cloned_wifi_connection_settings s t ap p kt = Inr s'"
  shows "explicit_mdns (section_of s' ''connection'')" and "hm_get (section_of s' ''connection'') ''uuid'' = None"
proof -
  let ?s = "ensure_wireless_settings t False (sanitize_cloned_settings s)"
  have u: "hm_get (section_of ?s ''connection'') ''uuid'' = None"
    by (simp add: ensure_wireless_settings_def sanitize_cloned_settings_def on_section_of insert_missing_def update_conv' delete_conv')
  from assms obtain c where c: "security_settings_for_visible_ap ap t p kt = Inr c"
    "apply_target_profile_settings (case c of Some c \<Rightarrow> merge_connection_settings ?s c | None \<Rightarrow> ?s) t = Inr s'"
    by (auto simp: cloned_wifi_connection_settings_def apply_saved_activation_settings_def and_then_Inr_iff)
  have "section_of (case c of Some c \<Rightarrow> merge_connection_settings ?s c | None \<Rightarrow> ?s) ''connection'' = section_of ?s ''connection''"
    using c(1) visible_ap_only merge_connection by (cases c) auto
  with target_settings_applied [OF c(2)] u
  show "explicit_mdns (section_of s' ''connection'')" "hm_get (section_of s' ''connection'') ''uuid'' = None" by simp_all
qed

lemma hidden_policy:
  assumes "hidden_wifi_connection_settings t p kt = Inr s'"
  shows "explicit_mdns (section_of s' ''connection'')" and "hm_get (section_of s' ''connection'') ''uuid'' = None"
proof -
  from assms obtain c where c: "security_settings_for_target_hint t p kt = Inr c"
    "apply_target_profile_settings (extend_settings (base_wifi_connection_settings (wct_ssid t) True) (case c of Some s \<Rightarrow> s | None \<Rightarrow> [])) t = Inr s'"
    by (auto simp: hidden_wifi_connection_settings_def and_then_Inr_iff)
  have only: "credential_only (case c of Some s \<Rightarrow> s | None \<Rightarrow> [])"
    using c(1) hint_only by (cases c) (auto simp: credential_only_def [of "[]"])
  have "hm_get (section_of (base_wifi_connection_settings (wct_ssid t) True) ''connection'') ''uuid'' = None"
    by (simp add: base_wifi_connection_settings_def base_connection_section_def section_of_def)
  with target_settings_applied [OF c(2)] extend_connection [OF only]
  show "explicit_mdns (section_of s' ''connection'')" "hm_get (section_of s' ''connection'') ''uuid'' = None" by simp_all
qed

lemma visible_policy:
  assumes "visible_connection_settings t ap p kt = Inr (Some s)" and "apply_target_profile_settings s t = Inr s'"
  shows "explicit_mdns (section_of s' ''connection'')" and "hm_get (section_of s' ''connection'') ''uuid'' = None"
proof -
  have "section_of s ''connection'' = []" using visible_only [OF assms(1)]
    by (auto simp: credential_only_def section_of_def split: option.splits dest!: map_of_SomeD)
  with target_settings_applied [OF assms(2)]
  show "explicit_mdns (section_of s' ''connection'')" "hm_get (section_of s' ''connection'') ''uuid'' = None" by simp_all
qed

text \<open>A private profile names its user and has no directory of authorities.\<close>

definition restricted_to :: "string option \<Rightarrow> connection_settings \<Rightarrow> bool" where
  "restricted_to user s \<longleftrightarrow> (\<exists>u. user = Some u \<and> \<not> blank u \<and> CHR '':'' \<notin> set u
     \<and> hm_get (section_of s ''connection'') ''permissions'' = Some (DArr [DStr (''user:'' @ u @ '':'')]) \<and> private_ca_path s = None)"

lemma metadata_policy:
  assumes "apply_target_connection_metadata user t s = Inr s'"
  shows "explicit_mdns (section_of s ''connection'') \<Longrightarrow> explicit_mdns (section_of s' ''connection'')"
    and "hm_get (section_of s' ''connection'') ''uuid'' = hm_get (section_of s ''connection'') ''uuid''"
    and "wct_private t \<Longrightarrow> restricted_to user s'"
proof -
  from assms obtain ps where p: "private_permissions (wct_private t) user = Inr ps"
    and s': "s' = (case ps of None \<Rightarrow> apply_connection_name (wct_connection_name t) s
       | Some ps \<Rightarrow> on_section ''connection'' (hm_insert ''permissions'' (DArr (map DStr ps))) (apply_connection_name (wct_connection_name t) s))"
    and ca: "private_ca_path s' = None"
    by (auto simp: apply_target_connection_metadata_def apply_private_connection_def and_then_Inr_iff validate_private_ca_paths_def
        split: option.splits)
  let ?c = "section_of (apply_connection_name (wct_connection_name t) s) ''connection''"
  have c: "hm_get ?c ''mdns'' = hm_get (section_of s ''connection'') ''mdns''" "hm_get ?c ''uuid'' = hm_get (section_of s ''connection'') ''uuid''"
    by (auto simp: apply_connection_name_def on_section_of insert_missing_def update_conv' split: option.splits)
  show "explicit_mdns (section_of s ''connection'') \<Longrightarrow> explicit_mdns (section_of s' ''connection'')"
    "hm_get (section_of s' ''connection'') ''uuid'' = hm_get (section_of s ''connection'') ''uuid''"
    using c by (auto simp: s' explicit_mdns_def on_section_of update_conv' split: option.splits)
  assume "wct_private t"
  with p obtain u where "user = Some u" "\<not> blank u" "CHR '':'' \<notin> set u" "ps = Some [''user:'' @ u @ '':'']"
    by (auto simp: private_permissions_def split: option.splits if_splits)
  with ca show "restricted_to user s'" by (auto simp: restricted_to_def s' on_section_of update_conv')
qed

section \<open>What an activation changes\<close>

fun changes :: "nm_call \<Rightarrow> bool" where
  "changes (Update2 path settings flags version) = True"
| "changes (Delete path) = True"
| "changes (Reapply path settings version flags) = True"
| "changes (SetProperty path name value) = True"
| "changes (DeactivateConnection path) = True"
| "changes (ActivateConnection profile device specific) = True"
| "changes (AddAndActivateConnection settings device specific) = True"
| "changes (AddAndActivateConnection2 settings device specific options) = True"
| "changes _ = False"

abbreviation looking :: "nm_call \<Rightarrow> bool" where
  "looking c \<equiv> \<not> changes c"

definition changed :: "nm_history \<Rightarrow> nm_call list" where
  "changed h = filter changes h"

lemma changed_simps [simp]: "changed [] = []" "changed (c # h) = (if changes c then c # changed h else changed h)"
  "changed (cs @ h) = changed cs @ changed h"
  by (simp_all add: changed_def)

lemma passive_run: "asks looking m \<Longrightarrow> m E h = (h', r) \<Longrightarrow> changed h' = changed h"
  by (drule (1) asks_run) (auto simp: changed_def list_all_iff filter_empty_conv)

interpretation look: nm_reader looking
  by unfold_locales simp_all

lemma asks_find: "(\<And>x. asks P (f x)) \<Longrightarrow> asks P (io_find f xs)"
proof (induction xs)
  case (Cons x xs)
  then show ?case unfolding io_find.simps by (intro asks_rules) auto
qed (unfold io_find.simps, intro asks_rules)

lemma passive_saved: "asks looking (saved_wifi_connection_for_ap_on_device n ap d)"
    "asks looking (saved_wifi_connection_settings_for_ap_on_device n ap d)"
  unfolding saved_wifi_connection_settings_for_ap_on_device_def saved_wifi_connection_for_ap_on_device_def
    connection_matches_access_point_def by (intro asks_rules look.reads asks_find)+

lemma passive_scan: "asks looking (request_hidden_scan n d ssid)"
  unfolding request_hidden_scan_def request_scan_for_ssids_def by (intro asks_rules; simp)

lemma passive_visible: "asks looking (visible_activation_settings n d t ap p kt)"
  unfolding visible_activation_settings_def by (intro asks_rules passive_saved)

lemma passive_scope: "asks looking (activation_scope n s path)" "asks looking fresh_uuid"
  unfolding activation_scope_def fresh_uuid_def by (intro asks_rules; simp)+

text \<open>The request that hands a profile to NetworkManager.\<close>

definition submission :: "wifi_connect_target \<Rightarrow> connection_settings \<Rightarrow> string \<Rightarrow> string \<Rightarrow> nm_call" where
  "submission t settings device specific =
     (if tps_remember (wct_profile t) = Some False
      then AddAndActivateConnection2 settings device specific volatile_options
      else AddAndActivateConnection settings device specific)"

lemma submission_changes [simp]: "changes (submission t s d o')"
  by (simp add: submission_def)

definition identified :: "wifi_connect_target \<Rightarrow> connection_settings \<Rightarrow> string \<Rightarrow> connection_settings" where
  "identified t s fresh = ensure_uuid fresh (if tps_remember (wct_profile t) = Some False then make_temporary s else s)"

lemma add_and_activate_run:
  assumes "add_and_activate a n t s device specific E h = (h', r)"
  shows "(changed h' = changed h \<and> (\<exists>e. r = Inl e))
    \<or> (\<exists>fresh hs scope. E h (LocalRead ''fresh uuid'') = Inr (RStr fresh) \<and> changed hs = changed h
         \<and> h' = submission t (identified t s fresh) device specific # hs \<and> (\<exists>ds. hs = ds @ LocalRead ''fresh uuid'' # h)
         \<and> snd (fst scope) = activation_identity (identified t s fresh) ''/''
         \<and> (\<forall>w. r = Inr w \<longrightarrow> wa_scope w = scope))"
proof -
  obtain h1 f where f: "fresh_uuid E h = (h1, f)" by fastforce
  have n1: "changed h1 = changed h" using passive_run [OF passive_scope(2) f] .
  show ?thesis
  proof (cases f)
    case (Inl e)
    with assms f n1 show ?thesis by (auto simp: add_and_activate_def io_bind_def Let_def)
  next
    case (Inr fresh)
    let ?s = "identified t s fresh"
    have fr: "E h (LocalRead ''fresh uuid'') = Inr (RStr fresh)" and h1: "h1 = LocalRead ''fresh uuid'' # h"
      using f Inr unfolding fresh_uuid_def by (auto simp: expect_ok reply_conv)
    obtain h2 sc where sc: "activation_scope n ?s ''/'' E h1 = (h2, sc)" by fastforce
    have n2: "changed h2 = changed h" using passive_run [OF passive_scope(1) sc] n1 by simp
    have ds: "\<exists>ds. h2 = ds @ LocalRead ''fresh uuid'' # h" using asks_run [OF passive_scope(1) sc] h1 by auto
    show ?thesis
    proof (cases sc)
      case (Inl e)
      with assms f Inr sc n2 show ?thesis
        by (auto simp: add_and_activate_def io_bind_def Let_def identified_def split: if_splits)
    next
      case (Inr scope)
      have id: "snd (fst scope) = activation_identity ?s ''/''"
        using sc Inr unfolding activation_scope_def by (auto simp: io_ok)
      have "h' = submission t ?s device specific # h2 \<and> (\<forall>w. r = Inr w \<longrightarrow> wa_scope w = scope)"
        using assms f \<open>f = Inr fresh\<close> sc Inr unfolding add_and_activate_def Let_def
        by (auto simp: io_bind_def identified_def submission_def io_map_run io_map_err_run io_context_def expect_run map_sum_ok split: if_splits prod.splits)
      with fr id n2 ds show ?thesis by blast
    qed
  qed
qed

lemma temporary_section_get:
  "\<forall>key \<in> set (known_keys sec). flags_key key \<noteq> k \<Longrightarrow> hm_get (temporary_section sec d) k = hm_get d k"
proof -
  have "\<forall>key \<in> set keys. flags_key key \<noteq> k \<Longrightarrow> hm_get (foldl (\<lambda>d key. hm_insert (flags_key key)
       (DU32 (((case setting_u32 d (flags_key key) of Some f \<Rightarrow> f | None \<Rightarrow> 0) AND NOT 1) OR 2)) d) d keys) k = hm_get d k" for keys
    by (induction keys arbitrary: d) (auto simp: update_conv')
  then show "\<forall>key \<in> set (known_keys sec). flags_key key \<noteq> k \<Longrightarrow> ?thesis" by (simp add: temporary_section_def)
qed

lemma ca_keys: "k \<in> {''ca-path'', ''phase2-ca-path''} \<Longrightarrow> \<forall>key \<in> set (known_keys ''802-1x''). flags_key key \<noteq> k"
  by (auto simp: known_keys_def flags_key_def)

lemma identified_connection:
  "hm_get (section_of (identified t s fresh) ''connection'') k =
     (if k = ''uuid''
      then Some (case hm_get (section_of s ''connection'') ''uuid'' of
                   Some v \<Rightarrow> if tps_remember (wct_profile t) = Some False then DStr fresh else v | None \<Rightarrow> DStr fresh)
      else if k = ''autoconnect'' \<and> tps_remember (wct_profile t) = Some False then Some (DBool False)
      else hm_get (section_of s ''connection'') k)"
proof -
  have c: "section_of (make_temporary s) ''connection'' = hm_insert ''autoconnect'' (DBool False) (hm_remove ''uuid'' (section_of s ''connection''))"
    by (simp add: section_of_def make_temporary_get on_section_get)
  show ?thesis
    by (auto simp: identified_def ensure_uuid_def on_section_of c insert_missing_def update_conv' delete_conv' split: option.splits)
qed

lemma identified_enterprise:
  assumes "k \<in> {''ca-path'', ''phase2-ca-path''}"
  shows "Option.bind (hm_get (identified t s fresh) ''802-1x'') (\<lambda>d. setting_string d k) =
    Option.bind (hm_get s ''802-1x'') (\<lambda>d. setting_string d k)"
proof -
  have "setting_string (temporary_section ''802-1x'' d) k = setting_string d k" for d
    using temporary_section_get [OF ca_keys [OF assms]] by (simp add: setting_string_def)
  then show ?thesis
    by (cases "hm_get s ''802-1x''") (simp_all add: identified_def ensure_uuid_def on_section_get make_temporary_get)
qed

lemma private_ca_path_none:
  "private_ca_path s = None \<longleftrightarrow>
     Option.bind (hm_get (section_of s ''connection'') ''permissions'') (value_list value_string) \<in> {None, Some []}
     \<or> (\<forall>k \<in> {''ca-path'', ''phase2-ca-path''}. nonempty (Option.bind (hm_get s ''802-1x'') (\<lambda>d. setting_string d k)) = None)"
  by (cases "hm_get s ''connection''"; cases "hm_get s ''802-1x''")
    (auto simp: private_ca_path_def section_of_def nonempty_def find_None_iff)

lemma identified_restricted: "restricted_to user s \<Longrightarrow> restricted_to user (identified t s fresh)"
  unfolding restricted_to_def private_ca_path_none by (auto simp: identified_connection identified_enterprise)

lemma identified_scope:
  assumes "hm_get (section_of s ''connection'') ''uuid'' = None" and "fresh \<noteq> []"
  shows "activation_identity (identified t s fresh) path = ''uuid:'' @ fresh"
proof -
  have "hm_get (identified t s fresh) ''connection'' \<noteq> None"
    by (simp add: identified_def ensure_uuid_def on_section_get)
  then obtain c where c: "hm_get (identified t s fresh) ''connection'' = Some c" by blast
  with identified_connection [of t s fresh "''uuid''"] assms have "hm_get c ''uuid'' = Some (DStr fresh)"
    by (simp add: section_of_def)
  with c assms(2) show ?thesis by (simp add: activation_identity_def setting_string_def)
qed

definition submitted_policy :: "activation_env \<Rightarrow> wifi_connect_target \<Rightarrow> connection_settings \<Rightarrow> string \<Rightarrow> bool" where
  "submitted_policy a t settings fresh \<longleftrightarrow>
     hm_get (section_of settings ''connection'') ''uuid'' = Some (DStr fresh)
     \<and> explicit_mdns (section_of settings ''connection'')
     \<and> (wct_private t \<longrightarrow> restricted_to (ae_user a) settings)
     \<and> (tps_remember (wct_profile t) = Some False \<longrightarrow> temporary_profile settings)"

lemma identified_policy:
  assumes m: "apply_target_connection_metadata (ae_user a) t s0 = Inr s"
    and "explicit_mdns (section_of s0 ''connection'')" and u: "hm_get (section_of s0 ''connection'') ''uuid'' = None"
  shows "submitted_policy a t (identified t s fresh) fresh" and "hm_get (section_of s ''connection'') ''uuid'' = None"
proof -
  show n: "hm_get (section_of s ''connection'') ''uuid'' = None" using metadata_policy(2) [OF m] u by simp
  have "explicit_mdns (section_of s ''connection'')" using metadata_policy(1) [OF m] assms(2) by simp
  then have "explicit_mdns (section_of (identified t s fresh) ''connection'')"
    by (simp add: explicit_mdns_def identified_connection)
  moreover have "wct_private t \<Longrightarrow> restricted_to (ae_user a) (identified t s fresh)"
    using metadata_policy(3) [OF m] identified_restricted by blast
  moreover have "tps_remember (wct_profile t) = Some False \<Longrightarrow> temporary_profile (identified t s fresh)"
    by (simp add: identified_def temporary_ensured)
  ultimately show "submitted_policy a t (identified t s fresh) fresh"
    unfolding submitted_policy_def by (simp add: identified_connection n)
qed

text \<open>What is known of the outcome of a submission.\<close>

definition submitted ::
    "activation_env \<Rightarrow> nm_env \<Rightarrow> wifi_connect_target \<Rightarrow> nm_history \<Rightarrow> nm_history \<Rightarrow> anyhow_error + wifi_activation option \<Rightarrow> bool" where
  "submitted a E t h h' r \<longleftrightarrow>
     (changed h' = changed h \<and> (\<forall>w. r \<noteq> Inr (Some w)))
     \<or> (\<exists>settings device specific fresh hs cs ds. h' = submission t settings device specific # hs \<and> changed hs = changed h
          \<and> hs = ds @ LocalRead ''fresh uuid'' # cs \<and> E cs (LocalRead ''fresh uuid'') = Inr (RStr fresh)
          \<and> submitted_policy a t settings fresh
          \<and> (\<forall>w. r = Inr (Some w) \<longrightarrow> fresh \<noteq> [] \<longrightarrow> snd (fst (wa_scope w)) = ''uuid:'' @ fresh
                 \<and> (\<forall>path. activation_identity settings path = snd (fst (wa_scope w)))))"

lemma add_and_activate_submitted:
  assumes m: "apply_target_connection_metadata (ae_user a) t s0 = Inr s"
    and "explicit_mdns (section_of s0 ''connection'')" and "hm_get (section_of s0 ''connection'') ''uuid'' = None"
    and run: "io_map Some (add_and_activate a n t s device specific) E h = (h', r)" and before: "changed h = changed h0"
  shows "submitted a E t h0 h' r"
proof -
  from run obtain r0 where r0: "add_and_activate a n t s device specific E h = (h', r0)" "r = map_sum id Some r0"
    by (auto simp: io_map_run)
  note policy = identified_policy [OF m assms(2,3)]
  from add_and_activate_run [OF r0(1)] show ?thesis
  proof (elim disjE exE conjE)
    fix e assume "changed h' = changed h" "r0 = Inl e"
    with r0(2) before show ?thesis by (simp add: submitted_def)
  next
    fix fresh hs scope ds
    assume *: "E h (LocalRead ''fresh uuid'') = Inr (RStr fresh)" "changed hs = changed h"
      "h' = submission t (identified t s fresh) device specific # hs" "hs = ds @ LocalRead ''fresh uuid'' # h"
      "snd (fst scope) = activation_identity (identified t s fresh) ''/''" "\<forall>w. r0 = Inr w \<longrightarrow> wa_scope w = scope"
    have "\<forall>w. r = Inr (Some w) \<longrightarrow> fresh \<noteq> [] \<longrightarrow> snd (fst (wa_scope w)) = ''uuid:'' @ fresh
        \<and> (\<forall>path. activation_identity (identified t s fresh) path = snd (fst (wa_scope w)))"
      using *(5,6) identified_scope [OF policy(2)] r0(2) by (cases r0) auto
    with *(1-4) policy(1) before show ?thesis unfolding submitted_def
      by (intro disjI2 exI [of _ "identified t s fresh"] exI [of _ device] exI [of _ specific] exI [of _ fresh]
          exI [of _ hs] exI [of _ h] exI [of _ ds] conjI; simp only:)
  qed
qed

lemma hidden_submitted:
  assumes "add_and_activate_hidden_wifi_connection a n t password kt E h = (h', r)"
  shows "submitted a E t h h' r"
proof -
  obtain h1 d where d: "wifi_devices_for_target n t E h = (h1, d)" by fastforce
  have n1: "changed h1 = changed h" by (rule passive_run [OF look.asks_devices(3) d])
  consider (error) e where "d = Inl e" | (none) "d = Inr []" | (some) dev rest where "d = Inr (dev # rest)"
    by (metis neq_Nil_conv obj_sumE)
  then show ?thesis
  proof cases
    case some
    obtain h2 sc where sc: "request_hidden_scan n dev (ssid_exact (wct_ssid t)) E h1 = (h2, sc)" by fastforce
    have n2: "changed h2 = changed h" using passive_run [OF passive_scan sc] n1 by simp
    show ?thesis
    proof (cases "\<exists>s0 s. sc = Inr () \<and> hidden_wifi_connection_settings t password kt = Inr s0
        \<and> apply_target_connection_metadata (ae_user a) t s0 = Inr s")
      case True
      then obtain s0 s where s: "sc = Inr ()" "hidden_wifi_connection_settings t password kt = Inr s0"
        "apply_target_connection_metadata (ae_user a) t s0 = Inr s" by blast
      with assms d some sc have "io_map Some (add_and_activate a n t s (dev_path dev) ''/'') E h2 = (h', r)"
        unfolding add_and_activate_hidden_wifi_connection_def by (simp add: io_bind_def io_then_def and_then_def)
      from add_and_activate_submitted [OF s(3) hidden_policy [OF s(2)] this n2] show ?thesis .
    next
      case False
      with assms d some sc n2 have "h' = h2 \<and> (\<exists>e. r = Inl e)"
        unfolding add_and_activate_hidden_wifi_connection_def
        by (auto simp: io_bind_def io_then_def and_then_def split: sum.splits)
      with n2 show ?thesis by (auto simp: submitted_def)
    qed
  qed (use assms d n1 in \<open>auto simp: add_and_activate_hidden_wifi_connection_def io_bind_def submitted_def\<close>)
qed

lemma visible_settings_policy:
  assumes "visible_activation_settings n d t ap p kt E h = (h', Inr (Some s))"
  shows "explicit_mdns (section_of s ''connection'')" and "hm_get (section_of s ''connection'') ''uuid'' = None"
proof -
  from assms consider (clone) saved where "cloned_wifi_connection_settings saved t ap p kt = Inr s"
    | (new) s0 where "visible_connection_settings t ap p kt = Inr (Some s0)" "apply_target_profile_settings s0 t = Inr s"
    unfolding visible_activation_settings_def
    by (auto simp: io_bind_run map_sum_ok and_then_Inr_iff split: option.splits)
  then have "explicit_mdns (section_of s ''connection'') \<and> hm_get (section_of s ''connection'') ''uuid'' = None"
  proof cases
    case clone
    then show ?thesis by (simp add: cloned_policy)
  next
    case new
    then show ?thesis by (simp add: visible_policy)
  qed
  then show "explicit_mdns (section_of s ''connection'')" "hm_get (section_of s ''connection'') ''uuid'' = None" by simp_all
qed

lemma visible_submitted:
  assumes "io_bind (visible_activation_settings n d t ap p kt) (\<lambda>settings.
      case settings of
        None \<Rightarrow> io_return None
      | Some s \<Rightarrow> io_bind (io_lift (apply_target_connection_metadata (ae_user a) t s)) (\<lambda>s.
          io_map Some (add_and_activate a n t s device path))) E h = (h', r)" and before: "changed h = changed h0"
  shows "submitted a E t h0 h' r"
proof -
  obtain h1 v where v: "visible_activation_settings n d t ap p kt E h = (h1, v)" by fastforce
  have n1: "changed h1 = changed h0" using passive_run [OF passive_visible v] before by simp
  show ?thesis
  proof (cases "\<exists>s0 s. v = Inr (Some s0) \<and> apply_target_connection_metadata (ae_user a) t s0 = Inr s")
    case True
    then obtain s0 s where s: "v = Inr (Some s0)" "apply_target_connection_metadata (ae_user a) t s0 = Inr s" by blast
    with assms v have "io_map Some (add_and_activate a n t s device path) E h1 = (h', r)" by (simp add: io_bind_def)
    from add_and_activate_submitted [OF s(2) visible_settings_policy [OF v [unfolded s(1)]] this n1] show ?thesis .
  next
    case False
    with assms v n1 show ?thesis
      by (cases v) (auto simp: io_bind_def submitted_def split: option.splits sum.splits)
  qed
qed

text \<open>
  C19. A profile that is handed to NetworkManager carries the policy of the request. Joining a network asks at
  most one question that changes anything, the last one, and it submits a profile with a new identity, an
  explicit Cast discovery policy, and, for a private connection, the one user who may see it and no directory
  of certificate authorities. A temporary join neither activates nor updates a saved profile; it submits a
  volatile profile that never connects by itself and whose secrets nobody saves. The activation scope is found
  again by any request for secrets about the submitted profile, whatever its path.
\<close>

theorem submitted_profile_policy:
  assumes "add_and_activate_wifi_connection_for a n t password kt E h = (h', r)"
  shows "(tps_remember (wct_profile t) = Some False \<longrightarrow> activate_saved_wifi_connection_for a n t password kt E h = (h, Inr None))
    \<and> ((changed h' = changed h \<and> (\<forall>w. r \<noteq> Inr (Some w)))
       \<or> (\<exists>settings device specific fresh hs cs ds. h' = submission t settings device specific # hs \<and> changed hs = changed h
            \<and> hs = ds @ LocalRead ''fresh uuid'' # cs \<and> E cs (LocalRead ''fresh uuid'') = Inr (RStr fresh)
            \<and> submitted_policy a t settings fresh
            \<and> (\<forall>w. r = Inr (Some w) \<longrightarrow> fresh \<noteq> [] \<longrightarrow> snd (fst (wa_scope w)) = ''uuid:'' @ fresh
                   \<and> (\<forall>path. activation_identity settings path = snd (fst (wa_scope w))))))"
proof -
  have "submitted a E t h h' r"
  proof (cases "wct_hidden t")
    case True
    with assms show ?thesis by (intro hidden_submitted) (simp add: add_and_activate_wifi_connection_for_def)
  next
    case False
    obtain h1 f where f: "visible_access_point_for (ae_age a) n t E h = (h1, f)" by fastforce
    have n1: "changed h1 = changed h" by (rule passive_run [OF look.asks_visible f])
    show ?thesis
    proof (cases "\<exists>d path ap. f = Inr (Some (d, path, ap))")
      case True
      then obtain d path ap where "f = Inr (Some (d, path, ap))" by blast
      with assms False f visible_submitted [OF _ n1] show ?thesis
        by (simp add: add_and_activate_wifi_connection_for_def io_bind_def [of "visible_access_point_for (ae_age a) n t"])
    next
      case none: False
      with assms False f n1 show ?thesis
        by (cases f) (auto simp: add_and_activate_wifi_connection_for_def io_bind_def submitted_def split: option.splits)
    qed
  qed
  then show ?thesis unfolding submitted_def by (simp add: activate_saved_wifi_connection_for_def)
qed

definition guest_nm :: nm where
  "guest_nm = \<lparr>nm_destination = '':1.1'', nm_service_name = '':1.1''\<rparr>"

definition guest_env :: nm_env where
  "guest_env h c =
     (case c of
        GetDevices \<Rightarrow> Inr (RPaths [''/d''])
      | GetProperty p q \<Rightarrow> Inr (if q = ''DeviceType'' then RU32 2 else RStr ''wlan0'')
      | LocalRead q \<Rightarrow> Inr (if q = ''instant'' then RTime 0 else RStr ''new'')
      | RequestScan d o' \<Rightarrow> Inr RUnit
      | AddAndActivateConnection2 s d p o' \<Rightarrow> Inr (RActivation ''/p'' ''/a'')
      | _ \<Rightarrow> Inl [])"

definition guest_target :: wifi_connect_target where
  "guest_target = \<lparr>wct_ssid = \<lparr>ssid_exact = ''g'', ssid_display = ''g''\<rparr>, wct_ap_path = None, wct_bssid = None, wct_ifname = None,
     wct_device_path = None, wct_connection_name = None, wct_private = True, wct_hidden = True, wct_security = None,
     wct_key_mgmt = Some ''open'', wct_enterprise = None, wct_profile = target_profile_default\<lparr>tps_remember := Some False\<rparr>\<rparr>"

definition guest_activation :: activation_env where
  "guest_activation = \<lparr>ae_user = Some ''ann'', ae_age = (\<lambda>_. None), ae_scope = (0, scope_new 0)\<rparr>"

lemma guest_settings:
  "\<exists>s. and_then (hidden_wifi_connection_settings guest_target None None)
     (apply_target_connection_metadata (ae_user guest_activation) guest_target) = Inr s"
proof -
  have "isl (and_then (hidden_wifi_connection_settings guest_target None None)
     (apply_target_connection_metadata (ae_user guest_activation) guest_target)) = False" by code_simp
  then show ?thesis by (metis sum.collapse(2))
qed

lemma guest_devices: "\<exists>h'. wifi_devices_for_target guest_nm guest_target guest_env h = (h', Inr [\<lparr>dev_path = ''/d'', dev_iface = ''wlan0''\<rparr>])"
  by (simp add: wifi_devices_for_target_def wifi_devices_def wifi_device_at_def with_proxy_def ensure_current_owner_def current_owner_def
      guest_nm_def starts_with_def io_context_def io_map_err_def io_map_def io_or_def io_try_def io_bind_def io_then_def expect_run guest_env_def
      and_then_def ok_or_def NM_DEVICE_TYPE_WIFI_def target_matches_device_def guest_target_def)

lemma guest_activates:
  "\<exists>h' w. add_and_activate guest_activation guest_nm guest_target s ''/d'' ''/'' guest_env h = (h', Inr w)"
  by (simp add: add_and_activate_def fresh_uuid_def activation_scope_def current_owner_def guest_nm_def starts_with_def io_context_def
      io_map_err_def io_map_def io_bind_def expect_run guest_env_def and_then_def ok_or_def guest_target_def Let_def)

lemma guest_run: "\<exists>h' w. add_and_activate_wifi_connection_for guest_activation guest_nm guest_target None None guest_env [] = (h', Inr (Some w))"
proof -
  obtain h1 where d: "wifi_devices_for_target guest_nm guest_target guest_env [] = (h1, Inr [\<lparr>dev_path = ''/d'', dev_iface = ''wlan0''\<rparr>])"
    using guest_devices by blast
  have scan: "request_hidden_scan guest_nm \<lparr>dev_path = ''/d'', dev_iface = ''wlan0''\<rparr> (ssid_exact (wct_ssid guest_target)) guest_env h1 =
      (RequestScan ''/d'' [(''ssids'', DArr [DArr [DU8 CHR ''g'']])] # h1, Inr ())"
    by (simp add: request_hidden_scan_def request_scan_for_ssids_def with_proxy_def ensure_current_owner_def current_owner_def guest_nm_def
        starts_with_def io_context_def io_map_err_def io_map_def io_bind_def io_then_def guest_env_def guest_target_def)
  obtain s where s: "and_then (hidden_wifi_connection_settings guest_target None None)
     (apply_target_connection_metadata (ae_user guest_activation) guest_target) = Inr s" using guest_settings by blast
  obtain h2 w where w: "add_and_activate guest_activation guest_nm guest_target s ''/d'' ''/'' guest_env
      (RequestScan ''/d'' [(''ssids'', DArr [DArr [DU8 CHR ''g'']])] # h1) = (h2, Inr w)" using guest_activates by blast
  have "wct_hidden guest_target" by (simp add: guest_target_def)
  with d scan s w show ?thesis
    by (simp add: add_and_activate_wifi_connection_for_def add_and_activate_hidden_wifi_connection_def io_bind_def io_then_def io_map_def)
qed

theorem submitted_profile_policy_witness:
  "\<exists>h' w settings device specific hs.
     add_and_activate_wifi_connection_for guest_activation guest_nm guest_target None None guest_env [] = (h', Inr (Some w))
     \<and> h' = AddAndActivateConnection2 settings device specific volatile_options # hs \<and> changed hs = []
     \<and> temporary_profile settings \<and> restricted_to (Some ''ann'') settings"
proof -
  obtain h' w where run: "add_and_activate_wifi_connection_for guest_activation guest_nm guest_target None None guest_env [] = (h', Inr (Some w))"
    using guest_run by blast
  have t: "tps_remember (wct_profile guest_target) = Some False" "wct_private guest_target" "ae_user guest_activation = Some ''ann''"
    by (simp_all add: guest_target_def guest_activation_def)
  from submitted_profile_policy [OF run] obtain settings device specific fresh hs where
    "h' = submission guest_target settings device specific # hs" "changed hs = []" "submitted_policy guest_activation guest_target settings fresh"
    by (metis changed_simps(1))
  with run t show ?thesis by (auto simp: submission_def submitted_policy_def)
qed

end
