(* ===== verification/Hotspot.thy ===== *)
theory Hotspot
  imports Wifi_Activation
begin

text \<open>
  Wi-Fi hotspots (\<open>src/nm/hotspot.rs\<close>, \<open>src/daemon_hotspot.rs\<close>, \<open>src/random.rs\<close>): starting one submits a
  volatile profile with a validated or generated passphrase and waits for it; a start that fails or is
  cancelled after that is taken back.
\<close>

section \<open>Random credentials\<close>

definition PASSPHRASE_ALPHABET :: string where
  "PASSPHRASE_ALPHABET = ''abcdefghijkmnopqrstuvwxyz23456789''"

definition passphrase_character :: "char \<Rightarrow> char option" where
  "passphrase_character byte =
     (let alphabet_len = length PASSPHRASE_ALPHABET; limit = 255 - 255 mod alphabet_len
      in if byte_val byte < limit then Some (PASSPHRASE_ALPHABET ! (byte_val byte mod alphabet_len)) else None)"

definition random_bytes :: "nat \<Rightarrow> bytes io" where
  "random_bytes len =
     io_context ''read /dev/urandom'' (expect (\<lambda>r. case r of RBytes bs \<Rightarrow> if length bs = len then Some bs else None | _ \<Rightarrow> None)
       (LocalRead ''/dev/urandom''))"

text \<open>Rejected bytes are drawn again, so the loop has fuel.\<close>

fun passphrase_loop :: "nat \<Rightarrow> nat \<Rightarrow> string \<Rightarrow> string option io" where
  "passphrase_loop 0 len acc = io_return None"
| "passphrase_loop (Suc fuel) len acc =
     (if length acc < len
      then io_bind (random_bytes (len * 2)) (\<lambda>bs.
        passphrase_loop fuel len (acc @ take (len - length acc) (List.map_filter passphrase_character bs)))
      else io_return (Some acc))"

definition random_passphrase :: "nat \<Rightarrow> nat \<Rightarrow> string option io" where
  "random_passphrase fuel len =
     (if len = 0 then io_lift (Inl [LContext ''passphrase length must be positive'']) else passphrase_loop fuel len [])"

definition byte_of :: "nat \<Rightarrow> char" where
  "byte_of n = char_of n"

definition uuid_v4_text :: "bytes \<Rightarrow> string" where
  "uuid_v4_text bytes =
     (let bytes = bytes[6 := byte_of (byte_val (bytes ! 6) mod 16 + 64)];
          bytes = bytes[8 := byte_of (byte_val (bytes ! 8) mod 64 + 128)];
          hex = ssid_hex bytes
      in take 8 hex @ ''-'' @ take 4 (drop 8 hex) @ ''-'' @ take 4 (drop 12 hex) @ ''-'' @ take 4 (drop 16 hex)
         @ ''-'' @ take 12 (drop 20 hex))"

definition random_uuid_v4 :: "string io" where
  "random_uuid_v4 = io_map uuid_v4_text (random_bytes 16)"

section \<open>Devices and requests\<close>

datatype hotspot_security = HotspotWpaPsk | HotspotSae

fun key_management :: "hotspot_security \<Rightarrow> string" where
  "key_management HotspotWpaPsk = ''wpa-psk''"
| "key_management HotspotSae = ''sae''"

fun qr_auth_type :: "hotspot_security \<Rightarrow> string" where
  "qr_auth_type HotspotWpaPsk = ''WPA''"
| "qr_auth_type HotspotSae = ''SAE''"

definition minimum_passphrase_len :: "hotspot_security \<Rightarrow> nat" where
  "minimum_passphrase_len s = 8"

datatype hotspot_unavailable_reason = NoWifiDevice | ApModeUnsupported | WifiDisabled | DeviceBusy

fun unavailable_name :: "hotspot_unavailable_reason \<Rightarrow> string" where
  "unavailable_name NoWifiDevice = ''no-wifi-device''"
| "unavailable_name ApModeUnsupported = ''ap-mode-unsupported''"
| "unavailable_name WifiDisabled = ''wifi-disabled''"
| "unavailable_name DeviceBusy = ''device-busy''"

record hotspot_device =
  hd_path :: string
  hd_interface :: string
  hd_ap_capable :: bool
  hd_in_use :: bool
  hd_state :: u32
  hd_state_name :: string
  hd_mode :: string
  hd_bands :: "wifi_band list"

record hotspot_request =
  hr_ssid :: "string option"
  hr_passphrase :: "string option"
  hr_security :: hotspot_security
  hr_band :: wifi_band
  hr_channel :: "u32 option"
  hr_hidden :: bool
  hr_device :: "string option"

record resolved_hotspot =
  rh_ssid :: string
  rh_passphrase :: string
  rh_generated_passphrase :: bool
  rh_generated_ssid :: bool
  rh_device :: hotspot_device
  rh_band :: wifi_band
  rh_channel :: "u32 option"

record hotspot_share =
  hsh_ssid :: string
  hsh_auth_type :: string
  hsh_hidden :: bool
  hsh_qr_payload :: string

record hotspot_report =
  hs_active :: bool
  hs_device_path :: "string option"
  hs_device_iface :: "string option"
  hs_ssid :: "string option"
  hs_ssid_hex :: "string option"
  hs_band :: "wifi_band option"
  hs_channel :: "u32 option"
  hs_security :: "hotspot_security option"
  hs_hidden :: bool
  hs_profile_path :: "string option"
  hs_active_connection :: "string option"
  hs_state :: "u32 option"
  hs_state_name :: "string option"
  hs_share :: "hotspot_share option"

definition hotspot_status_default :: hotspot_report where
  "hotspot_status_default = \<lparr>hs_active = False, hs_device_path = None, hs_device_iface = None, hs_ssid = None, hs_ssid_hex = None,
     hs_band = None, hs_channel = None, hs_security = None, hs_hidden = False, hs_profile_path = None, hs_active_connection = None,
     hs_state = None, hs_state_name = None, hs_share = None\<rparr>"

record hotspot_start_result =
  hst_message :: string
  hst_generated_passphrase :: bool
  hst_generated_ssid :: bool
  hst_passphrase :: string
  hst_hotspot :: hotspot_report

definition device_state_name :: "u32 \<Rightarrow> string" where
  "device_state_name v =
     (if v = 10 then ''unmanaged'' else if v = 20 then ''unavailable'' else if v = 30 then ''disconnected''
      else if v = 40 then ''prepare'' else if v = 50 then ''config'' else if v = 60 then ''need-auth''
      else if v = 70 then ''ip-config'' else if v = 80 then ''ip-check'' else if v = 90 then ''secondaries''
      else if v = 100 then ''activated'' else if v = 110 then ''deactivating'' else if v = 120 then ''failed'' else ''unknown'')"

definition active_connection_state_name :: "u32 \<Rightarrow> string" where
  "active_connection_state_name v =
     (if v = 1 then ''activating'' else if v = 2 then ''activated'' else if v = 3 then ''deactivating''
      else if v = 4 then ''deactivated'' else ''unknown'')"

definition wifi_mode_name :: "u32 \<Rightarrow> string" where
  "wifi_mode_name m = (if m = 1 then ''adhoc'' else if m = 2 then ''infrastructure'' else if m = 3 then ''access-point''
     else if m = 4 then ''mesh'' else ''unknown'')"

definition capability_bands :: "u32 \<Rightarrow> wifi_band list" where
  "capability_bands caps =
     (if caps AND 0x200 \<noteq> 0 then [Band2_4] else []) @ (if caps AND 0x400 \<noteq> 0 then [Band5] else [])"

definition hotspot_device_at :: "nm \<Rightarrow> wifi_device \<Rightarrow> hotspot_device io" where
  "hotspot_device_at n d =
     with_proxy n
     (io_bind (io_or 0 (expect reply_u32 (GetProperty (dev_path d) ''State''))) (\<lambda>state.
      io_bind (io_or ''/'' (expect reply_path (GetProperty (dev_path d) ''ActiveConnection''))) (\<lambda>active.
      with_proxy n
      (io_bind (io_or 0 (expect reply_u32 (GetProperty (dev_path d) ''WirelessCapabilities''))) (\<lambda>caps.
       io_bind (io_or 0 (expect reply_u32 (GetProperty (dev_path d) ''Mode''))) (\<lambda>mode.
         io_return \<lparr>hd_path = dev_path d, hd_interface = dev_iface d, hd_ap_capable = (caps AND 0x40 \<noteq> 0),
           hd_in_use = (active \<noteq> ''/''), hd_state = state, hd_state_name = device_state_name state,
           hd_mode = wifi_mode_name mode, hd_bands = capability_bands caps\<rparr>))))))"

definition hotspot_devices :: "nm \<Rightarrow> hotspot_device list io" where
  "hotspot_devices n =
     io_bind (wifi_devices n) (\<lambda>ds. io_fold (\<lambda>d found. io_map (\<lambda>x. found @ [x]) (hotspot_device_at n d)) ds [])"

definition hotspot_profile_status :: "connection_settings \<Rightarrow> hotspot_report" where
  "hotspot_profile_status settings =
     (let wireless = section_of settings ''802-11-wireless'';
          ssid = (case Option.bind (hm_get wireless ''ssid'') (value_list value_u8) of Some b \<Rightarrow> b | None \<Rightarrow> []);
          key = Option.bind (hm_get settings ''802-11-wireless-security'') (\<lambda>d. setting_string d ''key-mgmt'')
      in hotspot_status_default\<lparr>hs_ssid := Some (display_ssid ssid), hs_ssid_hex := Some (ssid_hex ssid),
           hs_band := map_option band_from_nm_value (setting_string wireless ''band''),
           hs_channel := (case setting_u32 wireless ''channel'' of Some c \<Rightarrow> if 0 < c then Some c else None | None \<Rightarrow> None),
           hs_security := (if key = Some ''sae'' then Some HotspotSae else if key = Some ''wpa-psk'' then Some HotspotWpaPsk else None),
           hs_hidden := (case setting_bool wireless ''hidden'' of Some b \<Rightarrow> b | None \<Rightarrow> False)\<rparr>)"

definition WIFI_MODE_AP :: u32 where "WIFI_MODE_AP = 3"

definition hotspot_status_for_device :: "nm \<Rightarrow> hotspot_device \<Rightarrow> hotspot_report option io" where
  "hotspot_status_for_device n d =
     with_proxy n (io_bind (io_or 0 (expect reply_u32 (GetProperty (hd_path d) ''Mode''))) (\<lambda>mode.
       if mode \<noteq> WIFI_MODE_AP then io_return None
       else with_proxy n (io_bind (io_or ''/'' (expect reply_path (GetProperty (hd_path d) ''ActiveConnection''))) (\<lambda>active.
         if active = ''/'' then io_return None
         else with_proxy n (io_bind (io_or 0 (expect reply_u32 (GetProperty active ''State''))) (\<lambda>state.
           io_bind (io_or ''/'' (expect reply_path (GetProperty active ''Connection''))) (\<lambda>profile.
           io_map (\<lambda>settings. Some ((hotspot_profile_status settings)\<lparr>hs_active := True, hs_device_path := Some (hd_path d),
               hs_device_iface := Some (hd_interface d), hs_profile_path := Some profile, hs_active_connection := Some active,
               hs_state := Some state, hs_state_name := Some (active_connection_state_name state)\<rparr>))
             (connection_settings_of n profile))))))))"

fun first_status :: "nm \<Rightarrow> hotspot_device list \<Rightarrow> hotspot_report io" where
  "first_status n [] = io_return hotspot_status_default"
| "first_status n (d # ds) =
     io_bind (hotspot_status_for_device n d) (\<lambda>s. case s of Some s \<Rightarrow> io_return s | None \<Rightarrow> first_status n ds)"

definition hotspot_status :: "nm \<Rightarrow> hotspot_report io" where
  "hotspot_status n = io_bind (hotspot_devices n) (first_status n)"

section \<open>Resolving a request\<close>

definition available_hotspot_device :: "hotspot_device \<Rightarrow> bool" where
  "available_hotspot_device d \<longleftrightarrow> hd_ap_capable d \<and> \<not> hd_in_use d"

definition hotspot_availability ::
    "hotspot_device list \<Rightarrow> bool \<Rightarrow> bool \<Rightarrow> hotspot_unavailable_reason option \<times> string" where
  "hotspot_availability devices wireless_enabled has_preferred =
     (if devices = [] then (Some NoWifiDevice, ''NetworkManager reports no Wi-Fi device'')
      else if \<not> list_ex hd_ap_capable devices then (Some ApModeUnsupported, ''No Wi-Fi device advertises access-point mode'')
      else if \<not> wireless_enabled then (Some WifiDisabled, ''The Wi-Fi radio is turned off'')
      else if \<not> has_preferred then (Some DeviceBusy, ''Every access-point-capable Wi-Fi device is already in use'')
      else (None, ''A Wi-Fi hotspot can be started''))"

record capability_report =
  hc_unsupported_reason :: "hotspot_unavailable_reason option"
  hc_message :: string
  hc_devices :: "hotspot_device list"
  hc_recommended_device :: "string option"

definition hotspot_capabilities :: "nm \<Rightarrow> capability_report io" where
  "hotspot_capabilities n =
     io_bind (hotspot_devices n) (\<lambda>devices.
     io_bind (io_or False (expect reply_bool (GetProperty NM_PATH ''WirelessEnabled''))) (\<lambda>wireless_enabled.
       let recommended = find available_hotspot_device devices;
           availability = hotspot_availability devices wireless_enabled (recommended \<noteq> None)
       in io_return \<lparr>hc_unsupported_reason = fst availability, hc_message = snd availability, hc_devices = devices,
            hc_recommended_device = map_option hd_path recommended\<rparr>))"

definition hotspot_invalid :: "string \<Rightarrow> anyhow_error" where
  "hotspot_invalid message = into_anyhow (validation_error OpHotspotOperation message)"

definition select_hotspot_device :: "hotspot_device list \<Rightarrow> string option \<Rightarrow> anyhow_error + hotspot_device" where
  "select_hotspot_device devices requested =
     (case requested of
        None \<Rightarrow> ok_or (find available_hotspot_device devices)
          (into_anyhow (not_found_error OpHotspotOperation ''no unused access-point-capable Wi-Fi device is available''))
      | Some r \<Rightarrow>
          and_then (ok_or (find (\<lambda>d. hd_path d = r \<or> hd_interface d = r) devices)
            (into_anyhow (with_detail (not_found_error OpHotspotOperation ''requested Wi-Fi device does not exist'') ''device'' (JStr r)))) (\<lambda>d.
            if \<not> hd_ap_capable d
            then Inl (into_anyhow (with_detail (validation_error OpHotspotOperation (hd_interface d @ '' does not support access-point mode''))
                   ''unsupported_reason'' (JStr (unavailable_name ApModeUnsupported))))
            else Inr d))"

fun band_name :: "wifi_band \<Rightarrow> string" where
  "band_name BandAuto = ''auto''"
| "band_name Band2_4 = ''2.4''"
| "band_name Band5 = ''5''"
| "band_name Band6 = ''6''"

definition resolve_band :: "wifi_band \<Rightarrow> hotspot_device \<Rightarrow> anyhow_error + wifi_band" where
  "resolve_band requested d =
     (if requested = BandAuto then Inr BandAuto
      else if requested \<in> set (hd_bands d) then Inr requested
      else Inl (into_anyhow (with_detail (with_detail
             (validation_error OpHotspotOperation (hd_interface d @ '' cannot host a hotspot on the requested band''))
             ''requested_band'' (JStr (band_name requested))) ''available_bands'' (JArr (map (JStr \<circ> band_name) (hd_bands d))))))"

definition validate_passphrase :: "string \<Rightarrow> hotspot_security \<Rightarrow> anyhow_error + unit" where
  "validate_passphrase passphrase security =
     (let minimum = minimum_passphrase_len security; len = chars_count passphrase
      in if len < minimum \<or> 63 < len
         then Inl (invalid_field OpHotspotOperation ''passphrase'' (''hotspot passphrase must be '' @ decimal minimum @ ''-63 characters''))
         else Inr ())"

text \<open>\<open>host\<close> is the trimmed name of the host, when it can be read.\<close>

definition default_hotspot_ssid :: "string option \<Rightarrow> string" where
  "default_hotspot_ssid host =
     (case host of
        Some h \<Rightarrow> if h \<noteq> [] \<and> length h \<le> 24 then h @ ''-hotspot'' else ''nm-daemon-hotspot''
      | None \<Rightarrow> ''nm-daemon-hotspot'')"

definition GENERATED_PASSPHRASE_LEN :: nat where "GENERATED_PASSPHRASE_LEN = 12"

definition chosen_passphrase :: "nat \<Rightarrow> hotspot_request \<Rightarrow> string option io" where
  "chosen_passphrase fuel req =
     (case hr_passphrase req of
        Some p \<Rightarrow> io_bind (io_lift (validate_passphrase p (hr_security req))) (\<lambda>_. io_return (Some p))
      | None \<Rightarrow> io_context ''generate hotspot passphrase'' (random_passphrase fuel GENERATED_PASSPHRASE_LEN))"

definition invalid_ssid :: "anyhow_error \<Rightarrow> anyhow_error" where
  "invalid_ssid e = into_anyhow (with_cause (with_detail (validation_error OpHotspotOperation (outermost e)) ''field'' (JStr ''ssid'')) e)"

definition resolve_hotspot :: "nat \<Rightarrow> string option \<Rightarrow> nm \<Rightarrow> hotspot_request \<Rightarrow> resolved_hotspot option io" where
  "resolve_hotspot fuel host n req =
     io_bind (hotspot_capabilities n) (\<lambda>caps.
       case hc_unsupported_reason caps of
         Some reason \<Rightarrow> io_lift (Inl (into_anyhow (with_detail (validation_error OpHotspotOperation (hc_message caps))
           ''unsupported_reason'' (JStr (unavailable_name reason)))))
       | None \<Rightarrow>
           io_bind (io_lift (select_hotspot_device (hc_devices caps) (hr_device req))) (\<lambda>d.
           let ssid = (case hr_ssid req of Some s \<Rightarrow> s | None \<Rightarrow> default_hotspot_ssid host)
           in io_then (io_map_err invalid_ssid (io_lift (validate_ssid_bytes ssid)))
             (io_bind (chosen_passphrase fuel req) (\<lambda>passphrase.
               case passphrase of
                 None \<Rightarrow> io_return None
               | Some p \<Rightarrow> io_bind (io_lift (resolve_band (hr_band req) d)) (\<lambda>band.
                   io_return (Some \<lparr>rh_ssid = ssid, rh_passphrase = p, rh_generated_passphrase = (hr_passphrase req = None),
                     rh_generated_ssid = (hr_ssid req = None), rh_device = d, rh_band = band, rh_channel = hr_channel req\<rparr>))))))"

section \<open>Starting and stopping\<close>

definition hotspot_connection_section :: "string \<Rightarrow> resolved_hotspot \<Rightarrow> section_data" where
  "hotspot_connection_section uuid r =
     [(''id'', DStr (rh_ssid r)), (''uuid'', DStr uuid), (''type'', DStr ''802-11-wireless''), (''autoconnect'', DBool False),
      (''interface-name'', DStr (hd_interface (rh_device r)))]"

definition hotspot_connection_settings :: "string \<Rightarrow> resolved_hotspot \<Rightarrow> hotspot_request \<Rightarrow> connection_settings" where
  "hotspot_connection_settings uuid r req =
     [(''connection'', hotspot_connection_section uuid r),
      (''802-11-wireless'', insert_optional ''channel'' (map_option DU32 (rh_channel r))
         (insert_optional ''band'' (map_option DStr (band_nm_value (rh_band r)))
           [(''ssid'', DArr (map DU8 (rh_ssid r))), (''mode'', DStr ''ap''), (''hidden'', DBool (hr_hidden req))])),
      (''802-11-wireless-security'',
         [(''key-mgmt'', DStr (key_management (hr_security req))), (''psk'', DStr (rh_passphrase r)), (''proto'', DArr [DStr ''rsn'']),
          (''pairwise'', DArr [DStr ''ccmp'']), (''group'', DArr [DStr ''ccmp''])]),
      (''ipv4'', [(''method'', DStr ''shared'')]), (''ipv6'', [(''method'', DStr ''ignore'')])]"

definition poll_cancelled :: "bool \<Rightarrow> error_operation \<Rightarrow> string \<Rightarrow> unit io" where
  "poll_cancelled cancellable op message =
     (if cancellable
      then io_bind (expect reply_bool (LocalRead ''cancelled'')) (\<lambda>c. io_lift (check_cancellation (Some c) op message))
      else io_return ())"

definition add_and_activate_hotspot :: "(string \<Rightarrow> bool) \<Rightarrow> resolved_hotspot \<Rightarrow> connection_settings \<Rightarrow> (string \<times> string) io" where
  "add_and_activate_hotspot object_path_ok r settings =
     io_bind (io_context ''parse hotspot device path'' (io_lift (object_path_parse object_path_ok (hd_path (rh_device r))))) (\<lambda>device.
       io_context (''AddAndActivateConnection2 for hotspot '' @ rh_ssid r)
         (expect reply_activation (AddAndActivateConnection2 settings device ''/'' volatile_options)))"

definition HOTSPOT_TIMEOUT :: nat where "HOTSPOT_TIMEOUT = 20000"

fun hotspot_wait :: "nat \<Rightarrow> nm \<Rightarrow> bool \<Rightarrow> string \<Rightarrow> nat \<Rightarrow> unit option io" where
  "hotspot_wait 0 n cancellable active deadline = io_return None"
| "hotspot_wait (Suc fuel) n cancellable active deadline =
     io_then (poll_cancelled cancellable OpHotspotOperation ''hotspot start was cancelled'')
       (io_bind (io_or 0 (with_proxy n (expect reply_u32 (GetProperty active ''State'')))) (\<lambda>state.
         if state = 2 then io_return (Some ())
         else if 3 \<le> state
         then io_lift (Inl (into_anyhow (domain_error_new ActivationFailed OpHotspotOperation SrcNetworkManager
                ''NetworkManager deactivated the hotspot during activation'')))
         else io_bind clock (\<lambda>now.
           if deadline \<le> now
           then io_lift (Inl (into_anyhow (timeout_error OpHotspotOperation ''timed out waiting for the hotspot to activate'')))
           else io_then io_sleep (hotspot_wait fuel n cancellable active deadline))))"

definition await_hotspot_activation :: "nat \<Rightarrow> nm \<Rightarrow> bool \<Rightarrow> string \<Rightarrow> unit option io" where
  "await_hotspot_activation fuel n cancellable active =
     io_bind clock (\<lambda>now. hotspot_wait fuel n cancellable active (now + HOTSPOT_TIMEOUT))"

definition started_hotspot_result :: "hotspot_request \<Rightarrow> resolved_hotspot \<Rightarrow> string \<Rightarrow> string \<Rightarrow> hotspot_start_result" where
  "started_hotspot_result req r profile active =
     \<lparr>hst_message = ''Hotspot '' @ rh_ssid r @ '' is running'', hst_generated_passphrase = rh_generated_passphrase r,
      hst_generated_ssid = rh_generated_ssid r, hst_passphrase = rh_passphrase r,
      hst_hotspot = hotspot_status_default\<lparr>hs_active := True, hs_device_path := Some (hd_path (rh_device r)),
        hs_device_iface := Some (hd_interface (rh_device r)), hs_ssid := Some (rh_ssid r), hs_ssid_hex := Some (ssid_hex (rh_ssid r)),
        hs_band := Some (rh_band r), hs_channel := rh_channel r, hs_security := Some (hr_security req), hs_hidden := hr_hidden req,
        hs_profile_path := Some profile, hs_active_connection := Some active, hs_state := Some 2, hs_state_name := Some ''activated'',
        hs_share := Some \<lparr>hsh_ssid = rh_ssid r, hsh_auth_type = qr_auth_type (hr_security req), hsh_hidden = hr_hidden req,
          hsh_qr_payload = wifi_qr_payload (qr_auth_type (hr_security req)) (rh_ssid r) (Some (rh_passphrase r)) (hr_hidden req)\<rparr>\<rparr>\<rparr>"

definition remove_hotspot_profile :: "nm \<Rightarrow> string \<Rightarrow> unit io" where
  "remove_hotspot_profile n profile =
     (if profile = ''/'' then io_return () else io_map (\<lambda>_. ()) (io_try (delete_connection n profile)))"

definition roll_back_hotspot :: "nm \<Rightarrow> string \<Rightarrow> string \<Rightarrow> unit io" where
  "roll_back_hotspot n profile active =
     io_bind (io_try (io_ask (DeactivateConnection active))) (\<lambda>_. remove_hotspot_profile n profile)"

definition finish_hotspot ::
    "nat \<Rightarrow> nm \<Rightarrow> bool \<Rightarrow> hotspot_request \<Rightarrow> resolved_hotspot \<Rightarrow> string \<times> string \<Rightarrow> hotspot_start_result option io" where
  "finish_hotspot fuel n cancellable req r paths =
     (case paths of (profile, active) \<Rightarrow>
        io_bind (io_try (await_hotspot_activation fuel n cancellable active)) (\<lambda>outcome.
          case outcome of
            Inr None \<Rightarrow> io_return None
          | Inr (Some _) \<Rightarrow> io_return (Some (started_hotspot_result req r profile active))
          | Inl e \<Rightarrow> io_then (roll_back_hotspot n profile active) (io_lift (Inl e))))"

definition start_hotspot ::
    "nat \<Rightarrow> (string \<Rightarrow> bool) \<Rightarrow> string option \<Rightarrow> nm \<Rightarrow> bool \<Rightarrow> hotspot_request \<Rightarrow> hotspot_start_result option io" where
  "start_hotspot fuel object_path_ok host n cancellable req =
     io_bind (hotspot_status n) (\<lambda>status.
       case hs_ssid status of
         Some ssid \<Rightarrow> io_lift (Inl (hotspot_invalid (''a hotspot is already running for '' @ ssid)))
       | None \<Rightarrow>
           io_bind (resolve_hotspot fuel host n req) (\<lambda>resolved.
             case resolved of
               None \<Rightarrow> io_return None
             | Some r \<Rightarrow>
                 io_then (poll_cancelled cancellable OpHotspotOperation ''hotspot start was cancelled'')
                   (io_bind (io_context ''generate hotspot profile uuid'' random_uuid_v4) (\<lambda>uuid.
                    io_bind (add_and_activate_hotspot object_path_ok r (hotspot_connection_settings uuid r req))
                      (finish_hotspot fuel n cancellable req r)))))"

record hotspot_stop_result =
  hsp_status :: string
  hsp_message :: string
  hsp_ssid :: "string option"
  hsp_device_iface :: "string option"

definition stop_hotspot :: "(string \<Rightarrow> bool) \<Rightarrow> nm \<Rightarrow> hotspot_stop_result io" where
  "stop_hotspot object_path_ok n =
     io_bind (hotspot_status n) (\<lambda>status.
       case (hs_active_connection status, hs_ssid status) of
         (Some active, Some ssid) \<Rightarrow>
           io_bind (io_context ''parse hotspot path'' (io_lift (object_path_parse object_path_ok active))) (\<lambda>active.
             io_then (io_context ''DeactivateConnection for hotspot'' (io_map (\<lambda>_. ()) (io_ask (DeactivateConnection active))))
               (io_then (case hs_profile_path status of
                           Some p \<Rightarrow> if object_path_ok p then remove_hotspot_profile n p else io_return ()
                         | None \<Rightarrow> io_return ())
                 (io_return \<lparr>hsp_status = ''stopped'', hsp_message = ''Hotspot '' @ ssid @ '' stopped'', hsp_ssid = Some ssid,
                    hsp_device_iface = hs_device_iface status\<rparr>)))
       | _ \<Rightarrow> io_return \<lparr>hsp_status = ''noop'', hsp_message = ''No hotspot is running'', hsp_ssid = None, hsp_device_iface = None\<rparr>)"

section \<open>The request's worker\<close>

record hotspot_start_params =
  hp_ssid :: "string option"
  hp_passphrase :: "string option"
  hp_security :: "hotspot_security option"
  hp_band :: "wifi_band option"
  hp_channel :: "u32 option"
  hp_hidden :: bool
  hp_device :: "string option"

definition hotspot_request_from :: "hotspot_start_params \<Rightarrow> hotspot_request" where
  "hotspot_request_from p =
     \<lparr>hr_ssid = nonempty (hp_ssid p), hr_passphrase = nonempty (hp_passphrase p),
      hr_security = (case hp_security p of Some s \<Rightarrow> s | None \<Rightarrow> HotspotWpaPsk),
      hr_band = (case hp_band p of Some b \<Rightarrow> b | None \<Rightarrow> BandAuto), hr_channel = positive (hp_channel p),
      hr_hidden = hp_hidden p, hr_device = nonempty (hp_device p)\<rparr>"

datatype hotspot_event =
    HotspotCancelled
  | HotspotSucceeded hotspot_start_result
  | HotspotFailed anyhow_error

text \<open>A success that arrives after the cancellation is taken back.\<close>

definition run_hotspot_worker ::
    "nat \<Rightarrow> (string \<Rightarrow> bool) \<Rightarrow> string option \<Rightarrow> nm \<Rightarrow> hotspot_request \<Rightarrow> hotspot_event option io" where
  "run_hotspot_worker fuel object_path_ok host n req =
     io_bind (io_try (io_bind (io_map_err (ensure_domain OpHotspotOperation) (start_hotspot fuel object_path_ok host n True req)) (\<lambda>result.
         case result of None \<Rightarrow> io_return None | Some r \<Rightarrow> io_then (ensure_current_owner n) (io_return (Some r))))) (\<lambda>outcome.
       case outcome of
         Inr None \<Rightarrow> io_return None
       | Inr (Some result) \<Rightarrow>
           io_bind (expect reply_bool (LocalRead ''cancelled'')) (\<lambda>cancelled.
             if cancelled then io_bind (io_try (stop_hotspot object_path_ok n)) (\<lambda>_. io_return (Some HotspotCancelled))
             else io_return (Some (HotspotSucceeded result)))
       | Inl e \<Rightarrow> io_return (Some (HotspotFailed e)))"

section \<open>Generated passphrases\<close>

lemma alphabet: "length PASSPHRASE_ALPHABET = 33" "distinct PASSPHRASE_ALPHABET" "list_all (\<lambda>c. byte_val c < 128) PASSPHRASE_ALPHABET"
  by (simp_all add: PASSPHRASE_ALPHABET_def byte_val_def)

lemma residues: "i < 33 \<Longrightarrow> card {b. b < (231 :: nat) \<and> b mod 33 = i} = 7"
proof -
  assume i: "i < 33"
  have "b \<in> (\<lambda>k. 33 * k + i) ` {0..<7}" if "b < 231" "b mod 33 = i" for b
    using that by (intro image_eqI [of _ _ "b div 33"]) (auto simp: mult.commute)
  moreover have "33 * k + i < 231 \<and> (33 * k + i) mod 33 = i" if "k < 7" for k using i that by simp
  ultimately have "{b. b < (231 :: nat) \<and> b mod 33 = i} = (\<lambda>k. 33 * k + i) ` {0..<7}" by auto
  then show ?thesis by (simp add: card_image inj_on_def)
qed

lemma card_bytes: "card {b. P (byte_val b)} = card {n. n < 256 \<and> P n}"
proof -
  have "byte_val ` {b. P (byte_val b)} = {n. n < 256 \<and> P n}"
  proof (intro equalityI subsetI)
    fix n assume n: "n \<in> {n. n < 256 \<and> P n}"
    then have "byte_val (char_of n) = n" by (simp add: byte_val_def)
    with n show "n \<in> byte_val ` {b. P (byte_val b)}" by (intro image_eqI [of _ _ "char_of n"]) auto
  qed (auto simp: byte_val_def)
  moreover have "inj_on byte_val {b. P (byte_val b)}" by (rule inj_onI) (simp add: byte_val_def)
  ultimately show ?thesis using card_image by fastforce
qed

lemma passphrase_character_iff:
  "passphrase_character b = Some c \<longleftrightarrow> byte_val b < 231 \<and> PASSPHRASE_ALPHABET ! (byte_val b mod 33) = c"
  "passphrase_character b = None \<longleftrightarrow> 231 \<le> byte_val b"
  by (auto simp: passphrase_character_def alphabet Let_def)

text \<open>
  Generated passphrases are unbiased: every character of the alphabet is chosen by exactly seven of the
  bytes that are not rejected, and only the 25 remaining bytes are rejected.
\<close>

theorem passphrase_unbiased:
  "(\<forall>c. card {b. passphrase_character b = Some c} = (if c \<in> set PASSPHRASE_ALPHABET then 7 else 0))
   \<and> card {b. passphrase_character b = None} = 25"
proof (intro conjI allI)
  fix c
  show "card {b. passphrase_character b = Some c} = (if c \<in> set PASSPHRASE_ALPHABET then 7 else 0)"
  proof (cases "c \<in> set PASSPHRASE_ALPHABET")
    case True
    then obtain i where i: "i < 33" "PASSPHRASE_ALPHABET ! i = c" by (auto simp: in_set_conv_nth alphabet)
    have "PASSPHRASE_ALPHABET ! (m mod 33) = c \<longleftrightarrow> m mod 33 = i" for m
      using i nth_eq_iff_index_eq [OF alphabet(2)] by (auto simp: alphabet)
    then have "card {b. passphrase_character b = Some c} = card {n. n < 256 \<and> n < 231 \<and> n mod 33 = i}"
      unfolding passphrase_character_iff using card_bytes [of "\<lambda>n. n < 231 \<and> n mod 33 = i"] by simp
    moreover have "{n. n < (256 :: nat) \<and> n < 231 \<and> n mod 33 = i} = {n. n < 231 \<and> n mod 33 = i}" by auto
    ultimately show ?thesis using True residues [OF i(1)] by simp
  next
    case False
    then have "{b. passphrase_character b = Some c} = {}" by (auto simp: passphrase_character_iff alphabet)
    with False show ?thesis by simp
  qed
next
  have "{n. n < (256 :: nat) \<and> 231 \<le> n} = {231..<256}" by auto
  then show "card {b. passphrase_character b = None} = 25"
    unfolding passphrase_character_iff using card_bytes [of "\<lambda>n. 231 \<le> n"] by simp
qed

text \<open>A generated passphrase has the length asked for and is made of the alphabet.\<close>

lemma passphrase_loop_ok:
  "passphrase_loop fuel len acc E h = (h', Inr (Some p)) \<Longrightarrow> length acc \<le> len \<Longrightarrow> set acc \<subseteq> set PASSPHRASE_ALPHABET \<Longrightarrow>
     length p = len \<and> set p \<subseteq> set PASSPHRASE_ALPHABET"
proof (induction fuel arbitrary: acc h)
  case (Suc fuel)
  show ?case
  proof (cases "length acc < len")
    case True
    with Suc.prems(1) obtain h1 bs where bs:
      "passphrase_loop fuel len (acc @ take (len - length acc) (List.map_filter passphrase_character bs)) E h1 = (h', Inr (Some p))"
      by (auto simp: io_ok)
    have "set (List.map_filter passphrase_character bs) \<subseteq> set PASSPHRASE_ALPHABET"
      by (auto simp: List.map_filter_def passphrase_character_def alphabet Let_def)
    then have "set (take k (List.map_filter passphrase_character bs)) \<subseteq> set PASSPHRASE_ALPHABET" for k
      by (meson set_take_subset subset_trans)
    with Suc.IH [OF bs] Suc.prems(2,3) True show ?thesis by simp
  next
    case False
    with Suc.prems show ?thesis by simp
  qed
qed simp

lemma ascii_chars_count: "list_all (\<lambda>c. byte_val c < 128) s \<Longrightarrow> chars_count s = length s"
  by (induction s) (auto simp: chars_count_def is_continuation_def)

lemma chosen_valid:
  assumes "chosen_passphrase fuel req E h = (h', Inr (Some p))"
  shows "8 \<le> chars_count p \<and> chars_count p \<le> 63 \<and> (\<forall>q. hr_passphrase req = Some q \<longrightarrow> p = q)"
proof (cases "hr_passphrase req")
  case None
  with assms have "passphrase_loop fuel 12 [] E h = (h', Inr (Some p))"
    by (simp add: chosen_passphrase_def context_run random_passphrase_def GENERATED_PASSPHRASE_LEN_def)
  from passphrase_loop_ok [OF this] have "length p = 12" "set p \<subseteq> set PASSPHRASE_ALPHABET" by simp_all
  with alphabet(3) have "chars_count p = 12" by (subst ascii_chars_count) (auto simp: list_all_iff)
  with None show ?thesis by simp
next
  case (Some q)
  with assms show ?thesis
    by (auto simp: chosen_passphrase_def io_ok validate_passphrase_def minimum_passphrase_len_def Let_def split: if_splits)
qed

section \<open>What a start changes\<close>

lemma quiet_status: "asks looking (hotspot_devices n)" "asks looking (hotspot_status n)"
proof -
  show d: "asks looking (hotspot_devices n)"
    unfolding hotspot_devices_def hotspot_device_at_def by (intro asks_rules look.reads; simp)
  have s: "asks looking (hotspot_status_for_device n x)" for x
    unfolding hotspot_status_for_device_def by (intro asks_rules look.reads; simp)
  have "asks looking (first_status n ds)" for ds
    by (induction ds; unfold first_status.simps; intro asks_rules s; assumption)
  with d show "asks looking (hotspot_status n)" unfolding hotspot_status_def by (intro asks_rules)
qed

lemma quiet_random: "asks looking (random_bytes k)" "asks looking (passphrase_loop fuel len acc)" "asks looking random_uuid_v4"
proof -
  show r: "asks looking (random_bytes k)" for k unfolding random_bytes_def by (intro asks_rules; simp)
  show "asks looking (passphrase_loop fuel len acc)"
    by (induction fuel arbitrary: acc; unfold passphrase_loop.simps; intro asks_rules r; assumption?)
  show "asks looking random_uuid_v4" unfolding random_uuid_v4_def by (intro asks_rules r)
qed

lemma quiet_chosen: "asks looking (chosen_passphrase fuel req)"
  unfolding chosen_passphrase_def random_passphrase_def by (intro asks_rules quiet_random)

lemma quiet_resolve: "asks looking (resolve_hotspot fuel host n req)"
  unfolding resolve_hotspot_def hotspot_capabilities_def Let_def by (intro asks_rules quiet_status quiet_chosen; simp)

lemma quiet_cancel: "asks looking (poll_cancelled b op msg)"
  unfolding poll_cancelled_def by (intro asks_rules; simp)

lemma quiet_wait: "asks looking (hotspot_wait fuel n b a d)"
proof (induction fuel)
  case 0
  show ?case unfolding hotspot_wait.simps by (intro asks_rules)
next
  case (Suc fuel)
  then show ?case unfolding hotspot_wait.simps clock_def io_sleep_def by (intro asks_rules quiet_cancel; simp)
qed

lemma quiet_await: "asks looking (await_hotspot_activation fuel n b a)"
  unfolding await_hotspot_activation_def clock_def by (intro asks_rules quiet_wait; simp)

lemma io_or_other: "io_or d m E h = (h', Inr x) \<Longrightarrow> x \<noteq> d \<Longrightarrow> m E h = (h', Inr x)"
  by (cases "m E h"; cases "snd (m E h)") (auto simp: io_or_def io_map_run io_try_run)

text \<open>A success of the wait is a reading of the activated state, the last one.\<close>

lemma wait_activated:
  "hotspot_wait fuel n b a d E h = (h', Inr (Some ())) \<Longrightarrow>
     \<exists>hs. h' = GetProperty a ''State'' # hs \<and> E hs (GetProperty a ''State'') = Inr (RU32 2)"
proof (induction fuel arbitrary: h)
  case (Suc fuel)
  from Suc.prems obtain h1 state where s: "io_or 0 (with_proxy n (expect reply_u32 (GetProperty a ''State''))) E h1 = (h', Inr state) \<and> state = 2
      \<or> (\<exists>h2. hotspot_wait fuel n b a d E h2 = (h', Inr (Some ())))"
    by (auto simp: io_ok split: if_splits)
  then show ?case
  proof
    assume "io_or 0 (with_proxy n (expect reply_u32 (GetProperty a ''State''))) E h1 = (h', Inr state) \<and> state = 2"
    then have "with_proxy n (expect reply_u32 (GetProperty a ''State'')) E h1 = (h', Inr 2)"
      by (auto intro: io_or_other)
    then show ?thesis by (auto simp: with_proxy_def io_ok reply_conv)
  qed (use Suc.IH in blast)
qed simp

lemma await_activated:
  "await_hotspot_activation fuel n b a E h = (h', Inr (Some ())) \<Longrightarrow>
     \<exists>hs. h' = GetProperty a ''State'' # hs \<and> E hs (GetProperty a ''State'') = Inr (RU32 2)"
  unfolding await_hotspot_activation_def by (auto simp: io_bind_ok dest: wait_activated)

text \<open>The wait ends: each of its pauses takes time on the clock.\<close>

lemma hotspot_wait_ends:
  assumes law: "clock_law E" and t0: "E h0 (LocalRead ''clock'') = Inr (RTime t0)"
  shows "h = cs @ h0 \<Longrightarrow> 200 < fuel + waits cs \<Longrightarrow> 0 < fuel \<Longrightarrow>
    snd (hotspot_wait fuel n b a (t0 + 20000) E h) \<noteq> Inr None"
proof (induction fuel arbitrary: h cs)
  case (Suc fuel)
  show ?case
  proof
    assume none: "snd (hotspot_wait (Suc fuel) n b a (t0 + 20000) E h) = Inr None"
    obtain h' where run: "hotspot_wait (Suc fuel) n b a (t0 + 20000) E h = (h', Inr None)"
      using none by (metis prod.collapse)
    then obtain h1 h2 state now where c: "poll_cancelled b OpHotspotOperation ''hotspot start was cancelled'' E h = (h1, Inr ())"
      and s: "io_or 0 (with_proxy n (expect reply_u32 (GetProperty a ''State''))) E h1 = (h2, Inr state)"
      and t: "E h2 (LocalRead ''clock'') = Inr (RTime now)" "now < t0 + 20000"
      and w: "hotspot_wait fuel n b a (t0 + 20000) E (Wait # LocalRead ''clock'' # h2) = (h', Inr None)"
      by (auto simp: io_ok clock_def io_sleep_def reply_conv split: if_splits)
    from asks_run [OF quiet_cancel c] obtain c1 where h1: "h1 = c1 @ h" by blast
    have "asks looking (io_or 0 (with_proxy n (expect reply_u32 (GetProperty a ''State''))))" by (intro asks_rules; simp)
    from asks_run [OF this s] obtain c2 where h2: "h2 = c2 @ h1" by blast
    let ?ds = "c2 @ c1 @ cs"
    have "t0 + 100 * waits ?ds \<le> now"
      using law [unfolded clock_law_def, rule_format, of h0 t0 ?ds now] t0 t(1) h1 h2 Suc.prems(1) by simp
    with t(2) have "waits ?ds < 200" by simp
    moreover have "waits cs \<le> waits ?ds" by simp
    ultimately have "snd (hotspot_wait fuel n b a (t0 + 20000) E (Wait # LocalRead ''clock'' # h2)) \<noteq> Inr None"
      by (intro Suc.IH [of _ "[Wait, LocalRead ''clock''] @ ?ds"]) (use h1 h2 Suc.prems(1,2) in auto)
    with w show False by simp
  qed
qed simp

lemma hotspot_await_ends:
  assumes "clock_law E" and "201 \<le> fuel"
  shows "snd (await_hotspot_activation fuel n b a E h) \<noteq> Inr None"
proof
  assume none: "snd (await_hotspot_activation fuel n b a E h) = Inr None"
  obtain h' where "await_hotspot_activation fuel n b a E h = (h', Inr None)" using none by (metis prod.collapse)
  then obtain t0 where t0: "E h (LocalRead ''clock'') = Inr (RTime t0)"
    and w: "hotspot_wait fuel n b a (t0 + 20000) E (LocalRead ''clock'' # h) = (h', Inr None)"
    unfolding await_hotspot_activation_def clock_def HOTSPOT_TIMEOUT_def by (auto simp: io_ok reply_conv)
  have "snd (hotspot_wait fuel n b a (t0 + 20000) E (LocalRead ''clock'' # h)) \<noteq> Inr None"
    by (rule hotspot_wait_ends [OF assms(1) t0, of _ "[LocalRead ''clock'']"]) (use assms(2) in simp_all)
  with w show False by simp
qed

text \<open>Taking a start back: NetworkManager is asked to end the activation and to delete the profile, unless its owner is not confirmed.\<close>

definition taken_back :: "nm_env \<Rightarrow> nm \<Rightarrow> string \<Rightarrow> string \<Rightarrow> nm_history \<Rightarrow> nm_history \<Rightarrow> bool" where
  "taken_back E n profile active h h' \<longleftrightarrow>
     changed h' = Delete profile # DeactivateConnection active # changed h
     \<or> (changed h' = DeactivateConnection active # changed h
        \<and> (profile = ''/'' \<or> (\<exists>e. ensure_current_owner n E (DeactivateConnection active # h) = (h', Inl e))))"

lemma quiet_owner: "asks looking (ensure_current_owner n)"
  by (intro asks_rules; simp)

lemma roll_back_run:
  assumes "roll_back_hotspot n profile active E h = (h', r)"
  shows "r = Inr () \<and> taken_back E n profile active h h'"
proof (cases "profile = ''/''")
  case True
  with assms show ?thesis by (auto simp: roll_back_hotspot_def remove_hotspot_profile_def io_bind_def io_try_def taken_back_def)
next
  case False
  obtain h1 c where c: "ensure_current_owner n E (DeactivateConnection active # h) = (h1, c)" by fastforce
  have n1: "changed h1 = DeactivateConnection active # changed h" using passive_run [OF quiet_owner c] by simp
  show ?thesis
  proof (cases c)
    case (Inl e)
    with assms False c n1 show ?thesis
      by (auto simp: roll_back_hotspot_def remove_hotspot_profile_def io_bind_def io_try_def delete_connection_def with_proxy_def
          io_then_def io_map_def taken_back_def)
  next
    case (Inr u)
    with assms False c n1 show ?thesis
      by (auto simp: roll_back_hotspot_def remove_hotspot_profile_def io_bind_def io_try_def delete_connection_def with_proxy_def
          io_then_def io_map_def io_context_def io_map_err_def taken_back_def split: sum.splits)
  qed
qed

lemma finish_run:
  assumes "finish_hotspot fuel n b req r0 (profile, active) E h = (h', r)"
  shows "(r = Inr None \<and> changed h' = changed h \<and> \<not> (clock_law E \<and> 201 \<le> fuel))
    \<or> (r = Inr (Some (started_hotspot_result req r0 profile active)) \<and> changed h' = changed h
        \<and> (\<exists>hs. h' = GetProperty active ''State'' # hs \<and> E hs (GetProperty active ''State'') = Inr (RU32 2)))
    \<or> (\<exists>e h1. r = Inl e \<and> changed h1 = changed h \<and> taken_back E n profile active h1 h')"
proof -
  obtain h1 w where w: "await_hotspot_activation fuel n b active E h = (h1, w)" by fastforce
  have n1: "changed h1 = changed h" by (rule passive_run [OF quiet_await w])
  consider (error) e where "w = Inl e" | (fuel) "w = Inr None" | (up) "w = Inr (Some ())" by (metis obj_sumE option.exhaust old.unit.exhaust)
  then show ?thesis
  proof cases
    case error
    obtain h2 x where x: "roll_back_hotspot n profile active E h1 = (h2, x)" by fastforce
    from roll_back_run [OF x] have "x = Inr ()" "taken_back E n profile active h1 h2" by simp_all
    with assms w error x n1 show ?thesis by (auto simp: finish_hotspot_def io_bind_def io_try_def io_then_def)
  next
    case fuel
    have "\<not> (clock_law E \<and> 201 \<le> fuel)" using hotspot_await_ends [of E fuel n b active h] w fuel by auto
    with assms w n1 fuel show ?thesis by (auto simp: finish_hotspot_def io_bind_def io_try_def)
  next
    case up
    with assms w n1 await_activated [OF w [unfolded up]] show ?thesis by (auto simp: finish_hotspot_def io_bind_def io_try_def)
  qed
qed

text \<open>The profile of a hotspot never connects by itself and has a passphrase a client can use.\<close>

definition hotspot_policy :: "connection_settings \<Rightarrow> string \<Rightarrow> bool" where
  "hotspot_policy settings passphrase \<longleftrightarrow>
     hm_get (section_of settings ''connection'') ''autoconnect'' = Some (DBool False)
     \<and> hm_get (section_of settings ''802-11-wireless-security'') ''psk'' = Some (DStr passphrase)
     \<and> 8 \<le> chars_count passphrase \<and> chars_count passphrase \<le> 63
     \<and> (\<exists>ssid. hm_get (section_of settings ''802-11-wireless'') ''ssid'' = Some (DArr (map DU8 ssid)) \<and> 1 \<le> length ssid \<and> length ssid \<le> 32)"

lemma resolved_ok:
  assumes "resolve_hotspot fuel host n req E h = (h', Inr (Some r))"
  shows "8 \<le> chars_count (rh_passphrase r) \<and> chars_count (rh_passphrase r) \<le> 63 \<and> 1 \<le> length (rh_ssid r) \<and> length (rh_ssid r) \<le> 32"
proof -
  from assms obtain h1 h2 ssid p where p: "chosen_passphrase fuel req E h1 = (h2, Inr (Some p))" "rh_passphrase r = p"
    and s: "validate_ssid_bytes ssid = Inr ()" "rh_ssid r = ssid"
    unfolding resolve_hotspot_def Let_def by (auto simp: io_ok split: option.splits if_splits)
  have "1 \<le> length ssid \<and> length ssid \<le> 32"
    using s(1) by (cases ssid) (auto simp: validate_ssid_bytes_def split: if_splits)
  with chosen_valid [OF p(1)] p(2) s(2) show ?thesis by simp
qed

lemma hotspot_settings_policy:
  assumes "8 \<le> chars_count (rh_passphrase r) \<and> chars_count (rh_passphrase r) \<le> 63 \<and> 1 \<le> length (rh_ssid r) \<and> length (rh_ssid r) \<le> 32"
  shows "hotspot_policy (hotspot_connection_settings uuid r req) (rh_passphrase r)"
  using assms by (auto simp: hotspot_policy_def hotspot_connection_settings_def hotspot_connection_section_def section_of_def
      insert_optional_at first_some_def)

text \<open>What is known after the profile was handed to NetworkManager.\<close>

definition hotspot_settled ::
    "nat \<Rightarrow> nm_env \<Rightarrow> nm \<Rightarrow> nm_call list \<Rightarrow> string \<Rightarrow> string \<Rightarrow> string \<Rightarrow> nm_history \<Rightarrow> anyhow_error + hotspot_start_result option \<Rightarrow> bool" where
  "hotspot_settled fuel E n calls p profile active h' r \<longleftrightarrow>
     (r = Inr None \<and> changed h' = calls \<and> \<not> (clock_law E \<and> 201 \<le> fuel))
     \<or> (\<exists>x. r = Inr (Some x) \<and> hst_passphrase x = p \<and> changed h' = calls
          \<and> (\<exists>g. h' = GetProperty active ''State'' # g \<and> E g (GetProperty active ''State'') = Inr (RU32 2)))
     \<or> (\<exists>e h1. r = Inl e \<and> changed h1 = calls \<and> taken_back E n profile active h1 h')"

definition hotspot_outcome ::
    "nat \<Rightarrow> nm_env \<Rightarrow> nm \<Rightarrow> nm_history \<Rightarrow> nm_history \<Rightarrow> anyhow_error + hotspot_start_result option \<Rightarrow> bool" where
  "hotspot_outcome fuel E n h h' r \<longleftrightarrow>
     (\<exists>settings device p hs call. call = AddAndActivateConnection2 settings device ''/'' volatile_options
        \<and> hotspot_policy settings p \<and> changed hs = changed h
        \<and> ((h' = call # hs \<and> (\<exists>e. r = Inl e))
           \<or> (\<exists>profile active. E hs call = Inr (RActivation profile active)
                \<and> hotspot_settled fuel E n (call # changed h) p profile active h' r)))"

lemma submit_outcome:
  assumes run: "io_bind (add_and_activate_hotspot okp r0 settings) (finish_hotspot fuel n b req r0) E h = (h', r)"
    and p: "hotspot_policy settings (rh_passphrase r0)"
  shows "hotspot_outcome fuel E n h h' r \<or> (h' = h \<and> (\<exists>e. r = Inl e))"
proof (cases "okp (hd_path (rh_device r0))")
  case False
  with run show ?thesis
    by (auto simp: add_and_activate_hotspot_def io_bind_def io_context_def io_map_err_def object_path_parse_def)
next
  case True
  let ?call = "AddAndActivateConnection2 settings (hd_path (rh_device r0)) ''/'' volatile_options"
  have add: "add_and_activate_hotspot okp r0 settings E h =
      (?call # h, map_sum (\<lambda>e. LContext (''AddAndActivateConnection2 for hotspot '' @ rh_ssid r0) # e) id
         (and_then (E h ?call) (\<lambda>r. ok_or (reply_activation r) incorrect_type)))"
    using True by (simp add: add_and_activate_hotspot_def io_bind_def io_context_def io_map_err_def object_path_parse_def expect_run)
  show ?thesis
  proof (cases "\<exists>profile active. E h ?call = Inr (RActivation profile active)")
    case True
    then obtain profile active where a: "E h ?call = Inr (RActivation profile active)" by blast
    then have "add_and_activate_hotspot okp r0 settings E h = (?call # h, Inr (profile, active))"
      unfolding add by (simp add: and_then_def ok_or_def)
    with run have "finish_hotspot fuel n b req r0 (profile, active) E (?call # h) = (h', r)" by (simp add: io_bind_def)
    from finish_run [OF this] have "hotspot_settled fuel E n (?call # changed h) (rh_passphrase r0) profile active h' r"
      unfolding hotspot_settled_def by (auto simp: started_hotspot_result_def)
    with a p have "hotspot_outcome fuel E n h h' r" unfolding hotspot_outcome_def by blast
    then show ?thesis ..
  next
    case False
    have "\<exists>e. and_then (E h ?call) (\<lambda>r. ok_or (reply_activation r) incorrect_type) = Inl e"
      using False reply_conv(8) by (cases "E h ?call") (auto simp: and_then_def ok_or_def split: option.splits)
    with run add have "h' = ?call # h \<and> (\<exists>e. r = Inl e)" by (auto simp: io_bind_def)
    with p have "hotspot_outcome fuel E n h h' r" unfolding hotspot_outcome_def by blast
    then show ?thesis ..
  qed
qed

lemma resolved_start:
  assumes run: "io_then (poll_cancelled cancellable OpHotspotOperation ''hotspot start was cancelled'')
      (io_bind (io_context ''generate hotspot profile uuid'' random_uuid_v4) (\<lambda>uuid.
         io_bind (add_and_activate_hotspot okp r0 (hotspot_connection_settings uuid r0 req)) (finish_hotspot fuel n cancellable req r0)))
      E h = (h', r)"
    and rs: "resolve_hotspot fuel host n req E g = (h, Inr (Some r0))"
  shows "hotspot_outcome fuel E n h h' r \<or> (changed h' = changed h \<and> (\<exists>e. r = Inl e))"
proof -
  let ?m = "io_then (poll_cancelled cancellable OpHotspotOperation ''hotspot start was cancelled'')
    (io_context ''generate hotspot profile uuid'' random_uuid_v4)"
  obtain h3 u where u: "?m E h = (h3, u)" by fastforce
  have "asks looking ?m" by (intro asks_rules quiet_cancel quiet_random)
  from passive_run [OF this u] have n3: "changed h3 = changed h" .
  show ?thesis
  proof (cases u)
    case (Inl e)
    with run [folded io_bind_then] u n3 show ?thesis by (auto simp: io_bind_def)
  next
    case (Inr uuid)
    with run [folded io_bind_then] u have "io_bind (add_and_activate_hotspot okp r0 (hotspot_connection_settings uuid r0 req))
      (finish_hotspot fuel n cancellable req r0) E h3 = (h', r)" by (simp add: io_bind_def [of ?m])
    from submit_outcome [OF this hotspot_settings_policy [OF resolved_ok [OF rs]]] n3
    show ?thesis unfolding hotspot_outcome_def by auto
  qed
qed

text \<open>
  C20. A hotspot that does not start is taken back. A start changes nothing and reports no hotspot, or it
  submits one volatile profile that never connects by itself, with a name of 1 to 32 bytes and a passphrase of
  8 to 63 characters. When NetworkManager took the profile and the start then fails or is cancelled, it has
  asked NetworkManager to end the activation and to delete the profile (the answers are only logged), the
  deletion being left out only when there is no profile or the owner of NetworkManager could not be confirmed. A
  success hands out the submitted passphrase and rests on a reading of the activated state, the last question
  asked. Under the law of the clock the wait always ends, so with fuel for its rounds a submitted start never
  ends without a verdict.
\<close>

theorem hotspot_start_safe:
  assumes "start_hotspot fuel object_path_ok host n cancellable req E h = (h', r)"
  shows "(changed h' = changed h \<and> (\<forall>x. r \<noteq> Inr (Some x)))
    \<or> (\<exists>settings device p hs call. call = AddAndActivateConnection2 settings device ''/'' volatile_options
        \<and> hotspot_policy settings p \<and> changed hs = changed h
        \<and> ((h' = call # hs \<and> (\<exists>e. r = Inl e))
           \<or> (\<exists>profile active. E hs call = Inr (RActivation profile active)
                \<and> hotspot_settled fuel E n (call # changed h) p profile active h' r)))"
proof -
  obtain h1 st where st: "hotspot_status n E h = (h1, st)" by fastforce
  have n1: "changed h1 = changed h" by (rule passive_run [OF quiet_status(2) st])
  show ?thesis
  proof (cases "\<exists>s. st = Inr s \<and> hs_ssid s = None")
    case False
    with assms st n1 show ?thesis by (cases st) (auto simp: start_hotspot_def io_bind_def split: option.splits)
  next
    case True
    then obtain s where s: "st = Inr s" "hs_ssid s = None" by blast
    obtain h2 rs where rs: "resolve_hotspot fuel host n req E h1 = (h2, rs)" by fastforce
    have n2: "changed h2 = changed h" using passive_run [OF quiet_resolve rs] n1 by simp
    show ?thesis
    proof (cases "\<exists>r0. rs = Inr (Some r0)")
      case False
      with assms st s rs n2 show ?thesis by (cases rs) (auto simp: start_hotspot_def io_bind_def split: option.splits)
    next
      case True
      then obtain r0 where r0: "rs = Inr (Some r0)" by blast
      have "hotspot_outcome fuel E n h2 h' r \<or> (changed h' = changed h2 \<and> (\<exists>e. r = Inl e))"
        using assms st s rs r0 unfolding start_hotspot_def
        by (intro resolved_start [OF _ rs [unfolded r0]])
          (simp add: io_bind_def [of "hotspot_status n"] io_bind_def [of "resolve_hotspot fuel host n req"])
      with n2 show ?thesis unfolding hotspot_outcome_def by (elim disjE) (metis, auto)
    qed
  qed
qed

definition hotspot_env :: nm_env where
  "hotspot_env h c =
     (case c of
        GetDevices \<Rightarrow> Inr (RPaths [''/d''])
      | GetProperty p q \<Rightarrow>
          Inr (if q = ''DeviceType'' then RU32 2
               else if q = ''State'' then RU32 (if p = ''/a'' then 4 else 30)
               else if q = ''ActiveConnection'' then RPath ''/''
               else if q = ''WirelessCapabilities'' then RU32 64
               else if q = ''Mode'' then RU32 2
               else if q = ''WirelessEnabled'' then RBool True else RStr ''wlan0'')
      | LocalRead q \<Rightarrow> Inr (if q = ''clock'' then RTime 0 else if q = ''cancelled'' then RBool False
                             else RBytes (replicate 16 (CHR ''x'')))
      | AddAndActivateConnection2 s d p o' \<Rightarrow> Inr (RActivation ''/p'' ''/a'')
      | DeactivateConnection p \<Rightarrow> Inr RUnit
      | Delete p \<Rightarrow> Inr RUnit
      | _ \<Rightarrow> Inl [])"

definition party_request :: hotspot_request where
  "party_request = \<lparr>hr_ssid = Some ''party'', hr_passphrase = Some ''let me in'', hr_security = HotspotWpaPsk, hr_band = BandAuto,
     hr_channel = None, hr_hidden = False, hr_device = None\<rparr>"

lemma party_devices: "\<exists>h' d. hotspot_devices guest_nm hotspot_env h = (h', Inr [d]) \<and> hd_ap_capable d \<and> \<not> hd_in_use d \<and> hd_path d = ''/d''"
  by (simp add: hotspot_devices_def hotspot_device_at_def wifi_devices_def wifi_device_at_def with_proxy_def ensure_current_owner_def
      current_owner_def guest_nm_def starts_with_def io_context_def io_map_err_def io_map_def io_or_def io_try_def io_bind_def io_then_def
      expect_run hotspot_env_def and_then_def ok_or_def NM_DEVICE_TYPE_WIFI_def)

lemma party_status: "\<exists>h'. hotspot_status guest_nm hotspot_env h = (h', Inr hotspot_status_default)"
proof -
  obtain h' d where d: "hotspot_devices guest_nm hotspot_env h = (h', Inr [d])" using party_devices by blast
  have "\<exists>h''. hotspot_status_for_device guest_nm d hotspot_env h' = (h'', Inr None)"
    by (simp add: hotspot_status_for_device_def with_proxy_def ensure_current_owner_def current_owner_def guest_nm_def starts_with_def
        io_map_def io_or_def io_try_def io_bind_def io_then_def expect_run hotspot_env_def and_then_def ok_or_def WIFI_MODE_AP_def)
  with d show ?thesis by (auto simp: hotspot_status_def io_bind_def)
qed

lemma party_resolves:
  "\<exists>h' r. resolve_hotspot 1 None guest_nm party_request hotspot_env h = (h', Inr (Some r)) \<and> hd_path (rh_device r) = ''/d''"
proof -
  obtain h' d where d: "hotspot_devices guest_nm hotspot_env h = (h', Inr [d])" "hd_ap_capable d" "\<not> hd_in_use d" "hd_path d = ''/d''"
    using party_devices by blast
  have v: "validate_ssid_bytes ''party'' = Inr ()" by (simp add: validate_ssid_bytes_def)
  have "chars_count ''let me in'' = 9" by code_simp
  then have "validate_passphrase ''let me in'' HotspotWpaPsk = Inr ()" by (simp add: validate_passphrase_def minimum_passphrase_len_def)
  with d v show ?thesis
    by (simp add: resolve_hotspot_def hotspot_capabilities_def io_bind_def io_or_def io_map_def io_try_def expect_run hotspot_env_def and_then_def
        ok_or_def Let_def hotspot_availability_def available_hotspot_device_def select_hotspot_device_def party_request_def io_then_def
        io_map_err_def chosen_passphrase_def resolve_band_def)
qed

lemma party_fails:
  "\<exists>h' e. start_hotspot 1 (\<lambda>_. True) None guest_nm True party_request hotspot_env [] = (h', Inl e)
     \<and> DeactivateConnection ''/a'' \<in> set (changed h')"
proof -
  obtain h1 where h1: "hotspot_status guest_nm hotspot_env [] = (h1, Inr hotspot_status_default)" using party_status by blast
  obtain h2 r where h2: "resolve_hotspot 1 None guest_nm party_request hotspot_env h1 = (h2, Inr (Some r))" "hd_path (rh_device r) = ''/d''"
    using party_resolves by blast
  obtain u where uuid: "random_uuid_v4 hotspot_env (LocalRead ''cancelled'' # h2) = (LocalRead ''/dev/urandom'' # LocalRead ''cancelled'' # h2, Inr u)"
    by (simp add: random_uuid_v4_def random_bytes_def io_map_def io_bind_def io_context_def io_map_err_def expect_run hotspot_env_def
        and_then_def ok_or_def)
  have wait: "\<exists>h' e. await_hotspot_activation 1 guest_nm True ''/a'' hotspot_env h = (h', Inl e)" for h
    by (simp add: await_hotspot_activation_def clock_def poll_cancelled_def check_cancellation_def cancellation_requested_def with_proxy_def
        ensure_current_owner_def current_owner_def guest_nm_def starts_with_def io_or_def io_map_def io_try_def io_bind_def io_then_def
        expect_run hotspot_env_def and_then_def ok_or_def)
  have undone: "\<exists>h'. roll_back_hotspot guest_nm ''/p'' ''/a'' hotspot_env h = (Delete ''/p'' # DeactivateConnection ''/a'' # h, Inr ())" for h
    by (simp add: roll_back_hotspot_def remove_hotspot_profile_def delete_connection_def with_proxy_def ensure_current_owner_def
        current_owner_def guest_nm_def starts_with_def io_map_def io_try_def io_bind_def io_then_def io_context_def io_map_err_def hotspot_env_def)
  have fin: "\<exists>h' e. finish_hotspot 1 guest_nm True party_request r (''/p'', ''/a'') hotspot_env h = (h', Inl e)
      \<and> DeactivateConnection ''/a'' \<in> set (changed h')" for h
    using wait [of h] undone by (auto simp: finish_hotspot_def io_bind_def io_try_def io_then_def)
  have add: "\<exists>h'. add_and_activate_hotspot (\<lambda>_. True) r s hotspot_env h = (h', Inr (''/p'', ''/a''))" for s h
    by (simp add: add_and_activate_hotspot_def object_path_parse_def io_bind_def io_context_def io_map_err_def expect_run hotspot_env_def
        and_then_def ok_or_def)
  have c: "poll_cancelled True OpHotspotOperation ''hotspot start was cancelled'' hotspot_env h2 = (LocalRead ''cancelled'' # h2, Inr ())"
    by (simp add: poll_cancelled_def check_cancellation_def cancellation_requested_def io_bind_def expect_run hotspot_env_def and_then_def
        ok_or_def)
  obtain h3 where a: "add_and_activate_hotspot (\<lambda>_. True) r (hotspot_connection_settings u r party_request) hotspot_env
      (LocalRead ''/dev/urandom'' # LocalRead ''cancelled'' # h2) = (h3, Inr (''/p'', ''/a''))" using add by blast
  obtain h4 e where f: "finish_hotspot 1 guest_nm True party_request r (''/p'', ''/a'') hotspot_env h3 = (h4, Inl e)"
    "DeactivateConnection ''/a'' \<in> set (changed h4)" using fin by blast
  have "start_hotspot 1 (\<lambda>_. True) None guest_nm True party_request hotspot_env [] = (h4, Inl e)"
    unfolding start_hotspot_def using h1 h2(1) uuid c a f(1)
    by (simp add: io_bind_def io_then_def io_context_def io_map_err_def hotspot_status_default_def)
  with f(2) show ?thesis by blast
qed

theorem hotspot_start_safe_witness:
  "\<exists>h' e call. start_hotspot 1 (\<lambda>_. True) None guest_nm True party_request hotspot_env [] = (h', Inl e)
     \<and> changed h' = [Delete ''/p'', DeactivateConnection ''/a'', call]"
proof -
  obtain h' e where run: "start_hotspot 1 (\<lambda>_. True) None guest_nm True party_request hotspot_env [] = (h', Inl e)"
    and mem: "DeactivateConnection ''/a'' \<in> set (changed h')" using party_fails by blast
  have fence: "ensure_current_owner guest_nm E h = (h, Inr ())" for E h
    by (simp add: ensure_current_owner_def current_owner_def guest_nm_def starts_with_def io_bind_def)
  from hotspot_start_safe [OF run] mem run show ?thesis
    by (auto simp: hotspot_settled_def taken_back_def fence hotspot_env_def)
qed

end
