(* ===== verification/Wifi_Band.thy ===== *)
theory Wifi_Band
  imports Wifi_Activation
begin

text \<open>
  Selecting the band of a Wi-Fi profile (\<open>src/nm/band.rs\<close>): the band of the profile is changed and the
  connection reactivated; when that fails or is cancelled, the band alone is put back into the profile as it is
  then, never an old copy of the profile.
\<close>

section \<open>The band of a profile\<close>

definition selected_band :: "connection_settings \<Rightarrow> wifi_band" where
  "selected_band settings =
     (case Option.bind (hm_get settings ''802-11-wireless'') (\<lambda>w. setting_string w ''band'') of
        Some v \<Rightarrow> band_from_nm_value v | None \<Rightarrow> BandAuto)"

definition set_selected_band :: "wifi_band \<Rightarrow> connection_settings \<Rightarrow> connection_settings" where
  "set_selected_band band =
     on_section ''802-11-wireless'' (\<lambda>w. case band_nm_value band of
       Some v \<Rightarrow> hm_insert ''band'' (DStr v) w | None \<Rightarrow> hm_remove ''band'' w)"

definition setting_at :: "connection_settings \<Rightarrow> string \<Rightarrow> string \<Rightarrow> dbus_value option" where
  "setting_at settings sec key = Option.bind (hm_get settings sec) (\<lambda>d. hm_get d key)"

definition ensure_same_band_target :: "connection_settings \<Rightarrow> connection_settings \<Rightarrow> anyhow_error + unit" where
  "ensure_same_band_target current original =
     (if list_all (\<lambda>(sec, key). setting_at current sec key = setting_at original sec key)
           [(''connection'', ''uuid''), (''802-11-wireless'', ''ssid'')] then Inr ()
      else Inl [LContext ''profile identity changed; band operation cancelled''])"

definition restore_band_fields ::
    "connection_settings \<Rightarrow> connection_settings \<Rightarrow> wifi_band \<Rightarrow> anyhow_error + connection_settings" where
  "restore_band_fields current original applied =
     (if selected_band current \<noteq> applied then Inl [LContext ''band changed externally; recovery cancelled'']
      else Inr (on_section ''802-11-wireless'' (\<lambda>w.
        case setting_at original ''802-11-wireless'' ''band'' of
          Some v \<Rightarrow> hm_insert ''band'' v w | None \<Rightarrow> hm_remove ''band'' w) current))"

section \<open>Status\<close>

record band_status =
  bs_path :: string
  bs_id :: string
  bs_ssid :: string
  bs_device_iface :: string
  bs_current :: wifi_band
  bs_selected :: wifi_band
  bs_available :: "wifi_band list"

fun active_wifi_device_in :: "nm \<Rightarrow> string \<Rightarrow> wifi_device list \<Rightarrow> wifi_device option io" where
  "active_wifi_device_in n profile [] = io_return None"
| "active_wifi_device_in n profile (d # ds) =
     with_proxy n (io_bind (io_context (''read ActiveConnection for '' @ dev_iface d)
         (expect reply_path (GetProperty (dev_path d) ''ActiveConnection''))) (\<lambda>active.
       if active = ''/'' then active_wifi_device_in n profile ds
       else with_proxy n (io_bind (io_context (''read active profile for '' @ dev_iface d)
           (expect reply_path (GetProperty active ''Connection''))) (\<lambda>connection.
         if connection = profile then io_return (Some d) else active_wifi_device_in n profile ds))))"

definition active_wifi_device_for_profile :: "nm \<Rightarrow> string \<Rightarrow> wifi_device option io" where
  "active_wifi_device_for_profile n profile = io_bind (wifi_devices n) (active_wifi_device_in n profile)"

definition band_order :: "wifi_band list" where
  "band_order = [BandAuto, Band2_4, Band5, Band6]"

definition available_bands :: "wifi_device \<Rightarrow> bytes \<Rightarrow> access_point \<Rightarrow> wifi_band \<Rightarrow> access_point list \<Rightarrow> wifi_band list" where
  "available_bands device ssid active current aps =
     (let cls = (\<lambda>ap. security_class (ap_flags ap) (ap_wpa_flags ap) (ap_rsn_flags ap));
          found = List.map_filter (\<lambda>ap. from_frequency_label (ap_band ap))
            (filter (\<lambda>ap. ap_device_iface ap = dev_iface device \<and> ssid_bytes_of ap = ssid \<and> cls ap = cls active) aps)
      in filter (\<lambda>b. b = current \<or> b \<in> set found) band_order)"

definition band_missing :: "string \<Rightarrow> anyhow_error" where
  "band_missing message = into_anyhow (not_found_error OpBandOperation message)"

definition wifi_band_status :: "(string \<Rightarrow> bool) \<Rightarrow> (int \<Rightarrow> u64 option) \<Rightarrow> nm \<Rightarrow> string \<Rightarrow> band_status io" where
  "wifi_band_status object_path_ok age n path0 =
     io_bind (io_context ''parse Wi-Fi profile path'' (io_lift (object_path_parse object_path_ok path0))) (\<lambda>path.
     io_bind (saved_wifi_connection_by_path n path) (\<lambda>profile.
     io_bind (active_wifi_device_for_profile n path) (\<lambda>device.
     io_bind (io_lift (ok_or device (into_anyhow (with_detail (not_found_error OpBandOperation
        (''Wi-Fi profile '' @ swc_id profile @ '' is not active'')) ''path'' (JStr (swc_path profile)))))) (\<lambda>device.
     io_bind (active_access_point n device) (\<lambda>ap_path.
     io_bind (io_lift (ok_or ap_path (band_missing (''active access point is unavailable for '' @ swc_id profile)))) (\<lambda>ap_path.
     io_bind (access_point_at age n device ap_path True) (\<lambda>active_ap.
     io_bind (io_lift (ok_or (from_frequency_label (ap_band active_ap))
        (into_anyhow (domain_error_new UnknownCode OpBandOperation SrcNetworkManager (''unsupported active Wi-Fi band: '' @ ap_band active_ap))))) (\<lambda>current.
     io_bind (connection_settings_of n path) (\<lambda>settings.
     io_bind (list_all_access_points age n) (\<lambda>aps.
       io_return \<lparr>bs_path = swc_path profile, bs_id = swc_id profile, bs_ssid = swc_ssid profile, bs_device_iface = dev_iface device,
         bs_current = current, bs_selected = selected_band settings,
         bs_available = available_bands device (swc_ssid_bytes profile) active_ap current aps\<rparr>))))))))))"

section \<open>Selecting a band\<close>

record band_change =
  bc_profile_path :: string
  bc_device :: wifi_device
  bc_before :: band_status
  bc_ssid_bytes :: bytes
  bc_original :: connection_settings

definition check_band_cancelled :: "unit io" where
  "check_band_cancelled =
     io_bind (expect reply_bool (LocalRead ''cancelled'')) (\<lambda>c.
       io_lift (check_cancellation (Some c) OpBandOperation ''Wi-Fi band selection cancelled''))"

definition band_label :: "wifi_band \<Rightarrow> json" where
  "band_label b = JStr (case b of BandAuto \<Rightarrow> ''auto'' | Band2_4 \<Rightarrow> ''2.4'' | Band5 \<Rightarrow> ''5'' | Band6 \<Rightarrow> ''6'')"

definition validate_requested_band :: "band_status \<Rightarrow> wifi_band \<Rightarrow> anyhow_error + unit" where
  "validate_requested_band before requested =
     (if requested = BandAuto \<or> requested \<in> set (bs_available before) then Inr ()
      else Inl (into_anyhow (with_detail (with_detail (with_detail (validation_error OpBandOperation
             (''requested Wi-Fi band is not available for '' @ bs_ssid before)) ''path'' (JStr (bs_path before)))
             ''requested'' (band_label requested)) ''available'' (JArr (map band_label (bs_available before))))))"

definition band_selection_is_unchanged :: "band_status \<Rightarrow> wifi_band \<Rightarrow> bool" where
  "band_selection_is_unchanged before requested \<longleftrightarrow>
     bs_selected before = requested \<and> (requested = BandAuto \<or> bs_current before = requested)"

definition prepare_band_change :: "(string \<Rightarrow> bool) \<Rightarrow> nm \<Rightarrow> string \<Rightarrow> band_status \<Rightarrow> band_change io" where
  "prepare_band_change object_path_ok n path0 before =
     io_bind (io_context ''parse Wi-Fi profile path'' (io_lift (object_path_parse object_path_ok path0))) (\<lambda>path.
     io_bind (wifi_devices n) (\<lambda>devices.
     io_bind (io_lift (ok_or (find (\<lambda>d. dev_iface d = bs_device_iface before) devices)
        (band_missing (''active Wi-Fi device '' @ bs_device_iface before @ '' disappeared'')))) (\<lambda>device.
     io_bind (saved_wifi_connection_by_path n path) (\<lambda>profile.
     io_bind (begin_profile_edit n path False) (\<lambda>edit.
       io_return \<lparr>bc_profile_path = path, bc_device = device, bc_before = before, bc_ssid_bytes = swc_ssid_bytes profile,
         bc_original = pe_settings edit\<rparr>)))))"

text \<open>\<open>wait_for_active_target\<close> is the wait of the activation; its outcome is one answer here.\<close>

definition wait_for_active_target :: "unit io" where
  "wait_for_active_target = io_map (\<lambda>_. ()) (io_ask (LocalRead ''active target''))"

definition reactivation_target :: "(string \<Rightarrow> bool) \<Rightarrow> band_change \<Rightarrow> anyhow_error + wifi_connect_target" where
  "reactivation_target object_path_ok change =
     and_then (connect_target_for_network_key (''ssid-hex:'' @ ssid_hex (bc_ssid_bytes change)) None) (\<lambda>t.
     and_then (interface_name_parse (dev_iface (bc_device change))) (\<lambda>iface.
     and_then (object_path_parse object_path_ok (dev_path (bc_device change))) (\<lambda>device.
       Inr (t\<lparr>wct_ifname := Some iface, wct_device_path := Some device\<rparr>))))"

definition reactivate_band ::
    "(string \<Rightarrow> bool) \<Rightarrow> (int \<Rightarrow> u64 option) \<Rightarrow> nm \<Rightarrow> band_change \<Rightarrow> wifi_band \<Rightarrow> unit io" where
  "reactivate_band object_path_ok age n change requested =
     io_then check_band_cancelled
     (io_bind (io_context (''reactivate '' @ bs_ssid (bc_before change) @ '' after Wi-Fi band selection'')
        (expect reply_path (ActivateConnection (bc_profile_path change) (dev_path (bc_device change)) ''/''))) (\<lambda>_.
     io_bind (io_lift (reactivation_target object_path_ok change)) (\<lambda>_.
     io_then wait_for_active_target
     (io_bind (wifi_band_status object_path_ok age n (bc_profile_path change)) (\<lambda>status.
       if requested \<noteq> BandAuto \<and> bs_current status \<noteq> requested
       then io_lift (Inl (into_anyhow (with_detail (with_detail (domain_error_new ActivationFailed OpBandOperation SrcNetworkManager
              (''NetworkManager reconnected '' @ bs_ssid status @ '' on a different band'')) ''requested'' (band_label requested))
              ''current'' (band_label (bs_current status)))))
       else io_return ())))))"

definition restored :: "band_change \<Rightarrow> wifi_band \<Rightarrow> connection_settings \<Rightarrow> anyhow_error + connection_settings" where
  "restored change requested s =
     and_then (ensure_same_band_target s (bc_original change)) (\<lambda>_. restore_band_fields s (bc_original change) requested)"

text \<open>Both writes of the operation are one edit: begin, change the settings read, commit.\<close>

definition edit_band ::
    "nm \<Rightarrow> string \<Rightarrow> (connection_settings \<Rightarrow> anyhow_error + connection_settings) \<Rightarrow> unit io" where
  "edit_band n path mutate =
     io_bind (begin_profile_edit n path False) (\<lambda>edit.
     io_bind (io_lift (mutate (pe_settings edit))) (\<lambda>s.
       commit_credential_edit n (edit\<lparr>pe_settings := s\<rparr>) False))"

definition reconnect_band :: "nm \<Rightarrow> band_change \<Rightarrow> unit io" where
  "reconnect_band n change =
     with_proxy n (io_bind (expect reply_path (GetProperty (dev_path (bc_device change)) ''ActiveConnection'')) (\<lambda>active.
     io_then (if active \<noteq> ''/''
              then with_proxy n (io_bind (expect reply_path (GetProperty active ''Connection'')) (\<lambda>current.
                io_ensure (current = bc_profile_path change) ''another profile is active; recovery will not reconnect it''))
              else io_return ())
     (io_map (\<lambda>_. ()) (expect reply_path (ActivateConnection (bc_profile_path change) (dev_path (bc_device change)) ''/'')))))"

definition rollback_band_change :: "nm \<Rightarrow> band_change \<Rightarrow> wifi_band \<Rightarrow> unit io" where
  "rollback_band_change n change requested =
     io_then (edit_band n (bc_profile_path change) (restored change requested)) (reconnect_band n change)"

definition selected_settings :: "band_change \<Rightarrow> wifi_band \<Rightarrow> connection_settings \<Rightarrow> anyhow_error + connection_settings" where
  "selected_settings change requested s =
     and_then (ensure_same_band_target s (bc_original change)) (\<lambda>_.
       if selected_band s \<noteq> selected_band (bc_original change)
       then Inl [LContext ''band changed before update; retry explicitly'']
       else Inr (set_selected_band requested s))"

definition normalize_band_change_error :: "anyhow_error \<Rightarrow> unit io" where
  "normalize_band_change_error e =
     io_bind (expect reply_bool (LocalRead ''cancelled'')) (\<lambda>c.
       io_lift (Inl (if c then into_anyhow (cancelled_operation OpBandOperation ''Wi-Fi band selection cancelled'') else e)))"

definition finish_band_change ::
    "(string \<Rightarrow> bool) \<Rightarrow> (int \<Rightarrow> u64 option) \<Rightarrow> nm \<Rightarrow> band_change \<Rightarrow> wifi_band \<Rightarrow> unit io" where
  "finish_band_change object_path_ok age n change requested =
     io_bind (io_try (io_then (reactivate_band object_path_ok age n change requested) check_band_cancelled)) (\<lambda>result.
       case result of
         Inr _ \<Rightarrow> io_return ()
       | Inl e \<Rightarrow>
           io_bind (io_try (rollback_band_change n change requested)) (\<lambda>rollback.
             case rollback of
               Inl cause \<Rightarrow> io_lift (Inl (LContext (''Band recovery was not confirmed; inspect the current connection before retrying: ''
                   @ outermost cause) # e))
             | Inr _ \<Rightarrow> normalize_band_change_error e))"

definition commit_band_change ::
    "(string \<Rightarrow> bool) \<Rightarrow> (int \<Rightarrow> u64 option) \<Rightarrow> nm \<Rightarrow> band_change \<Rightarrow> wifi_band \<Rightarrow> unit io" where
  "commit_band_change object_path_ok age n change requested =
     io_then (edit_band n (bc_profile_path change) (selected_settings change requested))
       (finish_band_change object_path_ok age n change requested)"

record band_selection_result =
  br_status :: string
  br_changed :: bool
  br_message :: string
  br_band :: band_status

definition unchanged_band_selection :: "band_status \<Rightarrow> band_selection_result" where
  "unchanged_band_selection before = \<lparr>br_status = ''unchanged'', br_changed = False,
     br_message = ''Wi-Fi band selection for '' @ bs_ssid before @ '' is unchanged'', br_band = before\<rparr>"

definition select_wifi_band ::
    "(string \<Rightarrow> bool) \<Rightarrow> (int \<Rightarrow> u64 option) \<Rightarrow> nm \<Rightarrow> string \<Rightarrow> wifi_band \<Rightarrow> band_selection_result io" where
  "select_wifi_band object_path_ok age n path requested =
     io_then check_band_cancelled (io_then check_band_cancelled
     (io_bind (wifi_band_status object_path_ok age n path) (\<lambda>before.
     io_then (io_lift (validate_requested_band before requested))
     (if band_selection_is_unchanged before requested then io_return (unchanged_band_selection before)
      else io_bind (prepare_band_change object_path_ok n path before) (\<lambda>change.
        io_then (commit_band_change object_path_ok age n change requested)
        (io_map (\<lambda>after. \<lparr>br_status = ''selected'', br_changed = True,
            br_message = ''Wi-Fi band selection updated for '' @ bs_ssid after, br_band = after\<rparr>)
          (wifi_band_status object_path_ok age n path)))))))"

section \<open>Only the band changes\<close>

definition others_kept :: "connection_settings \<Rightarrow> connection_settings \<Rightarrow> bool" where
  "others_kept s s' \<longleftrightarrow> (\<forall>sec key. (sec, key) \<noteq> (''802-11-wireless'', ''band'') \<longrightarrow> setting_at s' sec key = setting_at s sec key)"

lemma setting_at_section: "setting_at s sec key = hm_get (section_of s sec) key"
  by (auto simp: setting_at_def section_of_def split: option.splits)

lemma set_selected_band_only:
  "others_kept s (set_selected_band b s)" "setting_at (set_selected_band b s) ''802-11-wireless'' ''band'' = map_option DStr (band_nm_value b)"
  by (auto simp: others_kept_def setting_at_section set_selected_band_def on_section_of update_conv' map_of_delete split: option.splits)

lemma restore_band_only:
  assumes "restore_band_fields s original b = Inr s'"
  shows "others_kept s s'" "setting_at s' ''802-11-wireless'' ''band'' = setting_at original ''802-11-wireless'' ''band''"
  using assms by (auto simp: restore_band_fields_def others_kept_def setting_at_section on_section_of update_conv' map_of_delete split: option.splits if_splits)

section \<open>What a selection writes\<close>

interpretation quiet: nm_reader harmless
  by unfold_locales simp_all

text \<open>One write of the profile, fenced as every edit is; \<open>acked\<close> when NetworkManager confirmed it.\<close>

definition band_write ::
    "nm \<Rightarrow> nm_env \<Rightarrow> string \<Rightarrow> (connection_settings \<Rightarrow> anyhow_error + connection_settings) \<Rightarrow> nm_history \<Rightarrow> nm_call \<Rightarrow> bool \<Rightarrow> bool" where
  "band_write n E path mutate h w acked \<longleftrightarrow>
     (\<exists>h1 S V. fenced_write n E path mutate h h1 S V \<and> w = Update2 path S 1 V \<and> (acked \<longrightarrow> update_acknowledged n E h1 w (nm_destination n)))"

lemma edit_band_run:
  assumes "edit_band n path mutate E h = (h', r)"
  shows "(written h' = written h \<and> isl r) \<or> (\<exists>w. band_write n E path mutate h w (r = Inr ()) \<and> written h' = w # written h)"
proof -
  obtain h1 r1 where b: "begin_profile_edit n path False E h = (h1, r1)" by fastforce
  note same = harmless_written [OF begin_harmless b]
  consider (unread) "isl r1" | (refused) edit where "r1 = Inr edit" "isl (mutate (pe_settings edit))"
    | (edited) edit s where "r1 = Inr edit" "mutate (pe_settings edit) = Inr s" by (cases r1) (auto, metis obj_sumE sum.disc(1))
  then show ?thesis
  proof cases
    case (edited edit s)
    with assms b have c: "commit_credential_edit n (edit\<lparr>pe_settings := s\<rparr>) False E h1 = (h', r)"
      by (auto simp: edit_band_def io_bind_def)
    have path: "pe_path edit = path" "pe_owner edit = nm_destination n" by (rule begin_ok [OF b [unfolded edited(1)]]; simp)+
    from commit_fenced [OF c] show ?thesis
    proof (elim disjE exE conjE, goal_cases)
      case 1
      with same show ?case by simp
    next
      case (2 h2 cs ds S V)
      have "fenced_write n E path mutate h h2 S V" using commit_is_fenced b edited 2(1) by blast
      with 2 path have "band_write n E path mutate h (Update2 path S 1 V) (r = Inr ())" by (auto simp: band_write_def update_flags_def)
      moreover have "written h' = Update2 path S 1 V # written h" using 2 same path
        by (simp add: written_def update_flags_def filter_empty_conv list_all_iff)
      ultimately show ?case by blast
    qed
  qed (use assms b same in \<open>auto simp: edit_band_def io_bind_def isl_def split: sum.splits\<close>)
qed

lemma device_harmless: "asks harmless (active_wifi_device_in n path ds)"
  by (induction ds; unfold active_wifi_device_in.simps; intro asks_rules) simp_all

lemma status_harmless: "asks harmless (wifi_band_status okp age n path)"
  unfolding wifi_band_status_def active_wifi_device_for_profile_def saved_wifi_connection_by_path_def
  by (intro asks_rules quiet.reads device_harmless)

lemma reactivate_harmless: "asks harmless (io_then (reactivate_band okp age n c b) check_band_cancelled)"
  unfolding reactivate_band_def check_band_cancelled_def wait_for_active_target_def
  by (intro asks_rules status_harmless; simp)

lemma prepare_harmless: "asks harmless (prepare_band_change okp n path s)" "asks harmless check_band_cancelled"
  unfolding prepare_band_change_def saved_wifi_connection_by_path_def check_band_cancelled_def
  by (intro asks_rules quiet.reads begin_harmless; simp)+

lemma band_write_weak: "band_write n E path mutate h w True \<Longrightarrow> band_write n E path mutate h w a"
  unfolding band_write_def by blast

lemma edit_band_extends: "edit_band n path mutate E h = (h', r) \<Longrightarrow> \<exists>ds. h' = ds @ h"
proof -
  have "asks (\<lambda>_. True) (at_update n edit b sv)" for edit b sv
    unfolding at_update_def owner_is_def by (cases sv; simp; intro asks_rules; simp)
  then have "asks (\<lambda>_. True) (commit_credential_edit n edit b)" for edit b
    unfolding commit_split by (intro asks_rules asks_mono [OF before_harmless]) simp
  then have "asks (\<lambda>_. True) (edit_band n path mutate)"
    unfolding edit_band_def by (intro asks_rules asks_mono [OF begin_harmless]) simp
  then show "edit_band n path mutate E h = (h', r) \<Longrightarrow> \<exists>ds. h' = ds @ h" by (rule extends)
qed

lemma rollback_run:
  assumes "rollback_band_change n c b E h = (h', r)"
  shows "(written h' = written h \<and> isl r) \<or>
    (\<exists>w. band_write n E (bc_profile_path c) (restored c b) h w (r = Inr ()) \<and> written h' = w # written h)"
proof -
  let ?m = "edit_band n (bc_profile_path c) (restored c b)"
  obtain h1 r1 where e: "?m E h = (h1, r1)" by fastforce
  note E = edit_band_run [OF e]
  have k: "asks harmless (reconnect_band n c)" unfolding reconnect_band_def by (intro asks_rules; simp)
  show ?thesis
  proof (cases r1)
    case (Inl x)
    with assms e have "h' = h1" "r = Inl x" by (auto simp: rollback_band_change_def io_then_run)
    with E Inl show ?thesis by auto
  next
    case (Inr x)
    with assms e have "reconnect_band n c E h1 = (h', r)" by (auto simp: rollback_band_change_def io_then_run)
    note same = harmless_written [OF k this]
    from E Inr obtain w where "band_write n E (bc_profile_path c) (restored c b) h w True" "written h1 = w # written h" by auto
    with same band_write_weak show ?thesis by metis
  qed
qed

definition unconfirmed_recovery :: "anyhow_error \<Rightarrow> bool" where
  "unconfirmed_recovery e \<longleftrightarrow> (\<exists>cause rest. e = LContext (''Band recovery was not confirmed; inspect the current connection before retrying: ''
     @ cause) # rest)"

definition put_back :: "nm \<Rightarrow> nm_env \<Rightarrow> band_change \<Rightarrow> wifi_band \<Rightarrow> nm_history \<Rightarrow> nm_history \<Rightarrow> bool \<Rightarrow> bool" where
  "put_back n E c b h h' acked \<longleftrightarrow>
     (\<exists>ds w. band_write n E (bc_profile_path c) (restored c b) (ds @ h) w acked \<and> written h' = w # written h)"

lemma finish_band_run:
  assumes "finish_band_change okp age n c b E h = (h', r)"
  shows "(r = Inr () \<and> written h' = written h) \<or>
    (\<exists>e. r = Inl e \<and> (put_back n E c b h h' True \<or>
       (unconfirmed_recovery e \<and> (written h' = written h \<or> put_back n E c b h h' False))))"
proof -
  let ?m = "io_then (reactivate_band okp age n c b) check_band_cancelled"
  obtain h1 r1 where a: "?m E h = (h1, r1)" by fastforce
  obtain ds where ds: "h1 = ds @ h" using asks_run [OF reactivate_harmless a] by blast
  note same = harmless_written [OF reactivate_harmless a]
  show ?thesis
  proof (cases r1)
    case (Inr x)
    with assms a same show ?thesis by (auto simp: finish_band_change_def io_bind_def io_try_def)
  next
    case (Inl e)
    obtain h2 r2 where k: "rollback_band_change n c b E h1 = (h2, r2)" by fastforce
    note R = rollback_run [OF k]
    show ?thesis
    proof (cases r2)
      case (Inl x)
      with assms a \<open>r1 = Inl e\<close> k have "h' = h2" "\<exists>e. r = Inl e \<and> unconfirmed_recovery e"
        by (auto simp: finish_band_change_def io_bind_def io_try_def unconfirmed_recovery_def)
      with R Inl same ds show ?thesis unfolding put_back_def by auto
    next
      case (Inr x)
      with assms a \<open>r1 = Inl e\<close> k have "normalize_band_change_error e E h2 = (h', r)"
        by (auto simp: finish_band_change_def io_bind_def io_try_def)
      then have "written h' = written h2" "\<exists>e. r = Inl e"
        by (auto simp: normalize_band_change_error_def io_bind_def expect_run split: sum.splits)
      with R Inr same ds show ?thesis unfolding put_back_def by auto
    qed
  qed
qed

lemma commit_band_run:
  assumes "commit_band_change okp age n c b E h = (h', r)"
  shows "(written h' = written h \<and> isl r) \<or> (\<exists>w h1 acked. band_write n E (bc_profile_path c) (selected_settings c b) h w acked
     \<and> written h1 = w # written h \<and> (\<exists>ds. h1 = ds @ h) \<and>
       ((\<not> acked \<and> h' = h1 \<and> isl r) \<or> (acked \<and> r = Inr () \<and> written h' = written h1) \<or>
        (acked \<and> (\<exists>e. r = Inl e \<and> (put_back n E c b h1 h' True \<or>
          (unconfirmed_recovery e \<and> (written h' = written h1 \<or> put_back n E c b h1 h' False)))))))"
proof -
  let ?m = "edit_band n (bc_profile_path c) (selected_settings c b)"
  obtain h1 r1 where e: "?m E h = (h1, r1)" by fastforce
  note ext = edit_band_extends [OF e]
  note E = edit_band_run [OF e]
  show ?thesis
  proof (cases r1)
    case (Inl x)
    with assms e have "h' = h1" "r = Inl x" by (auto simp: commit_band_change_def io_then_run)
    with E Inl ext show ?thesis by auto
  next
    case (Inr x)
    with assms e have "finish_band_change okp age n c b E h1 = (h', r)" by (auto simp: commit_band_change_def io_then_run)
    from finish_band_run [OF this] E Inr ext show ?thesis by auto
  qed
qed

lemma selected_settings_only:
  "selected_settings c b s = Inr s' \<Longrightarrow>
     others_kept s s' \<and> setting_at s' ''802-11-wireless'' ''band'' = map_option DStr (band_nm_value b)"
  using set_selected_band_only by (auto simp: selected_settings_def and_then_def split: sum.splits if_splits)

lemma restored_only:
  assumes "restored c b s = Inr s'"
  shows "others_kept s s' \<and> selected_band s = b
     \<and> setting_at s' ''802-11-wireless'' ''band'' = setting_at (bc_original c) ''802-11-wireless'' ''band''"
proof -
  have r: "restore_band_fields s (bc_original c) b = Inr s'" using assms by (auto simp: restored_def and_then_def split: sum.splits)
  moreover from r have "selected_band s = b" by (simp add: restore_band_fields_def split: if_splits)
  ultimately show ?thesis using restore_band_only by blast
qed

text \<open>
  C22. Changing the band of a profile is one fenced write of the profile as it then stands, and a change that
  does not take is compensated, not rolled back to a copy. Success means that exactly one write was made and
  confirmed. After a confirmed write, a failed or cancelled reactivation writes the profile once more, again
  fenced against the profile as it is by then, or the error says that the recovery was not confirmed. The first
  write differs from what was read in the band alone; the second puts back the original band, only over the band
  this operation set, and keeps every other setting, credentials included, as it finds it.
\<close>

theorem band_change_compensated:
  assumes "commit_band_change okp age n c b E h = (h', r)"
  shows "((written h' = written h \<and> isl r) \<or>
      (\<exists>w h1 acked ds. band_write n E (bc_profile_path c) (selected_settings c b) h w acked \<and> h1 = ds @ h \<and> written h1 = w # written h \<and>
        (case r of
           Inr _ \<Rightarrow> acked \<and> written h' = written h1
         | Inl e \<Rightarrow> (\<not> acked \<and> h' = h1) \<or> acked \<and> (put_back n E c b h1 h' True \<or>
             (unconfirmed_recovery e \<and> (written h' = written h1 \<or> put_back n E c b h1 h' False))))))
    \<and> (\<forall>s s'. selected_settings c b s = Inr s' \<longrightarrow>
         others_kept s s' \<and> setting_at s' ''802-11-wireless'' ''band'' = map_option DStr (band_nm_value b))
    \<and> (\<forall>s s'. restored c b s = Inr s' \<longrightarrow> others_kept s s' \<and> selected_band s = b
         \<and> setting_at s' ''802-11-wireless'' ''band'' = setting_at (bc_original c) ''802-11-wireless'' ''band'')"
proof (intro conjI)
  show "\<forall>s s'. selected_settings c b s = Inr s' \<longrightarrow>
         others_kept s s' \<and> setting_at s' ''802-11-wireless'' ''band'' = map_option DStr (band_nm_value b)"
    using selected_settings_only by blast
  show "\<forall>s s'. restored c b s = Inr s' \<longrightarrow> others_kept s s' \<and> selected_band s = b
         \<and> setting_at s' ''802-11-wireless'' ''band'' = setting_at (bc_original c) ''802-11-wireless'' ''band''"
    using restored_only by blast
  show "(written h' = written h \<and> isl r) \<or>
      (\<exists>w h1 acked ds. band_write n E (bc_profile_path c) (selected_settings c b) h w acked \<and> h1 = ds @ h \<and> written h1 = w # written h \<and>
        (case r of
           Inr _ \<Rightarrow> acked \<and> written h' = written h1
         | Inl e \<Rightarrow> (\<not> acked \<and> h' = h1) \<or> acked \<and> (put_back n E c b h1 h' True \<or>
             (unconfirmed_recovery e \<and> (written h' = written h1 \<or> put_back n E c b h1 h' False)))))"
  proof (cases r)
    case (Inl e)
    then show ?thesis using commit_band_run [OF assms] by auto
  next
    case (Inr u)
    then show ?thesis using commit_band_run [OF assms] by auto
  qed
qed

section \<open>A change that does not take\<close>

definition band_settings :: connection_settings where
  "band_settings = [(''connection'', [(''uuid'', DStr ''u'')]), (''802-11-wireless'', [(''band'', DStr ''bg'')])]"

fun last_written :: "nm_history \<Rightarrow> connection_settings" where
  "last_written (Update2 p s f v # h) = map (\<lambda>(sec, d). (sec, hm_remove ''psk'' d)) s"
| "last_written (c # h) = last_written h"
| "last_written [] = band_settings"

text \<open>The profile keeps its writes; it does not reconnect before it was written twice.\<close>

fun band_env :: nm_env where
  "band_env h (GetSettings p) = Inr (RSettings (last_written h))"
| "band_env h (LocalRead w) = Inr (RBool False)"
| "band_env h (ActivateConnection p d s) = (if length (written h) < 2 then Inl [] else Inr (RPath ''/a''))"
| "band_env h (GetProperty p q) = (if q = ''ActiveConnection'' then Inr (RPath ''/'') else demo_env h (GetProperty p q))"
| "band_env h c = demo_env h c"

definition demo_change :: band_change where
  "demo_change = \<lparr>bc_profile_path = ''/1'', bc_device = \<lparr>dev_path = ''/d'', dev_iface = ''wlan0''\<rparr>,
     bc_before = \<lparr>bs_path = ''/1'', bs_id = ''a'', bs_ssid = ''a'', bs_device_iface = ''wlan0'', bs_current = Band2_4,
       bs_selected = Band2_4, bs_available = [Band2_4, Band5]\<rparr>, bc_ssid_bytes = ''a'', bc_original = band_settings\<rparr>"

definition demo_history :: nm_history where
  "demo_history = [Update2 ''/1'' [(''connection'', [(''uuid'', DStr ''u'')]), (''802-11-wireless'', [(''band'', DStr ''a'')])]
       (update_flags False) 7,
     GetProperty ''/1'' ''Unsaved'', GetProperty ''/1'' ''VersionId'', GetProperty ''/1'' ''VersionId'', GetProperty ''/1'' ''VersionId'',
     GetProperty ''/1'' ''Filename'', GetProperty ''/1'' ''Unsaved'', GetSettings ''/1'', GetProperty ''/1'' ''VersionId'']"

abbreviation failed_history :: nm_history where
  "failed_history \<equiv> ActivateConnection ''/1'' ''/d'' ''/'' # LocalRead ''cancelled'' # demo_history"

lemma demo_change_edit: "edit_band demo_nm ''/1'' (selected_settings demo_change Band5) band_env [] = (demo_history, Inr ())"
  by code_simp

lemma demo_reactivation:
  "io_then (reactivate_band okp age demo_nm demo_change Band5) check_band_cancelled band_env demo_history
     = (failed_history, Inl [LContext ''reactivate a after Wi-Fi band selection''])"
  by (simp add: reactivate_band_def check_band_cancelled_def check_cancellation_def cancellation_requested_def io_then_def io_bind_def
      expect_run and_then_def ok_or_def io_context_def io_map_err_def demo_change_def demo_history_def)

lemma demo_rollback: "snd (rollback_band_change demo_nm demo_change Band5 band_env failed_history) = Inr ()"
    "length (written (fst (rollback_band_change demo_nm demo_change Band5 band_env failed_history))) = 2"
  by code_simp+

theorem band_change_compensated_witness:
  "\<exists>h' e w h1. commit_band_change (\<lambda>_. True) (\<lambda>_. None) demo_nm demo_change Band5 band_env [] = (h', Inl e)
     \<and> written h1 = [w] \<and> put_back demo_nm band_env demo_change Band5 h1 h' True"
proof -
  obtain h2 where rb: "rollback_band_change demo_nm demo_change Band5 band_env failed_history = (h2, Inr ())" "length (written h2) = 2"
    using demo_rollback by (metis prod.collapse)
  let ?e = "[LContext ''reactivate a after Wi-Fi band selection'']"
  have "commit_band_change (\<lambda>_. True) (\<lambda>_. None) demo_nm demo_change Band5 band_env [] = (LocalRead ''cancelled'' # h2, Inl ?e)"
    using demo_change_edit demo_reactivation [of "\<lambda>_. True" "\<lambda>_. None"] rb
    by (simp add: commit_band_change_def finish_band_change_def io_then_def io_bind_def io_try_def normalize_band_change_error_def
        expect_run and_then_def ok_or_def demo_change_def)
  with band_change_compensated [OF this] rb(2) show ?thesis by (auto simp: unconfirmed_recovery_def)
qed

end
