(* ===== verification/Cast_Policy.thy ===== *)
theory Cast_Policy
  imports Profile_Writes
begin

text \<open>
  The privileged Cast policy service (\<open>src/cast_policy/mod.rs\<close>, \<open>firewall.rs\<close>, \<open>network.rs\<close>): it reads from
  NetworkManager which Wi-Fi interfaces may discover Cast devices and installs the firewall rules that close
  every other one. The listing of \<open>/sys/class/net\<close> is an argument; the firewall program is one question.
\<close>

declare reply_conv [simp]

section \<open>Firewall rules\<close>

definition PERMISSION_LEASE_SECONDS :: string where "PERMISSION_LEASE_SECONDS = ''10''"

definition ascii_alphanumeric :: "char \<Rightarrow> bool" where
  "ascii_alphanumeric c \<longleftrightarrow>
     (48 \<le> byte_val c \<and> byte_val c \<le> 57) \<or> (65 \<le> byte_val c \<and> byte_val c \<le> 90) \<or> (97 \<le> byte_val c \<and> byte_val c \<le> 122)"

definition interface_char :: "char \<Rightarrow> bool" where
  "interface_char c \<longleftrightarrow> ascii_alphanumeric c \<or> c \<in> set ''_.:-''"

definition validate_interface :: "string \<Rightarrow> anyhow_error + unit" where
  "validate_interface name =
     (if name \<noteq> [] \<and> length name \<le> 15 \<and> list_all interface_char name then Inr ()
      else Inl [LContext ''unsupported Wi-Fi interface name''])"

definition quoted :: "string \<Rightarrow> string" where
  "quoted name = [CHR 0x22] @ name @ [CHR 0x22]"

fun quoted_elements :: "string list \<Rightarrow> anyhow_error + string list" where
  "quoted_elements [] = Inr []"
| "quoted_elements (x # xs) =
     and_then (validate_interface x) (\<lambda>_. and_then (quoted_elements xs) (\<lambda>qs. Inr (quoted x # qs)))"

text \<open>\<open>names.join(", ")\<close>.\<close>

fun joined :: "string list \<Rightarrow> string" where
  "joined [] = []"
| "joined [x] = x"
| "joined (x # xs) = x @ '', '' @ joined xs"

definition elements_text :: "string list \<Rightarrow> string" where
  "elements_text names = (if names = [] then [] else ''elements = { '' @ joined names @ '' };'')"

definition elements :: "string list \<Rightarrow> anyhow_error + string" where
  "elements interfaces = map_sum id elements_text (quoted_elements interfaces)"

definition text_lines :: "string list \<Rightarrow> string" where
  "text_lines ls = concat (map (\<lambda>l. l @ [CHR 0x0A]) ls)"

definition batch_head :: string where
  "batch_head = text_lines [''add table inet nm_cast_policy'', ''delete table inet nm_cast_policy'', ''table inet nm_cast_policy {'']"

definition batch_chains :: string where
  "batch_chains = text_lines
     [''    chain input {'',
      ''        type filter hook input priority -10; policy accept;'',
      ''        iifname @wifi iifname != @enabled udp sport { 1900, 5353 } counter drop'',
      ''        iifname @wifi iifname != @enabled udp dport { 1900, 5353 } counter drop'',
      ''        iifname @wifi iifname != @enabled tcp sport { 8008, 8009, 8443 } counter drop'',
      ''    }'',
      ''    chain output {'',
      ''        type filter hook output priority -10; policy accept;'',
      ''        oifname @wifi oifname != @enabled udp sport { 1900, 5353 } counter drop'',
      ''        oifname @wifi oifname != @enabled udp dport { 1900, 5353 } counter drop'',
      ''        oifname @wifi oifname != @enabled tcp dport { 8008, 8009, 8443 } counter drop'',
      ''    }'',
      ''}'']"

definition set_wifi :: string where
  "set_wifi = ''    set wifi { type ifname; ''"

definition set_enabled :: string where
  "set_enabled = ''    set enabled { type ifname; flags timeout; timeout '' @ PERMISSION_LEASE_SECONDS @ ''s; ''"

definition firewall_batch :: "string \<Rightarrow> string \<Rightarrow> string" where
  "firewall_batch wifi enabled =
     batch_head @ text_lines [set_wifi @ wifi @ '' }''] @ text_lines [set_enabled @ enabled @ '' }'']
     @ batch_chains"

definition firewall_rules :: "string list \<Rightarrow> string list \<Rightarrow> anyhow_error + string" where
  "firewall_rules wifi enabled =
     and_then (if set enabled \<subseteq> set wifi then Inr () else Inl [LContext ''enabled interface is not Wi-Fi'']) (\<lambda>_.
     and_then (elements wifi) (\<lambda>w.
     and_then (elements enabled) (\<lambda>e. Inr (firewall_batch w e))))"

definition absolute_path :: "string \<Rightarrow> bool" where
  "absolute_path p \<longleftrightarrow> starts_with ''/'' p"

definition apply_firewall :: "string \<Rightarrow> string list \<Rightarrow> string list \<Rightarrow> unit io" where
  "apply_firewall nft wifi enabled =
     io_then (io_ensure (absolute_path nft) ''nft executable path must be absolute'')
       (io_bind (io_lift (firewall_rules wifi enabled)) (\<lambda>batch.
         io_bind (io_ask (RunNft nft batch)) (\<lambda>_. io_return ())))"

section \<open>Wi-Fi interfaces\<close>

text \<open>One entry of \<open>/sys/class/net\<close>: its name in bytes and whether it has \<open>phy80211\<close> or \<open>wireless\<close>.\<close>

record net_entry =
  ne_name :: bytes
  ne_wireless :: bool

type_synonym net_listing = "anyhow_error + (anyhow_error + net_entry) list"

fun wifi_names :: "(anyhow_error + net_entry) list \<Rightarrow> string list \<Rightarrow> anyhow_error + string list" where
  "wifi_names [] names = Inr names"
| "wifi_names (entry # entries) names =
     and_then entry (\<lambda>e.
       if ne_wireless e
       then if \<not> utf8_valid (ne_name e) then Inl [LContext ''Wi-Fi interface name is not valid UTF-8'']
            else and_then (validate_interface (ne_name e)) (\<lambda>_. wifi_names entries (insort_insert (ne_name e) names))
       else wifi_names entries names)"

definition wifi_interfaces :: "net_listing \<Rightarrow> anyhow_error + string list" where
  "wifi_interfaces listing =
     and_then (map_sum (\<lambda>e. LContext ''enumerate network interfaces'' # e) id listing) (\<lambda>entries.
     and_then (wifi_names entries []) (\<lambda>names.
       if length names \<le> 64 then Inr names else Inl [LContext ''too many Wi-Fi interfaces'']))"

section \<open>The policy of NetworkManager\<close>

definition mdns_enabled :: "connection_settings \<Rightarrow> bool" where
  "mdns_enabled settings \<longleftrightarrow>
     Option.bind (hm_get settings ''connection'') (\<lambda>c. Option.bind (hm_get c ''mdns'') value_i32) \<in> {Some 1, Some 2}"

definition policy_enabled ::
    "connection_settings \<Rightarrow> connection_settings \<Rightarrow> u32 \<Rightarrow> u64 \<Rightarrow> u64 \<Rightarrow> bool \<Rightarrow> bool" where
  "policy_enabled saved applied state version current_version same_active \<longleftrightarrow>
     state = 100 \<and> version \<noteq> 0 \<and> version = current_version \<and> same_active \<and> mdns_enabled saved \<and> mdns_enabled applied"

definition device_enabled :: "string \<Rightarrow> bool io" where
  "device_enabled device =
     io_bind (expect reply_u32 (GetProperty device ''State'')) (\<lambda>state.
     if state \<noteq> 100 then io_return False
     else io_bind (expect reply_path (GetProperty device ''ActiveConnection'')) (\<lambda>active_path.
     if active_path = ''/'' then io_return False
     else io_bind (expect reply_applied (GetAppliedConnection device)) (\<lambda>(applied, version).
     io_bind (expect reply_path (GetProperty active_path ''Connection'')) (\<lambda>profile.
     io_bind (expect reply_settings (GetSettings profile)) (\<lambda>saved.
     io_bind (expect reply_applied (GetAppliedConnection device)) (\<lambda>(_, current_version).
     io_bind (expect reply_path (GetProperty device ''ActiveConnection'')) (\<lambda>current_active.
     io_bind (expect reply_u32 (GetProperty device ''State'')) (\<lambda>state.
       io_return (policy_enabled saved applied state version current_version (active_path = current_active))))))))))"

definition device_policy :: "string list \<Rightarrow> string \<Rightarrow> string list \<Rightarrow> string list io" where
  "device_policy wifi device enabled =
     io_bind (expect reply_str (GetProperty device ''Interface'')) (\<lambda>interface.
     io_map (\<lambda>b. if b then insort_insert interface enabled else enabled)
       (io_and (io_return (interface \<in> set wifi)) (device_enabled device)))"

definition enabled_interfaces :: "string list \<Rightarrow> string list io" where
  "enabled_interfaces wifi =
     io_bind (expect reply_str GetNameOwner) (\<lambda>_.
     io_bind (expect reply_paths GetDevices) (\<lambda>devices.
       io_fold (device_policy wifi) devices []))"

section \<open>The service\<close>

text \<open>
  The transaction mutex and the four seconds of a snapshot are questions: whether the lock was had in two
  seconds and whether the snapshot came too late, in which case its answers are dropped.
\<close>

definition policy_lock :: "unit io" where
  "policy_lock = io_require (expect reply_bool (LocalRead ''cast transaction'')) ''Cast policy reconciliation is busy; retry''"

definition snapshot_policy :: "string list \<Rightarrow> string list io" where
  "snapshot_policy wifi =
     io_bind (io_try (enabled_interfaces wifi)) (\<lambda>result.
     io_then (io_require (expect reply_bool (LocalRead ''snapshot in time'')) ''timed out reading NetworkManager Cast policy'')
       (io_lift result))"

definition reconcile :: "string \<Rightarrow> net_listing \<Rightarrow> unit io" where
  "reconcile nft listing =
     io_then policy_lock
       (io_bind (io_lift (wifi_interfaces listing)) (\<lambda>wifi.
        io_bind (io_try (snapshot_policy wifi)) (\<lambda>snapshot.
        io_then (apply_firewall nft wifi (case snapshot of Inr enabled \<Rightarrow> enabled | Inl _ \<Rightarrow> []))
          (io_lift (map_sum id (\<lambda>_. ()) snapshot)))))"

definition api_reconcile :: "string \<Rightarrow> string \<Rightarrow> net_listing \<Rightarrow> unit io" where
  "api_reconcile signature nft listing =
     (if signature \<noteq> [] then io_lift (Inl [LContext ''Reconcile takes no arguments'']) else reconcile nft listing)"

definition close_policy :: "string \<Rightarrow> net_listing \<Rightarrow> unit io" where
  "close_policy nft listing = io_bind (io_lift (wifi_interfaces listing)) (\<lambda>wifi. apply_firewall nft wifi [])"

datatype policy_wakeup =
    RefreshTick net_listing
  | SignalSeen net_listing
  | WatcherEnded anyhow_error

text \<open>The loop logs the error of a reconciliation and goes on; only the end of the signals stops it.\<close>

fun policy_loop :: "string \<Rightarrow> policy_wakeup list \<Rightarrow> unit io" where
  "policy_loop nft [] = io_return ()"
| "policy_loop nft (WatcherEnded e # _) = io_lift (Inl e)"
| "policy_loop nft (RefreshTick listing # ws) = io_bind (io_try (reconcile nft listing)) (\<lambda>_. policy_loop nft ws)"
| "policy_loop nft (SignalSeen listing # ws) =
     io_bind (io_try (io_ask Wait)) (\<lambda>_. io_bind (io_try (reconcile nft listing)) (\<lambda>_. policy_loop nft ws))"

definition serve_policy :: "string \<Rightarrow> net_listing \<Rightarrow> policy_wakeup list \<Rightarrow> unit io" where
  "serve_policy nft listing wakeups =
     io_then (io_ensure (absolute_path nft) ''--nft must be an absolute executable path'')
       (io_then (close_policy nft listing)
         (io_bind (io_ask (LocalRead ''system bus'')) (\<lambda>_. policy_loop nft wakeups)))"

section \<open>The literals of a batch\<close>

text \<open>What a reader of the batch takes for string literals: the text between two quotation marks.\<close>

fun literals_from :: "string option \<Rightarrow> string \<Rightarrow> string list" where
  "literals_from _ [] = []"
| "literals_from None (c # cs) = literals_from (if c = CHR 0x22 then Some [] else None) cs"
| "literals_from (Some l) (c # cs) =
     (if c = CHR 0x22 then rev l # literals_from None cs else literals_from (Some (c # l)) cs)"

text \<open>What is left of it outside of the literals.\<close>

fun skeleton :: "bool \<Rightarrow> string \<Rightarrow> string" where
  "skeleton _ [] = []"
| "skeleton inside (c # cs) =
     (if c = CHR 0x22 then c # skeleton (\<not> inside) cs else if inside then skeleton inside cs else c # skeleton inside cs)"

lemma literals_plain: "CHR 0x22 \<notin> set s \<Longrightarrow> literals_from None (s @ t) = literals_from None t"
  by (induction s) auto

lemma literals_inside: "CHR 0x22 \<notin> set s \<Longrightarrow> literals_from (Some l) (s @ t) = literals_from (Some (rev s @ l)) t"
  by (induction s arbitrary: l) auto

lemma literals_quoted: "CHR 0x22 \<notin> set n \<Longrightarrow> literals_from None (quoted n @ t) = n # literals_from None t"
  using literals_inside [of n "[]" "CHR 0x22 # t"] by (simp add: quoted_def)

lemma literals_joined:
  "\<forall>n \<in> set ns. CHR 0x22 \<notin> set n \<Longrightarrow> literals_from None (joined (map quoted ns) @ t) = ns @ literals_from None t"
proof (induction ns rule: joined.induct)
  case (3 x y ys)
  have sep: "literals_from None ('', '' @ u) = literals_from None u" for u by (rule literals_plain) simp
  show ?case using 3 by (simp add: literals_quoted sep [simplified])
qed (simp_all add: literals_quoted)

lemma skeleton_plain: "CHR 0x22 \<notin> set s \<Longrightarrow> skeleton False (s @ t) = s @ skeleton False t"
  by (induction s) auto

lemma skeleton_inside: "CHR 0x22 \<notin> set s \<Longrightarrow> skeleton True (s @ t) = skeleton True t"
  by (induction s) auto

lemma skeleton_quoted: "CHR 0x22 \<notin> set n \<Longrightarrow> skeleton False (quoted n @ t) = quoted [] @ skeleton False t"
  using skeleton_inside [of n "CHR 0x22 # t"] by (simp add: quoted_def)

lemma skeleton_joined:
  "\<forall>n \<in> set ns. CHR 0x22 \<notin> set n \<Longrightarrow>
     skeleton False (joined (map quoted ns) @ t) = joined (map (\<lambda>_. quoted []) ns) @ skeleton False t"
proof (induction ns rule: joined.induct)
  case (3 x y ys)
  have sep: "skeleton False ('', '' @ u) = '', '' @ skeleton False u" for u by (rule skeleton_plain) simp
  show ?case using 3 by (simp add: skeleton_quoted sep [simplified])
qed (simp_all add: skeleton_quoted)

lemma interface_no_quote: "validate_interface n = Inr () \<Longrightarrow> CHR 0x22 \<notin> set n"
proof -
  have "\<not> interface_char (CHR 0x22)" by (simp add: interface_char_def ascii_alphanumeric_def byte_val_def)
  then show "validate_interface n = Inr () \<Longrightarrow> ?thesis"
    by (auto simp: validate_interface_def list_all_iff split: if_splits)
qed

lemma quoted_elements_ok:
  "quoted_elements ns = Inr qs \<longleftrightarrow> qs = map quoted ns \<and> (\<forall>n \<in> set ns. validate_interface n = Inr ())"
  by (induction ns arbitrary: qs) (auto simp: and_then_Inr_iff)

lemma plain_batch: "CHR 0x22 \<notin> set batch_head" "CHR 0x22 \<notin> set batch_chains"
  by (simp_all add: batch_head_def batch_chains_def text_lines_def)

lemma elements_ok:
  "elements ns = Inr t \<longleftrightarrow> t = elements_text (map quoted ns) \<and> (\<forall>n \<in> set ns. validate_interface n = Inr ())"
proof -
  have "elements ns = Inr t \<longleftrightarrow> (\<exists>qs. quoted_elements ns = Inr qs \<and> t = elements_text qs)"
    by (cases "quoted_elements ns") (auto simp: elements_def)
  then show ?thesis unfolding quoted_elements_ok by blast
qed

lemma literals_elements:
  "\<forall>n \<in> set ns. CHR 0x22 \<notin> set n \<Longrightarrow>
     literals_from None (elements_text (map quoted ns) @ t) = ns @ literals_from None t"
  using literals_plain [of "''elements = { ''" "joined (map quoted ns) @ '' };'' @ t"] literals_plain [of "'' };''" t]
  by (auto simp: elements_text_def literals_joined)

lemma skeleton_elements:
  "\<forall>n \<in> set ns. CHR 0x22 \<notin> set n \<Longrightarrow>
     skeleton False (elements_text (map quoted ns) @ t) = elements_text (map (\<lambda>_. quoted []) ns) @ skeleton False t"
  using skeleton_plain [of "''elements = { ''" "joined (map quoted ns) @ '' };'' @ t"] skeleton_plain [of "'' };''" t]
  by (auto simp: elements_text_def skeleton_joined)

lemma firewall_batch_parts:
  "firewall_batch w e = (batch_head @ set_wifi) @ w @ ('' }'' @ [CHR 0x0A] @ set_enabled) @ e @ ('' }'' @ [CHR 0x0A] @ batch_chains)"
  by (simp add: firewall_batch_def text_lines_def)

lemma plain_parts: "CHR 0x22 \<notin> set (batch_head @ set_wifi)" "CHR 0x22 \<notin> set ('' }'' @ [CHR 0x0A] @ set_enabled)"
  "CHR 0x22 \<notin> set ('' }'' @ [CHR 0x0A] @ batch_chains)"
  by (simp_all add: plain_batch set_wifi_def set_enabled_def PERMISSION_LEASE_SECONDS_def)

text \<open>
  No interface name can inject text into the firewall batch that is run as root. The string literals a
  reader finds in the batch are the names of the Wi-Fi interfaces followed by those of the allowed ones, in
  that order; outside of the literals the batch is fixed up to the number of names; and an allowed interface
  is a Wi-Fi interface with a valid name.
\<close>

theorem cast_batch_literals:
  assumes "firewall_rules wifi enabled = Inr batch"
  shows "literals_from None batch = wifi @ enabled
    \<and> skeleton False batch = firewall_batch (elements_text (replicate (length wifi) (quoted [])))
                                             (elements_text (replicate (length enabled) (quoted [])))
    \<and> set enabled \<subseteq> set wifi \<and> (\<forall>n \<in> set wifi. validate_interface n = Inr ())"
proof -
  from assms have b: "batch = firewall_batch (elements_text (map quoted wifi)) (elements_text (map quoted enabled))"
    and sub: "set enabled \<subseteq> set wifi" and ok: "\<forall>n \<in> set wifi. validate_interface n = Inr ()"
    "\<forall>n \<in> set enabled. validate_interface n = Inr ()"
    by (auto simp: firewall_rules_def and_then_Inr_iff elements_ok split: if_splits)
  have q: "\<forall>n \<in> set wifi. CHR 0x22 \<notin> set n" "\<forall>n \<in> set enabled. CHR 0x22 \<notin> set n"
    using ok interface_no_quote by blast+
  have tail: "literals_from None ('' }'' @ [CHR 0x0A] @ batch_chains) = []"
    "skeleton False ('' }'' @ [CHR 0x0A] @ batch_chains) = '' }'' @ [CHR 0x0A] @ batch_chains"
    using literals_plain [OF plain_parts(3), of "[]"] skeleton_plain [OF plain_parts(3), of "[]"] by simp_all
  have "literals_from None batch = wifi @ enabled"
    unfolding b firewall_batch_parts literals_plain [OF plain_parts(1)] literals_elements [OF q(1)]
      literals_plain [OF plain_parts(2)] literals_elements [OF q(2)] tail by simp
  moreover have "skeleton False batch = firewall_batch (elements_text (replicate (length wifi) (quoted [])))
                                             (elements_text (replicate (length enabled) (quoted [])))"
    unfolding b firewall_batch_parts skeleton_plain [OF plain_parts(1)] skeleton_elements [OF q(1)]
      skeleton_plain [OF plain_parts(2)] skeleton_elements [OF q(2)] tail by (simp add: map_replicate_const)
  ultimately show ?thesis using sub ok by blast
qed

section \<open>What the service was told before it opens an interface\<close>

fun is_nft :: "nm_call \<Rightarrow> bool" where
  "is_nft (RunNft exe batch) = True"
| "is_nft _ = False"

definition nft_runs :: "nm_history \<Rightarrow> nm_call list" where
  "nft_runs h = filter is_nft h"

lemma nft_runs_simps [simp]: "nft_runs [] = []" "nft_runs (c # h) = (if is_nft c then c # nft_runs h else nft_runs h)"
  "nft_runs (cs @ h) = nft_runs cs @ nft_runs h"
  by (simp_all add: nft_runs_def)

text \<open>
  The reads that open an interface, oldest last: the device was active on a profile whose applied and saved
  settings both allow discovery, and the version of the applied settings, the active connection and the state
  were read again afterwards and had not changed.
\<close>

definition policy_evidence :: "nm_env \<Rightarrow> nm_history \<Rightarrow> string \<Rightarrow> bool" where
  "policy_evidence E h interface \<longleftrightarrow>
     (\<exists>cs h0 device active profile saved applied applied' version.
        h = cs @ [GetProperty device ''State'', GetProperty device ''ActiveConnection'', GetAppliedConnection device,
            GetSettings profile, GetProperty active ''Connection'', GetAppliedConnection device,
            GetProperty device ''ActiveConnection'', GetProperty device ''State'', GetProperty device ''Interface''] @ h0
        \<and> (let h1 = GetProperty device ''Interface'' # h0; h2 = GetProperty device ''State'' # h1;
               h3 = GetProperty device ''ActiveConnection'' # h2; h4 = GetAppliedConnection device # h3;
               h5 = GetProperty active ''Connection'' # h4; h6 = GetSettings profile # h5;
               h7 = GetAppliedConnection device # h6; h8 = GetProperty device ''ActiveConnection'' # h7
           in E h0 (GetProperty device ''Interface'') = Inr (RStr interface)
            \<and> E h1 (GetProperty device ''State'') = Inr (RU32 100)
            \<and> E h2 (GetProperty device ''ActiveConnection'') = Inr (RPath active)
            \<and> E h3 (GetAppliedConnection device) = Inr (RApplied applied version)
            \<and> E h4 (GetProperty active ''Connection'') = Inr (RPath profile)
            \<and> E h5 (GetSettings profile) = Inr (RSettings saved)
            \<and> E h6 (GetAppliedConnection device) = Inr (RApplied applied' version)
            \<and> E h7 (GetProperty device ''ActiveConnection'') = Inr (RPath active)
            \<and> E h8 (GetProperty device ''State'') = Inr (RU32 100))
        \<and> active \<noteq> ''/'' \<and> version \<noteq> 0 \<and> mdns_enabled saved \<and> mdns_enabled applied)"

lemma device_evidence:
  assumes "E h (GetProperty device ''Interface'') = Inr (RStr interface)"
    and "device_enabled device E (GetProperty device ''Interface'' # h) = (h', Inr True)"
  shows "policy_evidence E h' interface"
proof -
  from assms(2) obtain active profile saved applied applied' version where
    "h' = [GetProperty device ''State'', GetProperty device ''ActiveConnection'', GetAppliedConnection device,
       GetSettings profile, GetProperty active ''Connection'', GetAppliedConnection device,
       GetProperty device ''ActiveConnection'', GetProperty device ''State'', GetProperty device ''Interface''] @ h"
    and "(let h1 = GetProperty device ''Interface'' # h; h2 = GetProperty device ''State'' # h1;
               h3 = GetProperty device ''ActiveConnection'' # h2; h4 = GetAppliedConnection device # h3;
               h5 = GetProperty active ''Connection'' # h4; h6 = GetSettings profile # h5;
               h7 = GetAppliedConnection device # h6; h8 = GetProperty device ''ActiveConnection'' # h7
           in E h (GetProperty device ''Interface'') = Inr (RStr interface)
            \<and> E h1 (GetProperty device ''State'') = Inr (RU32 100)
            \<and> E h2 (GetProperty device ''ActiveConnection'') = Inr (RPath active)
            \<and> E h3 (GetAppliedConnection device) = Inr (RApplied applied version)
            \<and> E h4 (GetProperty active ''Connection'') = Inr (RPath profile)
            \<and> E h5 (GetSettings profile) = Inr (RSettings saved)
            \<and> E h6 (GetAppliedConnection device) = Inr (RApplied applied' version)
            \<and> E h7 (GetProperty device ''ActiveConnection'') = Inr (RPath active)
            \<and> E h8 (GetProperty device ''State'') = Inr (RU32 100))"
    and "active \<noteq> ''/'' \<and> version \<noteq> 0 \<and> mdns_enabled saved \<and> mdns_enabled applied"
    unfolding device_enabled_def
    by (auto simp: io_ok policy_enabled_def Let_def assms(1) split: if_splits prod.splits)
  then show ?thesis unfolding policy_evidence_def by (metis append_Nil)
qed

lemma evidence_later: "policy_evidence E h i \<Longrightarrow> policy_evidence E (cs @ h) i"
  unfolding policy_evidence_def by (metis append_assoc)

text \<open>A snapshot that read every device without an error and was in time.\<close>

definition snapshot_complete :: "nm_env \<Rightarrow> string list \<Rightarrow> string list \<Rightarrow> nm_history \<Rightarrow> bool" where
  "snapshot_complete E wifi enabled h \<longleftrightarrow>
     (\<exists>h0 h1. h = LocalRead ''snapshot in time'' # h1 \<and> enabled_interfaces wifi E h0 = (h1, Inr enabled)
        \<and> E h1 (LocalRead ''snapshot in time'') = Inr (RBool True))"

section \<open>A reconciliation fails closed\<close>

lemma quiet_reads [asks_rules]:
  "asks (\<lambda>c. \<not> is_nft c) (device_enabled d)" "asks (\<lambda>c. \<not> is_nft c) (device_policy wifi d xs)"
proof -
  show a: "asks (\<lambda>c. \<not> is_nft c) (device_enabled d)" for d
    unfolding device_enabled_def by (intro asks_rules; simp)
  show "asks (\<lambda>c. \<not> is_nft c) (device_policy wifi d xs)"
    unfolding device_policy_def by (intro asks_rules a; simp)
qed

lemma quiet_snapshot [asks_rules]:
  "asks (\<lambda>c. \<not> is_nft c) (enabled_interfaces wifi)" "asks (\<lambda>c. \<not> is_nft c) (snapshot_policy wifi)"
  "asks (\<lambda>c. \<not> is_nft c) policy_lock"
  unfolding snapshot_policy_def enabled_interfaces_def policy_lock_def by (intro asks_rules; simp)+

lemma quiet_run: "asks (\<lambda>c. \<not> is_nft c) m \<Longrightarrow> m E h = (h', r) \<Longrightarrow> \<exists>cs. h' = cs @ h \<and> nft_runs h' = nft_runs h"
  by (drule (1) asks_run) (auto simp: nft_runs_def list_all_iff)

lemma device_policy_ok:
  assumes "device_policy wifi d xs E h = (h', Inr ys)"
  shows "set ys \<subseteq> set wifi \<union> set xs \<and> (\<forall>y \<in> set ys. y \<in> set xs \<or> policy_evidence E h' y)"
proof -
  from assms obtain i where i: "E h (GetProperty d ''Interface'') = Inr (RStr i)"
    and m: "io_map (\<lambda>b. if b then insort_insert i xs else xs) (io_and (io_return (i \<in> set wifi)) (device_enabled d)) E
       (GetProperty d ''Interface'' # h) = (h', Inr ys)"
    unfolding device_policy_def by (auto simp: io_ok)
  from m obtain b where b: "io_and (io_return (i \<in> set wifi)) (device_enabled d) E (GetProperty d ''Interface'' # h) = (h', Inr b)"
    "ys = (if b then insort_insert i xs else xs)" by (auto simp: io_ok)
  show ?thesis
  proof (cases b)
    case True
    with b have "i \<in> set wifi" "device_enabled d E (GetProperty d ''Interface'' # h) = (h', Inr True)"
      by (auto simp: io_ok io_return_def)
    with True b(2) device_evidence [of E h d i, OF i] show ?thesis by (auto simp: set_insort_insert)
  qed (use b in auto)
qed

lemma policies_ok:
  "io_fold (device_policy wifi) ds xs E h = (h', Inr ys) \<Longrightarrow>
     set ys \<subseteq> set wifi \<union> set xs \<and> (\<forall>y \<in> set ys. y \<in> set xs \<or> policy_evidence E h' y)"
proof (induction ds arbitrary: xs h)
  case (Cons d ds)
  from Cons.prems obtain h1 zs where z: "device_policy wifi d xs E h = (h1, Inr zs)"
    and f: "io_fold (device_policy wifi) ds zs E h1 = (h', Inr ys)" by (auto simp: io_ok)
  have "asks (\<lambda>c. \<not> is_nft c) (io_fold (device_policy wifi) ds zs)" by (intro asks_rules)
  from quiet_run [OF this f] obtain cs where "h' = cs @ h1" by blast
  with device_policy_ok [OF z] Cons.IH [OF f] evidence_later show ?case by blast
qed auto

lemma snapshot_ok:
  assumes "snapshot_policy wifi E h = (h', Inr enabled)"
  shows "set enabled \<subseteq> set wifi \<and> (\<forall>i \<in> set enabled. policy_evidence E h' i)
    \<and> snapshot_complete E wifi enabled h'"
proof -
  from assms obtain h1 where h1: "enabled_interfaces wifi E h = (h1, Inr enabled)"
    "h' = LocalRead ''snapshot in time'' # h1" "E h1 (LocalRead ''snapshot in time'') = Inr (RBool True)"
    unfolding snapshot_policy_def by (auto simp: io_ok io_try_ok)
  from h1(1) obtain ds h0 where "io_fold (device_policy wifi) ds [] E h0 = (h1, Inr enabled)"
    unfolding enabled_interfaces_def by (auto simp: io_ok)
  from policies_ok [OF this] have "set enabled \<subseteq> set wifi" "\<forall>i \<in> set enabled. policy_evidence E h1 i" by auto
  moreover have "snapshot_complete E wifi enabled h'" unfolding snapshot_complete_def using h1 by blast
  ultimately show ?thesis using h1(2) evidence_later [of E h1 _ "[LocalRead ''snapshot in time'']"] by auto
qed

lemma apply_run:
  assumes "apply_firewall nft wifi enabled E h = (h', r)"
  shows "(h' = h \<and> r \<noteq> Inr ()) \<or> (\<exists>batch. firewall_rules wifi enabled = Inr batch \<and> h' = RunNft nft batch # h
     \<and> (r = Inr () \<longleftrightarrow> (\<exists>x. E h (RunNft nft batch) = Inr x)))"
  using assms unfolding apply_firewall_def io_then_run io_ensure_run io_bind_run io_lift_run io_ask_run io_return_run
  by (auto split: if_splits)

lemma locked_reconcile:
  assumes "io_bind (io_try (snapshot_policy wifi)) (\<lambda>snapshot.
          io_then (apply_firewall nft wifi (case snapshot of Inr enabled \<Rightarrow> enabled | Inl _ \<Rightarrow> []))
            (io_lift (map_sum id (\<lambda>_. ()) snapshot))) E h = (h', r)"
  shows "(nft_runs h' = nft_runs h \<and> r \<noteq> Inr ())
    \<or> (\<exists>enabled batch hs. firewall_rules wifi enabled = Inr batch
         \<and> h' = RunNft nft batch # hs \<and> nft_runs h' = RunNft nft batch # nft_runs h
         \<and> (\<forall>i \<in> set enabled. policy_evidence E hs i)
         \<and> (enabled = [] \<or> snapshot_complete E wifi enabled hs)
         \<and> (r = Inr () \<longrightarrow> (\<exists>x. E hs (RunNft nft batch) = Inr x) \<and> snapshot_complete E wifi enabled hs))"
proof -
  obtain h2 s where s: "snapshot_policy wifi E h = (h2, s)" by fastforce
  have n2: "nft_runs h2 = nft_runs h" using quiet_run [OF quiet_snapshot(2) s] by auto
  define enabled where "enabled = (case s of Inr enabled \<Rightarrow> enabled | Inl _ \<Rightarrow> [])"
  from assms s have k: "io_then (apply_firewall nft wifi enabled) (io_lift (map_sum id (\<lambda>_. ()) s)) E h2 = (h', r)"
    unfolding enabled_def by (auto simp: io_bind_run io_try_run)
  obtain h3 a where a: "apply_firewall nft wifi enabled E h2 = (h3, a)" by fastforce
  from k a have r: "h' = h3" "r = Inr () \<Longrightarrow> a = Inr () \<and> (\<exists>en. s = Inr en)"
    by (cases a; cases s; auto simp: io_then_run)+
  have ev: "\<forall>i \<in> set enabled. policy_evidence E h2 i"
    "enabled = [] \<or> snapshot_complete E wifi enabled h2"
    "(\<exists>en. s = Inr en) \<Longrightarrow> snapshot_complete E wifi enabled h2"
    using snapshot_ok [of wifi E h h2] s by (auto simp: enabled_def split: sum.splits)
  from apply_run [OF a] show ?thesis
  proof (elim disjE exE conjE)
    assume "h3 = h2" "a \<noteq> Inr ()"
    with r n2 show ?thesis by auto
  next
    fix batch assume b: "firewall_rules wifi enabled = Inr batch" "h3 = RunNft nft batch # h2"
      "(a = Inr ()) = (\<exists>x. E h2 (RunNft nft batch) = Inr x)"
    have "nft_runs h' = RunNft nft batch # nft_runs h" using r(1) b(2) n2 by simp
    with b r ev show ?thesis by blast
  qed
qed


text \<open>The service starts closed: its first batch allows nothing.\<close>

lemma serve_starts_closed:
  assumes "serve_policy nft listing wakeups E h = (h', r)"
  shows "h' = h \<or> (\<exists>wifi batch cs. wifi_interfaces listing = Inr wifi \<and> firewall_rules wifi [] = Inr batch
     \<and> h' = cs @ RunNft nft batch # h)"
proof -
  have "\<exists>cs. h2 = cs @ h1" if k: "io_bind (io_ask (LocalRead ''system bus'')) (\<lambda>_. policy_loop nft wakeups) E h1 = (h2, x)" for h1 h2 x
  proof -
    have r: "asks (\<lambda>_. True) (reconcile exe l)" for exe l
      unfolding reconcile_def apply_firewall_def by (intro asks_rules asks_mono [OF quiet_snapshot(2)] asks_mono [OF quiet_snapshot(3)]; simp)
    have "asks (\<lambda>_. True) (policy_loop nft ws)" for ws
      by (induction nft ws rule: policy_loop.induct; unfold policy_loop.simps; intro asks_rules r TrueI; assumption)
    then have "asks (\<lambda>_. True) (io_bind (io_ask (LocalRead ''system bus'')) (\<lambda>_. policy_loop nft wakeups))" by (intro asks_rules) auto
    from asks_run [OF this k] show ?thesis by blast
  qed
  note later = this
  obtain h1 c where c: "close_policy nft listing E h = (h1, c)" by fastforce
  have h1: "(h1 = h \<and> c \<noteq> Inr ()) \<or> (\<exists>wifi batch. wifi_interfaces listing = Inr wifi \<and> firewall_rules wifi [] = Inr batch
     \<and> h1 = RunNft nft batch # h)"
    using c unfolding close_policy_def by (auto simp: io_bind_run dest!: apply_run)
  from assms c have "h' = h \<or> (h' = h1 \<and> c \<noteq> Inr ()) \<or> (c = Inr () \<and>
      io_bind (io_ask (LocalRead ''system bus'')) (\<lambda>_. policy_loop nft wakeups) E h1 = (h', r))"
    unfolding serve_policy_def io_then_run io_ensure_run by auto
  with h1 later show ?thesis by (metis append_Nil)
qed

theorem cast_batch_literals_witness:
  "\<exists>batch. firewall_rules [''wlan0'', ''wlan1''] [''wlan1''] = Inr batch
     \<and> literals_from None batch = [''wlan0'', ''wlan1'', ''wlan1'']"
proof -
  have "firewall_rules [''wlan0'', ''wlan1''] [''wlan1''] =
      Inr (firewall_batch (elements_text [quoted ''wlan0'', quoted ''wlan1'']) (elements_text [quoted ''wlan1'']))"
    by (simp add: firewall_rules_def elements_def and_then_def validate_interface_def interface_char_def
        ascii_alphanumeric_def byte_val_def)
  with cast_batch_literals [OF this] show ?thesis by auto
qed

definition discovery_on :: connection_settings where
  "discovery_on = [(''connection'', [(''mdns'', DI32 2)])]"

definition cast_env :: nm_env where
  "cast_env h c =
     (case c of
        GetNameOwner \<Rightarrow> Inr (RStr '':1.2'')
      | GetDevices \<Rightarrow> Inr (RPaths [''/d''])
      | GetProperty p q \<Rightarrow>
          Inr (if q = ''Interface'' then RStr ''wlan0'' else if q = ''State'' then RU32 100 else RPath (q @ p))
      | GetAppliedConnection d \<Rightarrow> Inr (RApplied discovery_on 7)
      | GetSettings p \<Rightarrow> Inr (RSettings discovery_on)
      | LocalRead _ \<Rightarrow> Inr (RBool True)
      | RunNft _ _ \<Rightarrow> Inr RUnit
      | _ \<Rightarrow> Inl [])"

definition cast_listing :: net_listing where
  "cast_listing = Inr [Inr \<lparr>ne_name = ''eth0'', ne_wireless = False\<rparr>, Inr \<lparr>ne_name = ''wlan0'', ne_wireless = True\<rparr>]"

lemma cast_interfaces: "wifi_interfaces cast_listing = Inr [''wlan0'']"
proof -
  have "utf8_valid ''wlan0''" by code_simp
  then show ?thesis
    by (simp add: wifi_interfaces_def cast_listing_def and_then_def validate_interface_def interface_char_def
        ascii_alphanumeric_def byte_val_def insort_insert_key_def)
qed

lemma cast_rules_ok: "firewall_rules [''wlan0''] [''wlan0''] = Inr (firewall_batch (elements_text [quoted ''wlan0'']) (elements_text [quoted ''wlan0'']))"
  by (simp add: firewall_rules_def elements_def and_then_def validate_interface_def interface_char_def
        ascii_alphanumeric_def byte_val_def)

lemma cast_snapshot: "\<exists>h'. snapshot_policy [''wlan0''] cast_env h = (h', Inr [''wlan0''])"
proof -
  have "\<exists>h'. enabled_interfaces [''wlan0''] cast_env h = (h', Inr [''wlan0''])"
    by (simp add: enabled_interfaces_def device_policy_def device_enabled_def io_bind_def io_and_def io_map_def expect_run
        cast_env_def and_then_def ok_or_def policy_enabled_def mdns_enabled_def discovery_on_def insort_insert_key_def)
  then show ?thesis
    by (auto simp: snapshot_policy_def io_bind_def io_try_def io_then_def io_require_def expect_run cast_env_def and_then_def ok_or_def
        io_ensure_def)
qed


end
