(* ===== verification/Storage.thy ===== *)
theory Storage
  imports Utf8 Networks
begin

text \<open>
  The private files of the daemon (\<open>src/cache/storage.rs\<close>): the private directory and its lock, JSON files that
  are replaced as a whole, and JSON-lines histories that rotate by size. Every file operation may fail; a write may
  fail after some of its bytes.
\<close>

section \<open>Files\<close>

text \<open>
  The file system as the code sees it: what a path names, the effective user, and what becomes of the operations to
  come. \<open>None\<close> lets an operation go ahead; \<open>Some n\<close> makes it fail, a write after \<open>n\<close> bytes.
\<close>

datatype node = File bytes nat | Dir nat u32 | Symlink string

record disk =
  d_node :: "string \<Rightarrow> node option"
  d_euid :: u32
  d_faults :: "nat option list"

type_synonym 'a fs = "disk \<Rightarrow> disk \<times> (anyhow_error + 'a)"

definition fs_return :: "'a \<Rightarrow> 'a fs" where
  "fs_return x d = (d, Inr x)"

definition fs_bail :: "string \<Rightarrow> 'a fs" where
  "fs_bail msg d = (d, Inl [LContext msg])"

definition fs_bind :: "'a fs \<Rightarrow> ('a \<Rightarrow> 'b fs) \<Rightarrow> 'b fs" where
  "fs_bind m f d = (case m d of (d', Inl e) \<Rightarrow> (d', Inl e) | (d', Inr x) \<Rightarrow> f x d')"

definition fs_then :: "unit fs \<Rightarrow> 'b fs \<Rightarrow> 'b fs" where
  "fs_then m k = fs_bind m (\<lambda>_. k)"

definition fs_context :: "string \<Rightarrow> 'a fs \<Rightarrow> 'a fs" where
  "fs_context msg m d = (case m d of (d', r) \<Rightarrow> (d', map_sum (\<lambda>e. LContext msg # e) id r))"

text \<open>One operation: it takes its fault, and fails or acts.\<close>

definition fs_op :: "(nat \<Rightarrow> disk \<Rightarrow> disk) \<Rightarrow> 'a fs \<Rightarrow> 'a fs" where
  "fs_op partial act d =
     (case d_faults d of
        Some n # fs \<Rightarrow> (partial n (d\<lparr>d_faults := fs\<rparr>), Inl [LContext ''input/output error''])
      | None # fs \<Rightarrow> act (d\<lparr>d_faults := fs\<rparr>)
      | [] \<Rightarrow> act d)"

abbreviation untouched :: "nat \<Rightarrow> disk \<Rightarrow> disk" where
  "untouched \<equiv> \<lambda>_ d. d"

definition set_node :: "string \<Rightarrow> node option \<Rightarrow> disk \<Rightarrow> disk" where
  "set_node p n d = d\<lparr>d_node := (d_node d)(p := n)\<rparr>"

text \<open>\<open>lstat\<close>, \<open>unlink\<close> and \<open>rename\<close> act on the name itself; \<open>None\<close> is \<open>NotFound\<close>.\<close>

definition symlink_metadata :: "string \<Rightarrow> node option fs" where
  "symlink_metadata p = fs_op untouched (\<lambda>d. (d, Inr (d_node d p)))"

definition unlink :: "string \<Rightarrow> unit option fs" where
  "unlink p = fs_op untouched (\<lambda>d. case d_node d p of
     None \<Rightarrow> (d, Inr None)
   | Some (Dir m u) \<Rightarrow> (d, Inl [LContext ''is a directory''])
   | Some _ \<Rightarrow> (set_node p None d, Inr (Some ())))"

definition is_dir :: "node option \<Rightarrow> bool" where
  "is_dir n = (case n of Some (Dir m u) \<Rightarrow> True | _ \<Rightarrow> False)"

definition rename :: "string \<Rightarrow> string \<Rightarrow> unit option fs" where
  "rename a b = fs_op untouched (\<lambda>d. case d_node d a of
     None \<Rightarrow> (d, Inr None)
   | Some n \<Rightarrow>
       if d_node d b \<noteq> None \<and> (is_dir (Some n) \<or> is_dir (d_node d b)) then (d, Inl [LContext ''cannot replace a directory''])
       else if a = b then (d, Inr (Some ()))
       else (set_node a None (set_node b (Some n) d), Inr (Some ())))"

text \<open>The other operations follow links, at most 40 of them.\<close>

fun follow :: "nat \<Rightarrow> (string \<Rightarrow> node option) \<Rightarrow> string \<Rightarrow> string option" where
  "follow 0 nodes p = None"
| "follow (Suc k) nodes p = (case nodes p of Some (Symlink t) \<Rightarrow> follow k nodes t | _ \<Rightarrow> Some p)"

definition resolved :: "string \<Rightarrow> (string \<Rightarrow> 'a fs) \<Rightarrow> 'a fs" where
  "resolved p f d = (case follow 41 (d_node d) p of
     None \<Rightarrow> (d, Inl [LContext ''too many levels of symbolic links'']) | Some q \<Rightarrow> f q d)"

definition metadata_len :: "string \<Rightarrow> nat option fs" where
  "metadata_len p = fs_op untouched (resolved p (\<lambda>q d. (d, Inr (case d_node d q of
     None \<Rightarrow> None | Some (File c m) \<Rightarrow> Some (length c) | Some _ \<Rightarrow> Some 4096))))"

definition set_mode :: "nat \<Rightarrow> node \<Rightarrow> node" where
  "set_mode mode n = (case n of File c m \<Rightarrow> File c mode | Dir m u \<Rightarrow> Dir mode u | Symlink t \<Rightarrow> Symlink t)"

definition chmod :: "string \<Rightarrow> nat \<Rightarrow> unit fs" where
  "chmod p mode = fs_op untouched (resolved p (\<lambda>q d. case d_node d q of
     None \<Rightarrow> (d, Inl [LContext ''not found'']) | Some n \<Rightarrow> (set_node q (Some (set_mode mode n)) d, Inr ())))"

text \<open>Opening with \<open>create\<close>, and appending to what was opened.\<close>

definition open_create :: "string \<Rightarrow> nat \<Rightarrow> string fs" where
  "open_create p mode = fs_op untouched (resolved p (\<lambda>q d. case d_node d q of
     None \<Rightarrow> (set_node q (Some (File [] mode)) d, Inr q)
   | Some (File c m) \<Rightarrow> (d, Inr q)
   | Some _ \<Rightarrow> (d, Inl [LContext ''is a directory''])))"

definition appended :: "string \<Rightarrow> bytes \<Rightarrow> disk \<Rightarrow> disk" where
  "appended q bs d = (case d_node d q of Some (File c m) \<Rightarrow> set_node q (Some (File (c @ bs) m)) d | _ \<Rightarrow> d)"

definition write_all :: "string \<Rightarrow> bytes \<Rightarrow> unit fs" where
  "write_all q bs = fs_op (\<lambda>n. appended q (take n bs)) (\<lambda>d. (appended q bs d, Inr ()))"

definition sync :: "unit fs" where
  "sync = fs_op untouched (\<lambda>d. (d, Inr ()))"

section \<open>The private directory\<close>

definition MODE_DIR :: nat where "MODE_DIR = 448"
definition MODE_FILE :: nat where "MODE_FILE = 384"

definition private_dir_metadata :: "string \<Rightarrow> node option fs" where
  "private_dir_metadata p = fs_context (''lstat '' @ p) (symlink_metadata p)"

definition secure_existing_private_dir :: "string \<Rightarrow> node \<Rightarrow> unit fs" where
  "secure_existing_private_dir p n =
     (case n of
        Symlink t \<Rightarrow> fs_bail (''refusing to use symlinked cache directory '' @ p)
      | File c m \<Rightarrow> fs_bail (p @ '' exists but is not a directory'')
      | Dir mode uid \<Rightarrow> (\<lambda>d.
          if uid \<noteq> d_euid d
          then fs_bail (''refusing to use '' @ p @ '' owned by uid '' @ decimal (unat uid) @ ''; expected ''
                 @ decimal (unat (d_euid d))) d
          else if mode mod 64 = 0 then fs_return () d
          else fs_context (''chmod 0700 '' @ p) (chmod p MODE_DIR) d))"

text \<open>The parents of a path, the outermost first.\<close>

fun prefixes_at :: "string \<Rightarrow> string \<Rightarrow> string list" where
  "prefixes_at front [] = []"
| "prefixes_at front (c # cs) = (if c = CHR ''/'' \<and> front \<noteq> [] then [front] else []) @ prefixes_at (front @ [c]) cs"

definition make_dir :: "string \<Rightarrow> unit fs" where
  "make_dir p d = (case d_node d p of
     None \<Rightarrow> (set_node p (Some (Dir MODE_DIR (d_euid d))) d, Inr ())
   | Some (File c m) \<Rightarrow> (d, Inl [LContext ''not a directory''])
   | Some _ \<Rightarrow> (d, Inr ()))"

fun make_dirs :: "string list \<Rightarrow> unit fs" where
  "make_dirs [] = fs_return ()"
| "make_dirs (p # ps) = fs_then (make_dir p) (make_dirs ps)"

definition create_private_dir_all :: "string \<Rightarrow> unit fs" where
  "create_private_dir_all p =
     fs_bind (private_dir_metadata p) (\<lambda>m. case m of
        Some n \<Rightarrow> secure_existing_private_dir p n
      | None \<Rightarrow> fs_then (fs_context (''create '' @ p) (fs_op untouched (make_dirs (prefixes_at [] p @ [p]))))
                 (fs_context (''chmod 0700 '' @ p) (chmod p MODE_DIR)))"

definition reject_symlink_file :: "string \<Rightarrow> string \<Rightarrow> unit fs" where
  "reject_symlink_file p kind =
     fs_bind (fs_context (''lstat '' @ p) (symlink_metadata p)) (\<lambda>m. case m of
        Some (Symlink t) \<Rightarrow> fs_bail (''refusing to use symlinked '' @ kind @ '' '' @ p)
      | _ \<Rightarrow> fs_return ())"

definition remove_file_if_exists :: "string \<Rightarrow> unit fs" where
  "remove_file_if_exists p = fs_bind (fs_context (''remove '' @ p) (unlink p)) (\<lambda>_. fs_return ())"

definition rename_if_exists :: "string \<Rightarrow> string \<Rightarrow> unit fs" where
  "rename_if_exists a b = fs_bind (fs_context (''rename '' @ a @ '' to '' @ b) (rename a b)) (\<lambda>_. fs_return ())"

definition set_private_file_permissions :: "string \<Rightarrow> unit fs" where
  "set_private_file_permissions p = fs_context (''chmod 0600 '' @ p) (chmod p MODE_FILE)"

definition lock_exclusive :: "unit fs" where
  "lock_exclusive = fs_context ''lock cache repository'' (fs_op untouched (fs_return ()))"

definition open_lock_file :: "string \<Rightarrow> unit fs" where
  "open_lock_file p =
     fs_then (reject_symlink_file p ''storage lock'')
     (fs_bind (fs_context (''open storage lock '' @ p) (open_create p MODE_FILE)) (\<lambda>_. set_private_file_permissions p))"

section \<open>Histories\<close>

definition CACHE_MAX_BYTES :: u64 where "CACHE_MAX_BYTES = 8388608"
definition HISTORY_MAX_BYTES :: u64 where "HISTORY_MAX_BYTES = 524288"
definition HISTORY_ROTATIONS :: nat where "HISTORY_ROTATIONS = 3"

definition path_parent :: "string \<Rightarrow> string option" where
  "path_parent p =
     (if p = [] \<or> p = ''/'' then None
      else let q = rev (dropWhile (\<lambda>c. c \<noteq> CHR ''/'') (rev p)) in Some (if q = ''/'' then q else butlast q))"

definition fs_some :: "'a option \<Rightarrow> string \<Rightarrow> 'a fs" where
  "fs_some x msg = (case x of None \<Rightarrow> fs_bail msg | Some v \<Rightarrow> fs_return v)"

definition rotated_path :: "string \<Rightarrow> nat \<Rightarrow> string" where
  "rotated_path p index = p @ ''.'' @ decimal index"

definition sync_parent :: "string \<Rightarrow> unit fs" where
  "sync_parent p = fs_then (fs_context (''open directory '' @ p) (fs_op untouched (fs_return ())))
     (fs_context (''sync directory '' @ p) sync)"

text \<open>\<open>for index in (1..rotations).rev()\<close>.\<close>

fun rotate_down :: "string \<Rightarrow> nat \<Rightarrow> unit fs" where
  "rotate_down p 0 = fs_return ()"
| "rotate_down p (Suc i) =
     fs_then (rename_if_exists (rotated_path p (Suc i)) (rotated_path p (Suc (Suc i)))) (rotate_down p i)"

definition rotate_files :: "string \<Rightarrow> nat \<Rightarrow> unit fs" where
  "rotate_files p rotations =
     (if rotations = 0 then remove_file_if_exists p
      else fs_then (remove_file_if_exists (rotated_path p rotations))
          (fs_then (rotate_down p (rotations - 1))
          (fs_then (rename_if_exists p (rotated_path p 1))
          (fs_bind (fs_some (path_parent p) ''history path has no parent'') sync_parent))))"

definition file_len_or_zero :: "string \<Rightarrow> nat fs" where
  "file_len_or_zero p = fs_bind (fs_context (''stat '' @ p) (metadata_len p)) (\<lambda>n. fs_return (case n of None \<Rightarrow> 0 | Some n \<Rightarrow> n))"

definition write_private_contents :: "string \<Rightarrow> bytes \<Rightarrow> unit fs" where
  "write_private_contents p contents =
     fs_bind (fs_context (''open '' @ p) (open_create p MODE_FILE)) (\<lambda>q.
     fs_then (fs_context (''write '' @ p) (write_all q contents))
     (fs_then (fs_context (''sync '' @ p) sync) (set_private_file_permissions p)))"

definition append_private_file :: "string \<Rightarrow> bytes \<Rightarrow> unit fs" where
  "append_private_file p contents = write_private_contents p contents"

text \<open>The value is given as the bytes \<open>serde_json::to_vec\<close> makes of it.\<close>

definition append_json_line_with_rotation :: "string \<Rightarrow> bytes \<Rightarrow> u64 \<Rightarrow> nat \<Rightarrow> unit fs" where
  "append_json_line_with_rotation p value max_bytes rotations =
     fs_bind (fs_some (path_parent p) ''state path has no parent'') (\<lambda>parent.
     fs_then (create_private_dir_all parent)
     (fs_then (reject_symlink_file p ''history file'')
     (let line = value @ [CHR 0x0A] in
      fs_bind (file_len_or_zero p) (\<lambda>current.
      fs_then (if 0 < current \<and> unat max_bytes < min (current + length line) (2 ^ 64 - 1) then rotate_files p rotations
               else fs_return ())
      (append_private_file p line)))))"

section \<open>Repositories\<close>

record repository =
  repo_root :: string

definition repository_path :: "repository \<Rightarrow> string \<Rightarrow> string" where
  "repository_path repo name = repo_root repo @ ''/'' @ name"

text \<open>
  \<open>shelllist_daemon_core\<close> reads a file up to a bound and replaces a file as a whole; it is not part of the repository.
\<close>

record core_files =
  read_bytes_bounded :: "string \<Rightarrow> u64 \<Rightarrow> bytes option fs"
  write_bytes_atomic :: "string \<Rightarrow> bytes \<Rightarrow> unit fs"

datatype 'a cache_read = Missing | Stale u32 u32 | Corrupt string | Available 'a

definition read_json_path :: "core_files \<Rightarrow> (string \<Rightarrow> string + 'a) \<Rightarrow> string \<Rightarrow> 'a cache_read fs" where
  "read_json_path core parse p =
     fs_bind (fs_context (''read '' @ p) (read_bytes_bounded core p CACHE_MAX_BYTES)) (\<lambda>bytes. case bytes of
        None \<Rightarrow> fs_return Missing
      | Some bs \<Rightarrow>
          if \<not> utf8_valid bs then fs_context (''read UTF-8 cache '' @ p) (fs_bail ''invalid utf-8 sequence'')
          else fs_return (case parse bs of Inr v \<Rightarrow> Available v | Inl e \<Rightarrow> Corrupt (''parse '' @ p @ '': '' @ e)))"

definition write_json_atomic :: "core_files \<Rightarrow> string \<Rightarrow> string \<Rightarrow> unit fs" where
  "write_json_atomic core p text =
     fs_bind (fs_some (path_parent p) ''cache path has no parent'') (\<lambda>parent.
     fs_then (create_private_dir_all parent)
     (fs_then (reject_symlink_file p ''cache file'')
     (fs_context (''write '' @ p) (write_bytes_atomic core p (text @ [CHR 0x0A])))))"

definition write_transaction :: "repository \<Rightarrow> 'a fs \<Rightarrow> 'a fs" where
  "write_transaction repo operation =
     fs_then (create_private_dir_all (repo_root repo))
     (fs_then (open_lock_file (repository_path repo ''.storage.lock''))
     (fs_then lock_exclusive operation))"

definition append_history :: "repository \<Rightarrow> string \<Rightarrow> bytes \<Rightarrow> unit fs" where
  "append_history repo name value =
     append_json_line_with_rotation (repository_path repo name) value HISTORY_MAX_BYTES HISTORY_ROTATIONS"

section \<open>What the files hold\<close>

fun node_bytes :: "node option \<Rightarrow> bytes" where
  "node_bytes (Some (File c m)) = c"
| "node_bytes _ = []"

definition contents :: "disk \<Rightarrow> string \<Rightarrow> bytes" where
  "contents d p = node_bytes (d_node d p)"

text \<open>
  A view of the disk that the faults do not show, and the operations that leave it as it is, however they end. The
  nodes are one such view, what the files hold another.
\<close>

definition unchanged :: "(disk \<Rightarrow> 'v) \<Rightarrow> 'a fs \<Rightarrow> bool" where
  "unchanged g m \<longleftrightarrow> (\<forall>d. g (fst (m d)) = g d)"

lemma unchanged_run: "unchanged g m \<Longrightarrow> m d = (d', r) \<Longrightarrow> g d' = g d"
  unfolding unchanged_def by (metis fst_conv)

named_theorems keeps_rules

locale disk_view =
  fixes g :: "disk \<Rightarrow> 'v"
  assumes faults: "g (d\<lparr>d_faults := fs\<rparr>) = g d"
begin

lemma return: "unchanged g (fs_return x)" "unchanged g (fs_bail msg)"
  by (simp_all add: unchanged_def fs_return_def fs_bail_def)

lemma bind: "unchanged g m \<Longrightarrow> (\<And>x. unchanged g (f x)) \<Longrightarrow> unchanged g (fs_bind m f)"
  by (auto simp: unchanged_def fs_bind_def split: prod.splits sum.splits) (metis fst_conv)+

lemma sequence: "unchanged g m \<Longrightarrow> unchanged g k \<Longrightarrow> unchanged g (fs_then m k)"
  unfolding fs_then_def by (rule bind)

lemma with_context: "unchanged g m \<Longrightarrow> unchanged g (fs_context msg m)"
  by (auto simp: unchanged_def fs_context_def split: prod.splits) (metis fst_conv)+

lemma operation: "unchanged g act \<Longrightarrow> unchanged g (fs_op untouched act)"
  by (auto simp: unchanged_def fs_op_def faults split: list.splits option.splits)

lemma on_option: "unchanged g m \<Longrightarrow> (\<And>x. unchanged g (f x)) \<Longrightarrow> unchanged g (case v of None \<Rightarrow> m | Some x \<Rightarrow> f x)"
  by (cases v) simp_all

lemma on_node:
  "(\<And>c m. unchanged g (f c m)) \<Longrightarrow> (\<And>m u. unchanged g (k m u)) \<Longrightarrow> (\<And>t. unchanged g (l t)) \<Longrightarrow>
     unchanged g (case v of File c m \<Rightarrow> f c m | Dir m u \<Rightarrow> k m u | Symlink t \<Rightarrow> l t)"
  by (cases v) simp_all

lemma at_resolved: "(\<And>q. unchanged g (f q)) \<Longrightarrow> unchanged g (resolved p f)"
  by (auto simp: unchanged_def resolved_def split: option.splits)

lemma reading: "unchanged g (\<lambda>d. (d, r d))"
  by (simp add: unchanged_def)

lemma lstat: "unchanged g (symlink_metadata p)" and syncing: "unchanged g sync" and len: "unchanged g (metadata_len p)"
  unfolding symlink_metadata_def sync_def metadata_len_def by (intro operation at_resolved reading)+

lemma some: "unchanged g (fs_some x msg)"
  unfolding fs_some_def by (intro on_option return)

lemmas rules = return bind sequence with_context operation on_option on_node at_resolved lstat syncing len some

lemma file_len: "unchanged g (file_len_or_zero p)" and sync_dir: "unchanged g (sync_parent p)"
    and reject: "unchanged g (reject_symlink_file p kind)" and lock: "unchanged g lock_exclusive"
  unfolding file_len_or_zero_def sync_parent_def reject_symlink_file_def lock_exclusive_def by (intro rules)+

end

interpretation nodes: disk_view d_node
  by unfold_locales simp

text \<open>A view of the nodes that tells neither a new empty file nor a directory from nothing, and shows no mode.\<close>

locale node_view =
  fixes h :: "node option \<Rightarrow> 'v"
  assumes new_dir: "h (Some (Dir m u)) = h None" and new_file: "h (Some (File [] m)) = h None"
    and mode: "h (Some (set_mode m n)) = h (Some n)"

sublocale node_view \<subseteq> disk_view "\<lambda>d p. h (d_node d p)"
  by unfold_locales simp

lemma node_set_node [simp]: "d_node (set_node p n d) = (d_node d)(p := n)"
  by (simp add: set_node_def)

context node_view
begin

lemma chmod: "unchanged (\<lambda>d p. h (d_node d p)) (chmod p m)"
  unfolding chmod_def
  by (intro operation at_resolved) (auto simp: unchanged_def fun_eq_iff mode split: option.splits)

lemma opened_file: "unchanged (\<lambda>d p. h (d_node d p)) (open_create p m)"
  unfolding open_create_def
  by (intro operation at_resolved) (auto simp: unchanged_def fun_eq_iff new_file split: option.splits node.splits)

lemma making: "unchanged (\<lambda>d p. h (d_node d p)) (make_dirs ps)"
proof (induction ps)
  case (Cons p ps)
  have "unchanged (\<lambda>d p. h (d_node d p)) (make_dir p)"
    by (auto simp: unchanged_def make_dir_def fun_eq_iff new_dir split: option.splits node.splits)
  with Cons show ?case by (auto intro: rules)
qed (auto intro: rules)

lemma securing: "unchanged (\<lambda>d p. h (d_node d p)) (secure_existing_private_dir p n)"
proof -
  have "unchanged (\<lambda>d p. h (d_node d p)) (fs_context c (chmod p mode))" for c mode by (intro rules chmod)
  then show ?thesis unfolding secure_existing_private_dir_def
    by (intro on_node return) (auto simp: unchanged_def fs_bail_def fs_return_def)
qed

lemma private_dir: "unchanged (\<lambda>d p. h (d_node d p)) (create_private_dir_all p)"
  unfolding create_private_dir_all_def private_dir_metadata_def by (intro rules securing making chmod)

lemma permissions: "unchanged (\<lambda>d p. h (d_node d p)) (set_private_file_permissions p)"
  unfolding set_private_file_permissions_def by (intro rules chmod)

lemma lock_file: "unchanged (\<lambda>d p. h (d_node d p)) (open_lock_file p)"
  unfolding open_lock_file_def by (intro rules reject opened_file permissions)

lemmas keeping = rules file_len sync_dir reject lock chmod opened_file private_dir permissions lock_file

end

text \<open>What the files hold, and where the symbolic links point.\<close>

fun node_link :: "node option \<Rightarrow> string option" where
  "node_link (Some (Symlink t)) = Some t"
| "node_link _ = None"

definition links :: "disk \<Rightarrow> string \<Rightarrow> string option" where
  "links d p = node_link (d_node d p)"

interpretation held: node_view node_bytes
  rewrites "(\<lambda>d p. node_bytes (d_node d p)) = contents"
  by unfold_locales (auto simp: set_mode_def contents_def fun_eq_iff split: node.splits)

interpretation linked: node_view node_link
  rewrites "(\<lambda>d p. node_link (d_node d p)) = links"
  by unfold_locales (auto simp: set_mode_def links_def fun_eq_iff split: node.splits)

abbreviation leaves :: "'a fs \<Rightarrow> bool" where
  "leaves \<equiv> unchanged contents"

lemmas [keeps_rules] = held.keeping

lemma contents_simps [simp]: "contents (d_faults_update f d) = contents d"
  by (simp add: contents_def fun_eq_iff)

lemma contents_set_node: "contents (set_node p n d) = (contents d)(p := node_bytes n)"
  by (simp add: contents_def fun_eq_iff)

lemma contents_node: "d_node d p = n \<Longrightarrow> contents d p = node_bytes n"
  by (simp add: contents_def)

section \<open>Rotation loses nothing but the oldest file\<close>

definition history_file :: "string \<Rightarrow> nat \<Rightarrow> string" where
  "history_file p i = (if i = 0 then p else rotated_path p i)"

text \<open>The history of a file with \<open>k\<close> rotations, the oldest record first.\<close>

definition history :: "disk \<Rightarrow> string \<Rightarrow> nat \<Rightarrow> bytes" where
  "history d p k = concat (map (\<lambda>i. contents d (history_file p i)) (rev [0..<Suc k]))"

lemma digit_value: "n < 10 \<Longrightarrow> byte_val (char_of (48 + n)) - 48 = n"
  by (simp add: byte_val_def)

lemma decimal_value: "foldl (\<lambda>v c. 10 * v + (byte_val c - 48)) 0 (decimal n) = n"
proof (induction n rule: decimal.induct)
  case (1 n)
  then show ?case by (subst decimal.simps) (simp add: digit_value)
qed

lemma decimal_inject: "decimal m = decimal n \<Longrightarrow> m = n"
  by (metis decimal_value)

lemma history_file_inject: "history_file p i = history_file p j \<longleftrightarrow> i = j"
  by (auto simp: history_file_def rotated_path_def dest: decimal_inject split: if_splits)

lemma concat_shift:
  assumes "f (Suc i) = []" "i < k"
  shows "concat (map (f(Suc i := f i, i := [])) (rev [0..<Suc k])) = concat (map f (rev [0..<Suc k]))"
proof -
  have "[0..<Suc k] = [0..<i] @ [i, Suc i] @ [Suc (Suc i)..<Suc k]"
    using assms(2) by (metis append_Cons append_Nil less_Suc_eq_le not_less_eq upt_add_eq_append upt_conv_Cons zero_le less_or_eq_imp_le Suc_leI le_add_diff_inverse le0)
  then show ?thesis using assms(1) by (simp add: map_fun_upd)
qed

definition within_limit :: "nat \<Rightarrow> disk \<Rightarrow> string \<Rightarrow> nat \<Rightarrow> bool" where
  "within_limit B d p k \<longleftrightarrow> (\<forall>i \<le> k. length (contents d (history_file p i)) \<le> B)"

lemma remove_run:
  assumes "remove_file_if_exists q d = (d', r)"
  shows "(r = Inr () \<and> contents d' = (contents d)(q := [])) \<or> (isl r \<and> contents d' = contents d)"
    "p \<noteq> q \<Longrightarrow> d_node d' p = d_node d p"
  using assms
  by (auto simp: remove_file_if_exists_def fs_bind_def fs_context_def unlink_def fs_op_def fs_return_def contents_set_node
      fun_upd_idem_iff set_node_def fun_upd_idem contents_def split: list.splits option.splits node.splits)

lemma fs_op_run:
  assumes "fs_op untouched act d = (d', r)"
  obtains d0 where "d_node d0 = d_node d" "contents d0 = contents d" "d' = d0" "isl r"
    | d0 where "d_node d0 = d_node d" "contents d0 = contents d" "act d0 = (d', r)"
proof (cases "d_faults d")
  case Nil
  with assms that(2) [of d] show ?thesis by (simp add: fs_op_def)
next
  case (Cons f fs)
  let ?d = "d\<lparr>d_faults := fs\<rparr>"
  have same: "d_node ?d = d_node d" "contents ?d = contents d" by simp_all
  show ?thesis
  proof (cases f)
    case None
    with assms Cons have "act ?d = (d', r)" by (simp add: fs_op_def)
    with same show ?thesis by (rule that(2))
  next
    case (Some n)
    with assms Cons have "d' = ?d" "isl r" by (auto simp: fs_op_def)
    with same show ?thesis by (rule that(1))
  qed
qed

lemma rename_op:
  assumes "rename a b d = (d', r)" "a \<noteq> b" "contents d b = []"
  shows "(\<not> isl r \<and> contents d' = (contents d)(b := contents d a, a := []) \<and> (\<forall>p. p \<noteq> b \<longrightarrow> d_node d' p \<in> {d_node d p, None}))
    \<or> (isl r \<and> contents d' = contents d \<and> d_node d' = d_node d)"
  using assms(1) unfolding rename_def
proof (cases rule: fs_op_run)
  case (1 d0)
  then show ?thesis by simp
next
  case (2 d0)
  show ?thesis
  proof (cases "d_node d0 a")
    case None
    with 2 have "contents d a = []" "d' = d0" "\<not> isl r" by (auto dest: contents_node)
    with assms(3) 2 show ?thesis by (auto simp: fun_upd_idem_iff)
  next
    case (Some n)
    then have "contents d a = node_bytes (Some n)" using contents_node [OF Some] 2(2) by simp
    with Some 2 assms(2) show ?thesis
      by (auto simp: contents_set_node split: if_splits)
  qed
qed

lemma rename_run:
  assumes "rename_if_exists a b d = (d', r)" "a \<noteq> b" "contents d b = []"
  shows "(r = Inr () \<and> contents d' = (contents d)(b := contents d a, a := []) \<and> (\<forall>p. p \<noteq> b \<longrightarrow> d_node d' p \<in> {d_node d p, None}))
    \<or> (isl r \<and> contents d' = contents d \<and> d_node d' = d_node d)"
proof -
  obtain d1 r0 where r0: "rename a b d = (d1, r0)" by fastforce
  with assms(1) have "d' = d1 \<and> isl r = isl r0 \<and> (\<not> isl r0 \<longrightarrow> r = Inr ())"
    by (cases r0) (auto simp: rename_if_exists_def fs_bind_def fs_context_def fs_return_def)
  with rename_op [OF r0 assms(2,3)] show ?thesis by auto
qed

lemma history_shift:
  assumes "contents d' = (contents d)(history_file p (Suc i) := contents d (history_file p i), history_file p i := [])"
    and "contents d (history_file p (Suc i)) = []" "i < k"
  shows "history d' p k = history d p k" "within_limit B d p k \<Longrightarrow> within_limit B d' p k"
proof -
  let ?f = "\<lambda>j. contents d (history_file p j)"
  have f: "(\<lambda>j. contents d' (history_file p j)) = ?f(Suc i := ?f i, i := [])"
    using assms(1) by (auto simp: fun_eq_iff history_file_inject)
  show "history d' p k = history d p k"
    unfolding history_def f using concat_shift [of ?f i k] assms(2,3) by simp
  show "within_limit B d' p k" if "within_limit B d p k"
    using that assms(3) unfolding within_limit_def by (auto simp: fun_eq_iff [THEN iffD1, OF f, THEN spec])
qed

text \<open>Renaming one history file to the free place after it.\<close>

lemma step_run:
  assumes "rename_if_exists (history_file p i) (history_file p (Suc i)) d = (d', r)" "contents d (history_file p (Suc i)) = []" "i < k"
  shows "history d' p k = history d p k" "within_limit B d p k \<Longrightarrow> within_limit B d' p k"
    "d_node d' p \<in> {d_node d p, None}" "r = Inr () \<Longrightarrow> contents d' (history_file p i) = []"
proof -
  have ne: "history_file p i \<noteq> history_file p (Suc i)" "p \<noteq> history_file p (Suc i)"
    by (auto simp: history_file_inject) (auto simp: history_file_def rotated_path_def)
  note R = rename_run [OF assms(1) ne(1) assms(2)]
  show "history d' p k = history d p k"
    using R history_shift(1) [OF _ assms(2,3)] by (auto simp: history_def)
  show "within_limit B d' p k" if "within_limit B d p k"
    using R history_shift(2) [OF _ assms(2,3) that] that by (auto simp: within_limit_def)
  show "d_node d' p \<in> {d_node d p, None}" using R ne(2) by auto
  show "contents d' (history_file p i) = []" if "r = Inr ()" using R that by auto
qed

lemma rotate_down_run:
  assumes "rotate_down p i d = (d', r)" "contents d (history_file p (Suc i)) = []" "i < k"
  shows "history d' p k = history d p k \<and> (within_limit B d p k \<longrightarrow> within_limit B d' p k) \<and> d_node d' p \<in> {d_node d p, None}
    \<and> (r = Inr () \<longrightarrow> contents d' (history_file p 1) = [])"
  using assms
proof (induction i arbitrary: d)
  case 0
  then show ?case by (simp add: fs_return_def)
next
  case (Suc i)
  obtain d1 r1 where s: "rename_if_exists (history_file p (Suc i)) (history_file p (Suc (Suc i))) d = (d1, r1)" by fastforce
  note S = step_run [OF s Suc.prems(2,3)]
  show ?case
  proof (cases r1)
    case (Inl e)
    with Suc.prems(1) s have "d' = d1" "r = Inl e" by (auto simp: fs_then_def fs_bind_def history_file_def)
    with S show ?thesis by simp
  next
    case (Inr u)
    with Suc.prems(1) s have "rotate_down p i d1 = (d', r)" by (auto simp: fs_then_def fs_bind_def history_file_def)
    from Suc.IH [OF this] S Inr Suc.prems(3) show ?thesis by auto
  qed
qed

lemma fs_bind_run:
  "fs_bind m f d = (d', r) \<longleftrightarrow> (\<exists>e. m d = (d', Inl e) \<and> r = Inl e) \<or> (\<exists>d1 x. m d = (d1, Inr x) \<and> f x d1 = (d', r))"
  by (auto simp: fs_bind_def split: prod.splits sum.splits)

lemma fs_then_run:
  "fs_then m k d = (d', r) \<longleftrightarrow> (\<exists>e. m d = (d', Inl e) \<and> r = Inl e) \<or> (\<exists>d1. m d = (d1, Inr ()) \<and> k d1 = (d', r))"
  by (auto simp: fs_then_def fs_bind_run)

text \<open>What a rotation does to the history of a file, wherever it stops.\<close>

definition rotates :: "string \<Rightarrow> nat \<Rightarrow> disk \<Rightarrow> disk \<Rightarrow> bool" where
  "rotates p k d d' \<longleftrightarrow> history d' p k \<in> {history d p k, drop (length (contents d (history_file p k))) (history d p k)}
     \<and> (\<forall>B. within_limit B d p k \<longrightarrow> within_limit B d' p k) \<and> d_node d' p \<in> {d_node d p, None}"

lemma history_split: "history d p (Suc k) = contents d (history_file p (Suc k)) @ history d p k"
  by (simp add: history_def)

lemma history_first: "\<exists>older. history d p k = older @ contents d p \<and> (\<forall>d'. (\<forall>i. 0 < i \<longrightarrow> contents d' (history_file p i) = contents d (history_file p i))
    \<longrightarrow> history d' p k = older @ contents d' p)"
proof (induction k)
  case 0
  show ?case by (auto simp: history_def history_file_def)
next
  case (Suc k)
  then obtain older where "history d p k = older @ contents d p"
    "\<forall>d'. (\<forall>i. 0 < i \<longrightarrow> contents d' (history_file p i) = contents d (history_file p i)) \<longrightarrow> history d' p k = older @ contents d' p"
    by blast
  then show ?case by (intro exI [of _ "contents d (history_file p (Suc k)) @ older"]) (simp add: history_split)
qed

lemma remove_oldest:
  assumes "remove_file_if_exists (history_file p (Suc k)) d = (d', r)"
  shows "rotates p (Suc k) d d'" "r = Inr () \<Longrightarrow> contents d' (history_file p (Suc k)) = []"
proof -
  have ne: "p \<noteq> history_file p (Suc k)" by (auto simp: history_file_def rotated_path_def)
  have inner: "history d' p k = history d p k" if "contents d' = (contents d)(history_file p (Suc k) := [])"
    unfolding history_def that by (intro arg_cong [of _ _ concat] map_cong) (auto simp: history_file_inject)
  note R = remove_run [OF assms]
  show "contents d' (history_file p (Suc k)) = []" if "r = Inr ()" using R(1) that by auto
  from R(1) show "rotates p (Suc k) d d'"
  proof (elim disjE conjE)
    assume c: "contents d' = (contents d)(history_file p (Suc k) := [])"
    then show ?thesis unfolding rotates_def history_split inner [OF c] using R(2) [OF ne] by (auto simp: within_limit_def)
  next
    assume c: "contents d' = contents d"
    then show ?thesis unfolding rotates_def using R(2) [OF ne] by (auto simp: within_limit_def history_def)
  qed
qed

lemma rotates_then:
  assumes "rotates p k d d1" "history d2 p k = history d1 p k" "\<And>B. within_limit B d1 p k \<Longrightarrow> within_limit B d2 p k" "d_node d2 p \<in> {d_node d1 p, None}"
  shows "rotates p k d d2"
  using assms unfolding rotates_def by auto

lemma same_contents: "contents d' = contents d \<Longrightarrow> history d' p k = history d p k" "contents d' = contents d \<Longrightarrow> within_limit B d' p k = within_limit B d p k"
  by (simp_all add: history_def within_limit_def)

lemma rotate_files_run:
  assumes "rotate_files p (Suc k) d = (d', r)"
  shows "rotates p (Suc k) d d' \<and> (r = Inr () \<longrightarrow> contents d' p = [])"
proof -
  have hf: "rotated_path p (Suc k) = history_file p (Suc k)" "rotated_path p 1 = history_file p (Suc 0)" "history_file p 0 = p"
    by (simp_all add: history_file_def)
  obtain d1 r1 where s1: "remove_file_if_exists (history_file p (Suc k)) d = (d1, r1)" by fastforce
  note R = remove_oldest [OF s1]
  obtain d2 r2 where s2: "rotate_down p k d1 = (d2, r2)" by fastforce
  obtain d3 r3 where s3: "rename_if_exists p (history_file p (Suc 0)) d2 = (d3, r3)" by fastforce
  obtain d4 r4 where s4: "fs_bind (fs_some (path_parent p) ''history path has no parent'') sync_parent d3 = (d4, r4)" by fastforce
  have "leaves (fs_bind (fs_some (path_parent p) ''history path has no parent'') sync_parent)" by (intro keeps_rules)
  from unchanged_run [OF this s4] have c4: "contents d4 = contents d3" .
  have n4: "d_node d4 = d_node d3" using s4
    by (auto simp: fs_bind_run fs_some_def fs_bail_def fs_return_def dest: unchanged_run [OF nodes.sync_dir] split: option.splits)
  have down: "rotates p (Suc k) d d2 \<and> (r2 = Inr () \<longrightarrow> contents d2 (history_file p (Suc 0)) = [])" if "r1 = Inr ()"
    using rotate_down_run [OF s2 R(2) [OF that], of "Suc k"] rotates_then [OF R(1), of d2] by simp
  have moved: "rotates p (Suc k) d d3 \<and> (r3 = Inr () \<longrightarrow> contents d3 p = [])" if "r1 = Inr ()" "r2 = Inr ()"
    using step_run [of p 0 d2 d3 r3 "Suc k"] s3 down that rotates_then [of p "Suc k" d d2 d3] by (simp add: hf)
  have synced: "rotates p (Suc k) d d4 \<and> contents d4 p = []" if "r1 = Inr ()" "r2 = Inr ()" "r3 = Inr ()"
    using moved that rotates_then [of p "Suc k" d d3 d4] same_contents [OF c4] n4 c4 by simp
  from assms consider "\<exists>e. r1 = Inl e \<and> d' = d1 \<and> r = Inl e" | "r1 = Inr ()" "\<exists>e. r2 = Inl e \<and> d' = d2 \<and> r = Inl e"
    | "r1 = Inr ()" "r2 = Inr ()" "\<exists>e. r3 = Inl e \<and> d' = d3 \<and> r = Inl e"
    | "r1 = Inr ()" "r2 = Inr ()" "r3 = Inr ()" "d' = d4"
    unfolding rotate_files_def hf(1,2) using s1 s2 s3 s4 by (auto simp: fs_then_run)
  then show ?thesis using R(1) down moved synced by cases auto
qed

section \<open>Appending\<close>

lemma reject_run:
  assumes "reject_symlink_file p kind d = (d', Inr ())"
  shows "\<nexists>t. d_node d' p = Some (Symlink t)"
  using assms by (auto simp: reject_symlink_file_def fs_bind_run fs_context_def symlink_metadata_def fs_op_def fs_bail_def fs_return_def
      split: list.splits option.splits node.splits prod.splits)

lemma follow_plain: "\<nexists>t. d_node d p = Some (Symlink t) \<Longrightarrow> follow (Suc k) (d_node d) p = Some p"
  by (auto split: option.splits node.splits)

lemma len_run:
  assumes "file_len_or_zero p d = (d', Inr n)" "\<nexists>t. d_node d p = Some (Symlink t)"
  shows "length (contents d p) \<le> n"
proof -
  obtain d0 m0 where m0: "metadata_len p d = (d0, m0)" by fastforce
  with assms(1) obtain m where m: "metadata_len p d = (d0, Inr m)" "n = (case m of None \<Rightarrow> 0 | Some n \<Rightarrow> n)"
    by (cases m0) (auto simp: file_len_or_zero_def fs_bind_def fs_context_def fs_return_def)
  from m(1) have "m = (case d_node d p of None \<Rightarrow> None | Some (File c m) \<Rightarrow> Some (length c) | Some _ \<Rightarrow> Some 4096)"
    unfolding metadata_len_def by (cases rule: fs_op_run) (use follow_plain [OF assms(2)] in \<open>auto simp: resolved_def numeral_eq_Suc\<close>)
  with m(2) show ?thesis by (auto simp: contents_def split: option.splits node.splits)
qed

lemma open_run:
  assumes "open_create p mode d = (d', Inr q)" "\<nexists>t. d_node d p = Some (Symlink t)"
  shows "q = p" "\<exists>c m. d_node d' p = Some (File c m)"
proof -
  have "q = p \<and> (\<exists>c m. d_node d' p = Some (File c m))"
    using assms(1) unfolding open_create_def
  proof (cases rule: fs_op_run)
    case (2 d0)
    then show ?thesis using follow_plain [OF assms(2)] by (auto simp: resolved_def numeral_eq_Suc split: option.splits node.splits)
  qed simp
  then show "q = p" "\<exists>c m. d_node d' p = Some (File c m)" by simp_all
qed

lemma appended_contents: "d_node d p = Some (File c m) \<Longrightarrow> contents (appended p bs d) = (contents d)(p := contents d p @ bs)"
  by (simp add: appended_def contents_set_node contents_node)

lemma write_all_run:
  assumes "write_all p bs d = (d', r)" "d_node d p = Some (File c m)"
  shows "\<exists>n. contents d' = (contents d)(p := contents d p @ take n bs) \<and> (r = Inr () \<longrightarrow> take n bs = bs)"
proof (cases "d_faults d")
  case Nil
  with assms show ?thesis by (intro exI [of _ "length bs"]) (auto simp: write_all_def fs_op_def appended_contents)
next
  case (Cons f fs)
  then have n: "d_node (d\<lparr>d_faults := fs\<rparr>) p = Some (File c m)" using assms(2) by simp
  show ?thesis
  proof (cases f)
    case None
    with Cons assms show ?thesis
      by (intro exI [of _ "length bs"]) (auto simp: write_all_def fs_op_def appended_contents [OF n])
  next
    case (Some k)
    with Cons assms show ?thesis by (intro exI [of _ k]) (auto simp: write_all_def fs_op_def appended_contents [OF n])
  qed
qed

lemma fs_context_run: "fs_context msg m d = (d', r) \<longleftrightarrow> (\<exists>r0. m d = (d', r0) \<and> r = map_sum (\<lambda>e. LContext msg # e) id r0)"
  by (auto simp: fs_context_def split: prod.splits)

lemma map_sum_Inr: "map_sum f id r0 = Inr x \<longleftrightarrow> r0 = Inr x" and map_sum_Inl: "map_sum f id r0 = Inl e \<longleftrightarrow> (\<exists>e0. r0 = Inl e0 \<and> e = f e0)"
  by (cases r0; auto)+

lemma append_run:
  assumes "append_private_file p bs d = (d', r)" "\<nexists>t. d_node d p = Some (Symlink t)"
  shows "\<exists>n. contents d' = (contents d)(p := contents d p @ take n bs) \<and> (r = Inr () \<longrightarrow> take n bs = bs)"
proof -
  obtain d1 r1 where o1: "open_create p MODE_FILE d = (d1, r1)" by fastforce
  have c1: "contents d1 = contents d" by (rule unchanged_run [OF held.opened_file o1])
  show ?thesis
  proof (cases r1)
    case (Inl e)
    with assms(1) o1 have "d' = d1" "isl r" by (auto simp: append_private_file_def write_private_contents_def fs_bind_def fs_context_def)
    with c1 show ?thesis by (intro exI [of _ 0]) auto
  next
    case (Inr q)
    from open_run [OF o1 [unfolded Inr] assms(2)] obtain c m where q: "q = p" "d_node d1 p = Some (File c m)" by blast
    obtain d2 r2 where w: "write_all p bs d1 = (d2, r2)" by fastforce
    define rest where "rest = fs_then (fs_context (''sync '' @ p) sync) (set_private_file_permissions p)"
    obtain d3 r3 where t: "rest d2 = (d3, r3)" by fastforce
    have "leaves rest" unfolding rest_def by (intro keeps_rules)
    from unchanged_run [OF this t] have "contents d3 = contents d2" .
    with assms(1) o1 Inr q(1) w t have "contents d' = contents d2 \<and> (r = Inr () \<longrightarrow> r2 = Inr ())"
      unfolding append_private_file_def write_private_contents_def rest_def [symmetric]
      by (cases r2) (simp_all add: fs_bind_def fs_then_def fs_context_def, auto)
    with write_all_run [OF w q(2)] c1 show ?thesis by auto
  qed
qed

lemma rotates_refl: "contents d' = contents d \<Longrightarrow> d_node d' = d_node d \<Longrightarrow> rotates p k d d'"
  by (simp add: rotates_def history_def within_limit_def)

text \<open>The length is read, the files rotated when the line would not fit, and the line appended.\<close>

definition grows :: "string \<Rightarrow> nat \<Rightarrow> nat \<Rightarrow> bytes \<Rightarrow> disk \<Rightarrow> disk \<Rightarrow> (anyhow_error + unit) \<Rightarrow> bool" where
  "grows p k limit line d d' r \<longleftrightarrow> (\<exists>d1 n. rotates p k d d1 \<and> contents d' = (contents d1)(p := contents d1 p @ take n line)
     \<and> (r = Inr () \<longrightarrow> take n line = line)
     \<and> (n = 0 \<or> contents d1 p = [] \<or> length (contents d1 p) + length line \<le> limit))"

lemma grow_run:
  assumes run: "fs_bind (file_len_or_zero p) (\<lambda>current.
      fs_then (if 0 < current \<and> limit < min (current + length line) (2 ^ 64 - 1) then rotate_files p (Suc k) else fs_return ())
        (append_private_file p line)) d = (d', r)"
    and plain: "\<nexists>t. d_node d p = Some (Symlink t)" and limit: "limit < 2 ^ 64 - 1"
  shows "grows p (Suc k) limit line d d' r"
proof -
  obtain d1 r1 where l: "file_len_or_zero p d = (d1, r1)" by fastforce
  have same: "contents d1 = contents d" "d_node d1 = d_node d"
    using unchanged_run [OF held.file_len l] unchanged_run [OF nodes.file_len l] .
  show ?thesis
  proof (cases r1)
    case (Inl e)
    with run l same show ?thesis unfolding grows_def
      by (intro exI [of _ d1] exI [of _ 0]) (auto simp: fs_bind_def intro: rotates_refl)
  next
    case (Inr current)
    note len = len_run [OF l [unfolded Inr] plain]
    let ?rot = "0 < current \<and> limit < min (current + length line) (2 ^ 64 - 1)"
    obtain d2 r2 where t: "(if ?rot then rotate_files p (Suc k) else fs_return ()) d1 = (d2, r2)" by fastforce
    have T: "rotates p (Suc k) d d2 \<and> (r2 = Inr () \<longrightarrow> contents d2 p = [] \<or> length (contents d2 p) + length line \<le> limit)"
    proof (cases ?rot)
      case True
      with t have "rotate_files p (Suc k) d1 = (d2, r2)" by simp
      from rotate_files_run [OF this] same show ?thesis by (auto simp: rotates_def within_limit_def history_def)
    next
      case False
      with t have "d2 = d1" by (auto simp: fs_return_def)
      moreover have "current = 0 \<or> current + length line \<le> limit" using False limit by auto
      ultimately show ?thesis using same len by (auto intro: rotates_refl)
    qed
    show ?thesis
    proof (cases r2)
      case (Inl e)
      with run l \<open>r1 = Inr current\<close> t have "d' = d2" "isl r" by (auto simp: fs_bind_def fs_then_def simp del: min_less_iff_conj)
      with T show ?thesis unfolding grows_def by (intro exI [of _ d2] exI [of _ 0]) auto
    next
      case (Inr u)
      with run l \<open>r1 = Inr current\<close> t have "append_private_file p line d2 = (d', r)"
        by (auto simp: fs_bind_def fs_then_def simp del: min_less_iff_conj)
      moreover have "\<nexists>t. d_node d2 p = Some (Symlink t)" using T plain by (auto simp: rotates_def)
      ultimately obtain n where "contents d' = (contents d2)(p := contents d2 p @ take n line)" "r = Inr () \<longrightarrow> take n line = line"
        using append_run by blast
      with T Inr show ?thesis unfolding grows_def by (intro exI [of _ d2] exI [of _ n]) auto
    qed
  qed
qed

lemma grows_history:
  assumes "grows p k limit line d d' r"
  shows "\<exists>old n. old \<in> {history d p k, drop (length (contents d (history_file p k))) (history d p k)}
      \<and> history d' p k = old @ take n line \<and> (r = Inr () \<longrightarrow> take n line = line)"
    and "length line \<le> limit \<Longrightarrow> within_limit limit d p k \<Longrightarrow> within_limit limit d' p k"
proof -
  from assms obtain d1 n where g: "rotates p k d d1" "contents d' = (contents d1)(p := contents d1 p @ take n line)"
      "r = Inr () \<longrightarrow> take n line = line" "n = 0 \<or> contents d1 p = [] \<or> length (contents d1 p) + length line \<le> limit"
    unfolding grows_def by blast
  have other: "contents d' (history_file p i) = contents d1 (history_file p i)" if "0 < i" for i
    using that g(2) by (auto simp: history_file_def rotated_path_def)
  obtain older where o1: "history d1 p k = older @ contents d1 p" and
    o2: "\<forall>d'. (\<forall>i. 0 < i \<longrightarrow> contents d' (history_file p i) = contents d1 (history_file p i)) \<longrightarrow> history d' p k = older @ contents d' p"
    using history_first by metis
  have h': "history d' p k = history d1 p k @ take n line"
    using o1 o2 other g(2) by simp
  show "\<exists>old n. old \<in> {history d p k, drop (length (contents d (history_file p k))) (history d p k)}
      \<and> history d' p k = old @ take n line \<and> (r = Inr () \<longrightarrow> take n line = line)"
    using g(1,3) h' unfolding rotates_def by blast
  assume b: "length line \<le> limit" "within_limit limit d p k"
  then have b1: "within_limit limit d1 p k" using g(1) by (simp add: rotates_def)
  have "length (contents d' (history_file p i)) \<le> limit" if "i \<le> k" for i
  proof (cases i)
    case 0
    have "length (take n line) \<le> length line" by simp
    then show ?thesis using g(2,4) b(1) b1 0 by (auto simp: within_limit_def history_file_def)
  next
    case (Suc j)
    then show ?thesis using other b1 that by (auto simp: within_limit_def)
  qed
  then show "within_limit limit d' p k" by (simp add: within_limit_def)
qed

lemma fs_assoc: "fs_then (fs_then m k) l = fs_then m (fs_then k l)" "fs_then (fs_bind n f) l = fs_bind n (\<lambda>x. fs_then (f x) l)"
  by (auto simp: fun_eq_iff fs_then_def fs_bind_def split: prod.splits sum.splits)

lemma fs_then_ok: "m d = (d1, Inr ()) \<Longrightarrow> fs_then m k d = k d1"
  by (simp add: fs_then_def fs_bind_def)

lemma limits: "unat HISTORY_MAX_BYTES = 524288" "HISTORY_ROTATIONS = Suc 2"
  by (simp_all add: HISTORY_MAX_BYTES_def HISTORY_ROTATIONS_def)

text \<open>
  C23. A history survives every failure of the file system in order. Whatever fails, and wherever, appending a
  record leaves the history it found, or that history without its oldest file, followed by a prefix of the new line; on
  success by the whole line. No file of the history grows past the limit as long as no single line is longer, and a
  history file that is a symbolic link is refused with nothing written.
\<close>

theorem history_append_keeps_order:
  assumes "append_history repo name value d = (d', r)"
  defines "p \<equiv> repository_path repo name" and "line \<equiv> value @ [CHR 0x0A]"
  shows "(\<exists>old n. old \<in> {history d p 3, drop (length (contents d (p @ ''.3''))) (history d p 3)}
        \<and> history d' p 3 = old @ take n line \<and> (r = Inr () \<longrightarrow> take n line = line))
    \<and> (length line \<le> 524288 \<and> within_limit 524288 d p 3 \<longrightarrow> within_limit 524288 d' p 3)
    \<and> ((\<exists>t. d_node d p = Some (Symlink t)) \<longrightarrow> isl r \<and> contents d' = contents d)"
proof -
  let ?open = "fs_bind (fs_some (path_parent p) ''state path has no parent'') create_private_dir_all"
  let ?ready = "fs_then ?open (reject_symlink_file p ''history file'')"
  let ?grow = "fs_bind (file_len_or_zero p) (\<lambda>current.
      fs_then (if 0 < current \<and> 524288 < min (current + length line) (2 ^ 64 - 1) then rotate_files p (Suc 2) else fs_return ())
        (append_private_file p line))"
  have split: "append_history repo name value = fs_then ?ready ?grow"
    unfolding append_history_def append_json_line_with_rotation_def p_def [symmetric] line_def [symmetric] Let_def fs_assoc limits ..
  obtain d1 r1 where ready: "?ready d = (d1, r1)" by fastforce
  have "leaves ?ready" by (intro keeps_rules)
  from unchanged_run [OF this ready] have c1: "contents d1 = contents d" .
  have "unchanged links ?ready" by (intro linked.keeping)
  from unchanged_run [OF this ready] have l1: "links d1 = links d" .
  have "decimal 3 = ''3''" by code_simp
  then have h3: "history_file p 3 = p @ ''.3''" by (simp add: history_file_def rotated_path_def)
  show ?thesis
  proof (cases r1)
    case (Inl e)
    with assms(1) split ready have "d' = d1" "isl r" by (auto simp: fs_then_def fs_bind_def)
    moreover from this c1 have "history d' p 3 = history d p 3 @ take 0 line" "within_limit 524288 d' p 3 = within_limit 524288 d p 3"
      by (simp_all add: history_def within_limit_def)
    ultimately show ?thesis using c1 by (metis disjI1 insertI1 sum.disc(2))
  next
    case (Inr u)
    with ready have plain: "\<nexists>t. d_node d1 p = Some (Symlink t)"
      using reject_run [of p "''history file''"] by (auto simp: fs_then_run)
    from ready Inr have "?ready d = (d1, Inr ())" by simp
    then have "fs_then ?ready ?grow d = ?grow d1" by (rule fs_then_ok)
    with assms(1) have "?grow d1 = (d', r)" by (simp only: split)
    from grow_run [OF this plain] have g: "grows p 3 524288 line d1 d' r" by simp
    have "\<nexists>t. d_node d p = Some (Symlink t)"
      using plain fun_cong [OF l1, of p] by (auto simp: links_def elim!: node_link.elims)
    with grows_history [OF g] c1 h3 show ?thesis by (auto simp: history_def within_limit_def)
  qed
qed

section \<open>A write that is cut short\<close>

definition demo_disk :: disk where
  "demo_disk = \<lparr>d_node = [''/s'' \<mapsto> Dir MODE_DIR 1000, ''/s/h'' \<mapsto> File ''c'' MODE_FILE, ''/s/h.1'' \<mapsto> File ''b'' MODE_FILE,
      ''/s/h.2'' \<mapsto> File ''a'' MODE_FILE], d_euid = 1000, d_faults = [None, None, None, None, Some 1]\<rparr>"

definition demo_repo :: repository where
  "demo_repo = \<lparr>repo_root = ''/s''\<rparr>"

lemma follow_links: "follow 41 nodes p = (case nodes p of Some (Symlink t) \<Rightarrow> follow 40 nodes t | _ \<Rightarrow> Some p)"
  using follow.simps(2) [of 40 nodes p] by simp

lemma demo_append:
  "isl (snd (append_history demo_repo ''h'' ''{}'' demo_disk))"
  "contents (fst (append_history demo_repo ''h'' ''{}'' demo_disk)) ''/s/h'' = ''c{''"
  by (simp_all add: append_history_def append_json_line_with_rotation_def fs_bind_def fs_then_def fs_some_def path_parent_def repository_path_def
      demo_repo_def demo_disk_def fs_return_def create_private_dir_all_def private_dir_metadata_def fs_context_def symlink_metadata_def
      fs_op_def secure_existing_private_dir_def MODE_DIR_def reject_symlink_file_def file_len_or_zero_def metadata_len_def resolved_def
      follow_links limits Let_def append_private_file_def write_private_contents_def open_create_def write_all_def appended_def set_node_def
      contents_def)

lemma demo_within_limit: "within_limit 524288 demo_disk ''/s/h'' 3"
  by (auto simp: within_limit_def le_Suc_eq numeral_3_eq_3 contents_def demo_disk_def)

theorem history_append_keeps_order_witness:
  "\<exists>d' e. append_history demo_repo ''h'' ''{}'' demo_disk = (d', Inl e) \<and> contents d' ''/s/h'' = ''c{'' \<and> within_limit 524288 d' ''/s/h'' 3"
proof -
  obtain d' e where run: "append_history demo_repo ''h'' ''{}'' demo_disk = (d', Inl e)" "contents d' ''/s/h'' = ''c{''"
    using demo_append by (metis isl_def prod.collapse)
  have "repository_path demo_repo ''h'' = ''/s/h''" by (simp add: repository_path_def demo_repo_def)
  with history_append_keeps_order [OF run(1)] demo_within_limit run show ?thesis by simp
qed

end
