(* ===== verification/Cache.thy ===== *)
theory Cache
  imports Storage Network_Entries
begin

text \<open>
  The cache of scan results, connection details and status (\<open>src/cache.rs\<close>, \<open>src/cache/merge.rs\<close>). Times are
  milliseconds; what \<open>serde_json\<close> writes and reads is a parameter.
\<close>

section \<open>Records\<close>

definition CACHE_VERSION :: u32 where "CACHE_VERSION = 2"

record cached_snapshot =
  cs_version :: u32
  cs_updated_at_ms :: nat
  cs_scanning :: bool
  cs_networks_found :: nat
  cs_networks :: "access_point list"

record cached_status =
  ct_version :: u32
  ct_updated_at_ms :: nat
  ct_state :: string
  ct_message :: string
  ct_timed_out :: "bool option"
  ct_networks_found :: "nat option"

record ('ip, 'w, 'm) connection_details =
  cd_ip4 :: "'ip option"
  cd_ip6 :: "'ip option"
  cd_wireless :: "'w option"
  cd_metered :: "'m option"
  cd_active_since_ms :: "u64 option"
  cd_updated_at_ms :: nat

text \<open>The fields of \<open>WifiStatus\<close> the cache looks at; \<open>ws_rest\<close> stands for the others.\<close>

record ('ip, 'w, 'm, 'x) wifi_status =
  ws_active :: bool
  ws_access_point :: "access_point option"
  ws_ip4 :: "'ip option"
  ws_ip6 :: "'ip option"
  ws_wireless :: "'w option"
  ws_metered :: "'m option"
  ws_active_since_ms :: "u64 option"
  ws_rest :: 'x

record ('ip, 'w, 'm, 'x) cached_active_status =
  ca_version :: u32
  ca_updated_at_ms :: nat
  ca_active :: bool
  ca_status :: "('ip, 'w, 'm, 'x) wifi_status"

record ('ip, 'w, 'm) cached_known_connections =
  ck_version :: u32
  ck_updated_at_ms :: nat
  ck_connections :: "(string, ('ip, 'w, 'm) connection_details) hash_map"

record ('ip, 'w, 'm, 'x) cache_codec =
  cx_snapshot :: "cached_snapshot \<Rightarrow> string"
  cx_parse_snapshot :: "string \<Rightarrow> string + cached_snapshot"
  cx_status :: "cached_status \<Rightarrow> string"
  cx_active_status :: "('ip, 'w, 'm, 'x) cached_active_status \<Rightarrow> string"
  cx_known :: "('ip, 'w, 'm) cached_known_connections \<Rightarrow> string"
  cx_parse_known :: "string \<Rightarrow> string + ('ip, 'w, 'm) cached_known_connections"

definition unavailable_message :: "string \<Rightarrow> 'a cache_read \<Rightarrow> string option" where
  "unavailable_message subject state =
     (case state of
        Missing \<Rightarrow> Some (subject @ '' is missing'')
      | Stale found expected \<Rightarrow>
          Some (subject @ '' uses schema version '' @ decimal (unat found) @ ''; expected '' @ decimal (unat expected))
      | Corrupt message \<Rightarrow> Some (subject @ '' is corrupt: '' @ message)
      | Available _ \<Rightarrow> None)"

definition validate_version :: "('a \<Rightarrow> u32) \<Rightarrow> 'a cache_read \<Rightarrow> 'a cache_read" where
  "validate_version version state =
     (case state of
        Available v \<Rightarrow> if version v = CACHE_VERSION then Available v else Stale (version v) CACHE_VERSION
      | other \<Rightarrow> other)"

definition snapshot_record :: "nat \<Rightarrow> bool \<Rightarrow> access_point list \<Rightarrow> cached_snapshot" where
  "snapshot_record now scanning networks =
     \<lparr>cs_version = CACHE_VERSION, cs_updated_at_ms = now, cs_scanning = scanning, cs_networks_found = length networks,
      cs_networks = networks\<rparr>"

definition NETWORK_SNAPSHOT_STALE_AFTER_MS :: nat where "NETWORK_SNAPSHOT_STALE_AFTER_MS = 30000"

record network_snapshot_metadata =
  sm_from_cache :: bool
  sm_updated_at_ms :: nat
  sm_age_ms :: nat
  sm_stale :: bool
  sm_scanning :: bool
  sm_refresh_requested :: bool

definition snapshot_metadata :: "nat \<Rightarrow> cached_snapshot \<Rightarrow> bool \<Rightarrow> network_snapshot_metadata" where
  "snapshot_metadata now s refresh_requested =
     (let age_ms = min (now - cs_updated_at_ms s) (2 ^ 64 - 1)
      in \<lparr>sm_from_cache = True, sm_updated_at_ms = cs_updated_at_ms s, sm_age_ms = age_ms,
          sm_stale = (min NETWORK_SNAPSHOT_STALE_AFTER_MS (2 ^ 64 - 1) < age_ms), sm_scanning = cs_scanning s,
          sm_refresh_requested = refresh_requested\<rparr>)"

section \<open>Merging\<close>

definition cache_network_key :: "access_point \<Rightarrow> string" where
  "cache_network_key ap = ssid_hex (ssid_bytes_of ap) @ ''|'' @ security_as_str (ap_security ap)"

definition attach_details :: "(string, 'd) hash_map \<Rightarrow> 'd network_entry list \<Rightarrow> 'd network_entry list \<times> nat" where
  "attach_details connections networks =
     (let entries = map (\<lambda>n. n\<lparr>ne_last_connection := hm_get connections (cache_network_key (ne_access_point n))\<rparr>) networks
      in (entries, length (filter (\<lambda>n. ne_last_connection n \<noteq> None) entries)))"

definition mark_inactive :: "access_point list \<Rightarrow> access_point list" where
  "mark_inactive networks = map (\<lambda>n. n\<lparr>ap_active := False\<rparr>) networks"

definition same_access_point :: "access_point \<Rightarrow> access_point \<Rightarrow> bool" where
  "same_access_point l r =
     (if ap_path l \<noteq> [] \<and> ap_path r \<noteq> [] then ap_path l = ap_path r
      else if ap_bssid l \<noteq> [] \<and> ap_bssid r \<noteq> [] then eq_ignore_ascii_case (ap_bssid l) (ap_bssid r)
      else ssid_bytes_of l = ssid_bytes_of r \<and> ap_security l = ap_security r)"

fun replace_first :: "('a \<Rightarrow> bool) \<Rightarrow> 'a \<Rightarrow> 'a list \<Rightarrow> 'a list option" where
  "replace_first P y [] = None"
| "replace_first P y (x # xs) = (if P x then Some (y # xs) else map_option (\<lambda>ys. x # ys) (replace_first P y xs))"

definition upsert_connected_access_point :: "access_point list \<Rightarrow> access_point \<Rightarrow> access_point list" where
  "upsert_connected_access_point networks0 ap0 =
     (let networks = mark_inactive networks0; ap = ap0\<lparr>ap_active := True\<rparr>
      in case replace_first (\<lambda>n. same_access_point n ap) ap networks of Some ns \<Rightarrow> ns | None \<Rightarrow> ap # networks)"

section \<open>Operations\<close>

definition write_snapshot_file ::
    "core_files \<Rightarrow> ('ip, 'w, 'm, 'x) cache_codec \<Rightarrow> repository \<Rightarrow> string \<Rightarrow> cached_snapshot \<Rightarrow> unit fs" where
  "write_snapshot_file core cx repo name s = write_json_atomic core (repository_path repo name) (cx_snapshot cx s)"

definition write_live_scan_snapshot ::
    "core_files \<Rightarrow> ('ip, 'w, 'm, 'x) cache_codec \<Rightarrow> repository \<Rightarrow> (nat \<Rightarrow> nat) \<Rightarrow> bool \<Rightarrow> access_point list \<Rightarrow> unit fs" where
  "write_live_scan_snapshot core cx repo now scanning networks =
     write_transaction repo
       (fs_then (if \<not> scanning then write_snapshot_file core cx repo ''latest.json'' (snapshot_record (now 0) False networks)
                 else fs_return ())
         (write_snapshot_file core cx repo ''scan-session.json'' (snapshot_record (now 1) scanning networks)))"

definition write_snapshot ::
    "core_files \<Rightarrow> ('ip, 'w, 'm, 'x) cache_codec \<Rightarrow> repository \<Rightarrow> nat \<Rightarrow> bool \<Rightarrow> access_point list \<Rightarrow> unit fs" where
  "write_snapshot core cx repo now scanning networks =
     write_transaction repo (write_snapshot_file core cx repo ''latest.json'' (snapshot_record now scanning networks))"

definition write_status_record :: "core_files \<Rightarrow> ('ip, 'w, 'm, 'x) cache_codec \<Rightarrow> repository \<Rightarrow> cached_status \<Rightarrow> unit fs" where
  "write_status_record core cx repo status =
     write_transaction repo (write_json_atomic core (repository_path repo ''status.json'') (cx_status cx status))"

definition write_status ::
    "core_files \<Rightarrow> ('ip, 'w, 'm, 'x) cache_codec \<Rightarrow> repository \<Rightarrow> nat \<Rightarrow> string \<Rightarrow> string \<Rightarrow> unit fs" where
  "write_status core cx repo now state message =
     write_status_record core cx repo \<lparr>ct_version = CACHE_VERSION, ct_updated_at_ms = now, ct_state = state, ct_message = message,
       ct_timed_out = None, ct_networks_found = None\<rparr>"

definition write_complete :: "core_files \<Rightarrow> ('ip, 'w, 'm, 'x) cache_codec \<Rightarrow> repository \<Rightarrow> nat \<Rightarrow> nat \<Rightarrow> unit fs" where
  "write_complete core cx repo now networks_found =
     write_status_record core cx repo \<lparr>ct_version = CACHE_VERSION, ct_updated_at_ms = now, ct_state = ''complete'',
       ct_message = ''scan complete; '' @ decimal networks_found @ '' networks available'', ct_timed_out = Some False,
       ct_networks_found = Some networks_found\<rparr>"

definition read_snapshot :: "core_files \<Rightarrow> ('ip, 'w, 'm, 'x) cache_codec \<Rightarrow> repository \<Rightarrow> cached_snapshot cache_read fs" where
  "read_snapshot core cx repo =
     fs_bind (read_json_path core (cx_parse_snapshot cx) (repository_path repo ''latest.json'')) (\<lambda>s.
       fs_return (validate_version cs_version s))"

definition read_known_connections ::
    "core_files \<Rightarrow> ('ip, 'w, 'm, 'x) cache_codec \<Rightarrow> repository \<Rightarrow> ('ip, 'w, 'm) cached_known_connections cache_read fs" where
  "read_known_connections core cx repo =
     fs_bind (read_json_path core (cx_parse_known cx) (repository_path repo ''known-connections.json'')) (\<lambda>s.
       fs_return (validate_version ck_version s))"

definition empty_known_connections :: "nat \<Rightarrow> ('ip, 'w, 'm) cached_known_connections" where
  "empty_known_connections now = \<lparr>ck_version = CACHE_VERSION, ck_updated_at_ms = now, ck_connections = []\<rparr>"

definition read_known_for_update ::
    "core_files \<Rightarrow> ('ip, 'w, 'm, 'x) cache_codec \<Rightarrow> repository \<Rightarrow> nat \<Rightarrow> ('ip, 'w, 'm) cached_known_connections fs" where
  "read_known_for_update core cx repo now =
     fs_bind (read_known_connections core cx repo) (\<lambda>s. case s of
        Available known \<Rightarrow> fs_return known
      | Missing \<Rightarrow> fs_return (empty_known_connections now)
      | Stale found expected \<Rightarrow> fs_return (empty_known_connections now)
      | Corrupt message \<Rightarrow> fs_bail (''refusing to overwrite corrupt known-connections cache: '' @ message))"

definition update_snapshot ::
    "core_files \<Rightarrow> ('ip, 'w, 'm, 'x) cache_codec \<Rightarrow> repository \<Rightarrow> cached_snapshot cache_read
      \<Rightarrow> (access_point list \<Rightarrow> access_point list) \<Rightarrow> unit fs" where
  "update_snapshot core cx repo snapshot update =
     (case snapshot of
        Available s \<Rightarrow>
          let networks = update (cs_networks s)
          in write_snapshot_file core cx repo ''latest.json''
               (s\<lparr>cs_networks := networks, cs_scanning := False, cs_networks_found := length networks\<rparr>)
      | _ \<Rightarrow> fs_return ())"

definition details_of :: "('ip, 'w, 'm, 'x) wifi_status \<Rightarrow> nat \<Rightarrow> ('ip, 'w, 'm) connection_details" where
  "details_of status now =
     \<lparr>cd_ip4 = ws_ip4 status, cd_ip6 = ws_ip6 status, cd_wireless = ws_wireless status, cd_metered = ws_metered status,
      cd_active_since_ms = ws_active_since_ms status, cd_updated_at_ms = now\<rparr>"

text \<open>\<open>now\<close> gives the readings of the clock in turn.\<close>

definition cache_connected_network_status ::
    "core_files \<Rightarrow> ('ip, 'w, 'm, 'x) cache_codec \<Rightarrow> repository \<Rightarrow> (nat \<Rightarrow> nat) \<Rightarrow> ('ip, 'w, 'm, 'x) wifi_status \<Rightarrow> unit fs" where
  "cache_connected_network_status core cx repo now status =
     write_transaction repo
       (fs_bind (read_snapshot core cx repo) (\<lambda>snapshot.
        fs_bind (if ws_active status \<and> ws_access_point status \<noteq> None
                 then fs_bind (read_known_for_update core cx repo (now 0)) (\<lambda>k. fs_return (Some k)) else fs_return None) (\<lambda>known.
        fs_then (write_json_atomic core (repository_path repo ''active-status.json'')
                   (cx_active_status cx \<lparr>ca_version = CACHE_VERSION, ca_updated_at_ms = now 1, ca_active = ws_active status, ca_status = status\<rparr>))
          (case (ws_access_point status, known) of
             (Some ap, Some k) \<Rightarrow>
               fs_then (write_json_atomic core (repository_path repo ''known-connections.json'') (cx_known cx
                   (k\<lparr>ck_updated_at_ms := now 2,
                      ck_connections := hm_insert (cache_network_key ap) (details_of status (now 2)) (ck_connections k)\<rparr>)))
                 (update_snapshot core cx repo snapshot (\<lambda>ns. upsert_connected_access_point ns ap))
           | _ \<Rightarrow> update_snapshot core cx repo snapshot mark_inactive))))"

definition attach_connection_details ::
    "core_files \<Rightarrow> ('ip, 'w, 'm, 'x) cache_codec \<Rightarrow> repository \<Rightarrow> ('ip, 'w, 'm) connection_details network_entry list
      \<Rightarrow> (('ip, 'w, 'm) connection_details network_entry list \<times> nat cache_read) fs" where
  "attach_connection_details core cx repo networks =
     fs_bind (read_known_connections core cx repo) (\<lambda>s. fs_return (case s of
        Available known \<Rightarrow> (let (ns, n) = attach_details (ck_connections known) networks in (ns, Available n))
      | Missing \<Rightarrow> (networks, Missing)
      | Stale found expected \<Rightarrow> (networks, Stale found expected)
      | Corrupt message \<Rightarrow> (networks, Corrupt message)))"

definition clear_active_connection_cache ::
    "core_files \<Rightarrow> ('ip, 'w, 'm, 'x) cache_codec \<Rightarrow> repository \<Rightarrow> unit fs" where
  "clear_active_connection_cache core cx repo =
     write_transaction repo
       (fs_bind (read_snapshot core cx repo) (\<lambda>snapshot.
        fs_then (remove_file_if_exists (repository_path repo ''active-status.json''))
          (update_snapshot core cx repo snapshot mark_inactive)))"

definition append_connect_attempt :: "repository \<Rightarrow> bytes \<Rightarrow> unit fs" where
  "append_connect_attempt repo rec = write_transaction repo (append_history repo ''connects.jsonl'' rec)"

definition append_profile_operation_audit :: "repository \<Rightarrow> bytes \<Rightarrow> unit fs" where
  "append_profile_operation_audit repo rec = write_transaction repo (append_history repo ''profile-operations.jsonl'' rec)"

section \<open>What the cache does to its files\<close>

text \<open>
  What the cache relies on of \<open>shelllist_daemon_core\<close>: a within_limit read changes nothing and returns the file, or that
  there is none; an atomic write replaces the file or leaves everything as it was.
\<close>

definition core_laws :: "core_files \<Rightarrow> bool" where
  "core_laws core \<longleftrightarrow>
     (\<forall>p b d d' r. read_bytes_bounded core p b d = (d', r) \<longrightarrow> contents d' = contents d
        \<and> (\<forall>bs. r = Inr (Some bs) \<longrightarrow> bs = contents d p) \<and> (r = Inr None \<longrightarrow> contents d p = []))
   \<and> (\<forall>p bs d d' r. write_bytes_atomic core p bs d = (d', r) \<longrightarrow>
        (r = Inr () \<and> contents d' = (contents d)(p := bs)) \<or> (isl r \<and> contents d' = contents d))"

lemma read_law:
  assumes "core_laws core" "read_bytes_bounded core p b d = (d', r)"
  shows "contents d' = contents d" "r = Inr (Some bs) \<Longrightarrow> bs = contents d p" "r = Inr None \<Longrightarrow> contents d p = []"
proof -
  note L = assms(1) [unfolded core_laws_def, THEN conjunct1, THEN spec, THEN spec, THEN spec, THEN spec, THEN spec, THEN mp, OF assms(2)]
  show "contents d' = contents d" "r = Inr (Some bs) \<Longrightarrow> bs = contents d p" "r = Inr None \<Longrightarrow> contents d p = []" using L by simp_all
qed

lemma write_law:
  assumes "core_laws core" "write_bytes_atomic core p bs d = (d', r)"
  shows "(r = Inr () \<and> contents d' = (contents d)(p := bs)) \<or> (isl r \<and> contents d' = contents d)"
  using assms(1) [unfolded core_laws_def, THEN conjunct2, THEN spec, THEN spec, THEN spec, THEN spec, THEN spec, THEN mp, OF assms(2)] .

lemma read_json_run:
  assumes "core_laws core" "read_json_path core parse p d = (d', r)"
  shows "contents d' = contents d"
    "r = Inr s \<Longrightarrow> (s = Missing \<and> contents d p = []) \<or> (\<exists>v. parse (contents d p) = Inr v \<and> s = Available v)
       \<or> (\<exists>e m. parse (contents d p) = Inl e \<and> s = Corrupt m)"
proof -
  obtain d1 r1 where b: "read_bytes_bounded core p CACHE_MAX_BYTES d = (d1, r1)" by fastforce
  note L = read_law [OF assms(1) b]
  have run: "d' = d1 \<and> (r = Inr s \<longrightarrow> (r1 = Inr None \<and> s = Missing) \<or>
      (\<exists>bs. r1 = Inr (Some bs) \<and> s = (case parse bs of Inr v \<Rightarrow> Available v | Inl e \<Rightarrow> Corrupt (''parse '' @ p @ '': '' @ e))))" for s
  proof (cases r1)
    case (Inl e)
    with assms(2) b show ?thesis by (auto simp: read_json_path_def fs_bind_def fs_context_def)
  next
    case (Inr x)
    with assms(2) b show ?thesis
      by (cases x) (auto simp: read_json_path_def fs_bind_def fs_context_def fs_return_def fs_bail_def split: if_splits)
  qed
  then show "contents d' = contents d" using L(1) by blast
  show "(s = Missing \<and> contents d p = []) \<or> (\<exists>v. parse (contents d p) = Inr v \<and> s = Available v)
       \<or> (\<exists>e m. parse (contents d p) = Inl e \<and> s = Corrupt m)" if "r = Inr s"
    using run [of s] that
  proof (elim conjE impE disjE exE)
    assume "r1 = Inr None" "s = Missing"
    then show ?thesis using L(3) by simp
  next
    fix bs assume "r1 = Inr (Some bs)" and s: "s = (case parse bs of Inr v \<Rightarrow> Available v | Inl e \<Rightarrow> Corrupt (''parse '' @ p @ '': '' @ e))"
    then have "bs = contents d p" using L(2) by blast
    with s show ?thesis by (cases "parse bs") auto
  qed simp
qed

lemma write_json_run:
  assumes "core_laws core" "write_json_atomic core p text d = (d', r)"
  shows "(r = Inr () \<and> contents d' = (contents d)(p := text @ [CHR 0x0A])) \<or> (isl r \<and> contents d' = contents d)"
proof -
  let ?ready = "fs_then (fs_bind (fs_some (path_parent p) ''cache path has no parent'') create_private_dir_all)
    (reject_symlink_file p ''cache file'')"
  have split: "write_json_atomic core p text = fs_then ?ready (fs_context (''write '' @ p) (write_bytes_atomic core p (text @ [CHR 0x0A])))"
    unfolding write_json_atomic_def fs_assoc ..
  obtain d1 r1 where ready: "?ready d = (d1, r1)" by fastforce
  have "leaves ?ready" by (intro keeps_rules)
  from unchanged_run [OF this ready] have c: "contents d1 = contents d" .
  show ?thesis
  proof (cases r1)
    case (Inl e)
    with assms(2) ready c show ?thesis unfolding split by (auto simp: fs_then_run)
  next
    case (Inr u)
    with assms(2) ready have "fs_context (''write '' @ p) (write_bytes_atomic core p (text @ [CHR 0x0A])) d1 = (d', r)"
      unfolding split fs_then_run by auto
    then obtain r0 where "write_bytes_atomic core p (text @ [CHR 0x0A]) d1 = (d', r0)" "r = map_sum (\<lambda>e. LContext (''write '' @ p) # e) id r0"
      by (auto simp: fs_context_run)
    with write_law [OF assms(1) this(1)] c show ?thesis by (cases r0) auto
  qed
qed

text \<open>After the connected access point is put in, it is the one that is active.\<close>

lemma replace_first_active:
  assumes "replace_first P y xs = Some ys" "list_all (\<lambda>x. \<not> ap_active x) xs" "ap_active y"
  shows "filter ap_active ys = [y]"
  using assms by (induction xs arbitrary: ys) (auto split: if_splits simp: filter_empty_conv list_all_iff)

lemma upsert_one_active: "filter ap_active (upsert_connected_access_point ns ap) = [ap\<lparr>ap_active := True\<rparr>]"
proof -
  have all: "list_all (\<lambda>x. \<not> ap_active x) (mark_inactive ns)" by (simp add: mark_inactive_def list_all_iff)
  then have none: "filter ap_active (mark_inactive ns) = []" by (simp add: filter_empty_conv list_all_iff)
  show ?thesis unfolding upsert_connected_access_point_def Let_def
    using replace_first_active [OF _ all] none by (auto split: option.splits)
qed

lemma transaction_run:
  assumes "write_transaction repo act d = (d', r)"
  shows "(isl r \<and> contents d' = contents d) \<or> (\<exists>d1. contents d1 = contents d \<and> act d1 = (d', r))"
proof -
  let ?ready = "fs_then (create_private_dir_all (repo_root repo)) (fs_then (open_lock_file (repository_path repo ''.storage.lock'')) lock_exclusive)"
  have split: "write_transaction repo act = fs_then ?ready act" unfolding write_transaction_def fs_assoc ..
  obtain d1 r1 where ready: "?ready d = (d1, r1)" by fastforce
  have "leaves ?ready" by (intro keeps_rules)
  from unchanged_run [OF this ready] have c: "contents d1 = contents d" .
  show ?thesis using assms ready c unfolding split fs_then_run by auto
qed

lemma versioned_run:
  assumes "core_laws core" "fs_bind (read_json_path core parse p) (\<lambda>s. fs_return (validate_version version s)) d = (d', r)"
    and "isl (parse [])"
  shows "contents d' = contents d"
    "r = Inr s \<Longrightarrow> (case parse (contents d p) of
       Inr v \<Rightarrow> s = (if version v = CACHE_VERSION then Available v else Stale (version v) CACHE_VERSION)
     | Inl e \<Rightarrow> (\<exists>m. s = Corrupt m) \<or> (s = Missing \<and> contents d p = []))"
proof -
  obtain d1 r1 where b: "read_json_path core parse p d = (d1, r1)" by fastforce
  note R = read_json_run [OF assms(1) b]
  have run: "d' = d1 \<and> (r = Inr s \<longrightarrow> (\<exists>x. r1 = Inr x \<and> s = validate_version version x))" for s
    using assms(2) b by (cases r1) (auto simp: fs_bind_def fs_return_def)
  then show "contents d' = contents d" using R(1) by simp
  assume "r = Inr s"
  with run R(2) obtain x where "r1 = Inr x" "s = validate_version version x" "(x = Missing \<and> contents d p = []) \<or>
      (\<exists>v. parse (contents d p) = Inr v \<and> x = Available v) \<or> (\<exists>e m. parse (contents d p) = Inl e \<and> x = Corrupt m)" by fastforce
  then show "case parse (contents d p) of
       Inr v \<Rightarrow> s = (if version v = CACHE_VERSION then Available v else Stale (version v) CACHE_VERSION)
     | Inl e \<Rightarrow> (\<exists>m. s = Corrupt m) \<or> (s = Missing \<and> contents d p = [])"
    using assms(3) by (auto simp: validate_version_def isl_def)
qed

lemma known_run:
  assumes "core_laws core" "read_known_for_update core cx repo now d = (d', r)" "isl (cx_parse_known cx [])"
  defines "text \<equiv> contents d (repository_path repo ''known-connections.json'')"
  shows "contents d' = contents d"
    "r = Inr k \<Longrightarrow> (case cx_parse_known cx text of
       Inr v \<Rightarrow> k = (if ck_version v = CACHE_VERSION then v else empty_known_connections now)
     | Inl e \<Rightarrow> k = empty_known_connections now \<and> text = [])"
proof -
  obtain d1 r1 where b: "read_known_connections core cx repo d = (d1, r1)" by fastforce
  note R = versioned_run [OF assms(1) b [unfolded read_known_connections_def] assms(3)]
  show "contents d' = contents d"
  proof (cases r1)
    case (Inl e)
    with assms(2) b R(1) show ?thesis by (auto simp: read_known_for_update_def fs_bind_def)
  next
    case (Inr x)
    with assms(2) b R(1) show ?thesis by (cases x) (auto simp: read_known_for_update_def fs_bind_def fs_return_def fs_bail_def)
  qed
  assume t: "r = Inr k"
  with assms(2) b obtain x where x: "r1 = Inr x" by (cases r1) (auto simp: read_known_for_update_def fs_bind_def)
  from R(2) [OF x] t assms(2) b x
  show "case cx_parse_known cx text of
       Inr v \<Rightarrow> k = (if ck_version v = CACHE_VERSION then v else empty_known_connections now)
     | Inl e \<Rightarrow> k = empty_known_connections now \<and> text = []"
    unfolding text_def [symmetric]
    by (cases "cx_parse_known cx text") (auto simp: read_known_for_update_def fs_bind_def fs_return_def fs_bail_def split: if_splits)
qed

lemma update_run:
  assumes "core_laws core" "update_snapshot core cx repo s f d = (d', r)"
  defines "L \<equiv> repository_path repo ''latest.json''"
  shows "(\<forall>p. p \<noteq> L \<longrightarrow> contents d' p = contents d p) \<and> (r = Inr () \<longrightarrow> contents d' L = (case s of
     Available v \<Rightarrow> cx_snapshot cx (v\<lparr>cs_networks := f (cs_networks v), cs_scanning := False, cs_networks_found := length (f (cs_networks v))\<rparr>)
       @ [CHR 0x0A] | _ \<Rightarrow> contents d L))"
proof (cases s)
  case (Available v)
  from assms(2) [unfolded Available] have "write_json_atomic core L (cx_snapshot cx (v\<lparr>cs_networks := f (cs_networks v), cs_scanning := False,
      cs_networks_found := length (f (cs_networks v))\<rparr>)) d = (d', r)"
    by (simp add: update_snapshot_def write_snapshot_file_def Let_def L_def)
  from write_json_run [OF assms(1) this] Available show ?thesis by auto
qed (use assms(2) in \<open>auto simp: update_snapshot_def fs_return_def\<close>)

definition noted :: "('ip, 'w, 'm, 'x) wifi_status \<Rightarrow> access_point \<Rightarrow> nat \<Rightarrow> ('ip, 'w, 'm) cached_known_connections
    \<Rightarrow> ('ip, 'w, 'm) cached_known_connections" where
  "noted status ap now k = k\<lparr>ck_updated_at_ms := now,
     ck_connections := hm_insert (cache_network_key ap) (details_of status now) (ck_connections k)\<rparr>"

definition connected_snapshot :: "cached_snapshot \<Rightarrow> access_point \<Rightarrow> cached_snapshot" where
  "connected_snapshot s ap = (let ns = upsert_connected_access_point (cs_networks s) ap
     in s\<lparr>cs_networks := ns, cs_scanning := False, cs_networks_found := length ns\<rparr>)"

lemma fs_bind_nested: "fs_bind (fs_bind m f) g = fs_bind m (\<lambda>x. fs_bind (f x) g)" "fs_bind (fs_return x) g = g x"
  by (auto simp: fun_eq_iff fs_bind_def fs_return_def split: prod.splits sum.splits)

lemma writes_run:
  assumes laws: "core_laws core" and run: "fs_then (write_json_atomic core (repository_path repo ''active-status.json'') t1)
      (fs_then (write_json_atomic core (repository_path repo ''known-connections.json'') t2) (update_snapshot core cx repo s f)) d = (d', r)"
  defines "K \<equiv> repository_path repo ''known-connections.json''" and "L \<equiv> repository_path repo ''latest.json''"
  shows "(\<forall>p. p \<notin> {K, L, repository_path repo ''active-status.json''} \<longrightarrow> contents d' p = contents d p)
    \<and> (r = Inr () \<longrightarrow> contents d' (repository_path repo ''active-status.json'') = t1 @ [CHR 0x0A]
     \<and> contents d' K = t2 @ [CHR 0x0A] \<and> contents d' L = (case s of
     Available v \<Rightarrow> cx_snapshot cx (v\<lparr>cs_networks := f (cs_networks v), cs_scanning := False, cs_networks_found := length (f (cs_networks v))\<rparr>)
       @ [CHR 0x0A] | _ \<Rightarrow> contents d L))"
proof -
  have ne: "K \<noteq> L" "L \<noteq> repository_path repo ''active-status.json''" "K \<noteq> repository_path repo ''active-status.json''"
    by (simp_all add: K_def L_def repository_path_def)
  obtain d1 r1 where w1: "write_json_atomic core (repository_path repo ''active-status.json'') t1 d = (d1, r1)" by fastforce
  note W1 = write_json_run [OF laws w1]
  obtain d2 r2 where w2: "write_json_atomic core K t2 d1 = (d2, r2)" by fastforce
  note W2 = write_json_run [OF laws w2]
  obtain d3 r3 where w3: "update_snapshot core cx repo s f d2 = (d3, r3)" by fastforce
  note W3 = update_run [OF laws w3, folded L_def]
  from run consider "isl r" "d' = d1" | "isl r" "r1 = Inr ()" "d' = d2" | "r1 = Inr ()" "r2 = Inr ()" "d' = d3" "r = r3"
    using w1 w2 w3 by (auto simp: fs_then_run K_def)
  then show ?thesis
  proof cases
    case 1
    then show ?thesis using W1 by auto
  next
    case 2
    then show ?thesis using W1 W2 by auto
  next
    case 3
    then have c: "contents d2 = (contents d)(repository_path repo ''active-status.json'' := t1 @ [CHR 0x0A], K := t2 @ [CHR 0x0A])" using W1 W2 by auto
    show ?thesis using 3 W3 ne c by (auto split: cache_read.splits)
  qed
qed

lemma connected_body:
  assumes "ws_active status" "ws_access_point status = Some ap"
  shows "cache_connected_network_status core cx repo now status = write_transaction repo
    (fs_bind (read_snapshot core cx repo) (\<lambda>s. fs_bind (read_known_for_update core cx repo (now 0)) (\<lambda>k.
       fs_then (write_json_atomic core (repository_path repo ''active-status.json'')
          (cx_active_status cx \<lparr>ca_version = CACHE_VERSION, ca_updated_at_ms = now 1, ca_active = True, ca_status = status\<rparr>))
       (fs_then (write_json_atomic core (repository_path repo ''known-connections.json'') (cx_known cx (noted status ap (now 2) k)))
          (update_snapshot core cx repo s (\<lambda>ns. upsert_connected_access_point ns ap))))))"
  using assms by (simp add: cache_connected_network_status_def fs_bind_nested noted_def)

text \<open>The record of the active status, and the known connections an update starts from: those of the file when its
  schema is the current one, none when the file is missing or of another schema.\<close>

definition active_record :: "nat \<Rightarrow> ('ip, 'w, 'm, 'x) wifi_status \<Rightarrow> ('ip, 'w, 'm, 'x) cached_active_status" where
  "active_record now status = \<lparr>ca_version = CACHE_VERSION, ca_updated_at_ms = now, ca_active = ws_active status, ca_status = status\<rparr>"

definition known_before :: "('ip, 'w, 'm, 'x) cache_codec \<Rightarrow> nat \<Rightarrow> bytes \<Rightarrow> ('ip, 'w, 'm) cached_known_connections" where
  "known_before cx now text = (case cx_parse_known cx text of
     Inr k \<Rightarrow> if ck_version k = CACHE_VERSION then k else empty_known_connections now
   | Inl e \<Rightarrow> empty_known_connections now)"

text \<open>
  Noting the connected network is safe for what the cache knows. A known-connections file that does not
  parse is never overwritten: the update then fails and changes no file. However the update ends, it touches
  no file but the known connections, the scan snapshot and the active status. When it succeeds, the active status is this one,
  the known connections are those found (none when the file was missing or of another schema) with the details of this network
  put in, a usable snapshot has this access point as its only active one, and an unusable or missing snapshot is left alone.
  The file operations of \<open>shelllist_daemon_core\<close> are assumed to be a faithful read and an atomic replacement, and the empty
  text not to be JSON.
\<close>

theorem connected_status_cached:
  assumes laws: "core_laws core" and empty: "isl (cx_parse_known cx [])" "isl (cx_parse_snapshot cx [])"
    and run: "cache_connected_network_status core cx repo now status d = (d', r)"
    and connected: "ws_active status" "ws_access_point status = Some ap"
  defines "K \<equiv> repository_path repo ''known-connections.json''" and "L \<equiv> repository_path repo ''latest.json''"
    and "A \<equiv> repository_path repo ''active-status.json''"
  shows "(contents d K \<noteq> [] \<and> isl (cx_parse_known cx (contents d K)) \<longrightarrow> isl r \<and> contents d' = contents d)
    \<and> (\<forall>p. p \<notin> {K, L, A} \<longrightarrow> contents d' p = contents d p)
    \<and> (r = Inr () \<longrightarrow> contents d' A = cx_active_status cx (active_record (now 1) status) @ [CHR 0x0A]
         \<and> contents d' K = cx_known cx (noted status ap (now 2) (known_before cx (now 0) (contents d K))) @ [CHR 0x0A]
         \<and> contents d' L = (case cx_parse_snapshot cx (contents d L) of
              Inr s \<Rightarrow> if cs_version s = CACHE_VERSION then cx_snapshot cx (connected_snapshot s ap) @ [CHR 0x0A] else contents d L
            | Inl e \<Rightarrow> contents d L))
    \<and> (\<forall>s. filter ap_active (cs_networks (connected_snapshot s ap)) = [ap\<lparr>ap_active := True\<rparr>])"
proof -
  have one: "filter ap_active (cs_networks (connected_snapshot s ap)) = [ap\<lparr>ap_active := True\<rparr>]" for s
    by (simp add: connected_snapshot_def Let_def upsert_one_active)
  from transaction_run [OF run [unfolded connected_body [OF connected]]] consider (off) "isl r" "contents d' = contents d"
    | (on) d1 where "contents d1 = contents d" "fs_bind (read_snapshot core cx repo) (\<lambda>s. fs_bind (read_known_for_update core cx repo (now 0)) (\<lambda>k.
       fs_then (write_json_atomic core (repository_path repo ''active-status.json'')
          (cx_active_status cx \<lparr>ca_version = CACHE_VERSION, ca_updated_at_ms = now 1, ca_active = True, ca_status = status\<rparr>))
       (fs_then (write_json_atomic core (repository_path repo ''known-connections.json'') (cx_known cx (noted status ap (now 2) k)))
          (update_snapshot core cx repo s (\<lambda>ns. upsert_connected_access_point ns ap))))) d1 = (d', r)" by blast
  then show ?thesis
  proof cases
    case off
    with one show ?thesis by auto
  next
    case on
    obtain d2 r2 where s: "read_snapshot core cx repo d1 = (d2, r2)" by fastforce
    note S = versioned_run [OF laws s [unfolded read_snapshot_def] empty(2)]
    obtain d3 r3 where k: "read_known_for_update core cx repo (now 0) d2 = (d3, r3)" by fastforce
    note U = known_run [OF laws k empty(1), folded K_def]
    have c3: "contents d3 = contents d" using on(1) S(1) U(1) by simp
    show ?thesis
    proof (cases "isl r2 \<or> isl r3")
      case True
      with on(2) s k have "isl r \<and> (d' = d2 \<or> d' = d3)" by (cases r2; cases r3) (auto simp: fs_bind_def)
      then show ?thesis using c3 on(1) S(1) one by auto
    next
      case False
      then obtain sn kn where v: "r2 = Inr sn" "r3 = Inr kn" by (cases r2; cases r3) auto
      with on(2) s k have "fs_then (write_json_atomic core (repository_path repo ''active-status.json'')
          (cx_active_status cx \<lparr>ca_version = CACHE_VERSION, ca_updated_at_ms = now 1, ca_active = True, ca_status = status\<rparr>))
       (fs_then (write_json_atomic core (repository_path repo ''known-connections.json'') (cx_known cx (noted status ap (now 2) kn)))
          (update_snapshot core cx repo sn (\<lambda>ns. upsert_connected_access_point ns ap))) d3 = (d', r)" by (simp add: fs_bind_def)
      note W = writes_run [OF laws this, folded K_def L_def A_def, unfolded c3]
      have known: "kn = known_before cx (now 0) (contents d K)" "isl (cx_parse_known cx (contents d K)) \<Longrightarrow> contents d K = []"
        using U(2) [OF v(2)] on(1) S(1) by (auto simp: known_before_def split: sum.splits)
      have snap: "case cx_parse_snapshot cx (contents d L) of
          Inr v \<Rightarrow> sn = (if cs_version v = CACHE_VERSION then Available v else Stale (cs_version v) CACHE_VERSION)
        | Inl e \<Rightarrow> (\<exists>m. sn = Corrupt m) \<or> sn = Missing"
        using S(2) [OF v(1)] on(1) by (auto simp: L_def split: sum.splits)
      have "active_record (now 1) status = \<lparr>ca_version = CACHE_VERSION, ca_updated_at_ms = now 1, ca_active = True, ca_status = status\<rparr>"
        by (simp add: active_record_def connected(1))
      with W known snap one show ?thesis
        by (cases "cx_parse_snapshot cx (contents d L)") (auto simp: connected_snapshot_def Let_def split: if_splits)
    qed
  qed
qed

section \<open>A network is noted\<close>

definition plain_core :: core_files where
  "plain_core = \<lparr>read_bytes_bounded = (\<lambda>p b d. (d, Inr (case d_node d p of Some (File c m) \<Rightarrow> Some c | _ \<Rightarrow> None))),
     write_bytes_atomic = (\<lambda>p bs d. (set_node p (Some (File bs MODE_FILE)) d, Inr ()))\<rparr>"

lemma plain_core_laws: "core_laws plain_core"
  by (auto simp: core_laws_def plain_core_def contents_set_node contents_def split: option.splits node.splits)

definition demo_codec :: "(unit, unit, unit, unit) cache_codec" where
  "demo_codec = \<lparr>cx_snapshot = (\<lambda>s. replicate (cs_networks_found s) CHR ''s''),
     cx_parse_snapshot = (\<lambda>t. if t = ''-'' then Inr (snapshot_record 0 True []) else Inl ''?''), cx_status = (\<lambda>_. ''t''),
     cx_active_status = (\<lambda>_. ''a''), cx_known = (\<lambda>k. replicate (length (ck_connections k)) CHR ''k''),
     cx_parse_known = (\<lambda>t. if t = ''-'' then Inr (empty_known_connections 0) else Inl ''?'')\<rparr>"

definition demo_cache :: disk where
  "demo_cache = \<lparr>d_node = [''/r'' \<mapsto> Dir MODE_DIR 1000, ''/r/latest.json'' \<mapsto> File ''-'' MODE_FILE,
      ''/r/known-connections.json'' \<mapsto> File ''-'' MODE_FILE], d_euid = 1000, d_faults = []\<rparr>"

definition demo_status :: "access_point \<Rightarrow> (unit, unit, unit, unit) wifi_status" where
  "demo_status ap = \<lparr>ws_active = True, ws_access_point = Some ap, ws_ip4 = None, ws_ip6 = None, ws_wireless = None,
     ws_metered = None, ws_active_since_ms = None, ws_rest = ()\<rparr>"

lemmas fs_eval = fs_bind_def fs_then_def fs_some_def path_parent_def repository_path_def fs_return_def create_private_dir_all_def
  private_dir_metadata_def fs_context_def symlink_metadata_def fs_op_def secure_existing_private_dir_def MODE_DIR_def
  reject_symlink_file_def resolved_def follow_links open_create_def open_lock_file_def lock_exclusive_def set_private_file_permissions_def
  chmod_def set_mode_def set_node_def write_json_atomic_def read_json_path_def plain_core_def

lemma demo_noted:
  "snd (cache_connected_network_status plain_core demo_codec \<lparr>repo_root = ''/r''\<rparr> (\<lambda>_. 5) (demo_status ap) demo_cache) = Inr ()"
proof -
  have "utf8_valid ''-''" by code_simp
  then show ?thesis
    by (simp add: connected_body [of _ ap] demo_status_def write_transaction_def read_snapshot_def read_known_for_update_def
      read_known_connections_def validate_version_def demo_codec_def demo_cache_def fs_eval update_snapshot_def write_snapshot_file_def
      snapshot_record_def empty_known_connections_def Let_def)
qed

theorem connected_status_cached_witness:
  "\<exists>d'. cache_connected_network_status plain_core demo_codec \<lparr>repo_root = ''/r''\<rparr> (\<lambda>_. 5) (demo_status ap_sample) demo_cache = (d', Inr ())
     \<and> contents d' ''/r/known-connections.json'' = ''k'' @ [CHR 0x0A] \<and> contents d' ''/r/latest.json'' = ''s'' @ [CHR 0x0A]"
proof -
  obtain d' where run: "cache_connected_network_status plain_core demo_codec \<lparr>repo_root = ''/r''\<rparr> (\<lambda>_. 5) (demo_status ap_sample) demo_cache = (d', Inr ())"
    using demo_noted [of ap_sample] by (metis prod.collapse)
  have st: "ws_active (demo_status ap_sample)" "ws_access_point (demo_status ap_sample) = Some ap_sample" by (simp_all add: demo_status_def)
  have files: "contents demo_cache ''/r/latest.json'' = ''-''" "contents demo_cache ''/r/known-connections.json'' = ''-''"
    by (simp_all add: contents_def demo_cache_def)
  have "isl (cx_parse_known demo_codec [])" "isl (cx_parse_snapshot demo_codec [])" by (simp_all add: demo_codec_def)
  from connected_status_cached [OF plain_core_laws this run st] run files show ?thesis
    by (auto simp: repository_path_def demo_codec_def noted_def known_before_def empty_known_connections_def connected_snapshot_def snapshot_record_def
        upsert_connected_access_point_def mark_inactive_def CACHE_VERSION_def Let_def)
qed

end
