(* ===== verification/Discovery.thy ===== *)
theory Discovery
  imports Credentials
begin

text \<open>
  Local service discovery (\<open>src/discovery.rs\<close>): queries for DNS-SD services over mDNS, the DNS records of
  \<open>systemd-resolved\<close> and the services reported to frontends.
\<close>

section \<open>Queries\<close>

datatype address_family = FamilyAny | FamilyIpv4 | FamilyIpv6

definition MDNS_IPV4 :: u64 where "MDNS_IPV4 = push_bit 3 1"
definition MDNS_IPV6 :: u64 where "MDNS_IPV6 = push_bit 4 1"
definition MDNS_DOMAIN :: string where "MDNS_DOMAIN = ''local''"
definition AF_UNSPEC :: int where "AF_UNSPEC = 0"
definition AF_INET :: int where "AF_INET = 2"
definition AF_INET6 :: int where "AF_INET6 = 10"
definition DNS_CLASS_IN :: nat where "DNS_CLASS_IN = 1"
definition DNS_TYPE_PTR :: nat where "DNS_TYPE_PTR = 12"
definition MAX_DISCOVERY_INSTANCES :: nat where "MAX_DISCOVERY_INSTANCES = 128"

fun mdns_flags :: "address_family \<Rightarrow> u64" where
  "mdns_flags FamilyAny = or MDNS_IPV4 MDNS_IPV6"
| "mdns_flags FamilyIpv4 = MDNS_IPV4"
| "mdns_flags FamilyIpv6 = MDNS_IPV6"

fun resolved_value :: "address_family \<Rightarrow> int" where
  "resolved_value FamilyAny = AF_UNSPEC"
| "resolved_value FamilyIpv4 = AF_INET"
| "resolved_value FamilyIpv6 = AF_INET6"

record service_query =
  sq_service_type :: string
  sq_name :: "string option"
  sq_interface_index :: int
  sq_family :: address_family

definition is_ascii_alphabetic :: "char \<Rightarrow> bool" where
  "is_ascii_alphabetic c \<longleftrightarrow> (65 \<le> byte_val c \<and> byte_val c \<le> 90) \<or> (97 \<le> byte_val c \<and> byte_val c \<le> 122)"

definition is_ascii_alphanumeric :: "char \<Rightarrow> bool" where
  "is_ascii_alphanumeric c \<longleftrightarrow> is_ascii_alphabetic c \<or> (48 \<le> byte_val c \<and> byte_val c \<le> 57)"

fun double_hyphen :: "string \<Rightarrow> bool" where
  "double_hyphen (a # b # s) \<longleftrightarrow> (a = CHR ''-'' \<and> b = CHR ''-'') \<or> double_hyphen (b # s)"
| "double_hyphen _ \<longleftrightarrow> False"

definition valid_service_label :: "string \<Rightarrow> bool" where
  "valid_service_label label \<longleftrightarrow>
     1 \<le> length label \<and> length label \<le> 15 \<and> hd label \<noteq> CHR ''-'' \<and> last label \<noteq> CHR ''-'' \<and> \<not> double_hyphen label
     \<and> list_ex is_ascii_alphabetic label \<and> list_all (\<lambda>c. is_ascii_alphanumeric c \<or> c = CHR ''-'') label"

definition discovery_invalid :: "string \<Rightarrow> anyhow_error" where
  "discovery_invalid message = into_anyhow (validation_error OpDiscovery message)"

definition validate_service_type :: "string \<Rightarrow> anyhow_error + unit" where
  "validate_service_type service_type =
     (let stem = (case strip_suffix ''._tcp'' service_type of Some s \<Rightarrow> Some s | None \<Rightarrow> strip_suffix ''._udp'' service_type)
      in case Option.bind stem (strip_prefix ''_'') of
           Some label \<Rightarrow> if valid_service_label label then Inr ()
             else Inl (discovery_invalid ''service_type must be one DNS-SD type such as _googlecast._tcp'')
         | None \<Rightarrow> Inl (discovery_invalid ''service_type must be one DNS-SD type such as _googlecast._tcp''))"

definition service_query_new :: "string \<Rightarrow> string option \<Rightarrow> int option \<Rightarrow> address_family \<Rightarrow> anyhow_error + service_query" where
  "service_query_new service_type name0 index family =
     and_then (validate_service_type service_type) (\<lambda>_.
       let name = (case name0 of Some [] \<Rightarrow> None | _ \<Rightarrow> name0);
           interface_index = (case index of None \<Rightarrow> 0 | Some i \<Rightarrow> i)
       in if (case name of Some n \<Rightarrow> 63 < length n | None \<Rightarrow> False)
          then Inl (discovery_invalid ''DNS-SD service instance names must not exceed 63 bytes'')
          else if interface_index < 0
          then Inl (discovery_invalid ''discovery interface_index must be zero or a positive interface index'')
          else Inr \<lparr>sq_service_type = service_type, sq_name = name, sq_interface_index = interface_index, sq_family = family\<rparr>)"

section \<open>DNS records\<close>

text \<open>Offsets are 64-bit; \<open>checked_add\<close> refuses a sum that does not fit.\<close>

definition checked_add :: "nat \<Rightarrow> nat \<Rightarrow> nat option" where
  "checked_add a b = (if a + b < 2 ^ 64 then Some (a + b) else None)"

definition get_range :: "bytes \<Rightarrow> nat \<Rightarrow> nat \<Rightarrow> bytes option" where
  "get_range bs i j = (if i \<le> j \<and> j \<le> length bs then Some (take (j - i) (drop i bs)) else None)"

function dns_labels_from :: "bytes \<Rightarrow> nat \<Rightarrow> nat \<Rightarrow> bytes list \<Rightarrow> (bytes list \<times> nat) option" where
  "dns_labels_from bs start offset labels =
     (if length bs \<le> offset then None
      else let n = byte_val (bs ! offset); offset' = offset + 1 in
        if n = 0 then (if offset' - start \<le> 255 then Some (labels, offset') else None)
        else if 63 < n \<or> 255 \<le> offset' - start + n then None
        else (case checked_add offset' n of
                None \<Rightarrow> None
              | Some stop \<Rightarrow> (case get_range bs offset' stop of
                  None \<Rightarrow> None | Some label \<Rightarrow> dns_labels_from bs start stop (labels @ [label]))))"
  by pat_completeness auto

termination
  by (relation "measure (\<lambda>(bs, start, offset, labels). length bs - offset)") (auto simp: checked_add_def split: if_splits)

declare dns_labels_from.simps [simp del]

definition dns_labels :: "bytes \<Rightarrow> nat \<Rightarrow> (bytes list \<times> nat) option" where
  "dns_labels bs offset = dns_labels_from bs offset offset []"

definition take_bytes :: "nat \<Rightarrow> bytes \<Rightarrow> nat \<Rightarrow> (bytes \<times> nat) option" where
  "take_bytes n bs offset =
     Option.bind (checked_add offset n) (\<lambda>stop. map_option (\<lambda>v. (v, stop)) (get_range bs offset stop))"

definition u16_from_be_bytes :: "bytes \<Rightarrow> nat" where
  "u16_from_be_bytes bs = 256 * byte_val (bs ! 0) + byte_val (bs ! 1)"

definition take_u16 :: "bytes \<Rightarrow> nat \<Rightarrow> (nat \<times> nat) option" where
  "take_u16 bs offset = map_option (\<lambda>(v, stop). (u16_from_be_bytes v, stop)) (take_bytes 2 bs offset)"

definition labels_match :: "bytes list \<Rightarrow> string \<Rightarrow> bool" where
  "labels_match labels name =
     (let expected = split_on (\<lambda>c. c = CHR ''.'') name
      in length labels = length expected \<and> list_all (\<lambda>(a, b). eq_ignore_ascii_case a b) (zip labels expected))"

definition ptr_instance :: "bytes \<Rightarrow> string \<Rightarrow> string \<Rightarrow> string option" where
  "ptr_instance rec service_type domain =
     (let expected_owner = service_type @ ''.'' @ domain in
      Option.bind (dns_labels rec 0) (\<lambda>(owner, o1).
      if \<not> labels_match owner expected_owner then None else
      Option.bind (take_u16 rec o1) (\<lambda>(record_type, o2).
      Option.bind (take_u16 rec o2) (\<lambda>(record_class, o3).
      Option.bind (take_bytes 4 rec o3) (\<lambda>(ttl, o4).
      Option.bind (take_u16 rec o4) (\<lambda>(data_length, o5).
      Option.bind (checked_add o5 data_length) (\<lambda>data_end.
      if record_type \<noteq> DNS_TYPE_PTR \<or> record_class \<noteq> DNS_CLASS_IN \<or> data_end \<noteq> length rec then None else
      Option.bind (dns_labels (take data_end rec) o5) (\<lambda>(labels, o6).
      if o6 \<noteq> data_end then None else
      case labels of
        [] \<Rightarrow> None
      | instance_label # suffix \<Rightarrow>
          if \<not> labels_match suffix expected_owner then None
          else if utf8_valid instance_label then Some instance_label else None))))))))"

section \<open>Browsing\<close>

type_synonym resolved_record = "int \<times> nat \<times> nat \<times> bytes"

definition browse_instance :: "resolved_record \<Rightarrow> service_query \<Rightarrow> string + (int \<times> string) option" where
  "browse_instance r query =
     (case r of (iface, cls, record_type, bytes) \<Rightarrow>
        if iface \<le> 0 \<or> (sq_interface_index query \<noteq> 0 \<and> iface \<noteq> sq_interface_index query)
        then Inl ''ignored a DNS-SD record from an unexpected interface''
        else if cls \<noteq> DNS_CLASS_IN \<or> record_type \<noteq> DNS_TYPE_PTR then Inr None
        else (case ptr_instance bytes (sq_service_type query) MDNS_DOMAIN of
                None \<Rightarrow> Inl ''ignored one malformed DNS-SD PTR record''
              | Some name \<Rightarrow> Inr (Some (iface, name))))"

definition instance_limit_warning :: string where
  "instance_limit_warning = ''limited DNS-SD resolution to '' @ decimal MAX_DISCOVERY_INSTANCES @ '' instances''"

definition instance_key :: "int \<times> string \<Rightarrow> int \<times> string" where
  "instance_key c = (fst c, map to_ascii_lowercase (snd c))"

text \<open>The lazy pipeline: \<open>room\<close> is what \<open>take\<close> still admits; the first further candidate only leaves the warning.\<close>

fun browse_from :: "service_query \<Rightarrow> resolved_record list \<Rightarrow> (int \<times> string) set \<Rightarrow> nat \<Rightarrow> (int \<times> string) list \<times> string list" where
  "browse_from query [] seen room = ([], [])"
| "browse_from query (r # rs) seen room =
     (case browse_instance r query of
        Inl message \<Rightarrow> apsnd (\<lambda>ws. message # ws) (browse_from query rs seen room)
      | Inr None \<Rightarrow> browse_from query rs seen room
      | Inr (Some c) \<Rightarrow>
          if instance_key c \<in> seen then browse_from query rs seen room
          else if room = 0 then ([], [instance_limit_warning])
          else apfst (\<lambda>cs. c # cs) (browse_from query rs (insert (instance_key c) seen) (room - 1)))"

definition browse_instances :: "resolved_record list \<Rightarrow> service_query \<Rightarrow> (int \<times> string) list \<times> string list" where
  "browse_instances records query = browse_from query records {} MAX_DISCOVERY_INSTANCES"

section \<open>Results\<close>

record discovery_txt_record =
  dt_key :: "string option"
  dt_value :: "string option"
  dt_raw_hex :: string

record discovery_address =
  da_interface_index :: int
  da_family :: string
  da_address :: string
  da_raw_hex :: string

record discovered_service =
  ds_instance :: string
  ds_service_type :: string
  ds_domain :: string
  ds_hostname :: string
  ds_canonical_hostname :: string
  ds_port :: nat
  ds_priority :: nat
  ds_weight :: nat
  ds_addresses :: "discovery_address list"
  ds_txt :: "discovery_txt_record list"

record discovery_snapshot =
  dn_source :: string
  dn_service_type :: string
  dn_domain :: string
  dn_instance :: "string option"
  dn_interface_index :: int
  dn_family :: address_family
  dn_response_flags :: u64
  dn_services :: "discovered_service list"
  dn_warnings :: "string list"

definition discovery_hex :: "bytes \<Rightarrow> string" where
  "discovery_hex bs = ssid_hex bs"

text \<open>\<open>str::split_once\<close>.\<close>

fun split_once :: "char \<Rightarrow> string \<Rightarrow> (string \<times> string) option" where
  "split_once c [] = None"
| "split_once c (d # s) = (if d = c then Some ([], s) else map_option (apfst (\<lambda>k. d # k)) (split_once c s))"

definition txt_record :: "bytes \<Rightarrow> discovery_txt_record" where
  "txt_record bs =
     (case (if utf8_valid bs then Some bs else None) of
        Some text \<Rightarrow>
          (case split_once (CHR ''='') text of
             Some (key, v) \<Rightarrow> \<lparr>dt_key = Some key, dt_value = Some v, dt_raw_hex = discovery_hex bs\<rparr>
           | None \<Rightarrow> \<lparr>dt_key = Some text, dt_value = None, dt_raw_hex = discovery_hex bs\<rparr>)
      | None \<Rightarrow> \<lparr>dt_key = None, dt_value = None, dt_raw_hex = discovery_hex bs\<rparr>)"

text \<open>\<open>Display\<close> of \<open>Ipv4Addr\<close> and \<open>Ipv6Addr\<close>: the first longest run of two or more zero segments is elided.\<close>

fun join_with :: "string \<Rightarrow> string list \<Rightarrow> string" where
  "join_with sep [] = []"
| "join_with sep [x] = x"
| "join_with sep (x # y # xs) = x @ sep @ join_with sep (y # xs)"

definition ipv4_text :: "bytes \<Rightarrow> string" where
  "ipv4_text bs = join_with ''.'' (map (\<lambda>c. decimal (byte_val c)) bs)"

fun ipv6_segments :: "bytes \<Rightarrow> nat list" where
  "ipv6_segments (a # b # bs) = (256 * byte_val a + byte_val b) # ipv6_segments bs"
| "ipv6_segments _ = []"

fun lower_hex :: "nat \<Rightarrow> string" where
  "lower_hex n = (if n < 16 then [hex_digit n] else lower_hex (n div 16) @ [hex_digit (n mod 16)])"

declare lower_hex.simps [simp del]

text \<open>Runs are given by start and length; \<open>current\<close> is the run that ends here.\<close>

fun longest_zeros :: "nat list \<Rightarrow> nat \<Rightarrow> nat \<times> nat \<Rightarrow> nat \<times> nat \<Rightarrow> nat \<times> nat" where
  "longest_zeros [] i current longest = longest"
| "longest_zeros (s # ss) i current longest =
     (if s = 0
      then let c = (if snd current = 0 then i else fst current, snd current + 1)
           in longest_zeros ss (i + 1) c (if snd longest < snd c then c else longest)
      else longest_zeros ss (i + 1) (0, 0) longest)"

definition ipv6_text :: "bytes \<Rightarrow> string" where
  "ipv6_text bs =
     (let ss = ipv6_segments bs; hexes = (\<lambda>xs. join_with '':'' (map lower_hex xs))
      in if take 6 ss = [0, 0, 0, 0, 0, 65535] then ''::ffff:'' @ ipv4_text (drop 12 bs)
         else case longest_zeros ss 0 (0, 0) (0, 0) of
           (start, len) \<Rightarrow> if 1 < len then hexes (take start ss) @ ''::'' @ hexes (drop (start + len) ss) else hexes ss)"

definition discovery_address_of :: "int \<times> int \<times> bytes \<Rightarrow> discovery_address" where
  "discovery_address_of a =
     (case a of (interface_index, family, bs) \<Rightarrow>
        let (name, address) =
          (if family = AF_INET \<and> length bs = 4 then (''ipv4'', ipv4_text bs)
           else if family = AF_INET6 \<and> length bs = 16 then (''ipv6'', ipv6_text bs)
           else (''unknown'', discovery_hex bs))
        in \<lparr>da_interface_index = interface_index, da_family = name, da_address = address, da_raw_hex = discovery_hex bs\<rparr>)"

type_synonym resolved_service = "nat \<times> nat \<times> nat \<times> string \<times> (int \<times> int \<times> bytes) list \<times> string"
type_synonym resolve_service_reply = "resolved_service list \<times> bytes list \<times> string \<times> string \<times> string \<times> u64"

definition empty_snapshot :: "service_query \<Rightarrow> u64 \<Rightarrow> discovery_snapshot" where
  "empty_snapshot query response_flags =
     \<lparr>dn_source = ''systemd-resolved'', dn_service_type = sq_service_type query, dn_domain = MDNS_DOMAIN, dn_instance = sq_name query,
      dn_interface_index = sq_interface_index query, dn_family = sq_family query, dn_response_flags = response_flags,
      dn_services = [], dn_warnings = []\<rparr>"

definition snapshot_from_reply :: "service_query \<Rightarrow> resolve_service_reply \<Rightarrow> discovery_snapshot" where
  "snapshot_from_reply query reply =
     (case reply of (services, txt0, canonical_name, canonical_type, canonical_domain, response_flags) \<Rightarrow>
        let txt = map txt_record txt0
        in (empty_snapshot query response_flags)\<lparr>dn_services := map (\<lambda>(priority, weight, port, hostname, addresses, canonical_hostname).
             \<lparr>ds_instance = canonical_name, ds_service_type = canonical_type, ds_domain = canonical_domain, ds_hostname = hostname,
              ds_canonical_hostname = canonical_hostname, ds_port = port, ds_priority = priority, ds_weight = weight,
              ds_addresses = map discovery_address_of addresses, ds_txt = txt\<rparr>) services\<rparr>)"

section \<open>Resolving\<close>

text \<open>
  The calls to \<open>systemd-resolved\<close> race a deadline. A call ends with \<open>None\<close>, the deadline came first, or with the
  reply or error of the bus; an error may carry the name of a D-Bus error.
\<close>

record bus_failure =
  bf_name :: "string option"
  bf_error :: anyhow_error

type_synonym 'a bus_answer = "(bus_failure + 'a) option"

definition discovery_timeout :: anyhow_error where
  "discovery_timeout = into_anyhow (timeout_error OpDiscovery ''mDNS discovery deadline exceeded'')"

definition answered :: "'a bus_answer \<Rightarrow> anyhow_error + 'a" where
  "answered a =
     (case a of
        None \<Rightarrow> Inl discovery_timeout
      | Some (Inl f) \<Rightarrow> Inl (ensure_domain OpDiscovery (bf_error f))
      | Some (Inr v) \<Rightarrow> Inr v)"

definition empty_browse_error :: "bus_failure \<Rightarrow> bool" where
  "empty_browse_error f \<longleftrightarrow> bf_name f = Some ''org.freedesktop.resolve1.NoSuchRR''
     \<or> bf_name f = Some ''org.freedesktop.resolve1.DnsError.NXDOMAIN''"

text \<open>The calls carry what they ask for: the mDNS flags, so that no other protocol answers, and the domain.\<close>

record service_call =
  sv_interface_index :: int
  sv_instance :: string
  sv_service_type :: string
  sv_domain :: string
  sv_family :: int
  sv_flags :: u64

record record_call =
  rc_interface_index :: int
  rc_name :: string
  rc_class :: nat
  rc_type :: nat
  rc_flags :: u64

text \<open>
  The instances are resolved eight at a time and finish in any order: \<open>dv_finished\<close> lists them as they do, each with the
  time at which the loop comes round to it, and \<open>dv_now\<close> is the time when none is left. The text of an error is a
  parameter.
\<close>

type_synonym finished = "(instant \<times> int \<times> string) list"

record discovery_env =
  dv_show :: "anyhow_error \<Rightarrow> string"
  dv_deadline :: instant
  dv_proxy :: "unit bus_answer"
  dv_service :: "service_call \<Rightarrow> resolve_service_reply bus_answer"
  dv_record :: "record_call \<Rightarrow> (resolved_record list \<times> u64) bus_answer"
  dv_finished :: "(int \<times> string) list \<Rightarrow> finished"
  dv_now :: instant

definition resolve_one :: "discovery_env \<Rightarrow> service_query \<Rightarrow> int \<Rightarrow> string \<Rightarrow> anyhow_error + resolve_service_reply" where
  "resolve_one env query interface_index name =
     answered (dv_service env \<lparr>sv_interface_index = interface_index, sv_instance = name, sv_service_type = sq_service_type query,
       sv_domain = MDNS_DOMAIN, sv_family = resolved_value (sq_family query), sv_flags = mdns_flags (sq_family query)\<rparr>)"

definition deadline_warning :: string where
  "deadline_warning = ''mDNS discovery deadline exceeded; results are incomplete''"

fun resolve_instances ::
    "discovery_env \<Rightarrow> service_query \<Rightarrow> finished \<Rightarrow> u64 \<Rightarrow> string list \<Rightarrow> discovered_service list \<times> u64 \<times> string list" where
  "resolve_instances env query [] flags warnings =
     ([], flags, if dv_deadline env \<le> dv_now env then warnings @ [deadline_warning] else warnings)"
| "resolve_instances env query ((at, iface, name) # rest) flags warnings =
     (if dv_deadline env \<le> at then ([], flags, warnings @ [deadline_warning])
      else case resolve_one env query iface name of
        Inr reply \<Rightarrow>
          let snapshot = snapshot_from_reply query reply
          in apfst (\<lambda>more. dn_services snapshot @ more)
               (resolve_instances env query rest (or flags (dn_response_flags snapshot)) warnings)
      | Inl e \<Rightarrow> resolve_instances env query rest flags
          (warnings @ [''could not resolve DNS-SD instance '' @ name @ '' on interface '' @ decimal (nat iface) @ '': '' @ dv_show env e]))"

definition browse :: "discovery_env \<Rightarrow> service_query \<Rightarrow> anyhow_error + discovery_snapshot" where
  "browse env query =
     (case dv_record env \<lparr>rc_interface_index = sq_interface_index query, rc_name = sq_service_type query @ ''.'' @ MDNS_DOMAIN,
         rc_class = DNS_CLASS_IN, rc_type = DNS_TYPE_PTR, rc_flags = mdns_flags (sq_family query)\<rparr> of
        None \<Rightarrow> Inl discovery_timeout
      | Some (Inl f) \<Rightarrow>
          if empty_browse_error f then Inr (empty_snapshot query 0) else Inl (ensure_domain OpDiscovery (bf_error f))
      | Some (Inr (records, flags)) \<Rightarrow>
          let (instances, warnings) = browse_instances records query;
              (services, flags', warnings') = resolve_instances env query (dv_finished env instances) flags warnings
          in Inr ((empty_snapshot query flags')\<lparr>dn_services := services, dn_warnings := warnings'\<rparr>))"

definition resolve_with_proxy :: "discovery_env \<Rightarrow> service_query \<Rightarrow> anyhow_error + discovery_snapshot" where
  "resolve_with_proxy env query =
     (case sq_name query of
        Some name \<Rightarrow> map_sum id (snapshot_from_reply query) (resolve_one env query (sq_interface_index query) name)
      | None \<Rightarrow> browse env query)"

definition resolve_services :: "discovery_env \<Rightarrow> service_query \<Rightarrow> anyhow_error + discovery_snapshot" where
  "resolve_services env query = and_then (answered (dv_proxy env)) (\<lambda>_. resolve_with_proxy env query)"

section \<open>The grammar of a name\<close>

definition encode_label :: "bytes \<Rightarrow> bytes" where
  "encode_label l = char_of (length l) # l"

definition encode_name :: "bytes list \<Rightarrow> bytes" where
  "encode_name ls = concat (map encode_label ls) @ [char_of (0 :: nat)]"

definition name_ok :: "bytes list \<Rightarrow> bool" where
  "name_ok ls \<longleftrightarrow> list_all (\<lambda>l. 1 \<le> length l \<and> length l \<le> 63) ls \<and> length (encode_name ls) \<le> 255"

lemma encode_name_simps: "encode_name [] = [char_of (0 :: nat)]" "encode_name (l # ls) = char_of (length l) # l @ encode_name ls"
  by (simp_all add: encode_name_def encode_label_def)

lemma byte_val_char_of: "n < 256 \<Longrightarrow> byte_val (char_of n) = n"
  by (simp add: byte_val_def)

lemma char_of_byte_val: "char_of (byte_val c) = c"
  by (simp add: byte_val_def)

lemma encode_name_pos: "0 < length (encode_name ls)"
  by (simp add: encode_name_def)

lemma labels_sound:
  assumes "dns_labels_from bs start offset labels = Some (ls, stop)" "start \<le> offset"
  shows "\<exists>new rest. ls = labels @ new \<and> drop offset bs = encode_name new @ rest \<and> stop = offset + length (encode_name new)
    \<and> list_all (\<lambda>l. 1 \<le> length l \<and> length l \<le> 63) new \<and> stop - start \<le> 255"
  using assms
proof (induction "length bs - offset" arbitrary: offset labels rule: less_induct)
  case less
  note 1 = less(2,3)
  let ?n = "byte_val (bs ! offset)"
  have off: "offset < length bs" using 1(1) by (subst (asm) dns_labels_from.simps) (auto split: if_splits)
  then have d: "drop offset bs = bs ! offset # drop (offset + 1) bs" by (metis Cons_nth_drop_Suc Suc_eq_plus1)
  show ?case
  proof (cases "?n = 0")
    case True
    then have c: "bs ! offset = char_of (0 :: nat)" by (metis char_of_byte_val)
    from 1(1) True off have "ls = labels" "stop = offset + 1" "offset + 1 - start \<le> 255"
      by (subst (asm) dns_labels_from.simps; auto simp: Let_def split: if_splits)+
    then show ?thesis using d c by (intro exI [of _ "[]"] exI [of _ "drop (offset + 1) bs"]) (simp add: encode_name_simps)
  next
    case False
    from 1(1) off False have n: "?n \<le> 63" "offset + 1 + ?n \<le> length bs"
      and step: "dns_labels_from bs start (offset + 1 + ?n) (labels @ [take ?n (drop (offset + 1) bs)]) = Some (ls, stop)"
      by (subst (asm) dns_labels_from.simps; auto simp: Let_def checked_add_def get_range_def split: if_splits option.splits)+
    let ?l = "take ?n (drop (offset + 1) bs)"
    have len: "length ?l = ?n" using n(2) by simp
    from less(1) [OF _ step] off n 1(2) obtain new rest where N: "ls = (labels @ [?l]) @ new" "drop (offset + 1 + ?n) bs = encode_name new @ rest"
        "stop = offset + 1 + ?n + length (encode_name new)" "list_all (\<lambda>l. 1 \<le> length l \<and> length l \<le> 63) new" "stop - start \<le> 255"
      by fastforce
    have "drop (offset + 1) bs = ?l @ drop (offset + 1 + ?n) bs" by (metis add.commute append_take_drop_id drop_drop)
    then show ?thesis using N d len n False
      by (intro exI [of _ "?l # new"] exI [of _ rest]) (auto simp: encode_name_simps char_of_byte_val)
  qed
qed

lemma labels_complete:
  assumes "drop offset bs = encode_name new @ rest" "list_all (\<lambda>l. 1 \<le> length l \<and> length l \<le> 63) new"
    and "start \<le> offset" "offset - start + length (encode_name new) \<le> 255" "length bs < 2 ^ 64"
  shows "dns_labels_from bs start offset labels = Some (labels @ new, offset + length (encode_name new))"
  using assms
proof (induction new arbitrary: offset labels)
  case Nil
  then have d: "drop offset bs = char_of (0 :: nat) # rest" by (simp add: encode_name_simps)
  then have "offset < length bs" by (metis drop_eq_Nil list.distinct(1) not_le)
  moreover from d this have "bs ! offset = char_of (0 :: nat)" by (metis Cons_nth_drop_Suc list.inject)
  ultimately show ?case using Nil by (subst dns_labels_from.simps) (simp add: encode_name_simps byte_val_char_of Let_def)
next
  case (Cons l new)
  then have d: "drop offset bs = char_of (length l) # l @ encode_name new @ rest" by (simp add: encode_name_simps)
  then have off: "offset < length bs" by (metis drop_eq_Nil list.distinct(1) not_le)
  with d have c: "bs ! offset = char_of (length l)" "drop (offset + 1) bs = l @ encode_name new @ rest"
    by (metis Cons_nth_drop_Suc list.inject, metis Cons_nth_drop_Suc Suc_eq_plus1 list.inject)
  have l: "l \<noteq> []" "length l \<le> 63" using Cons.prems(2) by auto
  then have n: "byte_val (bs ! offset) = length l" using c(1) by (simp add: byte_val_char_of)
  have dl: "drop (offset + 1 + length l) bs = encode_name new @ rest" using c(2) by (metis add.commute append_eq_conv_conj drop_drop)
  have len: "offset + 1 + length l \<le> length bs" using arg_cong [OF c(2), of length] off by simp
  have IH: "dns_labels_from bs start (offset + 1 + length l) (labels @ [l])
      = Some ((labels @ [l]) @ new, offset + 1 + length l + length (encode_name new))"
    using Cons.prems by (intro Cons.IH [OF dl]) (auto simp: encode_name_simps)
  have "length (encode_name (l # new)) = 1 + length l + length (encode_name new)" by (simp add: encode_name_simps)
  then have "offset + 1 - start + length l < 255" using Cons.prems(3,4) encode_name_pos [of new] by linarith
  then show ?case using off n l len IH c(2) Cons.prems(5)
    by (subst dns_labels_from.simps) (simp add: Let_def checked_add_def get_range_def encode_name_simps)
qed

text \<open>A name is read exactly when it is there.\<close>

lemma dns_labels_iff:
  assumes "length bs < 2 ^ 64"
  shows "dns_labels bs offset = Some (ls, stop) \<longleftrightarrow>
    name_ok ls \<and> stop = offset + length (encode_name ls) \<and> (\<exists>rest. drop offset bs = encode_name ls @ rest)"
  using labels_sound [of bs offset offset "[]" ls stop] labels_complete [of offset bs ls _ offset "[]"] assms
  unfolding dns_labels_def name_ok_def by auto

section \<open>The grammar of a pointer record\<close>

definition be16 :: "nat \<Rightarrow> bytes" where
  "be16 n = [char_of (n div 256), char_of (n mod 256)]"

definition ptr_record :: "bytes list \<Rightarrow> bytes \<Rightarrow> bytes list \<Rightarrow> bytes" where
  "ptr_record owner ttl labels =
     encode_name owner @ be16 DNS_TYPE_PTR @ be16 DNS_CLASS_IN @ ttl @ be16 (length (encode_name labels)) @ encode_name labels"

lemma u16_be16: "n < 65536 \<Longrightarrow> u16_from_be_bytes (be16 n) = n"
  by (simp add: u16_from_be_bytes_def be16_def byte_val_def)

lemma be16_u16: "length bs = 2 \<Longrightarrow> be16 (u16_from_be_bytes bs) = bs"
proof -
  assume "length bs = 2"
  then obtain a b where "bs = [a, b]" by (metis (no_types, opaque_lifting) Suc_length_conv length_0_conv numeral_2_eq_2)
  moreover have "byte_val b < 256" by simp
  ultimately show ?thesis by (simp add: be16_def u16_from_be_bytes_def char_of_byte_val)
qed

lemma take_bytes_iff:
  assumes "length bs < 2 ^ 64"
  shows "take_bytes n bs offset = Some (v, stop) \<longleftrightarrow> stop = offset + n \<and> stop \<le> length bs \<and> v = take n (drop offset bs)"
  using assms by (auto simp: take_bytes_def checked_add_def get_range_def)

lemma take_u16_iff:
  assumes "length bs < 2 ^ 64"
  shows "take_u16 bs offset = Some (v, stop) \<longleftrightarrow>
    stop = offset + 2 \<and> stop \<le> length bs \<and> v < 65536 \<and> take 2 (drop offset bs) = be16 v"
proof
  assume "take_u16 bs offset = Some (v, stop)"
  then obtain w where w: "take_bytes 2 bs offset = Some (w, stop)" "v = u16_from_be_bytes w" by (auto simp: take_u16_def)
  then have t: "stop = offset + 2" "stop \<le> length bs" "w = take 2 (drop offset bs)" using take_bytes_iff [OF assms] by blast+
  then have "length w = 2" by simp
  moreover have "u16_from_be_bytes w < 65536"
    using byte_val_less [of "w ! 0"] byte_val_less [of "w ! 1"] unfolding u16_from_be_bytes_def by linarith
  ultimately show "stop = offset + 2 \<and> stop \<le> length bs \<and> v < 65536 \<and> take 2 (drop offset bs) = be16 v"
    using t w(2) be16_u16 by metis
next
  assume "stop = offset + 2 \<and> stop \<le> length bs \<and> v < 65536 \<and> take 2 (drop offset bs) = be16 v"
  then show "take_u16 bs offset = Some (v, stop)"
    using take_bytes_iff [OF assms, of 2 offset "be16 v" stop] u16_be16 by (simp add: take_u16_def)
qed

lemma ptr_split:
  assumes "length rec < 2 ^ 64"
  shows "ptr_instance rec service domain = Some name \<longleftrightarrow>
    (\<exists>owner o1 ttl labels suffix. dns_labels rec 0 = Some (owner, o1) \<and> labels_match owner (service @ ''.'' @ domain)
      \<and> take_u16 rec o1 = Some (DNS_TYPE_PTR, o1 + 2) \<and> take_u16 rec (o1 + 2) = Some (DNS_CLASS_IN, o1 + 4)
      \<and> take_bytes 4 rec (o1 + 4) = Some (ttl, o1 + 8) \<and> take_u16 rec (o1 + 8) = Some (length rec - (o1 + 10), o1 + 10)
      \<and> dns_labels rec (o1 + 10) = Some (labels, length rec) \<and> labels = name # suffix
      \<and> labels_match suffix (service @ ''.'' @ domain) \<and> utf8_valid name)"
proof
  assume "ptr_instance rec service domain = Some name"
  then obtain owner o1 ty o2 cl o3 ttl o4 len o5 stop labels o6 suffix where
    "dns_labels rec 0 = Some (owner, o1)" "labels_match owner (service @ ''.'' @ domain)"
    "take_u16 rec o1 = Some (ty, o2)" "take_u16 rec o2 = Some (cl, o3)" "take_bytes 4 rec o3 = Some (ttl, o4)"
    "take_u16 rec o4 = Some (len, o5)" "checked_add o5 len = Some stop" "ty = DNS_TYPE_PTR" "cl = DNS_CLASS_IN" "stop = length rec"
    "dns_labels (take stop rec) o5 = Some (labels, o6)" "o6 = stop" "labels = name # suffix"
    "labels_match suffix (service @ ''.'' @ domain)" "utf8_valid name"
    unfolding ptr_instance_def Let_def
    by (auto simp: bind_eq_Some_conv split: if_splits prod.splits list.splits)
  moreover from this have "o2 = o1 + 2" "o3 = o1 + 4" "o4 = o1 + 8" "o5 = o1 + 10" "len = length rec - o5"
    using take_u16_iff [OF assms] take_bytes_iff [OF assms] by (auto simp: checked_add_def split: if_splits)
  ultimately show "\<exists>owner o1 ttl labels suffix. dns_labels rec 0 = Some (owner, o1) \<and> labels_match owner (service @ ''.'' @ domain)
      \<and> take_u16 rec o1 = Some (DNS_TYPE_PTR, o1 + 2) \<and> take_u16 rec (o1 + 2) = Some (DNS_CLASS_IN, o1 + 4)
      \<and> take_bytes 4 rec (o1 + 4) = Some (ttl, o1 + 8) \<and> take_u16 rec (o1 + 8) = Some (length rec - (o1 + 10), o1 + 10)
      \<and> dns_labels rec (o1 + 10) = Some (labels, length rec) \<and> labels = name # suffix
      \<and> labels_match suffix (service @ ''.'' @ domain) \<and> utf8_valid name" by auto
next
  assume "\<exists>owner o1 ttl labels suffix. dns_labels rec 0 = Some (owner, o1) \<and> labels_match owner (service @ ''.'' @ domain)
      \<and> take_u16 rec o1 = Some (DNS_TYPE_PTR, o1 + 2) \<and> take_u16 rec (o1 + 2) = Some (DNS_CLASS_IN, o1 + 4)
      \<and> take_bytes 4 rec (o1 + 4) = Some (ttl, o1 + 8) \<and> take_u16 rec (o1 + 8) = Some (length rec - (o1 + 10), o1 + 10)
      \<and> dns_labels rec (o1 + 10) = Some (labels, length rec) \<and> labels = name # suffix
      \<and> labels_match suffix (service @ ''.'' @ domain) \<and> utf8_valid name"
  then obtain owner o1 ttl suffix where P: "dns_labels rec 0 = Some (owner, o1)" "labels_match owner (service @ ''.'' @ domain)"
    "take_u16 rec o1 = Some (DNS_TYPE_PTR, o1 + 2)" "take_u16 rec (o1 + 2) = Some (DNS_CLASS_IN, o1 + 4)"
    "take_bytes 4 rec (o1 + 4) = Some (ttl, o1 + 8)" "take_u16 rec (o1 + 8) = Some (length rec - (o1 + 10), o1 + 10)"
    "dns_labels rec (o1 + 10) = Some (name # suffix, length rec)" "labels_match suffix (service @ ''.'' @ domain)" "utf8_valid name"
    by blast
  have "o1 + 10 \<le> length rec" using P(6) take_u16_iff [OF assms] by blast
  then have "checked_add (o1 + 10) (length rec - (o1 + 10)) = Some (length rec)" using assms by (simp add: checked_add_def)
  with P show "ptr_instance rec service domain = Some name" unfolding ptr_instance_def Let_def by simp
qed

lemma ptr_read:
  assumes "length rec < 2 ^ 64"
  shows "dns_labels rec 0 = Some (owner, o1) \<and> take_u16 rec o1 = Some (DNS_TYPE_PTR, o1 + 2) \<and> take_u16 rec (o1 + 2) = Some (DNS_CLASS_IN, o1 + 4)
      \<and> take_bytes 4 rec (o1 + 4) = Some (ttl, o1 + 8) \<and> take_u16 rec (o1 + 8) = Some (length rec - (o1 + 10), o1 + 10)
      \<and> dns_labels rec (o1 + 10) = Some (labels, length rec)
    \<longleftrightarrow> name_ok owner \<and> name_ok labels \<and> o1 = length (encode_name owner) \<and> length ttl = 4 \<and> rec = ptr_record owner ttl labels"
  (is "?l \<longleftrightarrow> ?r")
proof
  assume ?l
  then have p: "dns_labels rec 0 = Some (owner, o1)" "take_u16 rec o1 = Some (DNS_TYPE_PTR, o1 + 2)" "take_u16 rec (o1 + 2) = Some (DNS_CLASS_IN, o1 + 4)"
    "take_bytes 4 rec (o1 + 4) = Some (ttl, o1 + 8)" "take_u16 rec (o1 + 8) = Some (length rec - (o1 + 10), o1 + 10)"
    "dns_labels rec (o1 + 10) = Some (labels, length rec)" by simp_all
  note q = p [unfolded dns_labels_iff [OF assms] take_u16_iff [OF assms] take_bytes_iff [OF assms]]
  have L: "name_ok owner" "o1 = length (encode_name owner)" "\<exists>rest. rec = encode_name owner @ rest"
      "take 2 (drop o1 rec) = be16 DNS_TYPE_PTR" "take 2 (drop (o1 + 2) rec) = be16 DNS_CLASS_IN"
      "o1 + 8 \<le> length rec" "ttl = take 4 (drop (o1 + 4) rec)" "take 2 (drop (o1 + 8) rec) = be16 (length rec - (o1 + 10))"
      "name_ok labels" "length rec = o1 + 10 + length (encode_name labels)" "\<exists>rest. drop (o1 + 10) rec = encode_name labels @ rest"
    using q by simp_all
  have data: "drop (o1 + 10) rec = encode_name labels" using L(10,11) by (metis add_diff_cancel_left' append.right_neutral append_eq_append_conv length_append length_drop)
  have "drop o1 rec = be16 DNS_TYPE_PTR @ be16 DNS_CLASS_IN @ ttl @ be16 (length (encode_name labels)) @ drop (o1 + 10) rec"
  proof -
    have cut: "drop a rec = take k (drop a rec) @ drop b rec" if "b = a + k" for a b k
      using that by (metis add.commute append_take_drop_id drop_drop)
    have len: "length rec - (o1 + 10) = length (encode_name labels)" using L(10) by simp
    have c1: "drop o1 rec = be16 DNS_TYPE_PTR @ drop (o1 + 2) rec" using cut [of "o1 + 2" o1 2, OF refl, unfolded L(4)] .
    have c2: "drop (o1 + 2) rec = be16 DNS_CLASS_IN @ drop (o1 + 4) rec" using cut [of "o1 + 4" "o1 + 2" 2, unfolded L(5)] by simp
    have c3: "drop (o1 + 4) rec = ttl @ drop (o1 + 8) rec" using cut [of "o1 + 8" "o1 + 4" 4, folded L(7)] by simp
    have c4: "drop (o1 + 8) rec = be16 (length (encode_name labels)) @ drop (o1 + 10) rec"
      using cut [of "o1 + 10" "o1 + 8" 2, unfolded L(8) len] by simp
    show ?thesis by (subst c1, subst c2, subst c3, subst c4) simp
  qed
  moreover have "rec = encode_name owner @ drop o1 rec" using L(2,3) by auto
  ultimately show ?r using L data by (simp add: ptr_record_def)
next
  assume ?r
  then have r: "rec = ptr_record owner ttl labels" "o1 = length (encode_name owner)" "length ttl = 4" "name_ok owner" "name_ok labels" by simp_all
  have two: "length (be16 n) = 2" for n by (simp add: be16_def)
  have len: "length rec = o1 + 10 + length (encode_name labels)" "length (encode_name labels) < 65536"
    using r by (simp_all add: ptr_record_def two name_ok_def)
  have d: "drop 0 rec = encode_name owner @ drop o1 rec" "take 2 (drop o1 rec) = be16 DNS_TYPE_PTR" "take 2 (drop (o1 + 2) rec) = be16 DNS_CLASS_IN"
      "take 4 (drop (o1 + 4) rec) = ttl" "take 2 (drop (o1 + 8) rec) = be16 (length (encode_name labels))" "drop (o1 + 10) rec = encode_name labels"
    using r(2,3) by (simp_all add: r(1) ptr_record_def two be16_def)
  show ?l unfolding dns_labels_iff [OF assms] take_u16_iff [OF assms] take_bytes_iff [OF assms]
    using d r(2,4,5) len by (intro conjI) (auto simp: DNS_TYPE_PTR_def DNS_CLASS_IN_def)
qed

text \<open>
  A pointer record is read exactly when it is well formed. The instance name is returned if and only if
  the bytes are, to the last one, an owner name equal to the service type in the domain up to case, the type PTR and the class IN,
  four bytes of lifetime, and a data part of the stated length that is one name: the instance, in UTF-8, followed by the
  service type and the domain. Every label has 1 to 63 bytes and every name at most 255.
\<close>

theorem ptr_record_grammar:
  assumes "length rec < 2 ^ 64"
  shows "ptr_instance rec service domain = Some name \<longleftrightarrow>
    (\<exists>owner ttl suffix. rec = ptr_record owner ttl (name # suffix) \<and> length ttl = 4 \<and> name_ok owner \<and> name_ok (name # suffix)
       \<and> labels_match owner (service @ ''.'' @ domain) \<and> labels_match suffix (service @ ''.'' @ domain) \<and> utf8_valid name)"
  unfolding ptr_split [OF assms]
proof ((rule iffI; elim exE conjE), goal_cases)
  case (1 owner o1 ttl labels suffix)
  then have "name_ok owner \<and> name_ok labels \<and> o1 = length (encode_name owner) \<and> length ttl = 4 \<and> rec = ptr_record owner ttl labels"
    by (intro iffD1 [OF ptr_read [OF assms]]) simp
  with 1 show ?case by (intro exI [of _ owner] exI [of _ ttl] exI [of _ suffix]) simp
next
  case (2 owner ttl suffix)
  then have "dns_labels rec 0 = Some (owner, length (encode_name owner)) \<and> take_u16 rec (length (encode_name owner)) = Some (DNS_TYPE_PTR, length (encode_name owner) + 2)
      \<and> take_u16 rec (length (encode_name owner) + 2) = Some (DNS_CLASS_IN, length (encode_name owner) + 4)
      \<and> take_bytes 4 rec (length (encode_name owner) + 4) = Some (ttl, length (encode_name owner) + 8)
      \<and> take_u16 rec (length (encode_name owner) + 8) = Some (length rec - (length (encode_name owner) + 10), length (encode_name owner) + 10)
      \<and> dns_labels rec (length (encode_name owner) + 10) = Some (name # suffix, length rec)"
    by (intro iffD2 [OF ptr_read [OF assms]]) simp
  with 2 show ?case
    by (intro exI [of _ owner] exI [of _ "length (encode_name owner)"] exI [of _ ttl] exI [of _ "name # suffix"] exI [of _ suffix]) simp
qed

definition demo_ptr :: bytes where
  "demo_ptr = ptr_record [''_x'', ''_tcp'', ''local''] (replicate 4 (char_of (0 :: nat))) [''A b'', ''_x'', ''_tcp'', ''local'']"

theorem ptr_record_grammar_witness: "length demo_ptr < 2 ^ 64 \<and> ptr_instance demo_ptr ''_x._tcp'' ''local'' = Some ''A b''"
proof
  show l: "length demo_ptr < 2 ^ 64" by (simp add: demo_ptr_def ptr_record_def encode_name_simps be16_def)
  have "name_ok [''_x'', ''_tcp'', ''local'']" "name_ok [''A b'', ''_x'', ''_tcp'', ''local'']" by (simp_all add: name_ok_def encode_name_simps)
  moreover have "labels_match [''_x'', ''_tcp'', ''local''] (''_x._tcp'' @ ''.'' @ ''local'')" "utf8_valid ''A b''" by code_simp+
  ultimately show "ptr_instance demo_ptr ''_x._tcp'' ''local'' = Some ''A b''"
    unfolding ptr_record_grammar [OF l] unfolding demo_ptr_def
    by (intro exI [of _ "[''_x'', ''_tcp'', ''local'']"] exI [of _ "replicate 4 (char_of (0 :: nat))"]) auto
qed

section \<open>The instances that are resolved\<close>

definition candidates :: "service_query \<Rightarrow> resolved_record list \<Rightarrow> (int \<times> string) list" where
  "candidates query records = List.map_filter (\<lambda>r. case browse_instance r query of Inr c \<Rightarrow> c | Inl _ \<Rightarrow> None) records"

fun first_seen :: "('a \<Rightarrow> 'b) \<Rightarrow> 'b set \<Rightarrow> 'a list \<Rightarrow> 'a list" where
  "first_seen key seen [] = []"
| "first_seen key seen (x # xs) = (if key x \<in> seen then first_seen key seen xs else x # first_seen key (insert (key x) seen) xs)"

lemma candidates_simps: "candidates query [] = []"
  "candidates query (r # rs) = (case browse_instance r query of Inr (Some c) \<Rightarrow> c # candidates query rs | _ \<Rightarrow> candidates query rs)"
  by (auto simp: candidates_def map_filter_simps split: sum.splits option.splits)

lemma first_seen_distinct: "distinct (map key (first_seen key seen xs)) \<and> set (map key (first_seen key seen xs)) \<inter> seen = {}"
  by (induction xs arbitrary: seen) (auto simp: image_iff disjoint_iff)

lemma browse_message: "browse_instance r query = Inl m \<Longrightarrow> m \<noteq> instance_limit_warning"
  by (auto simp: browse_instance_def instance_limit_warning_def split: prod.splits if_splits option.splits)

lemma browse_from_first: "fst (browse_from query rs seen room) = take room (first_seen instance_key seen (candidates query rs))"
  by (induction query rs seen room rule: browse_from.induct)
    (auto simp: candidates_simps take_Cons' split: sum.splits option.splits)

lemma browse_from_warning:
  "instance_limit_warning \<in> set (snd (browse_from query rs seen room)) \<longleftrightarrow> room < length (first_seen instance_key seen (candidates query rs))"
  by (induction query rs seen room rule: browse_from.induct)
    (auto simp: candidates_simps browse_message dest: browse_message split: sum.splits option.splits)

text \<open>
  Browsing resolves the first 128 instances and says so when there were more. The instances taken are the
  first 128, in order, of those that the accepted records name, each name counted once per interface and without
  regard to case; the warning is given exactly when a further one was left out.
\<close>

theorem browse_first_instances:
  "fst (browse_instances records query) = take 128 (first_seen instance_key {} (candidates query records))
    \<and> distinct (map instance_key (fst (browse_instances records query)))
    \<and> (instance_limit_warning \<in> set (snd (browse_instances records query)) \<longleftrightarrow>
         128 < length (first_seen instance_key {} (candidates query records)))"
proof -
  have "distinct (map instance_key (first_seen instance_key {} (candidates query records)))" using first_seen_distinct by blast
  then have "distinct (map instance_key (take 128 (first_seen instance_key {} (candidates query records))))"
    by (metis distinct_take take_map)
  then show ?thesis
    unfolding browse_instances_def MAX_DISCOVERY_INSTANCES_def browse_from_first browse_from_warning by simp
qed

end
