(* ===== verification/Spec2Isabelle.thy ===== *)
theory Spec2Isabelle
  imports Admission Scan_Schedule Tasks Status_Observation Connect_Request Portal
    Forget Hotspot Wifi_Band Cast_Policy Cache Discovery
begin

text \<open>
  A verification of nm-daemon, a per-user network daemon written in Rust that sits between
  NetworkManager and desktop frontends.

  \<^bold>\<open>The program.\<close> Frontends speak a JSON protocol over D-Bus or a socket (\<open>src/protocol.rs\<close>,
  \<open>src/daemon_event.rs\<close>). The runtime (\<open>src/daemon_runtime.rs\<close> and its directory) registers each
  asynchronous request as a task, owns the subscriptions of each client, decides which connection
  attempts may start and when shared reads of NetworkManager run. Status reads become revisioned
  observations and per-subscriber deltas (\<open>src/daemon_status\<close>). A connect request is turned into
  candidates and executed by the application layer (\<open>src/application.rs\<close>), which drives the connection
  machine (\<open>src/connect.rs\<close>); the machine scans through a per-device scheduler
  (\<open>src/nm/scan_schedule.rs\<close>) and waits for an activation (\<open>src/connect_wait.rs\<close>,
  \<open>src/activation.rs\<close>), during which NetworkManager may call the secret agent
  (\<open>src/daemon_secret.rs\<close>), which asks the frontends and afterwards has the credentials saved
  (\<open>src/daemon_secret/persistence.rs\<close>). After a connection a captive portal may be opened
  (\<open>src/portal.rs\<close>). Under \<open>src/nm\<close> are the programs that talk to NetworkManager: they read devices,
  access points and saved profiles, build and submit new profiles, edit saved ones and switch radios,
  hotspots and bands. A separate privileged service (\<open>src/cast_policy\<close>) keeps the firewall closed on
  networks where discovery is off. The data these parts exchange is \<open>src/model.rs\<close>; every failure is a
  typed error (\<open>src/error.rs\<close>).

  \<^bold>\<open>Conventions.\<close> A Rust \<open>String\<close> is its UTF-8 byte sequence, so a length or a prefix counts bytes as the
  code does; \<open>u8\<close>, \<open>u32\<close> and \<open>u64\<close> are words; \<open>Instant\<close> and \<open>Duration\<close> are nanoseconds; a \<open>HashMap\<close> is an
  association list with distinct keys (\<open>hm_wf\<close>) whose order stands for the unspecified iteration order;
  \<open>Result\<close> is a sum with the error on the left; a lock's critical section is one definition or one step.
  What is not under \<open>src/\<close> is a parameter: NetworkManager's answers, the clock, random numbers, the
  result of a file write and a hash are arguments or an environment that the theorems quantify over.

  \<^bold>\<open>Shared theories.\<close>
  \<^item> \<open>Prelude\<close>: bytes, time, results, association lists and the interface \<open>table\<close> with its
    interpretation \<open>hm\<close>; \<open>Utf8\<close> validity and lossy decoding; \<open>Json\<close> the values of \<open>serde_json\<close>, whose
    objects are the interpretation \<open>jm\<close> of \<open>table\<close>.
  \<^item> Interfaces: \<open>Gate\<close> (\<open>exclusive_gate\<close>: at most one holder per identity), interpreted by admission
    and by the scan scheduler; \<open>Codec\<close> (\<open>codec\<close>, \<open>exact_codec\<close>: names that read back), interpreted by the
    method and stream names, the wire forms and the SSID keys; \<open>Owners\<close> (\<open>owner_scoped\<close>: dropping a client
    drops its entries only), interpreted by subscriptions and health feedback; \<open>Revisions\<close>
    (\<open>revision_chain\<close>: a cursor identifies its content), interpreted by the network deltas and by the
    status observation.
  \<^item> \<open>Nm_Io\<close>: programs that ask NetworkManager (and the clock, the other threads, the random device) one
    question after the other. An environment answers each question from the whole history before it, so
    quantifying over environments covers every behaviour of the outside, also between two questions.
    \<open>Nm_Reads\<close> states the interface \<open>nm_reader\<close>: a contract on questions that every reading program keeps;
    forgetting, activation and band selection interpret it with the questions they count.

  \<^bold>\<open>Components\<close>, each with the source it models and what is shown.
  \<^item> \<open>Errors\<close> (\<open>src/error.rs\<close>, \<open>src/connect_error.rs\<close>): the error type, the chain of causes and the
    classification of foreign errors. Normalising an error keeps its report; a connect reason
    survives its error.
  \<^item> \<open>Protocol\<close>, \<open>Events\<close> (\<open>src/protocol.rs\<close>, \<open>src/daemon_event.rs\<close>): the registries of methods and
    streams and the emission of events. Names and rows agree; a failed operation is reported once.
  \<^item> \<open>Security\<close>, \<open>Networks\<close>, \<open>Network_Entries\<close>, \<open>Connect_Target\<close> (\<open>src/model.rs\<close>, \<open>src/auth.rs\<close>,
    \<open>src/model/identity.rs\<close>, \<open>src/model/wire_v1.rs\<close>): what a scanned flag word means, when two access
    points are one network, what an entry announces, the target of a connection and its wire form. The
    list represents every access point once; keys and wire forms read back; a target is on the
    selected network.
  \<^item> \<open>Qr\<close> (\<open>src/qr.rs\<close>): export and intake of Wi-Fi codes; what the parser admits reads back.
  \<^item> \<open>Admission\<close> (\<open>src/daemon_runtime/admission.rs\<close>): one attempt per network, and the delay after a
    rejected password.
  \<^item> \<open>Scan_Schedule\<close> (\<open>src/nm/scan_schedule.rs\<close>, \<open>src/deadline.rs\<close>): one scan per device in every
    interleaving of callers; a waiting caller always gets an outcome; the rate limit is exact.
  \<^item> \<open>Subscriptions\<close>, \<open>Health_Feedback\<close> (\<open>src/daemon_runtime/subscriptions.rs\<close>,
    \<open>src/daemon_runtime/health_feedback.rs\<close>, \<open>src/daemon_status.rs\<close>): ownership of subscriptions, the
    shared refresh, which forgets no demand unless the full work queue refuses it, the exact events
    of a refresh, and the notification policy.
  \<^item> \<open>Network_Updates\<close>, \<open>Status_Observation\<close> (\<open>src/daemon_status\<close>): a subscriber that applies the deltas
    has the list the daemon has; a revision names one content, also when the revision number would
    leave the range a frontend can represent.
  \<^item> \<open>Tasks\<close> (\<open>src/daemon_runtime.rs\<close>): registered requests have one terminal outcome and are visible
    to their owner only.
  \<^item> \<open>Reasons\<close>, \<open>Activation_Wait\<close> (\<open>src/model/reason.rs\<close>, \<open>src/connect_wait.rs\<close>, \<open>src/activation.rs\<close>): the
    wait for an activation ends for a stated reason, and its verdict equals the one read off the
    uninterrupted window of failures.
  \<^item> \<open>Connectivity\<close>, \<open>Connection\<close> (\<open>src/nm/connectivity.rs\<close>, \<open>src/connect.rs\<close>): the machine of one
    attempt, its cleanup and its result. A deletion is an effect that carries NetworkManager's answer: the
    theorems say that it was requested, not that it was carried out.
  \<^item> \<open>Connect_Request\<close> (\<open>src/application.rs\<close>): candidates, their ranking and the execution of a request
    with its events; it composes the machine of \<open>Connection\<close>.
  \<^item> \<open>Portal\<close> (\<open>src/portal.rs\<close>, \<open>src/portal/ledger.rs\<close>): captive-portal launches and their ledger on
    disk, through failed writes and restarts; it reads the connection snapshot of \<open>Connectivity\<close> and the
    finished tasks of \<open>Tasks\<close>.
  \<^item> \<open>Credentials\<close>, \<open>Secret_Agent\<close> (\<open>src/network_credentials.rs\<close>, \<open>src/variant.rs\<close>,
    \<open>src/daemon_secret.rs\<close>, \<open>src/daemon_secret/session.rs\<close>): where credentials live in a profile, and
    the agent as a transition system of NetworkManager's calls, workers and frontends. Prompts are
    unique and withdrawn before they are reused, an answer is used once, comes from a frontend that
    was asked and is applied exactly to the requested credentials.
  \<^item> \<open>Channels\<close>, \<open>Profile_Settings\<close>, \<open>Profile_Update\<close>, \<open>Profile_Writes\<close> (\<open>src/nm/settings.rs\<close> and its
    directory, \<open>src/nm/ip_settings.rs\<close>, \<open>src/nm/profile_policy.rs\<close>, \<open>src/nm/credential_writer.rs\<close>): what a
    saved profile says, the update of the editor, and the write. Updated fields read back; a write is
    conditional on the version it was computed from and keeps the stored credentials.
  \<^item> \<open>Durable_Save\<close> (\<open>src/daemon_secret/persistence.rs\<close>, \<open>src/daemon_secret/storage.rs\<close>): the save after an
    answered prompt and the queue of saves. A save is reported stored only after verification, ends, and
    never starts once it was invalidated.
  \<^item> \<open>Devices\<close> (\<open>src/nm/devices.rs\<close>, \<open>src/nm/status.rs\<close>): devices, access points, the radio switches with
    airplane mode, disconnection and the profiles offered for an access point.
  \<^item> \<open>New_Profile\<close>, \<open>Wifi_Activation\<close> (\<open>src/nm/wifi_settings.rs\<close> and its directory, \<open>src/nm/activate.rs\<close>): the
    settings of new profiles and their submission, which carries the policy of the request.
  \<^item> \<open>Forget\<close> (\<open>src/forget.rs\<close>): forgetting a network, which deletes only what is safe to delete and reports
    exactly what was acknowledged.
  \<^item> \<open>Hotspot\<close> (\<open>src/nm/hotspot.rs\<close>, \<open>src/daemon_hotspot.rs\<close>, \<open>src/random.rs\<close>): hotspots, taken back when they
    do not start, and generated passphrases, which are unbiased.
  \<^item> \<open>Wifi_Band\<close> (\<open>src/nm/band.rs\<close>): the selection of a band by two fenced writes, compensated when it fails.
  \<^item> \<open>Cast_Policy\<close> (\<open>src/cast_policy\<close>): the firewall service, which fails closed; no interface name can
    inject text into its batch.
  \<^item> \<open>Storage\<close>, \<open>Cache\<close> (\<open>src/cache.rs\<close>, \<open>src/cache\<close>): private files over a disk whose operations may fail
    at any point, rotating histories that keep their order, and the cache of what is known. The
    interfaces \<open>disk_view\<close> and \<open>node_view\<close> say what an operation leaves as it was; the nodes, the contents
    and the links of the disk interpret them.
  \<^item> \<open>Discovery\<close> (\<open>src/discovery.rs\<close>): service discovery. A pointer record is read exactly when it is well
    formed; the first instances are resolved.

  \<^bold>\<open>Loops and bounds.\<close> Structural recursion is used wherever the code iterates over data. The connection
  machine runs at most seven phases, which is the rank of its states (\<open>state_rank\<close>), so it needs no
  fuel. The loop of a connect request decreases the candidates left. The activation wait, the wait of a
  durable save, the confirmation of a disconnection and the wait for a hotspot take fuel. Their theorems
  give the number of rounds after which an answer exists once the clock reaches the deadline, or under
  the law that a pause takes time (\<open>clock_law\<close>, with 201 rounds for the twenty seconds of a hotspot). The
  draw of a passphrase may reject any number of bytes; out of fuel, a start has changed nothing.
  Concurrent parts are inductive step relations and the theorems hold for every reachable state.

  \<^bold>\<open>Known deviations of the code.\<close> Modelling showed some, proved as lemmas beside the definitions: a network
  key accepts a sign in its hexadecimal digits (\<open>network_key_accepts_sign\<close>), the code shared for an SSID
  that is not UTF-8 names another SSID (\<open>share_code_lossy_ssid\<close>), clearing the cloned address drops the
  address policy (\<open>clearing_cloned_address_drops_policy\<close>), a BSSID restriction written by the editor does
  not restrict (\<open>written_bssid_not_matched\<close>). The theorems are stated so that they hold with them.

  \<^bold>\<open>Not modelled.\<close> The D-Bus and socket transports and the dispatch of requests (\<open>src/daemon.rs\<close>,
  \<open>src/daemon_dispatch.rs\<close>, \<open>src/daemon_forward.rs\<close>) are I/O around crates that are not in the repository.
  The readers of inventory, health, statistics and IP status under \<open>src/nm\<close>, virtual private networks,
  diagnosis and the migration of stored credentials are not modelled; nor is the wait for a band's
  reconnection, which is one answer in \<open>Wifi_Band\<close>. Command-line output, logging, generated constants and
  reference documentation (\<open>src/contract.rs\<close>) have no behaviour to verify.
\<close>

end
